(* ===== verification/Prelude.thy ===== *)
theory Prelude
  imports Main "HOL-Library.Word" "HOL-Library.Monad_Syntax" "HOL-Library.Signed_Division"
begin

text \<open>
  What every theory of the development shares: bytes and byte slices, Go's checked indexing
  and slicing, the fixed-width integer conversions and the truncated division of Go, and the
  named collections the component proofs use.

  A Go operation that can panic (an index or a slice out of range) is a partial function:
  \<open>None\<close> is the panic, and the \<open>do\<close> notation of \<^theory_text>\<open>Monad_Syntax\<close> propagates it the way
  the panic unwinds.
\<close>

unbundle bit_operations_syntax

named_theorems run_simps
named_theorems wf_intros

type_synonym byte = "8 word"
type_synonym bytes = "byte list"

section \<open>Checked indexing and slicing\<close>

definition idx :: "'a list \<Rightarrow> nat \<Rightarrow> 'a option" where
  "idx xs i = (if i < length xs then Some (xs ! i) else None)"

definition subslice :: "'a list \<Rightarrow> nat \<Rightarrow> nat \<Rightarrow> 'a list option" where
  "subslice xs lo hi = (if lo \<le> hi \<and> hi \<le> length xs then Some (take (hi - lo) (drop lo xs)) else None)"

definition sub_idx :: "nat \<Rightarrow> nat \<Rightarrow> nat option" where
  "sub_idx a b = (if b \<le> a then Some (a - b) else None)"

text \<open>\<open>sub_idx\<close> is an index expression \<open>a - b\<close>: a negative index panics when it is used.\<close>

lemma idx_Some_iff [simp]: "idx xs i = Some x \<longleftrightarrow> i < length xs \<and> xs ! i = x"
  by (auto simp: idx_def)

lemma idx_None_iff [simp]: "idx xs i = None \<longleftrightarrow> length xs \<le> i"
  by (auto simp: idx_def)

lemma idx_in [simp]: "i < length xs \<Longrightarrow> idx xs i = Some (xs ! i)"
  by (simp add: idx_def)

lemma subslice_Some_iff: "subslice xs lo hi = Some ys \<longleftrightarrow>
    lo \<le> hi \<and> hi \<le> length xs \<and> ys = take (hi - lo) (drop lo xs)"
  by (auto simp: subslice_def)

lemma subslice_in [simp]: "lo \<le> hi \<Longrightarrow> hi \<le> length xs \<Longrightarrow> subslice xs lo hi = Some (take (hi - lo) (drop lo xs))"
  by (simp add: subslice_def)

lemma subslice_length: "subslice xs lo hi = Some ys \<Longrightarrow> length ys = hi - lo"
  by (auto simp: subslice_def split: if_splits)

lemma sub_idx_in [simp]: "b \<le> a \<Longrightarrow> sub_idx a b = Some (a - b)"
  by (simp add: sub_idx_def)

lemma sub_idx_Some_iff: "sub_idx a b = Some c \<longleftrightarrow> b \<le> a \<and> c = a - b"
  by (auto simp: sub_idx_def)

lemma nth_append_take_drop: "i < n \<Longrightarrow> n \<le> length xs - k \<Longrightarrow> take n (drop k xs) ! i = xs ! (k + i)"
  by simp

text \<open>\<open>xs[i - k]\<close>, \<open>xs[len(xs) - k:]\<close> and \<open>xs[lo : len(xs) - k]\<close>.\<close>

definition idx_back :: "'a list \<Rightarrow> nat \<Rightarrow> nat \<Rightarrow> 'a option" where
  "idx_back xs i k = (if k \<le> i then idx xs (i - k) else None)"

definition last_n :: "'a list \<Rightarrow> nat \<Rightarrow> 'a list option" where
  "last_n xs k = (if k \<le> length xs then Some (drop (length xs - k) xs) else None)"

definition but_last_n :: "'a list \<Rightarrow> nat \<Rightarrow> nat \<Rightarrow> 'a list option" where
  "but_last_n xs lo k = (if k \<le> length xs then subslice xs lo (length xs - k) else None)"

lemma idx_back_in [simp]: "k \<le> i \<Longrightarrow> i - k < length xs \<Longrightarrow> idx_back xs i k = Some (xs ! (i - k))"
  by (simp add: idx_back_def)

lemma last_n_in [simp]: "k \<le> length xs \<Longrightarrow> last_n xs k = Some (drop (length xs - k) xs)"
  by (simp add: last_n_def)

lemma but_last_n_in [simp]: "lo + k \<le> length xs \<Longrightarrow>
    but_last_n xs lo k = Some (take (length xs - k - lo) (drop lo xs))"
  by (simp add: but_last_n_def)

section \<open>Widths\<close>

text \<open>The value of a signed 64-bit computation that wraps.\<close>

definition i64 :: "int \<Rightarrow> int" where
  "i64 x = (x + 2 ^ 63) mod 2 ^ 64 - 2 ^ 63"

definition in_i64 :: "int \<Rightarrow> bool" where
  "in_i64 x \<longleftrightarrow> - (2 ^ 63) \<le> x \<and> x < 2 ^ 63"

lemma i64_id [simp]: "in_i64 x \<Longrightarrow> i64 x = x"
  by (simp add: i64_def in_i64_def)

lemma i64_in [simp]: "in_i64 (i64 x)"
proof -
  have "0 \<le> (x + 2 ^ 63) mod (2 ^ 64 :: int)" and "(x + 2 ^ 63) mod (2 ^ 64 :: int) < 2 ^ 64"
    by simp_all
  then show ?thesis
    by (simp add: i64_def in_i64_def)
qed

lemma i64_idem [simp]: "i64 (i64 x) = i64 x"
  by simp

lemma i64_add [simp]: "i64 (i64 x + y) = i64 (x + y)" "i64 (x + i64 y) = i64 (x + y)"
proof -
  have l: "i64 (i64 x + y) = i64 (x + y)" for x y
  proof -
    have "(i64 x + y + 2 ^ 63) mod 2 ^ 64 = ((x + 2 ^ 63) mod 2 ^ 64 + y) mod 2 ^ 64"
      by (simp add: i64_def algebra_simps)
    also have "\<dots> = (x + 2 ^ 63 + y) mod 2 ^ 64"
      by (rule mod_add_left_eq)
    finally show ?thesis
      by (simp add: i64_def algebra_simps)
  qed
  show "i64 (i64 x + y) = i64 (x + y)" by (rule l)
  show "i64 (x + i64 y) = i64 (x + y)" using l [of y x] by (simp add: add.commute)
qed

lemma i64_sub [simp]: "i64 (i64 x - y) = i64 (x - y)" "i64 (x - i64 y) = i64 (x - y)"
proof -
  show "i64 (i64 x - y) = i64 (x - y)"
    using i64_add(1) [of x "- y"] by simp
  have "(x - i64 y + 2 ^ 63) mod 2 ^ 64 = (x + 2 ^ 64 - (y + 2 ^ 63) mod 2 ^ 64) mod 2 ^ 64"
    by (simp add: i64_def algebra_simps)
  also have "\<dots> = (x + 2 ^ 64 - (y + 2 ^ 63)) mod 2 ^ 64"
    by (rule mod_diff_right_eq)
  also have "\<dots> = (x - y + 2 ^ 63) mod 2 ^ 64"
    by (simp add: algebra_simps)
  finally show "i64 (x - i64 y) = i64 (x - y)"
    by (simp add: i64_def)
qed

text \<open>Go's integer division and remainder truncate towards zero.\<close>

abbreviation go_div :: "int \<Rightarrow> int \<Rightarrow> int" where
  "go_div \<equiv> signed_divide"

abbreviation go_mod :: "int \<Rightarrow> int \<Rightarrow> int" where
  "go_mod \<equiv> signed_modulo"

lemma go_div_nonneg [simp]: "0 \<le> a \<Longrightarrow> 0 < b \<Longrightarrow> go_div a b = a div b"
  by (cases "a = 0") (auto simp: signed_divide_int_def)

lemma go_mod_nonneg [simp]: "0 \<le> a \<Longrightarrow> 0 < b \<Longrightarrow> go_mod a b = a mod b"
  by (cases "a = 0") (auto simp: signed_modulo_int_def)

text \<open>Bytes of a number, the conversions \<open>byte(x)\<close>, \<open>byte(x >> 8)\<close> of the encoders.\<close>

definition byte_at :: "nat \<Rightarrow> nat \<Rightarrow> byte" where
  "byte_at k n = word_of_nat (n div 256 ^ k)"

lemma unat_byte_at: "unat (byte_at k n) = n div 256 ^ k mod 256"
  by (simp add: byte_at_def unat_of_nat)

lemma le16_join: "n < 65536 \<Longrightarrow> unat (byte_at 0 n) + unat (byte_at (Suc 0) n) * 256 = n"
  by (simp add: unat_byte_at)

lemma be16_join: "n < 65536 \<Longrightarrow> unat (byte_at 0 n) + (unat (byte_at (Suc 0) n)) * 256 = n"
  by (rule le16_join)

lemma byte_lt [simp]: "unat (b :: byte) < 256"
  using unsigned_less [of b] by simp

text \<open>Little-endian reads of \<open>encoding/binary\<close>.\<close>

definition le16 :: "byte \<Rightarrow> byte \<Rightarrow> nat" where
  "le16 lo hi = unat lo + unat hi * 256"

lemma le16_lt: "le16 lo hi < 65536"
proof -
  have "unat lo < 256" "unat hi < 256" by simp_all
  then show ?thesis unfolding le16_def by linarith
qed

lemma le16_byte_at [simp]: "n < 65536 \<Longrightarrow> le16 (byte_at 0 n) (byte_at (Suc 0) n) = n"
  by (simp add: le16_def le16_join)

section \<open>Options\<close>

lemma bind_SomeD: "Option.bind m f = Some y \<Longrightarrow> \<exists>x. m = Some x \<and> f x = Some y"
  by (cases m) auto

lemma bind_Some_iff: "Option.bind m f = Some y \<longleftrightarrow> (\<exists>x. m = Some x \<and> f x = Some y)"
  by (cases m) auto

section \<open>Lists\<close>

lemma take_Suc_idx: "i < length xs \<Longrightarrow> take (Suc i) xs = take i xs @ [xs ! i]"
  by (rule take_Suc_conv_app_nth)

lemma sum_list_snoc [simp]: "sum_list (xs @ [x]) = sum_list xs + (x::'a::comm_monoid_add)"
  by (induction xs) (simp_all add: ac_simps)

end
