(* ===== verification/PacketFormat.thy ===== *)
theory PacketFormat
  imports Prelude
begin

text \<open>
  The interface \<^verbatim>\<open>PacketFormat\<close> of \<^verbatim>\<open>gps/gpsprot/packet.go\<close>. A Go interface value is a
  record of its methods; a method that can panic returns an option. \<^verbatim>\<open>MsgID\<close>, which only
  names a packet for people, is not part of the record. Scan states are \<^verbatim>\<open>uint32\<close> in the code
  and \<open>nat\<close> here: every format's states stay far below \<open>2 ^ 32\<close>.

  The locale \<open>packet_format_laws\<close> is what the scanner relies on: a format looks only at the
  bytes of the candidate packet, it never indexes outside them as long as it is driven
  byte by byte from the sync state, and no packet is a single byte.
\<close>

record packet_format =
  pf_tag :: string
  pf_isBinary :: bool
  pf_next :: "nat \<Rightarrow> bytes \<Rightarrow> nat \<Rightarrow> nat \<Rightarrow> nat option"
  pf_isFinal :: "nat \<Rightarrow> bool"
  pf_extractChecksum :: "bytes \<Rightarrow> bytes option"
  pf_computeChecksum :: "bytes \<Rightarrow> bytes option"
  pf_rescanOnBadChecksum :: "bool \<Rightarrow> bytes \<Rightarrow> bool option"

abbreviation (input) stateSync :: nat where "stateSync \<equiv> 0"

text \<open>\<^verbatim>\<open>IsValidPacket\<close>: the loop of the source from index \<open>i\<close>.\<close>

function isValidFrom :: "packet_format \<Rightarrow> bytes \<Rightarrow> nat \<Rightarrow> nat \<Rightarrow> bool option" where
  "isValidFrom pf buf i st =
     (if i < length buf then
        do { st' \<leftarrow> pf_next pf st buf i i;
             if st' = stateSync then Some False else isValidFrom pf buf (Suc i) st' }
      else Some (pf_isFinal pf st))"
  by pat_completeness auto
termination
  by (relation "measure (\<lambda>(pf, buf, i, st). length buf - i)") auto

declare isValidFrom.simps [simp del]

definition isValidPacket :: "packet_format \<Rightarrow> bytes \<Rightarrow> bool option" where
  "isValidPacket pf buf = isValidFrom pf buf 0 stateSync"

section \<open>Candidate packets\<close>

text \<open>
  \<open>frame pf pkt st\<close>: the bytes \<open>pkt\<close> drive the format from the sync state to \<open>st\<close>, never
  falling back to sync and not passing a final state before the last byte. This is the state
  of the scanner's loop while it has a candidate.
\<close>

inductive frame :: "packet_format \<Rightarrow> bytes \<Rightarrow> nat \<Rightarrow> bool" for pf where
  frame_start: "pf_next pf stateSync [b] 0 0 = Some st \<Longrightarrow> st \<noteq> stateSync \<Longrightarrow> frame pf [b] st"
| frame_step: "frame pf pkt st \<Longrightarrow> \<not> pf_isFinal pf st \<Longrightarrow>
    pf_next pf st (pkt @ [b]) (length pkt) (length pkt) = Some st' \<Longrightarrow> st' \<noteq> stateSync \<Longrightarrow>
    frame pf (pkt @ [b]) st'"

inductive_cases frame_nilE: "frame pf [] st"
inductive_cases frame_snocE: "frame pf (pkt @ [b]) st"

lemma frame_nonempty: "frame pf pkt st \<Longrightarrow> pkt \<noteq> []"
  by (induction rule: frame.induct) auto

lemma frame_not_sync: "frame pf pkt st \<Longrightarrow> st \<noteq> stateSync"
  by (induction rule: frame.induct) auto

lemma frame_unique: "frame pf pkt st \<Longrightarrow> frame pf pkt st' \<Longrightarrow> st = st'"
proof (induction arbitrary: st' rule: frame.induct)
  case (frame_start b st)
  from frame_start.prems frame_start.hyps show ?case
    by (cases rule: frame.cases) (auto dest: frame_nonempty)
next
  case (frame_step pkt st b s1)
  from frame_step.prems obtain s0 where "frame pf pkt s0"
    and "pf_next pf s0 (pkt @ [b]) (length pkt) (length pkt) = Some st'"
    using frame_nonempty [OF frame_step.hyps(1)] by (auto elim!: frame_snocE)
  with frame_step.IH [of s0] frame_step.hyps show ?case by simp
qed

definition complete :: "packet_format \<Rightarrow> bytes \<Rightarrow> bool" where
  "complete pf pkt \<longleftrightarrow> (\<exists>st. frame pf pkt st \<and> pf_isFinal pf st)"

text \<open>The same by evaluation: driving the automaton on from a frame.\<close>

fun drive :: "packet_format \<Rightarrow> bytes \<Rightarrow> nat \<Rightarrow> bytes \<Rightarrow> nat option" where
  "drive pf pkt st [] = Some st"
| "drive pf pkt st (b # bs) =
     (if pf_isFinal pf st then None
      else do {
        st' \<leftarrow> pf_next pf st (pkt @ [b]) (length pkt) (length pkt);
        if st' = stateSync then None else drive pf (pkt @ [b]) st' bs })"

lemma drive_frame: "frame pf pkt st \<Longrightarrow> drive pf pkt st bs = Some st' \<Longrightarrow> frame pf (pkt @ bs) st'"
proof (induction bs arbitrary: pkt st)
  case (Cons b bs)
  from Cons.prems(2) obtain st1 where s: "\<not> pf_isFinal pf st"
    "pf_next pf st (pkt @ [b]) (length pkt) (length pkt) = Some st1" "st1 \<noteq> stateSync"
    "drive pf (pkt @ [b]) st1 bs = Some st'"
    by (auto simp: bind_Some_iff split: if_splits)
  from Cons.IH [OF frame_step [OF Cons.prems(1) s(1-3)] s(4)] show ?case by simp
qed simp

lemma complete_drive: "pf_next pf stateSync [b] 0 0 = Some st \<Longrightarrow> st \<noteq> stateSync \<Longrightarrow>
    drive pf [b] st bs = Some st' \<Longrightarrow> pf_isFinal pf st' \<Longrightarrow> complete pf (b # bs)"
  using drive_frame [OF frame_start] by (fastforce simp: complete_def)

section \<open>The contract with the scanner\<close>

locale packet_format_laws =
  fixes pf :: packet_format
  assumes sync_not_final: "\<not> pf_isFinal pf stateSync"
    and next_local: "i < length buf \<Longrightarrow> pl \<le> i \<Longrightarrow> st = stateSync \<or> 0 < pl \<Longrightarrow>
      pf_next pf st buf i pl = pf_next pf st (take (Suc pl) (drop (i - pl) buf)) pl pl"
    and start_total: "pf_next pf stateSync [b] 0 0 \<noteq> None"
    and first_not_final: "pf_next pf stateSync [b] 0 0 = Some st \<Longrightarrow> \<not> pf_isFinal pf st"
    and next_total: "frame pf pkt st \<Longrightarrow> \<not> pf_isFinal pf st \<Longrightarrow>
      pf_next pf st (pkt @ [b]) (length pkt) (length pkt) \<noteq> None"
    and check_total: "frame pf pkt st \<Longrightarrow> pf_isFinal pf st \<Longrightarrow>
      pf_extractChecksum pf pkt \<noteq> None \<and> pf_computeChecksum pf pkt \<noteq> None
        \<and> pf_rescanOnBadChecksum pf prev pkt \<noteq> None"
begin

lemma next_window:
  assumes "i < length buf" "pl \<le> i" "st = stateSync \<or> 0 < pl"
    and "take pl (drop (i - pl) buf) = pkt"
  shows "pf_next pf st buf i pl = pf_next pf st (pkt @ [buf ! i]) (length pkt) (length pkt)"
proof -
  have len: "length pkt = pl" using assms by (auto simp: min_def)
  have "pl < length (drop (i - pl) buf)" and "drop (i - pl) buf ! pl = buf ! i"
    using assms by simp_all
  then have "take (Suc pl) (drop (i - pl) buf) = pkt @ [buf ! i]"
    using assms(4) take_Suc_conv_app_nth [of pl "drop (i - pl) buf"] by simp
  with next_local [OF assms(1-3)] show ?thesis by (simp only: len)
qed

lemma next_start:
  assumes "i < length buf"
  shows "pf_next pf stateSync buf i 0 = pf_next pf stateSync [buf ! i] 0 0"
  using next_window [of i buf 0 stateSync "[]"] assms by simp

text \<open>A candidate that reached \<open>st\<close> inside a larger buffer can be stepped without panic.\<close>

lemma next_defined:
  assumes "frame pf pkt st" "\<not> pf_isFinal pf st" "i < length buf" "length pkt \<le> i"
    and "take (length pkt) (drop (i - length pkt) buf) = pkt"
  shows "\<exists>st'. pf_next pf st buf i (length pkt) = Some st'"
proof -
  have "0 < length pkt" using assms(1) by (auto dest: frame_nonempty)
  with assms next_window [of i buf "length pkt" st pkt] next_total [of pkt st "buf ! i"]
  show ?thesis by auto
qed

lemma frame_extend:
  assumes "frame pf pkt st" "\<not> pf_isFinal pf st" "i < length buf" "length pkt \<le> i"
    and "take (length pkt) (drop (i - length pkt) buf) = pkt"
    and "pf_next pf st buf i (length pkt) = Some st'" "st' \<noteq> stateSync"
  shows "frame pf (pkt @ [buf ! i]) st'"
proof -
  have "0 < length pkt" using assms(1) by (auto dest: frame_nonempty)
  with assms next_window [of i buf "length pkt" st pkt] show ?thesis
    by (auto intro: frame_step)
qed

lemma frame_begin:
  assumes "i < length buf" "pf_next pf stateSync buf i 0 = Some st" "st \<noteq> stateSync"
  shows "frame pf [buf ! i] st"
  using assms(2,3) unfolding next_start [OF assms(1)] by (rule frame_start)

text \<open>\<^verbatim>\<open>IsValidPacket\<close> accepts every complete candidate.\<close>

lemma isValidFrom_frame:
  "frame pf pkt st \<Longrightarrow> isValidFrom pf (pkt @ rest) 0 stateSync = isValidFrom pf (pkt @ rest) (length pkt) st"
proof (induction arbitrary: rest rule: frame.induct)
  case (frame_start b st)
  have "pf_next pf stateSync (b # rest) 0 0 = Some st"
    using next_start [of 0 "b # rest"] frame_start by simp
  with frame_start.hyps show ?case by (simp add: isValidFrom.simps [of pf "b # rest" 0 stateSync])
next
  case (frame_step pkt st b st')
  have "isValidFrom pf ((pkt @ [b]) @ rest) 0 stateSync = isValidFrom pf (pkt @ b # rest) (length pkt) st"
    using frame_step.IH [of "b # rest"] by simp
  moreover have "pf_next pf st (pkt @ b # rest) (length pkt) (length pkt) = Some st'"
    using next_window [of "length pkt" "pkt @ b # rest" "length pkt" st pkt] frame_step.hyps
    by (auto dest: frame_nonempty)
  ultimately show ?case
    using frame_step.hyps by (simp add: isValidFrom.simps [of pf "pkt @ b # rest" "length pkt" st])
qed

lemma complete_valid: "complete pf pkt \<Longrightarrow> isValidPacket pf pkt = Some True"
proof -
  assume "complete pf pkt"
  then obtain st where st: "frame pf pkt st" "pf_isFinal pf st" by (auto simp: complete_def)
  have "isValidFrom pf pkt (length pkt) st = Some (pf_isFinal pf st)"
    by (subst isValidFrom.simps) simp
  with isValidFrom_frame [OF st(1), of "[]"] st(2) show ?thesis
    by (simp add: isValidPacket_def)
qed

end

end
