(* ===== verification/Ascii.thy ===== *)
theory Ascii
  imports Prelude
begin

text \<open>
  The package \<^verbatim>\<open>gps/lib/ascii\<close>: classification of ASCII bytes through a class table. The
  table is the function \<open>ascii_class\<close>, whose value at a byte is what \<^verbatim>\<open>init\<close> stores there.
  The lemmas give each predicate as the interval it stands for, and the values of the hex
  digit conversions with their inverses.
\<close>

definition fDigit :: byte where "fDigit = 1"
definition fUpper :: byte where "fUpper = 2"
definition fLower :: byte where "fLower = 4"
definition fHexA :: byte where "fHexA = 8"
definition fHexa :: byte where "fHexa = 16"
definition fPrint :: byte where "fPrint = 32"
definition fGraph :: byte where "fGraph = 64"

lemmas ascii_flags = fDigit_def fUpper_def fLower_def fHexA_def fHexa_def fPrint_def fGraph_def

definition ascii_class :: "byte \<Rightarrow> byte" where
  "ascii_class b =
     (if unat b < 128 then
        (let f = (if 0x30 \<le> b \<and> b \<le> 0x39 then fDigit
                  else if 0x41 \<le> b \<and> b \<le> 0x5A then (if b \<le> 0x46 then fUpper OR fHexA else fUpper)
                  else if 0x61 \<le> b \<and> b \<le> 0x7A then (if b \<le> 0x66 then fLower OR fHexa else fLower)
                  else 0);
             f = (if 0x20 \<le> b \<and> b \<le> 0x7E then f OR fPrint else f);
             f = (if 0x21 \<le> b \<and> b \<le> 0x7E then f OR fGraph else f)
         in f)
      else 0)"

definition isDigit :: "byte \<Rightarrow> bool" where
  "isDigit b = (ascii_class b AND fDigit \<noteq> 0)"
definition isUpper :: "byte \<Rightarrow> bool" where
  "isUpper b = (ascii_class b AND fUpper \<noteq> 0)"
definition isLower :: "byte \<Rightarrow> bool" where
  "isLower b = (ascii_class b AND fLower \<noteq> 0)"
definition isLetter :: "byte \<Rightarrow> bool" where
  "isLetter b = (ascii_class b AND (fUpper OR fLower) \<noteq> 0)"
definition isAlnum :: "byte \<Rightarrow> bool" where
  "isAlnum b = (ascii_class b AND (fDigit OR fUpper OR fLower) \<noteq> 0)"
definition isPrint :: "byte \<Rightarrow> bool" where
  "isPrint b = (ascii_class b AND fPrint \<noteq> 0)"
definition isGraph :: "byte \<Rightarrow> bool" where
  "isGraph b = (ascii_class b AND fGraph \<noteq> 0)"
definition isHexDigit :: "byte \<Rightarrow> bool" where
  "isHexDigit b = (ascii_class b AND (fDigit OR fHexA OR fHexa) \<noteq> 0)"
definition isUpperHexDigit :: "byte \<Rightarrow> bool" where
  "isUpperHexDigit b = (ascii_class b AND (fDigit OR fHexA) \<noteq> 0)"
definition isLowerHexDigit :: "byte \<Rightarrow> bool" where
  "isLowerHexDigit b = (ascii_class b AND (fDigit OR fHexa) \<noteq> 0)"

definition digitVal :: "byte \<Rightarrow> byte \<times> bool" where
  "digitVal b = (if ascii_class b AND fDigit \<noteq> 0 then (b - 0x30, True) else (0, False))"

definition hexVal :: "byte \<Rightarrow> byte \<times> bool" where
  "hexVal b = (let c = ascii_class b AND (fDigit OR fHexA OR fHexa)
     in if c = fDigit then (b - 0x30, True)
        else if c = fHexA then (b - 0x41 + 10, True)
        else if c = fHexa then (b - 0x61 + 10, True)
        else (0, False))"

definition upperHexVal :: "byte \<Rightarrow> byte \<times> bool" where
  "upperHexVal b = (let c = ascii_class b AND (fDigit OR fHexA)
     in if c = fDigit then (b - 0x30, True)
        else if c = fHexA then (b - 0x41 + 10, True)
        else (0, False))"

definition lowerHexVal :: "byte \<Rightarrow> byte \<times> bool" where
  "lowerHexVal b = (let c = ascii_class b AND (fDigit OR fHexa)
     in if c = fDigit then (b - 0x30, True)
        else if c = fHexa then (b - 0x61 + 10, True)
        else (0, False))"

definition asciiToLower :: "byte \<Rightarrow> byte" where
  "asciiToLower b = (if ascii_class b AND fUpper \<noteq> 0 then b + (0x61 - 0x41) else b)"

definition asciiToUpper :: "byte \<Rightarrow> byte" where
  "asciiToUpper b = (if ascii_class b AND fLower \<noteq> 0 then b - (0x61 - 0x41) else b)"

section \<open>What the predicates say\<close>

lemmas ascii_unfold = ascii_class_def ascii_flags Let_def word_le_nat_alt

lemma isDigit_iff: "isDigit b \<longleftrightarrow> 0x30 \<le> b \<and> b \<le> 0x39"
  by (simp add: isDigit_def ascii_unfold)

lemma isUpper_iff: "isUpper b \<longleftrightarrow> 0x41 \<le> b \<and> b \<le> 0x5A"
  by (simp add: isUpper_def ascii_unfold)

lemma isLower_iff: "isLower b \<longleftrightarrow> 0x61 \<le> b \<and> b \<le> 0x7A"
  by (simp add: isLower_def ascii_unfold)

lemma isPrint_iff: "isPrint b \<longleftrightarrow> 0x20 \<le> b \<and> b \<le> 0x7E"
  by (simp add: isPrint_def ascii_unfold)

lemma isGraph_iff: "isGraph b \<longleftrightarrow> 0x21 \<le> b \<and> b \<le> 0x7E"
  by (simp add: isGraph_def ascii_unfold)

lemma isLetter_iff: "isLetter b \<longleftrightarrow> isUpper b \<or> isLower b"
  by (simp add: isUpper_def isLower_def isLetter_def ascii_unfold)

lemma isAlnum_iff: "isAlnum b \<longleftrightarrow> isDigit b \<or> isUpper b \<or> isLower b"
  by (simp add: isDigit_def isAlnum_def isUpper_def isLower_def ascii_unfold)

lemma isUpperHexDigit_iff: "isUpperHexDigit b \<longleftrightarrow> isDigit b \<or> (0x41 \<le> b \<and> b \<le> 0x46)"
  by (simp add: isDigit_def isUpperHexDigit_def ascii_unfold)

lemma isLowerHexDigit_iff: "isLowerHexDigit b \<longleftrightarrow> isDigit b \<or> (0x61 \<le> b \<and> b \<le> 0x66)"
  by (simp add: isDigit_def isLowerHexDigit_def ascii_unfold)

lemma isHexDigit_iff: "isHexDigit b \<longleftrightarrow> isUpperHexDigit b \<or> isLowerHexDigit b"
  by (simp add: isHexDigit_def isUpperHexDigit_def isLowerHexDigit_def ascii_unfold)

lemmas ascii_iffs = isDigit_iff isUpper_iff isLower_iff isPrint_iff isGraph_iff isLetter_iff
  isAlnum_iff isUpperHexDigit_iff isLowerHexDigit_iff isHexDigit_iff

lemma isAlnum_isPrint: "isAlnum b \<Longrightarrow> isPrint b"
  by (auto simp: ascii_iffs word_le_nat_alt)

lemma isHexDigit_isPrint: "isHexDigit b \<Longrightarrow> isPrint b"
  by (auto simp: ascii_iffs word_le_nat_alt)

lemma isUpperHexDigit_isHexDigit: "isUpperHexDigit b \<Longrightarrow> isHexDigit b"
  by (simp add: isHexDigit_iff)

text \<open>The non-ASCII half of the byte range belongs to no class.\<close>

lemma ascii_class_high: "128 \<le> unat b \<Longrightarrow> ascii_class b = 0"
  by (simp add: ascii_class_def)

section \<open>Hexadecimal digits\<close>

lemma upperHexVal_eq: "upperHexVal b =
    (if 0x30 \<le> b \<and> b \<le> 0x39 then (b - 0x30, True)
     else if 0x41 \<le> b \<and> b \<le> 0x46 then (b - 0x41 + 10, True) else (0, False))"
  by (simp add: upperHexVal_def ascii_unfold)

lemma hexVal_eq: "hexVal b =
    (if 0x30 \<le> b \<and> b \<le> 0x39 then (b - 0x30, True)
     else if 0x41 \<le> b \<and> b \<le> 0x46 then (b - 0x41 + 10, True)
     else if 0x61 \<le> b \<and> b \<le> 0x66 then (b - 0x61 + 10, True) else (0, False))"
  by (simp add: hexVal_def ascii_unfold)

lemma upperHexVal_ok: "snd (upperHexVal b) \<longleftrightarrow> isUpperHexDigit b"
  by (auto simp: upperHexVal_eq ascii_iffs)

lemma hexVal_ok: "snd (hexVal b) \<longleftrightarrow> isHexDigit b"
  by (auto simp: hexVal_eq ascii_iffs)

text \<open>The digits \<^verbatim>\<open>fmt\<close> writes for \<^verbatim>\<open>%X\<close> and \<^verbatim>\<open>%x\<close>.\<close>

definition upper_hex_char :: "byte \<Rightarrow> byte" where
  "upper_hex_char v = (if v < 10 then 0x30 + v else 0x41 + (v - 10))"

definition lower_hex_char :: "byte \<Rightarrow> byte" where
  "lower_hex_char v = (if v < 10 then 0x30 + v else 0x61 + (v - 10))"

definition nibble_ok :: "byte \<Rightarrow> bool" where
  "nibble_ok v \<longleftrightarrow> fst (upperHexVal (upper_hex_char v)) = v \<and> isUpperHexDigit (upper_hex_char v)
     \<and> fst (hexVal (lower_hex_char v)) = v \<and> isHexDigit (lower_hex_char v)"

lemma nibble_all: "list_all nibble_ok (map word_of_nat [0..<16])"
  by (simp add: upt_conv_Cons nibble_ok_def upper_hex_char_def lower_hex_char_def
    upperHexVal_eq hexVal_eq isHexDigit_iff isUpperHexDigit_iff isLowerHexDigit_iff isDigit_iff)

lemma nibble_ok: "v < 16 \<Longrightarrow> nibble_ok v"
proof -
  assume "v < 16"
  then have "unat v \<in> set [0..<16]" by (simp add: word_less_nat_alt)
  then have "word_of_nat (unat v) \<in> set (map word_of_nat [0..<16] :: byte list)"
    unfolding set_map by (rule imageI)
  with nibble_all show ?thesis unfolding list_all_iff by (metis of_nat_unat ucast_id)
qed

lemma upper_hex_char_val: "v < 16 \<Longrightarrow> fst (upperHexVal (upper_hex_char v)) = v"
  and upper_hex_char_digit: "v < 16 \<Longrightarrow> isUpperHexDigit (upper_hex_char v)"
  and lower_hex_char_val: "v < 16 \<Longrightarrow> fst (hexVal (lower_hex_char v)) = v"
  and lower_hex_char_digit: "v < 16 \<Longrightarrow> isHexDigit (lower_hex_char v)"
  using nibble_ok [of v] by (simp_all add: nibble_ok_def)

text \<open>A byte as its high and low nibble, as \<^verbatim>\<open>hi<<4 | lo\<close> puts them together.\<close>

definition hex_byte :: "byte \<Rightarrow> byte \<Rightarrow> byte" where
  "hex_byte hi lo = push_bit 4 hi OR lo"

lemma hex_byte_nibbles: "hex_byte (drop_bit 4 b) (b AND 0xF) = b"
proof -
  have m: "(0xF :: byte) = mask 4" by (simp add: mask_eq_exp_minus_1)
  show ?thesis
    unfolding hex_byte_def m take_bit_eq_mask [symmetric]
    by (rule bit_word_eqI) (auto simp: bit_simps)
qed

lemma drop_bit_4_lt: "drop_bit 4 (b :: byte) < 16"
proof -
  have "unat (drop_bit 4 b) = unat b div 16"
    unfolding unat_drop_bit_eq by (simp add: drop_bit_eq_div)
  also have "\<dots> < 16" using byte_lt [of b] by linarith
  finally show ?thesis by (simp add: word_less_nat_alt)
qed

lemma and_15_lt: "(b :: byte) AND 0xF < 16"
proof -
  have "b AND 0xF = take_bit 4 b" by (simp add: take_bit_eq_mask mask_eq_exp_minus_1)
  then have "unat (b AND 0xF) = take_bit 4 (unat b)" by (simp only: unsigned_take_bit_eq)
  then have "unat (b AND 0xF) = unat b mod 16" by (simp add: take_bit_eq_mod)
  then show ?thesis by (simp add: word_less_nat_alt)
qed

end
