(* ===== verification/Checksum.thy ===== *)
theory Checksum
  imports Prelude
begin

text \<open>
  The checksums of the receiver protocols: the Fletcher sum of UBX, Allystar and SDBP packets
  (\<^verbatim>\<open>ubxbin.Checksum\<close> and its two copies), the exclusive-or of NMEA sentences, the word sum of
  CASIC packets, the bitwise CRCs of SBF and SPARTN and the table-driven CRC-32 of NovAtel and
  Unicore. The lemmas say which corruptions each of them is sure to notice and that the table
  of the CRC-32 is the reflected polynomial division it abbreviates.
\<close>

section \<open>Fletcher sum\<close>

definition fletcher_step :: "byte \<Rightarrow> byte \<times> byte \<Rightarrow> byte \<times> byte" where
  "fletcher_step b s = (let ckA = fst s + b; ckB = snd s + ckA in (ckA, ckB))"

definition ubx_checksum :: "bytes \<Rightarrow> byte \<times> byte" where
  "ubx_checksum bs = fold fletcher_step bs (0, 0)"

definition as_checksum :: "bytes \<Rightarrow> byte \<times> byte" where
  "as_checksum bs = fold fletcher_step bs (0, 0)"

definition sdbp_checksum :: "bytes \<Rightarrow> byte \<times> byte" where
  "sdbp_checksum bs = fold fletcher_step bs (0, 0)"

lemma fst_fletcher: "fst (fold fletcher_step bs s) = fst s + sum_list bs"
  by (induction bs arbitrary: s) (simp_all add: fletcher_step_def Let_def add.assoc)

lemma snd_fletcher: "snd (fold fletcher_step bs s) =
    snd s + of_nat (length bs) * fst s + snd (fold fletcher_step bs (0, 0))"
proof (induction bs arbitrary: s)
  case Nil
  then show ?case by simp
next
  case (Cons b bs)
  show ?case
    using Cons.IH [of "fletcher_step b s"] Cons.IH [of "fletcher_step b (0, 0)"]
    by (simp add: fletcher_step_def Let_def algebra_simps)
qed

lemma fletcher_append: "fold fletcher_step (xs @ ys) s = fold fletcher_step ys (fold fletcher_step xs s)"
  by simp

text \<open>One changed byte changes the first sum.\<close>

lemma ubx_checksum_single_byte:
  assumes "b \<noteq> c"
  shows "ubx_checksum (xs @ b # ys) \<noteq> ubx_checksum (xs @ c # ys)"
proof
  assume eq: "ubx_checksum (xs @ b # ys) = ubx_checksum (xs @ c # ys)"
  have "sum_list xs + (b + sum_list ys) = sum_list xs + (c + sum_list ys)"
    using arg_cong [OF eq, of fst] unfolding ubx_checksum_def fst_fletcher by simp
  with assms show False by simp
qed

text \<open>Two neighbours swapped leave the first sum alone and change the second.\<close>

lemma ubx_checksum_transposition:
  assumes "b \<noteq> c"
  shows "ubx_checksum (xs @ b # c # ys) \<noteq> ubx_checksum (xs @ c # b # ys)"
proof
  assume eq: "ubx_checksum (xs @ b # c # ys) = ubx_checksum (xs @ c # b # ys)"
  define s where "s = fold fletcher_step xs (0, 0)"
  have "snd (fold fletcher_step ys (fletcher_step c (fletcher_step b s)))
      = snd (fold fletcher_step ys (fletcher_step b (fletcher_step c s)))"
    using arg_cong [OF eq, of snd] by (simp add: ubx_checksum_def s_def)
  then have "b = c"
    unfolding snd_fletcher [of ys "fletcher_step c _"] snd_fletcher [of ys "fletcher_step b _"]
    by (simp add: fletcher_step_def Let_def algebra_simps)
  with assms show False by simp
qed

section \<open>Exclusive or\<close>

definition nmea_checksum :: "bytes \<Rightarrow> byte" where
  "nmea_checksum data = fold (\<lambda>b c. c XOR b) data 0"

lemma fold_xor: "fold (\<lambda>b c. c XOR b) data (a :: byte) = a XOR nmea_checksum data"
proof (induction data arbitrary: a)
  case Nil
  then show ?case by (simp add: nmea_checksum_def)
next
  case (Cons b data)
  show ?case
    using Cons.IH [of "a XOR b"] Cons.IH [of b] by (simp add: nmea_checksum_def xor.assoc)
qed

lemma nmea_checksum_Nil [simp]: "nmea_checksum [] = 0"
  by (simp add: nmea_checksum_def)

lemma nmea_checksum_Cons [simp]: "nmea_checksum (b # bs) = b XOR nmea_checksum bs"
  using fold_xor [of bs b] by (simp add: nmea_checksum_def)

lemma nmea_checksum_append: "nmea_checksum (xs @ ys) = nmea_checksum xs XOR nmea_checksum ys"
  by (induction xs) (simp_all add: xor.assoc)

lemma xor_cancel_left: "a XOR b = a XOR c \<longleftrightarrow> b = (c :: byte)"
proof
  assume "a XOR b = a XOR c"
  then have "a XOR (a XOR b) = a XOR (a XOR c)" by simp
  then show "b = c" by (simp add: xor.assoc [symmetric])
qed simp

lemma nmea_checksum_single_byte:
  "b \<noteq> c \<Longrightarrow> nmea_checksum (xs @ b # ys) \<noteq> nmea_checksum (xs @ c # ys)"
  by (simp add: nmea_checksum_append xor_cancel_left xor.commute [of _ "nmea_checksum ys"])

section \<open>The CASIC word sum\<close>

fun casic_words :: "bytes \<Rightarrow> 32 word \<Rightarrow> 32 word" where
  "casic_words (a # b # c # d # r) ck =
     casic_words r (ck + (ucast a OR push_bit 8 (ucast b) OR push_bit 16 (ucast c) OR push_bit 24 (ucast d)))"
| "casic_words [a, b, c] ck = ck + (ucast a OR push_bit 8 (ucast b) OR push_bit 16 (ucast c))"
| "casic_words [a, b] ck = ck + (ucast a OR push_bit 8 (ucast b))"
| "casic_words [a] ck = ck + ucast a"
| "casic_words [] ck = ck"

definition casic_checksum :: "bytes \<Rightarrow> 32 word" where
  "casic_checksum pkt =
     (if length pkt < 6 then 0
      else let payloadLen = le16 (pkt ! 2) (pkt ! 3);
               ck = push_bit 24 (ucast (pkt ! 5)) + push_bit 16 (ucast (pkt ! 4)) + word_of_nat payloadLen
           in casic_words (drop 6 pkt) ck)"

lemma casic_words_add: "casic_words bs ck = ck + casic_words bs 0"
proof -
  have "casic_words bs (x + y) = x + casic_words bs y" for x y
    by (induction bs y rule: casic_words.induct) (simp_all add: add.assoc)
  from this [of ck 0] show ?thesis by simp
qed

section \<open>Most-significant-bit-first CRCs\<close>

text \<open>
  \<^verbatim>\<open>crcMSB\<close> of \<^verbatim>\<open>sbfbin\<close> and \<^verbatim>\<open>spartnbin\<close>: the register is 64 bits wide and is cut to
  \<open>width\<close> bits only after the eight steps of a byte.
\<close>

type_synonym u64 = "64 word"

definition crc_bit :: "u64 \<Rightarrow> u64 \<Rightarrow> u64 \<Rightarrow> u64" where
  "crc_bit topbit poly crc = (if crc AND topbit \<noteq> 0 then push_bit 1 crc XOR poly else push_bit 1 crc)"

definition crc_byte :: "nat \<Rightarrow> u64 \<Rightarrow> byte \<Rightarrow> u64 \<Rightarrow> u64" where
  "crc_byte width poly b crc =
     (let mask = push_bit width 1 - 1; topbit = push_bit (width - 1) 1
      in (crc_bit topbit poly ^^ 8) (crc XOR push_bit (width - 8) (ucast b)) AND mask)"

definition crcMSB :: "bytes \<Rightarrow> nat \<Rightarrow> u64 \<Rightarrow> u64 \<Rightarrow> u64 \<Rightarrow> u64" where
  "crcMSB data width poly init xorout =
     (let mask = push_bit width 1 - 1
      in (fold (crc_byte width poly) data init XOR xorout) AND mask)"

definition sbf_crc16 :: "bytes \<Rightarrow> 16 word" where
  "sbf_crc16 data = ucast (crcMSB data 16 0x1021 0 0)"

lemma mask_push: "push_bit w (1::u64) - 1 = mask w"
  by (simp add: mask_eq_exp_minus_1)

lemma bit_shl1: "bit (push_bit 1 (x::u64)) n \<longleftrightarrow> n < 64 \<and> 0 < n \<and> bit x (n - 1)"
proof -
  have len: "LENGTH(64) = 64" by simp
  show ?thesis
    unfolding bit_push_bit_iff possible_bit_word len by (cases n) auto
qed

lemma bit_u64_lt: "bit (x::u64) n \<Longrightarrow> n < 64"
  using bit_imp_le_length [of x n] by simp

lemma and_topbit: "n < 64 \<Longrightarrow> crc AND push_bit n (1::u64) \<noteq> 0 \<longleftrightarrow> bit crc n"
  by (simp add: and_exp_eq_0_iff_not_bit)

definition crc_stp :: "nat \<Rightarrow> u64 \<Rightarrow> u64 \<Rightarrow> u64" where
  "crc_stp w poly = crc_bit (push_bit (w - 1) 1) poly"

lemma bit_crc_stp: "0 < w \<Longrightarrow> w < 64 \<Longrightarrow> bit (crc_stp w poly x) n \<longleftrightarrow>
    n < 64 \<and> ((0 < n \<and> bit x (n - 1)) \<noteq> (bit x (w - 1) \<and> bit poly n))"
  unfolding crc_stp_def crc_bit_def using and_topbit [of "w - 1" x] bit_u64_lt [of poly n]
  by (auto simp only: bit_xor_iff bit_shl1 split: if_splits)

text \<open>One step is injective on the low \<open>w\<close> bits when the polynomial has a constant term.\<close>

lemma low_bits_iff: "take_bit w x = take_bit w y \<longleftrightarrow> (\<forall>n<w. bit (x::u64) n = bit y n)"
proof
  assume "take_bit w x = take_bit w y"
  then show "\<forall>n<w. bit x n = bit y n" by (metis bit_take_bit_iff)
next
  assume "\<forall>n<w. bit x n = bit y n"
  then show "take_bit w x = take_bit w y" by (intro bit_word_eqI) (auto simp: bit_take_bit_iff)
qed

lemma take_bit_xor_cancel: "take_bit w (x XOR z) = take_bit w (y XOR z) \<longleftrightarrow> take_bit w x = take_bit w (y :: u64)"
  unfolding low_bits_iff bit_xor_iff by blast

lemma crc_stp_inj:
  assumes w: "0 < w" "w < 64" and p: "bit poly 0"
    and eq: "take_bit w (crc_stp w poly x) = take_bit w (crc_stp w poly y)"
  shows "take_bit w x = take_bit w y"
proof -
  have b: "bit (crc_stp w poly x) n \<longleftrightarrow> bit (crc_stp w poly y) n" if "n < w" for n
    using eq that unfolding low_bits_iff by blast
  have hi: "bit x (w - 1) \<longleftrightarrow> bit y (w - 1)"
    using b [of 0] w p by (simp add: bit_crc_stp del: One_nat_def)
  have "bit x n \<longleftrightarrow> bit y n" if "n < w" for n
  proof (cases "n = w - 1")
    case True
    with hi show ?thesis by simp
  next
    case False
    with that have "Suc n < w" by simp
    with b [of "Suc n"] w hi show ?thesis by (auto simp: bit_crc_stp simp del: One_nat_def)
  qed
  then show ?thesis unfolding low_bits_iff by blast
qed

text \<open>The bits above the width never reach the bits below it.\<close>

lemma crc_stp_low:
  assumes w: "0 < w" "w < 64" and eq: "take_bit w x = take_bit w y"
  shows "take_bit w (crc_stp w poly x) = take_bit w (crc_stp w poly y)"
  using eq w unfolding low_bits_iff by (auto simp: bit_crc_stp simp del: One_nat_def)

lemma crc_stps_iff:
  assumes w: "0 < w" "w < 64" and p: "bit poly 0"
  shows "take_bit w ((crc_stp w poly ^^ k) x) = take_bit w ((crc_stp w poly ^^ k) y)
     \<longleftrightarrow> take_bit w x = take_bit w y"
proof (induction k)
  case 0
  then show ?case by simp
next
  case (Suc k)
  have "take_bit w (crc_stp w poly ((crc_stp w poly ^^ k) x)) = take_bit w (crc_stp w poly ((crc_stp w poly ^^ k) y))
     \<longleftrightarrow> take_bit w ((crc_stp w poly ^^ k) x) = take_bit w ((crc_stp w poly ^^ k) y)"
    using crc_stp_inj [OF w p] crc_stp_low [OF w] by blast
  with Suc.IH show ?case by simp
qed

lemma crc_byte_take_bit:
  "crc_byte w poly b crc = take_bit w ((crc_stp w poly ^^ 8) (crc XOR push_bit (w - 8) (ucast b)))"
  unfolding crc_byte_def crc_stp_def Let_def mask_push take_bit_eq_mask ..

lemma crc_byte_iff:
  assumes w: "8 \<le> w" "w < 64" and p: "bit poly 0"
  shows "crc_byte w poly b x = crc_byte w poly b y \<longleftrightarrow> take_bit w x = take_bit w y"
proof -
  have "crc_byte w poly b x = crc_byte w poly b y \<longleftrightarrow>
      take_bit w (x XOR push_bit (w - 8) (ucast b)) = take_bit w (y XOR push_bit (w - 8) (ucast b))"
    unfolding crc_byte_take_bit using w p by (intro crc_stps_iff) simp_all
  then show ?thesis unfolding take_bit_xor_cancel .
qed

lemma crc_byte_neq:
  assumes w: "8 \<le> w" "w < 64" and p: "bit poly 0" and ne: "b \<noteq> c"
  shows "crc_byte w poly b x \<noteq> crc_byte w poly c x"
proof
  assume "crc_byte w poly b x = crc_byte w poly c x"
  then have eq: "take_bit w (x XOR push_bit (w - 8) (ucast b)) = take_bit w (x XOR push_bit (w - 8) (ucast c :: u64))"
    unfolding crc_byte_take_bit using w p by (subst (asm) crc_stps_iff) simp_all
  have "bit b n \<longleftrightarrow> bit c n" if "n < 8" for n
  proof -
    have "n + (w - 8) < w" using that w by simp
    then have "bit (x XOR push_bit (w - 8) (ucast b)) (n + (w - 8)) = bit (x XOR push_bit (w - 8) (ucast c :: u64)) (n + (w - 8))"
      using eq unfolding low_bits_iff by blast
    moreover have "n + (w - 8) < 64" "w - 8 \<le> n + (w - 8)" using that w by simp_all
    ultimately show ?thesis using that unfolding bit_xor_iff bit_push_bit_iff bit_ucast_iff by auto
  qed
  then have "b = c" by (auto simp: bit_eq_iff)
  with ne show False by simp
qed

lemma take_bit_crc_byte [simp]: "take_bit w (crc_byte w poly b x) = crc_byte w poly b x"
  by (simp add: crc_byte_take_bit)

lemma crc_fold_inj:
  assumes w: "8 \<le> w" "w < 64" and p: "bit poly 0" and ne: "take_bit w x \<noteq> take_bit w y"
  shows "take_bit w (fold (crc_byte w poly) ys x) \<noteq> take_bit w (fold (crc_byte w poly) ys y)"
  using ne
proof (induction ys arbitrary: x y)
  case Nil
  then show ?case by simp
next
  case (Cons b ys)
  have "take_bit w (crc_byte w poly b x) \<noteq> take_bit w (crc_byte w poly b y)"
    using Cons.prems crc_byte_iff [OF w p] by simp
  then show ?case by (simp add: Cons.IH)
qed

text \<open>Any corruption of a single byte changes the CRC, whatever its initial and final values.\<close>

lemma crcMSB_single_byte:
  assumes w: "8 \<le> w" "w < 64" and p: "bit poly 0" and ne: "b \<noteq> c"
  shows "crcMSB (xs @ b # ys) w poly init xorout \<noteq> crcMSB (xs @ c # ys) w poly init xorout"
proof
  assume "crcMSB (xs @ b # ys) w poly init xorout = crcMSB (xs @ c # ys) w poly init xorout"
  then have "take_bit w (fold (crc_byte w poly) (xs @ b # ys) init XOR xorout)
      = take_bit w (fold (crc_byte w poly) (xs @ c # ys) init XOR xorout)"
    unfolding crcMSB_def Let_def mask_push take_bit_eq_mask .
  then have "take_bit w (fold (crc_byte w poly) ys (crc_byte w poly b (fold (crc_byte w poly) xs init)))
      = take_bit w (fold (crc_byte w poly) ys (crc_byte w poly c (fold (crc_byte w poly) xs init)))"
    unfolding take_bit_xor_cancel by simp
  moreover have "take_bit w (crc_byte w poly b (fold (crc_byte w poly) xs init))
      \<noteq> take_bit w (crc_byte w poly c (fold (crc_byte w poly) xs init))"
    using crc_byte_neq [OF w p ne] by simp
  ultimately show False using crc_fold_inj [OF w p] by blast
qed

lemma crcMSB_lt: "unat (crcMSB bs w poly init xorout) < 2 ^ w"
  unfolding crcMSB_def Let_def mask_push take_bit_eq_mask [symmetric] unsigned_take_bit_eq
  by (rule take_bit_nat_less_exp)

text \<open>The CRC-16 of SBF inherits the guarantee: nothing is lost by the cut to 16 bits.\<close>

lemma sbf_crc16_single_byte:
  assumes "b \<noteq> c"
  shows "sbf_crc16 (xs @ b # ys) \<noteq> sbf_crc16 (xs @ c # ys)"
proof
  assume "sbf_crc16 (xs @ b # ys) = sbf_crc16 (xs @ c # ys)"
  then have "unat (ucast (crcMSB (xs @ b # ys) 16 0x1021 0 0) :: 16 word)
      = unat (ucast (crcMSB (xs @ c # ys) 16 0x1021 0 0) :: 16 word)"
    by (simp add: sbf_crc16_def)
  then have "unat (crcMSB (xs @ b # ys) 16 0x1021 0 0) = unat (crcMSB (xs @ c # ys) 16 0x1021 0 0)"
    using crcMSB_lt [of _ 16 "0x1021" 0 0]
    by (simp add: unsigned_ucast_eq take_bit_nat_eq_self)
  then have "crcMSB (xs @ b # ys) 16 0x1021 0 0 = crcMSB (xs @ c # ys) 16 0x1021 0 0"
    by (simp only: word_unat_eq_iff)
  with assms crcMSB_single_byte [of 16 "0x1021" b c xs ys 0 0] show False by simp
qed

section \<open>The table-driven CRC-32\<close>

definition crc32Table :: "32 word list" where
  "crc32Table =
    [0x00000000, 0x77073096, 0xEE0E612C, 0x990951BA, 0x076DC419, 0x706AF48F, 0xE963A535, 0x9E6495A3,
     0x0EDB8832, 0x79DCB8A4, 0xE0D5E91E, 0x97D2D988, 0x09B64C2B, 0x7EB17CBD, 0xE7B82D07, 0x90BF1D91,
     0x1DB71064, 0x6AB020F2, 0xF3B97148, 0x84BE41DE, 0x1ADAD47D, 0x6DDDE4EB, 0xF4D4B551, 0x83D385C7,
     0x136C9856, 0x646BA8C0, 0xFD62F97A, 0x8A65C9EC, 0x14015C4F, 0x63066CD9, 0xFA0F3D63, 0x8D080DF5,
     0x3B6E20C8, 0x4C69105E, 0xD56041E4, 0xA2677172, 0x3C03E4D1, 0x4B04D447, 0xD20D85FD, 0xA50AB56B,
     0x35B5A8FA, 0x42B2986C, 0xDBBBC9D6, 0xACBCF940, 0x32D86CE3, 0x45DF5C75, 0xDCD60DCF, 0xABD13D59,
     0x26D930AC, 0x51DE003A, 0xC8D75180, 0xBFD06116, 0x21B4F4B5, 0x56B3C423, 0xCFBA9599, 0xB8BDA50F,
     0x2802B89E, 0x5F058808, 0xC60CD9B2, 0xB10BE924, 0x2F6F7C87, 0x58684C11, 0xC1611DAB, 0xB6662D3D,
     0x76DC4190, 0x01DB7106, 0x98D220BC, 0xEFD5102A, 0x71B18589, 0x06B6B51F, 0x9FBFE4A5, 0xE8B8D433,
     0x7807C9A2, 0x0F00F934, 0x9609A88E, 0xE10E9818, 0x7F6A0DBB, 0x086D3D2D, 0x91646C97, 0xE6635C01,
     0x6B6B51F4, 0x1C6C6162, 0x856530D8, 0xF262004E, 0x6C0695ED, 0x1B01A57B, 0x8208F4C1, 0xF50FC457,
     0x65B0D9C6, 0x12B7E950, 0x8BBEB8EA, 0xFCB9887C, 0x62DD1DDF, 0x15DA2D49, 0x8CD37CF3, 0xFBD44C65,
     0x4DB26158, 0x3AB551CE, 0xA3BC0074, 0xD4BB30E2, 0x4ADFA541, 0x3DD895D7, 0xA4D1C46D, 0xD3D6F4FB,
     0x4369E96A, 0x346ED9FC, 0xAD678846, 0xDA60B8D0, 0x44042D73, 0x33031DE5, 0xAA0A4C5F, 0xDD0D7CC9,
     0x5005713C, 0x270241AA, 0xBE0B1010, 0xC90C2086, 0x5768B525, 0x206F85B3, 0xB966D409, 0xCE61E49F,
     0x5EDEF90E, 0x29D9C998, 0xB0D09822, 0xC7D7A8B4, 0x59B33D17, 0x2EB40D81, 0xB7BD5C3B, 0xC0BA6CAD,
     0xEDB88320, 0x9ABFB3B6, 0x03B6E20C, 0x74B1D29A, 0xEAD54739, 0x9DD277AF, 0x04DB2615, 0x73DC1683,
     0xE3630B12, 0x94643B84, 0x0D6D6A3E, 0x7A6A5AA8, 0xE40ECF0B, 0x9309FF9D, 0x0A00AE27, 0x7D079EB1,
     0xF00F9344, 0x8708A3D2, 0x1E01F268, 0x6906C2FE, 0xF762575D, 0x806567CB, 0x196C3671, 0x6E6B06E7,
     0xFED41B76, 0x89D32BE0, 0x10DA7A5A, 0x67DD4ACC, 0xF9B9DF6F, 0x8EBEEFF9, 0x17B7BE43, 0x60B08ED5,
     0xD6D6A3E8, 0xA1D1937E, 0x38D8C2C4, 0x4FDFF252, 0xD1BB67F1, 0xA6BC5767, 0x3FB506DD, 0x48B2364B,
     0xD80D2BDA, 0xAF0A1B4C, 0x36034AF6, 0x41047A60, 0xDF60EFC3, 0xA867DF55, 0x316E8EEF, 0x4669BE79,
     0xCB61B38C, 0xBC66831A, 0x256FD2A0, 0x5268E236, 0xCC0C7795, 0xBB0B4703, 0x220216B9, 0x5505262F,
     0xC5BA3BBE, 0xB2BD0B28, 0x2BB45A92, 0x5CB36A04, 0xC2D7FFA7, 0xB5D0CF31, 0x2CD99E8B, 0x5BDEAE1D,
     0x9B64C2B0, 0xEC63F226, 0x756AA39C, 0x026D930A, 0x9C0906A9, 0xEB0E363F, 0x72076785, 0x05005713,
     0x95BF4A82, 0xE2B87A14, 0x7BB12BAE, 0x0CB61B38, 0x92D28E9B, 0xE5D5BE0D, 0x7CDCEFB7, 0x0BDBDF21,
     0x86D3D2D4, 0xF1D4E242, 0x68DDB3F8, 0x1FDA836E, 0x81BE16CD, 0xF6B9265B, 0x6FB077E1, 0x18B74777,
     0x88085AE6, 0xFF0F6A70, 0x66063BCA, 0x11010B5C, 0x8F659EFF, 0xF862AE69, 0x616BFFD3, 0x166CCF45,
     0xA00AE278, 0xD70DD2EE, 0x4E048354, 0x3903B3C2, 0xA7672661, 0xD06016F7, 0x4969474D, 0x3E6E77DB,
     0xAED16A4A, 0xD9D65ADC, 0x40DF0B66, 0x37D83BF0, 0xA9BCAE53, 0xDEBB9EC5, 0x47B2CF7F, 0x30B5FFE9,
     0xBDBDF21C, 0xCABAC28A, 0x53B39330, 0x24B4A3A6, 0xBAD03605, 0xCDD70693, 0x54DE5729, 0x23D967BF,
     0xB3667A2E, 0xC4614AB8, 0x5D681B02, 0x2A6F2B94, 0xB40BBE37, 0xC30C8EA1, 0x5A05DF1B, 0x2D02EF8D]"

definition crc32_step :: "byte \<Rightarrow> 32 word \<Rightarrow> 32 word" where
  "crc32_step b crc = (crc32Table ! unat ((crc XOR ucast b) AND 0xFF)) XOR drop_bit 8 crc"

definition nov_crc32 :: "bytes \<Rightarrow> 32 word" where
  "nov_crc32 data = fold crc32_step data 0"

text \<open>The reflected polynomial division the table stands for.\<close>

definition crc32_ref_bit :: "32 word \<Rightarrow> 32 word" where
  "crc32_ref_bit c = (if bit c 0 then drop_bit 1 c XOR 0xEDB88320 else drop_bit 1 c)"

definition crc32_ref_step :: "byte \<Rightarrow> 32 word \<Rightarrow> 32 word" where
  "crc32_ref_step b crc = (crc32_ref_bit ^^ 8) (crc XOR ucast b)"

definition crc32_ref :: "bytes \<Rightarrow> 32 word" where
  "crc32_ref data = fold crc32_ref_step data 0"

lemma length_crc32Table: "length crc32Table = 256"
  by (simp add: crc32Table_def)

lemma pow8: "(f ^^ 8) x = f (f (f (f (f (f (f (f x)))))))"
  by (simp add: eval_nat_numeral)

text \<open>The table is checked entry by entry over the integers.\<close>

definition crc32_ref_int :: "int \<Rightarrow> int" where "crc32_ref_int c = (if odd c then (c div 2) XOR 0xEDB88320 else c div 2)"
lemma crc32_ref_int_simps: "crc32_ref_int (numeral (Num.Bit1 n)) = numeral n XOR 0xEDB88320"  "crc32_ref_int (numeral (Num.Bit0 n)) = numeral n"
 "crc32_ref_int 1 = 0xEDB88320" "crc32_ref_int 0 = 0"
  by (simp_all add: crc32_ref_int_def)


lemma crc32Table_int: "map uint crc32Table = map (\<lambda>i. crc32_ref_int (crc32_ref_int (crc32_ref_int (crc32_ref_int (crc32_ref_int (crc32_ref_int (crc32_ref_int (crc32_ref_int (int i))))))))) [0..<256]"
  by (simp add: crc32Table_def upt_conv_Cons crc32_ref_int_simps)

lemma uint_crc32_ref_bit: "uint (crc32_ref_bit c) = crc32_ref_int (uint c)"
proof -
  have "odd (uint c) \<longleftrightarrow> bit c 0" using bit_uint_iff [of c 0] by (simp only: bit_0) simp
  moreover have "uint (drop_bit 1 c) = uint c div 2" 
    by (metis drop_bit_eq_div power_one_right of_nat_unat unat_drop_bit_eq zdiv_int of_nat_numeral)
  moreover have "uint (x XOR y) = uint x XOR uint y" for x y :: "32 word"
    by (simp add: unsigned_xor_eq)
  ultimately show ?thesis by (simp add: crc32_ref_bit_def crc32_ref_int_def)
qed

lemma crc32Table_ref: "crc32Table = map (\<lambda>i. (crc32_ref_bit ^^ 8) (word_of_nat i)) [0..<256]"
proof -
  have "map uint crc32Table = map uint (map (\<lambda>i. (crc32_ref_bit ^^ 8) (word_of_nat i)) [0..<256])"
    unfolding crc32Table_int by (simp add: pow8 uint_crc32_ref_bit unsigned_of_nat take_bit_nat_eq_self)
  moreover have "inj (uint :: 32 word \<Rightarrow> int)" by (auto simp: inj_def word_uint_eq_iff)
  ultimately show ?thesis by (simp only: inj_map_eq_map)
qed

lemma crc32_ref_bit_xor: "crc32_ref_bit (x XOR y) = crc32_ref_bit x XOR crc32_ref_bit y"
proof -
  have "drop_bit 1 (x XOR y) = drop_bit 1 x XOR drop_bit 1 y" by (rule drop_bit_xor)
  moreover have "bit (x XOR y) 0 \<longleftrightarrow> bit x 0 \<noteq> bit y 0" by (simp only: bit_xor_iff)
  moreover have "a XOR b = (a XOR p) XOR (b XOR p)" "a XOR (b XOR p) = (a XOR b) XOR p"
    "(a XOR p) XOR b = (a XOR b) XOR p" for a b p :: "32 word"
    by (auto simp: bit_eq_iff bit_xor_iff)
  ultimately show ?thesis
    unfolding crc32_ref_bit_def by (cases "bit x 0"; cases "bit y 0") (simp_all only: if_True if_False not_True_eq_False simp_thms)
qed

lemma crc32_ref_bits_xor: "(crc32_ref_bit ^^ k) (x XOR y) = (crc32_ref_bit ^^ k) x XOR (crc32_ref_bit ^^ k) y"
  by (induction k) (simp_all add: crc32_ref_bit_xor)

lemma crc32_ref_bits_high:
  "(\<And>n. n < k \<Longrightarrow> \<not> bit x n) \<Longrightarrow> (crc32_ref_bit ^^ k) x = drop_bit k x"
proof (induction k)
  case 0
  then show ?case by simp
next
  case (Suc k)
  have "\<not> bit (drop_bit k x) 0" using Suc.prems [of k] by (simp only: bit_drop_bit_eq o_apply) simp
  moreover have "(crc32_ref_bit ^^ k) x = drop_bit k x" using Suc by simp
  ultimately have "(crc32_ref_bit ^^ Suc k) x = drop_bit 1 (drop_bit k x)"
    by (simp only: funpow.simps o_apply crc32_ref_bit_def if_False)
  then show ?case by (simp only: drop_bit_drop_bit) simp
qed

lemma crc32_step_ref: "crc32_step b crc = crc32_ref_step b crc"
proof -
  let ?x = "crc XOR ucast b"
  let ?lo = "?x AND 0xFF" and ?hi = "?x AND NOT 0xFF"
  have m: "(0xFF :: 32 word) = mask 8" by (simp add: mask_eq_exp_minus_1)
  have split: "?x = ?lo XOR ?hi" by (auto simp: bit_eq_iff bit_simps m)
  have "(crc32_ref_bit ^^ 8) ?hi = drop_bit 8 ?hi"
    by (rule crc32_ref_bits_high) (simp add: bit_simps m)
  also have "drop_bit 8 ?hi = drop_bit 8 crc"
    by (rule bit_word_eqI) (auto simp: bit_simps m dest: bit_imp_le_length)
  finally have hi: "(crc32_ref_bit ^^ 8) ?hi = drop_bit 8 crc" .
  have lt: "unat ?lo < 256" unfolding m take_bit_eq_mask [symmetric] unsigned_take_bit_eq
    using take_bit_nat_less_exp [of 8] by simp
  then have "crc32Table ! unat ?lo = (crc32_ref_bit ^^ 8) ?lo" by (subst crc32Table_ref) simp
  then have "crc32_step b crc = (crc32_ref_bit ^^ 8) ?lo XOR (crc32_ref_bit ^^ 8) ?hi"
    by (simp only: crc32_step_def hi)
  also have "\<dots> = (crc32_ref_bit ^^ 8) (?lo XOR ?hi)" by (simp only: crc32_ref_bits_xor)
  also have "\<dots> = crc32_ref_step b crc" unfolding crc32_ref_step_def using split by simp
  finally show ?thesis .
qed

lemma nov_crc32_ref: "nov_crc32 data = crc32_ref data"
proof -
  have "crc32_step = crc32_ref_step" by (intro ext) (rule crc32_step_ref)
  then show ?thesis by (simp add: nov_crc32_def crc32_ref_def)
qed
end
