(* ===== verification/TextFormats.thy ===== *)
theory TextFormats
  imports PacketFormat Ascii Checksum
begin

text \<open>
  The ASCII packet formats: NMEA (\<^verbatim>\<open>gps/internal/nmea\<close>), the NovAtel and Unicore ASCII
  formats (\<^verbatim>\<open>gps/internal/nov\<close>, \<^verbatim>\<open>gps/internal/unc\<close>), the NovAtel abbreviated format and
  the Septentrio replies. Their state machines are finite automata over the characters of a
  line; the locale \<open>automaton_format\<close> gives the contract with the scanner for such a format.
  The section on NMEA also models \<^verbatim>\<open>CheckSyntax\<close> of \<^verbatim>\<open>gps/lib/nmeamsg\<close> and shows that the
  two descriptions of an NMEA packet in the code agree.
\<close>

locale automaton_format =
  fixes pf :: packet_format
  assumes start_not_final: "\<not> pf_isFinal pf stateSync"
    and two_bytes: "pf_next pf stateSync [b] 0 0 = Some st \<Longrightarrow> \<not> pf_isFinal pf st"
    and window: "i < length buf \<Longrightarrow> pl \<le> i \<Longrightarrow> st = stateSync \<or> 0 < pl \<Longrightarrow>
      pf_next pf st buf i pl = pf_next pf st (take (Suc pl) (drop (i - pl) buf)) pl pl"
    and no_panic: "i < length buf \<Longrightarrow> pl \<le> i \<Longrightarrow> pf_next pf st buf i pl \<noteq> None"
    and checks_total: "complete pf pkt \<Longrightarrow> pf_extractChecksum pf pkt \<noteq> None
      \<and> pf_computeChecksum pf pkt \<noteq> None \<and> pf_rescanOnBadChecksum pf prev pkt \<noteq> None"

sublocale automaton_format \<subseteq> packet_format_laws
proof unfold_locales
  show "\<not> pf_isFinal pf stateSync" by (rule start_not_final)
next
  fix i pl st and buf :: bytes
  assume "i < length buf" "pl \<le> i" "st = stateSync \<or> 0 < pl"
  then show "pf_next pf st buf i pl = pf_next pf st (take (Suc pl) (drop (i - pl) buf)) pl pl"
    by (rule window)
next
  fix b show "pf_next pf stateSync [b] 0 0 \<noteq> None" by (rule no_panic) simp_all
next
  fix b st assume "pf_next pf stateSync [b] 0 0 = Some st"
  then show "\<not> pf_isFinal pf st" by (rule two_bytes)
next
  fix pkt st b
  show "pf_next pf st (pkt @ [b]) (length pkt) (length pkt) \<noteq> None" by (rule no_panic) simp_all
next
  fix pkt st prev
  assume "frame pf pkt st" "pf_isFinal pf st"
  then show "pf_extractChecksum pf pkt \<noteq> None \<and> pf_computeChecksum pf pkt \<noteq> None
      \<and> pf_rescanOnBadChecksum pf prev pkt \<noteq> None"
    by (intro checks_total) (auto simp: complete_def)
qed

section \<open>NMEA\<close>

definition sentenceMaxLength :: nat where "sentenceMaxLength = 400"

definition nmea_next :: "nat \<Rightarrow> bytes \<Rightarrow> nat \<Rightarrow> nat \<Rightarrow> nat option" where
  "nmea_next st buf i packetLen = do {
     b \<leftarrow> idx buf i;
     Some (if st = stateSync then (if b = 0x24 then 1 else stateSync)
       else if st = 1 \<or> st = 2 then (if isAlnum b then st + 1 else stateSync)
       else if st = 3 then
         (if b = 0x2A then 4
          else if b = 0x24 then stateSync
          else if isPrint b \<and> packetLen < sentenceMaxLength - 5 then 3 else stateSync)
       else if st = 4 \<or> st = 5 then (if isUpperHexDigit b then st + 1 else stateSync)
       else if st = 6 then (if b = 0x0D then 7 else if b = 0x0A then 8 else stateSync)
       else if st = 7 then (if b = 0x0A then 8 else stateSync)
       else stateSync) }"

text \<open>\<^verbatim>\<open>starIndex\<close> panics when neither place holds the asterisk.\<close>

definition starIndex :: "bytes \<Rightarrow> nat option" where
  "starIndex pkt = do {
     o5 \<leftarrow> sub_idx (length pkt) 5;
     c \<leftarrow> idx pkt o5;
     if c \<noteq> 0x2A then do {
       d \<leftarrow> idx pkt (o5 + 1);
       if d \<noteq> 0x2A then None else Some (o5 + 1) }
     else Some o5 }"

definition nmea_extractChecksum :: "bytes \<Rightarrow> bytes option" where
  "nmea_extractChecksum pkt = do {
     s \<leftarrow> starIndex pkt;
     h \<leftarrow> idx pkt (s + 1);
     l \<leftarrow> idx pkt (s + 1 + 1);
     let hi = fst (upperHexVal h);
     let lo = fst (upperHexVal l);
     Some [push_bit 4 hi OR lo] }"

definition nmea_computeChecksum :: "bytes \<Rightarrow> bytes option" where
  "nmea_computeChecksum pkt = do {
     s \<leftarrow> starIndex pkt;
     body \<leftarrow> subslice pkt 1 s;
     Some [nmea_checksum body] }"

definition nmeaFormat :: packet_format where
  "nmeaFormat = \<lparr> pf_tag = ''NMEA'', pf_isBinary = False, pf_next = nmea_next,
     pf_isFinal = (\<lambda>st. st = 8), pf_extractChecksum = nmea_extractChecksum,
     pf_computeChecksum = nmea_computeChecksum, pf_rescanOnBadChecksum = (\<lambda>_ _. Some False) \<rparr>"

text \<open>
  What the automaton accepts. \<open>nmea_body\<close> is the text between the dollar and the asterisk.
\<close>

definition nmea_body :: "bytes \<Rightarrow> bool" where
  "nmea_body body \<longleftrightarrow> 2 \<le> length body \<and> length body \<le> 394
     \<and> isAlnum (body ! 0) \<and> isAlnum (body ! 1)
     \<and> (\<forall>c \<in> set (drop 2 body). isPrint c \<and> c \<noteq> 0x24 \<and> c \<noteq> 0x2A)"

definition nmea_sentence :: "bytes \<Rightarrow> byte \<Rightarrow> byte \<Rightarrow> bytes \<Rightarrow> bytes" where
  "nmea_sentence body h l term = 0x24 # body @ 0x2A # h # l # term"

definition nmea_shape :: "nat \<Rightarrow> bytes \<Rightarrow> bool" where
  "nmea_shape st pkt \<longleftrightarrow>
     (st = 1 \<and> pkt = [0x24])
     \<or> (st = 2 \<and> (\<exists>a. pkt = [0x24, a] \<and> isAlnum a))
     \<or> (st = 3 \<and> (\<exists>body. pkt = 0x24 # body \<and> nmea_body body))
     \<or> (st = 4 \<and> (\<exists>body. pkt = 0x24 # body @ [0x2A] \<and> nmea_body body))
     \<or> (st = 5 \<and> (\<exists>body h. pkt = 0x24 # body @ [0x2A, h] \<and> nmea_body body \<and> isUpperHexDigit h))
     \<or> (st \<in> {6, 7, 8} \<and> (\<exists>body h l term. pkt = nmea_sentence body h l term \<and> nmea_body body
          \<and> isUpperHexDigit h \<and> isUpperHexDigit l
          \<and> (st = 6 \<and> term = [] \<or> st = 7 \<and> term = [0x0D] \<or> st = 8 \<and> (term = [0x0A] \<or> term = [0x0D, 0x0A]))))"

lemma nmea_body_two: "nmea_body [a, b] \<longleftrightarrow> isAlnum a \<and> isAlnum b"
  by (simp add: nmea_body_def)

lemma nmea_body_snoc: "2 \<le> length body \<Longrightarrow> nmea_body (body @ [c]) \<longleftrightarrow>
    nmea_body body \<and> length body < 394 \<and> isPrint c \<and> c \<noteq> 0x24 \<and> c \<noteq> 0x2A"
  by (auto simp: nmea_body_def nth_append)

lemma nmea_frame_shape: "frame nmeaFormat pkt st \<Longrightarrow> nmea_shape st pkt"
proof (induction rule: frame.induct)
  case (frame_start b st)
  then show ?case by (auto simp: nmeaFormat_def nmea_next_def nmea_shape_def split: if_splits)
next
  case (frame_step pkt st b st')
  have step: "nmea_next st (pkt @ [b]) (length pkt) (length pkt) = Some st'" "st \<noteq> 8" "st' \<noteq> 0"
    using frame_step.hyps by (simp_all add: nmeaFormat_def)
  note step = step [unfolded nmea_next_def, simplified]
  from frame_step.IH show ?case
    unfolding nmea_shape_def [of st pkt]
  proof (elim disjE exE conjE)
    fix body assume "st = 3" "pkt = 0x24 # body" "nmea_body body"
    moreover from this have "2 \<le> length body" by (simp add: nmea_body_def)
    ultimately show ?thesis using step
      by (auto simp: nmea_shape_def nmea_body_snoc sentenceMaxLength_def split: if_splits)
  qed (use step in \<open>auto simp: nmea_shape_def nmea_body_two nmea_sentence_def split: if_splits\<close>)
qed

lemma nmea_frame_snoc: "frame nmeaFormat pkt st \<Longrightarrow> st \<noteq> 8 \<Longrightarrow>
    nmea_next st (pkt @ [b]) (length pkt) (length pkt) = Some st' \<Longrightarrow> st' \<noteq> 0 \<Longrightarrow> frame nmeaFormat (pkt @ [b]) st'"
  by (rule frame_step) (simp_all add: nmeaFormat_def)

lemma nmea_frame_body: "nmea_body body \<Longrightarrow> frame nmeaFormat (0x24 # body) 3"
proof (induction body rule: rev_induct)
  case Nil
  then show ?case by (simp add: nmea_body_def)
next
  case (snoc c body)
  show ?case
  proof (cases "2 \<le> length body")
    case True
    with snoc.prems have "frame nmeaFormat (0x24 # body) 3" and "length body < 394"
      and "isPrint c" "c \<noteq> 0x24" "c \<noteq> 0x2A"
      by (auto simp: nmea_body_snoc intro: snoc.IH)
    then have "frame nmeaFormat ((0x24 # body) @ [c]) 3"
      by (intro nmea_frame_snoc) (auto simp: nmea_next_def sentenceMaxLength_def)
    then show ?thesis by simp
  next
    case False
    moreover from snoc.prems have "1 \<le> length body" by (simp add: nmea_body_def)
    ultimately have "length body = 1" by simp
    then obtain a where body: "body = [a]" by (auto simp: length_Suc_conv)
    with snoc.prems have "isAlnum a" "isAlnum c" by (simp_all add: nmea_body_def)
    moreover have "frame nmeaFormat [0x24] 1" by (rule frame_start) (simp_all add: nmeaFormat_def nmea_next_def)
    then have "frame nmeaFormat ([0x24] @ [a]) 2"
      by (rule nmea_frame_snoc) (use \<open>isAlnum a\<close> in \<open>simp_all add: nmea_next_def numeral_2_eq_2\<close>)
    then have "frame nmeaFormat (([0x24] @ [a]) @ [c]) 3"
      by (rule nmea_frame_snoc) (use \<open>isAlnum c\<close> in \<open>simp_all add: nmea_next_def\<close>)
    with body show ?thesis by simp
  qed
qed

lemma nmea_frame_tail:
  assumes "nmea_body body" "isUpperHexDigit h" "isUpperHexDigit l"
  shows "frame nmeaFormat (nmea_sentence body h l []) 6"
proof -
  have "frame nmeaFormat ((0x24 # body) @ [0x2A]) 4"
    by (rule nmea_frame_snoc [OF nmea_frame_body [OF assms(1)]]) (simp_all add: nmea_next_def)
  then have "frame nmeaFormat (((0x24 # body) @ [0x2A]) @ [h]) 5"
    by (rule nmea_frame_snoc) (use assms in \<open>simp_all add: nmea_next_def nth_append\<close>)
  then have "frame nmeaFormat ((((0x24 # body) @ [0x2A]) @ [h]) @ [l]) 6"
    by (rule nmea_frame_snoc) (use assms in \<open>simp_all add: nmea_next_def nth_append\<close>)
  then show ?thesis by (simp add: nmea_sentence_def)
qed

lemma nmea_complete_of:
  assumes "nmea_body body" "isUpperHexDigit h" "isUpperHexDigit l" "term = [0x0A] \<or> term = [0x0D, 0x0A]"
  shows "frame nmeaFormat (nmea_sentence body h l term) 8"
proof (cases "term = [0x0A]")
  case True
  have "frame nmeaFormat (nmea_sentence body h l [] @ [0x0A]) 8"
    by (rule nmea_frame_snoc [OF nmea_frame_tail [OF assms(1-3)]]) (simp_all add: nmea_next_def)
  with True show ?thesis by (simp add: nmea_sentence_def)
next
  case False
  have "frame nmeaFormat (nmea_sentence body h l [] @ [0x0D]) 7"
    by (rule nmea_frame_snoc [OF nmea_frame_tail [OF assms(1-3)]]) (simp_all add: nmea_next_def)
  then have "frame nmeaFormat ((nmea_sentence body h l [] @ [0x0D]) @ [0x0A]) 8"
    by (rule nmea_frame_snoc) (simp_all add: nmea_next_def nth_append)
  with False assms(4) show ?thesis by (auto simp: nmea_sentence_def)
qed

lemma nmea_complete_iff: "complete nmeaFormat pkt \<longleftrightarrow> (\<exists>body h l term. pkt = nmea_sentence body h l term
    \<and> nmea_body body \<and> isUpperHexDigit h \<and> isUpperHexDigit l \<and> (term = [0x0A] \<or> term = [0x0D, 0x0A]))"
proof -
  have final: "pf_isFinal nmeaFormat st \<longleftrightarrow> st = 8" for st by (simp add: nmeaFormat_def)
  show ?thesis
    using nmea_frame_shape [of pkt 8] nmea_complete_of
    by (auto simp: complete_def final nmea_shape_def)
qed

lemma nmea_body_last: "nmea_body body \<Longrightarrow> (0x24 # body @ rest) ! length body \<noteq> 0x2A"
proof -
  assume b: "nmea_body body"
  then have len: "2 \<le> length body" by (simp add: nmea_body_def)
  then obtain xs c where body: "body = xs @ [c]" by (metis append_Nil2 le_zero_eq list.size(3) rev_exhaust zero_neq_numeral)
  have "c \<noteq> 0x2A"
  proof (cases "2 \<le> length xs")
    case True
    with b body show ?thesis by (simp add: nmea_body_snoc)
  next
    case False
    with len body have "length xs = 1" by simp
    with b body show ?thesis by (auto simp: nmea_body_def isAlnum_iff isDigit_iff isUpper_iff isLower_iff nth_append)
  qed
  with body show ?thesis by (simp add: nth_append)
qed

lemma starIndex_sentence: "term = [0x0A] \<or> term = [0x0D, 0x0A] \<Longrightarrow> nmea_body body \<Longrightarrow>
    starIndex (nmea_sentence body h l term) = Some (1 + length body)"
  using nmea_body_last [of body "0x2A # h # l # term"]
  by (auto simp: starIndex_def nmea_sentence_def)

lemma nmea_sentence_nth [simp]:
  "nmea_sentence body h l term ! Suc (Suc (length body)) = h"
  "nmea_sentence body h l term ! Suc (Suc (Suc (length body))) = l"
  "length (nmea_sentence body h l term) = length body + length term + 4"
  by (simp_all add: nmea_sentence_def nth_append)

lemma nmea_checks:
  assumes "term = [0x0A] \<or> term = [0x0D, 0x0A]" "nmea_body body"
  shows "nmea_extractChecksum (nmea_sentence body h l term)
      = Some [push_bit 4 (fst (upperHexVal h)) OR fst (upperHexVal l)]"
    and "nmea_computeChecksum (nmea_sentence body h l term) = Some [nmea_checksum body]"
proof -
  note star = starIndex_sentence [OF assms, of h l]
  show "nmea_extractChecksum (nmea_sentence body h l term)
      = Some [push_bit 4 (fst (upperHexVal h)) OR fst (upperHexVal l)]"
    by (simp add: nmea_extractChecksum_def star del: push_bit_of_1)
  show "nmea_computeChecksum (nmea_sentence body h l term) = Some [nmea_checksum body]"
    by (simp add: nmea_computeChecksum_def star) (simp add: nmea_sentence_def)
qed

interpretation nmea: automaton_format nmeaFormat
proof unfold_locales
  show "\<not> pf_isFinal nmeaFormat stateSync" by (simp add: nmeaFormat_def)
next
  fix b st assume "pf_next nmeaFormat stateSync [b] 0 0 = Some st"
  then show "\<not> pf_isFinal nmeaFormat st" by (auto simp: nmeaFormat_def nmea_next_def split: if_splits)
next
  fix i pl st and buf :: bytes
  assume "i < length buf" "pl \<le> i"
  then show "pf_next nmeaFormat st buf i pl = pf_next nmeaFormat st (take (Suc pl) (drop (i - pl) buf)) pl pl"
    by (simp add: nmeaFormat_def nmea_next_def)
next
  fix i pl st and buf :: bytes
  assume "i < length buf"
  then show "pf_next nmeaFormat st buf i pl \<noteq> None" by (simp add: nmeaFormat_def nmea_next_def)
next
  fix pkt prev
  assume "complete nmeaFormat pkt"
  then show "pf_extractChecksum nmeaFormat pkt \<noteq> None \<and> pf_computeChecksum nmeaFormat pkt \<noteq> None
      \<and> pf_rescanOnBadChecksum nmeaFormat prev pkt \<noteq> None"
    unfolding nmea_complete_iff by (elim exE conjE) (simp add: nmeaFormat_def nmea_checks)
qed

section \<open>NovAtel and Unicore ASCII\<close>

text \<open>
  \<^verbatim>\<open>MakePacketFormat\<close>: the struct \<^verbatim>\<open>asciiPacketFormat\<close> with the test for the first character
  of the header and whether a two digit checksum is allowed. The states count up from the
  hash: 2 after the first comma, 4 after the semicolon, 5 after the asterisk, then one for
  each checksum digit, 14 after the CR and 15 at the end.
\<close>

definition novAscii_next :: "(byte \<Rightarrow> bool) \<Rightarrow> bool \<Rightarrow> nat \<Rightarrow> bytes \<Rightarrow> nat \<Rightarrow> nat \<Rightarrow> nat option" where
  "novAscii_next dataFieldValidStart allow2DigitChecksum st buf i packetLen = do {
     b \<leftarrow> idx buf i;
     Some (if st = stateSync then (if b = 0x23 then 1 else stateSync)
       else if st = 1 then (if b = 0x2C then 2 else if isPrint b then 1 else stateSync)
       else if st = 2 then (if dataFieldValidStart b then 3 else stateSync)
       else if st = 3 then (if b = 0x3B then 4 else if isPrint b then st else stateSync)
       else if st = 4 then (if b = 0x2A then 5 else if isPrint b then st else stateSync)
       else if st = 5 then (if isHexDigit b then 6 else stateSync)
       else if st = 6 then (if isHexDigit b then 7 else stateSync)
       else if st = 7 then
         (if b = 0x0D \<and> allow2DigitChecksum then 14 else if isHexDigit b then 8 else stateSync)
       else if 8 \<le> st \<and> st \<le> 12 then (if isHexDigit b then st + 1 else stateSync)
       else if st = 13 then (if b = 0x0D then 14 else stateSync)
       else if st = 14 then (if b = 0x0A then 15 else stateSync)
       else stateSync) }"

definition hexByte :: "bytes \<Rightarrow> nat \<Rightarrow> byte option" where
  "hexByte h i = do {
     a \<leftarrow> idx h i;
     b \<leftarrow> idx h (i + 1);
     Some (push_bit 4 (fst (hexVal a)) OR fst (hexVal b)) }"

definition novAscii_extractChecksum :: "bytes \<Rightarrow> bytes option" where
  "novAscii_extractChecksum pkt =
     (if 11 \<le> length pkt \<and> pkt ! (length pkt - 11) = 0x2A then do {
        h \<leftarrow> subslice pkt (length pkt - 10) (length pkt - 2);
        c0 \<leftarrow> hexByte h 0;
        c1 \<leftarrow> hexByte h 2;
        c2 \<leftarrow> hexByte h 4;
        c3 \<leftarrow> hexByte h 6;
        Some [c0, c1, c2, c3] }
      else if 5 \<le> length pkt \<and> pkt ! (length pkt - 5) = 0x2A then do {
        h \<leftarrow> subslice pkt (length pkt - 4) (length pkt - 2);
        c0 \<leftarrow> hexByte h 0;
        Some [c0] }
      else Some [])"

definition be_bytes32 :: "32 word \<Rightarrow> bytes" where
  "be_bytes32 w = [ucast (drop_bit 24 w AND 0xFF), ucast (drop_bit 16 w AND 0xFF),
     ucast (drop_bit 8 w AND 0xFF), ucast (w AND 0xFF)]"

definition novAscii_computeChecksum :: "bytes \<Rightarrow> bytes option" where
  "novAscii_computeChecksum pkt =
     (if 11 \<le> length pkt \<and> pkt ! (length pkt - 11) = 0x2A then do {
        data \<leftarrow> subslice pkt 1 (length pkt - 11);
        Some (be_bytes32 (nov_crc32 data)) }
      else if 5 \<le> length pkt \<and> pkt ! (length pkt - 5) = 0x2A then do {
        data \<leftarrow> subslice pkt 0 (length pkt - 5);
        Some [fold (\<lambda>b c. c XOR b) data 0] }
      else Some [])"

definition makeNovAsciiFormat :: "string \<Rightarrow> (byte \<Rightarrow> bool) \<Rightarrow> bool \<Rightarrow> packet_format" where
  "makeNovAsciiFormat tag dataFieldValidStart allow2DigitChecksum =
     \<lparr> pf_tag = tag, pf_isBinary = False,
       pf_next = novAscii_next dataFieldValidStart allow2DigitChecksum,
       pf_isFinal = (\<lambda>st. st = 15), pf_extractChecksum = novAscii_extractChecksum,
       pf_computeChecksum = novAscii_computeChecksum,
       pf_rescanOnBadChecksum = (\<lambda>_ _. Some False) \<rparr>"

definition novaFormat :: packet_format where
  "novaFormat = makeNovAsciiFormat ''NOVA'' isLetter False"

definition uncaFormat :: packet_format where
  "uncaFormat = makeNovAsciiFormat ''UNCA'' isDigit True"

text \<open>The parts of a packet: the name, the header after its comma, the data, and the digits.\<close>

definition nova_text :: "bytes \<Rightarrow> bytes \<Rightarrow> bytes \<Rightarrow> bytes" where
  "nova_text name hdr data = name @ 0x2C # hdr @ 0x3B # data"

definition nova_parts :: "(byte \<Rightarrow> bool) \<Rightarrow> bytes \<Rightarrow> bytes \<Rightarrow> bytes \<Rightarrow> bool" where
  "nova_parts vs name hdr data \<longleftrightarrow> (\<forall>c \<in> set name. isPrint c \<and> c \<noteq> 0x2C)
     \<and> hdr \<noteq> [] \<and> vs (hdr ! 0) \<and> (\<forall>c \<in> set (tl hdr). isPrint c \<and> c \<noteq> 0x3B)
     \<and> (\<forall>c \<in> set data. isPrint c \<and> c \<noteq> 0x2A)"

definition nova_digits :: "bool \<Rightarrow> bytes \<Rightarrow> bool" where
  "nova_digits al ds \<longleftrightarrow> (length ds = 8 \<or> al \<and> length ds = 2) \<and> list_all isHexDigit ds"

definition nova_shape :: "(byte \<Rightarrow> bool) \<Rightarrow> bool \<Rightarrow> nat \<Rightarrow> bytes \<Rightarrow> bool" where
  "nova_shape vs al st pkt \<longleftrightarrow>
     (st = 1 \<and> (\<exists>name. pkt = 0x23 # name \<and> (\<forall>c \<in> set name. isPrint c \<and> c \<noteq> 0x2C)))
     \<or> (st = 2 \<and> (\<exists>name. pkt = 0x23 # name @ [0x2C] \<and> (\<forall>c \<in> set name. isPrint c \<and> c \<noteq> 0x2C)))
     \<or> (st = 3 \<and> (\<exists>name hdr. pkt = 0x23 # name @ 0x2C # hdr \<and> nova_parts vs name hdr []))
     \<or> (st = 4 \<and> (\<exists>name hdr data. pkt = 0x23 # nova_text name hdr data \<and> nova_parts vs name hdr data))
     \<or> (5 \<le> st \<and> st \<le> 13 \<and> (\<exists>name hdr data ds. pkt = 0x23 # nova_text name hdr data @ 0x2A # ds
          \<and> nova_parts vs name hdr data \<and> length ds = st - 5 \<and> list_all isHexDigit ds))
     \<or> (14 \<le> st \<and> st \<le> 15 \<and> (\<exists>name hdr data ds term. pkt = 0x23 # nova_text name hdr data @ 0x2A # ds @ term
          \<and> nova_parts vs name hdr data \<and> nova_digits al ds
          \<and> term = (if st = 14 then [0x0D] else [0x0D, 0x0A])))"

lemma nova_parts_snoc_hdr: "nova_parts vs name hdr [] \<Longrightarrow> isPrint c \<Longrightarrow> c \<noteq> 0x3B \<Longrightarrow> nova_parts vs name (hdr @ [c]) []"
  by (auto simp: nova_parts_def nth_append)

lemma nova_parts_snoc_data: "nova_parts vs name hdr data \<Longrightarrow> isPrint c \<Longrightarrow> c \<noteq> 0x2A \<Longrightarrow> nova_parts vs name hdr (data @ [c])"
  by (auto simp: nova_parts_def)

lemma nova_frame_shape: "frame (makeNovAsciiFormat tag vs al) pkt st \<Longrightarrow> nova_shape vs al st pkt"
proof (induction rule: frame.induct)
  case (frame_start b st)
  then show ?case
    by (auto simp: makeNovAsciiFormat_def novAscii_next_def nova_shape_def split: if_splits)
next
  case (frame_step pkt st b st')
  have step: "novAscii_next vs al st (pkt @ [b]) (length pkt) (length pkt) = Some st'" "st \<noteq> 15" "st' \<noteq> 0"
    using frame_step.hyps by (simp_all add: makeNovAsciiFormat_def)
  note step = step [unfolded novAscii_next_def, simplified]
  from frame_step.IH show ?case
    unfolding nova_shape_def [of vs al st pkt]
  proof (elim disjE exE conjE)
    fix name assume "st = 1" "pkt = 0x23 # name" "\<forall>c \<in> set name. isPrint c \<and> c \<noteq> 0x2C"
    then show ?thesis using step by (auto simp: nova_shape_def split: if_splits)
  next
    fix name assume a: "st = 2" "pkt = 0x23 # name @ [0x2C]" "\<forall>c \<in> set name. isPrint c \<and> c \<noteq> 0x2C"
    then have "nova_parts vs name [b] []" "st' = 3" using step by (auto simp: nova_parts_def split: if_splits)
    with a show ?thesis by (auto simp: nova_shape_def)
  next
    fix name hdr assume a: "st = 3" "pkt = 0x23 # name @ 0x2C # hdr" "nova_parts vs name hdr []"
    with step consider "st' = 4" "b = 0x3B" | "st' = 3" "isPrint b" "b \<noteq> 0x3B" by (auto split: if_splits)
    then show ?thesis
    proof cases
      case 1 with a show ?thesis by (auto simp: nova_shape_def nova_text_def)
    next
      case 2
      with a have "pkt @ [b] = 0x23 # name @ 0x2C # (hdr @ [b])" "nova_parts vs name (hdr @ [b]) []"
        by (auto intro: nova_parts_snoc_hdr)
      with 2 show ?thesis unfolding nova_shape_def by blast
    qed
  next
    fix name hdr data assume a: "st = 4" "pkt = 0x23 # nova_text name hdr data" "nova_parts vs name hdr data"
    with step consider "st' = 5" "b = 0x2A" | "st' = 4" "isPrint b" "b \<noteq> 0x2A" by (auto split: if_splits)
    then show ?thesis
    proof cases
      case 1 with a show ?thesis by (auto simp: nova_shape_def)
    next
      case 2
      with a have "pkt @ [b] = 0x23 # nova_text name hdr (data @ [b])" "nova_parts vs name hdr (data @ [b])"
        by (auto simp: nova_text_def intro: nova_parts_snoc_data)
      with 2 show ?thesis unfolding nova_shape_def by blast
    qed
  next
    fix name hdr data ds
    assume a: "5 \<le> st" "st \<le> 13" "pkt = 0x23 # nova_text name hdr data @ 0x2A # ds"
      "nova_parts vs name hdr data" "length ds = st - 5" "list_all isHexDigit ds"
    with step consider "st' = st + 1" "st \<le> 12" "isHexDigit b" | "st' = 14" "b = 0x0D" "st = 13 \<or> al \<and> st = 7"
      by (auto split: if_splits)
    then show ?thesis
    proof cases
      case 1
      with a have "pkt @ [b] = 0x23 # nova_text name hdr data @ 0x2A # (ds @ [b])"
        "length (ds @ [b]) = st' - 5" "list_all isHexDigit (ds @ [b])" "5 \<le> st'" "st' \<le> 13" by auto
      with a(4) show ?thesis unfolding nova_shape_def by blast
    next
      case 2
      with a have "pkt @ [b] = 0x23 # nova_text name hdr data @ 0x2A # ds @ [0x0D]"
        "nova_digits al ds" "14 \<le> st'" "st' \<le> 15" by (auto simp: nova_digits_def)
      moreover have "[0x0D] = (if st' = 14 then [0x0D :: byte] else [0x0D, 0x0A])" using 2 by simp
      ultimately show ?thesis using a(4) unfolding nova_shape_def by blast
    qed
  next
    fix name hdr data ds "term"
    assume a: "14 \<le> st" "st \<le> 15" "pkt = 0x23 # nova_text name hdr data @ 0x2A # ds @ term"
      "nova_parts vs name hdr data" "nova_digits al ds"
      "term = (if st = 14 then [0x0D] else [0x0D, 0x0A])"
    with step have "st = 14" "st' = 15" "b = 0x0A" by (auto split: if_splits)
    with a show ?thesis by (auto simp: nova_shape_def)
  qed
qed

lemma nova_complete_shape: "complete (makeNovAsciiFormat tag vs al) pkt \<Longrightarrow>
    \<exists>name hdr data ds. pkt = 0x23 # nova_text name hdr data @ 0x2A # ds @ [0x0D, 0x0A]
      \<and> nova_parts vs name hdr data \<and> nova_digits al ds"
proof -
  assume "complete (makeNovAsciiFormat tag vs al) pkt"
  then have "frame (makeNovAsciiFormat tag vs al) pkt 15"
    by (auto simp: complete_def) (simp add: makeNovAsciiFormat_def)
  then show ?thesis using nova_frame_shape [of tag vs al pkt 15] by (auto simp: nova_shape_def)
qed

lemma nova_format: "automaton_format (makeNovAsciiFormat tag vs al)"
proof unfold_locales
  show "\<not> pf_isFinal (makeNovAsciiFormat tag vs al) stateSync" by (simp add: makeNovAsciiFormat_def)
next
  fix b st assume "pf_next (makeNovAsciiFormat tag vs al) stateSync [b] 0 0 = Some st"
  then show "\<not> pf_isFinal (makeNovAsciiFormat tag vs al) st"
    by (auto simp: makeNovAsciiFormat_def novAscii_next_def split: if_splits)
next
  fix i pl st and buf :: bytes
  assume "i < length buf" "pl \<le> i"
  then show "pf_next (makeNovAsciiFormat tag vs al) st buf i pl
      = pf_next (makeNovAsciiFormat tag vs al) st (take (Suc pl) (drop (i - pl) buf)) pl pl"
    by (simp add: makeNovAsciiFormat_def novAscii_next_def)
next
  fix i pl st and buf :: bytes
  assume "i < length buf"
  then show "pf_next (makeNovAsciiFormat tag vs al) st buf i pl \<noteq> None"
    by (simp add: makeNovAsciiFormat_def novAscii_next_def)
next
  fix pkt prev
  assume "complete (makeNovAsciiFormat tag vs al) pkt"
  then have first: "pkt ! 0 = 0x23" using nova_complete_shape by fastforce
  have "12 \<le> length pkt" if "11 \<le> length pkt" "pkt ! (length pkt - 11) = 0x2A"
    using first that by (cases "length pkt = 11") auto
  then show "pf_extractChecksum (makeNovAsciiFormat tag vs al) pkt \<noteq> None
      \<and> pf_computeChecksum (makeNovAsciiFormat tag vs al) pkt \<noteq> None
      \<and> pf_rescanOnBadChecksum (makeNovAsciiFormat tag vs al) prev pkt \<noteq> None"
    by (auto simp: makeNovAsciiFormat_def novAscii_extractChecksum_def novAscii_computeChecksum_def
        hexByte_def)
qed

interpretation nova: automaton_format novaFormat
  unfolding novaFormat_def by (rule nova_format)

interpretation unca: automaton_format uncaFormat
  unfolding uncaFormat_def by (rule nova_format)

section \<open>NovAtel abbreviated ASCII\<close>

definition abbrevMaxLength :: nat where "abbrevMaxLength = 300"

definition abbrev_next :: "nat \<Rightarrow> bytes \<Rightarrow> nat \<Rightarrow> nat \<Rightarrow> nat option" where
  "abbrev_next st buf i packetLen = do {
     b \<leftarrow> idx buf i;
     Some (if st = stateSync then (if b = 0x3C then 1 else stateSync)
       else if st = 1 then
         (if b = 0x0D then 2
          else if (isPrint b \<or> b = 0x09) \<and> packetLen < abbrevMaxLength - 2 then 1 else stateSync)
       else if st = 2 then (if b = 0x0A then 3 else stateSync)
       else stateSync) }"

text \<open>A nil checksum is the empty byte string: \<^verbatim>\<open>bytes.Equal\<close> does not tell them apart.\<close>

definition novaaFormat :: packet_format where
  "novaaFormat = \<lparr> pf_tag = ''NOVAA'', pf_isBinary = False, pf_next = abbrev_next,
     pf_isFinal = (\<lambda>st. st = 3), pf_extractChecksum = (\<lambda>_. Some []),
     pf_computeChecksum = (\<lambda>_. Some []), pf_rescanOnBadChecksum = (\<lambda>_ _. Some False) \<rparr>"

definition abbrev_shape :: "nat \<Rightarrow> bytes \<Rightarrow> bool" where
  "abbrev_shape st pkt \<longleftrightarrow> (\<exists>body. pkt = 0x3C # body @ (if st = 1 then [] else if st = 2 then [0x0D] else [0x0D, 0x0A])
     \<and> (\<forall>c \<in> set body. isPrint c \<or> c = 0x09) \<and> length body \<le> 297) \<and> st \<in> {1, 2, 3}"

lemma abbrev_next_cases:
  assumes "abbrev_next st (pkt @ [b]) (length pkt) (length pkt) = Some st'" "st' \<noteq> 0" "pkt \<noteq> []" "st \<noteq> 0"
  obtains "st = 1" "st' = 2" "b = 0x0D"
    | "st = 1" "st' = 1" "isPrint b \<or> b = 0x09" "length pkt < 298"
    | "st = 2" "st' = 3" "b = 0x0A"
  using assms by (auto simp: abbrev_next_def abbrevMaxLength_def split: if_split_asm)

lemma abbrev_frame_shape: "frame novaaFormat pkt st \<Longrightarrow> abbrev_shape st pkt"
proof (induction rule: frame.induct)
  case (frame_start b st)
  then show ?case by (auto simp: novaaFormat_def abbrev_next_def abbrev_shape_def split: if_splits)
next
  case (frame_step pkt st b st')
  have step: "abbrev_next st (pkt @ [b]) (length pkt) (length pkt) = Some st'"
    using frame_step.hyps by (simp add: novaaFormat_def)
  from frame_step.IH obtain body where
    body: "pkt = 0x3C # body @ (if st = 1 then [] else if st = 2 then [0x0D] else [0x0D, 0x0A])"
      "\<forall>c \<in> set body. isPrint c \<or> c = 0x09" "length body \<le> 297"
    unfolding abbrev_shape_def by blast
  from step frame_step.hyps(4) frame_nonempty [OF frame_step.hyps(1)] frame_not_sync [OF frame_step.hyps(1)]
  show ?case
  proof (cases rule: abbrev_next_cases)
    case 1
    with body show ?thesis by (auto simp: abbrev_shape_def)
  next
    case 2
    with body have "pkt @ [b] = 0x3C # (body @ [b]) @ []" "\<forall>c \<in> set (body @ [b]). isPrint c \<or> c = 0x09"
      "length (body @ [b]) \<le> 297" by auto
    with 2 show ?thesis unfolding abbrev_shape_def by (intro conjI exI [of _ "body @ [b]"]) auto
  next
    case 3
    with body show ?thesis by (auto simp: abbrev_shape_def)
  qed
qed

lemma novaa_complete_shape: "complete novaaFormat pkt \<Longrightarrow>
    \<exists>body. pkt = 0x3C # body @ [0x0D, 0x0A] \<and> (\<forall>c \<in> set body. isPrint c \<or> c = 0x09) \<and> length pkt \<le> abbrevMaxLength"
proof -
  assume "complete novaaFormat pkt"
  then have "frame novaaFormat pkt 3" by (auto simp: complete_def) (simp add: novaaFormat_def)
  then show ?thesis using abbrev_frame_shape [of pkt 3] by (auto simp: abbrev_shape_def abbrevMaxLength_def)
qed

interpretation novaa: automaton_format novaaFormat
  by unfold_locales (auto simp: novaaFormat_def abbrev_next_def split: if_splits)

section \<open>Septentrio replies\<close>

definition rMaxLength :: nat where "rMaxLength = 4000 + 96"

definition rReadBody :: "byte \<Rightarrow> nat" where
  "rReadBody b = (if b = 0x0D then 5 else if b \<noteq> 0x24 \<and> (isPrint b \<or> b = 0x09) then 4 else stateSync)"

definition rIsBlock :: "bytes \<Rightarrow> nat \<Rightarrow> nat \<Rightarrow> bool option" where
  "rIsBlock buf i packetLen =
     (if 3 \<le> packetLen then do {
        s \<leftarrow> sub_idx i packetLen;
        a \<leftarrow> idx buf s;
        b \<leftarrow> idx buf (s + 1);
        c \<leftarrow> idx buf (s + 2);
        Some (a = 0x24 \<and> b = 0x2D \<and> c = 0x2D) }
      else Some False)"

text \<open>
  The states, in the order of the source: 1 after the dollar, 2 expecting the type, 3 after
  \<open>$-\<close>, 4 in a line, 5 after a CR, 6 at a line start, 7 to 9 in a run of hyphens, 10 to 12 in
  an alphanumeric token, 13 after a full token, 14 to 16 in a \<open>$TD\<close> line, 17 at the end.
\<close>

definition septr_next :: "nat \<Rightarrow> bytes \<Rightarrow> nat \<Rightarrow> nat \<Rightarrow> nat option" where
  "septr_next st buf i packetLen = do {
     b \<leftarrow> idx buf i;
     if st \<noteq> stateSync \<and> rMaxLength \<le> packetLen then Some stateSync
     else if st = stateSync then Some (if b = 0x24 then 1 else stateSync)
     else if st = 1 then Some (if b = 0x52 then 2 else if b = 0x2D then 3 else stateSync)
     else if st = 2 then Some (if b = 0x3A \<or> b = 0x3B \<or> b = 0x21 \<or> b = 0x3F then 4 else stateSync)
     else if st = 3 then Some (if b = 0x2D then 4 else stateSync)
     else if st = 4 then Some (rReadBody b)
     else if st = 5 then Some (if b = 0x0A then 6 else stateSync)
     else if st = 6 then do {
       block \<leftarrow> (if b = 0x24 then rIsBlock buf i packetLen else Some False);
       Some (if block then 14 else if b = 0x2D then 7 else if isUpper b then 10 else rReadBody b) }
     else if st = 7 then Some (if b = 0x2D then 8 else rReadBody b)
     else if st = 8 then Some (if b = 0x2D then 9 else rReadBody b)
     else if st = 9 then Some (if b = 0x2D then 13 else rReadBody b)
     else if st = 10 then Some (if isAlnum b \<and> \<not> isLower b then 11 else rReadBody b)
     else if st = 11 then Some (if isAlnum b \<and> \<not> isLower b then 12 else rReadBody b)
     else if st = 12 then Some (if isAlnum b \<and> \<not> isLower b then 13 else rReadBody b)
     else if st = 13 then Some (if b = 0x3E then 17 else rReadBody b)
     else if st = 14 then Some (if b = 0x54 then 15 else stateSync)
     else if st = 15 then Some (if b = 0x44 then 16 else stateSync)
     else if st = 16 then Some (if b = 0x0D then 5 else stateSync)
     else Some stateSync }"

definition septrFormat :: packet_format where
  "septrFormat = \<lparr> pf_tag = ''SEPTR'', pf_isBinary = False, pf_next = septr_next,
     pf_isFinal = (\<lambda>st. st = 17), pf_extractChecksum = (\<lambda>_. Some []),
     pf_computeChecksum = (\<lambda>_. Some []), pf_rescanOnBadChecksum = (\<lambda>_ _. Some False) \<rparr>"

lemma rIsBlock_window: "i < length buf \<Longrightarrow> pl \<le> i \<Longrightarrow>
    rIsBlock buf i pl = rIsBlock (take (Suc pl) (drop (i - pl) buf)) pl pl"
  by (simp add: rIsBlock_def)

lemma rIsBlock_total: "i < length buf \<Longrightarrow> pl \<le> i \<Longrightarrow> rIsBlock buf i pl \<noteq> None"
  by (cases "3 \<le> pl") (simp_all add: rIsBlock_def)

interpretation septr: automaton_format septrFormat
proof unfold_locales
  show "\<not> pf_isFinal septrFormat stateSync" by (simp add: septrFormat_def)
next
  fix b st assume "pf_next septrFormat stateSync [b] 0 0 = Some st"
  then show "\<not> pf_isFinal septrFormat st" by (auto simp: septrFormat_def septr_next_def split: if_splits)
next
  fix i pl st and buf :: bytes
  assume a: "i < length buf" "pl \<le> i"
  then have b: "idx (take (Suc pl) (drop (i - pl) buf)) pl = idx buf i" by simp
  show "pf_next septrFormat st buf i pl = pf_next septrFormat st (take (Suc pl) (drop (i - pl) buf)) pl pl"
    unfolding septrFormat_def packet_format.simps septr_next_def b rIsBlock_window [OF a] ..
next
  fix i pl st and buf :: bytes
  assume "i < length buf" "pl \<le> i"
  then show "pf_next septrFormat st buf i pl \<noteq> None"
    using rIsBlock_total [of i buf pl] by (auto simp: septrFormat_def septr_next_def)
qed (simp_all add: septrFormat_def)

text \<open>A reply is bounded, and ends with the prompt character.\<close>

lemma septr_complete: "complete septrFormat pkt \<Longrightarrow>
    length pkt \<le> rMaxLength \<and> last pkt = 0x3E \<and> pkt ! 0 = 0x24"
proof -
  assume "complete septrFormat pkt"
  then have "frame septrFormat pkt 17" by (auto simp: complete_def) (simp add: septrFormat_def)
  moreover have "frame septrFormat pkt st \<Longrightarrow> length pkt \<le> rMaxLength \<and> pkt ! 0 = 0x24 \<and> (st = 17 \<longrightarrow> last pkt = 0x3E)" for st
  proof (induction rule: frame.induct)
    case (frame_start b st)
    then show ?case by (auto simp: septrFormat_def septr_next_def rMaxLength_def split: if_splits)
  next
    case (frame_step pkt st b st')
    have step: "septr_next st (pkt @ [b]) (length pkt) (length pkt) = Some st'" "st' \<noteq> 0" "st \<noteq> 0"
      using frame_step.hyps frame_not_sync by (auto simp: septrFormat_def)
    have "length pkt < rMaxLength"
      using step by (cases "length pkt < rMaxLength") (simp_all add: septr_next_def not_less)
    moreover have "st' = 17 \<longrightarrow> b = 0x3E"
      using step by (auto simp: septr_next_def rReadBody_def bind_Some_iff split: if_splits)
    moreover have "pkt \<noteq> []" using frame_step.hyps(1) by (rule frame_nonempty)
    ultimately show ?case using frame_step.IH by (simp add: nth_append)
  qed
  ultimately show ?thesis by blast
qed

end
