(* ===== verification/NmeaSyntax.thy ===== *)
theory NmeaSyntax
  imports TextFormats
begin

text \<open>
  \<^verbatim>\<open>CheckSyntax\<close> of \<^verbatim>\<open>gps/lib/nmeamsg/nmeamsg.go\<close>: the syntactic properties of an NMEA-like
  packet as a set of flags. The lemmas show that it never indexes outside its argument, that
  its flag \<^verbatim>\<open>SentenceIsPacket\<close> is exactly what the state machine of the packet format accepts,
  and what each other flag says of the text.
\<close>

type_synonym sentence_flags = "32 word"

definition SentenceIsPacket :: sentence_flags where "SentenceIsPacket = 2 ^ 0"
definition SentenceApprovedAddressFormat :: sentence_flags where "SentenceApprovedAddressFormat = 2 ^ 1"
definition SentenceProprietaryAddressFormat :: sentence_flags where "SentenceProprietaryAddressFormat = 2 ^ 2"
definition SentenceTalkerIsGP :: sentence_flags where "SentenceTalkerIsGP = 2 ^ 3"
definition SentenceTalkerIsGL :: sentence_flags where "SentenceTalkerIsGL = 2 ^ 4"
definition SentenceTalkerIsGA :: sentence_flags where "SentenceTalkerIsGA = 2 ^ 5"
definition SentenceTalkerIsGB :: sentence_flags where "SentenceTalkerIsGB = 2 ^ 6"
definition SentenceTalkerIsBD :: sentence_flags where "SentenceTalkerIsBD = 2 ^ 7"
definition SentenceTalkerIsGI :: sentence_flags where "SentenceTalkerIsGI = 2 ^ 8"
definition SentenceTalkerIsGQ :: sentence_flags where "SentenceTalkerIsGQ = 2 ^ 9"
definition SentenceTalkerIsGN :: sentence_flags where "SentenceTalkerIsGN = 2 ^ 10"
definition SentenceNoCarets :: sentence_flags where "SentenceNoCarets = 2 ^ 11"
definition SentenceValidCaretEscaping :: sentence_flags where "SentenceValidCaretEscaping = 2 ^ 12"
definition SentenceValidDataChars :: sentence_flags where "SentenceValidDataChars = 2 ^ 13"
definition SentenceLength82OrLess :: sentence_flags where "SentenceLength82OrLess = 2 ^ 14"
definition SentenceEndsWithCRLF :: sentence_flags where "SentenceEndsWithCRLF = 2 ^ 15"

definition SentenceTalkerIsGNSS :: sentence_flags where
  "SentenceTalkerIsGNSS = SentenceTalkerIsGP OR SentenceTalkerIsGL OR SentenceTalkerIsGA OR
     SentenceTalkerIsGB OR SentenceTalkerIsBD OR SentenceTalkerIsGI OR SentenceTalkerIsGQ OR
     SentenceTalkerIsGN"

definition SentenceApprovedNMEA :: sentence_flags where
  "SentenceApprovedNMEA = SentenceApprovedAddressFormat OR SentenceValidCaretEscaping OR
     SentenceValidDataChars OR SentenceEndsWithCRLF"

definition SentenceProprietaryNMEA :: sentence_flags where
  "SentenceProprietaryNMEA = SentenceProprietaryAddressFormat OR SentenceValidDataChars OR
     SentenceEndsWithCRLF"

lemmas sentence_flag_defs = SentenceIsPacket_def SentenceApprovedAddressFormat_def
  SentenceProprietaryAddressFormat_def SentenceTalkerIsGP_def SentenceTalkerIsGL_def
  SentenceTalkerIsGA_def SentenceTalkerIsGB_def SentenceTalkerIsBD_def SentenceTalkerIsGI_def
  SentenceTalkerIsGQ_def SentenceTalkerIsGN_def SentenceNoCarets_def SentenceValidCaretEscaping_def
  SentenceValidDataChars_def SentenceLength82OrLess_def SentenceEndsWithCRLF_def

definition isValidGNSSTalkerNMEA :: "sentence_flags \<Rightarrow> bool" where
  "isValidGNSSTalkerNMEA f \<longleftrightarrow> f AND SentenceApprovedNMEA = SentenceApprovedNMEA \<and> f AND SentenceTalkerIsGNSS \<noteq> 0"

definition isValidProprietaryNMEA :: "sentence_flags \<Rightarrow> bool" where
  "isValidProprietaryNMEA f \<longleftrightarrow> f AND SentenceProprietaryNMEA = SentenceProprietaryNMEA"

definition isValidApprovedNMEA :: "sentence_flags \<Rightarrow> bool" where
  "isValidApprovedNMEA f \<longleftrightarrow> f AND SentenceApprovedNMEA = SentenceApprovedNMEA"

text \<open>The scan of the address field: the loop that leaves at index 5 or at the first other character.\<close>

function check_address :: "bytes \<Rightarrow> nat \<Rightarrow> sentence_flags \<Rightarrow> (nat \<times> sentence_flags) option" where
  "check_address data i flags =
     (if i < length data then
        (if \<not> isUpper (data ! i) \<and> \<not> isDigit (data ! i) then Some (i, flags)
         else if i = 5 then do {
           a \<leftarrow> idx data 1;
           b \<leftarrow> idx data 2;
           Some (i + 1, if a \<noteq> 0x50 \<and> \<not> isLower a \<and> \<not> isLower b
                        then flags OR SentenceApprovedAddressFormat else flags) }
         else check_address data (i + 1) flags)
      else None)"
  by pat_completeness auto
termination
  by (relation "measure (\<lambda>(data, i, flags). length data - i)") auto

text \<open>The scan of the rest: \<open>Inl\<close> is the early \<^verbatim>\<open>return 0\<close>, \<open>Inr\<close> the flags at the end of the loop.\<close>

function check_chars :: "bytes \<Rightarrow> nat \<Rightarrow> nat \<Rightarrow> sentence_flags \<Rightarrow> (unit + sentence_flags) option" where
  "check_chars data i asterisk flags =
     (if i < asterisk then do {
        ch \<leftarrow> idx data i;
        if ch = 0x24 \<or> ch = 0x2A then Some (Inl ())
        else if ch = 0x21 \<or> ch = 0x5C \<or> ch = 0x7E then
          check_chars data (i + 1) asterisk (flags AND NOT SentenceValidDataChars)
        else if ch = 0x5E then do {
          a \<leftarrow> idx data (i + 1);
          b \<leftarrow> (if \<not> isUpperHexDigit a then Some 0 else idx data (i + 2));
          check_chars data (i + 1) asterisk
            (if \<not> isUpperHexDigit a \<or> \<not> isUpperHexDigit b
             then (flags AND NOT SentenceNoCarets) AND NOT SentenceValidCaretEscaping
             else flags AND NOT SentenceNoCarets) }
        else if \<not> isPrint ch then Some (Inl ())
        else check_chars data (i + 1) asterisk flags }
      else Some (Inr flags))"
  by pat_completeness auto
termination
  by (relation "measure (\<lambda>(data, i, asterisk, flags). asterisk - i)") auto

declare check_address.simps [simp del] check_chars.simps [simp del]

definition talker_flag :: "byte \<Rightarrow> byte \<Rightarrow> sentence_flags" where
  "talker_flag a b =
     (if a = 0x47 then
        (if b = 0x50 then SentenceTalkerIsGP
         else if b = 0x4C then SentenceTalkerIsGL
         else if b = 0x41 then SentenceTalkerIsGA
         else if b = 0x42 then SentenceTalkerIsGB
         else if b = 0x49 then SentenceTalkerIsGI
         else if b = 0x51 then SentenceTalkerIsGQ
         else if b = 0x4E then SentenceTalkerIsGN
         else 0)
      else if a = 0x42 then (if b = 0x44 then SentenceTalkerIsBD else 0)
      else 0)"

definition checkSyntax :: "bytes \<Rightarrow> sentence_flags option" where
  "checkSyntax data =
     (let flags = SentenceIsPacket OR SentenceValidDataChars OR SentenceValidCaretEscaping OR SentenceNoCarets;
          n = length data in
      if sentenceMaxLength < n then Some 0
      else if n < 7 then Some 0
      else if data ! 0 \<noteq> 0x24 \<or> \<not> isAlnum (data ! 1) \<or> \<not> isAlnum (data ! 2) then Some 0
      else do {
        let flags = (if n \<le> 82 then flags OR SentenceLength82OrLess else flags);
        let lineTerminatorIndex = n - 1;
        if data ! lineTerminatorIndex \<noteq> 0x0A then Some 0
        else do {
          let crlf = (data ! (lineTerminatorIndex - 1) = 0x0D);
          if \<not> crlf \<and> n = sentenceMaxLength then Some 0
          else do {
            let flags = (if crlf then flags OR SentenceEndsWithCRLF else flags);
            let lineTerminatorIndex = (if crlf then lineTerminatorIndex - 1 else lineTerminatorIndex);
            asteriskIndex \<leftarrow> sub_idx lineTerminatorIndex 3;
            c \<leftarrow> idx data asteriskIndex;
            h1 \<leftarrow> idx data (asteriskIndex + 1);
            h2 \<leftarrow> idx data (asteriskIndex + 2);
            if c \<noteq> 0x2A then Some 0
            else if \<not> isUpperHexDigit h1 \<or> \<not> isUpperHexDigit h2 then Some 0
            else do {
              (i, flags) \<leftarrow> (if asteriskIndex = 6 \<or> data ! 6 = 0x2C then check_address data 3 flags
                              else Some (3, flags));
              let flags = (if data ! 1 = 0x50 \<and> isLetter (data ! 2) \<and> isLetter (data ! 3) \<and> isLetter (data ! 4)
                           then flags OR SentenceProprietaryAddressFormat else flags);
              r \<leftarrow> check_chars data i asteriskIndex flags;
              case r of
                Inl _ \<Rightarrow> Some 0
              | Inr flags \<Rightarrow> Some (flags OR talker_flag (data ! 1) (data ! 2)) } } } })"

section \<open>The loops\<close>

definition all_from :: "nat \<Rightarrow> nat \<Rightarrow> (nat \<Rightarrow> bool) \<Rightarrow> bool" where
  "all_from i j P \<longleftrightarrow> (\<forall>k. i \<le> k \<and> k < j \<longrightarrow> P k)"

lemma all_from_step: "i < j \<Longrightarrow> all_from i j P \<longleftrightarrow> P i \<and> all_from (Suc i) j P"
  unfolding all_from_def by (metis Suc_leD Suc_leI le_eq_less_or_eq)

lemma all_from_empty [simp]: "j \<le> i \<Longrightarrow> all_from i j P"
  by (auto simp: all_from_def)

definition sentence_char :: "byte \<Rightarrow> bool" where
  "sentence_char c \<longleftrightarrow> isPrint c \<and> c \<noteq> 0x24 \<and> c \<noteq> 0x2A"

definition caret_ok :: "bytes \<Rightarrow> nat \<Rightarrow> bool" where
  "caret_ok data k \<longleftrightarrow> (data ! k = 0x5E \<longrightarrow> isUpperHexDigit (data ! (k + 1)) \<and> isUpperHexDigit (data ! (k + 2)))"

definition data_char :: "byte \<Rightarrow> bool" where
  "data_char c \<longleftrightarrow> c \<noteq> 0x21 \<and> c \<noteq> 0x5C \<and> c \<noteq> 0x7E"

definition chars_flags :: "bytes \<Rightarrow> nat \<Rightarrow> nat \<Rightarrow> sentence_flags \<Rightarrow> sentence_flags \<Rightarrow> bool" where
  "chars_flags data i j flags f \<longleftrightarrow> (\<forall>n. bit f n \<longleftrightarrow> bit flags n
     \<and> (n = 11 \<longrightarrow> all_from i j (\<lambda>k. data ! k \<noteq> 0x5E))
     \<and> (n = 12 \<longrightarrow> all_from i j (caret_ok data))
     \<and> (n = 13 \<longrightarrow> all_from i j (\<lambda>k. data_char (data ! k))))"

lemma bit_flag: "m < 32 \<Longrightarrow> bit ((2 :: 32 word) ^ m) n \<longleftrightarrow> n = m"
  by (auto simp add: bit_exp_iff simp del: bit_push_bit_iff)

lemma bit_sentence_flags:
  "bit SentenceIsPacket n \<longleftrightarrow> n = 0"
  "bit SentenceApprovedAddressFormat n \<longleftrightarrow> n = 1"
  "bit SentenceProprietaryAddressFormat n \<longleftrightarrow> n = 2"
  "bit SentenceTalkerIsGP n \<longleftrightarrow> n = 3" "bit SentenceTalkerIsGL n \<longleftrightarrow> n = 4"
  "bit SentenceTalkerIsGA n \<longleftrightarrow> n = 5" "bit SentenceTalkerIsGB n \<longleftrightarrow> n = 6"
  "bit SentenceTalkerIsBD n \<longleftrightarrow> n = 7" "bit SentenceTalkerIsGI n \<longleftrightarrow> n = 8"
  "bit SentenceTalkerIsGQ n \<longleftrightarrow> n = 9" "bit SentenceTalkerIsGN n \<longleftrightarrow> n = 10"
  "bit SentenceNoCarets n \<longleftrightarrow> n = 11"
  "bit SentenceValidCaretEscaping n \<longleftrightarrow> n = 12" "bit SentenceValidDataChars n \<longleftrightarrow> n = 13"
  "bit SentenceLength82OrLess n \<longleftrightarrow> n = 14" "bit SentenceEndsWithCRLF n \<longleftrightarrow> n = 15"
  unfolding sentence_flag_defs by (rule bit_flag, simp)+

lemma bit_word32_lt: "bit (w :: 32 word) n \<Longrightarrow> n < 32"
  using bit_imp_le_length [of w n] by simp

lemma bit_clear: "bit (f AND NOT g) n \<longleftrightarrow> bit f n \<and> \<not> bit (g :: 32 word) n"
  by (auto simp: bit_and_iff bit_not_iff dest: bit_word32_lt)

fun chars_spec :: "bytes \<Rightarrow> nat \<Rightarrow> nat \<Rightarrow> sentence_flags \<Rightarrow> unit + sentence_flags \<Rightarrow> bool" where
  "chars_spec data i j flags (Inl _) \<longleftrightarrow> \<not> all_from i j (\<lambda>k. sentence_char (data ! k))"
| "chars_spec data i j flags (Inr f) \<longleftrightarrow> all_from i j (\<lambda>k. sentence_char (data ! k)) \<and> chars_flags data i j flags f"

lemma chars_spec_step:
  assumes "i < j" "sentence_char (data ! i)" "chars_spec data (i + 1) j fl r"
    and "\<And>n. bit fl n \<longleftrightarrow> bit flags n \<and> (n = 11 \<longrightarrow> data ! i \<noteq> 0x5E) \<and> (n = 12 \<longrightarrow> caret_ok data i)
      \<and> (n = 13 \<longrightarrow> data_char (data ! i))"
  shows "chars_spec data i j flags r"
  using assms by (cases r) (auto simp: all_from_step chars_flags_def)

lemma check_chars_spec:
  "j + 2 < length data \<Longrightarrow> \<exists>r. check_chars data i j flags = Some r \<and> chars_spec data i j flags r"
proof (induction data i j flags rule: check_chars.induct)
  case (1 data i j flags)
  show ?case
  proof (cases "i < j")
    case False
    then show ?thesis by (subst check_chars.simps) (simp add: chars_flags_def)
  next
    case lt: True
    with "1.prems" have len: "i < length data" "i + 1 < length data" "i + 2 < length data" by simp_all
    let ?ch = "data ! i"
    have ch: "idx data i = Some ?ch" using len by simp
    consider (bad) "\<not> sentence_char ?ch" | (esc) "sentence_char ?ch" "\<not> data_char ?ch"
      | (caret) "sentence_char ?ch" "?ch = 0x5E" | (plain) "sentence_char ?ch" "data_char ?ch" "?ch \<noteq> 0x5E"
      by blast
    then show ?thesis
    proof cases
      case bad
      then have "check_chars data i j flags = Some (Inl ())"
        using lt ch by (subst check_chars.simps) (auto simp: sentence_char_def isPrint_iff word_le_nat_alt)
      with bad lt show ?thesis by (auto simp: all_from_step)
    next
      case esc
      then have c: "?ch = 0x21 \<or> ?ch = 0x5C \<or> ?ch = 0x7E" by (auto simp: data_char_def)
      have eq: "check_chars data i j flags = check_chars data (i + 1) j (flags AND NOT SentenceValidDataChars)"
        using lt ch c by (subst check_chars.simps) auto
      have "\<exists>r. check_chars data (i + 1) j (flags AND NOT SentenceValidDataChars) = Some r
          \<and> chars_spec data (i + 1) j (flags AND NOT SentenceValidDataChars) r"
        by (rule "1.IH"(1) [OF lt ch _ c]) (use c "1.prems" in auto)
      then obtain r where r: "check_chars data i j flags = Some r"
        "chars_spec data (i + 1) j (flags AND NOT SentenceValidDataChars) r" unfolding eq by blast
      have "chars_spec data i j flags r"
        by (rule chars_spec_step [OF lt esc(1) r(2)])
          (use c esc(2) in \<open>auto simp: bit_clear bit_sentence_flags caret_ok_def\<close>)
      with r(1) show ?thesis by blast
    next
      case caret
      let ?a = "data ! (i + 1)" and ?b = "data ! (i + 2)"
      let ?b' = "if isUpperHexDigit ?a then ?b else 0"
      have b: "(if \<not> isUpperHexDigit ?a then Some 0 else idx data (i + 2)) = Some ?b'" using len by simp
      let ?fl = "if \<not> isUpperHexDigit ?a \<or> \<not> isUpperHexDigit ?b'
             then (flags AND NOT SentenceNoCarets) AND NOT SentenceValidCaretEscaping
             else flags AND NOT SentenceNoCarets"
      have a: "idx data (i + 1) = Some ?a" using len by simp
      have eq: "check_chars data i j flags = check_chars data (i + 1) j ?fl"
        using lt ch caret by (subst check_chars.simps) (simp add: a b del: One_nat_def add_Suc_right)
      have "\<exists>r. check_chars data (i + 1) j ?fl = Some r \<and> chars_spec data (i + 1) j ?fl r"
        by (rule "1.IH"(2) [OF lt ch _ _ _ a b]) (use caret "1.prems" in auto)
      then obtain r where r: "check_chars data i j flags = Some r" "chars_spec data (i + 1) j ?fl r"
        unfolding eq by blast
      have "chars_spec data i j flags r"
        by (rule chars_spec_step [OF lt caret(1) r(2)])
          (use caret(2) in \<open>auto simp: bit_clear bit_sentence_flags caret_ok_def data_char_def\<close>)
      with r(1) show ?thesis by blast
    next
      case plain
      have eq: "check_chars data i j flags = check_chars data (i + 1) j flags"
        using lt ch plain by (subst check_chars.simps) (auto simp: sentence_char_def data_char_def)
      have "\<exists>r. check_chars data (i + 1) j flags = Some r \<and> chars_spec data (i + 1) j flags r"
        by (rule "1.IH"(3) [OF lt ch]) (use plain "1.prems" in \<open>auto simp: sentence_char_def data_char_def\<close>)
      then obtain r where r: "check_chars data i j flags = Some r" "chars_spec data (i + 1) j flags r"
        unfolding eq by blast
      have "chars_spec data i j flags r"
        by (rule chars_spec_step [OF lt plain(1) r(2)]) (use plain in \<open>auto simp: caret_ok_def\<close>)
      with r(1) show ?thesis by blast
    qed
  qed
qed

definition address_char :: "byte \<Rightarrow> bool" where
  "address_char c \<longleftrightarrow> isUpper c \<or> isDigit c"

definition address_ok :: "bytes \<Rightarrow> bool" where
  "address_ok data \<longleftrightarrow> address_char (data ! 1) \<and> address_char (data ! 2) \<and> data ! 1 \<noteq> 0x50
     \<and> address_char (data ! 3) \<and> address_char (data ! 4) \<and> address_char (data ! 5)"

lemma address_char_alnum: "isAlnum c \<Longrightarrow> address_char c \<longleftrightarrow> \<not> isLower c"
  by (auto simp: address_char_def isAlnum_iff isUpper_iff isLower_iff isDigit_iff word_le_nat_alt)

lemma check_address_spec:
  assumes "7 \<le> length data" "isAlnum (data ! 1)" "isAlnum (data ! 2)"
  shows "\<exists>i. 3 \<le> i \<and> i \<le> 6 \<and> all_from 3 i (\<lambda>k. address_char (data ! k))
    \<and> check_address data 3 flags = Some (i, if address_ok data then flags OR SentenceApprovedAddressFormat else flags)"
proof -
  have len: "5 < length data" "4 < length data" "3 < length data" "2 < length data" "1 < length data"
    using assms by simp_all
  have bad: "check_address data k flags = Some (k, flags)" if "\<not> address_char (data ! k)" "k < length data" for k
    using that by (subst check_address.simps) (simp add: address_char_def)
  have skip: "check_address data k flags = check_address data (k + 1) flags"
    if "address_char (data ! k)" "k < length data" "k \<noteq> 5" for k
    using that by (subst check_address.simps) (auto simp: address_char_def)
  have five: "check_address data 5 flags = Some (6, if address_ok data then flags OR SentenceApprovedAddressFormat else flags)"
    if "address_char (data ! 5)" "address_char (data ! 3)" "address_char (data ! 4)"
    using that len address_char_alnum [OF assms(2)] address_char_alnum [OF assms(3)]
    by (subst check_address.simps) (auto simp: address_char_def [of "data ! 5"] address_ok_def)
  consider (a) "\<not> address_char (data ! 3)" | (b) "address_char (data ! 3)" "\<not> address_char (data ! 4)"
    | (c) "address_char (data ! 3)" "address_char (data ! 4)" "\<not> address_char (data ! 5)"
    | (d) "address_char (data ! 3)" "address_char (data ! 4)" "address_char (data ! 5)" by blast
  then show ?thesis
  proof cases
    case a
    with bad [of 3] len show ?thesis by (intro exI [of _ 3]) (simp add: address_ok_def)
  next
    case b
    with skip [of 3] bad [of 4] len show ?thesis
      by (intro exI [of _ 4]) (auto simp: address_ok_def all_from_step)
  next
    case c
    with skip [of 3] skip [of 4] bad [of 5] len show ?thesis
      by (intro exI [of _ 5]) (auto simp: address_ok_def all_from_step)
  next
    case d
    with skip [of 3] skip [of 4] five len show ?thesis
      by (intro exI [of _ 6]) (auto simp: all_from_step)
  qed
qed

section \<open>The same packets as the state machine\<close>

definition sentence_crlf :: "bytes \<Rightarrow> bool" where
  "sentence_crlf data \<longleftrightarrow> data ! (length data - 2) = 0x0D"

definition sentence_star :: "bytes \<Rightarrow> nat" where
  "sentence_star data = (if sentence_crlf data then length data - 5 else length data - 4)"

definition sentence_tests :: "bytes \<Rightarrow> bool" where
  "sentence_tests data \<longleftrightarrow> 7 \<le> length data \<and> length data \<le> 400 \<and> data ! 0 = 0x24
     \<and> isAlnum (data ! 1) \<and> isAlnum (data ! 2) \<and> data ! (length data - 1) = 0x0A
     \<and> (sentence_crlf data \<or> length data \<noteq> 400) \<and> data ! sentence_star data = 0x2A
     \<and> isUpperHexDigit (data ! (sentence_star data + 1)) \<and> isUpperHexDigit (data ! (sentence_star data + 2))
     \<and> all_from 3 (sentence_star data) (\<lambda>k. sentence_char (data ! k))"

lemma set_drop_nth: "(\<forall>c \<in> set (drop n xs). P c) \<longleftrightarrow> all_from n (length xs) (\<lambda>k. P (xs ! k))"
proof
  assume a: "\<forall>c \<in> set (drop n xs). P c"
  show "all_from n (length xs) (\<lambda>k. P (xs ! k))"
    unfolding all_from_def
  proof (intro allI impI)
    fix k assume k: "n \<le> k \<and> k < length xs"
    then have "drop n xs ! (k - n) \<in> set (drop n xs)" by (intro nth_mem) auto
    with a k show "P (xs ! k)" by simp
  qed
next
  assume "all_from n (length xs) (\<lambda>k. P (xs ! k))"
  then show "\<forall>c \<in> set (drop n xs). P c" by (auto simp: all_from_def in_set_conv_nth)
qed

lemma sentence_tests_of:
  assumes body: "nmea_body body" and hex: "isUpperHexDigit h" "isUpperHexDigit l"
    and "term": "term = [0x0A] \<or> term = [0x0D, 0x0A]"
  shows "sentence_tests (nmea_sentence body h l term)"
    and "sentence_star (nmea_sentence body h l term) = length body + 1"
    and "sentence_crlf (nmea_sentence body h l term) \<longleftrightarrow> term = [0x0D, 0x0A]"
proof -
  let ?d = "nmea_sentence body h l term"
  have n: "length ?d = length body + length term + 4" "2 \<le> length body" "length body \<le> 394"
    using body by (simp_all add: nmea_body_def)
  have "l \<noteq> 0x0D" using hex by (auto simp: isUpperHexDigit_iff isDigit_iff)
  then show crlf: "sentence_crlf ?d \<longleftrightarrow> term = [0x0D, 0x0A]"
    using "term" by (auto simp: sentence_crlf_def nmea_sentence_def nth_append)
  then show star: "sentence_star ?d = length body + 1"
    using "term" n by (auto simp: sentence_star_def)
  have nth: "?d ! (k + 1) = body ! k" if "k < length body" for k
    using that by (simp add: nmea_sentence_def nth_append)
  have "all_from 2 (length body) (\<lambda>k. sentence_char (body ! k))"
    using body set_drop_nth [of 2 body sentence_char] by (simp add: nmea_body_def sentence_char_def)
  then have "all_from 3 (length body + 1) (\<lambda>k. sentence_char (?d ! k))"
    unfolding all_from_def
  proof (intro allI impI)
    fix k assume a: "\<forall>k. 2 \<le> k \<and> k < length body \<longrightarrow> sentence_char (body ! k)" "3 \<le> k \<and> k < length body + 1"
    then show "sentence_char (?d ! k)" using nth [of "k - 1"] by (cases k) auto
  qed
  moreover have "isAlnum (?d ! 1)" "isAlnum (?d ! 2)"
    using nth [of 0] nth [of 1] n(2) body by (cases "body = []", auto simp: nmea_body_def numeral_2_eq_2)
  moreover have "?d ! (length ?d - 1) = 0x0A"
    using "term" by (auto simp: nmea_sentence_def nth_append)
  moreover have "?d ! (length body + 1) = 0x2A" by (simp add: nmea_sentence_def)
  ultimately show "sentence_tests ?d"
    using "term" n hex crlf unfolding sentence_tests_def star
    by (auto simp: nmea_sentence_def nth_append)
qed

lemma drop_one: "length xs = k + 1 \<Longrightarrow> drop k xs = [xs ! k]"
  using Cons_nth_drop_Suc [of k xs] by simp

lemma drop_two: "length xs = k + 2 \<Longrightarrow> drop k xs = [xs ! k, xs ! (k + 1)]"
  using Cons_nth_drop_Suc [of k xs] Cons_nth_drop_Suc [of "k + 1" xs] by simp

lemma drop_three: "k + 3 \<le> length xs \<Longrightarrow> drop k xs = xs ! k # xs ! (k + 1) # xs ! (k + 2) # drop (k + 3) xs"
  using Cons_nth_drop_Suc [of k xs] Cons_nth_drop_Suc [of "k + 1" xs] Cons_nth_drop_Suc [of "k + 2" xs]
  by (simp add: numeral_3_eq_3)

lemma sentence_split:
  assumes "sentence_tests data"
  defines "s \<equiv> sentence_star data"
  shows "data = nmea_sentence (take (s - 1) (drop 1 data)) (data ! (s + 1)) (data ! (s + 2))
      (if sentence_crlf data then [0x0D, 0x0A] else [0x0A])"
    and "3 \<le> s" "s + 4 \<le> length data" "s \<le> 395"
proof -
  have n: "7 \<le> length data" "length data \<le> 400" "sentence_crlf data \<or> length data \<noteq> 400"
    and d: "data ! 0 = 0x24" "data ! (length data - 1) = 0x0A" "data ! s = 0x2A"
    and al: "isAlnum (data ! 1)" "isAlnum (data ! 2)"
    using assms by (auto simp: sentence_tests_def)
  have s: "length data = s + (if sentence_crlf data then 5 else 4)" "2 \<le> s"
    using n by (auto simp: s_def sentence_star_def)
  have "s \<noteq> 2" using al d by (auto simp: isAlnum_iff isDigit_iff isUpper_iff isLower_iff)
  with s show s3: "3 \<le> s" "s + 4 \<le> length data" by auto
  from s n show "s \<le> 395" by (auto split: if_splits)
  let ?t = "if sentence_crlf data then [0x0D, 0x0A] else [0x0A] :: bytes"
  show "data = nmea_sentence (take (s - 1) (drop 1 data)) (data ! (s + 1)) (data ! (s + 2)) ?t"
  proof -
    have "data = take s data @ drop s data" by simp
    also have "take s data = 0x24 # take (s - 1) (drop 1 data)"
      using s3(1) d(1) n(1) take_Suc_conv_app_nth [of 0 data] by (cases data; cases s) simp_all
    also have "drop s data = data ! s # data ! (s + 1) # data ! (s + 2) # drop (s + 3) data"
      using s3 by (intro drop_three) simp
    also have "drop (s + 3) data = ?t"
    proof (cases "sentence_crlf data")
      case True
      then have "data ! (length data - 2) = 0x0D" by (simp add: sentence_crlf_def)
      moreover have "length data = s + 5" using True s(1) by simp
      ultimately have "length data = s + 5" "data ! (s + 3) = 0x0D" "data ! (s + 4) = 0x0A"
        using d(2) by (simp_all add: add.commute)
      then have "drop (s + 3) data = [data ! (s + 3), data ! (s + 3 + 1)]"
        by (intro drop_two) simp
      with \<open>data ! (s + 3) = 0x0D\<close> \<open>data ! (s + 4) = 0x0A\<close> True show ?thesis by (simp add: add.commute)
    next
      case False
      then have "length data = s + 4" "data ! (s + 3) = 0x0A"
        using s(1) d(2) by (simp_all add: add.commute)
      then have "drop (s + 3) data = [data ! (s + 3)]"
        by (intro drop_one) simp
      with \<open>data ! (s + 3) = 0x0A\<close> False show ?thesis by simp
    qed
    finally show ?thesis using d(3) by (simp add: nmea_sentence_def)
  qed
qed

lemma sentence_tests_iff: "sentence_tests data \<longleftrightarrow> complete nmeaFormat data"
proof
  assume t: "sentence_tests data"
  let ?s = "sentence_star data" and ?body = "take (sentence_star data - 1) (drop 1 data)"
  note sp = sentence_split [OF t]
  have body: "nmea_body ?body"
  proof -
    have len: "length ?body = ?s - 1" using sp(2-4) by simp
    have "all_from 2 (length ?body) (\<lambda>k. sentence_char (?body ! k))"
      unfolding all_from_def
    proof (intro allI impI)
      fix k assume k: "2 \<le> k \<and> k < length ?body"
      then have "sentence_char (data ! (k + 1))"
        using t len by (auto simp: sentence_tests_def all_from_def)
      with k len sp(2-4) show "sentence_char (?body ! k)" by simp
    qed
    then have chars: "\<forall>c \<in> set (drop 2 ?body). sentence_char c" unfolding set_drop_nth .
    have "?body ! 0 = data ! 1" "?body ! 1 = data ! 2" using len sp(2-4) by (simp_all add: numeral_2_eq_2)
    moreover have "isAlnum (data ! 1)" "isAlnum (data ! 2)" using t by (simp_all add: sentence_tests_def)
    moreover have "2 \<le> length ?body" "length ?body \<le> 394" using len sp(2,4) by linarith+
    ultimately show ?thesis
      using chars unfolding nmea_body_def sentence_char_def by simp
  qed
  have hex: "isUpperHexDigit (data ! (?s + 1))" "isUpperHexDigit (data ! (?s + 2))"
    using t by (simp_all add: sentence_tests_def)
  show "complete nmeaFormat data"
    unfolding nmea_complete_iff
    by (intro exI conjI) (rule sp(1), rule body, rule hex(1), rule hex(2), simp)
next
  assume "complete nmeaFormat data"
  then show "sentence_tests data" unfolding nmea_complete_iff by (auto simp: sentence_tests_of)
qed

section \<open>What the flags say\<close>

definition flags_when :: "bool \<Rightarrow> sentence_flags \<Rightarrow> sentence_flags" where
  "flags_when c f = (if c then f else 0)"

lemma bit_flags_when: "bit (flags_when c f) n \<longleftrightarrow> c \<and> bit f n"
  by (simp add: flags_when_def)

lemma bit_talker: "bit (talker_flag a b) n \<Longrightarrow> 3 \<le> n \<and> n \<le> 10"
  by (auto simp: talker_flag_def bit_sentence_flags split: if_splits)

definition head_tests :: "bytes \<Rightarrow> bool" where
  "head_tests data \<longleftrightarrow> 7 \<le> length data \<and> length data \<le> 400 \<and> data ! 0 = 0x24
     \<and> isAlnum (data ! 1) \<and> isAlnum (data ! 2) \<and> data ! (length data - 1) = 0x0A
     \<and> (sentence_crlf data \<or> length data \<noteq> 400)"

definition head_flags :: "bytes \<Rightarrow> sentence_flags" where
  "head_flags data = (let flags = SentenceIsPacket OR SentenceValidDataChars OR SentenceValidCaretEscaping OR SentenceNoCarets;
     flags = (if length data \<le> 82 then flags OR SentenceLength82OrLess else flags)
     in if sentence_crlf data then flags OR SentenceEndsWithCRLF else flags)"

definition tail_check :: "bytes \<Rightarrow> sentence_flags option" where
  "tail_check data =
     (let s = sentence_star data in do {
        (i, flags) \<leftarrow> (if s = 6 \<or> data ! 6 = 0x2C then check_address data 3 (head_flags data)
                        else Some (3, head_flags data));
        let flags = (if data ! 1 = 0x50 \<and> isLetter (data ! 2) \<and> isLetter (data ! 3) \<and> isLetter (data ! 4)
                     then flags OR SentenceProprietaryAddressFormat else flags);
        r \<leftarrow> check_chars data i s flags;
        case r of Inl _ \<Rightarrow> Some 0 | Inr flags \<Rightarrow> Some (flags OR talker_flag (data ! 1) (data ! 2)) })"

lemma sentence_crlf_alt: "sentence_crlf data \<longleftrightarrow> data ! (length data - 1 - 1) = 0x0D"
  by (simp add: sentence_crlf_def numeral_2_eq_2)

lemma checkSyntax_head: "\<not> head_tests data \<Longrightarrow> checkSyntax data = Some 0"
  unfolding checkSyntax_def head_tests_def sentence_crlf_alt sentenceMaxLength_def Let_def
  by (cases "length data \<le> 400"; cases "7 \<le> length data") auto

lemma checkSyntax_tail:
  assumes "head_tests data"
  shows "checkSyntax data = (let s = sentence_star data in
     if data ! s \<noteq> 0x2A \<or> \<not> isUpperHexDigit (data ! (s + 1)) \<or> \<not> isUpperHexDigit (data ! (s + 2))
     then Some 0 else tail_check data)"
proof -
  have n: "7 \<le> length data" using assms by (simp add: head_tests_def)
  have star: "sub_idx (if sentence_crlf data then length data - 1 - 1 else length data - 1) 3 = Some (sentence_star data)"
    using n by (auto simp: sub_idx_def sentence_star_def)
  have "sentence_star data + 3 < length data" using n by (auto simp: sentence_star_def)
  then have idx: "idx data (sentence_star data) = Some (data ! sentence_star data)"
    "idx data (sentence_star data + 1) = Some (data ! (sentence_star data + 1))"
    "idx data (sentence_star data + 2) = Some (data ! (sentence_star data + 2))" by simp_all
  have h: "\<not> 400 < length data" "\<not> length data < 7" "data ! 0 = 0x24" "isAlnum (data ! 1)" "isAlnum (data ! 2)"
    "data ! (length data - 1) = 0x0A"
    using assms by (auto simp: head_tests_def)
  have e: "(\<not> sentence_crlf data \<and> length data = 400) = False"
    using assms by (auto simp: head_tests_def)
  show ?thesis
    unfolding checkSyntax_def tail_check_def head_flags_def sentenceMaxLength_def Let_def
      sentence_crlf_alt [symmetric] star idx e if_False Option.bind.bind_lunit
    using h by (simp del: One_nat_def)
qed

definition star_tests :: "bytes \<Rightarrow> bool" where
  "star_tests data \<longleftrightarrow> data ! sentence_star data = 0x2A \<and> isUpperHexDigit (data ! (sentence_star data + 1))
     \<and> isUpperHexDigit (data ! (sentence_star data + 2))"

lemma sentence_tests_parts: "sentence_tests data \<longleftrightarrow>
    head_tests data \<and> star_tests data \<and> all_from 3 (sentence_star data) (\<lambda>k. sentence_char (data ! k))"
  by (auto simp: sentence_tests_def head_tests_def star_tests_def)

definition address_here :: "bytes \<Rightarrow> bool" where
  "address_here data \<longleftrightarrow> sentence_star data = 6 \<or> data ! 6 = 0x2C"

lemma address_before_star:
  assumes "head_tests data" "star_tests data" "address_here data"
  shows "6 \<le> sentence_star data"
proof (rule ccontr)
  assume "\<not> 6 \<le> sentence_star data"
  moreover have "3 \<le> sentence_star data"
  proof -
    have "2 \<le> sentence_star data" using assms(1) by (auto simp: head_tests_def sentence_star_def)
    moreover have "sentence_star data \<noteq> 2"
      using assms by (auto simp: head_tests_def star_tests_def isAlnum_iff isDigit_iff isUpper_iff isLower_iff)
    ultimately show ?thesis by simp
  qed
  ultimately consider "sentence_star data = 3" | "sentence_star data = 4" | "sentence_star data = 5" by linarith
  then have "data ! 6 \<noteq> 0x2C"
  proof cases
    case 1
    have n: "7 \<le> length data" "data ! (length data - 1) = 0x0A" using assms(1) by (simp_all add: head_tests_def)
    show ?thesis
    proof (cases "sentence_crlf data")
      case True
      then have crlf: "data ! (length data - 2) = 0x0D" by (simp add: sentence_crlf_def)
      from True 1 n(1) have "length data - 2 = 6" by (simp add: sentence_star_def)
      with crlf show ?thesis by simp
    next
      case False
      with 1 n(1) have "length data - 1 = 6" by (simp add: sentence_star_def)
      with n(2) show ?thesis by simp
    qed
  next
    case 2 with assms(2) show ?thesis by (auto simp: star_tests_def isUpperHexDigit_iff isDigit_iff)
  next
    case 3 with assms(2) show ?thesis by (auto simp: star_tests_def isUpperHexDigit_iff isDigit_iff)
  qed
  with assms(3) \<open>\<not> 6 \<le> sentence_star data\<close> show False by (auto simp: address_here_def)
qed

lemma all_from_split: "i \<le> m \<Longrightarrow> m \<le> j \<Longrightarrow> all_from i j P \<longleftrightarrow> all_from i m P \<and> all_from m j P"
  unfolding all_from_def by (metis le_trans not_le less_le_trans)

lemma all_from_mono: "all_from i j P \<Longrightarrow> (\<And>k. P k \<Longrightarrow> Q k) \<Longrightarrow> all_from i j Q"
  by (auto simp: all_from_def)

lemma address_char_plain: "address_char c \<Longrightarrow> sentence_char c \<and> c \<noteq> 0x5E \<and> data_char c"
  by (auto simp: address_char_def sentence_char_def data_char_def isUpper_iff isDigit_iff isPrint_iff word_le_nat_alt)

text \<open>The talkers that have a flag, by the number of their bit: GPS, GLONASS, Galileo, BeiDou (two), NavIC, QZSS and all together.\<close>

definition talker_names :: "(nat \<times> string) list" where
  "talker_names = [(3, ''GP''), (4, ''GL''), (5, ''GA''), (6, ''GB''), (7, ''BD''), (8, ''GI''), (9, ''GQ''), (10, ''GN'')]"

lemma talker_table:
  "\<forall>(n, name) \<in> set talker_names. bit (talker_flag a b) n \<longleftrightarrow> [a, b] = map of_char name"
  by (simp add: talker_names_def talker_flag_def bit_sentence_flags of_char_def)

definition syntax_flags :: "bytes \<Rightarrow> sentence_flags \<Rightarrow> bool" where
  "syntax_flags data f \<longleftrightarrow> bit f 0
     \<and> (bit f 1 \<longleftrightarrow> address_here data \<and> address_ok data)
     \<and> (bit f 2 \<longleftrightarrow> data ! 1 = 0x50 \<and> isLetter (data ! 2) \<and> isLetter (data ! 3) \<and> isLetter (data ! 4))
     \<and> (bit f 11 \<longleftrightarrow> all_from 3 (sentence_star data) (\<lambda>k. data ! k \<noteq> 0x5E))
     \<and> (bit f 12 \<longleftrightarrow> all_from 3 (sentence_star data) (caret_ok data))
     \<and> (bit f 13 \<longleftrightarrow> all_from 3 (sentence_star data) (\<lambda>k. data_char (data ! k)))
     \<and> (bit f 14 \<longleftrightarrow> length data \<le> 82) \<and> (bit f 15 \<longleftrightarrow> sentence_crlf data)
     \<and> (\<forall>(n, name) \<in> set talker_names. bit f n \<longleftrightarrow> [data ! 1, data ! 2] = map of_char name)
     \<and> (\<forall>n \<ge> 16. \<not> bit f n)"

lemma tail_check_spec:
  assumes h: "head_tests data" "star_tests data"
  shows "\<exists>f. tail_check data = Some f \<and>
    (if sentence_tests data then syntax_flags data f else f = 0)"
proof -
  let ?s = "sentence_star data"
  let ?fl = "if address_here data \<and> address_ok data then head_flags data OR SentenceApprovedAddressFormat else head_flags data"
  let ?proprietary = "data ! 1 = 0x50 \<and> isLetter (data ! 2) \<and> isLetter (data ! 3) \<and> isLetter (data ! 4)"
  let ?fl2 = "if ?proprietary then ?fl OR SentenceProprietaryAddressFormat else ?fl"
  have n: "7 \<le> length data" "isAlnum (data ! 1)" "isAlnum (data ! 2)" using h(1) by (auto simp: head_tests_def)
  obtain i where i: "(if ?s = 6 \<or> data ! 6 = 0x2C then check_address data 3 (head_flags data)
      else Some (3, head_flags data)) = Some (i, ?fl)"
    and i3: "3 \<le> i" "i \<le> ?s \<or> i = 3" and ai: "all_from 3 i (\<lambda>k. address_char (data ! k))"
    using check_address_spec [OF n, of "head_flags data"] address_before_star [OF h]
    by (cases "address_here data") (auto simp: address_here_def)
  have len: "?s + 2 < length data" using n(1) by (auto simp: sentence_star_def)
  from check_chars_spec [OF len, of i ?fl2] obtain r
    where r: "check_chars data i ?s ?fl2 = Some r" "chars_spec data i ?s ?fl2 r" by blast
  have split: "all_from i ?s P \<longleftrightarrow> all_from 3 ?s P" if "\<And>k. address_char (data ! k) \<Longrightarrow> P k" for P
    using i3 all_from_split [of 3 i ?s P] all_from_mono [OF ai that] by auto
  have eqs: "all_from i ?s (\<lambda>k. sentence_char (data ! k)) = all_from 3 ?s (\<lambda>k. sentence_char (data ! k))"
    "all_from i ?s (\<lambda>k. data ! k \<noteq> 0x5E) = all_from 3 ?s (\<lambda>k. data ! k \<noteq> 0x5E)"
    "all_from i ?s (caret_ok data) = all_from 3 ?s (caret_ok data)"
    "all_from i ?s (\<lambda>k. data_char (data ! k)) = all_from 3 ?s (\<lambda>k. data_char (data ! k))"
    by (rule split, simp add: address_char_plain caret_ok_def)+
  have t: "tail_check data = (case r of Inl _ \<Rightarrow> Some 0 | Inr flags \<Rightarrow> Some (flags OR talker_flag (data ! 1) (data ! 2)))"
    unfolding tail_check_def Let_def i Option.bind.bind_lunit prod.case r(1) ..
  show ?thesis
  proof (cases r)
    case (Inl u)
    with r(2) eqs(1) have "\<not> sentence_tests data" by (simp add: sentence_tests_parts)
    with t Inl show ?thesis by simp
  next
    case (Inr f)
    with r(2) eqs(1) h have st: "sentence_tests data" by (simp add: sentence_tests_parts)
    have "syntax_flags data (f OR talker_flag (data ! 1) (data ! 2))"
    proof -
      have bf: "bit f n \<longleftrightarrow> bit ?fl2 n
          \<and> (n = 11 \<longrightarrow> all_from 3 ?s (\<lambda>k. data ! k \<noteq> 0x5E))
          \<and> (n = 12 \<longrightarrow> all_from 3 ?s (caret_ok data))
          \<and> (n = 13 \<longrightarrow> all_from 3 ?s (\<lambda>k. data_char (data ! k)))" for n
        using r(2) Inr by (simp add: chars_flags_def eqs)
      have b2: "bit ?fl2 n \<longleftrightarrow> n \<in> {0, 11, 12, 13} \<or> n = 1 \<and> address_here data \<and> address_ok data
          \<or> n = 2 \<and> ?proprietary \<or> n = 14 \<and> length data \<le> 82 \<or> n = 15 \<and> sentence_crlf data" for n
        by (auto simp: head_flags_def Let_def bit_or_iff bit_sentence_flags)
      have bt: "\<not> bit (talker_flag (data ! 1) (data ! 2)) n" if "n < 3 \<or> 10 < n" for n
        using bit_talker [of "data ! 1" "data ! 2" n] that by auto
      show ?thesis
        unfolding syntax_flags_def bit_or_iff bf b2 using talker_table [of "data ! 1" "data ! 2"]
        by (simp add: bt talker_names_def del: One_nat_def)
    qed
    with t Inr st show ?thesis by simp
  qed
qed

lemma checkSyntax_cases:
  "\<exists>f. checkSyntax data = Some f \<and> (if sentence_tests data then syntax_flags data f else f = 0)"
proof (cases "head_tests data")
  case False
  then show ?thesis using checkSyntax_head [OF False] by (auto simp: sentence_tests_parts)
next
  case True
  then show ?thesis
    using checkSyntax_tail [OF True] tail_check_spec [OF True]
    by (cases "star_tests data") (auto simp: Let_def star_tests_def sentence_tests_parts)
qed

end
