(* ===== verification/Scanner.thy ===== *)
theory Scanner
  imports PacketFormat
begin

text \<open>
  The packet scanner of \<^verbatim>\<open>gps/scan/scan.go\<close>. The state of the \<^verbatim>\<open>Scanner\<close> is a record: the
  packet formats, the buffer and its capacity, \<^verbatim>\<open>nextScanIndex\<close>, \<^verbatim>\<open>tRead\<close>, \<^verbatim>\<open>prevPktValid\<close>, and
  the reader, a finite script of the results of its \<^verbatim>\<open>Read\<close> calls: the time of the call, the
  bytes it delivers and its error. A read with less room than the item has bytes delivers what
  fits and leaves the rest; a reader at the end of its script returns \<^verbatim>\<open>io.EOF\<close>.

  The loop of \<^verbatim>\<open>Scan\<close> is \<open>scan_loop\<close>, one call of \<open>scan_step\<close> for each round, from one
  evaluation of the label \<^verbatim>\<open>Loop\<close> to the next; its local variables are the record
  \<open>scan_vars\<close>. A panic is \<open>None\<close>.
\<close>

section \<open>The reader\<close>

datatype io_error = EOF | TimeoutErr | TemporaryErr | OtherErr nat

text \<open>The two interfaces an error may implement; a timeout is tested first.\<close>

fun is_timeout :: "io_error \<Rightarrow> bool" where
  "is_timeout TimeoutErr = True"
| "is_timeout _ = False"

fun is_temporary :: "io_error \<Rightarrow> bool" where
  "is_temporary TemporaryErr = True"
| "is_temporary _ = False"

record read_item =
  ri_time :: nat
  ri_bytes :: bytes
  ri_err :: "io_error option"

type_synonym script = "read_item list"

definition script_bytes :: "script \<Rightarrow> bytes" where
  "script_bytes sc = concat (map ri_bytes sc)"

record scanner =
  pktFormats :: "packet_format list"
  rd :: script
  buf :: bytes
  bufcap :: nat
  nextScanIndex :: nat
  tRead :: nat
  prevPktValid :: bool

text \<open>\<^verbatim>\<open>ReadError\<close> of a packet: the reader's error, or that error wrapped.\<close>

datatype read_error = Raw io_error | MiddleOfPacket io_error

record packet =
  pk_format :: "packet_format option"
  pk_readError :: "read_error option"
  pk_data :: bytes
  pk_tRead :: nat
  pk_checksumValid :: bool

definition newScanner :: "script \<Rightarrow> nat \<Rightarrow> packet_format list \<Rightarrow> scanner" where
  "newScanner r bufSize fmts = \<lparr> pktFormats = fmts, rd = r, buf = [], bufcap = bufSize,
     nextScanIndex = 0, tRead = 0, prevPktValid = False \<rparr>"

section \<open>Filling the buffer\<close>

text \<open>
  The read loop of \<^verbatim>\<open>fill\<close>: reads until there are bytes or an error. The result is what was
  read, the error, the time, and the rest of the script.
\<close>

fun read_loop :: "nat \<Rightarrow> nat \<Rightarrow> script \<Rightarrow> bytes \<times> io_error option \<times> nat \<times> script" where
  "read_loop room t [] = ([], Some EOF, t, [])"
| "read_loop room t (it # sc) =
     (if room < length (ri_bytes it) then
        (take room (ri_bytes it), None, ri_time it, it \<lparr> ri_bytes := drop room (ri_bytes it) \<rparr> # sc)
      else if ri_err it \<noteq> None then (ri_bytes it, ri_err it, ri_time it, sc)
      else if ri_bytes it \<noteq> [] then (ri_bytes it, None, ri_time it, sc)
      else read_loop room (ri_time it) sc)"

text \<open>
  \<^verbatim>\<open>fill\<close>. A buffer of capacity 0 never gets room: the reader is asked for nothing again and
  again, which is the result \<open>None\<close> as well.
\<close>

definition fill :: "nat \<Rightarrow> scanner \<Rightarrow> (io_error option \<times> scanner) option" where
  "fill packetLen s = do {
     lo \<leftarrow> sub_idx (nextScanIndex s) packetLen;
     packetData \<leftarrow> subslice (buf s) lo (nextScanIndex s);
     let newcap = (if packetLen \<le> bufcap s div 2 then bufcap s else bufcap s * 2);
     let room = newcap - packetLen;
     if room = 0 then None
     else do {
       let (got, err, t, sc) = read_loop room (tRead s) (rd s);
       Some (err, s \<lparr> rd := sc, buf := packetData @ got, bufcap := newcap,
                     nextScanIndex := packetLen, tRead := t \<rparr>) } }"

section \<open>Scan\<close>

text \<open>\<^verbatim>\<open>restart\<close>: the first index after the candidate's first byte where some format syncs.\<close>

fun syncs_at :: "packet_format list \<Rightarrow> bytes \<Rightarrow> nat \<Rightarrow> bool option" where
  "syncs_at [] b i = Some False"
| "syncs_at (pf # fmts) b i = do {
     st \<leftarrow> pf_next pf stateSync b i 0;
     if st \<noteq> stateSync then Some True else syncs_at fmts b i }"

function find_sync :: "packet_format list \<Rightarrow> bytes \<Rightarrow> nat \<Rightarrow> nat \<Rightarrow> nat option option" where
  "find_sync fmts b i hi =
     (if i < hi then do {
        found \<leftarrow> syncs_at fmts b i;
        if found then Some (Some i) else find_sync fmts b (Suc i) hi }
      else Some None)"
  by pat_completeness auto
termination
  by (relation "measure (\<lambda>(fmts, b, i, hi). hi - i)") auto

declare find_sync.simps [simp del]

definition restart :: "nat \<Rightarrow> scanner \<Rightarrow> (nat \<times> scanner) option" where
  "restart packetLen s = do {
     start \<leftarrow> sub_idx (nextScanIndex s) packetLen;
     r \<leftarrow> find_sync (pktFormats s) (buf s) (start + 1) (nextScanIndex s);
     case r of
       Some i \<Rightarrow> Some (i - start, s \<lparr> nextScanIndex := i \<rparr>)
     | None \<Rightarrow> Some (packetLen, s) }"

definition minInvalidPacketLen :: nat where "minInvalidPacketLen = 32"

text \<open>The first format that syncs on a byte, from index \<open>k\<close> of the list on.\<close>

fun first_match :: "packet_format list \<Rightarrow> nat \<Rightarrow> bytes \<Rightarrow> nat \<Rightarrow> (nat \<times> (packet_format \<times> nat) option) option" where
  "first_match [] k b i = Some (stateSync, None)"
| "first_match (pf # fmts) k b i = do {
     st \<leftarrow> pf_next pf stateSync b i 0;
     if st \<noteq> stateSync then Some (st, Some (pf, k)) else first_match fmts (Suc k) b i }"

record scan_vars =
  v_state :: nat
  v_packetLen :: nat
  v_cur :: "packet_format option"
  v_curIndex :: nat
  v_tRead :: nat

definition scan_init :: "scanner \<Rightarrow> scan_vars" where
  "scan_init s = \<lparr> v_state = stateSync, v_packetLen = 0, v_cur = None, v_curIndex = 0, v_tRead = tRead s \<rparr>"

text \<open>
  How the loop goes on: another round, or out of it. What leaves the loop is the packet's
  length, format and \<^verbatim>\<open>ReadError\<close>, and \<^verbatim>\<open>Scan\<close>'s own error.
\<close>

record loop_exit =
  x_packetLen :: nat
  x_format :: "packet_format option"
  x_readError :: "read_error option"
  x_err :: "io_error option"
  x_tRead :: nat

datatype step_result = Again scan_vars scanner | Exit loop_exit scanner

text \<open>The error branch after \<^verbatim>\<open>fill\<close>.\<close>

definition on_error :: "io_error \<Rightarrow> scan_vars \<Rightarrow> scanner \<Rightarrow> step_result option" where
  "on_error e v s =
     (let exit = (\<lambda>n re err. \<lparr> x_packetLen = n, x_format = None, x_readError = re, x_err = err, x_tRead = v_tRead v \<rparr>)
      in if is_timeout e then
           (if v_packetLen v = 0 \<and> buf s = [] then Some (Exit (exit (v_packetLen v) (Some (Raw e)) None) s)
            else if 0 < v_packetLen v \<and> v_state v = stateSync then Some (Exit (exit (v_packetLen v) None None) s)
            else do {
              let n = nextScanIndex s;
              (packetLen, s') \<leftarrow> restart (v_packetLen v) s;
              if nextScanIndex s' = n then Some (Exit (exit packetLen (Some (MiddleOfPacket e)) None) s')
              else Some (Exit (exit packetLen None None) s') })
         else if is_temporary e then Some (Exit (exit (v_packetLen v) (Some (Raw e)) None) s)
         else Some (Exit (exit (v_packetLen v) None (Some e)) s))"

text \<open>
  What the round does with the byte at \<^verbatim>\<open>nextScanIndex\<close>: the next state, with the current
  format and its index; then, for a candidate that failed, the next format that syncs on its
  first byte; then the rest of the round.
\<close>

definition next_state :: "scan_vars \<Rightarrow> scanner \<Rightarrow> (nat \<times> packet_format option \<times> nat) option" where
  "next_state v s =
     (if v_state v \<noteq> stateSync then do {
        pf \<leftarrow> v_cur v;
        st \<leftarrow> pf_next pf (v_state v) (buf s) (nextScanIndex s) (v_packetLen v);
        Some (st, v_cur v, v_curIndex v) }
      else do {
        (st, m) \<leftarrow> first_match (pktFormats s) 0 (buf s) (nextScanIndex s);
        Some (case m of Some (pf, k) \<Rightarrow> (st, Some pf, k) | None \<Rightarrow> (st, v_cur v, v_curIndex v)) })"

definition exit_with :: "scan_vars \<Rightarrow> nat \<Rightarrow> packet_format option \<Rightarrow> scanner \<Rightarrow> step_result" where
  "exit_with v n f s = Exit \<lparr> x_packetLen = n, x_format = f, x_readError = None, x_err = None, x_tRead = v_tRead v \<rparr> s"

definition candidate_failed :: "scan_vars \<Rightarrow> nat \<Rightarrow> scanner \<Rightarrow> step_result option" where
  "candidate_failed v curIndex s = do {
     startIndex \<leftarrow> sub_idx (nextScanIndex s) (v_packetLen v);
     (st, m) \<leftarrow> first_match (drop (curIndex + 1) (pktFormats s)) (curIndex + 1) (buf s) startIndex;
     case m of
       Some (pf, k) \<Rightarrow> Some (Again (v \<lparr> v_state := st, v_packetLen := 1, v_cur := Some pf, v_curIndex := k \<rparr>)
                                   (s \<lparr> nextScanIndex := startIndex + 1 \<rparr>))
     | None \<Rightarrow> do {
         (packetLen, s') \<leftarrow> restart (v_packetLen v) s;
         Some (exit_with v packetLen None s') } }"

definition on_byte :: "scan_vars \<Rightarrow> scanner \<Rightarrow> step_result option" where
  "on_byte v s = do {
     (nextState, cur, curIndex) \<leftarrow> next_state v s;
     if nextState \<noteq> stateSync \<and> v_state v = stateSync \<and> 0 < v_packetLen v then
       Some (exit_with v (v_packetLen v) None s)
     else if v_state v \<noteq> stateSync \<and> nextState = stateSync \<and> 0 < v_packetLen v then
       candidate_failed v curIndex s
     else do {
       let packetLen = v_packetLen v + 1;
       let s' = s \<lparr> nextScanIndex := nextScanIndex s + 1 \<rparr>;
       if nextState = stateSync then
         Some (Again (v \<lparr> v_state := nextState, v_packetLen := packetLen, v_cur := None, v_curIndex := curIndex \<rparr>) s')
       else do {
         pf \<leftarrow> cur;
         if pf_isFinal pf nextState then Some (exit_with v packetLen (Some pf) s')
         else Some (Again (v \<lparr> v_state := nextState, v_packetLen := packetLen, v_cur := cur, v_curIndex := curIndex \<rparr>) s') } } }"

definition scan_step :: "scan_vars \<Rightarrow> scanner \<Rightarrow> step_result option" where
  "scan_step v s =
     (if length (buf s) \<le> nextScanIndex s then
        (if v_state v = stateSync \<and> minInvalidPacketLen \<le> v_packetLen v then
           Some (exit_with v (v_packetLen v) None s)
         else do {
           (e, s') \<leftarrow> fill (v_packetLen v) s;
           let v' = (if v_packetLen v = 0 then v \<lparr> v_tRead := tRead s' \<rparr> else v);
           case e of
             Some err \<Rightarrow> on_error err v' s'
           | None \<Rightarrow> on_byte v' s' })
      else on_byte v s)"

text \<open>After the loop: the checksum, and the jump back when a bad one asks for a rescan.\<close>

datatype round_result = Continue scan_vars scanner | Done packet "io_error option" scanner

definition after_loop :: "scan_vars \<Rightarrow> loop_exit \<Rightarrow> scanner \<Rightarrow> round_result option" where
  "after_loop v x s = do {
     lo \<leftarrow> sub_idx (nextScanIndex s) (x_packetLen x);
     pkt \<leftarrow> subslice (buf s) lo (nextScanIndex s);
     let done = (\<lambda>f ok. Done \<lparr> pk_format = f, pk_readError = x_readError x, pk_data = pkt,
                   pk_tRead = x_tRead x, pk_checksumValid = ok \<rparr> (x_err x)
                   (s \<lparr> prevPktValid := (f \<noteq> None \<and> ok) \<rparr>));
     case x_format x of
       None \<Rightarrow> Some (done None False)
     | Some f \<Rightarrow> do {
         a \<leftarrow> pf_extractChecksum f pkt;
         b \<leftarrow> pf_computeChecksum f pkt;
         rescan \<leftarrow> (if a = b then Some False else pf_rescanOnBadChecksum f (prevPktValid s) pkt);
         if rescan then do {
           (packetLen, s') \<leftarrow> restart (x_packetLen x) s;
           Some (Continue (v \<lparr> v_state := stateSync, v_packetLen := packetLen, v_cur := Some f, v_tRead := x_tRead x \<rparr>) s') }
         else Some (done (Some f) (a = b)) } }"

definition scan_round :: "scan_vars \<Rightarrow> scanner \<Rightarrow> round_result option" where
  "scan_round v s = do {
     r \<leftarrow> scan_step v s;
     case r of
       Again v' s' \<Rightarrow> Some (Continue v' s')
     | Exit x s' \<Rightarrow> after_loop v x s' }"

section \<open>The loop ends\<close>

definition script_size :: "script \<Rightarrow> nat" where
  "script_size sc = (\<Sum>it \<leftarrow> sc. Suc (2 * length (ri_bytes it)))"

definition unread :: "scanner \<Rightarrow> nat" where
  "unread s = script_size (rd s) + (length (buf s) - nextScanIndex s)"

definition phase :: "scan_vars \<Rightarrow> nat" where
  "phase v = (if v_state v = stateSync \<and> 0 < v_packetLen v then 0 else 1)"

definition formats_left :: "scan_vars \<Rightarrow> scanner \<Rightarrow> nat" where
  "formats_left v s = Suc (length (pktFormats s)) - (if v_state v = stateSync then 0 else Suc (v_curIndex v))"

definition scan_measure :: "((scan_vars \<times> scanner) \<times> (scan_vars \<times> scanner)) set" where
  "scan_measure = measures [\<lambda>(v, s). phase v, \<lambda>(v, s). formats_left v s, \<lambda>(v, s). unread s]"

lemma script_size_Cons [simp]: "script_size (it # sc) = Suc (2 * length (ri_bytes it)) + script_size sc"
  by (simp add: script_size_def)

lemma read_loop_size:
  "read_loop room t sc = (got, None, t', sc') \<Longrightarrow> 0 < room \<Longrightarrow>
     got \<noteq> [] \<and> length got \<le> room \<and> script_size sc' + 2 * length got \<le> script_size sc"
  by (induction room t sc rule: read_loop.induct) (fastforce split: if_splits)+

lemma fillE:
  assumes "fill n s = Some (e, s')"
  obtains got t sc cap where "n \<le> nextScanIndex s" "nextScanIndex s \<le> length (buf s)" "n < cap"
    "cap = (if n \<le> bufcap s div 2 then bufcap s else bufcap s * 2)"
    "read_loop (cap - n) (tRead s) (rd s) = (got, e, t, sc)"
    "s' = s \<lparr> rd := sc, buf := take n (drop (nextScanIndex s - n) (buf s)) @ got, bufcap := cap,
       nextScanIndex := n, tRead := t \<rparr>"
proof -
  let ?cap = "if n \<le> bufcap s div 2 then bufcap s else bufcap s * 2"
  obtain got err t sc where r: "read_loop (?cap - n) (tRead s) (rd s) = (got, err, t, sc)"
    by (metis prod_cases4)
  show ?thesis
    using assms r that [of ?cap got t sc]
    by (auto simp: fill_def Let_def bind_Some_iff sub_idx_Some_iff subslice_Some_iff split: if_splits)
qed

lemma fill_size:
  assumes "fill n s = Some (None, s')" "length (buf s) \<le> nextScanIndex s"
  shows "unread s' < unread s \<and> nextScanIndex s' < length (buf s') \<and> pktFormats s' = pktFormats s"
  using assms(1)
proof (rule fillE)
  fix got t sc cap
  assume a: "n \<le> nextScanIndex s" "nextScanIndex s \<le> length (buf s)" "n < cap"
    "read_loop (cap - n) (tRead s) (rd s) = (got, None, t, sc)"
    "s' = s \<lparr> rd := sc, buf := take n (drop (nextScanIndex s - n) (buf s)) @ got, bufcap := cap,
       nextScanIndex := n, tRead := t \<rparr>"
  have "got \<noteq> []" "script_size sc + 2 * length got \<le> script_size (rd s)"
    using read_loop_size [OF a(4)] a(3) by auto
  moreover from this have "script_size sc + length got < script_size (rd s)"
    by (cases got) simp_all
  ultimately show ?thesis using a assms(2) by (auto simp: unread_def)
qed

lemma first_match_index: "first_match fmts k b i = Some (st, m) \<Longrightarrow>
    (case m of None \<Rightarrow> st = stateSync | Some (pf, j) \<Rightarrow> st \<noteq> stateSync \<and> k \<le> j \<and> j < k + length fmts \<and> pf = fmts ! (j - k)
      \<and> pf_next pf stateSync b i 0 = Some st)"
proof (induction fmts arbitrary: k)
  case (Cons pf fmts)
  from Cons.prems obtain st' where st': "pf_next pf stateSync b i 0 = Some st'" by (auto simp: bind_Some_iff)
  show ?case
  proof (cases "st' = stateSync")
    case True
    with Cons.prems st' have "first_match fmts (Suc k) b i = Some (st, m)" by simp
    then show ?thesis using Cons.IH [of "Suc k"] by (auto simp: Suc_le_eq Suc_diff_Suc split: option.splits)
  next
    case False
    with Cons.prems st' show ?thesis by auto
  qed
qed simp

lemma restart_pos: "restart n s = Some (n', s') \<Longrightarrow> pktFormats s' = pktFormats s \<and> (0 < n \<longrightarrow> 0 < n')"
proof -
  have "find_sync fmts b i hi = Some (Some j) \<Longrightarrow> i \<le> j" for fmts b i hi j
  proof (induction fmts b i hi rule: find_sync.induct)
    case (1 fmts b i hi)
    from 1(2) show ?case
      by (subst (asm) find_sync.simps) (auto simp: bind_Some_iff split: if_splits dest: 1(1) [THEN Suc_leD])
  qed
  then show "restart n s = Some (n', s') \<Longrightarrow> pktFormats s' = pktFormats s \<and> (0 < n \<longrightarrow> 0 < n')"
    by (fastforce simp: restart_def bind_Some_iff split: option.splits)
qed

text \<open>The cases of a round on a byte.\<close>

lemma on_byteE:
  assumes "on_byte v s = Some r"
  obtains
    (start) st pf k where "next_state v s = Some (st, Some pf, k)" "v_state v = stateSync" "0 < v_packetLen v" "st \<noteq> stateSync"
      "r = exit_with v (v_packetLen v) None s"
  | (failed) cur ci where "next_state v s = Some (stateSync, cur, ci)" "v_state v \<noteq> stateSync" "0 < v_packetLen v"
      "candidate_failed v ci s = Some r"
  | (junk) cur ci where "next_state v s = Some (stateSync, cur, ci)" "v_state v = stateSync \<or> v_packetLen v = 0"
      "r = Again (v \<lparr> v_state := stateSync, v_packetLen := v_packetLen v + 1, v_cur := None, v_curIndex := ci \<rparr>)
             (s \<lparr> nextScanIndex := nextScanIndex s + 1 \<rparr>)"
  | (final) st pf ci where "next_state v s = Some (st, Some pf, ci)" "v_state v \<noteq> stateSync \<or> v_packetLen v = 0" "st \<noteq> stateSync"
      "pf_isFinal pf st" "r = exit_with v (v_packetLen v + 1) (Some pf) (s \<lparr> nextScanIndex := nextScanIndex s + 1 \<rparr>)"
  | (more) st pf ci where "next_state v s = Some (st, Some pf, ci)" "v_state v \<noteq> stateSync \<or> v_packetLen v = 0" "st \<noteq> stateSync"
      "\<not> pf_isFinal pf st"
      "r = Again (v \<lparr> v_state := st, v_packetLen := v_packetLen v + 1, v_cur := Some pf, v_curIndex := ci \<rparr>)
             (s \<lparr> nextScanIndex := nextScanIndex s + 1 \<rparr>)"
proof -
  from assms obtain st cur ci where n: "next_state v s = Some (st, cur, ci)"
    unfolding on_byte_def by (auto simp: bind_Some_iff)
  have cur: "st \<noteq> stateSync \<Longrightarrow> v_state v = stateSync \<Longrightarrow> cur \<noteq> None"
    using n first_match_index [of "pktFormats s" 0 "buf s" "nextScanIndex s"]
    by (fastforce simp: next_state_def bind_Some_iff split: option.splits if_splits)
  note r = assms [unfolded on_byte_def n Option.bind.bind_lunit prod.case Let_def]
  show ?thesis
  proof (cases "st = stateSync")
    case True
    with n r failed [of cur ci] junk [of cur ci] show ?thesis by (cases "v_state v \<noteq> stateSync \<and> 0 < v_packetLen v") auto
  next
    case False
    show ?thesis
    proof (cases "v_state v = stateSync \<and> 0 < v_packetLen v")
      case True
      with cur False obtain pf where "cur = Some pf" by auto
      with n r False True start [of st pf ci] show ?thesis by auto
    next
      case other: False
      with r False obtain pf where "cur = Some pf" by (cases cur) auto
      with n r False other final [of st pf ci] more [of st pf ci] show ?thesis by (auto split: if_splits)
    qed
  qed
qed

lemma next_state_index:
  assumes "next_state v s = Some (st, cur, ci)"
  shows "v_state v = stateSync \<Longrightarrow> st \<noteq> stateSync \<Longrightarrow> ci < length (pktFormats s)"
    and "v_state v \<noteq> stateSync \<Longrightarrow> ci = v_curIndex v"
  using assms first_match_index [of "pktFormats s" 0 "buf s" "nextScanIndex s"]
  by (fastforce simp: next_state_def bind_Some_iff split: option.splits if_splits)+

lemma candidate_failedE:
  assumes "candidate_failed v ci s = Some r"
  obtains
    (retry) st pf k where "v_packetLen v \<le> nextScanIndex s"
      "first_match (drop (ci + 1) (pktFormats s)) (ci + 1) (buf s) (nextScanIndex s - v_packetLen v) = Some (st, Some (pf, k))"
      "st \<noteq> stateSync" "ci < k" "k < length (pktFormats s)" "pf = pktFormats s ! k"
      "pf_next pf stateSync (buf s) (nextScanIndex s - v_packetLen v) 0 = Some st"
      "r = Again (v \<lparr> v_state := st, v_packetLen := 1, v_cur := Some pf, v_curIndex := k \<rparr>)
             (s \<lparr> nextScanIndex := nextScanIndex s - v_packetLen v + 1 \<rparr>)"
  | (give_up) n s' where "v_packetLen v \<le> nextScanIndex s"
      "first_match (drop (ci + 1) (pktFormats s)) (ci + 1) (buf s) (nextScanIndex s - v_packetLen v) = Some (stateSync, None)"
      "restart (v_packetLen v) s = Some (n, s')" "r = exit_with v n None s'"
proof -
  from assms obtain st m where m: "v_packetLen v \<le> nextScanIndex s"
    "first_match (drop (ci + 1) (pktFormats s)) (ci + 1) (buf s) (nextScanIndex s - v_packetLen v) = Some (st, m)"
    by (auto simp: candidate_failed_def bind_Some_iff sub_idx_Some_iff)
  note i = first_match_index [OF m(2)]
  show ?thesis
  proof (cases m)
    case None
    with i m assms give_up show ?thesis
      by (auto simp: candidate_failed_def bind_Some_iff)
  next
    case (Some q)
    obtain pf k where q: "q = (pf, k)" by (cases q)
    from i Some q have k: "st \<noteq> stateSync" "ci < k" "k < length (pktFormats s)"
      "pf_next pf stateSync (buf s) (nextScanIndex s - v_packetLen v) 0 = Some st" "pf = pktFormats s ! k"
      by auto
    with m Some q assms retry [of st pf k] show ?thesis by (auto simp: candidate_failed_def)
  qed
qed

lemma on_byte_again:
  assumes "on_byte v s = Some (Again v' s')" "nextScanIndex s < length (buf s)"
  shows "((v', s'), (v, s)) \<in> scan_measure"
  using assms(1)
proof (cases rule: on_byteE)
  case (failed cur ci)
  from failed(4) show ?thesis
  proof (cases rule: candidate_failedE)
    case (retry st pf k)
    with failed next_state_index(2) [OF failed(1)] show ?thesis
      by (auto simp: scan_measure_def phase_def formats_left_def)
  qed (simp add: exit_with_def)
next
  case (junk cur ci)
  with assms(2) show ?thesis by (auto simp: scan_measure_def phase_def formats_left_def unread_def)
next
  case (more st pf ci)
  with assms(2) next_state_index [OF more(1)] show ?thesis
    by (auto simp: scan_measure_def phase_def formats_left_def unread_def)
qed (simp_all add: exit_with_def)

lemma on_error_exit: "on_error e v s = Some r \<Longrightarrow> \<exists>x s'. r = Exit x s' \<and> x_format x = None"
  by (auto simp: on_error_def Let_def bind_Some_iff split: if_splits)

lemma on_byte_exit:
  assumes "on_byte v s = Some (Exit x s')" "x_format x \<noteq> None"
  shows "0 < x_packetLen x \<and> phase v = 1"
  using assms(1)
proof (cases rule: on_byteE)
  case (failed cur ci)
  from failed(4) show ?thesis
    by (cases rule: candidate_failedE) (use assms(2) in \<open>auto simp: exit_with_def\<close>)
next
  case (start st pf k)
  with assms(2) show ?thesis by (simp add: exit_with_def)
next
  case (final st pf ci)
  then show ?thesis by (auto simp: exit_with_def phase_def)
qed simp_all

text \<open>The rounds with a byte to look at: at once, or after \<^verbatim>\<open>fill\<close>.\<close>

lemma scan_stepE:
  assumes "scan_step v s = Some r"
  obtains
    (no_fill) "nextScanIndex s < length (buf s)" "on_byte v s = Some r"
  | (flush) "length (buf s) \<le> nextScanIndex s" "v_state v = stateSync" "minInvalidPacketLen \<le> v_packetLen v"
      "r = exit_with v (v_packetLen v) None s"
  | (error) e s1 where "length (buf s) \<le> nextScanIndex s" "fill (v_packetLen v) s = Some (Some e, s1)"
      "on_error e (if v_packetLen v = 0 then v \<lparr> v_tRead := tRead s1 \<rparr> else v) s1 = Some r"
  | (filled) s1 where "length (buf s) \<le> nextScanIndex s" "fill (v_packetLen v) s = Some (None, s1)"
      "on_byte (if v_packetLen v = 0 then v \<lparr> v_tRead := tRead s1 \<rparr> else v) s1 = Some r"
proof (cases "length (buf s) \<le> nextScanIndex s")
  case False
  with assms no_fill show ?thesis by (simp add: scan_step_def)
next
  case True
  show ?thesis
  proof (cases "v_state v = stateSync \<and> minInvalidPacketLen \<le> v_packetLen v")
    case flush': True
    with True assms flush show ?thesis by (simp add: scan_step_def)
  next
    case False
    from assms True False obtain e s1 where f: "fill (v_packetLen v) s = Some (e, s1)"
      by (auto simp: scan_step_def bind_Some_iff)
    with assms True False error [of _ s1] filled [of s1] show ?thesis
      by (cases e) (auto simp: scan_step_def Let_def)
  qed
qed

lemma measure_tRead:
  assumes "((v', s'), (if c then v \<lparr> v_tRead := t \<rparr> else v, s1)) \<in> scan_measure"
    "unread s1 < unread s" "pktFormats s1 = pktFormats s"
  shows "((v', s'), (v, s)) \<in> scan_measure"
proof -
  let ?v = "if c then v \<lparr> v_tRead := t \<rparr> else v"
  have "phase ?v = phase v" "formats_left ?v s1 = formats_left v s"
    using assms(3) by (simp_all add: phase_def formats_left_def)
  with assms(1,2) show ?thesis by (auto simp: scan_measure_def)
qed

lemma scan_round_decreases:
  assumes "scan_round v s = Some (Continue v' s')"
  shows "((v', s'), (v, s)) \<in> scan_measure"
proof -
  from assms obtain r where r: "scan_step v s = Some r"
    "(case r of Again v' s' \<Rightarrow> Some (Continue v' s') | Exit x s' \<Rightarrow> after_loop v x s') = Some (Continue v' s')"
    by (auto simp: scan_round_def bind_Some_iff)
  show ?thesis
  proof (cases r)
    case (Again v1 s1)
    with r have eq: "r = Again v' s'" by simp
    from r(1) show ?thesis unfolding eq
    proof (cases rule: scan_stepE)
      case no_fill
      then show ?thesis by (intro on_byte_again)
    next
      case (error e s1)
      then show ?thesis using on_error_exit by blast
    next
      case (filled s1)
      have size: "unread s1 < unread s" "nextScanIndex s1 < length (buf s1)" "pktFormats s1 = pktFormats s"
        using fill_size [OF filled(2,1)] by blast+
      show ?thesis by (rule measure_tRead [OF on_byte_again [OF filled(3) size(2)] size(1,3)])
    qed (simp add: exit_with_def)
  next
    case (Exit x s1)
    with r have a: "after_loop v x s1 = Some (Continue v' s')" by simp
    then have f: "x_format x \<noteq> None" by (auto simp: after_loop_def Let_def bind_Some_iff split: option.splits)
    have p: "0 < x_packetLen x \<and> phase v = 1"
      using r(1) unfolding Exit
    proof (cases rule: scan_stepE)
      case no_fill
      then show ?thesis using on_byte_exit f by blast
    next
      case (error e s2)
      from on_error_exit [OF error(3)] f show ?thesis by auto
    next
      case (filled s2)
      from on_byte_exit [OF filled(3) f] show ?thesis by (auto simp: phase_def split: if_splits)
    next
      case flush
      with f show ?thesis by (simp add: exit_with_def)
    qed
    from a f obtain n where "restart (x_packetLen x) s1 = Some (n, s')" "v_state v' = stateSync" "v_packetLen v' = n"
      by (auto simp: after_loop_def Let_def bind_Some_iff split: option.splits if_splits)
    with restart_pos p show ?thesis by (fastforce simp: scan_measure_def phase_def)
  qed
qed

lemma wf_scan_measure: "wf scan_measure"
  by (simp add: scan_measure_def)

function (sequential) scan_loop :: "scan_vars \<Rightarrow> scanner \<Rightarrow> (packet \<times> io_error option \<times> scanner) option" where
  "scan_loop v s = do {
     r \<leftarrow> scan_round v s;
     case r of
       Continue v' s' \<Rightarrow> scan_loop v' s'
     | Done p err s' \<Rightarrow> Some (p, err, s') }"
  by pat_completeness auto
termination
  by (relation scan_measure) (auto intro: wf_scan_measure scan_round_decreases)

declare scan_loop.simps [simp del]

definition scan :: "scanner \<Rightarrow> (packet \<times> io_error option \<times> scanner) option" where
  "scan s = scan_loop (scan_init s) s"

end
