(* ===== verification/ScannerCorrect.thy ===== *)
theory ScannerCorrect
  imports Scanner
begin

text \<open>
  What \<^verbatim>\<open>Scan\<close> promises, for formats that keep the contract \<open>packet_format_laws\<close>: it never
  panics, it loses no byte and invents none, what it calls a packet is one, junk hides no packet
  start, and a packet at the front of the stream is the packet it returns, however the reader
  cuts the stream.
\<close>

definition pending :: "scanner \<Rightarrow> bytes" where
  "pending s = drop (nextScanIndex s) (buf s) @ script_bytes (rd s)"

definition scanner_wf :: "scanner \<Rightarrow> bool" where
  "scanner_wf s \<longleftrightarrow> nextScanIndex s \<le> length (buf s) \<and> length (buf s) \<le> bufcap s \<and> 0 < bufcap s"

definition cand :: "scan_vars \<Rightarrow> scanner \<Rightarrow> bytes" where
  "cand v s = take (v_packetLen v) (drop (nextScanIndex s - v_packetLen v) (buf s))"

definition no_start :: "packet_format list \<Rightarrow> byte \<Rightarrow> bool" where
  "no_start fmts b \<longleftrightarrow> (\<forall>pf \<in> set fmts. pf_next pf stateSync [b] 0 0 = Some stateSync)"

section \<open>Filling\<close>

lemma script_bytes_Cons [simp]: "script_bytes (it # sc) = ri_bytes it @ script_bytes sc"
  by (simp add: script_bytes_def)

lemma script_bytes_Nil [simp]: "script_bytes [] = []"
  by (simp add: script_bytes_def)

lemma read_loop_bytes:
  "read_loop room t sc = (got, e, t', sc') \<Longrightarrow> got @ script_bytes sc' = script_bytes sc \<and> length got \<le> room"
  by (induction room t sc rule: read_loop.induct) (auto split: if_splits)

lemma read_loop_ok:
  assumes "0 < room" "\<forall>it \<in> set sc. ri_err it = None" "script_bytes sc \<noteq> []"
  shows "\<exists>got t' sc'. read_loop room t sc = (got, None, t', sc') \<and> (\<forall>it \<in> set sc'. ri_err it = None)"
  using assms
proof (induction room t sc rule: read_loop.induct)
  case (2 room t it sc)
  from "2.prems" have e: "ri_err it = None" by simp
  consider "room < length (ri_bytes it)" | "\<not> room < length (ri_bytes it)" "ri_bytes it \<noteq> []"
    | "\<not> room < length (ri_bytes it)" "ri_bytes it = []" by blast
  then show ?case
  proof cases
    case 3
    with e "2.prems" have "\<exists>got t' sc'. read_loop room (ri_time it) sc = (got, None, t', sc') \<and> (\<forall>it \<in> set sc'. ri_err it = None)"
      by (intro "2.IH") simp_all
    with 3 e show ?thesis by simp
  qed (use e "2.prems" in simp_all)
qed simp

lemma drop_candidate: "n \<le> k \<Longrightarrow> k \<le> length b \<Longrightarrow> drop (k - n) b = take n (drop (k - n) b) @ drop k b"
  using append_take_drop_id [of n "drop (k - n) b"] by simp

lemma fill_spec:
  assumes "scanner_wf s" "n \<le> nextScanIndex s" "length (buf s) \<le> nextScanIndex s"
  shows "\<exists>e s'. fill n s = Some (e, s') \<and> scanner_wf s' \<and> nextScanIndex s' = n
    \<and> take n (buf s') = take n (drop (nextScanIndex s - n) (buf s)) \<and> pending s' = pending s
    \<and> pktFormats s' = pktFormats s \<and> prevPktValid s' = prevPktValid s
    \<and> ((\<forall>it \<in> set (rd s). ri_err it = None) \<and> pending s \<noteq> [] \<longrightarrow> e = None \<and> (\<forall>it \<in> set (rd s'). ri_err it = None))"
proof -
  let ?cap = "if n \<le> bufcap s div 2 then bufcap s else bufcap s * 2"
  have room: "0 < ?cap - n" using assms by (auto simp: scanner_wf_def)
  obtain got e t sc where r: "read_loop (?cap - n) (tRead s) (rd s) = (got, e, t, sc)" by (metis prod_cases4)
  let ?s' = "s \<lparr> rd := sc, buf := take n (drop (nextScanIndex s - n) (buf s)) @ got, bufcap := ?cap,
       nextScanIndex := n, tRead := t \<rparr>"
  have f: "fill n s = Some (e, ?s')"
    using assms room r by (auto simp: fill_def scanner_wf_def Let_def)
  have len: "length (take n (drop (nextScanIndex s - n) (buf s))) = n"
    using assms by (auto simp: scanner_wf_def)
  note b = read_loop_bytes [OF r]
  have "pending ?s' = pending s"
    using b assms len by (simp add: pending_def)
  moreover have "scanner_wf ?s'"
    using b len room assms by (auto simp: scanner_wf_def)
  moreover have "(\<forall>it \<in> set (rd s). ri_err it = None) \<and> pending s \<noteq> [] \<longrightarrow> e = None \<and> (\<forall>it \<in> set sc. ri_err it = None)"
    using read_loop_ok [OF room, of "rd s" "tRead s"] r assms(3) by (auto simp: pending_def)
  ultimately show ?thesis using f len by auto
qed

lemma pending_hd: "nextScanIndex s < length (buf s) \<Longrightarrow>
    pending s = buf s ! nextScanIndex s # pending (s \<lparr> nextScanIndex := nextScanIndex s + 1 \<rparr>)"
  by (simp add: pending_def Cons_nth_drop_Suc flip: append_Cons)

lemma cand_snoc:
  assumes "v_packetLen v \<le> nextScanIndex s" "nextScanIndex s < length (buf s)"
  shows "cand (v \<lparr> v_packetLen := v_packetLen v + 1 \<rparr>) (s \<lparr> nextScanIndex := nextScanIndex s + 1 \<rparr>)
      = cand v s @ [buf s ! nextScanIndex s]"
proof -
  have "v_packetLen v < length (drop (nextScanIndex s - v_packetLen v) (buf s))" using assms by simp
  from take_Suc_conv_app_nth [OF this] assms show ?thesis by (simp add: cand_def)
qed

lemma length_cand: "v_packetLen v \<le> nextScanIndex s \<Longrightarrow> scanner_wf s \<Longrightarrow> length (cand v s) = v_packetLen v"
  by (auto simp: cand_def scanner_wf_def min_def)

section \<open>The formats of a scanner\<close>

locale scanner_formats =
  fixes fmts :: "packet_format list"
  assumes formats_ok: "pf \<in> set fmts \<Longrightarrow> packet_format_laws pf"
begin

lemma sync_step: "pf \<in> set fmts \<Longrightarrow> i < length b \<Longrightarrow>
    \<exists>st. pf_next pf stateSync b i 0 = Some st \<and> pf_next pf stateSync [b ! i] 0 0 = Some st"
  using packet_format_laws.next_start [OF formats_ok, of pf i b]
    packet_format_laws.start_total [OF formats_ok, of pf "b ! i"] by auto

lemma first_match_spec:
  "set fs \<subseteq> set fmts \<Longrightarrow> i < length b \<Longrightarrow> \<exists>st m. first_match fs k b i = Some (st, m)
    \<and> (m = None \<longrightarrow> st = stateSync \<and> no_start fs (b ! i))"
proof (induction fs arbitrary: k)
  case (Cons pf fs)
  with sync_step [of pf i b] obtain st where "pf_next pf stateSync b i 0 = Some st"
    "pf_next pf stateSync [b ! i] 0 0 = Some st" by auto
  with Cons show ?case by (cases "st = stateSync") (auto simp: no_start_def)
qed (simp add: no_start_def)

lemma syncs_at_spec: "set fs \<subseteq> set fmts \<Longrightarrow> i < length b \<Longrightarrow> syncs_at fs b i = Some (\<not> no_start fs (b ! i))"
proof (induction fs)
  case (Cons pf fs)
  with sync_step [of pf i b] show ?case by (auto simp: no_start_def)
qed (simp add: no_start_def)

lemma find_sync_spec:
  "hi \<le> length b \<Longrightarrow> \<exists>r. find_sync fmts b i hi = Some r \<and>
    (case r of None \<Rightarrow> \<forall>j. i \<le> j \<and> j < hi \<longrightarrow> no_start fmts (b ! j)
     | Some k \<Rightarrow> i \<le> k \<and> k < hi \<and> \<not> no_start fmts (b ! k) \<and> (\<forall>j. i \<le> j \<and> j < k \<longrightarrow> no_start fmts (b ! j)))"
proof (induction "hi - i" arbitrary: i)
  case 0
  then show ?case by (subst find_sync.simps) auto
next
  case (Suc d)
  then have lt: "i < hi" "i < length b" by simp_all
  show ?case
  proof (cases "no_start fmts (b ! i)")
    case False
    with lt syncs_at_spec [of fmts i b] show ?thesis by (subst find_sync.simps) auto
  next
    case True
    then have eq: "find_sync fmts b i hi = find_sync fmts b (Suc i) hi"
      using lt syncs_at_spec [of fmts i b] by (subst find_sync.simps) simp
    have all: "P i \<Longrightarrow> (\<forall>j. Suc i \<le> j \<and> j < m \<longrightarrow> P j) \<Longrightarrow> \<forall>j. i \<le> j \<and> j < m \<longrightarrow> P j" for P m
      by (metis Suc_leI le_neq_implies_less)
    have "d = hi - Suc i" using Suc(2) by simp
    from Suc(1) [OF this Suc(3)] obtain r where r: "find_sync fmts b (Suc i) hi = Some r"
      "case r of None \<Rightarrow> \<forall>j. Suc i \<le> j \<and> j < hi \<longrightarrow> no_start fmts (b ! j)
       | Some k \<Rightarrow> Suc i \<le> k \<and> k < hi \<and> \<not> no_start fmts (b ! k) \<and> (\<forall>j. Suc i \<le> j \<and> j < k \<longrightarrow> no_start fmts (b ! j))"
      by blast
    then show ?thesis unfolding eq using True all [of "\<lambda>j. no_start fmts (b ! j)"] by (cases r) auto
  qed
qed

lemma restart_spec:
  assumes "pktFormats s = fmts" "scanner_wf s" "n \<le> nextScanIndex s"
  shows "\<exists>n'. restart n s = Some (n', s \<lparr> nextScanIndex := nextScanIndex s - n + n' \<rparr>) \<and> n' \<le> n \<and> (0 < n \<longrightarrow> 0 < n')
    \<and> (\<forall>j. 0 < j \<and> j < n' \<longrightarrow> no_start fmts (buf s ! (nextScanIndex s - n + j)))
    \<and> (n' < n \<longrightarrow> \<not> no_start fmts (buf s ! (nextScanIndex s - n + n')))"
proof -
  let ?start = "nextScanIndex s - n"
  have hi: "nextScanIndex s \<le> length (buf s)" using assms by (simp add: scanner_wf_def)
  from find_sync_spec [OF hi, of "?start + 1"] obtain r where
    r: "find_sync fmts (buf s) (?start + 1) (nextScanIndex s) = Some r" and
    c: "case r of None \<Rightarrow> \<forall>j. ?start + 1 \<le> j \<and> j < nextScanIndex s \<longrightarrow> no_start fmts (buf s ! j)
     | Some k \<Rightarrow> ?start + 1 \<le> k \<and> k < nextScanIndex s \<and> \<not> no_start fmts (buf s ! k)
         \<and> (\<forall>j. ?start + 1 \<le> j \<and> j < k \<longrightarrow> no_start fmts (buf s ! j))" by blast
  have shift: "(\<forall>j. 0 < j \<and> j < m \<longrightarrow> no_start fmts (buf s ! (?start + j)))"
    if "\<forall>j. ?start + 1 \<le> j \<and> j < ?start + m \<longrightarrow> no_start fmts (buf s ! j)" for m
    using that by simp
  have eq: "?start + n = nextScanIndex s" using assms(3) by simp
  show ?thesis
  proof (cases r)
    case None
    have "restart n s = Some (n, s)" using r None assms by (simp add: restart_def)
    moreover have "\<forall>j. 0 < j \<and> j < n \<longrightarrow> no_start fmts (buf s ! (?start + j))"
      using c None eq by (intro shift) simp
    ultimately show ?thesis by (intro exI [of _ n]) (simp add: eq)
  next
    case (Some k)
    then have k: "?start + 1 \<le> k" "k < nextScanIndex s" "\<not> no_start fmts (buf s ! k)"
      "\<forall>j. ?start + 1 \<le> j \<and> j < k \<longrightarrow> no_start fmts (buf s ! j)" using c by auto
    have e: "?start + (k - ?start) = k" using k(1) by simp
    have "restart n s = Some (k - ?start, s \<lparr> nextScanIndex := k \<rparr>)" using r Some assms by (simp add: restart_def)
    moreover have "\<forall>j. 0 < j \<and> j < k - ?start \<longrightarrow> no_start fmts (buf s ! (?start + j))"
      using k(4) e by (intro shift) simp
    ultimately show ?thesis using k e assms(3) by (intro exI [of _ "k - ?start"]) auto
  qed
qed

end

section \<open>The invariant of the loop\<close>

text \<open>
  \<open>scan_inv s0 v s\<close>: the scanner that started as \<open>s0\<close> is in the loop with variables \<open>v\<close> and
  state \<open>s\<close>. The candidate and what is pending are what was pending; a candidate for a format is a
  frame of it that is not final; in junk, no byte after the first can start a packet.
\<close>

definition scan_inv :: "scanner \<Rightarrow> scan_vars \<Rightarrow> scanner \<Rightarrow> bool" where
  "scan_inv s0 v s \<longleftrightarrow> scanner_wf s \<and> v_packetLen v \<le> nextScanIndex s
     \<and> pktFormats s = pktFormats s0 \<and> prevPktValid s = prevPktValid s0
     \<and> cand v s @ pending s = pending s0
     \<and> (v_state v \<noteq> stateSync \<longrightarrow> 0 < v_packetLen v \<and> v_curIndex v < length (pktFormats s0)
          \<and> v_cur v = Some (pktFormats s0 ! v_curIndex v)
          \<and> frame (pktFormats s0 ! v_curIndex v) (cand v s) (v_state v)
          \<and> \<not> pf_isFinal (pktFormats s0 ! v_curIndex v) (v_state v))
     \<and> (v_state v = stateSync \<longrightarrow> (\<forall>j. 0 < j \<and> j < v_packetLen v \<longrightarrow> no_start (pktFormats s0) (cand v s ! j)))"

text \<open>What a packet returned by \<^verbatim>\<open>Scan\<close> is.\<close>

definition scanned :: "scanner \<Rightarrow> packet \<Rightarrow> io_error option \<Rightarrow> scanner \<Rightarrow> bool" where
  "scanned s0 p err s' \<longleftrightarrow> scanner_wf s' \<and> pktFormats s' = pktFormats s0
     \<and> pk_data p @ pending s' = pending s0
     \<and> (prevPktValid s' \<longleftrightarrow> pk_format p \<noteq> None \<and> pk_checksumValid p)
     \<and> (case pk_format p of
          Some pf \<Rightarrow> pf \<in> set (pktFormats s0) \<and> complete pf (pk_data p) \<and> err = None \<and> pk_readError p = None
            \<and> (pk_checksumValid p \<longleftrightarrow> pf_extractChecksum pf (pk_data p) = pf_computeChecksum pf (pk_data p))
        | None \<Rightarrow> \<not> pk_checksumValid p
            \<and> (err = None \<and> pk_readError p \<noteq> Some (Raw TemporaryErr) \<longrightarrow>
                 (\<forall>j. 0 < j \<and> j < length (pk_data p) \<longrightarrow> no_start (pktFormats s0) (pk_data p ! j))))
     \<and> (pk_data p = [] \<longrightarrow> err \<noteq> None \<or> pk_readError p \<noteq> None)"

text \<open>What leaves the loop, before the checksum is looked at.\<close>

definition exit_ok :: "scanner \<Rightarrow> loop_exit \<Rightarrow> scanner \<Rightarrow> bool" where
  "exit_ok s0 x s \<longleftrightarrow> scanner_wf s \<and> x_packetLen x \<le> nextScanIndex s
     \<and> pktFormats s = pktFormats s0 \<and> prevPktValid s = prevPktValid s0
     \<and> (let pkt = take (x_packetLen x) (drop (nextScanIndex s - x_packetLen x) (buf s)) in
        pkt @ pending s = pending s0
        \<and> (case x_format x of
             Some pf \<Rightarrow> pf \<in> set (pktFormats s0) \<and> complete pf pkt \<and> x_err x = None \<and> x_readError x = None
           | None \<Rightarrow> x_err x = None \<and> x_readError x \<noteq> Some (Raw TemporaryErr) \<longrightarrow>
                 (\<forall>j. 0 < j \<and> j < length pkt \<longrightarrow> no_start (pktFormats s0) (pkt ! j)))
        \<and> (x_packetLen x = 0 \<longrightarrow> x_err x \<noteq> None \<or> x_readError x \<noteq> None))"

definition step_ok :: "scanner \<Rightarrow> step_result \<Rightarrow> bool" where
  "step_ok s0 r = (case r of Again v s \<Rightarrow> scan_inv s0 v s | Exit x s \<Rightarrow> exit_ok s0 x s)"

lemma cand_tRead [simp]: "cand (if c then v \<lparr> v_tRead := t \<rparr> else v) s = cand v s"
  by (simp add: cand_def)

lemma scan_inv_tRead [simp]: "scan_inv s0 (if c then v \<lparr> v_tRead := t \<rparr> else v) s = scan_inv s0 v s"
  by (cases c) (simp_all add: scan_inv_def cand_def)

lemma scan_inv_init: "scanner_wf s \<Longrightarrow> scan_inv s (scan_init s) s"
  by (simp add: scan_inv_def scan_init_def cand_def)

lemma scan_inv_fill:
  assumes "scan_inv s0 v s" "length (buf s) \<le> nextScanIndex s"
  shows "\<exists>e s'. fill (v_packetLen v) s = Some (e, s') \<and> scan_inv s0 v s'
    \<and> ((\<forall>it \<in> set (rd s). ri_err it = None) \<and> pending s \<noteq> [] \<longrightarrow> e = None \<and> (\<forall>it \<in> set (rd s'). ri_err it = None))"
proof -
  from fill_spec [of s "v_packetLen v"] assms obtain e s' where
    f: "fill (v_packetLen v) s = Some (e, s')" "scanner_wf s'" "nextScanIndex s' = v_packetLen v"
      "take (v_packetLen v) (buf s') = cand v s" "pending s' = pending s" "pktFormats s' = pktFormats s"
      "prevPktValid s' = prevPktValid s"
      "(\<forall>it \<in> set (rd s). ri_err it = None) \<and> pending s \<noteq> [] \<longrightarrow> e = None \<and> (\<forall>it \<in> set (rd s'). ri_err it = None)"
    by (auto simp: scan_inv_def cand_def)
  have "cand v s' = cand v s" using f by (simp add: cand_def)
  with f assms(1) show ?thesis by (auto simp: scan_inv_def)
qed

lemma pending_restart:
  assumes "scanner_wf s" "n \<le> nextScanIndex s" "n' \<le> n"
  shows "take n' (drop (nextScanIndex s - n) (buf s)) @ pending (s \<lparr> nextScanIndex := nextScanIndex s - n + n' \<rparr>)
      = take n (drop (nextScanIndex s - n) (buf s)) @ pending s"
proof -
  let ?d = "drop (nextScanIndex s - n) (buf s)"
  have a: "drop (nextScanIndex s - n + n') (buf s) = drop n' ?d" by (simp add: add.commute)
  have b: "drop (nextScanIndex s) (buf s) = drop n ?d" using assms by simp
  have "pending (s \<lparr> nextScanIndex := nextScanIndex s - n + n' \<rparr>) = drop n' ?d @ script_bytes (rd s)"
    "pending s = drop n ?d @ script_bytes (rd s)" by (simp_all add: pending_def a b del: drop_drop)
  then show ?thesis by (metis append.assoc append_take_drop_id)
qed

context scanner_formats
begin

text \<open>A candidate given up: what is left of it after \<^verbatim>\<open>restart\<close> is junk.\<close>

lemma restart_junk:
  assumes "scanner_wf s" "n \<le> nextScanIndex s" "pktFormats s = fmts"
  shows "\<exists>n'. restart n s = Some (n', s \<lparr> nextScanIndex := nextScanIndex s - n + n' \<rparr>) \<and> n' \<le> n \<and> (0 < n \<longrightarrow> 0 < n')
    \<and> (\<forall>j. 0 < j \<and> j < n' \<longrightarrow> no_start fmts (take n' (drop (nextScanIndex s - n) (buf s)) ! j))
    \<and> take n' (drop (nextScanIndex s - n) (buf s)) @ pending (s \<lparr> nextScanIndex := nextScanIndex s - n + n' \<rparr>)
        = take n (drop (nextScanIndex s - n) (buf s)) @ pending s"
proof -
  from restart_spec [OF assms(3,1,2)] obtain n' where
    r: "restart n s = Some (n', s \<lparr> nextScanIndex := nextScanIndex s - n + n' \<rparr>)" "n' \<le> n" "0 < n \<longrightarrow> 0 < n'"
      "\<forall>j. 0 < j \<and> j < n' \<longrightarrow> no_start fmts (buf s ! (nextScanIndex s - n + j))" by blast
  moreover have "\<forall>j. 0 < j \<and> j < n' \<longrightarrow> no_start fmts (take n' (drop (nextScanIndex s - n) (buf s)) ! j)"
    using r(2,4) assms(1,2) by (auto simp: scanner_wf_def)
  ultimately show ?thesis using pending_restart [OF assms(1,2) r(2)] by blast
qed

lemma exit_restart:
  assumes "scanner_wf (s \<lparr> nextScanIndex := nextScanIndex s - n + n' \<rparr>)" "pktFormats s = fmts" "pktFormats s0 = fmts"
    "prevPktValid s = prevPktValid s0"
    and "take n' (drop (nextScanIndex s - n) (buf s)) @ pending (s \<lparr> nextScanIndex := nextScanIndex s - n + n' \<rparr>) = pending s0"
    and "\<forall>j. 0 < j \<and> j < n' \<longrightarrow> no_start fmts (take n' (drop (nextScanIndex s - n) (buf s)) ! j)"
    and "n' = 0 \<longrightarrow> re \<noteq> None"
  shows "exit_ok s0 \<lparr> x_packetLen = n', x_format = None, x_readError = re, x_err = None, x_tRead = t \<rparr>
    (s \<lparr> nextScanIndex := nextScanIndex s - n + n' \<rparr>)"
  using assms unfolding exit_ok_def Let_def by simp

lemma on_error_ok:
  assumes "scan_inv s0 v s" "pktFormats s0 = fmts"
  shows "\<exists>r. on_error e v s = Some r \<and> step_ok s0 r"
proof -
  have wf: "scanner_wf s" "v_packetLen v \<le> nextScanIndex s" "pktFormats s = fmts"
    and c: "take (v_packetLen v) (drop (nextScanIndex s - v_packetLen v) (buf s)) @ pending s = pending s0"
    and pr: "prevPktValid s = prevPktValid s0"
    using assms by (auto simp: scan_inv_def cand_def)
  have len: "length (take (v_packetLen v) (drop (nextScanIndex s - v_packetLen v) (buf s))) = v_packetLen v"
    using length_cand [OF wf(2,1)] by (simp add: cand_def)
  from restart_junk [OF wf] obtain n' where
    r: "restart (v_packetLen v) s = Some (n', s \<lparr> nextScanIndex := nextScanIndex s - v_packetLen v + n' \<rparr>)"
      "n' \<le> v_packetLen v" "0 < v_packetLen v \<longrightarrow> 0 < n'"
      "\<forall>j. 0 < j \<and> j < n' \<longrightarrow> no_start fmts (take n' (drop (nextScanIndex s - v_packetLen v) (buf s)) ! j)"
      "take n' (drop (nextScanIndex s - v_packetLen v) (buf s))
         @ pending (s \<lparr> nextScanIndex := nextScanIndex s - v_packetLen v + n' \<rparr>)
       = take (v_packetLen v) (drop (nextScanIndex s - v_packetLen v) (buf s)) @ pending s"
    by (elim exE conjE) (rule that)
  have wf': "scanner_wf (s \<lparr> nextScanIndex := nextScanIndex s - v_packetLen v + n' \<rparr>)"
    using wf r(2) by (auto simp: scanner_wf_def)
  consider (empty) "is_timeout e" "v_packetLen v = 0" "buf s = []"
    | (junk) "is_timeout e" "0 < v_packetLen v" "v_state v = stateSync"
    | (middle) "is_timeout e" "\<not> (v_packetLen v = 0 \<and> buf s = [])" "\<not> (0 < v_packetLen v \<and> v_state v = stateSync)"
    | (temp) "\<not> is_timeout e" "is_temporary e" | (fatal) "\<not> is_timeout e" "\<not> is_temporary e" by metis
  then show ?thesis
  proof cases
    case empty
    then show ?thesis using wf c pr assms(2) by (auto simp: on_error_def step_ok_def exit_ok_def)
  next
    case junk
    have "\<forall>j. 0 < j \<and> j < v_packetLen v \<longrightarrow> no_start fmts (cand v s ! j)"
      using assms junk by (simp add: scan_inv_def)
    with junk wf c pr assms(2) len show ?thesis
      by (auto simp: on_error_def step_ok_def exit_ok_def cand_def Let_def)
  next
    case middle
    show ?thesis
    proof (cases "n' = v_packetLen v")
      case True
      with middle wf(3) r(1-3) have "on_error e v s = Some (Exit \<lparr> x_packetLen = n', x_format = None,
          x_readError = Some (MiddleOfPacket e), x_err = None, x_tRead = v_tRead v \<rparr> (s \<lparr> nextScanIndex := nextScanIndex s - v_packetLen v + n' \<rparr>))"
        using wf(2) by (auto simp: on_error_def)
      moreover have "n' = 0 \<longrightarrow> Some (MiddleOfPacket e) \<noteq> None" by simp
      ultimately show ?thesis
        using exit_restart [OF wf' wf(3) assms(2) pr trans [OF r(5) c] r(4)] by (auto simp: step_ok_def)
    next
      case False
      with middle wf(3) r(1-3) have "on_error e v s = Some (Exit \<lparr> x_packetLen = n', x_format = None,
          x_readError = None, x_err = None, x_tRead = v_tRead v \<rparr> (s \<lparr> nextScanIndex := nextScanIndex s - v_packetLen v + n' \<rparr>))"
        using wf(2) by (auto simp: on_error_def)
      moreover have "n' = 0 \<longrightarrow> None \<noteq> None" using False r(2,3) by auto
      ultimately show ?thesis
        using exit_restart [OF wf' wf(3) assms(2) pr trans [OF r(5) c] r(4)] by (auto simp: step_ok_def)
    qed
  next
    case temp
    then have "e = TemporaryErr" by (cases e) simp_all
    with temp wf c pr assms(2) show ?thesis by (auto simp: on_error_def step_ok_def exit_ok_def Let_def)
  next
    case fatal
    with wf c pr assms(2) show ?thesis by (auto simp: on_error_def step_ok_def exit_ok_def Let_def)
  qed
qed

lemma frame_in_buffer:
  assumes "scanner_wf s" "v_packetLen v \<le> nextScanIndex s"
  shows "take (length (cand v s)) (drop (nextScanIndex s - length (cand v s)) (buf s)) = cand v s"
  unfolding length_cand [OF assms(2,1)] by (simp add: cand_def)

text \<open>One byte: the next state exists, and the format's frame grows with it.\<close>

lemma next_state_ok:
  assumes inv: "scan_inv s0 v s" and f: "pktFormats s0 = fmts" and lt: "nextScanIndex s < length (buf s)"
  shows "\<exists>st cur ci. next_state v s = Some (st, cur, ci)
    \<and> (st \<noteq> stateSync \<and> (v_state v \<noteq> stateSync \<or> v_packetLen v = 0) \<longrightarrow>
         ci < length fmts \<and> cur = Some (fmts ! ci) \<and> frame (fmts ! ci) (cand v s @ [buf s ! nextScanIndex s]) st)
    \<and> (v_state v \<noteq> stateSync \<longrightarrow> ci = v_curIndex v)
    \<and> (v_state v = stateSync \<and> st = stateSync \<longrightarrow> no_start fmts (buf s ! nextScanIndex s))"
proof (cases "v_state v = stateSync")
  case True
  from inv f have fm: "pktFormats s = fmts" by (simp add: scan_inv_def)
  from first_match_spec [of fmts "nextScanIndex s" "buf s" 0] lt obtain st m where
    m: "first_match fmts 0 (buf s) (nextScanIndex s) = Some (st, m)"
      "m = None \<longrightarrow> st = stateSync \<and> no_start fmts (buf s ! nextScanIndex s)" by auto
  note i = first_match_index [OF m(1)]
  show ?thesis
  proof (cases m)
    case None
    with m True fm show ?thesis by (simp add: next_state_def)
  next
    case (Some q)
    obtain pf k where q: "q = (pf, k)" by (cases q)
    from i Some q have k: "st \<noteq> stateSync" "k < length fmts" "pf = fmts ! k"
      "pf_next pf stateSync (buf s) (nextScanIndex s) 0 = Some st" by auto
    have "v_packetLen v = 0 \<Longrightarrow> frame pf (cand v s @ [buf s ! nextScanIndex s]) st"
      using packet_format_laws.frame_begin [OF formats_ok lt k(4,1)] k(2,3) by (simp add: cand_def)
    with m True fm Some q k show ?thesis by (simp add: next_state_def)
  qed
next
  case False
  let ?pf = "fmts ! v_curIndex v"
  from inv f False have c: "v_cur v = Some ?pf" "v_curIndex v < length fmts" "frame ?pf (cand v s) (v_state v)"
    "\<not> pf_isFinal ?pf (v_state v)" "scanner_wf s" "v_packetLen v \<le> nextScanIndex s"
    by (auto simp: scan_inv_def)
  have len: "length (cand v s) = v_packetLen v" by (rule length_cand [OF c(6,5)])
  have le: "length (cand v s) \<le> nextScanIndex s" using len c(6) by simp
  have law: "packet_format_laws ?pf" using c(2) by (intro formats_ok) simp
  from packet_format_laws.next_defined [OF law c(3,4) lt le frame_in_buffer [OF c(5,6)]] obtain st where
    st: "pf_next ?pf (v_state v) (buf s) (nextScanIndex s) (v_packetLen v) = Some st" by (auto simp: len)
  have "st \<noteq> stateSync \<Longrightarrow> frame ?pf (cand v s @ [buf s ! nextScanIndex s]) st"
    using packet_format_laws.frame_extend [OF law c(3,4) lt le frame_in_buffer [OF c(5,6)]] st by (simp add: len)
  with st c False show ?thesis by (simp add: next_state_def)
qed

lemma candidate_failed_ok:
  assumes inv: "scan_inv s0 v s" and f: "pktFormats s0 = fmts" and n: "0 < v_packetLen v"
  shows "\<exists>r. candidate_failed v ci s = Some r \<and> step_ok s0 r"
proof -
  have wf: "scanner_wf s" "v_packetLen v \<le> nextScanIndex s" "pktFormats s = fmts"
    and c: "take (v_packetLen v) (drop (nextScanIndex s - v_packetLen v) (buf s)) @ pending s = pending s0"
    and pr: "prevPktValid s = prevPktValid s0"
    using inv f by (auto simp: scan_inv_def cand_def)
  let ?start = "nextScanIndex s - v_packetLen v"
  have lt: "?start < length (buf s)" using wf n by (auto simp: scanner_wf_def)
  have sub: "set (drop (ci + 1) fmts) \<subseteq> set fmts" by (rule set_drop_subset)
  from first_match_spec [OF sub lt, of "ci + 1"] obtain st m where
    m: "first_match (drop (ci + 1) fmts) (ci + 1) (buf s) ?start = Some (st, m)" by auto
  from restart_junk [OF wf] obtain n' where
    r: "restart (v_packetLen v) s = Some (n', s \<lparr> nextScanIndex := ?start + n' \<rparr>)"
      "n' \<le> v_packetLen v" "0 < v_packetLen v \<longrightarrow> 0 < n'"
      "\<forall>j. 0 < j \<and> j < n' \<longrightarrow> no_start fmts (take n' (drop ?start (buf s)) ! j)"
      "take n' (drop ?start (buf s)) @ pending (s \<lparr> nextScanIndex := ?start + n' \<rparr>)
       = take (v_packetLen v) (drop ?start (buf s)) @ pending s"
    by (elim exE conjE) (rule that)
  have def: "candidate_failed v ci s \<noteq> None"
    using wf m r(1) by (auto simp: candidate_failed_def split: option.splits)
  then obtain res where res: "candidate_failed v ci s = Some res" by blast
  then have "step_ok s0 res"
  proof (cases rule: candidate_failedE)
    case (retry st pf k)
    have law: "packet_format_laws (fmts ! k)" using retry(5) wf(3) by (intro formats_ok) simp
    have nx: "pf_next (fmts ! k) stateSync (buf s) ?start 0 = Some st" using retry(6,7) wf(3) by simp
    have fr: "frame (fmts ! k) [buf s ! ?start] st"
      by (rule packet_format_laws.frame_begin [OF law lt nx retry(3)])
    have nf: "\<not> pf_isFinal (fmts ! k) st"
      using packet_format_laws.first_not_final [OF law] packet_format_laws.next_start [OF law lt] nx by simp
    have one: "take 1 (drop ?start (buf s)) = [buf s ! ?start]"
      using lt by (simp add: take_Suc_conv_app_nth hd_drop_conv_nth take_Suc)
    have p: "[buf s ! ?start] @ pending (s \<lparr> nextScanIndex := ?start + 1 \<rparr>) = pending s0"
      using pending_restart [OF wf(1,2), of 1] n c one by simp
    have w: "scanner_wf (s \<lparr> nextScanIndex := ?start + 1 \<rparr>)" using wf n by (auto simp: scanner_wf_def)
    show ?thesis
      unfolding retry(8) step_ok_def scan_inv_def step_result.case
      using w p fr nf retry(3,5,6) wf(3) f pr one by (simp add: cand_def)
  next
    case (give_up m s')
    have "(m, s') = (n', s \<lparr> nextScanIndex := ?start + n' \<rparr>)" using give_up(3) r(1) by (metis option.inject)
    then have s': "m = n'" "s' = s \<lparr> nextScanIndex := ?start + n' \<rparr>" by simp_all
    have "scanner_wf (s \<lparr> nextScanIndex := ?start + n' \<rparr>)" using wf r(2) by (auto simp: scanner_wf_def)
    moreover have "n' = 0 \<longrightarrow> None \<noteq> None" using n r(3) by simp
    ultimately show ?thesis
      unfolding give_up(4) s' step_ok_def exit_with_def step_result.case
      by (intro exit_restart wf f pr r(4) trans [OF r(5) c]) simp_all
  qed
  with res show ?thesis by blast
qed

lemma on_byte_ok:
  assumes inv: "scan_inv s0 v s" and f: "pktFormats s0 = fmts" and lt: "nextScanIndex s < length (buf s)"
  shows "\<exists>r. on_byte v s = Some r \<and> step_ok s0 r"
proof -
  from next_state_ok [OF inv f lt] obtain st cur ci where ns: "next_state v s = Some (st, cur, ci)"
    and fr: "st \<noteq> stateSync \<Longrightarrow> v_state v \<noteq> stateSync \<or> v_packetLen v = 0 \<Longrightarrow>
      ci < length fmts \<and> cur = Some (fmts ! ci) \<and> frame (fmts ! ci) (cand v s @ [buf s ! nextScanIndex s]) st"
    and junk: "v_state v = stateSync \<Longrightarrow> st = stateSync \<Longrightarrow> no_start fmts (buf s ! nextScanIndex s)"
    by (elim exE conjE) (rule that, blast+)
  have wf: "scanner_wf s" "v_packetLen v \<le> nextScanIndex s" "pktFormats s = fmts"
    and c: "cand v s @ pending s = pending s0" and pr: "prevPktValid s = prevPktValid s0"
    and pos: "v_state v \<noteq> stateSync \<Longrightarrow> 0 < v_packetLen v"
    using inv f by (auto simp: scan_inv_def)
  have len: "length (cand v s) = v_packetLen v" by (rule length_cand [OF wf(2,1)])
  let ?s' = "s \<lparr> nextScanIndex := nextScanIndex s + 1 \<rparr>"
  have wf': "scanner_wf ?s'" using wf lt by (simp add: scanner_wf_def)
  have c': "(cand v s @ [buf s ! nextScanIndex s]) @ pending ?s' = pending s0"
    using c pending_hd [OF lt] by simp
  have cand': "cand (v \<lparr> v_state := a, v_packetLen := v_packetLen v + 1, v_cur := b, v_curIndex := d \<rparr>) ?s'
      = cand v s @ [buf s ! nextScanIndex s]" for a b d
    using cand_snoc [OF wf(2) lt] by (simp add: cand_def)
  have take': "take (v_packetLen v + 1) (drop (nextScanIndex ?s' - (v_packetLen v + 1)) (buf ?s'))
      = cand v s @ [buf s ! nextScanIndex s]"
    using cand_snoc [OF wf(2) lt] by (simp add: cand_def)
  consider (start) "st \<noteq> stateSync" "v_state v = stateSync" "0 < v_packetLen v"
    | (failed) "st = stateSync" "v_state v \<noteq> stateSync"
    | (junk) "st = stateSync" "v_state v = stateSync"
    | (more) "st \<noteq> stateSync" "v_state v \<noteq> stateSync \<or> v_packetLen v = 0" by auto
  then show ?thesis
  proof cases
    case start
    then have "on_byte v s = Some (exit_with v (v_packetLen v) None s)" by (simp add: on_byte_def ns)
    moreover have "step_ok s0 (exit_with v (v_packetLen v) None s)"
      using inv start wf f c pr len by (simp add: step_ok_def exit_with_def exit_ok_def scan_inv_def Let_def cand_def)
    ultimately show ?thesis by blast
  next
    case failed
    then have "on_byte v s = candidate_failed v ci s" using pos by (simp add: on_byte_def ns)
    with candidate_failed_ok [OF inv f pos] failed show ?thesis by simp
  next
    case junk
    let ?v' = "v \<lparr> v_state := stateSync, v_packetLen := v_packetLen v + 1, v_cur := None, v_curIndex := ci \<rparr>"
    have b: "on_byte v s = Some (Again ?v' ?s')" using junk by (simp add: on_byte_def ns)
    have "no_start fmts (cand ?v' ?s' ! j)" if "0 < j" "j < v_packetLen v + 1" for j
    proof (cases "j = v_packetLen v")
      case True
      with \<open>v_state v = stateSync \<Longrightarrow> st = stateSync \<Longrightarrow> no_start fmts (buf s ! nextScanIndex s)\<close> junk
      show ?thesis unfolding cand' using len by (simp add: nth_append)
    next
      case False
      with that have "j < v_packetLen v" by simp
      with that inv junk f have "no_start fmts (cand v s ! j)" by (simp add: scan_inv_def)
      then show ?thesis unfolding cand' using \<open>j < v_packetLen v\<close> len by (simp add: nth_append)
    qed
    then have "scan_inv s0 ?v' ?s'"
      unfolding scan_inv_def cand' using wf wf' c' pr f by simp
    with b show ?thesis by (simp add: step_ok_def)
  next
    case more
    with fr have fr': "ci < length fmts" "cur = Some (fmts ! ci)"
      "frame (fmts ! ci) (cand v s @ [buf s ! nextScanIndex s]) st" by auto
    show ?thesis
    proof (cases "pf_isFinal (fmts ! ci) st")
      case True
      then have b: "on_byte v s = Some (exit_with v (v_packetLen v + 1) (Some (fmts ! ci)) ?s')"
        using more fr' by (auto simp: on_byte_def ns)
      have "complete (fmts ! ci) (cand v s @ [buf s ! nextScanIndex s])"
        using fr'(3) True by (auto simp: complete_def)
      with fr'(1) wf wf' c' pr f have "step_ok s0 (exit_with v (v_packetLen v + 1) (Some (fmts ! ci)) ?s')"
        unfolding step_ok_def exit_with_def exit_ok_def step_result.case loop_exit.simps take' Let_def by simp
      with b show ?thesis by blast
    next
      case False
      let ?v' = "v \<lparr> v_state := st, v_packetLen := v_packetLen v + 1, v_cur := Some (fmts ! ci), v_curIndex := ci \<rparr>"
      have b: "on_byte v s = Some (Again ?v' ?s')" using more fr' False by (auto simp: on_byte_def ns)
      have "scan_inv s0 ?v' ?s'"
        unfolding scan_inv_def cand' using wf wf' c' pr f fr' more False by simp
      with b show ?thesis by (simp add: step_ok_def)
    qed
  qed
qed

lemma scan_step_ok:
  assumes inv: "scan_inv s0 v s" and f: "pktFormats s0 = fmts"
  shows "\<exists>r. scan_step v s = Some r \<and> step_ok s0 r"
proof (cases "nextScanIndex s < length (buf s)")
  case True
  then show ?thesis using on_byte_ok [OF inv f True] by (simp add: scan_step_def)
next
  case False
  then have le: "length (buf s) \<le> nextScanIndex s" by simp
  show ?thesis
  proof (cases "v_state v = stateSync \<and> minInvalidPacketLen \<le> v_packetLen v")
    case True
    have "scanner_wf s" "v_packetLen v \<le> nextScanIndex s" using inv by (simp_all add: scan_inv_def)
    with True inv f length_cand [of v s] have "step_ok s0 (exit_with v (v_packetLen v) None s)"
      by (simp add: step_ok_def exit_with_def exit_ok_def scan_inv_def Let_def cand_def minInvalidPacketLen_def)
    with True le show ?thesis by (simp add: scan_step_def)
  next
    case nflush: False
    from scan_inv_fill [OF inv le] obtain e s1 where fl: "fill (v_packetLen v) s = Some (e, s1)" "scan_inv s0 v s1" by blast
    let ?v = "if v_packetLen v = 0 then v \<lparr> v_tRead := tRead s1 \<rparr> else v"
    have inv1: "scan_inv s0 ?v s1" using fl(2) by simp
    show ?thesis
    proof (cases e)
      case None
      have "nextScanIndex s1 < length (buf s1)" using fill_size fl(1) None le by blast
      moreover have "scan_step v s = on_byte ?v s1"
        unfolding scan_step_def if_P [OF le] if_not_P [OF nflush] fl(1) by (simp add: None Let_def)
      ultimately show ?thesis using on_byte_ok [OF inv1 f] by simp
    next
      case (Some err)
      have "scan_step v s = on_error err ?v s1"
        unfolding scan_step_def if_P [OF le] if_not_P [OF nflush] fl(1) by (simp add: Some Let_def)
      then show ?thesis using on_error_ok [OF inv1 f, of err] by simp
    qed
  qed
qed

definition round_ok :: "scanner \<Rightarrow> round_result \<Rightarrow> bool" where
  "round_ok s0 r = (case r of Continue v s \<Rightarrow> scan_inv s0 v s | Done p err s \<Rightarrow> scanned s0 p err s)"

lemma after_loop_ok:
  assumes x: "exit_ok s0 x s" and f: "pktFormats s0 = fmts"
  shows "\<exists>r. after_loop v x s = Some r \<and> round_ok s0 r"
proof -
  let ?n = "x_packetLen x" and ?start = "nextScanIndex s - x_packetLen x"
  let ?pkt = "take ?n (drop ?start (buf s))"
  have wf: "scanner_wf s" "?n \<le> nextScanIndex s" "pktFormats s = fmts" and pr: "prevPktValid s = prevPktValid s0"
    and c: "?pkt @ pending s = pending s0"
    and none: "x_format x = None \<Longrightarrow> x_err x = None \<Longrightarrow> x_readError x \<noteq> Some (Raw TemporaryErr) \<Longrightarrow>
      (\<forall>j. 0 < j \<and> j < length ?pkt \<longrightarrow> no_start fmts (?pkt ! j))"
    and zero: "?n = 0 \<Longrightarrow> x_err x \<noteq> None \<or> x_readError x \<noteq> None"
    using x f by (auto simp: exit_ok_def Let_def)
  have len: "length ?pkt = ?n" using wf by (auto simp: scanner_wf_def)
  have sl: "sub_idx (nextScanIndex s) ?n = Some ?start" "subslice (buf s) ?start (nextScanIndex s) = Some ?pkt"
    using wf by (simp_all add: scanner_wf_def)
  have wf': "scanner_wf (s \<lparr> prevPktValid := b \<rparr>)" "pending (s \<lparr> prevPktValid := b \<rparr>) = pending s" for b
    using wf by (simp_all add: scanner_wf_def pending_def)
  have empty: "?pkt = [] \<Longrightarrow> x_err x \<noteq> None \<or> x_readError x \<noteq> None" using len zero by (metis list.size(3))
  show ?thesis
  proof (cases "x_format x")
    case None
    let ?p = "\<lparr> pk_format = None, pk_readError = x_readError x, pk_data = ?pkt, pk_tRead = x_tRead x, pk_checksumValid = False \<rparr>"
    have "after_loop v x s = Some (Done ?p (x_err x) (s \<lparr> prevPktValid := False \<rparr>))"
      by (simp add: after_loop_def sl None Let_def)
    moreover have "scanned s0 ?p (x_err x) (s \<lparr> prevPktValid := False \<rparr>)"
      using wf wf' c none [OF None] empty f by (simp add: scanned_def)
    ultimately show ?thesis by (simp add: round_ok_def)
  next
    case (Some pf)
    with x f have pf: "pf \<in> set fmts" "complete pf ?pkt" "x_err x = None" "x_readError x = None"
      by (auto simp: exit_ok_def Let_def)
    have law: "packet_format_laws pf" using pf(1) by (rule formats_ok)
    from pf(2) obtain st where "frame pf ?pkt st" "pf_isFinal pf st" by (auto simp: complete_def)
    from packet_format_laws.check_total [OF law this, of "prevPktValid s"] obtain a b rs where
      ab: "pf_extractChecksum pf ?pkt = Some a" "pf_computeChecksum pf ?pkt = Some b"
        "pf_rescanOnBadChecksum pf (prevPktValid s) ?pkt = Some rs" by auto
    have n: "0 < ?n" using zero pf(3,4) by (cases "?n = 0") auto
    show ?thesis
    proof (cases "a \<noteq> b \<and> rs")
      case True
      from restart_junk [OF wf] obtain n' where
        r: "restart ?n s = Some (n', s \<lparr> nextScanIndex := ?start + n' \<rparr>)" "n' \<le> ?n" "0 < ?n \<longrightarrow> 0 < n'"
          "\<forall>j. 0 < j \<and> j < n' \<longrightarrow> no_start fmts (take n' (drop ?start (buf s)) ! j)"
          "take n' (drop ?start (buf s)) @ pending (s \<lparr> nextScanIndex := ?start + n' \<rparr>) = ?pkt @ pending s"
        by (elim exE conjE) (rule that)
      let ?v = "v \<lparr> v_state := stateSync, v_packetLen := n', v_cur := Some pf, v_tRead := x_tRead x \<rparr>"
      have "after_loop v x s = Some (Continue ?v (s \<lparr> nextScanIndex := ?start + n' \<rparr>))"
        using True by (simp add: after_loop_def sl Some ab r(1) Let_def)
      moreover have "scan_inv s0 ?v (s \<lparr> nextScanIndex := ?start + n' \<rparr>)"
      proof -
        have cd: "cand ?v (s \<lparr> nextScanIndex := ?start + n' \<rparr>) = take n' (drop ?start (buf s))"
          by (simp add: cand_def)
        have w: "scanner_wf (s \<lparr> nextScanIndex := ?start + n' \<rparr>)" using wf r(2) by (auto simp: scanner_wf_def)
        show ?thesis
          unfolding scan_inv_def cd using w wf(3) pr f trans [OF r(5) c] r(4) by simp
      qed
      ultimately show ?thesis by (simp add: round_ok_def)
    next
      case False
      let ?p = "\<lparr> pk_format = Some pf, pk_readError = x_readError x, pk_data = ?pkt, pk_tRead = x_tRead x, pk_checksumValid = (a = b) \<rparr>"
      have "after_loop v x s = Some (Done ?p (x_err x) (s \<lparr> prevPktValid := (a = b) \<rparr>))"
        using False by (auto simp: after_loop_def sl Some ab Let_def)
      moreover have "scanned s0 ?p (x_err x) (s \<lparr> prevPktValid := (a = b) \<rparr>)"
        using wf wf' c pf ab f len n by (simp add: scanned_def)
      ultimately show ?thesis by (simp add: round_ok_def)
    qed
  qed
qed

lemma scan_round_ok:
  assumes "scan_inv s0 v s" "pktFormats s0 = fmts"
  shows "\<exists>r. scan_round v s = Some r \<and> round_ok s0 r"
proof -
  from scan_step_ok [OF assms] obtain r where r: "scan_step v s = Some r" "step_ok s0 r" by blast
  show ?thesis
  proof (cases r)
    case (Again v' s')
    with r show ?thesis by (simp add: scan_round_def step_ok_def round_ok_def)
  next
    case (Exit x s')
    with r after_loop_ok [of s0 x s' v] assms(2) show ?thesis by (simp add: scan_round_def step_ok_def)
  qed
qed

lemma scan_loop_ok:
  assumes "scan_inv s0 v s" "pktFormats s0 = fmts"
  shows "\<exists>p err s'. scan_loop v s = Some (p, err, s') \<and> scanned s0 p err s'"
  using assms
proof (induction v s rule: scan_loop.induct)
  case (1 v s)
  from scan_round_ok [OF 1(2,3)] obtain r where r: "scan_round v s = Some r" "round_ok s0 r" by blast
  show ?case
  proof (cases r)
    case (Continue v' s')
    with r have "scan_inv s0 v' s'" by (simp add: round_ok_def)
    from "1.IH" [OF r(1) Continue this 1(3)] show ?thesis
      using r Continue by (subst scan_loop.simps) simp
  next
    case (Done p err s')
    with r show ?thesis by (subst scan_loop.simps) (simp add: round_ok_def)
  qed
qed

text \<open>\<^verbatim>\<open>Scan\<close> returns, without panic, a packet that is what it should be.\<close>

lemma scan_ok:
  assumes "scanner_wf s" "pktFormats s = fmts"
  shows "\<exists>p err s'. scan s = Some (p, err, s') \<and> scanned s p err s'"
  unfolding scan_def by (rule scan_loop_ok [OF scan_inv_init [OF assms(1)] assms(2)])

end

section \<open>A packet at the front of the stream\<close>

text \<open>
  \<open>rejects pf pkt\<close>: driven over \<open>pkt\<close>, the format falls back to sync before the end and never
  reaches a final state.
\<close>

definition rejects :: "packet_format \<Rightarrow> bytes \<Rightarrow> bool" where
  "rejects pf pkt \<longleftrightarrow> (\<forall>n st. frame pf (take n pkt) st \<longrightarrow> n < length pkt \<and> \<not> pf_isFinal pf st)"

definition quiet :: "scanner \<Rightarrow> bool" where
  "quiet s \<longleftrightarrow> (\<forall>it \<in> set (rd s). ri_err it = None)"

lemma frame_prefix: "frame pf (p @ q) st \<Longrightarrow> p \<noteq> [] \<Longrightarrow> q \<noteq> [] \<Longrightarrow> \<exists>st'. frame pf p st' \<and> \<not> pf_isFinal pf st'"
proof (induction q arbitrary: st rule: rev_induct)
  case (snoc b q)
  from snoc.prems(1) have "frame pf ((p @ q) @ [b]) st" by simp
  then obtain st' where s: "frame pf (p @ q) st'" "\<not> pf_isFinal pf st'"
    by (rule frame_snocE) (use snoc.prems(2) in auto)
  show ?case
  proof (cases "q = []")
    case True
    with s show ?thesis by auto
  next
    case False
    with snoc.IH [OF s(1) snoc.prems(2)] show ?thesis by simp
  qed
qed simp

lemma complete_unique_prefix:
  assumes "complete pf pkt" "n < length pkt" "0 < n"
  shows "\<exists>st. frame pf (take n pkt) st \<and> \<not> pf_isFinal pf st"
proof -
  from assms(1) obtain st where "frame pf (take n pkt @ drop n pkt) st" by (auto simp: complete_def)
  then show ?thesis by (rule frame_prefix) (use assms in auto)
qed

text \<open>
  The scanner on its way to the packet \<open>pkt\<close> of format \<open>k\<close>: no candidate yet, or one of format
  \<open>k\<close> or of an earlier format that will fail.
\<close>

definition on_track :: "nat \<Rightarrow> bytes \<Rightarrow> scan_vars \<Rightarrow> scanner \<Rightarrow> bool" where
  "on_track k pkt v s \<longleftrightarrow> quiet s \<and> (if v_state v = stateSync then v_packetLen v = 0 else v_curIndex v \<le> k)"

context scanner_formats
begin

lemma first_match_index_le:
  assumes "set fs \<subseteq> set fmts" "i < length b" "j < length fs"
    and "pf_next (fs ! j) stateSync b i 0 \<noteq> Some stateSync"
  shows "\<exists>st pf m. first_match fs k b i = Some (st, Some (pf, m)) \<and> m \<le> k + j"
  using assms
proof (induction fs arbitrary: k j)
  case (Cons pf fs)
  from Cons.prems sync_step [of pf i b] obtain st where st: "pf_next pf stateSync b i 0 = Some st" by auto
  show ?case
  proof (cases "st = stateSync")
    case True
    with Cons.prems st obtain j' where j: "j = Suc j'" by (cases j) auto
    with Cons.IH [of j' "Suc k"] Cons.prems True st show ?thesis by auto
  next
    case False
    with st show ?thesis by simp
  qed
qed simp

lemma frame_first: "frame pf [b] st \<Longrightarrow> pf_next pf stateSync [b] 0 0 = Some st \<and> st \<noteq> stateSync"
  by (cases rule: frame.cases) (auto dest: frame_nonempty)

lemma complete_first:
  assumes "complete pf pkt" "packet_format_laws pf"
  shows "1 < length pkt \<and> (\<exists>st. pf_next pf stateSync [pkt ! 0] 0 0 = Some st \<and> st \<noteq> stateSync)"
proof -
  from assms(1) obtain st where f: "frame pf pkt st" "pf_isFinal pf st" by (auto simp: complete_def)
  have ne: "pkt \<noteq> []" using f(1) by (rule frame_nonempty)
  have "length pkt \<noteq> 1"
  proof
    assume "length pkt = 1"
    then obtain b where "pkt = [b]" by (auto simp: length_Suc_conv)
    with f frame_first packet_format_laws.first_not_final [OF assms(2)] show False by blast
  qed
  with ne have len: "1 < length pkt" by (cases pkt) auto
  from complete_unique_prefix [OF assms(1) len] obtain st' where "frame pf (take 1 pkt) st'" by auto
  moreover have "take 1 pkt = [pkt ! 0]" using ne by (cases pkt) auto
  ultimately show ?thesis using len frame_first by auto
qed

definition target :: "scanner \<Rightarrow> nat \<Rightarrow> bytes \<Rightarrow> bytes \<Rightarrow> bool" where
  "target s0 k pkt rest \<longleftrightarrow> pktFormats s0 = fmts \<and> k < length fmts \<and> complete (fmts ! k) pkt
     \<and> (\<forall>j < k. rejects (fmts ! j) pkt) \<and> pending s0 = pkt @ rest"

lemma target_short:
  assumes t: "target s0 k pkt rest" and f: "frame (fmts ! c) p st" "\<not> pf_isFinal (fmts ! c) st" "c \<le> k"
    and p: "p @ q = pkt @ rest"
  shows "length p < length pkt"
proof (rule ccontr)
  assume "\<not> length p < length pkt"
  with p obtain p' where pp: "p = pkt @ p'" by (metis append_eq_append_conv_if append_eq_conv_conj not_less)
  have ne: "pkt \<noteq> []" using t by (auto simp: target_def complete_def dest: frame_nonempty)
  have "\<exists>st'. frame (fmts ! c) pkt st' \<and> \<not> pf_isFinal (fmts ! c) st'"
    using frame_prefix [of "fmts ! c" pkt p' st] f pp ne by (cases "p' = []") auto
  then obtain st' where st': "frame (fmts ! c) pkt st'" "\<not> pf_isFinal (fmts ! c) st'" by blast
  show False
  proof (cases "c = k")
    case True
    with t st' frame_unique show False by (auto simp: target_def complete_def)
  next
    case False
    with f(3) t have "rejects (fmts ! c) pkt" by (simp add: target_def)
    with st'(1) have "length pkt < length pkt" unfolding rejects_def by (metis order_refl take_all)
    then show False by simp
  qed
qed

lemma target_final:
  assumes t: "target s0 k pkt rest" and f: "frame (fmts ! c) (take n pkt) st" "pf_isFinal (fmts ! c) st" "c \<le> k" "n \<le> length pkt"
  shows "c = k \<and> n = length pkt"
proof -
  have c: "c = k"
  proof (rule ccontr)
    assume "c \<noteq> k"
    with f(3) t have "rejects (fmts ! c) pkt" by (simp add: target_def)
    with f show False by (auto simp: rejects_def)
  qed
  moreover have "n = length pkt"
  proof (rule ccontr)
    assume "n \<noteq> length pkt"
    with f(4) have n: "n < length pkt" by simp
    have "0 < n" using f(1) by (cases n) (auto dest: frame_nonempty)
    moreover have "complete (fmts ! k) pkt" using t by (simp add: target_def)
    ultimately obtain st' where "frame (fmts ! k) (take n pkt) st'" "\<not> pf_isFinal (fmts ! k) st'"
      using complete_unique_prefix n by blast
    with f c frame_unique show False by blast
  qed
  ultimately show ?thesis ..
qed

lemma target_next_byte:
  assumes "p @ pending s = pkt @ rest" "length p < length pkt" "nextScanIndex s < length (buf s)"
  shows "p @ [buf s ! nextScanIndex s] = take (length p + 1) pkt" and "p = take (length p) pkt"
proof -
  from assms(1,2) show p: "p = take (length p) pkt"
    by (metis append_eq_append_conv_if append_eq_conv_conj less_imp_le_nat not_less take_append)
  from assms(1) have "drop (length p) (pkt @ rest) = pending s" by (metis append_eq_conv_conj)
  then have "buf s ! nextScanIndex s = pkt ! length p"
    using pending_hd [OF assms(3)] assms(2) by (metis Cons_nth_drop_Suc append_Cons drop_append list.inject
        diff_is_0_eq' drop0 less_imp_le_nat)
  with p assms(2) show "p @ [buf s ! nextScanIndex s] = take (length p + 1) pkt"
    by (metis Suc_eq_plus1 take_Suc_conv_app_nth)
qed

lemma on_byte_track:
  assumes t: "target s0 k pkt rest" and inv: "scan_inv s0 v s" and tr: "on_track k pkt v s"
    and lt: "nextScanIndex s < length (buf s)"
  shows "\<exists>r. on_byte v s = Some r \<and> (case r of
      Again v' s' \<Rightarrow> on_track k pkt v' s'
    | Exit x s' \<Rightarrow> x_format x = Some (fmts ! k) \<and> x_packetLen x = length pkt)"
proof -
  have f: "pktFormats s0 = fmts" and fs: "pktFormats s = fmts" and kl: "k < length fmts"
    and comp: "complete (fmts ! k) pkt" and pend: "cand v s @ pending s = pkt @ rest"
    and wf: "scanner_wf s" "v_packetLen v \<le> nextScanIndex s"
    using t inv by (auto simp: target_def scan_inv_def)
  have len: "length (cand v s) = v_packetLen v" by (rule length_cand [OF wf(2,1)])
  have lawk: "packet_format_laws (fmts ! k)" using kl by (intro formats_ok) simp
  note cf = complete_first [OF comp lawk]
  from on_byte_ok [OF inv f lt] obtain r where r: "on_byte v s = Some r" by blast
  have short: "length (cand v s) < length pkt"
  proof (cases "v_state v = stateSync")
    case True
    with tr len cf show ?thesis by (auto simp: on_track_def)
  next
    case False
    with inv tr f pend show ?thesis
      by (intro target_short [OF t, of "v_curIndex v" _ "v_state v" "pending s"]) (auto simp: scan_inv_def on_track_def)
  qed
  note nb = target_next_byte [OF pend short lt]
  have q: "quiet s" using tr by (simp add: on_track_def)
  from r show ?thesis
  proof (cases rule: on_byteE)
    case (start st pf j)
    with tr show ?thesis by (simp add: on_track_def)
  next
    case (failed cur ci)
    have ci: "ci = v_curIndex v" "ci \<le> k" using next_state_index(2) [OF failed(1)] failed(2) tr
      by (auto simp: on_track_def)
    have "ci \<noteq> k"
    proof
      assume "ci = k"
      then have fr: "frame (fmts ! k) (cand v s) (v_state v)" "\<not> pf_isFinal (fmts ! k) (v_state v)" "v_cur v = Some (fmts ! k)"
        using inv f failed(2) ci(1) by (auto simp: scan_inv_def)
      have nf: "pf_next (fmts ! k) (v_state v) (buf s) (nextScanIndex s) (v_packetLen v) = Some stateSync"
        using failed(1,2) fr(3) by (auto simp: next_state_def bind_Some_iff)
      have "\<exists>st2. frame (fmts ! k) (take (length (cand v s) + 1) pkt) st2"
      proof (cases "length (cand v s) + 1 < length pkt")
        case True
        then show ?thesis using complete_unique_prefix [OF comp True] by auto
      next
        case False
        with short have "take (length (cand v s) + 1) pkt = pkt" by simp
        with comp show ?thesis by (auto simp: complete_def)
      qed
      then obtain st2 where "frame (fmts ! k) (cand v s @ [buf s ! nextScanIndex s]) st2" unfolding nb(1) by blast
      then obtain st1 where "frame (fmts ! k) (cand v s) st1" "st2 \<noteq> stateSync"
        "pf_next (fmts ! k) st1 (cand v s @ [buf s ! nextScanIndex s]) (length (cand v s)) (length (cand v s)) = Some st2"
        by (rule frame_snocE) (use failed(3) len in auto)
      moreover from this(1) fr(1) have "st1 = v_state v" by (rule frame_unique)
      moreover have "pf_next (fmts ! k) (v_state v) (buf s) (nextScanIndex s) (v_packetLen v)
          = pf_next (fmts ! k) (v_state v) (cand v s @ [buf s ! nextScanIndex s]) (length (cand v s)) (length (cand v s))"
        by (rule packet_format_laws.next_window [OF lawk lt wf(2)]) (use failed(3) in \<open>simp_all add: cand_def\<close>)
      ultimately show False using nf by simp
    qed
    with ci have less: "ci < k" by simp
    let ?start = "nextScanIndex s - v_packetLen v"
    have st: "?start < length (buf s)" using lt by simp
    have "buf s ! ?start = pkt ! 0"
    proof -
      have "cand v s ! 0 = buf s ! ?start" using failed(3) wf lt by (simp add: cand_def)
      moreover have "cand v s ! 0 = pkt ! 0" using failed(3) len short by (subst nb(2)) simp
      ultimately show ?thesis by simp
    qed
    then have ns: "pf_next (drop (ci + 1) fmts ! (k - (ci + 1))) stateSync (buf s) ?start 0 \<noteq> Some stateSync"
      using cf packet_format_laws.next_start [OF lawk st] less kl by auto
    have "k - (ci + 1) < length (drop (ci + 1) fmts)" using kl less by auto
    from first_match_index_le [OF set_drop_subset st this ns, of "ci + 1"] obtain st' pf m where
      m: "first_match (drop (ci + 1) fmts) (ci + 1) (buf s) ?start = Some (st', Some (pf, m))" "m \<le> k"
      using less by auto
    from failed(4) show ?thesis
    proof (cases rule: candidate_failedE)
      case (retry st2 pf2 k2)
      with m fs q r show ?thesis by (auto simp: on_track_def quiet_def)
    next
      case (give_up n s')
      with m fs show ?thesis by simp
    qed
  next
    case (junk cur ci)
    have sy: "v_state v = stateSync" "v_packetLen v = 0"
      using junk(2) tr inv by (auto simp: on_track_def scan_inv_def)
    then have "buf s ! nextScanIndex s = pkt ! 0" using nb len short by (simp add: take_Suc_conv_app_nth take_Suc hd_conv_nth)
    then have "pf_next (fmts ! k) stateSync (buf s) (nextScanIndex s) 0 \<noteq> Some stateSync"
      using cf packet_format_laws.next_start [OF lawk lt] by auto
    from first_match_index_le [OF order_refl lt kl this, of 0] obtain st pf m where
      m: "first_match fmts 0 (buf s) (nextScanIndex s) = Some (st, Some (pf, m))" by auto
    from first_match_index [OF m] have "st \<noteq> stateSync" by simp
    with junk(1) sy fs m show ?thesis by (simp add: next_state_def)
  next
    case (final st pf ci)
    from next_state_ok [OF inv f lt] final(1-3) have fr: "pf = fmts ! ci" "frame (fmts ! ci) (take (length (cand v s) + 1) pkt) st"
      unfolding nb(1) by auto
    have ci: "ci \<le> k"
    proof (cases "v_state v = stateSync")
      case False
      then show ?thesis using next_state_index(2) [OF final(1)] tr by (simp add: on_track_def)
    next
      case True
      then have "v_packetLen v = 0" using tr by (simp add: on_track_def)
      then have "cand v s = []" using len by simp
      with fr(2) have "frame (fmts ! ci) [buf s ! nextScanIndex s] st" using nb(1) by simp
      then have "pf_next (fmts ! ci) stateSync [buf s ! nextScanIndex s] 0 0 = Some st" using frame_first by blast
      moreover have "ci < length fmts" using next_state_index(1) [OF final(1) True final(3)] fs by simp
      ultimately have "\<not> pf_isFinal (fmts ! ci) st"
        using packet_format_laws.first_not_final [OF formats_ok, of "fmts ! ci"] by simp
      with final(4) fr(1) show ?thesis by simp
    qed
    from target_final [OF t fr(2) _ ci] final(4) fr(1) short have "ci = k" "length (cand v s) + 1 = length pkt" by auto
    with final fr(1) len r show ?thesis by (simp add: exit_with_def)
  next
    case (more st pf ci)
    have ci: "ci \<le> k"
    proof (cases "v_state v = stateSync")
      case False
      then show ?thesis using next_state_index(2) [OF more(1)] tr by (simp add: on_track_def)
    next
      case True
      then have sy: "v_packetLen v = 0" using tr by (simp add: on_track_def)
      then have "buf s ! nextScanIndex s = pkt ! 0" using nb len short by (simp add: take_Suc_conv_app_nth take_Suc hd_conv_nth)
      then have "pf_next (fmts ! k) stateSync (buf s) (nextScanIndex s) 0 \<noteq> Some stateSync"
        using cf packet_format_laws.next_start [OF lawk lt] by auto
      from first_match_index_le [OF order_refl lt kl this, of 0] obtain st' pf' m where
        m: "first_match fmts 0 (buf s) (nextScanIndex s) = Some (st', Some (pf', m))" "m \<le> k" by auto
      with more(1) True fs show ?thesis by (simp add: next_state_def)
    qed
    with more q r show ?thesis by (simp add: on_track_def quiet_def)
  qed
qed

lemma on_track_tRead [simp]: "on_track k pkt (if c then v \<lparr> v_tRead := t \<rparr> else v) s = on_track k pkt v s"
  by (cases c) (simp_all add: on_track_def)

lemma scan_step_track:
  assumes t: "target s0 k pkt rest" and inv: "scan_inv s0 v s" and tr: "on_track k pkt v s"
  shows "\<exists>r. scan_step v s = Some r \<and> step_ok s0 r \<and> (case r of
      Again v' s' \<Rightarrow> on_track k pkt v' s'
    | Exit x s' \<Rightarrow> x_format x = Some (fmts ! k) \<and> x_packetLen x = length pkt)"
proof -
  have f: "pktFormats s0 = fmts" using t by (simp add: target_def)
  from scan_step_ok [OF inv f] obtain r where r: "scan_step v s = Some r" "step_ok s0 r" by blast
  have pend: "cand v s @ pending s = pkt @ rest" and wf: "scanner_wf s" "v_packetLen v \<le> nextScanIndex s"
    using inv t by (auto simp: scan_inv_def target_def)
  have kl: "k < length fmts" and comp: "complete (fmts ! k) pkt" using t by (simp_all add: target_def)
  have "pkt \<noteq> []" using complete_first [OF comp formats_ok] kl by auto
  have ne: "pending s \<noteq> []"
  proof (cases "v_state v = stateSync")
    case True
    with tr have "cand v s = []" by (simp add: on_track_def cand_def)
    with pend \<open>pkt \<noteq> []\<close> show ?thesis by auto
  next
    case False
    with inv tr f pend have "length (cand v s) < length pkt"
      by (intro target_short [OF t, of "v_curIndex v" _ "v_state v" "pending s"]) (auto simp: scan_inv_def on_track_def)
    with pend show ?thesis by (cases "pending s") auto
  qed
  have nf: "\<not> (v_state v = stateSync \<and> minInvalidPacketLen \<le> v_packetLen v)"
    using tr by (auto simp: on_track_def minInvalidPacketLen_def)
  from r(1) show ?thesis
  proof (cases rule: scan_stepE)
    case no_fill
    from on_byte_track [OF t inv tr no_fill(1)] no_fill(2) r show ?thesis by simp
  next
    case flush
    with nf show ?thesis by simp
  next
    case (error e s1)
    from scan_inv_fill [OF inv error(1)] error(2) tr ne show ?thesis by (simp add: on_track_def quiet_def)
  next
    case (filled s1)
    from scan_inv_fill [OF inv filled(1)] filled(2) tr ne
    have inv1: "scan_inv s0 v s1" and q: "quiet s1" by (simp_all add: on_track_def quiet_def)
    have tr1: "on_track k pkt v s1" using tr q by (simp add: on_track_def)
    have lt: "nextScanIndex s1 < length (buf s1)" using fill_size [OF filled(2,1)] by blast
    from on_byte_track [OF t _ _ lt, of "if v_packetLen v = 0 then v \<lparr> v_tRead := tRead s1 \<rparr> else v"]
      filled(3) r inv1 tr1 show ?thesis by simp
  qed
qed

lemma scan_loop_track:
  assumes "target s0 k pkt rest" "scan_inv s0 v s" "on_track k pkt v s"
    and "pf_extractChecksum (fmts ! k) pkt = pf_computeChecksum (fmts ! k) pkt"
  shows "\<exists>p s'. scan_loop v s = Some (p, None, s') \<and> pk_format p = Some (fmts ! k) \<and> pk_data p = pkt"
  using assms(2,3)
proof (induction v s rule: scan_loop.induct)
  case (1 v s)
  from scan_step_track [OF assms(1) 1(2,3)] obtain r where r: "scan_step v s = Some r" "step_ok s0 r"
    "case r of Again v' s' \<Rightarrow> on_track k pkt v' s'
     | Exit x s' \<Rightarrow> x_format x = Some (fmts ! k) \<and> x_packetLen x = length pkt" by blast
  show ?case
  proof (cases r)
    case (Again v' s')
    with r have rr: "scan_round v s = Some (Continue v' s')" by (simp add: scan_round_def)
    from "1.IH" [OF rr refl] r Again show ?thesis
      by (subst scan_loop.simps) (simp add: rr step_ok_def)
  next
    case (Exit x s')
    with r have x: "exit_ok s0 x s'" "x_format x = Some (fmts ! k)" "x_packetLen x = length pkt"
      by (simp_all add: step_ok_def)
    let ?lo = "nextScanIndex s' - length pkt"
    have wf: "scanner_wf s'" "length pkt \<le> nextScanIndex s'" "x_err x = None"
      and pk: "take (length pkt) (drop ?lo (buf s')) @ pending s' = pkt @ rest"
      using x assms(1) by (auto simp: exit_ok_def Let_def target_def)
    have "length (take (length pkt) (drop ?lo (buf s'))) = length pkt" using wf by (auto simp: scanner_wf_def)
    with pk have data: "take (length pkt) (drop ?lo (buf s')) = pkt" by (metis append_eq_append_conv)
    have sl: "sub_idx (nextScanIndex s') (x_packetLen x) = Some ?lo" "subslice (buf s') ?lo (nextScanIndex s') = Some pkt"
      using wf x(3) data by (simp_all add: scanner_wf_def)
    have "\<exists>a. pf_extractChecksum (fmts ! k) pkt = Some a"
    proof -
      have kl: "k < length fmts" and comp: "complete (fmts ! k) pkt" using assms(1) by (simp_all add: target_def)
      then obtain st where st: "frame (fmts ! k) pkt st" "pf_isFinal (fmts ! k) st" by (auto simp: complete_def)
      have law: "packet_format_laws (fmts ! k)" using kl by (intro formats_ok) simp
      from packet_format_laws.check_total [OF law st, of True] show ?thesis by blast
    qed
    then obtain a where a: "pf_extractChecksum (fmts ! k) pkt = Some a" "pf_computeChecksum (fmts ! k) pkt = Some a"
      using assms(4) by auto
    have "after_loop v x s' = Some (Done \<lparr> pk_format = Some (fmts ! k), pk_readError = x_readError x, pk_data = pkt,
        pk_tRead = x_tRead x, pk_checksumValid = True \<rparr> None (s' \<lparr> prevPktValid := True \<rparr>))"
      by (simp add: after_loop_def sl a x(2) wf(3) Let_def)
    then show ?thesis using r(1) Exit by (subst scan_loop.simps) (simp add: scan_round_def)
  qed
qed

lemma scan_finds:
  assumes "target s k pkt rest" "scanner_wf s" "quiet s"
    and "pf_extractChecksum (fmts ! k) pkt = pf_computeChecksum (fmts ! k) pkt"
  shows "\<exists>p s'. scan s = Some (p, None, s') \<and> pk_format p = Some (fmts ! k) \<and> pk_data p = pkt
    \<and> pk_checksumValid p \<and> pending s' = rest"
proof -
  have tr: "on_track k pkt (scan_init s) s" using assms(3) by (simp add: on_track_def scan_init_def)
  from scan_loop_track [OF assms(1) scan_inv_init [OF assms(2)] tr assms(4)] obtain p s' where
    p: "scan s = Some (p, None, s')" "pk_format p = Some (fmts ! k)" "pk_data p = pkt" by (auto simp: scan_def)
  from scan_ok [OF assms(2)] assms(1) p have "scanned s p None s'" by (auto simp: target_def)
  with p assms(1,4) show ?thesis by (auto simp: scanned_def target_def)
qed

end

end
