(* ===== verification/Countdown.thy ===== *)
theory Countdown
  imports PacketFormat
begin

text \<open>
  The binary formats share a shape: a header of \<open>h\<close> bytes, checked as it arrives, whose last
  byte fixes the length of the packet, and then a state that counts the remaining bytes down
  to the final state. The locale \<open>countdown_format\<close> states that shape once and derives
  from it what the candidates of such a format look like and the contract with the scanner.
\<close>

locale countdown_format =
  fixes pf :: packet_format
    and h :: nat
    and hst :: "nat \<Rightarrow> nat"
    and base :: nat
    and hok :: "bytes \<Rightarrow> bool"
    and total :: "bytes \<Rightarrow> nat"
  assumes h_pos: "1 < h"
    and hst_states: "hst n \<noteq> base" "0 < n \<Longrightarrow> hst n \<noteq> stateSync" "base \<noteq> stateSync"
    and final_base: "pf_isFinal pf st \<longleftrightarrow> st = base"
    and local: "i < length buf \<Longrightarrow> pl \<le> i \<Longrightarrow> st = stateSync \<or> 0 < pl \<Longrightarrow>
      pf_next pf st buf i pl = pf_next pf st (take (Suc pl) (drop (i - pl) buf)) pl pl"
    and hdr_first: "pf_next pf stateSync [b] 0 0 = Some (if hok [b] then hst 1 else stateSync)"
    and hdr_next: "pkt \<noteq> [] \<Longrightarrow> length pkt + 1 < h \<Longrightarrow> hok pkt \<Longrightarrow>
      pf_next pf (hst (length pkt)) (pkt @ [b]) (length pkt) (length pkt)
        = Some (if hok (pkt @ [b]) then hst (Suc (length pkt)) else stateSync)"
    and hdr_last: "length pkt + 1 = h \<Longrightarrow> hok pkt \<Longrightarrow>
      pf_next pf (hst (length pkt)) (pkt @ [b]) (length pkt) (length pkt)
        = Some (if hok (pkt @ [b]) then base + (total (pkt @ [b]) - h) else stateSync)"
    and count: "h \<le> length pkt \<Longrightarrow> base < st \<Longrightarrow>
      pf_next pf st (pkt @ [b]) (length pkt) (length pkt) = Some (st - 1)"
    and hok_prefix: "pkt \<noteq> [] \<Longrightarrow> hok (pkt @ [b]) \<Longrightarrow> hok pkt"
    and hok_stable: "h \<le> length pkt \<Longrightarrow> hok (pkt @ [b]) = hok pkt"
    and total_stable: "h \<le> length pkt \<Longrightarrow> total (pkt @ [b]) = total pkt"
    and total_ge: "h \<le> length pkt \<Longrightarrow> hok pkt \<Longrightarrow> h \<le> total pkt"
    and checks: "h \<le> length pkt \<Longrightarrow> hok pkt \<Longrightarrow> length pkt = total pkt \<Longrightarrow>
      pf_extractChecksum pf pkt \<noteq> None \<and> pf_computeChecksum pf pkt \<noteq> None
        \<and> pf_rescanOnBadChecksum pf prev pkt \<noteq> None"
begin

definition state_of :: "bytes \<Rightarrow> nat" where
  "state_of pkt = (if length pkt < h then hst (length pkt) else base + (total pkt - length pkt))"

definition candidate :: "bytes \<Rightarrow> bool" where
  "candidate pkt \<longleftrightarrow> pkt \<noteq> [] \<and> hok pkt \<and> (h \<le> length pkt \<longrightarrow> length pkt \<le> total pkt)"

lemma state_of_not_sync: "pkt \<noteq> [] \<Longrightarrow> state_of pkt \<noteq> stateSync"
  using hst_states(2) [of "length pkt"] hst_states(3) by (auto simp: state_of_def)

lemma state_of_final: "candidate pkt \<Longrightarrow> pf_isFinal pf (state_of pkt) \<longleftrightarrow> h \<le> length pkt \<and> length pkt = total pkt"
  using hst_states(1) by (auto simp: state_of_def final_base candidate_def)

lemma step_candidate:
  assumes c: "candidate pkt" and nf: "\<not> pf_isFinal pf (state_of pkt)"
  shows "pf_next pf (state_of pkt) (pkt @ [b]) (length pkt) (length pkt)
      = Some (if candidate (pkt @ [b]) then state_of (pkt @ [b]) else stateSync)"
proof -
  consider (short) "length pkt + 1 < h" | (last) "length pkt + 1 = h" | (body) "h \<le> length pkt"
    by linarith
  then show ?thesis
  proof cases
    case short
    with c show ?thesis by (auto simp: state_of_def candidate_def hdr_next)
  next
    case last
    with c total_ge [of "pkt @ [b]"] show ?thesis
      by (auto simp: state_of_def candidate_def hdr_last)
  next
    case body
    with c nf have lt: "length pkt < total pkt" by (auto simp: state_of_final candidate_def)
    with c body have "candidate (pkt @ [b])"
      by (auto simp: candidate_def hok_stable total_stable)
    moreover have "pf_next pf (state_of pkt) (pkt @ [b]) (length pkt) (length pkt) = Some (state_of pkt - 1)"
      using body lt by (intro count) (simp_all add: state_of_def)
    moreover have "state_of pkt - 1 = state_of (pkt @ [b])"
      using body lt by (simp add: state_of_def total_stable)
    ultimately show ?thesis by simp
  qed
qed

lemma candidate_single: "candidate [b] \<longleftrightarrow> hok [b]"
  using h_pos by (auto simp: candidate_def)

lemma candidate_snoc: "candidate (pkt @ [b]) \<Longrightarrow> pkt \<noteq> [] \<Longrightarrow>
    candidate pkt \<and> \<not> pf_isFinal pf (state_of pkt)"
proof -
  assume c: "candidate (pkt @ [b])" and ne: "pkt \<noteq> []"
  then have hok: "hok pkt" by (auto simp: candidate_def intro: hok_prefix)
  have lt: "h \<le> length pkt \<Longrightarrow> length pkt < total pkt"
    using c by (auto simp: candidate_def total_stable)
  with hok ne have "candidate pkt" by (auto simp: candidate_def)
  with lt show ?thesis by (auto simp: state_of_final)
qed

lemma frame_imp: "frame pf pkt st \<Longrightarrow> candidate pkt \<and> st = state_of pkt"
proof (induction rule: frame.induct)
  case (frame_start b st)
  then show ?case using h_pos by (auto simp: hdr_first candidate_single state_of_def split: if_splits)
next
  case (frame_step pkt st b st')
  then show ?case using step_candidate [of pkt b] by (auto split: if_splits)
qed

lemma frame_of: "candidate pkt \<Longrightarrow> frame pf pkt (state_of pkt)"
proof (induction pkt rule: rev_induct)
  case Nil
  then show ?case by (simp add: candidate_def)
next
  case (snoc b pkt)
  show ?case
  proof (cases "pkt = []")
    case True
    with snoc.prems h_pos hst_states(2) [of 1] show ?thesis
      by (auto simp: hdr_first candidate_single state_of_def intro!: frame_start)
  next
    case False
    with candidate_snoc snoc.prems have c: "candidate pkt" "\<not> pf_isFinal pf (state_of pkt)" by auto
    with snoc.IH have "frame pf pkt (state_of pkt)" by simp
    from this c(2) show ?thesis
      by (rule frame_step) (use step_candidate [OF c] snoc.prems state_of_not_sync in auto)
  qed
qed

lemma frame_iff: "frame pf pkt st \<longleftrightarrow> candidate pkt \<and> st = state_of pkt"
  using frame_imp frame_of by blast

lemma complete_iff: "complete pf pkt \<longleftrightarrow> h \<le> length pkt \<and> hok pkt \<and> length pkt = total pkt"
proof -
  have "complete pf pkt \<longleftrightarrow> candidate pkt \<and> pf_isFinal pf (state_of pkt)"
    by (auto simp: complete_def frame_iff)
  also have "\<dots> \<longleftrightarrow> h \<le> length pkt \<and> hok pkt \<and> length pkt = total pkt"
    using state_of_final [of pkt] h_pos by (cases "pkt = []") (auto simp: candidate_def)
  finally show ?thesis .
qed

lemma laws: "packet_format_laws pf"
proof unfold_locales
  show "\<not> pf_isFinal pf stateSync" using hst_states(3) by (simp add: final_base)
next
  fix i pl st and buf :: bytes
  assume "i < length buf" "pl \<le> i" "st = stateSync \<or> 0 < pl"
  then show "pf_next pf st buf i pl = pf_next pf st (take (Suc pl) (drop (i - pl) buf)) pl pl"
    by (rule local)
next
  fix b
  show "pf_next pf stateSync [b] 0 0 \<noteq> None" by (simp add: hdr_first)
next
  fix b st
  assume "pf_next pf stateSync [b] 0 0 = Some st"
  then show "\<not> pf_isFinal pf st"
    using hst_states(1) [of 1] hst_states(3) by (auto simp: hdr_first final_base split: if_splits)
next
  fix pkt st b
  assume "frame pf pkt st" "\<not> pf_isFinal pf st"
  then show "pf_next pf st (pkt @ [b]) (length pkt) (length pkt) \<noteq> None"
    using step_candidate by (auto simp: frame_iff)
next
  fix pkt st prev
  assume "frame pf pkt st" "pf_isFinal pf st"
  then show "pf_extractChecksum pf pkt \<noteq> None \<and> pf_computeChecksum pf pkt \<noteq> None
      \<and> pf_rescanOnBadChecksum pf prev pkt \<noteq> None"
    using checks by (auto simp: frame_iff state_of_final candidate_def)
qed

end

sublocale countdown_format \<subseteq> packet_format_laws
  by (rule laws)

end
