(* ===== verification/BinFormats.thy ===== *)
theory BinFormats
  imports Countdown Checksum
begin

text \<open>
  The binary packet formats: UBX (\<^verbatim>\<open>gps/internal/ubx\<close>), Allystar (\<^verbatim>\<open>gps/internal/as\<close>),
  SDBP, CASIC, SBF, RTCM, and the binary formats of NovAtel and Unicore. Each has its
  \<^verbatim>\<open>Next\<close> state machine, its final state, and how the checksum is extracted and computed;
  each is shown to be a countdown format, so that its packets are exactly the byte strings
  with the right sync bytes and the length their header announces.
\<close>

lemmas next_simps = idx_def idx_back_def nth_append

lemma window_nth [simp]: "pl \<le> i \<Longrightarrow> i < length buf \<Longrightarrow> k \<le> pl \<Longrightarrow>
    take (Suc pl) (drop (i - pl) buf) ! k = buf ! (i - pl + k)"
  by simp

lemma window_length [simp]: "pl \<le> i \<Longrightarrow> i < length buf \<Longrightarrow> length (take (Suc pl) (drop (i - pl) buf)) = Suc pl"
  by simp

section \<open>UBX\<close>

definition ubx_next :: "nat \<Rightarrow> bytes \<Rightarrow> nat \<Rightarrow> nat \<Rightarrow> nat option" where
  "ubx_next st buf i packetLen = do {
     b \<leftarrow> idx buf i;
     if st = stateSync then Some (if b = 0xB5 then 1 else stateSync)
     else if st = 1 then
       (if packetLen = 1 then Some (if b = 0x62 then 1 else stateSync)
        else if packetLen = 5 then do {
          p \<leftarrow> idx_back buf i 1;
          let payloadLen = unat p + unat b * 0x100;
          Some (2 + payloadLen + 2) }
        else Some 1)
     else Some (if 2 < st then st - 1 else stateSync) }"

definition ubx_extractChecksum :: "bytes \<Rightarrow> bytes option" where
  "ubx_extractChecksum pkt = last_n pkt 2"

definition ubx_computeChecksum :: "bytes \<Rightarrow> bytes option" where
  "ubx_computeChecksum pkt = do {
     body \<leftarrow> but_last_n pkt 2 2;
     let (ckA, ckB) = ubx_checksum body;
     Some [ckA, ckB] }"

definition ubxFormat :: packet_format where
  "ubxFormat = \<lparr> pf_tag = ''UBX'', pf_isBinary = True, pf_next = ubx_next,
     pf_isFinal = (\<lambda>st. st = 2), pf_extractChecksum = ubx_extractChecksum,
     pf_computeChecksum = ubx_computeChecksum, pf_rescanOnBadChecksum = (\<lambda>_ _. Some False) \<rparr>"

definition ubx_hok :: "bytes \<Rightarrow> bool" where
  "ubx_hok pkt \<longleftrightarrow> pkt ! 0 = 0xB5 \<and> (2 \<le> length pkt \<longrightarrow> pkt ! 1 = 0x62)"

definition ubx_total :: "bytes \<Rightarrow> nat" where
  "ubx_total pkt = 8 + le16 (pkt ! 4) (pkt ! 5)"

interpretation ubx: countdown_format ubxFormat 6 "\<lambda>_. 1" 2 ubx_hok ubx_total
proof unfold_locales
  fix i pl st and buf :: bytes
  assume "i < length buf" "pl \<le> i" "st = stateSync \<or> 0 < pl"
  then show "pf_next ubxFormat st buf i pl = pf_next ubxFormat st (take (Suc pl) (drop (i - pl) buf)) pl pl"
    by (auto simp: ubxFormat_def ubx_next_def idx_back_def)
next
  fix pkt b
  assume "length pkt + 1 = (6::nat)" "ubx_hok pkt"
  then show "pf_next ubxFormat 1 (pkt @ [b]) (length pkt) (length pkt)
      = Some (if ubx_hok (pkt @ [b]) then 2 + (ubx_total (pkt @ [b]) - 6) else stateSync)"
    by (auto simp: ubxFormat_def ubx_next_def next_simps ubx_hok_def ubx_total_def le16_def)
qed (auto simp: ubxFormat_def ubx_next_def next_simps ubx_hok_def ubx_total_def ubx_extractChecksum_def
    ubx_computeChecksum_def split: prod.splits)

text \<open>What a UBX packet is, read off the state machine.\<close>

lemma ubx_complete_iff: "complete ubxFormat pkt \<longleftrightarrow>
    8 \<le> length pkt \<and> pkt ! 0 = 0xB5 \<and> pkt ! 1 = 0x62 \<and> length pkt = 8 + le16 (pkt ! 4) (pkt ! 5)"
  unfolding ubx.complete_iff by (auto simp: ubx_hok_def ubx_total_def)

section \<open>Allystar\<close>

definition as_next :: "nat \<Rightarrow> bytes \<Rightarrow> nat \<Rightarrow> nat \<Rightarrow> nat option" where
  "as_next st buf i packetLen = do {
     b \<leftarrow> idx buf i;
     if st = stateSync then Some (if b = 0xF1 then 1 else stateSync)
     else if st = 1 then Some (if b = 0xD9 then 2 else stateSync)
     else if st = 2 then Some 3
     else if st = 3 then Some 4
     else if st = 4 then Some 5
     else if st = 5 then do {
       p \<leftarrow> idx_back buf i 1;
       let payloadLen = unat p + unat b * 0x100;
       Some (6 + payloadLen + 2) }
     else Some (if 6 < st then st - 1 else stateSync) }"

definition as_extractChecksum :: "bytes \<Rightarrow> bytes option" where
  "as_extractChecksum pkt = last_n pkt 2"

definition as_computeChecksum :: "bytes \<Rightarrow> bytes option" where
  "as_computeChecksum pkt = do {
     body \<leftarrow> but_last_n pkt 2 2;
     let (ckA, ckB) = as_checksum body;
     Some [ckA, ckB] }"

definition asFormat :: packet_format where
  "asFormat = \<lparr> pf_tag = ''ASBIN'', pf_isBinary = True, pf_next = as_next,
     pf_isFinal = (\<lambda>st. st = 6), pf_extractChecksum = as_extractChecksum,
     pf_computeChecksum = as_computeChecksum, pf_rescanOnBadChecksum = (\<lambda>_ _. Some False) \<rparr>"

definition as_hok :: "bytes \<Rightarrow> bool" where
  "as_hok pkt \<longleftrightarrow> pkt ! 0 = 0xF1 \<and> (2 \<le> length pkt \<longrightarrow> pkt ! 1 = 0xD9)"

text \<open>The states of the header count its bytes.\<close>

abbreviation header_states :: "nat \<Rightarrow> nat \<Rightarrow> nat" where
  "header_states k n \<equiv> (if n < k then n else 1)"

lemma less_6_cases: "n + 1 < 6 \<Longrightarrow> 0 < n \<Longrightarrow> n = 1 \<or> n = 2 \<or> n = 3 \<or> n = (4::nat)"
  by arith

interpretation allystar: countdown_format asFormat 6 "header_states 6" 6 as_hok ubx_total
proof unfold_locales
  fix i pl st and buf :: bytes
  assume "i < length buf" "pl \<le> i" "st = stateSync \<or> 0 < pl"
  then show "pf_next asFormat st buf i pl = pf_next asFormat st (take (Suc pl) (drop (i - pl) buf)) pl pl"
    by (auto simp: asFormat_def as_next_def idx_back_def)
next
  fix pkt b
  assume "pkt \<noteq> []" "length pkt + 1 < (6::nat)" "as_hok pkt"
  then show "pf_next asFormat (header_states 6 (length pkt)) (pkt @ [b]) (length pkt) (length pkt)
      = Some (if as_hok (pkt @ [b]) then header_states 6 (Suc (length pkt)) else stateSync)"
    using less_6_cases [of "length pkt"]
    by (auto simp: asFormat_def as_next_def next_simps as_hok_def)
next
  fix pkt b
  assume "length pkt + 1 = (6::nat)" "as_hok pkt"
  then show "pf_next asFormat (header_states 6 (length pkt)) (pkt @ [b]) (length pkt) (length pkt)
      = Some (if as_hok (pkt @ [b]) then 6 + (ubx_total (pkt @ [b]) - 6) else stateSync)"
    by (auto simp: asFormat_def as_next_def next_simps as_hok_def ubx_total_def le16_def)
qed (auto simp: asFormat_def as_next_def next_simps as_hok_def ubx_total_def as_extractChecksum_def
    as_computeChecksum_def split: prod.splits)

lemma as_complete_iff: "complete asFormat pkt \<longleftrightarrow>
    8 \<le> length pkt \<and> pkt ! 0 = 0xF1 \<and> pkt ! 1 = 0xD9 \<and> length pkt = 8 + le16 (pkt ! 4) (pkt ! 5)"
  unfolding allystar.complete_iff by (auto simp: as_hok_def ubx_total_def)

section \<open>SDBP\<close>

definition sdbp_next :: "nat \<Rightarrow> bytes \<Rightarrow> nat \<Rightarrow> nat \<Rightarrow> nat option" where
  "sdbp_next st buf i packetLen = do {
     b \<leftarrow> idx buf i;
     if st = stateSync then Some (if b = 0x23 then 1 else stateSync)
     else if st = 1 then Some (if b = 0x3E then 2 else stateSync)
     else if st = 2 then Some 3
     else if st = 3 then Some 4
     else if st = 4 then Some 5
     else if st = 5 then do {
       p \<leftarrow> idx_back buf i 1;
       let payloadLen = unat p + unat b * 0x100;
       Some (6 + payloadLen + 2) }
     else Some (if 6 < st then st - 1 else stateSync) }"

definition sdbp_extractChecksum :: "bytes \<Rightarrow> bytes option" where
  "sdbp_extractChecksum pkt = last_n pkt 2"

definition sdbp_computeChecksum :: "bytes \<Rightarrow> bytes option" where
  "sdbp_computeChecksum pkt = do {
     body \<leftarrow> but_last_n pkt 2 2;
     let (ckA, ckB) = sdbp_checksum body;
     Some [ckA, ckB] }"

definition sdbpFormat :: packet_format where
  "sdbpFormat = \<lparr> pf_tag = ''SDBP'', pf_isBinary = True, pf_next = sdbp_next,
     pf_isFinal = (\<lambda>st. st = 6), pf_extractChecksum = sdbp_extractChecksum,
     pf_computeChecksum = sdbp_computeChecksum, pf_rescanOnBadChecksum = (\<lambda>_ _. Some False) \<rparr>"

definition sdbp_hok :: "bytes \<Rightarrow> bool" where
  "sdbp_hok pkt \<longleftrightarrow> pkt ! 0 = 0x23 \<and> (2 \<le> length pkt \<longrightarrow> pkt ! 1 = 0x3E)"

interpretation sdbp: countdown_format sdbpFormat 6 "header_states 6" 6 sdbp_hok ubx_total
proof unfold_locales
  fix i pl st and buf :: bytes
  assume "i < length buf" "pl \<le> i" "st = stateSync \<or> 0 < pl"
  then show "pf_next sdbpFormat st buf i pl = pf_next sdbpFormat st (take (Suc pl) (drop (i - pl) buf)) pl pl"
    by (auto simp: sdbpFormat_def sdbp_next_def idx_back_def)
next
  fix pkt b
  assume "pkt \<noteq> []" "length pkt + 1 < (6::nat)" "sdbp_hok pkt"
  then show "pf_next sdbpFormat (header_states 6 (length pkt)) (pkt @ [b]) (length pkt) (length pkt)
      = Some (if sdbp_hok (pkt @ [b]) then header_states 6 (Suc (length pkt)) else stateSync)"
    using less_6_cases [of "length pkt"]
    by (auto simp: sdbpFormat_def sdbp_next_def next_simps sdbp_hok_def)
next
  fix pkt b
  assume "length pkt + 1 = (6::nat)" "sdbp_hok pkt"
  then show "pf_next sdbpFormat (header_states 6 (length pkt)) (pkt @ [b]) (length pkt) (length pkt)
      = Some (if sdbp_hok (pkt @ [b]) then 6 + (ubx_total (pkt @ [b]) - 6) else stateSync)"
    by (auto simp: sdbpFormat_def sdbp_next_def next_simps sdbp_hok_def ubx_total_def le16_def)
qed (auto simp: sdbpFormat_def sdbp_next_def next_simps sdbp_hok_def ubx_total_def
    sdbp_extractChecksum_def sdbp_computeChecksum_def split: prod.splits)

lemma sdbp_complete_iff: "complete sdbpFormat pkt \<longleftrightarrow>
    8 \<le> length pkt \<and> pkt ! 0 = 0x23 \<and> pkt ! 1 = 0x3E \<and> length pkt = 8 + le16 (pkt ! 4) (pkt ! 5)"
  unfolding sdbp.complete_iff by (auto simp: sdbp_hok_def ubx_total_def)

section \<open>CASIC\<close>

definition le_bytes16 :: "16 word \<Rightarrow> bytes" where
  "le_bytes16 w = [ucast w, ucast (drop_bit 8 w)]"

definition le_bytes32 :: "32 word \<Rightarrow> bytes" where
  "le_bytes32 w = [ucast w, ucast (drop_bit 8 w), ucast (drop_bit 16 w), ucast (drop_bit 24 w)]"

definition casic_next :: "nat \<Rightarrow> bytes \<Rightarrow> nat \<Rightarrow> nat \<Rightarrow> nat option" where
  "casic_next st buf i packetLen = do {
     b \<leftarrow> idx buf i;
     if st = stateSync then Some (if b = 0xBA then 1 else stateSync)
     else if st = 1 then Some (if b = 0xCE then 2 else stateSync)
     else if st = 2 then Some 3
     else if st = 3 then do {
       p \<leftarrow> idx_back buf i 1;
       let payloadLen = unat p + unat b * 0x100;
       Some (4 + payloadLen + 2 + 4) }
     else Some (if 4 < st then st - 1 else stateSync) }"

definition casic_extractChecksum :: "bytes \<Rightarrow> bytes option" where
  "casic_extractChecksum pkt = last_n pkt 4"

definition casic_computeChecksum :: "bytes \<Rightarrow> bytes option" where
  "casic_computeChecksum pkt = do {
     body \<leftarrow> but_last_n pkt 0 4;
     Some (le_bytes32 (casic_checksum body)) }"

definition casicFormat :: packet_format where
  "casicFormat = \<lparr> pf_tag = ''CASBIN'', pf_isBinary = True, pf_next = casic_next,
     pf_isFinal = (\<lambda>st. st = 4), pf_extractChecksum = casic_extractChecksum,
     pf_computeChecksum = casic_computeChecksum, pf_rescanOnBadChecksum = (\<lambda>_ _. Some False) \<rparr>"

definition casic_hok :: "bytes \<Rightarrow> bool" where
  "casic_hok pkt \<longleftrightarrow> pkt ! 0 = 0xBA \<and> (2 \<le> length pkt \<longrightarrow> pkt ! 1 = 0xCE)"

definition casic_total :: "bytes \<Rightarrow> nat" where
  "casic_total pkt = 10 + le16 (pkt ! 2) (pkt ! 3)"

interpretation casic: countdown_format casicFormat 4 "header_states 4" 4 casic_hok casic_total
proof unfold_locales
  fix i pl st and buf :: bytes
  assume "i < length buf" "pl \<le> i" "st = stateSync \<or> 0 < pl"
  then show "pf_next casicFormat st buf i pl = pf_next casicFormat st (take (Suc pl) (drop (i - pl) buf)) pl pl"
    by (auto simp: casicFormat_def casic_next_def idx_back_def)
next
  fix pkt b
  assume a: "pkt \<noteq> []" "length pkt + 1 < (4::nat)" "casic_hok pkt"
  then have "0 < length pkt" by simp
  with a have "length pkt = 1 \<or> length pkt = 2" by arith
  with a show "pf_next casicFormat (header_states 4 (length pkt)) (pkt @ [b]) (length pkt) (length pkt)
      = Some (if casic_hok (pkt @ [b]) then header_states 4 (Suc (length pkt)) else stateSync)"
    by (auto simp: casicFormat_def casic_next_def next_simps casic_hok_def)
next
  fix pkt b
  assume "length pkt + 1 = (4::nat)" "casic_hok pkt"
  then show "pf_next casicFormat (header_states 4 (length pkt)) (pkt @ [b]) (length pkt) (length pkt)
      = Some (if casic_hok (pkt @ [b]) then 4 + (casic_total (pkt @ [b]) - 4) else stateSync)"
    by (auto simp: casicFormat_def casic_next_def next_simps casic_hok_def casic_total_def le16_def)
qed (auto simp: casicFormat_def casic_next_def next_simps casic_hok_def casic_total_def
    casic_extractChecksum_def casic_computeChecksum_def)

lemma casic_complete_iff: "complete casicFormat pkt \<longleftrightarrow>
    10 \<le> length pkt \<and> pkt ! 0 = 0xBA \<and> pkt ! 1 = 0xCE \<and> length pkt = 10 + le16 (pkt ! 2) (pkt ! 3)"
  unfolding casic.complete_iff by (auto simp: casic_hok_def casic_total_def)

section \<open>Septentrio SBF\<close>

definition sbf_next :: "nat \<Rightarrow> bytes \<Rightarrow> nat \<Rightarrow> nat \<Rightarrow> nat option" where
  "sbf_next st buf i packetLen = do {
     b \<leftarrow> idx buf i;
     if st = stateSync then Some (if b = 0x24 then 1 else stateSync)
     else if st = 1 then
       (if packetLen = 1 then Some (if b = 0x40 then 1 else stateSync)
        else if packetLen = 7 then do {
          p \<leftarrow> idx_back buf i 1;
          let len = int (unat p) OR push_bit 8 (int (unat b));
          let bodyLen = len - 8;
          Some (if 0 < bodyLen \<and> go_mod bodyLen 4 = 0 then nat (2 + bodyLen) else stateSync) }
        else Some 1)
     else Some (if 2 < st then st - 1 else stateSync) }"

definition sbf_extractChecksum :: "bytes \<Rightarrow> bytes option" where
  "sbf_extractChecksum pkt = subslice pkt 2 4"

definition sbf_computeChecksum :: "bytes \<Rightarrow> bytes option" where
  "sbf_computeChecksum pkt = do {
     body \<leftarrow> but_last_n pkt 4 0;
     Some (le_bytes16 (sbf_crc16 body)) }"

definition sbfFormat :: packet_format where
  "sbfFormat = \<lparr> pf_tag = ''SBF'', pf_isBinary = True, pf_next = sbf_next,
     pf_isFinal = (\<lambda>st. st = 2), pf_extractChecksum = sbf_extractChecksum,
     pf_computeChecksum = sbf_computeChecksum, pf_rescanOnBadChecksum = (\<lambda>_ _. Some False) \<rparr>"

definition sbf_total :: "bytes \<Rightarrow> nat" where
  "sbf_total pkt = le16 (pkt ! 6) (pkt ! 7)"

definition sbf_hok :: "bytes \<Rightarrow> bool" where
  "sbf_hok pkt \<longleftrightarrow> pkt ! 0 = 0x24 \<and> (2 \<le> length pkt \<longrightarrow> pkt ! 1 = 0x40)
     \<and> (8 \<le> length pkt \<longrightarrow> 8 < sbf_total pkt \<and> sbf_total pkt mod 4 = 0)"

lemma or_shift_add: "uint (p :: byte) OR push_bit 8 (uint (b :: byte)) = int (le16 p b)"
proof -
  have u: "uint p < 256" "0 \<le> uint p" using uint_lt2p [of p] by simp_all
  have "\<not> (bit (uint p) n \<and> bit (push_bit 8 (uint b)) n)" for n
  proof (cases "8 \<le> n")
    case True
    then show ?thesis using bit_imp_le_length [of p n] by (auto simp: bit_uint_iff)
  next
    case False
    then show ?thesis by (simp add: bit_push_bit_iff)
  qed
  then have "uint p OR push_bit 8 (uint b) = uint p + push_bit 8 (uint b)"
    by (intro disjunctive_add [symmetric]) blast
  then show ?thesis by (simp add: le16_def push_bit_eq_mult)
qed

lemma sbf_len_mod: "8 < n \<Longrightarrow> go_mod (int n - 8) 4 = 0 \<longleftrightarrow> n mod 4 = 0"
  by simp presburger

interpretation sbf: countdown_format sbfFormat 8 "\<lambda>_. 1" 2 sbf_hok sbf_total
proof unfold_locales
  fix i pl st and buf :: bytes
  assume "i < length buf" "pl \<le> i" "st = stateSync \<or> 0 < pl"
  then show "pf_next sbfFormat st buf i pl = pf_next sbfFormat st (take (Suc pl) (drop (i - pl) buf)) pl pl"
    by (auto simp: sbfFormat_def sbf_next_def idx_back_def)
next
  fix pkt b
  assume "length pkt + 1 = (8::nat)" "sbf_hok pkt"
  then show "pf_next sbfFormat 1 (pkt @ [b]) (length pkt) (length pkt)
      = Some (if sbf_hok (pkt @ [b]) then 2 + (sbf_total (pkt @ [b]) - 8) else stateSync)"
    using sbf_len_mod [of "le16 (pkt ! 6) b"]
    by (auto simp: sbfFormat_def sbf_next_def next_simps sbf_hok_def sbf_total_def or_shift_add Let_def)
qed (auto simp: sbfFormat_def sbf_next_def next_simps sbf_hok_def sbf_total_def
    sbf_extractChecksum_def sbf_computeChecksum_def)

lemma sbf_complete_iff: "complete sbfFormat pkt \<longleftrightarrow>
    8 < length pkt \<and> pkt ! 0 = 0x24 \<and> pkt ! 1 = 0x40
      \<and> length pkt = le16 (pkt ! 6) (pkt ! 7) \<and> length pkt mod 4 = 0"
  unfolding sbf.complete_iff by (auto simp: sbf_hok_def sbf_total_def)

section \<open>RTCM 3\<close>

text \<open>
  The CRC-24Q is the function \<^verbatim>\<open>Checksum\<close> of the package \<^verbatim>\<open>github.com/jclark/crc24q\<close>, which
  is not part of the repository: it is the parameter \<open>crc24q\<close>.
\<close>

definition rtcm_checksum :: "(bytes \<Rightarrow> 32 word) \<Rightarrow> bytes \<Rightarrow> bytes" where
  "rtcm_checksum crc24q data = (let c = crc24q data
     in [ucast (drop_bit 16 c), ucast (drop_bit 8 c), ucast c])"

definition rtcm_extractMsgType :: "bytes \<Rightarrow> 16 word" where
  "rtcm_extractMsgType pkt =
     (if length pkt \<le> 6 then 0
      else push_bit 4 (ucast (pkt ! 3)) OR drop_bit 4 (ucast (pkt ! 4)))"

definition commonMsgTypes :: "nat list" where
  "commonMsgTypes = [1001, 1002, 1003, 1004, 1005, 1006, 1007, 1008, 1009, 1010, 1011, 1012,
     1013, 1033, 1074, 1077, 1084, 1087, 1094, 1097, 1104, 1107, 1114, 1117, 1124, 1127,
     1134, 1137, 1230]"

text \<open>\<^verbatim>\<open>sort.Search\<close> of the Go library: the least index in \<open>[i, j)\<close> from which on \<open>f\<close> holds.\<close>

function sort_search :: "(nat \<Rightarrow> bool) \<Rightarrow> nat \<Rightarrow> nat \<Rightarrow> nat" where
  "sort_search f i j =
     (if i < j then
        (let m = (i + j) div 2 in if \<not> f m then sort_search f (m + 1) j else sort_search f i m)
      else i)"
  by pat_completeness auto
termination
  by (relation "measure (\<lambda>(f, i, j). j - i)") auto

declare sort_search.simps [simp del]

lemma sort_search_correct:
  assumes "i \<le> j" and "\<And>a b. a \<le> b \<Longrightarrow> b < j \<Longrightarrow> f a \<Longrightarrow> f b"
  shows "i \<le> sort_search f i j \<and> sort_search f i j \<le> j
     \<and> (\<forall>k. i \<le> k \<and> k < sort_search f i j \<longrightarrow> \<not> f k)
     \<and> (sort_search f i j < j \<longrightarrow> f (sort_search f i j))"
  using assms
proof (induction f i j rule: sort_search.induct)
  case (1 f i j)
  let ?m = "(i + j) div 2"
  show ?case
  proof (cases "i < j")
    case False
    then have "sort_search f i j = i" by (subst sort_search.simps) simp
    with False "1.prems"(1) show ?thesis by auto
  next
    case lt: True
    show ?thesis
    proof (cases "f ?m")
      case True
      have eq: "sort_search f i j = sort_search f i ?m"
        using lt True by (subst sort_search.simps) (simp add: Let_def)
      have m: "i \<le> ?m" "?m < j" using lt by simp_all
      have ih: "i \<le> sort_search f i ?m \<and> sort_search f i ?m \<le> ?m
          \<and> (\<forall>k. i \<le> k \<and> k < sort_search f i ?m \<longrightarrow> \<not> f k)
          \<and> (sort_search f i ?m < ?m \<longrightarrow> f (sort_search f i ?m))"
        by (rule "1.IH"(2) [OF lt refl]) (use True m "1.prems"(2) in auto)
      have "sort_search f i ?m < j" using ih m by linarith
      moreover have "f (sort_search f i ?m)"
        using ih True by (cases "sort_search f i ?m < ?m") (auto simp: order_less_le)
      ultimately show ?thesis unfolding eq using ih by simp
    next
      case False
      have eq: "sort_search f i j = sort_search f (?m + 1) j"
        using lt False by (subst sort_search.simps) (simp add: Let_def)
      have le: "?m + 1 \<le> j" using lt by simp
      have ih: "?m + 1 \<le> sort_search f (?m + 1) j \<and> sort_search f (?m + 1) j \<le> j
          \<and> (\<forall>k. ?m + 1 \<le> k \<and> k < sort_search f (?m + 1) j \<longrightarrow> \<not> f k)
          \<and> (sort_search f (?m + 1) j < j \<longrightarrow> f (sort_search f (?m + 1) j))"
        using "1.IH"(1) [OF lt refl False le "1.prems"(2)] .
      have "\<not> f k" if "k < ?m + 1" for k
      proof
        assume "f k"
        moreover have "k \<le> ?m" using that by simp
        moreover have "?m < j" using lt by linarith
        ultimately show False using False "1.prems"(2) [of k ?m] by simp
      qed
      moreover have "i \<le> ?m + 1" using lt by simp
      ultimately show ?thesis unfolding eq using ih by (meson le_trans not_le)
    qed
  qed
qed

definition isCommonMsgType :: "nat \<Rightarrow> bool" where
  "isCommonMsgType mt =
     (let i = sort_search (\<lambda>i. mt \<le> commonMsgTypes ! i) 0 (length commonMsgTypes)
      in i < length commonMsgTypes \<and> commonMsgTypes ! i = mt)"

definition rtcm_next :: "nat \<Rightarrow> bytes \<Rightarrow> nat \<Rightarrow> nat \<Rightarrow> nat option" where
  "rtcm_next st buf i packetLen = do {
     b \<leftarrow> idx buf i;
     if st = stateSync then Some (if b = 0xD3 then 1 else stateSync)
     else if st = 1 then
       (if packetLen = 2 then do {
          p \<leftarrow> idx_back buf i 1;
          let payloadLen = unat b + unat (p AND 0x3) * 0x100;
          Some (2 + payloadLen + 3) }
        else if packetLen = 1 then Some (if b AND NOT 0x3 = 0 then 1 else stateSync)
        else Some stateSync)
     else Some (if 2 < st then st - 1 else stateSync) }"

definition rtcm_extractChecksum :: "bytes \<Rightarrow> bytes option" where
  "rtcm_extractChecksum pkt = last_n pkt 3"

definition rtcm_computeChecksum :: "(bytes \<Rightarrow> 32 word) \<Rightarrow> bytes \<Rightarrow> bytes option" where
  "rtcm_computeChecksum crc24q pkt = do {
     body \<leftarrow> but_last_n pkt 0 3;
     Some (rtcm_checksum crc24q body) }"

definition rtcm_rescan :: "bool \<Rightarrow> bytes \<Rightarrow> bool option" where
  "rtcm_rescan prevPktValid pkt =
     Some (\<not> prevPktValid \<or> \<not> isCommonMsgType (unat (rtcm_extractMsgType pkt)))"

definition rtcmFormat :: "(bytes \<Rightarrow> 32 word) \<Rightarrow> packet_format" where
  "rtcmFormat crc24q = \<lparr> pf_tag = ''RTCM'', pf_isBinary = True, pf_next = rtcm_next,
     pf_isFinal = (\<lambda>st. st = 2), pf_extractChecksum = rtcm_extractChecksum,
     pf_computeChecksum = rtcm_computeChecksum crc24q, pf_rescanOnBadChecksum = rtcm_rescan \<rparr>"

definition rtcm_hok :: "bytes \<Rightarrow> bool" where
  "rtcm_hok pkt \<longleftrightarrow> pkt ! 0 = 0xD3 \<and> (2 \<le> length pkt \<longrightarrow> pkt ! 1 AND NOT 0x3 = 0)"

definition rtcm_total :: "bytes \<Rightarrow> nat" where
  "rtcm_total pkt = 6 + (unat (pkt ! 2) + unat (pkt ! 1 AND 0x3) * 0x100)"

interpretation rtcm: countdown_format "rtcmFormat crc24q" 3 "\<lambda>_. 1" 2 rtcm_hok rtcm_total for crc24q
proof unfold_locales
  fix i pl st and buf :: bytes
  assume "i < length buf" "pl \<le> i" "st = stateSync \<or> 0 < pl"
  then show "pf_next (rtcmFormat crc24q) st buf i pl
      = pf_next (rtcmFormat crc24q) st (take (Suc pl) (drop (i - pl) buf)) pl pl"
    by (auto simp: rtcmFormat_def rtcm_next_def idx_back_def Suc_diff_Suc numeral_2_eq_2)
next
  fix pkt b
  assume a: "pkt \<noteq> []" "length pkt + 1 < (3::nat)" "rtcm_hok pkt"
  then have "0 < length pkt" by simp
  with a have "length pkt = 1" by arith
  with a show "pf_next (rtcmFormat crc24q) 1 (pkt @ [b]) (length pkt) (length pkt)
      = Some (if rtcm_hok (pkt @ [b]) then 1 else stateSync)"
    by (auto simp: rtcmFormat_def rtcm_next_def next_simps rtcm_hok_def)
qed (auto simp: rtcmFormat_def rtcm_next_def next_simps rtcm_hok_def rtcm_total_def
    rtcm_extractChecksum_def rtcm_computeChecksum_def rtcm_rescan_def)

lemma rtcm_complete_iff: "complete (rtcmFormat crc24q) pkt \<longleftrightarrow>
    6 \<le> length pkt \<and> pkt ! 0 = 0xD3 \<and> pkt ! 1 AND NOT 0x3 = 0
      \<and> length pkt = 6 + (unat (pkt ! 2) + unat (pkt ! 1 AND 0x3) * 0x100)"
  unfolding rtcm.complete_iff by (auto simp: rtcm_hok_def rtcm_total_def)

lemma isCommonMsgType_iff: "isCommonMsgType mt \<longleftrightarrow> mt \<in> set commonMsgTypes"
proof -
  have sorted: "sorted commonMsgTypes" by (simp add: commonMsgTypes_def)
  let ?n = "length commonMsgTypes" and ?f = "\<lambda>i. mt \<le> commonMsgTypes ! i"
  have mono: "?f b" if "a \<le> b" "b < ?n" "?f a" for a b
    using that sorted_nth_mono [OF sorted, of a b] by simp
  let ?i = "sort_search ?f 0 ?n"
  have r: "?i \<le> ?n" "\<And>k. k < ?i \<Longrightarrow> \<not> ?f k" "?i < ?n \<Longrightarrow> ?f ?i"
    using sort_search_correct [of 0 ?n ?f] mono by blast+
  have "?i < ?n \<and> commonMsgTypes ! ?i = mt" if mem: "mt \<in> set commonMsgTypes"
  proof -
    from mem obtain k where k: "k < ?n" "commonMsgTypes ! k = mt" by (metis in_set_conv_nth)
    then have le: "?i \<le> k" using r(2) [of k] by (meson le_refl not_le)
    with k have "?i < ?n" by simp
    moreover from this have "mt \<le> commonMsgTypes ! ?i" by (rule r(3))
    moreover have "commonMsgTypes ! ?i \<le> mt" using sorted_nth_mono [OF sorted le] k by simp
    ultimately show ?thesis by simp
  qed
  then show ?thesis unfolding isCommonMsgType_def Let_def by (metis nth_mem)
qed

section \<open>NovAtel and Unicore binary\<close>

definition novb_next :: "nat \<Rightarrow> bytes \<Rightarrow> nat \<Rightarrow> nat \<Rightarrow> nat option" where
  "novb_next st buf i packetLen = do {
     b \<leftarrow> idx buf i;
     if st = stateSync then Some (if b = 0xAA then 1 else stateSync)
     else if st = 1 then
       (if packetLen = 1 then Some (if b = 0x44 then 1 else stateSync)
        else if packetLen = 2 then Some (if b = 0x12 then 1 else stateSync)
        else if packetLen = 8 + 2 then do {
          packetStart \<leftarrow> sub_idx i packetLen;
          hl \<leftarrow> idx buf (packetStart + 3);
          lo \<leftarrow> idx buf (packetStart + 8);
          hi \<leftarrow> idx buf (packetStart + 9);
          let headerLen = int (unat hl);
          let payloadLen = int (le16 lo hi);
          let totalLen = headerLen + payloadLen + 4;
          let remaining = totalLen - (int packetLen + 1);
          Some (if remaining < 0 then stateSync else 2 + nat remaining) }
        else Some 1)
     else Some (if 2 < st then st - 1 else stateSync) }"

definition novb_extractChecksum :: "bytes \<Rightarrow> bytes option" where
  "novb_extractChecksum pkt = last_n pkt 4"

definition novb_computeChecksum :: "bytes \<Rightarrow> bytes option" where
  "novb_computeChecksum pkt = do {
     body \<leftarrow> but_last_n pkt 0 4;
     Some (le_bytes32 (nov_crc32 body)) }"

definition novbFormat :: packet_format where
  "novbFormat = \<lparr> pf_tag = ''NOVB'', pf_isBinary = True, pf_next = novb_next,
     pf_isFinal = (\<lambda>st. st = 2), pf_extractChecksum = novb_extractChecksum,
     pf_computeChecksum = novb_computeChecksum, pf_rescanOnBadChecksum = (\<lambda>_ _. Some False) \<rparr>"

definition novb_total :: "bytes \<Rightarrow> nat" where
  "novb_total pkt = unat (pkt ! 3) + le16 (pkt ! 8) (pkt ! 9) + 4"

definition novb_hok :: "bytes \<Rightarrow> bool" where
  "novb_hok pkt \<longleftrightarrow> pkt ! 0 = 0xAA \<and> (2 \<le> length pkt \<longrightarrow> pkt ! 1 = 0x44)
     \<and> (3 \<le> length pkt \<longrightarrow> pkt ! 2 = 0x12) \<and> (11 \<le> length pkt \<longrightarrow> 11 \<le> novb_total pkt)"

lemma nov_header_cases: "n \<noteq> 1 \<Longrightarrow> n \<noteq> 2 \<Longrightarrow> 0 < n \<Longrightarrow> 3 \<le> (n::nat)"
  by arith

interpretation novb: countdown_format novbFormat 11 "\<lambda>_. 1" 2 novb_hok novb_total
proof unfold_locales
  fix i pl st and buf :: bytes
  assume "i < length buf" "pl \<le> i" "st = stateSync \<or> 0 < pl"
  then show "pf_next novbFormat st buf i pl = pf_next novbFormat st (take (Suc pl) (drop (i - pl) buf)) pl pl"
    by (auto simp: novbFormat_def novb_next_def idx_def Let_def)
next
  fix pkt b
  assume a: "pkt \<noteq> []" "length pkt + 1 < (11::nat)" "novb_hok pkt"
  then have "0 < length pkt" by simp
  with a nov_header_cases [of "length pkt"]
  show "pf_next novbFormat 1 (pkt @ [b]) (length pkt) (length pkt)
      = Some (if novb_hok (pkt @ [b]) then 1 else stateSync)"
    by (auto simp: novbFormat_def novb_next_def next_simps novb_hok_def)
next
  fix pkt b
  assume "length pkt + 1 = (11::nat)" "novb_hok pkt"
  then show "pf_next novbFormat 1 (pkt @ [b]) (length pkt) (length pkt)
      = Some (if novb_hok (pkt @ [b]) then 2 + (novb_total (pkt @ [b]) - 11) else stateSync)"
    by (auto simp: novbFormat_def novb_next_def next_simps novb_hok_def novb_total_def Let_def
        simp del: of_nat_unat)
qed (auto simp: novbFormat_def novb_next_def next_simps novb_hok_def novb_total_def
    novb_extractChecksum_def novb_computeChecksum_def)

lemma novb_complete_iff: "complete novbFormat pkt \<longleftrightarrow>
    11 \<le> length pkt \<and> pkt ! 0 = 0xAA \<and> pkt ! 1 = 0x44 \<and> pkt ! 2 = 0x12
      \<and> length pkt = unat (pkt ! 3) + le16 (pkt ! 8) (pkt ! 9) + 4"
  unfolding novb.complete_iff by (auto simp: novb_hok_def novb_total_def)

definition uncb_next :: "nat \<Rightarrow> bytes \<Rightarrow> nat \<Rightarrow> nat \<Rightarrow> nat option" where
  "uncb_next st buf i packetLen = do {
     b \<leftarrow> idx buf i;
     if st = stateSync then Some (if b = 0xAA then 1 else stateSync)
     else if st = 1 then
       (if packetLen = 1 then Some (if b = 0x44 then 1 else stateSync)
        else if packetLen = 2 then Some (if b = 0xB5 then 1 else stateSync)
        else if packetLen = 8 then do {
          packetStart \<leftarrow> sub_idx i packetLen;
          lo \<leftarrow> idx buf (packetStart + 6);
          hi \<leftarrow> idx buf (packetStart + 7);
          let payloadLen = int (le16 lo hi);
          let totalLen = 24 + payloadLen + 4;
          let remaining = totalLen - (int packetLen + 1);
          Some (if remaining < 0 then stateSync else 2 + nat remaining) }
        else Some 1)
     else Some (if 2 < st then st - 1 else stateSync) }"

definition uncb_extractChecksum :: "bytes \<Rightarrow> bytes option" where
  "uncb_extractChecksum pkt = last_n pkt 4"

definition uncb_computeChecksum :: "bytes \<Rightarrow> bytes option" where
  "uncb_computeChecksum pkt = do {
     body \<leftarrow> but_last_n pkt 0 4;
     Some (le_bytes32 (nov_crc32 body)) }"

definition uncbFormat :: packet_format where
  "uncbFormat = \<lparr> pf_tag = ''UNCB'', pf_isBinary = True, pf_next = uncb_next,
     pf_isFinal = (\<lambda>st. st = 2), pf_extractChecksum = uncb_extractChecksum,
     pf_computeChecksum = uncb_computeChecksum, pf_rescanOnBadChecksum = (\<lambda>_ _. Some False) \<rparr>"

definition uncb_total :: "bytes \<Rightarrow> nat" where
  "uncb_total pkt = 28 + le16 (pkt ! 6) (pkt ! 7)"

definition uncb_hok :: "bytes \<Rightarrow> bool" where
  "uncb_hok pkt \<longleftrightarrow> pkt ! 0 = 0xAA \<and> (2 \<le> length pkt \<longrightarrow> pkt ! 1 = 0x44)
     \<and> (3 \<le> length pkt \<longrightarrow> pkt ! 2 = 0xB5)"

interpretation uncb: countdown_format uncbFormat 9 "\<lambda>_. 1" 2 uncb_hok uncb_total
proof unfold_locales
  fix i pl st and buf :: bytes
  assume "i < length buf" "pl \<le> i" "st = stateSync \<or> 0 < pl"
  then show "pf_next uncbFormat st buf i pl = pf_next uncbFormat st (take (Suc pl) (drop (i - pl) buf)) pl pl"
    by (auto simp: uncbFormat_def uncb_next_def idx_def Let_def)
next
  fix pkt b
  assume a: "pkt \<noteq> []" "length pkt + 1 < (9::nat)" "uncb_hok pkt"
  then have "0 < length pkt" by simp
  with a nov_header_cases [of "length pkt"]
  show "pf_next uncbFormat 1 (pkt @ [b]) (length pkt) (length pkt)
      = Some (if uncb_hok (pkt @ [b]) then 1 else stateSync)"
    by (auto simp: uncbFormat_def uncb_next_def next_simps uncb_hok_def)
next
  fix pkt b
  assume "length pkt + 1 = (9::nat)" "uncb_hok pkt"
  then show "pf_next uncbFormat 1 (pkt @ [b]) (length pkt) (length pkt)
      = Some (if uncb_hok (pkt @ [b]) then 2 + (uncb_total (pkt @ [b]) - 9) else stateSync)"
    by (auto simp: uncbFormat_def uncb_next_def next_simps uncb_hok_def uncb_total_def Let_def
        simp del: of_nat_unat)
qed (auto simp: uncbFormat_def uncb_next_def next_simps uncb_hok_def uncb_total_def
    uncb_extractChecksum_def uncb_computeChecksum_def)

lemma uncb_complete_iff: "complete uncbFormat pkt \<longleftrightarrow>
    28 \<le> length pkt \<and> pkt ! 0 = 0xAA \<and> pkt ! 1 = 0x44 \<and> pkt ! 2 = 0xB5
      \<and> length pkt = 28 + le16 (pkt ! 6) (pkt ! 7)"
  unfolding uncb.complete_iff by (auto simp: uncb_hok_def uncb_total_def)

end
