(* ===== verification/Registry.thy ===== *)
theory Registry
  imports BinFormats TextFormats ScannerCorrect
begin

text \<open>
  The registry of packet formats, \<^verbatim>\<open>gps/gpsreg/reg.go\<close>: the vendors, the formats each is known to
  use, and \<^verbatim>\<open>CreatePacketFormats\<close>, whose result is what the program scans with. The function of
  \<^verbatim>\<open>github.com/jclark/crc24q\<close> that the RTCM format calls is a parameter. The interpretation at the
  end is the contract of the scanner for every list of vendors.
\<close>

datatype vendor = VendorOther | VendorAllystar | VendorBynav | VendorFuruno | VendorMediaTek
  | VendorNovAtel | VendorQuectel | VendorSeptentrio | VendorSinoGNSS | VendorSkyTraq
  | VendorTechtotop | VendorTrimble | VendorUblox | VendorUnicore | VendorZhongke

definition allVendors :: "vendor list" where
  "allVendors = [VendorOther, VendorAllystar, VendorBynav, VendorFuruno, VendorMediaTek,
     VendorNovAtel, VendorQuectel, VendorSeptentrio, VendorSinoGNSS, VendorSkyTraq,
     VendorTechtotop, VendorTrimble, VendorUblox, VendorUnicore, VendorZhongke]"

definition allVendorPacketFormats :: "packet_format list" where
  "allVendorPacketFormats = [ubxFormat, casicFormat, asFormat, sdbpFormat, uncbFormat, uncaFormat,
     novbFormat, novaFormat, novaaFormat, sbfFormat, septrFormat]"

fun allVendorPacketFormatsMap :: "vendor \<Rightarrow> packet_format list" where
  "allVendorPacketFormatsMap VendorAllystar = [asFormat]"
| "allVendorPacketFormatsMap VendorBynav = [novbFormat, novaFormat, novaaFormat]"
| "allVendorPacketFormatsMap VendorNovAtel = [novbFormat, novaFormat, novaaFormat]"
| "allVendorPacketFormatsMap VendorSeptentrio = [sbfFormat, septrFormat]"
| "allVendorPacketFormatsMap VendorSinoGNSS = [novbFormat, novaFormat, novaaFormat]"
| "allVendorPacketFormatsMap VendorTechtotop = [sdbpFormat]"
| "allVendorPacketFormatsMap VendorUblox = [ubxFormat]"
| "allVendorPacketFormatsMap VendorUnicore = [uncbFormat, uncaFormat, novbFormat, novaFormat, novaaFormat]"
| "allVendorPacketFormatsMap VendorZhongke = [casicFormat]"
| "allVendorPacketFormatsMap _ = []"

definition createPacketFormats :: "(bytes \<Rightarrow> 32 word) \<Rightarrow> vendor list \<Rightarrow> packet_format list" where
  "createPacketFormats crc24q vendors =
     (let vendors = (if vendors = [] then allVendors else vendors);
          tags = concat (map (\<lambda>v. map pf_tag (allVendorPacketFormatsMap v)) vendors)
      in [nmeaFormat, rtcmFormat crc24q] @ filter (\<lambda>f. pf_tag f \<in> set tags) allVendorPacketFormats)"

lemma format_laws:
  "packet_format_laws nmeaFormat" "packet_format_laws (rtcmFormat crc24q)"
  "f \<in> set allVendorPacketFormats \<Longrightarrow> packet_format_laws f"
proof -
  show "packet_format_laws nmeaFormat" by (rule nmea.packet_format_laws_axioms)
  show "packet_format_laws (rtcmFormat crc24q)" by (rule rtcm.packet_format_laws_axioms)
  show "f \<in> set allVendorPacketFormats \<Longrightarrow> packet_format_laws f"
    unfolding allVendorPacketFormats_def
    by (auto intro: ubx.packet_format_laws_axioms casic.packet_format_laws_axioms
        allystar.packet_format_laws_axioms sdbp.packet_format_laws_axioms uncb.packet_format_laws_axioms
        unca.packet_format_laws_axioms novb.packet_format_laws_axioms nova.packet_format_laws_axioms
        novaa.packet_format_laws_axioms sbf.packet_format_laws_axioms septr.packet_format_laws_axioms)
qed

interpretation registry: scanner_formats "createPacketFormats crc24q vendors" for crc24q vendors
  by (rule scanner_formats.intro) (auto simp: createPacketFormats_def Let_def intro: format_laws)

text \<open>The tags are distinct, so a tag names one format.\<close>

lemma format_tags: "map pf_tag allVendorPacketFormats =
    [''UBX'', ''CASBIN'', ''ASBIN'', ''SDBP'', ''UNCB'', ''UNCA'', ''NOVB'', ''NOVA'', ''NOVAA'', ''SBF'', ''SEPTR'']"
  by (simp add: allVendorPacketFormats_def ubxFormat_def casicFormat_def asFormat_def sdbpFormat_def
      uncbFormat_def uncaFormat_def novbFormat_def novaFormat_def novaaFormat_def sbfFormat_def
      septrFormat_def makeNovAsciiFormat_def)

lemma format_tag_inj: "f \<in> set allVendorPacketFormats \<Longrightarrow> g \<in> set allVendorPacketFormats \<Longrightarrow> pf_tag f = pf_tag g \<Longrightarrow> f = g"
proof -
  have "distinct (map pf_tag allVendorPacketFormats)" unfolding format_tags by simp
  then show "f \<in> set allVendorPacketFormats \<Longrightarrow> g \<in> set allVendorPacketFormats \<Longrightarrow> pf_tag f = pf_tag g \<Longrightarrow> f = g"
    by (auto simp: distinct_map inj_on_def)
qed

lemma vendor_formats_listed: "set (allVendorPacketFormatsMap v) \<subseteq> set allVendorPacketFormats"
  by (cases v) (simp_all add: allVendorPacketFormats_def)

lemma createPacketFormats_all: "createPacketFormats crc24q [] = [nmeaFormat, rtcmFormat crc24q] @ allVendorPacketFormats"
proof -
  have "f \<in> set allVendorPacketFormats \<Longrightarrow>
      pf_tag f \<in> set (concat (map (\<lambda>v. map pf_tag (allVendorPacketFormatsMap v)) allVendors))" for f
    by (auto simp: allVendorPacketFormats_def allVendors_def)
  then show ?thesis by (simp add: createPacketFormats_def Let_def)
qed

lemma createPacketFormats_set:
  assumes "vendors \<noteq> []"
  shows "set (createPacketFormats crc24q vendors) = {nmeaFormat, rtcmFormat crc24q} \<union> (\<Union>v \<in> set vendors. set (allVendorPacketFormatsMap v))"
proof -
  have "f \<in> set allVendorPacketFormats \<and> (\<exists>v \<in> set vendors. \<exists>g \<in> set (allVendorPacketFormatsMap v). pf_tag f = pf_tag g)
      \<longleftrightarrow> (\<exists>v \<in> set vendors. f \<in> set (allVendorPacketFormatsMap v))" for f
  proof
    assume "f \<in> set allVendorPacketFormats \<and> (\<exists>v \<in> set vendors. \<exists>g \<in> set (allVendorPacketFormatsMap v). pf_tag f = pf_tag g)"
    then obtain v g where v: "v \<in> set vendors" "g \<in> set (allVendorPacketFormatsMap v)" "pf_tag f = pf_tag g"
      "f \<in> set allVendorPacketFormats" by blast
    moreover from this have "f = g" using vendor_formats_listed by (intro format_tag_inj) auto
    ultimately show "\<exists>v \<in> set vendors. f \<in> set (allVendorPacketFormatsMap v)" by blast
  next
    assume "\<exists>v \<in> set vendors. f \<in> set (allVendorPacketFormatsMap v)"
    then show "f \<in> set allVendorPacketFormats \<and> (\<exists>v \<in> set vendors. \<exists>g \<in> set (allVendorPacketFormatsMap v). pf_tag f = pf_tag g)"
      using vendor_formats_listed by blast
  qed
  then show ?thesis
    using assms by (simp add: createPacketFormats_def Let_def image_iff Bex_def set_eq_iff) blast
qed

end
