(* ===== verification/BitsEnc.thy ===== *)
theory BitsEnc
  imports Prelude
begin

text \<open>
  The bit reader and writer of \<^verbatim>\<open>gps/lib/bitsenc\<close>: \<^verbatim>\<open>Reader.Uint\<close>, \<^verbatim>\<open>Reader.Int\<close>,
  \<^verbatim>\<open>Writer.PutUint\<close>, \<^verbatim>\<open>PutInt\<close>, \<^verbatim>\<open>PutBool\<close> and \<^verbatim>\<open>Bytes\<close>. A struct is read or written by
  reflection field by field; here it is the list of its fields' widths. A read error (past
  the end, or a bad width) is \<open>None\<close>; so is the writer's panic on a bad width.

  \<open>bitat\<close> is the bit string a buffer stands for, most significant bit of each byte first. The
  writer appends to it exactly the low bits of the value and leaves the rest alone, the reader
  takes them back: reading the widths that were written gives the values that were written.
\<close>

record bit_reader =
  br_data :: bytes
  br_pos :: nat

record bit_writer =
  bw_buf :: bytes
  bw_pos :: nat

definition newReader :: "bytes \<Rightarrow> bit_reader" where
  "newReader data = \<lparr> br_data = data, br_pos = 0 \<rparr>"

definition read_bits :: "bytes \<Rightarrow> nat \<Rightarrow> nat \<Rightarrow> 64 word" where
  "read_bits data pos n = fold (\<lambda>i v.
     let byteIdx = (pos + i) div 8;
         bitIdx = 7 - (pos + i) mod 8
     in push_bit 1 v OR ucast (drop_bit bitIdx (data ! byteIdx) AND 1)) [0..<n] 0"

definition reader_uint :: "bit_reader \<Rightarrow> nat \<Rightarrow> (64 word \<times> bit_reader) option" where
  "reader_uint r n =
     (if n = 0 \<or> 64 < n then None
      else if length (br_data r) < (br_pos r + n + 7) div 8 then None
      else Some (read_bits (br_data r) (br_pos r) n, r \<lparr> br_pos := br_pos r + n \<rparr>))"

definition signExtend :: "64 word \<Rightarrow> nat \<Rightarrow> 64 word" where
  "signExtend v n = (if n < 64 \<and> drop_bit (n - 1) v AND 1 = 1 then v OR push_bit n (NOT 0) else v)"

definition reader_int :: "bit_reader \<Rightarrow> nat \<Rightarrow> (64 word \<times> bit_reader) option" where
  "reader_int r n = do { (v, r') \<leftarrow> reader_uint r n; Some (signExtend v n, r') }"

text \<open>The fields of a struct, in order.\<close>

fun read_fields :: "bit_reader \<Rightarrow> nat list \<Rightarrow> (64 word list \<times> bit_reader) option" where
  "read_fields r [] = Some ([], r)"
| "read_fields r (n # ns) = do {
     (v, r') \<leftarrow> reader_uint r n;
     (vs, r'') \<leftarrow> read_fields r' ns;
     Some (v # vs, r'') }"

definition newWriter :: "bytes \<Rightarrow> bit_writer" where
  "newWriter buf = \<lparr> bw_buf = buf, bw_pos = length buf * 8 \<rparr>"

definition grow_to :: "nat \<Rightarrow> bytes \<Rightarrow> bytes" where
  "grow_to k buf = buf @ replicate (k - length buf) 0"

definition put_bit :: "nat \<Rightarrow> bool \<Rightarrow> bytes \<Rightarrow> bytes" where
  "put_bit p b buf =
     (let byteIdx = p div 8;
          bitIdx = 7 - p mod 8;
          buf = grow_to (Suc byteIdx) buf
      in if b then buf[byteIdx := buf ! byteIdx OR push_bit bitIdx 1] else buf)"

definition putUint :: "bit_writer \<Rightarrow> 64 word \<Rightarrow> nat \<Rightarrow> bit_writer option" where
  "putUint w v n =
     (if n = 0 \<or> 64 < n then None
      else Some \<lparr> bw_buf = fold (\<lambda>i. put_bit (bw_pos w + i) (drop_bit (n - 1 - i) v AND 1 \<noteq> 0)) [0..<n] (bw_buf w),
                  bw_pos = bw_pos w + n \<rparr>)"

definition putBool :: "bit_writer \<Rightarrow> bool \<Rightarrow> bit_writer option" where
  "putBool w b = (if b then putUint w 1 1 else putUint w 0 1)"

definition writer_bytes :: "bit_writer \<Rightarrow> bytes option" where
  "writer_bytes w = (let need = (bw_pos w + 7) div 8 in subslice (grow_to need (bw_buf w)) 0 need)"

fun write_fields :: "bit_writer \<Rightarrow> (64 word \<times> nat) list \<Rightarrow> bit_writer option" where
  "write_fields w [] = Some w"
| "write_fields w ((v, n) # fs) = do { w' \<leftarrow> putUint w v n; write_fields w' fs }"

section \<open>The bits of a buffer\<close>

definition bitat :: "bytes \<Rightarrow> nat \<Rightarrow> bool" where
  "bitat buf p \<longleftrightarrow> p < 8 * length buf \<and> bit (buf ! (p div 8)) (7 - p mod 8)"

definition writer_ok :: "bytes \<Rightarrow> nat \<Rightarrow> bool" where
  "writer_ok buf pos \<longleftrightarrow> length buf = (pos + 7) div 8 \<and> (\<forall>p \<ge> pos. \<not> bitat buf p)"

lemma and_one_bit: "drop_bit k (w :: 'a::len word) AND 1 \<noteq> 0 \<longleftrightarrow> bit w k"
  by (simp add: bit_iff_odd_drop_bit and_one_eq odd_iff_mod_2_eq_one)

lemma and_one_ucast: "(ucast (drop_bit k (b :: byte) AND 1) :: 64 word) = of_bool (bit b k)"
  by (simp add: bit_iff_odd_drop_bit and_one_eq odd_iff_mod_2_eq_one mod2_eq_if)

lemma bitat_grow: "bitat (grow_to k buf) p \<longleftrightarrow> bitat buf p"
  by (auto simp: bitat_def grow_to_def nth_append less_diff_conv2 split: if_splits)

lemma bit_one_byte: "m < 8 \<Longrightarrow> bit (push_bit m (1 :: byte)) n \<longleftrightarrow> n = m"
  unfolding bit_push_bit_iff by (cases "n = m") (auto simp: bit_1_iff)

lemma put_bit_spec:
  assumes ok: "writer_ok buf q"
  shows "writer_ok (put_bit q b buf) (Suc q)"
    and "bitat (put_bit q b buf) p \<longleftrightarrow> (if p = q then b else bitat buf p)"
proof -
  let ?k = "q div 8"
  have len: "length buf = (q + 7) div 8" using ok by (simp add: writer_ok_def)
  then have glen: "length (grow_to (Suc ?k) buf) = Suc ?k" by (auto simp: grow_to_def)
  have nq: "\<not> bitat (grow_to (Suc ?k) buf) q" using ok by (simp add: bitat_grow writer_ok_def)
  have upd: "bitat (put_bit q b buf) p \<longleftrightarrow> (if p = q then b else bitat buf p)" for p
  proof (cases b)
    case False
    then show ?thesis using nq by (auto simp: put_bit_def Let_def bitat_grow)
  next
    case True
    let ?g = "grow_to (Suc ?k) buf"
    have "bit (?g ! ?k OR push_bit (7 - q mod 8) 1) (7 - p mod 8) \<longleftrightarrow>
        bit (?g ! ?k) (7 - p mod 8) \<or> 7 - p mod 8 = 7 - q mod 8"
      using bit_one_byte [of "7 - q mod 8" "7 - p mod 8"] by (simp add: bit_or_iff del: push_bit_of_1)
    moreover have "7 - p mod 8 = 7 - q mod 8 \<longleftrightarrow> p mod 8 = q mod 8"
      using mod_less_divisor [of 8 p] mod_less_divisor [of 8 q] by arith
    moreover have "p = q \<longleftrightarrow> p div 8 = q div 8 \<and> p mod 8 = q mod 8"
      by (metis div_mult_mod_eq)
    ultimately have "bitat (?g[?k := ?g ! ?k OR push_bit (7 - q mod 8) 1]) p \<longleftrightarrow> p = q \<or> bitat ?g p"
      using glen by (cases "p div 8 = ?k") (simp_all add: bitat_def, linarith)
    with True show ?thesis
      by (auto simp: put_bit_def Let_def bitat_grow simp del: push_bit_of_1)
  qed
  then show "bitat (put_bit q b buf) p \<longleftrightarrow> (if p = q then b else bitat buf p)" .
  have "length (put_bit q b buf) = (Suc q + 7) div 8"
    using glen by (simp add: put_bit_def Let_def)
  with upd ok show "writer_ok (put_bit q b buf) (Suc q)"
    by (auto simp: writer_ok_def)
qed

lemma put_fold_spec:
  assumes "writer_ok buf pos"
  shows "let buf' = fold (\<lambda>i. put_bit (pos + i) (f i)) [0..<m] buf in
    writer_ok buf' (pos + m) \<and> (\<forall>p. bitat buf' p \<longleftrightarrow> (if pos \<le> p \<and> p < pos + m then f (p - pos) else bitat buf p))"
proof (induction m)
  case 0
  with assms show ?case by auto
next
  case (Suc m)
  let ?b = "fold (\<lambda>i. put_bit (pos + i) (f i)) [0..<m] buf"
  from Suc have ok: "writer_ok ?b (pos + m)"
    and at: "bitat ?b p \<longleftrightarrow> (if pos \<le> p \<and> p < pos + m then f (p - pos) else bitat buf p)" for p
    by (simp_all add: Let_def)
  show ?case
    using put_bit_spec [OF ok, of "f m"] by (auto simp: Let_def at less_Suc_eq)
qed

text \<open>What \<^verbatim>\<open>PutUint\<close> does to the bit string.\<close>

lemma putUint_spec:
  assumes "writer_ok (bw_buf w) (bw_pos w)" "0 < n" "n \<le> 64"
  shows "\<exists>w'. putUint w v n = Some w' \<and> bw_pos w' = bw_pos w + n \<and> writer_ok (bw_buf w') (bw_pos w')
    \<and> (\<forall>p. bitat (bw_buf w') p \<longleftrightarrow>
         (if bw_pos w \<le> p \<and> p < bw_pos w + n then bit v (n - 1 - (p - bw_pos w)) else bitat (bw_buf w) p))"
  using put_fold_spec [OF assms(1), of "\<lambda>i. drop_bit (n - 1 - i) v AND 1 \<noteq> 0" n] assms(2,3)
  by (auto simp: putUint_def Let_def and_one_bit)

text \<open>What the reader reads: the value whose bits stand at the position.\<close>

lemma read_bits_bit:
  "m \<le> 64 \<Longrightarrow> pos + m \<le> 8 * length data \<Longrightarrow>
    bit (read_bits data pos m) k \<longleftrightarrow> k < m \<and> bitat data (pos + m - 1 - k)"
proof (induction m arbitrary: k)
  case 0
  then show ?case by (simp add: read_bits_def)
next
  case (Suc m)
  let ?v = "read_bits data pos m"
  have step: "read_bits data pos (Suc m) = push_bit 1 ?v OR of_bool (bit (data ! ((pos + m) div 8)) (7 - (pos + m) mod 8))"
    by (simp add: read_bits_def Let_def and_one_ucast del: push_bit_of_1)
  have new: "bit (data ! ((pos + m) div 8)) (7 - (pos + m) mod 8) = bitat data (pos + m)"
    using Suc.prems by (simp add: bitat_def)
  have "bit (read_bits data pos (Suc m)) k \<longleftrightarrow> (0 < k \<and> k < 64 \<and> bit ?v (k - 1)) \<or> (k = 0 \<and> bitat data (pos + m))"
    unfolding step new bit_or_iff bit_push_bit_iff by (cases k) (auto simp: bit_of_bool_iff)
  also have "\<dots> \<longleftrightarrow> k < Suc m \<and> bitat data (pos + Suc m - 1 - k)"
    using Suc.IH [of "k - 1"] Suc.prems by (cases k) auto
  finally show ?case .
qed

lemma read_bits_eqI:
  assumes "n \<le> 64" "pos + n \<le> 8 * length data"
    and "\<And>p. pos \<le> p \<Longrightarrow> p < pos + n \<Longrightarrow> bitat data p \<longleftrightarrow> bit v (n - 1 - (p - pos))"
  shows "read_bits data pos n = take_bit n v"
proof (rule bit_word_eqI)
  fix k assume "k < LENGTH(64)"
  show "bit (read_bits data pos n) k \<longleftrightarrow> bit (take_bit n v) k"
  proof (cases "k < n")
    case True
    then have "bitat data (pos + n - 1 - k) \<longleftrightarrow> bit v (n - 1 - (pos + n - 1 - k - pos))"
      by (intro assms(3)) auto
    moreover have "n - 1 - (pos + n - 1 - k - pos) = k" using True by simp
    ultimately show ?thesis using True read_bits_bit [OF assms(1,2), of k] by (simp add: bit_take_bit_iff)
  next
    case False
    then show ?thesis using read_bits_bit [OF assms(1,2), of k] by (simp add: bit_take_bit_iff)
  qed
qed

definition reads_at :: "bytes \<Rightarrow> nat \<Rightarrow> (64 word \<times> nat) list \<Rightarrow> bool" where
  "reads_at buf pos fs \<longleftrightarrow>
     read_fields \<lparr> br_data = buf, br_pos = pos \<rparr> (map snd fs)
       = Some (map (\<lambda>(v, n). take_bit n v) fs, \<lparr> br_data = buf, br_pos = pos + sum_list (map snd fs) \<rparr>)"

definition widths_ok :: "(64 word \<times> nat) list \<Rightarrow> bool" where
  "widths_ok fs \<longleftrightarrow> (\<forall>(v, n) \<in> set fs. 0 < n \<and> n \<le> 64)"

lemma reader_uint_at:
  assumes "0 < n" "n \<le> 64" "pos + n \<le> 8 * length data"
    and "\<And>p. pos \<le> p \<Longrightarrow> p < pos + n \<Longrightarrow> bitat data p \<longleftrightarrow> bit v (n - 1 - (p - pos))"
  shows "reader_uint \<lparr> br_data = data, br_pos = pos \<rparr> n = Some (take_bit n v, \<lparr> br_data = data, br_pos = pos + n \<rparr>)"
proof -
  have "(pos + n + 7) div 8 \<le> length data" using assms(3) by simp
  with read_bits_eqI [of n pos data v] assms show ?thesis by (simp add: reader_uint_def)
qed

text \<open>Writing fields and reading them back, in a buffer that may go on after them.\<close>

lemma write_fields_reads:
  assumes "writer_ok (bw_buf w) (bw_pos w)" "widths_ok fs"
  shows "\<exists>w'. write_fields w fs = Some w' \<and> bw_pos w' = bw_pos w + sum_list (map snd fs)
    \<and> writer_ok (bw_buf w') (bw_pos w')
    \<and> (\<forall>p < bw_pos w. bitat (bw_buf w') p = bitat (bw_buf w) p)
    \<and> (\<forall>buf. (\<forall>p < bw_pos w'. bitat buf p = bitat (bw_buf w') p) \<longrightarrow> bw_pos w' \<le> 8 * length buf
         \<longrightarrow> reads_at buf (bw_pos w) fs)"
  using assms
proof (induction fs arbitrary: w)
  case Nil
  then show ?case by (simp add: reads_at_def)
next
  case (Cons f fs)
  obtain v n where f: "f = (v, n)" by (cases f)
  have n: "0 < n" "n \<le> 64" and fs: "widths_ok fs" using Cons.prems f by (auto simp: widths_ok_def)
  from putUint_spec [OF Cons.prems(1) n, of v] obtain w1 where w1: "putUint w v n = Some w1"
    "bw_pos w1 = bw_pos w + n" "writer_ok (bw_buf w1) (bw_pos w1)"
    "\<And>p. bitat (bw_buf w1) p \<longleftrightarrow>
       (if bw_pos w \<le> p \<and> p < bw_pos w + n then bit v (n - 1 - (p - bw_pos w)) else bitat (bw_buf w) p)" by blast
  from Cons.IH [OF w1(3) fs] obtain w2 where w2: "write_fields w1 fs = Some w2"
    "bw_pos w2 = bw_pos w1 + sum_list (map snd fs)" "writer_ok (bw_buf w2) (bw_pos w2)"
    "\<And>p. p < bw_pos w1 \<Longrightarrow> bitat (bw_buf w2) p = bitat (bw_buf w1) p"
    "\<And>buf. (\<forall>p < bw_pos w2. bitat buf p = bitat (bw_buf w2) p) \<Longrightarrow> bw_pos w2 \<le> 8 * length buf
         \<Longrightarrow> reads_at buf (bw_pos w1) fs" by blast
  have "reads_at buf (bw_pos w) (f # fs)"
    if "\<forall>p < bw_pos w2. bitat buf p = bitat (bw_buf w2) p" "bw_pos w2 \<le> 8 * length buf" for buf
  proof -
    have "reader_uint \<lparr> br_data = buf, br_pos = bw_pos w \<rparr> n
        = Some (take_bit n v, \<lparr> br_data = buf, br_pos = bw_pos w + n \<rparr>)"
      using that w1(2,4) w2(2,4) by (intro reader_uint_at n) auto
    with w2(5) [OF that] show ?thesis by (simp add: reads_at_def f w1(2) add.assoc)
  qed
  with w1 w2 show ?case by (simp add: f)
qed

lemma writer_ok_new: "writer_ok [] 0"
  by (simp add: writer_ok_def bitat_def)

lemma writer_bytes_ok: "writer_ok (bw_buf w) (bw_pos w) \<Longrightarrow> writer_bytes w = Some (bw_buf w)"
  by (simp add: writer_bytes_def writer_ok_def grow_to_def)

lemma bitat_append: "bitat (xs @ ys) p \<longleftrightarrow> (if p < 8 * length xs then bitat xs p else bitat ys (p - 8 * length xs))"
proof (cases "p < 8 * length xs")
  case True
  then show ?thesis by (auto simp: bitat_def nth_append)
next
  case False
  then obtain q where p: "p = 8 * length xs + q" by (metis le_Suc_ex not_less)
  have "p div 8 = length xs + q div 8" "p mod 8 = q mod 8" unfolding p by simp_all
  with p show ?thesis by (auto simp: bitat_def nth_append)
qed

text \<open>Sign extension of the \<open>n\<close> low bits.\<close>

lemma and_one_iff: "(w :: 64 word) AND 1 = 1 \<longleftrightarrow> odd w"
  by (simp add: and_one_eq odd_iff_mod_2_eq_one)

lemma signExtend_take_bit:
  assumes "0 < n" "n \<le> 64"
  shows "signExtend (take_bit n v) n = signed_take_bit (n - 1) v"
proof -
  obtain m where n: "n = Suc m" using assms(1) by (cases n) auto
  have m: "m < 64" using assms(2) n by simp
  have top: "drop_bit m (take_bit (Suc m) v) AND 1 = 1 \<longleftrightarrow> bit v m"
    unfolding and_one_iff bit_iff_odd_drop_bit [symmetric] by (simp add: bit_take_bit_iff)
  show ?thesis
  proof (rule bit_word_eqI)
    fix k assume "k < LENGTH(64)"
    then have k: "k < 64" by simp
    have eq: "signExtend (take_bit (Suc m) v) (Suc m)
        = (if Suc m < 64 \<and> bit v m then take_bit (Suc m) v OR push_bit (Suc m) (NOT 0) else take_bit (Suc m) v)"
      using top by (simp add: signExtend_def)
    have pb: "bit (push_bit (Suc m) (NOT 0 :: 64 word)) k \<longleftrightarrow> Suc m \<le> k"
      unfolding bit_push_bit_iff using k by (auto simp: bit_not_iff)
    have split: "bit (if c then x OR y else x) k \<longleftrightarrow> bit x k \<or> c \<and> bit y k" for c and x y :: "64 word"
      by (simp add: bit_or_iff)
    show "bit (signExtend (take_bit n v) n) k \<longleftrightarrow> bit (signed_take_bit (n - 1) v) k"
      unfolding n eq split pb using k m
      by (auto simp: bit_take_bit_iff bit_signed_take_bit_iff min_def less_Suc_eq_le dest: le_antisym)
  qed
qed

end
