(* ===== verification/Wire.thy ===== *)
theory Wire
  imports Prelude
begin

text \<open>
  \<^verbatim>\<open>encoding/binary\<close> as the message packages use it: \<^verbatim>\<open>binary.Read\<close> and \<^verbatim>\<open>binary.Write\<close> of a
  struct, little endian. A Go type is a \<open>wty\<close>: a number of so many bytes, blank padding, an
  array, or a struct with named fields; a value is a number or the sequence of the elements or
  of the fields that are not blank. A boolean is one byte, read as whether it is not zero; a
  float is the bits of its IEEE representation (reflection takes a 32-bit one through 64 bits, which
  changes signalling not-a-numbers only; here all bits are kept). Reading past the end is \<open>None\<close>.
\<close>

datatype kind = Unsigned | Signed | Boolean | Float

datatype wty =
    Prim kind nat
  | Arr nat wty
  | Struct "(string \<times> wty) list"
  | Blank wty

datatype wval = VInt int | VSeq "wval list"

abbreviation uint8 :: wty where "uint8 \<equiv> Prim Unsigned 1"
abbreviation uint16 :: wty where "uint16 \<equiv> Prim Unsigned 2"
abbreviation uint32 :: wty where "uint32 \<equiv> Prim Unsigned 4"
abbreviation uint64 :: wty where "uint64 \<equiv> Prim Unsigned 8"
abbreviation int8 :: wty where "int8 \<equiv> Prim Signed 1"
abbreviation int16 :: wty where "int16 \<equiv> Prim Signed 2"
abbreviation int32 :: wty where "int32 \<equiv> Prim Signed 4"
abbreviation int64 :: wty where "int64 \<equiv> Prim Signed 8"
abbreviation float32 :: wty where "float32 \<equiv> Prim Float 4"
abbreviation float64 :: wty where "float64 \<equiv> Prim Float 8"
abbreviation gobool :: wty where "gobool \<equiv> Prim Boolean 1"

text \<open>\<^verbatim>\<open>binary.Size\<close>.\<close>

fun wsize :: "wty \<Rightarrow> nat" where
  "wsize (Prim k n) = n"
| "wsize (Arr n t) = n * wsize t"
| "wsize (Struct fs) = (\<Sum>(x, t) \<leftarrow> fs. wsize t)"
| "wsize (Blank t) = wsize t"

section \<open>Numbers\<close>

fun le_put :: "nat \<Rightarrow> nat \<Rightarrow> bytes" where
  "le_put 0 x = []"
| "le_put (Suc n) x = word_of_nat (x mod 256) # le_put n (x div 256)"

fun le_get :: "bytes \<Rightarrow> nat" where
  "le_get [] = 0"
| "le_get (b # bs) = unat b + 256 * le_get bs"

lemma length_le_put [simp]: "length (le_put n x) = n"
  by (induction n arbitrary: x) simp_all

lemma le_get_put: "le_get (le_put n x) = x mod 256 ^ n"
proof (induction n arbitrary: x)
  case (Suc n)
  have "unat (word_of_nat (x mod 256) :: byte) = x mod 256" by (simp add: unat_of_nat)
  with Suc show ?case by (simp add: mod_mult2_eq)
qed simp

lemma le_get_lt: "le_get bs < 256 ^ length bs"
proof (induction bs)
  case (Cons b bs)
  have b: "unat b < 256" by simp
  have "le_get bs + 1 \<le> 256 ^ length bs" using Cons by simp
  then have "256 * (le_get bs + 1) \<le> 256 * 256 ^ length bs" by (rule mult_le_mono2)
  moreover have "unat b + 256 * le_get bs < 256 * (le_get bs + 1)" using b by simp
  ultimately have "unat b + 256 * le_get bs < 256 * 256 ^ length bs" by (rule order_less_le_trans [rotated])
  then show ?case by simp
qed simp

definition prim_put :: "kind \<Rightarrow> nat \<Rightarrow> int \<Rightarrow> bytes" where
  "prim_put k n x = le_put n (nat (x mod 256 ^ n))"

definition prim_get :: "kind \<Rightarrow> nat \<Rightarrow> bytes \<Rightarrow> int" where
  "prim_get k n bs =
     (let u = int (le_get bs) in
      case k of
        Signed \<Rightarrow> (if 256 ^ n \<le> 2 * u then u - 256 ^ n else u)
      | Boolean \<Rightarrow> of_bool (u \<noteq> 0)
      | _ \<Rightarrow> u)"

definition prim_ok :: "kind \<Rightarrow> nat \<Rightarrow> int \<Rightarrow> bool" where
  "prim_ok k n x = (case k of
      Signed \<Rightarrow> - (256 ^ n) \<le> 2 * x \<and> 2 * x < 256 ^ n
    | Boolean \<Rightarrow> n = 1 \<and> (x = 0 \<or> x = 1)
    | _ \<Rightarrow> 0 \<le> x \<and> x < 256 ^ n)"

lemma prim_get_put: "prim_ok k n x \<Longrightarrow> prim_get k n (prim_put k n x) = x"
proof -
  assume ok: "prim_ok k n x"
  have p: "(0::int) < 256 ^ n" by simp
  have u: "int (le_get (prim_put k n x)) = x mod 256 ^ n"
    by (simp add: prim_put_def le_get_put)
  show ?thesis
  proof (cases "k = Signed")
    case True
    with ok have r: "- (256 ^ n) \<le> 2 * x" "2 * x < 256 ^ n" by (simp_all add: prim_ok_def)
    show ?thesis
    proof (cases "0 \<le> x")
      case True
      with r p have "x mod 256 ^ n = x" by simp
      with True r u \<open>k = Signed\<close> show ?thesis by (simp add: prim_get_def Let_def)
    next
      case False
      have "x mod 256 ^ n = (x + 256 ^ n) mod 256 ^ n" by simp
      also have "\<dots> = x + 256 ^ n" using False r p by (intro mod_pos_pos_trivial) linarith+
      finally show ?thesis using False r u \<open>k = Signed\<close> by (simp add: prim_get_def Let_def)
    qed
  next
    case False
    with ok have "0 \<le> x" "x < 256 ^ n" by (auto simp: prim_ok_def split: kind.splits)
    then have "x mod 256 ^ n = x" by simp
    with u ok False show ?thesis
      by (cases k) (auto simp: prim_get_def Let_def prim_ok_def)
  qed
qed

section \<open>Read and Write\<close>

function (sequential) wput :: "wty \<Rightarrow> wval \<Rightarrow> bytes option"
  and wput_fields :: "(string \<times> wty) list \<Rightarrow> wval list \<Rightarrow> bytes option"
  and wput_elems :: "nat \<Rightarrow> wty \<Rightarrow> wval list \<Rightarrow> bytes option" where
  "wput (Prim k n) (VInt x) = Some (prim_put k n x)"
| "wput (Arr n t) (VSeq vs) = wput_elems n t vs"
| "wput (Struct fs) (VSeq vs) = wput_fields fs vs"
| "wput _ _ = None"
| "wput_fields [] [] = Some []"
| "wput_fields ((x, Blank t) # fs) vs = do {
     bs \<leftarrow> wput_fields fs vs;
     Some (replicate (wsize t) 0 @ bs) }"
| "wput_fields ((x, t) # fs) (v # vs) = do {
     b \<leftarrow> wput t v;
     bs \<leftarrow> wput_fields fs vs;
     Some (b @ bs) }"
| "wput_fields _ _ = None"
| "wput_elems 0 t [] = Some []"
| "wput_elems (Suc n) t (v # vs) = do {
     b \<leftarrow> wput t v;
     bs \<leftarrow> wput_elems n t vs;
     Some (b @ bs) }"
| "wput_elems _ _ _ = None"
  by pat_completeness auto
termination
  by (relation "measures [\<lambda>p. case p of Inl (t, v) \<Rightarrow> size v
       | Inr (Inl (fs, vs)) \<Rightarrow> size_list size vs | Inr (Inr (n, t, vs)) \<Rightarrow> size_list size vs,
     \<lambda>p. case p of Inr (Inl (fs, vs)) \<Rightarrow> length fs | _ \<Rightarrow> 0]") auto

function (sequential) wget :: "wty \<Rightarrow> bytes \<Rightarrow> (wval \<times> bytes) option"
  and wget_fields :: "(string \<times> wty) list \<Rightarrow> bytes \<Rightarrow> (wval list \<times> bytes) option"
  and wget_elems :: "nat \<Rightarrow> wty \<Rightarrow> bytes \<Rightarrow> (wval list \<times> bytes) option" where
  "wget (Prim k n) bs =
     (if n \<le> length bs then Some (VInt (prim_get k n (take n bs)), drop n bs) else None)"
| "wget (Arr n t) bs = do { (vs, bs) \<leftarrow> wget_elems n t bs; Some (VSeq vs, bs) }"
| "wget (Struct fs) bs = do { (vs, bs) \<leftarrow> wget_fields fs bs; Some (VSeq vs, bs) }"
| "wget (Blank t) bs = (if wsize t \<le> length bs then Some (VSeq [], drop (wsize t) bs) else None)"
| "wget_fields [] bs = Some ([], bs)"
| "wget_fields ((x, Blank t) # fs) bs =
     (if wsize t \<le> length bs then wget_fields fs (drop (wsize t) bs) else None)"
| "wget_fields ((x, t) # fs) bs = do {
     (v, bs) \<leftarrow> wget t bs;
     (vs, bs) \<leftarrow> wget_fields fs bs;
     Some (v # vs, bs) }"
| "wget_elems 0 t bs = Some ([], bs)"
| "wget_elems (Suc n) t bs = do {
     (v, bs) \<leftarrow> wget t bs;
     (vs, bs) \<leftarrow> wget_elems n t bs;
     Some (v # vs, bs) }"
  by pat_completeness auto
termination
  by (relation "measures [\<lambda>p. case p of Inl (t, bs) \<Rightarrow> size t
       | Inr (Inl (fs, bs)) \<Rightarrow> size_list (size_prod (\<lambda>_. 0) size) fs | Inr (Inr (n, t, bs)) \<Rightarrow> size t,
     \<lambda>p. case p of Inr (Inr (n, t, bs)) \<Rightarrow> Suc n | _ \<Rightarrow> 0]") auto

lemma size_elem: "v \<in> set vs \<Longrightarrow> size v < Suc (size_list size vs)"
  by (simp add: less_Suc_eq_le size_list_estimation')

text \<open>A value of a type: what a Go variable of that type can hold.\<close>

function (sequential) has_type :: "wval \<Rightarrow> wty \<Rightarrow> bool" and fields_ok :: "wval list \<Rightarrow> (string \<times> wty) list \<Rightarrow> bool" where
  "has_type (VInt x) (Prim k n) = prim_ok k n x"
| "has_type (VSeq vs) (Arr n t) = (length vs = n \<and> (\<forall>v \<in> set vs. has_type v t))"
| "has_type (VSeq vs) (Struct fs) = fields_ok vs fs"
| "has_type _ _ = False"
| "fields_ok [] [] = True"
| "fields_ok vs ((x, Blank t) # fs) = fields_ok vs fs"
| "fields_ok (v # vs) ((x, t) # fs) = (has_type v t \<and> fields_ok vs fs)"
| "fields_ok _ _ = False"
  by pat_completeness auto
termination
  by (relation "measures [\<lambda>p. case p of Inl (v, t) \<Rightarrow> size v | Inr (vs, fs) \<Rightarrow> size_list size vs,
     \<lambda>p. case p of Inr (vs, fs) \<Rightarrow> length fs | _ \<Rightarrow> 0]")
    (auto simp: size_elem)

text \<open>What was written is read back, and leaves what follows.\<close>

lemma wput_wget:
  "has_type v t \<Longrightarrow> \<exists>bs. wput t v = Some bs \<and> length bs = wsize t \<and> (\<forall>rest. wget t (bs @ rest) = Some (v, rest))"
  "fields_ok vs fs \<Longrightarrow> \<exists>bs. wput_fields fs vs = Some bs \<and> length bs = wsize (Struct fs)
     \<and> (\<forall>rest. wget_fields fs (bs @ rest) = Some (vs, rest))"
proof (induction v t and vs fs rule: has_type_fields_ok.induct)
  case (1 x k n)
  then show ?case using prim_get_put [of k n x] by (simp add: prim_put_def)
next
  case (2 vs n t)
  have "\<forall>v \<in> set ws. has_type v t \<Longrightarrow> set ws \<subseteq> set vs \<Longrightarrow>
      \<exists>bs. wput_elems (length ws) t ws = Some bs \<and> length bs = length ws * wsize t
        \<and> (\<forall>rest. wget_elems (length ws) t (bs @ rest) = Some (ws, rest))" for ws
  proof (induction ws)
    case (Cons w ws)
    from 2(1) [of w] Cons.prems obtain b where
      b: "wput t w = Some b" "length b = wsize t" "\<And>rest. wget t (b @ rest) = Some (w, rest)" by auto
    from Cons obtain bs where "wput_elems (length ws) t ws = Some bs" "length bs = length ws * wsize t"
      "\<And>rest. wget_elems (length ws) t (bs @ rest) = Some (ws, rest)" by auto
    with b show ?case by simp
  qed simp
  with 2 show ?case by fastforce
next
  case (3 vs fs)
  then show ?case by fastforce
qed (auto simp del: wput.simps wget.simps split: if_splits)

text \<open>A field of a struct, by its name.\<close>

fun field_names :: "(string \<times> wty) list \<Rightarrow> string list" where
  "field_names [] = []"
| "field_names ((x, Blank t) # fs) = field_names fs"
| "field_names ((x, t) # fs) = x # field_names fs"

definition field_int :: "wty \<Rightarrow> string \<Rightarrow> wval \<Rightarrow> int" where
  "field_int t x v = (case (t, v) of
      (Struct fs, VSeq vs) \<Rightarrow> (case map_of (zip (field_names fs) vs) x of Some (VInt n) \<Rightarrow> n | _ \<Rightarrow> 0)
    | _ \<Rightarrow> 0)"

section \<open>What a read accepts\<close>

text \<open>A type with blanks only as struct fields, and booleans of one byte.\<close>

fun wty_ok :: "wty \<Rightarrow> bool" and field_ok :: "wty \<Rightarrow> bool" where
  "wty_ok (Prim k n) = (k = Boolean \<longrightarrow> n = 1)"
| "wty_ok (Arr n t) = wty_ok t"
| "wty_ok (Struct fs) = list_all (\<lambda>(x, t). field_ok t) fs"
| "wty_ok (Blank t) = False"
| "field_ok (Blank t) = True"
| "field_ok t = wty_ok t"

lemma prim_ok_get: "length bs = n \<Longrightarrow> (k = Boolean \<longrightarrow> n = 1) \<Longrightarrow> prim_ok k n (prim_get k n bs)"
proof -
  assume n: "length bs = n" "k = Boolean \<longrightarrow> n = 1"
  have "int (le_get bs) < 256 ^ n" using le_get_lt [of bs] n(1) by (metis of_nat_less_iff of_nat_numeral of_nat_power)
  moreover from this have "2 * int (le_get bs) < 3 * 256 ^ n" by linarith
  ultimately show ?thesis using n(2) by (cases k) (auto simp: prim_ok_def prim_get_def Let_def)
qed

lemma field_spec:
  assumes t: "\<forall>u. t \<noteq> Blank u"
    and v: "if wsize t \<le> length bs then \<exists>v. wget t bs = Some (v, drop (wsize t) bs) \<and> has_type v t else wget t bs = None"
    and vs: "\<And>v r. wget t bs = Some (v, r) \<Longrightarrow> if wsize (Struct fs) \<le> length r
      then \<exists>vs. wget_fields fs r = Some (vs, drop (wsize (Struct fs)) r) \<and> fields_ok vs fs
      else wget_fields fs r = None"
  shows "if wsize (Struct ((x, t) # fs)) \<le> length bs
    then \<exists>vs. wget_fields ((x, t) # fs) bs = Some (vs, drop (wsize (Struct ((x, t) # fs))) bs) \<and> fields_ok vs ((x, t) # fs)
    else wget_fields ((x, t) # fs) bs = None"
proof -
  have step: "wget_fields ((x, t) # fs) bs = do { (v, bs) \<leftarrow> wget t bs; (vs, bs) \<leftarrow> wget_fields fs bs; Some (v # vs, bs) }"
    "\<And>v vs. has_type v t \<Longrightarrow> fields_ok vs fs \<Longrightarrow> fields_ok (v # vs) ((x, t) # fs)"
    using t by (cases t; simp)+
  show ?thesis
  proof (cases "wsize t \<le> length bs")
    case False
    with v show ?thesis by (simp add: step(1))
  next
    case True
    with v obtain w where w: "wget t bs = Some (w, drop (wsize t) bs)" "has_type w t" by auto
    show ?thesis
    proof (cases "wsize (Struct fs) \<le> length (drop (wsize t) bs)")
      case False
      then have "\<not> wsize (Struct ((x, t) # fs)) \<le> length bs" using True by simp
      with vs [OF w(1)] w False show ?thesis by (simp only: step(1) if_False) simp
    next
      case fits: True
      with vs [OF w(1)] obtain ws where
        "wget_fields fs (drop (wsize t) bs) = Some (ws, drop (wsize (Struct fs)) (drop (wsize t) bs))" "fields_ok ws fs"
        by auto
      with w step fits True show ?thesis by (simp add: add.commute)
    qed
  qed
qed

text \<open>
  A read of a type succeeds exactly when there are as many bytes as the type has; it takes
  these, and what it reads is a value of the type.
\<close>

lemma wget_spec:
  "wty_ok t \<Longrightarrow> (if wsize t \<le> length bs
      then \<exists>v. wget t bs = Some (v, drop (wsize t) bs) \<and> has_type v t else wget t bs = None)"
  "list_all (\<lambda>(x, t). field_ok t) fs \<Longrightarrow> (if wsize (Struct fs) \<le> length bs
      then \<exists>vs. wget_fields fs bs = Some (vs, drop (wsize (Struct fs)) bs) \<and> fields_ok vs fs
      else wget_fields fs bs = None)"
  "wty_ok t \<Longrightarrow> (if n * wsize t \<le> length bs
      then \<exists>vs. wget_elems n t bs = Some (vs, drop (n * wsize t) bs) \<and> length vs = n \<and> (\<forall>v \<in> set vs. has_type v t)
      else wget_elems n t bs = None)"
proof (induction t bs and fs bs and n t bs rule: wget_wget_fields_wget_elems.induct, goal_cases)
  case (1 k n bs)
  then show ?case using prim_ok_get [of "take n bs" n k] by auto
next
  case (2 n t bs)
  then show ?case by (auto split: if_splits)
next
  case (3 fs bs)
  then show ?case by (auto split: if_splits)
next
  case (6 x t fs bs)
  then show ?case by (auto split: if_splits simp: add.commute)
next
  case (7 x k n fs bs)
  from 7(3) show ?case by (intro field_spec 7(1) 7(2) [OF _ refl]) simp_all
next
  case (8 x n t fs bs)
  from 8(3) show ?case by (intro field_spec 8(1) 8(2) [OF _ refl]) simp_all
next
  case (9 x gs fs bs)
  from 9(3) show ?case by (intro field_spec 9(1) 9(2) [OF _ refl]) simp_all
next
  case (11 n t bs)
  from 11(1) [OF 11(3)] show ?case
  proof (cases "wsize t \<le> length bs")
    case False
    with 11(1) [OF 11(3)] show ?thesis by simp
  next
    case True
    with 11(1) [OF 11(3)] obtain v where v: "wget t bs = Some (v, drop (wsize t) bs)" "has_type v t" by auto
    note IH = 11(2) [OF v(1) refl 11(3)]
    show ?thesis
    proof (cases "n * wsize t \<le> length (drop (wsize t) bs)")
      case True
      with IH v \<open>wsize t \<le> length bs\<close> show ?thesis by (auto simp: add.commute)
    next
      case False
      then have "\<not> Suc n * wsize t \<le> length bs" using \<open>wsize t \<le> length bs\<close> by simp
      with IH v(1) False show ?thesis by (simp only: wget_elems.simps if_False) simp
    qed
  qed
qed auto

lemma wget_None: "wty_ok t \<Longrightarrow> length bs < wsize t \<Longrightarrow> wget t bs = None"
  using wget_spec(1) [of t bs] by simp

lemma wgetE:
  assumes "wty_ok t" "wsize t \<le> length bs"
  obtains v where "wget t bs = Some (v, drop (wsize t) bs)" "has_type v t"
  using wget_spec(1) [OF assms(1), of bs] assms(2) by auto

lemma wget_SomeD: "wty_ok t \<Longrightarrow> wget t bs = Some (v, r) \<Longrightarrow> wsize t \<le> length bs \<and> r = drop (wsize t) bs \<and> has_type v t"
  using wget_spec(1) [of t bs] by (auto split: if_splits)

end
