(* ===== verification/Framing.thy ===== *)
theory Framing
  imports BinFormats Wire
begin

text \<open>
  The message layer of the binary protocols: \<^verbatim>\<open>MsgID\<close>, \<^verbatim>\<open>PackMsg\<close>, \<^verbatim>\<open>PacketMsgId\<close>,
  \<^verbatim>\<open>Serialize\<close> and \<^verbatim>\<open>ParseMsg\<close> of \<^verbatim>\<open>gps/lib/ubxbin\<close>, \<^verbatim>\<open>asbin\<close>, \<^verbatim>\<open>sdbpbin\<close> and \<^verbatim>\<open>casbin\<close>
  (their \<^verbatim>\<open>common.go\<close>). The registered message types, \<^verbatim>\<open>msgMap\<close>, are an argument: each is a
  descriptor with its id and the layout of its payload. What is packed is a packet of the
  protocol's format with a valid checksum, and parsing recovers the message.
\<close>

type_synonym msg_id = "16 word"

datatype frame_error = PayloadTooLong | TooShort | ChecksumFailed | BadPayloadLength | ReadFailed | TrailingBytes

section \<open>Message ids\<close>

definition makeMsgID :: "byte \<Rightarrow> byte \<Rightarrow> msg_id" where
  "makeMsgID cls i = ucast cls OR push_bit 8 (ucast i)"

definition unpackMsgID :: "msg_id \<Rightarrow> byte \<times> byte" where
  "unpackMsgID mid = (ucast (mid AND 0xFF), ucast (drop_bit 8 mid AND 0xFF))"

lemma ff_mask: "(0xFF :: 16 word) = mask 8"
  by (simp add: mask_eq_exp_minus_1)

lemma unpack_make: "unpackMsgID (makeMsgID cls i) = (cls, i)"
proof -
  have "ucast (makeMsgID cls i AND 0xFF) = cls"
    unfolding ff_mask makeMsgID_def
    by (rule bit_word_eqI) (auto simp: bit_ucast_iff bit_and_iff bit_or_iff bit_push_bit_iff bit_mask_iff)
  moreover have "ucast (drop_bit 8 (makeMsgID cls i) AND 0xFF) = i"
    unfolding ff_mask makeMsgID_def
    by (rule bit_word_eqI)
      (auto simp: bit_ucast_iff bit_and_iff bit_or_iff bit_push_bit_iff bit_mask_iff bit_drop_bit_eq dest: bit_imp_le_length)
  ultimately show ?thesis by (simp add: unpackMsgID_def)
qed

lemma make_unpack: "unpackMsgID mid = (cls, i) \<Longrightarrow> makeMsgID cls i = mid"
  unfolding unpackMsgID_def makeMsgID_def ff_mask
  by (auto intro!: bit_word_eqI simp: bit_ucast_iff bit_and_iff bit_or_iff bit_push_bit_iff bit_mask_iff bit_drop_bit_eq)

section \<open>Packing\<close>

definition ubx_packMsg :: "msg_id \<Rightarrow> bytes \<Rightarrow> frame_error + bytes" where
  "ubx_packMsg mid payload =
     (if 0xFFFF < length payload then Inl PayloadTooLong
      else let (cls, i) = unpackMsgID mid;
               packet = [0xB5, 0x62, cls, i, byte_at 0 (length payload), byte_at 1 (length payload)] @ payload;
               (ckA, ckB) = ubx_checksum (drop 2 packet)
           in Inr (packet @ [ckA, ckB]))"

definition as_packMsg :: "msg_id \<Rightarrow> bytes \<Rightarrow> frame_error + bytes" where
  "as_packMsg mid payload =
     (if 0xFFFF < length payload then Inl PayloadTooLong
      else let (cls, i) = unpackMsgID mid;
               packet = [0xF1, 0xD9, cls, i, byte_at 0 (length payload), byte_at 1 (length payload)] @ payload;
               (ckA, ckB) = as_checksum (drop 2 packet)
           in Inr (packet @ [ckA, ckB]))"

definition sdbp_packMsg :: "msg_id \<Rightarrow> bytes \<Rightarrow> frame_error + bytes" where
  "sdbp_packMsg mid payload =
     (if 0xFFFF < length payload then Inl PayloadTooLong
      else let (cls, i) = unpackMsgID mid;
               pkt = [0x23, 0x3E, cls, i, byte_at 0 (length payload), byte_at 1 (length payload)] @ payload;
               (ckA, ckB) = sdbp_checksum (drop 2 pkt)
           in Inr (pkt @ [ckA, ckB]))"

definition casic_packMsg :: "msg_id \<Rightarrow> bytes \<Rightarrow> frame_error + bytes" where
  "casic_packMsg mid payload =
     (if 0xFFFF < length payload then Inl PayloadTooLong
      else let (cls, i) = unpackMsgID mid;
               packet = [0xBA, 0xCE, byte_at 0 (length payload), byte_at 1 (length payload), cls, i] @ payload;
               ck = casic_checksum packet
           in Inr (packet @ le_bytes32 ck))"

text \<open>\<^verbatim>\<open>Poll\<close>: an empty payload never fails.\<close>

definition ubx_poll :: "msg_id \<Rightarrow> bytes" where
  "ubx_poll mid = (case ubx_packMsg mid [] of Inr p \<Rightarrow> p | Inl _ \<Rightarrow> [])"

definition packetMsgId :: "bytes \<Rightarrow> msg_id option" where
  "packetMsgId packet = do { a \<leftarrow> idx packet 2; b \<leftarrow> idx packet 3; Some (makeMsgID a b) }"

definition casic_packetMsgID :: "bytes \<Rightarrow> msg_id option" where
  "casic_packetMsgID packet = do { a \<leftarrow> idx packet 4; b \<leftarrow> idx packet 5; Some (makeMsgID a b) }"

text \<open>\<^verbatim>\<open>AckMsgID\<close>: the id an ACK or NAK packet of any of the four protocols carries.\<close>

definition ackMsgID :: "bytes \<Rightarrow> msg_id option" where
  "ackMsgID pkt = do { a \<leftarrow> idx pkt 6; b \<leftarrow> idx pkt 7; Some (makeMsgID a b) }"

lemma length_le16: "length payload \<le> 0xFFFF \<Longrightarrow> le16 (byte_at 0 (length payload)) (byte_at 1 (length payload)) = length payload"
  using le16_byte_at [of "length payload"] by simp

lemma last_n_append: "length ys = k \<Longrightarrow> last_n (xs @ ys) k = Some ys"
  by auto

lemma but_last_n_append: "length ys = k \<Longrightarrow> but_last_n (xs @ ys) 0 k = Some xs"
  by (auto simp: but_last_n_def)

lemma ubx_pack_packet:
  assumes "ubx_packMsg mid payload = Inr pkt"
  shows "complete ubxFormat pkt" and "ubx_extractChecksum pkt = ubx_computeChecksum pkt"
    and "packetMsgId pkt = Some mid" and "length pkt = 8 + length payload" and "take (length payload) (drop 6 pkt) = payload"
proof -
  obtain cls i where u: "unpackMsgID mid = (cls, i)" by (metis surj_pair)
  let ?h = "[0xB5, 0x62, cls, i, byte_at 0 (length payload), byte_at 1 (length payload)] @ payload"
  obtain a b where ck: "ubx_checksum (drop 2 ?h) = (a, b)" by (metis surj_pair)
  from assms u ck have len: "length payload \<le> 0xFFFF" and pkt: "pkt = ?h @ [a, b]"
    by (auto simp: ubx_packMsg_def Let_def split: if_splits)
  show "complete ubxFormat pkt" unfolding ubx_complete_iff using length_le16 [OF len] by (simp add: pkt)
  show "ubx_extractChecksum pkt = ubx_computeChecksum pkt"
    using ck by (simp add: ubx_extractChecksum_def ubx_computeChecksum_def pkt numeral_2_eq_2)
  show "packetMsgId pkt = Some mid" using make_unpack [OF u] by (simp add: packetMsgId_def pkt)
  show "length pkt = 8 + length payload" "take (length payload) (drop 6 pkt) = payload" by (simp_all add: pkt)
qed

lemma as_pack_packet:
  assumes "as_packMsg mid payload = Inr pkt"
  shows "complete asFormat pkt" and "as_extractChecksum pkt = as_computeChecksum pkt"
    and "packetMsgId pkt = Some mid" and "length pkt = 8 + length payload" and "take (length payload) (drop 6 pkt) = payload"
proof -
  obtain cls i where u: "unpackMsgID mid = (cls, i)" by (metis surj_pair)
  let ?h = "[0xF1, 0xD9, cls, i, byte_at 0 (length payload), byte_at 1 (length payload)] @ payload"
  obtain a b where ck: "as_checksum (drop 2 ?h) = (a, b)" by (metis surj_pair)
  from assms u ck have len: "length payload \<le> 0xFFFF" and pkt: "pkt = ?h @ [a, b]"
    by (auto simp: as_packMsg_def Let_def split: if_splits)
  show "complete asFormat pkt" unfolding as_complete_iff using length_le16 [OF len] by (simp add: pkt)
  show "as_extractChecksum pkt = as_computeChecksum pkt"
    using ck by (simp add: as_extractChecksum_def as_computeChecksum_def pkt numeral_2_eq_2)
  show "packetMsgId pkt = Some mid" using make_unpack [OF u] by (simp add: packetMsgId_def pkt)
  show "length pkt = 8 + length payload" "take (length payload) (drop 6 pkt) = payload" by (simp_all add: pkt)
qed

lemma sdbp_pack_packet:
  assumes "sdbp_packMsg mid payload = Inr pkt"
  shows "complete sdbpFormat pkt" and "sdbp_extractChecksum pkt = sdbp_computeChecksum pkt"
    and "packetMsgId pkt = Some mid" and "length pkt = 8 + length payload" and "take (length payload) (drop 6 pkt) = payload"
proof -
  obtain cls i where u: "unpackMsgID mid = (cls, i)" by (metis surj_pair)
  let ?h = "[0x23, 0x3E, cls, i, byte_at 0 (length payload), byte_at 1 (length payload)] @ payload"
  obtain a b where ck: "sdbp_checksum (drop 2 ?h) = (a, b)" by (metis surj_pair)
  from assms u ck have len: "length payload \<le> 0xFFFF" and pkt: "pkt = ?h @ [a, b]"
    by (auto simp: sdbp_packMsg_def Let_def split: if_splits)
  show "complete sdbpFormat pkt" unfolding sdbp_complete_iff using length_le16 [OF len] by (simp add: pkt)
  show "sdbp_extractChecksum pkt = sdbp_computeChecksum pkt"
    using ck by (simp add: sdbp_extractChecksum_def sdbp_computeChecksum_def pkt numeral_2_eq_2)
  show "packetMsgId pkt = Some mid" using make_unpack [OF u] by (simp add: packetMsgId_def pkt)
  show "length pkt = 8 + length payload" "take (length payload) (drop 6 pkt) = payload" by (simp_all add: pkt)
qed

lemma casic_pack_packet:
  assumes "casic_packMsg mid payload = Inr pkt"
  shows "complete casicFormat pkt" and "casic_extractChecksum pkt = casic_computeChecksum pkt"
    and "casic_packetMsgID pkt = Some mid" and "length pkt = 10 + length payload" and "take (length payload) (drop 6 pkt) = payload"
proof -
  obtain cls i where u: "unpackMsgID mid = (cls, i)" by (metis surj_pair)
  let ?h = "[0xBA, 0xCE, byte_at 0 (length payload), byte_at 1 (length payload), cls, i] @ payload"
  from assms u have len: "length payload \<le> 0xFFFF" and pkt: "pkt = ?h @ le_bytes32 (casic_checksum ?h)"
    by (auto simp: casic_packMsg_def Let_def split: if_splits)
  have l4: "length (le_bytes32 w) = 4" for w by (simp add: le_bytes32_def)
  show "complete casicFormat pkt" unfolding casic_complete_iff using length_le16 [OF len] by (simp add: pkt l4)
  show "casic_extractChecksum pkt = casic_computeChecksum pkt"
    unfolding pkt casic_extractChecksum_def casic_computeChecksum_def last_n_append [OF l4] but_last_n_append [OF l4]
    by simp
  show "casic_packetMsgID pkt = Some mid" using make_unpack [OF u] by (simp add: casic_packetMsgID_def pkt)
  show "length pkt = 10 + length payload" "take (length payload) (drop 6 pkt) = payload" by (simp_all add: pkt l4)
qed

section \<open>Messages\<close>

text \<open>
  A registered message type. \<open>md_fixed\<close> is the layout of its fixed part (\<open>None\<close> for a nil
  \<^verbatim>\<open>FixedPart\<close>); \<open>md_handled\<close> is \<^verbatim>\<open>IsHandled\<close> of a partially handled type; \<open>md_varying\<close>
  is \<^verbatim>\<open>InitVaryingPart\<close> of a varying type: from the payload length and the fixed part, the type
  of the part that follows, or an error.
\<close>

record msg_desc =
  md_name :: string
  md_id :: msg_id
  md_idName :: string
  md_fixed :: "wty option"
  md_handled :: "wval \<Rightarrow> bool"
  md_varying :: "(nat \<Rightarrow> wval \<Rightarrow> wty option) option"
  md_allowTrailing :: bool

datatype bin_msg =
    UnknownMsg msg_id bytes
  | KnownMsg msg_desc wval "(wty \<times> wval) option"

text \<open>\<^verbatim>\<open>sliceLen\<close>: how many elements of so many bytes the payload has after its fixed part.\<close>

definition sliceLen :: "nat \<Rightarrow> nat \<Rightarrow> nat \<Rightarrow> nat option" where
  "sliceLen payloadLen minLen elemLen =
     (let extraLen = int payloadLen - int minLen in
      if extraLen < 0 \<or> go_mod extraLen (int elemLen) \<noteq> 0 then None
      else Some (nat (go_div extraLen (int elemLen))))"

definition slice_of :: "nat \<Rightarrow> nat \<Rightarrow> wty \<Rightarrow> nat \<Rightarrow> wval \<Rightarrow> wty option" where
  "slice_of minLen elemLen elem payloadLen fixed = do { n \<leftarrow> sliceLen payloadLen minLen elemLen; Some (Arr n elem) }"

definition read_fixed :: "msg_desc \<Rightarrow> bytes \<Rightarrow> (wval \<times> bytes) option" where
  "read_fixed d r = (case md_fixed d of None \<Rightarrow> Some (VSeq [], r) | Some t \<Rightarrow> wget t r)"

text \<open>
  What follows the fixed part in the parsers of UBX, CASIC and SDBP: the varying part, and no
  byte after it unless trailing bytes are allowed.
\<close>

definition read_varying :: "bool \<Rightarrow> bytes \<Rightarrow> msg_desc \<Rightarrow> wval \<Rightarrow> bytes \<Rightarrow> frame_error + bin_msg" where
  "read_varying allowTrailing payload d fixed r =
     (case md_varying d of
        None \<Rightarrow> if r = [] \<or> allowTrailing then Inr (KnownMsg d fixed None) else Inl TrailingBytes
      | Some init \<Rightarrow>
          (case init (length payload) fixed of
             None \<Rightarrow> Inl BadPayloadLength
           | Some t \<Rightarrow>
               (case wget t r of
                  None \<Rightarrow> Inl ReadFailed
                | Some (v, r') \<Rightarrow>
                    if r' = [] \<or> allowTrailing then Inr (KnownMsg d fixed (Some (t, v)))
                    else Inl TrailingBytes)))"

text \<open>\<^verbatim>\<open>tryParseMsg\<close>: an error, nothing (the type does not handle the payload), or the message.\<close>

definition tryParseMsg :: "bytes \<Rightarrow> msg_desc \<Rightarrow> frame_error + bin_msg option" where
  "tryParseMsg payload d =
     (case read_fixed d payload of
        None \<Rightarrow> Inl ReadFailed
      | Some (fixed, r) \<Rightarrow>
          if \<not> md_handled d fixed then Inr None
          else (case read_varying False payload d fixed r of Inl e \<Rightarrow> Inl e | Inr m \<Rightarrow> Inr (Some m)))"

fun try_ctors :: "msg_id \<Rightarrow> bytes \<Rightarrow> msg_desc list \<Rightarrow> frame_error + bin_msg" where
  "try_ctors mid payload [] = Inr (UnknownMsg mid payload)"
| "try_ctors mid payload (d # ds) =
     (case tryParseMsg payload d of
        Inl e \<Rightarrow> Inl e
      | Inr (Some m) \<Rightarrow> Inr m
      | Inr None \<Rightarrow> try_ctors mid payload ds)"

definition ubx_parseMsg :: "(msg_id \<Rightarrow> msg_desc list) \<Rightarrow> bytes \<Rightarrow> frame_error + bin_msg" where
  "ubx_parseMsg msgMap packet =
     (let n = length packet in
      if n < 8 then Inl TooShort
      else let trimmed = take (n - 2 - 2) (drop 2 packet);
               mid = makeMsgID (trimmed ! 0) (trimmed ! 1);
               payload = drop 4 trimmed
           in try_ctors mid payload (msgMap mid))"

definition casic_parseMsg :: "(msg_id \<Rightarrow> msg_desc option) \<Rightarrow> bytes \<Rightarrow> frame_error + bin_msg" where
  "casic_parseMsg msgMap packet =
     (let n = length packet in
      if n < 10 then Inl TooShort
      else let mid = makeMsgID (packet ! 4) (packet ! 5);
               payload = take (n - 4 - 6) (drop 6 packet)
           in (case msgMap mid of
                 None \<Rightarrow> Inr (UnknownMsg mid payload)
               | Some d \<Rightarrow>
                   (case read_fixed d payload of
                      None \<Rightarrow> Inl ReadFailed
                    | Some (fixed, r) \<Rightarrow> read_varying (md_allowTrailing d) payload d fixed r)))"

definition sdbp_parseMsg :: "(msg_id \<Rightarrow> msg_desc option) \<Rightarrow> bytes \<Rightarrow> frame_error + bin_msg" where
  "sdbp_parseMsg msgMap packet =
     (let n = length packet in
      if n < 8 then Inl TooShort
      else let trimmed = take (n - 2 - 2) (drop 2 packet);
               (ckA, ckB) = sdbp_checksum trimmed
           in if ckA \<noteq> packet ! (n - 2) \<or> ckB \<noteq> packet ! (n - 2 + 1) then Inl ChecksumFailed
              else let mid = makeMsgID (trimmed ! 0) (trimmed ! 1);
                       payload = drop 4 trimmed
                   in (case msgMap mid of
                         None \<Rightarrow> Inr (UnknownMsg mid payload)
                       | Some d \<Rightarrow>
                           (case read_fixed d payload of
                              None \<Rightarrow> Inl ReadFailed
                            | Some (fixed, r) \<Rightarrow> read_varying False payload d fixed r)))"

text \<open>
  Allystar: \<^verbatim>\<open>InitForLen\<close> comes before the fixed part is read, so it sees no field of it.
\<close>

definition as_parseMsg :: "(msg_id \<Rightarrow> msg_desc option) \<Rightarrow> bytes \<Rightarrow> frame_error + bin_msg" where
  "as_parseMsg msgMap packet =
     (let n = length packet in
      if n < 8 then Inl TooShort
      else let trimmed = take (n - 2 - 2) (drop 2 packet);
               (ckA, ckB) = as_checksum trimmed
           in if ckA \<noteq> packet ! (n - 2) \<or> ckB \<noteq> packet ! (n - 2 + 1) then Inl ChecksumFailed
              else let mid = makeMsgID (trimmed ! 0) (trimmed ! 1);
                       payload = drop 4 trimmed
                   in (case msgMap mid of
                         None \<Rightarrow> Inr (UnknownMsg mid payload)
                       | Some d \<Rightarrow>
                           (case md_varying d of
                              None \<Rightarrow>
                                (case read_fixed d payload of
                                   None \<Rightarrow> Inl ReadFailed
                                 | Some (fixed, r) \<Rightarrow>
                                     if r = [] then Inr (KnownMsg d fixed None) else Inl TrailingBytes)
                            | Some init \<Rightarrow>
                                (case init (length payload) (VSeq []) of
                                   None \<Rightarrow> Inl BadPayloadLength
                                 | Some t \<Rightarrow>
                                     (case read_fixed d payload of
                                        None \<Rightarrow> Inl ReadFailed
                                      | Some (fixed, r) \<Rightarrow>
                                          (case wget t r of
                                             None \<Rightarrow> Inl ReadFailed
                                           | Some (v, r') \<Rightarrow>
                                               if r' = [] then Inr (KnownMsg d fixed (Some (t, v)))
                                               else Inl TrailingBytes))))))"

text \<open>\<^verbatim>\<open>Serialize\<close>. \<open>None\<close> is a value that is not of its type, which Go's types exclude.\<close>

definition msg_payload :: "bin_msg \<Rightarrow> bytes option" where
  "msg_payload m = (case m of
      UnknownMsg mid payload \<Rightarrow> Some payload
    | KnownMsg d fixed vary \<Rightarrow> do {
        a \<leftarrow> (case md_fixed d of None \<Rightarrow> Some [] | Some t \<Rightarrow> wput t fixed);
        b \<leftarrow> (case vary of None \<Rightarrow> Some [] | Some (t, v) \<Rightarrow> wput t v);
        Some (a @ b) })"

definition msg_id_of :: "bin_msg \<Rightarrow> msg_id" where
  "msg_id_of m = (case m of UnknownMsg mid _ \<Rightarrow> mid | KnownMsg d _ _ \<Rightarrow> md_id d)"

definition ubx_serialize :: "bin_msg \<Rightarrow> (frame_error + bytes) option" where
  "ubx_serialize m = do { payload \<leftarrow> msg_payload m; Some (ubx_packMsg (msg_id_of m) payload) }"

definition casic_serialize :: "bin_msg \<Rightarrow> (frame_error + bytes) option" where
  "casic_serialize m = do { payload \<leftarrow> msg_payload m; Some (casic_packMsg (msg_id_of m) payload) }"

definition sdbp_serialize :: "bin_msg \<Rightarrow> (frame_error + bytes) option" where
  "sdbp_serialize m = do { payload \<leftarrow> msg_payload m; Some (sdbp_packMsg (msg_id_of m) payload) }"

definition as_serialize :: "bin_msg \<Rightarrow> (frame_error + bytes) option" where
  "as_serialize m = do { payload \<leftarrow> msg_payload m; Some (as_packMsg (msg_id_of m) payload) }"

section \<open>Parsing what was serialized\<close>

text \<open>A message that is one of its type and that the type handles.\<close>

definition msg_ok :: "msg_desc \<Rightarrow> wval \<Rightarrow> (wty \<times> wval) option \<Rightarrow> bool" where
  "msg_ok d fixed vary \<longleftrightarrow>
     (case md_fixed d of None \<Rightarrow> fixed = VSeq [] | Some t \<Rightarrow> has_type fixed t) \<and> md_handled d fixed
     \<and> (case vary of
          None \<Rightarrow> md_varying d = None
        | Some (t, v) \<Rightarrow> has_type v t \<and> (\<exists>init. md_varying d = Some init \<and>
            init ((case md_fixed d of None \<Rightarrow> 0 | Some ft \<Rightarrow> wsize ft) + wsize t) fixed = Some t))"

lemma msg_ok_payload:
  assumes "msg_ok d fixed vary"
  shows "\<exists>payload r. msg_payload (KnownMsg d fixed vary) = Some payload
    \<and> read_fixed d payload = Some (fixed, r) \<and> read_varying tr payload d fixed r = Inr (KnownMsg d fixed vary)
    \<and> (case vary of None \<Rightarrow> r = [] | Some (t, v) \<Rightarrow> wget t r = Some (v, [])
         \<and> length payload = (case md_fixed d of None \<Rightarrow> 0 | Some ft \<Rightarrow> wsize ft) + wsize t)"
proof -
  have "\<exists>a. (case md_fixed d of None \<Rightarrow> Some [] | Some t \<Rightarrow> wput t fixed) = Some a
      \<and> length a = (case md_fixed d of None \<Rightarrow> 0 | Some ft \<Rightarrow> wsize ft)
      \<and> (\<forall>r. read_fixed d (a @ r) = Some (fixed, r))"
    using assms wput_wget(1) [of fixed] by (cases "md_fixed d") (auto simp: msg_ok_def read_fixed_def)
  then obtain a where a: "(case md_fixed d of None \<Rightarrow> Some [] | Some t \<Rightarrow> wput t fixed) = Some a"
    "length a = (case md_fixed d of None \<Rightarrow> 0 | Some ft \<Rightarrow> wsize ft)" "\<And>r. read_fixed d (a @ r) = Some (fixed, r)"
    by blast
  show ?thesis
  proof (cases vary)
    case None
    with assms have v: "md_varying d = None" by (simp add: msg_ok_def)
    have "read_varying tr a d fixed [] = Inr (KnownMsg d fixed None)"
      using v by (simp add: read_varying_def)
    with a(1) a(3) [of "[]"] None show ?thesis by (simp add: msg_payload_def)
  next
    case (Some tv)
    obtain t v where tv: "tv = (t, v)" by (cases tv)
    with assms Some obtain init where i: "has_type v t" "md_varying d = Some init" "init (length a + wsize t) fixed = Some t"
      by (auto simp: msg_ok_def a(2))
    from wput_wget(1) [OF i(1)] obtain b where b: "wput t v = Some b" "length b = wsize t"
      "\<And>rest. wget t (b @ rest) = Some (v, rest)" by blast
    have "read_varying tr (a @ b) d fixed b = Inr (KnownMsg d fixed (Some (t, v)))"
      using b(2) b(3) [of "[]"] i by (simp add: read_varying_def)
    with a(1) a(3) [of b] b(1,2) b(3) [of "[]"] Some tv show ?thesis
      by (simp add: msg_payload_def a(2) [symmetric])
  qed
qed

lemma tryParseMsg_ok:
  assumes "msg_ok d fixed vary" "msg_payload (KnownMsg d fixed vary) = Some payload"
  shows "tryParseMsg payload d = Inr (Some (KnownMsg d fixed vary))"
proof -
  have "md_handled d fixed" using assms(1) by (simp add: msg_ok_def)
  with msg_ok_payload [OF assms(1), of False] assms(2) show ?thesis by (auto simp: tryParseMsg_def)
qed

lemma try_ctors_skip:
  "\<forall>e \<in> set ds. tryParseMsg payload e = Inr None \<Longrightarrow> try_ctors mid payload (ds @ es) = try_ctors mid payload es"
  by (induction ds) simp_all

lemma fletcher_trimmed:
  assumes "length pkt = 8 + length payload" "take (length payload) (drop 6 pkt) = payload"
    "packetMsgId pkt = Some mid"
  shows "drop 4 (take (length pkt - 2 - 2) (drop 2 pkt)) = payload"
    "makeMsgID (take (length pkt - 2 - 2) (drop 2 pkt) ! 0) (take (length pkt - 2 - 2) (drop 2 pkt) ! 1) = mid"
proof -
  show "drop 4 (take (length pkt - 2 - 2) (drop 2 pkt)) = payload" using assms(1,2) by (simp add: drop_take)
  have eq: "take (length pkt - 2 - 2) (drop 2 pkt) ! 0 = pkt ! 2" "take (length pkt - 2 - 2) (drop 2 pkt) ! 1 = pkt ! 3"
    using assms(1) by simp_all
  have "makeMsgID (pkt ! 2) (pkt ! 3) = mid" using assms(1,3) by (simp add: packetMsgId_def)
  then show "makeMsgID (take (length pkt - 2 - 2) (drop 2 pkt) ! 0) (take (length pkt - 2 - 2) (drop 2 pkt) ! 1) = mid"
    unfolding eq .
qed

lemma ubx_parse_pack:
  assumes "ubx_packMsg mid payload = Inr pkt"
  shows "ubx_parseMsg msgMap pkt = try_ctors mid payload (msgMap mid)"
proof -
  note p = ubx_pack_packet [OF assms]
  show ?thesis
    unfolding ubx_parseMsg_def Let_def fletcher_trimmed [OF p(4,5,3)] using p(4) by simp
qed

lemma ubx_parse_serialize:
  assumes "msg_ok d fixed vary" "msgMap (md_id d) = ds @ d # es"
    and "ubx_serialize (KnownMsg d fixed vary) = Some (Inr pkt)"
    and "\<And>payload. msg_payload (KnownMsg d fixed vary) = Some payload \<Longrightarrow> \<forall>e \<in> set ds. tryParseMsg payload e = Inr None"
  shows "ubx_parseMsg msgMap pkt = Inr (KnownMsg d fixed vary)"
proof -
  from assms(3) obtain payload where p: "msg_payload (KnownMsg d fixed vary) = Some payload"
    "ubx_packMsg (md_id d) payload = Inr pkt"
    by (auto simp: ubx_serialize_def bind_Some_iff msg_id_of_def)
  with assms(2) ubx_parse_pack [OF p(2)] try_ctors_skip [OF assms(4) [OF p(1)]] tryParseMsg_ok [OF assms(1) p(1)]
  show ?thesis by simp
qed

lemma casic_parse_serialize:
  assumes "msg_ok d fixed vary" "msgMap (md_id d) = Some d"
    and "casic_serialize (KnownMsg d fixed vary) = Some (Inr pkt)"
  shows "casic_parseMsg msgMap pkt = Inr (KnownMsg d fixed vary)"
proof -
  from assms(3) obtain payload where p: "msg_payload (KnownMsg d fixed vary) = Some payload"
    "casic_packMsg (md_id d) payload = Inr pkt"
    by (auto simp: casic_serialize_def bind_Some_iff msg_id_of_def)
  note q = casic_pack_packet [OF p(2)]
  have pay: "take (length pkt - 4 - 6) (drop 6 pkt) = payload" using q(4,5) by simp
  have mid: "makeMsgID (pkt ! 4) (pkt ! 5) = md_id d" using q(3,4) by (simp add: casic_packetMsgID_def)
  from msg_ok_payload [OF assms(1), of "md_allowTrailing d"] p(1) obtain r where
    "read_fixed d payload = Some (fixed, r)"
    "read_varying (md_allowTrailing d) payload d fixed r = Inr (KnownMsg d fixed vary)" by auto
  then show ?thesis
    unfolding casic_parseMsg_def Let_def pay mid using q(4) assms(2) by simp
qed

lemma checksum_at_end:
  assumes "8 \<le> length pkt" "Some (drop (length pkt - 2) pkt) = Some [a, b]"
  shows "pkt ! (length pkt - 2) = a" "pkt ! (length pkt - 2 + 1) = b"
proof -
  have d: "drop (length pkt - 2) pkt = [a, b]" using assms(2) by simp
  have "drop (length pkt - 2) pkt ! 0 = pkt ! (length pkt - 2)" "drop (length pkt - 2) pkt ! 1 = pkt ! (length pkt - 2 + 1)"
    using assms(1) by simp_all
  with d show "pkt ! (length pkt - 2) = a" "pkt ! (length pkt - 2 + 1) = b" by simp_all
qed

lemma sdbp_parse_serialize:
  assumes "msg_ok d fixed vary" "msgMap (md_id d) = Some d"
    and "sdbp_serialize (KnownMsg d fixed vary) = Some (Inr pkt)"
  shows "sdbp_parseMsg msgMap pkt = Inr (KnownMsg d fixed vary)"
proof -
  from assms(3) obtain payload where p: "msg_payload (KnownMsg d fixed vary) = Some payload"
    "sdbp_packMsg (md_id d) payload = Inr pkt"
    by (auto simp: sdbp_serialize_def bind_Some_iff msg_id_of_def)
  note q = sdbp_pack_packet [OF p(2)]
  obtain a b where ck: "sdbp_checksum (take (length pkt - 2 - 2) (drop 2 pkt)) = (a, b)" by (metis surj_pair)
  have len: "8 \<le> length pkt" using q(4) by simp
  with q(2) ck have "Some (drop (length pkt - 2) pkt) = Some [a, b]"
    by (simp add: sdbp_extractChecksum_def sdbp_computeChecksum_def)
  note e = checksum_at_end [OF len this]
  from msg_ok_payload [OF assms(1), of False] p(1) obtain r where
    "read_fixed d payload = Some (fixed, r)" "read_varying False payload d fixed r = Inr (KnownMsg d fixed vary)" by auto
  then show ?thesis
    unfolding sdbp_parseMsg_def Let_def ck prod.case fletcher_trimmed [OF q(4,5,3)]
    using e len assms(2) by simp
qed

lemma as_parse_serialize:
  assumes "msg_ok d fixed vary" "msgMap (md_id d) = Some d" "\<And>init n f. md_varying d = Some init \<Longrightarrow> init n f = init n (VSeq [])"
    and "as_serialize (KnownMsg d fixed vary) = Some (Inr pkt)"
  shows "as_parseMsg msgMap pkt = Inr (KnownMsg d fixed vary)"
proof -
  from assms(4) obtain payload where p: "msg_payload (KnownMsg d fixed vary) = Some payload"
    "as_packMsg (md_id d) payload = Inr pkt"
    by (auto simp: as_serialize_def bind_Some_iff msg_id_of_def)
  note q = as_pack_packet [OF p(2)]
  obtain a b where ck: "as_checksum (take (length pkt - 2 - 2) (drop 2 pkt)) = (a, b)" by (metis surj_pair)
  have len: "8 \<le> length pkt" using q(4) by simp
  with q(2) ck have "Some (drop (length pkt - 2) pkt) = Some [a, b]"
    by (simp add: as_extractChecksum_def as_computeChecksum_def)
  note e = checksum_at_end [OF len this]
  from msg_ok_payload [OF assms(1), of False] p(1) obtain r where
    r: "read_fixed d payload = Some (fixed, r)"
      "case vary of None \<Rightarrow> r = [] | Some (t, v) \<Rightarrow> wget t r = Some (v, [])
         \<and> length payload = (case md_fixed d of None \<Rightarrow> 0 | Some ft \<Rightarrow> wsize ft) + wsize t" by auto
  note unf = as_parseMsg_def Let_def ck prod.case fletcher_trimmed [OF q(4,5,3)]
  show ?thesis
  proof (cases vary)
    case None
    with assms(1) have "md_varying d = None" by (simp add: msg_ok_def)
    with r None show ?thesis unfolding unf using e len assms(2) by simp
  next
    case (Some tv)
    obtain t v where tv: "tv = (t, v)" by (cases tv)
    with assms(1) Some r(2) obtain init where "md_varying d = Some init" "init (length payload) fixed = Some t"
      by (auto simp: msg_ok_def)
    moreover from this assms(3) have "init (length payload) (VSeq []) = Some t" by metis
    ultimately show ?thesis unfolding unf using e len assms(2) r Some tv by simp
  qed
qed

end
