(* ===== verification/MsgTable.thy ===== *)
theory MsgTable
  imports Framing
begin

text \<open>
  Tables of registered message types: what \<^verbatim>\<open>regMsg\<close> builds and what \<^verbatim>\<open>ParseMsg\<close> relies on. Each
  table is a list of descriptors in registration order. \<open>msg_table\<close> says that the layouts are
  ones \<^verbatim>\<open>encoding/binary\<close> can read, \<open>exact_table\<close> that the lengths written in the
  \<^verbatim>\<open>InitVaryingPart\<close> methods are those of the layouts, \<open>single_table\<close> that no id is registered
  twice.
\<close>

text \<open>A message id as the constants write it: \<^verbatim>\<open>cls | (id << 8)\<close>.\<close>

definition msgID :: "byte \<Rightarrow> byte \<Rightarrow> msg_id" where
  "msgID cls i = ucast cls OR push_bit 8 (ucast i)"

lemma makeMsgID_msgID: "makeMsgID = msgID"
  by (intro ext) (simp add: makeMsgID_def msgID_def)

lemma msgID_inject [simp]: "msgID c i = msgID c' i' \<longleftrightarrow> c = c' \<and> i = i'"
  by (metis msgID_def makeMsgID_def unpack_make prod.inject)

text \<open>\<^verbatim>\<open>regMsg\<close> appends a constructor in \<^verbatim>\<open>ubxbin\<close>, and overwrites it in the other packages.\<close>

definition msgMap_all :: "msg_desc list \<Rightarrow> msg_id \<Rightarrow> msg_desc list" where
  "msgMap_all msgs mid = filter (\<lambda>d. md_id d = mid) msgs"

definition msgMap_last :: "msg_desc list \<Rightarrow> msg_id \<Rightarrow> msg_desc option" where
  "msgMap_last msgs mid = find (\<lambda>d. md_id d = mid) (rev msgs)"

definition fixed_size :: "msg_desc \<Rightarrow> nat" where
  "fixed_size d = (case md_fixed d of None \<Rightarrow> 0 | Some t \<Rightarrow> wsize t)"

definition desc_wf :: "msg_desc \<Rightarrow> bool" where
  "desc_wf d \<longleftrightarrow> (\<forall>t. md_fixed d = Some t \<longrightarrow> wty_ok t)
     \<and> (\<forall>init n f t. md_varying d = Some init \<longrightarrow> init n f = Some t \<longrightarrow> wty_ok t)"

definition desc_exact :: "msg_desc \<Rightarrow> bool" where
  "desc_exact d \<longleftrightarrow> (\<forall>init n f t. md_varying d = Some init \<longrightarrow> init n f = Some t \<longrightarrow> fixed_size d + wsize t = n)"

text \<open>A handled message of a unique id is found first.\<close>

lemma filter_id: "distinct (map md_id ds) \<Longrightarrow> d \<in> set ds \<Longrightarrow> filter (\<lambda>e. md_id e = md_id d) ds = [d]"
proof (induction ds)
  case (Cons e ds)
  show ?case
  proof (cases "e = d")
    case True
    with Cons.prems(1) have "\<forall>x \<in> set ds. md_id x \<noteq> md_id d" by (force simp: image_iff)
    with True show ?thesis by (simp add: filter_empty_conv)
  next
    case False
    with Cons.prems have "d \<in> set ds" "md_id e \<noteq> md_id d" by auto
    with Cons show ?thesis by simp
  qed
qed simp

text \<open>The lengths a message accepts, given its fixed part.\<close>

definition accepts_len :: "msg_desc \<Rightarrow> wval \<Rightarrow> nat \<Rightarrow> bool" where
  "accepts_len d fixed n = (case md_varying d of
      None \<Rightarrow> n = fixed_size d \<or> md_allowTrailing d \<and> fixed_size d \<le> n
    | Some init \<Rightarrow> init n fixed \<noteq> None)"

section \<open>Names\<close>

text \<open>The \<^verbatim>\<open>0x%02X\<close> of \<^verbatim>\<open>fmt.Sprintf\<close>, and \<^verbatim>\<open>String\<close>, \<^verbatim>\<open>CfgClass\<close> and \<^verbatim>\<open>Ackable\<close> of a \<^verbatim>\<open>MsgID\<close>.\<close>

definition fmt02X :: "byte \<Rightarrow> string" where
  "fmt02X b = ''0x'' @ [''0123456789ABCDEF'' ! (unat b div 16), ''0123456789ABCDEF'' ! (unat b mod 16)]"

definition msgID_string :: "(byte \<times> string) list \<Rightarrow> (msg_id \<times> string) list \<Rightarrow> msg_id \<Rightarrow> string" where
  "msgID_string clsMap idNameMap mid =
     (let (cls, i) = unpackMsgID mid;
          s = (case map_of clsMap cls of None \<Rightarrow> [] | Some n \<Rightarrow> n);
          s = (if s = [] then fmt02X cls else s) @ ''-'';
          idName = (case map_of (rev idNameMap) mid of None \<Rightarrow> [] | Some n \<Rightarrow> n)
      in if idName \<noteq> [] then s @ idName else s @ fmt02X i)"

definition cfgClass :: "byte \<Rightarrow> msg_id \<Rightarrow> bool" where
  "cfgClass clsCfg mid = (let (cls, _) = unpackMsgID mid in cls = clsCfg)"

section \<open>Facts of one type\<close>

lemma div_mod_iff: "0 < e \<Longrightarrow> x mod e = 0 \<and> x div e = k \<longleftrightarrow> x = k * (e::nat)"
  by auto

lemma sliceLen_nat: "0 < e \<Longrightarrow> m \<le> n \<Longrightarrow>
    sliceLen n m e = (if (n - m) mod e \<noteq> 0 then None else Some ((n - m) div e))"
proof -
  assume "0 < e" "m \<le> n"
  moreover have "int n - int m = int (n - m)" using \<open>m \<le> n\<close> by simp
  ultimately show ?thesis unfolding sliceLen_def Let_def
    by (simp del: of_nat_diff add: of_nat_mod [symmetric] of_nat_div [symmetric])
qed

lemma sliceLen_iff: "0 < e \<Longrightarrow> sliceLen n m e = Some k \<longleftrightarrow> n = m + k * e"
proof (cases "m \<le> n")
  case False
  then show ?thesis by (auto simp: sliceLen_def)
next
  case True
  assume e: "0 < e"
  from True have "n - m = k * e \<longleftrightarrow> n = m + k * e" by auto
  with sliceLen_nat [OF e True] div_mod_iff [OF e, of "n - m" k] show ?thesis by (auto split: if_splits)
qed

lemma slice_of_Some: "0 < e \<Longrightarrow> slice_of m e t n f = Some u \<longleftrightarrow> (\<exists>k. u = Arr k t \<and> n = m + k * e)"
  by (auto simp: slice_of_def bind_Some_iff sliceLen_iff)

text \<open>How the descriptors of a table are checked: a struct, or a struct and a slice of structs.\<close>

lemma good_plain: "md_varying d = None \<Longrightarrow> md_fixed d = Some u \<Longrightarrow> wty_ok u \<Longrightarrow> desc_wf d \<and> desc_exact d"
  by (simp add: desc_wf_def desc_exact_def)

lemma good_slice: "md_varying d = Some (slice_of m e t) \<Longrightarrow> md_fixed d = fx \<Longrightarrow> 0 < e \<Longrightarrow> wty_ok t \<and> wsize t = e \<Longrightarrow>
    (case fx of None \<Rightarrow> m = 0 | Some u \<Rightarrow> wty_ok u \<and> wsize u = m) \<Longrightarrow> desc_wf d \<and> desc_exact d"
  by (auto simp: desc_wf_def desc_exact_def slice_of_Some fixed_size_def split: option.splits)

lemma read_fixed_spec:
  assumes "desc_wf d"
  shows "if fixed_size d \<le> length bs
    then \<exists>v. read_fixed d bs = Some (v, drop (fixed_size d) bs)
      \<and> (case md_fixed d of None \<Rightarrow> v = VSeq [] | Some t \<Rightarrow> has_type v t)
    else read_fixed d bs = None"
proof (cases "md_fixed d")
  case None
  then show ?thesis by (simp add: fixed_size_def read_fixed_def)
next
  case (Some t)
  with assms have "wty_ok t" by (simp add: desc_wf_def)
  from wget_spec(1) [OF this, of bs] Some show ?thesis by (simp add: fixed_size_def read_fixed_def)
qed

lemma read_varying_ok_iff:
  assumes "desc_wf d" "desc_exact d \<or> md_allowTrailing d \<and> md_varying d = None"
    and "fixed_size d \<le> length payload"
  shows "(\<exists>m. read_varying (md_allowTrailing d) payload d fixed (drop (fixed_size d) payload) = Inr m)
    \<longleftrightarrow> accepts_len d fixed (length payload)"
proof (cases "md_varying d")
  case None
  then show ?thesis using assms(3) by (auto simp: read_varying_def accepts_len_def)
next
  case (Some init)
  with assms(2) have ex: "desc_exact d" by simp
  show ?thesis
  proof (cases "init (length payload) fixed")
    case None
    with Some show ?thesis by (simp add: read_varying_def accepts_len_def)
  next
    case (Some t)
    with \<open>md_varying d = Some init\<close> assms(1) ex have t: "wty_ok t" "fixed_size d + wsize t = length payload"
      by (simp_all add: desc_wf_def desc_exact_def)
    then have len: "wsize t \<le> length (drop (fixed_size d) payload)" by simp
    from wgetE [OF t(1) len] obtain v where
      "wget t (drop (fixed_size d) payload) = Some (v, drop (wsize t) (drop (fixed_size d) payload))" by blast
    moreover have "drop (wsize t) (drop (fixed_size d) payload) = []" using t(2) by simp
    ultimately show ?thesis using Some \<open>md_varying d = Some init\<close> by (simp add: read_varying_def accepts_len_def)
  qed
qed

text \<open>What a successful parse without trailing bytes returns is a message of its type.\<close>

lemma read_varying_msg_ok:
  assumes "desc_wf d" "read_fixed d payload = Some (fixed, r)" "md_handled d fixed"
    and "read_varying False payload d fixed r = Inr m"
  shows "\<exists>vary. m = KnownMsg d fixed vary \<and> msg_ok d fixed vary
    \<and> length payload = fixed_size d + (case vary of None \<Rightarrow> 0 | Some (t, v) \<Rightarrow> wsize t)"
proof -
  have f: "fixed_size d \<le> length payload" "r = drop (fixed_size d) payload"
    "case md_fixed d of None \<Rightarrow> fixed = VSeq [] | Some t \<Rightarrow> has_type fixed t"
    using read_fixed_spec [OF assms(1), of payload] assms(2) by (auto split: if_splits)
  show ?thesis
  proof (cases "md_varying d")
    case None
    with assms(3,4) f show ?thesis by (auto simp: read_varying_def msg_ok_def split: if_splits)
  next
    case (Some init)
    with assms(4) obtain t v where t: "init (length payload) fixed = Some t" "wget t r = Some (v, [])"
      "m = KnownMsg d fixed (Some (t, v))"
      by (auto simp: read_varying_def split: option.splits prod.splits if_splits)
    from assms(1) Some t(1) have "wty_ok t" by (simp add: desc_wf_def)
    from wget_SomeD [OF this t(2)] f(1,2) have v: "has_type v t" "length payload = fixed_size d + wsize t" by auto
    have len: "(case md_fixed d of None \<Rightarrow> 0 | Some ft \<Rightarrow> wsize ft) + wsize t = length payload"
      using v(2) by (simp add: fixed_size_def)
    have "msg_ok d fixed (Some (t, v))" using Some t v f(3) assms(3) len by (simp add: msg_ok_def)
    with t(3) v(2) show ?thesis by auto
  qed
qed

lemma msg_ok_length: "msg_ok d fixed vary \<Longrightarrow> msg_payload (KnownMsg d fixed vary) = Some payload \<Longrightarrow>
    length payload = fixed_size d + (case vary of None \<Rightarrow> 0 | Some (t, v) \<Rightarrow> wsize t)"
proof -
  assume ok: "msg_ok d fixed vary" and p: "msg_payload (KnownMsg d fixed vary) = Some payload"
  have len: "wput t v = Some b \<Longrightarrow> has_type v t \<Longrightarrow> length b = wsize t" for t v b
    using wput_wget(1) [of v t] by auto
  from ok p show ?thesis
    by (auto simp: msg_ok_def msg_payload_def fixed_size_def bind_Some_iff len split: option.splits prod.splits)
qed

lemma try_ctors_result: "try_ctors mid payload ds = Inr m \<Longrightarrow>
    (m = UnknownMsg mid payload \<and> (\<forall>d \<in> set ds. tryParseMsg payload d = Inr None))
    \<or> (\<exists>as d bs. ds = as @ d # bs \<and> (\<forall>e \<in> set as. tryParseMsg payload e = Inr None) \<and> tryParseMsg payload d = Inr (Some m))"
proof (induction mid payload ds rule: try_ctors.induct)
  case (2 mid payload d ds)
  show ?case
  proof (cases "tryParseMsg payload d = Inr None")
    case True
    with 2 have "try_ctors mid payload ds = Inr m" by simp
    with 2(1) True consider "m = UnknownMsg mid payload" "\<forall>d \<in> set ds. tryParseMsg payload d = Inr None"
      | as e bs where "ds = as @ e # bs" "\<forall>e \<in> set as. tryParseMsg payload e = Inr None" "tryParseMsg payload e = Inr (Some m)"
      by blast
    then show ?thesis
    proof cases
      case 2
      with True have "d # ds = (d # as) @ e # bs \<and> (\<forall>e \<in> set (d # as). tryParseMsg payload e = Inr None)" by simp
      with 2(3) show ?thesis by blast
    qed (use True in simp)
  next
    case False
    with 2(2) have "tryParseMsg payload d = Inr (Some m)" by (auto split: sum.splits option.splits)
    then show ?thesis by (metis append_Nil empty_iff empty_set)
  qed
qed simp

lemma ubx_packMsg_total: "length payload \<le> 0xFFFF \<Longrightarrow> \<exists>pkt. ubx_packMsg mid payload = Inr pkt"
  and as_packMsg_total: "length payload \<le> 0xFFFF \<Longrightarrow> \<exists>pkt. as_packMsg mid payload = Inr pkt"
  and sdbp_packMsg_total: "length payload \<le> 0xFFFF \<Longrightarrow> \<exists>pkt. sdbp_packMsg mid payload = Inr pkt"
  and casic_packMsg_total: "length payload \<le> 0xFFFF \<Longrightarrow> \<exists>pkt. casic_packMsg mid payload = Inr pkt"
  by (simp_all add: ubx_packMsg_def as_packMsg_def sdbp_packMsg_def casic_packMsg_def Let_def split: prod.split)

section \<open>The tables\<close>

lemma find_SomeD: "find P xs = Some x \<Longrightarrow> x \<in> set xs \<and> P x"
  by (induction xs) (auto split: if_splits)

locale msg_table =
  fixes msgs :: "msg_desc list"
  assumes layouts: "d \<in> set msgs \<Longrightarrow> desc_wf d"
begin

lemma parsed_ok:
  "d \<in> set msgs \<Longrightarrow> tryParseMsg payload d = Inr (Some m) \<Longrightarrow>
     \<exists>fixed vary. m = KnownMsg d fixed vary \<and> msg_ok d fixed vary
       \<and> length payload = fixed_size d + (case vary of None \<Rightarrow> 0 | Some (t, v) \<Rightarrow> wsize t)"
proof -
  assume d: "d \<in> set msgs" and p: "tryParseMsg payload d = Inr (Some m)"
  from p obtain fixed r where "read_fixed d payload = Some (fixed, r)" "md_handled d fixed"
    "read_varying False payload d fixed r = Inr m"
    by (auto simp: tryParseMsg_def split: option.splits prod.splits if_splits sum.splits)
  from read_varying_msg_ok [OF layouts [OF d] this] show ?thesis by blast
qed

lemma too_short: "d \<in> set msgs \<Longrightarrow> tryParseMsg payload d = Inl ReadFailed \<or> fixed_size d \<le> length payload"
  using read_fixed_spec [OF layouts, of d payload] by (auto simp: tryParseMsg_def)

end

locale exact_table = msg_table +
  assumes exact: "d \<in> set msgs \<Longrightarrow> desc_exact d"
begin

lemma accepted_iff:
  assumes "d \<in> set msgs" "\<not> md_allowTrailing d" "read_fixed d payload = Some (fixed, r)" "md_handled d fixed"
  shows "(\<exists>m. tryParseMsg payload d = Inr (Some m)) \<longleftrightarrow> accepts_len d fixed (length payload)"
proof -
  have r: "fixed_size d \<le> length payload" "r = drop (fixed_size d) payload"
    using read_fixed_spec [OF layouts [OF assms(1)], of payload] assms(3) by (auto split: if_splits)
  have "(\<exists>m. tryParseMsg payload d = Inr (Some m)) \<longleftrightarrow> (\<exists>m. read_varying False payload d fixed r = Inr m)"
    using assms(3,4) by (auto simp: tryParseMsg_def split: sum.splits)
  with read_varying_ok_iff [OF layouts [OF assms(1)] _ r(1), of fixed] exact [OF assms(1)] r(2) assms(2)
  show ?thesis by simp
qed

end

locale single_table = msg_table +
  assumes ids: "distinct (map md_id msgs)"
begin

lemma lookup: "d \<in> set msgs \<Longrightarrow> msgMap_last msgs (md_id d) = Some d"
proof -
  assume d: "d \<in> set msgs"
  then obtain e where e: "msgMap_last msgs (md_id d) = Some e" unfolding msgMap_last_def
    by (cases "find (\<lambda>e. md_id e = md_id d) (rev msgs)") (auto simp: find_None_iff)
  then have "e \<in> set msgs" "md_id e = md_id d" by (auto simp: msgMap_last_def dest!: find_SomeD)
  with d ids have "e = d" by (simp add: distinct_map inj_on_def)
  with e show ?thesis by simp
qed

lemma lookup_mem: "msgMap_last msgs mid = Some d \<Longrightarrow> d \<in> set msgs \<and> md_id d = mid"
  by (auto simp: msgMap_last_def dest!: find_SomeD)

end

end
