(* ===== verification/UbxMsgs.thy ===== *)
theory UbxMsgs
  imports MsgTable
begin



section \<open>Classes\<close>

abbreviation (input) ubx_clsNav :: byte where "ubx_clsNav \<equiv> 0x01"
abbreviation (input) ubx_clsRxm :: byte where "ubx_clsRxm \<equiv> 0x02"
abbreviation (input) ubx_clsInf :: byte where "ubx_clsInf \<equiv> 0x04"
abbreviation (input) ubx_clsAck :: byte where "ubx_clsAck \<equiv> 0x05"
abbreviation (input) ubx_clsCfg :: byte where "ubx_clsCfg \<equiv> 0x06"
abbreviation (input) ubx_clsMon :: byte where "ubx_clsMon \<equiv> 0x0A"
abbreviation (input) ubx_clsTim :: byte where "ubx_clsTim \<equiv> 0x0D"
abbreviation (input) ubx_clsMga :: byte where "ubx_clsMga \<equiv> 0x13"
abbreviation (input) ubx_clsSec :: byte where "ubx_clsSec \<equiv> 0x27"
abbreviation (input) ubx_clsNav2 :: byte where "ubx_clsNav2 \<equiv> 0x29"
abbreviation (input) ubx_clsNmea :: byte where "ubx_clsNmea \<equiv> 0xF0"
abbreviation (input) ubx_clsRtcm :: byte where "ubx_clsRtcm \<equiv> 0xF5"

definition ubx_clsMap :: "(byte \<times> string) list" where
  "ubx_clsMap = [(ubx_clsNav, ''NAV''), (ubx_clsRxm, ''RXM''), (ubx_clsInf, ''INF''), (ubx_clsAck, ''ACK''),
     (ubx_clsCfg, ''CFG''), (ubx_clsMon, ''MON''), (ubx_clsTim, ''TIM''), (ubx_clsMga, ''MGA''),
     (ubx_clsSec, ''SEC''), (ubx_clsNav2, ''NAV2''), (ubx_clsNmea, ''NMEA''), (ubx_clsRtcm, ''RTCM'')]"

section \<open>The layouts\<close>

definition ubx_AckNak :: wty where
  "ubx_AckNak = Struct [
    (''MsgID'', uint16)]"

definition ubx_AckAck :: wty where
  "ubx_AckAck = Struct [
    (''MsgID'', uint16)]"

definition ubx_CfgCfgFixed :: wty where
  "ubx_CfgCfgFixed = Struct [
    (''ClearMask'', uint32), (''SaveMask'', uint32), (''LoadMask'', uint32)]"

definition ubx_CfgMsg :: wty where
  "ubx_CfgMsg = Struct [
    (''MsgID'', uint16), (''Rate'', Arr 6 uint8)]"

definition ubx_CfgInfBlock :: wty where
  "ubx_CfgInfBlock = Struct [
    (''ProtocolID'', uint8), (''_'', Blank (Arr 3 uint8)), (''InfMsgMask'', Arr 6 uint8)]"

definition ubx_CfgNav5 :: wty where
  "ubx_CfgNav5 = Struct [
    (''Mask'', uint16), (''DynModel'', uint8), (''FixMode'', uint8), (''FixedAlt'', int32),
    (''FixedAltVar'', uint32), (''MinElev'', int8), (''DrLimit'', uint8), (''PDop'', uint16),
    (''TDop'', uint16), (''PAcc'', uint16), (''TAcc'', uint16), (''StaticHoldThresh'', uint8),
    (''DgnssTimeout'', uint8), (''CnoThreshNumSvs'', uint8), (''CnoThresh'', uint8),
    (''_'', Blank (Arr 2 uint8)), (''StaticHoldMaxDist'', uint16), (''UtcStandard'', uint8),
    (''_'', Blank (Arr 5 uint8))]"

definition ubx_CfgPrt :: wty where
  "ubx_CfgPrt = Struct [
    (''PortID'', uint8), (''_'', Blank uint8), (''TxReady'', uint16), (''Mode'', uint32),
    (''BaudRate'', uint32), (''InProtoMask'', uint16), (''OutProtoMask'', uint16), (''Flags'', uint16),
    (''_'', Blank (Arr 2 uint8))]"

definition ubx_CfgRate :: wty where
  "ubx_CfgRate = Struct [
    (''MeasRate'', uint16), (''NavRate'', uint16), (''TimeRef'', uint16)]"

definition ubx_CfgRst :: wty where
  "ubx_CfgRst = Struct [
    (''NavBbrMask'', uint16), (''ResetMode'', uint8), (''_'', Blank uint8)]"

definition ubx_CfgTp5 :: wty where
  "ubx_CfgTp5 = Struct [
    (''TpIdx'', uint8), (''Version'', uint8), (''_'', Blank (Arr 2 uint8)), (''AntCableDelay'', int16),
    (''RfGroupDelay'', int16), (''FreqPeriod'', uint32), (''FreqPeriodLock'', uint32),
    (''PulseLenRatio'', uint32), (''PulseLenRatioLock'', uint32), (''UserConfigDelay'', int32),
    (''Flags'', uint32)]"

definition ubx_CfgTmode :: wty where
  "ubx_CfgTmode = Struct [
    (''TimeMode'', uint32), (''FixedPosX'', int32), (''FixedPosY'', int32), (''FixedPosZ'', int32),
    (''FixedPosVar'', uint32), (''SvinMinDur'', uint32), (''SvinVarLimit'', uint32)]"

definition ubx_CfgTmode2 :: wty where
  "ubx_CfgTmode2 = Struct [
    (''TimeMode'', uint8), (''_'', Blank uint8), (''Flags'', uint16), (''EcefXOrLat'', int32),
    (''EcefYOrLon'', int32), (''EcefZOrAlt'', int32), (''FixedPosAcc'', uint32),
    (''SvinMinDur'', uint32), (''SvinAccLimit'', uint32)]"

definition ubx_CfgTmode3 :: wty where
  "ubx_CfgTmode3 = Struct [
    (''Version'', uint8), (''_'', Blank uint8), (''Flags'', uint16), (''EcefXOrLat'', int32),
    (''EcefYOrLon'', int32), (''EcefZOrAlt'', int32), (''EcefXOrLatHP'', int8),
    (''EcefYOrLonHP'', int8), (''EcefZOrAltHP'', int8), (''_'', Blank uint8),
    (''FixedPosAcc'', uint32), (''SvinMinDur'', uint32), (''SvinAccLimit'', uint32),
    (''_'', Blank (Arr 8 uint8))]"

definition ubx_CfgGNSSFixed :: wty where
  "ubx_CfgGNSSFixed = Struct [
    (''MsgVer'', uint8), (''NumTrkChHw'', uint8), (''NumTrkChUse'', uint8), (''NumConfigBlocks'', uint8)]"

definition ubx_CfgGNSSBlock :: wty where
  "ubx_CfgGNSSBlock = Struct [
    (''GNSSID'', uint8), (''ResTrkCh'', uint8), (''MaxTrkCh'', uint8), (''_'', Blank uint8),
    (''Enable'', uint8), (''_'', Blank uint8), (''SigCfgMask'', uint8), (''_'', Blank uint8)]"

definition ubx_CfgValgetFixed :: wty where
  "ubx_CfgValgetFixed = Struct [
    (''Version'', uint8), (''Layer'', uint8), (''Position'', uint16)]"

definition ubx_CfgValsetFixed :: wty where
  "ubx_CfgValsetFixed = Struct [
    (''Version'', uint8), (''Layers'', uint8), (''Transaction'', uint8), (''_'', Blank uint8)]"

definition ubx_CfgValdelFixed :: wty where
  "ubx_CfgValdelFixed = Struct [
    (''Version'', uint8), (''Layers'', uint8), (''Transaction'', uint8), (''_'', Blank uint8)]"

definition ubx_MgaIniFixed :: wty where
  "ubx_MgaIniFixed = Struct [
    (''Type'', uint8), (''Version'', uint8)]"

definition ubx_MgaIniPosXYZ :: wty where
  "ubx_MgaIniPosXYZ = Struct [
    (''_'', Blank (Arr 2 uint8)), (''ECEF'', Arr 3 int32), (''PosAcc'', uint32)]"

definition ubx_MgaIniPosLLH :: wty where
  "ubx_MgaIniPosLLH = Struct [
    (''_'', Blank (Arr 2 uint8)), (''Lat'', int32), (''Lon'', int32), (''Alt'', int32),
    (''PosAcc'', uint32)]"

definition ubx_MgaIniTimeUTC :: wty where
  "ubx_MgaIniTimeUTC = Struct [
    (''Ref'', uint8), (''LeapSecs'', int8), (''Year'', uint16), (''Month'', uint8), (''Day'', uint8),
    (''Hour'', uint8), (''Minute'', uint8), (''Second'', uint8), (''Bitfield0'', uint8),
    (''Ns'', uint32), (''TAccS'', uint16), (''_'', Blank (Arr 2 uint8)), (''TAccNs'', uint32)]"

definition ubx_MgaIniTimeGNSS :: wty where
  "ubx_MgaIniTimeGNSS = Struct [
    (''Ref'', uint8), (''GnssId'', uint8), (''Bitfield0'', uint8), (''_'', Blank uint8),
    (''Week'', uint16), (''Tow'', uint32), (''Ns'', uint32), (''TAccS'', uint16),
    (''_'', Blank (Arr 2 uint8)), (''TAccNs'', uint32)]"

definition ubx_MgaIniClkD :: wty where
  "ubx_MgaIniClkD = Struct [
    (''_'', Blank (Arr 2 uint8)), (''ClkD'', int32), (''ClkDAcc'', uint32)]"

definition ubx_MgaIniFreq :: wty where
  "ubx_MgaIniFreq = Struct [
    (''_'', Blank uint8), (''Flags'', uint8), (''Freq'', int32), (''FreqAcc'', uint32)]"

definition ubx_MgaGalFixed :: wty where
  "ubx_MgaGalFixed = Struct [
    (''Type'', uint8), (''Version'', uint8)]"

definition ubx_MgaGalOSNMAPubkey :: wty where
  "ubx_MgaGalOSNMAPubkey = Struct [
    (''Bitfield0'', uint8), (''_'', Blank uint8), (''PubKeyPoint'', Arr 67 uint8), (''_'', Blank uint8)]"

definition ubx_MgaGalOSNMAMerkle :: wty where
  "ubx_MgaGalOSNMAMerkle = Struct [
    (''Bitfield0'', uint8), (''_'', Blank uint8), (''TreeNode'', Arr 32 uint8)]"

definition ubx_MonCommsFixed :: wty where
  "ubx_MonCommsFixed = Struct [
    (''Version'', uint8), (''NPorts'', uint8), (''TxErrors'', uint8), (''_'', Blank uint8),
    (''ProtIds'', Arr 4 uint8)]"

definition ubx_MonCommsPort :: wty where
  "ubx_MonCommsPort = Struct [
    (''PortID'', uint16), (''TxPending'', uint16), (''TxBytes'', uint32), (''TxUsage'', uint8),
    (''TxPeakUsage'', uint8), (''RxPending'', uint16), (''RxBytes'', uint32), (''RxUsage'', uint8),
    (''RxPeakUsage'', uint8), (''OverrunErrs'', uint16), (''Msgs'', Arr 4 uint16),
    (''_'', Blank (Arr 8 uint8)), (''Skipped'', uint32)]"

definition ubx_MonGnss :: wty where
  "ubx_MonGnss = Struct [
    (''Version'', uint8), (''Supported'', uint8), (''DefaultGnss'', uint8), (''Enabled'', uint8),
    (''Simultaneous'', uint8), (''_'', Blank (Arr 3 uint8))]"

definition ubx_MonGnss1Fixed :: wty where
  "ubx_MonGnss1Fixed = Struct [
    (''Version'', uint8), (''NumPlans'', uint8), (''ActivePlanInfo'', uint16)]"

definition ubx_MonGnssPlan :: wty where
  "ubx_MonGnssPlan = Struct [
    (''ID'', uint8), (''Name'', Arr 5 uint8), (''GpsSup'', uint16), (''GalSup'', uint16),
    (''BdsSup'', uint16), (''GloSup'', uint16), (''SbasSup'', uint16), (''QzssSup'', uint16),
    (''NavicSup'', uint16), (''LbandSup'', uint16), (''_'', Blank (Arr 6 uint8))]"

definition ubx_MonHw :: wty where
  "ubx_MonHw = Struct [
    (''PinSel'', uint32), (''PinBank'', uint32), (''PinDir'', uint32), (''PinVal'', uint32),
    (''NoisePerMS'', uint16), (''AgcCnt'', uint16), (''AStatus'', uint8), (''APower'', uint8),
    (''Flags'', uint8), (''_'', Blank uint8), (''UsedMask'', uint32), (''VP'', Arr 17 uint8),
    (''CwSuppression'', uint8), (''_'', Blank (Arr 2 uint8)), (''PinIrq'', uint32),
    (''PullH'', uint32), (''PullL'', uint32)]"

definition ubx_MonMsgPP :: wty where
  "ubx_MonMsgPP = Struct [
    (''Msg'', Arr 6 (Arr 8 uint16)), (''Skipped'', Arr 6 uint32)]"

definition ubx_MonVerFixed :: wty where
  "ubx_MonVerFixed = Struct [
    (''SwVersion'', Arr 30 uint8), (''HwVersion'', Arr 10 uint8)]"

definition ubx_NavITOW :: wty where
  "ubx_NavITOW = Struct [
    (''ITOW'', uint32)]"

definition ubx_NavEOE :: wty where
  "ubx_NavEOE = Struct [
    (''NavITOW'', ubx_NavITOW)]"

definition ubx_NavClock :: wty where
  "ubx_NavClock = Struct [
    (''NavITOW'', ubx_NavITOW), (''ClkB'', int32), (''ClkD'', int32), (''TAcc'', uint32),
    (''FAcc'', uint32)]"

definition ubx_NavDOP :: wty where
  "ubx_NavDOP = Struct [
    (''NavITOW'', ubx_NavITOW), (''GDOP'', uint16), (''PDOP'', uint16), (''TDOP'', uint16),
    (''VDOP'', uint16), (''HDOP'', uint16), (''NDOP'', uint16), (''EDOP'', uint16)]"

definition ubx_NavPosECEF :: wty where
  "ubx_NavPosECEF = Struct [
    (''NavITOW'', ubx_NavITOW), (''ECEF'', Arr 3 int32), (''PAcc'', uint32)]"

definition ubx_NavVelECEF :: wty where
  "ubx_NavVelECEF = Struct [
    (''NavITOW'', ubx_NavITOW), (''ECEFV'', Arr 3 int32), (''SAcc'', uint32)]"

definition ubx_NavHPPosECEF :: wty where
  "ubx_NavHPPosECEF = Struct [
    (''Version'', uint8), (''_'', Blank (Arr 3 uint8)), (''NavITOW'', ubx_NavITOW),
    (''ECEF'', Arr 3 int32), (''ECEFHp'', Arr 3 int8), (''Flags'', uint8), (''PAcc'', uint32)]"

definition ubx_NavPosLLH :: wty where
  "ubx_NavPosLLH = Struct [
    (''NavITOW'', ubx_NavITOW), (''Lon'', int32), (''Lat'', int32), (''Height'', int32),
    (''HMSL'', int32), (''HAcc'', uint32), (''VAcc'', uint32)]"

definition ubx_NavHPPosLLH :: wty where
  "ubx_NavHPPosLLH = Struct [
    (''Version'', uint8), (''_'', Blank (Arr 2 uint8)), (''Flags'', uint8), (''NavITOW'', ubx_NavITOW),
    (''Lon'', int32), (''Lat'', int32), (''Height'', int32), (''HMSL'', int32), (''LonHp'', int8),
    (''LatHp'', int8), (''HeightHp'', int8), (''HMSLHp'', int8), (''HAcc'', uint32), (''VAcc'', uint32)]"

definition ubx_NavVelNED :: wty where
  "ubx_NavVelNED = Struct [
    (''NavITOW'', ubx_NavITOW), (''VelNED'', Arr 3 int32), (''Speed'', uint32), (''GSpeed'', uint32),
    (''Heading'', int32), (''SAcc'', uint32), (''CAcc'', uint32)]"

definition ubx_NavPVT :: wty where
  "ubx_NavPVT = Struct [
    (''NavITOW'', ubx_NavITOW), (''Year'', uint16), (''Month'', uint8), (''Day'', uint8),
    (''Hour'', uint8), (''Min'', uint8), (''Sec'', uint8), (''Valid'', uint8), (''TAcc'', uint32),
    (''Nano'', int32), (''FixType'', uint8), (''Flags'', uint8), (''Flags2'', uint8),
    (''NumSV'', uint8), (''Lon'', int32), (''Lat'', int32), (''Height'', int32), (''HMSL'', int32),
    (''HAcc'', uint32), (''VAcc'', uint32), (''VelN'', int32), (''VelE'', int32), (''VelD'', int32),
    (''GSpeed'', int32), (''HeadMot'', int32), (''SAcc'', uint32), (''HeadAcc'', uint32),
    (''PDOP'', uint16), (''Flags3'', uint16), (''_'', Blank (Arr 4 uint8)), (''HeadVeh'', int32),
    (''MagDec'', int16), (''MagAcc'', uint16)]"

definition ubx_NavSatFixed :: wty where
  "ubx_NavSatFixed = Struct [
    (''NavITOW'', ubx_NavITOW), (''Version'', uint8), (''NumSVs'', uint8), (''_'', Blank (Arr 2 uint8))]"

definition ubx_NavSatSV :: wty where
  "ubx_NavSatSV = Struct [
    (''GNSSID'', uint8), (''SVID'', uint8), (''CNO'', uint8), (''Elev'', int8), (''Azim'', int16),
    (''PRRes'', int16), (''Flags'', uint32)]"

definition ubx_NavSigFixed :: wty where
  "ubx_NavSigFixed = Struct [
    (''NavITOW'', ubx_NavITOW), (''Version'', uint8), (''NumSigs'', uint8), (''_'', Blank (Arr 2 uint8))]"

definition ubx_NavSigSignal :: wty where
  "ubx_NavSigSignal = Struct [
    (''GNSSID'', uint8), (''SVID'', uint8), (''SigID'', uint8), (''FreqID'', uint8),
    (''PRRes'', int16), (''CNO'', uint8), (''QualityInd'', uint8), (''CorrSource'', uint8),
    (''IonoModel'', uint8), (''SigFlags'', uint16), (''_'', Blank (Arr 4 uint8))]"

definition ubx_NavSVInfoFixed :: wty where
  "ubx_NavSVInfoFixed = Struct [
    (''NavITOW'', ubx_NavITOW), (''NumCh'', uint8), (''GlobalFlags'', uint8),
    (''_'', Blank (Arr 2 uint8))]"

definition ubx_NavSVInfoSV :: wty where
  "ubx_NavSVInfoSV = Struct [
    (''ChN'', uint8), (''SVID'', uint8), (''Flags'', uint8), (''Quality'', uint8), (''CNO'', uint8),
    (''Elev'', int8), (''Azim'', int16), (''PRRes'', int32)]"

definition ubx_NavSol :: wty where
  "ubx_NavSol = Struct [
    (''NavITOW'', ubx_NavITOW), (''FTOW'', int32), (''Week'', int16), (''GPSFixType'', uint8),
    (''Flags'', uint8), (''ECEF'', Arr 3 int32), (''PAcc'', uint32), (''ECEFV'', Arr 3 int32),
    (''SAcc'', uint32), (''PDOP'', uint16), (''_'', Blank uint8), (''NumSV'', uint8),
    (''_'', Blank (Arr 4 uint8))]"

definition ubx_NavTimeGPS :: wty where
  "ubx_NavTimeGPS = Struct [
    (''NavITOW'', ubx_NavITOW), (''FTOW'', int32), (''Week'', int16), (''LeapS'', uint8),
    (''Valid'', uint8), (''TAcc'', uint32)]"

definition ubx_NavTimeUTC :: wty where
  "ubx_NavTimeUTC = Struct [
    (''NavITOW'', ubx_NavITOW), (''TAcc'', uint32), (''Nano'', int32), (''Year'', uint16),
    (''Month'', uint8), (''Day'', uint8), (''Hour'', uint8), (''Min'', uint8), (''Sec'', uint8),
    (''Valid'', uint8)]"

definition ubx_NavTimeBDS :: wty where
  "ubx_NavTimeBDS = Struct [
    (''NavITOW'', ubx_NavITOW), (''SOW'', uint32), (''FSOW'', int32), (''Week'', int16),
    (''LeapS'', uint8), (''Valid'', uint8), (''TAcc'', uint32)]"

definition ubx_NavTimeGal :: wty where
  "ubx_NavTimeGal = Struct [
    (''NavITOW'', ubx_NavITOW), (''GalTOW'', uint32), (''FGalTOW'', int32), (''GalWno'', int16),
    (''LeapS'', uint8), (''Valid'', uint8), (''TAcc'', uint32)]"

definition ubx_NavTimeQZSS :: wty where
  "ubx_NavTimeQZSS = Struct [
    (''NavITOW'', ubx_NavITOW), (''QzssTow'', uint32), (''FQzssTow'', int32), (''QzssWno'', int16),
    (''LeapS'', uint8), (''Valid'', uint8), (''TAcc'', uint32)]"

definition ubx_NavTimeGLO :: wty where
  "ubx_NavTimeGLO = Struct [
    (''NavITOW'', ubx_NavITOW), (''TOD'', uint32), (''FTOD'', int32), (''Nt'', uint16),
    (''N4'', uint8), (''Valid'', uint8), (''TAcc'', uint32)]"

definition ubx_NavTimeLS :: wty where
  "ubx_NavTimeLS = Struct [
    (''NavITOW'', ubx_NavITOW), (''Version'', uint8), (''_'', Blank (Arr 3 uint8)),
    (''SrcOfCurrLS'', uint8), (''CurrLS'', int8), (''SrcOfLSChange'', uint8), (''LSChange'', int8),
    (''TimeToLSEvent'', int32), (''DateOfLSGPSWN'', uint16), (''DateOfLSGPSDN'', uint16),
    (''_'', Blank (Arr 3 uint8)), (''Valid'', uint8)]"

definition ubx_NavTimeTrusted :: wty where
  "ubx_NavTimeTrusted = Struct [
    (''Version'', uint8), (''RefSys'', uint8), (''Valid'', uint8), (''_'', Blank uint8),
    (''NavITOW'', ubx_NavITOW), (''IniWno'', uint16), (''PropWno'', uint16), (''IniTow'', uint32),
    (''PropTow'', uint32), (''IniTAcc'', uint32), (''PropTAcc'', uint32), (''DeltaS'', int32),
    (''DeltaMs'', int32), (''_'', Blank (Arr 4 uint8))]"

definition ubx_NavSvin :: wty where
  "ubx_NavSvin = Struct [
    (''Version'', uint8), (''_'', Blank (Arr 3 uint8)), (''NavITOW'', ubx_NavITOW), (''Dur'', uint32),
    (''MeanX'', int32), (''MeanY'', int32), (''MeanZ'', int32), (''MeanXHP'', int8),
    (''MeanYHP'', int8), (''MeanZHP'', int8), (''_'', Blank uint8), (''MeanAcc'', uint32),
    (''Obs'', uint32), (''Valid'', uint8), (''Active'', uint8), (''_'', Blank (Arr 2 uint8))]"

definition ubx_RxmCor :: wty where
  "ubx_RxmCor = Struct [
    (''Version'', uint8), (''EbNo'', uint8), (''_'', Blank (Arr 2 uint8)), (''StatusInfo'', uint32),
    (''MsgType'', uint16), (''MsgSubType'', uint16)]"

definition ubx_RxmRawxFixed :: wty where
  "ubx_RxmRawxFixed = Struct [
    (''RcvTow'', float64), (''Week'', uint16), (''LeapS'', int8), (''NumMeas'', uint8),
    (''RecStat'', uint8), (''Version'', uint8), (''_'', Blank (Arr 2 uint8))]"

definition ubx_RxmRawxMeas :: wty where
  "ubx_RxmRawxMeas = Struct [
    (''PrMes'', float64), (''CpMes'', float64), (''DoMes'', float32), (''GNSSID'', uint8),
    (''SVID'', uint8), (''SigID'', uint8), (''FreqID'', uint8), (''LockTime'', uint16),
    (''CNO'', uint8), (''PrStdev'', uint8), (''CpStdev'', uint8), (''DoStdev'', uint8),
    (''TrkStat'', uint8), (''_'', Blank uint8)]"

definition ubx_SecOsnmaFixed :: wty where
  "ubx_SecOsnmaFixed = Struct [
    (''Version'', uint8), (''NmaHeader'', uint8), (''OsnmaMonitoring'', uint16),
    (''TimSyncReq'', uint8), (''_'', Blank (Arr 3 uint8)), (''TimSyncReqDiff'', int32),
    (''_'', Blank (Arr 4 uint8)), (''DsmAuthentication'', uint32), (''TeslaKey'', uint32),
    (''GeneralAndTiming'', uint32)]"

definition ubx_SecOsnmaAuthSV :: wty where
  "ubx_SecOsnmaAuthSV = Struct [
    (''Bitfield1'', uint16), (''SvId'', uint8), (''Reserved2'', uint8)]"

definition ubx_TimTos :: wty where
  "ubx_TimTos = Struct [
    (''Version'', uint8), (''GNSSID'', uint8), (''_'', Blank (Arr 2 uint8)), (''Flags'', uint32),
    (''Year'', uint16), (''Month'', uint8), (''Day'', uint8), (''Hour'', uint8), (''Minute'', uint8),
    (''Second'', uint8), (''UTCStandard'', uint8), (''UTCOffset'', int32),
    (''UTCUncertainty'', uint32), (''Week'', uint32), (''TOW'', uint32), (''GNSSOffset'', int32),
    (''GNSSUncertainty'', uint32), (''IntOscOffset'', int32), (''IntOscUncertainty'', uint32),
    (''ExtOscOffset'', int32), (''ExtOscUncertainty'', uint32)]"

definition ubx_TimTP :: wty where
  "ubx_TimTP = Struct [
    (''TOWMS'', uint32), (''TOWSubMS'', uint32), (''QErr'', int32), (''Week'', uint16),
    (''Flags'', uint8), (''RefInfo'', uint8)]"

definition ubx_TimSvin :: wty where
  "ubx_TimSvin = Struct [
    (''Dur'', uint32), (''MeanX'', int32), (''MeanY'', int32), (''MeanZ'', int32), (''MeanV'', uint32),
    (''Obs'', uint32), (''Valid'', uint8), (''Active'', uint8), (''_'', Blank (Arr 2 uint8))]"

text \<open>The \<^verbatim>\<open>InitVaryingPart\<close> and \<^verbatim>\<open>IsHandled\<close> methods that are not a \<^verbatim>\<open>sliceLen\<close> or a version.\<close>

definition ubx_CfgCfg_init :: "nat \<Rightarrow> wval \<Rightarrow> wty option" where
  "ubx_CfgCfg_init payloadLen f =
     (if payloadLen = 13 then Some (Arr 1 uint8) else if payloadLen \<noteq> 12 then None else Some (Arr 0 uint8))"

definition ubx_InfText_init :: "nat \<Rightarrow> wval \<Rightarrow> wty option" where
  "ubx_InfText_init payloadLen f = Some (Arr payloadLen uint8)"

definition ubx_MgaIni_handled :: "wval \<Rightarrow> bool" where
  "ubx_MgaIni_handled f =
     (if field_int ubx_MgaIniFixed ''Type'' f \<in> {0x00, 0x01, 0x10, 0x11, 0x20, 0x21}
      then field_int ubx_MgaIniFixed ''Version'' f = 0 else False)"

text \<open>A payload struct with its length, or the rest as bytes when the type is not known.\<close>

definition ubx_mga_payload :: "(wty \<times> nat) option \<Rightarrow> nat \<Rightarrow> wty option" where
  "ubx_mga_payload p payloadLen = (case p of
      Some (t, expectedPayloadLen) \<Rightarrow> if expectedPayloadLen = payloadLen then Some t else None
    | None \<Rightarrow> if payloadLen < 2 then None else Some (Arr (payloadLen - 2) uint8))"

definition ubx_MgaIni_init :: "nat \<Rightarrow> wval \<Rightarrow> wty option" where
  "ubx_MgaIni_init payloadLen f =
     (let ty = field_int ubx_MgaIniFixed ''Type'' f in
      ubx_mga_payload
        (if ty = 0x00 then Some (ubx_MgaIniPosXYZ, 20)
         else if ty = 0x01 then Some (ubx_MgaIniPosLLH, 20)
         else if ty = 0x10 then Some (ubx_MgaIniTimeUTC, 24)
         else if ty = 0x11 then Some (ubx_MgaIniTimeGNSS, 24)
         else if ty = 0x20 then Some (ubx_MgaIniClkD, 12)
         else if ty = 0x21 then Some (ubx_MgaIniFreq, 12)
         else None) payloadLen)"

definition ubx_MgaGal_handled :: "wval \<Rightarrow> bool" where
  "ubx_MgaGal_handled f =
     (if field_int ubx_MgaGalFixed ''Type'' f \<in> {0x07, 0x08}
      then field_int ubx_MgaGalFixed ''Version'' f = 0 else False)"

definition ubx_MgaGal_init :: "nat \<Rightarrow> wval \<Rightarrow> wty option" where
  "ubx_MgaGal_init payloadLen f =
     (let ty = field_int ubx_MgaGalFixed ''Type'' f in
      ubx_mga_payload
        (if ty = 0x07 then Some (ubx_MgaGalOSNMAPubkey, 72)
         else if ty = 0x08 then Some (ubx_MgaGalOSNMAMerkle, 36)
         else None) payloadLen)"


section \<open>The message types\<close>

definition ubx_AckNak_msg :: msg_desc where
  "ubx_AckNak_msg = \<lparr> md_name = ''AckNak'', md_id = msgID ubx_clsAck 0x00, md_idName = ''NAK'',
     md_fixed = Some ubx_AckNak, md_handled = (\<lambda>f. True),
     md_varying = None, md_allowTrailing = False \<rparr>"

definition ubx_AckAck_msg :: msg_desc where
  "ubx_AckAck_msg = \<lparr> md_name = ''AckAck'', md_id = msgID ubx_clsAck 0x01, md_idName = ''ACK'',
     md_fixed = Some ubx_AckAck, md_handled = (\<lambda>f. True),
     md_varying = None, md_allowTrailing = False \<rparr>"

definition ubx_CfgCfg_msg :: msg_desc where
  "ubx_CfgCfg_msg = \<lparr> md_name = ''CfgCfg'', md_id = msgID ubx_clsCfg 0x09, md_idName = ''CFG'',
     md_fixed = Some ubx_CfgCfgFixed, md_handled = (\<lambda>f. True),
     md_varying = Some ubx_CfgCfg_init, md_allowTrailing = False \<rparr>"

definition ubx_CfgGNSS_msg :: msg_desc where
  "ubx_CfgGNSS_msg = \<lparr> md_name = ''CfgGNSS'', md_id = msgID ubx_clsCfg 0x3E, md_idName = ''GNSS'',
     md_fixed = Some ubx_CfgGNSSFixed, md_handled = (\<lambda>f. True),
     md_varying = Some (slice_of 4 8 ubx_CfgGNSSBlock), md_allowTrailing = False \<rparr>"

definition ubx_CfgInf_msg :: msg_desc where
  "ubx_CfgInf_msg = \<lparr> md_name = ''CfgInf'', md_id = msgID ubx_clsCfg 0x02, md_idName = ''INF'',
     md_fixed = None, md_handled = (\<lambda>f. True),
     md_varying = Some (slice_of 0 10 ubx_CfgInfBlock), md_allowTrailing = False \<rparr>"

definition ubx_CfgMsg_msg :: msg_desc where
  "ubx_CfgMsg_msg = \<lparr> md_name = ''CfgMsg'', md_id = msgID ubx_clsCfg 0x01, md_idName = ''MSG'',
     md_fixed = Some ubx_CfgMsg, md_handled = (\<lambda>f. True),
     md_varying = None, md_allowTrailing = False \<rparr>"

definition ubx_CfgNav5_msg :: msg_desc where
  "ubx_CfgNav5_msg = \<lparr> md_name = ''CfgNav5'', md_id = msgID ubx_clsCfg 0x24, md_idName = ''NAV5'',
     md_fixed = Some ubx_CfgNav5, md_handled = (\<lambda>f. True),
     md_varying = None, md_allowTrailing = False \<rparr>"

definition ubx_CfgPrt_msg :: msg_desc where
  "ubx_CfgPrt_msg = \<lparr> md_name = ''CfgPrt'', md_id = msgID ubx_clsCfg 0x00, md_idName = ''PRT'',
     md_fixed = Some ubx_CfgPrt, md_handled = (\<lambda>f. True),
     md_varying = None, md_allowTrailing = False \<rparr>"

definition ubx_CfgRate_msg :: msg_desc where
  "ubx_CfgRate_msg = \<lparr> md_name = ''CfgRate'', md_id = msgID ubx_clsCfg 0x08, md_idName = ''RATE'',
     md_fixed = Some ubx_CfgRate, md_handled = (\<lambda>f. True),
     md_varying = None, md_allowTrailing = False \<rparr>"

definition ubx_CfgRst_msg :: msg_desc where
  "ubx_CfgRst_msg = \<lparr> md_name = ''CfgRst'', md_id = msgID ubx_clsCfg 0x04, md_idName = ''RST'',
     md_fixed = Some ubx_CfgRst, md_handled = (\<lambda>f. True),
     md_varying = None, md_allowTrailing = False \<rparr>"

definition ubx_CfgTmode_msg :: msg_desc where
  "ubx_CfgTmode_msg = \<lparr> md_name = ''CfgTmode'', md_id = msgID ubx_clsCfg 0x1D, md_idName = ''TMODE'',
     md_fixed = Some ubx_CfgTmode, md_handled = (\<lambda>f. True),
     md_varying = None, md_allowTrailing = False \<rparr>"

definition ubx_CfgTmode2_msg :: msg_desc where
  "ubx_CfgTmode2_msg = \<lparr> md_name = ''CfgTmode2'', md_id = msgID ubx_clsCfg 0x3D, md_idName = ''TMODE2'',
     md_fixed = Some ubx_CfgTmode2, md_handled = (\<lambda>f. True),
     md_varying = None, md_allowTrailing = False \<rparr>"

definition ubx_CfgTmode3_msg :: msg_desc where
  "ubx_CfgTmode3_msg = \<lparr> md_name = ''CfgTmode3'', md_id = msgID ubx_clsCfg 0x71, md_idName = ''TMODE3'',
     md_fixed = Some ubx_CfgTmode3, md_handled = (\<lambda>f. field_int ubx_CfgTmode3 ''Version'' f = 0),
     md_varying = None, md_allowTrailing = False \<rparr>"

definition ubx_CfgTp5_msg :: msg_desc where
  "ubx_CfgTp5_msg = \<lparr> md_name = ''CfgTp5'', md_id = msgID ubx_clsCfg 0x31, md_idName = ''TP5'',
     md_fixed = Some ubx_CfgTp5, md_handled = (\<lambda>f. field_int ubx_CfgTp5 ''Version'' f = 0 \<or> field_int ubx_CfgTp5 ''Version'' f = 1),
     md_varying = None, md_allowTrailing = False \<rparr>"

definition ubx_CfgValget_msg :: msg_desc where
  "ubx_CfgValget_msg = \<lparr> md_name = ''CfgValget'', md_id = msgID ubx_clsCfg 0x8B, md_idName = ''VALGET'',
     md_fixed = Some ubx_CfgValgetFixed, md_handled = (\<lambda>f. True),
     md_varying = Some (slice_of 4 1 uint8), md_allowTrailing = False \<rparr>"

definition ubx_CfgValset_msg :: msg_desc where
  "ubx_CfgValset_msg = \<lparr> md_name = ''CfgValset'', md_id = msgID ubx_clsCfg 0x8A, md_idName = ''VALSET'',
     md_fixed = Some ubx_CfgValsetFixed, md_handled = (\<lambda>f. True),
     md_varying = Some (slice_of 4 1 uint8), md_allowTrailing = False \<rparr>"

definition ubx_CfgValdel_msg :: msg_desc where
  "ubx_CfgValdel_msg = \<lparr> md_name = ''CfgValdel'', md_id = msgID ubx_clsCfg 0x8C, md_idName = ''VALDEL'',
     md_fixed = Some ubx_CfgValdelFixed, md_handled = (\<lambda>f. True),
     md_varying = Some (slice_of 4 1 uint8), md_allowTrailing = False \<rparr>"

definition ubx_InfDebug_msg :: msg_desc where
  "ubx_InfDebug_msg = \<lparr> md_name = ''InfDebug'', md_id = msgID ubx_clsInf 0x04, md_idName = ''DEBUG'',
     md_fixed = None, md_handled = (\<lambda>f. True),
     md_varying = Some ubx_InfText_init, md_allowTrailing = False \<rparr>"

definition ubx_InfError_msg :: msg_desc where
  "ubx_InfError_msg = \<lparr> md_name = ''InfError'', md_id = msgID ubx_clsInf 0x00, md_idName = ''ERROR'',
     md_fixed = None, md_handled = (\<lambda>f. True),
     md_varying = Some ubx_InfText_init, md_allowTrailing = False \<rparr>"

definition ubx_InfNotice_msg :: msg_desc where
  "ubx_InfNotice_msg = \<lparr> md_name = ''InfNotice'', md_id = msgID ubx_clsInf 0x02, md_idName = ''NOTICE'',
     md_fixed = None, md_handled = (\<lambda>f. True),
     md_varying = Some ubx_InfText_init, md_allowTrailing = False \<rparr>"

definition ubx_InfTest_msg :: msg_desc where
  "ubx_InfTest_msg = \<lparr> md_name = ''InfTest'', md_id = msgID ubx_clsInf 0x03, md_idName = ''TEST'',
     md_fixed = None, md_handled = (\<lambda>f. True),
     md_varying = Some ubx_InfText_init, md_allowTrailing = False \<rparr>"

definition ubx_InfWarning_msg :: msg_desc where
  "ubx_InfWarning_msg = \<lparr> md_name = ''InfWarning'', md_id = msgID ubx_clsInf 0x01, md_idName = ''WARNING'',
     md_fixed = None, md_handled = (\<lambda>f. True),
     md_varying = Some ubx_InfText_init, md_allowTrailing = False \<rparr>"

definition ubx_MgaIni_msg :: msg_desc where
  "ubx_MgaIni_msg = \<lparr> md_name = ''MgaIni'', md_id = msgID ubx_clsMga 0x40, md_idName = ''INI'',
     md_fixed = Some ubx_MgaIniFixed, md_handled = (ubx_MgaIni_handled),
     md_varying = Some ubx_MgaIni_init, md_allowTrailing = False \<rparr>"

definition ubx_MgaGal_msg :: msg_desc where
  "ubx_MgaGal_msg = \<lparr> md_name = ''MgaGal'', md_id = msgID ubx_clsMga 0x02, md_idName = ''GAL'',
     md_fixed = Some ubx_MgaGalFixed, md_handled = (ubx_MgaGal_handled),
     md_varying = Some ubx_MgaGal_init, md_allowTrailing = False \<rparr>"

definition ubx_MonComms_msg :: msg_desc where
  "ubx_MonComms_msg = \<lparr> md_name = ''MonComms'', md_id = msgID ubx_clsMon 0x36, md_idName = ''COMMS'',
     md_fixed = Some ubx_MonCommsFixed, md_handled = (\<lambda>f. field_int ubx_MonCommsFixed ''Version'' f = 0),
     md_varying = Some (slice_of 8 40 ubx_MonCommsPort), md_allowTrailing = False \<rparr>"

definition ubx_MonGnss_msg :: msg_desc where
  "ubx_MonGnss_msg = \<lparr> md_name = ''MonGnss'', md_id = msgID ubx_clsMon 0x28, md_idName = ''GNSS'',
     md_fixed = Some ubx_MonGnss, md_handled = (\<lambda>f. field_int ubx_MonGnss ''Version'' f = 0),
     md_varying = None, md_allowTrailing = False \<rparr>"

definition ubx_MonGnss1_msg :: msg_desc where
  "ubx_MonGnss1_msg = \<lparr> md_name = ''MonGnss1'', md_id = msgID ubx_clsMon 0x28, md_idName = ''GNSS'',
     md_fixed = Some ubx_MonGnss1Fixed, md_handled = (\<lambda>f. field_int ubx_MonGnss1Fixed ''Version'' f = 1),
     md_varying = Some (slice_of 4 28 ubx_MonGnssPlan), md_allowTrailing = False \<rparr>"

definition ubx_MonHw_msg :: msg_desc where
  "ubx_MonHw_msg = \<lparr> md_name = ''MonHw'', md_id = msgID ubx_clsMon 0x09, md_idName = ''HW'',
     md_fixed = Some ubx_MonHw, md_handled = (\<lambda>f. True),
     md_varying = None, md_allowTrailing = False \<rparr>"

definition ubx_MonMsgPP_msg :: msg_desc where
  "ubx_MonMsgPP_msg = \<lparr> md_name = ''MonMsgPP'', md_id = msgID ubx_clsMon 0x06, md_idName = ''MSGPP'',
     md_fixed = Some ubx_MonMsgPP, md_handled = (\<lambda>f. True),
     md_varying = None, md_allowTrailing = False \<rparr>"

definition ubx_MonVer_msg :: msg_desc where
  "ubx_MonVer_msg = \<lparr> md_name = ''MonVer'', md_id = msgID ubx_clsMon 0x04, md_idName = ''VER'',
     md_fixed = Some ubx_MonVerFixed, md_handled = (\<lambda>f. True),
     md_varying = Some (slice_of (30+10) 30 (Arr 30 uint8)), md_allowTrailing = False \<rparr>"

definition ubx_NavEOE_msg :: msg_desc where
  "ubx_NavEOE_msg = \<lparr> md_name = ''NavEOE'', md_id = msgID ubx_clsNav 0x61, md_idName = ''EOE'',
     md_fixed = Some ubx_NavEOE, md_handled = (\<lambda>f. True),
     md_varying = None, md_allowTrailing = False \<rparr>"

definition ubx_NavClock_msg :: msg_desc where
  "ubx_NavClock_msg = \<lparr> md_name = ''NavClock'', md_id = msgID ubx_clsNav 0x22, md_idName = ''CLOCK'',
     md_fixed = Some ubx_NavClock, md_handled = (\<lambda>f. True),
     md_varying = None, md_allowTrailing = False \<rparr>"

definition ubx_NavDOP_msg :: msg_desc where
  "ubx_NavDOP_msg = \<lparr> md_name = ''NavDOP'', md_id = msgID ubx_clsNav 0x04, md_idName = ''DOP'',
     md_fixed = Some ubx_NavDOP, md_handled = (\<lambda>f. True),
     md_varying = None, md_allowTrailing = False \<rparr>"

definition ubx_NavPosECEF_msg :: msg_desc where
  "ubx_NavPosECEF_msg = \<lparr> md_name = ''NavPosECEF'', md_id = msgID ubx_clsNav 0x01, md_idName = ''POSECEF'',
     md_fixed = Some ubx_NavPosECEF, md_handled = (\<lambda>f. True),
     md_varying = None, md_allowTrailing = False \<rparr>"

definition ubx_NavHPPosECEF_msg :: msg_desc where
  "ubx_NavHPPosECEF_msg = \<lparr> md_name = ''NavHPPosECEF'', md_id = msgID ubx_clsNav 0x13, md_idName = ''HPPOSECEF'',
     md_fixed = Some ubx_NavHPPosECEF, md_handled = (\<lambda>f. field_int ubx_NavHPPosECEF ''Version'' f = 0),
     md_varying = None, md_allowTrailing = False \<rparr>"

definition ubx_NavPosLLH_msg :: msg_desc where
  "ubx_NavPosLLH_msg = \<lparr> md_name = ''NavPosLLH'', md_id = msgID ubx_clsNav 0x02, md_idName = ''POSLLH'',
     md_fixed = Some ubx_NavPosLLH, md_handled = (\<lambda>f. True),
     md_varying = None, md_allowTrailing = False \<rparr>"

definition ubx_NavHPPosLLH_msg :: msg_desc where
  "ubx_NavHPPosLLH_msg = \<lparr> md_name = ''NavHPPosLLH'', md_id = msgID ubx_clsNav 0x14, md_idName = ''HPPOSLLH'',
     md_fixed = Some ubx_NavHPPosLLH, md_handled = (\<lambda>f. field_int ubx_NavHPPosLLH ''Version'' f = 0),
     md_varying = None, md_allowTrailing = False \<rparr>"

definition ubx_NavPVT_msg :: msg_desc where
  "ubx_NavPVT_msg = \<lparr> md_name = ''NavPVT'', md_id = msgID ubx_clsNav 0x07, md_idName = ''PVT'',
     md_fixed = Some ubx_NavPVT, md_handled = (\<lambda>f. True),
     md_varying = None, md_allowTrailing = False \<rparr>"

definition ubx_NavSat_msg :: msg_desc where
  "ubx_NavSat_msg = \<lparr> md_name = ''NavSat'', md_id = msgID ubx_clsNav 0x35, md_idName = ''SAT'',
     md_fixed = Some ubx_NavSatFixed, md_handled = (\<lambda>f. field_int ubx_NavSatFixed ''Version'' f = 1),
     md_varying = Some (slice_of 8 12 ubx_NavSatSV), md_allowTrailing = False \<rparr>"

definition ubx_NavSig_msg :: msg_desc where
  "ubx_NavSig_msg = \<lparr> md_name = ''NavSig'', md_id = msgID ubx_clsNav 0x43, md_idName = ''SIG'',
     md_fixed = Some ubx_NavSigFixed, md_handled = (\<lambda>f. field_int ubx_NavSigFixed ''Version'' f = 0),
     md_varying = Some (slice_of 8 16 ubx_NavSigSignal), md_allowTrailing = False \<rparr>"

definition ubx_NavSVInfo_msg :: msg_desc where
  "ubx_NavSVInfo_msg = \<lparr> md_name = ''NavSVInfo'', md_id = msgID ubx_clsNav 0x30, md_idName = ''SVINFO'',
     md_fixed = Some ubx_NavSVInfoFixed, md_handled = (\<lambda>f. True),
     md_varying = Some (slice_of 8 12 ubx_NavSVInfoSV), md_allowTrailing = False \<rparr>"

definition ubx_NavSol_msg :: msg_desc where
  "ubx_NavSol_msg = \<lparr> md_name = ''NavSol'', md_id = msgID ubx_clsNav 0x06, md_idName = ''SOL'',
     md_fixed = Some ubx_NavSol, md_handled = (\<lambda>f. True),
     md_varying = None, md_allowTrailing = False \<rparr>"

definition ubx_NavSvin_msg :: msg_desc where
  "ubx_NavSvin_msg = \<lparr> md_name = ''NavSvin'', md_id = msgID ubx_clsNav 0x3B, md_idName = ''SVIN'',
     md_fixed = Some ubx_NavSvin, md_handled = (\<lambda>f. field_int ubx_NavSvin ''Version'' f = 0),
     md_varying = None, md_allowTrailing = False \<rparr>"

definition ubx_NavTimeGPS_msg :: msg_desc where
  "ubx_NavTimeGPS_msg = \<lparr> md_name = ''NavTimeGPS'', md_id = msgID ubx_clsNav 0x20, md_idName = ''TIMEGPS'',
     md_fixed = Some ubx_NavTimeGPS, md_handled = (\<lambda>f. True),
     md_varying = None, md_allowTrailing = False \<rparr>"

definition ubx_NavTimeBDS_msg :: msg_desc where
  "ubx_NavTimeBDS_msg = \<lparr> md_name = ''NavTimeBDS'', md_id = msgID ubx_clsNav 0x24, md_idName = ''TIMEBDS'',
     md_fixed = Some ubx_NavTimeBDS, md_handled = (\<lambda>f. True),
     md_varying = None, md_allowTrailing = False \<rparr>"

definition ubx_NavTimeGal_msg :: msg_desc where
  "ubx_NavTimeGal_msg = \<lparr> md_name = ''NavTimeGal'', md_id = msgID ubx_clsNav 0x25, md_idName = ''TIMEGAL'',
     md_fixed = Some ubx_NavTimeGal, md_handled = (\<lambda>f. True),
     md_varying = None, md_allowTrailing = False \<rparr>"

definition ubx_NavTimeGLO_msg :: msg_desc where
  "ubx_NavTimeGLO_msg = \<lparr> md_name = ''NavTimeGLO'', md_id = msgID ubx_clsNav 0x23, md_idName = ''TIMEGLO'',
     md_fixed = Some ubx_NavTimeGLO, md_handled = (\<lambda>f. True),
     md_varying = None, md_allowTrailing = False \<rparr>"

definition ubx_NavTimeQZSS_msg :: msg_desc where
  "ubx_NavTimeQZSS_msg = \<lparr> md_name = ''NavTimeQZSS'', md_id = msgID ubx_clsNav 0x27, md_idName = ''TIMEQZSS'',
     md_fixed = Some ubx_NavTimeQZSS, md_handled = (\<lambda>f. True),
     md_varying = None, md_allowTrailing = False \<rparr>"

definition ubx_NavTimeUTC_msg :: msg_desc where
  "ubx_NavTimeUTC_msg = \<lparr> md_name = ''NavTimeUTC'', md_id = msgID ubx_clsNav 0x21, md_idName = ''TIMEUTC'',
     md_fixed = Some ubx_NavTimeUTC, md_handled = (\<lambda>f. True),
     md_varying = None, md_allowTrailing = False \<rparr>"

definition ubx_NavTimeLS_msg :: msg_desc where
  "ubx_NavTimeLS_msg = \<lparr> md_name = ''NavTimeLS'', md_id = msgID ubx_clsNav 0x26, md_idName = ''TIMELS'',
     md_fixed = Some ubx_NavTimeLS, md_handled = (\<lambda>f. field_int ubx_NavTimeLS ''Version'' f = 0),
     md_varying = None, md_allowTrailing = False \<rparr>"

definition ubx_NavTimeTrusted_msg :: msg_desc where
  "ubx_NavTimeTrusted_msg = \<lparr> md_name = ''NavTimeTrusted'', md_id = msgID ubx_clsNav 0x64, md_idName = ''TIMETRUSTED'',
     md_fixed = Some ubx_NavTimeTrusted, md_handled = (\<lambda>f. field_int ubx_NavTimeTrusted ''Version'' f = 1),
     md_varying = None, md_allowTrailing = False \<rparr>"

definition ubx_NavVelECEF_msg :: msg_desc where
  "ubx_NavVelECEF_msg = \<lparr> md_name = ''NavVelECEF'', md_id = msgID ubx_clsNav 0x11, md_idName = ''VELECEF'',
     md_fixed = Some ubx_NavVelECEF, md_handled = (\<lambda>f. True),
     md_varying = None, md_allowTrailing = False \<rparr>"

definition ubx_NavVelNED_msg :: msg_desc where
  "ubx_NavVelNED_msg = \<lparr> md_name = ''NavVelNED'', md_id = msgID ubx_clsNav 0x12, md_idName = ''VELNED'',
     md_fixed = Some ubx_NavVelNED, md_handled = (\<lambda>f. True),
     md_varying = None, md_allowTrailing = False \<rparr>"

definition ubx_RxmCor_msg :: msg_desc where
  "ubx_RxmCor_msg = \<lparr> md_name = ''RxmCor'', md_id = msgID ubx_clsRxm 0x34, md_idName = ''COR'',
     md_fixed = Some ubx_RxmCor, md_handled = (\<lambda>f. field_int ubx_RxmCor ''Version'' f = 1),
     md_varying = None, md_allowTrailing = False \<rparr>"

definition ubx_RxmRawx_msg :: msg_desc where
  "ubx_RxmRawx_msg = \<lparr> md_name = ''RxmRawx'', md_id = msgID ubx_clsRxm 0x15, md_idName = ''RAWX'',
     md_fixed = Some ubx_RxmRawxFixed, md_handled = (\<lambda>f. field_int ubx_RxmRawxFixed ''Version'' f = 1),
     md_varying = Some (slice_of 16 32 ubx_RxmRawxMeas), md_allowTrailing = False \<rparr>"

definition ubx_SecOsnma_msg :: msg_desc where
  "ubx_SecOsnma_msg = \<lparr> md_name = ''SecOsnma'', md_id = msgID ubx_clsSec 0x0A, md_idName = ''OSNMA'',
     md_fixed = Some ubx_SecOsnmaFixed, md_handled = (\<lambda>f. field_int ubx_SecOsnmaFixed ''Version'' f = 3),
     md_varying = Some (slice_of 28 4 ubx_SecOsnmaAuthSV), md_allowTrailing = False \<rparr>"

definition ubx_TimSvin_msg :: msg_desc where
  "ubx_TimSvin_msg = \<lparr> md_name = ''TimSvin'', md_id = msgID ubx_clsTim 0x04, md_idName = ''SVIN'',
     md_fixed = Some ubx_TimSvin, md_handled = (\<lambda>f. True),
     md_varying = None, md_allowTrailing = False \<rparr>"

definition ubx_TimTos_msg :: msg_desc where
  "ubx_TimTos_msg = \<lparr> md_name = ''TimTos'', md_id = msgID ubx_clsTim 0x12, md_idName = ''TOS'',
     md_fixed = Some ubx_TimTos, md_handled = (\<lambda>f. field_int ubx_TimTos ''Version'' f = 0),
     md_varying = None, md_allowTrailing = False \<rparr>"

definition ubx_TimTP_msg :: msg_desc where
  "ubx_TimTP_msg = \<lparr> md_name = ''TimTP'', md_id = msgID ubx_clsTim 0x01, md_idName = ''TP'',
     md_fixed = Some ubx_TimTP, md_handled = (\<lambda>f. True),
     md_varying = None, md_allowTrailing = False \<rparr>"

definition ubx_ack_msgs :: "msg_desc list" where
  "ubx_ack_msgs = [ubx_AckNak_msg, ubx_AckAck_msg]"

definition ubx_cfg_msgs :: "msg_desc list" where
  "ubx_cfg_msgs = [ubx_CfgCfg_msg, ubx_CfgGNSS_msg, ubx_CfgInf_msg, ubx_CfgMsg_msg, ubx_CfgNav5_msg,
     ubx_CfgPrt_msg, ubx_CfgRate_msg, ubx_CfgRst_msg, ubx_CfgTmode_msg, ubx_CfgTmode2_msg,
     ubx_CfgTmode3_msg, ubx_CfgTp5_msg, ubx_CfgValget_msg, ubx_CfgValset_msg, ubx_CfgValdel_msg]"

definition ubx_inf_msgs :: "msg_desc list" where
  "ubx_inf_msgs = [ubx_InfDebug_msg, ubx_InfError_msg, ubx_InfNotice_msg, ubx_InfTest_msg, ubx_InfWarning_msg]"

definition ubx_mga_msgs :: "msg_desc list" where
  "ubx_mga_msgs = [ubx_MgaIni_msg, ubx_MgaGal_msg]"

definition ubx_mon_msgs :: "msg_desc list" where
  "ubx_mon_msgs = [ubx_MonComms_msg, ubx_MonGnss_msg, ubx_MonGnss1_msg, ubx_MonHw_msg, ubx_MonMsgPP_msg,
     ubx_MonVer_msg]"

definition ubx_nav_msgs :: "msg_desc list" where
  "ubx_nav_msgs = [ubx_NavEOE_msg, ubx_NavClock_msg, ubx_NavDOP_msg, ubx_NavPosECEF_msg, ubx_NavHPPosECEF_msg,
     ubx_NavPosLLH_msg, ubx_NavHPPosLLH_msg, ubx_NavPVT_msg, ubx_NavSat_msg, ubx_NavSig_msg,
     ubx_NavSVInfo_msg, ubx_NavSol_msg, ubx_NavSvin_msg, ubx_NavTimeGPS_msg, ubx_NavTimeBDS_msg,
     ubx_NavTimeGal_msg, ubx_NavTimeGLO_msg, ubx_NavTimeQZSS_msg, ubx_NavTimeUTC_msg,
     ubx_NavTimeLS_msg, ubx_NavTimeTrusted_msg, ubx_NavVelECEF_msg, ubx_NavVelNED_msg]"

definition ubx_rxm_msgs :: "msg_desc list" where
  "ubx_rxm_msgs = [ubx_RxmCor_msg, ubx_RxmRawx_msg]"

definition ubx_sec_msgs :: "msg_desc list" where
  "ubx_sec_msgs = [ubx_SecOsnma_msg]"

definition ubx_tim_msgs :: "msg_desc list" where
  "ubx_tim_msgs = [ubx_TimSvin_msg, ubx_TimTos_msg, ubx_TimTP_msg]"

definition ubx_msgs :: "msg_desc list" where
  "ubx_msgs = ubx_ack_msgs @ ubx_cfg_msgs @ ubx_inf_msgs @ ubx_mga_msgs @ ubx_mon_msgs @ ubx_nav_msgs @ ubx_rxm_msgs @ ubx_sec_msgs @ ubx_tim_msgs"

definition ubx_msg_idNames :: "(msg_id \<times> string) list" where
  "ubx_msg_idNames = [
     (msgID ubx_clsRxm 0x10, ''RAW''), (msgID ubx_clsRxm 0x12, ''SFRB''),
     (msgID ubx_clsRxm 0x13, ''SFRBX''), (msgID ubx_clsRxm 0x15, ''RAWX''),
     (msgID ubx_clsRtcm 0x05, ''1005''), (msgID ubx_clsRtcm 0x06, ''1006''),
     (msgID ubx_clsRtcm 0x07, ''1007''), (msgID ubx_clsRtcm 0x4A, ''1074''),
     (msgID ubx_clsRtcm 0x4D, ''1077''), (msgID ubx_clsRtcm 0x54, ''1084''),
     (msgID ubx_clsRtcm 0x57, ''1087''), (msgID ubx_clsRtcm 0x5E, ''1094''),
     (msgID ubx_clsRtcm 0x61, ''1097''), (msgID ubx_clsRtcm 0x7C, ''1124''),
     (msgID ubx_clsRtcm 0x7F, ''1127''), (msgID ubx_clsRtcm 0xE6, ''1230''),
     (msgID ubx_clsNmea 0x00, ''GGA''), (msgID ubx_clsNmea 0x01, ''GLL''),
     (msgID ubx_clsNmea 0x02, ''GSA''), (msgID ubx_clsNmea 0x03, ''GSV''),
     (msgID ubx_clsNmea 0x04, ''RMC''), (msgID ubx_clsNmea 0x05, ''VTG''),
     (msgID ubx_clsNmea 0x08, ''ZDA''), (msgID ubx_clsNmea 0x0D, ''GNS'')]"

text \<open>\<^verbatim>\<open>idNameMap\<close>, in the order the files initialise it; a later entry overwrites.\<close>

definition ubx_idNameMap :: "(msg_id \<times> string) list" where
  "ubx_idNameMap = map (\<lambda>d. (md_id d, md_idName d)) ubx_ack_msgs
     @ map (\<lambda>d. (md_id d, md_idName d)) ubx_cfg_msgs
     @ map (\<lambda>d. (md_id d, md_idName d)) ubx_inf_msgs
     @ map (\<lambda>d. (md_id d, md_idName d)) ubx_mga_msgs
     @ map (\<lambda>d. (md_id d, md_idName d)) ubx_mon_msgs
     @ ubx_msg_idNames
     @ map (\<lambda>d. (md_id d, md_idName d)) ubx_nav_msgs
     @ map (\<lambda>d. (md_id d, md_idName d)) ubx_rxm_msgs
     @ map (\<lambda>d. (md_id d, md_idName d)) ubx_sec_msgs
     @ map (\<lambda>d. (md_id d, md_idName d)) ubx_tim_msgs"

lemmas ubx_layout_defs = ubx_AckNak_def ubx_AckAck_def ubx_CfgCfgFixed_def ubx_CfgMsg_def
  ubx_CfgInfBlock_def ubx_CfgNav5_def ubx_CfgPrt_def ubx_CfgRate_def ubx_CfgRst_def ubx_CfgTp5_def
  ubx_CfgTmode_def ubx_CfgTmode2_def ubx_CfgTmode3_def ubx_CfgGNSSFixed_def ubx_CfgGNSSBlock_def
  ubx_CfgValgetFixed_def ubx_CfgValsetFixed_def ubx_CfgValdelFixed_def ubx_MgaIniFixed_def
  ubx_MgaIniPosXYZ_def ubx_MgaIniPosLLH_def ubx_MgaIniTimeUTC_def ubx_MgaIniTimeGNSS_def
  ubx_MgaIniClkD_def ubx_MgaIniFreq_def ubx_MgaGalFixed_def ubx_MgaGalOSNMAPubkey_def
  ubx_MgaGalOSNMAMerkle_def ubx_MonCommsFixed_def ubx_MonCommsPort_def ubx_MonGnss_def
  ubx_MonGnss1Fixed_def ubx_MonGnssPlan_def ubx_MonHw_def ubx_MonMsgPP_def ubx_MonVerFixed_def
  ubx_NavITOW_def ubx_NavEOE_def ubx_NavClock_def ubx_NavDOP_def ubx_NavPosECEF_def
  ubx_NavVelECEF_def ubx_NavHPPosECEF_def ubx_NavPosLLH_def ubx_NavHPPosLLH_def ubx_NavVelNED_def
  ubx_NavPVT_def ubx_NavSatFixed_def ubx_NavSatSV_def ubx_NavSigFixed_def ubx_NavSigSignal_def
  ubx_NavSVInfoFixed_def ubx_NavSVInfoSV_def ubx_NavSol_def ubx_NavTimeGPS_def ubx_NavTimeUTC_def
  ubx_NavTimeBDS_def ubx_NavTimeGal_def ubx_NavTimeQZSS_def ubx_NavTimeGLO_def ubx_NavTimeLS_def
  ubx_NavTimeTrusted_def ubx_NavSvin_def ubx_RxmCor_def ubx_RxmRawxFixed_def ubx_RxmRawxMeas_def
  ubx_SecOsnmaFixed_def ubx_SecOsnmaAuthSV_def ubx_TimTos_def ubx_TimTP_def ubx_TimSvin_def

lemmas ubx_msg_defs = ubx_AckNak_msg_def ubx_AckAck_msg_def ubx_CfgCfg_msg_def ubx_CfgGNSS_msg_def
  ubx_CfgInf_msg_def ubx_CfgMsg_msg_def ubx_CfgNav5_msg_def ubx_CfgPrt_msg_def ubx_CfgRate_msg_def
  ubx_CfgRst_msg_def ubx_CfgTmode_msg_def ubx_CfgTmode2_msg_def ubx_CfgTmode3_msg_def
  ubx_CfgTp5_msg_def ubx_CfgValget_msg_def ubx_CfgValset_msg_def ubx_CfgValdel_msg_def
  ubx_InfDebug_msg_def ubx_InfError_msg_def ubx_InfNotice_msg_def ubx_InfTest_msg_def
  ubx_InfWarning_msg_def ubx_MgaIni_msg_def ubx_MgaGal_msg_def ubx_MonComms_msg_def
  ubx_MonGnss_msg_def ubx_MonGnss1_msg_def ubx_MonHw_msg_def ubx_MonMsgPP_msg_def ubx_MonVer_msg_def
  ubx_NavEOE_msg_def ubx_NavClock_msg_def ubx_NavDOP_msg_def ubx_NavPosECEF_msg_def
  ubx_NavHPPosECEF_msg_def ubx_NavPosLLH_msg_def ubx_NavHPPosLLH_msg_def ubx_NavPVT_msg_def
  ubx_NavSat_msg_def ubx_NavSig_msg_def ubx_NavSVInfo_msg_def ubx_NavSol_msg_def ubx_NavSvin_msg_def
  ubx_NavTimeGPS_msg_def ubx_NavTimeBDS_msg_def ubx_NavTimeGal_msg_def ubx_NavTimeGLO_msg_def
  ubx_NavTimeQZSS_msg_def ubx_NavTimeUTC_msg_def ubx_NavTimeLS_msg_def ubx_NavTimeTrusted_msg_def
  ubx_NavVelECEF_msg_def ubx_NavVelNED_msg_def ubx_RxmCor_msg_def ubx_RxmRawx_msg_def
  ubx_SecOsnma_msg_def ubx_TimSvin_msg_def ubx_TimTos_msg_def ubx_TimTP_msg_def

lemmas ubx_lists = ubx_msgs_def ubx_ack_msgs_def ubx_cfg_msgs_def ubx_inf_msgs_def ubx_mga_msgs_def
  ubx_mon_msgs_def ubx_nav_msgs_def ubx_rxm_msgs_def ubx_sec_msgs_def ubx_tim_msgs_def

section \<open>The table\<close>

lemma ubx_CfgCfg_good: "desc_wf ubx_CfgCfg_msg \<and> desc_exact ubx_CfgCfg_msg"
  by (auto simp: desc_wf_def desc_exact_def fixed_size_def ubx_msg_defs ubx_CfgCfg_init_def ubx_layout_defs split: if_splits)

lemma ubx_inf_good:
  "md_varying d = Some ubx_InfText_init \<Longrightarrow> md_fixed d = None \<Longrightarrow> desc_wf d \<and> desc_exact d"
  by (auto simp: desc_wf_def desc_exact_def fixed_size_def ubx_InfText_init_def)

lemma ubx_mga_payload_Some: "ubx_mga_payload p n = Some t \<longleftrightarrow> p = Some (t, n) \<or> p = None \<and> 2 \<le> n \<and> t = Arr (n - 2) uint8"
  by (auto simp: ubx_mga_payload_def split: option.splits if_splits)

lemma ubx_MgaIni_good: "desc_wf ubx_MgaIni_msg \<and> desc_exact ubx_MgaIni_msg"
  by (auto simp: desc_wf_def desc_exact_def fixed_size_def ubx_msg_defs ubx_MgaIni_init_def ubx_mga_payload_Some
      ubx_layout_defs Let_def split: if_splits)

lemma ubx_MgaGal_good: "desc_wf ubx_MgaGal_msg \<and> desc_exact ubx_MgaGal_msg"
  by (auto simp: desc_wf_def desc_exact_def fixed_size_def ubx_msg_defs ubx_MgaGal_init_def ubx_mga_payload_Some
      ubx_layout_defs Let_def split: if_splits)

lemma ubx_layouts: "list_all (\<lambda>d. desc_wf d \<and> desc_exact d) ubx_msgs"
  unfolding ubx_lists append.simps list.pred_inject(2)
  by (intro conjI [of "P \<and> Q" for P Q] list.pred_inject(1))
    ((rule ubx_CfgCfg_good ubx_MgaIni_good ubx_MgaGal_good)
    | (rule good_plain, simp add: ubx_msg_defs, simp add: ubx_msg_defs, simp add: ubx_layout_defs)
    | (rule good_slice, simp add: ubx_msg_defs, simp add: ubx_msg_defs, simp, simp add: ubx_layout_defs, simp add: ubx_layout_defs)
    | (rule ubx_inf_good, simp add: ubx_msg_defs, simp add: ubx_msg_defs))+

interpretation ubx: exact_table ubx_msgs
  by unfold_locales (use ubx_layouts in \<open>simp_all add: list_all_iff\<close>)


lemma ubx_names: "distinct (map md_name ubx_msgs)"
  unfolding ubx_lists append.simps list.map ubx_msg_defs msg_desc.simps by simp

text \<open>The ids are distinct but for the two versions of MON-GNSS.\<close>

definition ubx_before :: "msg_desc list" where
  "ubx_before = ubx_ack_msgs @ ubx_cfg_msgs @ ubx_inf_msgs @ ubx_mga_msgs @ [ubx_MonComms_msg, ubx_MonGnss_msg]"

definition ubx_after :: "msg_desc list" where
  "ubx_after = [ubx_MonHw_msg, ubx_MonMsgPP_msg, ubx_MonVer_msg] @ ubx_nav_msgs @ ubx_rxm_msgs @ ubx_sec_msgs @ ubx_tim_msgs"

lemma ubx_split: "ubx_msgs = ubx_before @ ubx_MonGnss1_msg # ubx_after"
  by (simp add: ubx_msgs_def ubx_before_def ubx_after_def ubx_mon_msgs_def)

lemma ubx_ids: "distinct (map md_id (ubx_before @ ubx_after))"
  unfolding ubx_before_def ubx_after_def ubx_lists append.simps list.map ubx_msg_defs msg_desc.simps by simp

lemma ubx_lookup:
  assumes "d \<in> set ubx_msgs" "d \<noteq> ubx_MonGnss1_msg"
  shows "\<exists>es. msgMap_all ubx_msgs (md_id d) = d # es"
proof -
  from assms have d: "d \<in> set (ubx_before @ ubx_after)" by (simp add: ubx_split)
  note f = filter_id [OF ubx_ids d]
  show ?thesis
  proof (cases "md_id d = md_id ubx_MonGnss_msg")
    case True
    have "filter (\<lambda>e. md_id e = md_id d) (ubx_before @ ubx_after) = [ubx_MonGnss_msg]"
      using filter_id [OF ubx_ids, of ubx_MonGnss_msg] True by (simp add: ubx_before_def)
    with f have "d = ubx_MonGnss_msg" "filter (\<lambda>e. md_id e = md_id d) (ubx_before @ ubx_after) = [d]" by simp_all
    show ?thesis
    proof -
      have "\<exists>es. filter (\<lambda>e. md_id e = md_id d) ubx_before = d # es"
        using \<open>d = ubx_MonGnss_msg\<close> f by (auto simp: ubx_before_def append_eq_Cons_conv filter_empty_conv split: if_splits)
      then show ?thesis by (auto simp: msgMap_all_def ubx_split)
    qed
  next
    case False
    then have "md_id ubx_MonGnss1_msg \<noteq> md_id d" by (simp add: ubx_msg_defs)
    with f show ?thesis by (simp add: msgMap_all_def ubx_split)
  qed
qed

lemma ubx_gnss_ctors: "msgMap_all ubx_msgs (md_id ubx_MonGnss1_msg) = [ubx_MonGnss_msg, ubx_MonGnss1_msg]"
  unfolding msgMap_all_def ubx_lists append.simps by (simp add: ubx_msg_defs)

lemma ubx_serialize_known:
  assumes "msg_payload (KnownMsg d fixed vary) = Some payload" "length payload \<le> 0xFFFF"
  shows "\<exists>pkt. ubx_serialize (KnownMsg d fixed vary) = Some (Inr pkt) \<and> ubx_packMsg (md_id d) payload = Inr pkt"
  using assms by (auto simp: ubx_serialize_def msg_id_of_def ubx_packMsg_def Let_def split: prod.split)

text \<open>What the MON-GNSS constructor says of a payload: too short, another version, or its own.\<close>

lemma mon_gnss_parse:
  "tryParseMsg payload ubx_MonGnss_msg = (if length payload < 8 then Inl ReadFailed
     else if payload ! 0 \<noteq> 0 then Inr None
     else if length payload = 8 then tryParseMsg payload ubx_MonGnss_msg else Inl TrailingBytes)"
proof (cases "length payload < 8")
  case True
  then have "wget ubx_MonGnss payload = None" by (intro wget_None) (simp_all add: ubx_MonGnss_def)
  with True show ?thesis by (simp add: tryParseMsg_def read_fixed_def ubx_MonGnss_msg_def)
next
  case False
  then obtain b bs where p: "payload = b # bs" "7 \<le> length bs" by (cases payload) auto
  have u: "unat b = 0 \<longleftrightarrow> b = 0" by (simp add: unat_eq_0)
  from p(2) have "\<exists>vs. wget ubx_MonGnss payload = Some (VSeq (VInt (uint b) # vs), drop 8 payload)"
    unfolding p ubx_MonGnss_def
    by (simp add: prim_get_def Let_def numeral_eq_Suc) arith
  then obtain vs where v: "wget ubx_MonGnss payload = Some (VSeq (VInt (uint b) # vs), drop 8 payload)" by blast
  have h: "field_int ubx_MonGnss ''Version'' (VSeq (VInt (uint b) # vs)) = uint b"
    by (simp add: field_int_def ubx_MonGnss_def)
  have "b = 0 \<longleftrightarrow> uint b = 0" by (simp add: uint_0_iff)
  have "field_int ubx_MonGnss ''Version'' (VSeq (VInt 0 # vs)) = 0" by (simp add: field_int_def ubx_MonGnss_def)
  with v h False p \<open>b = 0 \<longleftrightarrow> uint b = 0\<close> show ?thesis
    by (simp add: tryParseMsg_def read_fixed_def ubx_MonGnss_msg_def read_varying_def)
qed

lemma msg_ok_MonGnss1:
  assumes "msg_ok ubx_MonGnss1_msg fixed vary" "msg_payload (KnownMsg ubx_MonGnss1_msg fixed vary) = Some payload"
  shows "payload ! 0 = 1 \<and> payload \<noteq> []"
proof -
  from assms(1) have f: "has_type fixed ubx_MonGnss1Fixed" "field_int ubx_MonGnss1Fixed ''Version'' fixed = 1"
    by (simp_all add: msg_ok_def ubx_MonGnss1_msg_def)
  then obtain vs where "fixed = VSeq (VInt 1 # vs)"
    unfolding ubx_MonGnss1Fixed_def by (cases fixed; cases "case fixed of VSeq vs \<Rightarrow> vs | _ \<Rightarrow> []")
      (auto simp: field_int_def elim!: has_type.elims)
  with assms(2) show ?thesis
    by (auto simp: msg_payload_def ubx_MonGnss1_msg_def ubx_MonGnss1Fixed_def bind_Some_iff prim_put_def)
qed

lemma ubx_skips:
  assumes "msg_ok d fixed vary" "msg_payload (KnownMsg d fixed vary) = Some payload" "d \<in> set ubx_msgs"
    and "d = ubx_MonGnss1_msg \<Longrightarrow> 8 \<le> length payload"
  shows "\<exists>ds es. msgMap_all ubx_msgs (md_id d) = ds @ d # es \<and> (\<forall>e \<in> set ds. tryParseMsg payload e = Inr None)"
proof (cases "d = ubx_MonGnss1_msg")
  case False
  from ubx_lookup [OF assms(3) this] show ?thesis by (metis append_Nil empty_iff empty_set)
next
  case True
  have "msgMap_all ubx_msgs (md_id d) = [ubx_MonGnss_msg] @ d # []"
    using True ubx_gnss_ctors by simp
  moreover have "tryParseMsg payload ubx_MonGnss_msg = Inr None"
    using msg_ok_MonGnss1 [of fixed vary payload] assms True by (subst mon_gnss_parse) simp
  ultimately show ?thesis by (metis empty_iff empty_set set_ConsD)
qed

text \<open>\<^verbatim>\<open>Ackable\<close>, \<^verbatim>\<open>InfClass\<close> and \<^verbatim>\<open>RTCMMsgID\<close>.\<close>

definition ubx_ackable :: "msg_id \<Rightarrow> bool" where
  "ubx_ackable mid \<longleftrightarrow> cfgClass ubx_clsCfg mid \<and> mid \<noteq> msgID ubx_clsCfg 0x04"

definition ubx_infClass :: "msg_id \<Rightarrow> bool" where
  "ubx_infClass mid = (let (cls, _) = unpackMsgID mid in cls = ubx_clsInf)"

definition ubx_rtcmMsgID :: "int \<Rightarrow> msg_id option" where
  "ubx_rtcmMsgID msgType =
     (if 1000 < msgType \<and> msgType < 1256 then Some (word_of_int (0xF5 OR push_bit 8 (msgType - 1000))) else None)"

section \<open>Properties\<close>

text \<open>C3: a registered UBX message, serialized, is a complete UBX packet with a valid checksum,
  and \<^verbatim>\<open>ParseMsg\<close> of the packet returns the message. (The payload of a MON-GNSS version 1 message
  must have at least one plan: see \<open>ubx_gnss_no_plans\<close>.)\<close>
theorem ubx_roundtrip:
  assumes "d \<in> set ubx_msgs" "msg_ok d fixed vary"
    and "msg_payload (KnownMsg d fixed vary) = Some payload" "length payload \<le> 0xFFFF"
    and "d = ubx_MonGnss1_msg \<Longrightarrow> 8 \<le> length payload"
  shows "\<exists>pkt. ubx_serialize (KnownMsg d fixed vary) = Some (Inr pkt)
    \<and> complete ubxFormat pkt \<and> ubx_extractChecksum pkt = ubx_computeChecksum pkt
    \<and> ubx_parseMsg (msgMap_all ubx_msgs) pkt = Inr (KnownMsg d fixed vary)"
proof -
  obtain pkt where p: "ubx_serialize (KnownMsg d fixed vary) = Some (Inr pkt)" "ubx_packMsg (md_id d) payload = Inr pkt"
    using ubx_serialize_known [OF assms(3,4)] by blast
  obtain ds es where "msgMap_all ubx_msgs (md_id d) = ds @ d # es" "\<forall>e \<in> set ds. tryParseMsg payload e = Inr None"
    using ubx_skips [OF assms(2,3,1,5)] by blast
  with ubx_parse_serialize [OF assms(2) _ p(1)] assms(3)
  have "ubx_parseMsg (msgMap_all ubx_msgs) pkt = Inr (KnownMsg d fixed vary)" by force
  with p ubx_pack_packet(1,2) [OF p(2)] show ?thesis by blast
qed

theorem ubx_roundtrip_witness:
  "\<exists>pkt. ubx_serialize (KnownMsg ubx_AckAck_msg (VSeq [VInt 262]) None) = Some (Inr pkt)
    \<and> complete ubxFormat pkt \<and> ubx_extractChecksum pkt = ubx_computeChecksum pkt
    \<and> ubx_parseMsg (msgMap_all ubx_msgs) pkt = Inr (KnownMsg ubx_AckAck_msg (VSeq [VInt 262]) None)"
  by (rule ubx_roundtrip [of ubx_AckAck_msg "VSeq [VInt 262]" None "[6, 1]"])
    (simp_all add: ubx_lists msg_ok_def ubx_AckAck_msg_def ubx_AckAck_def ubx_MonGnss1_msg_def msg_payload_def
      prim_ok_def prim_put_def numeral_2_eq_2)

text \<open>C4: a UBX packet that \<^verbatim>\<open>ParseMsg\<close> accepts, registered type or not, can be serialized
  again; the packet has the same length and parses to the same message.\<close>
theorem ubx_reparse:
  assumes "ubx_parseMsg (msgMap_all ubx_msgs) pkt = Inr m" "length pkt \<le> 0xFFFF"
  shows "\<exists>pkt'. ubx_serialize m = Some (Inr pkt') \<and> length pkt' = length pkt
    \<and> ubx_parseMsg (msgMap_all ubx_msgs) pkt' = Inr m"
proof -
  define trimmed where "trimmed = take (length pkt - 2 - 2) (drop 2 pkt)"
  define mid where "mid = makeMsgID (trimmed ! 0) (trimmed ! 1)"
  define payload where "payload = drop 4 trimmed"
  from assms(1) have len: "8 \<le> length pkt" and t: "try_ctors mid payload (msgMap_all ubx_msgs mid) = Inr m"
    by (auto simp: ubx_parseMsg_def Let_def trimmed_def mid_def payload_def split: if_splits)
  have plen: "length pkt = 8 + length payload" using len by (simp add: payload_def trimmed_def)
  from try_ctors_result [OF t] show ?thesis
  proof (elim disjE exE conjE)
    assume m: "m = UnknownMsg mid payload" "\<forall>d \<in> set (msgMap_all ubx_msgs mid). tryParseMsg payload d = Inr None"
    obtain pkt' where p': "ubx_packMsg mid payload = Inr pkt'"
      using plen assms(2) ubx_packMsg_total [of payload mid] by auto
    with m have "ubx_serialize m = Some (Inr pkt')" by (simp add: ubx_serialize_def msg_payload_def msg_id_of_def)
    with p' ubx_parse_pack [OF p'] ubx_pack_packet(4) [OF p'] plen t show ?thesis by auto
  next
    fix as d bs
    assume d: "msgMap_all ubx_msgs mid = as @ d # bs" "\<forall>e \<in> set as. tryParseMsg payload e = Inr None"
      "tryParseMsg payload d = Inr (Some m)"
    from d(1) have dm: "d \<in> set ubx_msgs" "md_id d = mid" "set as \<subseteq> set ubx_msgs"
      using filter_is_subset [of "\<lambda>d. md_id d = mid" ubx_msgs] filter_set [of "\<lambda>d. md_id d = mid" ubx_msgs]
      by (auto simp: msgMap_all_def)
    from ubx.parsed_ok [OF dm(1) d(3)] obtain fixed vary where
      m: "m = KnownMsg d fixed vary" "msg_ok d fixed vary"
        "length payload = fixed_size d + (case vary of None \<Rightarrow> 0 | Some (t, v) \<Rightarrow> wsize t)" by blast
    from msg_ok_payload [OF m(2)] obtain payload' where p': "msg_payload m = Some payload'" using m(1) by blast
    with msg_ok_length [OF m(2)] m(1,3) have same: "length payload' = length payload" by simp
    have "d = ubx_MonGnss1_msg \<Longrightarrow> 8 \<le> length payload'"
    proof -
      assume "d = ubx_MonGnss1_msg"
      moreover have "ubx_MonGnss_msg \<noteq> ubx_MonGnss1_msg" by (simp add: ubx_msg_defs)
      ultimately have "as = [ubx_MonGnss_msg]"
        using d(1) dm(2) ubx_gnss_ctors by (auto simp: append_eq_Cons_conv)
      with d(2) mon_gnss_parse [of payload] same show "8 \<le> length payload'" by (auto split: if_splits)
    qed
    with ubx_roundtrip [of d fixed vary payload'] dm m(1,2) p' same plen assms(2)
    obtain pkt' where q: "ubx_serialize m = Some (Inr pkt')" "ubx_parseMsg (msgMap_all ubx_msgs) pkt' = Inr m" by auto
    then have "ubx_packMsg mid payload' = Inr pkt'" using p' m(1) dm(2) by (simp add: ubx_serialize_def msg_id_of_def)
    from ubx_pack_packet(4) [OF this] q plen same show ?thesis by auto
  qed
qed

theorem ubx_reparse_witness:
  "\<exists>pkt'. ubx_serialize (KnownMsg ubx_AckAck_msg (VSeq [VInt 262]) None) = Some (Inr pkt') \<and> length pkt' = 10
    \<and> ubx_parseMsg (msgMap_all ubx_msgs) pkt' = Inr (KnownMsg ubx_AckAck_msg (VSeq [VInt 262]) None)"
proof -
  let ?pkt = "[0xB5, 0x62, 0x05, 0x01, 0x02, 0x00, 0x06, 0x01, 0x0F, 0x38] :: bytes"
  have "msgMap_all ubx_msgs (makeMsgID 5 1) = [ubx_AckAck_msg]"
    unfolding makeMsgID_msgID msgMap_all_def ubx_lists append.simps by (simp add: ubx_msg_defs)
  then have p: "ubx_parseMsg (msgMap_all ubx_msgs) ?pkt = Inr (KnownMsg ubx_AckAck_msg (VSeq [VInt 262]) None)"
    by (simp add: ubx_parseMsg_def tryParseMsg_def read_fixed_def read_varying_def ubx_AckAck_msg_def ubx_AckAck_def
        prim_get_def Let_def)
  have len: "length ?pkt = 10" by simp
  have "length ?pkt \<le> 0xFFFF" unfolding len by simp
  from ubx_reparse [OF p this] show ?thesis unfolding len .
qed

text \<open>\<^verbatim>\<open>MonGnss\<close> is registered before \<^verbatim>\<open>MonGnss1\<close> and reads eight bytes before it looks at
  the version, so a MON-GNSS version 1 message without plans, whose payload has four, is packed
  but does not parse back: \<^verbatim>\<open>ParseMsg\<close> returns the read error of the version 0 type.\<close>
lemma ubx_gnss_no_plans:
  "msg_ok ubx_MonGnss1_msg (VSeq [VInt 1, VInt 0, VInt 0]) (Some (Arr 0 ubx_MonGnssPlan, VSeq []))
    \<and> (\<exists>pkt. ubx_serialize (KnownMsg ubx_MonGnss1_msg (VSeq [VInt 1, VInt 0, VInt 0]) (Some (Arr 0 ubx_MonGnssPlan, VSeq [])))
          = Some (Inr pkt)
        \<and> ubx_parseMsg (msgMap_all ubx_msgs) pkt = Inl ReadFailed)"
proof -
  let ?f = "VSeq [VInt 1, VInt 0, VInt 0]" and ?v = "Some (Arr 0 ubx_MonGnssPlan, VSeq [])"
  have p: "msg_payload (KnownMsg ubx_MonGnss1_msg ?f ?v) = Some [1, 0, 0, 0]"
    by (simp add: msg_payload_def ubx_MonGnss1_msg_def ubx_MonGnss1Fixed_def prim_put_def numeral_2_eq_2)
  have ok: "msg_ok ubx_MonGnss1_msg ?f ?v"
    by (simp add: msg_ok_def ubx_MonGnss1_msg_def ubx_MonGnss1Fixed_def prim_ok_def field_int_def slice_of_Some)
  from ubx_serialize_known [OF p] obtain pkt where
    "ubx_serialize (KnownMsg ubx_MonGnss1_msg ?f ?v) = Some (Inr pkt)" "ubx_packMsg (md_id ubx_MonGnss1_msg) [1, 0, 0, 0] = Inr pkt"
    by auto
  with ok ubx_parse_pack [of "md_id ubx_MonGnss1_msg" "[1, 0, 0, 0]" pkt "msgMap_all ubx_msgs"]
    mon_gnss_parse [of "[1, 0, 0, 0]"] ubx_gnss_ctors show ?thesis by auto
qed

text \<open>The lengths the \<^verbatim>\<open>InitVaryingPart\<close> methods check are those of the layouts: a payload
  that has the fixed part of a registered type, and that the type handles, parses exactly when
  its length is the one that the method accepts; no read fails and no byte is left over.\<close>
lemma ubx_accepts:
  assumes "d \<in> set ubx_msgs" "read_fixed d payload = Some (fixed, r)" "md_handled d fixed"
  shows "(\<exists>m. tryParseMsg payload d = Inr (Some m)) \<longleftrightarrow> accepts_len d fixed (length payload)"
proof -
  have "\<not> md_allowTrailing d" using assms(1) by (auto simp: ubx_lists ubx_msg_defs)
  from ubx.accepted_iff [OF assms(1) this assms(2,3)] show ?thesis .
qed

end
