(* ===== verification/CasMsgs.thy ===== *)
theory CasMsgs
  imports MsgTable
begin



section \<open>Classes\<close>

abbreviation (input) cas_clsNav :: byte where "cas_clsNav \<equiv> 0x01"
abbreviation (input) cas_clsTim :: byte where "cas_clsTim \<equiv> 0x02"
abbreviation (input) cas_clsRxm :: byte where "cas_clsRxm \<equiv> 0x03"
abbreviation (input) cas_clsAck :: byte where "cas_clsAck \<equiv> 0x05"
abbreviation (input) cas_clsCfg :: byte where "cas_clsCfg \<equiv> 0x06"
abbreviation (input) cas_clsMsg :: byte where "cas_clsMsg \<equiv> 0x08"
abbreviation (input) cas_clsMon :: byte where "cas_clsMon \<equiv> 0x0A"
abbreviation (input) cas_clsAid :: byte where "cas_clsAid \<equiv> 0x0B"
abbreviation (input) cas_clsNav2 :: byte where "cas_clsNav2 \<equiv> 0x11"
abbreviation (input) cas_clsTim2 :: byte where "cas_clsTim2 \<equiv> 0x12"
abbreviation (input) cas_clsRxm2 :: byte where "cas_clsRxm2 \<equiv> 0x13"
abbreviation (input) cas_clsIns2 :: byte where "cas_clsIns2 \<equiv> 0x14"
abbreviation (input) cas_clsRtcm2 :: byte where "cas_clsRtcm2 \<equiv> 0x15"
abbreviation (input) cas_clsNmea :: byte where "cas_clsNmea \<equiv> 0x4E"

definition cas_clsMap :: "(byte \<times> string) list" where
  "cas_clsMap = [(cas_clsNav, ''NAV''), (cas_clsTim, ''TIM''), (cas_clsRxm, ''RXM''), (cas_clsAck, ''ACK''),
     (cas_clsCfg, ''CFG''), (cas_clsMsg, ''MSG''), (cas_clsMon, ''MON''), (cas_clsAid, ''AID''),
     (cas_clsNmea, ''NMEA'')]"

section \<open>The layouts\<close>

definition cas_AckPayload :: wty where
  "cas_AckPayload = Struct [
    (''ClsID'', uint8), (''MsgID'', uint8), (''_'', Blank uint16)]"

definition cas_AckNak :: wty where
  "cas_AckNak = Struct [
    (''AckPayload'', cas_AckPayload)]"

definition cas_AckAck :: wty where
  "cas_AckAck = Struct [
    (''AckPayload'', cas_AckPayload)]"

definition cas_CfgMsg :: wty where
  "cas_CfgMsg = Struct [
    (''Target'', uint16), (''Rate'', uint16)]"

definition cas_CfgPrt :: wty where
  "cas_CfgPrt = Struct [
    (''PortID'', uint8), (''ProtoMask'', uint8), (''Mode'', uint16), (''BaudRate'', uint32)]"

definition cas_CfgRate :: wty where
  "cas_CfgRate = Struct [
    (''FixIntervalMs'', uint16), (''FixRateHz'', uint8), (''Res'', uint8)]"

definition cas_CfgCfg :: wty where
  "cas_CfgCfg = Struct [
    (''Mask'', uint16), (''OpMode'', uint8), (''Res'', uint8)]"

definition cas_CfgRst :: wty where
  "cas_CfgRst = Struct [
    (''NavBbrMask'', uint16), (''ResetMode'', uint8), (''StartMode'', uint8)]"

definition cas_CfgTP :: wty where
  "cas_CfgTP = Struct [
    (''Interval'', uint32), (''Width'', uint32), (''PPSOutMode'', uint8), (''Polarity'', uint8),
    (''TBase'', uint8), (''TSrcMode'', uint8), (''UserDelay'', float32)]"

definition cas_CfgNavx :: wty where
  "cas_CfgNavx = Struct [
    (''Mask'', uint32), (''DynModel'', uint8), (''FixMode'', uint8), (''MinSVs'', uint8),
    (''MaxSVs'', uint8), (''MinCNO'', uint8), (''Res1'', uint8), (''IniFix3D'', uint8),
    (''MinElev'', int8), (''DrLimit'', uint8), (''NavSystem'', uint8), (''WnRollOver'', uint16),
    (''FixedAlt'', float32), (''FixedAltVar'', float32), (''PDop'', float32), (''TDop'', float32),
    (''PAcc'', float32), (''TAcc'', float32), (''StaticHoldTh'', float32)]"

definition cas_CfgTMode :: wty where
  "cas_CfgTMode = Struct [
    (''Mode'', uint16), (''Res'', uint16), (''EcefX'', float64), (''EcefY'', float64),
    (''EcefZ'', float64), (''PosVar'', float32), (''SvinMinDur'', uint32), (''SvinVarLimit'', float32)]"

definition cas_CfgNavBand :: wty where
  "cas_CfgNavBand = Struct [
    (''SigBandAuto'', uint8), (''Res1'', uint8), (''Res2'', uint16), (''SigIDMaskFix'', uint32),
    (''SigIDMask'', uint32)]"

definition cas_CfgNmea :: wty where
  "cas_CfgNmea = Struct [
    (''NmeaVer'', uint8), (''LatLonReso'', uint8), (''HeightReso'', uint8), (''GsaPlus'', uint8),
    (''NmeaValidOpen'', uint8), (''Res'', uint8), (''Res2'', uint16)]"

definition cas_CfgNavLimit :: wty where
  "cas_CfgNavLimit = Struct [
    (''MinSVs'', uint8), (''MaxSVs'', uint8), (''MinCNO'', uint8), (''MinElev'', int8),
    (''Res'', uint32)]"

definition cas_CfgRtcm :: wty where
  "cas_CfgRtcm = Struct [
    (''MsgEnable'', uint32), (''MsmVer'', uint8), (''Res'', uint8), (''Res2'', uint16),
    (''Res3'', uint32), (''Res4'', uint32)]"

definition cas_CfgTMode2 :: wty where
  "cas_CfgTMode2 = Struct [
    (''TimFixMode'', uint8), (''BandMode'', uint8), (''AntDetMode'', uint8), (''TSrcMode'', uint8),
    (''XFixed'', int32), (''YFixed'', int32), (''ZFixed'', int32), (''FixedPacc'', uint32),
    (''SvinMinDur'', uint32), (''SvinPaccLim'', uint32)]"

definition cas_MonVer :: wty where
  "cas_MonVer = Struct [
    (''SwVersion'', Arr 32 uint8), (''HwVersion'', Arr 32 uint8)]"

definition cas_MsgBDSUTC :: wty where
  "cas_MsgBDSUTC = Struct [
    (''_'', Blank uint32), (''A0UTC'', int32), (''A1UTC'', int32), (''Dtls'', int8), (''Dtlsf'', int8),
    (''_'', Blank uint8), (''_'', Blank uint8), (''Wnlsf'', uint8), (''Dn'', uint8), (''Valid'', int8),
    (''_'', Blank uint8)]"

definition cas_MsgGPSUTC :: wty where
  "cas_MsgGPSUTC = Struct [
    (''Tot'', uint32), (''A0UTC'', int32), (''A1UTC'', int32), (''Dtls'', int8), (''Dtlsf'', int8),
    (''Wnt'', uint8), (''_'', Blank uint8), (''Wnlsf'', uint8), (''Dn'', uint8), (''Valid'', int8),
    (''_'', Blank uint8)]"

definition cas_NavRunTime :: wty where
  "cas_NavRunTime = Struct [
    (''RunTime'', uint32)]"

definition cas_NavSol :: wty where
  "cas_NavSol = Struct [
    (''NavRunTime'', cas_NavRunTime), (''PosValid'', uint8), (''VelValid'', uint8),
    (''TimeSrc'', uint8), (''System'', uint8), (''NumSV'', uint8), (''NumSVGPS'', uint8),
    (''NumSVBDS'', uint8), (''NumSVGLN'', uint8), (''_'', Blank uint16), (''Week'', uint16),
    (''TOW'', float64), (''ECEFX'', float64), (''ECEFY'', float64), (''ECEFZ'', float64),
    (''PAcc'', float32), (''ECEFVX'', float32), (''ECEFVY'', float32), (''ECEFVZ'', float32),
    (''SAcc'', float32), (''PDOP'', float32)]"

definition cas_NavPv :: wty where
  "cas_NavPv = Struct [
    (''NavRunTime'', cas_NavRunTime), (''PosValid'', uint8), (''VelValid'', uint8),
    (''System'', uint8), (''NumSV'', uint8), (''NumSVGPS'', uint8), (''NumSVBDS'', uint8),
    (''NumSVGLN'', uint8), (''_'', Blank uint8), (''PDOP'', float32), (''Lon'', float64),
    (''Lat'', float64), (''Height'', float32), (''SepGeoid'', float32), (''HAcc'', float32),
    (''VAcc'', float32), (''VelN'', float32), (''VelE'', float32), (''VelU'', float32),
    (''Speed3D'', float32), (''Speed2D'', float32), (''Heading'', float32), (''SAcc'', float32),
    (''CAcc'', float32)]"

definition cas_NavDop :: wty where
  "cas_NavDop = Struct [
    (''NavRunTime'', cas_NavRunTime), (''PDOP'', float32), (''HDOP'', float32), (''VDOP'', float32),
    (''NDOP'', float32), (''EDOP'', float32), (''TDOP'', float32)]"

definition cas_NavTimeUTC :: wty where
  "cas_NavTimeUTC = Struct [
    (''NavRunTime'', cas_NavRunTime), (''TAcc'', float32), (''MsErr'', float32), (''Ms'', uint16),
    (''Year'', uint16), (''Month'', uint8), (''Day'', uint8), (''Hour'', uint8), (''Min'', uint8),
    (''Sec'', uint8), (''Valid'', uint8), (''TimeSrc'', uint8), (''DateValid'', uint8)]"

definition cas_NavClockSys :: wty where
  "cas_NavClockSys = Struct [
    (''TOW'', float64), (''DtUTC'', float32), (''Wn'', uint16), (''Leaps'', int8), (''Valid'', uint8)]"

definition cas_NavClock :: wty where
  "cas_NavClock = Struct [
    (''NavRunTime'', cas_NavRunTime), (''FreqBias'', float32), (''TAcc'', float32),
    (''FAcc'', float32), (''Systems'', Arr 3 cas_NavClockSys)]"

definition cas_NavSatInfoFixed :: wty where
  "cas_NavSatInfoFixed = Struct [
    (''NavRunTime'', cas_NavRunTime), (''NumViewSV'', uint8), (''NumFixSV'', uint8),
    (''System'', uint8), (''_'', Blank uint8)]"

definition cas_NavSVInfo :: wty where
  "cas_NavSVInfo = Struct [
    (''Chn'', uint8), (''SVID'', uint8), (''Flags'', uint8), (''Quality'', uint8), (''CNO'', uint8),
    (''Elev'', int8), (''Azim'', int16), (''PRRes'', float32)]"

definition cas_Nav2TOW :: wty where
  "cas_Nav2TOW = Struct [
    (''TOW'', int32)]"

definition cas_Nav2Sol :: wty where
  "cas_Nav2Sol = Struct [
    (''Nav2TOW'', cas_Nav2TOW), (''Wn'', uint16), (''_'', Blank uint16), (''FixFlags'', uint8),
    (''VelFlags'', uint8), (''_'', Blank uint8), (''GnssMask'', uint8), (''NumFixTot'', uint8),
    (''NumFixGPS'', uint8), (''NumFixBDS'', uint8), (''NumFixGLN'', uint8), (''NumFixGAL'', uint8),
    (''NumFixQZSS'', uint8), (''NumFixSBAS'', uint8), (''NumFixIRN'', uint8), (''_'', Blank uint32),
    (''X'', float64), (''Y'', float64), (''Z'', float64), (''PAcc'', float32), (''VX'', float32),
    (''VY'', float32), (''VZ'', float32), (''SAcc'', float32), (''PDOP'', float32)]"

definition cas_Nav2Pvh :: wty where
  "cas_Nav2Pvh = Struct [
    (''Nav2TOW'', cas_Nav2TOW), (''Wn'', uint16), (''_'', Blank uint16), (''FixFlags'', uint8),
    (''VelFlags'', uint8), (''_'', Blank uint8), (''GnssMask'', uint8), (''NumFixTot'', uint8),
    (''NumFixGPS'', uint8), (''NumFixBDS'', uint8), (''NumFixGLN'', uint8), (''NumFixGAL'', uint8),
    (''NumFixQZSS'', uint8), (''NumFixSBAS'', uint8), (''NumFixIRN'', uint8), (''_'', Blank uint32),
    (''Lon'', float64), (''Lat'', float64), (''Height'', float32), (''SepGeoid'', float32),
    (''VelE'', float32), (''VelN'', float32), (''VelU'', float32), (''Speed3D'', float32),
    (''Speed2D'', float32), (''Heading'', float32), (''HAcc'', float32), (''VAcc'', float32),
    (''SAcc'', float32), (''CAcc'', float32)]"

definition cas_Nav2Dop :: wty where
  "cas_Nav2Dop = Struct [
    (''PDOP'', float32), (''HDOP'', float32), (''VDOP'', float32), (''NDOP'', float32),
    (''EDOP'', float32), (''TDOP'', float32)]"

definition cas_Nav2TimeUTC :: wty where
  "cas_Nav2TimeUTC = Struct [
    (''TAcc'', float32), (''Subms'', int32), (''Subcs'', int8), (''Cs'', uint8), (''Year'', uint16),
    (''Month'', uint8), (''Day'', uint8), (''Hour'', uint8), (''Min'', uint8), (''Sec'', uint8),
    (''TFlags'', uint8), (''TimeSrc'', uint8), (''LeapSec'', int8)]"

definition cas_Nav2SigFixed :: wty where
  "cas_Nav2SigFixed = Struct [
    (''TOW'', uint32), (''_'', Blank uint8), (''NumTrkTot'', uint8), (''NumFixTot'', uint8),
    (''_'', Blank uint8)]"

definition cas_Nav2SigInfo :: wty where
  "cas_Nav2SigInfo = Struct [
    (''GNSSID'', uint8), (''SVID'', uint8), (''SigID'', uint8), (''FreqID'', uint8),
    (''PRRes'', int16), (''CNO'', uint8), (''TrkInd'', uint8), (''CorFlags'', uint8),
    (''SolFlags'', uint8), (''Chn'', uint8), (''Elev'', uint8), (''Azim'', uint16),
    (''IonoDelay'', int16)]"

definition cas_Rxm2MeasxFixed :: wty where
  "cas_Rxm2MeasxFixed = Struct [
    (''RawTOW'', uint32), (''RawTOWSubms'', int32), (''Wn'', uint16), (''LeapSec'', int8),
    (''NumMeas'', uint8), (''TimeFlags'', uint8), (''TSrc'', uint8), (''_'', Blank uint8),
    (''_'', Blank uint8)]"

definition cas_Rxm2MeasxMeas :: wty where
  "cas_Rxm2MeasxMeas = Struct [
    (''PRMes'', float64), (''CPMes'', float64), (''CPRateMes'', float32), (''GNSSID'', uint8),
    (''SVID'', uint8), (''SigID'', uint8), (''FreqID'', uint8), (''CPLockTime'', uint16),
    (''CNO'', uint8), (''PRRMS'', uint8), (''DORMS'', uint8), (''_'', Blank uint8),
    (''TrkFlags'', uint8), (''Chn'', uint8)]"

definition cas_TimTP :: wty where
  "cas_TimTP = Struct [
    (''RunTime'', uint32), (''QErr'', float32), (''TOW'', float64), (''Wn'', uint16),
    (''RefTime'', uint8), (''UTCValid'', uint8), (''_'', Blank uint32)]"

definition cas_Tim2Tpx :: wty where
  "cas_Tim2Tpx = Struct [
    (''TOW'', uint32), (''TOWSubms'', int32), (''Wn'', uint16), (''PPSFlag'', uint8),
    (''TBase'', uint8), (''TSrc'', uint8), (''_'', Blank uint8), (''_'', Blank uint16),
    (''_'', Blank uint16), (''LeapSec'', int8), (''QuanErr'', int8), (''TAcc'', int16),
    (''Dt2Utc'', int16)]"

definition cas_Tim2TimeGNSS :: wty where
  "cas_Tim2TimeGNSS = Struct [
    (''Nav2TOW'', cas_Nav2TOW), (''TOWSubms'', int32), (''Wn'', uint16), (''TOWFlag'', uint8),
    (''WnFlag'', uint8), (''TotSec'', uint32), (''TAcc'', float32), (''Dt2Utc'', float32),
    (''DtLsfUtc'', int32), (''Ls'', int8), (''Lsf'', int8), (''TFlag'', uint8), (''TSrc'', uint8),
    (''UtcFlag'', uint8), (''LsFlag'', uint8), (''LsYear'', uint16)]"

definition cas_Tim2TimeGPS :: wty where
  "cas_Tim2TimeGPS = Struct [
    (''Tim2TimeGNSS'', cas_Tim2TimeGNSS)]"

definition cas_Tim2TimeBDS :: wty where
  "cas_Tim2TimeBDS = Struct [
    (''Tim2TimeGNSS'', cas_Tim2TimeGNSS)]"

definition cas_Tim2TimeGLN :: wty where
  "cas_Tim2TimeGLN = Struct [
    (''Tim2TimeGNSS'', cas_Tim2TimeGNSS)]"

definition cas_Tim2TimeGAL :: wty where
  "cas_Tim2TimeGAL = Struct [
    (''Tim2TimeGNSS'', cas_Tim2TimeGNSS)]"

definition cas_Tim2TimeIRN :: wty where
  "cas_Tim2TimeIRN = Struct [
    (''Tim2TimeGNSS'', cas_Tim2TimeGNSS)]"

definition cas_Tim2TimePos :: wty where
  "cas_Tim2TimePos = Struct [
    (''XTim'', float64), (''YTim'', float64), (''ZTim'', float64), (''XFix'', float64),
    (''YFix'', float64), (''ZFix'', float64), (''SurTimer'', uint32), (''SurPacc'', float32),
    (''FixFlag'', uint8), (''TimFixMode'', uint8), (''PRResiRms'', uint16), (''PosBias'', uint16),
    (''PDOP'', uint8), (''_'', Blank uint8)]"

definition cas_Tim2Ls :: wty where
  "cas_Tim2Ls = Struct [
    (''UtcExpPrnMask'', uint64), (''GNSSID'', uint8), (''SigID'', uint8), (''SVID'', uint8),
    (''RaimType'', uint8), (''Wnlsf'', uint8), (''Dn'', uint8), (''Dtls'', int8), (''Dtlsf'', int8)]"

definition cas_Tim2Ly :: wty where
  "cas_Tim2Ly = Struct [
    (''WntExpPrnMask'', uint64), (''GNSSID'', uint8), (''SigID'', uint8), (''SVID'', uint8),
    (''RaimType'', uint8), (''WnBias'', int16), (''_'', Blank uint16)]"

definition cas_Tim2Tcxo :: wty where
  "cas_Tim2Tcxo = Struct [
    (''DfuRatio'', float32), (''Dfu2Tcxo'', float32), (''DfxRatio'', float32), (''VcBias'', int32),
    (''FrqFlag'', uint8), (''TcxoDoCnt'', uint8), (''_'', Blank uint16)]"

text \<open>The \<^verbatim>\<open>InitVaryingPart\<close> methods that look at a count in the fixed part.\<close>

definition cas_Nav2Sig_init :: "nat \<Rightarrow> wval \<Rightarrow> wty option" where
  "cas_Nav2Sig_init payloadLen f = Some (Arr (nat (field_int cas_Nav2SigFixed ''NumTrkTot'' f)) cas_Nav2SigInfo)"

definition cas_Rxm2Measx_init :: "nat \<Rightarrow> wval \<Rightarrow> wty option" where
  "cas_Rxm2Measx_init payloadLen f = do {
     n \<leftarrow> sliceLen payloadLen 16 32;
     if int n \<noteq> field_int cas_Rxm2MeasxFixed ''NumMeas'' f then None
     else Some (Arr n cas_Rxm2MeasxMeas) }"


section \<open>The message types\<close>

definition cas_AckNak_msg :: msg_desc where
  "cas_AckNak_msg = \<lparr> md_name = ''AckNak'', md_id = msgID cas_clsAck 0x00, md_idName = ''NAK'',
     md_fixed = Some cas_AckNak, md_handled = (\<lambda>f. True),
     md_varying = None, md_allowTrailing = False \<rparr>"

definition cas_AckAck_msg :: msg_desc where
  "cas_AckAck_msg = \<lparr> md_name = ''AckAck'', md_id = msgID cas_clsAck 0x01, md_idName = ''ACK'',
     md_fixed = Some cas_AckAck, md_handled = (\<lambda>f. True),
     md_varying = None, md_allowTrailing = False \<rparr>"

definition cas_CfgMsg_msg :: msg_desc where
  "cas_CfgMsg_msg = \<lparr> md_name = ''CfgMsg'', md_id = msgID cas_clsCfg 0x01, md_idName = ''MSG'',
     md_fixed = Some cas_CfgMsg, md_handled = (\<lambda>f. True),
     md_varying = None, md_allowTrailing = False \<rparr>"

definition cas_CfgPrt_msg :: msg_desc where
  "cas_CfgPrt_msg = \<lparr> md_name = ''CfgPrt'', md_id = msgID cas_clsCfg 0x00, md_idName = ''PRT'',
     md_fixed = Some cas_CfgPrt, md_handled = (\<lambda>f. True),
     md_varying = None, md_allowTrailing = False \<rparr>"

definition cas_CfgRate_msg :: msg_desc where
  "cas_CfgRate_msg = \<lparr> md_name = ''CfgRate'', md_id = msgID cas_clsCfg 0x04, md_idName = ''RATE'',
     md_fixed = Some cas_CfgRate, md_handled = (\<lambda>f. True),
     md_varying = None, md_allowTrailing = False \<rparr>"

definition cas_CfgCfg_msg :: msg_desc where
  "cas_CfgCfg_msg = \<lparr> md_name = ''CfgCfg'', md_id = msgID cas_clsCfg 0x05, md_idName = ''CFG'',
     md_fixed = Some cas_CfgCfg, md_handled = (\<lambda>f. True),
     md_varying = None, md_allowTrailing = False \<rparr>"

definition cas_CfgRst_msg :: msg_desc where
  "cas_CfgRst_msg = \<lparr> md_name = ''CfgRst'', md_id = msgID cas_clsCfg 0x02, md_idName = ''RST'',
     md_fixed = Some cas_CfgRst, md_handled = (\<lambda>f. True),
     md_varying = None, md_allowTrailing = False \<rparr>"

definition cas_CfgTP_msg :: msg_desc where
  "cas_CfgTP_msg = \<lparr> md_name = ''CfgTP'', md_id = msgID cas_clsCfg 0x03, md_idName = ''TP'',
     md_fixed = Some cas_CfgTP, md_handled = (\<lambda>f. True),
     md_varying = None, md_allowTrailing = False \<rparr>"

definition cas_CfgNavx_msg :: msg_desc where
  "cas_CfgNavx_msg = \<lparr> md_name = ''CfgNavx'', md_id = msgID cas_clsCfg 0x07, md_idName = ''NAVX'',
     md_fixed = Some cas_CfgNavx, md_handled = (\<lambda>f. True),
     md_varying = None, md_allowTrailing = False \<rparr>"

definition cas_CfgTMode_msg :: msg_desc where
  "cas_CfgTMode_msg = \<lparr> md_name = ''CfgTMode'', md_id = msgID cas_clsCfg 0x06, md_idName = ''TMODE'',
     md_fixed = Some cas_CfgTMode, md_handled = (\<lambda>f. True),
     md_varying = None, md_allowTrailing = False \<rparr>"

definition cas_CfgNavBand_msg :: msg_desc where
  "cas_CfgNavBand_msg = \<lparr> md_name = ''CfgNavBand'', md_id = msgID cas_clsCfg 0x0F, md_idName = ''NAVBAND'',
     md_fixed = Some cas_CfgNavBand, md_handled = (\<lambda>f. True),
     md_varying = None, md_allowTrailing = False \<rparr>"

definition cas_CfgNmea_msg :: msg_desc where
  "cas_CfgNmea_msg = \<lparr> md_name = ''CfgNmea'', md_id = msgID cas_clsCfg 0x12, md_idName = ''NMEA'',
     md_fixed = Some cas_CfgNmea, md_handled = (\<lambda>f. True),
     md_varying = None, md_allowTrailing = False \<rparr>"

definition cas_CfgNavLimit_msg :: msg_desc where
  "cas_CfgNavLimit_msg = \<lparr> md_name = ''CfgNavLimit'', md_id = msgID cas_clsCfg 0x0A, md_idName = ''NAVLIMIT'',
     md_fixed = Some cas_CfgNavLimit, md_handled = (\<lambda>f. True),
     md_varying = None, md_allowTrailing = False \<rparr>"

definition cas_CfgRtcm_msg :: msg_desc where
  "cas_CfgRtcm_msg = \<lparr> md_name = ''CfgRtcm'', md_id = msgID cas_clsCfg 0x14, md_idName = ''RTCM'',
     md_fixed = Some cas_CfgRtcm, md_handled = (\<lambda>f. True),
     md_varying = None, md_allowTrailing = False \<rparr>"

definition cas_CfgTMode2_msg :: msg_desc where
  "cas_CfgTMode2_msg = \<lparr> md_name = ''CfgTMode2'', md_id = msgID cas_clsCfg 0x16, md_idName = ''TMODE2'',
     md_fixed = Some cas_CfgTMode2, md_handled = (\<lambda>f. True),
     md_varying = None, md_allowTrailing = False \<rparr>"

definition cas_MonVer_msg :: msg_desc where
  "cas_MonVer_msg = \<lparr> md_name = ''MonVer'', md_id = msgID cas_clsMon 0x04, md_idName = ''VER'',
     md_fixed = Some cas_MonVer, md_handled = (\<lambda>f. True),
     md_varying = None, md_allowTrailing = False \<rparr>"

definition cas_MsgBDSUTC_msg :: msg_desc where
  "cas_MsgBDSUTC_msg = \<lparr> md_name = ''MsgBDSUTC'', md_id = msgID cas_clsMsg 0x00, md_idName = ''BDSUTC'',
     md_fixed = Some cas_MsgBDSUTC, md_handled = (\<lambda>f. True),
     md_varying = None, md_allowTrailing = False \<rparr>"

definition cas_MsgGPSUTC_msg :: msg_desc where
  "cas_MsgGPSUTC_msg = \<lparr> md_name = ''MsgGPSUTC'', md_id = msgID cas_clsMsg 0x05, md_idName = ''GPSUTC'',
     md_fixed = Some cas_MsgGPSUTC, md_handled = (\<lambda>f. True),
     md_varying = None, md_allowTrailing = False \<rparr>"

definition cas_NavDop_msg :: msg_desc where
  "cas_NavDop_msg = \<lparr> md_name = ''NavDop'', md_id = msgID cas_clsNav 0x01, md_idName = ''DOP'',
     md_fixed = Some cas_NavDop, md_handled = (\<lambda>f. True),
     md_varying = None, md_allowTrailing = False \<rparr>"

definition cas_NavSol_msg :: msg_desc where
  "cas_NavSol_msg = \<lparr> md_name = ''NavSol'', md_id = msgID cas_clsNav 0x02, md_idName = ''SOL'',
     md_fixed = Some cas_NavSol, md_handled = (\<lambda>f. True),
     md_varying = None, md_allowTrailing = False \<rparr>"

definition cas_NavPv_msg :: msg_desc where
  "cas_NavPv_msg = \<lparr> md_name = ''NavPv'', md_id = msgID cas_clsNav 0x03, md_idName = ''PV'',
     md_fixed = Some cas_NavPv, md_handled = (\<lambda>f. True),
     md_varying = None, md_allowTrailing = False \<rparr>"

definition cas_NavTimeUTC_msg :: msg_desc where
  "cas_NavTimeUTC_msg = \<lparr> md_name = ''NavTimeUTC'', md_id = msgID cas_clsNav 0x10, md_idName = ''TIMEUTC'',
     md_fixed = Some cas_NavTimeUTC, md_handled = (\<lambda>f. True),
     md_varying = None, md_allowTrailing = False \<rparr>"

definition cas_NavClock_msg :: msg_desc where
  "cas_NavClock_msg = \<lparr> md_name = ''NavClock'', md_id = msgID cas_clsNav 0x11, md_idName = ''CLOCK'',
     md_fixed = Some cas_NavClock, md_handled = (\<lambda>f. True),
     md_varying = None, md_allowTrailing = False \<rparr>"

definition cas_NavGPSInfo_msg :: msg_desc where
  "cas_NavGPSInfo_msg = \<lparr> md_name = ''NavGPSInfo'', md_id = msgID cas_clsNav 0x20, md_idName = ''GPSINFO'',
     md_fixed = Some cas_NavSatInfoFixed, md_handled = (\<lambda>f. True),
     md_varying = Some (slice_of 8 12 cas_NavSVInfo), md_allowTrailing = False \<rparr>"

definition cas_NavBDSInfo_msg :: msg_desc where
  "cas_NavBDSInfo_msg = \<lparr> md_name = ''NavBDSInfo'', md_id = msgID cas_clsNav 0x21, md_idName = ''BDSINFO'',
     md_fixed = Some cas_NavSatInfoFixed, md_handled = (\<lambda>f. True),
     md_varying = Some (slice_of 8 12 cas_NavSVInfo), md_allowTrailing = False \<rparr>"

definition cas_NavGLNInfo_msg :: msg_desc where
  "cas_NavGLNInfo_msg = \<lparr> md_name = ''NavGLNInfo'', md_id = msgID cas_clsNav 0x22, md_idName = ''GLNINFO'',
     md_fixed = Some cas_NavSatInfoFixed, md_handled = (\<lambda>f. True),
     md_varying = Some (slice_of 8 12 cas_NavSVInfo), md_allowTrailing = False \<rparr>"

definition cas_Nav2Dop_msg :: msg_desc where
  "cas_Nav2Dop_msg = \<lparr> md_name = ''Nav2Dop'', md_id = msgID cas_clsNav2 0x01, md_idName = ''DOP'',
     md_fixed = Some cas_Nav2Dop, md_handled = (\<lambda>f. True),
     md_varying = None, md_allowTrailing = False \<rparr>"

definition cas_Nav2Sol_msg :: msg_desc where
  "cas_Nav2Sol_msg = \<lparr> md_name = ''Nav2Sol'', md_id = msgID cas_clsNav2 0x02, md_idName = ''SOL'',
     md_fixed = Some cas_Nav2Sol, md_handled = (\<lambda>f. True),
     md_varying = None, md_allowTrailing = False \<rparr>"

definition cas_Nav2Pvh_msg :: msg_desc where
  "cas_Nav2Pvh_msg = \<lparr> md_name = ''Nav2Pvh'', md_id = msgID cas_clsNav2 0x03, md_idName = ''PVH'',
     md_fixed = Some cas_Nav2Pvh, md_handled = (\<lambda>f. True),
     md_varying = None, md_allowTrailing = False \<rparr>"

definition cas_Nav2TimeUTC_msg :: msg_desc where
  "cas_Nav2TimeUTC_msg = \<lparr> md_name = ''Nav2TimeUTC'', md_id = msgID cas_clsNav2 0x05, md_idName = ''TIMEUTC'',
     md_fixed = Some cas_Nav2TimeUTC, md_handled = (\<lambda>f. True),
     md_varying = None, md_allowTrailing = False \<rparr>"

definition cas_Nav2Sig_msg :: msg_desc where
  "cas_Nav2Sig_msg = \<lparr> md_name = ''Nav2Sig'', md_id = msgID cas_clsNav2 0x06, md_idName = ''SIG'',
     md_fixed = Some cas_Nav2SigFixed, md_handled = (\<lambda>f. True),
     md_varying = Some cas_Nav2Sig_init, md_allowTrailing = True \<rparr>"

definition cas_Rxm2Measx_msg :: msg_desc where
  "cas_Rxm2Measx_msg = \<lparr> md_name = ''Rxm2Measx'', md_id = msgID cas_clsRxm2 0x00, md_idName = ''MEASX'',
     md_fixed = Some cas_Rxm2MeasxFixed, md_handled = (\<lambda>f. True),
     md_varying = Some cas_Rxm2Measx_init, md_allowTrailing = False \<rparr>"

definition cas_TimTP_msg :: msg_desc where
  "cas_TimTP_msg = \<lparr> md_name = ''TimTP'', md_id = msgID cas_clsTim 0x00, md_idName = ''TP'',
     md_fixed = Some cas_TimTP, md_handled = (\<lambda>f. True),
     md_varying = None, md_allowTrailing = False \<rparr>"

definition cas_Tim2Tpx_msg :: msg_desc where
  "cas_Tim2Tpx_msg = \<lparr> md_name = ''Tim2Tpx'', md_id = msgID cas_clsTim2 0x00, md_idName = ''TPX'',
     md_fixed = Some cas_Tim2Tpx, md_handled = (\<lambda>f. True),
     md_varying = None, md_allowTrailing = False \<rparr>"

definition cas_Tim2TimeGPS_msg :: msg_desc where
  "cas_Tim2TimeGPS_msg = \<lparr> md_name = ''Tim2TimeGPS'', md_id = msgID cas_clsTim2 0x01, md_idName = ''TIMEGPS'',
     md_fixed = Some cas_Tim2TimeGPS, md_handled = (\<lambda>f. True),
     md_varying = None, md_allowTrailing = False \<rparr>"

definition cas_Tim2TimeBDS_msg :: msg_desc where
  "cas_Tim2TimeBDS_msg = \<lparr> md_name = ''Tim2TimeBDS'', md_id = msgID cas_clsTim2 0x02, md_idName = ''TIMEBDS'',
     md_fixed = Some cas_Tim2TimeBDS, md_handled = (\<lambda>f. True),
     md_varying = None, md_allowTrailing = False \<rparr>"

definition cas_Tim2TimeGLN_msg :: msg_desc where
  "cas_Tim2TimeGLN_msg = \<lparr> md_name = ''Tim2TimeGLN'', md_id = msgID cas_clsTim2 0x03, md_idName = ''TIMEGLN'',
     md_fixed = Some cas_Tim2TimeGLN, md_handled = (\<lambda>f. True),
     md_varying = None, md_allowTrailing = False \<rparr>"

definition cas_Tim2TimeGAL_msg :: msg_desc where
  "cas_Tim2TimeGAL_msg = \<lparr> md_name = ''Tim2TimeGAL'', md_id = msgID cas_clsTim2 0x04, md_idName = ''TIMEGAL'',
     md_fixed = Some cas_Tim2TimeGAL, md_handled = (\<lambda>f. True),
     md_varying = None, md_allowTrailing = False \<rparr>"

definition cas_Tim2TimeIRN_msg :: msg_desc where
  "cas_Tim2TimeIRN_msg = \<lparr> md_name = ''Tim2TimeIRN'', md_id = msgID cas_clsTim2 0x05, md_idName = ''TIMEIRN'',
     md_fixed = Some cas_Tim2TimeIRN, md_handled = (\<lambda>f. True),
     md_varying = None, md_allowTrailing = False \<rparr>"

definition cas_Tim2TimePos_msg :: msg_desc where
  "cas_Tim2TimePos_msg = \<lparr> md_name = ''Tim2TimePos'', md_id = msgID cas_clsTim2 0x06, md_idName = ''TIMEPOS'',
     md_fixed = Some cas_Tim2TimePos, md_handled = (\<lambda>f. True),
     md_varying = None, md_allowTrailing = False \<rparr>"

definition cas_Tim2Ls_msg :: msg_desc where
  "cas_Tim2Ls_msg = \<lparr> md_name = ''Tim2Ls'', md_id = msgID cas_clsTim2 0x07, md_idName = ''LS'',
     md_fixed = Some cas_Tim2Ls, md_handled = (\<lambda>f. True),
     md_varying = None, md_allowTrailing = False \<rparr>"

definition cas_Tim2Ly_msg :: msg_desc where
  "cas_Tim2Ly_msg = \<lparr> md_name = ''Tim2Ly'', md_id = msgID cas_clsTim2 0x08, md_idName = ''LY'',
     md_fixed = Some cas_Tim2Ly, md_handled = (\<lambda>f. True),
     md_varying = None, md_allowTrailing = False \<rparr>"

definition cas_Tim2Tcxo_msg :: msg_desc where
  "cas_Tim2Tcxo_msg = \<lparr> md_name = ''Tim2Tcxo'', md_id = msgID cas_clsTim2 0x09, md_idName = ''TCXO'',
     md_fixed = Some cas_Tim2Tcxo, md_handled = (\<lambda>f. True),
     md_varying = None, md_allowTrailing = False \<rparr>"

definition cas_ack_msgs :: "msg_desc list" where
  "cas_ack_msgs = [cas_AckNak_msg, cas_AckAck_msg]"

definition cas_cfg_msgs :: "msg_desc list" where
  "cas_cfg_msgs = [cas_CfgMsg_msg, cas_CfgPrt_msg, cas_CfgRate_msg, cas_CfgCfg_msg, cas_CfgRst_msg, cas_CfgTP_msg,
     cas_CfgNavx_msg, cas_CfgTMode_msg, cas_CfgNavBand_msg, cas_CfgNmea_msg, cas_CfgNavLimit_msg,
     cas_CfgRtcm_msg, cas_CfgTMode2_msg]"

definition cas_mon_msgs :: "msg_desc list" where
  "cas_mon_msgs = [cas_MonVer_msg]"

definition cas_msg_msgs :: "msg_desc list" where
  "cas_msg_msgs = [cas_MsgBDSUTC_msg, cas_MsgGPSUTC_msg]"

definition cas_nav_msgs :: "msg_desc list" where
  "cas_nav_msgs = [cas_NavDop_msg, cas_NavSol_msg, cas_NavPv_msg, cas_NavTimeUTC_msg, cas_NavClock_msg,
     cas_NavGPSInfo_msg, cas_NavBDSInfo_msg, cas_NavGLNInfo_msg, cas_Nav2Dop_msg, cas_Nav2Sol_msg,
     cas_Nav2Pvh_msg, cas_Nav2TimeUTC_msg, cas_Nav2Sig_msg]"

definition cas_rxm2_msgs :: "msg_desc list" where
  "cas_rxm2_msgs = [cas_Rxm2Measx_msg]"

definition cas_tim_msgs :: "msg_desc list" where
  "cas_tim_msgs = [cas_TimTP_msg]"

definition cas_tim2_msgs :: "msg_desc list" where
  "cas_tim2_msgs = [cas_Tim2Tpx_msg, cas_Tim2TimeGPS_msg, cas_Tim2TimeBDS_msg, cas_Tim2TimeGLN_msg,
     cas_Tim2TimeGAL_msg, cas_Tim2TimeIRN_msg, cas_Tim2TimePos_msg, cas_Tim2Ls_msg, cas_Tim2Ly_msg,
     cas_Tim2Tcxo_msg]"

definition cas_msgs :: "msg_desc list" where
  "cas_msgs = cas_ack_msgs @ cas_cfg_msgs @ cas_mon_msgs @ cas_msg_msgs @ cas_nav_msgs @ cas_rxm2_msgs @ cas_tim_msgs @ cas_tim2_msgs"

definition cas_other_idNames :: "(msg_id \<times> string) list" where
  "cas_other_idNames = [
     (msgID cas_clsCfg 0x08, ''GROUP''), (msgID cas_clsCfg 0x0B, ''NAVMODE''),
     (msgID cas_clsCfg 0x0C, ''NAVFLT''), (msgID cas_clsCfg 0x0D, ''WNREF''),
     (msgID cas_clsCfg 0x0E, ''INS2''), (msgID cas_clsCfg 0x10, ''INS''),
     (msgID cas_clsCfg 0x11, ''CWI''), (msgID cas_clsCfg 0x21, ''SATMASK''),
     (msgID cas_clsCfg 0x22, ''TGDU''), (msgID cas_clsCfg 0x23, ''SBAS''),
     (msgID cas_clsNav 0x00, ''STATUS''), (msgID cas_clsNav 0x06, ''IMUATT''),
     (msgID cas_clsNav2 0x00, ''STATUS''), (msgID cas_clsNav2 0x04, ''SAT''),
     (msgID cas_clsNav2 0x07, ''CLK''), (msgID cas_clsNav2 0x08, ''RVT''),
     (msgID cas_clsNav2 0x09, ''RTC''), (msgID cas_clsRxm 0x07, ''SENSOR''),
     (msgID cas_clsRxm 0x10, ''MEASX''), (msgID cas_clsRxm 0x11, ''SVPOS''),
     (msgID cas_clsRxm2 0x01, ''SVPOS''), (msgID cas_clsRxm2 0x06, ''SFRBX''),
     (msgID cas_clsRxm2 0x0A, ''SVP''), (msgID cas_clsMon 0x00, ''CWI''),
     (msgID cas_clsMon 0x01, ''RFE''), (msgID cas_clsMon 0x02, ''HIST''),
     (msgID cas_clsMon 0x05, ''CPU''), (msgID cas_clsMon 0x06, ''ICV''),
     (msgID cas_clsMon 0x07, ''MOD''), (msgID cas_clsMon 0x09, ''HW''),
     (msgID cas_clsMon 0x0A, ''JSM''), (msgID cas_clsMon 0x0B, ''SEC''),
     (msgID cas_clsAid 0x01, ''INI''), (msgID cas_clsAid 0x03, ''HUI''),
     (msgID cas_clsMsg 0x01, ''BDSION''), (msgID cas_clsMsg 0x02, ''BDSEPH''),
     (msgID cas_clsMsg 0x06, ''GPSION''), (msgID cas_clsMsg 0x07, ''GPSEPH''),
     (msgID cas_clsMsg 0x08, ''GLNEPH''), (msgID cas_clsNmea 0x00, ''GGA''),
     (msgID cas_clsNmea 0x01, ''GLL''), (msgID cas_clsNmea 0x02, ''GSA''),
     (msgID cas_clsNmea 0x03, ''GSV''), (msgID cas_clsNmea 0x04, ''RMC''),
     (msgID cas_clsNmea 0x05, ''VTG''), (msgID cas_clsNmea 0x08, ''ZDA''),
     (msgID cas_clsNmea 0x06, ''ZDA6''), (msgID cas_clsNmea 0x07, ''GST''),
     (msgID cas_clsNmea 0x11, ''ANT''), (msgID cas_clsNmea 0x12, ''LPS''),
     (msgID cas_clsNmea 0x13, ''DHV''), (msgID cas_clsNmea 0x16, ''UTC''),
     (msgID cas_clsNmea 0x09, ''TXTLPS''), (msgID cas_clsNmea 0x0B, ''TXTINS''),
     (msgID cas_clsNmea 0x0C, ''UTC6''), (msgID cas_clsNmea 0x0D, ''GST6''),
     (msgID cas_clsNmea 0x0E, ''TXTRFE'')]"

text \<open>\<^verbatim>\<open>idNameMap\<close>, in the order the files initialise it; a later entry overwrites.\<close>

definition cas_idNameMap :: "(msg_id \<times> string) list" where
  "cas_idNameMap = map (\<lambda>d. (md_id d, md_idName d)) cas_ack_msgs
     @ map (\<lambda>d. (md_id d, md_idName d)) cas_cfg_msgs
     @ map (\<lambda>d. (md_id d, md_idName d)) cas_mon_msgs
     @ map (\<lambda>d. (md_id d, md_idName d)) cas_msg_msgs
     @ map (\<lambda>d. (md_id d, md_idName d)) cas_nav_msgs
     @ cas_other_idNames
     @ map (\<lambda>d. (md_id d, md_idName d)) cas_rxm2_msgs
     @ map (\<lambda>d. (md_id d, md_idName d)) cas_tim_msgs
     @ map (\<lambda>d. (md_id d, md_idName d)) cas_tim2_msgs"

lemmas cas_layout_defs = cas_AckPayload_def cas_AckNak_def cas_AckAck_def cas_CfgMsg_def
  cas_CfgPrt_def cas_CfgRate_def cas_CfgCfg_def cas_CfgRst_def cas_CfgTP_def cas_CfgNavx_def
  cas_CfgTMode_def cas_CfgNavBand_def cas_CfgNmea_def cas_CfgNavLimit_def cas_CfgRtcm_def
  cas_CfgTMode2_def cas_MonVer_def cas_MsgBDSUTC_def cas_MsgGPSUTC_def cas_NavRunTime_def
  cas_NavSol_def cas_NavPv_def cas_NavDop_def cas_NavTimeUTC_def cas_NavClock_def cas_NavClockSys_def
  cas_NavSatInfoFixed_def cas_NavSVInfo_def cas_Nav2TOW_def cas_Nav2Sol_def cas_Nav2Pvh_def
  cas_Nav2Dop_def cas_Nav2TimeUTC_def cas_Nav2SigFixed_def cas_Nav2SigInfo_def cas_Rxm2MeasxFixed_def
  cas_Rxm2MeasxMeas_def cas_TimTP_def cas_Tim2Tpx_def cas_Tim2TimeGNSS_def cas_Tim2TimeGPS_def
  cas_Tim2TimeBDS_def cas_Tim2TimeGLN_def cas_Tim2TimeGAL_def cas_Tim2TimeIRN_def cas_Tim2TimePos_def
  cas_Tim2Ls_def cas_Tim2Ly_def cas_Tim2Tcxo_def

lemmas cas_msg_defs = cas_AckNak_msg_def cas_AckAck_msg_def cas_CfgMsg_msg_def cas_CfgPrt_msg_def
  cas_CfgRate_msg_def cas_CfgCfg_msg_def cas_CfgRst_msg_def cas_CfgTP_msg_def cas_CfgNavx_msg_def
  cas_CfgTMode_msg_def cas_CfgNavBand_msg_def cas_CfgNmea_msg_def cas_CfgNavLimit_msg_def
  cas_CfgRtcm_msg_def cas_CfgTMode2_msg_def cas_MonVer_msg_def cas_MsgBDSUTC_msg_def
  cas_MsgGPSUTC_msg_def cas_NavDop_msg_def cas_NavSol_msg_def cas_NavPv_msg_def
  cas_NavTimeUTC_msg_def cas_NavClock_msg_def cas_NavGPSInfo_msg_def cas_NavBDSInfo_msg_def
  cas_NavGLNInfo_msg_def cas_Nav2Dop_msg_def cas_Nav2Sol_msg_def cas_Nav2Pvh_msg_def
  cas_Nav2TimeUTC_msg_def cas_Nav2Sig_msg_def cas_Rxm2Measx_msg_def cas_TimTP_msg_def
  cas_Tim2Tpx_msg_def cas_Tim2TimeGPS_msg_def cas_Tim2TimeBDS_msg_def cas_Tim2TimeGLN_msg_def
  cas_Tim2TimeGAL_msg_def cas_Tim2TimeIRN_msg_def cas_Tim2TimePos_msg_def cas_Tim2Ls_msg_def
  cas_Tim2Ly_msg_def cas_Tim2Tcxo_msg_def

lemmas cas_lists = cas_msgs_def cas_ack_msgs_def cas_cfg_msgs_def cas_mon_msgs_def cas_msg_msgs_def
  cas_nav_msgs_def cas_rxm2_msgs_def cas_tim_msgs_def cas_tim2_msgs_def

section \<open>The table\<close>

lemma cas_Nav2Sig_wf: "desc_wf cas_Nav2Sig_msg"
  by (auto simp: desc_wf_def cas_msg_defs cas_Nav2Sig_init_def cas_layout_defs)

lemma cas_Rxm2Measx_wf: "desc_wf cas_Rxm2Measx_msg"
  by (auto simp: desc_wf_def cas_msg_defs cas_Rxm2Measx_init_def cas_layout_defs bind_Some_iff split: if_splits)

lemma cas_layouts: "list_all desc_wf cas_msgs"
  unfolding cas_lists append.simps list.pred_inject(2)
  by (intro conjI list.pred_inject(1))
    ((rule cas_Nav2Sig_wf cas_Rxm2Measx_wf) | (rule good_plain [THEN conjunct1], simp add: cas_msg_defs, simp add: cas_msg_defs, simp add: cas_layout_defs)
    | (rule good_slice [THEN conjunct1], simp add: cas_msg_defs, simp add: cas_msg_defs, simp, simp add: cas_layout_defs,
        simp add: cas_layout_defs))+

lemma cas_ids: "distinct (map md_id cas_msgs)"
  unfolding cas_lists append.simps list.map cas_msg_defs msg_desc.simps by simp

interpretation cas: single_table cas_msgs
  by unfold_locales (use cas_layouts cas_ids in \<open>simp_all add: list_all_iff\<close>)

definition cas_ackable :: "msg_id \<Rightarrow> bool" where
  "cas_ackable mid \<longleftrightarrow> cfgClass cas_clsCfg mid \<and> mid \<noteq> msgID cas_clsCfg 0x02"

section \<open>Properties\<close>

text \<open>C5: a registered CASIC message, serialized, is a complete CASIC packet with a valid checksum, and
  \<^verbatim>\<open>ParseMsg\<close> of the packet returns the message.\<close>
theorem cas_roundtrip:
  assumes "d \<in> set cas_msgs" "msg_ok d fixed vary"
    and "msg_payload (KnownMsg d fixed vary) = Some payload" "length payload \<le> 0xFFFF"
  shows "\<exists>pkt. casic_serialize (KnownMsg d fixed vary) = Some (Inr pkt)
    \<and> complete casicFormat pkt \<and> casic_extractChecksum pkt = casic_computeChecksum pkt
    \<and> casic_parseMsg (msgMap_last cas_msgs) pkt = Inr (KnownMsg d fixed vary)"
proof -
  obtain pkt where p: "casic_packMsg (md_id d) payload = Inr pkt" using casic_packMsg_total [OF assms(4)] by blast
  with assms(3) have s: "casic_serialize (KnownMsg d fixed vary) = Some (Inr pkt)"
    by (simp add: casic_serialize_def msg_id_of_def)
  from casic_parse_serialize [where msgMap = "msgMap_last cas_msgs", OF assms(2) cas.lookup [OF assms(1)] s]
  have "casic_parseMsg (msgMap_last cas_msgs) pkt = Inr (KnownMsg d fixed vary)" .
  with s casic_pack_packet(1,2) [OF p] show ?thesis by blast
qed

theorem cas_roundtrip_witness:
  "\<exists>pkt. casic_serialize (KnownMsg cas_AckAck_msg (VSeq [VSeq [VInt 6, VInt 1]]) None) = Some (Inr pkt)
    \<and> complete casicFormat pkt \<and> casic_extractChecksum pkt = casic_computeChecksum pkt
    \<and> casic_parseMsg (msgMap_last cas_msgs) pkt = Inr (KnownMsg cas_AckAck_msg (VSeq [VSeq [VInt 6, VInt 1]]) None)"
  by (rule cas_roundtrip [of cas_AckAck_msg "(VSeq [VSeq [VInt 6, VInt 1]])" None "[6, 1, 0, 0]"])
    (simp_all add: cas_lists msg_ok_def cas_AckAck_msg_def cas_layout_defs msg_payload_def
      prim_ok_def prim_put_def numeral_2_eq_2)


end
