(* ===== verification/AsMsgs.thy ===== *)
theory AsMsgs
  imports MsgTable
begin



section \<open>Classes\<close>

abbreviation (input) as_clsNav :: byte where "as_clsNav \<equiv> 0x01"
abbreviation (input) as_clsAck :: byte where "as_clsAck \<equiv> 0x05"
abbreviation (input) as_clsCfg :: byte where "as_clsCfg \<equiv> 0x06"
abbreviation (input) as_clsMon :: byte where "as_clsMon \<equiv> 0x0A"
abbreviation (input) as_clsAid :: byte where "as_clsAid \<equiv> 0x0B"
abbreviation (input) as_clsNmea :: byte where "as_clsNmea \<equiv> 0xF0"

definition as_clsMap :: "(byte \<times> string) list" where
  "as_clsMap = [(as_clsNav, ''NAV''), (as_clsAck, ''ACK''), (as_clsCfg, ''CFG''), (as_clsMon, ''MON''),
     (as_clsAid, ''AID''), (as_clsNmea, ''NMEA'')]"

section \<open>The layouts\<close>

definition as_AckNak :: wty where
  "as_AckNak = Struct [
    (''MsgClass'', uint8), (''MsgID'', uint8)]"

definition as_AckAck :: wty where
  "as_AckAck = Struct [
    (''MsgClass'', uint8), (''MsgID'', uint8)]"

definition as_CfgCfg :: wty where
  "as_CfgCfg = Struct [
    (''Action'', uint32), (''Mask'', uint32)]"

definition as_CfgNavSat :: wty where
  "as_CfgNavSat = Struct [
    (''EnableMask'', uint32)]"

definition as_CfgSurvey :: wty where
  "as_CfgSurvey = Struct [
    (''MinDur'', uint32), (''AccLimit'', uint32)]"

definition as_CfgFixedECEF :: wty where
  "as_CfgFixedECEF = Struct [
    (''X'', int32), (''Y'', int32), (''Z'', int32)]"

definition as_CfgPrt :: wty where
  "as_CfgPrt = Struct [
    (''PortID'', uint8), (''Res'', Arr 3 uint8), (''Baudrate'', uint32)]"

definition as_CfgMsg :: wty where
  "as_CfgMsg = Struct [
    (''MsgClass'', uint8), (''MsgID'', uint8), (''Rate'', uint8)]"

definition as_CfgPps :: wty where
  "as_CfgPps = Struct [
    (''Period'', uint32), (''Offset'', int32), (''DutyCycle'', uint32), (''Polarity'', uint8),
    (''GPIO'', uint8), (''Sync'', uint8)]"

definition as_CfgSimpleRst :: wty where
  "as_CfgSimpleRst = Struct [
    (''Mode'', uint8)]"

definition as_CfgElev :: wty where
  "as_CfgElev = Struct [
    (''TrkMask'', float32), (''NaviMask'', float32)]"

definition as_CfgNmeaVer :: wty where
  "as_CfgNmeaVer = Struct [
    (''Version'', uint8)]"

definition as_MonVer :: wty where
  "as_MonVer = Struct [
    (''SwVersion'', Arr 16 uint8), (''HwVersion'', Arr 16 uint8)]"

definition as_NavITOW :: wty where
  "as_NavITOW = Struct [
    (''ITow'', uint32)]"

definition as_NavPosEcef :: wty where
  "as_NavPosEcef = Struct [
    (''NavITOW'', as_NavITOW), (''EcefX'', int32), (''EcefY'', int32), (''EcefZ'', int32),
    (''PAcc'', uint32)]"

definition as_NavPosLlh :: wty where
  "as_NavPosLlh = Struct [
    (''NavITOW'', as_NavITOW), (''Lon'', int32), (''Lat'', int32), (''Height'', int32),
    (''HMSL'', int32), (''HAcc'', uint32), (''VAcc'', uint32)]"

definition as_NavDop :: wty where
  "as_NavDop = Struct [
    (''NavITOW'', as_NavITOW), (''GDOP'', uint16), (''PDOP'', uint16), (''TDOP'', uint16),
    (''VDOP'', uint16), (''HDOP'', uint16), (''NDOP'', uint16), (''EDOP'', uint16)]"

definition as_NavTime :: wty where
  "as_NavTime = Struct [
    (''NavSys'', uint8), (''Flags'', uint8), (''Fractow'', int16), (''RefTow'', uint32),
    (''Week'', uint16), (''LeapSec'', int16), (''TimeErr'', uint32)]"

definition as_NavVelEcef :: wty where
  "as_NavVelEcef = Struct [
    (''NavITOW'', as_NavITOW), (''EcefVX'', int32), (''EcefVY'', int32), (''EcefVZ'', int32),
    (''SAcc'', uint32)]"

definition as_NavVelNed :: wty where
  "as_NavVelNed = Struct [
    (''NavITOW'', as_NavITOW), (''VelN'', int32), (''VelE'', int32), (''VelD'', int32),
    (''Speed'', uint32), (''GSpeed'', uint32), (''Heading'', int32), (''SAcc'', uint32),
    (''CAcc'', uint32)]"

definition as_NavClock :: wty where
  "as_NavClock = Struct [
    (''NavITOW'', as_NavITOW), (''ClkB'', int32), (''ClkD'', int32), (''TAcc'', uint32),
    (''FAcc'', uint32)]"

definition as_NavSvin :: wty where
  "as_NavSvin = Struct [
    (''NavITOW'', as_NavITOW), (''PosUsed'', uint32), (''MeanStdDev'', uint32), (''Valid'', uint8),
    (''Status'', uint8)]"

definition as_NavTimeUTC :: wty where
  "as_NavTimeUTC = Struct [
    (''NavITOW'', as_NavITOW), (''TAcc'', uint32), (''Nano'', int32), (''Year'', uint16),
    (''Month'', uint8), (''Day'', uint8), (''Hour'', uint8), (''Min'', uint8), (''Sec'', uint8),
    (''ValidFlag'', uint8)]"

definition as_NavSVInfoSat :: wty where
  "as_NavSVInfoSat = Struct [
    (''Svid'', uint16), (''Flags'', int8), (''Quality'', int8), (''Cno'', uint8), (''Elev'', int8),
    (''Azim'', int16), (''PrRes'', int32), (''PseudorangeRate'', float32), (''Pseudorange'', float64)]"

definition as_NavSVInfoFixed :: wty where
  "as_NavSVInfoFixed = Struct [
    (''NavITOW'', as_NavITOW), (''NumCh'', uint32)]"

definition as_NavAuto :: wty where
  "as_NavAuto = Struct [
    (''FixState'', uint8), (''Year'', uint16), (''Month'', uint8), (''Day'', uint8), (''Hour'', uint8),
    (''Min'', uint8), (''Sec'', uint8), (''Lon'', int32), (''Lat'', int32), (''Alt'', int32),
    (''Speed'', uint16), (''Heading'', int16), (''PDOP'', uint16), (''HDOP'', uint16),
    (''VDOP'', uint16), (''SatInUse'', uint8), (''SatInView'', uint8)]"


section \<open>The message types\<close>

definition as_AckNak_msg :: msg_desc where
  "as_AckNak_msg = \<lparr> md_name = ''AckNak'', md_id = msgID as_clsAck 0x00, md_idName = ''NAK'',
     md_fixed = Some as_AckNak, md_handled = (\<lambda>f. True),
     md_varying = None, md_allowTrailing = False \<rparr>"

definition as_AckAck_msg :: msg_desc where
  "as_AckAck_msg = \<lparr> md_name = ''AckAck'', md_id = msgID as_clsAck 0x01, md_idName = ''ACK'',
     md_fixed = Some as_AckAck, md_handled = (\<lambda>f. True),
     md_varying = None, md_allowTrailing = False \<rparr>"

definition as_CfgCfg_msg :: msg_desc where
  "as_CfgCfg_msg = \<lparr> md_name = ''CfgCfg'', md_id = msgID as_clsCfg 0x09, md_idName = ''CFG'',
     md_fixed = Some as_CfgCfg, md_handled = (\<lambda>f. True),
     md_varying = None, md_allowTrailing = False \<rparr>"

definition as_CfgNavSat_msg :: msg_desc where
  "as_CfgNavSat_msg = \<lparr> md_name = ''CfgNavSat'', md_id = msgID as_clsCfg 0x0C, md_idName = ''NAVSAT'',
     md_fixed = Some as_CfgNavSat, md_handled = (\<lambda>f. True),
     md_varying = None, md_allowTrailing = False \<rparr>"

definition as_CfgSurvey_msg :: msg_desc where
  "as_CfgSurvey_msg = \<lparr> md_name = ''CfgSurvey'', md_id = msgID as_clsCfg 0x12, md_idName = ''SURVEY'',
     md_fixed = Some as_CfgSurvey, md_handled = (\<lambda>f. True),
     md_varying = None, md_allowTrailing = False \<rparr>"

definition as_CfgFixedECEF_msg :: msg_desc where
  "as_CfgFixedECEF_msg = \<lparr> md_name = ''CfgFixedECEF'', md_id = msgID as_clsCfg 0x14, md_idName = ''FIXEDECEF'',
     md_fixed = Some as_CfgFixedECEF, md_handled = (\<lambda>f. True),
     md_varying = None, md_allowTrailing = False \<rparr>"

definition as_CfgPrt_msg :: msg_desc where
  "as_CfgPrt_msg = \<lparr> md_name = ''CfgPrt'', md_id = msgID as_clsCfg 0x00, md_idName = ''PRT'',
     md_fixed = Some as_CfgPrt, md_handled = (\<lambda>f. True),
     md_varying = None, md_allowTrailing = False \<rparr>"

definition as_CfgMsg_msg :: msg_desc where
  "as_CfgMsg_msg = \<lparr> md_name = ''CfgMsg'', md_id = msgID as_clsCfg 0x01, md_idName = ''MSG'',
     md_fixed = Some as_CfgMsg, md_handled = (\<lambda>f. True),
     md_varying = None, md_allowTrailing = False \<rparr>"

definition as_CfgPps_msg :: msg_desc where
  "as_CfgPps_msg = \<lparr> md_name = ''CfgPps'', md_id = msgID as_clsCfg 0x07, md_idName = ''PPS'',
     md_fixed = Some as_CfgPps, md_handled = (\<lambda>f. True),
     md_varying = None, md_allowTrailing = False \<rparr>"

definition as_CfgSimpleRst_msg :: msg_desc where
  "as_CfgSimpleRst_msg = \<lparr> md_name = ''CfgSimpleRst'', md_id = msgID as_clsCfg 0x40, md_idName = ''SIMPLERST'',
     md_fixed = Some as_CfgSimpleRst, md_handled = (\<lambda>f. True),
     md_varying = None, md_allowTrailing = False \<rparr>"

definition as_CfgElev_msg :: msg_desc where
  "as_CfgElev_msg = \<lparr> md_name = ''CfgElev'', md_id = msgID as_clsCfg 0x0B, md_idName = ''ELEV'',
     md_fixed = Some as_CfgElev, md_handled = (\<lambda>f. True),
     md_varying = None, md_allowTrailing = False \<rparr>"

definition as_CfgNmeaVer_msg :: msg_desc where
  "as_CfgNmeaVer_msg = \<lparr> md_name = ''CfgNmeaVer'', md_id = msgID as_clsCfg 0x43, md_idName = ''NMEAVER'',
     md_fixed = Some as_CfgNmeaVer, md_handled = (\<lambda>f. True),
     md_varying = None, md_allowTrailing = False \<rparr>"

definition as_MonVer_msg :: msg_desc where
  "as_MonVer_msg = \<lparr> md_name = ''MonVer'', md_id = msgID as_clsMon 0x04, md_idName = ''VER'',
     md_fixed = Some as_MonVer, md_handled = (\<lambda>f. True),
     md_varying = None, md_allowTrailing = False \<rparr>"

definition as_NavPosEcef_msg :: msg_desc where
  "as_NavPosEcef_msg = \<lparr> md_name = ''NavPosEcef'', md_id = msgID as_clsNav 0x01, md_idName = ''POSECEF'',
     md_fixed = Some as_NavPosEcef, md_handled = (\<lambda>f. True),
     md_varying = None, md_allowTrailing = False \<rparr>"

definition as_NavPosLlh_msg :: msg_desc where
  "as_NavPosLlh_msg = \<lparr> md_name = ''NavPosLlh'', md_id = msgID as_clsNav 0x02, md_idName = ''POSLLH'',
     md_fixed = Some as_NavPosLlh, md_handled = (\<lambda>f. True),
     md_varying = None, md_allowTrailing = False \<rparr>"

definition as_NavDop_msg :: msg_desc where
  "as_NavDop_msg = \<lparr> md_name = ''NavDop'', md_id = msgID as_clsNav 0x04, md_idName = ''DOP'',
     md_fixed = Some as_NavDop, md_handled = (\<lambda>f. True),
     md_varying = None, md_allowTrailing = False \<rparr>"

definition as_NavTime_msg :: msg_desc where
  "as_NavTime_msg = \<lparr> md_name = ''NavTime'', md_id = msgID as_clsNav 0x05, md_idName = ''TIME'',
     md_fixed = Some as_NavTime, md_handled = (\<lambda>f. True),
     md_varying = None, md_allowTrailing = False \<rparr>"

definition as_NavVelEcef_msg :: msg_desc where
  "as_NavVelEcef_msg = \<lparr> md_name = ''NavVelEcef'', md_id = msgID as_clsNav 0x11, md_idName = ''VELECEF'',
     md_fixed = Some as_NavVelEcef, md_handled = (\<lambda>f. True),
     md_varying = None, md_allowTrailing = False \<rparr>"

definition as_NavVelNed_msg :: msg_desc where
  "as_NavVelNed_msg = \<lparr> md_name = ''NavVelNed'', md_id = msgID as_clsNav 0x12, md_idName = ''VELNED'',
     md_fixed = Some as_NavVelNed, md_handled = (\<lambda>f. True),
     md_varying = None, md_allowTrailing = False \<rparr>"

definition as_NavTimeUTC_msg :: msg_desc where
  "as_NavTimeUTC_msg = \<lparr> md_name = ''NavTimeUTC'', md_id = msgID as_clsNav 0x21, md_idName = ''TIMEUTC'',
     md_fixed = Some as_NavTimeUTC, md_handled = (\<lambda>f. True),
     md_varying = None, md_allowTrailing = False \<rparr>"

definition as_NavClock_msg :: msg_desc where
  "as_NavClock_msg = \<lparr> md_name = ''NavClock'', md_id = msgID as_clsNav 0x22, md_idName = ''CLOCK'',
     md_fixed = Some as_NavClock, md_handled = (\<lambda>f. True),
     md_varying = None, md_allowTrailing = False \<rparr>"

definition as_NavSVInfo_msg :: msg_desc where
  "as_NavSVInfo_msg = \<lparr> md_name = ''NavSVInfo'', md_id = msgID as_clsNav 0x30, md_idName = ''SVINFO'',
     md_fixed = Some as_NavSVInfoFixed, md_handled = (\<lambda>f. True),
     md_varying = Some (slice_of 8 24 as_NavSVInfoSat), md_allowTrailing = False \<rparr>"

definition as_NavSvin_msg :: msg_desc where
  "as_NavSvin_msg = \<lparr> md_name = ''NavSvin'', md_id = msgID as_clsNav 0x31, md_idName = ''SVIN'',
     md_fixed = Some as_NavSvin, md_handled = (\<lambda>f. True),
     md_varying = None, md_allowTrailing = False \<rparr>"

definition as_NavAuto_msg :: msg_desc where
  "as_NavAuto_msg = \<lparr> md_name = ''NavAuto'', md_id = msgID as_clsNav 0xC0, md_idName = ''AUTO'',
     md_fixed = Some as_NavAuto, md_handled = (\<lambda>f. True),
     md_varying = None, md_allowTrailing = False \<rparr>"

definition as_ack_msgs :: "msg_desc list" where
  "as_ack_msgs = [as_AckNak_msg, as_AckAck_msg]"

definition as_cfg_msgs :: "msg_desc list" where
  "as_cfg_msgs = [as_CfgCfg_msg, as_CfgNavSat_msg, as_CfgSurvey_msg, as_CfgFixedECEF_msg, as_CfgPrt_msg,
     as_CfgMsg_msg, as_CfgPps_msg, as_CfgSimpleRst_msg, as_CfgElev_msg, as_CfgNmeaVer_msg]"

definition as_mon_msgs :: "msg_desc list" where
  "as_mon_msgs = [as_MonVer_msg]"

definition as_nav_msgs :: "msg_desc list" where
  "as_nav_msgs = [as_NavPosEcef_msg, as_NavPosLlh_msg, as_NavDop_msg, as_NavTime_msg, as_NavVelEcef_msg,
     as_NavVelNed_msg, as_NavTimeUTC_msg, as_NavClock_msg, as_NavSVInfo_msg, as_NavSvin_msg,
     as_NavAuto_msg]"

definition as_msgs :: "msg_desc list" where
  "as_msgs = as_ack_msgs @ as_cfg_msgs @ as_mon_msgs @ as_nav_msgs"

definition as_other_idNames :: "(msg_id \<times> string) list" where
  "as_other_idNames = [
     (msgID as_clsNav 0x26, ''PVERR''), (msgID as_clsNav 0x32, ''SVSTATE''),
     (msgID as_clsNav 0xC1, ''NAVPVT''), (msgID as_clsCfg 0x0A, ''DOP''),
     (msgID as_clsCfg 0x0D, ''HEIGHT''), (msgID as_clsCfg 0x0E, ''SBAS''),
     (msgID as_clsCfg 0x0F, ''SPDHOLD''), (msgID as_clsCfg 0x10, ''EPHSAVE''),
     (msgID as_clsCfg 0x11, ''NUMSV''), (msgID as_clsCfg 0x13, ''FIXEDLLA''),
     (msgID as_clsCfg 0x15, ''ANTIJAM''), (msgID as_clsCfg 0x18, ''GEOFENCE''),
     (msgID as_clsCfg 0x17, ''CARRSMOOTH''), (msgID as_clsCfg 0x16, ''BDGEO''),
     (msgID as_clsCfg 0x50, ''FWUP''), (msgID as_clsCfg 0xB0, ''PVTLOG''),
     (msgID as_clsCfg 0x42, ''PWRCTL''), (msgID as_clsCfg 0x41, ''SLEEP''),
     (msgID as_clsMon 0x05, ''INFO''), (msgID as_clsMon 0x08, ''TRKCHAN''),
     (msgID as_clsMon 0x09, ''RCVCLK''), (msgID as_clsMon 0x0A, ''CWI''),
     (msgID as_clsAid 0x01, ''INI''), (msgID as_clsAid 0x11, ''TIME''),
     (msgID as_clsAid 0x10, ''POS''), (msgID as_clsAid 0x24, ''PALMGLN''),
     (msgID as_clsAid 0x22, ''PALMGPS''), (msgID as_clsAid 0x23, ''PALMBD''),
     (msgID as_clsAid 0x25, ''PALMGAL''), (msgID as_clsAid 0x26, ''PALMQZSS''),
     (msgID as_clsAid 0x32, ''EPHGPS''), (msgID as_clsAid 0x33, ''EPHBD'')]"

text \<open>\<^verbatim>\<open>idNameMap\<close>, in the order the files initialise it; a later entry overwrites.\<close>

definition as_idNameMap :: "(msg_id \<times> string) list" where
  "as_idNameMap = map (\<lambda>d. (md_id d, md_idName d)) as_ack_msgs
     @ map (\<lambda>d. (md_id d, md_idName d)) as_cfg_msgs
     @ map (\<lambda>d. (md_id d, md_idName d)) as_mon_msgs
     @ map (\<lambda>d. (md_id d, md_idName d)) as_nav_msgs
     @ as_other_idNames"

lemmas as_layout_defs = as_AckNak_def as_AckAck_def as_CfgCfg_def as_CfgNavSat_def as_CfgSurvey_def
  as_CfgFixedECEF_def as_CfgPrt_def as_CfgMsg_def as_CfgPps_def as_CfgSimpleRst_def as_CfgElev_def
  as_CfgNmeaVer_def as_MonVer_def as_NavITOW_def as_NavPosEcef_def as_NavPosLlh_def as_NavDop_def
  as_NavTime_def as_NavVelEcef_def as_NavVelNed_def as_NavClock_def as_NavSvin_def as_NavTimeUTC_def
  as_NavSVInfoSat_def as_NavSVInfoFixed_def as_NavAuto_def

lemmas as_msg_defs = as_AckNak_msg_def as_AckAck_msg_def as_CfgCfg_msg_def as_CfgNavSat_msg_def
  as_CfgSurvey_msg_def as_CfgFixedECEF_msg_def as_CfgPrt_msg_def as_CfgMsg_msg_def as_CfgPps_msg_def
  as_CfgSimpleRst_msg_def as_CfgElev_msg_def as_CfgNmeaVer_msg_def as_MonVer_msg_def
  as_NavPosEcef_msg_def as_NavPosLlh_msg_def as_NavDop_msg_def as_NavTime_msg_def
  as_NavVelEcef_msg_def as_NavVelNed_msg_def as_NavTimeUTC_msg_def as_NavClock_msg_def
  as_NavSVInfo_msg_def as_NavSvin_msg_def as_NavAuto_msg_def

lemmas as_lists = as_msgs_def as_ack_msgs_def as_cfg_msgs_def as_mon_msgs_def as_nav_msgs_def

section \<open>The table\<close>

lemma as_layouts: "list_all desc_wf as_msgs"
  unfolding as_lists append.simps list.pred_inject(2)
  by (intro conjI list.pred_inject(1))
    ((rule good_plain [THEN conjunct1], simp add: as_msg_defs, simp add: as_msg_defs, simp add: as_layout_defs)
    | (rule good_slice [THEN conjunct1], simp add: as_msg_defs, simp add: as_msg_defs, simp, simp add: as_layout_defs,
        simp add: as_layout_defs))+

lemma as_ids: "distinct (map md_id as_msgs)"
  unfolding as_lists append.simps list.map as_msg_defs msg_desc.simps by simp

interpretation as: single_table as_msgs
  by unfold_locales (use as_layouts as_ids in \<open>simp_all add: list_all_iff\<close>)

definition as_ackable :: "msg_id \<Rightarrow> bool" where
  "as_ackable mid \<longleftrightarrow> cfgClass as_clsCfg mid \<and> mid \<noteq> msgID as_clsCfg 0x40"

section \<open>Properties\<close>

text \<open>a registered Allystar message, serialized, is a complete Allystar packet with a valid checksum, and
  \<^verbatim>\<open>ParseMsg\<close> of the packet returns the message.\<close>
lemma as_roundtrip:
  assumes "d \<in> set as_msgs" "msg_ok d fixed vary"
    and "msg_payload (KnownMsg d fixed vary) = Some payload" "length payload \<le> 0xFFFF"
  shows "\<exists>pkt. as_serialize (KnownMsg d fixed vary) = Some (Inr pkt)
    \<and> complete asFormat pkt \<and> as_extractChecksum pkt = as_computeChecksum pkt
    \<and> as_parseMsg (msgMap_last as_msgs) pkt = Inr (KnownMsg d fixed vary)"
proof -
  obtain pkt where p: "as_packMsg (md_id d) payload = Inr pkt" using as_packMsg_total [OF assms(4)] by blast
  with assms(3) have s: "as_serialize (KnownMsg d fixed vary) = Some (Inr pkt)"
    by (simp add: as_serialize_def msg_id_of_def)
  have i: "init n f = init n (VSeq [])" if "md_varying d = Some init" for init n f
    using assms(1) that by (auto simp: as_lists as_msg_defs slice_of_def)
  have "as_parseMsg (msgMap_last as_msgs) pkt = Inr (KnownMsg d fixed vary)"
    by (rule as_parse_serialize [where d = d and fixed = fixed and vary = vary]) (fact assms(2) as.lookup [OF assms(1)] i s)+
  with s as_pack_packet(1,2) [OF p] show ?thesis by blast
qed

lemma as_roundtrip_ackAck:
  "\<exists>pkt. as_serialize (KnownMsg as_AckAck_msg (VSeq [VInt 6, VInt 1]) None) = Some (Inr pkt)
    \<and> complete asFormat pkt \<and> as_extractChecksum pkt = as_computeChecksum pkt
    \<and> as_parseMsg (msgMap_last as_msgs) pkt = Inr (KnownMsg as_AckAck_msg (VSeq [VInt 6, VInt 1]) None)"
  by (rule as_roundtrip [of as_AckAck_msg "(VSeq [VInt 6, VInt 1])" None "[6, 1]"])
    (simp_all add: as_lists msg_ok_def as_AckAck_msg_def as_layout_defs msg_payload_def
      prim_ok_def prim_put_def numeral_2_eq_2)


end
