(* ===== verification/SdbpMsgs.thy ===== *)
theory SdbpMsgs
  imports MsgTable
begin



section \<open>Classes\<close>

abbreviation (input) sdbp_clsPUB :: byte where "sdbp_clsPUB \<equiv> 0x01"
abbreviation (input) sdbp_clsCTL :: byte where "sdbp_clsCTL \<equiv> 0x02"
abbreviation (input) sdbp_clsCFG :: byte where "sdbp_clsCFG \<equiv> 0x03"
abbreviation (input) sdbp_clsAST :: byte where "sdbp_clsAST \<equiv> 0x04"
abbreviation (input) sdbp_clsQUE :: byte where "sdbp_clsQUE \<equiv> 0x05"
abbreviation (input) sdbp_clsDAT :: byte where "sdbp_clsDAT \<equiv> 0x06"

definition sdbp_clsMap :: "(byte \<times> string) list" where
  "sdbp_clsMap = [(sdbp_clsPUB, ''PUB''), (sdbp_clsCTL, ''CTL''), (sdbp_clsCFG, ''CFG''), (sdbp_clsAST, ''AST''),
     (sdbp_clsQUE, ''QUE''), (sdbp_clsDAT, ''DAT'')]"

section \<open>The layouts\<close>

definition sdbp_CfgGNSS :: wty where
  "sdbp_CfgGNSS = Struct [
    (''ConstellationMask'', uint8), (''Reserved'', uint8)]"

definition sdbp_CfgUART :: wty where
  "sdbp_CfgUART = Struct [
    (''PortID'', uint8), (''Baud'', uint8), (''DataBits'', uint8), (''StopBits'', uint8),
    (''Parity'', uint8), (''Reserved'', uint8)]"

definition sdbp_CfgRate :: wty where
  "sdbp_CfgRate = Struct [
    (''MeasInterval'', uint16), (''PosFrequency'', uint8), (''Reserved'', uint8)]"

definition sdbp_CfgPPS :: wty where
  "sdbp_CfgPPS = Struct [
    (''Index'', uint8), (''Switch'', uint8), (''Polarity'', uint8), (''TimeRef'', uint8),
    (''Period1'', uint32), (''Width1'', uint32), (''Period2'', uint32), (''Width2'', uint32),
    (''Offset'', int32), (''Reserved'', uint8)]"

definition sdbp_CfgNMEA :: wty where
  "sdbp_CfgNMEA = Struct [
    (''SentenceID'', uint8), (''UART1'', uint8), (''UART2'', uint8), (''SPI'', uint8),
    (''I2C'', uint8), (''Reserved'', uint8)]"

definition sdbp_CfgSDBP :: wty where
  "sdbp_CfgSDBP = Struct [
    (''MsgClass'', uint8), (''MsgID'', uint8), (''UART1'', uint8), (''UART2'', uint8),
    (''SPI'', uint8), (''I2C'', uint8), (''Reserved'', uint8)]"

definition sdbp_CfgTMODE :: wty where
  "sdbp_CfgTMODE = Struct [
    (''Mode'', uint8), (''MinObsTime'', uint32), (''AccLimit'', uint32), (''FixedX'', int32),
    (''FixedY'', int32), (''FixedZ'', int32), (''FixedAcc'', uint32)]"

definition sdbp_CfgDELAY2 :: wty where
  "sdbp_CfgDELAY2 = Struct [
    (''CableDelay'', int32), (''GroupDelay'', int32), (''Reserved'', uint8)]"

definition sdbp_CfgTMODE2 :: wty where
  "sdbp_CfgTMODE2 = Struct [
    (''Mode'', uint8), (''MinObsTime'', uint32), (''AccLimit'', uint32), (''FixedLon'', int32),
    (''FixedLat'', int32), (''FixedAlt'', int32), (''FixedAcc'', uint32)]"

definition sdbp_CtlRestart :: wty where
  "sdbp_CtlRestart = Struct [
    (''StartupMode'', uint8), (''ResetMode'', uint8)]"

definition sdbp_CtlConfig :: wty where
  "sdbp_CtlConfig = Struct [
    (''Action'', uint16)]"

definition sdbp_CtlStandby :: wty where
  "sdbp_CtlStandby = Struct [
    (''Mode'', uint8)]"

definition sdbp_DatNavHeader :: wty where
  "sdbp_DatNavHeader = Struct [
    (''LocalTimestamp'', uint32)]"

definition sdbp_DatGNSST :: wty where
  "sdbp_DatGNSST = Struct [
    (''DatNavHeader'', sdbp_DatNavHeader), (''Valid'', uint8), (''Week'', uint16), (''TOW'', float64),
    (''TimeAccuracy'', uint32)]"

definition sdbp_DatBDST :: wty where
  "sdbp_DatBDST = Struct [
    (''DatGNSST'', sdbp_DatGNSST)]"

definition sdbp_DatGPST :: wty where
  "sdbp_DatGPST = Struct [
    (''DatGNSST'', sdbp_DatGNSST)]"

definition sdbp_DatGALT :: wty where
  "sdbp_DatGALT = Struct [
    (''DatGNSST'', sdbp_DatGNSST)]"

definition sdbp_DatTPPS :: wty where
  "sdbp_DatTPPS = Struct [
    (''PPSIndex'', uint8), (''TOW'', float64), (''Week'', uint16), (''PPSResidual'', int32),
    (''TimeRef'', uint8), (''UTCType'', uint8)]"

definition sdbp_DatUTCT2 :: wty where
  "sdbp_DatUTCT2 = Struct [
    (''DatNavHeader'', sdbp_DatNavHeader), (''Valid'', uint8), (''RefGrid'', uint8),
    (''Year'', uint16), (''Month'', uint8), (''Day'', uint8), (''Hour'', uint8), (''Min'', uint8),
    (''Sec'', uint8), (''SecFrac'', int32), (''Accuracy'', uint32), (''LeapSec'', int8),
    (''LeapCountdown'', int32), (''LeapChange'', int8), (''LeapYear'', uint16), (''LeapMonth'', uint8),
    (''LeapDay'', uint8)]"

definition sdbp_DatGNSSU :: wty where
  "sdbp_DatGNSSU = Struct [
    (''A0'', float64), (''A1'', float64), (''A2'', float64), (''TOT'', uint32), (''WNOT'', uint16),
    (''DeltaTLS'', int8), (''WNLSF'', uint16), (''DN'', uint8), (''DeltaTLSF'', int8)]"

definition sdbp_DatBDSU :: wty where
  "sdbp_DatBDSU = Struct [
    (''DatGNSSU'', sdbp_DatGNSSU)]"

definition sdbp_DatGPSU :: wty where
  "sdbp_DatGPSU = Struct [
    (''DatGNSSU'', sdbp_DatGNSSU)]"

definition sdbp_DatGALU :: wty where
  "sdbp_DatGALU = Struct [
    (''DatGNSSU'', sdbp_DatGNSSU)]"

definition sdbp_DatDOP :: wty where
  "sdbp_DatDOP = Struct [
    (''DatNavHeader'', sdbp_DatNavHeader), (''Valid'', uint8), (''FixSats'', uint8),
    (''GDOP'', uint16), (''PDOP'', uint16), (''HDOP'', uint16), (''VDOP'', uint16), (''TDOP'', uint16)]"

definition sdbp_DatECEF2 :: wty where
  "sdbp_DatECEF2 = Struct [
    (''DatNavHeader'', sdbp_DatNavHeader), (''Valid'', uint8), (''TrackedSats'', uint8),
    (''FixSats'', uint8), (''Year'', uint16), (''Month'', uint8), (''Day'', uint8), (''Hour'', uint8),
    (''Min'', uint8), (''SecMs'', uint16), (''X'', float64), (''Y'', float64), (''Z'', float64),
    (''XAcc'', uint32), (''YAcc'', uint32), (''ZAcc'', uint32), (''VX'', float32), (''VY'', float32),
    (''VZ'', float32), (''VXAcc'', uint32), (''VYAcc'', uint32), (''VZAcc'', uint32)]"

definition sdbp_DatLLA3 :: wty where
  "sdbp_DatLLA3 = Struct [
    (''DatNavHeader'', sdbp_DatNavHeader), (''CoordSys'', uint8), (''Valid'', uint8),
    (''TrackedSats'', uint8), (''FixSats'', uint8), (''Year'', uint16), (''Month'', uint8),
    (''Day'', uint8), (''Hour'', uint8), (''Min'', uint8), (''SecMs'', uint16), (''Lon'', float64),
    (''Lat'', float64), (''AltMSL'', float32), (''GeoidSep'', float32), (''HAcc'', uint32),
    (''VAcc'', uint32), (''GroundSpeed'', float32), (''SpeedAcc'', uint32), (''Heading'', float32),
    (''HeadingAcc'', uint32)]"

definition sdbp_DatNED3 :: wty where
  "sdbp_DatNED3 = Struct [
    (''DatNavHeader'', sdbp_DatNavHeader), (''CoordSys'', uint8), (''Valid'', uint8),
    (''TrackedSats'', uint8), (''FixSats'', uint8), (''Year'', uint16), (''Month'', uint8),
    (''Day'', uint8), (''Hour'', uint8), (''Min'', uint8), (''SecMs'', uint16), (''VN'', float32),
    (''VE'', float32), (''VD'', float32), (''VNAcc'', uint32), (''VEAcc'', uint32), (''VDAcc'', uint32)]"

definition sdbp_DatSATFixed :: wty where
  "sdbp_DatSATFixed = Struct [
    (''DatNavHeader'', sdbp_DatNavHeader), (''SatCount'', uint8)]"

definition sdbp_DatSATEntry :: wty where
  "sdbp_DatSATEntry = Struct [
    (''GNSSID'', uint8), (''SatID'', uint8), (''OrbitID'', int8), (''SignalID'', uint8),
    (''CN0'', uint8), (''Elev'', int8), (''Azim'', uint16), (''PRResidual'', int32), (''Flags'', uint16)]"

definition sdbp_DatTSURV :: wty where
  "sdbp_DatTSURV = Struct [
    (''Status'', uint8), (''ObsTime'', uint32), (''ObsCount'', uint32), (''AvgX'', int32),
    (''AvgY'', int32), (''AvgZ'', int32), (''AvgVariance'', uint32)]"

definition sdbp_PubAck :: wty where
  "sdbp_PubAck = Struct [
    (''Class'', uint8), (''MsgID'', uint8)]"

definition sdbp_PubNak :: wty where
  "sdbp_PubNak = Struct [
    (''Class'', uint8), (''MsgID'', uint8)]"

text \<open>The \<^verbatim>\<open>InitVaryingPart\<close> methods.\<close>

definition sdbp_DatSAT_init :: "nat \<Rightarrow> wval \<Rightarrow> wty option" where
  "sdbp_DatSAT_init payloadLen f =
     (let satCount = field_int sdbp_DatSATFixed ''SatCount'' f;
          want = 5 + satCount * 14
      in if int payloadLen < want then None else Some (Arr (nat satCount) sdbp_DatSATEntry))"

definition sdbp_QueVer_init :: "nat \<Rightarrow> wval \<Rightarrow> wty option" where
  "sdbp_QueVer_init payloadLen f = Some (Arr payloadLen uint8)"


section \<open>The message types\<close>

definition sdbp_CfgGNSS_msg :: msg_desc where
  "sdbp_CfgGNSS_msg = \<lparr> md_name = ''CfgGNSS'', md_id = msgID sdbp_clsCFG 0x11, md_idName = ''GNSS'',
     md_fixed = Some sdbp_CfgGNSS, md_handled = (\<lambda>f. True),
     md_varying = None, md_allowTrailing = False \<rparr>"

definition sdbp_CfgUART_msg :: msg_desc where
  "sdbp_CfgUART_msg = \<lparr> md_name = ''CfgUART'', md_id = msgID sdbp_clsCFG 0x21, md_idName = ''UART'',
     md_fixed = Some sdbp_CfgUART, md_handled = (\<lambda>f. True),
     md_varying = None, md_allowTrailing = False \<rparr>"

definition sdbp_CfgRate_msg :: msg_desc where
  "sdbp_CfgRate_msg = \<lparr> md_name = ''CfgRate'', md_id = msgID sdbp_clsCFG 0x36, md_idName = ''RATE'',
     md_fixed = Some sdbp_CfgRate, md_handled = (\<lambda>f. True),
     md_varying = None, md_allowTrailing = False \<rparr>"

definition sdbp_CfgPPS_msg :: msg_desc where
  "sdbp_CfgPPS_msg = \<lparr> md_name = ''CfgPPS'', md_id = msgID sdbp_clsCFG 0x41, md_idName = ''PPS'',
     md_fixed = Some sdbp_CfgPPS, md_handled = (\<lambda>f. True),
     md_varying = None, md_allowTrailing = False \<rparr>"

definition sdbp_CfgNMEA_msg :: msg_desc where
  "sdbp_CfgNMEA_msg = \<lparr> md_name = ''CfgNMEA'', md_id = msgID sdbp_clsCFG 0x51, md_idName = ''NMEA'',
     md_fixed = Some sdbp_CfgNMEA, md_handled = (\<lambda>f. True),
     md_varying = None, md_allowTrailing = False \<rparr>"

definition sdbp_CfgSDBP_msg :: msg_desc where
  "sdbp_CfgSDBP_msg = \<lparr> md_name = ''CfgSDBP'', md_id = msgID sdbp_clsCFG 0x52, md_idName = ''SDBP'',
     md_fixed = Some sdbp_CfgSDBP, md_handled = (\<lambda>f. True),
     md_varying = None, md_allowTrailing = False \<rparr>"

definition sdbp_CfgTMODE_msg :: msg_desc where
  "sdbp_CfgTMODE_msg = \<lparr> md_name = ''CfgTMODE'', md_id = msgID sdbp_clsCFG 0x43, md_idName = ''TMODE'',
     md_fixed = Some sdbp_CfgTMODE, md_handled = (\<lambda>f. True),
     md_varying = None, md_allowTrailing = False \<rparr>"

definition sdbp_CfgDELAY2_msg :: msg_desc where
  "sdbp_CfgDELAY2_msg = \<lparr> md_name = ''CfgDELAY2'', md_id = msgID sdbp_clsCFG 0x44, md_idName = ''DELAY2'',
     md_fixed = Some sdbp_CfgDELAY2, md_handled = (\<lambda>f. True),
     md_varying = None, md_allowTrailing = False \<rparr>"

definition sdbp_CfgTMODE2_msg :: msg_desc where
  "sdbp_CfgTMODE2_msg = \<lparr> md_name = ''CfgTMODE2'', md_id = msgID sdbp_clsCFG 0x45, md_idName = ''TMODE2'',
     md_fixed = Some sdbp_CfgTMODE2, md_handled = (\<lambda>f. True),
     md_varying = None, md_allowTrailing = False \<rparr>"

definition sdbp_CtlRestart_msg :: msg_desc where
  "sdbp_CtlRestart_msg = \<lparr> md_name = ''CtlRestart'', md_id = msgID sdbp_clsCTL 0x01, md_idName = ''RESTART'',
     md_fixed = Some sdbp_CtlRestart, md_handled = (\<lambda>f. True),
     md_varying = None, md_allowTrailing = False \<rparr>"

definition sdbp_CtlConfig_msg :: msg_desc where
  "sdbp_CtlConfig_msg = \<lparr> md_name = ''CtlConfig'', md_id = msgID sdbp_clsCTL 0x02, md_idName = ''CONFIG'',
     md_fixed = Some sdbp_CtlConfig, md_handled = (\<lambda>f. True),
     md_varying = None, md_allowTrailing = False \<rparr>"

definition sdbp_CtlStandby_msg :: msg_desc where
  "sdbp_CtlStandby_msg = \<lparr> md_name = ''CtlStandby'', md_id = msgID sdbp_clsCTL 0x04, md_idName = ''STANDBY'',
     md_fixed = Some sdbp_CtlStandby, md_handled = (\<lambda>f. True),
     md_varying = None, md_allowTrailing = False \<rparr>"

definition sdbp_DatBDST_msg :: msg_desc where
  "sdbp_DatBDST_msg = \<lparr> md_name = ''DatBDST'', md_id = msgID sdbp_clsDAT 0x16, md_idName = ''BDST'',
     md_fixed = Some sdbp_DatBDST, md_handled = (\<lambda>f. True),
     md_varying = None, md_allowTrailing = False \<rparr>"

definition sdbp_DatGPST_msg :: msg_desc where
  "sdbp_DatGPST_msg = \<lparr> md_name = ''DatGPST'', md_id = msgID sdbp_clsDAT 0x17, md_idName = ''GPST'',
     md_fixed = Some sdbp_DatGPST, md_handled = (\<lambda>f. True),
     md_varying = None, md_allowTrailing = False \<rparr>"

definition sdbp_DatGALT_msg :: msg_desc where
  "sdbp_DatGALT_msg = \<lparr> md_name = ''DatGALT'', md_id = msgID sdbp_clsDAT 0x19, md_idName = ''GALT'',
     md_fixed = Some sdbp_DatGALT, md_handled = (\<lambda>f. True),
     md_varying = None, md_allowTrailing = False \<rparr>"

definition sdbp_DatTPPS_msg :: msg_desc where
  "sdbp_DatTPPS_msg = \<lparr> md_name = ''DatTPPS'', md_id = msgID sdbp_clsDAT 0x41, md_idName = ''TPPS'',
     md_fixed = Some sdbp_DatTPPS, md_handled = (\<lambda>f. True),
     md_varying = None, md_allowTrailing = False \<rparr>"

definition sdbp_DatUTCT2_msg :: msg_desc where
  "sdbp_DatUTCT2_msg = \<lparr> md_name = ''DatUTCT2'', md_id = msgID sdbp_clsDAT 0x1F, md_idName = ''UTCT2'',
     md_fixed = Some sdbp_DatUTCT2, md_handled = (\<lambda>f. True),
     md_varying = None, md_allowTrailing = False \<rparr>"

definition sdbp_DatBDSU_msg :: msg_desc where
  "sdbp_DatBDSU_msg = \<lparr> md_name = ''DatBDSU'', md_id = msgID sdbp_clsDAT 0x2C, md_idName = ''BDSU'',
     md_fixed = Some sdbp_DatBDSU, md_handled = (\<lambda>f. True),
     md_varying = None, md_allowTrailing = False \<rparr>"

definition sdbp_DatGPSU_msg :: msg_desc where
  "sdbp_DatGPSU_msg = \<lparr> md_name = ''DatGPSU'', md_id = msgID sdbp_clsDAT 0x2D, md_idName = ''GPSU'',
     md_fixed = Some sdbp_DatGPSU, md_handled = (\<lambda>f. True),
     md_varying = None, md_allowTrailing = False \<rparr>"

definition sdbp_DatGALU_msg :: msg_desc where
  "sdbp_DatGALU_msg = \<lparr> md_name = ''DatGALU'', md_id = msgID sdbp_clsDAT 0x2E, md_idName = ''GALU'',
     md_fixed = Some sdbp_DatGALU, md_handled = (\<lambda>f. True),
     md_varying = None, md_allowTrailing = False \<rparr>"

definition sdbp_DatDOP_msg :: msg_desc where
  "sdbp_DatDOP_msg = \<lparr> md_name = ''DatDOP'', md_id = msgID sdbp_clsDAT 0x13, md_idName = ''DOP'',
     md_fixed = Some sdbp_DatDOP, md_handled = (\<lambda>f. True),
     md_varying = None, md_allowTrailing = False \<rparr>"

definition sdbp_DatECEF2_msg :: msg_desc where
  "sdbp_DatECEF2_msg = \<lparr> md_name = ''DatECEF2'', md_id = msgID sdbp_clsDAT 0x1B, md_idName = ''ECEF2'',
     md_fixed = Some sdbp_DatECEF2, md_handled = (\<lambda>f. True),
     md_varying = None, md_allowTrailing = False \<rparr>"

definition sdbp_DatLLA3_msg :: msg_desc where
  "sdbp_DatLLA3_msg = \<lparr> md_name = ''DatLLA3'', md_id = msgID sdbp_clsDAT 0x1D, md_idName = ''LLA3'',
     md_fixed = Some sdbp_DatLLA3, md_handled = (\<lambda>f. True),
     md_varying = None, md_allowTrailing = False \<rparr>"

definition sdbp_DatNED3_msg :: msg_desc where
  "sdbp_DatNED3_msg = \<lparr> md_name = ''DatNED3'', md_id = msgID sdbp_clsDAT 0x1E, md_idName = ''NED3'',
     md_fixed = Some sdbp_DatNED3, md_handled = (\<lambda>f. True),
     md_varying = None, md_allowTrailing = False \<rparr>"

definition sdbp_DatSAT_msg :: msg_desc where
  "sdbp_DatSAT_msg = \<lparr> md_name = ''DatSAT'', md_id = msgID sdbp_clsDAT 0x30, md_idName = ''SAT'',
     md_fixed = Some sdbp_DatSATFixed, md_handled = (\<lambda>f. True),
     md_varying = Some sdbp_DatSAT_init, md_allowTrailing = False \<rparr>"

definition sdbp_DatTSURV_msg :: msg_desc where
  "sdbp_DatTSURV_msg = \<lparr> md_name = ''DatTSURV'', md_id = msgID sdbp_clsDAT 0x40, md_idName = ''TSURV'',
     md_fixed = Some sdbp_DatTSURV, md_handled = (\<lambda>f. True),
     md_varying = None, md_allowTrailing = False \<rparr>"

definition sdbp_PubAck_msg :: msg_desc where
  "sdbp_PubAck_msg = \<lparr> md_name = ''PubAck'', md_id = msgID sdbp_clsPUB 0x01, md_idName = ''ACK'',
     md_fixed = Some sdbp_PubAck, md_handled = (\<lambda>f. True),
     md_varying = None, md_allowTrailing = False \<rparr>"

definition sdbp_PubNak_msg :: msg_desc where
  "sdbp_PubNak_msg = \<lparr> md_name = ''PubNak'', md_id = msgID sdbp_clsPUB 0x02, md_idName = ''NAK'',
     md_fixed = Some sdbp_PubNak, md_handled = (\<lambda>f. True),
     md_varying = None, md_allowTrailing = False \<rparr>"

definition sdbp_QueVer_msg :: msg_desc where
  "sdbp_QueVer_msg = \<lparr> md_name = ''QueVer'', md_id = msgID sdbp_clsQUE 0x01, md_idName = ''VER'',
     md_fixed = None, md_handled = (\<lambda>f. True),
     md_varying = Some sdbp_QueVer_init, md_allowTrailing = False \<rparr>"

definition sdbp_cfg_msgs :: "msg_desc list" where
  "sdbp_cfg_msgs = [sdbp_CfgGNSS_msg, sdbp_CfgUART_msg, sdbp_CfgRate_msg, sdbp_CfgPPS_msg, sdbp_CfgNMEA_msg,
     sdbp_CfgSDBP_msg, sdbp_CfgTMODE_msg, sdbp_CfgDELAY2_msg, sdbp_CfgTMODE2_msg]"

definition sdbp_ctl_msgs :: "msg_desc list" where
  "sdbp_ctl_msgs = [sdbp_CtlRestart_msg, sdbp_CtlConfig_msg, sdbp_CtlStandby_msg]"

definition sdbp_dat_msgs :: "msg_desc list" where
  "sdbp_dat_msgs = [sdbp_DatBDST_msg, sdbp_DatGPST_msg, sdbp_DatGALT_msg, sdbp_DatTPPS_msg, sdbp_DatUTCT2_msg,
     sdbp_DatBDSU_msg, sdbp_DatGPSU_msg, sdbp_DatGALU_msg, sdbp_DatDOP_msg, sdbp_DatECEF2_msg,
     sdbp_DatLLA3_msg, sdbp_DatNED3_msg, sdbp_DatSAT_msg, sdbp_DatTSURV_msg]"

definition sdbp_pub_msgs :: "msg_desc list" where
  "sdbp_pub_msgs = [sdbp_PubAck_msg, sdbp_PubNak_msg]"

definition sdbp_que_msgs :: "msg_desc list" where
  "sdbp_que_msgs = [sdbp_QueVer_msg]"

definition sdbp_msgs :: "msg_desc list" where
  "sdbp_msgs = sdbp_cfg_msgs @ sdbp_ctl_msgs @ sdbp_dat_msgs @ sdbp_pub_msgs @ sdbp_que_msgs"

definition sdbp_other_idNames :: "(msg_id \<times> string) list" where
  "sdbp_other_idNames = [
     (msgID sdbp_clsCFG 0x16, ''GNSS2''), (msgID sdbp_clsCFG 0x14, ''BDS''),
     (msgID sdbp_clsCFG 0x17, ''BDSSV''), (msgID sdbp_clsCFG 0x22, ''SPI''),
     (msgID sdbp_clsCFG 0x23, ''IIC''), (msgID sdbp_clsCFG 0x24, ''ANT''),
     (msgID sdbp_clsCFG 0x31, ''DYNAMIC''), (msgID sdbp_clsCFG 0x32, ''FIX''),
     (msgID sdbp_clsCFG 0x33, ''SV''), (msgID sdbp_clsCFG 0x34, ''PVT''),
     (msgID sdbp_clsCFG 0x35, ''INTERVAL''), (msgID sdbp_clsCFG 0x37, ''STATIC''),
     (msgID sdbp_clsCFG 0x38, ''DTM''), (msgID sdbp_clsCFG 0x39, ''IONO''),
     (msgID sdbp_clsCFG 0x55, ''RTCM3''), (msgID sdbp_clsCFG 0x60, ''GEN''),
     (msgID sdbp_clsCFG 0x61, ''GEN2''), (msgID sdbp_clsCFG 0x62, ''UTC''),
     (msgID sdbp_clsCFG 0x64, ''FLASHEPH''), (msgID sdbp_clsAST 0x01, ''POS''),
     (msgID sdbp_clsAST 0x02, ''TIME''), (msgID sdbp_clsAST 0x03, ''TIME2''),
     (msgID sdbp_clsAST 0x11, ''BDSE''), (msgID sdbp_clsAST 0x12, ''BDSA''),
     (msgID sdbp_clsAST 0x21, ''GPSE''), (msgID sdbp_clsAST 0x22, ''GPSA''),
     (msgID sdbp_clsAST 0x31, ''GLOE''), (msgID sdbp_clsAST 0x32, ''GLOA''),
     (msgID sdbp_clsAST 0x41, ''GALE''), (msgID sdbp_clsAST 0x42, ''GALA''),
     (msgID sdbp_clsAST 0x50, ''EPO''), (msgID sdbp_clsQUE 0x21, ''VER2''),
     (msgID sdbp_clsQUE 0x03, ''CID''), (msgID sdbp_clsDAT 0x10, ''LLA''),
     (msgID sdbp_clsDAT 0x1A, ''LLA2''), (msgID sdbp_clsDAT 0x11, ''ECEF''),
     (msgID sdbp_clsDAT 0x12, ''NED''), (msgID sdbp_clsDAT 0x1C, ''NED2''),
     (msgID sdbp_clsDAT 0x14, ''CLK''), (msgID sdbp_clsDAT 0x15, ''UTCT''),
     (msgID sdbp_clsDAT 0x18, ''GLOT''), (msgID sdbp_clsDAT 0x21, ''BDSE''),
     (msgID sdbp_clsDAT 0x22, ''GPSE''), (msgID sdbp_clsDAT 0x23, ''GLOE''),
     (msgID sdbp_clsDAT 0x26, ''GALE''), (msgID sdbp_clsDAT 0x27, ''BDSE2''),
     (msgID sdbp_clsDAT 0x28, ''GPSE2''), (msgID sdbp_clsDAT 0x29, ''BDSI2''),
     (msgID sdbp_clsDAT 0x2A, ''GPSI''), (msgID sdbp_clsDAT 0x2B, ''GALI''),
     (msgID sdbp_clsDAT 0x33, ''SAT2''), (msgID sdbp_clsDAT 0x31, ''MEASX''),
     (msgID sdbp_clsDAT 0x62, ''SIG3'')]"

text \<open>\<^verbatim>\<open>idNameMap\<close>, in the order the files initialise it; a later entry overwrites.\<close>

definition sdbp_idNameMap :: "(msg_id \<times> string) list" where
  "sdbp_idNameMap = map (\<lambda>d. (md_id d, md_idName d)) sdbp_cfg_msgs
     @ map (\<lambda>d. (md_id d, md_idName d)) sdbp_ctl_msgs
     @ map (\<lambda>d. (md_id d, md_idName d)) sdbp_dat_msgs
     @ sdbp_other_idNames
     @ map (\<lambda>d. (md_id d, md_idName d)) sdbp_pub_msgs
     @ map (\<lambda>d. (md_id d, md_idName d)) sdbp_que_msgs"

lemmas sdbp_layout_defs = sdbp_CfgGNSS_def sdbp_CfgUART_def sdbp_CfgRate_def sdbp_CfgPPS_def
  sdbp_CfgNMEA_def sdbp_CfgSDBP_def sdbp_CfgTMODE_def sdbp_CfgDELAY2_def sdbp_CfgTMODE2_def
  sdbp_CtlRestart_def sdbp_CtlConfig_def sdbp_CtlStandby_def sdbp_DatNavHeader_def sdbp_DatGNSST_def
  sdbp_DatBDST_def sdbp_DatGPST_def sdbp_DatGALT_def sdbp_DatTPPS_def sdbp_DatUTCT2_def
  sdbp_DatGNSSU_def sdbp_DatBDSU_def sdbp_DatGPSU_def sdbp_DatGALU_def sdbp_DatDOP_def
  sdbp_DatECEF2_def sdbp_DatLLA3_def sdbp_DatNED3_def sdbp_DatSATFixed_def sdbp_DatSATEntry_def
  sdbp_DatTSURV_def sdbp_PubAck_def sdbp_PubNak_def

lemmas sdbp_msg_defs = sdbp_CfgGNSS_msg_def sdbp_CfgUART_msg_def sdbp_CfgRate_msg_def
  sdbp_CfgPPS_msg_def sdbp_CfgNMEA_msg_def sdbp_CfgSDBP_msg_def sdbp_CfgTMODE_msg_def
  sdbp_CfgDELAY2_msg_def sdbp_CfgTMODE2_msg_def sdbp_CtlRestart_msg_def sdbp_CtlConfig_msg_def
  sdbp_CtlStandby_msg_def sdbp_DatBDST_msg_def sdbp_DatGPST_msg_def sdbp_DatGALT_msg_def
  sdbp_DatTPPS_msg_def sdbp_DatUTCT2_msg_def sdbp_DatBDSU_msg_def sdbp_DatGPSU_msg_def
  sdbp_DatGALU_msg_def sdbp_DatDOP_msg_def sdbp_DatECEF2_msg_def sdbp_DatLLA3_msg_def
  sdbp_DatNED3_msg_def sdbp_DatSAT_msg_def sdbp_DatTSURV_msg_def sdbp_PubAck_msg_def
  sdbp_PubNak_msg_def sdbp_QueVer_msg_def

lemmas sdbp_lists = sdbp_msgs_def sdbp_cfg_msgs_def sdbp_ctl_msgs_def sdbp_dat_msgs_def
  sdbp_pub_msgs_def sdbp_que_msgs_def

section \<open>The table\<close>

lemma sdbp_DatSAT_wf: "desc_wf sdbp_DatSAT_msg"
  by (auto simp: desc_wf_def sdbp_msg_defs sdbp_DatSAT_init_def sdbp_layout_defs Let_def split: if_splits)

lemma sdbp_QueVer_wf: "desc_wf sdbp_QueVer_msg"
  by (auto simp: desc_wf_def sdbp_msg_defs sdbp_QueVer_init_def)

lemma sdbp_layouts: "list_all desc_wf sdbp_msgs"
  unfolding sdbp_lists append.simps list.pred_inject(2)
  by (intro conjI list.pred_inject(1))
    ((rule sdbp_DatSAT_wf sdbp_QueVer_wf) | (rule good_plain [THEN conjunct1], simp add: sdbp_msg_defs, simp add: sdbp_msg_defs, simp add: sdbp_layout_defs)
    | (rule good_slice [THEN conjunct1], simp add: sdbp_msg_defs, simp add: sdbp_msg_defs, simp, simp add: sdbp_layout_defs,
        simp add: sdbp_layout_defs))+

lemma sdbp_ids: "distinct (map md_id sdbp_msgs)"
  unfolding sdbp_lists append.simps list.map sdbp_msg_defs msg_desc.simps by simp

interpretation sdbp: single_table sdbp_msgs
  by unfold_locales (use sdbp_layouts sdbp_ids in \<open>simp_all add: list_all_iff\<close>)

definition sdbp_ackable :: "msg_id \<Rightarrow> bool" where
  "sdbp_ackable mid \<longleftrightarrow> mid \<noteq> msgID sdbp_clsCTL 0x01 \<and> mid \<noteq> msgID sdbp_clsCTL 0x04"

section \<open>Properties\<close>

text \<open>a registered SDBP message, serialized, is a complete SDBP packet with a valid checksum, and
  \<^verbatim>\<open>ParseMsg\<close> of the packet returns the message.\<close>
lemma sdbp_roundtrip:
  assumes "d \<in> set sdbp_msgs" "msg_ok d fixed vary"
    and "msg_payload (KnownMsg d fixed vary) = Some payload" "length payload \<le> 0xFFFF"
  shows "\<exists>pkt. sdbp_serialize (KnownMsg d fixed vary) = Some (Inr pkt)
    \<and> complete sdbpFormat pkt \<and> sdbp_extractChecksum pkt = sdbp_computeChecksum pkt
    \<and> sdbp_parseMsg (msgMap_last sdbp_msgs) pkt = Inr (KnownMsg d fixed vary)"
proof -
  obtain pkt where p: "sdbp_packMsg (md_id d) payload = Inr pkt" using sdbp_packMsg_total [OF assms(4)] by blast
  with assms(3) have s: "sdbp_serialize (KnownMsg d fixed vary) = Some (Inr pkt)"
    by (simp add: sdbp_serialize_def msg_id_of_def)
  from sdbp_parse_serialize [where msgMap = "msgMap_last sdbp_msgs", OF assms(2) sdbp.lookup [OF assms(1)] s]
  have "sdbp_parseMsg (msgMap_last sdbp_msgs) pkt = Inr (KnownMsg d fixed vary)" .
  with s sdbp_pack_packet(1,2) [OF p] show ?thesis by blast
qed

lemma sdbp_roundtrip_ack:
  "\<exists>pkt. sdbp_serialize (KnownMsg sdbp_PubAck_msg (VSeq [VInt 6, VInt 1]) None) = Some (Inr pkt)
    \<and> complete sdbpFormat pkt \<and> sdbp_extractChecksum pkt = sdbp_computeChecksum pkt
    \<and> sdbp_parseMsg (msgMap_last sdbp_msgs) pkt = Inr (KnownMsg sdbp_PubAck_msg (VSeq [VInt 6, VInt 1]) None)"
  by (rule sdbp_roundtrip [of sdbp_PubAck_msg "(VSeq [VInt 6, VInt 1])" None "[6, 1]"])
    (simp_all add: sdbp_lists msg_ok_def sdbp_PubAck_msg_def sdbp_layout_defs msg_payload_def
      prim_ok_def prim_put_def numeral_2_eq_2)


end
