(* ===== verification/CircBuf.thy ===== *)
theory CircBuf
  imports Prelude
begin

text \<open>
  The circular buffer of \<^verbatim>\<open>time/lib/circbuf/buffer.go\<close> and what it stands for: the last values
  appended, the most recent first. The zero value of the element type is an argument. An index
  out of range or a size that is not positive is a panic, \<open>None\<close>.
\<close>

section \<open>Sliding windows\<close>

text \<open>
  The contract of a sliding window: a representation with an invariant, its contents (the most
  recent value first), its capacity, and an operation that adds a value and forgets the oldest
  one beyond the capacity.
\<close>

locale sliding_window =
  fixes ok :: "'w \<Rightarrow> bool" and contents :: "'w \<Rightarrow> 'a list" and capacity :: "'w \<Rightarrow> nat" and add :: "'a \<Rightarrow> 'w \<Rightarrow> 'w option"
  assumes add_ok: "ok w \<Longrightarrow> \<exists>w'. add v w = Some w' \<and> ok w' \<and> capacity w' = capacity w
      \<and> contents w' = take (capacity w) (v # contents w)"
    and contents_bound: "ok w \<Longrightarrow> length (contents w) \<le> capacity w"
begin

text \<open>Adding a whole sequence of values keeps the last ones.\<close>

lemma adds:
  "ok w \<Longrightarrow> \<exists>w'. foldl (\<lambda>r v. Option.bind r (add v)) (Some w) vs = Some w' \<and> ok w' \<and> capacity w' = capacity w
     \<and> contents w' = take (capacity w) (rev vs @ contents w)"
proof (induction vs arbitrary: w)
  case Nil
  then show ?case using contents_bound by simp
next
  case (Cons v vs)
  from add_ok [OF Cons.prems, of v] obtain w1 where w1: "add v w = Some w1" "ok w1" "capacity w1 = capacity w"
    "contents w1 = take (capacity w) (v # contents w)" by blast
  from Cons.IH [OF w1(2)] obtain w' where
    "foldl (\<lambda>r v. Option.bind r (add v)) (Some w1) vs = Some w'" "ok w'" "capacity w' = capacity w1"
    "contents w' = take (capacity w1) (rev vs @ contents w1)" by blast
  moreover have "take n (xs @ take n ys) = take n (xs @ ys)" for n and xs ys :: "'a list" by (simp add: min_def)
  ultimately show ?case using w1 by simp
qed

end

section \<open>The buffer\<close>

record 'a buffer =
  cb_buf :: "'a list"
  cb_end :: nat
  cb_full :: bool

definition newBuffer :: "'a \<Rightarrow> int \<Rightarrow> 'a buffer option" where
  "newBuffer zero sz = (if sz \<le> 0 then None
     else Some \<lparr> cb_buf = replicate (nat sz) zero, cb_end = 0, cb_full = False \<rparr>)"

definition bufClear :: "'a buffer \<Rightarrow> 'a buffer" where
  "bufClear b = b \<lparr> cb_end := 0, cb_full := False \<rparr>"

definition bufLen :: "'a buffer \<Rightarrow> nat" where
  "bufLen b = (if cb_full b then length (cb_buf b) else cb_end b)"

definition bufCap :: "'a buffer \<Rightarrow> nat" where
  "bufCap b = length (cb_buf b)"

definition bufAppend :: "'a \<Rightarrow> 'a buffer \<Rightarrow> 'a buffer option" where
  "bufAppend v b =
     (let b = (if cb_end b = length (cb_buf b) then b \<lparr> cb_end := 0, cb_full := True \<rparr> else b)
      in if cb_end b < length (cb_buf b)
         then Some (b \<lparr> cb_buf := (cb_buf b)[cb_end b := v], cb_end := cb_end b + 1 \<rparr>) else None)"

text \<open>The index of the value appended \<open>i\<close> before the last.\<close>

definition buf_pos :: "'a buffer \<Rightarrow> int \<Rightarrow> int" where
  "buf_pos b i = (let j = int (cb_end b) - 1 - i in if j < 0 then j + int (length (cb_buf b)) else j)"

definition bufLast :: "'a \<Rightarrow> int \<Rightarrow> 'a buffer \<Rightarrow> 'a" where
  "bufLast zero i b = (if i < 0 \<or> int (bufLen b) \<le> i then zero else cb_buf b ! nat (buf_pos b i))"

definition bufSetLast :: "int \<Rightarrow> 'a \<Rightarrow> 'a buffer \<Rightarrow> 'a buffer" where
  "bufSetLast i v b = (if i < 0 \<or> int (bufLen b) \<le> i then b else b \<lparr> cb_buf := (cb_buf b)[nat (buf_pos b i) := v] \<rparr>)"

text \<open>\<^verbatim>\<open>Iterate\<close>: the callback takes a state and says whether to go on.\<close>

function buf_iterate :: "('s \<Rightarrow> nat \<Rightarrow> 'a \<Rightarrow> 's \<times> bool) \<Rightarrow> 'a buffer \<Rightarrow> nat \<Rightarrow> int \<Rightarrow> 's \<Rightarrow> 's \<times> bool" where
  "buf_iterate yield b i j s =
     (if i < length (cb_buf b) then
        (if j < 0 \<and> \<not> cb_full b then (s, True)
         else let j = (if j < 0 then int (length (cb_buf b)) - 1 else j);
                  (s', go) = yield s i (cb_buf b ! nat j)
              in if go then buf_iterate yield b (Suc i) (j - 1) s' else (s', False))
      else (s, True))"
  by pat_completeness auto
termination
  by (relation "measure (\<lambda>(yield, b, i, j, s). length (cb_buf b) - i)") auto

declare buf_iterate.simps [simp del]

definition bufIterate :: "('s \<Rightarrow> nat \<Rightarrow> 'a \<Rightarrow> 's \<times> bool) \<Rightarrow> 'a buffer \<Rightarrow> 's \<Rightarrow> 's \<times> bool" where
  "bufIterate yield b s = buf_iterate yield b 0 (int (cb_end b) - 1) s"

section \<open>What it stands for\<close>

definition buf_ok :: "'a buffer \<Rightarrow> bool" where
  "buf_ok b \<longleftrightarrow> 0 < length (cb_buf b) \<and> cb_end b \<le> length (cb_buf b) \<and> (cb_full b \<longrightarrow> 0 < cb_end b)"

definition buf_contents :: "'a buffer \<Rightarrow> 'a list" where
  "buf_contents b = rev (take (cb_end b) (cb_buf b)) @ (if cb_full b then rev (drop (cb_end b) (cb_buf b)) else [])"

lemma length_contents: "buf_ok b \<Longrightarrow> length (buf_contents b) = bufLen b"
  by (simp add: buf_ok_def buf_contents_def bufLen_def)

lemma contents_nth:
  assumes "buf_ok b" "i < bufLen b"
  shows "buf_contents b ! i = cb_buf b ! nat (buf_pos b (int i))" "nat (buf_pos b (int i)) < length (cb_buf b)"
proof -
  have ok: "cb_end b \<le> length (cb_buf b)" using assms(1) by (simp add: buf_ok_def)
  show "nat (buf_pos b (int i)) < length (cb_buf b)"
    using assms by (auto simp: buf_pos_def buf_ok_def bufLen_def Let_def split: if_splits)
  show "buf_contents b ! i = cb_buf b ! nat (buf_pos b (int i))"
  proof (cases "i < cb_end b")
    case True
    then have "nat (buf_pos b (int i)) = cb_end b - Suc i" by (simp add: buf_pos_def Let_def)
    with True ok show ?thesis by (simp add: buf_contents_def nth_append rev_nth)
  next
    case False
    with assms(2) have f: "cb_full b" "i < length (cb_buf b)" by (auto simp: bufLen_def split: if_splits)
    with False have "nat (buf_pos b (int i)) = cb_end b + (length (cb_buf b) - Suc i)"
      by (simp add: buf_pos_def Let_def)
    moreover have "rev (drop (cb_end b) (cb_buf b)) ! (i - cb_end b)
        = cb_buf b ! (cb_end b + (length (cb_buf b) - Suc i))"
    proof -
      have k: "i - cb_end b < length (drop (cb_end b) (cb_buf b))" using False f by simp
      have "length (drop (cb_end b) (cb_buf b)) - Suc (i - cb_end b) = length (cb_buf b) - Suc i"
        using False f by simp
      with rev_nth [OF k] show ?thesis using ok by simp
    qed
    ultimately show ?thesis using False f ok by (simp add: buf_contents_def nth_append)
  qed
qed

lemma bufAppend_spec:
  assumes "buf_ok b"
  shows "\<exists>b'. bufAppend v b = Some b' \<and> buf_ok b' \<and> bufCap b' = bufCap b
    \<and> buf_contents b' = take (bufCap b) (v # buf_contents b)"
proof (cases "cb_end b = length (cb_buf b)")
  case True
  define xs where "xs = cb_buf b"
  have ne: "0 < length xs" using assms by (simp add: buf_ok_def xs_def)
  then obtain y ys where xs: "xs = y # ys" by (cases xs) auto
  have "buf_contents b = rev xs" using True by (simp add: buf_contents_def xs_def)
  then show ?thesis
    using True xs by (simp add: bufAppend_def buf_ok_def bufCap_def buf_contents_def xs_def [symmetric] Let_def)
next
  case False
  with assms have lt: "cb_end b < length (cb_buf b)" by (simp add: buf_ok_def)
  let ?xs = "cb_buf b" and ?e = "cb_end b"
  have t: "take (Suc ?e) (?xs[?e := v]) = take ?e ?xs @ [v]" using lt by (simp add: take_Suc_conv_app_nth)
  have d: "drop (Suc ?e) (?xs[?e := v]) = drop (Suc ?e) ?xs" by simp
  have r: "take (length ?xs) (v # rev (take ?e ?xs) @ rev (drop ?e ?xs)) = v # rev (take ?e ?xs) @ rev (drop (Suc ?e) ?xs)"
  proof -
    have "drop ?e ?xs = ?xs ! ?e # drop (Suc ?e) ?xs" using lt by (simp add: Cons_nth_drop_Suc)
    then have "v # rev (take ?e ?xs) @ rev (drop ?e ?xs) = (v # rev (take ?e ?xs) @ rev (drop (Suc ?e) ?xs)) @ [?xs ! ?e]"
      by simp
    moreover have "length (v # rev (take ?e ?xs) @ rev (drop (Suc ?e) ?xs)) = length ?xs" using lt by simp
    ultimately show ?thesis by (metis append_eq_conv_conj)
  qed
  show ?thesis
  proof (cases "cb_full b")
    case True
    then show ?thesis using False lt assms t d r
      by (simp add: bufAppend_def buf_ok_def bufCap_def buf_contents_def Let_def)
  next
    case nf: False
    have "take (length ?xs) (v # rev (take ?e ?xs)) = v # rev (take ?e ?xs)" using lt by (intro take_all) simp
    with nf False lt assms t show ?thesis
      by (simp add: bufAppend_def buf_ok_def bufCap_def buf_contents_def Let_def)
  qed
qed

lemma contents_bufCap: "buf_ok b \<Longrightarrow> length (buf_contents b) \<le> bufCap b"
  by (simp add: length_contents) (simp add: bufLen_def bufCap_def buf_ok_def)

interpretation circ: sliding_window buf_ok buf_contents bufCap bufAppend
  by unfold_locales (rule bufAppend_spec, assumption, rule contents_bufCap)

lemma newBuffer_spec:
  "0 < sz \<Longrightarrow> \<exists>b. newBuffer zero sz = Some b \<and> buf_ok b \<and> bufCap b = nat sz \<and> buf_contents b = []"
  by (simp add: newBuffer_def buf_ok_def bufCap_def buf_contents_def)

lemma bufLast_spec: "buf_ok b \<Longrightarrow>
    bufLast zero i b = (if 0 \<le> i \<and> nat i < length (buf_contents b) then buf_contents b ! nat i else zero)"
  using contents_nth(1) [of b "nat i"] by (auto simp: bufLast_def length_contents)

lemma bufSetLast_spec:
  assumes "buf_ok b"
  shows "buf_ok (bufSetLast i v b) \<and> bufCap (bufSetLast i v b) = bufCap b \<and> bufLen (bufSetLast i v b) = bufLen b"
  using assms by (simp add: bufSetLast_def buf_ok_def bufCap_def bufLen_def)

lemma bufSetLast_contents:
  assumes "buf_ok b" "0 \<le> i" "nat i < bufLen b"
  shows "buf_contents (bufSetLast i v b) = (buf_contents b)[nat i := v]"
proof (rule nth_equalityI)
  note s = bufSetLast_spec [OF assms(1), of i v]
  show "length (buf_contents (bufSetLast i v b)) = length ((buf_contents b)[nat i := v])"
    using s assms(1) by (simp add: length_contents)
  fix k assume "k < length (buf_contents (bufSetLast i v b))"
  then have k: "k < bufLen b" using s by (simp add: length_contents)
  have p: "buf_pos (bufSetLast i v b) (int k) = buf_pos b (int k)" by (simp add: bufSetLast_def buf_pos_def Let_def)
  have inj: "nat (buf_pos b (int k)) = nat (buf_pos b i) \<longleftrightarrow> k = nat i"
    using assms k by (auto simp: buf_pos_def buf_ok_def bufLen_def Let_def split: if_splits)
  have "nat (buf_pos b i) < length (cb_buf b)" using contents_nth(2) [of b "nat i"] assms by simp
  moreover have "cb_buf (bufSetLast i v b) = (cb_buf b)[nat (buf_pos b i) := v]"
  proof -
    have "\<not> (i < 0 \<or> int (bufLen b) \<le> i)" using assms by linarith
    then show ?thesis by (simp add: bufSetLast_def)
  qed
  moreover have "buf_contents (bufSetLast i v b) ! k = cb_buf (bufSetLast i v b) ! nat (buf_pos b (int k))"
    using contents_nth(1) [of "bufSetLast i v b" k] s k p by simp
  moreover have "buf_contents b ! k = cb_buf b ! nat (buf_pos b (int k))" by (rule contents_nth(1) [OF assms(1) k])
  ultimately show "buf_contents (bufSetLast i v b) ! k = (buf_contents b)[nat i := v] ! k"
    using inj k assms by (auto simp: nth_list_update length_contents)
qed

text \<open>\<^verbatim>\<open>Iterate\<close> visits the contents in order.\<close>

fun visit :: "('s \<Rightarrow> nat \<Rightarrow> 'a \<Rightarrow> 's \<times> bool) \<Rightarrow> nat \<Rightarrow> 'a list \<Rightarrow> 's \<Rightarrow> 's \<times> bool" where
  "visit yield i [] s = (s, True)"
| "visit yield i (v # vs) s = (let (s', go) = yield s i v in if go then visit yield (Suc i) vs s' else (s', False))"

lemma iterate_from:
  assumes "buf_ok b" "i \<le> bufLen b"
    "if i \<le> cb_end b then j = int (cb_end b) - 1 - int i else j = int (cb_end b) - 1 - int i + int (length (cb_buf b))"
  shows "buf_iterate yield b i j s = visit yield i (drop i (buf_contents b)) s"
  using assms
proof (induction "bufLen b - i" arbitrary: i j s)
  case 0
  then have i: "i = bufLen b" by simp
  have "i < length (cb_buf b) \<Longrightarrow> j < 0 \<and> \<not> cb_full b"
    using 0 i by (auto simp: bufLen_def split: if_splits)
  then show ?case using i 0 by (subst buf_iterate.simps) (auto simp: length_contents)
next
  case (Suc n)
  then have lt: "i < bufLen b" by simp
  have len: "i < length (cb_buf b)" and go: "j < 0 \<Longrightarrow> cb_full b"
    using lt Suc.prems by (auto simp: bufLen_def buf_ok_def split: if_splits)
  define k where "k = (if j < 0 then int (length (cb_buf b)) - 1 else j)"
  have k: "k = buf_pos b (int i)"
    using lt len Suc.prems by (auto simp: k_def buf_pos_def Let_def split: if_splits)
  have step: "buf_iterate yield b (Suc i) (k - 1) s' = visit yield (Suc i) (drop (Suc i) (buf_contents b)) s'" for s'
    using Suc.hyps(2) lt len Suc.prems
    by (intro Suc.hyps(1)) (auto simp: k_def split: if_splits)
  have "drop i (buf_contents b) = buf_contents b ! i # drop (Suc i) (buf_contents b)"
    using lt Suc.prems(1) by (simp add: Cons_nth_drop_Suc length_contents)
  with contents_nth(1) [OF Suc.prems(1) lt] k len go step show ?case
    by (subst buf_iterate.simps) (auto simp: k_def [symmetric] Let_def split: prod.split)
qed

lemma iterate_contents: "buf_ok b \<Longrightarrow> bufIterate yield b s = visit yield 0 (buf_contents b) s"
  using iterate_from [of b 0 "int (cb_end b) - 1" yield s] by (simp add: bufIterate_def)

text \<open>C0: A circular buffer is a window over what was appended to it. A new buffer of a positive size takes
  any sequence of values without a panic; the \<open>i\<close>th most recent value is then what \<^verbatim>\<open>Last\<close>
  returns, up to the size of the buffer, and the zero value beyond; \<^verbatim>\<open>Iterate\<close> visits exactly these
  values, the most recent first, until the callback stops it.\<close>
theorem circbuf_window:
  assumes "0 < sz"
  shows "\<exists>b. foldl (\<lambda>r v. Option.bind r (bufAppend v)) (newBuffer zero sz) vs = Some b
    \<and> bufCap b = nat sz \<and> bufLen b = min (nat sz) (length vs)
    \<and> (\<forall>i. bufLast zero i b = (if 0 \<le> i \<and> nat i < min (nat sz) (length vs) then rev vs ! nat i else zero))
    \<and> (\<forall>(s :: 's) yield. bufIterate yield b s = visit yield 0 (take (nat sz) (rev vs)) s)"
proof -
  from newBuffer_spec [OF assms, of zero] obtain b0 where b0: "newBuffer zero sz = Some b0" "buf_ok b0"
    "bufCap b0 = nat sz" "buf_contents b0 = []" by blast
  from circ.adds [OF b0(2), of vs] b0 obtain b where b:
    "foldl (\<lambda>r v. Option.bind r (bufAppend v)) (newBuffer zero sz) vs = Some b" "buf_ok b" "bufCap b = nat sz"
    "buf_contents b = take (nat sz) (rev vs)" by auto
  with length_contents [OF b(2)] have "bufLen b = min (nat sz) (length vs)" by (simp add: min.commute)
  with b show ?thesis by (auto simp: bufLast_spec iterate_contents)
qed

theorem circbuf_window_witness:
  "\<exists>b. foldl (\<lambda>r v. Option.bind r (bufAppend v)) (newBuffer (0 :: nat) 2) [5, 6, 7] = Some b
    \<and> bufLen b = 2 \<and> bufLast 0 0 b = 7 \<and> bufLast 0 1 b = 6 \<and> bufLast 0 2 b = 0
    \<and> bufIterate (\<lambda>s i v. (s @ [v], True)) b [] = ([7, 6], True)"
  using circbuf_window [of 2 "0 :: nat" "[5, 6, 7]", where 's = "nat list"] by (auto simp: numeral_eq_Suc)

end
