(* ===== verification/GoInt.thy ===== *)
theory GoInt
  imports Prelude
begin

text \<open>
  The signed integers of Go as unbounded integers with the wrap-around of their width written out,
  and the division and remainder of the language, which truncate towards zero.
\<close>

text \<open>The division of Go truncates towards zero.\<close>

definition quot :: "int \<Rightarrow> int \<Rightarrow> int" where
  "quot a b = sgn a * sgn b * (\<bar>a\<bar> div \<bar>b\<bar>)"

definition rem64 :: "int \<Rightarrow> int \<Rightarrow> int" where
  "rem64 a b = a - quot a b * b"

lemma quot_two: "quot a 2 = (if 0 \<le> a then a div 2 else - ((- a) div 2))"
  by (simp add: quot_def sgn_if)

lemma quot_minus: "quot (- a) b = - quot a b" "rem64 (- a) b = - rem64 a b"
  by (simp_all add: quot_def rem64_def)

lemma quot_halves:
  assumes "0 \<le> a \<and> 0 \<le> b \<or> a < 0 \<and> b < 0"
  shows "quot a 2 + quot b 2 + quot (rem64 a 2 + rem64 b 2) 2 = quot (a + b) 2"
proof -
  have pos: "quot x 2 + quot y 2 + quot (rem64 x 2 + rem64 y 2) 2 = quot (x + y) 2" if "0 \<le> x" "0 \<le> y" for x y
    using that by (simp add: quot_two rem64_def)
  from assms show ?thesis
  proof
    assume "a < 0 \<and> b < 0"
    then have "quot (- a) 2 + quot (- b) 2 + quot (rem64 (- a) 2 + rem64 (- b) 2) 2 = quot (- a + - b) 2"
      by (intro pos) auto
    moreover have "- a + - b = - (a + b)" "- rem64 a 2 + - rem64 b 2 = - (rem64 a 2 + rem64 b 2)" by simp_all
    ultimately show ?thesis unfolding quot_minus by (simp only: quot_minus)
  qed (simp add: pos)
qed

end
