(* ===== verification/Median.thy ===== *)
theory Median
  imports CircBuf GoInt "HOL-Library.Multiset"
begin

text \<open>
  The moving median of \<^verbatim>\<open>time/lib/median/median.go\<close>: a circular array of values and an array of
  indices into it, kept sorted by value. The element type is a linear order, as for the integer
  instances (\<^verbatim>\<open>int64\<close> and \<^verbatim>\<open>time.Duration\<close>); the average is that of the integer instances, with the
  wrap-around of 64-bit arithmetic. The zero value is an argument. A panic is \<open>None\<close>.
\<close>

section \<open>The average of two 64-bit integers\<close>

definition average :: "int \<Rightarrow> int \<Rightarrow> int" where
  "average a b =
     (if a < 0 \<and> 0 \<le> b then quot (i64 (a + b)) 2
      else i64 (i64 (quot a 2 + quot b 2) + quot (i64 (rem64 a 2 + rem64 b 2)) 2))"

lemma average_exact:
  assumes "in_i64 a" "in_i64 b" "a \<le> b"
  shows "average a b = quot (a + b) 2"
proof (cases "a < 0 \<and> 0 \<le> b")
  case True
  with assms have "in_i64 (a + b)" by (simp add: in_i64_def)
  with True show ?thesis by (simp add: average_def i64_id)
next
  case False
  have "in_i64 (quot a 2 + quot b 2)" "in_i64 (rem64 a 2 + rem64 b 2)"
    using assms by (auto simp: in_i64_def quot_two rem64_def)
  then have "average a b = i64 (quot a 2 + quot b 2 + quot (rem64 a 2 + rem64 b 2) 2)"
    unfolding average_def by (subst if_not_P [OF False]) (simp add: i64_id)
  moreover have "in_i64 (quot (a + b) 2)" using assms by (auto simp: in_i64_def quot_two)
  ultimately show ?thesis using quot_halves [of a b] False assms(3) by (auto simp: i64_id)
qed

section \<open>The window\<close>

definition maxCapacity :: int where "maxCapacity = 65536"

definition winIndex :: "nat \<Rightarrow> nat" where "winIndex n = n mod 2 ^ 16"

lemma winIndex_code [code]: "winIndex n = nat (int n mod 65536)"
  by (simp add: winIndex_def nat_mod_distrib)

record 'a window =
  mw_values :: "'a list"
  mw_indices :: "nat list"
  mw_head :: nat

definition newWindow :: "'a \<Rightarrow> int \<Rightarrow> 'a window option" where
  "newWindow zero capacity = (if capacity \<le> 0 then None else if maxCapacity < capacity then None
     else Some \<lparr> mw_values = replicate (nat capacity) zero, mw_indices = [], mw_head = 0 \<rparr>)"

text \<open>\<^verbatim>\<open>slices.BinarySearchFunc\<close>: the first index whose element is not less than the target, by
  bisection of the interval from \<open>i\<close> to \<open>j\<close>.\<close>

function bisect :: "(nat \<Rightarrow> bool) \<Rightarrow> nat \<Rightarrow> nat \<Rightarrow> nat" where
  "bisect lower i j = (if i < j then let h = (i + j) div 2 in if lower h then bisect lower (h + 1) j else bisect lower i h else i)"
  by pat_completeness auto
termination
  by (relation "measure (\<lambda>(lower, i, j). j - i)") auto

declare bisect.simps [simp del]

definition binarySearch :: "'a::linorder list \<Rightarrow> nat list \<Rightarrow> 'a \<Rightarrow> nat" where
  "binarySearch values indices v = bisect (\<lambda>k. values ! (indices ! k) < v) 0 (length indices)"

definition slice_insert :: "'b list \<Rightarrow> nat \<Rightarrow> 'b \<Rightarrow> 'b list" where
  "slice_insert xs i x = take i xs @ x # drop i xs"

definition slice_delete :: "'b list \<Rightarrow> nat \<Rightarrow> 'b list" where
  "slice_delete xs i = take i xs @ drop (i + 1) xs"

fun slice_index :: "'b list \<Rightarrow> 'b \<Rightarrow> nat option" where
  "slice_index [] x = None"
| "slice_index (y # ys) x = (if y = x then Some 0 else map_option Suc (slice_index ys x))"

definition insertIndex :: "nat \<Rightarrow> 'a::linorder window \<Rightarrow> 'a window" where
  "insertIndex slot w =
     (let v = mw_values w ! slot; pos = binarySearch (mw_values w) (mw_indices w) v
      in w \<lparr> mw_indices := slice_insert (mw_indices w) pos slot \<rparr>)"

definition replaceIndex :: "nat \<Rightarrow> 'a::linorder \<Rightarrow> 'a window \<Rightarrow> 'a window option" where
  "replaceIndex slot newVal w =
     (let values = (mw_values w)[slot := newVal]
      in case slice_index (mw_indices w) slot of
           None \<Rightarrow> None
         | Some pos \<Rightarrow>
             let indices = slice_delete (mw_indices w) pos; insertPos = binarySearch values indices newVal
             in Some (w \<lparr> mw_values := values, mw_indices := slice_insert indices insertPos slot \<rparr>))"

definition winAdd :: "'a::linorder \<Rightarrow> 'a window \<Rightarrow> 'a window option" where
  "winAdd v w =
     Option.bind
       (if length (mw_values w) \<le> length (mw_indices w) then replaceIndex (winIndex (mw_head w)) v w
        else Some (insertIndex (winIndex (mw_head w)) (w \<lparr> mw_values := (mw_values w)[mw_head w := v] \<rparr>)))
       (\<lambda>w. Some (w \<lparr> mw_head := (mw_head w + 1) mod length (mw_values w) \<rparr>))"

definition winMedian :: "int window \<Rightarrow> int" where
  "winMedian w =
     (let n = length (mw_indices w); mid = n div 2
      in if n = 0 then 0
         else if n mod 2 \<noteq> 0 then mw_values w ! (mw_indices w ! mid)
         else average (mw_values w ! (mw_indices w ! (mid - 1))) (mw_values w ! (mw_indices w ! mid)))"

definition seqMedian :: "int list \<Rightarrow> int" where
  "seqMedian seq =
     (let values = sort seq; n = length values; mid = n div 2
      in if n = 0 then 0
         else if n mod 2 \<noteq> 0 then values ! mid
         else average (values ! (mid - 1)) (values ! mid))"

definition winLen :: "'a window \<Rightarrow> nat" where "winLen w = length (mw_indices w)"

definition winCap :: "'a window \<Rightarrow> nat" where "winCap w = length (mw_values w)"

definition winLast :: "'a window \<Rightarrow> 'a option" where
  "winLast w = (if mw_indices w = [] then None
     else Some (mw_values w ! nat ((int (mw_head w) - 1 + int (length (mw_values w))) mod int (length (mw_values w)))))"

fun win_iterate :: "('s \<Rightarrow> nat \<Rightarrow> 'a \<Rightarrow> 's \<times> bool) \<Rightarrow> 'a window \<Rightarrow> nat list \<Rightarrow> 's \<Rightarrow> 's \<times> bool" where
  "win_iterate yield w [] s = (s, True)"
| "win_iterate yield w (i # is) s =
     (let slot = nat ((int (mw_head w) - 1 - int i + int (length (mw_values w))) mod int (length (mw_values w)));
          (s', go) = yield s i (mw_values w ! slot)
      in if go then win_iterate yield w is s' else (s', False))"

definition winIterate :: "('s \<Rightarrow> nat \<Rightarrow> 'a \<Rightarrow> 's \<times> bool) \<Rightarrow> 'a window \<Rightarrow> 's \<Rightarrow> 's \<times> bool" where
  "winIterate yield w s = win_iterate yield w [0..<length (mw_indices w)] s"

section \<open>What it stands for\<close>

definition win_contents :: "'a window \<Rightarrow> 'a list" where
  "win_contents w = rev (take (mw_head w) (mw_values w))
     @ (if length (mw_indices w) = length (mw_values w) then rev (drop (mw_head w) (mw_values w)) else [])"

definition win_ok :: "'a::linorder window \<Rightarrow> bool" where
  "win_ok w \<longleftrightarrow> mw_head w < length (mw_values w) \<and> length (mw_values w) \<le> 65536
     \<and> distinct (mw_indices w) \<and> sorted (map ((!) (mw_values w)) (mw_indices w))
     \<and> (if length (mw_indices w) = length (mw_values w) then set (mw_indices w) = {..<length (mw_values w)}
        else length (mw_indices w) = mw_head w \<and> set (mw_indices w) = {..<mw_head w})"

lemma bisect_if:
  "i < j \<Longrightarrow> bisect lower i j = (if lower ((i + j) div 2) then bisect lower ((i + j) div 2 + 1) j else bisect lower i ((i + j) div 2))"
  "\<not> i < j \<Longrightarrow> bisect lower i j = i"
  by (subst bisect.simps; simp add: Let_def)+

definition boundary :: "(nat \<Rightarrow> bool) \<Rightarrow> nat \<Rightarrow> nat \<Rightarrow> bool" where
  "boundary lower n p \<longleftrightarrow> p \<le> n \<and> (\<forall>a < p. lower a) \<and> (\<forall>a. p \<le> a \<longrightarrow> a < n \<longrightarrow> \<not> lower a)"

lemma bisect_boundary:
  assumes mono: "\<And>a b. a < b \<Longrightarrow> b < n \<Longrightarrow> lower b \<Longrightarrow> lower a"
  shows "i \<le> j \<Longrightarrow> j \<le> n \<Longrightarrow> \<forall>a < i. lower a \<Longrightarrow> \<forall>a. j \<le> a \<longrightarrow> a < n \<longrightarrow> \<not> lower a
    \<Longrightarrow> boundary lower n (bisect lower i j)"
proof (induction "j - i" arbitrary: i j rule: less_induct)
  case less
  show ?case
  proof (cases "i < j")
    case False
    with less.prems show ?thesis by (simp add: bisect_if boundary_def)
  next
    case True
    define h where "h = (i + j) div 2"
    have h: "i \<le> h" "h < j" using True by (auto simp: h_def)
    show ?thesis
    proof (cases "lower h")
      case True
      have "\<forall>a < h + 1. lower a"
        using mono [of _ h] True h less.prems(2) by (metis Suc_eq_plus1 less_Suc_eq order_less_le_trans)
      with less.prems h have "boundary lower n (bisect lower (h + 1) j)" by (intro less.hyps) auto
      then show ?thesis using True \<open>i < j\<close> by (simp add: bisect_if h_def)
    next
      case False
      have "\<forall>a. h \<le> a \<longrightarrow> a < n \<longrightarrow> \<not> lower a"
        using mono [of h] False by (metis order_le_less)
      with less.prems h have "boundary lower n (bisect lower i h)" by (intro less.hyps) auto
      then show ?thesis using False \<open>i < j\<close> by (simp add: bisect_if h_def)
    qed
  qed
qed

lemma insert_sorted:
  assumes "sorted (map ((!) values) indices)"
  shows "sorted (map ((!) values) (slice_insert indices (binarySearch values indices (values ! slot)) slot))"
proof -
  let ?v = "values ! slot" and ?m = "map ((!) values) indices"
  define p where "p = binarySearch values indices ?v"
  have mono: "values ! (indices ! a) \<le> values ! (indices ! b)" if "a < b" "b < length indices" for a b
    using assms that by (simp add: sorted_iff_nth_mono_less)
  have part: "boundary (\<lambda>k. values ! (indices ! k) < ?v) (length indices) p"
    unfolding p_def binarySearch_def
    by (rule bisect_boundary) (use mono in \<open>auto intro: order_le_less_trans\<close>)
  have "\<forall>x \<in> set (take p ?m). x \<le> ?v" using part by (auto simp: in_set_conv_nth boundary_def) (simp add: less_imp_le)
  moreover have "\<forall>x \<in> set (drop p ?m). ?v \<le> x" using part by (auto simp: in_set_conv_nth boundary_def not_less)
  moreover have "sorted (take p ?m)" using assms by (rule sorted_wrt_take)
  moreover have "sorted (drop p ?m)" using assms by (rule sorted_wrt_drop)
  moreover have "map ((!) values) (slice_insert indices p slot) = take p ?m @ ?v # drop p ?m"
    by (simp add: take_map drop_map slice_insert_def)
  ultimately show ?thesis
    unfolding p_def [symmetric] by (auto simp: sorted_append intro: order_trans)
qed

lemma binarySearch_le:
  assumes "sorted (map ((!) values) indices)"
  shows "binarySearch values indices v \<le> length indices"
proof -
  have mono: "values ! (indices ! a) \<le> values ! (indices ! b)" if "a < b" "b < length indices" for a b
    using assms that by (simp add: sorted_iff_nth_mono_less)
  have "boundary (\<lambda>k. values ! (indices ! k) < v) (length indices) (binarySearch values indices v)"
    unfolding binarySearch_def by (rule bisect_boundary) (use mono in \<open>auto intro: order_le_less_trans\<close>)
  then show ?thesis by (simp add: boundary_def)
qed

lemma slice_insert_facts [simp]:
  "set (slice_insert xs i x) = insert x (set xs)"
  "length (slice_insert xs i x) = Suc (length xs)"
  "distinct (slice_insert xs i x) \<longleftrightarrow> x \<notin> set xs \<and> distinct xs"
proof -
  have x: "set xs = set (take i xs) \<union> set (drop i xs)"
    using set_append [of "take i xs" "drop i xs"] by simp
  have y: "distinct xs \<longleftrightarrow> distinct (take i xs) \<and> distinct (drop i xs) \<and> set (take i xs) \<inter> set (drop i xs) = {}"
    by (simp only: append_take_drop_id flip: distinct_append)
  show "set (slice_insert xs i x) = insert x (set xs)" by (simp add: slice_insert_def x)
  show "length (slice_insert xs i x) = Suc (length xs)" by (simp add: slice_insert_def)
  show "distinct (slice_insert xs i x) \<longleftrightarrow> x \<notin> set xs \<and> distinct xs"
    unfolding x y slice_insert_def distinct_append by (simp only: distinct.simps list.set) blast
qed

lemma slice_index_delete:
  "x \<in> set xs \<Longrightarrow> \<exists>p. slice_index xs x = Some p \<and> slice_delete xs p = remove1 x xs"
proof (induction xs)
  case (Cons y ys)
  show ?case
  proof (cases "y = x")
    case False
    with Cons obtain p where "slice_index ys x = Some p" "slice_delete ys p = remove1 x ys" by auto
    with False show ?thesis by (simp add: slice_delete_def)
  qed (simp add: slice_delete_def)
qed simp

lemma map_nth_update: "k \<notin> set is \<Longrightarrow> map ((!) (xs[k := v])) is = map ((!) xs) is"
  by (intro map_cong refl nth_list_update_neq) auto

lemma rotate_contents:
  assumes "h < length xs"
  shows "h + 1 < length xs \<Longrightarrow> rev (take (Suc h) (xs[h := v])) @ (if full then rev (drop (Suc h) (xs[h := v])) else [])
      = take (length xs) (v # rev (take h xs) @ (if full then rev (drop h xs) else []))"
    and "h + 1 = length xs \<Longrightarrow> rev (xs[h := v]) = take (length xs) (v # rev (take h xs) @ (if full then rev (drop h xs) else []))"
proof -
  have t: "take (Suc h) (xs[h := v]) = take h xs @ [v]" using assms by (simp add: take_Suc_conv_app_nth)
  have d: "drop h xs = xs ! h # drop (Suc h) xs" using assms by (simp add: Cons_nth_drop_Suc)
  {
    assume "h + 1 < length xs"
    show "rev (take (Suc h) (xs[h := v])) @ (if full then rev (drop (Suc h) (xs[h := v])) else [])
      = take (length xs) (v # rev (take h xs) @ (if full then rev (drop h xs) else []))"
    proof (cases full)
      case True
      have "v # rev (take h xs) @ rev (drop h xs) = (v # rev (take h xs) @ rev (drop (Suc h) xs)) @ [xs ! h]"
        by (simp add: d)
      moreover have "length (v # rev (take h xs) @ rev (drop (Suc h) xs)) = length xs" using assms by simp
      ultimately have "take (length xs) (v # rev (take h xs) @ rev (drop h xs)) = v # rev (take h xs) @ rev (drop (Suc h) xs)"
        by (metis append_eq_conv_conj)
      with True t show ?thesis by simp
    next
      case False
      with t assms show ?thesis by simp
    qed
  }
  assume e: "h + 1 = length xs"
  then have "xs[h := v] = take h xs @ [v]" using t by simp
  moreover have "drop h xs = [xs ! h]" using e d by simp
  ultimately show "rev (xs[h := v]) = take (length xs) (v # rev (take h xs) @ (if full then rev (drop h xs) else []))"
    using e by (cases full) (simp_all flip: e)
qed

lemma winAdd_indices:
  assumes "win_ok w"
  shows "\<exists>is. winAdd v w = Some (w \<lparr> mw_values := (mw_values w)[mw_head w := v], mw_indices := is,
      mw_head := (mw_head w + 1) mod length (mw_values w) \<rparr>)
    \<and> distinct is \<and> sorted (map ((!) ((mw_values w)[mw_head w := v])) is)
    \<and> set is = insert (mw_head w) (set (mw_indices w))"
proof -
  let ?vs = "(mw_values w)[mw_head w := v]" and ?h = "mw_head w"
  have h: "?h < length (mw_values w)" "?h < 65536" using assms by (auto simp: win_ok_def)
  then have wi: "winIndex ?h = ?h" and vh: "?vs ! ?h = v" by (simp_all add: winIndex_def)
  have d: "distinct (mw_indices w)" and so: "sorted (map ((!) (mw_values w)) (mw_indices w))"
    using assms by (simp_all add: win_ok_def)
  show ?thesis
  proof (cases "length (mw_values w) \<le> length (mw_indices w)")
    case True
    with assms have "set (mw_indices w) = {..<length (mw_values w)}"
      by (auto simp: win_ok_def split: if_splits)
    with h have mem: "?h \<in> set (mw_indices w)" by simp
    then obtain p where p: "slice_index (mw_indices w) ?h = Some p" "slice_delete (mw_indices w) p = remove1 ?h (mw_indices w)"
      using slice_index_delete by metis
    let ?is = "remove1 ?h (mw_indices w)"
    have so': "sorted (map ((!) ?vs) ?is)"
      using sorted_map_remove1 [OF so] d by (simp add: map_nth_update)
    have "sorted (map ((!) ?vs) (slice_insert ?is (binarySearch ?vs ?is v) ?h))"
      using insert_sorted [OF so', of ?h] vh by simp
    with True p wi d mem show ?thesis
      by (auto simp: winAdd_def replaceIndex_def Let_def)
  next
    case False
    with assms have hn: "?h \<notin> set (mw_indices w)" by (auto simp: win_ok_def split: if_splits)
    then have so': "sorted (map ((!) ?vs) (mw_indices w))" using so by (simp add: map_nth_update)
    have "sorted (map ((!) ?vs) (slice_insert (mw_indices w) (binarySearch ?vs (mw_indices w) v) ?h))"
      using insert_sorted [OF so', of ?h] vh by simp
    with False wi d hn vh show ?thesis
      by (auto simp: winAdd_def insertIndex_def Let_def)
  qed
qed

lemma winAdd_spec:
  assumes "win_ok w"
  shows "\<exists>w'. winAdd v w = Some w' \<and> win_ok w' \<and> winCap w' = winCap w
    \<and> win_contents w' = take (winCap w) (v # win_contents w)"
proof -
  let ?vs = "(mw_values w)[mw_head w := v]" and ?h = "mw_head w" and ?c = "length (mw_values w)"
  from winAdd_indices [OF assms, of v] obtain "is" where w': "winAdd v w = Some (w \<lparr> mw_values := ?vs, mw_indices := is,
      mw_head := (?h + 1) mod ?c \<rparr>)" "distinct is" "sorted (map ((!) ?vs) is)" "set is = insert ?h (set (mw_indices w))"
    by blast
  have h: "?h < ?c" using assms by (simp add: win_ok_def)
  have len: "length is = card (set is)" using w'(2) by (simp add: distinct_card)
  let ?full = "length (mw_indices w) = ?c"
  have set_is: "set is = (if ?full then {..<?c} else {..<Suc ?h})"
    using w'(4) assms h by (auto simp: win_ok_def lessThan_Suc)
  have vs: "length ?vs = ?c" and small: "?c \<le> 65536" using assms by (simp_all add: win_ok_def)
  show ?thesis
  proof (cases "?h + 1 < ?c")
    case True
    have m: "(?h + 1) mod ?c = Suc ?h" using True by simp
    have full: "length is = ?c \<longleftrightarrow> ?full" "\<not> ?full \<Longrightarrow> length is = Suc ?h"
      unfolding len set_is using True by simp_all
    show ?thesis unfolding w'(1) win_ok_def winCap_def win_contents_def
      using w'(2,3) set_is full rotate_contents(1) [OF h True, of v ?full] True vs small
      by (cases ?full) (simp_all add: m del: take_Suc_conv_app_nth drop_update_cancel)
  next
    case False
    with h have e: "?h + 1 = ?c" by simp
    with set_is have set_is: "set is = {..<?c}" by auto
    have m: "(?h + 1) mod ?c = 0" using e by simp
    have full: "length is = ?c" unfolding len set_is by simp
    have "0 < ?c" using h by linarith
    with full m show ?thesis unfolding w'(1) win_ok_def winCap_def win_contents_def
      using w'(2,3) set_is rotate_contents(2) [OF h e, of v ?full] vs small by simp
  qed
qed

lemma contents_winCap: "win_ok w \<Longrightarrow> length (win_contents w) \<le> winCap w"
  by (auto simp: win_ok_def win_contents_def winCap_def)

interpretation win: sliding_window win_ok win_contents winCap winAdd
  by unfold_locales (rule winAdd_spec, assumption, rule contents_winCap)

section \<open>The median of the contents\<close>

lemma mset_upto: "distinct is \<Longrightarrow> set is = {..<n} \<Longrightarrow> mset is = mset [0..<n]"
  using set_eq_iff_mset_eq_distinct [of "is" "[0..<n]"] by (auto simp: atLeast0LessThan)

lemma indices_sort:
  assumes "win_ok w"
  shows "map ((!) (mw_values w)) (mw_indices w) = sort (win_contents w)"
proof (rule properties_for_sort [symmetric])
  let ?vs = "mw_values w" and ?is = "mw_indices w"
  show "sorted (map ((!) ?vs) ?is)" using assms by (simp add: win_ok_def)
  define n where "n = (if length ?is = length ?vs then length ?vs else mw_head w)"
  have n: "set ?is = {..<n}" "n \<le> length ?vs" using assms by (auto simp: win_ok_def n_def split: if_splits)
  then have "mset ?is = mset [0..<n]" using assms by (intro mset_upto) (simp_all add: win_ok_def)
  then have "mset (map ((!) ?vs) ?is) = mset (map ((!) ?vs) [0..<n])" by (simp only: mset_map)
  also have "map ((!) ?vs) [0..<n] = take n ?vs" using n by (simp add: take_map [symmetric] list_eq_iff_nth_eq)
  also have "mset (take n ?vs) = mset (win_contents w)"
  proof (cases "length ?is = length ?vs")
    case True
    have "mset ?vs = mset (take (mw_head w) ?vs) + mset (drop (mw_head w) ?vs)"
      by (metis append_take_drop_id mset_append)
    then show ?thesis using True by (simp add: n_def win_contents_def)
  qed (simp add: n_def win_contents_def)
  finally show "mset (map ((!) ?vs) ?is) = mset (win_contents w)" .
qed

lemma winMedian_contents:
  assumes "win_ok w"
  shows "winMedian w = seqMedian (win_contents w)"
proof -
  let ?m = "map ((!) (mw_values w)) (mw_indices w)"
  have "winMedian w = (let n = length ?m; mid = n div 2 in if n = 0 then 0
      else if n mod 2 \<noteq> 0 then ?m ! mid else average (?m ! (mid - 1)) (?m ! mid))"
  proof -
    have "mw_indices w \<noteq> [] \<Longrightarrow> length (mw_indices w) div 2 - 1 < length (mw_indices w)"
      by (cases "mw_indices w") auto
    then show ?thesis by (auto simp: winMedian_def Let_def)
  qed
  then show ?thesis by (simp only: indices_sort [OF assms] seqMedian_def Let_def)
qed

lemma winLen_contents: "win_ok w \<Longrightarrow> winLen w = length (win_contents w)"
  using arg_cong [OF indices_sort, of w length] by (simp add: winLen_def)

lemma win_nth:
  assumes "win_ok w" "i < winLen w"
  shows "win_contents w ! i
    = mw_values w ! nat ((int (mw_head w) - 1 - int i + int (length (mw_values w))) mod int (length (mw_values w)))"
proof -
  let ?c = "length (mw_values w)" and ?h = "mw_head w"
  have h: "?h < ?c" and i: "i < ?h \<or> length (mw_indices w) = ?c \<and> i < ?c"
    using assms by (auto simp: win_ok_def winLen_def split: if_splits)
  show ?thesis
  proof (cases "i < ?h")
    case True
    then have "(int ?h - 1 - int i + int ?c) mod int ?c = int (?h - Suc i)"
      using h by (subst mod_add_self2) (simp add: of_nat_diff)
    then have "nat ((int ?h - 1 - int i + int ?c) mod int ?c) = ?h - Suc i" by simp
    with True h show ?thesis by (simp only: win_contents_def) (simp add: nth_append rev_nth)
  next
    case False
    with i have f: "length (mw_indices w) = ?c" "i < ?c" by auto
    have m: "(int ?h - 1 - int i + int ?c) mod int ?c = int (?h + (?c - Suc i))"
      using False h f by (subst mod_pos_pos_trivial) auto
    have k: "i - ?h < length (drop ?h (mw_values w))" using False f by simp
    have "rev (drop ?h (mw_values w)) ! (i - ?h) = mw_values w ! (?h + (?c - Suc i))"
      unfolding rev_nth [OF k] using False f h by simp
    then show ?thesis unfolding m nat_int using False f h by (simp add: win_contents_def nth_append)
  qed
qed

lemma winLast_contents: "win_ok w \<Longrightarrow> winLast w = (case win_contents w of [] \<Rightarrow> None | v # _ \<Rightarrow> Some v)"
  using win_nth [of w 0] winLen_contents [of w]
  by (cases "win_contents w") (auto simp: winLast_def winLen_def)

lemma win_iterate_from:
  "win_ok w \<Longrightarrow> n \<le> winLen w \<Longrightarrow> win_iterate yield w [n..<winLen w] s = visit yield n (drop n (win_contents w)) s"
proof (induction "winLen w - n" arbitrary: n s)
  case 0
  then show ?case by (simp add: winLen_contents)
next
  case (Suc k)
  then have lt: "n < winLen w" by simp
  have step: "win_iterate yield w [Suc n..<winLen w] s' = visit yield (Suc n) (drop (Suc n) (win_contents w)) s'" for s'
    using Suc.hyps(2) Suc.prems lt by (intro Suc.hyps(1)) auto
  have "drop n (win_contents w) = win_contents w ! n # drop (Suc n) (win_contents w)"
    using lt Suc.prems by (simp add: Cons_nth_drop_Suc winLen_contents)
  then show ?case unfolding upt_conv_Cons [OF lt] using step
    by (simp only: win_iterate.simps visit.simps Let_def win_nth [OF Suc.prems(1) lt])
qed

lemma winIterate_contents: "win_ok w \<Longrightarrow> winIterate yield w s = visit yield 0 (win_contents w) s"
  using win_iterate_from [of w 0 yield s] by (simp add: winIterate_def winLen_def)

lemma newWindow_spec:
  "0 < c \<Longrightarrow> c \<le> maxCapacity \<Longrightarrow> \<exists>w. newWindow (zero :: 'a::linorder) c = Some w \<and> win_ok w \<and> winCap w = nat c \<and> win_contents w = []"
  by (simp add: newWindow_def win_ok_def winCap_def win_contents_def maxCapacity_def)

text \<open>C16: The moving window refines the simple definition of a median. A window of a valid capacity takes any
  sequence of values without a panic, and then, with \<open>xs\<close> the last values up to the capacity,
  \<^verbatim>\<open>Len\<close> is their number, \<^verbatim>\<open>Last\<close> the most recent (a panic when there is none), \<^verbatim>\<open>Iterate\<close> visits them
  the newest first, and \<^verbatim>\<open>Median\<close> is what the sorting function \<^verbatim>\<open>median.Median\<close> returns on them,
  although the window never sorts.\<close>
theorem median_window:
  assumes "0 < c" "c \<le> maxCapacity"
  shows "\<exists>w. foldl (\<lambda>r v. Option.bind r (winAdd v)) (newWindow 0 c) vs = Some w
    \<and> (let xs = take (nat c) (rev vs)
       in winLen w = length xs \<and> winCap w = nat c \<and> winLast w = (case xs of [] \<Rightarrow> None | x # _ \<Rightarrow> Some x)
        \<and> winMedian w = seqMedian xs \<and> (\<forall>(s :: 's) yield. winIterate yield w s = visit yield 0 xs s))"
proof -
  from newWindow_spec [OF assms, of 0] obtain w0 :: "int window" where w0: "newWindow 0 c = Some w0" "win_ok w0"
    "winCap w0 = nat c" "win_contents w0 = []" by blast
  from win.adds [OF w0(2), of vs] w0 obtain w where w:
    "foldl (\<lambda>r v. Option.bind r (winAdd v)) (newWindow 0 c) vs = Some w" "win_ok w" "winCap w = nat c"
    "win_contents w = take (nat c) (rev vs)" by auto
  from winLen_contents [OF w(2)] winLast_contents [OF w(2)] winMedian_contents [OF w(2)]
  show ?thesis using w by (simp add: Let_def winIterate_contents)
qed

theorem median_window_witness:
  "\<exists>w. foldl (\<lambda>r v. Option.bind r (winAdd v)) (newWindow 0 3) [9, 1, 8, 4] = Some w \<and> winLen w = 3
    \<and> winMedian w = seqMedian [4, 8, 1] \<and> winIterate (\<lambda>s i v. (s @ [v], True)) w [] = ([4, 8, 1], True)"
proof -
  have "take (nat 3) (rev [9, 1, 8, 4]) = [4, 8, 1 :: int]" by simp
  with median_window [of 3 "[9, 1, 8, 4]", where 's = "int list"] show ?thesis
    by (auto simp: maxCapacity_def Let_def)
qed

end
