(* ===== verification/GoTime.thy ===== *)
theory GoTime
  imports GoInt
begin

text \<open>
  What the sources use of Go's package \<^verbatim>\<open>time\<close>, in UTC. A \<^verbatim>\<open>time.Time\<close> is the number of nanoseconds
  since 1970-01-01T00:00:00 UTC, unbounded (the range of \<^verbatim>\<open>time.Time\<close> is far wider than 64 bits of
  nanoseconds); a \<^verbatim>\<open>time.Duration\<close> is a 64-bit integer. The calendar is the proleptic Gregorian one,
  computed on years that begin in March, so that the leap day is the last of its year.
\<close>

definition nsPerSecond :: int where "nsPerSecond = 1000000000"

definition nsPerHour :: int where "nsPerHour = 3600000000000"

definition nsPerDay :: int where "nsPerDay = 86400000000000"

section \<open>The calendar\<close>

text \<open>The days before the first day of the month \<open>k\<close> of a year that begins in March (March is 0).\<close>

definition month_start :: "int \<Rightarrow> int" where
  "month_start k = (153 * k + 2) div 5"

text \<open>The number of the day since 1970-01-01; months and days out of range carry, as in \<^verbatim>\<open>time.Date\<close>.\<close>

definition date_to_days :: "int \<Rightarrow> int \<Rightarrow> int \<Rightarrow> int" where
  "date_to_days y m d =
     (let k = m - 3; y' = y + k div 12; k' = k mod 12
      in y' * 365 + y' div 4 - y' div 100 + y' div 400 + month_start k' + d - 1 - 719468)"

definition days_to_date :: "int \<Rightarrow> int \<times> int \<times> int" where
  "days_to_date n =
     (let z = n + 719468;
          n400 = z div 146097; d400 = z mod 146097;
          n100 = min 3 (d400 div 36524); d100 = d400 - n100 * 36524;
          n4 = d100 div 1461; d4 = d100 mod 1461;
          n1 = min 3 (d4 div 365); doy = d4 - n1 * 365;
          k = (5 * doy + 2) div 153;
          y' = 400 * n400 + 100 * n100 + 4 * n4 + n1
      in (if k < 10 then y' else y' + 1, if k < 10 then k + 3 else k - 9, doy - month_start k + 1))"

lemma march_year:
  assumes "0 \<le> d400" "d400 < 146097"
    "n100 = min 3 (d400 div 36524)" "d100 = d400 - n100 * 36524"
    "n4 = d100 div 1461" "d4 = d100 mod 1461" "n1 = min 3 (d4 div 365)" "doy = d4 - n1 * (365 :: int)"
  shows "0 \<le> n100" "n100 \<le> 3" "0 \<le> n4" "n4 \<le> 24" "0 \<le> n1" "n1 \<le> 3" "0 \<le> doy" "doy \<le> 365"
proof -
  show n100: "0 \<le> n100" "n100 \<le> 3" using assms(1,3) by simp_all
  have d100: "0 \<le> d100 \<and> d100 \<le> 36524"
  proof (cases "d400 div 36524 \<le> 3")
    case True
    then have "d100 = d400 mod 36524" using assms(3,4) by (simp add: minus_div_mult_eq_mod [symmetric])
    then show ?thesis using pos_mod_bound [of 36524 d400] by simp
  next
    case False
    then have "n100 = 3" "4 * 36524 \<le> d400" using assms(3) by simp_all
    then show ?thesis using assms(2,4) by simp
  qed
  show "0 \<le> n4" "n4 \<le> 24" using d100 zdiv_mono1 [of d100 36524 1461] unfolding assms(5)
    by (simp_all add: pos_imp_zdiv_nonneg_iff)
  have d4: "0 \<le> d4" "d4 \<le> 1460" unfolding assms(6) using pos_mod_bound [of 1461 d100] by simp_all
  show "n1 \<le> 3" unfolding assms(7) by simp
  show "0 \<le> n1" using d4 unfolding assms(7) by (simp add: pos_imp_zdiv_nonneg_iff)
  have "0 \<le> doy \<and> doy \<le> 365"
  proof (cases "d4 div 365 \<le> 3")
    case True
    then have "doy = d4 mod 365" using assms(7,8) by (simp add: minus_div_mult_eq_mod [symmetric])
    then show ?thesis using pos_mod_bound [of 365 d4] by simp
  next
    case False
    then have "n1 = 3" "4 * 365 \<le> d4" using assms(7) by simp_all
    then show ?thesis using d4 assms(8) by simp
  qed
  then show "0 \<le> doy" "doy \<le> 365" by simp_all
qed

lemma date_days_date: 
  assumes "days_to_date n = (y, m, d)"
  shows "date_to_days y m d = n"
proof -
  define z d400 where z: "z = n + 719468" and d400: "d400 = z mod 146097"
  define n400 n100 where n400: "n400 = z div 146097" and n100: "n100 = min 3 (d400 div 36524)"
  define d100 where d100: "d100 = d400 - n100 * 36524"
  define n4 d4 where n4: "n4 = d100 div 1461" and d4: "d4 = d100 mod 1461"
  define n1 where n1: "n1 = min 3 (d4 div 365)"
  define doy where doy: "doy = d4 - n1 * 365"
  define k where k: "k = (5 * doy + 2) div 153"
  define y' where y': "y' = 400 * n400 + 100 * n100 + 4 * n4 + n1"
  have "0 \<le> d400" "d400 < 146097" by (simp_all add: d400)
  from march_year [OF this n100 d100 n4 d4 n1 doy]
  have b: "0 \<le> n100" "n100 \<le> 3" "0 \<le> n4" "n4 \<le> 24" "0 \<le> n1" "n1 \<le> 3" "0 \<le> doy" "doy \<le> 365" .
  have kb: "0 \<le> k" "k \<le> 11" using b(7,8) zdiv_mono1 [of "5 * doy + 2" 1827 153] unfolding k
    by (simp_all add: pos_imp_zdiv_nonneg_iff)
  have "days_to_date n = (if k < 10 then y' else y' + 1, if k < 10 then k + 3 else k - 9, doy - month_start k + 1)"
    unfolding days_to_date_def Let_def z [symmetric] d400 [symmetric] n400 [symmetric] n100 [symmetric]
      d100 [symmetric] n4 [symmetric] d4 [symmetric] n1 [symmetric] doy [symmetric] k [symmetric] y' [symmetric]
    by (rule refl)
  then have ymd: "y = (if k < 10 then y' else y' + 1)" "m = (if k < 10 then k + 3 else k - 9)" "d = doy - month_start k + 1"
    unfolding assms by simp_all
  have "y + (m - 3) div 12 = y'" "(m - 3) mod 12 = k"
    using kb by (auto simp: ymd div_pos_neg_trivial zmod_trivial_iff)
  moreover have "y' div 4 = 100 * n400 + 25 * n100 + n4" using b by (simp add: y')
  moreover have "y' div 100 = 4 * n400 + n100"
  proof -
    have "y' = (4 * n400 + n100) * 100 + (4 * n4 + n1)" by (simp add: y')
    then show ?thesis using b by simp
  qed
  moreover have "y' div 400 = n400"
  proof -
    have "y' = n400 * 400 + (100 * n100 + 4 * n4 + n1)" by (simp add: y')
    then show ?thesis using b by simp
  qed
  ultimately have "date_to_days y m d = y' * 365 + (100 * n400 + 25 * n100 + n4) - (4 * n400 + n100) + n400 + doy - 719468"
    by (simp add: date_to_days_def Let_def ymd)
  also have "\<dots> = 146097 * n400 + 36524 * n100 + 1461 * n4 + 365 * n1 + doy - 719468" by (simp add: y')
  also have "\<dots> = z - 719468"
  proof -
    have "z = n400 * 146097 + d400" "d100 = n4 * 1461 + d4" unfolding n400 d400 n4 d4 by simp_all
    then show ?thesis using d100 doy by simp
  qed
  finally show ?thesis by (simp add: z)
qed

section \<open>Times\<close>

text \<open>\<^verbatim>\<open>time.Date\<close> in UTC, \<^verbatim>\<open>Unix\<close>, \<^verbatim>\<open>UnixNano\<close>, \<^verbatim>\<open>AddDate\<close>, \<^verbatim>\<open>Date\<close> and \<^verbatim>\<open>Sub\<close>, which saturates.\<close>

definition time_date :: "int \<Rightarrow> int \<Rightarrow> int \<Rightarrow> int \<Rightarrow> int \<Rightarrow> int \<Rightarrow> int \<Rightarrow> int" where
  "time_date y m d h mi s ns = date_to_days y m d * nsPerDay + h * nsPerHour + mi * 60 * nsPerSecond + s * nsPerSecond + ns"

definition time_unix :: "int \<Rightarrow> int" where
  "time_unix t = t div nsPerSecond"

definition time_unixNano :: "int \<Rightarrow> int" where
  "time_unixNano t = i64 t"

definition unix_time :: "int \<Rightarrow> int \<Rightarrow> int" where
  "unix_time sec nsec = sec * nsPerSecond + nsec"

definition time_ymd :: "int \<Rightarrow> int \<times> int \<times> int" where
  "time_ymd t = days_to_date (t div nsPerDay)"

definition time_addDate :: "int \<Rightarrow> int \<Rightarrow> int \<Rightarrow> int \<Rightarrow> int" where
  "time_addDate t years months days =
     (let (y, m, d) = time_ymd t in date_to_days (y + years) (m + months) (d + days) * nsPerDay + t mod nsPerDay)"

definition time_sub :: "int \<Rightarrow> int \<Rightarrow> int" where
  "time_sub t u = max (- (2 ^ 63)) (min (2 ^ 63 - 1) (t - u))"

lemma date_to_days_add: "date_to_days y m (d + k) = date_to_days y m d + k"
  by (simp add: date_to_days_def Let_def)

lemma addDate_days: "time_addDate t 0 0 k = t + k * nsPerDay"
proof (cases "time_ymd t")
  case (fields y m d)
  then have "date_to_days y m d = t div nsPerDay" unfolding time_ymd_def by (rule date_days_date)
  then show ?thesis by (simp add: time_addDate_def fields date_to_days_add) (simp add: nsPerDay_def algebra_simps)
qed

lemma midnight:
  assumes "time_ymd t = (y, m, d)"
  shows "time_date y m d 0 0 0 0 = t - t mod nsPerDay"
  using assms date_days_date [of "t div nsPerDay"] by (simp add: time_date_def time_ymd_def minus_mod_eq_div_mult)

lemma sub_exact: "in_i64 (t - u) \<Longrightarrow> time_sub t u = t - u"
  by (simp add: time_sub_def in_i64_def)

text \<open>\<^verbatim>\<open>Duration.Round\<close>: to the nearest multiple, halves away from zero, saturating.\<close>

definition lessThanHalf :: "int \<Rightarrow> int \<Rightarrow> bool" where
  "lessThanHalf x y \<longleftrightarrow> (x + x) mod 2 ^ 64 < y"

definition duration_round :: "int \<Rightarrow> int \<Rightarrow> int" where
  "duration_round d m =
     (if m \<le> 0 then d
      else let r = rem64 d m
        in if d < 0 then
             let r = i64 (- r)
             in if lessThanHalf r m then i64 (d + r)
                else let d1 = i64 (i64 (d - m) + r) in if d1 < d then d1 else - (2 ^ 63)
           else if lessThanHalf r m then i64 (d - r)
           else let d1 = i64 (i64 (d + m) - r) in if d1 > d then d1 else 2 ^ 63 - 1)"

end
