(* ===== verification/PTime.thy ===== *)
theory PTime
  imports GoTime
begin

text \<open>
  The time scales of \<^verbatim>\<open>gps/ptime/ptime.go\<close>: TAI as 64-bit nanoseconds, UTC as a date and a time of
  day that reaches beyond 24 hours in a leap second, and the conversions between them, system time
  and the times of the satellite systems. Every 64-bit addition wraps around; offsets are 16-bit.
\<close>

section \<open>Data\<close>

record UTCTime =
  ut_Date :: int
  ut_TimeOfDay :: int

record LeapSecond =
  offChangeTime :: int
  utcOffBefore :: int
  utcOffAfter :: int

record LeapSecondState =
  lss_utcOffset :: int
  lss_leapTonight :: int

definition i16 :: "int \<Rightarrow> int" where
  "i16 x = (x + 2 ^ 15) mod 2 ^ 16 - 2 ^ 15"

definition i32 :: "int \<Rightarrow> int" where
  "i32 x = (x + 2 ^ 31) mod 2 ^ 32 - 2 ^ 31"

definition epochUnix :: int where "epochUnix = time_date 1970 1 1 0 0 0 0"
definition epochGPS :: int where "epochGPS = time_date 1980 1 6 0 0 0 0"
definition epochGLONASS :: int where "epochGLONASS = time_date 1996 1 1 0 0 0 0"
definition epochGLONASSWeek :: int where "epochGLONASSWeek = time_date 1995 12 31 0 0 0 0"
definition epochGalileo :: int where "epochGalileo = time_date 1999 8 22 0 0 0 0"
definition epochBeiDou :: int where "epochBeiDou = time_date 2006 1 1 0 0 0 0"

definition taiMinusGPS :: int where "taiMinusGPS = 19"
definition taiMinusGalileo :: int where "taiMinusGalileo = taiMinusGPS"
definition taiMinusBeiDou :: int where "taiMinusBeiDou = 33"

section \<open>Times\<close>

definition pt_add :: "int \<Rightarrow> int \<Rightarrow> int" where "pt_add t d = i64 (t + d)"
definition pt_sub :: "int \<Rightarrow> int \<Rightarrow> int" where "pt_sub t u = i64 (t - u)"
definition pt_isZero :: "int \<Rightarrow> bool" where "pt_isZero t \<longleftrightarrow> t = 0"
definition pt_round :: "int \<Rightarrow> int \<Rightarrow> int" where "pt_round t d = duration_round t d"
definition pt_unix :: "int \<Rightarrow> int \<Rightarrow> int" where "pt_unix sec nsec = i64 (i64 (sec * nsPerSecond) + nsec)"

definition sysTime :: "UTCTime \<Rightarrow> int" where
  "sysTime ut = ut_Date ut + ut_TimeOfDay ut"

definition utc_sub :: "UTCTime \<Rightarrow> UTCTime \<Rightarrow> int" where
  "utc_sub ut1 ut2 =
     (let d = i64 (time_sub (ut_Date ut1) (ut_Date ut2) + i64 (ut_TimeOfDay ut1 - ut_TimeOfDay ut2));
          d = (if 24 * nsPerHour \<le> ut_TimeOfDay ut2 \<and> ut_Date ut1 > ut_Date ut2 then i64 (d + nsPerSecond) else d);
          d = (if 24 * nsPerHour \<le> ut_TimeOfDay ut1 \<and> ut_Date ut2 > ut_Date ut1 then i64 (d - nsPerSecond) else d)
      in d)"

definition gnss :: "int \<Rightarrow> int \<Rightarrow> int \<Rightarrow> int \<Rightarrow> int" where
  "gnss week tow epoch epochTAIOffset =
     (let s = i64 (time_unix (time_addDate epoch 0 0 (week * 7)) + epochTAIOffset) in i64 (i64 (s * 1000000000) + tow))"

definition gps :: "int \<Rightarrow> int \<Rightarrow> int" where "gps week tow = gnss week tow epochGPS taiMinusGPS"
definition galileo :: "int \<Rightarrow> int \<Rightarrow> int" where "galileo week tow = gnss week tow epochGalileo taiMinusGalileo"
definition beiDou :: "int \<Rightarrow> int \<Rightarrow> int" where "beiDou week tow = gnss week tow epochBeiDou taiMinusBeiDou"

definition extendGPSWeek :: "int \<Rightarrow> int" where
  "extendGPSWeek week = (if 2048 \<le> week then week
     else let add = (if 1024 \<le> week then 1024 else 2048) in (week + add) mod 2 ^ 16)"

definition gpsDate :: "int \<Rightarrow> int \<Rightarrow> int" where
  "gpsDate week day = time_addDate epochGPS 0 0 (week * 7 + day)"

text \<open>The interval number is a byte: \<^verbatim>\<open>intervalNumber-1\<close> wraps around at 256.\<close>

definition glonass :: "int \<Rightarrow> int \<Rightarrow> int \<Rightarrow> UTCTime" where
  "glonass intervalNumber dayNumber tod =
     \<lparr> ut_Date = time_addDate epochGLONASS ((intervalNumber - 1) mod 2 ^ 8 * 4) 0 (dayNumber - 1),
       ut_TimeOfDay = i64 (tod - 3 * nsPerHour) \<rparr>"

definition utc :: "int \<Rightarrow> int \<Rightarrow> int \<Rightarrow> int \<Rightarrow> int \<Rightarrow> int \<Rightarrow> int \<Rightarrow> UTCTime" where
  "utc year month day hour minute sec nanos =
     (let date = time_date year month day 0 0 0 0; t = time_date year month day hour minute sec nanos
      in \<lparr> ut_Date = date, ut_TimeOfDay = time_sub t date \<rparr>)"

definition gpsUTC :: "int \<Rightarrow> int \<Rightarrow> UTCTime" where
  "gpsUTC week tow =
     (let startOfWeek = time_addDate epochGPS 0 0 (week * 7); t = startOfWeek + tow; (y, m, d) = time_ymd t;
          date = time_date y m d 0 0 0 0
      in \<lparr> ut_Date = date, ut_TimeOfDay = time_sub t date \<rparr>)"

definition glonassWeekUTC :: "int \<Rightarrow> int \<Rightarrow> UTCTime" where
  "glonassWeekUTC week tow =
     (let startOfWeek = time_addDate epochGLONASSWeek 0 0 (week * 7); t = startOfWeek + tow; (y, m, d) = time_ymd t;
          date = time_date y m d 0 0 0 0
      in \<lparr> ut_Date = date, ut_TimeOfDay = time_sub t date \<rparr>)"

section \<open>Leap seconds\<close>

definition leapSecondOnDate :: "int \<Rightarrow> int \<Rightarrow> int \<Rightarrow> LeapSecond" where
  "leapSecondOnDate date before after =
     \<lparr> offChangeTime = i64 (i64 (time_unix (time_addDate date 0 0 1) + after) * 1000000000),
       utcOffBefore = before, utcOffAfter = after \<rparr>"

definition leapSecond2016Date :: int where "leapSecond2016Date = time_date 2016 12 31 0 0 0 0"

definition leapSecond2016 :: LeapSecond where "leapSecond2016 = leapSecondOnDate leapSecond2016Date 36 37"

text \<open>
  \<^verbatim>\<open>Date\<close> builds a time with \<^verbatim>\<open>time.Unix\<close>, which is in the local zone of the process, and \<^verbatim>\<open>AddDate\<close> changes the
  local date. A zone gives the seconds east of UTC at each second since 1970; it is an argument. For a reading
  \<open>w\<close> of the local clock \<^verbatim>\<open>time.Date\<close> looks up the offset at \<open>w\<close>, and again at the instant that this offset gives.
\<close>

type_synonym zone = "int \<Rightarrow> int"

definition zone_unix :: "zone \<Rightarrow> int \<Rightarrow> int" where
  "zone_unix zone w = w - zone (w - zone w)"

definition local_addDate :: "zone \<Rightarrow> int \<Rightarrow> int \<Rightarrow> int \<Rightarrow> int \<Rightarrow> int" where
  "local_addDate zone t years months days =
     (let w = time_addDate (t + zone (time_unix t) * nsPerSecond) years months days
      in zone_unix zone (w div nsPerSecond) * nsPerSecond + w mod nsPerSecond)"

definition ls_date :: "zone \<Rightarrow> LeapSecond \<Rightarrow> int" where
  "ls_date zone ls = local_addDate zone (unix_time (i64 (quot (offChangeTime ls) 1000000000 - utcOffAfter ls)) 0) 0 0 (- 1)"

definition ls_compare :: "LeapSecond \<Rightarrow> int \<Rightarrow> int" where
  "ls_compare ls t =
     (let timeTillLeapOver = pt_sub (offChangeTime ls) t
      in if timeTillLeapOver \<le> 0 then 1
         else if utcOffAfter ls > utcOffBefore ls \<and> timeTillLeapOver \<le> nsPerSecond then 0 else - 1)"

definition utcToTime :: "zone \<Rightarrow> LeapSecond \<Rightarrow> UTCTime \<Rightarrow> int" where
  "utcToTime zone ls ut =
     (let s = (if ut_Date ut > ls_date zone ls then utcOffAfter ls else utcOffBefore ls)
      in i64 (time_unixNano (sysTime ut) + s * 1000000000))"

definition sysToTime :: "LeapSecond \<Rightarrow> int \<Rightarrow> int \<times> bool" where
  "sysToTime ls sys =
     (let t = time_unixNano sys;
          leapOverTime = unix_time (i64 (quot (offChangeTime ls) 1000000000 - utcOffAfter ls)) 0;
          timeTillLeapOver = time_sub leapOverTime sys
      in if timeTillLeapOver \<le> 0 then (pt_add t (nsPerSecond * utcOffAfter ls), True)
         else let ambig = (utcOffAfter ls > utcOffBefore ls \<and> timeTillLeapOver \<le> nsPerSecond)
              in (pt_add t (nsPerSecond * utcOffBefore ls), \<not> ambig))"

definition timeToSys :: "LeapSecond \<Rightarrow> int \<Rightarrow> int" where
  "timeToSys ls t =
     (let off = (if ls_compare ls t < 0 then utcOffBefore ls else utcOffAfter ls) in unix_time (- off) t)"

definition timeToUTC :: "LeapSecond \<Rightarrow> int \<Rightarrow> UTCTime" where
  "timeToUTC ls t =
     (let cmp = ls_compare ls t;
          off = (if cmp \<le> 0 then utcOffBefore ls else utcOffAfter ls);
          adjT = (if cmp = 0 then pt_add t (- nsPerSecond) else t);
          u = epochUnix + i64 (adjT - off * nsPerSecond);
          (y, m, d) = time_ymd u;
          date = time_date y m d 0 0 0 0;
          tod = time_sub u date;
          tod = (if cmp = 0 then i64 (tod + nsPerSecond) else tod)
      in \<lparr> ut_Date = date, ut_TimeOfDay = tod \<rparr>)"

definition stateAt :: "LeapSecond \<Rightarrow> int \<Rightarrow> LeapSecondState" where
  "stateAt ls t =
     (if offChangeTime ls \<le> t then \<lparr> lss_utcOffset = utcOffAfter ls, lss_leapTonight = 0 \<rparr>
      else \<lparr> lss_utcOffset = utcOffBefore ls,
             lss_leapTonight = (if pt_add (offChangeTime ls) (- 12 * nsPerHour) \<le> t
               then i16 (utcOffAfter ls - utcOffBefore ls) else 0) \<rparr>)"

definition utcStateAt :: "zone \<Rightarrow> LeapSecond \<Rightarrow> UTCTime \<Rightarrow> LeapSecondState" where
  "utcStateAt zone ls ut =
     (let neg = ut_TimeOfDay ut < 0;
          date = (if neg then time_addDate (ut_Date ut) 0 0 (- 1) else ut_Date ut);
          tod = (if neg then i64 (ut_TimeOfDay ut + 24 * nsPerHour) else ut_TimeOfDay ut)
      in if date > ls_date zone ls then \<lparr> lss_utcOffset = utcOffAfter ls, lss_leapTonight = 0 \<rparr>
         else \<lparr> lss_utcOffset = utcOffBefore ls,
                lss_leapTonight = (if date = ls_date zone ls \<and> 12 * nsPerHour \<le> tod
                  then i16 (utcOffAfter ls - utcOffBefore ls) else 0) \<rparr>)"

text \<open>\<^verbatim>\<open>Picoseconds\<close> calls itself on the negated 32-bit value; \<open>None\<close> is a call that does not return.\<close>

partial_function (option) picoseconds :: "int \<Rightarrow> int option" where
  "picoseconds ps = (if ps < 0 then Option.bind (picoseconds (i32 (- ps))) (\<lambda>d. Some (i64 (- d)))
     else Some (quot (i32 (ps + 500)) 1000))"

section \<open>Well-formed leap seconds\<close>

text \<open>
  The offset changes at midnight UTC by at most a second, and every time involved is far enough from
  the ends of the 64-bit range (145 years on either side of 1970).
\<close>

definition in_years :: "int \<Rightarrow> bool" where "in_years t \<longleftrightarrow> - 4600000000000000000 \<le> t \<and> t \<le> 4600000000000000000"

definition leap_midnight :: "LeapSecond \<Rightarrow> int" where
  "leap_midnight ls = offChangeTime ls - utcOffAfter ls * nsPerSecond"

definition leap_ok :: "LeapSecond \<Rightarrow> bool" where
  "leap_ok ls \<longleftrightarrow> in_years (offChangeTime ls) \<and> leap_midnight ls mod nsPerDay = 0
     \<and> - 32768 \<le> utcOffBefore ls \<and> utcOffBefore ls \<le> 32767 \<and> - 32768 \<le> utcOffAfter ls \<and> utcOffAfter ls \<le> 32767
     \<and> - 1 \<le> utcOffAfter ls - utcOffBefore ls \<and> utcOffAfter ls - utcOffBefore ls \<le> 1"

lemmas ns_defs = nsPerSecond_def nsPerHour_def nsPerDay_def
lemmas range_defs = in_years_def in_i64_def

lemma quot_exact: "quot (k * 1000000000) 1000000000 = k"
  by (simp add: quot_def abs_mult sgn_mult sgn_if)

lemma leap_over:
  assumes "leap_ok ls"
  shows "unix_time (i64 (quot (offChangeTime ls) 1000000000 - utcOffAfter ls)) 0 = leap_midnight ls"
proof -
  from assms have "nsPerDay dvd leap_midnight ls" by (simp add: leap_ok_def dvd_eq_mod_eq_0)
  then obtain k where k: "leap_midnight ls = nsPerDay * k" by (rule dvdE)
  let ?q = "86400 * k + utcOffAfter ls"
  have o: "offChangeTime ls = ?q * 1000000000" using k by (simp add: leap_midnight_def ns_defs)
  have "in_i64 (?q - utcOffAfter ls)" using assms o by (simp add: leap_ok_def range_defs)
  then show ?thesis unfolding o quot_exact using k by (simp add: i64_id unix_time_def ns_defs)
qed

text \<open>
  The clock of the zone is not changed in the two days before the leap second, and is at most a day off UTC.
  Then the date is the start of the day that ends with the leap second.
\<close>

definition zone_quiet :: "zone \<Rightarrow> LeapSecond \<Rightarrow> bool" where
  "zone_quiet zone ls \<longleftrightarrow> (\<exists>off. \<bar>off\<bar> \<le> 86400 \<and>
     (\<forall>u. time_unix (leap_midnight ls) - 172800 \<le> u \<and> u \<le> time_unix (leap_midnight ls) \<longrightarrow> zone u = off))"

lemma zone_const: "\<bar>off\<bar> \<le> 86400 \<Longrightarrow> zone_quiet (\<lambda>_. off) ls"
  by (auto simp: zone_quiet_def intro: exI [of _ off])

lemma leap_midnight_day:
  assumes "leap_ok ls"
  obtains k where "leap_midnight ls = nsPerDay * k"
  using assms by (auto simp: leap_ok_def)

text \<open>The date by the offsets of the zone: at the leap second, and at the two look-ups of the day before.\<close>

lemma ls_date_zone:
  assumes "leap_ok ls"
  shows "ls_date zone ls =
    (let u = time_unix (leap_midnight ls); w = u + zone u - 86400 in zone_unix zone w * nsPerSecond)"
proof -
  from assms obtain k where k: "leap_midnight ls = nsPerDay * k" by (rule leap_midnight_day)
  then have u: "leap_midnight ls = time_unix (leap_midnight ls) * nsPerSecond" by (simp add: time_unix_def ns_defs)
  define u where "u = time_unix (leap_midnight ls)"
  have w: "leap_midnight ls + zone u * nsPerSecond + - 1 * nsPerDay = (u + zone u - 86400) * nsPerSecond"
    unfolding u [folded u_def] by (simp add: ns_defs)
  have "(x * nsPerSecond) div nsPerSecond = x" "(x * nsPerSecond) mod nsPerSecond = 0" for x
    by (simp_all add: nsPerSecond_def)
  then show ?thesis
    unfolding ls_date_def leap_over [OF assms] local_addDate_def addDate_days u_def [symmetric] Let_def w by simp
qed

lemma ls_date_midnight:
  assumes "leap_ok ls" "zone_quiet zone ls"
  shows "ls_date zone ls = leap_midnight ls - nsPerDay"
proof -
  define u where "u = time_unix (leap_midnight ls)"
  from assms(2) obtain off where o: "\<bar>off\<bar> \<le> 86400" "\<And>v. u - 172800 \<le> v \<Longrightarrow> v \<le> u \<Longrightarrow> zone v = off"
    by (auto simp: zone_quiet_def u_def)
  have "zone u = off" "zone (u + off - 86400) = off" "zone (u - 86400) = off" using o(1) by (auto intro!: o(2))
  then have "ls_date zone ls = (u - 86400) * nsPerSecond"
    by (simp add: ls_date_zone [OF assms(1)] u_def [symmetric] Let_def zone_unix_def)
  moreover from assms(1) obtain k where "leap_midnight ls = nsPerDay * k" by (rule leap_midnight_day)
  ultimately show ?thesis by (simp add: u_def time_unix_def ns_defs)
qed

lemma ls_compare_cases:
  assumes "leap_ok ls" "in_years t"
  shows "ls_compare ls t = (if offChangeTime ls \<le> t then 1
    else if utcOffAfter ls = utcOffBefore ls + 1 \<and> offChangeTime ls - nsPerSecond \<le> t then 0 else - 1)"
proof -
  have "pt_sub (offChangeTime ls) t = offChangeTime ls - t"
    unfolding pt_sub_def using assms by (intro i64_id) (simp add: range_defs leap_ok_def)
  then show ?thesis using assms(1) by (auto simp: ls_compare_def Let_def leap_ok_def)
qed

text \<open>The instant of POSIX time that \<^verbatim>\<open>TimeToUTC\<close> splits into a date and a time of day.\<close>

definition posix :: "LeapSecond \<Rightarrow> int \<Rightarrow> int" where
  "posix ls t = (if ls_compare ls t = - 1 then t - utcOffBefore ls * nsPerSecond else t - utcOffAfter ls * nsPerSecond)"

lemma epochUnix_0: "epochUnix = 0"
  by (simp add: epochUnix_def time_date_def date_to_days_def month_start_def)

lemma timeToUTC_posix:
  assumes "leap_ok ls" "in_years t"
  shows "timeToUTC ls t = \<lparr> ut_Date = posix ls t - posix ls t mod nsPerDay,
    ut_TimeOfDay = posix ls t mod nsPerDay + (if ls_compare ls t = 0 then nsPerSecond else 0) \<rparr>"
proof -
  note c = ls_compare_cases [OF assms]
  let ?off = "if ls_compare ls t \<le> 0 then utcOffBefore ls else utcOffAfter ls"
  let ?adj = "if ls_compare ls t = 0 then pt_add t (- nsPerSecond) else t"
  have "pt_add t (- nsPerSecond) = t - nsPerSecond"
    unfolding pt_add_def using assms(2) by (subst i64_id) (simp_all add: range_defs ns_defs)
  then have "?adj - ?off * nsPerSecond = posix ls t"
    unfolding posix_def c by (auto simp: algebra_simps)
  moreover have "in_i64 (posix ls t)"
    using assms unfolding posix_def by (simp add: range_defs leap_ok_def ns_defs)
  ultimately have u: "epochUnix + i64 (?adj - ?off * nsPerSecond) = posix ls t"
    by (simp add: i64_id epochUnix_0)
  obtain y m d where ymd: "time_ymd (posix ls t) = (y, m, d)" by (cases "time_ymd (posix ls t)")
  define r where "r = posix ls t mod nsPerDay"
  have r: "0 \<le> r" "r < 86400000000000" unfolding r_def ns_defs by simp_all
  then have "time_sub (posix ls t) (posix ls t - r) = r"
    by (subst sub_exact) (simp_all add: range_defs)
  moreover have "i64 (r + nsPerSecond) = r + nsPerSecond"
    using r by (intro i64_id) (simp add: range_defs ns_defs)
  ultimately show ?thesis
    unfolding timeToUTC_def Let_def u ymd prod.case midnight [OF ymd] r_def [symmetric] by simp
qed

text \<open>Before the change POSIX time is before its midnight, from the change on it is at or after it.\<close>

lemma posix_before:
  assumes "leap_ok ls" "in_years t"
  shows "leap_midnight ls \<le> posix ls t \<longleftrightarrow> offChangeTime ls \<le> t"
  unfolding posix_def ls_compare_cases [OF assms] using assms(1)
  by (auto simp: leap_ok_def leap_midnight_def ns_defs)

lemma date_midnight:
  assumes "m mod nsPerDay = 0"
  shows "m - nsPerDay < u - u mod nsPerDay \<longleftrightarrow> m \<le> u"
proof -
  from assms obtain k where m: "m = nsPerDay * k" by (metis dvdE mod_0_imp_dvd)
  have u: "u - u mod nsPerDay = nsPerDay * (u div nsPerDay)" by (simp add: minus_mod_eq_mult_div)
  define q r where "q = u div nsPerDay" and "r = u mod nsPerDay"
  have qr: "u = nsPerDay * q + r" "0 \<le> r" "r < nsPerDay" by (simp_all add: q_def r_def ns_defs)
  have "m \<le> u \<longleftrightarrow> k \<le> q"
  proof (cases "k \<le> q")
    case False
    then have "nsPerDay * (q + 1) \<le> nsPerDay * k" by (simp add: ns_defs)
    with qr False show ?thesis unfolding m by (simp add: ns_defs)
  next
    case True
    then have "nsPerDay * k \<le> nsPerDay * q" by (simp add: ns_defs)
    then have "m \<le> u" using qr m by linarith
    with True show ?thesis by simp
  qed
  moreover have "m - nsPerDay < nsPerDay * (u div nsPerDay) \<longleftrightarrow> k - 1 < u div nsPerDay"
  proof -
    have e: "m - nsPerDay = nsPerDay * (k - 1)" unfolding m by (simp add: algebra_simps)
    have pos: "0 < nsPerDay" by (simp add: nsPerDay_def)
    show ?thesis unfolding e mult_less_cancel_left_pos [OF pos] by (rule refl)
  qed
  ultimately show ?thesis unfolding u q_def by linarith
qed

lemma date_before:
  assumes "leap_ok ls" "zone_quiet zone ls" "in_years t"
  shows "ls_date zone ls < ut_Date (timeToUTC ls t) \<longleftrightarrow> offChangeTime ls \<le> t"
proof -
  have "leap_midnight ls mod nsPerDay = 0" using assms(1) by (simp add: leap_ok_def)
  from date_midnight [OF this, of "posix ls t"] posix_before [OF assms(1,3)] show ?thesis
    by (simp add: timeToUTC_posix [OF assms(1,3)] ls_date_midnight [OF assms(1,2)])
qed

lemma in_years_i64: "in_years t \<Longrightarrow> i64 t = t"
  by (simp add: range_defs i64_id)

text \<open>C10: Converting TAI to UTC and back is the identity, leap second included. For a leap second of at
  most one second at midnight UTC and any time within 145 years of 1970, \<^verbatim>\<open>UTCtoTime\<close> gives back the
  time that \<^verbatim>\<open>TimeToUTC\<close> took apart; the date is a midnight, and the time of day is within the day,
  except during a positive leap second, which is the 86401st second of its date. \<^verbatim>\<open>UTCtoTime\<close> takes the date of
  the leap second in the local zone of the process: its clock must not be changed in the two days before
  (\<open>utc_clock_change\<close> is what happens otherwise).\<close>
theorem utc_roundtrip:
  assumes "leap_ok ls" "zone_quiet zone ls" "in_years t"
  shows "utcToTime zone ls (timeToUTC ls t) = t \<and> ut_Date (timeToUTC ls t) mod nsPerDay = 0
    \<and> (let tod = ut_TimeOfDay (timeToUTC ls t)
       in if ls_compare ls t = 0 then nsPerDay \<le> tod \<and> tod < nsPerDay + nsPerSecond else 0 \<le> tod \<and> tod < nsPerDay)"
proof -
  note c = ls_compare_cases [OF assms(1,3)]
  have sys: "sysTime (timeToUTC ls t) = posix ls t + (if ls_compare ls t = 0 then nsPerSecond else 0)"
    by (simp add: sysTime_def timeToUTC_posix [OF assms(1,3)])
  moreover have "in_i64 (posix ls t + (if ls_compare ls t = 0 then nsPerSecond else 0))"
    using assms unfolding posix_def by (simp add: range_defs leap_ok_def ns_defs)
  ultimately have "utcToTime zone ls (timeToUTC ls t) = i64 (posix ls t + (if ls_compare ls t = 0 then nsPerSecond else 0)
      + (if offChangeTime ls \<le> t then utcOffAfter ls else utcOffBefore ls) * 1000000000)"
    by (simp add: utcToTime_def Let_def date_before [OF assms] time_unixNano_def i64_id)
  also have "\<dots> = i64 t"
    by (rule arg_cong [of _ _ i64]) (auto simp: posix_def c nsPerSecond_def)
  finally have rt: "utcToTime zone ls (timeToUTC ls t) = t" using assms(3) by (simp add: in_years_i64)
  define p where "p = posix ls t"
  have d: "(p - p mod nsPerDay) mod nsPerDay = 0" by (simp add: minus_mod_eq_mult_div)
  define r where "r = p mod nsPerDay"
  have r: "0 \<le> r" "r < nsPerDay" unfolding r_def ns_defs by simp_all
  have "nsPerDay \<le> r + nsPerSecond" if "ls_compare ls t = 0"
  proof -
    have t: "offChangeTime ls - nsPerSecond \<le> t" "t < offChangeTime ls" using that by (auto simp: c split: if_splits)
    then have p: "leap_midnight ls - nsPerSecond \<le> p" "p < leap_midnight ls"
      using that by (simp_all add: p_def posix_def leap_midnight_def)
    from assms(1) obtain k where k: "leap_midnight ls = nsPerDay * k" by (auto simp: leap_ok_def)
    define x where "x = p - nsPerDay * (k - 1)"
    have x: "nsPerDay - nsPerSecond \<le> x" "x < nsPerDay" using p k by (simp_all add: x_def algebra_simps)
    have "p = x + nsPerDay * (k - 1)" by (simp add: x_def)
    then have "r = x mod nsPerDay" by (simp only: r_def mod_mult_self2)
    also have "\<dots> = x" using x by (intro mod_pos_pos_trivial) (simp_all add: ns_defs)
    finally show ?thesis using x by simp
  qed
  with r rt d show ?thesis
    by (simp add: timeToUTC_posix [OF assms(1,3)] p_def [symmetric] r_def [symmetric] Let_def)
qed

theorem utc_roundtrip_witness:
  "utcToTime (\<lambda>_. 25200) leapSecond2016 (timeToUTC leapSecond2016 1483228836500000000) = 1483228836500000000
    \<and> ut_TimeOfDay (timeToUTC leapSecond2016 1483228836500000000) = nsPerDay + 500000000"
proof -
  have l: "leapSecond2016 = \<lparr> offChangeTime = 1483228837000000000, utcOffBefore = 36, utcOffAfter = 37 \<rparr>"
    by code_simp
  have ok: "leap_ok leapSecond2016" unfolding l by code_simp
  have z: "zone_quiet (\<lambda>_. 25200) leapSecond2016" by (rule zone_const) simp
  have t: "in_years 1483228836500000000" by code_simp
  have "ut_TimeOfDay (timeToUTC leapSecond2016 1483228836500000000) = nsPerDay + 500000000"
    unfolding l by code_simp
  with utc_roundtrip [OF ok z t] show ?thesis by simp
qed

text \<open>
  When the local clock falls back in the day before the leap second, the date is earlier than the start of
  that day by as much, and the times of the day are converted with the offset after the leap second.
\<close>

lemma ls_date_fall_back:
  assumes "leap_ok ls" "u = time_unix (leap_midnight ls)" "0 < fall" "\<bar>off + fall\<bar> \<le> 86400" "\<bar>off\<bar> \<le> 86400"
    "u - 86400 + fall \<le> change" "change \<le> u"
    "\<And>v. u - 172800 - fall \<le> v \<Longrightarrow> v < change \<Longrightarrow> zone v = off + fall" "\<And>v. change \<le> v \<Longrightarrow> v \<le> u \<Longrightarrow> zone v = off"
  shows "ls_date zone ls = leap_midnight ls - nsPerDay - fall * nsPerSecond"
proof -
  let ?w = "u + off - 86400"
  have u: "zone u = off" using assms(7,9) by simp
  have "zone (?w - zone ?w) = off + fall"
  proof (cases "?w < change")
    case True
    then have "zone ?w = off + fall" using assms(3-6) by (intro assms(8)) linarith+
    then show ?thesis using assms(3,6) by (auto intro!: assms(8))
  next
    case False
    then have "zone ?w = off" using assms(4,5,7) by (intro assms(9)) linarith+
    then show ?thesis using assms(3,6) by (auto intro!: assms(8))
  qed
  then have "ls_date zone ls = (u - 86400 - fall) * nsPerSecond"
    by (simp add: ls_date_zone [OF assms(1)] assms(2) [symmetric] u Let_def zone_unix_def)
  moreover from assms(1) obtain k where "leap_midnight ls = nsPerDay * k" by (rule leap_midnight_day)
  ultimately show ?thesis by (simp add: assms(2) time_unix_def ns_defs algebra_simps)
qed

lemma utc_clock_change:
  assumes "leap_ok ls" "ls_date zone ls < leap_midnight ls - nsPerDay" "in_years t"
    "leap_midnight ls - nsPerDay \<le> posix ls t" "t < offChangeTime ls - nsPerSecond"
  shows "utcToTime zone ls (timeToUTC ls t) = t + (utcOffAfter ls - utcOffBefore ls) * nsPerSecond"
proof -
  note c = ls_compare_cases [OF assms(1,3)]
  have nc: "ls_compare ls t = - 1" "posix ls t = t - utcOffBefore ls * nsPerSecond" using assms(5) by (auto simp: posix_def c ns_defs)
  from assms(1) obtain k where k: "leap_midnight ls = nsPerDay * k" by (rule leap_midnight_day)
  have "k - 1 \<le> posix ls t div nsPerDay"
    using zdiv_mono1 [OF assms(4), of nsPerDay] unfolding k by (simp add: ns_defs)
  then have "nsPerDay * (k - 1) \<le> nsPerDay * (posix ls t div nsPerDay)" by (simp add: ns_defs)
  then have "ls_date zone ls < posix ls t - posix ls t mod nsPerDay"
    using assms(2) unfolding k minus_mod_eq_mult_div by (simp add: algebra_simps)
  moreover have "in_i64 (posix ls t)" "in_i64 (posix ls t + utcOffAfter ls * 1000000000)"
    using assms(1,3) by (simp_all add: nc leap_ok_def range_defs ns_defs)
  ultimately show ?thesis
    by (simp add: utcToTime_def timeToUTC_posix [OF assms(1,3)] nc(1) sysTime_def time_unixNano_def i64_id)
      (simp add: nc(2) ns_defs algebra_simps)
qed

text \<open>The two views of the state of a leap second agree. \<^verbatim>\<open>UTCStateAt\<close> on the UTC form of a time gives
  what \<^verbatim>\<open>StateAt\<close> gives on the time itself, except within the length of the leap second around the
  start of the warning period, which one counts back from the change and the other from noon.\<close>
lemma utc_state:
  assumes "leap_ok ls" "in_years t"
    "t < offChangeTime ls - 12 * nsPerHour - nsPerSecond \<or> offChangeTime ls - 12 * nsPerHour + nsPerSecond \<le> t" "zone_quiet zone ls"
  shows "utcStateAt zone ls (timeToUTC ls t) = stateAt ls t"
proof -
  note c = ls_compare_cases [OF assms(1,2)]
  define p where "p = posix ls t"
  define r where "r = p mod nsPerDay"
  have r: "0 \<le> r" "r < nsPerDay" unfolding r_def ns_defs by simp_all
  have u: "timeToUTC ls t = \<lparr> ut_Date = p - r, ut_TimeOfDay = r + (if ls_compare ls t = 0 then nsPerSecond else 0) \<rparr>"
    unfolding timeToUTC_posix [OF assms(1,2)] p_def r_def ..
  have nn: "\<not> ut_TimeOfDay (timeToUTC ls t) < 0" using r by (simp add: u nsPerSecond_def)
  have half: "i64 (offChangeTime ls - 12 * nsPerHour) = offChangeTime ls - 12 * nsPerHour"
    using assms(1) by (subst i64_id) (simp_all add: range_defs leap_ok_def ns_defs)
  have "p - r = leap_midnight ls - nsPerDay \<and> 12 * nsPerHour \<le> r + (if ls_compare ls t = 0 then nsPerSecond else 0)
      \<longleftrightarrow> offChangeTime ls - 12 * nsPerHour \<le> t" if before: "t < offChangeTime ls"
  proof
    assume a: "p - r = leap_midnight ls - nsPerDay \<and> 12 * nsPerHour \<le> r + (if ls_compare ls t = 0 then nsPerSecond else 0)"
    show "offChangeTime ls - 12 * nsPerHour \<le> t"
    proof (rule ccontr)
      assume f: "\<not> ?thesis"
      then have cm: "ls_compare ls t = - 1" using before by (simp add: c ns_defs)
      then have "p = t - utcOffBefore ls * nsPerSecond" by (simp add: p_def posix_def)
      with a cm f assms(1,3) show False by (auto simp: leap_ok_def leap_midnight_def ns_defs)
    qed
  next
    assume a: "offChangeTime ls - 12 * nsPerHour \<le> t"
    have b: "leap_midnight ls - 12 * nsPerHour \<le> p" "p < leap_midnight ls"
    proof -
      show "leap_midnight ls - 12 * nsPerHour \<le> p"
        using a before assms(1,3) unfolding p_def posix_def c by (auto simp: leap_ok_def leap_midnight_def ns_defs)
      show "p < leap_midnight ls" using posix_before [OF assms(1,2)] before by (simp add: p_def)
    qed
    from assms(1) obtain k where k: "leap_midnight ls = nsPerDay * k" by (auto simp: leap_ok_def)
    define x where "x = p - nsPerDay * (k - 1)"
    have x: "12 * nsPerHour \<le> x" "x < nsPerDay" using b k by (simp_all add: x_def algebra_simps ns_defs)
    have "p = x + nsPerDay * (k - 1)" by (simp add: x_def)
    then have "r = x mod nsPerDay" by (simp only: r_def mod_mult_self2)
    also have "\<dots> = x" using x by (intro mod_pos_pos_trivial) (simp_all add: ns_defs)
    finally show "p - r = leap_midnight ls - nsPerDay \<and> 12 * nsPerHour \<le> r + (if ls_compare ls t = 0 then nsPerSecond else 0)"
      using x k by (simp add: x_def algebra_simps ns_defs)
  qed
  moreover have "ls_date zone ls < p - r \<longleftrightarrow> offChangeTime ls \<le> t" using date_before [OF assms(1,4,2)] by (simp add: u)
  ultimately show ?thesis using nn
    by (simp add: utcStateAt_def stateAt_def Let_def u pt_add_def half ls_date_midnight [OF assms(1,4)] not_le)
qed

text \<open>C11: A system time holds as much of TAI as it can. \<^verbatim>\<open>SysToTime\<close> after \<^verbatim>\<open>TimeToSys\<close> is the identity and
  says so, except in the two seconds that a positive leap second maps to the same second of system
  time: these are reported as ambiguous, and the first of the two is returned.\<close>
theorem sys_roundtrip:
  assumes "leap_ok ls" "in_years t"
  shows "sysToTime ls (timeToSys ls t) =
    (if utcOffAfter ls = utcOffBefore ls + 1 \<and> offChangeTime ls - 2 * nsPerSecond \<le> t \<and> t < offChangeTime ls
     then (if t < offChangeTime ls - nsPerSecond then t else t - nsPerSecond, False) else (t, True))"
proof -
  note c = ls_compare_cases [OF assms]
  have sys: "timeToSys ls t = posix ls t"
    unfolding timeToSys_def posix_def Let_def unix_time_def c by (simp add: nsPerSecond_def)
  have p: "in_i64 (posix ls t)" and d: "in_i64 (leap_midnight ls - posix ls t)"
    using assms unfolding posix_def leap_midnight_def by (simp_all add: range_defs leap_ok_def ns_defs)
  have off: "in_i64 (posix ls t + nsPerSecond * utcOffAfter ls)" "in_i64 (posix ls t + nsPerSecond * utcOffBefore ls)"
    using assms unfolding posix_def by (simp_all add: range_defs leap_ok_def ns_defs)
  have "sysToTime ls (timeToSys ls t) =
    (if offChangeTime ls \<le> t then (posix ls t + nsPerSecond * utcOffAfter ls, True)
     else (posix ls t + nsPerSecond * utcOffBefore ls,
       \<not> (utcOffAfter ls > utcOffBefore ls \<and> leap_midnight ls - posix ls t \<le> nsPerSecond)))"
    using posix_before [OF assms] p d off
    by (simp add: sysToTime_def sys Let_def leap_over [OF assms(1)] sub_exact time_unixNano_def pt_add_def)
  moreover have "- 1 \<le> utcOffAfter ls - utcOffBefore ls" "utcOffAfter ls - utcOffBefore ls \<le> 1"
    using assms(1) by (simp_all add: leap_ok_def)
  ultimately show ?thesis unfolding posix_def leap_midnight_def c by (auto simp: ns_defs)
qed

theorem sys_roundtrip_witness:
  "sysToTime leapSecond2016 (timeToSys leapSecond2016 1483228836500000000) = (1483228835500000000, False)"
proof -
  have l: "leapSecond2016 = \<lparr> offChangeTime = 1483228837000000000, utcOffBefore = 36, utcOffAfter = 37 \<rparr>"
    by code_simp
  have ok: "leap_ok leapSecond2016" unfolding l by code_simp
  have t: "in_years 1483228836500000000" by code_simp
  show ?thesis unfolding sys_roundtrip [OF ok t] unfolding l by code_simp
qed

section \<open>Edge cases\<close>

lemma picoseconds_min: "picoseconds x = Some y \<Longrightarrow> x \<noteq> - (2 ^ 31)"
proof (rule picoseconds.raw_induct [where P = "\<lambda>x y. x \<noteq> - (2 ^ 31)"])
  fix pico and ps d :: int
  assume IH: "\<And>x y. pico x = Some y \<Longrightarrow> x \<noteq> - (2 ^ 31)"
    and step: "(if ps < 0 then Option.bind (pico (i32 (- ps))) (\<lambda>d. Some (i64 (- d))) else Some (quot (i32 (ps + 500)) 1000)) = Some d"
  show "ps \<noteq> - (2 ^ 31)"
  proof
    assume ps: "ps = - (2 ^ 31)"
    have "i32 (- (- (2 ^ 31))) = - (2 ^ 31)" by code_simp
    with IH [of "- (2 ^ 31)"] step ps show False by (cases "pico (- (2 ^ 31))") auto
  qed
qed

lemma picoseconds_nonneg:
  assumes "0 \<le> ps" "ps < 2 ^ 31"
  shows "picoseconds ps = Some (if ps \<le> 2147483147 then (ps + 500) div 1000 else - 2147483)"
proof -
  have "picoseconds ps = Some (quot (i32 (ps + 500)) 1000)" using assms(1) by (subst picoseconds.simps) simp
  moreover have "quot (i32 (ps + 500)) 1000 = (if ps \<le> 2147483147 then (ps + 500) div 1000 else - 2147483)"
  proof (cases "ps \<le> 2147483147")
    case True
    then have "i32 (ps + 500) = ps + 500" using assms by (simp add: i32_def)
    then show ?thesis using True assms by (simp add: quot_def)
  next
    case False
    have "(ps + 500 + 2 ^ 31) mod 2 ^ 32 = ps + 500 + 2 ^ 31 - 2 ^ 32"
      using False assms(2) by (subst mod_pos_geq) simp_all
    then have e: "i32 (ps + 500) = ps + 500 - 2 ^ 32" unfolding i32_def by simp
    have "(2 ^ 32 - ps - 500) div 1000 \<le> 2147483648 div 1000" "2147483149 div 1000 \<le> (2 ^ 32 - ps - 500) div 1000"
      by (rule zdiv_mono1; use False assms(2) in simp)+
    then have "(2 ^ 32 - ps - 500) div 1000 = 2147483" by simp
    then show ?thesis unfolding e quot_def using False assms(2) by (simp add: sgn_if)
  qed
  ultimately show ?thesis by simp
qed

text \<open>C12: \<^verbatim>\<open>Picoseconds\<close> rounds to the nearest nanosecond, halves away from zero, except at the ends of the
  32-bit range: adding 500 wraps around in the last 500 values, which come out with the opposite
  sign, and on the least value it never returns, as the negation gives that value again.\<close>
theorem picoseconds_result:
  assumes "- (2 ^ 31) \<le> ps" "ps < 2 ^ 31"
  shows "picoseconds ps = (if ps = - (2 ^ 31) then None
    else Some (sgn ps * (if \<bar>ps\<bar> \<le> 2147483147 then (\<bar>ps\<bar> + 500) div 1000 else - 2147483)))"
proof (cases "0 \<le> ps")
  case True
  then show ?thesis using assms(2) by (auto simp: picoseconds_nonneg sgn_if)
next
  case neg: False
  show ?thesis
  proof (cases "ps = - (2 ^ 31)")
    case True
    then show ?thesis using picoseconds_min [of ps] by (cases "picoseconds ps") auto
  next
    case False
    with assms neg have b: "0 \<le> - ps" "- ps < 2 ^ 31" by simp_all
    then have "i32 (- ps) = - ps" by (simp add: i32_def)
    moreover have "picoseconds ps = Option.bind (picoseconds (i32 (- ps))) (\<lambda>d. Some (i64 (- d)))"
      using neg by (subst picoseconds.simps) simp
    moreover have "in_i64 (- (if - ps \<le> 2147483147 then (- ps + 500) div 1000 else - 2147483))"
    proof -
      have "0 \<le> (- ps + 500) div 1000" using b by (simp add: pos_imp_zdiv_nonneg_iff)
      moreover have "(- ps + 500) div 1000 \<le> (2 ^ 31 + 500) div 1000" using b by (intro zdiv_mono1) simp_all
      ultimately show ?thesis by (simp add: in_i64_def)
    qed
    ultimately show ?thesis using False neg picoseconds_nonneg [OF b]
      by (simp add: sgn_if)
  qed
qed

theorem picoseconds_result_witness:
  "picoseconds 1500 = Some 2 \<and> picoseconds (- 1500) = Some (- 2) \<and> picoseconds (- (2 ^ 31)) = None
    \<and> picoseconds 2147483647 = Some (- 2147483)"
  by (simp add: picoseconds_result)

text \<open>The date of a GLONASS time is a day of the Moscow clock; the time of day counts from the UTC start of that date.\<close>

lemma glonass_day:
  obtains k where "ut_Date (glonass iv dn tod) = nsPerDay * k"
proof -
  have "epochGLONASS mod nsPerDay = 0" by code_simp
  then have "ut_Date (glonass iv dn tod) mod nsPerDay = 0"
    by (simp add: glonass_def time_addDate_def split: prod.split)
  then show thesis using that by (metis mod_0_imp_dvd dvdE)
qed

lemma day_before:
  assumes "d = nsPerDay * k" "m = nsPerDay * l" "0 \<le> x" "x < nsPerDay"
  shows "m - nsPerDay < d \<longleftrightarrow> m \<le> d + x"
proof -
  from assms(1,3,4) have "(d + x) mod nsPerDay = x" "d = (d + x) - x" by simp_all
  moreover have "m mod nsPerDay = 0" using assms(2) by simp
  ultimately show ?thesis using date_midnight [of m "d + x"] by simp
qed

text \<open>C14: What becomes of any GLONASS time at any leap second. \<^verbatim>\<open>GLONASS\<close> gives the date of the Moscow clock, three
  hours ahead, and a time of day that is negative in the first three hours of that date. \<^verbatim>\<open>UTCStateAt\<close>
  normalizes it, and finds the offset before the leap second exactly when the instant is before its midnight;
  \<^verbatim>\<open>UTCtoTime\<close> compares the date as it is, so that its result is that instant with that offset except
  in the three hours before the midnight, where it is off by the length of the leap second.\<close>
theorem glonass_offset:
  assumes "leap_ok ls" "zone_quiet zone ls" "0 \<le> tod" "tod < nsPerDay" "in_years (sysTime (glonass iv dn tod))"
  shows "let p = sysTime (glonass iv dn tod); m = leap_midnight ls;
      off = (if p < m then utcOffBefore ls else utcOffAfter ls)
    in lss_utcOffset (utcStateAt zone ls (glonass iv dn tod)) = off
      \<and> utcToTime zone ls (glonass iv dn tod) = p + off * nsPerSecond
          + (if m - 3 * nsPerHour \<le> p \<and> p < m then (utcOffAfter ls - utcOffBefore ls) * nsPerSecond else 0)"
proof -
  define d where "d = ut_Date (glonass iv dn tod)"
  define p where "p = d + tod - 3 * nsPerHour"
  obtain k where k: "d = nsPerDay * k" unfolding d_def by (rule glonass_day)
  from assms(1) obtain l where l: "leap_midnight ls = nsPerDay * l" by (rule leap_midnight_day)
  have t: "ut_TimeOfDay (glonass iv dn tod) = tod - 3 * nsPerHour"
    using assms(3,4) unfolding glonass_def by (simp add: i64_id range_defs ns_defs)
  have p: "sysTime (glonass iv dn tod) = p" by (simp add: sysTime_def t d_def p_def)
  note date = ls_date_midnight [OF assms(1,2)]
  have late: "ls_date zone ls < d \<longleftrightarrow> leap_midnight ls - 3 * nsPerHour \<le> p"
    using day_before [OF k l assms(3,4)] by (auto simp: date p_def)
  have state: "lss_utcOffset (utcStateAt zone ls (glonass iv dn tod)) = (if p < leap_midnight ls then utcOffBefore ls else utcOffAfter ls)"
  proof (cases "tod - 3 * nsPerHour < 0")
    case True
    have d1: "d - nsPerDay = nsPerDay * (k - 1)" by (simp add: k algebra_simps)
    have "ls_date zone ls < d - nsPerDay \<longleftrightarrow> leap_midnight ls \<le> p"
      using day_before [OF d1 l, of "tod - 3 * nsPerHour + nsPerDay"] True assms(3) by (auto simp: date p_def ns_defs)
    then show ?thesis using True by (auto simp: utcStateAt_def Let_def t d_def addDate_days)
  next
    case False
    then have "ls_date zone ls < d \<longleftrightarrow> leap_midnight ls \<le> p"
      using day_before [OF k l, of "tod - 3 * nsPerHour"] assms(4) by (auto simp: date p_def ns_defs)
    then show ?thesis using False by (auto simp: utcStateAt_def Let_def t d_def)
  qed
  have years: "in_years p" using assms(5) by (simp add: p)
  then have "in_i64 p" "in_i64 (p + utcOffBefore ls * 1000000000)" "in_i64 (p + utcOffAfter ls * 1000000000)"
    using assms(1) by (simp_all add: leap_ok_def range_defs)
  then have "utcToTime zone ls (glonass iv dn tod) = p + (if ls_date zone ls < d then utcOffAfter ls else utcOffBefore ls) * nsPerSecond"
    by (simp add: utcToTime_def p time_unixNano_def d_def [symmetric] i64_id nsPerSecond_def)
  then show ?thesis using state unfolding late p Let_def
    by (auto simp: ns_defs algebra_simps)
qed

text \<open>At one o'clock in Moscow on the first of January 2017, two hours before the leap second.\<close>
theorem glonass_offset_witness:
  "sysTime (glonass 6 367 nsPerHour) = sysTime (utc 2016 12 31 22 0 0 0)
    \<and> lss_utcOffset (utcStateAt (\<lambda>_. 10800) leapSecond2016 (glonass 6 367 nsPerHour)) = 36
    \<and> utcToTime (\<lambda>_. 10800) leapSecond2016 (glonass 6 367 nsPerHour) = sysTime (utc 2016 12 31 22 0 0 0) + 37 * nsPerSecond"
proof -
  have l: "leapSecond2016 = \<lparr> offChangeTime = 1483228837000000000, utcOffBefore = 36, utcOffAfter = 37 \<rparr>"
    by code_simp
  have ok: "leap_ok leapSecond2016" unfolding l by code_simp
  have z: "zone_quiet (\<lambda>_. 10800) leapSecond2016" by (rule zone_const) simp
  have p: "sysTime (glonass 6 367 nsPerHour) = 1483221600000000000" "sysTime (utc 2016 12 31 22 0 0 0) = 1483221600000000000"
    by code_simp+
  have m: "leap_midnight leapSecond2016 = 1483228800000000000" unfolding l by code_simp
  have years: "in_years (sysTime (glonass 6 367 nsPerHour))" unfolding p by code_simp
  from glonass_offset [OF ok z _ _ years] show ?thesis
    unfolding p m Let_def by (simp add: ns_defs) (simp add: l)
qed

end
