(* ===== verification/LeapSearch.thy ===== *)
theory LeapSearch
  imports PTime
begin

text \<open>
  The search of \<^verbatim>\<open>gps/ptime/ptime.go\<close> for the date of a leap second that a satellite system
  broadcasts with eight bits of its week number: \<^verbatim>\<open>gnssLeapSecond\<close> and its helpers. A run that does
  not end is \<open>None\<close>.
\<close>

record GNSSLeapSecond =
  g_WNLSF :: int
  g_DN :: int
  g_DeltaLS :: int
  g_DeltaLSF :: int

text \<open>The two errors, of no and of several candidates.\<close>

datatype leap_error = NoLeapDate int int | AmbiguousLeapDates "LeapSecond list"

definition isLastDayOfQuarter :: "int \<Rightarrow> bool" where
  "isLastDayOfQuarter t =
     (let (_, _, d) = time_ymd (time_addDate t 0 0 1); (_, m, _) = time_ymd t in d = 1 \<and> rem64 m 3 = 0)"

definition guessPastLeapSecondOffset :: "int \<Rightarrow> int \<Rightarrow> int" where
  "guessPastLeapSecondOffset leapTime after =
     (if leapTime = offChangeTime leapSecond2016 then 36
      else if after > utcOffAfter leapSecond2016 then i16 (after - 1)
      else if after < utcOffAfter leapSecond2016 then i16 (after + 1)
      else utcOffBefore leapSecond2016)"

text \<open>What one round of the loop does to the candidates, for the date of its week.\<close>

definition leap_candidate :: "GNSSLeapSecond \<Rightarrow> int \<Rightarrow> int \<Rightarrow> int \<Rightarrow> LeapSecond list \<Rightarrow> LeapSecond list" where
  "leap_candidate g now epochLeapSeconds date candidates =
     (if date < leapSecond2016Date then candidates
      else if \<not> isLastDayOfQuarter date then candidates
      else let candidate = leapSecondOnDate date (i16 (epochLeapSeconds + g_DeltaLS g)) (i16 (epochLeapSeconds + g_DeltaLSF g));
               slack = 24 * nsPerHour
           in if g_DeltaLS g = g_DeltaLSF g then
                (if offChangeTime candidate \<le> pt_add now slack then candidates @ [candidate] else candidates)
              else if offChangeTime candidate \<ge> pt_add now (- slack) then candidates @ [candidate] else candidates)"

definition leap_horizon :: "int \<Rightarrow> int" where
  "leap_horizon now = pt_add now (6 * 30 * 24 * nsPerHour)"

partial_function (option) leap_search ::
  "GNSSLeapSecond \<Rightarrow> int \<Rightarrow> int \<Rightarrow> int \<Rightarrow> int \<Rightarrow> int \<Rightarrow> LeapSecond list \<Rightarrow> LeapSecond list option" where
  "leap_search g now epoch epochLeapSeconds dayOfWeek week candidates =
     (let date = time_addDate epoch 0 0 (i64 (i64 (week * 7) + dayOfWeek))
      in if pt_unix (time_unix date) 0 > leap_horizon now then Some candidates
         else leap_search g now epoch epochLeapSeconds dayOfWeek (i64 (week + 256))
                (leap_candidate g now epochLeapSeconds date candidates))"

definition gnssLeapSecond :: "GNSSLeapSecond \<Rightarrow> int \<Rightarrow> int \<Rightarrow> int \<Rightarrow> int \<Rightarrow> (leap_error + LeapSecond) option" where
  "gnssLeapSecond g now epoch epochLeapSeconds dnBase =
     Option.bind (leap_search g now epoch epochLeapSeconds (g_DN g - dnBase) (g_WNLSF g) [])
       (\<lambda>candidates. Some (case candidates of
          [] \<Rightarrow> Inl (NoLeapDate (g_WNLSF g) (g_DN g))
        | ls # rest \<Rightarrow> if rest \<noteq> [] then Inl (AmbiguousLeapDates candidates)
            else if g_DeltaLS g = g_DeltaLSF g
            then Inr (ls \<lparr> utcOffBefore := guessPastLeapSecondOffset (offChangeTime ls) (utcOffAfter ls) \<rparr>)
            else Inr ls))"

definition gpsLeapSecond :: "GNSSLeapSecond \<Rightarrow> int \<Rightarrow> (leap_error + LeapSecond) option" where
  "gpsLeapSecond g now = gnssLeapSecond g now epochGPS taiMinusGPS 1"

definition galileoLeapSecond :: "GNSSLeapSecond \<Rightarrow> int \<Rightarrow> (leap_error + LeapSecond) option" where
  "galileoLeapSecond g now = gnssLeapSecond g now epochGalileo taiMinusGalileo 1"

definition beiDouLeapSecond :: "GNSSLeapSecond \<Rightarrow> int \<Rightarrow> (leap_error + LeapSecond) option" where
  "beiDouLeapSecond g now = gnssLeapSecond g now epochBeiDou taiMinusBeiDou 0"

section \<open>The search ends\<close>

text \<open>A date the search may return: the end of a quarter, not before 2016 and not beyond the horizon.\<close>

definition leap_day :: "int \<Rightarrow> int \<Rightarrow> bool" where
  "leap_day now date \<longleftrightarrow> date mod nsPerDay = 0 \<and> leapSecond2016Date \<le> date \<and> date \<le> leap_horizon now \<and> isLastDayOfQuarter date"

definition search_date :: "int \<Rightarrow> int \<Rightarrow> int \<Rightarrow> int" where
  "search_date epoch dayOfWeek week = epoch + (week * 7 + dayOfWeek) * nsPerDay"

definition on_leap_day :: "GNSSLeapSecond \<Rightarrow> int \<Rightarrow> int \<Rightarrow> LeapSecond \<Rightarrow> bool" where
  "on_leap_day g now els c \<longleftrightarrow>
     (\<exists>date. leap_day now date \<and> c = leapSecondOnDate date (i16 (els + g_DeltaLS g)) (i16 (els + g_DeltaLSF g)))"

lemma leap_candidate_ok:
  assumes "c \<in> set (leap_candidate g now els date cs)" "date mod nsPerDay = 0" "date \<le> leap_horizon now"
  shows "c \<in> set cs \<or> on_leap_day g now els c"
proof -
  let ?c = "leapSecondOnDate date (i16 (els + g_DeltaLS g)) (i16 (els + g_DeltaLSF g))"
  have "c \<in> set cs \<or> leap_day now date \<and> c = ?c"
    using assms unfolding leap_candidate_def Let_def leap_day_def by (simp split: if_splits) auto
  then show ?thesis unfolding on_leap_day_def by blast
qed

lemma unix_midnight: "date mod nsPerDay = 0 \<Longrightarrow> in_i64 date \<Longrightarrow> pt_unix (time_unix date) 0 = date"
proof -
  assume d: "date mod nsPerDay = 0" "in_i64 date"
  then obtain k where k: "date = nsPerDay * k" by auto
  have "time_unix date = 86400 * k" unfolding k time_unix_def ns_defs by simp
  with d k show ?thesis by (simp add: pt_unix_def ns_defs)
qed

lemma leap_search_ends:
  assumes "epoch mod nsPerDay = 0" "- (2 ^ 61) \<le> epoch" "epoch \<le> 2 ^ 61" "in_years now" "- 1 \<le> dow" "dow \<le> 255"
  shows "0 \<le> week \<Longrightarrow> week \<le> 2 ^ 15 \<Longrightarrow> search_date epoch dow week \<le> 5000000000000000000 \<Longrightarrow> \<forall>c \<in> set cs. on_leap_day g now els c
    \<Longrightarrow> \<exists>r. leap_search g now epoch els dow week cs = Some r \<and> (\<forall>c \<in> set r. on_leap_day g now els c)"
proof (induction "nat (2 ^ 15 + 256 - week)" arbitrary: week cs rule: less_induct)
  case less
  let ?date = "search_date epoch dow week"
  have h: "leap_horizon now = now + 15552000000000000"
    using assms(4) by (simp add: leap_horizon_def pt_add_def in_years_def in_i64_def ns_defs)
  have "in_i64 (week * 7)" "in_i64 (week * 7 + dow)" "in_i64 (week + 256)"
    using less.prems(1,2) assms(5,6) by (simp_all add: in_i64_def)
  then have w: "i64 (i64 (week * 7) + dow) = week * 7 + dow" "i64 (week + 256) = week + 256" by simp_all
  have dm: "?date mod nsPerDay = 0" using assms(1) by (simp add: search_date_def)
  have "in_i64 ?date"
    using less.prems assms(2-6) h by (simp add: search_date_def in_i64_def in_years_def ns_defs)
  with dm have u: "pt_unix (time_unix ?date) 0 = ?date" by (rule unix_midnight)
  have step: "leap_search g now epoch els dow week cs = (if ?date > leap_horizon now then Some cs
      else leap_search g now epoch els dow (week + 256) (leap_candidate g now els ?date cs))"
    by (subst leap_search.simps) (simp only: w addDate_days search_date_def [symmetric] u Let_def)
  show ?case
  proof (cases "?date > leap_horizon now")
    case True
    with step less.prems show ?thesis by simp
  next
    case False
    have wk: "week + 256 \<le> 2 ^ 15"
      using False less.prems(1) assms(2-6) h unfolding search_date_def in_years_def ns_defs by simp
    have "\<forall>c \<in> set (leap_candidate g now els ?date cs). on_leap_day g now els c"
      using leap_candidate_ok [OF _ dm] False less.prems(4) by (metis not_le_imp_less)
    moreover have "search_date epoch dow (week + 256) \<le> 5000000000000000000"
      using False h assms(4) by (simp add: search_date_def in_years_def ns_defs algebra_simps)
    ultimately show ?thesis using less.hyps [of "week + 256"] wk less.prems(1) step False by simp
  qed
qed

text \<open>C13: The search for the date of a broadcast leap second ends. For every value of the broadcast
  fields and any current time within 145 years of 1970 \<^verbatim>\<open>gnssLeapSecond\<close> returns, and a leap second it
  returns is at the end of a quarter, not before 2016 and at most 180 days ahead, and changes to the
  offset that was broadcast.\<close>
theorem leap_search_returns:
  assumes "0 \<le> g_WNLSF g" "g_WNLSF g < 256" "0 \<le> g_DN g" "g_DN g < 256" "0 \<le> dnBase" "dnBase \<le> 1"
    "epoch mod nsPerDay = 0" "0 \<le> epoch" "epoch \<le> 2 ^ 61" "in_years now"
  shows "\<exists>r. gnssLeapSecond g now epoch els dnBase = Some r
    \<and> (\<forall>ls. r = Inr ls \<longrightarrow> utcOffAfter ls = i16 (els + g_DeltaLSF g)
        \<and> (\<exists>date. leap_day now date \<and> offChangeTime ls = offChangeTime (leapSecondOnDate date 0 (i16 (els + g_DeltaLSF g)))))"
proof -
  have "search_date epoch (g_DN g - dnBase) (g_WNLSF g) \<le> 5000000000000000000"
    using assms(1-6,8,9) by (simp add: search_date_def nsPerDay_def)
  with leap_search_ends [of epoch now "g_DN g - dnBase" "g_WNLSF g" "[]" g els] assms
  obtain cs where cs: "leap_search g now epoch els (g_DN g - dnBase) (g_WNLSF g) [] = Some cs"
    "\<forall>c \<in> set cs. on_leap_day g now els c" by auto
  show ?thesis
  proof (cases cs)
    case Nil
    then show ?thesis by (simp add: gnssLeapSecond_def cs(1))
  next
    case (Cons c rest)
    with cs(2) have "on_leap_day g now els c" by simp
    with Cons show ?thesis
      by (auto simp: gnssLeapSecond_def cs(1) on_leap_day_def leapSecondOnDate_def)
  qed
qed

theorem leap_search_returns_witness:
  "\<exists>r. gnssLeapSecond \<lparr> g_WNLSF = 137, g_DN = 7, g_DeltaLS = 18, g_DeltaLSF = 18 \<rparr> 1700000000000000000 epochGPS 19 1 = Some r"
proof -
  have e: "epochGPS = 315964800000000000" by code_simp
  show ?thesis
    using leap_search_returns [of "\<lparr> g_WNLSF = 137, g_DN = 7, g_DeltaLS = 18, g_DeltaLSF = 18 \<rparr>" 1 epochGPS 1700000000000000000 19]
    by (auto simp: e in_years_def nsPerDay_def)
qed

end
