(* ===== verification/SyncTypes.thy ===== *)
theory SyncTypes
  imports GoTime "HOL-Library.Word"
begin

text \<open>
  What the modes of the clock controller in \<^verbatim>\<open>time/internal/phcsync\<close> share: floating point as an
  argument, the times of a clock (\<^verbatim>\<open>time/phctime\<close>), pulse edges, samples, actions, modes, what the
  buffer of time messages answers, and the PI servo of \<^verbatim>\<open>pi.go\<close>. Logging is left out.
\<close>

unbundle bit_operations_syntax

section \<open>Floating point\<close>

text \<open>
  The operations on \<^verbatim>\<open>float64\<close> the code uses, about which nothing is assumed: conversion from and to
  64-bit integers, arithmetic, the exponential, rounding and comparison.
\<close>

record 'f float64 =
  f_int :: "int \<Rightarrow> 'f"
  f_trunc :: "'f \<Rightarrow> int"
  f_add :: "'f \<Rightarrow> 'f \<Rightarrow> 'f"
  f_sub :: "'f \<Rightarrow> 'f \<Rightarrow> 'f"
  f_mul :: "'f \<Rightarrow> 'f \<Rightarrow> 'f"
  f_div :: "'f \<Rightarrow> 'f \<Rightarrow> 'f"
  f_neg :: "'f \<Rightarrow> 'f"
  f_abs :: "'f \<Rightarrow> 'f"
  f_exp :: "'f \<Rightarrow> 'f"
  f_round :: "'f \<Rightarrow> 'f"
  f_le :: "'f \<Rightarrow> 'f \<Rightarrow> bool"
  f_lt :: "'f \<Rightarrow> 'f \<Rightarrow> bool"

text \<open>A concrete arithmetic for the examples, on integers.\<close>

definition int_float :: "int float64" where
  "int_float = \<lparr> f_int = (\<lambda>x. x), f_trunc = (\<lambda>x. x), f_add = (+), f_sub = (-), f_mul = (*), f_div = (div), f_neg = uminus, f_abs = abs, f_exp = (\<lambda>x. x), f_round = (\<lambda>x. x), f_le = (\<le>), f_lt = (<) \<rparr>"

text \<open>\<^verbatim>\<open>Duration.Abs\<close> and \<^verbatim>\<open>Duration.Seconds\<close> of the standard library.\<close>

definition duration_abs :: "int \<Rightarrow> int" where
  "duration_abs d = (if 0 \<le> d then d else if d = - (2 ^ 63) then 2 ^ 63 - 1 else - d)"

definition duration_seconds :: "'f float64 \<Rightarrow> int \<Rightarrow> 'f" where
  "duration_seconds F d =
     f_add F (f_int F (quot d nsPerSecond)) (f_div F (f_int F (rem64 d nsPerSecond)) (f_int F 1000000000))"

text \<open>\<^verbatim>\<open>time.Duration(x * float64(time.Second))\<close>.\<close>

definition seconds_duration :: "'f float64 \<Rightarrow> 'f \<Rightarrow> int" where
  "seconds_duration F x = f_trunc F (f_mul F x (f_int F nsPerSecond))"

text \<open>The zero \<^verbatim>\<open>time.Time\<close> is the first day of the year 1.\<close>

definition zeroTime :: int where "zeroTime = - 62135596800 * 1000000000"

section \<open>Clocks, samples, actions and modes\<close>

type_synonym u64 = "64 word"

record phc_time =
  ph_t :: int
  ph_era :: u64

record phc_sample =
  ps_phc :: phc_time
  ps_sys :: int

definition era_uncertain :: "u64 \<Rightarrow> bool" where
  "era_uncertain e \<longleftrightarrow> e AND 1 = 0"

definition era_stepCount :: "u64 \<Rightarrow> u64 \<times> bool" where
  "era_stepCount e = (let changing = era_uncertain e; count = drop_bit 1 e in (if changing then count else count + 1, changing))"

record pulse_edge =
  pe_timestamp :: phc_time
  pe_tRead :: phc_sample

record pulse_type =
  pt_edgesPerPulse :: int
  pt_pulseWidth :: int

datatype SampleKind = SampleMissing | SampleOK | SampleOutlier

datatype mode = ModeInvalid | ModeReset | ModeConverging | ModeTracking

definition mode_inSync :: "mode \<Rightarrow> bool" where
  "mode_inSync m \<longleftrightarrow> m = ModeTracking"

record 'f sync_sample =
  smp_kind :: SampleKind
  smp_ref :: int
  smp_offset :: int
  smp_freq :: 'f
  smp_freqDelta :: 'f
  smp_mode :: mode
  smp_era :: u64
  smp_edgeIndex :: u64
  smp_sys :: int

definition sysSample :: "'f sync_sample \<Rightarrow> phc_sample" where
  "sysSample s = \<lparr> ps_phc = \<lparr> ph_t = smp_ref s, ph_era = smp_era s \<rparr>, ps_sys = smp_sys s \<rparr>"

text \<open>A sample as the generators make it: the frequencies and the mode are filled in later.\<close>

definition okSample :: "'f float64 \<Rightarrow> int \<Rightarrow> int \<Rightarrow> u64 \<Rightarrow> u64 \<Rightarrow> int \<Rightarrow> 'f sync_sample" where
  "okSample F ref off era edgeIndex sys =
     \<lparr> smp_kind = SampleOK, smp_ref = ref, smp_offset = off, smp_freq = f_int F 0, smp_freqDelta = f_int F 0,
       smp_mode = ModeInvalid, smp_era = era, smp_edgeIndex = edgeIndex, smp_sys = sys \<rparr>"

datatype phcActionType = PhcNoAction | PhcAdjustFrequency | PhcStepClock

record 'f phcAction =
  act_type :: phcActionType
  act_step :: int
  act_freq :: 'f

text \<open>The zero value of an action.\<close>

definition noAction :: "'f float64 \<Rightarrow> 'f phcAction" where
  "noAction F = \<lparr> act_type = PhcNoAction, act_step = 0, act_freq = f_int F 0 \<rparr>"

text \<open>
  The estimated system time of an edge: the time at which its event was read less the time from the
  timestamp to the reading, on the clock.
\<close>

definition edge_sys :: "pulse_edge \<Rightarrow> int" where
  "edge_sys e = (let phcDelta = i64 (ph_t (ps_phc (pe_tRead e)) - ph_t (pe_timestamp e)) in ps_sys (pe_tRead e) + i64 (- phcDelta))"

text \<open>
  The answers of the interface \<^verbatim>\<open>TimeMsgBuffer\<close> during one call: the messages after the last pulses
  (the time of the last, the read times, whether there is a closure that detects leap seconds), the
  correction of a pulse, whether to wait for one, and what the installed closure says.
\<close>

record msg_env =
  me_post :: "int \<Rightarrow> int \<times> int list \<times> bool"
  me_correction :: "int \<Rightarrow> int option"
  me_wait :: "int \<Rightarrow> bool"
  me_detectLeap :: "int \<Rightarrow> bool"

section \<open>The servo\<close>

record 'f piServo =
  pi_offSum :: 'f
  pi_kp :: 'f
  pi_ki :: 'f
  pi_maxFreq :: 'f

definition newPiServo :: "'f float64 \<Rightarrow> 'f \<Rightarrow> 'f \<Rightarrow> 'f \<Rightarrow> 'f \<Rightarrow> 'f piServo" where
  "newPiServo F freq kp ki maxFreq =
     \<lparr> pi_offSum = f_div F (f_neg F freq) ki, pi_kp = kp, pi_ki = ki, pi_maxFreq = maxFreq \<rparr>"

definition pi_reset :: "'f float64 \<Rightarrow> 'f \<Rightarrow> 'f piServo \<Rightarrow> 'f piServo" where
  "pi_reset F freq s = s \<lparr> pi_offSum := f_div F (f_neg F freq) (pi_ki s) \<rparr>"

definition pi_sample :: "'f float64 \<Rightarrow> int \<Rightarrow> 'f piServo \<Rightarrow> 'f \<times> 'f piServo" where
  "pi_sample F off s =
     (let fOff = f_int F off;
          out = f_add F (f_mul F (pi_kp s) fOff) (f_mul F (pi_ki s) (f_add F (pi_offSum s) fOff))
      in if f_le F (f_abs F out) (pi_maxFreq s) then (f_neg F out, s \<lparr> pi_offSum := f_add F (pi_offSum s) fOff \<rparr>)
         else if f_lt F out (f_int F 0) then (pi_maxFreq s, s) else (f_neg F (pi_maxFreq s), s))"

end
