(* ===== verification/ResetMode.thy ===== *)
theory ResetMode
  imports CircBuf SyncTypes
begin

text \<open>
  The reset mode of the clock controller, \<^verbatim>\<open>time/internal/phcsync/reset.go\<close>: the generator collects
  pulse edges and aligns them with time messages, the processor steps the clock. The statistics, which
  are only logged, are left out. A panic is \<open>None\<close>.
\<close>

section \<open>State\<close>

record 'f ResetConfig =
  rc_pulseWindow :: int
  rc_stepThreshold :: int
  rc_pulseVariation :: 'f
  rc_expectedDelay :: 'f
  rc_delayConfidenceWindow :: 'f
  rc_delayVariation :: 'f
  rc_pulseWidthDetectLimit :: 'f
  rc_driftRateLimit :: 'f

definition delayBounds :: "'f float64 \<Rightarrow> 'f ResetConfig \<Rightarrow> 'f \<Rightarrow> 'f \<times> 'f" where
  "delayBounds F cfg maxWindow =
     (let halfWindow = f_div F (f_mul F (rc_delayConfidenceWindow cfg) maxWindow) (f_int F 2);
          minAcceptable = f_sub F (rc_expectedDelay cfg) halfWindow
      in if f_lt F minAcceptable (f_int F 0) then
           let truncated = f_neg F minAcceptable
           in (f_int F 0, f_add F (f_add F (rc_expectedDelay cfg) halfWindow) truncated)
         else (minAcceptable, f_add F (rc_expectedDelay cfg) halfWindow))"

record edge_list =
  el_edges :: "pulse_edge list"
  el_lastEdgeIndex :: u64
  el_pulseWidth :: int

record 'f reset_gen =
  rg_edgeBuf :: "pulse_edge buffer"
  rg_cfg :: "'f ResetConfig"
  rg_pt :: pulse_type
  rg_maxFreq :: 'f
  rg_freq :: 'f
  rg_lastEdgeIndex :: u64
  rg_avgInterval :: int
  rg_tReadLastMsg :: int
  rg_pulseIntervalsBad :: bool
  rg_detectLeap :: bool

text \<open>Why no sample was generated.\<close>

datatype 'f reset_error =
    NotEnoughTimestamps
  | LastPulseNoMessage
  | IntervalTooFar int 'f
  | IntervalsInconsistent 'f 'f
  | DelaySpread 'f 'f
  | DelayOutside 'f 'f 'f
  | AmbiguousEdges
  | BothFailed "'f reset_error" "'f reset_error"

definition zeroEdge :: pulse_edge where
  "zeroEdge = \<lparr> pe_timestamp = \<lparr> ph_t = 0, ph_era = 0 \<rparr>, pe_tRead = \<lparr> ps_phc = \<lparr> ph_t = 0, ph_era = 0 \<rparr>, ps_sys = zeroTime \<rparr> \<rparr>"

definition newResetGen :: "'f ResetConfig \<Rightarrow> int \<Rightarrow> 'f \<Rightarrow> 'f \<Rightarrow> 'f reset_gen option" where
  "newResetGen cfg edgesPerPulse freq maxFreq =
     Option.bind (newBuffer zeroEdge (i64 (rc_pulseWindow cfg * edgesPerPulse))) (\<lambda>b. Some
       \<lparr> rg_edgeBuf = b, rg_cfg = cfg, rg_pt = \<lparr> pt_edgesPerPulse = edgesPerPulse, pt_pulseWidth = 0 \<rparr>, rg_maxFreq = maxFreq,
         rg_freq = freq, rg_lastEdgeIndex = 0, rg_avgInterval = 0, rg_tReadLastMsg = zeroTime, rg_pulseIntervalsBad = False,
         rg_detectLeap = False \<rparr>)"

section \<open>Collecting edges\<close>

definition maxEdgeInterval :: int where "maxEdgeInterval = quot (nsPerSecond * 3) 2"

definition pulseEdgeMissing :: "pulse_edge \<Rightarrow> 'f reset_gen \<Rightarrow> bool" where
  "pulseEdgeMissing edge g =
     (if bufLen (rg_edgeBuf g) = 0 then False
      else let last = bufLast zeroEdge 0 (rg_edgeBuf g)
           in if ph_era (pe_timestamp edge) \<noteq> ph_era (pe_timestamp last) then True
              else i64 (ph_t (pe_timestamp edge) - ph_t (pe_timestamp last)) > maxEdgeInterval)"

definition storeEdge :: "pulse_edge \<Rightarrow> u64 \<Rightarrow> 'f reset_gen \<Rightarrow> 'f reset_gen option" where
  "storeEdge edge edgeIndex g =
     (let b = (if pulseEdgeMissing edge g then bufClear (rg_edgeBuf g) else rg_edgeBuf g)
      in Option.bind (bufAppend edge b) (\<lambda>b.
           Some (g \<lparr> rg_edgeBuf := b, rg_lastEdgeIndex := edgeIndex, rg_tReadLastMsg := zeroTime, rg_pulseIntervalsBad := False \<rparr>)))"

text \<open>\<^verbatim>\<open>pulseEdges\<close> collects the buffer with \<^verbatim>\<open>Iterate\<close> and reverses it.\<close>

definition pulseEdges :: "'f reset_gen \<Rightarrow> edge_list" where
  "pulseEdges g =
     (let edges = fst (bufIterate (\<lambda>es (_ :: nat) e. (es @ [e], True)) (rg_edgeBuf g) [])
      in \<lparr> el_edges = rev edges, el_lastEdgeIndex = rg_lastEdgeIndex g, el_pulseWidth = 0 \<rparr>)"

text \<open>Every second element, from the first.\<close>

fun alternate :: "'a list \<Rightarrow> 'a list" where
  "alternate [] = []"
| "alternate [x] = [x]"
| "alternate (x # y # xs) = x # alternate xs"

definition edge_split :: "edge_list \<Rightarrow> edge_list \<times> edge_list" where
  "edge_split pel =
     (let l = el_lastEdgeIndex pel; es = el_edges pel
      in if even (length es)
         then (\<lparr> el_edges = alternate es, el_lastEdgeIndex = l - 1, el_pulseWidth = 0 \<rparr>,
               \<lparr> el_edges = alternate (tl es), el_lastEdgeIndex = l, el_pulseWidth = 0 \<rparr>)
         else (\<lparr> el_edges = alternate es, el_lastEdgeIndex = l, el_pulseWidth = 0 \<rparr>,
               \<lparr> el_edges = alternate (tl es), el_lastEdgeIndex = l - 1, el_pulseWidth = 0 \<rparr>))"

definition pulseEdgeLists :: "'f reset_gen \<Rightarrow> edge_list list" where
  "pulseEdgeLists g =
     (let edgeList = pulseEdges g
      in if pt_edgesPerPulse (rg_pt g) = 2 then let (a, b) = edge_split edgeList in [a, b] else [edgeList])"

section \<open>Checking intervals\<close>

definition timestamps :: "edge_list \<Rightarrow> int list" where
  "timestamps pel = map (\<lambda>e. ph_t (pe_timestamp e)) (el_edges pel)"

fun differences :: "int list \<Rightarrow> int list" where
  "differences (x # y # xs) = i64 (y - x) # differences (y # xs)"
| "differences _ = []"

definition pulseIntervals :: "int list \<Rightarrow> int list option" where
  "pulseIntervals ts = (if length ts < 2 then None else Some (differences ts))"

definition neededFreq :: "'f float64 \<Rightarrow> 'f reset_gen \<Rightarrow> int \<Rightarrow> 'f" where
  "neededFreq F g interval =
     (let deviationNanos = i64 (interval - nsPerSecond);
          deviationPPB = f_div F (f_mul F (f_int F deviationNanos) (f_int F 1000000000)) (f_int F nsPerSecond)
      in f_sub F (rg_freq g) deviationPPB)"

definition adjustable :: "'f float64 \<Rightarrow> 'f reset_gen \<Rightarrow> int \<Rightarrow> bool" where
  "adjustable F g interval =
     (let n = neededFreq F g interval in f_le F (f_neg F (rg_maxFreq g)) n \<and> f_le F n (rg_maxFreq g))"

fun checkIntervalsAdjustable :: "'f float64 \<Rightarrow> 'f reset_gen \<Rightarrow> int list \<Rightarrow> 'f reset_error option" where
  "checkIntervalsAdjustable F g [] = None"
| "checkIntervalsAdjustable F g (i # is) =
     (if adjustable F g i then checkIntervalsAdjustable F g is else Some (IntervalTooFar i (rg_freq g)))"

definition variationPPB :: "'f float64 \<Rightarrow> int list \<Rightarrow> 'f" where
  "variationPPB F intervals =
     (let minInterval = foldl (\<lambda>m i. if i < m then i else m) (hd intervals) intervals;
          maxInterval = foldl (\<lambda>m i. if i > m then i else m) (hd intervals) intervals;
          v = f_mul F (f_sub F (f_div F (f_int F maxInterval) (f_int F minInterval)) (f_int F 1)) (f_int F 1000000000)
      in if f_lt F v (f_int F 0) then f_neg F v else v)"

definition checkIntervalsConsistent :: "'f float64 \<Rightarrow> 'f reset_gen \<Rightarrow> int list \<Rightarrow> 'f reset_error option option" where
  "checkIntervalsConsistent F g intervals =
     (if intervals = [] then None
      else let v = variationPPB F intervals
           in if f_lt F (rc_pulseVariation (rg_cfg g)) v then Some (Some (IntervalsInconsistent v (rc_pulseVariation (rg_cfg g))))
              else Some None)"

text \<open>A panic, or the error of the check, if any.\<close>

definition checkPulseIntervals :: "'f float64 \<Rightarrow> 'f reset_gen \<Rightarrow> edge_list \<Rightarrow> 'f reset_error option option" where
  "checkPulseIntervals F g pel =
     (if length (el_edges pel) < 2 then Some (Some NotEnoughTimestamps)
      else Option.bind (pulseIntervals (timestamps pel)) (\<lambda>intervals.
        case checkIntervalsAdjustable F g intervals of
          Some err \<Rightarrow> Some (Some err)
        | None \<Rightarrow> checkIntervalsConsistent F g intervals))"

definition avgInterval :: "edge_list \<Rightarrow> int option" where
  "avgInterval pel =
     (let es = el_edges pel
      in if es = [] then None
         else if int (length es) - 1 = 0 then None
         else Some (quot (i64 (ph_t (pe_timestamp (last es)) - ph_t (pe_timestamp (hd es)))) (int (length es) - 1)))"

section \<open>Aligning with messages\<close>

definition pulseTimes :: "'f float64 \<Rightarrow> pulse_edge list \<Rightarrow> int \<Rightarrow> int list" where
  "pulseTimes F edges avg =
     map (\<lambda>edge. let phcDelta = i64 (ph_t (ps_phc (pe_tRead edge)) - ph_t (pe_timestamp edge));
                    realDelta = f_trunc F (f_div F (f_int F phcDelta) (duration_seconds F avg))
                in ps_sys (pe_tRead edge) + i64 (- realDelta)) edges"

definition isMessageForLastPulse :: "int list \<Rightarrow> int list \<Rightarrow> bool" where
  "isMessageForLastPulse pulses msgs =
     (let lastDelay = time_sub (last msgs) (last pulses) in 0 \<le> lastDelay \<and> lastDelay \<le> nsPerSecond)"

definition pulseDelays :: "int list \<Rightarrow> int list \<Rightarrow> int list option" where
  "pulseDelays pulses msgs =
     (if length pulses \<noteq> length msgs then None else Some (map2 (\<lambda>p m. time_sub m p) pulses msgs))"

definition delaySpread :: "'f float64 \<Rightarrow> int list \<Rightarrow> 'f \<Rightarrow> 'f" where
  "delaySpread F delays maxWindow =
     (let minDelay = foldl (\<lambda>m d. if d < m then d else m) (hd delays) delays;
          maxDelay = foldl (\<lambda>m d. if d > m then d else m) (hd delays) delays
      in f_div F (duration_seconds F (i64 (maxDelay - minDelay))) maxWindow)"

definition checkDelaySpread :: "'f float64 \<Rightarrow> 'f reset_gen \<Rightarrow> int list \<Rightarrow> 'f \<Rightarrow> 'f reset_error option option" where
  "checkDelaySpread F g delays maxWindow =
     (if delays = [] then None
      else let spread = delaySpread F delays maxWindow
           in if f_lt F (rc_delayVariation (rg_cfg g)) spread then Some (Some (DelaySpread spread (rc_delayVariation (rg_cfg g))))
              else Some None)"

fun checkDelayRange :: "'f float64 \<Rightarrow> 'f \<Rightarrow> 'f \<Rightarrow> int list \<Rightarrow> 'f reset_error option" where
  "checkDelayRange F lo hi [] = None"
| "checkDelayRange F lo hi (d # ds) =
     (let delaySec = duration_seconds F d
      in if f_lt F delaySec lo \<or> f_lt F hi delaySec then Some (DelayOutside delaySec lo hi) else checkDelayRange F lo hi ds)"

definition checkAlignment :: "'f float64 \<Rightarrow> 'f reset_gen \<Rightarrow> int list \<Rightarrow> int list \<Rightarrow> 'f \<Rightarrow> 'f reset_error option option" where
  "checkAlignment F g pulses msgs maxWindow =
     (if \<not> isMessageForLastPulse pulses msgs then Some (Some LastPulseNoMessage)
      else Option.bind (pulseDelays pulses msgs) (\<lambda>delays.
        Option.bind (checkDelaySpread F g delays maxWindow) (\<lambda>err.
          case err of Some e \<Rightarrow> Some (Some e)
          | None \<Rightarrow> let (lo, hi) = delayBounds F (rg_cfg g) maxWindow in Some (checkDelayRange F lo hi delays))))"

definition tryAlignment :: "'f float64 \<Rightarrow> edge_list \<Rightarrow> int \<Rightarrow> int list \<Rightarrow> 'f \<Rightarrow> 'f reset_gen
    \<Rightarrow> (('f reset_error + 'f sync_sample) \<times> 'f reset_gen) option" where
  "tryAlignment F pel lastSec tRead maxWindow g =
     Option.bind (avgInterval pel) (\<lambda>avg.
       let pulses = pulseTimes F (el_edges pel) avg
       in Option.bind (checkAlignment F g pulses tRead maxWindow) (\<lambda>err.
            case err of Some e \<Rightarrow> Some (Inl e, g)
            | None \<Rightarrow>
                let g = g \<lparr> rg_lastEdgeIndex := el_lastEdgeIndex pel, rg_avgInterval := avg \<rparr>;
                    ts = pe_timestamp (last (el_edges pel));
                    off = i64 (ph_t ts - lastSec)
                in Some (Inr (okSample F lastSec off (ph_era ts) (rg_lastEdgeIndex g) (last pulses)), g)))"

definition filterEdgeLists :: "'f float64 \<Rightarrow> 'f reset_gen \<Rightarrow> edge_list list \<Rightarrow> edge_list list option" where
  "filterEdgeLists F g els =
     (case els of
        [l0, l1] \<Rightarrow>
          let n = min (length (el_edges l1)) (length (el_edges l0));
              total = foldl (\<lambda>s (a, b). i64 (s + i64 (ph_t (pe_timestamp b) - ph_t (pe_timestamp a)))) 0
                        (zip (take n (el_edges l0)) (take n (el_edges l1)))
          in if n = 0 then None
             else Option.bind (avgInterval l0) (\<lambda>a0. Option.bind (avgInterval l1) (\<lambda>a1.
               let avgPulseWidth = quot total (int n); avg = quot (i64 (a0 + a1)) 2;
                   truePulseWidth = f_trunc F (f_mul F (f_int F avgPulseWidth) (f_div F (f_int F nsPerSecond) (f_int F avg)));
                   limit = seconds_duration F (rc_pulseWidthDetectLimit (rg_cfg g));
                   pw = i64 (nsPerSecond - truePulseWidth)
               in if truePulseWidth \<le> limit then Some [l0 \<lparr> el_pulseWidth := truePulseWidth \<rparr>]
                  else if pw \<le> limit then Some [l1 \<lparr> el_pulseWidth := pw \<rparr>]
                  else Some [l0 \<lparr> el_pulseWidth := truePulseWidth \<rparr>, l1 \<lparr> el_pulseWidth := pw \<rparr>]))
      | _ \<Rightarrow> Some els)"

section \<open>Generating a sample\<close>

text \<open>The lists whose intervals fail, the first error of them.\<close>

fun checkLists :: "'f float64 \<Rightarrow> 'f reset_gen \<Rightarrow> edge_list list \<Rightarrow> 'f reset_error option option" where
  "checkLists F g [] = Some None"
| "checkLists F g (l # ls) =
     Option.bind (checkPulseIntervals F g l) (\<lambda>err. case err of Some e \<Rightarrow> Some (Some e) | None \<Rightarrow> checkLists F g ls)"

text \<open>The loop over the lists: the sample so far, the errors so far; two samples are an error.\<close>

fun tryLists :: "'f float64 \<Rightarrow> int \<Rightarrow> int list \<Rightarrow> 'f \<Rightarrow> edge_list list \<Rightarrow> 'f sync_sample option \<Rightarrow> 'f reset_error list \<Rightarrow> 'f reset_gen
    \<Rightarrow> (('f reset_error + 'f sync_sample) \<times> 'f reset_gen) option" where
  "tryLists F lastSec tRead maxWindow [] sample errs g =
     (case sample of Some s \<Rightarrow> Some (Inr s, g)
      | None \<Rightarrow> (case errs of [e] \<Rightarrow> Some (Inl e, g) | e1 # e2 # _ \<Rightarrow> Some (Inl (BothFailed e1 e2), g) | [] \<Rightarrow> None))"
| "tryLists F lastSec tRead maxWindow (l # ls) sample errs g =
     Option.bind (tryAlignment F l lastSec tRead maxWindow g) (\<lambda>(r, g).
       case r of Inl e \<Rightarrow> tryLists F lastSec tRead maxWindow ls sample (errs @ [e]) g
       | Inr s \<Rightarrow> if sample \<noteq> None then Some (Inl AmbiguousEdges, g)
           else tryLists F lastSec tRead maxWindow ls (Some s) errs (g \<lparr> rg_pt := (rg_pt g) \<lparr> pt_pulseWidth := el_pulseWidth l \<rparr> \<rparr>))"

definition maxWindow_for :: "'f float64 \<Rightarrow> edge_list list \<Rightarrow> 'f" where
  "maxWindow_for F els = (if 1 < length els then f_div F (f_int F 1) (f_int F 2) else f_int F 1)"

text \<open>No sample and no error when the messages were seen before or the intervals are known to be bad.\<close>

definition genSampleForMessages :: "'f float64 \<Rightarrow> int \<Rightarrow> int list \<Rightarrow> 'f reset_gen
    \<Rightarrow> (('f reset_error + 'f sync_sample option) \<times> 'f reset_gen) option" where
  "genSampleForMessages F lastSec tRead g =
     (if tRead = [] then None
      else if last tRead = rg_tReadLastMsg g then Some (Inr None, g)
      else let g = g \<lparr> rg_tReadLastMsg := last tRead \<rparr>
      in if rg_pulseIntervalsBad g then Some (Inr None, g)
      else let els = pulseEdgeLists g
      in Option.bind (checkLists F g els) (\<lambda>err. case err of
           Some e \<Rightarrow> Some (Inl e, g \<lparr> rg_pulseIntervalsBad := True \<rparr>)
         | None \<Rightarrow> Option.bind (filterEdgeLists F g els) (\<lambda>els.
             Option.bind (tryLists F lastSec tRead (maxWindow_for F els) els None [] g) (\<lambda>(r, g).
               case r of Inl e \<Rightarrow> Some (Inl e, g) | Inr s \<Rightarrow> Some (Inr (Some s), g)))))"

definition genSample :: "'f float64 \<Rightarrow> msg_env \<Rightarrow> 'f reset_gen \<Rightarrow> ('f sync_sample option \<times> 'f reset_gen) option" where
  "genSample F env g =
     (let requiredEdges = i64 (rc_pulseWindow (rg_cfg g) * pt_edgesPerPulse (rg_pt g))
      in if int (bufLen (rg_edgeBuf g)) < requiredEdges then Some (None, g)
         else let (lastSec, tRead, detectLeap) = me_post env (rc_pulseWindow (rg_cfg g))
         in if lastSec = 0 then Some (None, g)
            else Option.bind (genSampleForMessages F lastSec tRead g) (\<lambda>(r, g). case r of
                Inl _ \<Rightarrow> Some (None, g)
              | Inr None \<Rightarrow> Some (None, g)
              | Inr (Some s) \<Rightarrow> Some (Some s, g \<lparr> rg_detectLeap := detectLeap \<rparr>)))"

definition reset_pulseEdgeSample :: "'f float64 \<Rightarrow> msg_env \<Rightarrow> pulse_edge \<Rightarrow> u64 \<Rightarrow> 'f reset_gen \<Rightarrow> ('f sync_sample option \<times> 'f reset_gen) option" where
  "reset_pulseEdgeSample F env edge edgeIndex g =
     (if era_uncertain (ph_era (pe_timestamp edge)) then Some (None, g)
      else Option.bind (storeEdge edge edgeIndex g) (genSample F env))"

definition reset_timeMessageSample :: "'f float64 \<Rightarrow> msg_env \<Rightarrow> 'f reset_gen \<Rightarrow> ('f sync_sample option \<times> 'f reset_gen) option" where
  "reset_timeMessageSample F env g = genSample F env g"

section \<open>The processor\<close>

record 'f reset_proc =
  rp_minStep :: int
  rp_driftRateLimit :: 'f
  rp_persistSample :: "phc_sample option"

definition newResetProc :: "'f ResetConfig \<Rightarrow> phc_sample option \<Rightarrow> 'f reset_proc" where
  "newResetProc cfg persist = \<lparr> rp_minStep = rc_stepThreshold cfg, rp_driftRateLimit = rc_driftRateLimit cfg, rp_persistSample = persist \<rparr>"

definition computeDriftRate :: "'f float64 \<Rightarrow> phc_sample \<Rightarrow> phc_sample \<Rightarrow> 'f option" where
  "computeDriftRate F current persist =
     (let sysDelta = time_sub (ps_sys current) (ps_sys persist);
          refDelta = i64 (ph_t (ps_phc current) - ph_t (ps_phc persist))
      in if refDelta < nsPerSecond then None
         else Some (f_div F (f_mul F (f_int F (i64 (sysDelta - refDelta))) (f_int F 1000000000)) (f_int F refDelta)))"

definition drift_rejected :: "'f float64 \<Rightarrow> 'f sync_sample \<Rightarrow> 'f reset_proc \<Rightarrow> bool" where
  "drift_rejected F s p =
     (case rp_persistSample p of None \<Rightarrow> False
      | Some persist \<Rightarrow> f_lt F (f_int F 0) (rp_driftRateLimit p)
          \<and> (case computeDriftRate F (sysSample s) persist of None \<Rightarrow> False
             | Some drift \<Rightarrow> f_lt F (rp_driftRateLimit p) (f_abs F drift)))"

definition reset_process :: "'f float64 \<Rightarrow> 'f sync_sample \<Rightarrow> 'f reset_proc \<Rightarrow> 'f phcAction \<times> mode" where
  "reset_process F s p =
     (if smp_kind s = SampleMissing then (noAction F, ModeReset)
      else if drift_rejected F s p then (noAction F, ModeReset)
      else if duration_abs (smp_offset s) < rp_minStep p then (noAction F, ModeConverging)
      else ((noAction F) \<lparr> act_type := PhcStepClock, act_step := i64 (- smp_offset s) \<rparr>, ModeConverging))"

section \<open>What a sample of the reset mode means\<close>

definition intervals_ok :: "'f float64 \<Rightarrow> 'f reset_gen \<Rightarrow> edge_list \<Rightarrow> bool" where
  "intervals_ok F g l \<longleftrightarrow> (let is = differences (timestamps l)
     in (\<forall>i \<in> set is. adjustable F g i) \<and> \<not> f_lt F (rc_pulseVariation (rg_cfg g)) (variationPPB F is))"

definition aligned :: "'f float64 \<Rightarrow> 'f ResetConfig \<Rightarrow> int list \<Rightarrow> 'f \<Rightarrow> edge_list \<Rightarrow> bool" where
  "aligned F cfg tRead mw l = (case avgInterval l of None \<Rightarrow> False
     | Some avg \<Rightarrow>
         let pulses = pulseTimes F (el_edges l) avg; delays = map2 (\<lambda>p m. time_sub m p) pulses tRead; (lo, hi) = delayBounds F cfg mw
         in isMessageForLastPulse pulses tRead \<and> \<not> f_lt F (rc_delayVariation cfg) (delaySpread F delays mw)
          \<and> (\<forall>d \<in> set delays. \<not> f_lt F (duration_seconds F d) lo \<and> \<not> f_lt F hi (duration_seconds F d)))"

definition align_sample :: "'f float64 \<Rightarrow> int \<Rightarrow> edge_list \<Rightarrow> 'f sync_sample" where
  "align_sample F lastSec l =
     (let ts = pe_timestamp (last (el_edges l))
      in okSample F lastSec (i64 (ph_t ts - lastSec)) (ph_era ts) (el_lastEdgeIndex l)
           (last (pulseTimes F (el_edges l) (the (avgInterval l)))))"

definition align_state :: "edge_list \<Rightarrow> 'f reset_gen \<Rightarrow> 'f reset_gen" where
  "align_state l g = g \<lparr> rg_lastEdgeIndex := el_lastEdgeIndex l, rg_avgInterval := the (avgInterval l) \<rparr>"

definition with_width :: "int \<Rightarrow> 'f reset_gen \<Rightarrow> 'f reset_gen" where
  "with_width w g = g \<lparr> rg_pt := (rg_pt g) \<lparr> pt_pulseWidth := w \<rparr> \<rparr>"

lemma state_cfg [simp]: "rg_cfg (align_state l g) = rg_cfg g" "rg_cfg (with_width w g) = rg_cfg g"
  by (simp_all add: align_state_def with_width_def)

lemma length_pulseTimes [simp]: "length (pulseTimes F es avg) = length es"
  by (simp add: pulseTimes_def)

lemma avgInterval_Some: "2 \<le> length (el_edges l) \<Longrightarrow> \<exists>avg. avgInterval l = Some avg"
  by (auto simp: avgInterval_def Let_def)

lemma checkDelayRange_None:
  "checkDelayRange F lo hi ds = None \<longleftrightarrow> (\<forall>d \<in> set ds. \<not> f_lt F (duration_seconds F d) lo \<and> \<not> f_lt F hi (duration_seconds F d))"
  by (induction ds) (auto simp: Let_def)

lemma tryAlignment_cases:
  assumes "2 \<le> length (el_edges l)" "length tRead = length (el_edges l)"
  shows "if aligned F (rg_cfg g) tRead mw l
    then tryAlignment F l lastSec tRead mw g = Some (Inr (align_sample F lastSec l), align_state l g)
    else \<exists>e. tryAlignment F l lastSec tRead mw g = Some (Inl e, g)"
proof -
  from avgInterval_Some [OF assms(1)] obtain avg where avg: "avgInterval l = Some avg" by blast
  let ?p = "pulseTimes F (el_edges l) avg"
  let ?d = "map2 (\<lambda>p m. time_sub m p) ?p tRead"
  obtain lo hi where b: "delayBounds F (rg_cfg g) mw = (lo, hi)" by (cases "delayBounds F (rg_cfg g) mw")
  have ne: "?d \<noteq> []" "tRead \<noteq> []" "el_edges l \<noteq> []" using assms by (auto simp: zip_eq_Nil_iff pulseTimes_def)
  have a: "checkAlignment F g ?p tRead mw = Some None \<longleftrightarrow> aligned F (rg_cfg g) tRead mw l"
    "\<exists>r. checkAlignment F g ?p tRead mw = Some r"
    using assms ne
    by (auto simp: checkAlignment_def pulseDelays_def checkDelaySpread_def aligned_def avg Let_def b checkDelayRange_None
      split: if_splits)
  from a(2) obtain r where r: "checkAlignment F g ?p tRead mw = Some r" by blast
  show ?thesis
  proof (cases r)
    case None
    with a r show ?thesis by (simp add: tryAlignment_def avg Let_def align_sample_def align_state_def)
  next
    case (Some e)
    with a r show ?thesis by (auto simp: tryAlignment_def avg Let_def)
  qed
qed

lemma tryLists_found:
  assumes "\<forall>l \<in> set els. 2 \<le> length (el_edges l) \<and> length tRead = length (el_edges l)"
  shows "\<exists>r g'. tryLists F lastSec tRead mw els (Some s) errs g = Some (r, g')
    \<and> (if filter (aligned F (rg_cfg g) tRead mw) els = [] then r = Inr s \<and> g' = g else (\<exists>e l. r = Inl e \<and> g' = align_state l g))"
  using assms
proof (induction els arbitrary: errs)
  case (Cons l els)
  then have l: "2 \<le> length (el_edges l)" "length tRead = length (el_edges l)" by simp_all
  note t = tryAlignment_cases [OF l, of F g mw lastSec]
  show ?case
  proof (cases "aligned F (rg_cfg g) tRead mw l")
    case True
    with t have "tryAlignment F l lastSec tRead mw g = Some (Inr (align_sample F lastSec l), align_state l g)" by simp
    with True show ?thesis by auto
  next
    case False
    with t obtain e where "tryAlignment F l lastSec tRead mw g = Some (Inl e, g)" by auto
    with Cons.IH [of "errs @ [e]"] Cons.prems False show ?thesis by simp
  qed
qed simp

definition only_aligned :: "'f float64 \<Rightarrow> int \<Rightarrow> int list \<Rightarrow> 'f \<Rightarrow> edge_list list \<Rightarrow> 'f reset_gen \<Rightarrow> 'f sync_sample \<Rightarrow> 'f reset_gen \<Rightarrow> bool" where
  "only_aligned F lastSec tRead mw els g s g' \<longleftrightarrow> (\<exists>l. filter (aligned F (rg_cfg g) tRead mw) els = [l]
     \<and> s = align_sample F lastSec l \<and> g' = with_width (el_pulseWidth l) (align_state l g))"

definition aligned_frame :: "'f reset_gen \<Rightarrow> 'f reset_gen \<Rightarrow> bool" where
  "aligned_frame g g' \<longleftrightarrow> rg_edgeBuf g' = rg_edgeBuf g \<and> rg_cfg g' = rg_cfg g \<and> rg_freq g' = rg_freq g \<and> rg_maxFreq g' = rg_maxFreq g
     \<and> pt_edgesPerPulse (rg_pt g') = pt_edgesPerPulse (rg_pt g)"

lemma frame_steps: "aligned_frame g g" "aligned_frame g (align_state l g)" "aligned_frame g (with_width w g)"
  "aligned_frame g h \<Longrightarrow> aligned_frame h k \<Longrightarrow> aligned_frame g k"
  by (simp_all add: aligned_frame_def align_state_def with_width_def)

lemma tryLists_ok:
  assumes "\<forall>l \<in> set els. 2 \<le> length (el_edges l) \<and> length tRead = length (el_edges l)" "els \<noteq> [] \<or> errs \<noteq> []"
  shows "\<exists>r g'. tryLists F lastSec tRead mw els None errs g = Some (r, g') \<and> aligned_frame g g'
    \<and> (\<forall>s. r = Inr s \<longrightarrow> only_aligned F lastSec tRead mw els g s g')"
  using assms
proof (induction els arbitrary: errs)
  case Nil
  then show ?case by (auto simp: frame_steps split: list.split)
next
  case (Cons l els)
  have l: "2 \<le> length (el_edges l)" "length tRead = length (el_edges l)"
    and rest: "\<forall>l \<in> set els. 2 \<le> length (el_edges l) \<and> length tRead = length (el_edges l)"
    using Cons.prems(1) by (meson list.set_intros)+
  note t = tryAlignment_cases [OF l, of F g mw lastSec]
  show ?case
  proof (cases "aligned F (rg_cfg g) tRead mw l")
    case True
    let ?g = "with_width (el_pulseWidth l) (align_state l g)"
    from True t have tr: "tryAlignment F l lastSec tRead mw g = Some (Inr (align_sample F lastSec l), align_state l g)" by simp
    from tryLists_found [OF rest, of F lastSec mw "align_sample F lastSec l" errs ?g] obtain r g' where
      r: "tryLists F lastSec tRead mw els (Some (align_sample F lastSec l)) errs ?g = Some (r, g')"
        "if filter (aligned F (rg_cfg ?g) tRead mw) els = [] then r = Inr (align_sample F lastSec l) \<and> g' = ?g
         else (\<exists>e l. r = Inl e \<and> g' = align_state l ?g)" by blast
    have "aligned_frame g g'" using r(2) by (auto simp: aligned_frame_def align_state_def with_width_def split: if_splits)
    then show ?thesis using True tr r by (auto simp: only_aligned_def with_width_def split: if_splits)
  next
    case False
    with t obtain e where "tryAlignment F l lastSec tRead mw g = Some (Inl e, g)" by auto
    with Cons.IH [OF rest, of "errs @ [e]"] False show ?thesis by (simp add: only_aligned_def)
  qed
qed

lemma length_differences: "length (differences ts) = length ts - 1"
  by (induction ts rule: differences.induct) simp_all

lemma checkIntervalsAdjustable_None: "checkIntervalsAdjustable F g is = None \<longleftrightarrow> (\<forall>i \<in> set is. adjustable F g i)"
  by (induction "is") auto

lemma checkPulseIntervals_cases:
  assumes "2 \<le> length (el_edges l)"
  shows "if intervals_ok F g l then checkPulseIntervals F g l = Some None else \<exists>e. checkPulseIntervals F g l = Some (Some e)"
proof -
  have t: "2 \<le> length (timestamps l)" using assms by (simp add: timestamps_def)
  then have "differences (timestamps l) \<noteq> []" using length_differences [of "timestamps l"] by (cases "differences (timestamps l)") auto
  then show ?thesis using assms t
    by (cases "checkIntervalsAdjustable F g (differences (timestamps l))")
      (auto simp: checkPulseIntervals_def pulseIntervals_def intervals_ok_def checkIntervalsConsistent_def Let_def
        checkIntervalsAdjustable_None [symmetric])
qed

lemma checkLists_cases:
  assumes "\<forall>l \<in> set els. 2 \<le> length (el_edges l)"
  shows "if \<forall>l \<in> set els. intervals_ok F g l then checkLists F g els = Some None else \<exists>e. checkLists F g els = Some (Some e)"
  using assms
proof (induction els)
  case (Cons l els)
  with checkPulseIntervals_cases [of l F g] show ?case by (auto split: if_splits)
qed simp

text \<open>Up to the pulse width.\<close>

definition same_edges :: "edge_list \<Rightarrow> edge_list \<Rightarrow> bool" where
  "same_edges a b \<longleftrightarrow> el_edges a = el_edges b \<and> el_lastEdgeIndex a = el_lastEdgeIndex b"

lemma filterEdgeLists_ok:
  assumes "\<forall>l \<in> set els. 2 \<le> length (el_edges l)" "els \<noteq> []"
  shows "\<exists>fs. filterEdgeLists F g els = Some fs \<and> fs \<noteq> [] \<and> (\<forall>f \<in> set fs. \<exists>l \<in> set els. same_edges f l)"
proof -
  consider (two) l0 l1 where "els = [l0, l1]" | (other) "filterEdgeLists F g els = Some els"
    by (cases els; cases "tl els"; cases "tl (tl els)") (auto simp: filterEdgeLists_def)
  then show ?thesis
  proof cases
    case two
    with assms have l: "2 \<le> length (el_edges l0)" "2 \<le> length (el_edges l1)" by simp_all
    from avgInterval_Some [OF l(1)] avgInterval_Some [OF l(2)] obtain a0 a1 where
      a: "avgInterval l0 = Some a0" "avgInterval l1 = Some a1" by blast
    have "min (length (el_edges l1)) (length (el_edges l0)) \<noteq> 0" using l by linarith
    then show ?thesis using a two
      by (auto simp: filterEdgeLists_def Let_def same_edges_def split: if_splits)
  next
    case other
    with assms show ?thesis by (auto simp: same_edges_def)
  qed
qed

section \<open>The generator is total and sound\<close>

lemma visit_collect: "visit (\<lambda>es _ e. (es @ [e], True)) i xs s = (s @ xs, True)"
  by (induction xs arbitrary: i s) simp_all

lemma pulseEdges_contents: "buf_ok (rg_edgeBuf g) \<Longrightarrow> el_edges (pulseEdges g) = rev (buf_contents (rg_edgeBuf g))"
  by (simp add: pulseEdges_def Let_def iterate_contents visit_collect)

lemma length_alternate: "length (alternate xs) = (length xs + 1) div 2"
  by (induction xs rule: alternate.induct) simp_all

lemma alternate_nth: "2 * i < length xs \<Longrightarrow> alternate xs ! i = xs ! (2 * i)"
  by (induction xs arbitrary: i rule: alternate.induct) (auto simp: nth_Cons split: nat.split)

lemma filter_cfg: "rg_cfg g = rg_cfg h \<Longrightarrow> filterEdgeLists F g = filterEdgeLists F h"
  by (rule ext) (simp only: filterEdgeLists_def)

definition reset_ok :: "'f reset_gen \<Rightarrow> bool" where
  "reset_ok g \<longleftrightarrow> buf_ok (rg_edgeBuf g) \<and> 2 \<le> rc_pulseWindow (rg_cfg g) \<and> rc_pulseWindow (rg_cfg g) < 2 ^ 31
     \<and> (pt_edgesPerPulse (rg_pt g) = 1 \<or> pt_edgesPerPulse (rg_pt g) = 2)
     \<and> bufCap (rg_edgeBuf g) = nat (rc_pulseWindow (rg_cfg g) * pt_edgesPerPulse (rg_pt g))"

text \<open>What the buffer of time messages promises: as many read times as messages were asked for.\<close>

definition env_ok :: "msg_env \<Rightarrow> bool" where
  "env_ok env \<longleftrightarrow> (\<forall>n. case me_post env n of (lastSec, tRead, _) \<Rightarrow> lastSec \<noteq> 0 \<longrightarrow> length tRead = nat n)"

definition reset_full :: "'f reset_gen \<Rightarrow> bool" where
  "reset_full g \<longleftrightarrow> bufLen (rg_edgeBuf g) = bufCap (rg_edgeBuf g)"

lemma pulseEdgeLists_length:
  assumes "reset_ok g" "reset_full g" "l \<in> set (pulseEdgeLists g)"
  shows "length (el_edges l) = nat (rc_pulseWindow (rg_cfg g))"
proof -
  have "length (el_edges (pulseEdges g)) = nat (rc_pulseWindow (rg_cfg g) * pt_edgesPerPulse (rg_pt g))"
    using assms(1,2) by (simp add: reset_ok_def reset_full_def pulseEdges_contents length_contents)
  then show ?thesis using assms(1,3)
    by (auto simp: pulseEdgeLists_def Let_def edge_split_def length_alternate reset_ok_def nat_mult_distrib split: if_splits)
qed

lemma frame_ok: "aligned_frame g g' \<Longrightarrow> reset_ok g \<Longrightarrow> reset_ok g'"
  by (auto simp: reset_ok_def aligned_frame_def)

definition sound_sample :: "'f float64 \<Rightarrow> int \<Rightarrow> int list \<Rightarrow> 'f reset_gen \<Rightarrow> 'f sync_sample \<Rightarrow> 'f reset_gen \<Rightarrow> bool" where
  "sound_sample F lastSec tRead g s g' \<longleftrightarrow>
     (\<forall>l \<in> set (pulseEdgeLists g). intervals_ok F g l)
     \<and> (\<exists>fs l. filterEdgeLists F g (pulseEdgeLists g) = Some fs \<and> (\<forall>f \<in> set fs. \<exists>l \<in> set (pulseEdgeLists g). same_edges f l)
          \<and> filter (aligned F (rg_cfg g) tRead (maxWindow_for F fs)) fs = [l]
          \<and> s = align_sample F lastSec l \<and> pt_pulseWidth (rg_pt g') = el_pulseWidth l
          \<and> Some (rg_avgInterval g') = avgInterval l)"

lemma genSampleForMessages_ok:
  assumes "reset_ok g" "reset_full g" "length tRead = nat (rc_pulseWindow (rg_cfg g))"
  shows "\<exists>r g'. genSampleForMessages F lastSec tRead g = Some (r, g') \<and> aligned_frame g g'
    \<and> (\<forall>s. r = Inr (Some s) \<longrightarrow> sound_sample F lastSec tRead g s g')"
proof -
  let ?g = "g \<lparr> rg_tReadLastMsg := last tRead \<rparr>"
  have ne: "tRead \<noteq> []" using assms by (auto simp: reset_ok_def)
  have els: "pulseEdgeLists ?g = pulseEdgeLists g" by (simp add: pulseEdgeLists_def pulseEdges_def)
  have len: "\<forall>l \<in> set (pulseEdgeLists g). 2 \<le> length (el_edges l) \<and> length tRead = length (el_edges l)"
    using pulseEdgeLists_length [OF assms(1,2)] assms(1,3) by (auto simp: reset_ok_def)
  have pne: "pulseEdgeLists g \<noteq> []" by (auto simp: pulseEdgeLists_def Let_def split: prod.split)
  have fr: "aligned_frame g ?g" "aligned_frame g (?g \<lparr> rg_pulseIntervalsBad := True \<rparr>)" by (simp_all add: aligned_frame_def)
  have iok: "intervals_ok F ?g l = intervals_ok F g l" for l
    by (simp add: intervals_ok_def adjustable_def neededFreq_def)
  show ?thesis
  proof (cases "last tRead = rg_tReadLastMsg g \<or> rg_pulseIntervalsBad g")
    case True
    with ne have "genSampleForMessages F lastSec tRead g = Some (Inr None, if last tRead = rg_tReadLastMsg g then g else ?g)"
      by (elim disjE) (simp_all add: genSampleForMessages_def Let_def)
    with fr(1) frame_steps(1) [of g] show ?thesis by (cases "last tRead = rg_tReadLastMsg g") simp_all
  next
    case False
    note c = checkLists_cases [of "pulseEdgeLists g" F ?g]
    show ?thesis
    proof (cases "\<forall>l \<in> set (pulseEdgeLists g). intervals_ok F g l")
      case bad: False
      with c len iok obtain e where "checkLists F ?g (pulseEdgeLists g) = Some (Some e)" by (metis)
      with False ne fr show ?thesis by (simp add: genSampleForMessages_def Let_def els)
    next
      case True
      with c len iok have ck: "checkLists F ?g (pulseEdgeLists g) = Some None" by metis
      from filterEdgeLists_ok [OF _ pne, of F ?g] len obtain fs where
        fs: "filterEdgeLists F ?g (pulseEdgeLists g) = Some fs" "fs \<noteq> []" "\<forall>f \<in> set fs. \<exists>l \<in> set (pulseEdgeLists g). same_edges f l"
        by blast
      have fg: "filterEdgeLists F g (pulseEdgeLists g) = Some fs" using fs(1) filter_cfg [of ?g g F] by simp
      have flen: "\<forall>l \<in> set fs. 2 \<le> length (el_edges l) \<and> length tRead = length (el_edges l)"
        using fs(3) len unfolding same_edges_def by metis
      from tryLists_ok [OF flen, of "[]" F lastSec "maxWindow_for F fs" ?g] fs(2) obtain r g' where
        r: "tryLists F lastSec tRead (maxWindow_for F fs) fs None [] ?g = Some (r, g')" "aligned_frame ?g g'"
          "\<forall>s. r = Inr s \<longrightarrow> only_aligned F lastSec tRead (maxWindow_for F fs) fs ?g s g'" by blast
      have "aligned_frame g g'" using frame_steps(4) [OF fr(1) r(2)] .
      moreover have "sound_sample F lastSec tRead g s g'" if "r = Inr s" for s
      proof -
        from r(3) that obtain l where l: "filter (aligned F (rg_cfg g) tRead (maxWindow_for F fs)) fs = [l]"
          "s = align_sample F lastSec l" "g' = with_width (el_pulseWidth l) (align_state l ?g)" by (auto simp: only_aligned_def)
        from arg_cong [OF l(1), of set] have "l \<in> set fs" by auto
        with flen avgInterval_Some obtain avg where "avgInterval l = Some avg" by blast
        with True fg fs(3) l(1-3) show ?thesis by (auto simp: sound_sample_def with_width_def align_state_def)
      qed
      ultimately show ?thesis using False ne ck fs(1) r(1)
        by (cases r) (auto simp: genSampleForMessages_def Let_def els)
    qed
  qed
qed

lemma genSample_ok:
  assumes "reset_ok g" "env_ok env"
  shows "\<exists>r g'. genSample F env g = Some (r, g') \<and> aligned_frame g g'
    \<and> (\<forall>s. r = Some s \<longrightarrow> reset_full g \<and> (case me_post env (rc_pulseWindow (rg_cfg g)) of (lastSec, tRead, leap) \<Rightarrow>
          lastSec \<noteq> 0 \<and> length tRead = nat (rc_pulseWindow (rg_cfg g)) \<and> sound_sample F lastSec tRead g s g'))"
proof -
  let ?w = "rc_pulseWindow (rg_cfg g)"
  obtain lastSec tRead leap where m: "me_post env ?w = (lastSec, tRead, leap)" by (cases "me_post env ?w")
  have cap: "i64 (?w * pt_edgesPerPulse (rg_pt g)) = int (bufCap (rg_edgeBuf g))"
    using assms(1) by (auto simp: reset_ok_def in_i64_def)
  have le: "bufLen (rg_edgeBuf g) \<le> bufCap (rg_edgeBuf g)"
    using contents_bufCap length_contents assms(1) by (metis reset_ok_def)
  show ?thesis
  proof (cases "bufLen (rg_edgeBuf g) < bufCap (rg_edgeBuf g) \<or> lastSec = 0")
    case True
    then show ?thesis by (auto simp: genSample_def Let_def cap m frame_steps)
  next
    case False
    with le have full: "reset_full g" and sec: "lastSec \<noteq> 0" by (simp_all add: reset_full_def)
    have len: "length tRead = nat ?w" using spec [OF assms(2) [unfolded env_ok_def], of ?w] m sec by simp
    from genSampleForMessages_ok [OF assms(1) full len, of F lastSec] obtain r g' where
      r: "genSampleForMessages F lastSec tRead g = Some (r, g')" "aligned_frame g g'"
        "\<forall>s. r = Inr (Some s) \<longrightarrow> sound_sample F lastSec tRead g s g'" by blast
    have gs: "genSample F env g = (case r of Inr (Some s) \<Rightarrow> Some (Some s, g' \<lparr> rg_detectLeap := leap \<rparr>) | _ \<Rightarrow> Some (None, g'))"
      using False r(1) by (simp add: genSample_def Let_def cap m split: sum.split option.split)
    show ?thesis
    proof (cases "\<exists>s. r = Inr (Some s)")
      case True
      then obtain s where s: "r = Inr (Some s)" by blast
      with r have "sound_sample F lastSec tRead g s (g' \<lparr> rg_detectLeap := leap \<rparr>)" "aligned_frame g (g' \<lparr> rg_detectLeap := leap \<rparr>)"
        by (simp_all add: sound_sample_def aligned_frame_def)
      with gs s full len sec m show ?thesis by simp
    next
      case False
      then have "genSample F env g = Some (None, g')" using gs by (auto split: sum.splits option.splits)
      with r(2) show ?thesis by simp
    qed
  qed
qed

lemma ex_two: "(\<exists>k < 2. P k) \<longleftrightarrow> P 0 \<or> P (1 :: nat)"
  by (auto simp: less_2_cases_iff)

text \<open>The lists of a split hold every second edge, and the index of the last edge of each is its own.\<close>

lemma edge_split_index:
  assumes "edge_split pel = (a, b)" "2 \<le> length (el_edges pel)" "l = a \<or> l = b"
  shows "\<exists>k < 2. last (el_edges l) = el_edges pel ! (length (el_edges pel) - 1 - k) \<and> el_lastEdgeIndex l = el_lastEdgeIndex pel - of_nat k"
proof -
  let ?es = "el_edges pel"
  have la: "last (alternate xs) = xs ! (2 * ((length xs + 1) div 2 - 1))" if "xs \<noteq> []" for xs :: "pulse_edge list"
  proof -
    have "alternate xs \<noteq> []" using that length_alternate [of xs] by (cases xs) auto
    then have "last (alternate xs) = alternate xs ! ((length xs + 1) div 2 - 1)" by (simp add: last_conv_nth length_alternate)
    also have "\<dots> = xs ! (2 * ((length xs + 1) div 2 - 1))" using that by (intro alternate_nth) (cases xs, auto)
    finally show ?thesis .
  qed
  have ne: "?es \<noteq> []" "tl ?es \<noteq> []" using assms(2) by (auto simp: neq_Nil_conv Suc_le_length_iff numeral_2_eq_2)
  show ?thesis
  proof (cases "even (length ?es)")
    case True
    then obtain m where m: "length ?es = 2 * m" by (rule evenE)
    with assms(2) obtain j where j: "m = Suc j" by (cases m) auto
    then have m1: "1 \<le> m" by simp
    have "last (alternate ?es) = ?es ! (2 * m - Suc (Suc 0))" unfolding la [OF ne(1)] m by (simp add: j)
    moreover have "last (alternate (tl ?es)) = ?es ! (2 * m - 1)" unfolding la [OF ne(2)] using m by (simp add: nth_tl j)
    ultimately show ?thesis using True assms m m1
      by (auto simp: edge_split_def Let_def ex_two)
  next
    case False
    then obtain m where m: "length ?es = 2 * m + 1" by (rule oddE)
    with assms(2) obtain j where j: "m = Suc j" by (cases m) auto
    then have m1: "1 \<le> m" by simp
    have "last (alternate ?es) = ?es ! (2 * m)" unfolding la [OF ne(1)] m by simp
    moreover have "last (alternate (tl ?es)) = ?es ! (2 * m - 1)" unfolding la [OF ne(2)] using m by (simp add: nth_tl j)
    ultimately show ?thesis using False assms m m1
      by (auto simp: edge_split_def Let_def ex_two)
  qed
qed

text \<open>The last edge of each list is one of the last two edges taken in, and the list knows its index.\<close>

lemma list_last_edge:
  assumes "reset_ok g" "reset_full g" "l \<in> set (pulseEdgeLists g)"
  shows "\<exists>k < 2. last (el_edges l) = buf_contents (rg_edgeBuf g) ! k \<and> el_lastEdgeIndex l = rg_lastEdgeIndex g - of_nat k"
proof -
  let ?c = "buf_contents (rg_edgeBuf g)" and ?pe = "pulseEdges g"
  have ok: "buf_ok (rg_edgeBuf g)" using assms(1) by (simp add: reset_ok_def)
  have es: "el_edges ?pe = rev ?c" by (rule pulseEdges_contents [OF ok])
  have i: "el_lastEdgeIndex ?pe = rg_lastEdgeIndex g" by (simp add: pulseEdges_def Let_def)
  have len: "2 \<le> length ?c" using assms(1,2) length_contents [OF ok]
    by (auto simp: reset_ok_def reset_full_def nat_mult_distrib)
  have nth: "rev ?c ! (length ?c - 1 - k) = ?c ! k" if "k < 2" for k
    using that len by (simp add: rev_nth)
  show ?thesis
  proof (cases "pt_edgesPerPulse (rg_pt g) = 2")
    case True
    obtain a b where s: "edge_split ?pe = (a, b)" by (cases "edge_split ?pe")
    with True assms(3) have "l = a \<or> l = b" by (simp add: pulseEdgeLists_def Let_def)
    with edge_split_index [OF s, of l] len es obtain k where
      k: "k < 2" "last (el_edges l) = rev ?c ! (length ?c - 1 - k)" "el_lastEdgeIndex l = el_lastEdgeIndex ?pe - of_nat k" by auto
    show ?thesis using k nth [OF k(1)] i by (intro exI [of _ k]) simp
  next
    case False
    with assms(3) have "l = ?pe" by (simp add: pulseEdgeLists_def Let_def)
    moreover have "last (rev ?c) = ?c ! 0" using len by (cases ?c) auto
    ultimately show ?thesis using es i by (intro exI [of _ 0]) simp
  qed
qed

section \<open>Histories\<close>

text \<open>What an alignment does to the index of the last edge: it stays, or becomes that of the list aligned last.\<close>

lemma tryAlignment_index:
  "tryAlignment F l lastSec tRead mw g = Some (Inl e, g') \<Longrightarrow> g' = g"
  "tryAlignment F l lastSec tRead mw g = Some (Inr s, g') \<Longrightarrow> rg_lastEdgeIndex g' = el_lastEdgeIndex l"
  by (auto simp: tryAlignment_def Let_def bind_eq_Some_conv split: option.splits)

lemma tryLists_second:
  "tryLists F lastSec tRead mw els (Some s) errs g = Some (Inl e, g') \<Longrightarrow> \<exists>l \<in> set els. rg_lastEdgeIndex g' = el_lastEdgeIndex l"
proof (induction els arbitrary: errs g)
  case (Cons l els)
  from Cons.prems obtain r g1 where t: "tryAlignment F l lastSec tRead mw g = Some (r, g1)" by (auto simp: bind_eq_Some_conv)
  show ?case
  proof (cases r)
    case (Inl e')
    with t Cons.prems have "tryLists F lastSec tRead mw els (Some s) (errs @ [e']) g1 = Some (Inl e, g')" by simp
    from Cons.IH [OF this] show ?thesis by simp
  next
    case (Inr s')
    with t Cons.prems have "g' = g1" by simp
    with Inr t tryAlignment_index(2) show ?thesis by auto
  qed
qed simp

lemma tryLists_error:
  "tryLists F lastSec tRead mw els None errs g = Some (Inl e, g') \<Longrightarrow>
    rg_lastEdgeIndex g' = rg_lastEdgeIndex g \<or> (\<exists>l \<in> set (tl els). rg_lastEdgeIndex g' = el_lastEdgeIndex l)"
proof (induction els arbitrary: errs g)
  case Nil
  then show ?case by (auto split: list.splits)
next
  case (Cons l els)
  from Cons.prems obtain r g1 where t: "tryAlignment F l lastSec tRead mw g = Some (r, g1)" by (auto simp: bind_eq_Some_conv)
  show ?case
  proof (cases r)
    case (Inl e')
    from tryAlignment_index(1) [OF t [unfolded Inl]] have "g1 = g" .
    with t Inl Cons.prems have "tryLists F lastSec tRead mw els None (errs @ [e']) g = Some (Inl e, g')" by simp
    from Cons.IH [OF this] have "rg_lastEdgeIndex g' = rg_lastEdgeIndex g \<or> (\<exists>l \<in> set els. rg_lastEdgeIndex g' = el_lastEdgeIndex l)"
      using list.set_sel(2) by (metis list.sel(2))
    then show ?thesis by simp
  next
    case (Inr s)
    with t Cons.prems have "tryLists F lastSec tRead mw els (Some s) errs (g1 \<lparr> rg_pt := (rg_pt g1) \<lparr> pt_pulseWidth := el_pulseWidth l \<rparr> \<rparr>) = Some (Inl e, g')"
      by simp
    from tryLists_second [OF this] show ?thesis by simp
  qed
qed

text \<open>The second list, when there is one, ends with the last edge, as the buffer is full of pairs.\<close>

lemma second_list_index:
  assumes "reset_ok g" "reset_full g" "filterEdgeLists F g (pulseEdgeLists g) = Some fs" "l \<in> set (tl fs)"
  shows "el_lastEdgeIndex l = rg_lastEdgeIndex g"
proof -
  have len: "length (el_edges (pulseEdges g)) = nat (rc_pulseWindow (rg_cfg g) * pt_edgesPerPulse (rg_pt g))"
    using assms(1,2) by (simp add: reset_ok_def reset_full_def pulseEdges_contents length_contents)
  have i: "el_lastEdgeIndex (pulseEdges g) = rg_lastEdgeIndex g" by (simp add: pulseEdges_def Let_def)
  show ?thesis
  proof (cases "pt_edgesPerPulse (rg_pt g) = 2")
    case True
    with len assms(1) have "even (length (el_edges (pulseEdges g)))" by (simp add: reset_ok_def nat_mult_distrib)
    with True obtain a b where els: "pulseEdgeLists g = [a, b]" "el_lastEdgeIndex b = rg_lastEdgeIndex g"
      by (auto simp: pulseEdgeLists_def edge_split_def i Let_def)
    with assms(3,4) show ?thesis
      by (auto simp: filterEdgeLists_def Let_def bind_eq_Some_conv split: if_splits)
  next
    case False
    then have "pulseEdgeLists g = [pulseEdges g]" by (simp add: pulseEdgeLists_def Let_def)
    then have "filterEdgeLists F g (pulseEdgeLists g) = Some [pulseEdges g]" by (simp add: filterEdgeLists_def)
    with assms(3,4) show ?thesis by auto
  qed
qed

lemma no_sample_index:
  assumes "reset_ok g" "reset_full g" "genSampleForMessages F lastSec tRead g = Some (r, g')" "\<forall>s. r \<noteq> Inr (Some s)"
  shows "rg_lastEdgeIndex g' = rg_lastEdgeIndex g"
proof -
  let ?g = "g \<lparr> rg_tReadLastMsg := last tRead \<rparr>"
  have els: "pulseEdgeLists ?g = pulseEdgeLists g" by (simp add: pulseEdgeLists_def pulseEdges_def)
  have fl: "filterEdgeLists F ?g = filterEdgeLists F g" by (rule filter_cfg) simp
  have "rg_lastEdgeIndex g' = rg_lastEdgeIndex g"
    if f: "filterEdgeLists F g (pulseEdgeLists g) = Some fs" and t: "tryLists F lastSec tRead mw fs None [] ?g = Some (Inl e, g')" for fs mw e
    using tryLists_error [OF t] second_list_index [OF assms(1,2) f] by auto
  note tries = this
  show ?thesis
  proof (cases "last tRead = rg_tReadLastMsg g \<or> rg_pulseIntervalsBad g \<or> tRead = []")
    case True
    then show ?thesis using assms(3) by (auto simp: genSampleForMessages_def Let_def split: if_splits)
  next
    case False
    with assms(3) obtain err where c: "checkLists F ?g (pulseEdgeLists g) = Some err"
      by (auto simp: genSampleForMessages_def Let_def els bind_eq_Some_conv)
    show ?thesis
    proof (cases err)
      case (Some e)
      then show ?thesis using False assms(3) c by (simp add: genSampleForMessages_def Let_def els) auto
    next
      case None
      with False assms(3) c obtain fs r1 g1 where f: "filterEdgeLists F g (pulseEdgeLists g) = Some fs"
        "tryLists F lastSec tRead (maxWindow_for F fs) fs None [] ?g = Some (r1, g1)"
        "(case r1 of Inl e \<Rightarrow> Some (Inl e, g1) | Inr s \<Rightarrow> Some (Inr (Some s), g1)) = Some (r, g')"
        by (auto simp: genSampleForMessages_def Let_def els fl bind_eq_Some_conv)
      from f(3) assms(4) obtain e where "r1 = Inl e" "g1 = g'" by (cases r1) auto
      with f(2) tries [OF f(1)] show ?thesis by simp
    qed
  qed
qed

lemma genSample_index:
  assumes "reset_ok g" "genSample F env g = Some (None, g')"
  shows "rg_lastEdgeIndex g' = rg_lastEdgeIndex g"
proof -
  obtain lastSec tRead leap where m: "me_post env (rc_pulseWindow (rg_cfg g)) = (lastSec, tRead, leap)" by (metis prod_cases3)
  have cap: "i64 (rc_pulseWindow (rg_cfg g) * pt_edgesPerPulse (rg_pt g)) = int (bufCap (rg_edgeBuf g))"
    using assms(1) by (auto simp: reset_ok_def in_i64_def)
  have le: "bufLen (rg_edgeBuf g) \<le> bufCap (rg_edgeBuf g)"
    using contents_bufCap length_contents assms(1) by (metis reset_ok_def)
  show ?thesis
  proof (cases "bufLen (rg_edgeBuf g) < bufCap (rg_edgeBuf g) \<or> lastSec = 0")
    case True
    then show ?thesis using assms(2) by (auto simp: genSample_def Let_def cap m split: if_splits)
  next
    case False
    with le have full: "reset_full g" by (simp add: reset_full_def)
    from False assms(2) obtain r g1 where r: "genSampleForMessages F lastSec tRead g = Some (r, g1)"
      "(case r of Inl e \<Rightarrow> Some (None, g1) | Inr None \<Rightarrow> Some (None, g1)
        | Inr (Some s) \<Rightarrow> Some (Some s, g1 \<lparr> rg_detectLeap := leap \<rparr>)) = Some (None, g')"
      by (simp add: genSample_def Let_def cap m bind_eq_Some_conv) blast
    from r(2) have g': "g' = g1" "\<forall>s. r \<noteq> Inr (Some s)" by (auto split: sum.splits option.splits)
    show ?thesis using no_sample_index [OF assms(1) full r(1) g'(2)] g'(1) by simp
  qed
qed

text \<open>
  The life of a generator: made by \<^verbatim>\<open>newResetSampleGenerator\<close>, it is given edges, each with the next index, and tries
  to generate a sample after an edge or a message. An edge of an uncertain era is counted but not stored. With each state come
  the index of the last edge, the edges that were stored with their indices, the most recent first, and whether no sample has
  come out since the last one.
\<close>

inductive reset_history :: "'f float64 \<Rightarrow> 'f ResetConfig \<Rightarrow> 'f reset_gen \<Rightarrow> u64 \<Rightarrow> (pulse_edge \<times> u64) list \<Rightarrow> bool \<Rightarrow> bool"
  for F cfg where
  made: "newResetGen cfg edgesPerPulse freq maxFreq = Some g \<Longrightarrow> edgesPerPulse = 1 \<or> edgesPerPulse = 2 \<Longrightarrow>
    2 \<le> rc_pulseWindow cfg \<Longrightarrow> rc_pulseWindow cfg < 2 ^ 31 \<Longrightarrow> reset_history F cfg g n [] True"
| stored: "reset_history F cfg g n hist fresh \<Longrightarrow> storeEdge e (n + 1) g = Some g' \<Longrightarrow>
    reset_history F cfg g' (n + 1) ((e, n + 1) # hist) True"
| skipped: "reset_history F cfg g n hist fresh \<Longrightarrow> era_uncertain (ph_era (pe_timestamp (e :: pulse_edge))) \<Longrightarrow> reset_history F cfg g (n + 1) hist fresh"
| tried: "reset_history F cfg g n hist fresh \<Longrightarrow> env_ok env \<Longrightarrow> genSample F env g = Some (r, g') \<Longrightarrow>
    reset_history F cfg g' n hist (fresh \<and> r = None)"

lemma history_edge:
  assumes "reset_history F cfg g n hist fresh" "env_ok env" "reset_pulseEdgeSample F env e (n + 1) g = Some (r, g')"
  shows "\<exists>hist' fresh'. reset_history F cfg g' (n + 1) hist' fresh'"
  using assms(3) reset_history.skipped [OF assms(1), of e] reset_history.tried [OF reset_history.stored [OF assms(1)] assms(2)]
  by (fastforce simp: reset_pulseEdgeSample_def bind_eq_Some_conv split: if_splits)

lemma history_message:
  assumes "reset_history F cfg g n hist fresh" "env_ok env" "reset_timeMessageSample F env g = Some (r, g')"
  shows "reset_history F cfg g' n hist (fresh \<and> r = None)"
  using assms(3) reset_history.tried [OF assms(1,2)] by (simp add: reset_timeMessageSample_def)

definition history_inv :: "'f ResetConfig \<Rightarrow> 'f reset_gen \<Rightarrow> (pulse_edge \<times> u64) list \<Rightarrow> bool \<Rightarrow> bool" where
  "history_inv cfg g hist fresh \<longleftrightarrow> reset_ok g \<and> rg_cfg g = cfg \<and> (\<exists>m. buf_contents (rg_edgeBuf g) = take m (map fst hist))
     \<and> (fresh \<and> hist \<noteq> [] \<longrightarrow> rg_lastEdgeIndex g = snd (hist ! 0))"

lemma storeEdge_contents:
  assumes "reset_ok g" "storeEdge e i g = Some g'"
  shows "reset_ok g'" "rg_cfg g' = rg_cfg g" "rg_lastEdgeIndex g' = i"
    "buf_contents (rg_edgeBuf g') = [e] \<or>
     buf_contents (rg_edgeBuf g') = take (bufCap (rg_edgeBuf g)) (e # buf_contents (rg_edgeBuf g))"
proof -
  define b where "b = (if pulseEdgeMissing e g then bufClear (rg_edgeBuf g) else rg_edgeBuf g)"
  have b: "buf_ok b" "bufCap b = bufCap (rg_edgeBuf g)" "buf_contents b = [] \<or> b = rg_edgeBuf g"
    using assms(1) by (auto simp: b_def reset_ok_def buf_ok_def bufClear_def bufCap_def buf_contents_def)
  from bufAppend_spec [OF b(1), of e] obtain b' where b': "bufAppend e b = Some b'" "buf_ok b'" "bufCap b' = bufCap b"
    "buf_contents b' = take (bufCap b) (e # buf_contents b)" by blast
  have g': "g' = g \<lparr> rg_edgeBuf := b', rg_lastEdgeIndex := i, rg_tReadLastMsg := zeroTime, rg_pulseIntervalsBad := False \<rparr>"
    using assms(2) b'(1) by (simp add: storeEdge_def Let_def b_def [symmetric])
  show "rg_cfg g' = rg_cfg g" "rg_lastEdgeIndex g' = i" by (simp_all add: g')
  show "reset_ok g'" using assms(1) b b' by (simp add: g' reset_ok_def)
  have "0 < bufCap b" using assms(1) b(2) by (auto simp: reset_ok_def)
  then show "buf_contents (rg_edgeBuf g') = [e] \<or>
     buf_contents (rg_edgeBuf g') = take (bufCap (rg_edgeBuf g)) (e # buf_contents (rg_edgeBuf g))"
    using b b'(4) by (cases "bufCap b") (auto simp: g')
qed

lemma reset_history_inv: "reset_history F cfg g n hist fresh \<Longrightarrow> history_inv cfg g hist fresh"
proof (induction rule: reset_history.induct)
  case (made epp freq maxFreq g n)
  from made(2-4) have e: "i64 (rc_pulseWindow cfg * epp) = rc_pulseWindow cfg * epp"
    by (intro i64_id) (auto simp: in_i64_def)
  moreover have "0 < rc_pulseWindow cfg * epp" using made(2,3) by auto
  ultimately obtain b where "newBuffer zeroEdge (i64 (rc_pulseWindow cfg * epp)) = Some b" "buf_ok b"
    "bufCap b = nat (rc_pulseWindow cfg * epp)" "buf_contents b = []" using newBuffer_spec by metis
  then show ?case using made by (auto simp: newResetGen_def history_inv_def reset_ok_def)
next
  case (stored g n hist fresh e g')
  then have ok: "reset_ok g" "rg_cfg g = cfg" by (simp_all add: history_inv_def)
  from stored.IH obtain m where m: "buf_contents (rg_edgeBuf g) = take m (map fst hist)" by (auto simp: history_inv_def)
  note c = storeEdge_contents [OF ok(1) stored.hyps(2)]
  have "take k (e # take m (map fst hist)) = take (min k (Suc m)) (map fst ((e, n + 1) # hist))" for k
    by (cases k) (simp_all add: min_def)
  moreover have "[e] = take 1 (map fst ((e, n + 1) # hist))" by simp
  ultimately have "\<exists>m. buf_contents (rg_edgeBuf g') = take m (map fst ((e, n + 1) # hist))" using c(4) unfolding m by metis
  then show ?case using c(1-3) ok(2) by (simp add: history_inv_def)
next
  case (skipped g n hist fresh e)
  then show ?case by simp
next
  case (tried g n hist fresh env r g')
  then have ok: "reset_ok g" by (simp add: history_inv_def)
  from genSample_ok [OF ok tried.hyps(2), of F] tried.hyps(3) have fr: "aligned_frame g g'" by auto
  have "rg_lastEdgeIndex g' = rg_lastEdgeIndex g" if "r = None" using genSample_index [OF ok] tried.hyps(3) that by simp
  with fr frame_ok [OF fr ok] tried.IH show ?case by (auto simp: history_inv_def aligned_frame_def)
qed

text \<open>C17: A sample of the reset mode is never a guess. At any point of the life of a generator, and with a message buffer
  that gives as many messages as it is asked for, generating a sample returns and keeps the state
  well-formed. A sample comes out only if the edge buffer is full, every interval of every candidate
  list of edges can be adjusted for and varies within the limit, and exactly one of the lists left by the
  width filter is aligned with the messages. Its reference is the second of the last message, and its
  offset and era are those of one of the last two edges that were stored. Its edge index is the index with which this edge
  came, if it is the first sample since the last edge and no edge was skipped between the two.\<close>
theorem reset_sample:
  assumes "reset_history F cfg g n hist fresh" "env_ok env"
  shows "\<exists>r g'. genSample F env g = Some (r, g') \<and> reset_ok g'
    \<and> (\<forall>s. r = Some s \<longrightarrow> (case me_post env (rc_pulseWindow cfg) of (lastSec, tRead, leap) \<Rightarrow>
        lastSec \<noteq> 0 \<and> smp_ref s = lastSec \<and> bufLen (rg_edgeBuf g) = bufCap (rg_edgeBuf g)
        \<and> (\<forall>l \<in> set (pulseEdgeLists g). intervals_ok F g l)
        \<and> (\<exists>fs l. filterEdgeLists F g (pulseEdgeLists g) = Some fs \<and> filter (aligned F cfg tRead (maxWindow_for F fs)) fs = [l])
        \<and> (\<exists>k < 2. k < length hist \<and> (let (edge, i) = hist ! k; ts = pe_timestamp edge
             in smp_offset s = i64 (ph_t ts - lastSec) \<and> smp_era s = ph_era ts
              \<and> (fresh \<and> snd (hist ! 0) - i = of_nat k \<longrightarrow> smp_edgeIndex s = i)))))"
proof -
  from reset_history_inv [OF assms(1)] have ok: "reset_ok g" and cfg: "rg_cfg g = cfg"
    and last: "fresh \<Longrightarrow> hist \<noteq> [] \<Longrightarrow> rg_lastEdgeIndex g = snd (hist ! 0)"
    and "\<exists>m. buf_contents (rg_edgeBuf g) = take m (map fst hist)" by (auto simp: history_inv_def)
  then obtain m where m: "buf_contents (rg_edgeBuf g) = take m (map fst hist)" by blast
  from genSample_ok [OF ok assms(2), of F] obtain r g' where g: "genSample F env g = Some (r, g')" "aligned_frame g g'"
    and s: "\<forall>s. r = Some s \<longrightarrow> reset_full g \<and> (case me_post env (rc_pulseWindow (rg_cfg g)) of (lastSec, tRead, leap) \<Rightarrow>
        lastSec \<noteq> 0 \<and> length tRead = nat (rc_pulseWindow (rg_cfg g)) \<and> sound_sample F lastSec tRead g s g')" by (elim exE conjE)
  obtain lastSec tRead leap where me: "me_post env (rc_pulseWindow cfg) = (lastSec, tRead, leap)" by (metis prod_cases3)
  have "lastSec \<noteq> 0 \<and> smp_ref s = lastSec \<and> bufLen (rg_edgeBuf g) = bufCap (rg_edgeBuf g)
        \<and> (\<forall>l \<in> set (pulseEdgeLists g). intervals_ok F g l)
        \<and> (\<exists>fs l. filterEdgeLists F g (pulseEdgeLists g) = Some fs \<and> filter (aligned F cfg tRead (maxWindow_for F fs)) fs = [l])
        \<and> (\<exists>k < 2. k < length hist \<and> (let (edge, i) = hist ! k; ts = pe_timestamp edge
             in smp_offset s = i64 (ph_t ts - lastSec) \<and> smp_era s = ph_era ts
              \<and> (fresh \<and> snd (hist ! 0) - i = of_nat k \<longrightarrow> smp_edgeIndex s = i)))"
    if r: "r = Some s" for s
  proof -
    from s r me cfg have f: "reset_full g" "lastSec \<noteq> 0" "sound_sample F lastSec tRead g s g'" by simp_all
    from f(3) cfg obtain fs l where l: "filterEdgeLists F g (pulseEdgeLists g) = Some fs"
      "\<forall>f \<in> set fs. \<exists>l \<in> set (pulseEdgeLists g). same_edges f l"
      "filter (aligned F cfg tRead (maxWindow_for F fs)) fs = [l]" "s = align_sample F lastSec l"
      by (auto simp: sound_sample_def)
    from arg_cong [OF l(3), of set] have "l \<in> set fs" by auto
    with l(2) obtain l' where l': "l' \<in> set (pulseEdgeLists g)" "same_edges l l'" by blast
    from list_last_edge [OF ok f(1) l'(1)] l'(2) obtain k where k: "k < 2"
      "last (el_edges l) = buf_contents (rg_edgeBuf g) ! k" "el_lastEdgeIndex l = rg_lastEdgeIndex g - of_nat k"
      by (auto simp: same_edges_def)
    have "2 \<le> length (buf_contents (rg_edgeBuf g))" using ok f(1)
      by (auto simp: reset_ok_def reset_full_def length_contents nat_mult_distrib)
    then have len: "k < m" "k < length hist" using k(1) unfolding m by auto
    then have edge: "last (el_edges l) = fst (hist ! k)" using k(2) unfolding m by simp
    have smp: "smp_ref s = lastSec" "smp_edgeIndex s = el_lastEdgeIndex l"
      "smp_offset s = i64 (ph_t (pe_timestamp (last (el_edges l))) - lastSec)" "smp_era s = ph_era (pe_timestamp (last (el_edges l)))"
      by (simp_all add: l(4) align_sample_def okSample_def Let_def)
    have index: "smp_edgeIndex s = snd (hist ! k)" if "fresh" "snd (hist ! 0) - snd (hist ! k) = of_nat k"
    proof -
      have "smp_edgeIndex s = snd (hist ! 0) - of_nat k" using last [OF that(1)] len(2) k(3) smp(2) by fastforce
      then show ?thesis using that(2) by (simp add: algebra_simps)
    qed
    have "\<exists>k < 2. k < length hist \<and> (let (edge, i) = hist ! k; ts = pe_timestamp edge
             in smp_offset s = i64 (ph_t ts - lastSec) \<and> smp_era s = ph_era ts
              \<and> (fresh \<and> snd (hist ! 0) - i = of_nat k \<longrightarrow> smp_edgeIndex s = i))"
      using k(1) len(2) smp(3,4) edge index by (intro exI [of _ k]) (simp add: case_prod_beta)
    then show ?thesis using f l(1,3) smp(1) unfolding sound_sample_def reset_full_def by auto
  qed
  with g(1) frame_ok [OF g(2) ok] me show ?thesis by auto
qed

definition reset_cfg :: "int ResetConfig" where
  "reset_cfg = \<lparr> rc_pulseWindow = 3, rc_stepThreshold = 1000, rc_pulseVariation = 10, rc_expectedDelay = 0,
     rc_delayConfidenceWindow = 1, rc_delayVariation = 1, rc_pulseWidthDetectLimit = 0, rc_driftRateLimit = 1000 \<rparr>"

text \<open>An edge at second \<open>k\<close> of the system clock, \<open>off\<close> nanoseconds late on the clock, in era \<open>e\<close>.\<close>

definition example_edge :: "int \<Rightarrow> int \<Rightarrow> u64 \<Rightarrow> pulse_edge" where
  "example_edge k off e = \<lparr> pe_timestamp = \<lparr> ph_t = k * 1000000000 + off, ph_era = e \<rparr>,
     pe_tRead = \<lparr> ps_phc = \<lparr> ph_t = k * 1000000000 + off + 1000, ph_era = e \<rparr>, ps_sys = k * 1000000000 + 1000 \<rparr> \<rparr>"

definition example_msgs :: msg_env where
  "example_msgs = \<lparr> me_post = (\<lambda>n. if n = 3 then (103 * 1000000000,
         [101 * 1000000000 + 2000, 102 * 1000000000 + 2000, 103 * 1000000000 + 2000], False) else (0, [], False)),
     me_correction = (\<lambda>_. None), me_wait = (\<lambda>_. False), me_detectLeap = (\<lambda>_. False) \<rparr>"

definition example_gen :: "int reset_gen" where
  "example_gen = the (Option.bind (newResetGen reset_cfg 1 0 1000000) (\<lambda>g. Option.bind (storeEdge (example_edge 101 5000 1) 7 g)
     (\<lambda>g. Option.bind (storeEdge (example_edge 102 5000 1) 8 g) (storeEdge (example_edge 103 5000 1) 9))))"

lemma example_env_ok: "env_ok example_msgs"
  by (auto simp: env_ok_def example_msgs_def)

lemma example_history:
  "\<exists>g. reset_history int_float reset_cfg g 9 [(example_edge 103 5000 1, 9), (example_edge 102 5000 1, 8), (example_edge 101 5000 1, 7)] True
    \<and> g = example_gen"
proof -
  obtain g0 g1 g2 g3 where g: "newResetGen reset_cfg 1 0 1000000 = Some g0" "storeEdge (example_edge 101 5000 1) 7 g0 = Some g1"
    "storeEdge (example_edge 102 5000 1) 8 g1 = Some g2" "storeEdge (example_edge 103 5000 1) 9 g2 = Some g3"
  proof -
    have "Option.bind (newResetGen reset_cfg 1 0 1000000) (\<lambda>g. Option.bind (storeEdge (example_edge 101 5000 1) 7 g)
      (\<lambda>g. Option.bind (storeEdge (example_edge 102 5000 1) 8 g) (storeEdge (example_edge 103 5000 1) 9))) \<noteq> None" by code_simp
    then show thesis using that by (auto simp: bind_eq_None_conv)
  qed
  have h0: "reset_history int_float reset_cfg g0 6 [] True"
    by (rule reset_history.made [OF g(1)]) (simp_all add: reset_cfg_def)
  have h1: "reset_history int_float reset_cfg g1 7 [(example_edge 101 5000 1, 7)] True"
    using reset_history.stored [OF h0, of _ g1] g(2) by simp
  have h2: "reset_history int_float reset_cfg g2 8 [(example_edge 102 5000 1, 8), (example_edge 101 5000 1, 7)] True"
    using reset_history.stored [OF h1, of _ g2] g(3) by simp
  have h3: "reset_history int_float reset_cfg g3 9 [(example_edge 103 5000 1, 9), (example_edge 102 5000 1, 8), (example_edge 101 5000 1, 7)] True"
    using reset_history.stored [OF h2, of _ g3] g(4) by simp
  moreover have "g3 = example_gen" using g by (simp add: example_gen_def)
  ultimately show ?thesis by blast
qed

theorem reset_sample_witness:
  "\<exists>s g'. genSample int_float example_msgs example_gen = Some (Some s, g') \<and> reset_ok g'
    \<and> smp_ref s = 103 * 1000000000 \<and> smp_offset s = 5000 \<and> smp_edgeIndex s = 9"
proof -
  have w: "me_post example_msgs (rc_pulseWindow reset_cfg) = (103 * 1000000000,
    [101 * 1000000000 + 2000, 102 * 1000000000 + 2000, 103 * 1000000000 + 2000], False)" by code_simp
  have s: "map_option smp_offset (fst (the (genSample int_float example_msgs example_gen))) = Some 5000" by code_simp
  from example_history have h: "reset_history int_float reset_cfg example_gen 9
    [(example_edge 103 5000 1, 9), (example_edge 102 5000 1, 8), (example_edge 101 5000 1, 7)] True" by blast
  let ?h = "[(example_edge 103 5000 1, 9 :: u64), (example_edge 102 5000 1, 8), (example_edge 101 5000 1, 7)]"
  from reset_sample [OF h example_env_ok] obtain r g' where
    g: "genSample int_float example_msgs example_gen = Some (r, g')" "reset_ok g'"
    and all: "\<And>s. r = Some s \<Longrightarrow> smp_ref s = 103 * 1000000000 \<and> (\<exists>k < 2. let (edge, i) = ?h ! k; ts = pe_timestamp edge
      in smp_offset s = i64 (ph_t ts - 103 * 1000000000) \<and> smp_era s = ph_era ts
        \<and> (True \<and> snd (?h ! 0) - i = of_nat k \<longrightarrow> smp_edgeIndex s = i))"
    unfolding w prod.case by blast
  from s g(1) obtain smp where smp: "r = Some smp" "smp_offset smp = 5000" by auto
  from all [OF smp(1)] obtain k where k: "k < 2" "smp_ref smp = 103 * 1000000000"
    "let (edge, i) = ?h ! k; ts = pe_timestamp edge
      in smp_offset smp = i64 (ph_t ts - 103 * 1000000000) \<and> smp_era smp = ph_era ts
        \<and> (True \<and> snd (?h ! 0) - i = of_nat k \<longrightarrow> smp_edgeIndex smp = i)" by blast
  have "k = 0"
  proof (rule ccontr)
    assume "k \<noteq> 0"
    with k(1) have "k = 1" by simp
    then have "smp_offset smp = i64 (ph_t (pe_timestamp (example_edge 102 5000 1)) - 103 * 1000000000)"
      using k(3) by (simp add: Let_def)
    moreover have "i64 (ph_t (pe_timestamp (example_edge 102 5000 1)) - 103 * 1000000000) = - 999995000" by code_simp
    ultimately show False using smp(2) by simp
  qed
  then have "smp_edgeIndex smp = 9" using k(3) by (simp add: Let_def)
  then show ?thesis using g k(2) smp by simp
qed

text \<open>
  Why only the first sample: \<^verbatim>\<open>tryAlignment\<close> leaves the index of the list it aligned as that of the last edge. With two edges
  per pulse and the list of the first ones aligned, a second sample without a new edge, from other messages of the same
  second, has the same offset and an index that is one too low.
\<close>

definition pair_gen :: "int reset_gen" where
  "pair_gen = the (Option.bind (newResetGen (reset_cfg \<lparr> rc_pulseWindow := 2, rc_pulseWidthDetectLimit := 1 \<rparr>) 2 0 1000000)
     (\<lambda>g. Option.bind (storeEdge (example_edge 101 0 1) 1 g) (\<lambda>g. Option.bind (storeEdge (example_edge 101 100000000 1) 2 g)
     (\<lambda>g. Option.bind (storeEdge (example_edge 102 0 1) 3 g) (storeEdge (example_edge 102 100000000 1) 4)))))"

definition pair_msgs :: "int \<Rightarrow> msg_env" where
  "pair_msgs d = example_msgs \<lparr> me_post := (\<lambda>n. (102 * 1000000000, [101 * 1000000000 + d, 102 * 1000000000 + d], False)) \<rparr>"

lemma reset_second_sample:
  "(case genSample int_float (pair_msgs 2000) pair_gen of Some (Some s, g) \<Rightarrow>
      (case genSample int_float (pair_msgs 3000) g of Some (Some t, g') \<Rightarrow>
        (smp_edgeIndex s, smp_offset s, smp_edgeIndex t, smp_offset t) | _ \<Rightarrow> (0, 0, 0, 0)) | _ \<Rightarrow> (0, 0, 0, 0)) = (3, 0, 2, 0)"
  by code_simp

end
