(* ===== verification/TimeMsgs.thy ===== *)
theory TimeMsgs
  imports PTime ResetMode
begin

text \<open>
  The buffer of time messages behind the controller's interface \<^verbatim>\<open>TimeMsgBuffer\<close>:
  \<^verbatim>\<open>time/internal/timemsg/timemsg.go\<close>. The level of what was found is only logged and left out, as are the
  warnings. A panic is \<open>None\<close>.
\<close>

section \<open>State\<close>

datatype TimeRef = NavSolution | PrePulse | PostPulse

record 'f time_msg =
  tm_TAITime :: int
  tm_UTCTime :: "UTCTime option"
  tm_Accuracy :: int
  tm_UTCOffset :: "8 word"
  tm_PulseOffset :: "'f option"
  tm_GNSS :: "8 word"
  tm_Ref :: TimeRef
  tm_Tag :: string
  tm_NativeMsgID :: string
  tm_ReadDelay :: int

record 'f entry =
  en_msg :: "'f time_msg"
  en_tRead :: int

text \<open>
  \<^verbatim>\<open>mb_timer\<close> says that there is a sink for UTC times; what was sent to it (the time, the read time and the
  kind of leap second) is \<^verbatim>\<open>mb_sent\<close>, the most recent first. \<^verbatim>\<open>mb_zone\<close> is the local zone of the process,
  in which dates of leap seconds are computed.
\<close>

record 'f msg_buffer =
  mb_entries :: "'f entry list"
  mb_startIndex :: nat
  mb_readWindow :: int
  mb_ls :: LeapSecond
  mb_zone :: zone
  mb_timeGNSS :: "8 word"
  mb_lastPreCorrMsg :: "'f time_msg option"
  mb_lastPostCorrMsg :: "'f time_msg option"
  mb_timer :: bool
  mb_lastMsgUTC :: int
  mb_sent :: "(int \<times> int \<times> int) list"

definition minReadWindow :: int where "minReadWindow = 3 * nsPerSecond"

definition newMsgBuffer :: "zone \<Rightarrow> int \<Rightarrow> LeapSecond \<Rightarrow> 8 word \<Rightarrow> 'f msg_buffer" where
  "newMsgBuffer zone readWindow ls timeGNSS =
     \<lparr> mb_entries = [], mb_startIndex = 0, mb_readWindow = max readWindow minReadWindow, mb_ls = ls, mb_zone = zone, mb_timeGNSS = timeGNSS,
       mb_lastPreCorrMsg = None, mb_lastPostCorrMsg = None, mb_timer = False, mb_lastMsgUTC = zeroTime, mb_sent = [] \<rparr>"

text \<open>The value of an optional UTC time; unset it is the zero value.\<close>

definition utc_get :: "UTCTime option \<Rightarrow> UTCTime" where
  "utc_get v = (case v of None \<Rightarrow> \<lparr> ut_Date = zeroTime, ut_TimeOfDay = 0 \<rparr> | Some ut \<Rightarrow> ut)"

section \<open>Taking messages in\<close>

text \<open>\<^verbatim>\<open>Time.Round\<close>: to the nearest multiple since the zero time, halves up.\<close>

definition time_round :: "int \<Rightarrow> int \<Rightarrow> int" where
  "time_round t d = (let r = (t - zeroTime) mod d in if r + r < d then t - r else t + (d - r))"

definition msgUTCTime :: "'f time_msg \<Rightarrow> int \<Rightarrow> 'f msg_buffer \<Rightarrow> 'f msg_buffer" where
  "msgUTCTime msg tRead buf =
     (case tm_UTCTime msg of None \<Rightarrow> buf
      | Some ut \<Rightarrow>
          if \<not> mb_timer buf \<or> tm_Ref msg = PrePulse then buf
          else if 24 * nsPerHour \<le> ut_TimeOfDay ut then buf
          else let t = time_round (sysTime ut) 1000000
            in if \<not> t > mb_lastMsgUTC buf then buf
               else buf \<lparr> mb_lastMsgUTC := t,
                         mb_sent := (t, tRead + i64 (- tm_ReadDelay msg), lss_leapTonight (utcStateAt (mb_zone buf) (mb_ls buf) ut)) # mb_sent buf \<rparr>)"

fun skip_old :: "int \<Rightarrow> 'f entry list \<Rightarrow> nat \<Rightarrow> nat" where
  "skip_old cutoff [] i = i"
| "skip_old cutoff (e # es) i = (if en_tRead e < cutoff then skip_old cutoff es (i + 1) else i)"

text \<open>
  Whether the slice has room for one more entry without growing depends on how the runtime grew it, so
  \<open>room\<close> is an argument.
\<close>

definition buf_time :: "bool \<Rightarrow> 'f time_msg \<Rightarrow> int \<Rightarrow> 'f msg_buffer \<Rightarrow> 'f msg_buffer" where
  "buf_time room msg tRead buf =
     (let cutoff = tRead + i64 (- mb_readWindow buf);
          buf = (if tm_PulseOffset msg = None then buf
                 else case tm_Ref msg of
                     PrePulse \<Rightarrow> buf \<lparr> mb_lastPreCorrMsg := Some msg \<rparr>
                   | PostPulse \<Rightarrow> buf \<lparr> mb_lastPostCorrMsg := Some msg \<rparr>
                   | NavSolution \<Rightarrow> buf);
          start = skip_old cutoff (drop (mb_startIndex buf) (mb_entries buf)) (mb_startIndex buf);
          (entries, start) = (if 0 < start \<and> room then (drop start (mb_entries buf), 0) else (mb_entries buf, start))
      in msgUTCTime msg tRead
           (buf \<lparr> mb_entries := entries @ [\<lparr> en_msg = msg, en_tRead = tRead \<rparr>], mb_startIndex := start \<rparr>))"

definition setMsgUTCTimer :: "bool \<Rightarrow> 'f msg_buffer \<Rightarrow> 'f msg_buffer" where
  "setMsgUTCTimer t buf = buf \<lparr> mb_timer := t \<rparr>"

definition buf_leapSecond :: "LeapSecond \<Rightarrow> 'f msg_buffer \<Rightarrow> 'f msg_buffer" where
  "buf_leapSecond ls buf = buf \<lparr> mb_ls := ls \<rparr>"

section \<open>Choosing messages\<close>

definition validEntries :: "'f msg_buffer \<Rightarrow> 'f entry list" where
  "validEntries buf = drop (mb_startIndex buf) (mb_entries buf)"

definition eligible :: "'f entry \<Rightarrow> bool" where
  "eligible e = (if pt_isZero (tm_TAITime (en_msg e)) \<and> tm_UTCTime (en_msg e) = None then False
     else tm_Ref (en_msg e) \<noteq> PrePulse)"

definition tagNMEA :: string where "tagNMEA = ''NMEA''"

definition compareTimeMsg :: "'f msg_buffer \<Rightarrow> 'f time_msg \<Rightarrow> 'f time_msg \<Rightarrow> int" where
  "compareTimeMsg buf a b =
     (if pt_isZero (tm_TAITime a) \<noteq> pt_isZero (tm_TAITime b) then (if pt_isZero (tm_TAITime a) then 1 else - 1)
      else if tm_Ref a \<noteq> tm_Ref b \<and> tm_Ref a = PostPulse then - 1
      else if tm_Ref a \<noteq> tm_Ref b \<and> tm_Ref b = PostPulse then 1
      else if (tm_Tag a = tagNMEA) \<noteq> (tm_Tag b = tagNMEA) then (if tm_Tag a = tagNMEA then 1 else - 1)
      else if tm_GNSS a \<noteq> tm_GNSS b \<and> tm_GNSS a = mb_timeGNSS buf then - 1
      else if tm_GNSS a \<noteq> tm_GNSS b \<and> tm_GNSS b = mb_timeGNSS buf then 1
      else 0)"

definition best_step :: "'f msg_buffer \<Rightarrow> 'f entry list \<Rightarrow> 'f entry \<Rightarrow> 'f entry list" where
  "best_step buf result e =
     (if \<not> eligible e then result
      else let c = compareTimeMsg buf (en_msg e) (en_msg (hd result))
        in if c = - 1 then [e] else if c = 0 then result @ [e] else result)"

definition bestEntries :: "'f msg_buffer \<Rightarrow> 'f entry list" where
  "bestEntries buf =
     (case dropWhile (\<lambda>e. \<not> eligible e) (validEntries buf) of
        [] \<Rightarrow> []
      | e # es \<Rightarrow> foldl (best_step buf) [e] es)"

definition same_time :: "'f time_msg \<Rightarrow> 'f time_msg \<Rightarrow> bool" where
  "same_time m0 m = (if \<not> pt_isZero (tm_TAITime m0) then tm_TAITime m = tm_TAITime m0 else utc_get (tm_UTCTime m) = utc_get (tm_UTCTime m0))"

definition epochStartMsg :: "'f entry list \<Rightarrow> 'f time_msg option" where
  "epochStartMsg entries =
     (case entries of [] \<Rightarrow> None
      | e0 # es \<Rightarrow> map_option en_msg (find (\<lambda>e. \<not> same_time (en_msg e0) (en_msg e)) es))"

definition same_type :: "'f time_msg \<Rightarrow> 'f time_msg \<Rightarrow> bool" where
  "same_type m m' \<longleftrightarrow> tm_Tag m' = tm_Tag m \<and> tm_NativeMsgID m' = tm_NativeMsgID m"

definition entriesSameType :: "'f entry list \<Rightarrow> 'f time_msg \<Rightarrow> 'f entry list" where
  "entriesSameType entries msg = filter (\<lambda>e. same_type msg (en_msg e)) entries"

section \<open>Messages after the pulse\<close>

text \<open>The nominal second of a message, and the time it began to be sent.\<close>

definition entry_sec :: "'f msg_buffer \<Rightarrow> 'f entry \<Rightarrow> int" where
  "entry_sec buf e =
     (let sec = (if pt_isZero (tm_TAITime (en_msg e)) then utcToTime (mb_zone buf) (mb_ls buf) (utc_get (tm_UTCTime (en_msg e))) else tm_TAITime (en_msg e))
      in pt_round sec 1000000)"

definition entry_read :: "'f entry \<Rightarrow> int" where
  "entry_read e = en_tRead e + i64 (- tm_ReadDelay (en_msg e))"

definition top_of_second :: "int \<Rightarrow> bool" where
  "top_of_second sec \<longleftrightarrow> pt_round sec nsPerSecond = sec"

fun consecutive :: "int list \<Rightarrow> bool" where
  "consecutive (s # t # ss) \<longleftrightarrow> pt_sub t s = nsPerSecond \<and> consecutive (t # ss)"
| "consecutive _ \<longleftrightarrow> True"

text \<open>The closure that detects leap seconds captures the tag and the id of the messages.\<close>

definition getPostTimeMessages :: "int \<Rightarrow> 'f msg_buffer \<Rightarrow> (int \<times> int list \<times> (string \<times> string) option) option" where
  "getPostTimeMessages n buf =
     (let entries = bestEntries buf
      in case epochStartMsg entries of None \<Rightarrow> Some (0, [], None)
         | Some start \<Rightarrow>
             let es = filter (\<lambda>e. top_of_second (entry_sec buf e)) (entriesSameType entries start);
                 secs = map (entry_sec buf) es; tRead = map entry_read es
             in if int (length secs) < n then Some (0, [], None)
                else if n < 0 then None
                else let secs = drop (length secs - nat n) secs; tRead = drop (length tRead - nat n) tRead
                  in if \<not> consecutive secs then Some (0, [], None)
                     else if secs = [] then None
                     else Some (last secs, tRead,
                       if pt_isZero (tm_TAITime start) then Some (tm_Tag start, tm_NativeMsgID start) else None))"

section \<open>Leap seconds and corrections\<close>

definition detectInvalidLeap :: "string \<Rightarrow> string \<Rightarrow> int \<Rightarrow> 'f msg_buffer \<Rightarrow> bool" where
  "detectInvalidLeap tag nativeMsgID minDelta buf =
     (case rev (validEntries buf) of [] \<Rightarrow> False
      | l # es \<Rightarrow>
          if tm_Tag (en_msg l) \<noteq> tag \<or> tm_NativeMsgID (en_msg l) \<noteq> nativeMsgID then False
          else case tm_UTCTime (en_msg l) of None \<Rightarrow> False
          | Some t2 \<Rightarrow>
            (case find (\<lambda>e. tm_Tag (en_msg e) = tag \<and> tm_NativeMsgID (en_msg e) = nativeMsgID) es of None \<Rightarrow> False
             | Some e \<Rightarrow>
               (case tm_UTCTime (en_msg e) of None \<Rightarrow> False
                | Some t1 \<Rightarrow>
                    let delta = utc_sub t2 t1
                    in if delta > 0 then False
                       else if delta < 0 then True
                       else \<not> time_sub (entry_read l) (entry_read e) < minDelta)))"

definition maxPulseOffset :: int where "maxPulseOffset = 100"

definition validatePulseOffset :: "'f float64 \<Rightarrow> 'f time_msg \<Rightarrow> int option" where
  "validatePulseOffset F msg =
     (case tm_PulseOffset msg of None \<Rightarrow> None
      | Some off \<Rightarrow> if f_lt F (f_int F maxPulseOffset) (f_abs F off) then None else Some (f_trunc F (f_round F off)))"

text \<open>The backwards search, on the reversed entries.\<close>

fun search_correction :: "'f float64 \<Rightarrow> TimeRef \<Rightarrow> int \<Rightarrow> 'f entry list \<Rightarrow> int option" where
  "search_correction F ref refTime [] = None"
| "search_correction F ref refTime (e # es) =
     (let m = en_msg e
      in if tm_PulseOffset m \<noteq> None \<and> tm_TAITime m = refTime then validatePulseOffset F m
         else if tm_TAITime m < refTime \<and> tm_Ref m = ref then None
         else search_correction F ref refTime es)"

definition getPulseCorrectionLast :: "'f float64 \<Rightarrow> 'f time_msg option \<Rightarrow> int \<Rightarrow> 'f msg_buffer \<Rightarrow> int option" where
  "getPulseCorrectionLast F lastCorr refTime buf =
     (case lastCorr of None \<Rightarrow> None
      | Some m \<Rightarrow> if refTime > tm_TAITime m then None
          else if refTime = tm_TAITime m then validatePulseOffset F m
          else search_correction F (tm_Ref m) refTime (rev (validEntries buf)))"

definition getPulseCorrection :: "'f float64 \<Rightarrow> int \<Rightarrow> 'f msg_buffer \<Rightarrow> int option" where
  "getPulseCorrection F refTime buf =
     (case getPulseCorrectionLast F (mb_lastPreCorrMsg buf) refTime buf of
        Some c \<Rightarrow> Some c
      | None \<Rightarrow> getPulseCorrectionLast F (mb_lastPostCorrMsg buf) refTime buf)"

definition waitForPulseCorrection :: "int \<Rightarrow> 'f msg_buffer \<Rightarrow> bool" where
  "waitForPulseCorrection refTime buf =
     (case mb_lastPostCorrMsg buf of None \<Rightarrow> False | Some m \<Rightarrow> pt_sub refTime (tm_TAITime m) = nsPerSecond)"

text \<open>
  The buffer as what the controller asks: \<open>closure\<close> is the closure installed when the reset mode was left.
\<close>

definition buffer_env :: "'f float64 \<Rightarrow> (string \<times> string) option \<Rightarrow> 'f msg_buffer \<Rightarrow> msg_env" where
  "buffer_env F closure buf =
     \<lparr> me_post = (\<lambda>n. case getPostTimeMessages n buf of None \<Rightarrow> (0, [], False) | Some (s, t, leap) \<Rightarrow> (s, t, leap \<noteq> None)),
       me_correction = (\<lambda>t. getPulseCorrection F t buf), me_wait = (\<lambda>t. waitForPulseCorrection t buf),
       me_detectLeap = (\<lambda>d. case closure of None \<Rightarrow> False | Some (tag, i) \<Rightarrow> detectInvalidLeap tag i d buf) \<rparr>"

section \<open>The window\<close>

lemma skip_old_drop: "drop (skip_old c (drop i xs) i) xs = dropWhile (\<lambda>e. en_tRead e < c) (drop i xs)" if "i \<le> length xs"
  using that
proof (induction "drop i xs" arbitrary: i)
  case Nil
  then show ?case by simp
next
  case (Cons e es)
  then have i: "i < length xs" by (metis drop_eq_Nil2 leI list.distinct(1))
  then have "drop i xs = xs ! i # drop (Suc i) xs" by (rule Cons_nth_drop_Suc [symmetric])
  with Cons i show ?case by simp
qed

lemma skip_old_le: "i + length es \<le> n \<Longrightarrow> skip_old c es i \<le> n"
  by (induction es arbitrary: i) auto

lemma msgUTCTime_frame [simp]:
  "mb_entries (msgUTCTime m t buf) = mb_entries buf" "mb_startIndex (msgUTCTime m t buf) = mb_startIndex buf"
  "mb_readWindow (msgUTCTime m t buf) = mb_readWindow buf" "mb_ls (msgUTCTime m t buf) = mb_ls buf"
  by (auto simp: msgUTCTime_def Let_def split: option.split)

text \<open>The times sent on increase, and none is beyond the last.\<close>

definition sends_ok :: "'f msg_buffer \<Rightarrow> bool" where
  "sends_ok buf \<longleftrightarrow> (\<forall>x \<in> set (mb_sent buf). fst x \<le> mb_lastMsgUTC buf) \<and> sorted_wrt (>) (map fst (mb_sent buf))"

definition mb_ok :: "'f msg_buffer \<Rightarrow> bool" where
  "mb_ok buf \<longleftrightarrow> mb_startIndex buf \<le> length (mb_entries buf) \<and> sends_ok buf"

lemma msgUTCTime_cases:
  "msgUTCTime m r buf = buf
    \<or> (\<exists>t x. mb_lastMsgUTC buf < t \<and> msgUTCTime m r buf = buf \<lparr> mb_lastMsgUTC := t, mb_sent := (t, x) # mb_sent buf \<rparr>)"
  by (auto simp: msgUTCTime_def Let_def split: option.split)

lemma msgUTCTime_ok:
  assumes "sends_ok buf"
  shows "sends_ok (msgUTCTime m r buf)"
  using msgUTCTime_cases [of m r buf] assms by (auto simp: sends_ok_def) fastforce+

lemma buf_time_ok:
  assumes "mb_ok buf"
  shows "mb_ok (buf_time room msg tRead buf)"
    "validEntries (buf_time room msg tRead buf)
      = dropWhile (\<lambda>e. en_tRead e < tRead + i64 (- mb_readWindow buf)) (validEntries buf) @ [\<lparr> en_msg = msg, en_tRead = tRead \<rparr>]"
proof -
  define b where "b = (if tm_PulseOffset msg = None then buf
     else case tm_Ref msg of PrePulse \<Rightarrow> buf \<lparr> mb_lastPreCorrMsg := Some msg \<rparr>
       | PostPulse \<Rightarrow> buf \<lparr> mb_lastPostCorrMsg := Some msg \<rparr> | NavSolution \<Rightarrow> buf)"
  have b: "mb_entries b = mb_entries buf" "mb_startIndex b = mb_startIndex buf" "mb_sent b = mb_sent buf" "mb_lastMsgUTC b = mb_lastMsgUTC buf"
    by (auto simp: b_def split: TimeRef.split)
  let ?c = "tRead + i64 (- mb_readWindow buf)"
  define s where "s = skip_old ?c (drop (mb_startIndex buf) (mb_entries buf)) (mb_startIndex buf)"
  let ?e = "\<lparr> en_msg = msg, en_tRead = tRead \<rparr>"
  have le: "mb_startIndex buf \<le> length (mb_entries buf)" using assms by (simp add: mb_ok_def)
  have sl: "s \<le> length (mb_entries buf)" unfolding s_def using le by (intro skip_old_le) simp
  have ds: "drop s (mb_entries buf) = dropWhile (\<lambda>e. en_tRead e < ?c) (validEntries buf)"
    unfolding s_def validEntries_def by (rule skip_old_drop [OF le])
  have r: "buf_time room msg tRead buf = msgUTCTime msg tRead
     (if 0 < s \<and> room then b \<lparr> mb_entries := drop s (mb_entries buf) @ [?e], mb_startIndex := 0 \<rparr>
      else b \<lparr> mb_entries := mb_entries buf @ [?e], mb_startIndex := s \<rparr>)"
    unfolding buf_time_def Let_def b_def [symmetric] b s_def by simp
  show "validEntries (buf_time room msg tRead buf) = dropWhile (\<lambda>e. en_tRead e < ?c) (validEntries buf) @ [?e]"
    unfolding r using sl ds by (simp add: validEntries_def [of "msgUTCTime _ _ _"])
  have sent: "sends_ok (b \<lparr> mb_entries := es, mb_startIndex := i \<rparr>)" for es i
    using assms b by (simp add: mb_ok_def sends_ok_def)
  show "mb_ok (buf_time room msg tRead buf)"
    unfolding r mb_ok_def using sl msgUTCTime_ok [OF sent] by (simp add: le_SucI)
qed

section \<open>The best messages\<close>

text \<open>The order of preference as a number: less is better.\<close>

definition rank :: "'f msg_buffer \<Rightarrow> 'f time_msg \<Rightarrow> nat" where
  "rank buf m = (if pt_isZero (tm_TAITime m) then 8 else 0) + (if tm_Ref m = PostPulse then 0 else 4)
     + (if tm_Tag m = tagNMEA then 2 else 0) + (if tm_GNSS m = mb_timeGNSS buf then 0 else 1)"

lemma compare_rank:
  "compareTimeMsg buf a b = (if rank buf a < rank buf b then - 1 else if rank buf b < rank buf a then 1 else 0)"
  unfolding compareTimeMsg_def rank_def by simp

definition best_of :: "'f msg_buffer \<Rightarrow> nat \<Rightarrow> 'f entry list \<Rightarrow> 'f entry list" where
  "best_of buf r es = filter (\<lambda>e. eligible e \<and> rank buf (en_msg e) = r) es"

lemma best_fold:
  assumes "result \<noteq> []" "result = best_of buf r seen" "\<forall>e \<in> set seen. eligible e \<longrightarrow> r \<le> rank buf (en_msg e)"
  shows "\<exists>r'. foldl (best_step buf) result es = best_of buf r' (seen @ es) \<and> best_of buf r' (seen @ es) \<noteq> []
    \<and> (\<forall>e \<in> set (seen @ es). eligible e \<longrightarrow> r' \<le> rank buf (en_msg e))"
  using assms
proof (induction es arbitrary: result seen r)
  case Nil
  then show ?case by (intro exI [of _ r]) simp
next
  case (Cons e es)
  have hd: "rank buf (en_msg (hd result)) = r"
    using Cons.prems(1,2) hd_in_set [OF Cons.prems(1)] by (auto simp: best_of_def)
  define r' where "r' = (if eligible e \<and> rank buf (en_msg e) < r then rank buf (en_msg e) else r)"
  have bs: "best_step buf result e = (if \<not> eligible e then result else if rank buf (en_msg e) < r then [e]
      else if r < rank buf (en_msg e) then result else result @ [e])"
    by (simp add: best_step_def Let_def compare_rank hd)
  have step: "best_step buf result e = best_of buf r' (seen @ [e])"
    unfolding bs unfolding Cons.prems(2) using Cons.prems(3) by (fastforce simp: r'_def best_of_def filter_empty_conv)
  have ne: "best_step buf result e \<noteq> []" using Cons.prems(1) by (simp add: bs)
  have low: "\<forall>x \<in> set (seen @ [e]). eligible x \<longrightarrow> r' \<le> rank buf (en_msg x)"
    using Cons.prems(3) by (auto simp: r'_def)
  from Cons.IH [OF ne step low] show ?case by simp
qed

lemma bestEntries_rank:
  "bestEntries buf = filter (\<lambda>e. eligible e \<and> (\<forall>d \<in> set (validEntries buf). eligible d \<longrightarrow> rank buf (en_msg e) \<le> rank buf (en_msg d))) (validEntries buf)"
proof (cases "dropWhile (\<lambda>e. \<not> eligible e) (validEntries buf)")
  case Nil
  then have "\<forall>e \<in> set (validEntries buf). \<not> eligible e" by (simp add: dropWhile_eq_Nil_conv)
  then have "filter (\<lambda>e. eligible e \<and> P e) (validEntries buf) = []" for P by (simp add: filter_empty_conv)
  then show ?thesis unfolding bestEntries_def Nil by simp
next
  case (Cons e es)
  let ?v = "validEntries buf"
  have e: "eligible e" using hd_dropWhile [of "\<lambda>e. \<not> eligible e" ?v] Cons by simp
  obtain r where r: "foldl (best_step buf) [e] es = best_of buf r (e # es)" "best_of buf r (e # es) \<noteq> []"
    "\<forall>x \<in> set (e # es). eligible x \<longrightarrow> r \<le> rank buf (en_msg x)"
    using best_fold [of "[e]" buf "rank buf (en_msg e)" "[e]" es] e by (auto simp: best_of_def)
  obtain pre where v: "?v = pre @ e # es" and tw: "\<forall>x \<in> set pre. \<not> eligible x"
  proof (rule that)
    show "?v = takeWhile (\<lambda>e. \<not> eligible e) ?v @ e # es" using Cons takeWhile_dropWhile_id [of "\<lambda>e. \<not> eligible e" ?v] by simp
    show "\<forall>x \<in> set (takeWhile (\<lambda>e. \<not> eligible e) ?v). \<not> eligible x" by (auto dest: set_takeWhileD)
  qed
  have low: "\<forall>x \<in> set ?v. eligible x \<longrightarrow> r \<le> rank buf (en_msg x)" using r(3) tw by (auto simp: v)
  from r(2) obtain x where x: "x \<in> set (e # es)" "eligible x" "rank buf (en_msg x) = r"
    unfolding best_of_def filter_empty_conv by blast
  then have xv: "x \<in> set ?v" by (auto simp: v)
  have "filter (\<lambda>e. eligible e \<and> rank buf (en_msg e) = r) pre = []" using tw by (simp add: filter_empty_conv)
  then have eq: "best_of buf r (e # es) = best_of buf r ?v" unfolding best_of_def v filter_append by simp
  have "bestEntries buf = best_of buf r ?v" using Cons r(1) eq by (simp add: bestEntries_def)
  also have "\<dots> = filter (\<lambda>e. eligible e \<and> (\<forall>d \<in> set ?v. eligible d \<longrightarrow> rank buf (en_msg e) \<le> rank buf (en_msg d))) ?v"
    unfolding best_of_def using low x xv by (intro filter_cong refl) (metis le_antisym)
  finally show ?thesis .
qed

text \<open>C25: The buffer of time messages prefers the best messages. The loop of \<^verbatim>\<open>bestEntries\<close> finds, in
  order, exactly the eligible entries of the window to which no eligible entry of the window is
  preferred; and the preference is a total preorder, so nothing depends on the order of the comparisons.\<close>
theorem best_entries:
  "bestEntries buf = filter (\<lambda>e. eligible e \<and> \<not> (\<exists>d \<in> set (validEntries buf). eligible d \<and> compareTimeMsg buf (en_msg d) (en_msg e) = - 1))
     (validEntries buf)
   \<and> compareTimeMsg buf a b = - compareTimeMsg buf b a
   \<and> (compareTimeMsg buf a b \<noteq> 1 \<and> compareTimeMsg buf b c \<noteq> 1 \<longrightarrow> compareTimeMsg buf a c \<noteq> 1)"
proof -
  have "(compareTimeMsg buf a b = - 1) = (rank buf a < rank buf b)" for a b by (simp add: compare_rank)
  then show ?thesis unfolding bestEntries_rank
    by (auto simp: compare_rank not_less intro!: filter_cong split: if_splits)
qed

text \<open>The buffer forgets exactly what is too old. In a well-formed state, taking in a message keeps the
  state well-formed, the window becomes what was left of it after dropping, from the front, the entries
  read before the cutoff, followed by the new one, whether or not the slice was moved; and the UTC times
  sent to the sink strictly increase.\<close>
lemma buffer_window:
  assumes "mb_ok buf"
  shows "mb_ok (buf_time room msg tRead buf)
    \<and> validEntries (buf_time room msg tRead buf)
      = dropWhile (\<lambda>e. en_tRead e < tRead + i64 (- mb_readWindow buf)) (validEntries buf) @ [\<lparr> en_msg = msg, en_tRead = tRead \<rparr>]
    \<and> sorted_wrt (>) (map fst (mb_sent (buf_time room msg tRead buf)))"
  using buf_time_ok [OF assms] by (simp add: mb_ok_def sends_ok_def)

section \<open>What the controller gets\<close>

lemma consecutive_nth: "consecutive ss \<Longrightarrow> Suc i < length ss \<Longrightarrow> pt_sub (ss ! Suc i) (ss ! i) = nsPerSecond"
proof (induction ss arbitrary: i rule: consecutive.induct)
  case (1 s t ss)
  then show ?case by (cases i) auto
qed auto

text \<open>C24: The messages the controller aligns its pulses with are \<open>n\<close> messages in a row. If
  \<^verbatim>\<open>GetPostTimeMessages\<close> returns a second, the read times are those of \<open>n\<close> entries of the window, in
  order, each eligible, of one type and a best one, each exactly at the top of a second, each
  second the successor of the one before, and the last is the second returned. With it the buffer keeps
  the promise the controller's safety rests on.\<close>
theorem post_messages:
  assumes "getPostTimeMessages n buf = Some (lastSec, tRead, leap)" "lastSec \<noteq> 0"
  shows "(\<exists>es. tRead = map entry_read es \<and> length es = nat n \<and> 0 < n \<and> lastSec = entry_sec buf (last es)
      \<and> set es \<subseteq> set (bestEntries buf) \<and> (\<forall>e \<in> set es. \<forall>d \<in> set es. same_type (en_msg d) (en_msg e))
      \<and> (\<forall>e \<in> set es. pt_round (entry_sec buf e) nsPerSecond = entry_sec buf e)
      \<and> (\<forall>i. Suc i < length es \<longrightarrow> pt_sub (entry_sec buf (es ! Suc i)) (entry_sec buf (es ! i)) = nsPerSecond))
    \<and> env_ok (buffer_env F closure buf)"
proof -
  have ex: "\<exists>es. t = map entry_read es \<and> length es = nat n \<and> 0 < n \<and> s = entry_sec buf (last es)
      \<and> set es \<subseteq> set (bestEntries buf) \<and> (\<forall>e \<in> set es. \<forall>d \<in> set es. same_type (en_msg d) (en_msg e))
      \<and> (\<forall>e \<in> set es. top_of_second (entry_sec buf e)) \<and> consecutive (map (entry_sec buf) es)"
    if p: "getPostTimeMessages n buf = Some (s, t, l)" "s \<noteq> 0" for n s t l
  proof -
    from p obtain start where st: "epochStartMsg (bestEntries buf) = Some start"
      by (auto simp: getPostTimeMessages_def Let_def split: option.splits)
    define fs where "fs = filter (\<lambda>e. top_of_second (entry_sec buf e)) (entriesSameType (bestEntries buf) start)"
    define es where "es = drop (length fs - nat n) fs"
    have d: "n \<le> int (length fs)" "0 \<le> n" "consecutive (map (entry_sec buf) es)" "es \<noteq> []"
      "s = last (map (entry_sec buf) es)" "t = map entry_read es"
      using p by (auto simp: getPostTimeMessages_def Let_def st fs_def [symmetric] es_def drop_map split: if_splits)
    have len: "length es = nat n" using d(1) by (simp add: es_def)
    have sub: "set es \<subseteq> set fs" unfolding es_def by (rule set_drop_subset)
    have "s = entry_sec buf (last es)" using d(4,5) by (simp add: last_map)
    moreover have "0 < n" using len d(2,4) by (cases "n = 0") auto
    moreover have "set fs \<subseteq> set (bestEntries buf)" "\<forall>e \<in> set fs. same_type start (en_msg e) \<and> top_of_second (entry_sec buf e)"
      by (auto simp: fs_def entriesSameType_def)
    moreover have "\<forall>e \<in> set es. \<forall>d \<in> set es. same_type (en_msg d) (en_msg e)"
    proof -
      have "\<forall>e \<in> set es. same_type start (en_msg e)" using sub unfolding fs_def entriesSameType_def by auto
      then show ?thesis unfolding same_type_def by simp
    qed
    ultimately show ?thesis using len d(3,6) sub by (intro exI [of _ es]) (auto simp: subset_eq)
  qed
  have "env_ok (buffer_env F closure buf)"
    using ex by (auto simp: env_ok_def buffer_env_def split: option.split) fastforce
  moreover from ex [OF assms] obtain es where "tRead = map entry_read es" "length es = nat n" "0 < n" "lastSec = entry_sec buf (last es)"
    "set es \<subseteq> set (bestEntries buf)" "\<forall>e \<in> set es. \<forall>d \<in> set es. same_type (en_msg d) (en_msg e)"
    "\<forall>e \<in> set es. top_of_second (entry_sec buf e)" "consecutive (map (entry_sec buf) es)" by blast
  ultimately show ?thesis using consecutive_nth [of "map (entry_sec buf) es"]
    by (intro conjI exI [of _ es]) (auto simp: top_of_second_def)
qed

text \<open>Messages of two seconds, the NMEA ones read first.\<close>

definition example_msg :: "int \<Rightarrow> string \<Rightarrow> int time_msg" where
  "example_msg s tag = \<lparr> tm_TAITime = s * 1000000000, tm_UTCTime = None, tm_Accuracy = 0, tm_UTCOffset = 0, tm_PulseOffset = None,
     tm_GNSS = 1, tm_Ref = NavSolution, tm_Tag = tag, tm_NativeMsgID = ''PVT'', tm_ReadDelay = 0 \<rparr>"

definition example_buffer :: "int msg_buffer" where
  "example_buffer = foldl (\<lambda>b (s, d, tag). buf_time True (example_msg s tag) (s * 1000000000 + d) b)
     (newMsgBuffer (\<lambda>_. 3600) (5 * 1000000000) leapSecond2016 1)
     [(100, 10, ''NMEA''), (100, 20, ''UBX''), (101, 10, ''NMEA''), (101, 20, ''UBX''), (102, 10, ''NMEA''), (102, 20, ''UBX'')]"

theorem best_entries_witness:
  "bestEntries example_buffer = filter (\<lambda>e. tm_Tag (en_msg e) = ''UBX'') (validEntries example_buffer)
    \<and> compareTimeMsg example_buffer (example_msg 100 ''UBX'') (example_msg 102 ''NMEA'') \<noteq> 1"
proof -
  have c: "compareTimeMsg example_buffer (example_msg 100 ''UBX'') (example_msg 101 ''UBX'') \<noteq> 1"
    "compareTimeMsg example_buffer (example_msg 101 ''UBX'') (example_msg 102 ''NMEA'') \<noteq> 1" by code_simp+
  have "bestEntries example_buffer = filter (\<lambda>e. tm_Tag (en_msg e) = ''UBX'') (validEntries example_buffer)" by code_simp
  with best_entries [of example_buffer "example_msg 100 ''UBX''" "example_msg 101 ''UBX''" "example_msg 102 ''NMEA''"] c show ?thesis
    by blast
qed

theorem post_messages_witness:
  "getPostTimeMessages 2 example_buffer = Some (102 * 1000000000, [101 * 1000000000 + 20, 102 * 1000000000 + 20], None)
    \<and> env_ok (buffer_env int_float None example_buffer)"
proof -
  have g: "getPostTimeMessages 2 example_buffer = Some (102 * 1000000000, [101 * 1000000000 + 20, 102 * 1000000000 + 20], None)"
    by code_simp
  from post_messages [OF g, of int_float None] g show ?thesis by simp
qed

end
