(* ===== verification/Converging.thy ===== *)
theory Converging
  imports Median SyncTypes
begin

text \<open>
  The converging mode of the clock controller: the sample generator and the sample processor of
  \<^verbatim>\<open>time/internal/phcsync/converging.go\<close>. Floating point is an argument. A panic is \<open>None\<close>.
\<close>

section \<open>State\<close>

record 'f ConvergingConfig =
  cc_kp :: 'f
  cc_ki :: 'f
  cc_medianWindow :: int
  cc_offsetLimit :: int
  cc_stableWindow :: int
  cc_badSampleLimit :: int
  cc_stepCompensate :: bool

record 'f converging =
  cv_cfg :: "'f ConvergingConfig"
  cv_servo :: "'f piServo"
  cv_offsets :: "int window"
  cv_lastSampleEra :: u64
  cv_stepCompensate :: bool
  cv_minMedian :: int
  cv_samplesSince :: int
  cv_missing :: int

section \<open>The generator\<close>

record 'f converging_gen =
  cg_cfg :: "'f ConvergingConfig"
  cg_pt :: pulse_type
  cg_leadingEdgeIndex :: u64
  cg_freq :: 'f
  cg_maxFreq :: 'f

definition newConvergingGen :: "'f ConvergingConfig \<Rightarrow> pulse_type \<Rightarrow> 'f sync_sample \<Rightarrow> 'f \<Rightarrow> 'f \<Rightarrow> 'f converging_gen" where
  "newConvergingGen cfg pt lastSample freq maxFreq =
     \<lparr> cg_cfg = cfg, cg_pt = pt, cg_leadingEdgeIndex = smp_edgeIndex lastSample, cg_freq = freq, cg_maxFreq = maxFreq \<rparr>"

definition conv_pulseEdgeSample :: "'f float64 \<Rightarrow> pulse_edge \<Rightarrow> u64 \<Rightarrow> 'f converging_gen \<Rightarrow> 'f sync_sample option" where
  "conv_pulseEdgeSample F edge edgeIndex g =
     (if era_uncertain (ph_era (pe_timestamp edge)) then None
      else if pt_edgesPerPulse (cg_pt g) = 2 \<and> (cg_leadingEdgeIndex g XOR edgeIndex) AND 1 \<noteq> 0 then None
      else let refTime = duration_round (ph_t (pe_timestamp edge)) nsPerSecond;
               off = i64 (ph_t (pe_timestamp edge) - refTime)
           in Some (okSample F refTime off (ph_era (pe_timestamp edge)) edgeIndex (edge_sys edge)))"

definition conv_timeMessageSample :: "'f converging_gen \<Rightarrow> 'f sync_sample option" where
  "conv_timeMessageSample g = None"

section \<open>Processing samples\<close>

definition newConverging :: "'f float64 \<Rightarrow> 'f ConvergingConfig \<Rightarrow> u64 \<Rightarrow> 'f \<Rightarrow> 'f \<Rightarrow> 'f converging option" where
  "newConverging F cfg lastEra currentFreq maxFreq =
     Option.bind (newWindow 0 (cc_medianWindow cfg)) (\<lambda>w. Some
       \<lparr> cv_cfg = cfg, cv_servo = newPiServo F currentFreq (cc_kp cfg) (cc_ki cfg) maxFreq, cv_offsets = w,
         cv_lastSampleEra = lastEra, cv_stepCompensate = cc_stepCompensate cfg, cv_minMedian = 0,
         cv_samplesSince = 0, cv_missing = 0 \<rparr>)"

definition handleCompensation :: "'f float64 \<Rightarrow> 'f sync_sample \<Rightarrow> 'f converging \<Rightarrow> 'f phcAction \<times> 'f converging" where
  "handleCompensation F s p =
     (if \<not> cv_stepCompensate p then (noAction F, p)
      else let p = p \<lparr> cv_stepCompensate := False \<rparr>
           in if smp_kind s = SampleMissing then (noAction F, p)
              else if smp_era s > cv_lastSampleEra p
              then ((noAction F) \<lparr> act_type := PhcStepClock, act_step := i64 (- 2 * smp_offset s) \<rparr>, p)
              else (noAction F, p))"

definition converged :: "'f converging \<Rightarrow> (bool \<times> 'f converging) option" where
  "converged p =
     (if int (winLen (cv_offsets p)) < cc_medianWindow (cv_cfg p) then Some (False, p)
      else Option.bind (winLast (cv_offsets p)) (\<lambda>l.
        if l > cc_offsetLimit (cv_cfg p) then Some (False, p \<lparr> cv_samplesSince := 0 \<rparr>)
        else let median = winMedian (cv_offsets p);
                 p = (if cv_samplesSince p = 0 then p \<lparr> cv_minMedian := median, cv_samplesSince := 1 \<rparr>
                      else if median < cv_minMedian p then p \<lparr> cv_minMedian := median, cv_samplesSince := 1 \<rparr>
                      else p \<lparr> cv_samplesSince := cv_samplesSince p + 1 \<rparr>)
             in Some (cc_stableWindow (cv_cfg p) \<le> cv_samplesSince p, p)))"

definition conv_process :: "'f float64 \<Rightarrow> 'f sync_sample \<Rightarrow> 'f converging \<Rightarrow> ('f phcAction \<times> mode \<times> 'f converging) option" where
  "conv_process F s p =
     (let (action, p) = handleCompensation F s p
      in if act_type action \<noteq> PhcNoAction then Some (action, ModeConverging, p)
         else if smp_kind s = SampleMissing then
           let p = p \<lparr> cv_missing := cv_missing p + 1 \<rparr>
           in if cc_badSampleLimit (cv_cfg p) \<le> cv_missing p then Some (noAction F, ModeReset, p)
              else Some (noAction F, ModeConverging, p)
         else Option.bind (winAdd (duration_abs (smp_offset s)) (cv_offsets p)) (\<lambda>w.
           Option.bind (converged (p \<lparr> cv_offsets := w \<rparr>)) (\<lambda>(done, p).
             let (freq, servo) = pi_sample F (smp_offset s) (cv_servo p)
             in Some ((noAction F) \<lparr> act_type := PhcAdjustFrequency, act_freq := freq \<rparr>,
                      if done then ModeTracking else ModeConverging, p \<lparr> cv_servo := servo \<rparr>))))"

section \<open>What a run has seen\<close>

text \<open>
  The states a processor reaches, with the absolute offsets it has taken in, the most recent first:
  those of the samples on which it adjusted the frequency.
\<close>

inductive conv_reaches :: "'f float64 \<Rightarrow> 'f ConvergingConfig \<Rightarrow> 'f converging \<Rightarrow> int list \<Rightarrow> bool"
  for F cfg where
  start: "newConverging F cfg era freq maxFreq = Some p \<Longrightarrow> conv_reaches F cfg p []"
| step: "conv_reaches F cfg p hist \<Longrightarrow> conv_process F s p = Some (action, m, p') \<Longrightarrow>
    conv_reaches F cfg p' (if act_type action = PhcAdjustFrequency then duration_abs (smp_offset s) # hist else hist)"

definition window_median :: "'f ConvergingConfig \<Rightarrow> int list \<Rightarrow> int" where
  "window_median cfg hist = seqMedian (take (nat (cc_medianWindow cfg)) hist)"

definition stable :: "'f ConvergingConfig \<Rightarrow> int list \<Rightarrow> int \<Rightarrow> int \<Rightarrow> bool" where
  "stable cfg hist n lowest \<longleftrightarrow> 0 \<le> n \<and> nat n \<le> length hist \<and> (\<forall>x \<in> set (take (nat n) hist). x \<le> cc_offsetLimit cfg)
     \<and> (\<forall>j < nat n. lowest \<le> window_median cfg (drop j hist))
     \<and> (0 < n \<longrightarrow> lowest = window_median cfg (drop (nat n - 1) hist))"

definition conv_inv :: "'f ConvergingConfig \<Rightarrow> 'f converging \<Rightarrow> int list \<Rightarrow> bool" where
  "conv_inv cfg p hist \<longleftrightarrow> cv_cfg p = cfg \<and> win_ok (cv_offsets p) \<and> winCap (cv_offsets p) = nat (cc_medianWindow cfg)
     \<and> 0 < cc_medianWindow cfg \<and> win_contents (cv_offsets p) = take (nat (cc_medianWindow cfg)) hist
     \<and> stable cfg hist (cv_samplesSince p) (cv_minMedian p)
     \<and> (0 < cv_samplesSince p \<longrightarrow> nat (cc_medianWindow cfg) \<le> length hist)"

lemma stable_zero: "stable cfg hist 0 m"
  by (simp add: stable_def)

lemma stable_one: "x \<le> cc_offsetLimit cfg \<Longrightarrow> stable cfg (x # hist) 1 (window_median cfg (x # hist))"
  by (simp add: stable_def)

lemma stable_Suc:
  assumes "stable cfg hist n m" "0 < n" "x \<le> cc_offsetLimit cfg" "m \<le> window_median cfg (x # hist)"
  shows "stable cfg (x # hist) (n + 1) m"
proof -
  obtain k where n: "n = int (Suc k)" using zero_less_imp_eq_int [OF assms(2)] by (metis Suc_pred)
  have e: "nat (n + 1) = Suc (Suc k)" "nat n = Suc k" using n by simp_all
  have below: "\<forall>j < Suc k. m \<le> window_median cfg (drop j hist)"
    using assms(1) unfolding stable_def e by blast
  have all: "\<forall>j < Suc (Suc k). m \<le> window_median cfg (drop j (x # hist))"
  proof (intro allI impI)
    fix j assume "j < Suc (Suc k)"
    then show "m \<le> window_median cfg (drop j (x # hist))"
      using below assms(4) by (cases j) simp_all
  qed
  show ?thesis using assms(1-3) all unfolding stable_def e by simp
qed

lemma compensation_frame:
  assumes "handleCompensation F s p = (a, p')"
  shows "p' = p \<lparr> cv_stepCompensate := False \<rparr>" "act_type a = PhcNoAction \<or> act_type a = PhcStepClock"
  using assms by (auto simp: handleCompensation_def noAction_def Let_def split: if_splits)

lemma converged_step:
  assumes "conv_inv cfg p hist" "winAdd x (cv_offsets p) = Some w"
  shows "\<exists>b p'. converged (p \<lparr> cv_offsets := w \<rparr>) = Some (b, p') \<and> conv_inv cfg p' (x # hist) \<and> cv_missing p' = cv_missing p
    \<and> (b \<longrightarrow> cc_stableWindow cfg \<le> cv_samplesSince p' \<and> nat (cc_medianWindow cfg) \<le> length (x # hist))"
proof -
  let ?n = "nat (cc_medianWindow cfg)"
  from winAdd_spec [of "cv_offsets p" x] assms have w: "win_ok w" "winCap w = ?n"
    "win_contents w = take ?n (x # win_contents (cv_offsets p))" by (auto simp: conv_inv_def)
  have n: "0 < ?n" and cfg: "cv_cfg p = cfg" using assms(1) by (simp_all add: conv_inv_def)
  have c: "win_contents w = take ?n (x # hist)"
    using assms(1) n unfolding w(3) conv_inv_def by (cases ?n) (simp_all add: min_def)
  have l: "winLast w = Some x" unfolding winLast_contents [OF w(1)] c using n by (cases ?n) simp_all
  have m: "winMedian w = window_median cfg (x # hist)" by (simp add: winMedian_contents [OF w(1)] c window_median_def)
  have len: "winLen w = min (Suc (length hist)) ?n" by (simp add: winLen_contents [OF w(1)] c)
  have st: "stable cfg hist (cv_samplesSince p) (cv_minMedian p)" using assms(1) by (simp add: conv_inv_def)
  have nonneg: "0 \<le> cv_samplesSince p" using st by (simp add: stable_def)
  have since: "0 < cv_samplesSince p \<Longrightarrow> ?n \<le> length hist" and pos: "0 < cc_medianWindow cfg"
    using assms(1) by (simp_all add: conv_inv_def)
  show ?thesis
  proof (cases "int (winLen w) < cc_medianWindow cfg")
    case True
    with len since nonneg pos have z: "cv_samplesSince p = 0"
      by (cases "0 < cv_samplesSince p") (auto split: if_splits)
    with True w c cfg pos show ?thesis
      by (intro exI [of _ False] exI [of _ "p \<lparr> cv_offsets := w \<rparr>"]) (simp add: converged_def conv_inv_def stable_zero)
  next
    case full: False
    with len have n_le: "?n \<le> length (x # hist)" by auto
    show ?thesis
    proof (cases "x > cc_offsetLimit cfg")
      case True
      with full w c cfg pos l show ?thesis
        by (intro exI [of _ False] exI [of _ "p \<lparr> cv_offsets := w, cv_samplesSince := 0 \<rparr>"])
          (simp add: converged_def conv_inv_def stable_zero)
    next
      case False
      define p' where "p' = (if cv_samplesSince p = 0 \<or> winMedian w < cv_minMedian p
        then p \<lparr> cv_offsets := w, cv_minMedian := winMedian w, cv_samplesSince := 1 \<rparr>
        else p \<lparr> cv_offsets := w, cv_samplesSince := cv_samplesSince p + 1 \<rparr>)"
      have conv: "converged (p \<lparr> cv_offsets := w \<rparr>) = Some (cc_stableWindow cfg \<le> cv_samplesSince p', p')"
        using full False by (auto simp: converged_def l p'_def cfg Let_def)
      have "stable cfg (x # hist) (cv_samplesSince p') (cv_minMedian p')"
        using stable_one [of x cfg hist] stable_Suc [OF st, of x] False m nonneg by (auto simp: p'_def)
      then have "conv_inv cfg p' (x # hist)"
        using w c cfg pos n_le by (auto simp: conv_inv_def p'_def)
      moreover have "cv_missing p' = cv_missing p" by (simp add: p'_def)
      ultimately show ?thesis using conv n_le by auto
    qed
  qed
qed

lemma conv_inv_frame [simp]:
  "conv_inv cfg (p \<lparr> cv_stepCompensate := b \<rparr>) hist = conv_inv cfg p hist"
  "conv_inv cfg (p \<lparr> cv_missing := n \<rparr>) hist = conv_inv cfg p hist"
  "conv_inv cfg (p \<lparr> cv_servo := sv \<rparr>) hist = conv_inv cfg p hist"
  by (simp_all add: conv_inv_def)

lemma process_inv:
  assumes "conv_inv cfg p hist"
  shows "\<exists>a m p'. conv_process F s p = Some (a, m, p')
    \<and> conv_inv cfg p' (if act_type a = PhcAdjustFrequency then duration_abs (smp_offset s) # hist else hist)
    \<and> cv_missing p' = cv_missing p + (if smp_kind s = SampleMissing then 1 else 0)
    \<and> (m = ModeReset \<longleftrightarrow> smp_kind s = SampleMissing \<and> cc_badSampleLimit cfg \<le> cv_missing p')
    \<and> m \<noteq> ModeInvalid
    \<and> (m = ModeTracking \<longrightarrow> act_type a = PhcAdjustFrequency \<and> smp_kind s \<noteq> SampleMissing
        \<and> cc_stableWindow cfg \<le> cv_samplesSince p' \<and> nat (cc_medianWindow cfg) \<le> length (duration_abs (smp_offset s) # hist))"
proof -
  obtain a p1 where h: "handleCompensation F s p = (a, p1)" by (cases "handleCompensation F s p")
  from compensation_frame [OF h] have p1: "conv_inv cfg p1 hist" "cv_missing p1 = cv_missing p"
    "act_type a = PhcNoAction \<or> act_type a = PhcStepClock" using assms by simp_all
  have no_step: "smp_kind s = SampleMissing \<Longrightarrow> act_type a = PhcNoAction"
    using h by (auto simp: handleCompensation_def noAction_def Let_def split: if_splits)
  have cfg: "cv_cfg p1 = cfg" using p1 by (simp add: conv_inv_def)
  consider (comp) "act_type a = PhcStepClock" "smp_kind s \<noteq> SampleMissing"
    | (missing) "act_type a = PhcNoAction" "smp_kind s = SampleMissing"
    | (taken) "act_type a = PhcNoAction" "smp_kind s \<noteq> SampleMissing"
    using p1(3) no_step phcActionType.distinct by metis
  then show ?thesis
  proof cases
    case comp
    with p1 show ?thesis by (simp add: conv_process_def h)
  next
    case missing
    with p1 cfg show ?thesis by (auto simp: conv_process_def h Let_def noAction_def)
  next
    case taken
    let ?x = "duration_abs (smp_offset s)"
    from winAdd_spec [of "cv_offsets p1" ?x] p1(1) obtain w where w: "winAdd ?x (cv_offsets p1) = Some w"
      by (auto simp: conv_inv_def)
    from converged_step [OF p1(1) w] obtain b p2 where c: "converged (p1 \<lparr> cv_offsets := w \<rparr>) = Some (b, p2)"
      "conv_inv cfg p2 (?x # hist)" "cv_missing p2 = cv_missing p1"
      "b \<Longrightarrow> cc_stableWindow cfg \<le> cv_samplesSince p2 \<and> nat (cc_medianWindow cfg) \<le> length (?x # hist)" by blast
    obtain freq servo where sv: "pi_sample F (smp_offset s) (cv_servo p2) = (freq, servo)"
      by (cases "pi_sample F (smp_offset s) (cv_servo p2)")
    from taken p1 w c sv show ?thesis by (auto simp: conv_process_def h Let_def noAction_def)
  qed
qed

lemma newConverging_inv: "newConverging F cfg era freq maxFreq = Some p \<Longrightarrow> conv_inv cfg p [] \<and> cv_missing p = 0"
  by (auto simp: newConverging_def newWindow_def conv_inv_def win_ok_def winCap_def win_contents_def stable_zero
    maxCapacity_def split: if_splits)

lemma conv_reaches_inv: "conv_reaches F cfg p hist \<Longrightarrow> conv_inv cfg p hist"
proof (induction rule: conv_reaches.induct)
  case (start era freq maxFreq p)
  from newConverging_inv [OF start] show ?case by simp
next
  case (step p hist s action m p')
  from process_inv [OF step.IH, of F s] step.hyps(2) show ?case by auto
qed

text \<open>C8: The converging mode never panics and never claims to be in sync too early. From every state a
  processor reaches, with \<open>hist\<close> the absolute offsets it has taken in (the most recent first),
  processing a sample returns; when it asks for the tracking mode, the window of the median is full,
  and for some number of last samples, at least the length of the stable window, every absolute
  offset was within the limit and the median never fell below its value at the first of them.\<close>
theorem converging_sound:
  assumes "conv_reaches F cfg p hist"
  shows "\<exists>a m p'. conv_process F s p = Some (a, m, p') \<and> m \<noteq> ModeInvalid
    \<and> (m = ModeTracking \<longrightarrow> smp_kind s \<noteq> SampleMissing
       \<and> (let hist' = duration_abs (smp_offset s) # hist
          in nat (cc_medianWindow cfg) \<le> length hist'
           \<and> (\<exists>k \<le> length hist'. cc_stableWindow cfg \<le> int k
               \<and> (\<forall>x \<in> set (take k hist'). x \<le> cc_offsetLimit cfg)
               \<and> (\<forall>j < k. window_median cfg (drop (k - 1) hist') \<le> window_median cfg (drop j hist')))))"
proof -
  from process_inv [OF conv_reaches_inv [OF assms], of F s] obtain a m p' where
    o: "conv_process F s p = Some (a, m, p')" "m \<noteq> ModeInvalid"
    and inv: "conv_inv cfg p' (if act_type a = PhcAdjustFrequency then duration_abs (smp_offset s) # hist else hist)"
    and t: "m = ModeTracking \<longrightarrow> act_type a = PhcAdjustFrequency \<and> smp_kind s \<noteq> SampleMissing
        \<and> cc_stableWindow cfg \<le> cv_samplesSince p' \<and> nat (cc_medianWindow cfg) \<le> length (duration_abs (smp_offset s) # hist)"
    by blast
  let ?h = "duration_abs (smp_offset s) # hist"
  have "\<exists>k \<le> length ?h. cc_stableWindow cfg \<le> int k \<and> (\<forall>x \<in> set (take k ?h). x \<le> cc_offsetLimit cfg)
      \<and> (\<forall>j < k. window_median cfg (drop (k - 1) ?h) \<le> window_median cfg (drop j ?h))" if "m = ModeTracking"
  proof -
    from that t inv have "stable cfg ?h (cv_samplesSince p') (cv_minMedian p')" "cc_stableWindow cfg \<le> cv_samplesSince p'"
      by (simp_all add: conv_inv_def)
    then show ?thesis unfolding stable_def
      by (intro exI [of _ "nat (cv_samplesSince p')"]) (auto simp del: length_Cons)
  qed
  with o t show ?thesis by (auto simp: Let_def)
qed

section \<open>Missing samples\<close>

text \<open>The modes a processor asks for on a sequence of samples.\<close>

fun conv_modes :: "'f float64 \<Rightarrow> 'f sync_sample list \<Rightarrow> 'f converging \<Rightarrow> mode list option" where
  "conv_modes F [] p = Some []"
| "conv_modes F (s # ss) p =
     Option.bind (conv_process F s p) (\<lambda>(a, m, p'). map_option ((#) m) (conv_modes F ss p'))"

definition missing_count :: "'f sync_sample list \<Rightarrow> nat" where
  "missing_count ss = length (filter (\<lambda>s. smp_kind s = SampleMissing) ss)"

text \<open>
  A sample is answered by the reset mode exactly when it is missing and the missing samples of the whole mode,
  which good samples do not reset, have reached the limit.
\<close>

lemma conv_modes_missing:
  "conv_inv cfg p hist \<Longrightarrow> \<exists>ms. conv_modes F ss p = Some ms \<and> length ms = length ss
    \<and> (\<forall>i < length ss. ms ! i = ModeReset \<longleftrightarrow> smp_kind (ss ! i) = SampleMissing
         \<and> cc_badSampleLimit cfg \<le> cv_missing p + int (missing_count (take (Suc i) ss)))"
proof (induction ss arbitrary: p hist)
  case Nil
  then show ?case by simp
next
  case (Cons s ss)
  from process_inv [OF Cons.prems, of F s] obtain a m p' where
    o: "conv_process F s p = Some (a, m, p')"
    and inv: "conv_inv cfg p' (if act_type a = PhcAdjustFrequency then duration_abs (smp_offset s) # hist else hist)"
    and mi: "cv_missing p' = cv_missing p + (if smp_kind s = SampleMissing then 1 else 0)"
    and r: "m = ModeReset \<longleftrightarrow> smp_kind s = SampleMissing \<and> cc_badSampleLimit cfg \<le> cv_missing p'" by blast
  from Cons.IH [OF inv] obtain ms where ms: "conv_modes F ss p' = Some ms" "length ms = length ss"
    "\<And>i. i < length ss \<Longrightarrow> ms ! i = ModeReset \<longleftrightarrow> smp_kind (ss ! i) = SampleMissing
         \<and> cc_badSampleLimit cfg \<le> cv_missing p' + int (missing_count (take (Suc i) ss))" by blast
  have "(m # ms) ! i = ModeReset \<longleftrightarrow> smp_kind ((s # ss) ! i) = SampleMissing
         \<and> cc_badSampleLimit cfg \<le> cv_missing p + int (missing_count (take (Suc i) (s # ss)))" if "i < length (s # ss)" for i
    using that r mi ms(3) [of "i - 1"] by (cases i) (auto simp: missing_count_def)
  with o ms(1,2) show ?case by simp
qed

lemma missing_count_run:
  assumes "i + n \<le> length ss" "\<And>j. i \<le> j \<Longrightarrow> j < i + n \<Longrightarrow> smp_kind (ss ! j) = SampleMissing"
  shows "n \<le> missing_count (take (i + n) ss)"
proof -
  have "\<forall>s \<in> set (take n (drop i ss)). smp_kind s = SampleMissing"
    using assms by (auto simp: in_set_conv_nth)
  then have "missing_count (take n (drop i ss)) = n" using assms(1) by (simp add: missing_count_def filter_id_conv [THEN iffD2])
  then show ?thesis by (simp add: take_add missing_count_def)
qed

text \<open>C9: The converging mode gives up when the pulse is lost, and only then. Whatever samples a new processor is given, it
  answers each; when at least as many samples in a row as the limit are missing, the last of them is answered by the reset
  mode, whatever came before; and reset is only ever the answer to a missing sample, once at least as many as
  the limit were missing.\<close>
theorem converging_gives_up:
  assumes "newConverging F cfg era freq maxFreq = Some p"
  shows "\<exists>ms. conv_modes F ss p = Some ms \<and> length ms = length ss
    \<and> (\<forall>i n. 0 < n \<longrightarrow> cc_badSampleLimit cfg \<le> int n \<longrightarrow> i + n \<le> length ss
         \<longrightarrow> (\<forall>j. i \<le> j \<and> j < i + n \<longrightarrow> smp_kind (ss ! j) = SampleMissing) \<longrightarrow> ms ! (i + n - 1) = ModeReset)
    \<and> (\<forall>i < length ss. ms ! i = ModeReset \<longrightarrow> smp_kind (ss ! i) = SampleMissing
         \<and> cc_badSampleLimit cfg \<le> int (missing_count (take (i + 1) ss)))"
proof -
  from newConverging_inv [OF assms] have "conv_inv cfg p []" "cv_missing p = 0" by simp_all
  with conv_modes_missing [of cfg p "[]" F ss] obtain ms where ms: "conv_modes F ss p = Some ms" "length ms = length ss"
    "\<And>i. i < length ss \<Longrightarrow> ms ! i = ModeReset \<longleftrightarrow> smp_kind (ss ! i) = SampleMissing
         \<and> cc_badSampleLimit cfg \<le> int (missing_count (take (Suc i) ss))" by auto
  have "ms ! (i + n - 1) = ModeReset"
    if n: "0 < n" "cc_badSampleLimit cfg \<le> int n" "i + n \<le> length ss"
      and run: "\<forall>j. i \<le> j \<and> j < i + n \<longrightarrow> smp_kind (ss ! j) = SampleMissing" for i n
  proof -
    have "n \<le> missing_count (take (i + n) ss)" by (rule missing_count_run [OF n(3)]) (use run in simp)
    then show ?thesis using n run ms(3) [of "i + n - 1"] by simp
  qed
  with ms show ?thesis by simp
qed

text \<open>A concrete configuration for the examples.\<close>

definition sample_cfg :: "int ConvergingConfig" where
  "sample_cfg = \<lparr> cc_kp = 1, cc_ki = 1, cc_medianWindow = 3, cc_offsetLimit = 1000, cc_stableWindow = 1,
     cc_badSampleLimit = 2, cc_stepCompensate = True \<rparr>"

definition sample_start :: "int converging" where
  "sample_start = \<lparr> cv_cfg = sample_cfg, cv_servo = newPiServo int_float 0 1 1 100,
     cv_offsets = \<lparr> mw_values = [0, 0, 0], mw_indices = [], mw_head = 0 \<rparr>, cv_lastSampleEra = 1,
     cv_stepCompensate = True, cv_minMedian = 0, cv_samplesSince = 0, cv_missing = 0 \<rparr>"

definition good_sample :: "int sync_sample" where
  "good_sample = okSample int_float 0 5 1 0 0"

definition missing_sample :: "int sync_sample" where
  "missing_sample = good_sample \<lparr> smp_kind := SampleMissing, smp_offset := 0 \<rparr>"

lemma sample_start: "newConverging int_float sample_cfg 1 0 100 = Some sample_start"
  by (simp add: newConverging_def newWindow_def sample_cfg_def sample_start_def maxCapacity_def numeral_eq_Suc)

theorem converging_sound_witness:
  "\<exists>a m p'. conv_process int_float good_sample sample_start = Some (a, m, p')
    \<and> m \<noteq> ModeInvalid \<and> m \<noteq> ModeTracking"
proof -
  have "conv_reaches int_float sample_cfg sample_start []" by (rule conv_reaches.start [OF sample_start])
  from converging_sound [OF this, of "good_sample"] show ?thesis
    by (auto simp: Let_def sample_cfg_def)
qed

theorem converging_gives_up_witness:
  "\<exists>a b. conv_modes int_float [good_sample, missing_sample, missing_sample] sample_start = Some [a, b, ModeReset]
     \<and> a \<noteq> ModeReset \<and> b \<noteq> ModeReset"
proof -
  let ?ss = "[good_sample, missing_sample, missing_sample]"
  have k: "smp_kind good_sample \<noteq> SampleMissing" "smp_kind missing_sample = SampleMissing"
    by (simp_all add: good_sample_def missing_sample_def okSample_def)
  have l: "cc_badSampleLimit sample_cfg = 2" by (simp add: sample_cfg_def)
  obtain ms where ms: "conv_modes int_float ?ss sample_start = Some ms" "length ms = 3"
    "\<And>i n. 0 < n \<Longrightarrow> 2 \<le> int n \<Longrightarrow> i + n \<le> 3 \<Longrightarrow> \<forall>j. i \<le> j \<and> j < i + n \<longrightarrow> smp_kind (?ss ! j) = SampleMissing \<Longrightarrow>
       ms ! (i + n - 1) = ModeReset"
    "\<And>i. i < 3 \<Longrightarrow> ms ! i = ModeReset \<Longrightarrow> smp_kind (?ss ! i) = SampleMissing \<and> 2 \<le> int (missing_count (take (i + 1) ?ss))"
    using converging_gives_up [OF sample_start, of ?ss] unfolding l by auto
  have "ms ! 2 = ModeReset" using ms(3) [of 2 1] k by (auto simp: less_Suc_eq numeral_eq_Suc nth_Cons split: nat.split)
  moreover have "ms ! 0 \<noteq> ModeReset" "ms ! 1 \<noteq> ModeReset" using ms(4) [of 0] ms(4) [of 1] k by (auto simp: missing_count_def)
  moreover from ms(2) obtain a b c where "ms = [a, b, c]" by (auto simp: numeral_eq_Suc length_Suc_conv)
  ultimately show ?thesis using ms(1) by simp
qed

end
