(* ===== verification/Tracking.thy ===== *)
theory Tracking
  imports Median SyncTypes
begin

text \<open>
  The tracking mode of the clock controller, \<^verbatim>\<open>time/internal/phcsync/tracking.go\<close>: the generator that
  filters edges and waits for corrections, the windows that detect outliers and bad samples, and the
  processor that decides when to give up. A panic is \<open>None\<close>.
\<close>

section \<open>Configuration\<close>

record 'f TrackingConfig =
  tc_kp :: 'f
  tc_ki :: 'f
  tc_madThreshold :: int
  tc_madWindow :: int
  tc_madMultiple :: 'f
  tc_madMinSamples :: int
  tc_outlierThreshold :: int
  tc_pulseWidthTolerance :: int
  tc_alignTolerance :: int
  tc_badSampleRunLimit :: int
  tc_outlierRatioLimit :: 'f
  tc_badSampleWindow :: int
  tc_badSampleRatioLimit :: 'f
  tc_avgFreqTimeConstant :: 'f
  tc_ignoreSawtoothCorrection :: bool
  tc_pulseCorrectionTimeout :: 'f
  tc_persistThreshold :: 'f

section \<open>The generator\<close>

record 'f tracking_gen =
  tg_cfg :: "'f TrackingConfig"
  tg_pt :: pulse_type
  tg_freq :: 'f
  tg_maxFreq :: 'f
  tg_lastSample :: "'f sync_sample"
  tg_pending :: "(pulse_edge \<times> u64) option"

definition newTrackingGen :: "'f TrackingConfig \<Rightarrow> pulse_type \<Rightarrow> 'f sync_sample \<Rightarrow> 'f \<Rightarrow> 'f \<Rightarrow> 'f tracking_gen option" where
  "newTrackingGen cfg pt lastSample freq maxFreq =
     (if pt_edgesPerPulse pt = 2 \<and> pt_pulseWidth pt \<le> 0 then None
      else Some \<lparr> tg_cfg = cfg, tg_pt = pt, tg_freq = freq, tg_maxFreq = maxFreq, tg_lastSample = lastSample, tg_pending = None \<rparr>)"

definition ignoreEdge :: "pulse_edge \<Rightarrow> u64 \<Rightarrow> 'f tracking_gen \<Rightarrow> bool" where
  "ignoreEdge edge edgeIndex g =
     (if pt_edgesPerPulse (tg_pt g) \<noteq> 2 then False
      else let t = ph_t (pe_timestamp edge);
               refTime = duration_round t nsPerSecond;
               off = i64 (t - refTime);
               offsetAbs = duration_abs off;
               alignKeep = (offsetAbs \<le> tc_alignTolerance (tg_cfg g));
               lastEdgeTime = i64 (smp_ref (tg_lastSample g) + smp_offset (tg_lastSample g));
               widthIgnore = (duration_abs (i64 (i64 (t - lastEdgeTime) - pt_pulseWidth (tg_pt g))) \<le> tc_pulseWidthTolerance (tg_cfg g));
               parityIgnore = ((smp_edgeIndex (tg_lastSample g) XOR edgeIndex) AND 1 \<noteq> 0)
           in if alignKeep \<and> \<not> parityIgnore then False
              else if widthIgnore \<and> parityIgnore then True
              else if alignKeep then False
              else if widthIgnore then True
              else parityIgnore)"

definition pulseSample :: "'f float64 \<Rightarrow> msg_env \<Rightarrow> pulse_edge \<Rightarrow> u64 \<Rightarrow> bool \<Rightarrow> 'f tracking_gen \<Rightarrow> 'f sync_sample option \<times> 'f tracking_gen" where
  "pulseSample F env edge edgeIndex ignoreCorr g =
     (let t = ph_t (pe_timestamp edge);
          sec = duration_round t nsPerSecond;
          corr = (if ignoreCorr then None else me_correction env sec)
      in if \<not> ignoreCorr \<and> corr = None \<and> me_wait env sec then (None, g)
         else let refTime = (case corr of None \<Rightarrow> sec | Some pulseOffset \<Rightarrow> i64 (sec + i64 (- pulseOffset)));
                  off = i64 (t - refTime);
                  sample = okSample F refTime off (ph_era (pe_timestamp edge)) edgeIndex (edge_sys edge)
              in (Some sample, g \<lparr> tg_lastSample := sample \<rparr>))"

definition trk_pulseEdgeSample :: "'f float64 \<Rightarrow> msg_env \<Rightarrow> pulse_edge \<Rightarrow> u64 \<Rightarrow> 'f tracking_gen \<Rightarrow> 'f sync_sample option \<times> 'f tracking_gen" where
  "trk_pulseEdgeSample F env edge edgeIndex g =
     (if ignoreEdge edge edgeIndex g then (None, g)
      else let g = g \<lparr> tg_pending := None \<rparr>;
               (sample, g) = pulseSample F env edge edgeIndex (tc_ignoreSawtoothCorrection (tg_cfg g)) g
           in if sample = None then (None, g \<lparr> tg_pending := Some (edge, edgeIndex) \<rparr>) else (sample, g))"

definition trk_timeMessageSample :: "'f float64 \<Rightarrow> msg_env \<Rightarrow> 'f tracking_gen \<Rightarrow> 'f sync_sample option \<times> 'f tracking_gen" where
  "trk_timeMessageSample F env g =
     (case tg_pending g of None \<Rightarrow> (None, g)
      | Some (edge, edgeIndex) \<Rightarrow>
          let (sample, g) = pulseSample F env edge edgeIndex (tc_ignoreSawtoothCorrection (tg_cfg g)) g
          in if sample \<noteq> None then (sample, g \<lparr> tg_pending := None \<rparr>) else (None, g))"

definition pendingPulseDeadline :: "'f float64 \<Rightarrow> 'f tracking_gen \<Rightarrow> int" where
  "pendingPulseDeadline F g =
     (case tg_pending g of None \<Rightarrow> zeroTime
      | Some (edge, _) \<Rightarrow> edge_sys edge + seconds_duration F (tc_pulseCorrectionTimeout (tg_cfg g)))"

definition trk_tickSample :: "'f float64 \<Rightarrow> msg_env \<Rightarrow> int \<Rightarrow> 'f tracking_gen \<Rightarrow> 'f sync_sample option \<times> 'f tracking_gen" where
  "trk_tickSample F env now g =
     (case tg_pending g of None \<Rightarrow> (None, g)
      | Some (edge, edgeIndex) \<Rightarrow>
          if \<not> now > pendingPulseDeadline F g then (None, g)
          else let (sample, g) = pulseSample F env edge edgeIndex True g in (sample, g \<lparr> tg_pending := None \<rparr>))"

section \<open>The window of offsets\<close>

record mad_window =
  mad_window :: "int window"
  mad_outliers :: "bool buffer"
  mad_outlierCount :: int

definition newMADWindow :: "int \<Rightarrow> mad_window option" where
  "newMADWindow capacity =
     Option.bind (newWindow 0 capacity) (\<lambda>w. Option.bind (newBuffer False capacity) (\<lambda>b.
       Some \<lparr> mad_window = w, mad_outliers = b, mad_outlierCount = 0 \<rparr>))"

text \<open>The count of the true flags in a buffer, kept when a flag is about to be forgotten.\<close>

definition evict_count :: "bool buffer \<Rightarrow> int \<Rightarrow> int" where
  "evict_count b n = (if bufLen b = bufCap b \<and> bufLast False (int (bufLen b) - 1) b then n - 1 else n)"

definition madAdd :: "int \<Rightarrow> mad_window \<Rightarrow> mad_window option" where
  "madAdd off w =
     (let w = w \<lparr> mad_outlierCount := evict_count (mad_outliers w) (mad_outlierCount w) \<rparr>
      in Option.bind (winAdd off (mad_window w)) (\<lambda>win. Option.bind (bufAppend False (mad_outliers w)) (\<lambda>b.
           Some (w \<lparr> mad_window := win, mad_outliers := b \<rparr>))))"

definition setLastOutlier :: "mad_window \<Rightarrow> mad_window" where
  "setLastOutlier w =
     (if bufLen (mad_outliers w) = 0 then w
      else w \<lparr> mad_outliers := bufSetLast 0 True (mad_outliers w), mad_outlierCount := mad_outlierCount w + 1 \<rparr>)"

definition madIsOutlier :: "'f float64 \<Rightarrow> 'f TrackingConfig \<Rightarrow> int \<Rightarrow> mad_window \<Rightarrow> bool" where
  "madIsOutlier F cfg off w =
     (if int (winLen (mad_window w)) < tc_madMinSamples cfg then False
      else let center = winMedian (mad_window w);
               mad = seqMedian (fst (winIterate (\<lambda>vs _ v. (vs @ [duration_abs (i64 (v - center))], True)) (mad_window w) []));
               threshold = f_trunc F (f_mul F (f_int F mad) (tc_madMultiple cfg));
               deviation = duration_abs (i64 (off - center))
           in deviation > threshold)"

section \<open>The processor\<close>

record 'f tracking =
  tp_servo :: "'f piServo"
  tp_cfg :: "'f TrackingConfig"
  tp_consecutiveBad :: int
  tp_avgFreq :: 'f
  tp_emaAlpha :: 'f
  tp_mad :: mad_window
  tp_badSamples :: "bool buffer"
  tp_badSampleCount :: int
  tp_persistThreshold :: int
  tp_startTime :: int
  tp_persistSample :: "phc_sample option"

definition newTracking :: "'f float64 \<Rightarrow> 'f TrackingConfig \<Rightarrow> 'f \<Rightarrow> 'f \<Rightarrow> 'f tracking option" where
  "newTracking F cfg currentFreq maxFreq =
     (let emaAlpha = (if f_lt F (f_int F 0) (tc_avgFreqTimeConstant cfg)
            then f_sub F (f_int F 1) (f_exp F (f_div F (f_int F (- 1)) (tc_avgFreqTimeConstant cfg))) else f_int F 0)
      in Option.bind (newMADWindow (tc_madWindow cfg)) (\<lambda>mad. Option.bind (newBuffer False (tc_badSampleWindow cfg)) (\<lambda>bad.
           Some \<lparr> tp_servo = newPiServo F currentFreq (tc_kp cfg) (tc_ki cfg) maxFreq, tp_cfg = cfg, tp_consecutiveBad = 0,
             tp_avgFreq = currentFreq, tp_emaAlpha = emaAlpha, tp_mad = mad, tp_badSamples = bad, tp_badSampleCount = 0,
             tp_persistThreshold = seconds_duration F (tc_persistThreshold cfg), tp_startTime = zeroTime, tp_persistSample = None \<rparr>)))"

text \<open>The action, the sample with its kind set, and the state after them.\<close>

definition sampleAction :: "'f float64 \<Rightarrow> 'f sync_sample \<Rightarrow> 'f tracking \<Rightarrow> ('f phcAction \<times> 'f sync_sample \<times> 'f tracking) option" where
  "sampleAction F s p =
     (if smp_kind s = SampleMissing then Some (noAction F, s, p)
      else let absOffset = duration_abs (smp_offset s)
        in if tc_outlierThreshold (tp_cfg p) \<le> absOffset then Some (noAction F, s \<lparr> smp_kind := SampleOutlier \<rparr>, p)
           else Option.bind (madAdd (smp_offset s) (tp_mad p)) (\<lambda>mad.
             let p = p \<lparr> tp_mad := mad \<rparr>
             in if tc_madMinSamples (tp_cfg p) \<le> int (winLen (mad_window mad)) \<and> tc_madThreshold (tp_cfg p) \<le> absOffset
                  \<and> madIsOutlier F (tp_cfg p) (smp_offset s) mad
                then Some (noAction F, s \<lparr> smp_kind := SampleOutlier \<rparr>, p \<lparr> tp_mad := setLastOutlier mad \<rparr>)
                else let (freq, servo) = pi_sample F (smp_offset s) (tp_servo p);
                         avg = f_add F (f_mul F (tp_emaAlpha p) freq) (f_mul F (f_sub F (f_int F 1) (tp_emaAlpha p)) (tp_avgFreq p))
                     in Some ((noAction F) \<lparr> act_type := PhcAdjustFrequency, act_freq := freq \<rparr>, s,
                              p \<lparr> tp_servo := servo, tp_avgFreq := avg \<rparr>)))"

text \<open>The bookkeeping of a bad and of a good sample.\<close>

definition noteBad :: "'f float64 \<Rightarrow> 'f phcAction \<Rightarrow> 'f tracking \<Rightarrow> 'f phcAction \<times> 'f tracking" where
  "noteBad F action p =
     (let p = p \<lparr> tp_consecutiveBad := tp_consecutiveBad p + 1 \<rparr>
      in if tp_consecutiveBad p = 1 \<and> f_lt F (f_int F 0) (tc_avgFreqTimeConstant (tp_cfg p))
         then (action \<lparr> act_type := PhcAdjustFrequency, act_freq := tp_avgFreq p \<rparr>,
               p \<lparr> tp_servo := pi_reset F (tp_avgFreq p) (tp_servo p) \<rparr>)
         else (action, p))"

definition noteGood :: "'f sync_sample \<Rightarrow> 'f tracking \<Rightarrow> 'f tracking" where
  "noteGood s p =
     (let p = p \<lparr> tp_consecutiveBad := 0 \<rparr>;
          p = (if tp_startTime p = zeroTime then p \<lparr> tp_startTime := smp_sys s \<rparr> else p)
      in if tp_persistThreshold p \<le> time_sub (smp_sys s) (tp_startTime p)
         then p \<lparr> tp_persistSample := Some (sysSample s) \<rparr> else p)"

text \<open>The sliding window of bad samples.\<close>

definition slideBad :: "bool \<Rightarrow> 'f tracking \<Rightarrow> 'f tracking option" where
  "slideBad isBad p =
     (let n = evict_count (tp_badSamples p) (tp_badSampleCount p)
      in Option.bind (bufAppend isBad (tp_badSamples p)) (\<lambda>b.
           Some (p \<lparr> tp_badSamples := b, tp_badSampleCount := (if isBad then n + 1 else n) \<rparr>)))"

definition ratio_exceeds :: "'f float64 \<Rightarrow> int \<Rightarrow> nat \<Rightarrow> 'f \<Rightarrow> bool" where
  "ratio_exceeds F n k limit = f_lt F limit (f_div F (f_int F n) (f_int F (int k)))"

definition giveUp :: "'f float64 \<Rightarrow> 'f tracking \<Rightarrow> bool" where
  "giveUp F p =
     (if tp_consecutiveBad p > tc_badSampleRunLimit (tp_cfg p) then True
      else if tc_madMinSamples (tp_cfg p) \<le> int (winLen (mad_window (tp_mad p)))
           \<and> ratio_exceeds F (mad_outlierCount (tp_mad p)) (winLen (mad_window (tp_mad p))) (tc_outlierRatioLimit (tp_cfg p)) then True
      else bufLen (tp_badSamples p) = bufCap (tp_badSamples p)
           \<and> ratio_exceeds F (tp_badSampleCount p) (bufLen (tp_badSamples p)) (tc_badSampleRatioLimit (tp_cfg p)))"

definition trk_process :: "'f float64 \<Rightarrow> 'f sync_sample \<Rightarrow> 'f tracking \<Rightarrow> ('f phcAction \<times> mode \<times> 'f sync_sample \<times> 'f tracking) option" where
  "trk_process F s p =
     Option.bind (sampleAction F s p) (\<lambda>(action, s, p).
       let isBad = (act_type action = PhcNoAction);
           (action, p) = (if isBad then noteBad F action p else (action, noteGood s p))
       in Option.bind (slideBad isBad p) (\<lambda>p.
            Some (action, if giveUp F p then ModeReset else ModeTracking, s, p)))"

section \<open>Counting in sliding windows\<close>

definition trues :: "bool list \<Rightarrow> int" where
  "trues bs = int (length (filter id bs))"

lemma trues_simps [simp]: "trues [] = 0" "trues (b # bs) = (if b then 1 else 0) + trues bs"
  by (simp_all add: trues_def)

lemma trues_append [simp]: "trues (xs @ ys) = trues xs + trues ys"
  by (simp add: trues_def)

lemma buf_ok_pos: "buf_ok b \<Longrightarrow> 0 < bufCap b"
  by (simp add: buf_ok_def bufCap_def)

text \<open>Evicting the oldest flag and appending one keeps the count of the true flags exact.\<close>

lemma slide_count:
  assumes "buf_ok b"
  shows "\<exists>b'. bufAppend v b = Some b' \<and> buf_ok b' \<and> bufCap b' = bufCap b
    \<and> buf_contents b' = take (bufCap b) (v # buf_contents b)
    \<and> trues (buf_contents b') = (if v then 1 else 0) + evict_count b (trues (buf_contents b))"
proof -
  from bufAppend_spec [OF assms, of v] obtain b' where b': "bufAppend v b = Some b'" "buf_ok b'" "bufCap b' = bufCap b"
    "buf_contents b' = take (bufCap b) (v # buf_contents b)" by blast
  let ?c = "buf_contents b"
  have len: "length ?c = bufLen b" "bufLen b \<le> bufCap b" "0 < bufCap b"
    using length_contents [OF assms] contents_bufCap [OF assms] assms by (simp_all add: buf_ok_def bufCap_def)
  have "trues (buf_contents b') = (if v then 1 else 0) + evict_count b (trues ?c)"
  proof (cases "bufLen b = bufCap b")
    case True
    with len have ne: "?c \<noteq> []" by (cases ?c) auto
    have "take (bufCap b) (v # ?c) = v # butlast ?c"
      using True len by (cases "bufCap b") (simp_all add: butlast_conv_take)
    moreover have "bufLast False (int (bufLen b) - 1) b = last ?c"
      using len ne True by (simp add: bufLast_spec [OF assms] last_conv_nth nat_diff_distrib)
    moreover have "trues ?c = trues (butlast ?c) + trues [last ?c]"
      by (metis ne append_butlast_last_id trues_append)
    ultimately show ?thesis using b'(4) True by (simp add: evict_count_def)
  next
    case False
    with len have "take (bufCap b) (v # ?c) = v # ?c" by simp
    then show ?thesis using b'(4) False by (simp add: evict_count_def)
  qed
  with b' show ?thesis by blast
qed

definition mad_ok :: "nat \<Rightarrow> mad_window \<Rightarrow> bool" where
  "mad_ok n w \<longleftrightarrow> win_ok (mad_window w) \<and> buf_ok (mad_outliers w) \<and> winCap (mad_window w) = n \<and> bufCap (mad_outliers w) = n
     \<and> winLen (mad_window w) = bufLen (mad_outliers w) \<and> mad_outlierCount w = trues (buf_contents (mad_outliers w))"

lemma madAdd_ok:
  assumes "mad_ok n w"
  shows "\<exists>w'. madAdd off w = Some w' \<and> mad_ok n w' \<and> 0 < bufLen (mad_outliers w') \<and> \<not> buf_contents (mad_outliers w') ! 0"
proof -
  have ok: "win_ok (mad_window w)" "buf_ok (mad_outliers w)" using assms by (simp_all add: mad_ok_def)
  from winAdd_spec [OF ok(1), of off] obtain win where win: "winAdd off (mad_window w) = Some win" "win_ok win"
    "winCap win = winCap (mad_window w)" "win_contents win = take (winCap (mad_window w)) (off # win_contents (mad_window w))"
    by blast
  from slide_count [OF ok(2), of False] obtain b where b: "bufAppend False (mad_outliers w) = Some b" "buf_ok b"
    "bufCap b = bufCap (mad_outliers w)" "buf_contents b = take (bufCap (mad_outliers w)) (False # buf_contents (mad_outliers w))"
    "trues (buf_contents b) = evict_count (mad_outliers w) (trues (buf_contents (mad_outliers w)))" by auto
  have n: "0 < n" using buf_ok_pos [OF ok(2)] assms by (simp add: mad_ok_def)
  have "winLen win = bufLen b"
    using assms winLen_contents [OF ok(1)] length_contents [OF ok(2)]
    by (simp add: winLen_contents [OF win(2)] win(4) length_contents [OF b(2), symmetric] b(4) mad_ok_def)
  moreover have "0 < bufLen b" "\<not> buf_contents b ! 0"
    using n assms by (simp_all add: length_contents [OF b(2), symmetric] b(4) mad_ok_def)
  ultimately show ?thesis using win b assms by (simp add: madAdd_def mad_ok_def)
qed

lemma setLastOutlier_ok:
  assumes "mad_ok n w" "0 < bufLen (mad_outliers w)" "\<not> buf_contents (mad_outliers w) ! 0"
  shows "mad_ok n (setLastOutlier w)" "mad_window (setLastOutlier w) = mad_window w"
proof -
  have ok: "buf_ok (mad_outliers w)" using assms by (simp add: mad_ok_def)
  have c: "buf_contents (bufSetLast 0 True (mad_outliers w)) = (buf_contents (mad_outliers w))[0 := True]"
    using bufSetLast_contents [OF ok, of 0 True] assms(2) by simp
  obtain x xs where x: "buf_contents (mad_outliers w) = x # xs"
    using assms(2) length_contents [OF ok] by (cases "buf_contents (mad_outliers w)") auto
  show "mad_ok n (setLastOutlier w)"
    using assms bufSetLast_spec [OF ok, of 0 True] c x by (simp add: setLastOutlier_def mad_ok_def)
  show "mad_window (setLastOutlier w) = mad_window w" by (simp add: setLastOutlier_def)
qed

section \<open>What a run has seen\<close>

text \<open>
  The states a processor reaches on samples that are missing or valid, with a flag for each sample,
  the most recent first: whether it came out bad, missing or an outlier.
\<close>

inductive trk_reaches :: "'f float64 \<Rightarrow> 'f TrackingConfig \<Rightarrow> 'f tracking \<Rightarrow> bool list \<Rightarrow> bool"
  for F cfg where
  start: "newTracking F cfg freq maxFreq = Some p \<Longrightarrow> trk_reaches F cfg p []"
| step: "trk_reaches F cfg p hist \<Longrightarrow> smp_kind s \<noteq> SampleOutlier \<Longrightarrow> trk_process F s p = Some (action, m, s', p') \<Longrightarrow>
    trk_reaches F cfg p' ((smp_kind s' \<noteq> SampleOK) # hist)"

definition bad_run :: "bool list \<Rightarrow> int" where
  "bad_run hist = int (length (takeWhile id hist))"

definition trk_inv :: "'f TrackingConfig \<Rightarrow> 'f tracking \<Rightarrow> bool list \<Rightarrow> bool" where
  "trk_inv cfg p hist \<longleftrightarrow> tp_cfg p = cfg \<and> mad_ok (nat (tc_madWindow cfg)) (tp_mad p)
     \<and> buf_ok (tp_badSamples p) \<and> bufCap (tp_badSamples p) = nat (tc_badSampleWindow cfg)
     \<and> buf_contents (tp_badSamples p) = take (nat (tc_badSampleWindow cfg)) hist
     \<and> tp_badSampleCount p = trues (buf_contents (tp_badSamples p)) \<and> tp_consecutiveBad p = bad_run hist"

lemma newTracking_inv:
  assumes "newTracking F cfg freq maxFreq = Some p"
  shows "trk_inv cfg p []"
proof -
  from assms obtain mad bad where d: "newMADWindow (tc_madWindow cfg) = Some mad" "newBuffer False (tc_badSampleWindow cfg) = Some bad"
    and p: "tp_cfg p = cfg" "tp_mad p = mad" "tp_badSamples p = bad" "tp_badSampleCount p = 0" "tp_consecutiveBad p = 0"
    by (auto simp: newTracking_def Let_def bind_Some_iff)
  have "mad_ok (nat (tc_madWindow cfg)) mad"
    using d(1) by (auto simp: newMADWindow_def bind_Some_iff newWindow_def newBuffer_def mad_ok_def win_ok_def buf_ok_def
      winCap_def bufCap_def winLen_def bufLen_def buf_contents_def maxCapacity_def split: if_splits)
  moreover have "buf_ok bad" "bufCap bad = nat (tc_badSampleWindow cfg)" "buf_contents bad = []"
    using d(2) by (auto simp: newBuffer_def buf_ok_def bufCap_def buf_contents_def split: if_splits)
  ultimately show ?thesis using p by (simp add: trk_inv_def bad_run_def)
qed

text \<open>The part of the invariant an action leaves alone.\<close>

definition same_window :: "'f tracking \<Rightarrow> 'f tracking \<Rightarrow> bool" where
  "same_window p q \<longleftrightarrow> tp_cfg q = tp_cfg p \<and> tp_badSamples q = tp_badSamples p \<and> tp_badSampleCount q = tp_badSampleCount p"

lemma sampleAction_ok:
  assumes "mad_ok n (tp_mad p)" "smp_kind s \<noteq> SampleOutlier"
  shows "\<exists>a s' p'. sampleAction F s p = Some (a, s', p') \<and> mad_ok n (tp_mad p') \<and> same_window p p'
    \<and> tp_consecutiveBad p' = tp_consecutiveBad p
    \<and> (act_type a = PhcNoAction \<longleftrightarrow> smp_kind s' \<noteq> SampleOK)
    \<and> s' = s \<lparr> smp_kind := smp_kind s' \<rparr> \<and> (smp_kind s = SampleMissing \<longleftrightarrow> smp_kind s' = SampleMissing)"
proof (cases "smp_kind s = SampleMissing \<or> tc_outlierThreshold (tp_cfg p) \<le> duration_abs (smp_offset s)")
  case True
  then show ?thesis using assms by (auto simp: sampleAction_def noAction_def Let_def same_window_def)
next
  case False
  from assms(2) False have k: "smp_kind s = SampleOK" by (cases "smp_kind s") auto
  from madAdd_ok [OF assms(1), of "smp_offset s"] obtain mad where m: "madAdd (smp_offset s) (tp_mad p) = Some mad"
    "mad_ok n mad" "0 < bufLen (mad_outliers mad)" "\<not> buf_contents (mad_outliers mad) ! 0" by blast
  obtain freq servo where sv: "pi_sample F (smp_offset s) (tp_servo p) = (freq, servo)"
    by (cases "pi_sample F (smp_offset s) (tp_servo p)")
  show ?thesis using False k m setLastOutlier_ok [OF m(2-4)] sv
    by (auto simp: sampleAction_def noAction_def Let_def same_window_def)
qed

lemma note_frame:
  "tp_mad (snd (noteBad F a p)) = tp_mad p" "same_window p (snd (noteBad F a p))"
  "tp_consecutiveBad (snd (noteBad F a p)) = tp_consecutiveBad p + 1"
  "tp_mad (noteGood s p) = tp_mad p" "same_window p (noteGood s p)" "tp_consecutiveBad (noteGood s p) = 0"
  by (auto simp: noteBad_def noteGood_def same_window_def Let_def)

lemma slideBad_ok:
  assumes "buf_ok (tp_badSamples p)" "tp_badSampleCount p = trues (buf_contents (tp_badSamples p))"
  shows "\<exists>p'. slideBad bad p = Some p' \<and> tp_cfg p' = tp_cfg p \<and> tp_mad p' = tp_mad p \<and> tp_consecutiveBad p' = tp_consecutiveBad p
    \<and> buf_ok (tp_badSamples p') \<and> bufCap (tp_badSamples p') = bufCap (tp_badSamples p)
    \<and> buf_contents (tp_badSamples p') = take (bufCap (tp_badSamples p)) (bad # buf_contents (tp_badSamples p))
    \<and> tp_badSampleCount p' = trues (buf_contents (tp_badSamples p'))"
proof -
  from slide_count [OF assms(1), of bad] obtain b where "bufAppend bad (tp_badSamples p) = Some b" "buf_ok b"
    "bufCap b = bufCap (tp_badSamples p)" "buf_contents b = take (bufCap (tp_badSamples p)) (bad # buf_contents (tp_badSamples p))"
    "trues (buf_contents b) = (if bad then 1 else 0) + evict_count (tp_badSamples p) (trues (buf_contents (tp_badSamples p)))"
    by blast
  then show ?thesis using assms(2) by (simp add: slideBad_def Let_def)
qed

lemma process_ok:
  assumes "trk_inv cfg p hist" "smp_kind s \<noteq> SampleOutlier"
  shows "\<exists>a m s' p'. trk_process F s p = Some (a, m, s', p') \<and> trk_inv cfg p' ((smp_kind s' \<noteq> SampleOK) # hist)
    \<and> m = (if giveUp F p' then ModeReset else ModeTracking)
    \<and> s' = s \<lparr> smp_kind := smp_kind s' \<rparr> \<and> (smp_kind s = SampleMissing \<longleftrightarrow> smp_kind s' = SampleMissing)"
proof -
  let ?n = "nat (tc_madWindow cfg)" and ?w = "nat (tc_badSampleWindow cfg)"
  from sampleAction_ok [OF _ assms(2), of ?n p F] assms(1) obtain a s' p1 where
    sa: "sampleAction F s p = Some (a, s', p1)" "mad_ok ?n (tp_mad p1)" "same_window p p1"
      "tp_consecutiveBad p1 = tp_consecutiveBad p" "act_type a = PhcNoAction \<longleftrightarrow> smp_kind s' \<noteq> SampleOK"
    and s': "s' = s \<lparr> smp_kind := smp_kind s' \<rparr>" "smp_kind s = SampleMissing \<longleftrightarrow> smp_kind s' = SampleMissing"
    by (auto simp: trk_inv_def)
  let ?bad = "smp_kind s' \<noteq> SampleOK"
  obtain a2 p2 where n: "(if ?bad then noteBad F a p1 else (a, noteGood s' p1)) = (a2, p2)"
    by (cases "if ?bad then noteBad F a p1 else (a, noteGood s' p1)")
  have p2: "tp_mad p2 = tp_mad p1" "same_window p1 p2" "tp_consecutiveBad p2 = (if ?bad then tp_consecutiveBad p1 + 1 else 0)"
  proof -
    have "p2 = (if ?bad then snd (noteBad F a p1) else noteGood s' p1)" using arg_cong [OF n, of snd] by auto
    then show "tp_mad p2 = tp_mad p1" "same_window p1 p2" "tp_consecutiveBad p2 = (if ?bad then tp_consecutiveBad p1 + 1 else 0)"
      by (simp_all add: note_frame)
  qed
  have inv2: "buf_ok (tp_badSamples p2)" "tp_badSampleCount p2 = trues (buf_contents (tp_badSamples p2))"
    using assms(1) sa(3) p2(2) by (simp_all add: trk_inv_def same_window_def)
  from slideBad_ok [OF inv2, of ?bad] obtain p3 where p3: "slideBad ?bad p2 = Some p3" "tp_cfg p3 = tp_cfg p2" "tp_mad p3 = tp_mad p2"
    "tp_consecutiveBad p3 = tp_consecutiveBad p2" "buf_ok (tp_badSamples p3)" "bufCap (tp_badSamples p3) = bufCap (tp_badSamples p2)"
    "buf_contents (tp_badSamples p3) = take (bufCap (tp_badSamples p2)) (?bad # buf_contents (tp_badSamples p2))"
    "tp_badSampleCount p3 = trues (buf_contents (tp_badSamples p3))" by blast
  have w: "0 < ?w" using assms(1) buf_ok_pos [of "tp_badSamples p"] by (simp add: trk_inv_def)
  have "buf_contents (tp_badSamples p3) = take ?w (?bad # hist)"
    using assms(1) sa(3) p2(2) p3(7) w by (cases ?w) (simp_all add: trk_inv_def same_window_def min_def)
  moreover have "tp_consecutiveBad p3 = bad_run (?bad # hist)"
    using assms(1) sa(4) p2(3) p3(4) by (simp add: trk_inv_def bad_run_def)
  ultimately have "trk_inv cfg p3 (?bad # hist)"
    using assms(1) sa(2,3) p2(1,2) p3 by (simp add: trk_inv_def same_window_def)
  moreover have "trk_process F s p = Some (a2, if giveUp F p3 then ModeReset else ModeTracking, s', p3)"
    using sa(1,5) n p3(1) by (simp add: trk_process_def Let_def)
  ultimately show ?thesis using s' by blast
qed

lemma trk_reaches_inv: "trk_reaches F cfg p hist \<Longrightarrow> trk_inv cfg p hist"
proof (induction rule: trk_reaches.induct)
  case (start freq maxFreq p)
  then show ?case by (rule newTracking_inv)
next
  case (step p hist s action m s' p')
  from process_ok [OF step.IH step.hyps(2), of F] step.hyps(3) show ?case by auto
qed

text \<open>C18: The tracking mode counts exactly and gives up exactly at its limits. From every state a processor
  reaches, with \<open>hist\<close> the flags of the bad samples so far, processing a sample returns, and with the
  flag of this sample added it leaves for the reset mode if and only if the run of bad samples is
  longer than its limit, or the window of offsets is warm and the ratio of the outliers flagged in it
  too high, or the window of samples is full and the ratio of the bad ones in it too high. The counters
  behind these ratios always equal the number of true flags in their windows.\<close>
theorem tracking_limits:
  assumes "trk_reaches F cfg p hist" "smp_kind s \<noteq> SampleOutlier"
  shows "\<exists>a m s' p'. trk_process F s p = Some (a, m, s', p') \<and> (m = ModeReset \<or> m = ModeTracking)
    \<and> (let hist' = (smp_kind s' \<noteq> SampleOK) # hist; w = nat (tc_badSampleWindow cfg);
           flags = buf_contents (mad_outliers (tp_mad p'))
       in length flags = winLen (mad_window (tp_mad p')) \<and> mad_outlierCount (tp_mad p') = trues flags
        \<and> (m = ModeReset \<longleftrightarrow> bad_run hist' > tc_badSampleRunLimit cfg
             \<or> (tc_madMinSamples cfg \<le> int (length flags) \<and> ratio_exceeds F (trues flags) (length flags) (tc_outlierRatioLimit cfg))
             \<or> (w \<le> length hist' \<and> ratio_exceeds F (trues (take w hist')) w (tc_badSampleRatioLimit cfg))))"
proof -
  from process_ok [OF trk_reaches_inv [OF assms(1)] assms(2), of F] obtain a m s' p' where
    o: "trk_process F s p = Some (a, m, s', p')" "m = (if giveUp F p' then ModeReset else ModeTracking)"
    and inv: "trk_inv cfg p' ((smp_kind s' \<noteq> SampleOK) # hist)" by blast
  let ?h = "(smp_kind s' \<noteq> SampleOK) # hist" and ?w = "nat (tc_badSampleWindow cfg)"
  have bad: "buf_ok (tp_badSamples p')" "bufCap (tp_badSamples p') = ?w" "buf_contents (tp_badSamples p') = take ?w ?h"
    "tp_badSampleCount p' = trues (take ?w ?h)" "tp_consecutiveBad p' = bad_run ?h" "tp_cfg p' = cfg"
    using inv by (simp_all add: trk_inv_def)
  have len: "bufLen (tp_badSamples p') = min (length ?h) ?w"
    unfolding length_contents [OF bad(1), symmetric] bad(3) by simp
  have mad: "winLen (mad_window (tp_mad p')) = length (buf_contents (mad_outliers (tp_mad p')))"
    "mad_outlierCount (tp_mad p') = trues (buf_contents (mad_outliers (tp_mad p')))"
    using inv by (simp_all add: trk_inv_def mad_ok_def length_contents)
  have "giveUp F p' \<longleftrightarrow> bad_run ?h > tc_badSampleRunLimit cfg
      \<or> (tc_madMinSamples cfg \<le> int (length (buf_contents (mad_outliers (tp_mad p'))))
          \<and> ratio_exceeds F (trues (buf_contents (mad_outliers (tp_mad p')))) (length (buf_contents (mad_outliers (tp_mad p')))) (tc_outlierRatioLimit cfg))
      \<or> (?w \<le> length ?h \<and> ratio_exceeds F (trues (take ?w ?h)) ?w (tc_badSampleRatioLimit cfg))"
    unfolding giveUp_def bad mad len by (auto simp: min_def)
  with o mad show ?thesis by (simp add: Let_def)
qed

definition track_cfg :: "int TrackingConfig" where
  "track_cfg = \<lparr> tc_kp = 1, tc_ki = 1, tc_madThreshold = 100, tc_madWindow = 3, tc_madMultiple = 3, tc_madMinSamples = 3,
     tc_outlierThreshold = 1000, tc_pulseWidthTolerance = 100, tc_alignTolerance = 100, tc_badSampleRunLimit = 1,
     tc_outlierRatioLimit = 1, tc_badSampleWindow = 3, tc_badSampleRatioLimit = 1, tc_avgFreqTimeConstant = 0,
     tc_ignoreSawtoothCorrection = True, tc_pulseCorrectionTimeout = 0, tc_persistThreshold = 900 \<rparr>"

text \<open>Two bad samples in a row are one too many here: the second, an outlier, ends the tracking mode.\<close>

theorem tracking_limits_witness:
  "\<exists>p p' a. newTracking int_float track_cfg 0 100 = Some p
    \<and> trk_process int_float (okSample int_float 0 5000 1 0 0) p = Some (a, ModeTracking, (okSample int_float 0 5000 1 0 0) \<lparr> smp_kind := SampleOutlier \<rparr>, p')
    \<and> (\<exists>a s p2. trk_process int_float (okSample int_float 0 6000 1 0 0) p' = Some (a, ModeReset, s, p2))"
proof -
  let ?s = "okSample int_float 0 5000 1 0 0" and ?t = "okSample int_float 0 6000 1 0 0"
  let ?p = "the (newTracking int_float track_cfg 0 100)"
  let ?r = "the (trk_process int_float ?s ?p)"
  let ?q = "snd (snd (snd ?r))"
  have p: "newTracking int_float track_cfg 0 100 = Some ?p" by code_simp
  have m: "fst (snd ?r) = ModeTracking" by code_simp
  have k: "fst (snd (snd ?r)) = ?s \<lparr> smp_kind := SampleOutlier \<rparr>" by code_simp
  have "trk_process int_float ?s ?p \<noteq> None" by code_simp
  then have r: "trk_process int_float ?s ?p = Some (fst ?r, ModeTracking, ?s \<lparr> smp_kind := SampleOutlier \<rparr>, ?q)"
    unfolding m [symmetric] k [symmetric] by auto
  have ok: "smp_kind ?s \<noteq> SampleOutlier" "smp_kind ?t \<noteq> SampleOutlier" by (simp_all add: okSample_def)
  have reach: "trk_reaches int_float track_cfg ?q [True]"
    using trk_reaches.step [OF trk_reaches.start [OF p] ok(1) r] by simp
  from tracking_limits [OF reach ok(2)] obtain a m s2 p2 where
    t: "trk_process int_float ?t ?q = Some (a, m, s2, p2)"
      "m = ModeReset \<longleftrightarrow> bad_run ((smp_kind s2 \<noteq> SampleOK) # [True]) > tc_badSampleRunLimit track_cfg
         \<or> (tc_madMinSamples track_cfg \<le> int (length (buf_contents (mad_outliers (tp_mad p2)))) \<and> ratio_exceeds int_float (trues (buf_contents (mad_outliers (tp_mad p2)))) (length (buf_contents (mad_outliers (tp_mad p2)))) (tc_outlierRatioLimit track_cfg))
         \<or> (nat (tc_badSampleWindow track_cfg) \<le> length ((smp_kind s2 \<noteq> SampleOK) # [True]) \<and> ratio_exceeds int_float (trues (take (nat (tc_badSampleWindow track_cfg)) ((smp_kind s2 \<noteq> SampleOK) # [True]))) (nat (tc_badSampleWindow track_cfg)) (tc_badSampleRatioLimit track_cfg))"
    by (auto simp: Let_def)
  have "smp_kind (fst (snd (snd (the (trk_process int_float ?t ?q))))) = SampleOutlier" by code_simp
  with t have "m = ModeReset" by (simp add: bad_run_def track_cfg_def)
  with p r t(1) show ?thesis by blast
qed

end
