(* ===== verification/Grandmaster.thy ===== *)
theory Grandmaster
  imports PTime "HOL-Library.Word"
begin

unbundle bit_operations_syntax

text \<open>
  The grandmaster settings that the controller keeps sent to \<^verbatim>\<open>ptp4l\<close>:
  \<^verbatim>\<open>time/internal/ptpgm/gm.go\<close>, and of its worker goroutine (\<^verbatim>\<open>ptp4l.go\<close>) the order of its channel
  operations. The state holds both sides: the update channel, which has room for one request, the
  request the worker has taken, and the answer waiting in the response channel. A request is sent to a
  full channel by a panic, \<open>None\<close>.
\<close>

section \<open>State\<close>

record clock_quality =
  cq_class :: "8 word"
  cq_accuracy :: "8 word"
  cq_variance :: "16 word"

record gm_props =
  gp_leap :: LeapSecondState
  gp_quality :: clock_quality
  gp_timeFlags :: "8 word"

datatype sync_state = NoSync | InSync

record grandmaster =
  gm_target :: gm_props
  gm_lastAttempt :: "gm_props option"
  gm_confirmed :: bool
  gm_waiting :: bool
  gm_clockQual :: clock_quality
  gm_nextRetry :: "int option"
  gm_update :: "gm_props option"
  gm_worker :: "gm_props option"
  gm_answer :: "bool option"
  gm_closed :: bool
  gm_sent :: "gm_props list"

text \<open>
  \<^verbatim>\<open>gm_waiting\<close> says that \<^verbatim>\<open>respCh\<close> is not nil, \<^verbatim>\<open>gm_nextRetry\<close> is \<open>None\<close> for the zero time, and
  \<^verbatim>\<open>gm_sent\<close> is the history of the requests sent, the most recent first.
\<close>

definition updateRetryInterval :: int where "updateRetryInterval = 30 * nsPerSecond"

definition noSyncClockQuality :: clock_quality where
  "noSyncClockQuality = \<lparr> cq_class = 52, cq_accuracy = 0xFE, cq_variance = 0xffff \<rparr>"

definition leap61 :: "8 word" where "leap61 = 1"
definition leap59 :: "8 word" where "leap59 = 2"
definition currentUTCOffsetValid :: "8 word" where "currentUTCOffsetValid = 4"
definition ptpTimescale :: "8 word" where "ptpTimescale = 8"
definition timeTraceable :: "8 word" where "timeTraceable = 16"
definition frequencyTraceable :: "8 word" where "frequencyTraceable = 32"

definition pmcLeapFlags :: "int \<Rightarrow> 8 word" where
  "pmcLeapFlags leapTonight = (if leapTonight = 1 then leap61 else if leapTonight = - 1 then leap59 else 0)"

section \<open>Operations\<close>

definition gm_clockQuality :: "sync_state \<Rightarrow> grandmaster \<Rightarrow> clock_quality" where
  "gm_clockQuality st gm = (if st = InSync then gm_clockQual gm else noSyncClockQuality)"

definition setClockSync :: "sync_state \<Rightarrow> grandmaster \<Rightarrow> grandmaster" where
  "setClockSync st gm =
     (let t = gm_target gm; t = t \<lparr> gp_quality := gm_clockQuality st gm \<rparr>;
          flags = currentUTCOffsetValid OR ptpTimescale OR pmcLeapFlags (lss_leapTonight (gp_leap t));
          flags = (if st = InSync then flags OR (timeTraceable OR frequencyTraceable) else flags)
      in gm \<lparr> gm_target := t \<lparr> gp_timeFlags := flags \<rparr> \<rparr>)"

definition newGrandmaster :: "clock_quality \<Rightarrow> grandmaster" where
  "newGrandmaster q = setClockSync NoSync
     \<lparr> gm_target = \<lparr> gp_leap = \<lparr> lss_utcOffset = 0, lss_leapTonight = 0 \<rparr>, gp_quality = \<lparr> cq_class = 0, cq_accuracy = 0, cq_variance = 0 \<rparr>,
         gp_timeFlags = 0 \<rparr>, gm_lastAttempt = None, gm_confirmed = False, gm_waiting = False, gm_clockQual = q, gm_nextRetry = None,
       gm_update = None, gm_worker = None, gm_answer = None, gm_closed = False, gm_sent = [] \<rparr>"

definition needsUpdate :: "grandmaster \<Rightarrow> bool" where
  "needsUpdate gm = (case gm_lastAttempt gm of None \<Rightarrow> False | Some a \<Rightarrow> gm_target gm \<noteq> a \<or> \<not> gm_confirmed gm)"

definition gm_send :: "grandmaster \<Rightarrow> grandmaster option" where
  "gm_send gm =
     (if gm_closed gm \<or> gm_update gm \<noteq> None then None
      else Some (gm \<lparr> gm_update := Some (gm_target gm), gm_lastAttempt := Some (gm_target gm), gm_confirmed := False,
                     gm_waiting := True, gm_nextRetry := None, gm_sent := gm_target gm # gm_sent gm \<rparr>))"

definition handleResponse :: "grandmaster \<Rightarrow> grandmaster" where
  "handleResponse gm =
     (if \<not> gm_waiting gm then gm
      else case gm_answer gm of None \<Rightarrow> gm
        | Some ok \<Rightarrow> gm \<lparr> gm_confirmed := ok, gm_waiting := False, gm_answer := None \<rparr>)"

text \<open>The blocking receive returns once the worker has taken the request and answered \<open>ok\<close> (\<open>ok\<close> is what
  it will answer if it has not yet).\<close>

definition waitResponse :: "bool \<Rightarrow> grandmaster \<Rightarrow> grandmaster" where
  "waitResponse ok gm =
     gm \<lparr> gm_confirmed := (case gm_answer gm of Some a \<Rightarrow> a | None \<Rightarrow> ok), gm_waiting := False, gm_answer := None,
         gm_update := None, gm_worker := None \<rparr>"

definition gm_update_to :: "sync_state \<Rightarrow> LeapSecondState \<Rightarrow> grandmaster \<Rightarrow> grandmaster option" where
  "gm_update_to st leap gm =
     (let gm = handleResponse (setClockSync st (gm \<lparr> gm_target := (gm_target gm) \<lparr> gp_leap := leap \<rparr> \<rparr>))
      in if gm_waiting gm then Some gm
         else case gm_lastAttempt gm of
             None \<Rightarrow> if st = NoSync then Some gm else gm_send gm
           | Some a \<Rightarrow> if gm_target gm = a then Some gm else gm_send gm)"

definition retryDue :: "int \<Rightarrow> grandmaster \<Rightarrow> bool \<times> grandmaster" where
  "retryDue now gm =
     (let gm = handleResponse gm
      in if gm_waiting gm \<or> \<not> needsUpdate gm then (False, gm)
         else if Some (gm_target gm) \<noteq> gm_lastAttempt gm then (True, gm)
         else case gm_nextRetry gm of
             None \<Rightarrow> (False, gm \<lparr> gm_nextRetry := Some (now + updateRetryInterval) \<rparr>)
           | Some t \<Rightarrow> (\<not> now < t, gm))"

definition gm_retry :: "grandmaster \<Rightarrow> grandmaster option" where
  "gm_retry gm = (if \<not> gm_waiting gm \<and> needsUpdate gm then gm_send gm else Some gm)"

definition gm_close :: "bool \<Rightarrow> grandmaster \<Rightarrow> grandmaster option" where
  "gm_close ok gm =
     (if gm_waiting gm \<and> gm_lastAttempt gm = Some (gm_target gm) then Some (gm \<lparr> gm_closed := True \<rparr>)
      else let gm = (if gm_waiting gm then waitResponse ok gm else gm)
      in Option.bind (if needsUpdate gm then gm_send gm else Some gm) (\<lambda>gm. Some (gm \<lparr> gm_closed := True \<rparr>)))"

section \<open>The worker\<close>

definition worker_take :: "grandmaster \<Rightarrow> grandmaster option" where
  "worker_take gm =
     (case (gm_update gm, gm_worker gm) of
        (Some p, None) \<Rightarrow> Some (gm \<lparr> gm_update := None, gm_worker := Some p \<rparr>)
      | _ \<Rightarrow> None)"

definition worker_answer :: "bool \<Rightarrow> grandmaster \<Rightarrow> grandmaster option" where
  "worker_answer ok gm = (case gm_worker gm of None \<Rightarrow> None | Some _ \<Rightarrow> Some (gm \<lparr> gm_worker := None, gm_answer := Some ok \<rparr>))"

section \<open>The protocol\<close>

text \<open>Every step of either side, but \<^verbatim>\<open>Close\<close>, after which no operation is called.\<close>

inductive gm_step :: "grandmaster \<Rightarrow> grandmaster \<Rightarrow> bool" where
  update: "gm_update_to st leap gm = Some gm' \<Longrightarrow> gm_step gm gm'"
| due: "gm_step gm (snd (retryDue now gm))"
| retry: "gm_retry gm = Some gm' \<Longrightarrow> gm_step gm gm'"
| take_req: "worker_take gm = Some gm' \<Longrightarrow> gm_step gm gm'"
| answer: "worker_answer ok gm = Some gm' \<Longrightarrow> gm_step gm gm'"

inductive gm_reachable :: "clock_quality \<Rightarrow> grandmaster \<Rightarrow> bool" for q where
  init: "gm_reachable q (newGrandmaster q)"
| step: "gm_reachable q gm \<Longrightarrow> gm_step gm gm' \<Longrightarrow> gm_reachable q gm'"

text \<open>Settings that claim a traceable time: those of a clock in sync.\<close>

definition traceable :: "gm_props \<Rightarrow> bool" where
  "traceable p \<longleftrightarrow> gp_timeFlags p AND timeTraceable \<noteq> 0"

definition gm_inv :: "grandmaster \<Rightarrow> bool" where
  "gm_inv gm \<longleftrightarrow> \<not> gm_closed gm
     \<and> (gm_waiting gm \<longleftrightarrow> gm_update gm \<noteq> None \<or> gm_worker gm \<noteq> None \<or> gm_answer gm \<noteq> None)
     \<and> (gm_update gm \<noteq> None \<longrightarrow> gm_worker gm = None \<and> gm_answer gm = None) \<and> (gm_worker gm \<noteq> None \<longrightarrow> gm_answer gm = None)
     \<and> (gm_lastAttempt gm = None \<longleftrightarrow> gm_sent gm = []) \<and> (gm_sent gm \<noteq> [] \<longrightarrow> gm_lastAttempt gm = Some (hd (gm_sent gm)))
     \<and> (gm_sent gm \<noteq> [] \<longrightarrow> traceable (last (gm_sent gm)))
     \<and> (gm_update gm \<noteq> None \<longrightarrow> gm_update gm = gm_lastAttempt gm) \<and> (gm_worker gm \<noteq> None \<longrightarrow> gm_worker gm = gm_lastAttempt gm)
     \<and> (gm_lastAttempt gm = None \<longrightarrow> \<not> gm_waiting gm)"

lemma flags_traceable: "(a OR (timeTraceable OR frequencyTraceable)) AND timeTraceable \<noteq> 0"
proof -
  have t: "timeTraceable AND timeTraceable = timeTraceable" "frequencyTraceable AND timeTraceable = 0"
    by (simp_all add: timeTraceable_def frequencyTraceable_def)
  have "(a OR (timeTraceable OR frequencyTraceable)) AND timeTraceable = (a AND timeTraceable) OR timeTraceable"
    by (simp only: bit.conj_disj_distrib2 t or.right_neutral)
  then show ?thesis by (simp add: word_ao_absorbs timeTraceable_def)
qed

lemma setClockSync_traceable: "traceable (gm_target (setClockSync InSync gm))"
  using flags_traceable by (simp add: traceable_def setClockSync_def Let_def)

lemma frame_sync:
  "gm_inv (setClockSync st gm) = gm_inv gm" "gm_inv (gm \<lparr> gm_target := t \<rparr>) = gm_inv gm"
  by (simp_all add: gm_inv_def setClockSync_def Let_def)

lemma handleResponse_inv: "gm_inv gm \<Longrightarrow> gm_inv (handleResponse gm)"
  by (auto simp: gm_inv_def handleResponse_def split: option.split)

lemma gm_send_ok:
  assumes "gm_inv gm" "\<not> gm_waiting gm" "gm_lastAttempt gm \<noteq> None \<or> traceable (gm_target gm)"
  shows "\<exists>gm'. gm_send gm = Some gm' \<and> gm_inv gm' \<and> gm_sent gm' = gm_target gm # gm_sent gm \<and> gm_lastAttempt gm' = Some (gm_target gm)
    \<and> gm_target gm' = gm_target gm"
  using assms by (auto simp: gm_send_def gm_inv_def)

lemma needsUpdate_attempt: "needsUpdate gm \<Longrightarrow> gm_lastAttempt gm \<noteq> None"
  by (auto simp: needsUpdate_def split: option.splits)

lemma handleResponse_frame [simp]:
  "gm_target (handleResponse gm) = gm_target gm" "gm_lastAttempt (handleResponse gm) = gm_lastAttempt gm"
  "gm_sent (handleResponse gm) = gm_sent gm"
  by (auto simp: handleResponse_def split: option.split)

lemma update_ok:
  assumes "gm_inv gm"
  shows "\<exists>gm'. gm_update_to st leap gm = Some gm' \<and> gm_inv gm'"
proof -
  define g where "g = handleResponse (setClockSync st (gm \<lparr> gm_target := (gm_target gm) \<lparr> gp_leap := leap \<rparr> \<rparr>))"
  have inv: "gm_inv g" unfolding g_def using assms by (intro handleResponse_inv) (simp add: frame_sync)
  have tr: "st \<noteq> NoSync \<Longrightarrow> traceable (gm_target g)"
    using setClockSync_traceable by (cases st) (simp_all add: g_def)
  have e: "gm_update_to st leap gm = (if gm_waiting g then Some g else case gm_lastAttempt g of
      None \<Rightarrow> if st = NoSync then Some g else gm_send g | Some a \<Rightarrow> if gm_target g = a then Some g else gm_send g)"
    unfolding gm_update_to_def Let_def g_def by (rule refl)
  show ?thesis
  proof (cases "gm_waiting g")
    case False
    then show ?thesis using e inv gm_send_ok [OF inv False] tr by (cases "gm_lastAttempt g") auto
  qed (use e inv in auto)
qed

lemma retry_ok: "gm_inv gm \<Longrightarrow> \<exists>gm'. gm_retry gm = Some gm' \<and> gm_inv gm'"
  using gm_send_ok [of gm] needsUpdate_attempt [of gm] by (auto simp: gm_retry_def)

lemma due_inv: "gm_inv gm \<Longrightarrow> gm_inv (snd (retryDue now gm))"
proof -
  assume "gm_inv gm"
  then have i: "gm_inv (handleResponse gm)" by (rule handleResponse_inv)
  have "gm_inv (h \<lparr> gm_nextRetry := t \<rparr>) = gm_inv h" for h t by (simp add: gm_inv_def)
  with i show ?thesis by (auto simp: retryDue_def Let_def split: option.split)
qed

lemma worker_inv: "gm_inv gm \<Longrightarrow> worker_take gm = Some gm' \<Longrightarrow> gm_inv gm'" "gm_inv gm \<Longrightarrow> worker_answer ok gm = Some gm' \<Longrightarrow> gm_inv gm'"
  by (auto simp: gm_inv_def worker_take_def worker_answer_def split: option.splits)

lemma gm_reachable_inv: "gm_reachable q gm \<Longrightarrow> gm_inv gm"
proof (induction rule: gm_reachable.induct)
  case init
  show ?case by (simp add: gm_inv_def newGrandmaster_def setClockSync_def Let_def)
next
  case (step gm gm')
  from step.hyps(2) step.IH show ?case
  proof (cases rule: gm_step.cases)
    case (update st leap)
    with update_ok [OF step.IH, of st leap] show ?thesis by auto
  next
    case retry
    with retry_ok [OF step.IH] show ?thesis by auto
  qed (use step.IH due_inv worker_inv in blast)+
qed

lemma close_ok:
  assumes "gm_inv gm"
  shows "\<exists>gm'. gm_close ok gm = Some gm' \<and> (gm_sent gm \<noteq> [] \<longrightarrow> hd (gm_sent gm') = gm_target gm \<and> gm_sent gm' \<noteq> [])"
proof (cases "gm_waiting gm \<and> gm_lastAttempt gm = Some (gm_target gm)")
  case True
  with assms show ?thesis by (auto simp: gm_close_def gm_inv_def)
next
  case False
  define g where "g = (if gm_waiting gm then waitResponse ok gm else gm)"
  have g: "gm_inv g" "\<not> gm_waiting g" "gm_target g = gm_target gm" "gm_sent g = gm_sent gm" "gm_lastAttempt g = gm_lastAttempt gm"
    using assms by (auto simp: g_def waitResponse_def gm_inv_def)
  have e: "gm_close ok gm = Option.bind (if needsUpdate g then gm_send g else Some g) (\<lambda>gm. Some (gm \<lparr> gm_closed := True \<rparr>))"
    using False by (auto simp: gm_close_def g_def Let_def)
  show ?thesis
  proof (cases "needsUpdate g")
    case True
    with gm_send_ok [OF g(1,2)] needsUpdate_attempt [OF True] e g show ?thesis by auto
  next
    case no: False
    have "gm_sent gm \<noteq> [] \<Longrightarrow> hd (gm_sent gm) = gm_target gm"
      using no g assms by (auto simp: needsUpdate_def gm_inv_def)
    with no e g show ?thesis by auto
  qed
qed

text \<open>C19: The grandmaster never overruns its channel, and ends with its target. In every state the controller
  and the worker reach in any order of their steps, \<^verbatim>\<open>Update\<close>, \<^verbatim>\<open>Retry\<close> and \<^verbatim>\<open>Close\<close> return without
  the panic of a full channel; the first request ever sent claims a traceable time, so nothing is
  sent before the clock was in sync; what is on its way to the worker is the last attempt; and once
  anything was sent, the last request before the channel is closed is the current target.\<close>
theorem gm_protocol:
  assumes "gm_reachable q gm"
  shows "gm_update_to st leap gm \<noteq> None \<and> gm_retry gm \<noteq> None
    \<and> (gm_sent gm \<noteq> [] \<longrightarrow> traceable (last (gm_sent gm)) \<and> gm_lastAttempt gm = Some (hd (gm_sent gm)))
    \<and> (\<forall>p. gm_update gm = Some p \<or> gm_worker gm = Some p \<longrightarrow> gm_lastAttempt gm = Some p)
    \<and> (\<exists>gm'. gm_close ok gm = Some gm' \<and> (gm_sent gm \<noteq> [] \<longrightarrow> gm_sent gm' \<noteq> [] \<and> hd (gm_sent gm') = gm_target gm))"
proof -
  note inv = gm_reachable_inv [OF assms]
  have "\<forall>p. gm_update gm = Some p \<or> gm_worker gm = Some p \<longrightarrow> gm_lastAttempt gm = Some p"
    "gm_sent gm \<noteq> [] \<longrightarrow> traceable (last (gm_sent gm)) \<and> gm_lastAttempt gm = Some (hd (gm_sent gm))"
    using inv by (auto simp: gm_inv_def)
  with update_ok [OF inv, of st leap] retry_ok [OF inv] close_ok [OF inv, of ok] show ?thesis by auto
qed

definition sample_quality :: clock_quality where
  "sample_quality = \<lparr> cq_class = 6, cq_accuracy = 0x21, cq_variance = 0x4e5d \<rparr>"

theorem gm_protocol_witness:
  "\<exists>gm. gm_update_to InSync \<lparr> lss_utcOffset = 37, lss_leapTonight = 0 \<rparr> (newGrandmaster sample_quality) = Some gm
    \<and> gm_update_to NoSync \<lparr> lss_utcOffset = 37, lss_leapTonight = 0 \<rparr> gm \<noteq> None
    \<and> traceable (last (gm_sent gm)) \<and> gm_retry gm \<noteq> None"
proof -
  let ?l = "\<lparr> lss_utcOffset = 37, lss_leapTonight = 0 \<rparr>"
  let ?gm = "the (gm_update_to InSync ?l (newGrandmaster sample_quality))"
  have u: "gm_update_to InSync ?l (newGrandmaster sample_quality) = Some ?gm" by code_simp
  have s: "gm_sent ?gm \<noteq> []" by code_simp
  have "gm_reachable sample_quality ?gm"
    by (rule gm_reachable.step [OF gm_reachable.init]) (rule gm_step.update [OF u])
  from gm_protocol [OF this, of NoSync ?l True] u s show ?thesis by blast
qed

end
