(* ===== verification/Controller.thy ===== *)
theory Controller
  imports Converging Tracking ResetMode Grandmaster
begin

text \<open>
  The controller of \<^verbatim>\<open>time/internal/phcsync/controller.go\<close>: it drives the sample generator and the
  sample processor of its mode, acts on the clock, changes mode and keeps the grandmaster up to date.
  The calls to the observer and to the clock are recorded in a list, the most recent first. A panic,
  a nil dereference among them, is \<open>None\<close>.
\<close>

section \<open>State\<close>

record 'f sync_config =
  sc_reset :: "'f ResetConfig"
  sc_converge :: "'f ConvergingConfig"
  sc_track :: "'f TrackingConfig"
  sc_detectInvalidLeap :: bool
  sc_minInvalidRepeatInterval :: 'f

datatype 'f generator = GenReset "'f reset_gen" | GenConverging "'f converging_gen" | GenTracking "'f tracking_gen"

datatype 'f processor = ProcReset "'f reset_proc" | ProcConverging "'f converging" | ProcTracking "'f tracking"

datatype 'f ctl_output = OutSample "'f sync_sample" | OutMode mode mode int | OutFreq 'f | OutStep int

record 'f controller =
  ct_cfg :: "'f sync_config"
  ct_leapSecond :: LeapSecond
  ct_pt :: pulse_type
  ct_mode :: mode
  ct_freq :: 'f
  ct_estimatedFreq :: 'f
  ct_maxFreq :: 'f
  ct_edgeIndex :: u64
  ct_gen :: "'f generator option"
  ct_proc :: "'f processor option"
  ct_lastSample :: "'f sync_sample option"
  ct_era :: u64
  ct_detectLeap :: "int option"
  ct_gm :: "grandmaster option"
  ct_out :: "'f ctl_output list"

text \<open>
  What the outside answers during one event: the buffer of time messages, and the clock: whether
  \<^verbatim>\<open>SetFreqOffset\<close> succeeds and the era after \<^verbatim>\<open>AdjTime\<close>, if that succeeds.
\<close>

record event_env = msg_env +
  ee_setFreq :: bool
  ee_adjTime :: "u64 option"

definition emit :: "'f ctl_output \<Rightarrow> 'f controller \<Rightarrow> 'f controller" where
  "emit x c = c \<lparr> ct_out := x # ct_out c \<rparr>"

section \<open>Construction\<close>

datatype controller_error = NoEdgeSupport | ClockError

definition newController :: "'f float64 \<Rightarrow> 'f sync_config \<Rightarrow> LeapSecond \<Rightarrow> int \<Rightarrow> grandmaster option \<Rightarrow> 'f option \<Rightarrow> 'f
    \<Rightarrow> (controller_error + 'f controller) option" where
  "newController F cfg leapSecond edgesPerPulse gm freqOffset maxFreq =
     (if edgesPerPulse = 0 then Some (Inl NoEdgeSupport)
      else if edgesPerPulse \<noteq> 1 \<and> edgesPerPulse \<noteq> 2 then None
      else case freqOffset of None \<Rightarrow> Some (Inl ClockError)
        | Some freq \<Rightarrow> Some (Inr
            \<lparr> ct_cfg = cfg, ct_leapSecond = leapSecond, ct_pt = \<lparr> pt_edgesPerPulse = edgesPerPulse, pt_pulseWidth = 0 \<rparr>,
              ct_mode = ModeInvalid, ct_freq = freq, ct_estimatedFreq = f_int F 0, ct_maxFreq = maxFreq, ct_edgeIndex = 0,
              ct_gen = None, ct_proc = None, ct_lastSample = None, ct_era = 0, ct_detectLeap = None, ct_gm = gm, ct_out = [] \<rparr>))"

section \<open>The grandmaster\<close>

definition gmSyncState :: "mode \<Rightarrow> sync_state" where
  "gmSyncState m = (if m = ModeTracking then InSync else NoSync)"

definition gmUpdate :: "'f controller \<Rightarrow> 'f controller option" where
  "gmUpdate c =
     (case ct_gm c of None \<Rightarrow> Some c
      | Some gm \<Rightarrow> (case ct_lastSample c of None \<Rightarrow> Some c
        | Some s \<Rightarrow> if pt_isZero (smp_ref s) then Some c
            else Option.bind (gm_update_to (gmSyncState (ct_mode c)) (stateAt (ct_leapSecond c) (smp_ref s)) gm)
                   (\<lambda>gm. Some (c \<lparr> ct_gm := Some gm \<rparr>))))"

definition gmRetry :: "int \<Rightarrow> 'f controller \<Rightarrow> 'f controller option" where
  "gmRetry now c =
     (case ct_gm c of None \<Rightarrow> Some c
      | Some gm \<Rightarrow>
          let (due, gm) = retryDue now gm; c = c \<lparr> ct_gm := Some gm \<rparr>
          in if \<not> due then Some c
             else Option.bind (gmUpdate c) (\<lambda>c. case ct_gm c of None \<Rightarrow> None
               | Some gm \<Rightarrow> Option.bind (gm_retry gm) (\<lambda>gm. Some (c \<lparr> ct_gm := Some gm \<rparr>))))"

section \<open>Modes\<close>

definition notePulseInfo :: "'f float64 \<Rightarrow> int \<Rightarrow> int \<Rightarrow> 'f controller \<Rightarrow> 'f controller" where
  "notePulseInfo F width avg c =
     (let ratio = f_div F (f_int F nsPerSecond) (f_int F avg); e9 = f_int F 1000000000
      in c \<lparr> ct_pt := (ct_pt c) \<lparr> pt_pulseWidth := width \<rparr>,
             ct_estimatedFreq := f_sub F (f_mul F (f_add F e9 (ct_freq c)) ratio) e9 \<rparr>)"

definition getDetectLeap :: "'f float64 \<Rightarrow> 'f controller \<Rightarrow> int option" where
  "getDetectLeap F c =
     (if \<not> sc_detectInvalidLeap (ct_cfg c) then None
      else case ct_gen c of
          Some (GenReset g) \<Rightarrow> if \<not> rg_detectLeap g then None else Some (seconds_duration F (sc_minInvalidRepeatInterval (ct_cfg c)))
        | _ \<Rightarrow> None)"

text \<open>Leaving a mode: the pulse information of the reset mode, the sample to persist of the tracking mode.\<close>

definition leaveReset :: "'f float64 \<Rightarrow> 'f controller \<Rightarrow> 'f controller" where
  "leaveReset F c =
     (if ct_mode c = ModeReset then
        (case ct_gen c of
           Some (GenReset g) \<Rightarrow>
             let c = notePulseInfo F (pt_pulseWidth (rg_pt g)) (rg_avgInterval g) c in c \<lparr> ct_detectLeap := getDetectLeap F c \<rparr>
         | _ \<Rightarrow> c)
      else c)"

definition persistOf :: "'f controller \<Rightarrow> phc_sample option" where
  "persistOf c =
     (if ct_mode c = ModeTracking then (case ct_proc c of Some (ProcTracking p) \<Rightarrow> tp_persistSample p | _ \<Rightarrow> None) else None)"

text \<open>The generator and the processor of the new mode.\<close>

definition enterMode :: "'f float64 \<Rightarrow> mode \<Rightarrow> phc_sample option \<Rightarrow> 'f controller \<Rightarrow> 'f controller option" where
  "enterMode F m persist c =
     (case m of
        ModeReset \<Rightarrow>
          let c = c \<lparr> ct_pt := (ct_pt c) \<lparr> pt_pulseWidth := 0 \<rparr>, ct_detectLeap := None \<rparr>
          in Option.bind (newResetGen (sc_reset (ct_cfg c)) (pt_edgesPerPulse (ct_pt c)) (ct_freq c) (ct_maxFreq c)) (\<lambda>g.
               Some (c \<lparr> ct_gen := Some (GenReset g), ct_proc := Some (ProcReset (newResetProc (sc_reset (ct_cfg c)) persist)) \<rparr>))
      | ModeConverging \<Rightarrow> Option.bind (ct_lastSample c) (\<lambda>s.
          Option.bind (newConverging F (sc_converge (ct_cfg c)) (smp_era s) (ct_freq c) (ct_maxFreq c)) (\<lambda>p.
            Some (c \<lparr> ct_gen := Some (GenConverging (newConvergingGen (sc_converge (ct_cfg c)) (ct_pt c) s (ct_freq c) (ct_maxFreq c))),
                      ct_proc := Some (ProcConverging p) \<rparr>)))
      | ModeTracking \<Rightarrow> Option.bind (ct_lastSample c) (\<lambda>s.
          Option.bind (newTrackingGen (sc_track (ct_cfg c)) (ct_pt c) s (ct_freq c) (ct_maxFreq c)) (\<lambda>g.
            Option.bind (newTracking F (sc_track (ct_cfg c)) (ct_estimatedFreq c) (ct_maxFreq c)) (\<lambda>p.
              Some (c \<lparr> ct_gen := Some (GenTracking g), ct_proc := Some (ProcTracking p) \<rparr>))))
      | ModeInvalid \<Rightarrow> None)"

definition changeMode :: "'f float64 \<Rightarrow> mode \<Rightarrow> int \<Rightarrow> 'f controller \<Rightarrow> 'f controller option" where
  "changeMode F m t c =
     (if ct_mode c = m then Some c
      else let old = ct_mode c; c = leaveReset F c; persist = persistOf c
      in Option.bind (enterMode F m persist c) (\<lambda>c. Option.bind (gmUpdate (c \<lparr> ct_mode := m \<rparr>)) (\<lambda>c.
           Some (emit (OutMode old m t) c))))"

section \<open>Samples\<close>

definition doPHCAction :: "event_env \<Rightarrow> 'f phcAction \<Rightarrow> 'f controller \<Rightarrow> 'f controller" where
  "doPHCAction env action c =
     (case act_type action of
        PhcStepClock \<Rightarrow>
          let c = emit (OutStep (act_step action)) c
          in (case ee_adjTime env of None \<Rightarrow> c | Some era \<Rightarrow> c \<lparr> ct_era := era \<rparr>)
      | PhcAdjustFrequency \<Rightarrow>
          let c = emit (OutFreq (act_freq action)) c in if ee_setFreq env then c \<lparr> ct_freq := act_freq action \<rparr> else c
      | PhcNoAction \<Rightarrow> c)"

definition runProcessor :: "'f float64 \<Rightarrow> 'f sync_sample \<Rightarrow> 'f processor \<Rightarrow> ('f phcAction \<times> mode \<times> 'f sync_sample \<times> 'f processor) option" where
  "runProcessor F s proc =
     (case proc of
        ProcReset p \<Rightarrow> let (a, m) = reset_process F s p in Some (a, m, s, ProcReset p)
      | ProcConverging p \<Rightarrow> Option.bind (conv_process F s p) (\<lambda>(a, m, p). Some (a, m, s, ProcConverging p))
      | ProcTracking p \<Rightarrow> Option.bind (trk_process F s p) (\<lambda>(a, m, s, p). Some (a, m, s, ProcTracking p)))"

definition ctl_processSample :: "'f float64 \<Rightarrow> event_env \<Rightarrow> 'f sync_sample \<Rightarrow> 'f controller \<Rightarrow> 'f controller option" where
  "ctl_processSample F env s c =
     Option.bind (ct_proc c) (\<lambda>proc. Option.bind (runProcessor F s proc) (\<lambda>(action, m, s, proc).
       let freq = ct_freq c;
           c = doPHCAction env action (c \<lparr> ct_proc := Some proc \<rparr>);
           s = s \<lparr> smp_freq := ct_freq c, smp_freqDelta := f_sub F (ct_freq c) freq, smp_mode := ct_mode c \<rparr>;
           c = emit (OutSample s) (c \<lparr> ct_lastSample := Some s \<rparr>)
       in if m \<noteq> ct_mode c then changeMode F m (smp_sys s) c else Some c))"

definition processPresentSample :: "'f float64 \<Rightarrow> event_env \<Rightarrow> 'f sync_sample option \<Rightarrow> 'f controller \<Rightarrow> 'f controller option" where
  "processPresentSample F env sample c =
     (case sample of None \<Rightarrow> Some c | Some s \<Rightarrow> ctl_processSample F env s (c \<lparr> ct_lastSample := Some s \<rparr>))"

definition gen_pulseEdge :: "'f float64 \<Rightarrow> event_env \<Rightarrow> pulse_edge \<Rightarrow> u64 \<Rightarrow> 'f generator \<Rightarrow> ('f sync_sample option \<times> 'f generator) option" where
  "gen_pulseEdge F env edge i gen =
     (case gen of
        GenReset g \<Rightarrow> map_option (map_prod id GenReset) (reset_pulseEdgeSample F (msg_env.truncate env) edge i g)
      | GenConverging g \<Rightarrow> Some (conv_pulseEdgeSample F edge i g, GenConverging g)
      | GenTracking g \<Rightarrow> Some (map_prod id GenTracking (trk_pulseEdgeSample F (msg_env.truncate env) edge i g)))"

definition gen_timeMessage :: "'f float64 \<Rightarrow> event_env \<Rightarrow> 'f generator \<Rightarrow> ('f sync_sample option \<times> 'f generator) option" where
  "gen_timeMessage F env gen =
     (case gen of
        GenReset g \<Rightarrow> map_option (map_prod id GenReset) (reset_timeMessageSample F (msg_env.truncate env) g)
      | GenConverging g \<Rightarrow> Some (conv_timeMessageSample g, GenConverging g)
      | GenTracking g \<Rightarrow> Some (map_prod id GenTracking (trk_timeMessageSample F (msg_env.truncate env) g)))"

section \<open>Events\<close>

definition setTimeMsgBuffer :: "'f float64 \<Rightarrow> 'f controller \<Rightarrow> 'f controller option" where
  "setTimeMsgBuffer F c = (if ct_mode c \<noteq> ModeInvalid then None else changeMode F ModeReset zeroTime c)"

definition ctl_pulseEdge :: "'f float64 \<Rightarrow> event_env \<Rightarrow> pulse_edge \<Rightarrow> 'f controller \<Rightarrow> 'f controller option" where
  "ctl_pulseEdge F env edge c =
     Option.bind (ct_gen c) (\<lambda>gen. Option.bind (gen_pulseEdge F env edge (ct_edgeIndex c) gen) (\<lambda>(sample, gen).
       processPresentSample F env sample (c \<lparr> ct_gen := Some gen, ct_edgeIndex := ct_edgeIndex c + 1 \<rparr>)))"

definition leap_detected :: "event_env \<Rightarrow> 'f controller \<Rightarrow> bool" where
  "leap_detected env c = (case ct_detectLeap c of None \<Rightarrow> False | Some minDelta \<Rightarrow> me_detectLeap env minDelta)"

definition ctl_timeMessage :: "'f float64 \<Rightarrow> event_env \<Rightarrow> int \<Rightarrow> 'f controller \<Rightarrow> 'f controller option" where
  "ctl_timeMessage F env tRead c =
     (if leap_detected env c then changeMode F ModeReset tRead c
      else Option.bind (ct_gen c) (\<lambda>gen. Option.bind (gen_timeMessage F env gen) (\<lambda>(sample, gen).
        processPresentSample F env sample (c \<lparr> ct_gen := Some gen \<rparr>))))"

definition ctl_leapSecond :: "LeapSecond \<Rightarrow> 'f controller \<Rightarrow> 'f controller option" where
  "ctl_leapSecond ls c = gmUpdate (c \<lparr> ct_leapSecond := ls \<rparr>)"

definition ctl_pause :: "'f float64 \<Rightarrow> int \<Rightarrow> 'f controller \<Rightarrow> 'f controller option" where
  "ctl_pause F t c = changeMode F ModeReset t c"

definition sampleIntervalMax :: int where "sampleIntervalMax = quot (3 * nsPerSecond) 2"

definition missingSample :: "'f float64 \<Rightarrow> 'f sync_sample \<Rightarrow> u64 \<Rightarrow> 'f sync_sample" where
  "missingSample F prev era =
     (okSample F (i64 (smp_ref prev + nsPerSecond)) 0 era 0 (smp_sys prev + nsPerSecond)) \<lparr> smp_kind := SampleMissing \<rparr>"

text \<open>The pending pulse of the tracking mode, if its time is up.\<close>

definition tick_pending :: "'f float64 \<Rightarrow> event_env \<Rightarrow> int \<Rightarrow> 'f controller \<Rightarrow> 'f sync_sample option \<times> 'f controller" where
  "tick_pending F env now c =
     (if ct_mode c = ModeTracking then
        (case ct_gen c of
           Some (GenTracking g) \<Rightarrow>
             let (sample, g) = trk_tickSample F (msg_env.truncate env) now g in (sample, c \<lparr> ct_gen := Some (GenTracking g) \<rparr>)
         | _ \<Rightarrow> (None, c))
      else (None, c))"

definition tick_sample :: "'f float64 \<Rightarrow> event_env \<Rightarrow> int \<Rightarrow> 'f controller \<Rightarrow> 'f controller option" where
  "tick_sample F env now c =
     (if ct_mode c = ModeReset then Some c
      else let (pending, c) = tick_pending F env now c
      in if pending \<noteq> None then processPresentSample F env pending c
         else Option.bind (ct_lastSample c) (\<lambda>prev.
           if time_sub now (smp_sys prev) \<le> sampleIntervalMax then Some c
           else let s = missingSample F prev (ct_era c)
                in ctl_processSample F env s (c \<lparr> ct_lastSample := Some s \<rparr>)))"

definition ctl_tick :: "'f float64 \<Rightarrow> event_env \<Rightarrow> int \<Rightarrow> 'f controller \<Rightarrow> 'f controller option" where
  "ctl_tick F env now c = Option.bind (tick_sample F env now c) (gmRetry now)"

definition ctl_close :: "bool \<Rightarrow> 'f controller \<Rightarrow> 'f controller option" where
  "ctl_close ok c =
     Option.bind (gmUpdate (c \<lparr> ct_mode := ModeReset \<rparr>)) (\<lambda>c.
       case ct_gm c of None \<Rightarrow> Some c
       | Some gm \<Rightarrow> Option.bind (gm_close ok gm) (\<lambda>gm. Some (c \<lparr> ct_gm := Some gm \<rparr>)))"

definition requiredMsgWindow :: "'f controller \<Rightarrow> int" where
  "requiredMsgWindow c = i64 (i64 (rc_pulseWindow (sc_reset (ct_cfg c)) + 2) * nsPerSecond)"

datatype ctl_event = PulseEdgeEv pulse_edge | TimeMessageEv int | LeapSecondEv LeapSecond | PauseEv int | TickEv int

definition ctl_step :: "'f float64 \<Rightarrow> event_env \<Rightarrow> ctl_event \<Rightarrow> 'f controller \<Rightarrow> 'f controller option" where
  "ctl_step F env ev c =
     (case ev of
        PulseEdgeEv edge \<Rightarrow> ctl_pulseEdge F env edge c
      | TimeMessageEv t \<Rightarrow> ctl_timeMessage F env t c
      | LeapSecondEv ls \<Rightarrow> ctl_leapSecond ls c
      | PauseEv t \<Rightarrow> ctl_pause F t c
      | TickEv now \<Rightarrow> ctl_tick F env now c)"

end
