(* ===== verification/ControlSafety.thy ===== *)
theory ControlSafety
  imports Controller
begin

text \<open>
  The clock controller as a state machine: what holds in every state it reaches in any order of its
  events and of the steps of the grandmaster's worker. The generator and the processor are those of the
  mode, the modes follow each other as the comments in \<^verbatim>\<open>controller.go\<close> say, every event returns,
  and the grandmaster announces a traceable time exactly in the tracking mode.
\<close>

section \<open>Configuration and shape\<close>

text \<open>The bounds of the \<^verbatim>\<open>check\<close> tags the components rely on.\<close>

definition config_ok :: "'f sync_config \<Rightarrow> bool" where
  "config_ok cfg \<longleftrightarrow> 3 \<le> rc_pulseWindow (sc_reset cfg) \<and> rc_pulseWindow (sc_reset cfg) < 100
     \<and> 3 \<le> cc_medianWindow (sc_converge cfg) \<and> cc_medianWindow (sc_converge cfg) < 100
     \<and> 3 \<le> tc_madWindow (sc_track cfg) \<and> tc_madWindow (sc_track cfg) < 100
     \<and> 1 \<le> tc_badSampleWindow (sc_track cfg) \<and> tc_badSampleWindow (sc_track cfg) < 1000"

definition shape :: "mode \<Rightarrow> 'f controller \<Rightarrow> bool" where
  "shape m c = (case m of
     ModeInvalid \<Rightarrow> ct_gen c = None \<and> ct_proc c = None \<and> ct_lastSample c = None
   | ModeReset \<Rightarrow> ct_detectLeap c = None
       \<and> (\<exists>g p. ct_gen c = Some (GenReset g) \<and> ct_proc c = Some (ProcReset p) \<and> reset_ok g)
   | ModeConverging \<Rightarrow> ct_lastSample c \<noteq> None
       \<and> (\<exists>g p hist. ct_gen c = Some (GenConverging g) \<and> ct_proc c = Some (ProcConverging p)
            \<and> conv_inv (sc_converge (ct_cfg c)) p hist)
   | ModeTracking \<Rightarrow> ct_lastSample c \<noteq> None
       \<and> (\<exists>g p hist. ct_gen c = Some (GenTracking g) \<and> ct_proc c = Some (ProcTracking p)
            \<and> trk_inv (sc_track (ct_cfg c)) p hist))"

section \<open>The trace of outputs\<close>

definition mode_change :: "mode \<Rightarrow> mode \<Rightarrow> bool" where
  "mode_change a b \<longleftrightarrow> (a, b) \<in> {(ModeInvalid, ModeReset), (ModeReset, ModeConverging), (ModeConverging, ModeReset),
     (ModeConverging, ModeTracking), (ModeTracking, ModeReset)}"

text \<open>
  The mode after a trace that keeps the rules: each change starts from the mode before it, samples carry
  the mode they were processed in, the clock is stepped in the reset and converging modes only, and its
  frequency adjusted in the converging and tracking modes only.
\<close>

fun trace_mode :: "'f ctl_output list \<Rightarrow> mode option" where
  "trace_mode [] = Some ModeInvalid"
| "trace_mode (OutMode a b t # out) = (if trace_mode out = Some a \<and> mode_change a b then Some b else None)"
| "trace_mode (OutSample s # out) =
     (if trace_mode out = Some (smp_mode s) \<and> smp_mode s \<noteq> ModeInvalid then Some (smp_mode s) else None)"
| "trace_mode (OutStep d # out) =
     (if trace_mode out \<in> {Some ModeReset, Some ModeConverging} then trace_mode out else None)"
| "trace_mode (OutFreq f # out) =
     (if trace_mode out \<in> {Some ModeConverging, Some ModeTracking} then trace_mode out else None)"

text \<open>No sample has the reference time zero, which the code takes for no time at all.\<close>

definition refs_ok :: "'f ctl_output list \<Rightarrow> bool" where
  "refs_ok out \<longleftrightarrow> (\<forall>s. OutSample s \<in> set out \<longrightarrow> smp_ref s \<noteq> 0)"

definition gm_synced :: "'f controller \<Rightarrow> bool" where
  "gm_synced c \<longleftrightarrow> (\<forall>gm. ct_gm c = Some gm \<longrightarrow> gm_inv gm
     \<and> (refs_ok (ct_out c) \<longrightarrow> (traceable (gm_target gm) \<longleftrightarrow> ct_mode c = ModeTracking)))"

definition last_emitted :: "'f controller \<Rightarrow> bool" where
  "last_emitted c \<longleftrightarrow> (\<forall>s. ct_lastSample c = Some s \<longrightarrow> OutSample s \<in> set (ct_out c))"

definition ctl_base :: "'f controller \<Rightarrow> bool" where
  "ctl_base c \<longleftrightarrow> config_ok (ct_cfg c) \<and> (pt_edgesPerPulse (ct_pt c) = 1 \<or> pt_edgesPerPulse (ct_pt c) = 2)"

definition ctl_inv :: "'f controller \<Rightarrow> bool" where
  "ctl_inv c \<longleftrightarrow> ctl_base c \<and> ct_mode c \<noteq> ModeInvalid \<and> shape (ct_mode c) c \<and> trace_mode (ct_out c) = Some (ct_mode c) \<and> last_emitted c \<and> gm_synced c"

text \<open>The one panic left: entering the tracking mode with two edges per pulse and a width that is not positive.\<close>

definition width_panic :: "'f controller \<Rightarrow> bool" where
  "width_panic c \<longleftrightarrow> ct_mode c = ModeConverging \<and> pt_edgesPerPulse (ct_pt c) = 2 \<and> pt_pulseWidth (ct_pt c) \<le> 0"

section \<open>The grandmaster\<close>

lemma pt_isZero_iff [simp]: "pt_isZero t \<longleftrightarrow> t = 0"
  by (simp add: pt_isZero_def)

lemma noSync_not_traceable: "\<not> traceable (gm_target (setClockSync NoSync gm))"
proof -
  have "(currentUTCOffsetValid OR ptpTimescale OR pmcLeapFlags l) AND timeTraceable = 0" for l
    by (simp add: pmcLeapFlags_def currentUTCOffsetValid_def ptpTimescale_def leap61_def leap59_def timeTraceable_def)
  then show ?thesis by (simp add: traceable_def setClockSync_def Let_def)
qed

lemma gm_send_target: "gm_send gm = Some gm' \<Longrightarrow> gm_target gm' = gm_target gm"
  by (auto simp: gm_send_def split: if_splits)

lemma update_traceable:
  assumes "gm_update_to st leap gm = Some gm'"
  shows "traceable (gm_target gm') \<longleftrightarrow> st = InSync"
proof -
  let ?g = "setClockSync st (gm \<lparr> gm_target := (gm_target gm) \<lparr> gp_leap := leap \<rparr> \<rparr>)"
  have "gm_target gm' = gm_target ?g"
    using assms by (auto simp: gm_update_to_def Let_def dest: gm_send_target split: if_splits option.splits)
  then show ?thesis using noSync_not_traceable setClockSync_traceable by (cases st) simp_all
qed

lemma retry_frame: "gm_retry gm = Some gm' \<Longrightarrow> gm_target gm' = gm_target gm"
  by (auto simp: gm_retry_def dest: gm_send_target split: if_splits)

lemma due_frame: "gm_target (snd (retryDue now gm)) = gm_target gm"
  by (auto simp: retryDue_def Let_def split: option.split)

lemma worker_frame:
  "worker_take gm = Some gm' \<Longrightarrow> gm_target gm' = gm_target gm" "worker_answer ok gm = Some gm' \<Longrightarrow> gm_target gm' = gm_target gm"
  by (auto simp: worker_take_def worker_answer_def split: option.splits)

text \<open>Updating the grandmaster brings it in line with the mode, if there is a sample to take the time from.\<close>

lemma gmUpdate_ok:
  assumes "\<forall>gm. ct_gm c = Some gm \<longrightarrow> gm_inv gm" "last_emitted c" "ct_lastSample c = None \<Longrightarrow> gm_synced c"
  shows "\<exists>gm'. gmUpdate c = Some (c \<lparr> ct_gm := gm' \<rparr>) \<and> gm_synced (c \<lparr> ct_gm := gm' \<rparr>)
    \<and> (gm' = None \<longleftrightarrow> ct_gm c = None)"
proof (cases "ct_gm c")
  case None
  then show ?thesis by (intro exI [of _ None]) (simp add: gmUpdate_def gm_synced_def)
next
  case gm: (Some gm)
  show ?thesis
  proof (cases "ct_lastSample c")
    case None
    with gm assms(3) show ?thesis by (intro exI [of _ "Some gm"]) (simp add: gmUpdate_def gm_synced_def)
  next
    case (Some s)
    with assms(2) have s: "OutSample s \<in> set (ct_out c)" by (simp add: last_emitted_def)
    show ?thesis
    proof (cases "smp_ref s = 0")
      case True
      with s have "\<not> refs_ok (ct_out c)" by (auto simp: refs_ok_def)
      with True gm Some assms(1) show ?thesis by (intro exI [of _ "Some gm"]) (simp add: gmUpdate_def gm_synced_def)
    next
      case False
      let ?l = "stateAt (ct_leapSecond c) (smp_ref s)"
      from update_ok [of gm "gmSyncState (ct_mode c)" ?l] gm assms(1) obtain gm' where
        u: "gm_update_to (gmSyncState (ct_mode c)) ?l gm = Some gm'" "gm_inv gm'" by blast
      with False gm Some update_traceable [OF u(1)] show ?thesis
        by (intro exI [of _ "Some gm'"]) (simp add: gmUpdate_def gm_synced_def gmSyncState_def)
    qed
  qed
qed

section \<open>Changing mode\<close>

text \<open>What entering a mode leaves alone.\<close>

definition ctl_frame :: "'f controller \<Rightarrow> 'f controller \<Rightarrow> bool" where
  "ctl_frame c c' \<longleftrightarrow> ct_cfg c' = ct_cfg c \<and> ct_mode c' = ct_mode c \<and> ct_out c' = ct_out c \<and> ct_gm c' = ct_gm c
     \<and> ct_lastSample c' = ct_lastSample c \<and> pt_edgesPerPulse (ct_pt c') = pt_edgesPerPulse (ct_pt c)"

lemma ctl_frame_trans: "ctl_frame c d \<Longrightarrow> ctl_frame d e \<Longrightarrow> ctl_frame c e"
  by (simp add: ctl_frame_def)

lemma newResetGen_ok:
  assumes "config_ok cfg" "epp = 1 \<or> epp = (2 :: int)"
  shows "\<exists>g. newResetGen (sc_reset cfg) epp freq maxFreq = Some g \<and> reset_ok g"
proof -
  have w: "3 \<le> rc_pulseWindow (sc_reset cfg)" "rc_pulseWindow (sc_reset cfg) < 100" using assms(1) by (simp_all add: config_ok_def)
  have "in_i64 (rc_pulseWindow (sc_reset cfg) * epp)" using w assms(2) by (auto simp: in_i64_def)
  with w assms(2) show ?thesis
    by (auto simp: newResetGen_def newBuffer_def reset_ok_def buf_ok_def bufCap_def)
qed

lemma newConverging_total: "config_ok cfg \<Longrightarrow> \<exists>p. newConverging F (sc_converge cfg) era freq maxFreq = Some p"
  by (simp add: config_ok_def newConverging_def newWindow_def maxCapacity_def)

lemma newTracking_total: "config_ok cfg \<Longrightarrow> \<exists>p. newTracking F (sc_track cfg) freq maxFreq = Some p"
  by (simp add: config_ok_def newTracking_def newMADWindow_def newWindow_def newBuffer_def maxCapacity_def Let_def)

lemma enterMode_ok:
  assumes "ctl_base c" "m \<noteq> ModeInvalid" "m \<noteq> ModeReset \<Longrightarrow> ct_lastSample c \<noteq> None"
    "m = ModeTracking \<Longrightarrow> \<not> (pt_edgesPerPulse (ct_pt c) = 2 \<and> pt_pulseWidth (ct_pt c) \<le> 0)"
  shows "\<exists>c'. enterMode F m persist c = Some c' \<and> ctl_frame c c' \<and> shape m c'"
proof (cases m)
  case ModeReset
  from newResetGen_ok [of "ct_cfg c" "pt_edgesPerPulse (ct_pt c)" "ct_freq c" "ct_maxFreq c"] assms(1) obtain g where
    "newResetGen (sc_reset (ct_cfg c)) (pt_edgesPerPulse (ct_pt c)) (ct_freq c) (ct_maxFreq c) = Some g" "reset_ok g"
    by (auto simp: ctl_base_def)
  with ModeReset show ?thesis by (simp add: enterMode_def Let_def ctl_frame_def shape_def)
next
  case ModeConverging
  with assms(3) obtain s where s: "ct_lastSample c = Some s" by auto
  from newConverging_total assms(1) obtain p where
    "newConverging F (sc_converge (ct_cfg c)) (smp_era s) (ct_freq c) (ct_maxFreq c) = Some p" by (metis ctl_base_def)
  with ModeConverging s newConverging_inv show ?thesis
    by (fastforce simp: enterMode_def ctl_frame_def shape_def)
next
  case ModeTracking
  with assms(3) obtain s where s: "ct_lastSample c = Some s" by auto
  from newTracking_total assms(1) obtain p where
    "newTracking F (sc_track (ct_cfg c)) (ct_estimatedFreq c) (ct_maxFreq c) = Some p" by (metis ctl_base_def)
  moreover obtain g where "newTrackingGen (sc_track (ct_cfg c)) (ct_pt c) s (ct_freq c) (ct_maxFreq c) = Some g"
    using assms(4) [OF ModeTracking] by (auto simp: newTrackingGen_def)
  ultimately show ?thesis using ModeTracking s newTracking_inv
    by (fastforce simp: enterMode_def ctl_frame_def shape_def)
qed (use assms(2) in simp)

lemma leaveReset_frame: "ctl_frame c (leaveReset F c)" "ct_mode c \<noteq> ModeReset \<Longrightarrow> leaveReset F c = c"
  by (auto simp: leaveReset_def notePulseInfo_def ctl_frame_def Let_def split: option.split generator.split)

lemma shape_gm [simp]: "shape m (c \<lparr> ct_gm := g \<rparr>) = shape m c" "shape m (c \<lparr> ct_mode := k \<rparr>) = shape m c"
  "shape m (c \<lparr> ct_out := os \<rparr>) = shape m c" "shape m (c \<lparr> ct_leapSecond := ls \<rparr>) = shape m c"
  by (simp_all add: shape_def split: mode.split)

lemma refs_OutMode [simp]: "refs_ok (OutMode a b t # out) = refs_ok out"
  by (auto simp: refs_ok_def)

text \<open>A change the rules allow returns, but for the one panic, and keeps the invariant.\<close>

lemma changeMode_ok:
  assumes "ctl_base c" "trace_mode (ct_out c) = Some (ct_mode c)" "last_emitted c" "gm_synced c"
    "mode_change (ct_mode c) m" "m \<noteq> ModeReset \<Longrightarrow> ct_lastSample c \<noteq> None" "m = ModeTracking \<Longrightarrow> \<not> width_panic c"
    "ct_lastSample c = None \<Longrightarrow> ct_mode c \<noteq> ModeTracking"
  shows "\<exists>c'. changeMode F m t c = Some c' \<and> ctl_inv c'"
proof -
  have ne: "ct_mode c \<noteq> m" "m \<noteq> ModeInvalid" using assms(5) by (auto simp: mode_change_def)
  let ?c = "leaveReset F c"
  have f: "ctl_frame c ?c" by (rule leaveReset_frame)
  have base: "ctl_base ?c" using assms(1) f by (auto simp: ctl_base_def ctl_frame_def)
  have pw: "\<not> (pt_edgesPerPulse (ct_pt ?c) = 2 \<and> pt_pulseWidth (ct_pt ?c) \<le> 0)" if "m = ModeTracking"
    using that assms(5,7) leaveReset_frame(2) [of c F] by (auto simp: mode_change_def width_panic_def)
  have ls: "m \<noteq> ModeReset \<Longrightarrow> ct_lastSample ?c \<noteq> None" using assms(6) f by (simp add: ctl_frame_def)
  from enterMode_ok [OF base ne(2) ls pw, of F "persistOf ?c"] obtain c1 where
    c1: "enterMode F m (persistOf ?c) ?c = Some c1" "ctl_frame ?c c1" "shape m c1" by blast
  have f1: "ctl_frame c c1" using ctl_frame_trans [OF f c1(2)] .
  let ?d = "c1 \<lparr> ct_mode := m \<rparr>"
  have gi: "\<forall>gm. ct_gm ?d = Some gm \<longrightarrow> gm_inv gm" using assms(4) f1 by (simp add: gm_synced_def ctl_frame_def)
  have le: "last_emitted ?d" using assms(3) f1 by (simp add: last_emitted_def ctl_frame_def)
  have sy: "gm_synced ?d" if "ct_lastSample ?d = None"
  proof -
    have "m = ModeReset" "ct_mode c \<noteq> ModeTracking" using that assms(6,8) f1 by (auto simp: ctl_frame_def)
    then show ?thesis using assms(4) f1 by (simp add: gm_synced_def ctl_frame_def)
  qed
  from gmUpdate_ok [OF gi le sy] obtain gm' where g: "gmUpdate ?d = Some (?d \<lparr> ct_gm := gm' \<rparr>)" "gm_synced (?d \<lparr> ct_gm := gm' \<rparr>)"
    by blast
  have "changeMode F m t c = Some (emit (OutMode (ct_mode c) m t) (?d \<lparr> ct_gm := gm' \<rparr>))"
    using ne c1(1) g(1) by (simp add: changeMode_def Let_def)
  moreover have "ctl_inv (emit (OutMode (ct_mode c) m t) (?d \<lparr> ct_gm := gm' \<rparr>))"
    using assms(1,2,3,5) ne(2) c1(3) f1 g(2) by (auto simp: ctl_inv_def ctl_base_def emit_def ctl_frame_def last_emitted_def gm_synced_def)
  ultimately show ?thesis by blast
qed

section \<open>Processing samples\<close>

text \<open>The actions and modes a processor may ask for in mode \<open>m\<close>.\<close>

definition allowed :: "mode \<Rightarrow> 'f phcAction \<Rightarrow> mode \<Rightarrow> bool" where
  "allowed m a m' \<longleftrightarrow> (m' = m \<or> (mode_change m m' \<and> m \<noteq> ModeInvalid))
     \<and> (act_type a = PhcStepClock \<longrightarrow> m = ModeReset \<or> m = ModeConverging)
     \<and> (act_type a = PhcAdjustFrequency \<longrightarrow> m = ModeConverging \<or> m = ModeTracking)"

lemma reset_allowed: "reset_process F s p = (a, m) \<Longrightarrow> allowed ModeReset a m"
  by (auto simp: reset_process_def allowed_def mode_change_def noAction_def split: if_splits)

lemma conv_allowed:
  assumes "conv_inv cfg p hist"
  shows "\<exists>a m p' hist'. conv_process F s p = Some (a, m, p') \<and> allowed ModeConverging a m \<and> conv_inv cfg p' hist'"
proof -
  from process_inv [OF assms, of F s] obtain a m p' hist' where
    "conv_process F s p = Some (a, m, p')" "conv_inv cfg p' hist'" "m \<noteq> ModeInvalid" by blast
  then show ?thesis by (cases m) (auto simp: allowed_def mode_change_def)
qed

lemma sampleAction_type: "sampleAction F s p = Some (a, s', p') \<Longrightarrow> act_type a \<noteq> PhcStepClock"
  by (auto simp: sampleAction_def noAction_def Let_def bind_Some_iff split: if_splits prod.splits)

lemma noteBad_type: "act_type a \<noteq> PhcStepClock \<Longrightarrow> act_type (fst (noteBad F a p)) \<noteq> PhcStepClock"
  by (simp add: noteBad_def Let_def)

lemma trk_process_type:
  assumes "trk_process F s p = Some (a, m, s', p')"
  shows "act_type a \<noteq> PhcStepClock"
proof (cases "sampleAction F s p")
  case None
  with assms show ?thesis by (simp add: trk_process_def)
next
  case (Some r)
  obtain a1 s1 p1 where r: "r = (a1, s1, p1)" by (cases r)
  let ?n = "if act_type a1 = PhcNoAction then noteBad F a1 p1 else (a1, noteGood s1 p1)"
  obtain a2 p2 where n: "?n = (a2, p2)" by (cases ?n)
  with assms Some r have "a = a2" by (auto simp: trk_process_def Let_def bind_Some_iff)
  then show ?thesis
    using sampleAction_type [of F s p a1 s1 p1] noteBad_type [of a1 F p1] Some r arg_cong [OF n, of fst]
    by (auto split: if_splits)
qed

lemma trk_allowed:
  assumes "trk_inv cfg p hist" "smp_kind s \<noteq> SampleOutlier"
  shows "\<exists>a m s' p' hist'. trk_process F s p = Some (a, m, s', p') \<and> allowed ModeTracking a m \<and> trk_inv cfg p' hist'"
proof -
  from process_ok [OF assms, of F] obtain a m s' p' hist' where
    t: "trk_process F s p = Some (a, m, s', p')" "trk_inv cfg p' hist'" "m = (if giveUp F p' then ModeReset else ModeTracking)"
    by blast
  then show ?thesis using trk_process_type [OF t(1)] by (auto simp: allowed_def mode_change_def)
qed

lemma runProcessor_ok:
  assumes "shape (ct_mode c) c" "ct_mode c \<noteq> ModeInvalid" "smp_kind s \<noteq> SampleOutlier"
  shows "\<exists>proc a m s' proc'. ct_proc c = Some proc \<and> runProcessor F s proc = Some (a, m, s', proc') \<and> allowed (ct_mode c) a m
    \<and> (\<forall>d. ctl_frame c d \<and> ct_gen d = ct_gen c \<and> ct_detectLeap d = ct_detectLeap c \<and> ct_proc d = Some proc'
          \<longrightarrow> shape (ct_mode c) d)"
proof (cases "ct_mode c")
  case ModeReset
  with assms(1) obtain g p where "ct_gen c = Some (GenReset g)" "ct_proc c = Some (ProcReset p)" "reset_ok g" "ct_detectLeap c = None"
    by (auto simp: shape_def)
  moreover obtain a m where "reset_process F s p = (a, m)" by (cases "reset_process F s p")
  ultimately show ?thesis using ModeReset reset_allowed by (fastforce simp: runProcessor_def shape_def)
next
  case ModeConverging
  with assms(1) obtain g p hist where gp: "ct_gen c = Some (GenConverging g)" "ct_proc c = Some (ProcConverging p)"
    "conv_inv (sc_converge (ct_cfg c)) p hist" "ct_lastSample c \<noteq> None" by (auto simp: shape_def)
  from conv_allowed [OF gp(3), of F s] obtain a m p' hist' where
    "conv_process F s p = Some (a, m, p')" "allowed ModeConverging a m" "conv_inv (sc_converge (ct_cfg c)) p' hist'" by blast
  with ModeConverging gp show ?thesis by (auto simp: runProcessor_def shape_def ctl_frame_def)
next
  case ModeTracking
  with assms(1) obtain g p hist where gp: "ct_gen c = Some (GenTracking g)" "ct_proc c = Some (ProcTracking p)"
    "trk_inv (sc_track (ct_cfg c)) p hist" "ct_lastSample c \<noteq> None" by (auto simp: shape_def)
  from trk_allowed [OF gp(3) assms(3), of F] obtain a m s' p' hist' where
    "trk_process F s p = Some (a, m, s', p')" "allowed ModeTracking a m" "trk_inv (sc_track (ct_cfg c)) p' hist'" by blast
  with ModeTracking gp show ?thesis by (auto simp: runProcessor_def shape_def ctl_frame_def)
qed (use assms(2) in simp)

text \<open>Acting on the clock adds to the trace, and changes the frequency or the era.\<close>

lemma doPHCAction_ok:
  assumes "trace_mode (ct_out c) = Some (ct_mode c)" "allowed (ct_mode c) a m"
  shows "\<exists>out freq era. doPHCAction env a c = c \<lparr> ct_out := out @ ct_out c, ct_freq := freq, ct_era := era \<rparr>
    \<and> trace_mode (out @ ct_out c) = Some (ct_mode c) \<and> refs_ok (out @ ct_out c) = refs_ok (ct_out c)"
proof (cases "act_type a")
  case PhcStepClock
  with assms show ?thesis
    by (intro exI [of _ "[OutStep (act_step a)]"] exI [of _ "ct_freq c"] exI [of _ "case ee_adjTime env of None \<Rightarrow> ct_era c | Some era \<Rightarrow> era"])
      (auto simp: doPHCAction_def emit_def allowed_def refs_ok_def split: option.split)
next
  case PhcAdjustFrequency
  with assms show ?thesis
    by (intro exI [of _ "[OutFreq (act_freq a)]"] exI [of _ "if ee_setFreq env then act_freq a else ct_freq c"] exI [of _ "ct_era c"])
      (auto simp: doPHCAction_def emit_def allowed_def refs_ok_def)
next
  case PhcNoAction
  then show ?thesis using assms(1)
    by (intro exI [of _ "[]"] exI [of _ "ct_freq c"] exI [of _ "ct_era c"]) (simp add: doPHCAction_def)
qed

text \<open>What an operation from state \<open>c\<close> may end in.\<close>

definition safe :: "'f controller \<Rightarrow> 'f controller option \<Rightarrow> bool" where
  "safe c r \<longleftrightarrow> (case r of None \<Rightarrow> width_panic c | Some c' \<Rightarrow> ctl_inv c')"

lemma safe_simps [simp]: "safe c None = width_panic c" "safe c (Some c') = ctl_inv c'"
  by (simp_all add: safe_def)

lemma safeI: "\<exists>c'. r = Some c' \<and> ctl_inv c' \<Longrightarrow> safe c r"
  by auto

lemma safe_frame: "width_panic c = width_panic d \<Longrightarrow> safe c r = safe d r"
  by (cases r) simp_all

lemma changeMode_panic: "width_panic c \<Longrightarrow> changeMode F ModeTracking t c = None"
  using leaveReset_frame(2) [of c F]
  by (auto simp: width_panic_def changeMode_def enterMode_def newTrackingGen_def Let_def split: Option.bind_splits)

lemma processSample_ok:
  assumes "ctl_inv c" "ct_mode c \<noteq> ModeInvalid" "smp_kind s \<noteq> SampleOutlier"
  shows "safe c (ctl_processSample F env s (c \<lparr> ct_lastSample := Some s \<rparr>))"
proof -
  let ?c = "c \<lparr> ct_lastSample := Some s \<rparr>"
  have sh: "shape (ct_mode ?c) ?c" using assms(1,2) by (auto simp: ctl_inv_def shape_def split: mode.splits)
  from runProcessor_ok [OF sh _ assms(3), of F] assms(2) obtain proc a m s' proc' where
    r: "ct_proc ?c = Some proc" "runProcessor F s proc = Some (a, m, s', proc')" "allowed (ct_mode ?c) a m"
    and keep: "\<And>d. ctl_frame ?c d \<Longrightarrow> ct_gen d = ct_gen ?c \<Longrightarrow> ct_detectLeap d = ct_detectLeap ?c \<Longrightarrow> ct_proc d = Some proc'
       \<Longrightarrow> shape (ct_mode ?c) d" by auto
  let ?p = "?c \<lparr> ct_proc := Some proc' \<rparr>"
  have tr: "trace_mode (ct_out ?p) = Some (ct_mode ?p)" using assms(1) by (simp add: ctl_inv_def)
  have al: "allowed (ct_mode ?p) a m" using r(3) by simp
  from doPHCAction_ok [OF tr al, of env] obtain out freq era where
    d: "doPHCAction env a ?p = ?p \<lparr> ct_out := out @ ct_out c, ct_freq := freq, ct_era := era \<rparr>"
      "trace_mode (out @ ct_out c) = Some (ct_mode c)" "refs_ok (out @ ct_out c) = refs_ok (ct_out c)" by auto
  define s2 where "s2 = s' \<lparr> smp_freq := freq, smp_freqDelta := f_sub F freq (ct_freq c), smp_mode := ct_mode c \<rparr>"
  define e where "e = c \<lparr> ct_proc := Some proc', ct_freq := freq, ct_era := era, ct_lastSample := Some s2, ct_out := OutSample s2 # out @ ct_out c \<rparr>"
  have res: "ctl_processSample F env s ?c = (if m \<noteq> ct_mode e then changeMode F m (smp_sys s2) e else Some e)"
    using r(1,2) d(1) by (simp add: ctl_processSample_def Let_def emit_def e_def s2_def)
  have base: "ctl_base e" "last_emitted e" using assms(1) by (simp_all add: ctl_inv_def ctl_base_def e_def last_emitted_def)
  have tr_e: "trace_mode (ct_out e) = Some (ct_mode e)" using d(2) assms(2) by (simp add: e_def s2_def)
  have sy_e: "gm_synced e" using assms(1) d(3) by (auto simp: ctl_inv_def gm_synced_def e_def refs_ok_def)
  have wp: "width_panic e = width_panic c" by (simp add: width_panic_def e_def)
  show ?thesis
  proof (cases "m = ct_mode c")
    case True
    have "shape (ct_mode c) e"
      using sh keep [of "?c \<lparr> ct_proc := Some proc' \<rparr>"] by (auto simp: e_def shape_def ctl_frame_def split: mode.splits)
    with base tr_e sy_e res True assms(2) show ?thesis by (simp add: ctl_inv_def e_def)
  next
    case False
    with r(3) have mc: "mode_change (ct_mode e) m" by (simp add: allowed_def e_def)
    have ls: "m \<noteq> ModeReset \<Longrightarrow> ct_lastSample e \<noteq> None" "ct_lastSample e = None \<Longrightarrow> ct_mode e \<noteq> ModeTracking"
      by (simp_all add: e_def)
    show ?thesis
    proof (cases "m = ModeTracking \<and> width_panic e")
      case True
      with changeMode_panic [of e F "smp_sys s2"] res False wp show ?thesis by (simp add: e_def)
    next
      case no: False
      then have wp': "m = ModeTracking \<Longrightarrow> \<not> width_panic e" by simp
      from changeMode_ok [OF base(1) tr_e base(2) sy_e mc ls(1) wp' ls(2), of F "smp_sys s2"] res False show ?thesis
        by (auto simp: e_def)
    qed
  qed
qed

section \<open>Events\<close>

lemma genSample_kind:
  assumes "reset_ok g" "env_ok env"
  shows "\<exists>r g'. genSample F env g = Some (r, g') \<and> reset_ok g' \<and> (\<forall>s. r = Some s \<longrightarrow> smp_kind s = SampleOK)"
proof -
  from genSample_ok [OF assms, of F] obtain r g' where g: "genSample F env g = Some (r, g')" "aligned_frame g g'"
    "\<forall>s. r = Some s \<longrightarrow> (case me_post env (rc_pulseWindow (rg_cfg g)) of (lastSec, tRead, leap) \<Rightarrow>
       sound_sample F lastSec tRead g s g')" by (auto split: prod.splits)
  have "smp_kind s = SampleOK" if "r = Some s" for s
    using g(3) that by (auto simp: sound_sample_def align_sample_def okSample_def Let_def)
  with g(1) frame_ok [OF g(2) assms(1)] show ?thesis by blast
qed

lemma storeEdge_ok:
  assumes "reset_ok g"
  shows "\<exists>g'. storeEdge edge i g = Some g' \<and> reset_ok g'"
proof -
  let ?b = "if pulseEdgeMissing edge g then bufClear (rg_edgeBuf g) else rg_edgeBuf g"
  have b: "buf_ok ?b" "bufCap ?b = bufCap (rg_edgeBuf g)"
    using assms by (auto simp: reset_ok_def buf_ok_def bufClear_def bufCap_def)
  from bufAppend_spec [OF b(1), of edge] obtain b' where "bufAppend edge ?b = Some b'" "buf_ok b'" "bufCap b' = bufCap ?b"
    by blast
  with b(2) assms show ?thesis by (auto simp: storeEdge_def Let_def reset_ok_def)
qed

lemma okSample_kind [simp]: "smp_kind (okSample F ref off era i sys) = SampleOK"
  by (simp add: okSample_def)

lemma pulseSample_kind: "pulseSample F env edge i b g = (Some s, g') \<Longrightarrow> smp_kind s = SampleOK"
  by (auto simp: pulseSample_def Let_def split: if_splits)

lemma trk_kind:
  "trk_pulseEdgeSample F env edge i g = (Some s, g') \<Longrightarrow> smp_kind s = SampleOK"
  "trk_timeMessageSample F env g = (Some s, g') \<Longrightarrow> smp_kind s = SampleOK"
  "trk_tickSample F env now g = (Some s, g') \<Longrightarrow> smp_kind s = SampleOK"
  by (auto simp: trk_pulseEdgeSample_def trk_timeMessageSample_def trk_tickSample_def Let_def dest: pulseSample_kind
    split: if_splits option.splits prod.splits)

lemma gen_pulseEdge_ok:
  assumes "shape (ct_mode c) c" "ct_mode c \<noteq> ModeInvalid" "env_ok (msg_env.truncate env)"
  shows "\<exists>gen r gen'. ct_gen c = Some gen \<and> gen_pulseEdge F env edge i gen = Some (r, gen')
    \<and> (\<forall>s. r = Some s \<longrightarrow> smp_kind s \<noteq> SampleOutlier) \<and> shape (ct_mode c) (c \<lparr> ct_gen := Some gen' \<rparr>)"
proof (cases "ct_mode c")
  case ModeReset
  with assms(1) obtain g p where gp: "ct_gen c = Some (GenReset g)" "ct_proc c = Some (ProcReset p)" "reset_ok g" "ct_detectLeap c = None"
    by (auto simp: shape_def)
  have "\<exists>r g'. reset_pulseEdgeSample F (msg_env.truncate env) edge i g = Some (r, g') \<and> reset_ok g'
    \<and> (\<forall>s. r = Some s \<longrightarrow> smp_kind s = SampleOK)"
  proof (cases "era_uncertain (ph_era (pe_timestamp edge))")
    case False
    from storeEdge_ok [OF gp(3), of edge i] obtain g1 where "storeEdge edge i g = Some g1" "reset_ok g1" by blast
    with genSample_kind [OF _ assms(3), of g1 F] False show ?thesis by (simp add: reset_pulseEdgeSample_def)
  qed (use gp(3) in \<open>simp add: reset_pulseEdgeSample_def\<close>)
  with gp ModeReset show ?thesis by (force simp: gen_pulseEdge_def shape_def)
next
  case ModeConverging
  with assms(1) show ?thesis
    by (auto simp: shape_def gen_pulseEdge_def conv_pulseEdgeSample_def Let_def split: if_splits)
next
  case ModeTracking
  with assms(1) obtain g where "ct_gen c = Some (GenTracking g)" by (auto simp: shape_def)
  moreover obtain r g' where "trk_pulseEdgeSample F (msg_env.truncate env) edge i g = (r, g')"
    by (cases "trk_pulseEdgeSample F (msg_env.truncate env) edge i g")
  ultimately show ?thesis using ModeTracking assms(1) trk_kind(1) by (fastforce simp: shape_def gen_pulseEdge_def)
qed (use assms(2) in simp)

lemma gen_timeMessage_ok:
  assumes "shape (ct_mode c) c" "ct_mode c \<noteq> ModeInvalid" "env_ok (msg_env.truncate env)"
  shows "\<exists>gen r gen'. ct_gen c = Some gen \<and> gen_timeMessage F env gen = Some (r, gen')
    \<and> (\<forall>s. r = Some s \<longrightarrow> smp_kind s \<noteq> SampleOutlier) \<and> shape (ct_mode c) (c \<lparr> ct_gen := Some gen' \<rparr>)"
proof (cases "ct_mode c")
  case ModeReset
  with assms(1) obtain g p where gp: "ct_gen c = Some (GenReset g)" "ct_proc c = Some (ProcReset p)" "reset_ok g" "ct_detectLeap c = None"
    by (auto simp: shape_def)
  from genSample_kind [OF gp(3) assms(3), of F] gp ModeReset show ?thesis
    by (force simp: gen_timeMessage_def reset_timeMessageSample_def shape_def)
next
  case ModeConverging
  with assms(1) show ?thesis by (auto simp: shape_def gen_timeMessage_def conv_timeMessageSample_def)
next
  case ModeTracking
  with assms(1) obtain g where "ct_gen c = Some (GenTracking g)" by (auto simp: shape_def)
  moreover obtain r g' where "trk_timeMessageSample F (msg_env.truncate env) g = (r, g')"
    by (cases "trk_timeMessageSample F (msg_env.truncate env) g")
  ultimately show ?thesis using ModeTracking assms(1) trk_kind(2) by (fastforce simp: shape_def gen_timeMessage_def)
qed (use assms(2) in simp)

lemma processPresentSample_ok:
  assumes "ctl_inv c" "ct_mode c \<noteq> ModeInvalid" "\<And>s. r = Some s \<Longrightarrow> smp_kind s \<noteq> SampleOutlier"
  shows "safe c (processPresentSample F env r c)"
  using assms processSample_ok [of c] by (cases r) (auto simp: processPresentSample_def)

lemma ctl_inv_gen:
  "ctl_inv c \<Longrightarrow> shape (ct_mode c) (c \<lparr> ct_gen := Some gen \<rparr>) \<Longrightarrow> ctl_inv (c \<lparr> ct_gen := Some gen, ct_edgeIndex := i \<rparr>)"
  by (auto simp: ctl_inv_def ctl_base_def last_emitted_def gm_synced_def shape_def split: mode.splits)

lemma ctl_pulseEdge_ok:
  assumes "ctl_inv c" "ct_mode c \<noteq> ModeInvalid" "env_ok (msg_env.truncate env)"
  shows "safe c (ctl_pulseEdge F env edge c)"
proof -
  have sh: "shape (ct_mode c) c" using assms(1) by (simp add: ctl_inv_def)
  from gen_pulseEdge_ok [OF sh assms(2,3), of F edge "ct_edgeIndex c"] obtain gen r gen' where
    g: "ct_gen c = Some gen" "gen_pulseEdge F env edge (ct_edgeIndex c) gen = Some (r, gen')"
      "\<And>s. r = Some s \<Longrightarrow> smp_kind s \<noteq> SampleOutlier" "shape (ct_mode c) (c \<lparr> ct_gen := Some gen' \<rparr>)" by blast
  let ?c = "c \<lparr> ct_gen := Some gen', ct_edgeIndex := ct_edgeIndex c + 1 \<rparr>"
  have "safe ?c (processPresentSample F env r ?c)"
    using assms(2) g(3) ctl_inv_gen [OF assms(1) g(4)] by (intro processPresentSample_ok) auto
  then have "safe c (processPresentSample F env r ?c)" by (subst safe_frame [of c ?c]) (simp_all add: width_panic_def)
  with g(1,2) show ?thesis by (simp add: ctl_pulseEdge_def)
qed

lemma ctl_gen_same: "c \<lparr> ct_gen := g, ct_edgeIndex := ct_edgeIndex c \<rparr> = c \<lparr> ct_gen := g \<rparr>"
  by simp

text \<open>Going back to the reset mode never fails.\<close>

lemma reset_ok_mode:
  assumes "ctl_inv c" "ct_mode c \<noteq> ModeInvalid"
  shows "\<exists>c'. changeMode F ModeReset t c = Some c' \<and> ctl_inv c'"
proof (cases "ct_mode c = ModeReset")
  case True
  with assms show ?thesis by (simp add: changeMode_def)
next
  case False
  have mc: "mode_change (ct_mode c) ModeReset" using False assms(2) by (cases "ct_mode c") (simp_all add: mode_change_def)
  have ls: "ct_lastSample c = None \<Longrightarrow> ct_mode c \<noteq> ModeTracking" using assms(1) by (auto simp: ctl_inv_def shape_def)
  show ?thesis using assms(1) mc ls by (intro changeMode_ok) (auto simp: ctl_inv_def)
qed

lemma ctl_timeMessage_ok:
  assumes "ctl_inv c" "ct_mode c \<noteq> ModeInvalid" "env_ok (msg_env.truncate env)"
  shows "safe c (ctl_timeMessage F env t c)"
proof (cases "leap_detected env c")
  case True
  with reset_ok_mode [OF assms(1,2)] show ?thesis by (auto intro!: safeI simp: ctl_timeMessage_def)
next
  case False
  have sh: "shape (ct_mode c) c" using assms(1) by (simp add: ctl_inv_def)
  from gen_timeMessage_ok [OF sh assms(2,3), of F] obtain gen r gen' where
    g: "ct_gen c = Some gen" "gen_timeMessage F env gen = Some (r, gen')"
      "\<And>s. r = Some s \<Longrightarrow> smp_kind s \<noteq> SampleOutlier" "shape (ct_mode c) (c \<lparr> ct_gen := Some gen' \<rparr>)" by blast
  let ?c = "c \<lparr> ct_gen := Some gen' \<rparr>"
  have "safe ?c (processPresentSample F env r ?c)"
    using assms(2) g(3) ctl_inv_gen [OF assms(1) g(4), of "ct_edgeIndex c"]
    by (intro processPresentSample_ok) auto
  then have "safe c (processPresentSample F env r ?c)" by (subst safe_frame [of c ?c]) (simp_all add: width_panic_def)
  with g(1,2) False show ?thesis by (simp add: ctl_timeMessage_def)
qed

lemma ctl_inv_gm:
  "ctl_inv c \<Longrightarrow> gm_synced (c \<lparr> ct_gm := g \<rparr>) \<Longrightarrow> ctl_inv (c \<lparr> ct_gm := g \<rparr>)"
  by (simp add: ctl_inv_def ctl_base_def last_emitted_def)

lemma gmUpdate_inv:
  assumes "ctl_inv c"
  shows "\<exists>gm'. gmUpdate c = Some (c \<lparr> ct_gm := gm' \<rparr>) \<and> ctl_inv (c \<lparr> ct_gm := gm' \<rparr>) \<and> (gm' = None \<longleftrightarrow> ct_gm c = None)"
proof -
  have c: "gm_synced c" "last_emitted c" using assms by (simp_all add: ctl_inv_def)
  have i: "\<forall>gm. ct_gm c = Some gm \<longrightarrow> gm_inv gm" using c(1) by (simp add: gm_synced_def)
  from gmUpdate_ok [OF i c(2,1)] obtain gm' where g: "gmUpdate c = Some (c \<lparr> ct_gm := gm' \<rparr>)" "gm_synced (c \<lparr> ct_gm := gm' \<rparr>)"
    "gm' = None \<longleftrightarrow> ct_gm c = None" by (elim exE conjE)
  show ?thesis by (rule exI [of _ gm'], intro conjI g(1,3) ctl_inv_gm [OF assms g(2)])
qed

lemma ctl_leapSecond_ok:
  assumes "ctl_inv c"
  shows "\<exists>c'. ctl_leapSecond ls c = Some c' \<and> ctl_inv c'"
proof -
  have "ctl_inv (c \<lparr> ct_leapSecond := ls \<rparr>)"
    using assms by (simp add: ctl_inv_def ctl_base_def last_emitted_def gm_synced_def)
  from gmUpdate_inv [OF this] show ?thesis by (auto simp: ctl_leapSecond_def)
qed

lemma gmRetry_ok:
  assumes "ctl_inv c"
  shows "\<exists>c'. gmRetry now c = Some c' \<and> ctl_inv c'"
proof (cases "ct_gm c")
  case None
  with assms show ?thesis by (simp add: gmRetry_def)
next
  case (Some gm)
  let ?g = "snd (retryDue now gm)"
  let ?c = "c \<lparr> ct_gm := Some ?g \<rparr>"
  have inv: "ctl_inv ?c" using assms Some due_inv due_frame
    by (intro ctl_inv_gm) (auto simp: ctl_inv_def gm_synced_def)
  from gmUpdate_inv [OF inv] obtain g2 where g2: "gmUpdate ?c = Some (?c \<lparr> ct_gm := Some g2 \<rparr>)" "ctl_inv (?c \<lparr> ct_gm := Some g2 \<rparr>)"
    by fastforce
  have "gm_inv g2" using g2(2) by (simp add: ctl_inv_def gm_synced_def)
  from retry_ok [OF this] obtain g3 where g3: "gm_retry g2 = Some g3" "gm_inv g3" by blast
  have "ctl_inv (c \<lparr> ct_gm := Some g3 \<rparr>)"
    using g2(2) g3 retry_frame [OF g3(1)] by (simp add: ctl_inv_def ctl_base_def last_emitted_def gm_synced_def)
  with Some g2(1) g3(1) inv show ?thesis by (cases "retryDue now gm") (auto simp: gmRetry_def Let_def)
qed

lemma tick_pending_ok:
  assumes "ctl_inv c"
  shows "\<exists>r gen. tick_pending F env now c = (r, c \<lparr> ct_gen := gen \<rparr>) \<and> ctl_inv (c \<lparr> ct_gen := gen \<rparr>)
    \<and> (\<forall>s. r = Some s \<longrightarrow> smp_kind s \<noteq> SampleOutlier)"
proof (cases "ct_mode c = ModeTracking")
  case False
  with assms show ?thesis by (intro exI [of _ None] exI [of _ "ct_gen c"]) (simp add: tick_pending_def)
next
  case True
  with assms obtain g where g: "ct_gen c = Some (GenTracking g)" by (auto simp: ctl_inv_def shape_def)
  obtain r g' where t: "trk_tickSample F (msg_env.truncate env) now g = (r, g')" by (cases "trk_tickSample F (msg_env.truncate env) now g")
  have "shape (ct_mode c) (c \<lparr> ct_gen := Some (GenTracking g') \<rparr>)" using True assms by (auto simp: ctl_inv_def shape_def)
  from ctl_inv_gen [OF assms this, of "ct_edgeIndex c"] have "ctl_inv (c \<lparr> ct_gen := Some (GenTracking g') \<rparr>)" by simp
  with True g t trk_kind(3) show ?thesis by (fastforce simp: tick_pending_def)
qed

lemma ctl_tick_ok:
  assumes "ctl_inv c" "ct_mode c \<noteq> ModeInvalid"
  shows "safe c (ctl_tick F env now c)"
proof -
  have "safe c (tick_sample F env now c)"
  proof (cases "ct_mode c = ModeReset")
    case True
    with assms(1) show ?thesis by (simp add: tick_sample_def)
  next
    case False
    from tick_pending_ok [OF assms(1), of F env now] obtain r gen where
      p: "tick_pending F env now c = (r, c \<lparr> ct_gen := gen \<rparr>)" "ctl_inv (c \<lparr> ct_gen := gen \<rparr>)"
        "\<And>s. r = Some s \<Longrightarrow> smp_kind s \<noteq> SampleOutlier" by blast
    let ?c = "c \<lparr> ct_gen := gen \<rparr>"
    have m: "ct_mode ?c \<noteq> ModeInvalid" using assms(2) by simp
    have "safe ?c (tick_sample F env now c)"
    proof (cases r)
      case (Some s)
      with False p(1) processPresentSample_ok [OF p(2) m p(3), of r F env] show ?thesis
        by (simp add: tick_sample_def)
    next
      case None
      obtain prev where l: "ct_lastSample c = Some prev" using False assms
        by (cases "ct_mode c") (auto simp: ctl_inv_def shape_def)
      have k: "smp_kind (missingSample F prev (ct_era c)) \<noteq> SampleOutlier" by (simp add: missingSample_def)
      from processSample_ok [OF p(2) m k, of F env] p(2) l None False p(1) show ?thesis
        by (simp add: tick_sample_def Let_def)
    qed
    then show ?thesis by (subst safe_frame [of c ?c]) (simp_all add: width_panic_def)
  qed
  then show ?thesis using gmRetry_ok
    by (cases "tick_sample F env now c") (auto simp: ctl_tick_def intro!: safeI)
qed

text \<open>Every event, in every state of the invariant.\<close>

lemma ctl_step_ok:
  assumes "ctl_inv c" "ct_mode c \<noteq> ModeInvalid" "env_ok (msg_env.truncate env)"
  shows "safe c (ctl_step F env ev c)"
  using ctl_pulseEdge_ok [OF assms] ctl_timeMessage_ok [OF assms] safeI [OF ctl_leapSecond_ok [OF assms(1)]]
    safeI [OF reset_ok_mode [OF assms(1,2)]] ctl_tick_ok [OF assms(1,2)]
  by (cases ev) (simp_all add: ctl_step_def ctl_pause_def)

section \<open>Reachable states\<close>

text \<open>
  The states of a controller after \<^verbatim>\<open>SetTimeMsgBuffer\<close>, in any order of its events and of the steps of
  the grandmaster's worker. Every event may get other answers from the outside; the buffer of messages
  keeps its promise.
\<close>

inductive ctl_reachable :: "'f float64 \<Rightarrow> 'f sync_config \<Rightarrow> 'f controller \<Rightarrow> bool" for F cfg where
  init: "newController F cfg ls epp gm freqOffset maxFreq = Some (Inr c) \<Longrightarrow> gm = None \<or> gm = Some (newGrandmaster q) \<Longrightarrow>
    setTimeMsgBuffer F c = Some c' \<Longrightarrow> ctl_reachable F cfg c'"
| event: "ctl_reachable F cfg c \<Longrightarrow> env_ok (msg_env.truncate env) \<Longrightarrow> ctl_step F env ev c = Some c' \<Longrightarrow> ctl_reachable F cfg c'"
| take_req: "ctl_reachable F cfg c \<Longrightarrow> ct_gm c = Some gm \<Longrightarrow> worker_take gm = Some gm' \<Longrightarrow>
    ctl_reachable F cfg (c \<lparr> ct_gm := Some gm' \<rparr>)"
| answer: "ctl_reachable F cfg c \<Longrightarrow> ct_gm c = Some gm \<Longrightarrow> worker_answer ok gm = Some gm' \<Longrightarrow>
    ctl_reachable F cfg (c \<lparr> ct_gm := Some gm' \<rparr>)"

lemma start_inv:
  assumes "config_ok cfg" "newController F cfg ls epp gm freqOffset maxFreq = Some (Inr c)" "gm = None \<or> gm = Some (newGrandmaster q)"
  shows "\<exists>c'. setTimeMsgBuffer F c = Some c' \<and> ctl_inv c'"
proof -
  have c: "ct_mode c = ModeInvalid" "ct_gen c = None" "ct_proc c = None" "ct_lastSample c = None" "ct_out c = []"
    "ct_gm c = gm" "ct_cfg c = cfg" "pt_edgesPerPulse (ct_pt c) = 1 \<or> pt_edgesPerPulse (ct_pt c) = 2"
    using assms(2) by (auto simp: newController_def split: if_splits option.splits)
  have "gm_inv (newGrandmaster q)" "\<not> traceable (gm_target (newGrandmaster q))"
    using gm_reachable_inv [OF gm_reachable.init] noSync_not_traceable by (simp_all add: newGrandmaster_def)
  with c assms(3) have g: "gm_synced c" by (auto simp: gm_synced_def)
  have "\<exists>c'. changeMode F ModeReset zeroTime c = Some c' \<and> ctl_inv c'"
    using c g assms(1) by (intro changeMode_ok) (simp_all add: ctl_base_def last_emitted_def mode_change_def)
  with c(1) show ?thesis by (simp add: setTimeMsgBuffer_def)
qed

lemma reachable_inv: "ctl_reachable F cfg c \<Longrightarrow> config_ok cfg \<Longrightarrow> ctl_inv c"
proof (induction rule: ctl_reachable.induct)
  case (init ls epp gm freqOffset maxFreq c q c')
  from start_inv [OF init.prems init.hyps(1,2)] init.hyps(3) show ?case by auto
next
  case (event c env ev c')
  then have i: "ctl_inv c" by simp
  then have "ct_mode c \<noteq> ModeInvalid" by (simp add: ctl_inv_def)
  from ctl_step_ok [OF i this event.hyps(2), of F ev] event.hyps(3) show ?case by simp
next
  case (take_req c gm gm')
  then have i: "ctl_inv c" by simp
  with take_req.hyps(2,3) worker_inv(1) worker_frame(1) show ?case
    by (intro ctl_inv_gm [OF i]) (auto simp: ctl_inv_def gm_synced_def)
next
  case (answer c gm ok gm')
  then have i: "ctl_inv c" by simp
  with answer.hyps(2,3) worker_inv(2) worker_frame(2) show ?case
    by (intro ctl_inv_gm [OF i]) (auto simp: ctl_inv_def gm_synced_def)
qed

lemma close_sent:
  assumes "gm_inv gm"
  shows "\<exists>gm'. gm_close ok gm = Some gm' \<and> (gm_sent gm' \<noteq> [] \<longrightarrow> hd (gm_sent gm') = gm_target gm)"
proof -
  from close_ok [OF assms, of ok] obtain gm' where c: "gm_close ok gm = Some gm'"
    "gm_sent gm \<noteq> [] \<Longrightarrow> hd (gm_sent gm') = gm_target gm" by blast
  have "gm_sent gm' = []" if "gm_sent gm = []"
  proof -
    have n: "gm_lastAttempt gm = None" "\<not> gm_waiting gm" "\<not> needsUpdate gm"
      using that assms by (auto simp: gm_inv_def needsUpdate_def)
    with c(1) that show ?thesis by (auto simp: gm_close_def)
  qed
  with c show ?thesis by blast
qed

text \<open>Closing: the mode is set to reset, the grandmaster updated and closed.\<close>

lemma close_updates:
  assumes "ctl_inv c"
  shows "\<exists>g. gmUpdate (c \<lparr> ct_mode := ModeReset \<rparr>) = Some (c \<lparr> ct_mode := ModeReset, ct_gm := g \<rparr>)
    \<and> gm_synced (c \<lparr> ct_mode := ModeReset, ct_gm := g \<rparr>) \<and> (g = None \<longleftrightarrow> ct_gm c = None)"
proof -
  let ?c = "c \<lparr> ct_mode := ModeReset \<rparr>"
  have c: "gm_synced c" "last_emitted ?c" using assms by (simp_all add: ctl_inv_def last_emitted_def)
  have gi: "\<forall>gm. ct_gm ?c = Some gm \<longrightarrow> gm_inv gm" using c(1) by (simp add: gm_synced_def)
  have s: "gm_synced ?c" if "ct_lastSample ?c = None"
  proof -
    have "ct_mode c \<noteq> ModeTracking" using that assms by (auto simp: ctl_inv_def shape_def)
    with c(1) show ?thesis by (simp add: gm_synced_def)
  qed
  from gmUpdate_ok [OF gi c(2) s] show ?thesis by simp
qed

lemma close_total:
  assumes "ctl_inv c"
  shows "\<exists>c'. ctl_close ok c = Some c'"
proof -
  from close_updates [OF assms] obtain g where g: "gmUpdate (c \<lparr> ct_mode := ModeReset \<rparr>) = Some (c \<lparr> ct_mode := ModeReset, ct_gm := g \<rparr>)"
    "gm_synced (c \<lparr> ct_mode := ModeReset, ct_gm := g \<rparr>)" by (elim exE conjE)
  show ?thesis
  proof (cases g)
    case None
    with g(1) show ?thesis by (simp add: ctl_close_def)
  next
    case (Some gm)
    with g(2) have "gm_inv gm" by (simp add: gm_synced_def)
    from close_ok [OF this, of ok] g(1) Some show ?thesis by (auto simp: ctl_close_def)
  qed
qed

lemma close_announces:
  assumes "ctl_inv c" "refs_ok (ct_out c)" "ct_gm c = Some gm"
  shows "\<exists>c' gm'. ctl_close ok c = Some c' \<and> ct_gm c' = Some gm' \<and> (gm_sent gm' \<noteq> [] \<longrightarrow> \<not> traceable (hd (gm_sent gm')))"
proof -
  from close_updates [OF assms(1)] obtain g where g: "gmUpdate (c \<lparr> ct_mode := ModeReset \<rparr>) = Some (c \<lparr> ct_mode := ModeReset, ct_gm := g \<rparr>)"
    "gm_synced (c \<lparr> ct_mode := ModeReset, ct_gm := g \<rparr>)" "g = None \<longleftrightarrow> ct_gm c = None" by (elim exE conjE)
  with assms(3) obtain h where h: "g = Some h" by auto
  with g(2) assms(2) have i: "gm_inv h" "\<not> traceable (gm_target h)" by (simp_all add: gm_synced_def)
  from close_sent [OF i(1), of ok] obtain h' where "gm_close ok h = Some h'" "gm_sent h' \<noteq> [] \<longrightarrow> hd (gm_sent h') = gm_target h"
    by blast
  with g(1) h i(2) show ?thesis by (auto simp: ctl_close_def)
qed

section \<open>What the controller guarantees\<close>

text \<open>C20: The type assertions of the controller always succeed. In every reachable state the sample generator
  and the sample processor are those of the current mode, which is never the invalid one; the leap
  detector is not installed in the reset mode; and outside it there is a last sample.\<close>
theorem controller_modes:
  assumes "config_ok cfg" "ctl_reachable F cfg c"
  shows "case (ct_mode c, ct_gen c, ct_proc c) of
      (ModeReset, Some (GenReset _), Some (ProcReset _)) \<Rightarrow> ct_detectLeap c = None
    | (ModeConverging, Some (GenConverging _), Some (ProcConverging _)) \<Rightarrow> ct_lastSample c \<noteq> None
    | (ModeTracking, Some (GenTracking _), Some (ProcTracking _)) \<Rightarrow> ct_lastSample c \<noteq> None
    | _ \<Rightarrow> False"
proof -
  have "ctl_inv c" by (rule reachable_inv [OF assms(2,1)])
  then show ?thesis by (cases "ct_mode c") (auto simp: ctl_inv_def shape_def)
qed

text \<open>C21: The controller never panics, but in one place. From every reachable state, with a message buffer
  that keeps its promise, every event is handled to its end, and so is \<^verbatim>\<open>Close\<close>; only leaving the
  converging mode for the tracking mode can panic, and then the clock has two edges per pulse and the
  pulse width found in the reset mode is not positive. A pause and a leap second update never panic.\<close>
theorem controller_returns:
  assumes "config_ok cfg" "ctl_reachable F cfg c" "env_ok (msg_env.truncate env)"
  shows "(ctl_step F env ev c = None \<longrightarrow> width_panic c) \<and> ctl_pause F t c \<noteq> None \<and> ctl_leapSecond ls c \<noteq> None
    \<and> ctl_close ok c \<noteq> None"
proof -
  have i: "ctl_inv c" by (rule reachable_inv [OF assms(2,1)])
  then have m: "ct_mode c \<noteq> ModeInvalid" by (simp add: ctl_inv_def)
  have "ctl_step F env ev c = None \<longrightarrow> width_panic c"
    using ctl_step_ok [OF i m assms(3), of F ev] by (auto simp: safe_def)
  then show ?thesis using reset_ok_mode [OF i m, of F t] ctl_leapSecond_ok [OF i, of ls] close_total [OF i, of ok]
    by (auto simp: ctl_pause_def)
qed

text \<open>C22: The controller keeps the rules of its modes. In every reachable state the calls it has made to the
  clock and the observer form a trace in which the modes follow each other only as reset, converging,
  tracking, and from the last two back to reset, every sample carries the mode it was processed in, the
  clock is stepped only in the reset and converging modes, never in the tracking mode, and its
  frequency is adjusted only in the converging and tracking modes; and the trace ends in the current mode.\<close>
theorem controller_trace:
  assumes "config_ok cfg" "ctl_reachable F cfg c"
  shows "trace_mode (ct_out c) = Some (ct_mode c)"
  using reachable_inv [OF assms(2,1)] by (simp add: ctl_inv_def)

text \<open>C23: The grandmaster announces a traceable time exactly in the tracking mode. In every reachable state,
  if no sample had the reference time zero, the settings the grandmaster is to announce claim
  traceability if and only if the controller is in the tracking mode; and after \<^verbatim>\<open>Close\<close> the last
  request sent, if there ever was one, does not.\<close>
theorem controller_announces:
  assumes "config_ok cfg" "ctl_reachable F cfg c" "refs_ok (ct_out c)" "ct_gm c = Some gm"
  shows "(traceable (gm_target gm) \<longleftrightarrow> ct_mode c = ModeTracking)
    \<and> (\<exists>c' gm'. ctl_close ok c = Some c' \<and> ct_gm c' = Some gm' \<and> (gm_sent gm' \<noteq> [] \<longrightarrow> \<not> traceable (hd (gm_sent gm'))))"
proof -
  have i: "ctl_inv c" by (rule reachable_inv [OF assms(2,1)])
  then have "gm_synced c" by (simp add: ctl_inv_def)
  with assms(3,4) close_announces [OF i assms(3,4), of ok] show ?thesis by (simp add: gm_synced_def)
qed

section \<open>A run\<close>

fun ctl_run :: "'f float64 \<Rightarrow> (event_env \<times> ctl_event) list \<Rightarrow> 'f controller \<Rightarrow> 'f controller option" where
  "ctl_run F [] c = Some c"
| "ctl_run F ((env, ev) # es) c = Option.bind (ctl_step F env ev c) (ctl_run F es)"

lemma run_reachable:
  "ctl_reachable F cfg c \<Longrightarrow> \<forall>(env, ev) \<in> set es. env_ok (msg_env.truncate env) \<Longrightarrow> ctl_run F es c = Some c' \<Longrightarrow> ctl_reachable F cfg c'"
proof (induction es arbitrary: c)
  case (Cons x es)
  obtain env ev where x: "x = (env, ev)" by (cases x)
  with Cons.prems(3) obtain d where d: "ctl_step F env ev c = Some d" "ctl_run F es d = Some c'" by (auto simp: bind_eq_Some_conv)
  have e: "env_ok (msg_env.truncate env)" using Cons.prems(2) x by simp
  from ctl_reachable.event [OF Cons.prems(1) e d(1)] Cons.IH d(2) Cons.prems(2) show ?case by simp
qed simp

text \<open>
  Eight pulses: the third aligns with the messages in the reset mode and steps the clock, the next
  compensates the step and then the frequency is adjusted in the converging mode until the last
  pulse is taken in the tracking mode.
\<close>

definition run_cfg :: "int sync_config" where
  "run_cfg = \<lparr> sc_reset = reset_cfg, sc_converge = sample_cfg, sc_track = track_cfg,
     sc_detectInvalidLeap = False, sc_minInvalidRepeatInterval = 0 \<rparr>"

definition run_env :: event_env where
  "run_env = msg_env.extend example_msgs \<lparr> ee_setFreq = True, ee_adjTime = Some 3 \<rparr>"

definition run_events :: "(event_env \<times> ctl_event) list" where
  "run_events = map (\<lambda>e. (run_env, PulseEdgeEv e)) [example_edge 101 5000 1, example_edge 102 5000 1, example_edge 103 5000 1,
     example_edge 104 0 3, example_edge 105 0 3, example_edge 106 0 3, example_edge 107 0 3, example_edge 108 0 3]"

definition run_new :: "(controller_error + int controller) option" where
  "run_new = newController int_float run_cfg \<lparr> offChangeTime = 0, utcOffBefore = 37, utcOffAfter = 37 \<rparr> 1
     (Some (newGrandmaster sample_quality)) (Some 0) 1000000"

definition run_start :: "int controller" where
  "run_start = the (setTimeMsgBuffer int_float (projr (the run_new)))"

definition run_end :: "int controller" where
  "run_end = the (ctl_run int_float run_events run_start)"

lemma run_cfg_ok: "config_ok run_cfg"
  by (simp add: config_ok_def run_cfg_def reset_cfg_def sample_cfg_def track_cfg_def)

lemma run_env_ok: "env_ok (msg_env.truncate run_env)"
  by (auto simp: env_ok_def run_env_def example_msgs_def msg_env.defs)

lemma run_end_reachable: "ctl_reachable int_float run_cfg run_end"
proof -
  have n: "newController int_float run_cfg \<lparr> offChangeTime = 0, utcOffBefore = 37, utcOffAfter = 37 \<rparr> 1
     (Some (newGrandmaster sample_quality)) (Some 0) 1000000 = Some (Inr (projr (the run_new)))"
    by (simp add: run_new_def newController_def)
  have "setTimeMsgBuffer int_float (projr (the run_new)) \<noteq> None" by code_simp
  then have s: "setTimeMsgBuffer int_float (projr (the run_new)) = Some run_start" by (simp add: run_start_def)
  have r: "ctl_reachable int_float run_cfg run_start" by (rule ctl_reachable.init [OF n _ s]) simp
  have "ctl_run int_float run_events run_start \<noteq> None" by code_simp
  then have e: "ctl_run int_float run_events run_start = Some run_end" by (simp add: run_end_def)
  show ?thesis by (rule run_reachable [OF r _ e]) (simp add: run_events_def run_env_ok)
qed

lemma run_end_mode: "ct_mode run_end = ModeTracking"
  by code_simp

theorem controller_modes_witness:
  "ct_mode run_end = ModeTracking \<and> (\<exists>g p. ct_gen run_end = Some (GenTracking g) \<and> ct_proc run_end = Some (ProcTracking p))"
  using controller_modes [OF run_cfg_ok run_end_reachable] run_end_mode
  by (auto split: option.splits generator.splits processor.splits)

theorem controller_returns_witness:
  "ctl_step int_float run_env (TickEv 0) run_end \<noteq> None \<and> ctl_close True run_end \<noteq> None"
  using controller_returns [OF run_cfg_ok run_end_reachable run_env_ok, of "TickEv 0" 0 undefined True] run_end_mode
  by (auto simp: width_panic_def)

theorem controller_trace_witness: "trace_mode (ct_out run_end) = Some ModeTracking"
  using controller_trace [OF run_cfg_ok run_end_reachable] run_end_mode by simp

theorem controller_announces_witness:
  "\<exists>gm. ct_gm run_end = Some gm \<and> traceable (gm_target gm) \<and> (\<exists>c' gm'. ctl_close True run_end = Some c' \<and> ct_gm c' = Some gm'
    \<and> (gm_sent gm' \<noteq> [] \<longrightarrow> \<not> traceable (hd (gm_sent gm'))))"
proof -
  have "ct_gm run_end \<noteq> None" by code_simp
  then obtain gm where gm: "ct_gm run_end = Some gm" by blast
  have "list_all (\<lambda>x. case x of OutSample s \<Rightarrow> smp_ref s \<noteq> 0 | _ \<Rightarrow> True) (ct_out run_end)" by code_simp
  then have r: "refs_ok (ct_out run_end)" by (auto simp: refs_ok_def list_all_iff)
  from controller_announces [OF run_cfg_ok run_end_reachable r gm, of True] run_end_mode gm show ?thesis by auto
qed

end
