(* ===== verification/ConfigProps.thy ===== *)
theory ConfigProps
  imports Main "HOL-Library.Word"
begin

text \<open>
  The configuration properties of a receiver, \<^verbatim>\<open>gps/gpsprot/configtarget.go\<close>: which are set, how two
  sets of properties are merged and compared, and the sets of flags that are written to JSON by name.
  JSON itself is the library's: a list of names here. An error is \<open>None\<close>.
\<close>

unbundle bit_operations_syntax

section \<open>Properties\<close>

type_synonym propIDs = "32 word"

datatype PosType = PosTypeNone | PosTypeECEF | PosTypeLLH

record rx_mode =
  md_Static :: bool
  md_PosType :: PosType
  md_FixedPosECEF :: "int \<times> int \<times> int"
  md_FixedPosLLH :: "int \<times> int"
  md_Height :: int
  md_FixedPosAcc :: int

definition zeroMode :: rx_mode where
  "zeroMode = \<lparr> md_Static = False, md_PosType = PosTypeNone, md_FixedPosECEF = (0, 0, 0), md_FixedPosLLH = (0, 0), md_Height = 0, md_FixedPosAcc = 0 \<rparr>"

definition mode_isZero :: "rx_mode \<Rightarrow> bool" where "mode_isZero m \<longleftrightarrow> m = zeroMode"

datatype NavMsgAuth = NavMsgAuthNone | NavMsgAuthOSNMA

record TimePulse =
  tp_Width :: int
  tp_Period :: int
  tp_AlignToGNSS :: bool
  tp_OnlyWhenLocked :: bool
  tp_PolarityRising :: bool

definition zeroTimePulse :: TimePulse where
  "zeroTimePulse = \<lparr> tp_Width = 0, tp_Period = 0, tp_AlignToGNSS = False, tp_OnlyWhenLocked = False, tp_PolarityRising = False \<rparr>"

record ConfigProps =
  cp_valid :: propIDs
  cp_signalsEnabled :: "64 word"
  cp_timeGNSS :: "8 word"
  cp_timePulse :: TimePulse
  cp_mode :: rx_mode
  cp_antennaCableDelay :: int
  cp_navMsgAuth :: NavMsgAuth
  cp_rtcmBaseID :: "16 word"
  cp_minElevation :: int
  cp_baudRate :: "32 word"
  cp_port :: string

definition newConfigProps :: ConfigProps where
  "newConfigProps = \<lparr> cp_valid = 0, cp_signalsEnabled = 0, cp_timeGNSS = 0, cp_timePulse = zeroTimePulse, cp_mode = zeroMode,
     cp_antennaCableDelay = 0, cp_navMsgAuth = NavMsgAuthNone, cp_rtcmBaseID = 0, cp_minElevation = 0, cp_baudRate = 0, cp_port = [] \<rparr>"

definition PropIDSignalsEnabled :: propIDs where "PropIDSignalsEnabled = push_bit 0 1"
definition PropIDTimeGNSS :: propIDs where "PropIDTimeGNSS = push_bit 1 1"
definition PropIDTimePulseWidth :: propIDs where "PropIDTimePulseWidth = push_bit 2 1"
definition PropIDTimePulsePeriod :: propIDs where "PropIDTimePulsePeriod = push_bit 3 1"
definition PropIDTimePulseAlignToGNSS :: propIDs where "PropIDTimePulseAlignToGNSS = push_bit 4 1"
definition PropIDTimePulseOnlyWhenLocked :: propIDs where "PropIDTimePulseOnlyWhenLocked = push_bit 5 1"
definition PropIDTimePulsePolarityRising :: propIDs where "PropIDTimePulsePolarityRising = push_bit 6 1"
definition PropIDMode :: propIDs where "PropIDMode = push_bit 7 1"
definition PropIDAntennaCableDelay :: propIDs where "PropIDAntennaCableDelay = push_bit 8 1"
definition PropIDNavMsgAuth :: propIDs where "PropIDNavMsgAuth = push_bit 9 1"
definition PropIDRTCMBaseID :: propIDs where "PropIDRTCMBaseID = push_bit 10 1"
definition PropIDMinElevation :: propIDs where "PropIDMinElevation = push_bit 11 1"
definition PropIDBaudRate :: propIDs where "PropIDBaudRate = push_bit 12 1"
definition PropIDPort :: propIDs where "PropIDPort = push_bit 13 1"

lemma and_push_bit: "(w AND push_bit k 1 = 0) = (\<not> bit w k)" for w :: "32 word"
  by (simp add: push_bit_eq_mult and_exp_eq_0_iff_not_bit)

lemma bit_or_push_bit: "k < 32 \<Longrightarrow> bit (w OR push_bit k 1) n = (bit w n \<or> n = k)" for w :: "32 word"
  by (auto simp: bit_or_iff bit_exp_iff)

lemma prop_bits:
  "(v AND PropIDSignalsEnabled = 0) = (\<not> bit v 0)" "bit (v OR PropIDSignalsEnabled) n = (bit v n \<or> n = 0)"
  "(v AND PropIDTimeGNSS = 0) = (\<not> bit v 1)" "bit (v OR PropIDTimeGNSS) n = (bit v n \<or> n = 1)"
  "(v AND PropIDTimePulseWidth = 0) = (\<not> bit v 2)" "bit (v OR PropIDTimePulseWidth) n = (bit v n \<or> n = 2)"
  "(v AND PropIDTimePulsePeriod = 0) = (\<not> bit v 3)" "bit (v OR PropIDTimePulsePeriod) n = (bit v n \<or> n = 3)"
  "(v AND PropIDTimePulseAlignToGNSS = 0) = (\<not> bit v 4)" "bit (v OR PropIDTimePulseAlignToGNSS) n = (bit v n \<or> n = 4)"
  "(v AND PropIDTimePulseOnlyWhenLocked = 0) = (\<not> bit v 5)" "bit (v OR PropIDTimePulseOnlyWhenLocked) n = (bit v n \<or> n = 5)"
  "(v AND PropIDTimePulsePolarityRising = 0) = (\<not> bit v 6)" "bit (v OR PropIDTimePulsePolarityRising) n = (bit v n \<or> n = 6)"
  "(v AND PropIDMode = 0) = (\<not> bit v 7)" "bit (v OR PropIDMode) n = (bit v n \<or> n = 7)"
  "(v AND PropIDAntennaCableDelay = 0) = (\<not> bit v 8)" "bit (v OR PropIDAntennaCableDelay) n = (bit v n \<or> n = 8)"
  "(v AND PropIDNavMsgAuth = 0) = (\<not> bit v 9)" "bit (v OR PropIDNavMsgAuth) n = (bit v n \<or> n = 9)"
  "(v AND PropIDRTCMBaseID = 0) = (\<not> bit v 10)" "bit (v OR PropIDRTCMBaseID) n = (bit v n \<or> n = 10)"
  "(v AND PropIDMinElevation = 0) = (\<not> bit v 11)" "bit (v OR PropIDMinElevation) n = (bit v n \<or> n = 11)"
  "(v AND PropIDBaudRate = 0) = (\<not> bit v 12)" "bit (v OR PropIDBaudRate) n = (bit v n \<or> n = 12)"
  "(v AND PropIDPort = 0) = (\<not> bit v 13)" "bit (v OR PropIDPort) n = (bit v n \<or> n = 13)"
  by (simp_all only: PropIDSignalsEnabled_def PropIDTimeGNSS_def PropIDTimePulseWidth_def PropIDTimePulsePeriod_def PropIDTimePulseAlignToGNSS_def PropIDTimePulseOnlyWhenLocked_def PropIDTimePulsePolarityRising_def PropIDMode_def PropIDAntennaCableDelay_def PropIDNavMsgAuth_def PropIDRTCMBaseID_def PropIDMinElevation_def PropIDBaudRate_def PropIDPort_def and_push_bit) (rule bit_or_push_bit, simp)+

definition timePulseProps :: propIDs where
  "timePulseProps = PropIDTimePulseWidth OR PropIDTimePulsePeriod OR PropIDTimePulseAlignToGNSS OR PropIDTimePulseOnlyWhenLocked
     OR PropIDTimePulsePolarityRising"

definition PropIDsReadOnly :: propIDs where "PropIDsReadOnly = PropIDPort"

lemmas propID_defs = PropIDSignalsEnabled_def
  PropIDTimeGNSS_def
  PropIDTimePulseWidth_def
  PropIDTimePulsePeriod_def
  PropIDTimePulseAlignToGNSS_def
  PropIDTimePulseOnlyWhenLocked_def
  PropIDTimePulsePolarityRising_def
  PropIDMode_def
  PropIDAntennaCableDelay_def
  PropIDNavMsgAuth_def
  PropIDRTCMBaseID_def
  PropIDMinElevation_def
  PropIDBaudRate_def
  PropIDPort_def

definition cp_isEmpty :: "ConfigProps \<Rightarrow> bool" where "cp_isEmpty cp \<longleftrightarrow> cp_valid cp = 0"

section \<open>Getting and setting\<close>

text \<open>A getter returns the value and whether it is set; the zero value if not.\<close>

definition getSignalsEnabled :: "ConfigProps \<Rightarrow> 64 word \<times> bool" where
  "getSignalsEnabled cp = (if cp_valid cp AND PropIDSignalsEnabled \<noteq> 0 then (cp_signalsEnabled cp, True) else (0, False))"

definition setSignalsEnabled :: "64 word \<Rightarrow> ConfigProps \<Rightarrow> ConfigProps" where
  "setSignalsEnabled val cp = (let cp = cp \<lparr> cp_signalsEnabled := val \<rparr> in cp \<lparr> cp_valid := cp_valid cp OR PropIDSignalsEnabled \<rparr>)"

definition getTimeGNSS :: "ConfigProps \<Rightarrow> 8 word \<times> bool" where
  "getTimeGNSS cp = (if cp_valid cp AND PropIDTimeGNSS \<noteq> 0 then (cp_timeGNSS cp, True) else (0, False))"

definition setTimeGNSS :: "8 word \<Rightarrow> ConfigProps \<Rightarrow> ConfigProps" where
  "setTimeGNSS val cp = (let cp = cp \<lparr> cp_timeGNSS := val \<rparr> in cp \<lparr> cp_valid := cp_valid cp OR PropIDTimeGNSS \<rparr>)"

definition getTimePulseWidth :: "ConfigProps \<Rightarrow> int \<times> bool" where
  "getTimePulseWidth cp = (if cp_valid cp AND PropIDTimePulseWidth \<noteq> 0 then (tp_Width (cp_timePulse cp), True) else (0, False))"

definition setTimePulseWidth :: "int \<Rightarrow> ConfigProps \<Rightarrow> ConfigProps" where
  "setTimePulseWidth val cp = (let cp = cp \<lparr> cp_timePulse := (cp_timePulse cp) \<lparr> tp_Width := val \<rparr> \<rparr> in cp \<lparr> cp_valid := cp_valid cp OR PropIDTimePulseWidth \<rparr>)"

definition getTimePulsePeriod :: "ConfigProps \<Rightarrow> int \<times> bool" where
  "getTimePulsePeriod cp = (if cp_valid cp AND PropIDTimePulsePeriod \<noteq> 0 then (tp_Period (cp_timePulse cp), True) else (0, False))"

definition setTimePulsePeriod :: "int \<Rightarrow> ConfigProps \<Rightarrow> ConfigProps" where
  "setTimePulsePeriod val cp = (let cp = cp \<lparr> cp_timePulse := (cp_timePulse cp) \<lparr> tp_Period := val \<rparr> \<rparr> in cp \<lparr> cp_valid := cp_valid cp OR PropIDTimePulsePeriod \<rparr>)"

definition getTimePulseAlignToGNSS :: "ConfigProps \<Rightarrow> bool \<times> bool" where
  "getTimePulseAlignToGNSS cp = (if cp_valid cp AND PropIDTimePulseAlignToGNSS \<noteq> 0 then (tp_AlignToGNSS (cp_timePulse cp), True) else (False, False))"

definition setTimePulseAlignToGNSS :: "bool \<Rightarrow> ConfigProps \<Rightarrow> ConfigProps" where
  "setTimePulseAlignToGNSS val cp = (let cp = cp \<lparr> cp_timePulse := (cp_timePulse cp) \<lparr> tp_AlignToGNSS := val \<rparr> \<rparr> in cp \<lparr> cp_valid := cp_valid cp OR PropIDTimePulseAlignToGNSS \<rparr>)"

definition getTimePulseOnlyWhenLocked :: "ConfigProps \<Rightarrow> bool \<times> bool" where
  "getTimePulseOnlyWhenLocked cp = (if cp_valid cp AND PropIDTimePulseOnlyWhenLocked \<noteq> 0 then (tp_OnlyWhenLocked (cp_timePulse cp), True) else (False, False))"

definition setTimePulseOnlyWhenLocked :: "bool \<Rightarrow> ConfigProps \<Rightarrow> ConfigProps" where
  "setTimePulseOnlyWhenLocked val cp = (let cp = cp \<lparr> cp_timePulse := (cp_timePulse cp) \<lparr> tp_OnlyWhenLocked := val \<rparr> \<rparr> in cp \<lparr> cp_valid := cp_valid cp OR PropIDTimePulseOnlyWhenLocked \<rparr>)"

definition getTimePulsePolarityRising :: "ConfigProps \<Rightarrow> bool \<times> bool" where
  "getTimePulsePolarityRising cp = (if cp_valid cp AND PropIDTimePulsePolarityRising \<noteq> 0 then (tp_PolarityRising (cp_timePulse cp), True) else (False, False))"

definition setTimePulsePolarityRising :: "bool \<Rightarrow> ConfigProps \<Rightarrow> ConfigProps" where
  "setTimePulsePolarityRising val cp = (let cp = cp \<lparr> cp_timePulse := (cp_timePulse cp) \<lparr> tp_PolarityRising := val \<rparr> \<rparr> in cp \<lparr> cp_valid := cp_valid cp OR PropIDTimePulsePolarityRising \<rparr>)"

definition getMode :: "ConfigProps \<Rightarrow> rx_mode \<times> bool" where
  "getMode cp = (if cp_valid cp AND PropIDMode \<noteq> 0 then (cp_mode cp, True) else (zeroMode, False))"

definition setMode :: "rx_mode \<Rightarrow> ConfigProps \<Rightarrow> ConfigProps" where
  "setMode val cp = (let cp = cp \<lparr> cp_mode := val \<rparr> in cp \<lparr> cp_valid := cp_valid cp OR PropIDMode \<rparr>)"

definition getAntennaCableDelay :: "ConfigProps \<Rightarrow> int \<times> bool" where
  "getAntennaCableDelay cp = (if cp_valid cp AND PropIDAntennaCableDelay \<noteq> 0 then (cp_antennaCableDelay cp, True) else (0, False))"

definition setAntennaCableDelay :: "int \<Rightarrow> ConfigProps \<Rightarrow> ConfigProps" where
  "setAntennaCableDelay val cp = (let cp = cp \<lparr> cp_antennaCableDelay := val \<rparr> in cp \<lparr> cp_valid := cp_valid cp OR PropIDAntennaCableDelay \<rparr>)"

definition getNavMsgAuth :: "ConfigProps \<Rightarrow> NavMsgAuth \<times> bool" where
  "getNavMsgAuth cp = (if cp_valid cp AND PropIDNavMsgAuth \<noteq> 0 then (cp_navMsgAuth cp, True) else (NavMsgAuthNone, False))"

definition setNavMsgAuth :: "NavMsgAuth \<Rightarrow> ConfigProps \<Rightarrow> ConfigProps" where
  "setNavMsgAuth val cp = (let cp = cp \<lparr> cp_navMsgAuth := val \<rparr> in cp \<lparr> cp_valid := cp_valid cp OR PropIDNavMsgAuth \<rparr>)"

definition getRTCMBaseID :: "ConfigProps \<Rightarrow> 16 word \<times> bool" where
  "getRTCMBaseID cp = (if cp_valid cp AND PropIDRTCMBaseID \<noteq> 0 then (cp_rtcmBaseID cp, True) else (0, False))"

definition setRTCMBaseID :: "16 word \<Rightarrow> ConfigProps \<Rightarrow> ConfigProps" where
  "setRTCMBaseID val cp = (let cp = cp \<lparr> cp_rtcmBaseID := val \<rparr> in cp \<lparr> cp_valid := cp_valid cp OR PropIDRTCMBaseID \<rparr>)"

definition getMinElevation :: "ConfigProps \<Rightarrow> int \<times> bool" where
  "getMinElevation cp = (if cp_valid cp AND PropIDMinElevation \<noteq> 0 then (cp_minElevation cp, True) else (0, False))"

definition setMinElevation :: "int \<Rightarrow> ConfigProps \<Rightarrow> ConfigProps" where
  "setMinElevation val cp = (let cp = cp \<lparr> cp_minElevation := val \<rparr> in cp \<lparr> cp_valid := cp_valid cp OR PropIDMinElevation \<rparr>)"

definition getBaudRate :: "ConfigProps \<Rightarrow> 32 word \<times> bool" where
  "getBaudRate cp = (if cp_valid cp AND PropIDBaudRate \<noteq> 0 then (cp_baudRate cp, True) else (0, False))"

definition setBaudRate :: "32 word \<Rightarrow> ConfigProps \<Rightarrow> ConfigProps" where
  "setBaudRate val cp = (let cp = cp \<lparr> cp_baudRate := val \<rparr> in cp \<lparr> cp_valid := cp_valid cp OR PropIDBaudRate \<rparr>)"

definition getPort :: "ConfigProps \<Rightarrow> string \<times> bool" where
  "getPort cp = (if cp_valid cp AND PropIDPort \<noteq> 0 then (cp_port cp, True) else ([], False))"

definition setPort :: "string \<Rightarrow> ConfigProps \<Rightarrow> ConfigProps" where
  "setPort val cp = (let cp = cp \<lparr> cp_port := val \<rparr> in cp \<lparr> cp_valid := cp_valid cp OR PropIDPort \<rparr>)"

definition getTimePulse :: "ConfigProps \<Rightarrow> TimePulse \<times> bool" where
  "getTimePulse cp = (if cp_valid cp AND timePulseProps = timePulseProps then (cp_timePulse cp, True) else (zeroTimePulse, False))"

definition setTimePulse :: "TimePulse \<Rightarrow> ConfigProps \<Rightarrow> ConfigProps" where
  "setTimePulse tp cp = cp \<lparr> cp_timePulse := tp, cp_valid := cp_valid cp OR timePulseProps \<rparr>"

definition setPPS :: "int \<Rightarrow> ConfigProps \<Rightarrow> ConfigProps" where
  "setPPS width = setTimePulse \<lparr> tp_Width = width, tp_Period = 1000000000, tp_AlignToGNSS = True, tp_OnlyWhenLocked = True, tp_PolarityRising = True \<rparr>"

definition readOnlyProps :: "ConfigProps \<Rightarrow> propIDs" where "readOnlyProps cp = cp_valid cp AND PropIDsReadOnly"

definition clearReadOnlyProps :: "ConfigProps \<Rightarrow> ConfigProps" where
  "clearReadOnlyProps cp = cp \<lparr> cp_valid := cp_valid cp AND NOT PropIDsReadOnly \<rparr>"

definition setsAny :: "propIDs list \<Rightarrow> ConfigProps \<Rightarrow> bool" where
  "setsAny props cp \<longleftrightarrow> (\<exists>p \<in> set props. cp_valid cp AND p \<noteq> 0)"

section \<open>Merging and comparing\<close>

text \<open>One \<^verbatim>\<open>if\<close> of the source.\<close>

definition on_cond :: "bool \<Rightarrow> (ConfigProps \<Rightarrow> ConfigProps) \<Rightarrow> ConfigProps \<Rightarrow> ConfigProps" where
  "on_cond b f cp = (if b then f cp else cp)"

definition copyFrom :: "ConfigProps option \<Rightarrow> ConfigProps \<Rightarrow> ConfigProps" where
  "copyFrom from cp = (case from of None \<Rightarrow> cp | Some other \<Rightarrow>
     let cp = on_cond (cp_valid other AND PropIDSignalsEnabled \<noteq> 0) (\<lambda>cp. cp \<lparr> cp_signalsEnabled := cp_signalsEnabled other \<rparr>) cp in
     let cp = on_cond (cp_valid other AND PropIDTimeGNSS \<noteq> 0) (\<lambda>cp. cp \<lparr> cp_timeGNSS := cp_timeGNSS other \<rparr>) cp in
     let cp = on_cond (cp_valid other AND PropIDTimePulseWidth \<noteq> 0) (\<lambda>cp. cp \<lparr> cp_timePulse := (cp_timePulse cp) \<lparr> tp_Width := tp_Width (cp_timePulse other) \<rparr> \<rparr>) cp in
     let cp = on_cond (cp_valid other AND PropIDTimePulsePeriod \<noteq> 0) (\<lambda>cp. cp \<lparr> cp_timePulse := (cp_timePulse cp) \<lparr> tp_Period := tp_Period (cp_timePulse other) \<rparr> \<rparr>) cp in
     let cp = on_cond (cp_valid other AND PropIDTimePulseAlignToGNSS \<noteq> 0) (\<lambda>cp. cp \<lparr> cp_timePulse := (cp_timePulse cp) \<lparr> tp_AlignToGNSS := tp_AlignToGNSS (cp_timePulse other) \<rparr> \<rparr>) cp in
     let cp = on_cond (cp_valid other AND PropIDTimePulseOnlyWhenLocked \<noteq> 0) (\<lambda>cp. cp \<lparr> cp_timePulse := (cp_timePulse cp) \<lparr> tp_OnlyWhenLocked := tp_OnlyWhenLocked (cp_timePulse other) \<rparr> \<rparr>) cp in
     let cp = on_cond (cp_valid other AND PropIDTimePulsePolarityRising \<noteq> 0) (\<lambda>cp. cp \<lparr> cp_timePulse := (cp_timePulse cp) \<lparr> tp_PolarityRising := tp_PolarityRising (cp_timePulse other) \<rparr> \<rparr>) cp in
     let cp = on_cond (cp_valid other AND PropIDMode \<noteq> 0) (\<lambda>cp. cp \<lparr> cp_mode := cp_mode other \<rparr>) cp in
     let cp = on_cond (cp_valid other AND PropIDAntennaCableDelay \<noteq> 0) (\<lambda>cp. cp \<lparr> cp_antennaCableDelay := cp_antennaCableDelay other \<rparr>) cp in
     let cp = on_cond (cp_valid other AND PropIDNavMsgAuth \<noteq> 0) (\<lambda>cp. cp \<lparr> cp_navMsgAuth := cp_navMsgAuth other \<rparr>) cp in
     let cp = on_cond (cp_valid other AND PropIDRTCMBaseID \<noteq> 0) (\<lambda>cp. cp \<lparr> cp_rtcmBaseID := cp_rtcmBaseID other \<rparr>) cp in
     let cp = on_cond (cp_valid other AND PropIDMinElevation \<noteq> 0) (\<lambda>cp. cp \<lparr> cp_minElevation := cp_minElevation other \<rparr>) cp in
     let cp = on_cond (cp_valid other AND PropIDBaudRate \<noteq> 0) (\<lambda>cp. cp \<lparr> cp_baudRate := cp_baudRate other \<rparr>) cp in
     let cp = on_cond (cp_valid other AND PropIDPort \<noteq> 0) (\<lambda>cp. cp \<lparr> cp_port := cp_port other \<rparr>) cp in
     cp \<lparr> cp_valid := cp_valid cp OR cp_valid other \<rparr>)"

definition inconsistent :: "ConfigProps \<Rightarrow> ConfigProps \<Rightarrow> ConfigProps" where
  "inconsistent cp other = (let both = cp_valid cp AND cp_valid other; result = newConfigProps in
     let result = on_cond (both AND PropIDSignalsEnabled \<noteq> 0 \<and> cp_signalsEnabled cp \<noteq> cp_signalsEnabled other) (setSignalsEnabled (cp_signalsEnabled other)) result in
     let result = on_cond (both AND PropIDTimeGNSS \<noteq> 0 \<and> cp_timeGNSS cp \<noteq> cp_timeGNSS other) (setTimeGNSS (cp_timeGNSS other)) result in
     let result = on_cond (both AND PropIDTimePulseWidth \<noteq> 0 \<and> tp_Width (cp_timePulse cp) \<noteq> tp_Width (cp_timePulse other)) (setTimePulseWidth (tp_Width (cp_timePulse other))) result in
     let result = on_cond (both AND PropIDTimePulsePeriod \<noteq> 0 \<and> tp_Period (cp_timePulse cp) \<noteq> tp_Period (cp_timePulse other)) (setTimePulsePeriod (tp_Period (cp_timePulse other))) result in
     let result = on_cond (both AND PropIDTimePulseAlignToGNSS \<noteq> 0 \<and> tp_AlignToGNSS (cp_timePulse cp) \<noteq> tp_AlignToGNSS (cp_timePulse other)) (setTimePulseAlignToGNSS (tp_AlignToGNSS (cp_timePulse other))) result in
     let result = on_cond (both AND PropIDTimePulseOnlyWhenLocked \<noteq> 0 \<and> tp_OnlyWhenLocked (cp_timePulse cp) \<noteq> tp_OnlyWhenLocked (cp_timePulse other)) (setTimePulseOnlyWhenLocked (tp_OnlyWhenLocked (cp_timePulse other))) result in
     let result = on_cond (both AND PropIDTimePulsePolarityRising \<noteq> 0 \<and> tp_PolarityRising (cp_timePulse cp) \<noteq> tp_PolarityRising (cp_timePulse other)) (setTimePulsePolarityRising (tp_PolarityRising (cp_timePulse other))) result in
     let result = on_cond (both AND PropIDMode \<noteq> 0 \<and> cp_mode cp \<noteq> cp_mode other) (setMode (cp_mode other)) result in
     let result = on_cond (both AND PropIDAntennaCableDelay \<noteq> 0 \<and> cp_antennaCableDelay cp \<noteq> cp_antennaCableDelay other) (setAntennaCableDelay (cp_antennaCableDelay other)) result in
     let result = on_cond (both AND PropIDNavMsgAuth \<noteq> 0 \<and> cp_navMsgAuth cp \<noteq> cp_navMsgAuth other) (setNavMsgAuth (cp_navMsgAuth other)) result in
     let result = on_cond (both AND PropIDRTCMBaseID \<noteq> 0 \<and> cp_rtcmBaseID cp \<noteq> cp_rtcmBaseID other) (setRTCMBaseID (cp_rtcmBaseID other)) result in
     let result = on_cond (both AND PropIDMinElevation \<noteq> 0 \<and> cp_minElevation cp \<noteq> cp_minElevation other) (setMinElevation (cp_minElevation other)) result in
     let result = on_cond (both AND PropIDBaudRate \<noteq> 0 \<and> cp_baudRate cp \<noteq> cp_baudRate other) (setBaudRate (cp_baudRate other)) result in
     let result = on_cond (both AND PropIDPort \<noteq> 0 \<and> cp_port cp \<noteq> cp_port other) (setPort (cp_port other)) result in
     result)"

definition missing :: "ConfigProps \<Rightarrow> ConfigProps \<Rightarrow> ConfigProps" where
  "missing cp other = other \<lparr> cp_valid := cp_valid other AND NOT (cp_valid cp) \<rparr>"

section \<open>As a map\<close>

text \<open>The value of the property with bit \<open>n\<close>, and the properties as a map from bits to values.\<close>

datatype prop_value =
  PvSignalsEnabled "64 word"
  | PvTimeGNSS "8 word"
  | PvTimePulseWidth "int"
  | PvTimePulsePeriod "int"
  | PvTimePulseAlignToGNSS "bool"
  | PvTimePulseOnlyWhenLocked "bool"
  | PvTimePulsePolarityRising "bool"
  | PvMode "rx_mode"
  | PvAntennaCableDelay "int"
  | PvNavMsgAuth "NavMsgAuth"
  | PvRTCMBaseID "16 word"
  | PvMinElevation "int"
  | PvBaudRate "32 word"
  | PvPort "string"
  | PvNone

definition prop_field :: "ConfigProps \<Rightarrow> nat \<Rightarrow> prop_value" where
  "prop_field cp n = (
     if n = 0 then PvSignalsEnabled (cp_signalsEnabled cp)
     else if n = 1 then PvTimeGNSS (cp_timeGNSS cp)
     else if n = 2 then PvTimePulseWidth (tp_Width (cp_timePulse cp))
     else if n = 3 then PvTimePulsePeriod (tp_Period (cp_timePulse cp))
     else if n = 4 then PvTimePulseAlignToGNSS (tp_AlignToGNSS (cp_timePulse cp))
     else if n = 5 then PvTimePulseOnlyWhenLocked (tp_OnlyWhenLocked (cp_timePulse cp))
     else if n = 6 then PvTimePulsePolarityRising (tp_PolarityRising (cp_timePulse cp))
     else if n = 7 then PvMode (cp_mode cp)
     else if n = 8 then PvAntennaCableDelay (cp_antennaCableDelay cp)
     else if n = 9 then PvNavMsgAuth (cp_navMsgAuth cp)
     else if n = 10 then PvRTCMBaseID (cp_rtcmBaseID cp)
     else if n = 11 then PvMinElevation (cp_minElevation cp)
     else if n = 12 then PvBaudRate (cp_baudRate cp)
     else if n = 13 then PvPort (cp_port cp)
     else PvNone)"

definition prop_map :: "ConfigProps \<Rightarrow> nat \<Rightarrow> prop_value option" where
  "prop_map cp n = (if n < 14 \<and> bit (cp_valid cp) n then Some (prop_field cp n) else None)"

text \<open>Steps that do not touch a field are skipped, without splitting the condition.\<close>

lemma skip_step:
  "(\<And>c. cp_signalsEnabled (f c) = cp_signalsEnabled c) \<Longrightarrow> cp_signalsEnabled (on_cond b f cp) = cp_signalsEnabled cp"
  "(\<And>c. cp_timeGNSS (f c) = cp_timeGNSS c) \<Longrightarrow> cp_timeGNSS (on_cond b f cp) = cp_timeGNSS cp"
  "(\<And>c. tp_Width (cp_timePulse (f c)) = tp_Width (cp_timePulse c)) \<Longrightarrow> tp_Width (cp_timePulse (on_cond b f cp)) = tp_Width (cp_timePulse cp)"
  "(\<And>c. tp_Period (cp_timePulse (f c)) = tp_Period (cp_timePulse c)) \<Longrightarrow> tp_Period (cp_timePulse (on_cond b f cp)) = tp_Period (cp_timePulse cp)"
  "(\<And>c. tp_AlignToGNSS (cp_timePulse (f c)) = tp_AlignToGNSS (cp_timePulse c)) \<Longrightarrow> tp_AlignToGNSS (cp_timePulse (on_cond b f cp)) = tp_AlignToGNSS (cp_timePulse cp)"
  "(\<And>c. tp_OnlyWhenLocked (cp_timePulse (f c)) = tp_OnlyWhenLocked (cp_timePulse c)) \<Longrightarrow> tp_OnlyWhenLocked (cp_timePulse (on_cond b f cp)) = tp_OnlyWhenLocked (cp_timePulse cp)"
  "(\<And>c. tp_PolarityRising (cp_timePulse (f c)) = tp_PolarityRising (cp_timePulse c)) \<Longrightarrow> tp_PolarityRising (cp_timePulse (on_cond b f cp)) = tp_PolarityRising (cp_timePulse cp)"
  "(\<And>c. cp_mode (f c) = cp_mode c) \<Longrightarrow> cp_mode (on_cond b f cp) = cp_mode cp"
  "(\<And>c. cp_antennaCableDelay (f c) = cp_antennaCableDelay c) \<Longrightarrow> cp_antennaCableDelay (on_cond b f cp) = cp_antennaCableDelay cp"
  "(\<And>c. cp_navMsgAuth (f c) = cp_navMsgAuth c) \<Longrightarrow> cp_navMsgAuth (on_cond b f cp) = cp_navMsgAuth cp"
  "(\<And>c. cp_rtcmBaseID (f c) = cp_rtcmBaseID c) \<Longrightarrow> cp_rtcmBaseID (on_cond b f cp) = cp_rtcmBaseID cp"
  "(\<And>c. cp_minElevation (f c) = cp_minElevation c) \<Longrightarrow> cp_minElevation (on_cond b f cp) = cp_minElevation cp"
  "(\<And>c. cp_baudRate (f c) = cp_baudRate c) \<Longrightarrow> cp_baudRate (on_cond b f cp) = cp_baudRate cp"
  "(\<And>c. cp_port (f c) = cp_port c) \<Longrightarrow> cp_port (on_cond b f cp) = cp_port cp"
  "(\<And>c. cp_valid (f c) = cp_valid c) \<Longrightarrow> cp_valid (on_cond b f cp) = cp_valid cp"
  by (simp_all add: on_cond_def)

lemma own_step:
  "cp_signalsEnabled (on_cond b (\<lambda>c. c \<lparr> cp_signalsEnabled := x0 \<rparr>) cp) = (if b then x0 else cp_signalsEnabled cp)"
  "cp_timeGNSS (on_cond b (\<lambda>c. c \<lparr> cp_timeGNSS := x1 \<rparr>) cp) = (if b then x1 else cp_timeGNSS cp)"
  "tp_Width (cp_timePulse (on_cond b (\<lambda>c. c \<lparr> cp_timePulse := (cp_timePulse c) \<lparr> tp_Width := x2 \<rparr> \<rparr>) cp)) = (if b then x2 else tp_Width (cp_timePulse cp))"
  "tp_Period (cp_timePulse (on_cond b (\<lambda>c. c \<lparr> cp_timePulse := (cp_timePulse c) \<lparr> tp_Period := x3 \<rparr> \<rparr>) cp)) = (if b then x3 else tp_Period (cp_timePulse cp))"
  "tp_AlignToGNSS (cp_timePulse (on_cond b (\<lambda>c. c \<lparr> cp_timePulse := (cp_timePulse c) \<lparr> tp_AlignToGNSS := x4 \<rparr> \<rparr>) cp)) = (if b then x4 else tp_AlignToGNSS (cp_timePulse cp))"
  "tp_OnlyWhenLocked (cp_timePulse (on_cond b (\<lambda>c. c \<lparr> cp_timePulse := (cp_timePulse c) \<lparr> tp_OnlyWhenLocked := x5 \<rparr> \<rparr>) cp)) = (if b then x5 else tp_OnlyWhenLocked (cp_timePulse cp))"
  "tp_PolarityRising (cp_timePulse (on_cond b (\<lambda>c. c \<lparr> cp_timePulse := (cp_timePulse c) \<lparr> tp_PolarityRising := x6 \<rparr> \<rparr>) cp)) = (if b then x6 else tp_PolarityRising (cp_timePulse cp))"
  "cp_mode (on_cond b (\<lambda>c. c \<lparr> cp_mode := x7 \<rparr>) cp) = (if b then x7 else cp_mode cp)"
  "cp_antennaCableDelay (on_cond b (\<lambda>c. c \<lparr> cp_antennaCableDelay := x8 \<rparr>) cp) = (if b then x8 else cp_antennaCableDelay cp)"
  "cp_navMsgAuth (on_cond b (\<lambda>c. c \<lparr> cp_navMsgAuth := x9 \<rparr>) cp) = (if b then x9 else cp_navMsgAuth cp)"
  "cp_rtcmBaseID (on_cond b (\<lambda>c. c \<lparr> cp_rtcmBaseID := x10 \<rparr>) cp) = (if b then x10 else cp_rtcmBaseID cp)"
  "cp_minElevation (on_cond b (\<lambda>c. c \<lparr> cp_minElevation := x11 \<rparr>) cp) = (if b then x11 else cp_minElevation cp)"
  "cp_baudRate (on_cond b (\<lambda>c. c \<lparr> cp_baudRate := x12 \<rparr>) cp) = (if b then x12 else cp_baudRate cp)"
  "cp_port (on_cond b (\<lambda>c. c \<lparr> cp_port := x13 \<rparr>) cp) = (if b then x13 else cp_port cp)"
  by (simp_all add: on_cond_def)

lemma set_step:
  "cp_signalsEnabled (on_cond b (setSignalsEnabled x0) cp) = (if b then x0 else cp_signalsEnabled cp)"
  "cp_timeGNSS (on_cond b (setTimeGNSS x1) cp) = (if b then x1 else cp_timeGNSS cp)"
  "tp_Width (cp_timePulse (on_cond b (setTimePulseWidth x2) cp)) = (if b then x2 else tp_Width (cp_timePulse cp))"
  "tp_Period (cp_timePulse (on_cond b (setTimePulsePeriod x3) cp)) = (if b then x3 else tp_Period (cp_timePulse cp))"
  "tp_AlignToGNSS (cp_timePulse (on_cond b (setTimePulseAlignToGNSS x4) cp)) = (if b then x4 else tp_AlignToGNSS (cp_timePulse cp))"
  "tp_OnlyWhenLocked (cp_timePulse (on_cond b (setTimePulseOnlyWhenLocked x5) cp)) = (if b then x5 else tp_OnlyWhenLocked (cp_timePulse cp))"
  "tp_PolarityRising (cp_timePulse (on_cond b (setTimePulsePolarityRising x6) cp)) = (if b then x6 else tp_PolarityRising (cp_timePulse cp))"
  "cp_mode (on_cond b (setMode x7) cp) = (if b then x7 else cp_mode cp)"
  "cp_antennaCableDelay (on_cond b (setAntennaCableDelay x8) cp) = (if b then x8 else cp_antennaCableDelay cp)"
  "cp_navMsgAuth (on_cond b (setNavMsgAuth x9) cp) = (if b then x9 else cp_navMsgAuth cp)"
  "cp_rtcmBaseID (on_cond b (setRTCMBaseID x10) cp) = (if b then x10 else cp_rtcmBaseID cp)"
  "cp_minElevation (on_cond b (setMinElevation x11) cp) = (if b then x11 else cp_minElevation cp)"
  "cp_baudRate (on_cond b (setBaudRate x12) cp) = (if b then x12 else cp_baudRate cp)"
  "cp_port (on_cond b (setPort x13) cp) = (if b then x13 else cp_port cp)"
  by (simp_all add: on_cond_def setSignalsEnabled_def setTimeGNSS_def setTimePulseWidth_def setTimePulsePeriod_def setTimePulseAlignToGNSS_def setTimePulseOnlyWhenLocked_def setTimePulsePolarityRising_def setMode_def setAntennaCableDelay_def setNavMsgAuth_def setRTCMBaseID_def setMinElevation_def setBaudRate_def setPort_def Let_def)

lemma set_valid:
  "bit (cp_valid (on_cond b (setSignalsEnabled x0) cp)) k = (bit (cp_valid cp) k \<or> b \<and> k = 0)"
  "bit (cp_valid (on_cond b (setTimeGNSS x1) cp)) k = (bit (cp_valid cp) k \<or> b \<and> k = 1)"
  "bit (cp_valid (on_cond b (setTimePulseWidth x2) cp)) k = (bit (cp_valid cp) k \<or> b \<and> k = 2)"
  "bit (cp_valid (on_cond b (setTimePulsePeriod x3) cp)) k = (bit (cp_valid cp) k \<or> b \<and> k = 3)"
  "bit (cp_valid (on_cond b (setTimePulseAlignToGNSS x4) cp)) k = (bit (cp_valid cp) k \<or> b \<and> k = 4)"
  "bit (cp_valid (on_cond b (setTimePulseOnlyWhenLocked x5) cp)) k = (bit (cp_valid cp) k \<or> b \<and> k = 5)"
  "bit (cp_valid (on_cond b (setTimePulsePolarityRising x6) cp)) k = (bit (cp_valid cp) k \<or> b \<and> k = 6)"
  "bit (cp_valid (on_cond b (setMode x7) cp)) k = (bit (cp_valid cp) k \<or> b \<and> k = 7)"
  "bit (cp_valid (on_cond b (setAntennaCableDelay x8) cp)) k = (bit (cp_valid cp) k \<or> b \<and> k = 8)"
  "bit (cp_valid (on_cond b (setNavMsgAuth x9) cp)) k = (bit (cp_valid cp) k \<or> b \<and> k = 9)"
  "bit (cp_valid (on_cond b (setRTCMBaseID x10) cp)) k = (bit (cp_valid cp) k \<or> b \<and> k = 10)"
  "bit (cp_valid (on_cond b (setMinElevation x11) cp)) k = (bit (cp_valid cp) k \<or> b \<and> k = 11)"
  "bit (cp_valid (on_cond b (setBaudRate x12) cp)) k = (bit (cp_valid cp) k \<or> b \<and> k = 12)"
  "bit (cp_valid (on_cond b (setPort x13) cp)) k = (bit (cp_valid cp) k \<or> b \<and> k = 13)"
  by (simp_all add: on_cond_def setSignalsEnabled_def setTimeGNSS_def setTimePulseWidth_def setTimePulsePeriod_def setTimePulseAlignToGNSS_def setTimePulseOnlyWhenLocked_def setTimePulsePolarityRising_def setMode_def setAntennaCableDelay_def setNavMsgAuth_def setRTCMBaseID_def setMinElevation_def setBaudRate_def setPort_def prop_bits Let_def)

lemma set_frame:
  "cp_timeGNSS (setSignalsEnabled x0 cp) = cp_timeGNSS cp"
  "tp_Width (cp_timePulse (setSignalsEnabled x0 cp)) = tp_Width (cp_timePulse cp)"
  "tp_Period (cp_timePulse (setSignalsEnabled x0 cp)) = tp_Period (cp_timePulse cp)"
  "tp_AlignToGNSS (cp_timePulse (setSignalsEnabled x0 cp)) = tp_AlignToGNSS (cp_timePulse cp)"
  "tp_OnlyWhenLocked (cp_timePulse (setSignalsEnabled x0 cp)) = tp_OnlyWhenLocked (cp_timePulse cp)"
  "tp_PolarityRising (cp_timePulse (setSignalsEnabled x0 cp)) = tp_PolarityRising (cp_timePulse cp)"
  "cp_mode (setSignalsEnabled x0 cp) = cp_mode cp"
  "cp_antennaCableDelay (setSignalsEnabled x0 cp) = cp_antennaCableDelay cp"
  "cp_navMsgAuth (setSignalsEnabled x0 cp) = cp_navMsgAuth cp"
  "cp_rtcmBaseID (setSignalsEnabled x0 cp) = cp_rtcmBaseID cp"
  "cp_minElevation (setSignalsEnabled x0 cp) = cp_minElevation cp"
  "cp_baudRate (setSignalsEnabled x0 cp) = cp_baudRate cp"
  "cp_port (setSignalsEnabled x0 cp) = cp_port cp"
  "cp_signalsEnabled (setTimeGNSS x1 cp) = cp_signalsEnabled cp"
  "tp_Width (cp_timePulse (setTimeGNSS x1 cp)) = tp_Width (cp_timePulse cp)"
  "tp_Period (cp_timePulse (setTimeGNSS x1 cp)) = tp_Period (cp_timePulse cp)"
  "tp_AlignToGNSS (cp_timePulse (setTimeGNSS x1 cp)) = tp_AlignToGNSS (cp_timePulse cp)"
  "tp_OnlyWhenLocked (cp_timePulse (setTimeGNSS x1 cp)) = tp_OnlyWhenLocked (cp_timePulse cp)"
  "tp_PolarityRising (cp_timePulse (setTimeGNSS x1 cp)) = tp_PolarityRising (cp_timePulse cp)"
  "cp_mode (setTimeGNSS x1 cp) = cp_mode cp"
  "cp_antennaCableDelay (setTimeGNSS x1 cp) = cp_antennaCableDelay cp"
  "cp_navMsgAuth (setTimeGNSS x1 cp) = cp_navMsgAuth cp"
  "cp_rtcmBaseID (setTimeGNSS x1 cp) = cp_rtcmBaseID cp"
  "cp_minElevation (setTimeGNSS x1 cp) = cp_minElevation cp"
  "cp_baudRate (setTimeGNSS x1 cp) = cp_baudRate cp"
  "cp_port (setTimeGNSS x1 cp) = cp_port cp"
  "cp_signalsEnabled (setTimePulseWidth x2 cp) = cp_signalsEnabled cp"
  "cp_timeGNSS (setTimePulseWidth x2 cp) = cp_timeGNSS cp"
  "tp_Period (cp_timePulse (setTimePulseWidth x2 cp)) = tp_Period (cp_timePulse cp)"
  "tp_AlignToGNSS (cp_timePulse (setTimePulseWidth x2 cp)) = tp_AlignToGNSS (cp_timePulse cp)"
  "tp_OnlyWhenLocked (cp_timePulse (setTimePulseWidth x2 cp)) = tp_OnlyWhenLocked (cp_timePulse cp)"
  "tp_PolarityRising (cp_timePulse (setTimePulseWidth x2 cp)) = tp_PolarityRising (cp_timePulse cp)"
  "cp_mode (setTimePulseWidth x2 cp) = cp_mode cp"
  "cp_antennaCableDelay (setTimePulseWidth x2 cp) = cp_antennaCableDelay cp"
  "cp_navMsgAuth (setTimePulseWidth x2 cp) = cp_navMsgAuth cp"
  "cp_rtcmBaseID (setTimePulseWidth x2 cp) = cp_rtcmBaseID cp"
  "cp_minElevation (setTimePulseWidth x2 cp) = cp_minElevation cp"
  "cp_baudRate (setTimePulseWidth x2 cp) = cp_baudRate cp"
  "cp_port (setTimePulseWidth x2 cp) = cp_port cp"
  "cp_signalsEnabled (setTimePulsePeriod x3 cp) = cp_signalsEnabled cp"
  "cp_timeGNSS (setTimePulsePeriod x3 cp) = cp_timeGNSS cp"
  "tp_Width (cp_timePulse (setTimePulsePeriod x3 cp)) = tp_Width (cp_timePulse cp)"
  "tp_AlignToGNSS (cp_timePulse (setTimePulsePeriod x3 cp)) = tp_AlignToGNSS (cp_timePulse cp)"
  "tp_OnlyWhenLocked (cp_timePulse (setTimePulsePeriod x3 cp)) = tp_OnlyWhenLocked (cp_timePulse cp)"
  "tp_PolarityRising (cp_timePulse (setTimePulsePeriod x3 cp)) = tp_PolarityRising (cp_timePulse cp)"
  "cp_mode (setTimePulsePeriod x3 cp) = cp_mode cp"
  "cp_antennaCableDelay (setTimePulsePeriod x3 cp) = cp_antennaCableDelay cp"
  "cp_navMsgAuth (setTimePulsePeriod x3 cp) = cp_navMsgAuth cp"
  "cp_rtcmBaseID (setTimePulsePeriod x3 cp) = cp_rtcmBaseID cp"
  "cp_minElevation (setTimePulsePeriod x3 cp) = cp_minElevation cp"
  "cp_baudRate (setTimePulsePeriod x3 cp) = cp_baudRate cp"
  "cp_port (setTimePulsePeriod x3 cp) = cp_port cp"
  "cp_signalsEnabled (setTimePulseAlignToGNSS x4 cp) = cp_signalsEnabled cp"
  "cp_timeGNSS (setTimePulseAlignToGNSS x4 cp) = cp_timeGNSS cp"
  "tp_Width (cp_timePulse (setTimePulseAlignToGNSS x4 cp)) = tp_Width (cp_timePulse cp)"
  "tp_Period (cp_timePulse (setTimePulseAlignToGNSS x4 cp)) = tp_Period (cp_timePulse cp)"
  "tp_OnlyWhenLocked (cp_timePulse (setTimePulseAlignToGNSS x4 cp)) = tp_OnlyWhenLocked (cp_timePulse cp)"
  "tp_PolarityRising (cp_timePulse (setTimePulseAlignToGNSS x4 cp)) = tp_PolarityRising (cp_timePulse cp)"
  "cp_mode (setTimePulseAlignToGNSS x4 cp) = cp_mode cp"
  "cp_antennaCableDelay (setTimePulseAlignToGNSS x4 cp) = cp_antennaCableDelay cp"
  "cp_navMsgAuth (setTimePulseAlignToGNSS x4 cp) = cp_navMsgAuth cp"
  "cp_rtcmBaseID (setTimePulseAlignToGNSS x4 cp) = cp_rtcmBaseID cp"
  "cp_minElevation (setTimePulseAlignToGNSS x4 cp) = cp_minElevation cp"
  "cp_baudRate (setTimePulseAlignToGNSS x4 cp) = cp_baudRate cp"
  "cp_port (setTimePulseAlignToGNSS x4 cp) = cp_port cp"
  "cp_signalsEnabled (setTimePulseOnlyWhenLocked x5 cp) = cp_signalsEnabled cp"
  "cp_timeGNSS (setTimePulseOnlyWhenLocked x5 cp) = cp_timeGNSS cp"
  "tp_Width (cp_timePulse (setTimePulseOnlyWhenLocked x5 cp)) = tp_Width (cp_timePulse cp)"
  "tp_Period (cp_timePulse (setTimePulseOnlyWhenLocked x5 cp)) = tp_Period (cp_timePulse cp)"
  "tp_AlignToGNSS (cp_timePulse (setTimePulseOnlyWhenLocked x5 cp)) = tp_AlignToGNSS (cp_timePulse cp)"
  "tp_PolarityRising (cp_timePulse (setTimePulseOnlyWhenLocked x5 cp)) = tp_PolarityRising (cp_timePulse cp)"
  "cp_mode (setTimePulseOnlyWhenLocked x5 cp) = cp_mode cp"
  "cp_antennaCableDelay (setTimePulseOnlyWhenLocked x5 cp) = cp_antennaCableDelay cp"
  "cp_navMsgAuth (setTimePulseOnlyWhenLocked x5 cp) = cp_navMsgAuth cp"
  "cp_rtcmBaseID (setTimePulseOnlyWhenLocked x5 cp) = cp_rtcmBaseID cp"
  "cp_minElevation (setTimePulseOnlyWhenLocked x5 cp) = cp_minElevation cp"
  "cp_baudRate (setTimePulseOnlyWhenLocked x5 cp) = cp_baudRate cp"
  "cp_port (setTimePulseOnlyWhenLocked x5 cp) = cp_port cp"
  "cp_signalsEnabled (setTimePulsePolarityRising x6 cp) = cp_signalsEnabled cp"
  "cp_timeGNSS (setTimePulsePolarityRising x6 cp) = cp_timeGNSS cp"
  "tp_Width (cp_timePulse (setTimePulsePolarityRising x6 cp)) = tp_Width (cp_timePulse cp)"
  "tp_Period (cp_timePulse (setTimePulsePolarityRising x6 cp)) = tp_Period (cp_timePulse cp)"
  "tp_AlignToGNSS (cp_timePulse (setTimePulsePolarityRising x6 cp)) = tp_AlignToGNSS (cp_timePulse cp)"
  "tp_OnlyWhenLocked (cp_timePulse (setTimePulsePolarityRising x6 cp)) = tp_OnlyWhenLocked (cp_timePulse cp)"
  "cp_mode (setTimePulsePolarityRising x6 cp) = cp_mode cp"
  "cp_antennaCableDelay (setTimePulsePolarityRising x6 cp) = cp_antennaCableDelay cp"
  "cp_navMsgAuth (setTimePulsePolarityRising x6 cp) = cp_navMsgAuth cp"
  "cp_rtcmBaseID (setTimePulsePolarityRising x6 cp) = cp_rtcmBaseID cp"
  "cp_minElevation (setTimePulsePolarityRising x6 cp) = cp_minElevation cp"
  "cp_baudRate (setTimePulsePolarityRising x6 cp) = cp_baudRate cp"
  "cp_port (setTimePulsePolarityRising x6 cp) = cp_port cp"
  "cp_signalsEnabled (setMode x7 cp) = cp_signalsEnabled cp"
  "cp_timeGNSS (setMode x7 cp) = cp_timeGNSS cp"
  "tp_Width (cp_timePulse (setMode x7 cp)) = tp_Width (cp_timePulse cp)"
  "tp_Period (cp_timePulse (setMode x7 cp)) = tp_Period (cp_timePulse cp)"
  "tp_AlignToGNSS (cp_timePulse (setMode x7 cp)) = tp_AlignToGNSS (cp_timePulse cp)"
  "tp_OnlyWhenLocked (cp_timePulse (setMode x7 cp)) = tp_OnlyWhenLocked (cp_timePulse cp)"
  "tp_PolarityRising (cp_timePulse (setMode x7 cp)) = tp_PolarityRising (cp_timePulse cp)"
  "cp_antennaCableDelay (setMode x7 cp) = cp_antennaCableDelay cp"
  "cp_navMsgAuth (setMode x7 cp) = cp_navMsgAuth cp"
  "cp_rtcmBaseID (setMode x7 cp) = cp_rtcmBaseID cp"
  "cp_minElevation (setMode x7 cp) = cp_minElevation cp"
  "cp_baudRate (setMode x7 cp) = cp_baudRate cp"
  "cp_port (setMode x7 cp) = cp_port cp"
  "cp_signalsEnabled (setAntennaCableDelay x8 cp) = cp_signalsEnabled cp"
  "cp_timeGNSS (setAntennaCableDelay x8 cp) = cp_timeGNSS cp"
  "tp_Width (cp_timePulse (setAntennaCableDelay x8 cp)) = tp_Width (cp_timePulse cp)"
  "tp_Period (cp_timePulse (setAntennaCableDelay x8 cp)) = tp_Period (cp_timePulse cp)"
  "tp_AlignToGNSS (cp_timePulse (setAntennaCableDelay x8 cp)) = tp_AlignToGNSS (cp_timePulse cp)"
  "tp_OnlyWhenLocked (cp_timePulse (setAntennaCableDelay x8 cp)) = tp_OnlyWhenLocked (cp_timePulse cp)"
  "tp_PolarityRising (cp_timePulse (setAntennaCableDelay x8 cp)) = tp_PolarityRising (cp_timePulse cp)"
  "cp_mode (setAntennaCableDelay x8 cp) = cp_mode cp"
  "cp_navMsgAuth (setAntennaCableDelay x8 cp) = cp_navMsgAuth cp"
  "cp_rtcmBaseID (setAntennaCableDelay x8 cp) = cp_rtcmBaseID cp"
  "cp_minElevation (setAntennaCableDelay x8 cp) = cp_minElevation cp"
  "cp_baudRate (setAntennaCableDelay x8 cp) = cp_baudRate cp"
  "cp_port (setAntennaCableDelay x8 cp) = cp_port cp"
  "cp_signalsEnabled (setNavMsgAuth x9 cp) = cp_signalsEnabled cp"
  "cp_timeGNSS (setNavMsgAuth x9 cp) = cp_timeGNSS cp"
  "tp_Width (cp_timePulse (setNavMsgAuth x9 cp)) = tp_Width (cp_timePulse cp)"
  "tp_Period (cp_timePulse (setNavMsgAuth x9 cp)) = tp_Period (cp_timePulse cp)"
  "tp_AlignToGNSS (cp_timePulse (setNavMsgAuth x9 cp)) = tp_AlignToGNSS (cp_timePulse cp)"
  "tp_OnlyWhenLocked (cp_timePulse (setNavMsgAuth x9 cp)) = tp_OnlyWhenLocked (cp_timePulse cp)"
  "tp_PolarityRising (cp_timePulse (setNavMsgAuth x9 cp)) = tp_PolarityRising (cp_timePulse cp)"
  "cp_mode (setNavMsgAuth x9 cp) = cp_mode cp"
  "cp_antennaCableDelay (setNavMsgAuth x9 cp) = cp_antennaCableDelay cp"
  "cp_rtcmBaseID (setNavMsgAuth x9 cp) = cp_rtcmBaseID cp"
  "cp_minElevation (setNavMsgAuth x9 cp) = cp_minElevation cp"
  "cp_baudRate (setNavMsgAuth x9 cp) = cp_baudRate cp"
  "cp_port (setNavMsgAuth x9 cp) = cp_port cp"
  "cp_signalsEnabled (setRTCMBaseID x10 cp) = cp_signalsEnabled cp"
  "cp_timeGNSS (setRTCMBaseID x10 cp) = cp_timeGNSS cp"
  "tp_Width (cp_timePulse (setRTCMBaseID x10 cp)) = tp_Width (cp_timePulse cp)"
  "tp_Period (cp_timePulse (setRTCMBaseID x10 cp)) = tp_Period (cp_timePulse cp)"
  "tp_AlignToGNSS (cp_timePulse (setRTCMBaseID x10 cp)) = tp_AlignToGNSS (cp_timePulse cp)"
  "tp_OnlyWhenLocked (cp_timePulse (setRTCMBaseID x10 cp)) = tp_OnlyWhenLocked (cp_timePulse cp)"
  "tp_PolarityRising (cp_timePulse (setRTCMBaseID x10 cp)) = tp_PolarityRising (cp_timePulse cp)"
  "cp_mode (setRTCMBaseID x10 cp) = cp_mode cp"
  "cp_antennaCableDelay (setRTCMBaseID x10 cp) = cp_antennaCableDelay cp"
  "cp_navMsgAuth (setRTCMBaseID x10 cp) = cp_navMsgAuth cp"
  "cp_minElevation (setRTCMBaseID x10 cp) = cp_minElevation cp"
  "cp_baudRate (setRTCMBaseID x10 cp) = cp_baudRate cp"
  "cp_port (setRTCMBaseID x10 cp) = cp_port cp"
  "cp_signalsEnabled (setMinElevation x11 cp) = cp_signalsEnabled cp"
  "cp_timeGNSS (setMinElevation x11 cp) = cp_timeGNSS cp"
  "tp_Width (cp_timePulse (setMinElevation x11 cp)) = tp_Width (cp_timePulse cp)"
  "tp_Period (cp_timePulse (setMinElevation x11 cp)) = tp_Period (cp_timePulse cp)"
  "tp_AlignToGNSS (cp_timePulse (setMinElevation x11 cp)) = tp_AlignToGNSS (cp_timePulse cp)"
  "tp_OnlyWhenLocked (cp_timePulse (setMinElevation x11 cp)) = tp_OnlyWhenLocked (cp_timePulse cp)"
  "tp_PolarityRising (cp_timePulse (setMinElevation x11 cp)) = tp_PolarityRising (cp_timePulse cp)"
  "cp_mode (setMinElevation x11 cp) = cp_mode cp"
  "cp_antennaCableDelay (setMinElevation x11 cp) = cp_antennaCableDelay cp"
  "cp_navMsgAuth (setMinElevation x11 cp) = cp_navMsgAuth cp"
  "cp_rtcmBaseID (setMinElevation x11 cp) = cp_rtcmBaseID cp"
  "cp_baudRate (setMinElevation x11 cp) = cp_baudRate cp"
  "cp_port (setMinElevation x11 cp) = cp_port cp"
  "cp_signalsEnabled (setBaudRate x12 cp) = cp_signalsEnabled cp"
  "cp_timeGNSS (setBaudRate x12 cp) = cp_timeGNSS cp"
  "tp_Width (cp_timePulse (setBaudRate x12 cp)) = tp_Width (cp_timePulse cp)"
  "tp_Period (cp_timePulse (setBaudRate x12 cp)) = tp_Period (cp_timePulse cp)"
  "tp_AlignToGNSS (cp_timePulse (setBaudRate x12 cp)) = tp_AlignToGNSS (cp_timePulse cp)"
  "tp_OnlyWhenLocked (cp_timePulse (setBaudRate x12 cp)) = tp_OnlyWhenLocked (cp_timePulse cp)"
  "tp_PolarityRising (cp_timePulse (setBaudRate x12 cp)) = tp_PolarityRising (cp_timePulse cp)"
  "cp_mode (setBaudRate x12 cp) = cp_mode cp"
  "cp_antennaCableDelay (setBaudRate x12 cp) = cp_antennaCableDelay cp"
  "cp_navMsgAuth (setBaudRate x12 cp) = cp_navMsgAuth cp"
  "cp_rtcmBaseID (setBaudRate x12 cp) = cp_rtcmBaseID cp"
  "cp_minElevation (setBaudRate x12 cp) = cp_minElevation cp"
  "cp_port (setBaudRate x12 cp) = cp_port cp"
  "cp_signalsEnabled (setPort x13 cp) = cp_signalsEnabled cp"
  "cp_timeGNSS (setPort x13 cp) = cp_timeGNSS cp"
  "tp_Width (cp_timePulse (setPort x13 cp)) = tp_Width (cp_timePulse cp)"
  "tp_Period (cp_timePulse (setPort x13 cp)) = tp_Period (cp_timePulse cp)"
  "tp_AlignToGNSS (cp_timePulse (setPort x13 cp)) = tp_AlignToGNSS (cp_timePulse cp)"
  "tp_OnlyWhenLocked (cp_timePulse (setPort x13 cp)) = tp_OnlyWhenLocked (cp_timePulse cp)"
  "tp_PolarityRising (cp_timePulse (setPort x13 cp)) = tp_PolarityRising (cp_timePulse cp)"
  "cp_mode (setPort x13 cp) = cp_mode cp"
  "cp_antennaCableDelay (setPort x13 cp) = cp_antennaCableDelay cp"
  "cp_navMsgAuth (setPort x13 cp) = cp_navMsgAuth cp"
  "cp_rtcmBaseID (setPort x13 cp) = cp_rtcmBaseID cp"
  "cp_minElevation (setPort x13 cp) = cp_minElevation cp"
  "cp_baudRate (setPort x13 cp) = cp_baudRate cp"
  by (simp_all add: setSignalsEnabled_def setTimeGNSS_def setTimePulseWidth_def setTimePulsePeriod_def setTimePulseAlignToGNSS_def setTimePulseOnlyWhenLocked_def setTimePulsePolarityRising_def setMode_def setAntennaCableDelay_def setNavMsgAuth_def setRTCMBaseID_def setMinElevation_def setBaudRate_def setPort_def Let_def)

lemma less14: "n < 14 \<longleftrightarrow> n \<in> {0, 1, 2, 3, 4, 5, 6, 7, 8, 9, 10, 11, 12, 13}" for n :: nat
  unfolding insert_iff empty_iff by presburger

lemma copyFrom_valid: "cp_valid (copyFrom (Some other) cp) = cp_valid cp OR cp_valid other"
  by (simp add: copyFrom_def Let_def skip_step)

lemma copyFrom_field:
  "n < 14 \<Longrightarrow> prop_field (copyFrom (Some other) cp) n = (if bit (cp_valid other) n then prop_field other n else prop_field cp n)"
  unfolding less14
  by (elim insertE emptyE; simp only:; simp add: prop_field_def copyFrom_def Let_def skip_step own_step prop_bits)

lemma copyFrom_none [simp]: "bit (cp_valid newConfigProps) n = False"
  by (simp add: newConfigProps_def)

lemma inconsistent_bit:
  "n < 14 \<Longrightarrow> bit (cp_valid (inconsistent cp other)) n
    = (bit (cp_valid cp) n \<and> bit (cp_valid other) n \<and> prop_field cp n \<noteq> prop_field other n)"
  unfolding less14
  by (elim insertE emptyE; simp only:; simp add: prop_field_def inconsistent_def Let_def set_valid prop_bits bit_and_iff)

lemma inconsistent_field:
  "n < 14 \<Longrightarrow> bit (cp_valid (inconsistent cp other)) n \<Longrightarrow> prop_field (inconsistent cp other) n = prop_field other n"
  unfolding inconsistent_bit unfolding less14
  by (elim insertE emptyE; simp only:; simp add: prop_field_def inconsistent_def Let_def set_step set_frame skip_step prop_bits bit_and_iff)

text \<open>C40: Sets of properties are maps. With the properties of a receiver read as a map from the properties
  that are set to their values, \<^verbatim>\<open>CopyFrom\<close> overrides one map with another, \<^verbatim>\<open>Missing\<close> restricts the other
  to what is not set, \<^verbatim>\<open>Inconsistent\<close> keeps the values of the other that differ from those set; and
  after \<^verbatim>\<open>CopyFrom\<close> nothing of the other is missing or inconsistent.\<close>
theorem config_maps:
  "prop_map (copyFrom (Some other) cp) = prop_map cp ++ prop_map other
   \<and> prop_map (missing cp other) = prop_map other |` (- dom (prop_map cp))
   \<and> prop_map (inconsistent cp other)
       = (\<lambda>n. if prop_map cp n \<noteq> None \<and> prop_map other n \<noteq> None \<and> prop_map cp n \<noteq> prop_map other n then prop_map other n else None)
   \<and> prop_map (inconsistent (copyFrom (Some other) cp) other) = Map.empty \<and> prop_map (missing (copyFrom (Some other) cp) other) = Map.empty"
proof -
  have i: "prop_map (inconsistent cp other)
       = (\<lambda>n. if prop_map cp n \<noteq> None \<and> prop_map other n \<noteq> None \<and> prop_map cp n \<noteq> prop_map other n then prop_map other n else None)" for cp
    by (rule ext) (auto simp: prop_map_def inconsistent_bit inconsistent_field)
  have c: "prop_map (copyFrom (Some other) cp) = prop_map cp ++ prop_map other"
    by (rule ext) (auto simp: prop_map_def map_add_def copyFrom_valid copyFrom_field bit_or_iff)
  have m: "prop_map (missing cp other) = prop_map other |` (- dom (prop_map cp))" for cp
    by (rule ext) (auto simp: prop_map_def missing_def restrict_map_def dom_def bit_and_iff bit_not_iff prop_field_def)
  show ?thesis by (auto simp: i c m map_add_def restrict_map_def fun_eq_iff split: option.splits)
qed

end
