(* ===== verification/ConfigFlags.thy ===== *)
theory ConfigFlags
  imports ConfigProps
begin

text \<open>
  The options of a configuration target and the sets of flags of \<^verbatim>\<open>gps/gpsprot/configtarget.go\<close>, which
  are written to JSON by name. JSON itself is the library's: a list of names here, or \<open>None\<close> for null.
  An error is \<open>None\<close>.
\<close>

section \<open>Options\<close>

type_synonym PVTMsgFlags = "16 word"
type_synonym SatsMsgFlags = "8 word"
type_synonym NMEAMsgFlags = "16 word"
type_synonym RTCMMsgFlags = "16 word"
type_synonym RawMsgFlags = "8 word"

record Survey =
  sv_Flags :: "64 word"
  sv_MinDur :: int
  sv_AccLimit :: int

text \<open>The zero time is \<open>None\<close>.\<close>

record TimeEstimate =
  te_EstimatedTime :: "int option"
  te_TimeOfEstimate :: "int option"
  te_Accuracy :: int
  te_utcOffset :: int
  te_leapTonight :: int
  te_Trusted :: bool

record ConfigOptions =
  co_Socket :: bool
  co_ForceProbe :: bool
  co_Save :: "8 word"
  co_Reset :: "8 word"
  co_PVTMsg :: PVTMsgFlags
  co_NMEAMsg :: "NMEAMsgFlags option"
  co_RTCMMsg :: "RTCMMsgFlags option"
  co_SatsMsg :: "SatsMsgFlags option"
  co_RawMsg :: "RawMsgFlags option"
  co_Survey :: Survey
  co_SetStatic :: bool
  co_TimeAssist :: TimeEstimate
  co_OSNMA :: "8 word list"

record ConfigTarget =
  ctg_Props :: ConfigProps
  ctg_Get :: propIDs
  ctg_Opts :: ConfigOptions

definition zeroOptions :: ConfigOptions where
  "zeroOptions = \<lparr> co_Socket = False, co_ForceProbe = False, co_Save = 0, co_Reset = 0, co_PVTMsg = 0, co_NMEAMsg = None,
     co_RTCMMsg = None, co_SatsMsg = None, co_RawMsg = None, co_Survey = \<lparr> sv_Flags = 0, sv_MinDur = 0, sv_AccLimit = 0 \<rparr>,
     co_SetStatic = False, co_TimeAssist = \<lparr> te_EstimatedTime = None, te_TimeOfEstimate = None, te_Accuracy = 0, te_utcOffset = 0,
       te_leapTonight = 0, te_Trusted = False \<rparr>, co_OSNMA = replicate 32 0 \<rparr>"

definition newConfigTarget :: ConfigTarget where
  "newConfigTarget = \<lparr> ctg_Props = newConfigProps, ctg_Get = 0, ctg_Opts = zeroOptions \<rparr>"

definition options_noOp :: "ConfigOptions \<Rightarrow> bool" where "options_noOp opts \<longleftrightarrow> opts = zeroOptions"

definition target_noOp :: "ConfigTarget \<Rightarrow> bool" where
  "target_noOp ct \<longleftrightarrow> cp_isEmpty (ctg_Props ct) \<and> ctg_Get ct = 0 \<and> options_noOp (ctg_Opts ct)"

definition usesAny :: "propIDs list \<Rightarrow> ConfigTarget \<Rightarrow> bool" where
  "usesAny props ct \<longleftrightarrow> (let uses = cp_valid (ctg_Props ct) OR ctg_Get ct in \<exists>p \<in> set props. uses AND p \<noteq> 0)"

text \<open>The message flags: bit by bit in the order of the source, the options among them included.\<close>

definition PVTMsgAny :: PVTMsgFlags where "PVTMsgAny = 0b11000111111"
definition SatsMsgAny :: SatsMsgFlags where "SatsMsgAny = 0b11"
definition NMEAMsgAny :: NMEAMsgFlags where "NMEAMsgAny = 0x807F"
definition RTCMMsgAny :: RTCMMsgFlags where "RTCMMsgAny = 0x8019"
definition RawMsgAny :: RawMsgFlags where "RawMsgAny = 0b11"

definition opt_get :: "'a::zero option \<Rightarrow> 'a" where "opt_get v = (case v of None \<Rightarrow> 0 | Some x \<Rightarrow> x)"

definition setsMsgs :: "ConfigOptions \<Rightarrow> bool" where
  "setsMsgs opts \<longleftrightarrow> co_PVTMsg opts \<noteq> 0 \<or> co_SatsMsg opts \<noteq> None \<or> co_NMEAMsg opts \<noteq> None \<or> co_RTCMMsg opts \<noteq> None \<or> co_RawMsg opts \<noteq> None"

definition enablesMsgs :: "ConfigOptions \<Rightarrow> bool" where
  "enablesMsgs opts \<longleftrightarrow> co_PVTMsg opts AND PVTMsgAny \<noteq> 0 \<or> opt_get (co_SatsMsg opts) AND SatsMsgAny \<noteq> 0
     \<or> opt_get (co_NMEAMsg opts) AND NMEAMsgAny \<noteq> 0 \<or> opt_get (co_RTCMMsg opts) AND RTCMMsgAny \<noteq> 0
     \<or> opt_get (co_RawMsg opts) AND RawMsgAny \<noteq> 0"

section \<open>Values by name\<close>

definition saveTypeNames :: "string list" where "saveTypeNames = [''none'', ''minimal'', ''all'']"

definition resetTypeNames :: "string list" where "resetTypeNames = [''none'', ''reload'', ''cold'', ''factory'']"

definition marshalName :: "string list \<Rightarrow> 8 word \<Rightarrow> string option" where
  "marshalName names t = (if length names \<le> unat t then None else Some (names ! unat t))"

fun name_index :: "string list \<Rightarrow> string \<Rightarrow> nat \<Rightarrow> nat option" where
  "name_index [] text i = None"
| "name_index (name # names) text i = (if text = name then Some i else name_index names text (i + 1))"

definition unmarshalName :: "string list \<Rightarrow> string \<Rightarrow> 8 word option" where
  "unmarshalName names text = map_option of_nat (name_index names text 0)"

section \<open>Flags by name\<close>

definition marshalFlags :: "'a::len word \<Rightarrow> (string \<times> 'a word) list \<Rightarrow> string list option" where
  "marshalFlags f table =
     (let names = map fst (filter (\<lambda>(_, flag). f AND flag \<noteq> 0) table);
          covered = foldl (\<lambda>c (_, flag). c OR flag) 0 table
      in if f AND NOT covered \<noteq> 0 then None else Some names)"

fun unmarshalNames :: "(string \<times> 'a::len word) list \<Rightarrow> string list \<Rightarrow> 'a word \<Rightarrow> 'a word option" where
  "unmarshalNames table [] flags = Some flags"
| "unmarshalNames table (name # names) flags =
     (case find (\<lambda>(n, _). n = name) table of None \<Rightarrow> None
      | Some (_, flag) \<Rightarrow> unmarshalNames table names (flags OR flag))"

definition unmarshalFlags :: "string list option \<Rightarrow> (string \<times> 'a::len word) list \<Rightarrow> 'a word option" where
  "unmarshalFlags data table = (case data of None \<Rightarrow> None | Some names \<Rightarrow> unmarshalNames table names 0)"

text \<open>A table names single flags, each once.\<close>

definition flag_table :: "(string \<times> 'a::len word) list \<Rightarrow> bool" where
  "flag_table table \<longleftrightarrow> distinct (map fst table) \<and> (\<forall>(_, flag) \<in> set table. \<exists>k. flag = push_bit k 1)"

lemma foldl_or: "bit (foldl (\<lambda>c (_, flag). c OR flag) c table) k = (bit c k \<or> (\<exists>(_, flag) \<in> set table. bit flag k))"
  by (induction table arbitrary: c) (auto simp: bit_or_iff)

lemma find_table: "distinct (map fst table) \<Longrightarrow> (n, flag) \<in> set table \<Longrightarrow> find (\<lambda>(m, _). m = n) table = Some (n, flag)"
  by (induction table) force+

lemma unmarshal_some:
  assumes "distinct (map fst table)" "set entries \<subseteq> set table"
  shows "unmarshalNames table (map fst entries) flags = Some (foldl (\<lambda>c (_, flag). c OR flag) flags entries)"
  using assms(2)
proof (induction entries arbitrary: flags)
  case (Cons e entries)
  obtain n flag where e: "e = (n, flag)" by (cases e)
  with Cons.prems find_table [OF assms(1)] have "find (\<lambda>(m, _). m = n) table = Some (n, flag)" by simp
  with Cons e show ?case by simp
qed simp

lemma unmarshal_none: "(unmarshalNames table ns flags = None) = (\<not> set ns \<subseteq> fst ` set table)"
proof (induction ns arbitrary: flags)
  case (Cons n ns)
  show ?case
  proof (cases "find (\<lambda>(m, _). m = n) table")
    case None
    then have "n \<notin> fst ` set table" by (force simp: find_None_iff)
    with None show ?thesis by simp
  next
    case (Some e)
    then have "e \<in> set table \<and> fst e = n" by (auto simp: find_Some_iff in_set_conv_nth)
    then have "n \<in> fst ` set table" by force
    with Some Cons.IH show ?thesis by (cases e) simp
  qed
qed simp

lemma single_bit: "f AND push_bit k 1 = 0 \<longleftrightarrow> \<not> bit f k" "f AND 2 ^ k = 0 \<longleftrightarrow> \<not> bit f k" for f :: "'a::len word"
  by (simp_all add: push_bit_eq_mult and_exp_eq_0_iff_not_bit)

lemma bit_single: "bit (push_bit k (1 :: 'a::len word)) j \<longleftrightarrow> j = k \<and> k < LENGTH('a)" "bit (2 ^ k :: 'a word) j \<longleftrightarrow> j = k \<and> k < LENGTH('a)"
  by (auto simp: bit_exp_iff)

text \<open>Sets of flags survive JSON. For a table of single flags with distinct names, reading the names
  written for a set of flags gives the set back; writing fails exactly when the set has a flag the
  table does not name, so no flag is lost silently; and reading an unknown name or null is an error.\<close>
lemma flags_roundtrip:
  assumes "flag_table table"
  shows "(case marshalFlags f table of
      None \<Rightarrow> \<exists>k. bit f k \<and> push_bit k 1 \<notin> snd ` set table
    | Some names \<Rightarrow> unmarshalFlags (Some names) table = Some f \<and> (\<forall>k. \<not> bit f k \<or> push_bit k 1 \<in> snd ` set table))
    \<and> unmarshalFlags None table = None \<and> (unmarshalFlags (Some ns) table = None) = (\<not> set ns \<subseteq> fst ` set table)"
proof -
  let ?es = "filter (\<lambda>(_, flag). f AND flag \<noteq> 0) table" and ?c = "foldl (\<lambda>c (_, flag). c OR flag) 0 table"
  have d: "distinct (map fst table)" using assms by (simp add: flag_table_def)
  have single: "\<exists>k. flag = push_bit k 1" if "(n, flag) \<in> set table" for n flag using assms that by (auto simp: flag_table_def)
  have cov: "bit ?c k \<longleftrightarrow> push_bit k 1 \<in> snd ` set table" if "k < LENGTH('a)" for k
  proof
    assume "bit ?c k"
    then obtain n flag where e: "(n, flag) \<in> set table" "bit flag k" by (auto simp: foldl_or)
    from single [OF e(1)] obtain j where j: "flag = push_bit j 1" by blast
    with e(2) have "k = j" by (simp only: bit_single(1))
    with e(1) j show "push_bit k 1 \<in> snd ` set table" by (metis image_eqI snd_conv)
  next
    assume "push_bit k 1 \<in> snd ` set table"
    then obtain n where "(n, push_bit k 1) \<in> set table" by force
    with that show "bit ?c k" by (auto simp: foldl_or bit_single intro!: bexI [of _ "(n, push_bit k 1)"])
  qed
  have fk: "bit f k \<Longrightarrow> k < LENGTH('a)" for k by (rule bit_imp_le_length)
  have u: "unmarshalNames table (map fst ?es) 0 = Some (foldl (\<lambda>c (_, flag). c OR flag) 0 ?es)"
    by (rule unmarshal_some [OF d]) auto
  have restored: "foldl (\<lambda>c (_, flag). c OR flag) 0 ?es = f" if "f AND NOT ?c = 0"
  proof (rule bit_word_eqI)
    fix k assume k: "k < LENGTH('a)"
    have no: "\<not> bit (f AND NOT ?c) k" unfolding that by simp
    have in_c: "bit f k \<Longrightarrow> bit ?c k" using no k by (simp add: bit_and_iff bit_not_iff)
    show "bit (foldl (\<lambda>c (_, flag). c OR flag) 0 ?es) k = bit f k"
    proof
      assume "bit (foldl (\<lambda>c (_, flag). c OR flag) 0 ?es) k"
      then obtain n flag where e: "(n, flag) \<in> set table" "f AND flag \<noteq> 0" "bit flag k" by (auto simp: foldl_or)
      from single [OF e(1)] obtain j where "flag = push_bit j 1" by blast
      with e(2,3) show "bit f k" by (auto simp: bit_single single_bit)
    next
      assume b: "bit f k"
      with in_c cov [OF k] obtain n where "(n, push_bit k 1) \<in> set table" by force
      with b k show "bit (foldl (\<lambda>c (_, flag). c OR flag) 0 ?es) k"
        by (simp add: foldl_or) (intro exI [of _ n] exI [of _ "2 ^ k"], simp add: bit_single single_bit)
    qed
  qed
  have un: "(unmarshalNames table ns 0 = None) = (\<not> set ns \<subseteq> fst ` set table)" by (rule unmarshal_none)
  show ?thesis
  proof (cases "f AND NOT ?c = 0")
    case True
    have "\<not> bit f k \<or> push_bit k 1 \<in> snd ` set table" for k
    proof (cases "bit f k")
      case b: True
      from True have "\<not> bit (f AND NOT ?c) k" by simp
      with b have "bit ?c k" using fk [OF b] by (simp add: bit_and_iff bit_not_iff)
      with cov [OF fk [OF b]] show ?thesis by simp
    qed simp
    with True u restored [OF True] un show ?thesis by (simp add: marshalFlags_def unmarshalFlags_def Let_def)
  next
    case False
    then obtain k where "bit (f AND NOT ?c) k" using bit_word_eqI [of "f AND NOT ?c" 0] by auto
    then have "bit f k" "\<not> bit ?c k" by (auto simp: bit_and_iff bit_not_iff)
    with cov [OF fk] have "\<exists>k. bit f k \<and> push_bit k 1 \<notin> snd ` set table" by blast
    with False un show ?thesis by (simp add: marshalFlags_def unmarshalFlags_def Let_def)
  qed
qed

section \<open>The tables\<close>

definition pvtMsgJSON :: "(string \<times> PVTMsgFlags) list" where
  "pvtMsgJSON = [(''pos'', push_bit 0 1), (''vel'', push_bit 1 1), (''time'', push_bit 2 1), (''timePulse'', push_bit 3 1),
     (''leapSecond'', push_bit 4 1), (''survey'', push_bit 5 1), (''tai'', push_bit 6 1), (''ecef'', push_bit 7 1),
     (''timePulseAfter'', push_bit 8 1), (''quality'', push_bit 9 1), (''epoch'', push_bit 10 1), (''off'', push_bit 11 1)]"

definition satsMsgJSON :: "(string \<times> SatsMsgFlags) list" where
  "satsMsgJSON = [(''sat'', push_bit 0 1), (''signal'', push_bit 1 1)]"

definition nmeaMsgJSON :: "(string \<times> NMEAMsgFlags) list" where
  "nmeaMsgJSON = [(''RMC'', push_bit 0 1), (''GGA'', push_bit 1 1), (''GSA'', push_bit 2 1), (''GSV'', push_bit 3 1),
     (''ZDA'', push_bit 4 1), (''VTG'', push_bit 5 1), (''GLL'', push_bit 6 1), (''other'', push_bit 15 1)]"

definition rtcmMsgJSON :: "(string \<times> RTCMMsgFlags) list" where
  "rtcmMsgJSON = [(''MSM4'', push_bit 0 1), (''MSM7'', push_bit 3 1), (''ARP'', push_bit 4 1), (''lax'', push_bit 5 1), (''other'', push_bit 15 1)]"

definition rawMsgJSON :: "(string \<times> RawMsgFlags) list" where
  "rawMsgJSON = [(''obs'', push_bit 0 1), (''navData'', push_bit 1 1)]"

definition surveyJSON :: "(string \<times> 64 word) list" where
  "surveyJSON = [(''again'', push_bit 0 1)]"

lemma flag_tables:
  "flag_table pvtMsgJSON" "flag_table satsMsgJSON" "flag_table nmeaMsgJSON" "flag_table rtcmMsgJSON" "flag_table rawMsgJSON"
  "flag_table surveyJSON"
  unfolding flag_table_def pvtMsgJSON_def satsMsgJSON_def nmeaMsgJSON_def rtcmMsgJSON_def rawMsgJSON_def surveyJSON_def
  by (simp_all only: list.set ball_simps prod.case simp_thms) (intro conjI TrueI; (rule exI, rule refl | simp))+

section \<open>Property names\<close>

definition propNames :: "string list" where
  "propNames = [''SignalsEnabled'', ''TimeGNSS'', ''TimePulseWidth'', ''TimePulsePeriod'', ''TimePulseAlignToGNSS'',
     ''TimePulseOnlyWhenLocked'', ''TimePulsePolarityRising'', ''Mode'', ''AntennaCableDelay'', ''NavMsgAuth'', ''RTCMBaseID'',
     ''MinElevation'', ''BaudRate'', ''Port'']"

fun join_with :: "string \<Rightarrow> string list \<Rightarrow> string" where
  "join_with sep [] = []"
| "join_with sep [x] = x"
| "join_with sep (x # y # xs) = x @ sep @ join_with sep (y # xs)"

definition propIDs_string :: "propIDs \<Rightarrow> string" where
  "propIDs_string p =
     ''PropIDs('' @ join_with ''|'' (map fst (filter (\<lambda>(_, i). p AND push_bit i 1 \<noteq> 0) (zip propNames [0..<length propNames]))) @ '')''"

text \<open>The names with their masks, in the order of writing.\<close>

definition propIDJSON :: "(string \<times> propIDs) list" where
  "propIDJSON = [(''signalsEnabled'', PropIDSignalsEnabled), (''timeGNSS'', PropIDTimeGNSS), (''timePulse'', timePulseProps),
     (''timePulse.width'', PropIDTimePulseWidth), (''timePulse.period'', PropIDTimePulsePeriod),
     (''timePulse.alignToGNSS'', PropIDTimePulseAlignToGNSS), (''timePulse.onlyWhenLocked'', PropIDTimePulseOnlyWhenLocked),
     (''timePulse.polarityRising'', PropIDTimePulsePolarityRising), (''mode'', PropIDMode),
     (''antennaCableDelay'', PropIDAntennaCableDelay), (''navMsgAuth'', PropIDNavMsgAuth), (''rtcmBaseID'', PropIDRTCMBaseID),
     (''minElevation'', PropIDMinElevation), (''baudRate'', PropIDBaudRate), (''port'', PropIDPort)]"

fun emit_names :: "propIDs \<Rightarrow> (string \<times> propIDs) list \<Rightarrow> propIDs \<Rightarrow> string list" where
  "emit_names p [] emitted = []"
| "emit_names p ((name, m) # rest) emitted =
     (if p AND m = m \<and> emitted AND m = 0 then name # emit_names p rest (emitted OR m) else emit_names p rest emitted)"

definition marshalPropIDs :: "propIDs \<Rightarrow> string list" where "marshalPropIDs p = emit_names p propIDJSON 0"

definition unmarshalPropIDs :: "string list \<Rightarrow> propIDs option" where "unmarshalPropIDs names = unmarshalNames propIDJSON names 0"

end
