(* ===== verification/Director.thy ===== *)
theory Director
  imports SyncTypes Prelude
begin

text \<open>
  The configuration director of \<^verbatim>\<open>gps/gpsprot/configprotocol.go\<close>: the iterator \<^verbatim>\<open>Actions\<close>, which tells its client which
  request to send, how long to wait and which requests failed, with its active window, its retries and its
  timeouts. A Configurator, an interface of the source, is the record \<open>configurator\<close> of its methods over a state of
  its own. The body of the client's range loop is the parameter \<open>client\<close>, as \<^verbatim>\<open>yield\<close> is in the source: given the
  run so far it says whether it goes on and which methods it called meanwhile.
\<close>

section \<open>The interfaces\<close>

datatype ConfigRequestState = ReqNotReady | ReqReadyToSend | ReqAwaitingResponse | ReqMaybeComplete | ReqPausing
  | ReqSucceeded | ReqMayResend | ReqFailed | ReqSkipped

text \<open>
  A request is named by its index. The getters are values where the state of the request meets their precondition,
  as the director calls them only there; so are the setters.
\<close>

record 'c configurator =
  generateRequests :: "'c \<Rightarrow> string option \<times> 'c"
  getRequestCount :: "'c \<Rightarrow> nat \<times> bool"
  getState :: "'c \<Rightarrow> nat \<Rightarrow> ConfigRequestState"
  getPacket :: "'c \<Rightarrow> nat \<Rightarrow> bytes"
  getSpeedChangeAfter :: "'c \<Rightarrow> nat \<Rightarrow> int"
  getDeadline :: "'c \<Rightarrow> nat \<Rightarrow> int"
  getError :: "'c \<Rightarrow> nat \<Rightarrow> string"
  setDeadlinePassed :: "nat \<Rightarrow> 'c \<Rightarrow> 'c"
  setWontResend :: "nat \<Rightarrow> 'c \<Rightarrow> 'c"
  maybeSpeedChangeSucceeded :: "nat \<Rightarrow> int \<Rightarrow> 'c \<Rightarrow> 'c"

datatype config_action = ActSendRequest nat bytes int | ActWaitUntil int | ActError string

record 'c director =
  cfgtor :: 'c
  startIndex :: nat
  endIndex :: nat
  retries :: "int list"
  speedChangeRequests :: "nat list"
  maxRetries :: int
  errorCount :: int
  currentTime :: int
  advanceCount :: int

text \<open>
  A run of the iterator: the director and what it has yielded, each action with the mark that it repeats a request
  that may be resent.
\<close>

record 'c run = "'c director" +
  yielded :: "(config_action \<times> bool) list"

text \<open>Why a run stops: the iterator ended, the client broke out, the generation of requests failed, a
  panic, or the panic over requests that are stuck in \<open>ReqNotReady\<close>.\<close>

datatype halt = Complete | Abandoned | GenerateFailed | Panicked | Stuck

text \<open>
  What the body of the client's loop may call: the two methods of the director, and those of the requests and of
  the protocol (\<^verbatim>\<open>SetSentTime\<close>, \<^verbatim>\<open>NativeMsg\<close>), which change the configurator. Go leaves the order of a \<^verbatim>\<open>range\<close> over
  a map open, so \<open>ValidPacketReceivedCall\<close> carries the order of this range.
\<close>

datatype 'c client_call = AdvanceTimeToCall int | ValidPacketReceivedCall int "nat list \<Rightarrow> nat list" | DriveCall "'c \<Rightarrow> 'c"

type_synonym 'c client = "config_action \<Rightarrow> 'c run \<Rightarrow> bool \<times> 'c client_call list"

section \<open>The operations\<close>

definition newConfigDirector :: "'c \<Rightarrow> int \<Rightarrow> 'c run" where
  "newConfigDirector c n =
     \<lparr> cfgtor = c, startIndex = 0, endIndex = 0, retries = [], speedChangeRequests = [], maxRetries = n, errorCount = 0,
       currentTime = zeroTime, advanceCount = 0, yielded = [] \<rparr>"

definition hasDeadline :: "ConfigRequestState \<Rightarrow> bool" where
  "hasDeadline s \<longleftrightarrow> s = ReqAwaitingResponse \<or> s = ReqMaybeComplete \<or> s = ReqPausing"

primrec timeouts_from :: "'c configurator \<Rightarrow> nat \<Rightarrow> nat \<Rightarrow> 'c run \<Rightarrow> 'c run" where
  "timeouts_from cf 0 i r = r"
| "timeouts_from cf (Suc k) i r =
     timeouts_from cf k (i + 1)
       (if hasDeadline (getState cf (cfgtor r) i) \<and> \<not> currentTime r < getDeadline cf (cfgtor r) i
        then r\<lparr> cfgtor := setDeadlinePassed cf i (cfgtor r) \<rparr> else r)"

definition processTimeouts :: "'c configurator \<Rightarrow> 'c run \<Rightarrow> 'c run" where
  "processTimeouts cf r = timeouts_from cf (fst (getRequestCount cf (cfgtor r))) 0 r"

definition advanceTimeTo :: "'c configurator \<Rightarrow> int \<Rightarrow> 'c run \<Rightarrow> halt option \<times> 'c run" where
  "advanceTimeTo cf t r =
     (if t < currentTime r then (Some Panicked, r)
      else (None, processTimeouts cf (r\<lparr> currentTime := t, advanceCount := advanceCount r + 1 \<rparr>)))"

definition confirmSpeed :: "'c configurator \<Rightarrow> int \<Rightarrow> nat \<Rightarrow> 'c run \<Rightarrow> 'c run" where
  "confirmSpeed cf t i r =
     (if i < startIndex r \<or> endIndex r \<le> i then r
      else if getState cf (cfgtor r) i \<noteq> ReqAwaitingResponse then r
      else r\<lparr> cfgtor := maybeSpeedChangeSucceeded cf i t (cfgtor r) \<rparr>)"

definition validPacketReceived :: "'c configurator \<Rightarrow> int \<Rightarrow> (nat list \<Rightarrow> nat list) \<Rightarrow> 'c run \<Rightarrow> 'c run" where
  "validPacketReceived cf t ord r = fold (confirmSpeed cf t) (ord (speedChangeRequests r)) r"

fun client_calls :: "'c configurator \<Rightarrow> 'c client_call list \<Rightarrow> 'c run \<Rightarrow> halt option \<times> 'c run" where
  "client_calls cf [] r = (None, r)"
| "client_calls cf (AdvanceTimeToCall t # cs) r =
     (case advanceTimeTo cf t r of (None, r') \<Rightarrow> client_calls cf cs r' | stop \<Rightarrow> stop)"
| "client_calls cf (ValidPacketReceivedCall t ord # cs) r = client_calls cf cs (validPacketReceived cf t ord r)"
| "client_calls cf (DriveCall f # cs) r = client_calls cf cs (r\<lparr> cfgtor := f (cfgtor r) \<rparr>)"

definition yield_action :: "'c configurator \<Rightarrow> 'c client \<Rightarrow> config_action \<Rightarrow> bool \<Rightarrow> 'c run \<Rightarrow> halt option \<times> 'c run" where
  "yield_action cf client act again r =
     (let r1 = r\<lparr> yielded := yielded r @ [(act, again)] \<rparr>
      in case client act r1 of (go, cs) \<Rightarrow>
           (case client_calls cf cs r1 of
              (None, r2) \<Rightarrow> (if go then None else Some Abandoned, r2)
            | stop \<Rightarrow> stop))"

definition ensureRetriesSize :: "nat \<Rightarrow> 'c run \<Rightarrow> 'c run" where
  "ensureRetriesSize k r =
     (if k \<le> length (retries r) then r
      else r\<lparr> retries := retries r @ replicate (k - length (retries r)) 0 \<rparr>)"

primrec advance_start :: "'c configurator \<Rightarrow> 'c client \<Rightarrow> nat \<Rightarrow> 'c run \<Rightarrow> halt option \<times> 'c run" where
  "advance_start cf client 0 r = (None, r)"
| "advance_start cf client (Suc k) r =
     (case getState cf (cfgtor r) (startIndex r) of
        ReqSucceeded \<Rightarrow> advance_start cf client k (r\<lparr> startIndex := startIndex r + 1 \<rparr>)
      | ReqSkipped \<Rightarrow> advance_start cf client k (r\<lparr> startIndex := startIndex r + 1 \<rparr>)
      | ReqFailed \<Rightarrow>
          (let err = getError cf (cfgtor r) (startIndex r)
           in case yield_action cf client (ActError err) False (r\<lparr> errorCount := errorCount r + 1 \<rparr>) of
                (None, r') \<Rightarrow> advance_start cf client k (r'\<lparr> startIndex := startIndex r' + 1 \<rparr>)
              | stop \<Rightarrow> stop)
      | _ \<Rightarrow> (None, r))"

primrec expand_end :: "'c configurator \<Rightarrow> nat \<Rightarrow> 'c run \<Rightarrow> 'c run" where
  "expand_end cf 0 r = r"
| "expand_end cf (Suc k) r =
     (let s = getState cf (cfgtor r) (endIndex r)
      in if s = ReqReadyToSend \<or> hasDeadline s \<or> s = ReqMayResend
         then expand_end cf k (r\<lparr> endIndex := endIndex r + 1 \<rparr>) else r)"

definition updateWindow :: "'c configurator \<Rightarrow> 'c client \<Rightarrow> nat \<Rightarrow> 'c run \<Rightarrow> halt option \<times> 'c run" where
  "updateWindow cf client cnt r =
     (case advance_start cf client (cnt - startIndex r) r of
        (None, r1) \<Rightarrow>
          (let r2 = (if endIndex r1 < startIndex r1 then r1\<lparr> endIndex := startIndex r1 \<rparr> else r1)
           in (None, expand_end cf (cnt - endIndex r2) r2))
      | stop \<Rightarrow> stop)"

definition send_request :: "'c configurator \<Rightarrow> 'c client \<Rightarrow> bool \<Rightarrow> nat \<Rightarrow> 'c run \<Rightarrow> halt option \<times> 'c run" where
  "send_request cf client again i r =
     (let speed = getSpeedChangeAfter cf (cfgtor r) i;
          r1 = (if speed \<noteq> 0 then r\<lparr> speedChangeRequests := List.insert i (speedChangeRequests r) \<rparr> else r)
      in yield_action cf client (ActSendRequest i (getPacket cf (cfgtor r1) i) speed) again r1)"

definition may_resend :: "'c configurator \<Rightarrow> 'c client \<Rightarrow> nat \<Rightarrow> 'c run \<Rightarrow> halt option \<times> 'c run" where
  "may_resend cf client i r =
     (if getSpeedChangeAfter cf (cfgtor r) i \<noteq> 0 then (None, r\<lparr> cfgtor := setWontResend cf i (cfgtor r) \<rparr>)
      else let r1 = ensureRetriesSize (i + 1) r;
               r2 = r1\<lparr> retries := (retries r1)[i := retries r1 ! i + 1] \<rparr>
           in if maxRetries r2 \<le> retries r2 ! i then (None, r2\<lparr> cfgtor := setWontResend cf i (cfgtor r2) \<rparr>)
              else send_request cf client True i r2)"

primrec window_from :: "'c configurator \<Rightarrow> 'c client \<Rightarrow> nat \<Rightarrow> nat \<Rightarrow> int \<Rightarrow> 'c run \<Rightarrow> halt option \<times> int \<times> 'c run" where
  "window_from cf client 0 i earliest r = (None, earliest, r)"
| "window_from cf client (Suc k) i earliest r =
     (if hasDeadline (getState cf (cfgtor r) i) then
        (let deadline = getDeadline cf (cfgtor r) i
         in window_from cf client k (i + 1)
              (if earliest = zeroTime \<or> deadline < earliest then deadline else earliest) r)
      else case (case getState cf (cfgtor r) i of
                   ReqMayResend \<Rightarrow> may_resend cf client i r
                 | ReqReadyToSend \<Rightarrow> send_request cf client False i r
                 | _ \<Rightarrow> (None, r)) of
             (None, r') \<Rightarrow> window_from cf client k (i + 1) earliest r'
           | (Some h, r') \<Rightarrow> (Some h, earliest, r'))"

text \<open>One turn of the loop of \<^verbatim>\<open>Actions\<close>; \<open>lastWait\<close> is its \<^verbatim>\<open>lastWaitAdvanceCount\<close>.\<close>

definition wait_step :: "'c configurator \<Rightarrow> 'c client \<Rightarrow> nat \<Rightarrow> int \<Rightarrow> int \<Rightarrow> 'c run \<Rightarrow> halt option \<times> int \<times> 'c run" where
  "wait_step cf client cnt lastWait earliest r =
     (if earliest \<noteq> zeroTime then
        if advanceCount r = lastWait then (Some Panicked, lastWait, r)
        else (let (h, r') = yield_action cf client (ActWaitUntil earliest) False r in (h, advanceCount r, r'))
      else if endIndex r \<le> startIndex r \<and> startIndex r < cnt then (Some Stuck, lastWait, r)
      else (None, lastWait, r))"

definition actions_round :: "'c configurator \<Rightarrow> 'c client \<Rightarrow> int \<Rightarrow> 'c run \<Rightarrow> halt option \<times> int \<times> 'c run" where
  "actions_round cf client lastWait r =
     (case generateRequests cf (cfgtor r) of
        (Some err, c) \<Rightarrow>
          (case yield_action cf client (ActError err) False (r\<lparr> cfgtor := c, errorCount := errorCount r + 1 \<rparr>) of
             (None, r') \<Rightarrow> (Some GenerateFailed, lastWait, r')
           | (Some h, r') \<Rightarrow> (Some h, lastWait, r'))
      | (None, c) \<Rightarrow>
          (let r1 = r\<lparr> cfgtor := c \<rparr>; (cnt, complete) = getRequestCount cf c
           in if complete \<and> cnt \<le> startIndex r1 then (Some Complete, lastWait, r1)
              else case updateWindow cf client cnt r1 of
                     (Some h, r2) \<Rightarrow> (Some h, lastWait, r2)
                   | (None, r2) \<Rightarrow>
                       (case window_from cf client (min (endIndex r2) cnt - startIndex r2) (startIndex r2) zeroTime r2 of
                          (Some h, e, r3) \<Rightarrow> (Some h, lastWait, r3)
                        | (None, earliest, r3) \<Rightarrow> wait_step cf client cnt lastWait earliest r3)))"

text \<open>The iterator for at most \<open>fuel\<close> turns of its loop; \<open>None\<close> means that it has not stopped by then.\<close>

primrec actions_from :: "'c configurator \<Rightarrow> 'c client \<Rightarrow> nat \<Rightarrow> int \<Rightarrow> 'c run \<Rightarrow> halt option \<times> 'c run" where
  "actions_from cf client 0 lastWait r = (None, r)"
| "actions_from cf client (Suc fuel) lastWait r =
     (case actions_round cf client lastWait r of
        (None, lastWait', r') \<Rightarrow> actions_from cf client fuel lastWait' r'
      | (Some h, lastWait', r') \<Rightarrow> (Some h, r'))"

definition director_actions :: "'c configurator \<Rightarrow> 'c client \<Rightarrow> nat \<Rightarrow> 'c run \<Rightarrow> halt option \<times> 'c run" where
  "director_actions cf client fuel r = actions_from cf client fuel (-1) r"

section \<open>What the client cannot change\<close>

fun is_send :: "nat \<Rightarrow> config_action \<Rightarrow> bool" where
  "is_send i (ActSendRequest j p s) = (j = i)"
| "is_send i _ = False"

fun action_errors :: "config_action \<Rightarrow> string list" where
  "action_errors (ActError e) = [e]"
| "action_errors _ = []"

definition resends :: "nat \<Rightarrow> 'c run \<Rightarrow> int" where
  "resends i r = int (length (filter (\<lambda>(act, again). again \<and> is_send i act) (yielded r)))"

definition reported_errors :: "'c run \<Rightarrow> string list" where
  "reported_errors r = concat (map (action_errors \<circ> fst) (yielded r))"

text \<open>What is the director's own: the client reaches none of it.\<close>

definition own :: "'c run \<Rightarrow> nat \<times> nat \<times> int list \<times> nat list \<times> int \<times> int \<times> (config_action \<times> bool) list" where
  "own r = (startIndex r, endIndex r, retries r, speedChangeRequests r, maxRetries r, errorCount r, yielded r)"

lemma own_eq:
  assumes "own r = own r'"
  shows "startIndex r' = startIndex r" "endIndex r' = endIndex r" "retries r' = retries r"
    "maxRetries r' = maxRetries r" "errorCount r' = errorCount r" "yielded r' = yielded r"
  using assms by (auto simp: own_def)

lemma own_cfgtor [simp]: "own (r\<lparr> cfgtor := c \<rparr>) = own r"
  by (simp add: own_def)

lemma own_timeouts: "own (timeouts_from cf k i r) = own r"
  by (induction k arbitrary: i r) simp_all

lemma own_advance: "own (snd (advanceTimeTo cf t r)) = own r"
  by (simp add: advanceTimeTo_def processTimeouts_def own_timeouts) (simp add: own_def)

lemma own_valid: "own (fold (confirmSpeed cf t) is r) = own r"
proof (induction "is" arbitrary: r)
  case (Cons i "is")
  have "own (confirmSpeed cf t i r) = own r" by (simp add: confirmSpeed_def)
  then show ?case using Cons.IH by simp
qed simp

lemma own_client_calls: "own (snd (client_calls cf cs r)) = own r"
proof (induction cf cs r rule: client_calls.induct)
  case (2 cf t cs r)
  then show ?case using own_advance [of cf t r] by (auto split: prod.splits option.splits)
next
  case (3 cf t ord cs r)
  then show ?case by (simp add: validPacketReceived_def own_valid)
qed simp_all

lemma own_yield: "own (snd (yield_action cf client act again r)) = own (r\<lparr> yielded := yielded r @ [(act, again)] \<rparr>)"
  using own_client_calls [of cf _ "r\<lparr> yielded := yielded r @ [(act, again)] \<rparr>"]
  by (auto simp: yield_action_def Let_def split: prod.splits option.splits) (metis snd_conv)+

section \<open>Retries and errors\<close>

definition retry_of :: "nat \<Rightarrow> 'c run \<Rightarrow> int" where
  "retry_of i r = (if i < length (retries r) then retries r ! i else 0)"

text \<open>
  No request is repeated more often than its retries say, nor more than one time less than the limit; a repeated
  request changes no speed; and as many errors were reported as are counted.
\<close>

definition director_inv :: "int \<Rightarrow> 'c run \<Rightarrow> bool" where
  "director_inv m r \<longleftrightarrow> maxRetries r = m \<and> (\<forall>i. resends i r \<le> retry_of i r \<and> resends i r \<le> max 0 (m - 1)) \<and>
     (\<forall>(act, again) \<in> set (yielded r). again \<longrightarrow> (\<exists>i p. act = ActSendRequest i p 0)) \<and>
     errorCount r = int (length (reported_errors r))"

lemma inv_own: "own r = own r' \<Longrightarrow> director_inv m r' = director_inv m r"
  by (simp add: director_inv_def resends_def retry_of_def reported_errors_def own_eq [of r r'])

lemma inv_cfgtor [simp]: "director_inv m (r\<lparr> cfgtor := c \<rparr>) = director_inv m r"
  by (rule inv_own) simp

lemma inv_window [simp]:
  "director_inv m (r\<lparr> startIndex := k \<rparr>) = director_inv m r"
  "director_inv m (r\<lparr> endIndex := k \<rparr>) = director_inv m r"
  "director_inv m (r\<lparr> speedChangeRequests := ks \<rparr>) = director_inv m r"
  by (simp_all add: director_inv_def resends_def retry_of_def reported_errors_def)

lemma inv_yield:
  assumes "director_inv m (r\<lparr> yielded := yielded r @ [(act, again)] \<rparr>)"
  shows "director_inv m (snd (yield_action cf client act again r))"
  using assms inv_own [OF own_yield [of cf client act again r], of m] by blast

lemma retry_of_simps [simp]:
  "retry_of i (r\<lparr> yielded := ys \<rparr>) = retry_of i r" "retry_of i (r\<lparr> errorCount := e \<rparr>) = retry_of i r"
  by (simp_all add: retry_of_def)

lemma resends_log:
  "resends i (r\<lparr> yielded := yielded r @ [(act, again)] \<rparr>) = resends i r + (if again \<and> is_send i act then 1 else 0)"
  "resends i (r\<lparr> retries := ks, yielded := yielded r @ [(act, again)] \<rparr>) = resends i r + (if again \<and> is_send i act then 1 else 0)"
  "resends i (r\<lparr> errorCount := e, yielded := yielded r @ [(act, again)] \<rparr>) = resends i r + (if again \<and> is_send i act then 1 else 0)"
  by (simp_all add: resends_def)

lemma reported_log:
  "reported_errors (r\<lparr> yielded := yielded r @ [(act, again)] \<rparr>) = reported_errors r @ action_errors act"
  "reported_errors (r\<lparr> retries := ks, yielded := yielded r @ [(act, again)] \<rparr>) = reported_errors r @ action_errors act"
  "reported_errors (r\<lparr> errorCount := e, yielded := yielded r @ [(act, again)] \<rparr>) = reported_errors r @ action_errors act"
  by (simp_all add: reported_errors_def)

lemma inv_log:
  "director_inv m r \<Longrightarrow> director_inv m (r\<lparr> yielded := yielded r @ [(ActWaitUntil t, False)] \<rparr>)"
  "director_inv m r \<Longrightarrow> director_inv m (r\<lparr> yielded := yielded r @ [(ActSendRequest i p s, False)] \<rparr>)"
  "director_inv m r \<Longrightarrow>
     director_inv m (r\<lparr> errorCount := errorCount r + 1, yielded := yielded r @ [(ActError e, False)] \<rparr>)"
  by (simp_all add: director_inv_def resends_log reported_log)

lemma inv_error:
  assumes "director_inv m r"
  shows "director_inv m (snd (yield_action cf client (ActError e) False (r\<lparr> errorCount := errorCount r + 1 \<rparr>)))"
  by (rule inv_yield) (simp add: inv_log(3) [OF assms])

lemma inv_send:
  assumes "director_inv m r"
  shows "director_inv m (snd (send_request cf client False i r))"
  unfolding send_request_def Let_def by (rule inv_yield, rule inv_log(2)) (simp add: assms)

lemma inv_ensure: "director_inv m (ensureRetriesSize k r) = director_inv m r"
proof (cases "k \<le> length (retries r)")
  case False
  have "retry_of i (ensureRetriesSize k r) = retry_of i r" for i
    using False by (simp add: retry_of_def ensureRetriesSize_def nth_append)
  then show ?thesis using False
    by (simp add: ensureRetriesSize_def director_inv_def resends_def reported_errors_def)
qed (simp add: ensureRetriesSize_def)

lemma ensure_length: "i < length (retries (ensureRetriesSize (i + 1) r))"
  by (simp add: ensureRetriesSize_def)

lemma inv_retry:
  assumes "director_inv m r" "i < length (retries r)"
  shows "director_inv m (r\<lparr> retries := (retries r)[i := retries r ! i + 1] \<rparr>)"
proof -
  have "retry_of j r \<le> retry_of j (r\<lparr> retries := (retries r)[i := retries r ! i + 1] \<rparr>)" for j
    by (cases "j = i") (simp_all add: retry_of_def)
  then have "resends j r \<le> retry_of j (r\<lparr> retries := (retries r)[i := retries r ! i + 1] \<rparr>)" for j
    using assms(1) unfolding director_inv_def by (meson order_trans)
  then show ?thesis using assms(1) by (simp add: director_inv_def resends_def reported_errors_def)
qed

lemma inv_resend_log:
  assumes "director_inv m r" "i < length (retries r)" "retries r ! i + 1 < m"
  shows "director_inv m (r\<lparr> retries := (retries r)[i := retries r ! i + 1],
    yielded := yielded r @ [(ActSendRequest i p 0, True)] \<rparr>)" (is "director_inv m ?r")
proof -
  have le: "resends j r \<le> retry_of j r" "resends j r \<le> max 0 (m - 1)" for j
    using assms(1) by (simp_all add: director_inv_def)
  have "resends j ?r \<le> retry_of j ?r \<and> resends j ?r \<le> max 0 (m - 1)" for j
  proof (cases "j = i")
    case True
    have "resends i ?r = resends i r + 1" by (simp add: resends_log)
    moreover have "resends i r \<le> retries r ! i" using le(1) [of i] assms(2) by (simp add: retry_of_def)
    ultimately show ?thesis using True assms(2,3) by (simp add: retry_of_def)
  next
    case False
    then have "resends j ?r = resends j r" by (simp add: resends_log)
    moreover have "retry_of j ?r = retry_of j r" using False by (simp add: retry_of_def)
    ultimately show ?thesis using le [of j] by simp
  qed
  moreover have "reported_errors ?r = reported_errors r" by (simp add: reported_log)
  ultimately show ?thesis using assms(1) by (auto simp: director_inv_def)
qed

lemma inv_may_resend:
  assumes "director_inv m r"
  shows "director_inv m (snd (may_resend cf client i r))"
proof (cases "getSpeedChangeAfter cf (cfgtor r) i = 0")
  case True
  define r1 where "r1 = ensureRetriesSize (i + 1) r"
  define r2 where "r2 = r1\<lparr> retries := (retries r1)[i := retries r1 ! i + 1] \<rparr>"
  have i: "i < length (retries r1)" unfolding r1_def by (rule ensure_length)
  have r1: "director_inv m r1" using assms by (simp add: r1_def inv_ensure)
  have r2: "director_inv m r2" unfolding r2_def by (rule inv_retry [OF r1 i])
  have eq: "may_resend cf client i r = (if maxRetries r2 \<le> retries r2 ! i
      then (None, r2\<lparr> cfgtor := setWontResend cf i (cfgtor r2) \<rparr>) else send_request cf client True i r2)"
    using True by (simp add: may_resend_def Let_def r1_def r2_def)
  have speed: "getSpeedChangeAfter cf (cfgtor r2) i = 0"
    using True by (simp add: r2_def r1_def ensureRetriesSize_def)
  show ?thesis
  proof (cases "maxRetries r2 \<le> retries r2 ! i")
    case False
    have "maxRetries r2 = m" using r2 by (simp add: director_inv_def)
    then have lt: "retries r1 ! i + 1 < m" using False i by (simp add: r2_def)
    have "director_inv m (snd (yield_action cf client (ActSendRequest i (getPacket cf (cfgtor r2) i) 0) True r2))"
      by (rule inv_yield) (use inv_resend_log [OF r1 i lt] in \<open>simp add: r2_def\<close>)
    then show ?thesis using eq False speed by (simp add: send_request_def)
  qed (use eq r2 in simp)
qed (use assms in \<open>simp add: may_resend_def\<close>)

lemma inv_advance_start:
  "director_inv m r \<Longrightarrow> director_inv m (snd (advance_start cf client k r))"
proof (induction k arbitrary: r)
  case (Suc k)
  obtain h r' where y: "yield_action cf client (ActError (getError cf (cfgtor r) (startIndex r))) False
      (r\<lparr> errorCount := errorCount r + 1 \<rparr>) = (h, r')" by fastforce
  have r': "director_inv m r'"
    using inv_error [OF Suc.prems, of cf client "getError cf (cfgtor r) (startIndex r)"] unfolding y by simp
  show ?case
  proof (cases h)
    case None
    then show ?thesis using Suc.prems r'
      by (cases "getState cf (cfgtor r) (startIndex r)") (simp_all add: y Suc.IH)
  next
    case (Some stop)
    then show ?thesis using Suc.prems r'
      by (cases "getState cf (cfgtor r) (startIndex r)") (simp_all add: y Suc.IH)
  qed
qed simp

lemma inv_expand: "director_inv m (expand_end cf k r) = director_inv m r"
  by (induction k arbitrary: r) (simp_all add: Let_def)

lemma inv_updateWindow:
  assumes "director_inv m r"
  shows "director_inv m (snd (updateWindow cf client cnt r))"
  using inv_advance_start [OF assms, of cf client "cnt - startIndex r"]
  by (auto simp: updateWindow_def Let_def inv_expand split: prod.splits option.splits)

lemma inv_window_from:
  "director_inv m r \<Longrightarrow> director_inv m (snd (snd (window_from cf client k i e r)))"
proof (induction k arbitrary: i e r)
  case (Suc k)
  have "director_inv m (snd (case getState cf (cfgtor r) i of ReqMayResend \<Rightarrow> may_resend cf client i r
      | ReqReadyToSend \<Rightarrow> send_request cf client False i r | _ \<Rightarrow> (None, r)))"
    by (simp add: Suc.prems inv_may_resend inv_send split: ConfigRequestState.split)
  then show ?case using Suc by (auto simp: Let_def split: prod.splits option.splits)
qed simp

lemma inv_wait_step:
  assumes "director_inv m r"
  shows "director_inv m (snd (snd (wait_step cf client cnt lastWait e r)))"
  using assms inv_yield [OF inv_log(1) [OF assms, of e], of cf client]
  by (auto simp: wait_step_def split: prod.splits)

lemma inv_round:
  assumes "director_inv m r"
  shows "director_inv m (snd (snd (actions_round cf client lastWait r)))"
proof (cases "generateRequests cf (cfgtor r)")
  case (Pair er c)
  have c: "director_inv m (r\<lparr> cfgtor := c \<rparr>)" using assms by simp
  show ?thesis
  proof (cases er)
    case (Some err)
    then show ?thesis using inv_error [OF c, of cf client err] Pair
      by (auto simp: actions_round_def split: prod.splits option.splits)
  next
    case None
    obtain cnt complete where cnt: "getRequestCount cf c = (cnt, complete)" by fastforce
    obtain h r2 where u: "updateWindow cf client cnt (r\<lparr> cfgtor := c \<rparr>) = (h, r2)" by fastforce
    have r2: "director_inv m r2" using inv_updateWindow [OF c, of cf client cnt] u by simp
    obtain h' e r3 where w: "window_from cf client (min (endIndex r2) cnt - startIndex r2) (startIndex r2) zeroTime r2 = (h', e, r3)"
      by (metis prod_cases3)
    have r3: "director_inv m r3" using inv_window_from [OF r2] w by (metis snd_conv)
    show ?thesis using None Pair cnt u w c r2 r3 inv_wait_step [OF r3]
      by (auto simp: actions_round_def Let_def split: option.splits)
  qed
qed

lemma inv_actions:
  "director_inv m r \<Longrightarrow> director_inv m (snd (actions_from cf client fuel lastWait r))"
proof (induction fuel arbitrary: lastWait r)
  case (Suc fuel)
  show ?case using inv_round [OF Suc.prems, of cf client lastWait] Suc.IH
    by (auto split: prod.splits option.splits)
qed simp

lemma inv_new: "director_inv m (newConfigDirector c m)"
  by (simp add: director_inv_def newConfigDirector_def resends_def retry_of_def reported_errors_def)

fun action_speed :: "config_action \<Rightarrow> int" where
  "action_speed (ActSendRequest i p s) = s"
| "action_speed _ = 0"

text \<open>C0: Whatever the configurator and the client of the director do and however long the iterator runs, no request
  is repeated more than one time less than the limit on its retries, no repeated request changes the speed, and
  \<^verbatim>\<open>ErrorCount\<close> is the number of errors reported.\<close>

theorem director_retries:
  "resends i (snd (director_actions cf client fuel (newConfigDirector c m))) \<le> max 0 (m - 1) \<and>
   filter (\<lambda>(act, again). again \<and> action_speed act \<noteq> 0)
     (yielded (snd (director_actions cf client fuel (newConfigDirector c m)))) = [] \<and>
   errorCount (snd (director_actions cf client fuel (newConfigDirector c m))) =
     int (length (reported_errors (snd (director_actions cf client fuel (newConfigDirector c m)))))"
  using inv_actions [OF inv_new, of m cf client fuel "-1" c]
  by (auto simp: director_actions_def director_inv_def filter_empty_conv)

section \<open>The reports of a configuration that completes\<close>

definition req_final :: "ConfigRequestState \<Rightarrow> bool" where
  "req_final s \<longleftrightarrow> s = ReqSucceeded \<or> s = ReqFailed \<or> s = ReqSkipped"

text \<open>
  The documented contract of a Configurator: requests are never taken away, and a request in a terminal state stays
  in it, with its error.
\<close>

definition settled :: "'c configurator \<Rightarrow> 'c \<Rightarrow> 'c \<Rightarrow> bool" where
  "settled cf c c' \<longleftrightarrow> fst (getRequestCount cf c) \<le> fst (getRequestCount cf c') \<and>
     (\<forall>i < fst (getRequestCount cf c). req_final (getState cf c i) \<longrightarrow>
        getState cf c' i = getState cf c i \<and> getError cf c' i = getError cf c i)"

definition configurator_ok :: "'c configurator \<Rightarrow> bool" where
  "configurator_ok cf \<longleftrightarrow> (\<forall>c. settled cf c (snd (generateRequests cf c)) \<and>
     (\<forall>i. settled cf c (setDeadlinePassed cf i c) \<and> settled cf c (setWontResend cf i c) \<and>
        (\<forall>t. settled cf c (maybeSpeedChangeSucceeded cf i t c))))"

definition call_ok :: "'c configurator \<Rightarrow> 'c client_call \<Rightarrow> bool" where
  "call_ok cf call = (case call of DriveCall f \<Rightarrow> (\<forall>c. settled cf c (f c)) | _ \<Rightarrow> True)"

definition client_ok :: "'c configurator \<Rightarrow> 'c client \<Rightarrow> bool" where
  "client_ok cf client \<longleftrightarrow> (\<forall>act r. \<forall>call \<in> set (snd (client act r)). call_ok cf call)"

lemma settled_refl [simp]: "settled cf c c"
  by (simp add: settled_def)

lemma settled_trans: "settled cf a b \<Longrightarrow> settled cf b c \<Longrightarrow> settled cf a c"
  unfolding settled_def by (metis le_trans less_le_trans)

lemma settled_timeouts:
  "configurator_ok cf \<Longrightarrow> settled cf (cfgtor r) (cfgtor (timeouts_from cf k i r))"
proof (induction k arbitrary: i r)
  case (Suc k)
  have "settled cf (cfgtor r) (setDeadlinePassed cf i (cfgtor r))" using Suc.prems by (simp add: configurator_ok_def)
  then show ?case using Suc.IH [OF Suc.prems, of "r\<lparr> cfgtor := setDeadlinePassed cf i (cfgtor r) \<rparr>" "i + 1"]
      Suc.IH [OF Suc.prems, of r "i + 1"] by (auto intro: settled_trans)
qed simp

lemma settled_advance:
  "configurator_ok cf \<Longrightarrow> settled cf (cfgtor r) (cfgtor (snd (advanceTimeTo cf t r)))"
  using settled_timeouts [of cf "r\<lparr> currentTime := t, advanceCount := advanceCount r + 1 \<rparr>"]
  by (simp add: advanceTimeTo_def processTimeouts_def)

lemma settled_valid:
  "configurator_ok cf \<Longrightarrow> settled cf (cfgtor r) (cfgtor (fold (confirmSpeed cf t) is r))"
proof (induction "is" arbitrary: r)
  case (Cons i "is")
  have "settled cf (cfgtor r) (cfgtor (confirmSpeed cf t i r))"
    using Cons.prems by (simp add: confirmSpeed_def configurator_ok_def)
  then show ?case using Cons.IH [OF Cons.prems] by (simp add: settled_trans)
qed simp

lemma settled_client_calls:
  "configurator_ok cf \<Longrightarrow> \<forall>call \<in> set cs. call_ok cf call \<Longrightarrow> settled cf (cfgtor r) (cfgtor (snd (client_calls cf cs r)))"
proof (induction cf cs r rule: client_calls.induct)
  case (2 cf t cs r)
  obtain h r' where a: "advanceTimeTo cf t r = (h, r')" by fastforce
  have "settled cf (cfgtor r) (cfgtor r')" using settled_advance [OF 2(2), of r t] a by simp
  then show ?case using 2 a by (cases h) (auto intro: settled_trans)
next
  case (3 cf t ord cs r)
  have "settled cf (cfgtor r) (cfgtor (validPacketReceived cf t ord r))"
    by (simp add: validPacketReceived_def settled_valid [OF 3(2)])
  moreover have "settled cf (cfgtor (validPacketReceived cf t ord r))
      (cfgtor (snd (client_calls cf cs (validPacketReceived cf t ord r))))" using 3 by simp
  ultimately show ?case using settled_trans by simp
next
  case (4 cf f cs r)
  have "settled cf (cfgtor r) (f (cfgtor r))" using 4(3) by (simp add: call_ok_def)
  then show ?case using 4 by (auto intro: settled_trans)
qed simp

lemma settled_yield:
  assumes "configurator_ok cf" "client_ok cf client"
  shows "settled cf (cfgtor r) (cfgtor (snd (yield_action cf client act again r)))"
proof -
  define r1 where "r1 = r\<lparr> yielded := yielded r @ [(act, again)] \<rparr>"
  obtain go cs where cs: "client act r1 = (go, cs)" by fastforce
  have "\<forall>call \<in> set cs. call_ok cf call" using assms(2) cs unfolding client_ok_def by (metis snd_conv)
  then have "settled cf (cfgtor r1) (cfgtor (snd (client_calls cf cs r1)))"
    by (rule settled_client_calls [OF assms(1)])
  then show ?thesis using cs
    by (auto simp: yield_action_def r1_def [symmetric] Let_def split: prod.splits option.splits) (simp_all add: r1_def)
qed

text \<open>The errors reported so far are those of the failed requests before the window, in order.\<close>

definition reported :: "'c configurator \<Rightarrow> 'c run \<Rightarrow> bool" where
  "reported cf r \<longleftrightarrow> startIndex r \<le> fst (getRequestCount cf (cfgtor r)) \<and>
     (\<forall>i < startIndex r. req_final (getState cf (cfgtor r) i)) \<and>
     reported_errors r = map (getError cf (cfgtor r)) (filter (\<lambda>i. getState cf (cfgtor r) i = ReqFailed) [0..<startIndex r])"

lemma failed_settled:
  assumes "settled cf c c'" "n \<le> fst (getRequestCount cf c)" "\<forall>i < n. req_final (getState cf c i)"
  shows "map (getError cf c') (filter (\<lambda>i. getState cf c' i = ReqFailed) [0..<n]) =
    map (getError cf c) (filter (\<lambda>i. getState cf c i = ReqFailed) [0..<n])"
proof -
  have eq: "getState cf c' i = getState cf c i \<and> getError cf c' i = getError cf c i" if "i < n" for i
    using assms that unfolding settled_def by (meson less_le_trans)
  have "filter (\<lambda>i. getState cf c' i = ReqFailed) [0..<n] = filter (\<lambda>i. getState cf c i = ReqFailed) [0..<n]"
    by (rule filter_cong) (simp_all add: eq)
  then show ?thesis by (simp add: eq)
qed

lemma reported_step:
  assumes "reported cf r" "settled cf (cfgtor r) (cfgtor r')" "startIndex r' = startIndex r"
    "reported_errors r' = reported_errors r"
  shows "reported cf r'"
proof -
  have start: "startIndex r \<le> fst (getRequestCount cf (cfgtor r))" and fin: "\<forall>i < startIndex r. req_final (getState cf (cfgtor r) i)"
    using assms(1) by (simp_all add: reported_def)
  have "\<forall>i < startIndex r. req_final (getState cf (cfgtor r') i)"
    using assms(2) start fin unfolding settled_def by (metis less_le_trans)
  moreover have "startIndex r \<le> fst (getRequestCount cf (cfgtor r'))" using assms(2) start by (simp add: settled_def)
  ultimately show ?thesis using assms failed_settled [OF assms(2) start fin] by (simp add: reported_def)
qed

lemma reported_yield:
  assumes "configurator_ok cf" "client_ok cf client" "reported cf r" "action_errors act = []"
  shows "reported cf (snd (yield_action cf client act again r))"
proof -
  have "reported_errors (snd (yield_action cf client act again r)) = reported_errors r"
    using assms(4) by (simp add: reported_errors_def own_eq(6) [OF own_yield [of cf client act again r], symmetric])
  moreover have "startIndex (snd (yield_action cf client act again r)) = startIndex r"
    using own_eq(1) [OF own_yield [of cf client act again r]] by simp
  ultimately show ?thesis using reported_step [OF assms(3) settled_yield [OF assms(1,2)]] by blast
qed

lemma reported_cfgtor:
  "reported cf r \<Longrightarrow> settled cf (cfgtor r) c \<Longrightarrow> reported cf (r\<lparr> cfgtor := c \<rparr>)"
  by (rule reported_step) (simp_all add: reported_errors_def)

lemma reported_simps [simp]:
  "reported cf (r\<lparr> endIndex := k \<rparr>) = reported cf r" "reported cf (r\<lparr> retries := ks \<rparr>) = reported cf r"
  "reported cf (r\<lparr> speedChangeRequests := xs \<rparr>) = reported cf r"
  by (simp_all add: reported_def reported_errors_def)

lemma reported_send:
  assumes "configurator_ok cf" "client_ok cf client" "reported cf r"
  shows "reported cf (snd (send_request cf client again i r))"
  unfolding send_request_def Let_def by (rule reported_yield [OF assms(1,2)]) (simp_all add: assms(3))

lemma reported_may_resend:
  assumes "configurator_ok cf" "client_ok cf client" "reported cf r"
  shows "reported cf (snd (may_resend cf client i r))"
proof -
  have wont: "reported cf (r'\<lparr> cfgtor := setWontResend cf i (cfgtor r') \<rparr>)" if "reported cf r'" for r'
    using reported_cfgtor [OF that] assms(1) by (simp add: configurator_ok_def)
  have wont2: "reported cf (r'\<lparr> retries := ks, cfgtor := setWontResend cf i (cfgtor r') \<rparr>)" if "reported cf r'" for r' ks
    using wont [of "r'\<lparr> retries := ks \<rparr>"] that by simp
  have ens: "reported cf (ensureRetriesSize k r)" for k using assms(3) by (simp add: ensureRetriesSize_def)
  show ?thesis
    unfolding may_resend_def Let_def using assms ens by (simp add: wont wont2 reported_send)
qed

lemma reported_window:
  "configurator_ok cf \<Longrightarrow> client_ok cf client \<Longrightarrow> reported cf r \<Longrightarrow> reported cf (snd (snd (window_from cf client k i e r)))"
proof (induction k arbitrary: i e r)
  case (Suc k)
  obtain h r' where x: "(case getState cf (cfgtor r) i of ReqMayResend \<Rightarrow> may_resend cf client i r
      | ReqReadyToSend \<Rightarrow> send_request cf client False i r | _ \<Rightarrow> (None, r)) = (h, r')" by fastforce
  have "reported cf (snd (case getState cf (cfgtor r) i of ReqMayResend \<Rightarrow> may_resend cf client i r
      | ReqReadyToSend \<Rightarrow> send_request cf client False i r | _ \<Rightarrow> (None, r)))"
    by (simp add: Suc.prems reported_may_resend reported_send split: ConfigRequestState.split)
  then have r': "reported cf r'" unfolding x by simp
  show ?case using Suc.IH [OF Suc.prems] Suc.IH [OF Suc.prems(1,2) r'] r'
    by (cases h) (simp_all add: x Let_def)
qed simp

lemma reported_wait:
  assumes "configurator_ok cf" "client_ok cf client" "reported cf r"
  shows "reported cf (snd (snd (wait_step cf client cnt lastWait e r)))"
  using reported_yield [OF assms, of "ActWaitUntil e" False] assms(3)
  by (auto simp: wait_step_def split: prod.splits)

lemma reported_error:
  assumes "configurator_ok cf" "client_ok cf client" "reported cf r"
    "startIndex r < fst (getRequestCount cf (cfgtor r))" "getState cf (cfgtor r) (startIndex r) = ReqFailed"
    "yield_action cf client (ActError (getError cf (cfgtor r) (startIndex r))) False (r\<lparr> errorCount := e \<rparr>) = (h, r')"
  shows "reported cf (r'\<lparr> startIndex := startIndex r' + 1 \<rparr>)" "fst (getRequestCount cf (cfgtor r)) \<le> fst (getRequestCount cf (cfgtor r'))"
    "startIndex r' = startIndex r"
proof -
  define err where "err = getError cf (cfgtor r) (startIndex r)"
  have r': "r' = snd (yield_action cf client (ActError err) False (r\<lparr> errorCount := e \<rparr>))"
    using assms(6) by (simp add: err_def)
  note own = own_eq [OF own_yield [of cf client "ActError err" False "r\<lparr> errorCount := e \<rparr>"], folded r', symmetric]
  show start: "startIndex r' = startIndex r" using own(1) by simp
  have st: "settled cf (cfgtor r) (cfgtor r')"
    using settled_yield [OF assms(1,2), of "r\<lparr> errorCount := e \<rparr>"] r' by simp
  then show "fst (getRequestCount cf (cfgtor r)) \<le> fst (getRequestCount cf (cfgtor r'))" by (simp add: settled_def)
  define q where "q = r\<lparr> startIndex := startIndex r + 1, yielded := yielded r @ [(ActError err, False)] \<rparr>"
  have "reported cf q" using assms(3,4,5)
    by (auto simp: q_def reported_def reported_errors_def err_def req_final_def less_Suc_eq)
  then show "reported cf (r'\<lparr> startIndex := startIndex r' + 1 \<rparr>)"
    by (rule reported_step) (use st start own(6) in \<open>simp_all add: q_def reported_errors_def\<close>)
qed

lemma reported_advance:
  "configurator_ok cf \<Longrightarrow> client_ok cf client \<Longrightarrow> reported cf r \<Longrightarrow>
   startIndex r + k \<le> fst (getRequestCount cf (cfgtor r)) \<Longrightarrow>
   fst (advance_start cf client k r) = None \<Longrightarrow> reported cf (snd (advance_start cf client k r))"
proof (induction k arbitrary: r)
  case (Suc k)
  note ok = Suc.prems(1,2)
  have lt: "startIndex r < fst (getRequestCount cf (cfgtor r))" using Suc.prems(4) by simp
  have skip: "reported cf (r\<lparr> startIndex := Suc (startIndex r) \<rparr>)"
    if "getState cf (cfgtor r) (startIndex r) = ReqSucceeded \<or> getState cf (cfgtor r) (startIndex r) = ReqSkipped"
    using Suc.prems(3) lt that by (auto simp: reported_def reported_errors_def req_final_def less_Suc_eq)
  obtain h r' where y: "yield_action cf client (ActError (getError cf (cfgtor r) (startIndex r))) False
      (r\<lparr> errorCount := errorCount r + 1 \<rparr>) = (h, r')" by fastforce
  show ?case
  proof (cases "getState cf (cfgtor r) (startIndex r) = ReqFailed")
    case True
    note e = reported_error [OF ok Suc.prems(3) lt True y]
    have h: "h = None" using Suc.prems(5) True y by (cases h) (simp_all add: Let_def)
    show ?thesis using Suc.IH [OF ok e(1)] e(2,3) Suc.prems(4,5) True y h by (simp add: Let_def)
  next
    case False
    then show ?thesis using Suc.IH [OF ok skip] Suc.prems
      by (cases "getState cf (cfgtor r) (startIndex r)") simp_all
  qed
qed simp

lemma reported_expand [simp]: "reported cf (expand_end cf k r) = reported cf r"
  by (induction k arbitrary: r) (simp_all add: Let_def)

lemma reported_update:
  assumes "configurator_ok cf" "client_ok cf client" "reported cf r"
    "updateWindow cf client (fst (getRequestCount cf (cfgtor r))) r = (None, r2)"
  shows "reported cf r2"
proof -
  let ?k = "fst (getRequestCount cf (cfgtor r)) - startIndex r"
  obtain h r1 where a: "advance_start cf client ?k r = (h, r1)" by fastforce
  have h: "h = None" using assms(4) a by (cases h) (simp_all add: updateWindow_def)
  have "startIndex r + ?k \<le> fst (getRequestCount cf (cfgtor r))" using assms(3) by (simp add: reported_def)
  then have "reported cf r1" using reported_advance [OF assms(1-3), of ?k] a h by simp
  then show ?thesis using assms(4) a h by (auto simp: updateWindow_def Let_def split: if_splits)
qed

lemma not_complete_calls: "fst (client_calls cf cs r) \<noteq> Some Complete"
proof (induction cf cs r rule: client_calls.induct)
  case (2 cf t cs r)
  then show ?case by (cases "t < currentTime r") (simp_all add: advanceTimeTo_def)
qed simp_all

lemma not_complete_yield: "fst (yield_action cf client act again r) \<noteq> Some Complete"
proof -
  define r1 where "r1 = r\<lparr> yielded := yielded r @ [(act, again)] \<rparr>"
  obtain go cs where cs: "client act r1 = (go, cs)" by fastforce
  obtain h r2 where h: "client_calls cf cs r1 = (h, r2)" by fastforce
  show ?thesis using not_complete_calls [of cf cs r1] cs h
    by (cases h) (simp_all add: yield_action_def r1_def [symmetric] Let_def)
qed

lemma not_complete_window: "fst (window_from cf client k i e r) \<noteq> Some Complete"
proof (induction k arbitrary: i e r)
  case (Suc k)
  obtain h r' where x: "(case getState cf (cfgtor r) i of ReqMayResend \<Rightarrow> may_resend cf client i r
      | ReqReadyToSend \<Rightarrow> send_request cf client False i r | _ \<Rightarrow> (None, r)) = (h, r')" by fastforce
  have "fst (case getState cf (cfgtor r) i of ReqMayResend \<Rightarrow> may_resend cf client i r
      | ReqReadyToSend \<Rightarrow> send_request cf client False i r | _ \<Rightarrow> (None, r)) \<noteq> Some Complete"
    by (simp add: may_resend_def send_request_def Let_def not_complete_yield split: ConfigRequestState.split)
  then show ?case using Suc.IH by (cases h) (simp_all add: x Let_def)
qed simp

lemma not_complete_advance: "fst (advance_start cf client k r) \<noteq> Some Complete"
proof (induction k arbitrary: r)
  case (Suc k)
  obtain h r' where y: "yield_action cf client (ActError (getError cf (cfgtor r) (startIndex r))) False
      (r\<lparr> errorCount := errorCount r + 1 \<rparr>) = (h, r')" by fastforce
  have "h \<noteq> Some Complete"
    using not_complete_yield [of cf client "ActError (getError cf (cfgtor r) (startIndex r))" False] y by (metis fst_conv)
  then show ?case using Suc.IH
    by (cases "getState cf (cfgtor r) (startIndex r)"; cases h) (simp_all add: y Let_def)
qed simp

lemma not_complete_update: "fst (updateWindow cf client cnt r) \<noteq> Some Complete"
  using not_complete_advance [of cf client "cnt - startIndex r" r]
  by (auto simp: updateWindow_def Let_def split: prod.splits option.splits)

lemma not_complete_wait: "fst (wait_step cf client cnt lastWait e r) \<noteq> Some Complete"
  using not_complete_yield [of cf client "ActWaitUntil e" False r] by (auto simp: wait_step_def split: prod.splits)

definition director_done :: "'c configurator \<Rightarrow> 'c run \<Rightarrow> bool" where
  "director_done cf r \<longleftrightarrow> snd (getRequestCount cf (cfgtor r)) \<and> startIndex r = fst (getRequestCount cf (cfgtor r)) \<and> reported cf r"

lemma reported_round:
  assumes "configurator_ok cf" "client_ok cf client" "reported cf r"
    "actions_round cf client lastWait r = (h, lw, r')"
  shows "h = None \<Longrightarrow> reported cf r'" "h = Some Complete \<Longrightarrow> director_done cf r'"
proof -
  obtain er c where g: "generateRequests cf (cfgtor r) = (er, c)" by fastforce
  have "settled cf (cfgtor r) c" using assms(1) g unfolding configurator_ok_def by (metis snd_conv)
  then have c: "reported cf (r\<lparr> cfgtor := c \<rparr>)" by (rule reported_cfgtor [OF assms(3)])
  obtain cnt complete where cnt: "getRequestCount cf c = (cnt, complete)" by fastforce
  obtain h2 r2 where u: "updateWindow cf client cnt (r\<lparr> cfgtor := c \<rparr>) = (h2, r2)" by fastforce
  obtain h3 e r3 where w: "window_from cf client (min (endIndex r2) cnt - startIndex r2) (startIndex r2) zeroTime r2 = (h3, e, r3)"
    by (metis prod_cases3)
  have no: "h2 \<noteq> Some Complete" "h3 \<noteq> Some Complete"
    using not_complete_update [of cf client cnt "r\<lparr> cfgtor := c \<rparr>"] u
      not_complete_window [of cf client "min (endIndex r2) cnt - startIndex r2" "startIndex r2" zeroTime r2] w by simp_all
  have r3: "reported cf r3" if "h2 = None"
  proof -
    have "reported cf r2" using reported_update [OF assms(1,2) c, of r2] cnt u that by simp
    then show ?thesis using reported_window [OF assms(1,2)] w by (metis snd_conv)
  qed
  have err: "fst (yield_action cf client (ActError err) False q) \<noteq> Some Complete" for err q by (rule not_complete_yield)
  have eq: "actions_round cf client lastWait r = (h, lw, r')" by (rule assms(4))
  show "reported cf r'" if "h = None"
    using eq g cnt u w that reported_wait [OF assms(1,2) r3, of cnt lastWait e]
    by (auto simp: actions_round_def Let_def split: option.splits if_splits prod.splits)
  show "director_done cf r'" if "h = Some Complete"
  proof (cases "er = None \<and> complete \<and> cnt \<le> startIndex r")
    case True
    then have "r' = r\<lparr> cfgtor := c \<rparr>" using eq g cnt by (simp add: actions_round_def)
    then show ?thesis using True c cnt by (simp add: director_done_def reported_def)
  next
    case False
    obtain hw lw' rw where ws: "wait_step cf client cnt lastWait e r3 = (hw, lw', rw)" by (metis prod_cases3)
    have hw: "hw \<noteq> Some Complete" using not_complete_wait [of cf client cnt lastWait e r3] ws by simp
    have "h \<noteq> Some Complete"
    proof (cases er)
      case (Some x)
      then show ?thesis using eq g err [of x "r\<lparr> cfgtor := c, errorCount := errorCount r + 1 \<rparr>"]
        by (auto simp: actions_round_def split: option.splits prod.splits)
    next
      case None
      then have "\<not> (complete \<and> cnt \<le> startIndex r)" using False by simp
      then show ?thesis using eq g cnt u w ws hw no None
        by (cases h2; cases h3) (auto simp: actions_round_def)
    qed
    then show ?thesis using that by simp
  qed
qed

lemma reported_actions:
  "configurator_ok cf \<Longrightarrow> client_ok cf client \<Longrightarrow> reported cf r \<Longrightarrow>
   actions_from cf client fuel lastWait r = (Some Complete, r') \<Longrightarrow> director_done cf r'"
proof (induction fuel arbitrary: lastWait r)
  case (Suc fuel)
  obtain h lw r1 where round: "actions_round cf client lastWait r = (h, lw, r1)" by (metis prod_cases3)
  note step = reported_round [OF Suc.prems(1-3) round]
  show ?case using Suc.IH [OF Suc.prems(1,2)] Suc.prems(4) round step by (cases h) auto
qed simp

lemma reported_new: "reported cf (newConfigDirector c m)"
  by (simp add: reported_def newConfigDirector_def reported_errors_def)

lemma director_ends:
  assumes "configurator_ok cf" "client_ok cf client"
    "director_actions cf client fuel (newConfigDirector c m) = (Some Complete, r)"
  shows "getRequestCount cf (cfgtor r) = (startIndex r, True) \<and>
    list_all (\<lambda>i. req_final (getState cf (cfgtor r) i)) [0..<startIndex r] \<and>
    reported_errors r = map (getError cf (cfgtor r)) (filter (\<lambda>i. getState cf (cfgtor r) i = ReqFailed) [0..<startIndex r])"
proof -
  have "director_done cf r"
    using reported_actions [OF assms(1,2) reported_new] assms(3) by (simp add: director_actions_def)
  then show ?thesis by (simp add: director_done_def reported_def prod_eq_iff list_all_iff)
qed

text \<open>C0: If the configurator and the client keep the documented contract, then when the iterator ends normally every
  request is in a terminal state, none will be added, and the errors reported are those of the failed requests,
  each once and in order.\<close>

theorem director_reports:
  assumes "configurator_ok cf" "client_ok cf client"
    "director_actions cf client fuel (newConfigDirector c m) = (Some Complete, r)"
  shows "getRequestCount cf (cfgtor r) = (startIndex r, True) \<and>
    list_all (\<lambda>i. req_final (getState cf (cfgtor r) i)) [0..<startIndex r] \<and>
    reported_errors r = map (getError cf (cfgtor r)) (filter (\<lambda>i. getState cf (cfgtor r) i = ReqFailed) [0..<startIndex r])"
  by (rule director_ends [OF assms])

text \<open>
  A configurator of a fixed list of requests, the second of which is never answered, with a client that waits as
  told: the second request is sent twice, then abandoned and reported.
\<close>

definition two_set :: "nat \<Rightarrow> ConfigRequestState \<Rightarrow> ConfigRequestState list \<Rightarrow> ConfigRequestState list" where
  "two_set i s c = (if i < length c \<and> \<not> req_final (c ! i) then c[i := s] else c)"

definition two_requests :: "ConfigRequestState list configurator" where
  "two_requests =
     \<lparr> generateRequests = (\<lambda>c. (None, c)), getRequestCount = (\<lambda>c. (length c, True)), getState = (\<lambda>c i. c ! i),
       getPacket = (\<lambda>c i. [of_nat i]), getSpeedChangeAfter = (\<lambda>c i. 0), getDeadline = (\<lambda>c i. 1500),
       getError = (\<lambda>c i. ''no response''), setDeadlinePassed = (\<lambda>i. two_set i ReqMayResend),
       setWontResend = (\<lambda>i. two_set i ReqFailed), maybeSpeedChangeSucceeded = (\<lambda>i t c. c) \<rparr>"

definition two_client :: "ConfigRequestState list client" where
  "two_client act r =
     (True, case act of
              ActSendRequest i p s \<Rightarrow> [DriveCall (two_set i (if i = 0 then ReqSucceeded else ReqAwaitingResponse))]
            | ActWaitUntil t \<Rightarrow> [AdvanceTimeToCall t]
            | ActError e \<Rightarrow> [])"

lemma two_ok: "settled two_requests c (two_set i s c)"
  by (auto simp: settled_def two_requests_def two_set_def nth_list_update)

lemma two_requests_ok: "configurator_ok two_requests"
  using two_ok by (simp add: configurator_ok_def) (simp add: two_requests_def)

lemma two_client_ok: "client_ok two_requests two_client"
  by (simp add: client_ok_def two_client_def call_ok_def two_ok split: config_action.split)

lemma two_run:
  "(case director_actions two_requests two_client 8 (newConfigDirector [ReqReadyToSend, ReqReadyToSend] 2) of
      (h, r) \<Rightarrow> (h, cfgtor r, map fst (yielded r))) =
   (Some Complete, [ReqSucceeded, ReqFailed],
    [ActSendRequest 0 [0] 0, ActSendRequest 1 [1] 0, ActWaitUntil 1500, ActSendRequest 1 [1] 0, ActWaitUntil 1500,
     ActError ''no response''])"
  by code_simp

theorem director_reports_witness:
  "reported_errors (snd (director_actions two_requests two_client 8 (newConfigDirector [ReqReadyToSend, ReqReadyToSend] 2))) =
     [''no response'']"
proof -
  obtain h r where run: "director_actions two_requests two_client 8 (newConfigDirector [ReqReadyToSend, ReqReadyToSend] 2) = (h, r)"
    by fastforce
  have h: "h = Some Complete" and c: "cfgtor r = [ReqSucceeded, ReqFailed]" using two_run unfolding run by simp_all
  note rep = director_reports [OF two_requests_ok two_client_ok run [unfolded h]]
  have "startIndex r = 2" using rep c by (simp add: two_requests_def)
  then have "reported_errors r = [''no response'']" using rep c by (simp add: two_requests_def numeral_2_eq_2)
  then show ?thesis using run by simp
qed

end
