(* ===== verification/ConfigReq.thy ===== *)
theory ConfigReq
  imports Director
begin

text \<open>
  The configuration requests of three back ends, CASIC (\<^verbatim>\<open>casReq\<close>), u-blox (\<^verbatim>\<open>configRequest\<close>) and Unicore
  (\<^verbatim>\<open>ConfigRequest\<close>): the state machine that each runs behind the states of \<^verbatim>\<open>gpsprot.ConfigRequestState\<close>. A panic is
  \<open>None\<close>. What all of them promise to the director is the locale \<open>config_request\<close>, interpreted on each. The wording of errors is shortened.
\<close>

section \<open>What the director relies on\<close>

definition req_sendable :: "ConfigRequestState \<Rightarrow> bool" where
  "req_sendable s \<longleftrightarrow> s = ReqReadyToSend \<or> s = ReqMayResend"

text \<open>What becomes of a request that nobody answers, with a client that does not repeat it.\<close>

primrec unanswered :: "('r \<Rightarrow> ConfigRequestState) \<Rightarrow> ('r \<Rightarrow> 'r option) \<Rightarrow> ('r \<Rightarrow> 'r option) \<Rightarrow> nat \<Rightarrow> 'r \<Rightarrow> 'r option" where
  "unanswered st late wont 0 r = Some r"
| "unanswered st late wont (Suc n) r =
     (if req_final (st r) then Some r
      else Option.bind (if st r = ReqMayResend then wont r else late r) (unanswered st late wont n))"

locale config_request =
  fixes st :: "'r \<Rightarrow> ConfigRequestState"
    and sent :: "int \<Rightarrow> 'r \<Rightarrow> 'r option"
    and late :: "'r \<Rightarrow> 'r option"
    and wont :: "'r \<Rightarrow> 'r option"
    and rank :: "'r \<Rightarrow> nat"
  assumes sent_ok: "req_sendable (st r) \<Longrightarrow> \<exists>r'. sent t r = Some r' \<and> (hasDeadline (st r') \<or> req_final (st r'))"
    and sent_panics: "\<not> req_sendable (st r) \<Longrightarrow> sent t r = None"
    and late_ok: "hasDeadline (st r) \<Longrightarrow>
      \<exists>r'. late r = Some r' \<and> (st r' = ReqMayResend \<or> req_final (st r') \<or> hasDeadline (st r') \<and> rank r' < rank r)"
    and late_panics: "\<not> hasDeadline (st r) \<Longrightarrow> late r = None"
    and wont_ok: "st r = ReqMayResend \<Longrightarrow> \<exists>r'. wont r = Some r' \<and> req_final (st r')"
    and wont_panics: "st r \<noteq> ReqMayResend \<Longrightarrow> wont r = None"
    and rank_bound: "rank r \<le> 1"
begin

lemma final_unanswered: "req_final (st r) \<Longrightarrow> unanswered st late wont n r = Some r"
  by (cases n) simp_all

lemma resend_unanswered:
  assumes "st r = ReqMayResend"
  shows "\<exists>r'. unanswered st late wont (Suc n) r = Some r' \<and> req_final (st r')"
  using wont_ok [OF assms] assms by (auto simp: req_final_def final_unanswered)

lemma late_unanswered:
  assumes "hasDeadline (st r)"
  shows "\<exists>r'. unanswered st late wont (Suc (Suc (rank r + n))) r = Some r' \<and> req_final (st r')"
  using assms
proof (induction "rank r" arbitrary: r n rule: less_induct)
  case less
  obtain r1 where r1: "late r = Some r1"
    "st r1 = ReqMayResend \<or> req_final (st r1) \<or> hasDeadline (st r1) \<and> rank r1 < rank r" using late_ok [OF less.prems] by blast
  have step: "unanswered st late wont (Suc k) r = unanswered st late wont k r1" for k
    using less.prems r1(1) by (auto simp: hasDeadline_def req_final_def)
  show ?case using r1(2)
  proof (elim disjE conjE)
    assume "hasDeadline (st r1)" "rank r1 < rank r"
    moreover obtain m where "rank r = Suc (rank r1 + m)" using \<open>rank r1 < rank r\<close> less_iff_Suc_add by auto
    ultimately show ?thesis using less.hyps [of r1 "m + n"] step by (simp add: add.assoc)
  next
    assume "st r1 = ReqMayResend"
    then show ?thesis using resend_unanswered step by simp
  next
    assume "req_final (st r1)"
    then show ?thesis using final_unanswered step by simp
  qed
qed

lemma sent_settles:
  assumes "req_sendable (st r)"
  shows "\<exists>r'. Option.bind (sent t r) (unanswered st late wont 3) = Some r' \<and> req_final (st r')"
proof -
  obtain r1 where r1: "sent t r = Some r1" "hasDeadline (st r1) \<or> req_final (st r1)" using sent_ok [OF assms] by blast
  show ?thesis using r1(2)
  proof
    assume d: "hasDeadline (st r1)"
    have three: "Suc (Suc (rank r1 + (1 - rank r1))) = 3" using rank_bound [of r1] by simp
    show ?thesis using late_unanswered [OF d, of "1 - rank r1", unfolded three] r1(1) by (simp del: unanswered.simps)
  next
    assume "req_final (st r1)"
    then show ?thesis using final_unanswered [of r1 3] r1(1) by simp
  qed
qed

lemma panics_exactly:
  "(sent t r = None \<longleftrightarrow> \<not> req_sendable (st r)) \<and> (late r = None \<longleftrightarrow> \<not> hasDeadline (st r)) \<and>
   (wont r = None \<longleftrightarrow> st r \<noteq> ReqMayResend)"
  using sent_ok sent_panics late_ok late_panics wont_ok wont_panics by (metis option.distinct(1))

end

section \<open>CASIC\<close>

datatype casReqState = CasNotReady | CasReady | CasAwaitingAck | CasMaybeComplete | CasMayResend | CasSucceeded | CasFailed

text \<open>
  The callbacks act on what the configurator has read back and recorded, of type \<open>'c\<close>; messages are of type \<open>'m\<close>.
  The one callback that acts on a request, the confirmation of a change of speed, is \<open>DataConfirmSpeed\<close>.
\<close>

datatype ('m, 'c) cas_data = DataRead "'m \<Rightarrow> 'c \<Rightarrow> 'c" | DataConfirmSpeed

record ('m, 'c) casReq =
  cq_state :: casReqState
  cq_mid :: "16 word"
  cq_packet :: bytes
  cq_tBase :: int
  cq_err :: "string option"
  cq_nakOK :: bool
  cq_onAck :: "('c \<Rightarrow> 'c) option"
  cq_noAck :: bool
  cq_onData :: "('m, 'c) cas_data option"
  cq_onText :: "(string \<Rightarrow> 'c \<Rightarrow> bool \<times> 'c) option"
  cq_optional :: bool
  cq_verPoll :: bool
  cq_speedAfter :: int

definition cas_maxResponseDelay :: int where "cas_maxResponseDelay = 2 * nsPerSecond"

definition cas_speedChangeDelay :: int where "cas_speedChangeDelay = 150 * 1000000"

definition cas_verDataWait :: int where "cas_verDataWait = 1500 * 1000000"

definition cas_final :: "('m, 'c) casReq \<Rightarrow> bool" where
  "cas_final q \<longleftrightarrow> cq_state q = CasSucceeded \<or> cq_state q = CasFailed"

definition cas_getState :: "('m, 'c) casReq \<Rightarrow> ConfigRequestState" where
  "cas_getState q =
     (case cq_state q of
        CasNotReady \<Rightarrow> ReqNotReady | CasReady \<Rightarrow> ReqReadyToSend | CasAwaitingAck \<Rightarrow> ReqAwaitingResponse
      | CasMaybeComplete \<Rightarrow> ReqMaybeComplete | CasMayResend \<Rightarrow> ReqMayResend | CasSucceeded \<Rightarrow> ReqSucceeded
      | CasFailed \<Rightarrow> ReqFailed)"

definition cas_getPacket :: "('m, 'c) casReq \<Rightarrow> bytes option" where
  "cas_getPacket q = (if cq_state q \<in> {CasReady, CasMayResend, CasFailed} then Some (cq_packet q) else None)"

definition cas_getSpeedChangeAfter :: "('m, 'c) casReq \<Rightarrow> int option" where
  "cas_getSpeedChangeAfter q = (if cq_state q \<in> {CasReady, CasMayResend, CasFailed} then Some (cq_speedAfter q) else None)"

definition cas_getDeadline :: "('m, 'c) casReq \<Rightarrow> int option" where
  "cas_getDeadline q =
     (case cq_state q of
        CasAwaitingAck \<Rightarrow> Some (cq_tBase q + cas_maxResponseDelay)
      | CasMaybeComplete \<Rightarrow> Some (cq_tBase q + cas_verDataWait)
      | _ \<Rightarrow> None)"

definition cas_getError :: "('m, 'c) casReq \<Rightarrow> string option option" where
  "cas_getError q = (if cq_state q \<noteq> CasFailed then None else Some (cq_err q))"

definition cas_setSentTime :: "int \<Rightarrow> ('m, 'c) casReq \<Rightarrow> ('m, 'c) casReq option" where
  "cas_setSentTime tSent q =
     (if cq_state q = CasReady \<or> cq_state q = CasMayResend then
        (if cq_noAck q then Some (q\<lparr> cq_state := CasSucceeded \<rparr>)
         else Some (q\<lparr> cq_state := CasAwaitingAck, cq_tBase := tSent \<rparr>))
      else None)"

definition cas_setDeadlinePassed :: "('m, 'c) casReq \<Rightarrow> ('m, 'c) casReq option" where
  "cas_setDeadlinePassed q =
     (case cq_state q of
        CasAwaitingAck \<Rightarrow> Some (q\<lparr> cq_state := CasMayResend \<rparr>)
      | CasMaybeComplete \<Rightarrow> Some (q\<lparr> cq_state := CasSucceeded \<rparr>)
      | _ \<Rightarrow> None)"

definition cas_setWontResend :: "('m, 'c) casReq \<Rightarrow> ('m, 'c) casReq option" where
  "cas_setWontResend q =
     (if cq_state q \<noteq> CasMayResend then None
      else if cq_optional q then Some (q\<lparr> cq_state := CasSucceeded \<rparr>)
      else Some (q\<lparr> cq_state := CasFailed, cq_err := (if cq_err q = None then Some ''no response'' else cq_err q) \<rparr>))"

definition cas_maybeSpeedChangeSucceeded :: "int \<Rightarrow> ('m, 'c) casReq \<Rightarrow> ('m, 'c) casReq" where
  "cas_maybeSpeedChangeSucceeded t q =
     (if cq_state q \<noteq> CasAwaitingAck \<or> cq_speedAfter q = 0 then q
      else if time_sub t (cq_tBase q) > cas_speedChangeDelay then q\<lparr> cq_state := CasSucceeded \<rparr>
      else q)"

text \<open>\<open>handleAck\<close> on the requests from the first on; \<open>known\<close> says that the version has been received.\<close>

fun cas_handleAck :: "bool \<Rightarrow> 16 word \<Rightarrow> bool \<Rightarrow> int \<Rightarrow> ('m, 'c) casReq list \<Rightarrow> 'c \<Rightarrow> ('m, 'c) casReq list \<times> 'c" where
  "cas_handleAck known mid ack tRead [] c = ([], c)"
| "cas_handleAck known mid ack tRead (q # qs) c =
     (if cq_mid q \<noteq> mid \<or> cq_state q \<noteq> CasAwaitingAck then
        (let (qs', c') = cas_handleAck known mid ack tRead qs c in (q # qs', c'))
      else if time_sub tRead (cq_tBase q) < 0 \<or> cas_maxResponseDelay < time_sub tRead (cq_tBase q) then (q # qs, c)
      else if cq_verPoll q \<and> ack then
        (if known then q\<lparr> cq_state := CasSucceeded \<rparr> # qs
         else q\<lparr> cq_state := CasMaybeComplete, cq_tBase := tRead \<rparr> # qs, c)
      else if ack then
        (q\<lparr> cq_state := CasSucceeded \<rparr> # qs, case cq_onAck q of None \<Rightarrow> c | Some f \<Rightarrow> f c)
      else if cq_nakOK q then (q\<lparr> cq_state := CasSucceeded \<rparr> # qs, c)
      else (q\<lparr> cq_state := CasFailed, cq_err := Some ''receiver refused'' \<rparr> # qs, c))"

interpretation cas_rq: config_request cas_getState cas_setSentTime cas_setDeadlinePassed cas_setWontResend "\<lambda>q. 0"
  by unfold_locales
    (auto simp: cas_getState_def cas_setSentTime_def cas_setDeadlinePassed_def cas_setWontResend_def req_sendable_def
      hasDeadline_def req_final_def split: casReqState.splits if_splits)

section \<open>u-blox\<close>

datatype ubxReqState = UbxNotReady | UbxReadyToSend | UbxAwaitingAck | UbxAwaitingResponse | UbxAwaitingAckAndResponse
  | UbxPausing | UbxMayResend | UbxFailed | UbxSucceeded | UbxSkipped

text \<open>
  The interface \<^verbatim>\<open>requestOps\<close>; \<open>'c\<close> is the configurator that the operations read and change. A request holds a
  pointer to the configurator: \<open>uq_cfg\<close> is what it points to and \<open>uq_eventSeq\<close> its \<^verbatim>\<open>eventSeq\<close>.
\<close>

record 'c ubx_ops =
  op_Packet :: bytes
  op_ChangeSpeed :: int
  op_Pause :: int
  op_Ackable :: bool
  op_AwaitingResponse :: "'c \<Rightarrow> 64 word \<Rightarrow> bool"
  op_Done :: "'c \<Rightarrow> 'c"
  op_ID :: string
  op_NakError :: "string option"

record 'c ubxReq =
  uq_ops :: "'c ubx_ops"
  uq_cfg :: 'c
  uq_eventSeq :: "64 word"
  uq_state :: ubxReqState
  uq_sentTime :: int
  uq_sentSeq :: "64 word"
  uq_pauseStartTime :: int
  uq_err :: "string option"

definition ubx_speedChangeDelay :: int where "ubx_speedChangeDelay = 400 * 1000000"

definition ubx_getState :: "'c ubxReq \<Rightarrow> ConfigRequestState" where
  "ubx_getState q =
     (case uq_state q of
        UbxNotReady \<Rightarrow> ReqNotReady | UbxReadyToSend \<Rightarrow> ReqReadyToSend | UbxAwaitingAck \<Rightarrow> ReqAwaitingResponse
      | UbxAwaitingResponse \<Rightarrow> ReqAwaitingResponse | UbxAwaitingAckAndResponse \<Rightarrow> ReqAwaitingResponse
      | UbxPausing \<Rightarrow> ReqPausing | UbxMayResend \<Rightarrow> ReqMayResend | UbxFailed \<Rightarrow> ReqFailed | UbxSucceeded \<Rightarrow> ReqSucceeded
      | UbxSkipped \<Rightarrow> ReqSkipped)"

definition ubx_sendable :: "'c ubxReq \<Rightarrow> bool" where
  "ubx_sendable q \<longleftrightarrow> uq_state q = UbxReadyToSend \<or> uq_state q = UbxMayResend \<or> uq_state q = UbxFailed"

definition ubx_getPacket :: "'c ubxReq \<Rightarrow> bytes option" where
  "ubx_getPacket q = (if ubx_sendable q then Some (op_Packet (uq_ops q)) else None)"

definition ubx_getSpeedChangeAfter :: "'c ubxReq \<Rightarrow> int option" where
  "ubx_getSpeedChangeAfter q = (if ubx_sendable q then Some (op_ChangeSpeed (uq_ops q)) else None)"

definition ubx_getDeadline :: "'c ubxReq \<Rightarrow> int option" where
  "ubx_getDeadline q =
     (case uq_state q of
        UbxAwaitingAck \<Rightarrow> Some (uq_sentTime q + 1500 * 1000000)
      | UbxAwaitingResponse \<Rightarrow> Some (uq_sentTime q + 1500 * 1000000)
      | UbxAwaitingAckAndResponse \<Rightarrow> Some (uq_sentTime q + 1500 * 1000000)
      | UbxPausing \<Rightarrow> Some (uq_pauseStartTime q + op_Pause (uq_ops q))
      | _ \<Rightarrow> None)"

definition ubx_getError :: "'c ubxReq \<Rightarrow> string option option" where
  "ubx_getError q = (if uq_state q \<noteq> UbxFailed then None else Some (uq_err q))"

text \<open>The request succeeds, with the call of \<^verbatim>\<open>ops.Done\<close>.\<close>

definition ubx_succeed :: "'c ubxReq \<Rightarrow> 'c ubxReq" where
  "ubx_succeed q = q\<lparr> uq_state := UbxSucceeded, uq_cfg := op_Done (uq_ops q) (uq_cfg q) \<rparr>"

definition ubx_setSentTime :: "int \<Rightarrow> 'c ubxReq \<Rightarrow> 'c ubxReq option" where
  "ubx_setSentTime tSent q =
     (if uq_state q = UbxReadyToSend \<or> uq_state q = UbxMayResend then
        (let q1 = q\<lparr> uq_sentTime := tSent, uq_sentSeq := uq_eventSeq q \<rparr>;
             needsAck = op_Ackable (uq_ops q1);
             needsResponse = op_AwaitingResponse (uq_ops q1) (uq_cfg q1) (uq_sentSeq q1)
         in Some (if needsAck \<and> needsResponse then q1\<lparr> uq_state := UbxAwaitingAckAndResponse \<rparr>
                  else if needsAck then q1\<lparr> uq_state := UbxAwaitingAck \<rparr>
                  else if needsResponse then q1\<lparr> uq_state := UbxAwaitingResponse \<rparr>
                  else ubx_succeed q1))
      else None)"

definition ubx_setDeadlinePassed :: "'c ubxReq \<Rightarrow> 'c ubxReq option" where
  "ubx_setDeadlinePassed q =
     (if uq_state q = UbxAwaitingAck \<or> uq_state q = UbxAwaitingResponse \<or> uq_state q = UbxAwaitingAckAndResponse
      then Some (q\<lparr> uq_state := UbxMayResend \<rparr>)
      else if uq_state q = UbxPausing then Some (ubx_succeed q) else None)"

definition ubx_setWontResend :: "'c ubxReq \<Rightarrow> 'c ubxReq option" where
  "ubx_setWontResend q =
     (if uq_state q \<noteq> UbxMayResend then None
      else Some (q\<lparr> uq_state := UbxFailed,
                   uq_err := (if uq_err q = None then Some ''no response to request'' else uq_err q) \<rparr>))"

definition ubx_maybeSpeedChangeSucceeded :: "int \<Rightarrow> 'c ubxReq \<Rightarrow> 'c ubxReq" where
  "ubx_maybeSpeedChangeSucceeded t q =
     (if uq_state q \<noteq> UbxAwaitingAck \<or> op_ChangeSpeed (uq_ops q) = 0 then q
      else if time_sub t (uq_sentTime q) > ubx_speedChangeDelay then ubx_succeed q else q)"

definition ubx_pause_or_succeed :: "int \<Rightarrow> 'c ubxReq \<Rightarrow> 'c ubxReq" where
  "ubx_pause_or_succeed ackTime q =
     (if op_Pause (uq_ops q) > 0 then q\<lparr> uq_state := UbxPausing, uq_pauseStartTime := ackTime \<rparr> else ubx_succeed q)"

definition ubx_checkComplete :: "int \<Rightarrow> 'c ubxReq \<Rightarrow> 'c ubxReq" where
  "ubx_checkComplete ackTime q =
     (case uq_state q of
        UbxAwaitingAck \<Rightarrow> ubx_pause_or_succeed ackTime q
      | UbxAwaitingResponse \<Rightarrow>
          (if \<not> op_AwaitingResponse (uq_ops q) (uq_cfg q) (uq_sentSeq q) then ubx_pause_or_succeed ackTime q else q)
      | UbxAwaitingAckAndResponse \<Rightarrow>
          (if \<not> op_AwaitingResponse (uq_ops q) (uq_cfg q) (uq_sentSeq q) then q\<lparr> uq_state := UbxAwaitingAck \<rparr> else q)
      | _ \<Rightarrow> q)"

text \<open>What \<^verbatim>\<open>processAckNak\<close> does to the request that the answer matches.\<close>

definition ubx_ackNak :: "bool \<Rightarrow> int \<Rightarrow> 'c ubxReq \<Rightarrow> 'c ubxReq" where
  "ubx_ackNak ok t q =
     (if ok then
        (if uq_state q = UbxAwaitingAckAndResponse then ubx_checkComplete t (q\<lparr> uq_state := UbxAwaitingResponse \<rparr>)
         else ubx_checkComplete t q)
      else q\<lparr> uq_state := UbxFailed,
              uq_err := (case op_NakError (uq_ops q) of
                           None \<Rightarrow> Some (''GPS receiver sent NACK for request '' @ op_ID (uq_ops q))
                         | Some e \<Rightarrow> Some e) \<rparr>)"

interpretation ubx_rq: config_request ubx_getState ubx_setSentTime ubx_setDeadlinePassed ubx_setWontResend "\<lambda>q. 0"
  by unfold_locales
    (auto simp: ubx_getState_def ubx_setSentTime_def ubx_setDeadlinePassed_def ubx_setWontResend_def req_sendable_def
      ubx_succeed_def Let_def hasDeadline_def req_final_def split: ubxReqState.splits if_splits)

section \<open>Unicore\<close>

datatype uncReqState = UncReadyToSendCommand | UncReadyToSendQuery | UncReadyToSendRepeat | UncAwaitingAckAndResponse
  | UncAwaitingAckBeforeRepeat | UncAwaitingAck | UncAwaitingResponse | UncMaybeComplete | UncRepeatSent
  | UncMayResendCommand | UncMayResendQuery | UncFailed | UncSucceeded

text \<open>\<open>nq_prop\<close> names the property that a command sets; the source has a pointer to it.\<close>

record 'p uncReq =
  nq_state :: uncReqState
  nq_cmd :: string
  nq_prop :: "'p option"
  nq_speed :: int
  nq_tBase :: int
  nq_err :: "string option"

definition unc_speedChangeDelay :: int where "unc_speedChangeDelay = 400 * 1000000"

definition unc_maxResponseDelay :: int where "unc_maxResponseDelay = quot (nsPerSecond * 3) 2"

definition unc_idlePeriod :: int where "unc_idlePeriod = 50 * 1000000"

definition unc_speedChangeRepeatDelay :: int where "unc_speedChangeRepeatDelay = 100 * 1000000"

definition unc_speedChangeRepeatAckDelay :: int where "unc_speedChangeRepeatAckDelay = 300 * 1000000"

definition unc_isFinal :: "uncReqState \<Rightarrow> bool" where
  "unc_isFinal s \<longleftrightarrow> s = UncFailed \<or> s = UncSucceeded"

definition unc_getPacket :: "'p uncReq \<Rightarrow> string option" where
  "unc_getPacket q =
     (if nq_state q \<in> {UncReadyToSendCommand, UncReadyToSendQuery, UncReadyToSendRepeat, UncMayResendCommand,
                       UncMayResendQuery, UncFailed}
      then Some (nq_cmd q @ [CHR 13, CHR 10]) else None)"

definition unc_getSpeedChangeAfter :: "'p uncReq \<Rightarrow> int" where
  "unc_getSpeedChangeAfter q = nq_speed q"

definition unc_getState :: "'p uncReq \<Rightarrow> ConfigRequestState" where
  "unc_getState q =
     (case nq_state q of
        UncReadyToSendCommand \<Rightarrow> ReqReadyToSend | UncReadyToSendQuery \<Rightarrow> ReqReadyToSend
      | UncReadyToSendRepeat \<Rightarrow> ReqReadyToSend | UncAwaitingAckAndResponse \<Rightarrow> ReqAwaitingResponse
      | UncAwaitingAck \<Rightarrow> ReqAwaitingResponse | UncAwaitingResponse \<Rightarrow> ReqAwaitingResponse
      | UncAwaitingAckBeforeRepeat \<Rightarrow> ReqAwaitingResponse | UncMaybeComplete \<Rightarrow> ReqMaybeComplete
      | UncRepeatSent \<Rightarrow> ReqMaybeComplete | UncMayResendCommand \<Rightarrow> ReqMayResend | UncMayResendQuery \<Rightarrow> ReqMayResend
      | UncFailed \<Rightarrow> ReqFailed | UncSucceeded \<Rightarrow> ReqSucceeded)"

definition unc_getError :: "'p uncReq \<Rightarrow> string option option" where
  "unc_getError q = (if nq_state q \<noteq> UncFailed then None else Some (nq_err q))"

definition unc_getDeadline :: "'p uncReq \<Rightarrow> int option" where
  "unc_getDeadline q =
     (case nq_state q of
        UncAwaitingAck \<Rightarrow> Some (nq_tBase q + unc_maxResponseDelay)
      | UncAwaitingAckAndResponse \<Rightarrow> Some (nq_tBase q + unc_maxResponseDelay)
      | UncAwaitingResponse \<Rightarrow> Some (nq_tBase q + unc_maxResponseDelay)
      | UncAwaitingAckBeforeRepeat \<Rightarrow> Some (nq_tBase q + unc_speedChangeRepeatDelay)
      | UncMaybeComplete \<Rightarrow> Some (nq_tBase q + unc_idlePeriod)
      | UncRepeatSent \<Rightarrow> Some (nq_tBase q + unc_speedChangeRepeatAckDelay)
      | _ \<Rightarrow> None)"

definition unc_setSentTime :: "int \<Rightarrow> 'p uncReq \<Rightarrow> 'p uncReq option" where
  "unc_setSentTime tSent q =
     map_option (\<lambda>s. q\<lparr> nq_state := s, nq_tBase := tSent \<rparr>)
       (case nq_state q of
          UncReadyToSendCommand \<Rightarrow> Some (if nq_speed q \<noteq> 0 then UncAwaitingAckBeforeRepeat else UncAwaitingAck)
        | UncReadyToSendQuery \<Rightarrow> Some UncAwaitingAckAndResponse
        | UncReadyToSendRepeat \<Rightarrow> Some UncRepeatSent
        | UncMayResendCommand \<Rightarrow> Some UncAwaitingAck
        | UncMayResendQuery \<Rightarrow> Some UncAwaitingAckAndResponse
        | _ \<Rightarrow> None)"

definition unc_setDeadlinePassed :: "'p uncReq \<Rightarrow> 'p uncReq option" where
  "unc_setDeadlinePassed q =
     map_option (\<lambda>s. q\<lparr> nq_state := s \<rparr>)
       (case nq_state q of
          UncAwaitingAck \<Rightarrow> Some UncMayResendCommand
        | UncAwaitingAckBeforeRepeat \<Rightarrow> Some UncAwaitingAck
        | UncAwaitingAckAndResponse \<Rightarrow> Some UncMayResendQuery
        | UncAwaitingResponse \<Rightarrow> Some UncMayResendQuery
        | UncMaybeComplete \<Rightarrow> Some UncSucceeded
        | UncRepeatSent \<Rightarrow> Some UncSucceeded
        | _ \<Rightarrow> None)"

definition unc_setWontResend :: "'p uncReq \<Rightarrow> 'p uncReq option" where
  "unc_setWontResend q =
     (if nq_state q = UncMayResendCommand \<or> nq_state q = UncMayResendQuery
      then Some (q\<lparr> nq_state := UncFailed,
                   nq_err := (if nq_err q = None then Some ''request abandoned after timeout'' else nq_err q) \<rparr>)
      else None)"

text \<open>
  The property that a command sets is known by its name; the properties, of type \<open>'n\<close>, are shared by the requests,
  so they are passed along. \<open>None\<close> is the panic of \<^verbatim>\<open>updateProp\<close>.
\<close>

definition unc_updateProp :: "('p \<Rightarrow> string \<Rightarrow> 'n \<Rightarrow> 'n option) \<Rightarrow> 'p uncReq \<Rightarrow> 'n \<Rightarrow> 'n option" where
  "unc_updateProp updateFromCommand q native =
     (case nq_prop q of None \<Rightarrow> Some native | Some p \<Rightarrow> updateFromCommand p (nq_cmd q) native)"

definition unc_maybeSpeedChangeSucceeded ::
  "('p \<Rightarrow> string \<Rightarrow> 'n \<Rightarrow> 'n option) \<Rightarrow> int \<Rightarrow> 'p uncReq \<Rightarrow> 'n \<Rightarrow> ('p uncReq \<times> 'n) option" where
  "unc_maybeSpeedChangeSucceeded updateFromCommand t q native =
     (if nq_speed q = 0 \<or> (nq_state q \<noteq> UncAwaitingAck \<and> nq_state q \<noteq> UncAwaitingAckBeforeRepeat) then Some (q, native)
      else if time_sub t (nq_tBase q) > unc_speedChangeDelay
      then map_option (Pair (q\<lparr> nq_state := UncSucceeded \<rparr>)) (unc_updateProp updateFromCommand q native)
      else Some (q, native))"

text \<open>Whether the acknowledgement is for this request, and what it leaves.\<close>

definition unc_handleAck ::
  "('p \<Rightarrow> string \<Rightarrow> 'n \<Rightarrow> 'n option) \<Rightarrow> string \<Rightarrow> string \<Rightarrow> int \<Rightarrow> 'p uncReq \<Rightarrow> 'n \<Rightarrow> (bool \<times> 'p uncReq \<times> 'n) option" where
  "unc_handleAck updateFromCommand cmd responseErr tRead q native =
     (if nq_cmd q \<noteq> cmd then Some (False, q, native)
      else if time_sub tRead (nq_tBase q) < 0 \<or> unc_maxResponseDelay < time_sub tRead (nq_tBase q)
      then Some (False, q, native)
      else case (case nq_state q of
                   UncAwaitingAck \<Rightarrow> Some UncSucceeded
                 | UncAwaitingAckBeforeRepeat \<Rightarrow> Some UncSucceeded
                 | UncRepeatSent \<Rightarrow> Some UncSucceeded
                 | UncAwaitingAckAndResponse \<Rightarrow> Some UncAwaitingResponse
                 | _ \<Rightarrow> None) of
             None \<Rightarrow> Some (False, q, native)
           | Some s \<Rightarrow>
               (if responseErr \<noteq> []
                then Some (True, q\<lparr> nq_state := UncFailed, nq_err := Some (''command rejected: '' @ responseErr) \<rparr>, native)
                else map_option (\<lambda>n. (True, q\<lparr> nq_state := s \<rparr>, n)) (unc_updateProp updateFromCommand q native)))"

definition unc_rank :: "'p uncReq \<Rightarrow> nat" where
  "unc_rank q = (if nq_state q = UncAwaitingAckBeforeRepeat then 1 else 0)"

interpretation unc_rq: config_request unc_getState unc_setSentTime unc_setDeadlinePassed unc_setWontResend unc_rank
  by unfold_locales
    (auto simp: unc_getState_def unc_setSentTime_def unc_setDeadlinePassed_def unc_setWontResend_def req_sendable_def
      unc_rank_def hasDeadline_def req_final_def split: uncReqState.splits if_splits)

section \<open>The contract of the requests\<close>

text \<open>In all three back ends the calls that move a request panic exactly where its state does not meet their
  documented precondition: \<^verbatim>\<open>SetSentTime\<close> unless it is ready to send or may be resent, \<^verbatim>\<open>SetDeadlinePassed\<close> unless it
  has a deadline, \<^verbatim>\<open>SetWontResend\<close> unless it may be resent; and \<^verbatim>\<open>GetDeadline\<close> has a value exactly where a deadline is
  due.\<close>

lemma request_panics:
  "((cas_setSentTime t q = None) = (\<not> req_sendable (cas_getState q))) \<and>
   ((cas_setDeadlinePassed q = None) = (\<not> hasDeadline (cas_getState q))) \<and>
   ((cas_setWontResend q = None) = (cas_getState q \<noteq> ReqMayResend)) \<and>
   ((cas_getDeadline q = None) = (\<not> hasDeadline (cas_getState q))) \<and>
   ((ubx_setSentTime t u = None) = (\<not> req_sendable (ubx_getState u))) \<and>
   ((ubx_setDeadlinePassed u = None) = (\<not> hasDeadline (ubx_getState u))) \<and>
   ((ubx_setWontResend u = None) = (ubx_getState u \<noteq> ReqMayResend)) \<and>
   ((ubx_getDeadline u = None) = (\<not> hasDeadline (ubx_getState u))) \<and>
   ((unc_setSentTime t n = None) = (\<not> req_sendable (unc_getState n))) \<and>
   ((unc_setDeadlinePassed n = None) = (\<not> hasDeadline (unc_getState n))) \<and>
   ((unc_setWontResend n = None) = (unc_getState n \<noteq> ReqMayResend)) \<and>
   ((unc_getDeadline n = None) = (\<not> hasDeadline (unc_getState n)))"
proof -
  have "(cas_getDeadline q = None) = (\<not> hasDeadline (cas_getState q))"
    by (simp add: cas_getDeadline_def cas_getState_def hasDeadline_def split: casReqState.split)
  moreover have "(ubx_getDeadline u = None) = (\<not> hasDeadline (ubx_getState u))"
    by (simp add: ubx_getDeadline_def ubx_getState_def hasDeadline_def split: ubxReqState.split)
  moreover have "(unc_getDeadline n = None) = (\<not> hasDeadline (unc_getState n))"
    by (simp add: unc_getDeadline_def unc_getState_def hasDeadline_def split: uncReqState.split)
  ultimately show ?thesis
    using cas_rq.panics_exactly [of t q] ubx_rq.panics_exactly [of t u] unc_rq.panics_exactly [of t n] by simp
qed

text \<open>Whether a request that is sent and never answered is in a terminal state three calls of its client later.\<close>

definition settles :: "('r \<Rightarrow> ConfigRequestState) \<Rightarrow> ('r \<Rightarrow> 'r option) \<Rightarrow> ('r \<Rightarrow> 'r option) \<Rightarrow> 'r option \<Rightarrow> bool" where
  "settles st late wont r = (case Option.bind r (unanswered st late wont 3) of None \<Rightarrow> False | Some r' \<Rightarrow> req_final (st r'))"

text \<open>C0: In all three back ends a request that may be sent, once sent and never answered, reaches a terminal state
  within three calls of \<^verbatim>\<open>SetDeadlinePassed\<close> and \<^verbatim>\<open>SetWontResend\<close>, none of which panics.\<close>

theorem request_settles:
  assumes "req_sendable (cas_getState q)" "req_sendable (ubx_getState u)" "req_sendable (unc_getState n)"
  shows "settles cas_getState cas_setDeadlinePassed cas_setWontResend (cas_setSentTime t q) \<and>
    settles ubx_getState ubx_setDeadlinePassed ubx_setWontResend (ubx_setSentTime t u) \<and>
    settles unc_getState unc_setDeadlinePassed unc_setWontResend (unc_setSentTime t n)"
  using cas_rq.sent_settles [OF assms(1), of t] ubx_rq.sent_settles [OF assms(2), of t]
    unc_rq.sent_settles [OF assms(3), of t]
  by (auto simp: settles_def simp del: unanswered.simps)

definition ex_cas :: "(unit, unit) casReq" where
  "ex_cas = \<lparr> cq_state = CasReady, cq_mid = 0x0106, cq_packet = [], cq_tBase = 0, cq_err = None, cq_nakOK = False,
     cq_onAck = None, cq_noAck = False, cq_onData = None, cq_onText = None, cq_optional = False, cq_verPoll = False, cq_speedAfter = 0 \<rparr>"

definition ex_ubx :: "unit ubxReq" where
  "ex_ubx = \<lparr> uq_ops = \<lparr> op_Packet = [], op_ChangeSpeed = 0, op_Pause = 0, op_Ackable = True,
       op_AwaitingResponse = (\<lambda>c s. True), op_Done = (\<lambda>c. c), op_ID = ''X'', op_NakError = None \<rparr>,
     uq_cfg = (), uq_eventSeq = 7, uq_state = UbxReadyToSend, uq_sentTime = 0, uq_sentSeq = 0, uq_pauseStartTime = 0,
     uq_err = None \<rparr>"

definition ex_unc :: "unit uncReq" where
  "ex_unc = \<lparr> nq_state = UncReadyToSendCommand, nq_cmd = ''CONFIG COM1 115200'', nq_prop = None, nq_speed = 115200,
     nq_tBase = 0, nq_err = None \<rparr>"

theorem request_settles_witness:
  "settles cas_getState cas_setDeadlinePassed cas_setWontResend (cas_setSentTime 5 ex_cas) \<and>
   settles ubx_getState ubx_setDeadlinePassed ubx_setWontResend (ubx_setSentTime 5 ex_ubx) \<and>
   settles unc_getState unc_setDeadlinePassed unc_setWontResend (unc_setSentTime 5 ex_unc)"
  by (rule request_settles)
    (simp_all add: ex_cas_def ex_ubx_def ex_unc_def cas_getState_def ubx_getState_def unc_getState_def req_sendable_def)

text \<open>
  The interface says that \<^verbatim>\<open>SetWontResend\<close> leaves a request failed; an optional CASIC request succeeds.
\<close>

lemma cas_wont_resend:
  assumes "cas_getState q = ReqMayResend"
  shows "map_option cas_getState (cas_setWontResend q) = Some (if cq_optional q then ReqSucceeded else ReqFailed)"
  using assms by (auto simp: cas_getState_def cas_setWontResend_def split: casReqState.splits)

end
