(* ===== verification/DirectorLive.thy ===== *)
theory DirectorLive
  imports Director
begin

text \<open>
  The director neither panics nor finds its requests stuck in \<open>ReqNotReady\<close>, under what the client and a Configurator
  promise: the locale \<open>configuring\<close>. The client is the loop of \<^verbatim>\<open>gps/app/gpscfg/gpscfg.go\<close>, which advances the director's
  time before anything else, and does nothing else when an error is reported.
\<close>

section \<open>The client\<close>

text \<open>
  What happens around the loop of \<^verbatim>\<open>configure\<close>: how much time has passed, by a clock that does not run backwards (less than nothing is nothing), when a
  packet has been sent, whether it could be written, and what ends a wait: the timer, a packet with the events that it
  brings the configurator and whether its checksum is valid, or the end of the program.
\<close>

datatype 'e wake = TimerFired | PacketRead "'e list" bool int "nat list \<Rightarrow> nat list" | Cancelled

record ('c, 'e) cfg_env =
  ev_elapsed :: "'c run \<Rightarrow> int"
  ev_sent :: "'c run \<Rightarrow> int"
  ev_writeOK :: "'c run \<Rightarrow> bool"
  ev_wake :: "'c run \<Rightarrow> 'e wake"

definition gpscfg_client :: "(nat \<Rightarrow> int \<Rightarrow> 'c \<Rightarrow> 'c) \<Rightarrow> ('e \<Rightarrow> 'c \<Rightarrow> 'c) \<Rightarrow> ('c, 'e) cfg_env \<Rightarrow> 'c client" where
  "gpscfg_client setSent deliver env act r =
     (let advance = AdvanceTimeToCall (currentTime r + max 0 (ev_elapsed env r))
      in case act of
           ActSendRequest i pkt speed \<Rightarrow>
             (if ev_writeOK env r then (True, [advance, DriveCall (setSent i (ev_sent env r))]) else (False, [advance]))
         | ActWaitUntil deadline \<Rightarrow>
             (case ev_wake env r of
                TimerFired \<Rightarrow> (True, [advance])
              | Cancelled \<Rightarrow> (False, [advance])
              | PacketRead es valid tRead ord \<Rightarrow>
                  (True, [advance] @ map (\<lambda>e. DriveCall (deliver e)) es @ (if valid then [ValidPacketReceivedCall tRead ord] else [])))
         | ActError e \<Rightarrow> (True, [advance]))"

section \<open>The contract\<close>

text \<open>A request that has ended, or that time alone may end.\<close>

definition ended :: "ConfigRequestState \<Rightarrow> bool" where
  "ended s \<longleftrightarrow> req_final s \<or> s = ReqMaybeComplete \<or> s = ReqPausing"

definition first_ready :: "'c configurator \<Rightarrow> 'c \<Rightarrow> bool" where
  "first_ready cf c \<longleftrightarrow> (\<forall>i < fst (getRequestCount cf c). (\<forall>j < i. ended (getState cf c j)) \<longrightarrow> getState cf c i \<noteq> ReqNotReady)"

text \<open>What a deadline that passes may change.\<close>

definition timed :: "'c configurator \<Rightarrow> 'c \<Rightarrow> 'c \<Rightarrow> bool" where
  "timed cf c c' \<longleftrightarrow> fst (getRequestCount cf c') = fst (getRequestCount cf c) \<and>
     (\<forall>j. (req_final (getState cf c j) \<longrightarrow> getState cf c' j = getState cf c j)
       \<and> (getState cf c' j = ReqNotReady \<longrightarrow> getState cf c j = ReqNotReady)
       \<and> (ended (getState cf c' j) \<longrightarrow> ended (getState cf c j)))"

lemma timed_refl [simp]: "timed cf c c"
  by (simp add: timed_def)

lemma timed_trans: "timed cf a b \<Longrightarrow> timed cf b c \<Longrightarrow> timed cf a c"
  unfolding timed_def by metis

definition drives :: "('c \<Rightarrow> bool) \<Rightarrow> 'c client_call \<Rightarrow> bool" where
  "drives I call \<longleftrightarrow> (case call of DriveCall f \<Rightarrow> (\<forall>c. I c \<longrightarrow> I (f c)) | ValidPacketReceivedCall t ord \<Rightarrow> True | AdvanceTimeToCall t \<Rightarrow> False)"

lemma gpscfg_calls:
  assumes "\<And>i t c. I c \<Longrightarrow> I (setSent i t c)" "\<And>e c. I c \<Longrightarrow> I (deliver e c)"
  shows "\<exists>t rest. snd (gpscfg_client setSent deliver env act r) = AdvanceTimeToCall t # rest \<and> currentTime r \<le> t \<and>
    list_all (drives I) rest \<and> (\<forall>e. act = ActError e \<longrightarrow> rest = [])"
  using assms by (auto simp: gpscfg_client_def Let_def drives_def list_all_iff split: config_action.split wake.split)

lemma gpscfg_ok:
  assumes "\<And>i t c. settled cf c (setSent i t c)" "\<And>e c. settled cf c (deliver e c)"
  shows "client_ok cf (gpscfg_client setSent deliver env)"
  using assms by (auto simp: client_ok_def gpscfg_client_def Let_def call_ok_def split: config_action.splits wake.splits)

locale configuring =
  fixes cf :: "'c configurator" and client :: "'c client" and I :: "'c \<Rightarrow> bool"
  assumes ok: "configurator_ok cf" "client_ok cf client"
    and gen_I: "I c \<Longrightarrow> I (snd (generateRequests cf c))"
    and gen_ready: "I c \<Longrightarrow> fst (generateRequests cf c) = None \<Longrightarrow> first_ready cf (snd (generateRequests cf c))"
    and late_I: "I c \<Longrightarrow> I (setDeadlinePassed cf i c)"
    and late_timed: "I c \<Longrightarrow> hasDeadline (getState cf c i) \<Longrightarrow> timed cf c (setDeadlinePassed cf i c)"
    and wont_I: "I c \<Longrightarrow> I (setWontResend cf i c)"
    and speed_I: "I c \<Longrightarrow> I (maybeSpeedChangeSucceeded cf i t c)"
    and calls: "\<exists>t rest. snd (client act r) = AdvanceTimeToCall t # rest \<and> currentTime r \<le> t \<and> list_all (drives I) rest \<and>
      (\<forall>e. act = ActError e \<longrightarrow> rest = [])"
begin

definition fine :: "halt option \<Rightarrow> bool" where "fine h \<longleftrightarrow> h \<noteq> Some Panicked \<and> h \<noteq> Some Stuck"

definition goes_on :: "'c run \<Rightarrow> 'c run \<Rightarrow> bool" where
  "goes_on r r' \<longleftrightarrow> (I (cfgtor r) \<longrightarrow> I (cfgtor r')) \<and> advanceCount r \<le> advanceCount r'"

lemma goes_refl [simp]: "goes_on r r"
  by (simp add: goes_on_def)

lemma goes_trans: "goes_on a b \<Longrightarrow> goes_on b c \<Longrightarrow> goes_on a c"
  by (auto simp: goes_on_def)

lemma timeouts: "I (cfgtor r) \<Longrightarrow> I (cfgtor (timeouts_from cf k i r)) \<and> timed cf (cfgtor r) (cfgtor (timeouts_from cf k i r))
    \<and> advanceCount (timeouts_from cf k i r) = advanceCount r"
proof (induction k arbitrary: i r)
  case (Suc k)
  define q where "q = (if hasDeadline (getState cf (cfgtor r) i) \<and> \<not> currentTime r < getDeadline cf (cfgtor r) i
        then r\<lparr> cfgtor := setDeadlinePassed cf i (cfgtor r) \<rparr> else r)"
  have q: "I (cfgtor q) \<and> timed cf (cfgtor r) (cfgtor q) \<and> advanceCount q = advanceCount r"
    using late_I [OF Suc.prems] late_timed [OF Suc.prems] Suc.prems by (simp add: q_def)
  have "timeouts_from cf (Suc k) i r = timeouts_from cf k (i + 1) q" by (simp only: timeouts_from.simps q_def)
  then show ?case using Suc.IH [of q "i + 1"] q timed_trans by fastforce
qed simp

lemma advance:
  assumes "I (cfgtor r)" "currentTime r \<le> t" "advanceTimeTo cf t r = (h, r')"
  shows "h = None \<and> I (cfgtor r') \<and> timed cf (cfgtor r) (cfgtor r') \<and> advanceCount r' = advanceCount r + 1"
  using assms timeouts [of "r\<lparr> currentTime := t, advanceCount := advanceCount r + 1 \<rparr>"]
  by (auto simp: advanceTimeTo_def processTimeouts_def)

lemma valid_packet: "I (cfgtor r) \<Longrightarrow> I (cfgtor (fold (confirmSpeed cf t) is r)) \<and> advanceCount (fold (confirmSpeed cf t) is r) = advanceCount r"
proof (induction "is" arbitrary: r)
  case (Cons i "is")
  have "I (cfgtor (confirmSpeed cf t i r)) \<and> advanceCount (confirmSpeed cf t i r) = advanceCount r"
    using speed_I [OF Cons.prems] Cons.prems by (simp add: confirmSpeed_def)
  then show ?case using Cons.IH [of "confirmSpeed cf t i r"] by simp
qed simp

lemma drive: "list_all (drives I) cs \<Longrightarrow> I (cfgtor r) \<Longrightarrow> client_calls cf cs r = (h, r') \<Longrightarrow>
    h = None \<and> I (cfgtor r') \<and> advanceCount r' = advanceCount r"
proof (induction cs arbitrary: r)
  case (Cons call cs)
  have *: "drives I call" "list_all (drives I) cs" using Cons.prems(1) by simp_all
  show ?case
  proof (cases call)
    case (AdvanceTimeToCall t)
    then show ?thesis using * by (simp add: drives_def)
  next
    case (ValidPacketReceivedCall t ord)
    have v: "I (cfgtor (validPacketReceived cf t ord r)) \<and> advanceCount (validPacketReceived cf t ord r) = advanceCount r"
      using valid_packet [OF Cons.prems(2)] by (simp add: validPacketReceived_def)
    then show ?thesis using Cons.IH [OF *(2), of "validPacketReceived cf t ord r"] Cons.prems(3) ValidPacketReceivedCall by simp
  next
    case (DriveCall f)
    then have "I (f (cfgtor r))" using * Cons.prems(2) by (simp add: drives_def)
    then show ?thesis using Cons.IH [OF *(2), of "r\<lparr> cfgtor := f (cfgtor r) \<rparr>"] Cons.prems(3) DriveCall by simp
  qed
qed simp

lemma yields:
  assumes "I (cfgtor r)" "yield_action cf client act again r = (h, r')"
  shows "fine h \<and> I (cfgtor r') \<and> advanceCount r < advanceCount r' \<and> startIndex r' = startIndex r \<and> endIndex r' = endIndex r
    \<and> (\<forall>e. act = ActError e \<longrightarrow> timed cf (cfgtor r) (cfgtor r'))"
proof -
  define r1 where "r1 = r\<lparr> yielded := yielded r @ [(act, again)] \<rparr>"
  obtain go cs where cs: "client act r1 = (go, cs)" by fastforce
  then obtain t rest where form: "cs = AdvanceTimeToCall t # rest" "currentTime r1 \<le> t" "list_all (drives I) rest"
    "\<forall>e. act = ActError e \<longrightarrow> rest = []" using calls [of act r1] by auto
  obtain h1 r2 where a: "advanceTimeTo cf t r1 = (h1, r2)" by fastforce
  have I1: "I (cfgtor r1)" "cfgtor r1 = cfgtor r" "advanceCount r1 = advanceCount r" using assms(1) by (simp_all add: r1_def)
  note adv = advance [OF I1(1) form(2) a]
  obtain h3 r3 where d: "client_calls cf rest r2 = (h3, r3)" by fastforce
  have I2: "I (cfgtor r2)" using adv by simp
  note dr = drive [OF form(3) I2 d]
  have r': "r' = r3" "h = None \<or> h = Some Abandoned"
    using assms(2) cs form(1) a adv d dr by (auto simp: yield_action_def r1_def [symmetric] Let_def split: if_splits)
  note own = own_eq [OF own_yield [of cf client act again r]]
  have "timed cf (cfgtor r) (cfgtor r')" if "act = ActError e" for e
    using form(4) that d adv I1 r' by simp
  moreover have "startIndex r' = startIndex r" "endIndex r' = endIndex r" using own(1,2) assms(2) by simp_all
  ultimately show ?thesis using r' dr adv I1 by (auto simp: fine_def)
qed

text \<open>The window begins at the first unfinished request, and is not empty when there is one.\<close>

lemma advance_first:
  "I (cfgtor r) \<Longrightarrow> advance_start cf client k r = (h, r') \<Longrightarrow> fine h \<and> (h = None \<longrightarrow>
     I (cfgtor r') \<and> advanceCount r \<le> advanceCount r' \<and> timed cf (cfgtor r) (cfgtor r') \<and> endIndex r' = endIndex r \<and>
     (startIndex r' = startIndex r + k \<or> startIndex r' < startIndex r + k \<and> \<not> req_final (getState cf (cfgtor r') (startIndex r'))) \<and>
     (\<forall>j. startIndex r \<le> j \<longrightarrow> j < startIndex r' \<longrightarrow> req_final (getState cf (cfgtor r') j)))"
proof (induction k arbitrary: r)
  case 0
  then show ?case by (simp add: fine_def)
next
  case (Suc k)
  have go: ?case if q: "I (cfgtor q)" "advanceCount r \<le> advanceCount q" "timed cf (cfgtor r) (cfgtor q)" "startIndex q = Suc (startIndex r)"
      "endIndex q = endIndex r" "advance_start cf client k q = (h, r')" "req_final (getState cf (cfgtor r) (startIndex r))" for q
  proof -
    note IH = Suc.IH [OF q(1,6)]
    have tr: "timed cf (cfgtor r) (cfgtor r')" if "h = None"
    proof -
      have "timed cf (cfgtor q) (cfgtor r')" using IH that by simp
      then show ?thesis by (rule timed_trans [OF q(3)])
    qed
    have fin: "req_final (getState cf (cfgtor r') j)" if "h = None" "startIndex r \<le> j" "j < startIndex r'" for j
    proof (cases "j = startIndex r")
      case True
      have "getState cf (cfgtor r') j = getState cf (cfgtor r) j" using tr [OF that(1)] q(7) True unfolding timed_def by metis
      then show ?thesis using q(7) True by simp
    next
      case False
      then show ?thesis using IH that q(4) by simp
    qed
    show ?thesis
    proof (cases "h = None")
      case True
      then show ?thesis using IH tr [OF True] fin [OF True] q(2,4,5) by simp
    next
      case False
      then show ?thesis using IH by blast
    qed
  qed
  show ?case
  proof (cases "getState cf (cfgtor r) (startIndex r) = ReqFailed")
    case True
    obtain h1 q where y: "yield_action cf client (ActError (getError cf (cfgtor r) (startIndex r))) False
      (r\<lparr> errorCount := errorCount r + 1 \<rparr>) = (h1, q)" by fastforce
    have y': "fine h1 \<and> I (cfgtor q) \<and> advanceCount r < advanceCount q \<and> startIndex q = startIndex r \<and> endIndex q = endIndex r \<and>
        timed cf (cfgtor r) (cfgtor q)"
      using yields [OF _ y] Suc.prems(1) by simp
    show ?thesis
    proof (cases h1)
      case None
      then have "advance_start cf client k (q\<lparr> startIndex := startIndex q + 1 \<rparr>) = (h, r')"
        using Suc.prems(2) True y by (simp add: Let_def)
      then show ?thesis using go [of "q\<lparr> startIndex := startIndex q + 1 \<rparr>"] y' True by (simp add: req_final_def)
    next
      case (Some x)
      then have "h = h1" using Suc.prems(2) True y by (simp add: Let_def)
      then show ?thesis using y' Some by simp
    qed
  next
    case False
    then show ?thesis using go [of "r\<lparr> startIndex := startIndex r + 1 \<rparr>"] Suc.prems
      by (cases "getState cf (cfgtor r) (startIndex r)") (auto simp: req_final_def fine_def)
  qed
qed

lemma expand_grows: "endIndex r \<le> endIndex (expand_end cf k r) \<and> startIndex (expand_end cf k r) = startIndex r
    \<and> cfgtor (expand_end cf k r) = cfgtor r \<and> advanceCount (expand_end cf k r) = advanceCount r"
proof (induction k arbitrary: r)
  case (Suc k)
  note IH = Suc.IH [of "r\<lparr> endIndex := Suc (endIndex r) \<rparr>"]
  have "endIndex r \<le> endIndex (expand_end cf k (r\<lparr> endIndex := Suc (endIndex r) \<rparr>))" using IH by simp
  then show ?case using IH by (simp add: Let_def)
qed simp

lemma window_nonempty:
  assumes I: "I (cfgtor r)" and rep: "reported cf r" and ready: "first_ready cf (cfgtor r)"
    and u: "updateWindow cf client (fst (getRequestCount cf (cfgtor r))) r = (h, r2)"
  shows "fine h \<and> (h = None \<longrightarrow> I (cfgtor r2) \<and> advanceCount r \<le> advanceCount r2 \<and>
    (startIndex r2 < endIndex r2 \<or> fst (getRequestCount cf (cfgtor r)) \<le> startIndex r2))"
proof -
  let ?cnt = "fst (getRequestCount cf (cfgtor r))"
  obtain h1 r1 where a: "advance_start cf client (?cnt - startIndex r) r = (h1, r1)" by fastforce
  note first = advance_first [OF I a]
  show ?thesis
  proof (cases h1)
    case (Some x)
    then have "h = h1" using u a by (simp add: updateWindow_def)
    then show ?thesis using first Some by simp
  next
    case None
    define q where "q = (if endIndex r1 < startIndex r1 then r1\<lparr> endIndex := startIndex r1 \<rparr> else r1)"
    have r2: "h = None" "r2 = expand_end cf (?cnt - endIndex q) q" using u a None by (simp_all add: updateWindow_def q_def Let_def)
    have q: "startIndex q = startIndex r1" "cfgtor q = cfgtor r1" "advanceCount q = advanceCount r1" "startIndex q \<le> endIndex q"
      by (simp_all add: q_def)
    note grow = expand_grows [of q "?cnt - endIndex q", folded r2(2)]
    have "startIndex r1 < endIndex r2 \<or> ?cnt \<le> startIndex r1"
    proof (rule ccontr)
      assume "\<not> (startIndex r1 < endIndex r2 \<or> ?cnt \<le> startIndex r1)"
      then have no: "endIndex r2 = startIndex r1" "startIndex r1 < ?cnt" "endIndex q = startIndex r1" using grow q by auto
      have t: "timed cf (cfgtor r) (cfgtor r1)" using first None by simp
      have un: "\<not> req_final (getState cf (cfgtor r1) (startIndex r1))" using first None no rep by (auto simp: reported_def)
      have fin: "req_final (getState cf (cfgtor r1) j)" if "j < startIndex r1" for j
      proof (cases "j < startIndex r")
        case True
        then have "req_final (getState cf (cfgtor r) j)" using rep by (simp add: reported_def)
        then show ?thesis using t unfolding timed_def by metis
      qed (use first None that in simp)
      have "ended (getState cf (cfgtor r) j)" if "j < startIndex r1" for j
        using fin [OF that] t unfolding timed_def ended_def by metis
      then have "getState cf (cfgtor r) (startIndex r1) \<noteq> ReqNotReady" using ready no(2) unfolding first_ready_def by blast
      then have "getState cf (cfgtor r1) (startIndex r1) \<noteq> ReqNotReady" using t unfolding timed_def by metis
      then have go: "(let s = getState cf (cfgtor q) (endIndex q) in s = ReqReadyToSend \<or> hasDeadline s \<or> s = ReqMayResend)"
        using un q no by (cases "getState cf (cfgtor r1) (startIndex r1)") (simp_all add: req_final_def hasDeadline_def)
      obtain k where "?cnt - endIndex q = Suc k" using no by (metis Suc_diff_Suc)
      then have "r2 = expand_end cf k (q\<lparr> endIndex := endIndex q + 1 \<rparr>)" using r2 go by (simp add: Let_def)
      then show False using expand_grows [of "q\<lparr> endIndex := endIndex q + 1 \<rparr>" k] no by simp
    qed
    then show ?thesis using r2(1) grow q first None by (simp add: fine_def)
  qed
qed

lemma sends:
  assumes "I (cfgtor r)" "send_request cf client again i r = (h, r')"
  shows "fine h \<and> I (cfgtor r') \<and> advanceCount r \<le> advanceCount r' \<and> startIndex r' = startIndex r \<and> endIndex r' = endIndex r"
proof -
  define speed where "speed = getSpeedChangeAfter cf (cfgtor r) i"
  define r1 where "r1 = (if speed \<noteq> 0 then r\<lparr> speedChangeRequests := List.insert i (speedChangeRequests r) \<rparr> else r)"
  have "yield_action cf client (ActSendRequest i (getPacket cf (cfgtor r1) i) speed) again r1 = (h, r')"
    using assms(2) by (simp add: send_request_def Let_def r1_def speed_def)
  from yields [OF _ this] assms(1) show ?thesis by (auto simp: r1_def)
qed

lemma resends:
  assumes "I (cfgtor r)" "may_resend cf client i r = (h, r')"
  shows "fine h \<and> I (cfgtor r') \<and> advanceCount r \<le> advanceCount r' \<and> startIndex r' = startIndex r \<and> endIndex r' = endIndex r"
proof (cases "getSpeedChangeAfter cf (cfgtor r) i = 0")
  case True
  define r1 where "r1 = ensureRetriesSize (i + 1) r"
  define r2 where "r2 = r1\<lparr> retries := (retries r1)[i := retries r1 ! i + 1] \<rparr>"
  have r2: "cfgtor r2 = cfgtor r" "advanceCount r2 = advanceCount r" "startIndex r2 = startIndex r" "endIndex r2 = endIndex r"
    by (simp_all add: r2_def r1_def ensureRetriesSize_def)
  have eq: "may_resend cf client i r = (if maxRetries r2 \<le> retries r2 ! i
      then (None, r2\<lparr> cfgtor := setWontResend cf i (cfgtor r2) \<rparr>) else send_request cf client True i r2)"
    using True by (simp add: may_resend_def Let_def r1_def r2_def)
  show ?thesis
  proof (cases "maxRetries r2 \<le> retries r2 ! i")
    case True
    then show ?thesis using assms eq r2 wont_I by (auto simp: fine_def)
  next
    case False
    then have "send_request cf client True i r2 = (h, r')" using assms(2) eq by simp
    from sends [OF _ this] assms(1) r2 show ?thesis by simp
  qed
next
  case False
  then show ?thesis using assms wont_I by (auto simp: may_resend_def fine_def)
qed

lemma windows:
  "I (cfgtor r) \<Longrightarrow> window_from cf client k i e r = (h, e', r') \<Longrightarrow>
   fine h \<and> I (cfgtor r') \<and> advanceCount r \<le> advanceCount r' \<and> startIndex r' = startIndex r \<and> endIndex r' = endIndex r"
proof (induction k arbitrary: i e r)
  case (Suc k)
  show ?case
  proof (cases "hasDeadline (getState cf (cfgtor r) i)")
    case True
    then show ?thesis using Suc.IH [OF Suc.prems(1)] Suc.prems(2) by (simp add: Let_def)
  next
    case False
    obtain h1 r1 where x: "(case getState cf (cfgtor r) i of ReqMayResend \<Rightarrow> may_resend cf client i r
      | ReqReadyToSend \<Rightarrow> send_request cf client False i r | _ \<Rightarrow> (None, r)) = (h1, r1)" by fastforce
    then have r1: "fine h1 \<and> I (cfgtor r1) \<and> advanceCount r \<le> advanceCount r1 \<and> startIndex r1 = startIndex r \<and> endIndex r1 = endIndex r"
      using sends [OF Suc.prems(1)] resends [OF Suc.prems(1)] Suc.prems(1)
      by (cases "getState cf (cfgtor r) i") (auto simp: fine_def)
    show ?thesis
    proof (cases h1)
      case None
      then have "window_from cf client k (i + 1) e r1 = (h, e', r')" using Suc.prems(2) False x by simp
      from Suc.IH [OF _ this] show ?thesis using r1 by force
    next
      case (Some y)
      then show ?thesis using Suc.prems(2) False x r1 by auto
    qed
  qed
qed (simp add: fine_def)

lemma rounds:
  assumes I: "I (cfgtor r)" and rep: "reported cf r" and lw: "lastWait < advanceCount r"
    and round: "actions_round cf client lastWait r = (h, lw', r')"
  shows "fine h \<and> (h = None \<longrightarrow> I (cfgtor r') \<and> reported cf r' \<and> lw' < advanceCount r')"
proof -
  obtain er c where g: "generateRequests cf (cfgtor r) = (er, c)" by fastforce
  have Ic: "I c" using gen_I [OF I] g by simp
  have "settled cf (cfgtor r) c" using ok(1) g unfolding configurator_ok_def by (metis snd_conv)
  then have c: "reported cf (r\<lparr> cfgtor := c \<rparr>)" by (rule reported_cfgtor [OF rep])
  have rep': "reported cf r'" if "h = None" by (rule reported_round(1) [OF ok rep round that])
  show ?thesis
  proof (cases er)
    case (Some err)
    obtain h1 r1 where y: "yield_action cf client (ActError err) False (r\<lparr> cfgtor := c, errorCount := errorCount r + 1 \<rparr>) = (h1, r1)"
      by fastforce
    have "fine h1" using yields [OF _ y] Ic by simp
    then show ?thesis using round g Some y by (cases h1) (auto simp: actions_round_def fine_def)
  next
    case None
    have ready: "first_ready cf c" using gen_ready [OF I] g None by simp
    obtain cnt complete where cnt: "getRequestCount cf c = (cnt, complete)" by fastforce
    obtain h2 r2 where u: "updateWindow cf client cnt (r\<lparr> cfgtor := c \<rparr>) = (h2, r2)" by fastforce
    have win: "fine h2 \<and> (h2 = None \<longrightarrow> I (cfgtor r2) \<and> advanceCount r \<le> advanceCount r2 \<and>
        (startIndex r2 < endIndex r2 \<or> cnt \<le> startIndex r2))"
      using window_nonempty [of "r\<lparr> cfgtor := c \<rparr>" h2 r2] Ic c ready u cnt by simp
    show ?thesis
    proof (cases "complete \<and> cnt \<le> startIndex r")
      case True
      then show ?thesis using round g None cnt by (auto simp: actions_round_def fine_def)
    next
      case False
      show ?thesis
      proof (cases h2)
        case (Some x)
        then show ?thesis using round g None cnt u False win by (auto simp: actions_round_def)
      next
        case h2: None
        obtain h3 e r3 where w: "window_from cf client (min (endIndex r2) cnt - startIndex r2) (startIndex r2) zeroTime r2 = (h3, e, r3)"
          by (metis prod_cases3)
        note win3 = windows [OF _ w]
        show ?thesis
        proof (cases h3)
          case (Some x)
          then show ?thesis using round g None cnt u False win win3 h2 w by (auto simp: actions_round_def)
        next
          case h3: None
          have ws: "wait_step cf client cnt lastWait e r3 = (h, lw', r')"
            using round g None cnt u False h2 h3 w by (simp add: actions_round_def)
          have r3: "I (cfgtor r3)" "lastWait < advanceCount r3" "startIndex r3 < endIndex r3 \<or> cnt \<le> startIndex r3"
            using win win3 h2 lw by auto
          show ?thesis
          proof (cases "e = zeroTime")
            case True
            then show ?thesis using ws r3 rep' by (auto simp: wait_step_def fine_def split: if_splits)
          next
            case False
            obtain h4 r4 where y: "yield_action cf client (ActWaitUntil e) False r3 = (h4, r4)" by fastforce
            show ?thesis using ws r3 rep' False y yields [OF r3(1) y] by (auto simp: wait_step_def)
          qed
        qed
      qed
    qed
  qed
qed

lemma runs:
  "I (cfgtor r) \<Longrightarrow> reported cf r \<Longrightarrow> lastWait < advanceCount r \<Longrightarrow> fine (fst (actions_from cf client fuel lastWait r))"
proof (induction fuel arbitrary: lastWait r)
  case (Suc fuel)
  obtain h lw r1 where round: "actions_round cf client lastWait r = (h, lw, r1)" by (metis prod_cases3)
  show ?case using rounds [OF Suc.prems round] Suc.IH [of r1 lw] round by (cases h) auto
qed (simp add: fine_def)

lemma never_stuck:
  assumes "I c"
  shows "fst (director_actions cf client fuel (newConfigDirector c m)) \<notin> {Some Panicked, Some Stuck}"
  using runs [OF _ reported_new, of c m "-1" fuel] assms by (simp add: director_actions_def newConfigDirector_def fine_def)

end

end
