(* ===== verification/UncConfig.thy ===== *)
theory UncConfig
  imports ConfigReq ConfigFlags DirectorLive
begin

text \<open>
  The Configurator of the Unicore back end (\<^verbatim>\<open>gps/internal/unc/config.go\<close>): its phases, the generation of requests,
  and the responses of the receiver. It keeps the contract that the director relies on. The native properties
  (\<^verbatim>\<open>cfgprops.go\<close>) are of type \<open>'n\<close>, a property among them is named by \<open>'p\<close>, and what is asked of them is the
  record \<open>unc_props\<close>.
\<close>

section \<open>The configurator\<close>

record ('p, 'n) unc_props =
  up_targetCommands :: "'n \<Rightarrow> ConfigTarget \<Rightarrow> (string \<times> 'p option) list"
  up_portName :: "'n \<Rightarrow> string"
  up_speeds :: "'n \<Rightarrow> nat \<Rightarrow> 32 word"
  up_com :: 'p
  up_decimal :: "32 word \<Rightarrow> string"
  up_fromCommand :: "'p \<Rightarrow> string \<Rightarrow> 'n \<Rightarrow> 'n option"
  up_fromQueryResponse :: "string \<Rightarrow> string \<Rightarrow> 'n \<Rightarrow> string option \<times> 'n"

datatype configPhase = PhaseInit | PhaseQuery | PhaseConfig | PhaseSpeed | PhaseFinal

text \<open>\<open>uc_speedReq\<close> is the index among the requests of the one that the source has a second pointer to.\<close>

record ('p, 'n) unc_cfg =
  uc_phase :: configPhase
  uc_nativeProps :: 'n
  uc_reqs :: "'p uncReq list"
  uc_speedReq :: "nat option"
  uc_target :: ConfigTarget
  uc_complete :: bool
  uc_nFinished :: nat

definition unc_configure :: "ConfigTarget \<Rightarrow> 'n \<Rightarrow> ('p, 'n) unc_cfg" where
  "unc_configure tgt native =
     \<lparr> uc_phase = PhaseInit, uc_nativeProps = native, uc_reqs = [], uc_speedReq = None, uc_target = tgt,
       uc_complete = False, uc_nFinished = 0 \<rparr>"

definition unc_req :: "uncReqState \<Rightarrow> string \<Rightarrow> 'p option \<Rightarrow> int \<Rightarrow> 'p uncReq" where
  "unc_req s cmd p speed = \<lparr> nq_state = s, nq_cmd = cmd, nq_prop = p, nq_speed = speed, nq_tBase = zeroTime, nq_err = None \<rparr>"

definition portQueryOnly :: "ConfigTarget \<Rightarrow> bool" where
  "portQueryOnly tgt \<longleftrightarrow> ctg_Get tgt \<noteq> 0 \<and> ctg_Get tgt AND NOT (PropIDPort OR PropIDBaudRate) = 0 \<and>
     cp_isEmpty (ctg_Props tgt) \<and> options_noOp (ctg_Opts tgt)"

definition generateQueryCommands :: "ConfigTarget \<Rightarrow> string list" where
  "generateQueryCommands tgt =
     (if portQueryOnly tgt then [''CONFIG'', ''LOGLIST'']
      else [''CONFIG'', ''MASK'', ''MODE''] @
        (if usesAny [PropIDPort OR PropIDBaudRate] tgt then [''LOGLIST''] else []))"

definition generateQueryReqs :: "('p, 'n) unc_cfg \<Rightarrow> ('p, 'n) unc_cfg" where
  "generateQueryReqs c =
     c\<lparr> uc_reqs := uc_reqs c @ map (\<lambda>cmd. unc_req UncReadyToSendQuery cmd None 0) (generateQueryCommands (uc_target c)) \<rparr>"

definition generateConfigReqs :: "('p, 'n) unc_props \<Rightarrow> ('p, 'n) unc_cfg \<Rightarrow> ('p, 'n) unc_cfg" where
  "generateConfigReqs up c =
     c\<lparr> uc_reqs := uc_reqs c @ map (\<lambda>(cmd, p). unc_req UncReadyToSendCommand cmd p 0)
                                  (up_targetCommands up (uc_nativeProps c) (uc_target c)) \<rparr>"

definition comIndex :: "string \<Rightarrow> nat option" where
  "comIndex port =
     (if port = ''COM1'' then Some 0 else if port = ''COM2'' then Some 1 else if port = ''COM3'' then Some 2 else None)"

definition generateSpeedReq :: "('p, 'n) unc_props \<Rightarrow> ('p, 'n) unc_cfg \<Rightarrow> bool \<times> ('p, 'n) unc_cfg" where
  "generateSpeedReq up c =
     (let port = up_portName up (uc_nativeProps c)
      in case comIndex port of
           None \<Rightarrow> (False, c)
         | Some i \<Rightarrow>
             (let (speed, ok) = getBaudRate (ctg_Props (uc_target c))
              in if \<not> ok \<or> speed = 0 \<or> speed = up_speeds up (uc_nativeProps c) i then (False, c)
                 else (True, c\<lparr> uc_speedReq := Some (length (uc_reqs c)),
                               uc_reqs := uc_reqs c @ [unc_req UncReadyToSendCommand
                                 (''CONFIG '' @ port @ '' '' @ up_decimal up speed) (Some (up_com up)) (uint speed)] \<rparr>)))"

text \<open>The first request from \<open>nFinished\<close> on that is not in a final state.\<close>

definition first_unfinished :: "('p, 'n) unc_cfg \<Rightarrow> nat option" where
  "first_unfinished c = List.find (\<lambda>i. \<not> unc_isFinal (nq_state (uc_reqs c ! i))) [uc_nFinished c..<length (uc_reqs c)]"

text \<open>Whether a request from \<open>nFinished\<close> on has failed.\<close>

definition any_failed :: "('p, 'n) unc_cfg \<Rightarrow> bool" where
  "any_failed c = list_ex (\<lambda>i. nq_state (uc_reqs c ! i) = UncFailed) [uc_nFinished c..<length (uc_reqs c)]"

definition unc_finish :: "('p, 'n) unc_cfg \<Rightarrow> ('p, 'n) unc_cfg" where
  "unc_finish c = c\<lparr> uc_complete := True, uc_phase := PhaseFinal \<rparr>"

definition generate_speed_phase :: "('p, 'n) unc_cfg \<Rightarrow> ('p, 'n) unc_cfg" where
  "generate_speed_phase c =
     (case uc_speedReq c of
        None \<Rightarrow> c
      | Some i \<Rightarrow>
          (let q = uc_reqs c ! i
           in if nq_state q = UncReadyToSendCommand \<or> nq_state q = UncAwaitingAckBeforeRepeat then c
              else if nq_state q = UncAwaitingAck
              then unc_finish (c\<lparr> uc_reqs := uc_reqs c @ [unc_req UncReadyToSendRepeat (nq_cmd q) None 0] \<rparr>)
              else unc_finish c))"

definition unc_generateRequests :: "('p, 'n) unc_props \<Rightarrow> ('p, 'n) unc_cfg \<Rightarrow> ('p, 'n) unc_cfg" where
  "unc_generateRequests up c =
     (case uc_phase c of
        PhaseInit \<Rightarrow> (generateQueryReqs c)\<lparr> uc_phase := PhaseQuery \<rparr>
      | PhaseQuery \<Rightarrow>
          (case first_unfinished c of
             Some i \<Rightarrow> c\<lparr> uc_nFinished := i \<rparr>
           | None \<Rightarrow>
               (let c1 = c\<lparr> uc_nFinished := length (uc_reqs c) \<rparr>
                in if any_failed c then unc_finish c1
                   else (generateConfigReqs up c1)\<lparr> uc_phase := PhaseConfig \<rparr>))
      | PhaseConfig \<Rightarrow>
          (case first_unfinished c of
             Some i \<Rightarrow> c\<lparr> uc_nFinished := i \<rparr>
           | None \<Rightarrow>
               (case generateSpeedReq up (c\<lparr> uc_nFinished := length (uc_reqs c) \<rparr>) of
                  (True, c1) \<Rightarrow> c1\<lparr> uc_phase := PhaseSpeed \<rparr>
                | (False, c1) \<Rightarrow> unc_finish c1))
      | PhaseSpeed \<Rightarrow> generate_speed_phase c
      | PhaseFinal \<Rightarrow> c)"

section \<open>The responses\<close>

text \<open>\<^verbatim>\<open>^response(?:: OK|[: ](.+))$\<close>: the error in a response, empty if there is none.\<close>

definition response_error :: "string \<Rightarrow> string option" where
  "response_error response =
     (if take 8 response \<noteq> ''response'' then None
      else let rest = drop 8 response
           in if rest = '': OK'' then Some []
              else case rest of
                     [] \<Rightarrow> None
                   | x # text \<Rightarrow>
                       (if (x = CHR '':'' \<or> x = CHR '' '') \<and> text \<noteq> [] \<and> CHR 10 \<notin> set text then Some text else None))"

text \<open>The outcome is the error returned, if any, and the configurator; \<open>None\<close> is a panic.\<close>

primrec ack_from :: "('p, 'n) unc_props \<Rightarrow> string \<Rightarrow> string \<Rightarrow> int \<Rightarrow> nat \<Rightarrow> nat \<Rightarrow> ('p, 'n) unc_cfg \<Rightarrow>
    (string option \<times> ('p, 'n) unc_cfg) option" where
  "ack_from up cmd responseErr tRead 0 i c = Some (Some (''no matching request for command response: '' @ cmd), c)"
| "ack_from up cmd responseErr tRead (Suc k) i c =
     (case unc_handleAck (up_fromCommand up) cmd responseErr tRead (uc_reqs c ! i) (uc_nativeProps c) of
        None \<Rightarrow> None
      | Some (True, q, n) \<Rightarrow>
          Some (None, c\<lparr> uc_reqs := (uc_reqs c)[i := q], uc_nativeProps := n,
                         uc_nFinished := (if i = uc_nFinished c \<and> unc_isFinal (nq_state q) then uc_nFinished c + 1
                                          else uc_nFinished c) \<rparr>)
      | Some (False, q, n) \<Rightarrow> ack_from up cmd responseErr tRead k (i + 1) c)"

definition commandResponse :: "('p, 'n) unc_props \<Rightarrow> string list \<Rightarrow> int \<Rightarrow> ('p, 'n) unc_cfg \<Rightarrow>
    (string option \<times> ('p, 'n) unc_cfg) option" where
  "commandResponse up fs tRead c =
     (case fs of
        [cmd, response] \<Rightarrow>
          (case response_error response of
             None \<Rightarrow> Some (Some (''invalid command response: '' @ response), c)
           | Some responseErr \<Rightarrow> ack_from up cmd responseErr tRead (length (uc_reqs c) - uc_nFinished c) (uc_nFinished c) c)
      | _ \<Rightarrow> Some (Some ''invalid command response format'', c))"

definition end_bursts :: "nat \<Rightarrow> nat \<Rightarrow> 'p uncReq list \<Rightarrow> 'p uncReq list" where
  "end_bursts a b qs = map (\<lambda>(j, q). if a \<le> j \<and> j < b \<and> nq_state q = UncMaybeComplete then q\<lparr> nq_state := UncSucceeded \<rparr> else q)
     (enumerate 0 qs)"

primrec query_from :: "string \<Rightarrow> int \<Rightarrow> nat \<Rightarrow> nat \<Rightarrow> ('p, 'n) unc_cfg \<Rightarrow> string option \<times> ('p, 'n) unc_cfg" where
  "query_from query tRead 0 i c = (Some ''no matching request for query response'', c)"
| "query_from query tRead (Suc k) i c =
     (let q = uc_reqs c ! i
      in if nq_cmd q = query \<and> nq_state q = UncAwaitingResponse \<and>
            \<not> (time_sub tRead (nq_tBase q) < 0 \<or> unc_maxResponseDelay < time_sub tRead (nq_tBase q)) then
           (None, c\<lparr> uc_reqs := (end_bursts (uc_nFinished c) i (uc_reqs c))
                       [i := if query = ''CONFIG'' \<or> query = ''MASK''
                             then q\<lparr> nq_state := UncMaybeComplete, nq_tBase := tRead \<rparr>
                             else q\<lparr> nq_state := UncSucceeded \<rparr>] \<rparr>)
         else if nq_cmd q = query \<and> nq_state q = UncMaybeComplete then
           (if tRead > nq_tBase q + unc_idlePeriod then (Some ''unexpected late response'', c)
            else (None, c\<lparr> uc_reqs := (uc_reqs c)[i := q\<lparr> nq_tBase := tRead \<rparr>] \<rparr>))
         else query_from query tRead k (i + 1) c)"

definition queryResponse :: "('p, 'n) unc_props \<Rightarrow> string \<Rightarrow> string \<Rightarrow> string \<Rightarrow> int \<Rightarrow> ('p, 'n) unc_cfg \<Rightarrow>
    string option \<times> ('p, 'n) unc_cfg" where
  "queryResponse up query key command tRead c =
     (case query_from query tRead (length (uc_reqs c) - uc_nFinished c) (uc_nFinished c) c of
        (Some err, c1) \<Rightarrow> (Some err, c1)
      | (None, c1) \<Rightarrow>
          (let (err, n) = up_fromQueryResponse up key command (uc_nativeProps c1) in (err, c1\<lparr> uc_nativeProps := n \<rparr>)))"

definition queryResponseKey :: "string \<Rightarrow> string" where
  "queryResponseKey key = (if takeWhile (\<lambda>x. x \<noteq> CHR '' '') key = ''MASK'' then ''MASK'' else ''CONFIG'')"

text \<open>\<^verbatim>\<open>$CONFIG\<close> sentences, NovAtel abbreviated lines (their name and fields), and the two kinds of sentence, by their fields.\<close>

definition configQueryResponse :: "('p, 'n) unc_props \<Rightarrow> string list \<Rightarrow> int \<Rightarrow> ('p, 'n) unc_cfg \<Rightarrow>
    string option \<times> ('p, 'n) unc_cfg" where
  "configQueryResponse up fs tRead c =
     (case fs of
        key # x # xs \<Rightarrow> queryResponse up (queryResponseKey key) key (x @ concat (map (\<lambda>f. CHR '','' # f) xs)) tRead c
      | _ \<Rightarrow> (Some ''invalid config query response format'', c))"

definition abbrevAsciiResponse :: "('p, 'n) unc_props \<Rightarrow> string \<Rightarrow> string list \<Rightarrow> int \<Rightarrow> ('p, 'n) unc_cfg \<Rightarrow>
    string option \<times> ('p, 'n) unc_cfg" where
  "abbrevAsciiResponse up name fs tRead c =
     (if name \<noteq> ''LOGLIST'' then (None, c)
      else case fs of [] \<Rightarrow> (None, c) | f # _ \<Rightarrow> queryResponse up ''LOGLIST'' ''LOGLIST'' f tRead c)"

definition unc_nmeaSentence :: "('p, 'n) unc_props \<Rightarrow> string list \<Rightarrow> int \<Rightarrow> ('p, 'n) unc_cfg \<Rightarrow>
    (string option \<times> ('p, 'n) unc_cfg) option" where
  "unc_nmeaSentence up fs tRead c =
     (case fs of
        [] \<Rightarrow> Some (None, c)
      | format # data \<Rightarrow>
          (if format = ''command'' then commandResponse up data tRead c
           else if format = ''CONFIG'' then Some (configQueryResponse up data tRead c)
           else Some (None, c)))"

section \<open>The contract\<close>

text \<open>A call whose precondition the state of the request does not meet panics; the director makes none.\<close>

definition unc_update :: "('p uncReq \<Rightarrow> 'p uncReq option) \<Rightarrow> nat \<Rightarrow> ('p, 'n) unc_cfg \<Rightarrow> ('p, 'n) unc_cfg" where
  "unc_update f i c =
     (if i < length (uc_reqs c)
      then case f (uc_reqs c ! i) of None \<Rightarrow> c | Some q \<Rightarrow> c\<lparr> uc_reqs := (uc_reqs c)[i := q] \<rparr>
      else c)"

definition unc_speedChanged :: "('p, 'n) unc_props \<Rightarrow> nat \<Rightarrow> int \<Rightarrow> ('p, 'n) unc_cfg \<Rightarrow> ('p, 'n) unc_cfg" where
  "unc_speedChanged up i t c =
     (if i < length (uc_reqs c)
      then case unc_maybeSpeedChangeSucceeded (up_fromCommand up) t (uc_reqs c ! i) (uc_nativeProps c) of
             None \<Rightarrow> c
           | Some (q, n) \<Rightarrow> c\<lparr> uc_reqs := (uc_reqs c)[i := q], uc_nativeProps := n \<rparr>
      else c)"

definition unc_configurator :: "('p, 'n) unc_props \<Rightarrow> ('p, 'n) unc_cfg configurator" where
  "unc_configurator up =
     \<lparr> generateRequests = (\<lambda>c. (None, unc_generateRequests up c)),
       getRequestCount = (\<lambda>c. (length (uc_reqs c), uc_complete c)),
       getState = (\<lambda>c i. unc_getState (uc_reqs c ! i)),
       getPacket = (\<lambda>c i. case unc_getPacket (uc_reqs c ! i) of None \<Rightarrow> [] | Some s \<Rightarrow> map of_char s),
       getSpeedChangeAfter = (\<lambda>c i. unc_getSpeedChangeAfter (uc_reqs c ! i)),
       getDeadline = (\<lambda>c i. case unc_getDeadline (uc_reqs c ! i) of None \<Rightarrow> zeroTime | Some t \<Rightarrow> t),
       getError = (\<lambda>c i. case nq_err (uc_reqs c ! i) of None \<Rightarrow> [] | Some e \<Rightarrow> e),
       setDeadlinePassed = unc_update unc_setDeadlinePassed,
       setWontResend = unc_update unc_setWontResend,
       maybeSpeedChangeSucceeded = unc_speedChanged up \<rparr>"

text \<open>The requests only grow, and those in a final state stay as they are.\<close>

definition reqs_settled :: "'p uncReq list \<Rightarrow> 'p uncReq list \<Rightarrow> bool" where
  "reqs_settled qs qs' \<longleftrightarrow> length qs \<le> length qs' \<and>
     (\<forall>i < length qs. unc_isFinal (nq_state (qs ! i)) \<longrightarrow> qs' ! i = qs ! i)"

lemma final_state [simp]: "req_final (unc_getState q) = unc_isFinal (nq_state q)"
  by (cases "nq_state q") (simp_all add: unc_getState_def req_final_def unc_isFinal_def)

lemma settled_reqs: "reqs_settled (uc_reqs c) (uc_reqs c') \<Longrightarrow> settled (unc_configurator up) c c'"
  by (simp add: settled_def reqs_settled_def unc_configurator_def)

lemma reqs_settled_refl [simp]: "reqs_settled qs qs"
  by (simp add: reqs_settled_def)

lemma reqs_settled_append [simp]: "reqs_settled qs (qs @ new)"
  by (simp add: reqs_settled_def nth_append)

lemma reqs_settled_set2:
  "reqs_settled qs qs' \<Longrightarrow> \<not> unc_isFinal (nq_state (qs ! i)) \<Longrightarrow> reqs_settled qs (qs'[i := q])"
  unfolding reqs_settled_def by (metis length_list_update nth_list_update_neq)

lemmas reqs_settled_set = reqs_settled_set2 [OF reqs_settled_refl]

lemma length_end_bursts [simp]: "length (end_bursts a b qs) = length qs"
  by (simp add: end_bursts_def)

lemma reqs_settled_bursts: "reqs_settled qs (end_bursts a b qs)"
  by (auto simp: reqs_settled_def end_bursts_def nth_enumerate_eq unc_isFinal_def)

lemma settled_generate: "settled (unc_configurator up) c (unc_generateRequests up c)"
proof (rule settled_reqs)
  have speed: "reqs_settled (uc_reqs c) (uc_reqs (snd (generateSpeedReq up c)))" for c :: "('a, 'b) unc_cfg"
    by (auto simp: generateSpeedReq_def Let_def split: option.split prod.split)
  show "reqs_settled (uc_reqs c) (uc_reqs (unc_generateRequests up c))"
    using speed [of "c\<lparr> uc_nFinished := length (uc_reqs c) \<rparr>"]
    by (auto simp: unc_generateRequests_def generateQueryReqs_def generateConfigReqs_def generate_speed_phase_def
        unc_finish_def Let_def split: configPhase.split option.split prod.splits bool.splits)
qed

lemma settled_update:
  assumes "\<And>q q'. f q = Some q' \<Longrightarrow> \<not> unc_isFinal (nq_state q)"
  shows "settled (unc_configurator up) c (unc_update f i c)"
  by (rule settled_reqs) (auto simp: unc_update_def split: option.split intro!: reqs_settled_set dest: assms)

lemma late_not_final: "unc_setDeadlinePassed q = Some q' \<Longrightarrow> \<not> unc_isFinal (nq_state q)"
  by (auto simp: unc_setDeadlinePassed_def unc_isFinal_def)

lemma wont_not_final: "unc_setWontResend q = Some q' \<Longrightarrow> \<not> unc_isFinal (nq_state q)"
  by (auto simp: unc_setWontResend_def unc_isFinal_def split: if_splits)

lemma sent_not_final: "unc_setSentTime t q = Some q' \<Longrightarrow> \<not> unc_isFinal (nq_state q)"
  by (auto simp: unc_setSentTime_def unc_isFinal_def)

lemma settled_speed: "settled (unc_configurator up) c (unc_speedChanged up i t c)"
proof (rule settled_reqs)
  have "q' = q \<or> \<not> unc_isFinal (nq_state q)"
    if "unc_maybeSpeedChangeSucceeded u t q n = Some (q', n')" for u and q q' :: "'a uncReq" and n n' :: 'b
    using that by (auto simp: unc_maybeSpeedChangeSucceeded_def unc_isFinal_def split: if_splits)
  then show "reqs_settled (uc_reqs c) (uc_reqs (unc_speedChanged up i t c))"
    by (fastforce simp: unc_speedChanged_def split: option.split intro: reqs_settled_set)
qed

lemma unc_configurator_ok: "configurator_ok (unc_configurator up)"
proof -
  have "settled (unc_configurator up) c (unc_update unc_setDeadlinePassed i c)" for i and c :: "('a, 'b) unc_cfg"
    by (rule settled_update) (rule late_not_final)
  moreover have "settled (unc_configurator up) c (unc_update unc_setWontResend i c)" for i and c :: "('a, 'b) unc_cfg"
    by (rule settled_update) (rule wont_not_final)
  ultimately show ?thesis using settled_generate [of up] settled_speed [of up]
    by (simp add: configurator_ok_def) (simp add: unc_configurator_def)
qed

lemma ack_not_final:
  "unc_handleAck u cmd responseErr tRead q n = Some (True, q', n') \<Longrightarrow> \<not> unc_isFinal (nq_state q)"
  by (auto simp: unc_handleAck_def unc_isFinal_def split: if_splits uncReqState.splits)

lemma settled_ack:
  assumes "ack_from up cmd responseErr tRead k i c = Some (e, c')"
  shows "settled (unc_configurator up) c c'"
  using assms
proof (induction k arbitrary: i)
  case (Suc k)
  obtain found q n where h: "unc_handleAck (up_fromCommand up) cmd responseErr tRead (uc_reqs c ! i) (uc_nativeProps c) = Some (found, q, n)"
    using Suc.prems by (auto split: option.splits)
  show ?case
  proof (cases found)
    case True
    have h': "unc_handleAck (up_fromCommand up) cmd responseErr tRead (uc_reqs c ! i) (uc_nativeProps c) = Some (True, q, n)"
      using h True by simp
    then have "\<not> unc_isFinal (nq_state (uc_reqs c ! i))" by (rule ack_not_final)
    then show ?thesis using h' Suc.prems by (auto intro!: settled_reqs reqs_settled_set)
  next
    case False
    then show ?thesis using Suc.prems Suc.IH h by simp
  qed
qed simp

lemma settled_command:
  "commandResponse up fs tRead c = Some (e, c') \<Longrightarrow> settled (unc_configurator up) c c'"
  by (auto simp: commandResponse_def split: list.splits option.splits dest: settled_ack)

lemma settled_query_from: "settled (unc_configurator up) c (snd (query_from query tRead k i c))"
proof (induction k arbitrary: i)
  case (Suc k)
  have "reqs_settled (uc_reqs c) ((end_bursts a b (uc_reqs c))[i := q])"
    if "nq_state (uc_reqs c ! i) = UncAwaitingResponse" for a b q
    by (rule reqs_settled_set2 [OF reqs_settled_bursts]) (simp add: that unc_isFinal_def)
  then show ?case using Suc.IH
    by (auto simp: Let_def unc_isFinal_def intro!: settled_reqs reqs_settled_set)
qed simp

lemma settled_query: "settled (unc_configurator up) c (snd (queryResponse up query key command tRead c))"
proof -
  obtain e c1 where q: "query_from query tRead (length (uc_reqs c) - uc_nFinished c) (uc_nFinished c) c = (e, c1)" by fastforce
  have "settled (unc_configurator up) c c1"
    using settled_query_from [of up c query tRead "length (uc_reqs c) - uc_nFinished c" "uc_nFinished c"] unfolding q by simp
  then show ?thesis by (auto simp: queryResponse_def q settled_def unc_configurator_def split: option.split prod.split)
qed

lemma settled_config_query: "settled (unc_configurator up) c (snd (configQueryResponse up fs tRead c))"
  by (simp add: configQueryResponse_def settled_query split: list.split)

lemma settled_sentence:
  assumes "unc_nmeaSentence up fs tRead c = Some (e, c')"
  shows "settled (unc_configurator up) c c'"
proof (cases fs)
  case (Cons f data)
  have "settled (unc_configurator up) c c'" if "configQueryResponse up data tRead c = (e, c')"
    using settled_config_query [of up c data tRead] that by simp
  then show ?thesis using assms Cons by (auto simp: unc_nmeaSentence_def split: if_splits intro: settled_command)
qed (use assms in \<open>simp add: unc_nmeaSentence_def\<close>)

section \<open>With the director\<close>

text \<open>
  What reaches the configurator between two actions: that a request was sent, and the responses of the receiver. A
  handler that panics ends the program; here the state stays, so that the runs of the model include those up to there.
\<close>

datatype unc_event = UncSent nat int | UncSentence "string list" int | UncAbbrevAscii string "string list" int
  | UncMode string int

definition unc_event_step :: "('p, 'n) unc_props \<Rightarrow> unc_event \<Rightarrow> ('p, 'n) unc_cfg \<Rightarrow> ('p, 'n) unc_cfg" where
  "unc_event_step up e c =
     (case e of
        UncSent i t \<Rightarrow> unc_update (unc_setSentTime t) i c
      | UncSentence fs t \<Rightarrow> (case unc_nmeaSentence up fs t c of None \<Rightarrow> c | Some (err, c') \<Rightarrow> c')
      | UncAbbrevAscii name fs t \<Rightarrow> snd (abbrevAsciiResponse up name fs t c)
      | UncMode command t \<Rightarrow> snd (queryResponse up ''MODE'' ''MODE'' command t c))"

text \<open>The program that configures a Unicore receiver: the loop of \<^verbatim>\<open>gpscfg\<close>, in which a packet brings these events.\<close>

definition unc_program :: "('p, 'n) unc_props \<Rightarrow> (('p, 'n) unc_cfg, unc_event) cfg_env \<Rightarrow> ('p, 'n) unc_cfg client" where
  "unc_program up = gpscfg_client (\<lambda>i t. unc_event_step up (UncSent i t)) (unc_event_step up)"

lemma settled_event: "settled (unc_configurator up) c (unc_event_step up e c)"
proof (cases e)
  case (UncSent i t)
  then show ?thesis using settled_update [of "unc_setSentTime t", OF sent_not_final] by (simp add: unc_event_step_def)
next
  case (UncSentence fs t)
  then show ?thesis by (auto simp: unc_event_step_def split: option.split dest: settled_sentence)
next
  case (UncAbbrevAscii name fs t)
  then show ?thesis by (simp add: unc_event_step_def abbrevAsciiResponse_def settled_query split: list.split)
next
  case (UncMode command t)
  then show ?thesis by (simp add: unc_event_step_def settled_query)
qed

lemma unc_program_ok: "client_ok (unc_configurator up) (unc_program up env)"
  unfolding unc_program_def by (rule gpscfg_ok) (rule settled_event)+

lemma filter_nth: "filter P xs = map ((!) xs) (filter (\<lambda>i. P (xs ! i)) [0..<length xs])"
  using filter_map [of P "(!) xs" "[0..<length xs]"] by (simp add: map_nth comp_def)

text \<open>C0: The Unicore configurator and the program that drives it keep the contract of the director: whatever packets arrive, with
  whatever responses in them, whether their checksums are valid, and however much time passes, when the configuration
  ends every request has succeeded or failed, and the errors that the director reported are those of the
  failed ones, in order.\<close>

theorem unc_director:
  assumes "director_actions (unc_configurator up) (unc_program up env) fuel (newConfigDirector (unc_configure tgt native) m)
    = (Some Complete, r)"
  shows "list_all (\<lambda>q. unc_isFinal (nq_state q)) (uc_reqs (cfgtor r)) \<and>
    reported_errors r =
      map (\<lambda>q. case nq_err q of None \<Rightarrow> [] | Some e \<Rightarrow> e) (filter (\<lambda>q. nq_state q = UncFailed) (uc_reqs (cfgtor r)))"
proof -
  let ?qs = "uc_reqs (cfgtor r)"
  note rep = director_ends [OF unc_configurator_ok unc_program_ok assms]
  have len: "startIndex r = length ?qs" using rep by (simp add: unc_configurator_def)
  have failed: "(unc_getState q = ReqFailed) = (nq_state q = UncFailed)" for q :: "'a uncReq"
    by (cases "nq_state q") (simp_all add: unc_getState_def)
  have "list_all (\<lambda>q. unc_isFinal (nq_state q)) ?qs"
    using rep len by (simp add: unc_configurator_def list_all_length list_all_iff)
  moreover note filter_nth [of "\<lambda>q. nq_state q = UncFailed" ?qs]
  moreover have "reported_errors r = map (\<lambda>i. case nq_err (?qs ! i) of None \<Rightarrow> [] | Some e \<Rightarrow> e)
      (filter (\<lambda>i. nq_state (?qs ! i) = UncFailed) [0..<length ?qs])"
    using rep len by (simp add: unc_configurator_def failed)
  ultimately show ?thesis by simp
qed

definition ex_target :: ConfigTarget where
  "ex_target = \<lparr> ctg_Props = newConfigProps, ctg_Get = PropIDPort, ctg_Opts = zeroOptions \<rparr>"

definition ex_props :: "(unit, unit) unc_props" where
  "ex_props =
     \<lparr> up_targetCommands = (\<lambda>n tgt. [(''CONFIG PPS ENABLE'', None)]), up_portName = (\<lambda>n. []), up_speeds = (\<lambda>n i. 0),
       up_com = (), up_decimal = (\<lambda>w. []), up_fromCommand = (\<lambda>p cmd n. Some n),
       up_fromQueryResponse = (\<lambda>key command n. (None, n)) \<rparr>"

text \<open>
  A receiver that rejects the first query with a packet and never answers the second one, which times out. Every wait but
  the first lasts until its deadline.
\<close>

definition ex_env :: "((unit, unit) unc_cfg, unc_event) cfg_env" where
  "ex_env =
     \<lparr> ev_elapsed = (\<lambda>r. case last (yielded r) of
          (ActWaitUntil t, again) \<Rightarrow> (if length (yielded r) = 2 then 1000 else t - currentTime r) | _ \<Rightarrow> 0),
       ev_sent = currentTime, ev_writeOK = (\<lambda>r. True),
       ev_wake = (\<lambda>r. if length (yielded r) = 2
          then PacketRead [UncSentence [''command'', ''CONFIG'', ''response: PARSING FAILED''] (currentTime r + 1000)] True (currentTime r + 1000) (\<lambda>is. is)
          else TimerFired) \<rparr>"

lemma ex_run:
  "(case director_actions (unc_configurator ex_props) (unc_program ex_props ex_env) 9
       (newConfigDirector (unc_configure ex_target ()) 1) of
      (h, r) \<Rightarrow> (h, map nq_state (uc_reqs (cfgtor r)), length (reported_errors r))) = (Some Complete, [UncFailed, UncFailed], 2)"
  by code_simp

theorem unc_director_witness:
  "\<exists>r. director_actions (unc_configurator ex_props) (unc_program ex_props ex_env) 9 (newConfigDirector (unc_configure ex_target ()) 1)
      = (Some Complete, r)
    \<and> length (uc_reqs (cfgtor r)) = 2 \<and> list_all (\<lambda>q. unc_isFinal (nq_state q)) (uc_reqs (cfgtor r)) \<and> length (reported_errors r) = 2"
proof -
  obtain h r where run: "director_actions (unc_configurator ex_props) (unc_program ex_props ex_env) 9
      (newConfigDirector (unc_configure ex_target ()) 1) = (h, r)" by fastforce
  have h: "h = Some Complete" "map nq_state (uc_reqs (cfgtor r)) = [UncFailed, UncFailed]" "length (reported_errors r) = 2"
    using ex_run unfolding run by simp_all
  have "length (uc_reqs (cfgtor r)) = 2" using arg_cong [OF h(2), of length] by simp
  then show ?thesis using unc_director [of ex_props ex_env 9 ex_target "()" 1 r] run h by simp
qed

section \<open>A failed query\<close>

text \<open>
  The comment says that configuration requests are generated only if no query failed. A rejected query at
  \<open>nFinished\<close> moves \<open>nFinished\<close> past itself, and \<open>any_failed\<close> looks only from there on.
\<close>

definition rejected_query :: "(unit, unit) unc_cfg" where
  "rejected_query =
     fold (unc_event_step ex_props)
       [UncSent 0 0, UncSentence [''command'', ''CONFIG'', ''response: PARSING FAILED''] 1000,
        UncSent 1 2000, UncSentence [''command'', ''LOGLIST'', ''response: OK''] 3000,
        UncAbbrevAscii ''LOGLIST'' [''COM1''] 4000]
       (unc_generateRequests ex_props (unc_configure ex_target ()))"

lemma unc_failed_query:
  "map nq_state (uc_reqs rejected_query) = [UncFailed, UncSucceeded]"
  "map (\<lambda>q. (nq_cmd q, nq_state q)) (uc_reqs (unc_generateRequests ex_props rejected_query)) =
     [(''CONFIG'', UncFailed), (''LOGLIST'', UncSucceeded), (''CONFIG PPS ENABLE'', UncReadyToSendCommand)]"
  by code_simp+

end
