(* ===== verification/CasGen.thy ===== *)
theory CasGen
  imports ConfigReq ConfigFlags CasMsgs
begin

text \<open>
  What the CASIC configurator (\<^verbatim>\<open>gps/internal/casic/cascfg*.go\<close>) knows of a receiver and the requests it
  adds. Requests are built with the messages and the serializer of \<^verbatim>\<open>casbin\<close>.
\<close>

section \<open>Messages\<close>

datatype fwFamily = FamilyV5 | FamilyV6

record cas_rate =
  rt_FixIntervalMs :: "16 word"
  rt_FixRateHz :: "8 word"
  rt_Res :: "8 word"

record cas_prt =
  pr_PortID :: "8 word"
  pr_ProtoMask :: "8 word"
  pr_Mode :: "16 word"
  pr_BaudRate :: "32 word"

record cas_tp =
  ct_Interval :: "32 word"
  ct_Width :: "32 word"
  ct_PPSOutMode :: "8 word"
  ct_Polarity :: "8 word"
  ct_TBase :: "8 word"
  ct_TSrcMode :: "8 word"
  ct_UserDelay :: "32 word"

text \<open>Of a CFG-NAVX readback the configurator keeps what it uses.\<close>

record cas_navx =
  nx_MinElev :: "8 word"
  nx_NavSystem :: "8 word"

record cas_band =
  nb_SigBandAuto :: "8 word"
  nb_Res1 :: "8 word"
  nb_Res2 :: "16 word"
  nb_SigIDMaskFix :: "32 word"
  nb_SigIDMask :: "32 word"

record cas_limit =
  nl_MinSVs :: "8 word"
  nl_MaxSVs :: "8 word"
  nl_MinCNO :: "8 word"
  nl_MinElev :: "8 word"
  nl_Res :: "32 word"

text \<open>The coordinates and accuracies of \<open>cas_tmode\<close> are IEEE bits.\<close>

record cas_tmode =
  t5_Mode :: "16 word"
  t5_Res :: "16 word"
  t5_Ecef :: "64 word \<times> 64 word \<times> 64 word"
  t5_PosVar :: "32 word"
  t5_SvinMinDur :: "32 word"
  t5_SvinVarLimit :: "32 word"

record cas_tmode2 =
  t6_TimFixMode :: "8 word"
  t6_BandMode :: "8 word"
  t6_AntDetMode :: "8 word"
  t6_TSrcMode :: "8 word"
  t6_Fixed :: "32 word \<times> 32 word \<times> 32 word"
  t6_FixedPacc :: "32 word"
  t6_SvinMinDur :: "32 word"
  t6_SvinPaccLim :: "32 word"

record cas_ver =
  mv_SwVersion :: string
  mv_HwVersion :: string

text \<open>The messages that the configurator sends and reads, and any other by its id.\<close>

datatype cas_msg =
    CfgMsgM "16 word" "16 word"
  | CfgPrtM cas_prt
  | CfgRateM cas_rate
  | CfgCfgM "16 word" "8 word"
  | CfgRstM "16 word" "8 word" "8 word"
  | CfgTPM cas_tp
  | CfgNavxM "32 word" cas_navx
  | CfgNavBandM cas_band
  | CfgNavLimitM cas_limit
  | CfgTModeM cas_tmode
  | CfgTMode2M cas_tmode2
  | MonVerM cas_ver
  | AckM "16 word" bool
  | OtherM "16 word"

definition CfgMsgID :: "16 word" where "CfgMsgID = msgID cas_clsCfg 0x01"
definition CfgPrtID :: "16 word" where "CfgPrtID = msgID cas_clsCfg 0x00"
definition CfgRstID :: "16 word" where "CfgRstID = msgID cas_clsCfg 0x02"
definition CfgTPID :: "16 word" where "CfgTPID = msgID cas_clsCfg 0x03"
definition CfgRateID :: "16 word" where "CfgRateID = msgID cas_clsCfg 0x04"
definition CfgCfgID :: "16 word" where "CfgCfgID = msgID cas_clsCfg 0x05"
definition CfgTModeID :: "16 word" where "CfgTModeID = msgID cas_clsCfg 0x06"
definition CfgNavxID :: "16 word" where "CfgNavxID = msgID cas_clsCfg 0x07"
definition CfgNavLimID :: "16 word" where "CfgNavLimID = msgID cas_clsCfg 0x0A"
definition CfgNavBandID :: "16 word" where "CfgNavBandID = msgID cas_clsCfg 0x0F"
definition CfgTMode2ID :: "16 word" where "CfgTMode2ID = msgID cas_clsCfg 0x16"
definition MonVerID :: "16 word" where "MonVerID = msgID 0x0A 0x04"

definition cas_msgID :: "cas_msg \<Rightarrow> 16 word" where
  "cas_msgID m =
     (case m of
        CfgMsgM _ _ \<Rightarrow> CfgMsgID | CfgPrtM _ \<Rightarrow> CfgPrtID | CfgRateM _ \<Rightarrow> CfgRateID | CfgCfgM _ _ \<Rightarrow> CfgCfgID
      | CfgRstM _ _ _ \<Rightarrow> CfgRstID | CfgTPM _ \<Rightarrow> CfgTPID | CfgNavxM _ _ \<Rightarrow> CfgNavxID | CfgNavBandM _ \<Rightarrow> CfgNavBandID
      | CfgNavLimitM _ \<Rightarrow> CfgNavLimID | CfgTModeM _ \<Rightarrow> CfgTModeID | CfgTMode2M _ \<Rightarrow> CfgTMode2ID | MonVerM _ \<Rightarrow> MonVerID
      | AckM _ ok \<Rightarrow> msgID 0x05 (if ok then 0x01 else 0x00) | OtherM mid \<Rightarrow> mid)"

definition cas_isCfg :: "16 word \<Rightarrow> bool" where "cas_isCfg mid = cfgClass cas_clsCfg mid"

abbreviation uwords :: "int list \<Rightarrow> wval" where "uwords xs \<equiv> VSeq (map VInt xs)"

text \<open>A message as \<^verbatim>\<open>casbin\<close> serializes it; of the others none is sent.\<close>

definition cas_bin :: "cas_msg \<Rightarrow> bin_msg" where
  "cas_bin m =
     (case m of
        CfgMsgM target rate \<Rightarrow> KnownMsg cas_CfgMsg_msg (uwords [uint target, uint rate]) None
      | CfgPrtM p \<Rightarrow> KnownMsg cas_CfgPrt_msg (uwords [uint (pr_PortID p), uint (pr_ProtoMask p), uint (pr_Mode p), uint (pr_BaudRate p)]) None
      | CfgRateM r \<Rightarrow> KnownMsg cas_CfgRate_msg (uwords [uint (rt_FixIntervalMs r), uint (rt_FixRateHz r), uint (rt_Res r)]) None
      | CfgCfgM mask' op \<Rightarrow> KnownMsg cas_CfgCfg_msg (uwords [uint mask', uint op, 0]) None
      | CfgRstM bbr resetMode startMode \<Rightarrow> KnownMsg cas_CfgRst_msg (uwords [uint bbr, uint resetMode, uint startMode]) None
      | CfgTPM p \<Rightarrow> KnownMsg cas_CfgTP_msg (uwords [uint (ct_Interval p), uint (ct_Width p), uint (ct_PPSOutMode p),
          uint (ct_Polarity p), uint (ct_TBase p), uint (ct_TSrcMode p), uint (ct_UserDelay p)]) None
      | CfgNavxM msk n \<Rightarrow> KnownMsg cas_CfgNavx_msg (uwords [uint msk, 0, 0, 0, 0, 0, 0, 0, sint (nx_MinElev n), 0,
          uint (nx_NavSystem n), 0, 0, 0, 0, 0, 0, 0, 0]) None
      | CfgNavBandM b \<Rightarrow> KnownMsg cas_CfgNavBand_msg (uwords [uint (nb_SigBandAuto b), uint (nb_Res1 b), uint (nb_Res2 b),
          uint (nb_SigIDMaskFix b), uint (nb_SigIDMask b)]) None
      | CfgNavLimitM l \<Rightarrow> KnownMsg cas_CfgNavLimit_msg (uwords [uint (nl_MinSVs l), uint (nl_MaxSVs l), uint (nl_MinCNO l),
          sint (nl_MinElev l), uint (nl_Res l)]) None
      | CfgTModeM t \<Rightarrow> (case t5_Ecef t of (x, y, z) \<Rightarrow> KnownMsg cas_CfgTMode_msg (uwords [uint (t5_Mode t), uint (t5_Res t),
          uint x, uint y, uint z, uint (t5_PosVar t), uint (t5_SvinMinDur t), uint (t5_SvinVarLimit t)]) None)
      | CfgTMode2M t \<Rightarrow> (case t6_Fixed t of (x, y, z) \<Rightarrow> KnownMsg cas_CfgTMode2_msg (uwords [uint (t6_TimFixMode t),
          uint (t6_BandMode t), uint (t6_AntDetMode t), uint (t6_TSrcMode t), sint x, sint y, sint z, uint (t6_FixedPacc t),
          uint (t6_SvinMinDur t), uint (t6_SvinPaccLim t)]) None)
      | _ \<Rightarrow> UnknownMsg (cas_msgID m) [])"

text \<open>\<open>None\<close> is the panic of \<^verbatim>\<open>serialize\<close>.\<close>

definition cas_serialize :: "cas_msg \<Rightarrow> bytes option" where
  "cas_serialize m = (case casic_serialize (cas_bin m) of Some (Inr pkt) \<Rightarrow> Some pkt | _ \<Rightarrow> None)"

section \<open>The configurator\<close>

text \<open>What has been read back from the receiver or recorded on acknowledgements.\<close>

record cas_read =
  cr_rate :: "cas_rate option"
  cr_ver :: "cas_ver option"
  cr_family :: fwFamily
  cr_touched :: "16 word"
  cr_msgEnabled :: bool
  cr_survey :: bool
  cr_tp :: "cas_tp option"
  cr_tm5 :: "cas_tmode option"
  cr_tm6 :: "cas_tmode2 option"
  cr_navx :: "cas_navx option"
  cr_navBand :: "cas_band option"
  cr_ports :: "cas_prt list"
  cr_familyPolls :: int
  cr_navLimit :: "cas_limit option"
  cr_pcasSW :: string
  cr_pcasHW :: string

type_synonym cas_req = "(cas_msg, cas_read) casReq"

text \<open>
  The requests that the source has second pointers to are known by their indices. \<open>cc_panic\<close> says that
  \<^verbatim>\<open>serialize\<close> has panicked in the generator that is running; the phase that called it does not return.
\<close>

record cas_cfg =
  cc_target :: ConfigTarget
  cc_read :: cas_read
  cc_reqs :: "cas_req list"
  cc_phase :: nat
  cc_speedReq :: "nat option"
  cc_saveReq :: "nat option"
  cc_verReq :: "nat option"
  cc_panic :: bool

definition zero_req :: cas_req where
  "zero_req = \<lparr> cq_state = CasNotReady, cq_mid = 0, cq_packet = [], cq_tBase = zeroTime, cq_err = None, cq_nakOK = False,
     cq_onAck = None, cq_noAck = False, cq_onData = None, cq_onText = None, cq_optional = False, cq_verPoll = False, cq_speedAfter = 0 \<rparr>"

definition familyOf :: "cas_rate \<Rightarrow> fwFamily" where
  "familyOf r = (if rt_FixRateHz r \<noteq> 0 then FamilyV6 else FamilyV5)"

definition zero_read :: cas_read where
  "zero_read = \<lparr> cr_rate = None, cr_ver = None, cr_family = FamilyV5, cr_touched = 0, cr_msgEnabled = False, cr_survey = False,
     cr_tp = None, cr_tm5 = None, cr_tm6 = None, cr_navx = None, cr_navBand = None, cr_ports = [], cr_familyPolls = 0,
     cr_navLimit = None, cr_pcasSW = [], cr_pcasHW = [] \<rparr>"

definition newConfigurator :: "ConfigTarget \<Rightarrow> cas_rate option \<Rightarrow> cas_cfg" where
  "newConfigurator tgt rate =
     \<lparr> cc_target = tgt,
       cc_read = (case rate of None \<Rightarrow> zero_read | Some r \<Rightarrow> zero_read\<lparr> cr_rate := Some r, cr_family := familyOf r \<rparr>),
       cc_reqs = [], cc_phase = 0, cc_speedReq = None, cc_saveReq = None, cc_verReq = None, cc_panic = False \<rparr>"

definition cas_v6 :: "cas_cfg \<Rightarrow> bool" where "cas_v6 c \<longleftrightarrow> cr_family (cc_read c) = FamilyV6"

section \<open>Adding requests\<close>

definition cas_add :: "cas_req \<Rightarrow> cas_cfg \<Rightarrow> cas_cfg" where
  "cas_add q c = c\<lparr> cc_reqs := cc_reqs c @ [q\<lparr> cq_state := CasNotReady \<rparr>] \<rparr>"

definition CfgMsgRatePoll :: "16 word" where "CfgMsgRatePoll = 0xFFFF"

definition SectionPort :: "16 word" where "SectionPort = push_bit 0 1"
definition SectionMsg :: "16 word" where "SectionMsg = push_bit 1 1"
definition SectionNav :: "16 word" where "SectionNav = push_bit 3 1"
definition SectionTP :: "16 word" where "SectionTP = push_bit 4 1"
definition SectionAll :: "16 word" where "SectionAll = 0xFFFF"

definition setSection :: "cas_msg \<Rightarrow> 16 word" where
  "setSection m =
     (case m of CfgMsgM _ rate \<Rightarrow> if rate = CfgMsgRatePoll then 0 else SectionMsg
      | _ \<Rightarrow>
         (let mid = cas_msgID m
          in if mid = CfgMsgID then SectionMsg
             else if mid = CfgPrtID then SectionPort
             else if mid = CfgTPID then SectionTP
             else if mid \<in> {CfgRateID, CfgTModeID, CfgNavxID, CfgTMode2ID, CfgNavBandID, CfgNavLimID} then SectionNav
             else 0))"

definition msgEnablesOutput :: "cas_msg \<Rightarrow> bool" where
  "msgEnablesOutput m = (case m of CfgMsgM _ rate \<Rightarrow> rate \<noteq> 0 \<and> rate \<noteq> CfgMsgRatePoll | _ \<Rightarrow> False)"

definition record_set :: "16 word \<Rightarrow> bool \<Rightarrow> (cas_read \<Rightarrow> cas_read) option \<Rightarrow> cas_read \<Rightarrow> cas_read" where
  "record_set sct enables prev r =
     (let r1 = r\<lparr> cr_touched := cr_touched r OR sct \<rparr>;
          r2 = (if enables then r1\<lparr> cr_msgEnabled := True \<rparr> else r1)
      in case prev of None \<Rightarrow> r2 | Some f \<Rightarrow> f r2)"

definition addMsg :: "cas_msg \<Rightarrow> cas_req \<Rightarrow> cas_cfg \<Rightarrow> cas_cfg" where
  "addMsg m q c =
     (let sct = setSection m; enables = msgEnablesOutput m;
          q1 = (if sct \<noteq> 0 \<or> enables then q\<lparr> cq_onAck := Some (record_set sct enables (cq_onAck q)) \<rparr> else q)
      in case cas_serialize m of
           None \<Rightarrow> c\<lparr> cc_panic := True \<rparr>
         | Some p \<Rightarrow> cas_add (q1\<lparr> cq_mid := cas_msgID m, cq_packet := p \<rparr>) c)"

definition addReq :: "cas_msg \<Rightarrow> cas_cfg \<Rightarrow> cas_cfg" where "addReq m c = addMsg m zero_req c"

definition addReqNakOK :: "cas_msg \<Rightarrow> cas_cfg \<Rightarrow> cas_cfg" where
  "addReqNakOK m c = addMsg m (zero_req\<lparr> cq_nakOK := True \<rparr>) c"

definition addSetReq :: "cas_msg \<Rightarrow> (cas_read \<Rightarrow> cas_read) \<Rightarrow> cas_cfg \<Rightarrow> cas_cfg" where
  "addSetReq m onAck c = addMsg m (zero_req\<lparr> cq_onAck := Some onAck \<rparr>) c"

text \<open>Every message serializes, whatever its fields: the payload is at most 76 bytes.\<close>

lemma cas_serialize_total: "\<exists>p. cas_serialize m = Some p"
proof -
  have "\<exists>payload. msg_payload (cas_bin m) = Some payload \<and> length payload \<le> 0xFFFF"
    by (cases m) (simp_all add: cas_bin_def msg_payload_def cas_msg_defs cas_layout_defs prim_put_def split: prod.split)
  then obtain payload where "msg_payload (cas_bin m) = Some payload" "length payload \<le> 0xFFFF" by blast
  moreover from this(2) obtain p where "casic_packMsg (msg_id_of (cas_bin m)) payload = Inr p" using casic_packMsg_total by blast
  ultimately show ?thesis by (simp add: cas_serialize_def casic_serialize_def)
qed

lemma addMsg_adds:
  obtains p q1 where "addMsg m q c = cas_add (q1\<lparr> cq_mid := cas_msgID m, cq_packet := p \<rparr>) c"
    "q1 = q \<or> q1 = q\<lparr> cq_onAck := Some (record_set (setSection m) (msgEnablesOutput m) (cq_onAck q)) \<rparr>"
  using cas_serialize_total [of m] that by (auto simp: addMsg_def Let_def split: if_splits)

text \<open>Numbers as integers rather than naturals, for evaluation.\<close>

lemma prim_put_step [code]: "prim_put k 0 x = []" "prim_put k (Suc n) x = word_of_int (x mod 256) # prim_put k n (x div 256)"
proof -
  have "x mod 256 ^ Suc n = 256 * ((x div 256) mod 256 ^ n) + x mod 256"
    by (simp add: zmod_zmult2_eq)
  then have e: "nat (x mod 256 ^ Suc n) = 256 * nat ((x div 256) mod 256 ^ n) + nat (x mod 256)"
    by (simp add: nat_add_distrib nat_mult_distrib)
  have w: "word_of_nat (nat (x mod 256)) = (word_of_int (x mod 256) :: byte)" by simp
  show "prim_put k (Suc n) x = word_of_int (x mod 256) # prim_put k n (x div 256)"
    unfolding prim_put_def e le_put.simps using w by simp
qed (simp add: prim_put_def)

lemma casic_packMsg_int [code]:
  "casic_packMsg mid payload =
     (if 0xFFFF < int (length payload) then Inl PayloadTooLong
      else let (cls, i) = unpackMsgID mid;
               packet = [0xBA, 0xCE, byte_at 0 (length payload), byte_at 1 (length payload), cls, i] @ payload;
               ck = casic_checksum packet
           in Inr (packet @ le_bytes32 ck))"
proof -
  have "(0xFFFF < int (length payload)) = (0xFFFF < length payload)" by linarith
  then show ?thesis by (simp add: casic_packMsg_def)
qed

definition poll_packet :: "16 word \<Rightarrow> bytes" where
  "poll_packet mid = (case casic_packMsg mid [] of Inr p \<Rightarrow> p | Inl _ \<Rightarrow> [])"

definition addPollReq :: "16 word \<Rightarrow> (cas_msg, cas_read) cas_data \<Rightarrow> cas_cfg \<Rightarrow> cas_cfg" where
  "addPollReq mid onData c =
     cas_add (zero_req\<lparr> cq_mid := mid, cq_packet := poll_packet mid, cq_nakOK := True, cq_onData := Some onData \<rparr>) c"

definition addFailedReq :: "string \<Rightarrow> cas_cfg \<Rightarrow> cas_cfg" where
  "addFailedReq err c = c\<lparr> cc_reqs := cc_reqs c @ [zero_req\<lparr> cq_state := CasFailed, cq_err := Some err \<rparr>] \<rparr>"

definition touchNoOp :: "16 word \<Rightarrow> cas_cfg \<Rightarrow> cas_cfg" where
  "touchNoOp sct c = c\<lparr> cc_read := (cc_read c)\<lparr> cr_touched := cr_touched (cc_read c) OR sct \<rparr> \<rparr>"

definition addTextReq :: "bytes \<Rightarrow> (string \<Rightarrow> cas_read \<Rightarrow> bool \<times> cas_read) \<Rightarrow> cas_cfg \<Rightarrow> cas_cfg" where
  "addTextReq sentence onText c =
     cas_add (zero_req\<lparr> cq_packet := sentence, cq_onText := Some onText, cq_optional := True \<rparr>) c"

text \<open>A callback that stores what a poll of one kind delivers.\<close>

definition read_data :: "(cas_msg \<Rightarrow> cas_read \<Rightarrow> cas_read option) \<Rightarrow> (cas_msg, cas_read) cas_data" where
  "read_data f = DataRead (\<lambda>m r. case f m r of None \<Rightarrow> r | Some r' \<Rightarrow> r')"

section \<open>Versions\<close>

fun split_fields :: "nat \<Rightarrow> char \<Rightarrow> string \<Rightarrow> string list" where
  "split_fields 0 sep s = [s]"
| "split_fields (Suc n) sep s =
     (if sep \<in> set s then takeWhile (\<lambda>x. x \<noteq> sep) s # split_fields n sep (tl (dropWhile (\<lambda>x. x \<noteq> sep) s)) else [s])"

text \<open>\<^verbatim>\<open>ParseTxtInfo\<close> of \<^verbatim>\<open>casmsg\<close>: the reply to a query, as a key and a value.\<close>

definition parseTxtInfo :: "string \<Rightarrow> (string \<times> string) option" where
  "parseTxtInfo payload =
     (let fs = split_fields 4 (CHR '','') payload
      in if length fs < 5 \<or> fs ! 0 \<noteq> ''GPTXT'' \<or> fs ! 3 \<noteq> ''02'' then None
         else if CHR ''='' \<notin> set (fs ! 4) then None
         else (let k = takeWhile (\<lambda>x. x \<noteq> CHR ''='') (fs ! 4)
               in if length k \<noteq> 2 then None else Some (k, tl (dropWhile (\<lambda>x. x \<noteq> CHR ''='') (fs ! 4)))))"

definition nmea_text :: "string \<Rightarrow> bytes" where
  "nmea_text payload =
     (let body = map of_char payload :: bytes; ck = nmea_checksum body
      in 0x24 # body @ 0x2A # map of_char [''0123456789ABCDEF'' ! (unat ck div 16), ''0123456789ABCDEF'' ! (unat ck mod 16)] @ [0x0D, 0x0A])"

definition addInfoQuery :: "char \<Rightarrow> string \<Rightarrow> (string \<Rightarrow> cas_read \<Rightarrow> cas_read) \<Rightarrow> cas_cfg \<Rightarrow> cas_cfg" where
  "addInfoQuery query key dst c =
     addTextReq (nmea_text (''PCAS06,'' @ [query]))
       (\<lambda>payload r. case parseTxtInfo payload of None \<Rightarrow> (False, r)
          | Some (k, v) \<Rightarrow> if k \<noteq> key then (False, r) else (True, dst v r)) c"

definition generateVerQuery :: "cas_cfg \<Rightarrow> cas_cfg" where
  "generateVerQuery c =
     (if cas_v6 c then
        (addMsg (CfgMsgM MonVerID CfgMsgRatePoll) (zero_req\<lparr> cq_nakOK := True, cq_optional := True, cq_verPoll := True \<rparr>) c)
          \<lparr> cc_verReq := Some (length (cc_reqs c)) \<rparr>
      else addInfoQuery (CHR ''1'') ''HW'' (\<lambda>v r. r\<lparr> cr_pcasHW := v \<rparr>)
             (addInfoQuery (CHR ''0'') ''SW'' (\<lambda>v r. r\<lparr> cr_pcasSW := v \<rparr>) c))"

end
