(* ===== verification/CasSet.thy ===== *)
theory CasSet
  imports CasGen
begin

text \<open>
  The queries and sets of the CASIC configurator: time pulse (\<^verbatim>\<open>cascfgtp.go\<close>), time mode (\<^verbatim>\<open>cascfgtmode.go\<close>),
  signals (\<^verbatim>\<open>cascfgsignal.go\<close>), minimum elevation (\<^verbatim>\<open>cascfgmisc.go\<close>), and the rates of the messages
  (\<^verbatim>\<open>cascfgmsg.go\<close>). Floats are IEEE bits, their conversions an argument, the record \<open>cas_conv\<close>.
\<close>

text \<open>
  Conversions between the units of the target (nanoseconds, micrometers, nanodegrees) and floats. \<open>cv_fixed\<close> and
  \<open>cv_acc\<close> scale meters to CFG-TMODE2 units and round; \<open>cv_LLH\<close> is the conversion of a geodetic position to ECEF.
\<close>

record cas_conv =
  cv_delay :: "int \<Rightarrow> 32 word"
  cv_delayBack :: "32 word \<Rightarrow> int"
  cv_meters :: "int \<Rightarrow> 64 word"
  cv_metersBack :: "64 word \<Rightarrow> int"
  cv_LLH :: "int \<times> int \<Rightarrow> int \<Rightarrow> int \<times> int \<times> int"
  cv_variance :: "64 word \<Rightarrow> 32 word"
  cv_varianceBack :: "32 word \<Rightarrow> int"
  cv_fixed :: "64 word \<Rightarrow> 32 word"
  cv_fixedBack :: "32 word \<Rightarrow> int"
  cv_acc :: "64 word \<Rightarrow> 32 word"
  cv_accBack :: "32 word \<Rightarrow> int"
  cv_ceilDegrees :: "int \<Rightarrow> int"
  cv_degrees :: "int \<Rightarrow> int"

text \<open>Equality of floats, on their bits: a NaN equals nothing, and the zeros are equal.\<close>

definition f32_nan :: "32 word \<Rightarrow> bool" where "f32_nan w \<longleftrightarrow> 0x7F800000 < w AND 0x7FFFFFFF"

definition f32_eq :: "32 word \<Rightarrow> 32 word \<Rightarrow> bool" where
  "f32_eq a b \<longleftrightarrow> \<not> f32_nan a \<and> \<not> f32_nan b \<and> (a = b \<or> (a OR b) AND 0x7FFFFFFF = 0)"

definition f64_nan :: "64 word \<Rightarrow> bool" where "f64_nan w \<longleftrightarrow> 0x7FF0000000000000 < w AND 0x7FFFFFFFFFFFFFFF"

definition f64_eq :: "64 word \<Rightarrow> 64 word \<Rightarrow> bool" where
  "f64_eq a b \<longleftrightarrow> \<not> f64_nan a \<and> \<not> f64_nan b \<and> (a = b \<or> (a OR b) AND 0x7FFFFFFFFFFFFFFF = 0)"

definition f64_pos :: "64 word \<Rightarrow> bool" where "f64_pos w \<longleftrightarrow> 0 < w \<and> w \<le> 0x7FF0000000000000"

definition f32_pos :: "32 word \<Rightarrow> bool" where "f32_pos w \<longleftrightarrow> 0 < w \<and> w \<le> 0x7F800000"

section \<open>The time pulse\<close>

definition tpProps :: propIDs where
  "tpProps = timePulseProps OR PropIDTimeGNSS OR PropIDAntennaCableDelay"

definition needsTP :: "cas_cfg \<Rightarrow> bool" where "needsTP c \<longleftrightarrow> usesAny [tpProps] (cc_target c)"

definition setsTP :: "cas_cfg \<Rightarrow> bool" where "setsTP c \<longleftrightarrow> setsAny [tpProps] (ctg_Props (cc_target c))"

definition generateTPQuery :: "cas_cfg \<Rightarrow> cas_cfg" where
  "generateTPQuery c =
     (if \<not> needsTP c then c
      else addPollReq CfgTPID (read_data (\<lambda>m r. case m of CfgTPM tp \<Rightarrow> Some (r\<lparr> cr_tp := Some tp \<rparr>) | _ \<Rightarrow> None)) c)"

definition ppsOffMode :: "fwFamily \<Rightarrow> 8 word" where "ppsOffMode fam = 0"

definition ppsOutMode :: "fwFamily \<Rightarrow> bool \<Rightarrow> 8 word" where
  "ppsOutMode fam locked = (if fam = FamilyV6 then if locked then 5 else 7 else if locked then 3 else 1)"

definition onlyWhenLocked :: "fwFamily \<Rightarrow> 8 word \<Rightarrow> bool" where
  "onlyWhenLocked fam md = (if fam = FamilyV6 then md = 2 \<or> md = 3 \<or> md = 5 else md = 3)"

definition cas_tBase :: "fwFamily \<Rightarrow> bool \<Rightarrow> 8 word" where
  "cas_tBase fam align = (if fam = FamilyV5 then if align then 1 else 0 else if align then 0 else 1)"

definition alignToGNSS :: "fwFamily \<Rightarrow> 8 word \<Rightarrow> bool" where
  "alignToGNSS fam tBase = (if fam = FamilyV5 then tBase = 1 else tBase = 0)"

abbreviation (input) gnssGPS :: "8 word" where "gnssGPS \<equiv> 1"
abbreviation (input) gnssGAL :: "8 word" where "gnssGAL \<equiv> 2"
abbreviation (input) gnssBDS :: "8 word" where "gnssBDS \<equiv> 3"
abbreviation (input) gnssGLO :: "8 word" where "gnssGLO \<equiv> 4"

definition tSrcMode :: "fwFamily \<Rightarrow> 8 word \<Rightarrow> 8 word \<times> bool" where
  "tSrcMode fam g =
     (if g = gnssGPS then (0, True) else if g = gnssBDS then (1, True) else if g = gnssGLO then (2, True)
      else if fam = FamilyV6 \<and> g = gnssGAL then (3, True) else (0, False))"

definition cas_timeGNSS :: "fwFamily \<Rightarrow> 8 word \<Rightarrow> 8 word \<times> bool" where
  "cas_timeGNSS fam src =
     (if src = 0 \<or> src = 5 then (gnssGPS, True) else if src = 1 \<or> src = 4 then (gnssBDS, True)
      else if src = 2 \<or> src = 6 then (gnssGLO, True)
      else if fam = FamilyV6 \<and> (src = 3 \<or> src = 7) then (gnssGAL, True) else (0, False))"

definition cfgTPMicroseconds :: "int \<Rightarrow> 32 word" where
  "cfgTPMicroseconds d = word_of_int (quot (duration_round d 1000) 1000)"

definition on_set :: "'a \<times> bool \<Rightarrow> ('a \<Rightarrow> 'b \<Rightarrow> 'b) \<Rightarrow> 'b \<Rightarrow> 'b" where
  "on_set v f x = (if snd v then f (fst v) x else x)"

text \<open>The time pulse merged into the readback, property by property.\<close>

definition merge_tp :: "cas_conv \<Rightarrow> fwFamily \<Rightarrow> ConfigProps \<Rightarrow> cas_tp \<Rightarrow> cas_tp" where
  "merge_tp cv fam cp tp =
     on_set (getAntennaCableDelay cp) (\<lambda>d tp. tp\<lparr> ct_UserDelay := cv_delay cv d \<rparr>)
      (on_set (getTimeGNSS cp) (\<lambda>g tp. on_set (tSrcMode fam g) (\<lambda>src tp. tp\<lparr> ct_TSrcMode := src \<rparr>) tp)
       (on_set (getTimePulseAlignToGNSS cp) (\<lambda>a tp. tp\<lparr> ct_TBase := cas_tBase fam a \<rparr>)
        (on_set (getTimePulseOnlyWhenLocked cp)
           (\<lambda>l tp. if ct_PPSOutMode tp \<noteq> ppsOffMode fam then tp\<lparr> ct_PPSOutMode := ppsOutMode fam l \<rparr> else tp)
         (on_set (getTimePulsePolarityRising cp) (\<lambda>r tp. tp\<lparr> ct_Polarity := (if r then 0 else 1) \<rparr>)
          (on_set (getTimePulsePeriod cp) (\<lambda>p tp. tp\<lparr> ct_Interval := cfgTPMicroseconds p \<rparr>)
           (on_set (getTimePulseWidth cp)
              (\<lambda>w tp. if w = 0 then tp\<lparr> ct_PPSOutMode := ppsOffMode fam \<rparr>
                      else (let tp = tp\<lparr> ct_Width := cfgTPMicroseconds w \<rparr>
                            in if ct_PPSOutMode tp = ppsOffMode fam then tp\<lparr> ct_PPSOutMode := ppsOutMode fam False \<rparr> else tp))
            tp))))))"

definition tp_eq :: "cas_tp \<Rightarrow> cas_tp \<Rightarrow> bool" where
  "tp_eq a b \<longleftrightarrow> a\<lparr> ct_UserDelay := 0 \<rparr> = b\<lparr> ct_UserDelay := 0 \<rparr> \<and> f32_eq (ct_UserDelay a) (ct_UserDelay b)"

definition generateTPSet :: "cas_conv \<Rightarrow> cas_cfg \<Rightarrow> cas_cfg" where
  "generateTPSet cv c =
     (if \<not> setsTP c then c
      else case cr_tp (cc_read c) of
             None \<Rightarrow> c
           | Some cur \<Rightarrow>
               (let tp = merge_tp cv (cr_family (cc_read c)) (ctg_Props (cc_target c)) cur
                in if tp_eq tp cur then touchNoOp SectionTP c
                   else addSetReq (CfgTPM tp) (\<lambda>r. r\<lparr> cr_tp := Some tp \<rparr>) c))"

definition tpConfigProps :: "cas_conv \<Rightarrow> cas_cfg \<Rightarrow> ConfigProps \<Rightarrow> ConfigProps" where
  "tpConfigProps cv c cp =
     (case cr_tp (cc_read c) of
        None \<Rightarrow> cp
      | Some tp \<Rightarrow>
          (let fam = cr_family (cc_read c);
               cp1 = setTimePulse \<lparr> tp_Width = (if ct_PPSOutMode tp = ppsOffMode fam then 0 else uint (ct_Width tp) * 1000),
                   tp_Period = uint (ct_Interval tp) * 1000, tp_AlignToGNSS = alignToGNSS fam (ct_TBase tp),
                   tp_OnlyWhenLocked = onlyWhenLocked fam (ct_PPSOutMode tp), tp_PolarityRising = (ct_Polarity tp = 0) \<rparr> cp;
               cp2 = on_set (cas_timeGNSS fam (ct_TSrcMode tp)) setTimeGNSS cp1
           in setAntennaCableDelay (cv_delayBack cv (ct_UserDelay tp)) cp2))"

section \<open>The time mode\<close>

text \<open>The mode is a number, for a receiver may report one that has no name.\<close>

record tmodeTarget =
  tt_mode :: "8 word"
  tt_ecef :: "64 word \<times> 64 word \<times> 64 word"
  tt_posAcc :: "64 word"
  tt_svinDur :: "32 word"
  tt_svinAcc :: "64 word"

abbreviation (input) tmodeTargetMobile :: "8 word" where "tmodeTargetMobile \<equiv> 0"
abbreviation (input) tmodeTargetSurvey :: "8 word" where "tmodeTargetSurvey \<equiv> 1"
abbreviation (input) tmodeTargetFixed :: "8 word" where "tmodeTargetFixed \<equiv> 2"

definition zero_tmode :: tmodeTarget where
  "zero_tmode = \<lparr> tt_mode = tmodeTargetMobile, tt_ecef = (0, 0, 0), tt_posAcc = 0, tt_svinDur = 0, tt_svinAcc = 0 \<rparr>"

definition needsTMode :: "cas_cfg \<Rightarrow> bool" where
  "needsTMode c \<longleftrightarrow> usesAny [PropIDMode] (cc_target c) \<or> co_SetStatic (ctg_Opts (cc_target c))"

definition generateTModeQuery :: "cas_cfg \<Rightarrow> cas_cfg" where
  "generateTModeQuery c =
     (if \<not> needsTMode c then c
      else if cas_v6 c then
        addPollReq CfgTMode2ID (read_data (\<lambda>m r. case m of CfgTMode2M tm \<Rightarrow> Some (r\<lparr> cr_tm6 := Some tm \<rparr>) | _ \<Rightarrow> None)) c
      else addPollReq CfgTModeID (read_data (\<lambda>m r. case m of CfgTModeM tm \<Rightarrow> Some (r\<lparr> cr_tm5 := Some tm \<rparr>) | _ \<Rightarrow> None)) c)"

definition curTModeMode :: "cas_read \<Rightarrow> 8 word \<times> bool" where
  "curTModeMode r =
     (case cr_tm6 r of
        Some t \<Rightarrow> (t6_TimFixMode t, True)
      | None \<Rightarrow> (case cr_tm5 r of Some t \<Rightarrow> (ucast (t5_Mode t), True) | None \<Rightarrow> (0, False)))"

definition fixedPosToECEF :: "cas_conv \<Rightarrow> rx_mode \<Rightarrow> (int \<times> int \<times> int) \<times> bool" where
  "fixedPosToECEF cv m =
     (case md_PosType m of
        PosTypeECEF \<Rightarrow> (md_FixedPosECEF m, True)
      | PosTypeLLH \<Rightarrow> (cv_LLH cv (md_FixedPosLLH m) (md_Height m), True)
      | PosTypeNone \<Rightarrow> ((0, 0, 0), False))"

definition newTModeTarget :: "cas_conv \<Rightarrow> rx_mode \<Rightarrow> Survey \<Rightarrow> tmodeTarget" where
  "newTModeTarget cv m survey =
     (if \<not> md_Static m then zero_tmode
      else if md_PosType m = PosTypeNone then
        zero_tmode\<lparr> tt_mode := tmodeTargetSurvey,
          tt_svinDur := word_of_int (quot (duration_round (sv_MinDur survey) nsPerSecond) nsPerSecond),
          tt_svinAcc := cv_meters cv (sv_AccLimit survey) \<rparr>
      else (let (x, y, z) = fst (fixedPosToECEF cv m)
            in zero_tmode\<lparr> tt_mode := tmodeTargetFixed, tt_posAcc := cv_meters cv (md_FixedPosAcc m),
                 tt_ecef := (cv_meters cv x, cv_meters cv y, cv_meters cv z) \<rparr>))"

definition tmode2Acc :: "cas_conv \<Rightarrow> 64 word \<Rightarrow> 32 word" where
  "tmode2Acc cv meters = (let acc = cv_acc cv meters in if f64_pos meters then max acc 1 else acc)"

definition tm5_eq :: "cas_tmode \<Rightarrow> cas_tmode \<Rightarrow> bool" where
  "tm5_eq a b \<longleftrightarrow> t5_Mode a = t5_Mode b \<and> t5_Res a = t5_Res b \<and> t5_SvinMinDur a = t5_SvinMinDur b
     \<and> (case (t5_Ecef a, t5_Ecef b) of ((x, y, z), (x', y', z')) \<Rightarrow> f64_eq x x' \<and> f64_eq y y' \<and> f64_eq z z')
     \<and> f32_eq (t5_PosVar a) (t5_PosVar b) \<and> f32_eq (t5_SvinVarLimit a) (t5_SvinVarLimit b)"

definition tmode6 :: "cas_conv \<Rightarrow> tmodeTarget \<Rightarrow> cas_tmode2 \<Rightarrow> cas_tmode2" where
  "tmode6 cv tt cur =
     (let m = (if tt_mode tt \<le> tmodeTargetFixed then cur\<lparr> t6_TimFixMode := tt_mode tt \<rparr> else cur)
      in case tt_ecef tt of (x, y, z) \<Rightarrow>
           m\<lparr> t6_Fixed := (cv_fixed cv x, cv_fixed cv y, cv_fixed cv z), t6_FixedPacc := tmode2Acc cv (tt_posAcc tt),
              t6_SvinMinDur := tt_svinDur tt, t6_SvinPaccLim := tmode2Acc cv (tt_svinAcc tt) \<rparr>)"

definition tmode5 :: "cas_conv \<Rightarrow> tmodeTarget \<Rightarrow> cas_tmode" where
  "tmode5 cv tt =
     \<lparr> t5_Mode = (if tt_mode tt \<le> tmodeTargetFixed then ucast (tt_mode tt) else 0), t5_Res = 0, t5_Ecef = tt_ecef tt,
        t5_PosVar = cv_variance cv (tt_posAcc tt), t5_SvinMinDur = tt_svinDur tt,
        t5_SvinVarLimit = cv_variance cv (tt_svinAcc tt) \<rparr>"

text \<open>Called with a readback of the family; without one the source panics.\<close>

definition addTModeSet :: "cas_conv \<Rightarrow> tmodeTarget \<Rightarrow> bool \<Rightarrow> cas_cfg \<Rightarrow> cas_cfg option" where
  "addTModeSet cv tt force c =
     (if cas_v6 c then
        (case cr_tm6 (cc_read c) of
           None \<Rightarrow> None
         | Some cur \<Rightarrow>
             (let m = tmode6 cv tt cur
              in Some (if \<not> force \<and> m = cur then touchNoOp SectionNav c
                       else addSetReq (CfgTMode2M m) (\<lambda>r. r\<lparr> cr_tm6 := Some m \<rparr>) c)))
      else
        (case cr_tm5 (cc_read c) of
           None \<Rightarrow> None
         | Some cur \<Rightarrow>
             (let m = tmode5 cv tt
              in Some (if \<not> force \<and> tm5_eq m (cur\<lparr> t5_Res := 0 \<rparr>) then touchNoOp SectionNav c
                       else addSetReq (CfgTModeM m) (\<lambda>r. r\<lparr> cr_tm5 := Some m \<rparr>) c))))"

definition SurveyAgain :: "64 word" where "SurveyAgain = 1"

text \<open>The mode to realize, if it is not to be left as it is.\<close>

definition tmode_wanted :: "ConfigTarget \<Rightarrow> 8 word \<Rightarrow> rx_mode option" where
  "tmode_wanted tgt cur =
     (let (md, haveMode) = getMode (ctg_Props tgt); setStatic = co_SetStatic (ctg_Opts tgt);
          again = sv_Flags (co_Survey (ctg_Opts tgt)) AND SurveyAgain \<noteq> 0
      in if \<not> haveMode then
           (if cur = tmodeTargetFixed then None
            else if cur = tmodeTargetSurvey \<and> \<not> again then None
            else Some (zeroMode\<lparr> md_Static := True \<rparr>))
         else if \<not> md_Static md \<and> setStatic then Some (zeroMode\<lparr> md_Static := True \<rparr>)
         else Some md)"

definition generateTModeSet :: "cas_conv \<Rightarrow> cas_cfg \<Rightarrow> cas_cfg option" where
  "generateTModeSet cv c =
     (let tgt = cc_target c; survey = co_Survey (ctg_Opts tgt); (cur, haveCur) = curTModeMode (cc_read c)
      in if \<not> snd (getMode (ctg_Props tgt)) \<and> \<not> co_SetStatic (ctg_Opts tgt) then Some c
         else if \<not> haveCur then Some c
         else case tmode_wanted tgt cur of
                None \<Rightarrow> Some c
              | Some md \<Rightarrow>
                  (let tt = newTModeTarget cv md survey;
                       c1 = (if tt_mode tt = tmodeTargetSurvey then c\<lparr> cc_read := (cc_read c)\<lparr> cr_survey := True \<rparr> \<rparr> else c)
                   in if tt_mode tt = tmodeTargetSurvey \<and> cur = tmodeTargetSurvey \<and> sv_Flags survey AND SurveyAgain \<noteq> 0
                      then Option.bind (addTModeSet cv (zero_tmode\<lparr> tt_mode := tmodeTargetMobile \<rparr>) False c1) (addTModeSet cv tt True)
                      else addTModeSet cv tt False c1))"

definition MinAccuracy :: int where "MinAccuracy = 100"

definition tmodeConfigProps :: "cas_conv \<Rightarrow> cas_cfg \<Rightarrow> ConfigProps \<Rightarrow> ConfigProps" where
  "tmodeConfigProps cv c cp =
     (let r = cc_read c; (cur, ok) = curTModeMode r; m = zeroMode\<lparr> md_Static := (cur \<noteq> tmodeTargetMobile) \<rparr>
      in if \<not> ok then cp
         else if cur \<noteq> tmodeTargetFixed then setMode m cp
         else case cr_tm6 r of
                Some t \<Rightarrow> (case t6_Fixed t of (x, y, z) \<Rightarrow>
                  setMode (m\<lparr> md_PosType := PosTypeECEF,
                    md_FixedPosECEF := (cv_fixedBack cv x, cv_fixedBack cv y, cv_fixedBack cv z),
                    md_FixedPosAcc := cv_accBack cv (t6_FixedPacc t) \<rparr>) cp)
              | None \<Rightarrow> (case cr_tm5 r of
                  None \<Rightarrow> cp
                | Some t \<Rightarrow> (case t5_Ecef t of (x, y, z) \<Rightarrow>
                    (let acc = cv_varianceBack cv (t5_PosVar t)
                     in setMode (m\<lparr> md_PosType := PosTypeECEF,
                          md_FixedPosECEF := (cv_metersBack cv x, cv_metersBack cv y, cv_metersBack cv z),
                          md_FixedPosAcc := (if f32_pos (t5_PosVar t) then max acc MinAccuracy else acc) \<rparr>) cp))))"

section \<open>Signals\<close>

abbreviation (input) sig :: "nat \<Rightarrow> nat \<Rightarrow> nat" where "sig g i \<equiv> (g - 1) * 11 + i"

text \<open>Signals by number: eleven for each constellation, ordered by band, as in \<^verbatim>\<open>gpsprot/signal.go\<close>.\<close>

definition SigGPSL1CA :: nat where "SigGPSL1CA = sig 1 0"
definition SigGPSL1C :: nat where "SigGPSL1C = sig 1 1"
definition SigSBASL1CA :: nat where "SigSBASL1CA = sig 1 2"
definition SigGPSL2P :: nat where "SigGPSL2P = sig 1 3"
definition SigGPSL2C :: nat where "SigGPSL2C = sig 1 4"
definition SigGPSL5 :: nat where "SigGPSL5 = sig 1 5"
definition SigSBASL5 :: nat where "SigSBASL5 = sig 1 6"
definition SigGALE1 :: nat where "SigGALE1 = sig 2 1"
definition SigGALE5a :: nat where "SigGALE5a = sig 2 5"
definition SigGALE5b :: nat where "SigGALE5b = sig 2 7"
definition SigGALE6 :: nat where "SigGALE6 = sig 2 10"
definition SigBDSB1I :: nat where "SigBDSB1I = sig 3 0"
definition SigBDSB1C :: nat where "SigBDSB1C = sig 3 1"
definition SigBDSB2a :: nat where "SigBDSB2a = sig 3 5"
definition SigBDSB2I :: nat where "SigBDSB2I = sig 3 7"
definition SigBDSB2b :: nat where "SigBDSB2b = sig 3 8"
definition SigBDSB3I :: nat where "SigBDSB3I = sig 3 9"
definition SigGLOL1 :: nat where "SigGLOL1 = sig 4 0"
definition SigGLOL1OC :: nat where "SigGLOL1OC = sig 4 1"
definition SigGLOL2 :: nat where "SigGLOL2 = sig 4 3"
definition SigGLOL2OC :: nat where "SigGLOL2OC = sig 4 4"
definition SigGLOL3 :: nat where "SigGLOL3 = sig 4 7"
definition SigQZSSL1CA :: nat where "SigQZSSL1CA = sig 5 0"
definition SigQZSSL1S :: nat where "SigQZSSL1S = sig 5 2"
definition SigQZSSL5 :: nat where "SigQZSSL5 = sig 5 5"
definition SigQZSSL5S :: nat where "SigQZSSL5S = sig 5 6"
definition SigQZSSL6 :: nat where "SigQZSSL6 = sig 5 10"
definition SigNAVICL5 :: nat where "SigNAVICL5 = sig 6 5"

type_synonym SignalSet = "64 word"

definition signalSetOf :: "nat list \<Rightarrow> SignalSet" where
  "signalSetOf sigs = fold (\<lambda>s ss. ss OR push_bit s 1) sigs 0"

definition SigSetMajor :: SignalSet where
  "SigSetMajor = signalSetOf [SigGPSL1CA, SigGPSL1C, SigGPSL2P, SigGPSL2C, SigGPSL5, SigGLOL1, SigGLOL1OC, SigGLOL2, SigGLOL2OC,
     SigGLOL3, SigGALE1, SigGALE5a, SigGALE5b, SigGALE6, SigBDSB1I, SigBDSB1C, SigBDSB2I, SigBDSB2b, SigBDSB2a, SigBDSB3I]"

definition SigSetAugment :: SignalSet where
  "SigSetAugment = signalSetOf [SigSBASL1CA, SigSBASL5, SigGALE6, SigBDSB2b, SigQZSSL1S, SigQZSSL5S, SigQZSSL6]"

text \<open>The bits of CFG-NAVBAND, by their positions.\<close>

definition navBandSignals :: "(nat \<times> nat) list" where
  "navBandSignals = [(0, SigGPSL1CA), (2, SigGPSL5), (3, SigSBASL1CA), (4, SigSBASL5), (5, SigGLOL1), (7, SigGALE1), (8, SigGALE5a),
     (10, SigBDSB1I), (11, SigBDSB1I), (14, SigBDSB1C), (15, SigBDSB2a), (19, SigQZSSL1CA), (21, SigQZSSL5), (23, SigNAVICL5)]"

definition v5NavSystems :: "(nat \<times> nat) list" where
  "v5NavSystems = [(0, SigGPSL1CA), (1, SigBDSB1I), (2, SigGLOL1)]"

definition v5Signals :: SignalSet where "v5Signals = signalSetOf [SigGPSL1CA, SigBDSB1I, SigGLOL1]"

definition signalsToNavBand :: "SignalSet \<Rightarrow> 32 word" where
  "signalsToNavBand ss = fold (\<lambda>(k, s) m. if bit ss s then m OR push_bit k 1 else m) navBandSignals 0"

definition navBandToSignals :: "32 word \<Rightarrow> SignalSet" where
  "navBandToSignals m = fold (\<lambda>(k, s) ss. if bit m k then ss OR signalSetOf [s] else ss) navBandSignals 0"

definition needsSignals :: "cas_cfg \<Rightarrow> bool" where "needsSignals c \<longleftrightarrow> usesAny [PropIDSignalsEnabled] (cc_target c)"

definition pollNavBand :: "cas_cfg \<Rightarrow> cas_cfg" where
  "pollNavBand c =
     addPollReq CfgNavBandID (read_data (\<lambda>m r. case m of CfgNavBandM b \<Rightarrow> Some (r\<lparr> cr_navBand := Some b \<rparr>) | _ \<Rightarrow> None)) c"

definition pollNavx :: "cas_cfg \<Rightarrow> cas_cfg" where
  "pollNavx c =
     addPollReq CfgNavxID (read_data (\<lambda>m r. case m of CfgNavxM _ n \<Rightarrow> Some (r\<lparr> cr_navx := Some n \<rparr>) | _ \<Rightarrow> None)) c"

definition generateSignalQuery :: "cas_cfg \<Rightarrow> cas_cfg" where
  "generateSignalQuery c = (if \<not> needsSignals c then c else if cas_v6 c then pollNavBand c else pollNavx c)"

definition checkSignals :: "SignalSet \<Rightarrow> bool" where
  "checkSignals ss \<longleftrightarrow> ss AND SigSetMajor AND NOT SigSetAugment \<noteq> 0"

definition addNoSignals :: "cas_cfg \<Rightarrow> cas_cfg" where
  "addNoSignals c = addFailedReq ''no supported non-augmentation major-GNSS signal in the requested set'' c"

text \<open>The constellations of the signals that are wanted, as bits of CFG-NAVX; a constellation is the signal's group.\<close>

definition navSystem :: "SignalSet \<Rightarrow> 8 word" where
  "navSystem want = fold (\<lambda>(k, s) m. if take_bit 11 (drop_bit (11 * (s div 11)) want) \<noteq> 0 then m OR push_bit k 1 else m) v5NavSystems 0"

definition upd_navx :: "(cas_navx \<Rightarrow> cas_navx) \<Rightarrow> cas_read \<Rightarrow> cas_read" where
  "upd_navx f r = r\<lparr> cr_navx := map_option f (cr_navx r) \<rparr>"

definition generateSignalSet :: "cas_cfg \<Rightarrow> cas_cfg" where
  "generateSignalSet c =
     (let (requested, ok) = getSignalsEnabled (ctg_Props (cc_target c))
      in if \<not> ok then c
         else if cas_v6 c then
           (case cr_navBand (cc_read c) of
              None \<Rightarrow> c
            | Some cur \<Rightarrow>
                (let bits = signalsToNavBand requested
                 in if \<not> checkSignals (navBandToSignals bits) then addNoSignals c
                    else (let nb = cur\<lparr> nb_SigBandAuto := 0, nb_SigIDMaskFix := bits, nb_SigIDMask := bits \<rparr>
                          in if nb = cur then touchNoOp SectionNav c
                             else pollNavBand (addSetReq (CfgNavBandM nb) (\<lambda>r. r\<lparr> cr_navBand := Some nb \<rparr>) c))))
         else
           (case cr_navx (cc_read c) of
              None \<Rightarrow> c
            | Some cur \<Rightarrow>
                (let want = requested AND v5Signals; sys = navSystem want
                 in if \<not> checkSignals want then addNoSignals c
                    else if nx_NavSystem cur = sys then touchNoOp SectionNav c
                    else addSetReq (CfgNavxM (push_bit 8 1) \<lparr> nx_MinElev = 0, nx_NavSystem = sys \<rparr>)
                           (upd_navx (nx_NavSystem_update (\<lambda>_. sys))) c)))"

definition signalConfigProps :: "cas_cfg \<Rightarrow> ConfigProps \<Rightarrow> ConfigProps" where
  "signalConfigProps c cp =
     (case cr_navBand (cc_read c) of
        Some nb \<Rightarrow>
          (let bits = (if nb_SigBandAuto nb = 1 then nb_SigIDMask nb else nb_SigIDMaskFix nb AND nb_SigIDMask nb)
           in setSignalsEnabled (navBandToSignals bits) cp)
      | None \<Rightarrow>
          (case cr_navx (cc_read c) of
             None \<Rightarrow> cp
           | Some n \<Rightarrow> setSignalsEnabled
               (fold (\<lambda>(k, s) ss. if bit (nx_NavSystem n) k then ss OR signalSetOf [s] else ss) v5NavSystems 0) cp))"

section \<open>Minimum elevation\<close>

definition needsMinElev :: "cas_cfg \<Rightarrow> bool" where "needsMinElev c \<longleftrightarrow> usesAny [PropIDMinElevation] (cc_target c)"

definition generateMinElevQuery :: "cas_cfg \<Rightarrow> cas_cfg" where
  "generateMinElevQuery c =
     (if \<not> needsMinElev c then c
      else if cas_v6 c then
        addPollReq CfgNavLimID (read_data (\<lambda>m r. case m of CfgNavLimitM l \<Rightarrow> Some (r\<lparr> cr_navLimit := Some l \<rparr>) | _ \<Rightarrow> None)) c
      else if \<not> needsSignals c then pollNavx c else c)"

definition generateMinElevSet :: "cas_conv \<Rightarrow> cas_cfg \<Rightarrow> cas_cfg" where
  "generateMinElevSet cv c =
     (let (elev, ok) = getMinElevation (ctg_Props (cc_target c)); v = cv_ceilDegrees cv elev; deg = word_of_int v
      in if \<not> ok then c
         else if v < -90 \<or> 90 < v then c
         else if cas_v6 c then
           (case cr_navLimit (cc_read c) of
              None \<Rightarrow> c
            | Some cur \<Rightarrow>
                (let nl = cur\<lparr> nl_MinElev := deg \<rparr>
                 in if nl = cur then touchNoOp SectionNav c
                    else addSetReq (CfgNavLimitM nl) (\<lambda>r. r\<lparr> cr_navLimit := Some nl \<rparr>) c))
         else
           (case cr_navx (cc_read c) of
              None \<Rightarrow> c
            | Some cur \<Rightarrow>
                (if nx_MinElev cur = deg then touchNoOp SectionNav c
                 else addSetReq (CfgNavxM (push_bit 6 1) \<lparr> nx_MinElev = deg, nx_NavSystem = 0 \<rparr>)
                        (upd_navx (nx_MinElev_update (\<lambda>_. deg))) c)))"

definition minElevConfigProps :: "cas_conv \<Rightarrow> cas_cfg \<Rightarrow> ConfigProps \<Rightarrow> ConfigProps" where
  "minElevConfigProps cv c cp =
     (if cas_v6 c then
        (case cr_navLimit (cc_read c) of None \<Rightarrow> cp | Some l \<Rightarrow> setMinElevation (cv_degrees cv (sint (nl_MinElev l))) cp)
      else (case cr_navx (cc_read c) of None \<Rightarrow> cp | Some n \<Rightarrow> setMinElevation (cv_degrees cv (sint (nx_MinElev n))) cp))"

section \<open>What a receiver supports\<close>

type_synonym ConfigSupportFlags = "32 word"

definition ConfigSupportSignal :: ConfigSupportFlags where "ConfigSupportSignal = push_bit 0 1"
definition ConfigSupportSpeed :: ConfigSupportFlags where "ConfigSupportSpeed = push_bit 1 1"
definition ConfigSupportSurvey :: ConfigSupportFlags where "ConfigSupportSurvey = push_bit 2 1"
definition ConfigSupportSurveyAcc :: ConfigSupportFlags where "ConfigSupportSurveyAcc = push_bit 3 1"
definition ConfigSupportSurveyMsg :: ConfigSupportFlags where "ConfigSupportSurveyMsg = push_bit 4 1"
definition ConfigSupportFixedPos :: ConfigSupportFlags where "ConfigSupportFixedPos = push_bit 5 1"
definition ConfigSupportFixedPosAcc :: ConfigSupportFlags where "ConfigSupportFixedPosAcc = push_bit 6 1"
definition ConfigSupportRaw :: ConfigSupportFlags where "ConfigSupportRaw = push_bit 7 1"
definition ConfigSupportReload :: ConfigSupportFlags where "ConfigSupportReload = push_bit 12 1"

fun fields_func :: "(char \<Rightarrow> bool) \<Rightarrow> string \<Rightarrow> string \<Rightarrow> string list" where
  "fields_func sep acc [] = (if acc = [] then [] else [acc])"
| "fields_func sep acc (x # xs) =
     (if sep x then (if acc = [] then fields_func sep [] xs else acc # fields_func sep [] xs)
      else fields_func sep (acc @ [x]) xs)"

definition is_digit_char :: "char \<Rightarrow> bool" where "is_digit_char x \<longleftrightarrow> 48 \<le> (of_char x :: nat) \<and> (of_char x :: nat) \<le> 57"

text \<open>\<^verbatim>\<open>classRe\<close>: an optional F, a digit, the letters of the class, digits.\<close>

definition class_of_segment :: "string \<Rightarrow> string option" where
  "class_of_segment s =
     (let s1 = (case s of x # xs \<Rightarrow> if x = CHR ''F'' then xs else s | [] \<Rightarrow> [])
      in case s1 of
           [] \<Rightarrow> None
         | d # rest \<Rightarrow>
             (let letters = takeWhile (\<lambda>x. \<not> is_digit_char x) rest; digits = dropWhile (\<lambda>x. \<not> is_digit_char x) rest
              in if is_digit_char d \<and> letters \<in> {''N'', ''P'', ''TS'', ''T'', ''F''} \<and> list_all is_digit_char digits
                 then Some letters else None))"

definition receiverClass :: "string \<Rightarrow> string" where
  "receiverClass hw =
     (case filter (\<lambda>s. class_of_segment s \<noteq> None) (tl (fields_func (\<lambda>x. x = CHR ''-'' \<or> x = CHR '','') [] hw)) of
        [] \<Rightarrow> [] | s # _ \<Rightarrow> the (class_of_segment s))"

definition configSupport :: "cas_read \<Rightarrow> ConfigSupportFlags" where
  "configSupport r =
     (let flags = ConfigSupportSpeed OR ConfigSupportSurvey OR ConfigSupportSurveyAcc OR ConfigSupportFixedPos OR ConfigSupportFixedPosAcc
      in if cr_family r = FamilyV6 then
           (let flags = flags OR ConfigSupportSignal OR ConfigSupportRaw OR ConfigSupportSurveyMsg;
                cls = receiverClass (case cr_ver r of None \<Rightarrow> [] | Some v \<Rightarrow> mv_HwVersion v)
            in if cls = ''N'' then flags AND NOT (ConfigSupportRaw OR ConfigSupportSurveyMsg)
               else if cls = ''P'' then flags AND NOT ConfigSupportSurveyMsg
               else flags)
         else flags OR ConfigSupportReload)"

definition supports :: "ConfigSupportFlags \<Rightarrow> cas_cfg \<Rightarrow> bool" where
  "supports f c \<longleftrightarrow> configSupport (cc_read c) AND f \<noteq> 0"

section \<open>The messages that a receiver sends\<close>

definition PVTMsgPos :: PVTMsgFlags where "PVTMsgPos = push_bit 0 1"
definition PVTMsgVel :: PVTMsgFlags where "PVTMsgVel = push_bit 1 1"
definition PVTMsgTime :: PVTMsgFlags where "PVTMsgTime = push_bit 2 1"
definition PVTMsgTimePulse :: PVTMsgFlags where "PVTMsgTimePulse = push_bit 3 1"
definition PVTMsgLeapSecond :: PVTMsgFlags where "PVTMsgLeapSecond = push_bit 4 1"
definition PVTMsgSurvey :: PVTMsgFlags where "PVTMsgSurvey = push_bit 5 1"
definition PVTMsgTAI :: PVTMsgFlags where "PVTMsgTAI = push_bit 6 1"
definition PVTMsgECEF :: PVTMsgFlags where "PVTMsgECEF = push_bit 7 1"
definition PVTMsgTimePulseAfter :: PVTMsgFlags where "PVTMsgTimePulseAfter = push_bit 8 1"
definition PVTMsgQuality :: PVTMsgFlags where "PVTMsgQuality = push_bit 9 1"
definition PVTMsgOff :: PVTMsgFlags where "PVTMsgOff = push_bit 11 1"

definition addMsgRate :: "16 word \<Rightarrow> bool \<Rightarrow> cas_cfg \<Rightarrow> cas_cfg" where
  "addMsgRate mid on c = addReqNakOK (CfgMsgM mid (if on then 1 else 0)) c"

definition generateRawReqs :: "RawMsgFlags \<Rightarrow> cas_cfg \<Rightarrow> cas_cfg" where
  "generateRawReqs flags c =
     (if \<not> supports ConfigSupportRaw c then c
      else addMsgRate (msgID cas_clsRxm2 0x06) (bit flags 1) (addMsgRate (msgID cas_clsRxm2 0x00) (bit flags 0) c))"

definition generateSatsReqs :: "SatsMsgFlags \<Rightarrow> cas_cfg \<Rightarrow> cas_cfg" where
  "generateSatsReqs flags c =
     (if cas_v6 c then addMsgRate (msgID cas_clsNav2 0x06) (bit flags 0 \<or> bit flags 1) c
      else fold (\<lambda>mid. addMsgRate mid (bit flags 0)) [msgID cas_clsNav 0x20, msgID cas_clsNav 0x21, msgID cas_clsNav 0x22] c)"

definition generateTimTPReqs :: "bool \<Rightarrow> bool \<Rightarrow> cas_cfg \<Rightarrow> cas_cfg" where
  "generateTimTPReqs tp off c =
     (let mid = (if cas_v6 c then msgID cas_clsTim2 0x00 else msgID cas_clsTim 0x00)
      in if tp \<or> off then addMsgRate mid tp c else c)"

definition pvt_set :: "bool \<Rightarrow> 16 word \<Rightarrow> bool \<Rightarrow> cas_cfg \<Rightarrow> cas_cfg" where
  "pvt_set off mid want c = (if want \<or> off then addMsgRate mid want c else c)"

definition pvt_v6 :: "PVTMsgFlags \<Rightarrow> bool \<Rightarrow> cas_cfg \<Rightarrow> cas_cfg" where
  "pvt_v6 flags off c =
     (if \<not> cas_v6 c then c
      else (let c1 = pvt_set off (msgID cas_clsTim2 0x07) (flags AND PVTMsgLeapSecond \<noteq> 0) c
            in if supports ConfigSupportSurveyMsg c1
               then pvt_set off (msgID cas_clsTim2 0x06) (flags AND PVTMsgSurvey \<noteq> 0 \<and> cr_survey (cc_read c1)) c1 else c1))"

definition generatePVTReqs :: "PVTMsgFlags \<Rightarrow> cas_cfg \<Rightarrow> cas_cfg" where
  "generatePVTReqs flags c =
     (let (pv, sol, timeUTC, dop) =
            (if cas_v6 c then (msgID cas_clsNav2 0x03, msgID cas_clsNav2 0x02, msgID cas_clsNav2 0x05, msgID cas_clsNav2 0x01)
             else (msgID cas_clsNav 0x03, msgID cas_clsNav 0x02, msgID cas_clsNav 0x10, msgID cas_clsNav 0x01));
          has = (\<lambda>f. flags AND f \<noteq> 0); tp = has PVTMsgTimePulse; off = has PVTMsgOff;
          wantTime = (has PVTMsgTime \<or> (tp \<and> has PVTMsgTimePulseAfter));
          posVel = has (PVTMsgPos OR PVTMsgVel);
          wantSol = (wantTime \<and> has PVTMsgTAI \<or> posVel \<and> has PVTMsgECEF \<or> has PVTMsgQuality);
          wantPv = (posVel \<and> \<not> has PVTMsgECEF); wantTimeUTC = (wantTime \<and> \<not> has PVTMsgTAI); wantDop = has PVTMsgQuality
      in generateTimTPReqs tp off (pvt_v6 flags off
           (pvt_set off dop wantDop (pvt_set off timeUTC wantTimeUTC (pvt_set off pv wantPv (pvt_set off sol wantSol c))))))"

definition nmea_rate :: "NMEAMsgFlags \<Rightarrow> nat \<times> 8 word \<Rightarrow> cas_cfg \<Rightarrow> cas_cfg" where
  "nmea_rate flags = (\<lambda>(k, n). addReq (CfgMsgM (msgID cas_clsNmea n) (if bit flags k then 1 else 0)))"

definition generateNMEAReqs :: "NMEAMsgFlags \<Rightarrow> cas_cfg \<Rightarrow> cas_cfg" where
  "generateNMEAReqs flags c =
     (let zda = (if cas_v6 c then 0x06 else 0x08);
          c1 = fold (nmea_rate flags) [(3, 0x03), (0, 0x04), (1, 0x00), (2, 0x02), (4, zda), (5, 0x05), (6, 0x01)] c;
          extra = (if cas_v6 c then [0x07, 0x08, 0x09, 0x0B, 0x0C, 0x0D, 0x0E] else [0x07, 0x11, 0x12, 0x13, 0x16])
      in if bit flags 15 then c1 else fold (\<lambda>n. addMsgRate (msgID cas_clsNmea n) False) extra c1)"

definition generateMsgReqs :: "cas_cfg \<Rightarrow> cas_cfg" where
  "generateMsgReqs c =
     (let opts = ctg_Opts (cc_target c);
          c1 = (if co_PVTMsg opts \<noteq> 0 then generatePVTReqs (co_PVTMsg opts) c else c);
          c2 = (case co_NMEAMsg opts of None \<Rightarrow> c1 | Some f \<Rightarrow> generateNMEAReqs f c1);
          c3 = (case co_SatsMsg opts of None \<Rightarrow> c2 | Some f \<Rightarrow> generateSatsReqs f c2)
      in case co_RawMsg opts of None \<Rightarrow> c3 | Some f \<Rightarrow> generateRawReqs f c3)"

text \<open>Called with the rate known; without it the source panics.\<close>

definition generateRateReqs :: "cas_cfg \<Rightarrow> cas_cfg option" where
  "generateRateReqs c =
     (if \<not> cr_msgEnabled (cc_read c) then Some c
      else (let rate = \<lparr> rt_FixIntervalMs = 1000, rt_FixRateHz = (if cas_v6 c then 1 else 0), rt_Res = 0 \<rparr>
            in case cr_rate (cc_read c) of
                 None \<Rightarrow> None
               | Some cur \<Rightarrow>
                   Some (if rt_FixIntervalMs cur = rt_FixIntervalMs rate \<and> rt_FixRateHz cur = rt_FixRateHz rate
                         then touchNoOp SectionNav c
                         else addSetReq (CfgRateM rate) (\<lambda>r. r\<lparr> cr_rate := Some rate \<rparr>) c)))"

end
