(* ===== verification/CasConfig.thy ===== *)
theory CasConfig
  imports CasSet
begin

text \<open>
  The CASIC configurator (\<^verbatim>\<open>cascfg.go\<close>): the phases that generate its requests, the change of speed, the save and the
  reset, which requests may be sent (\<^verbatim>\<open>promote\<close>), the answers of the receiver, and its protocol of probing
  (\<^verbatim>\<open>cascfgprot.go\<close>). A panic is \<open>None\<close>.
\<close>

section \<open>Speed, save and reset\<close>

definition cas_isVersion :: "cas_req \<Rightarrow> bool" where
  "cas_isVersion q \<longleftrightarrow> cq_verPoll q \<or> cq_onText q \<noteq> None"

definition allFinal :: "cas_cfg \<Rightarrow> bool" where "allFinal c \<longleftrightarrow> list_all cas_final (cc_reqs c)"

definition configFinal :: "cas_cfg \<Rightarrow> bool" where
  "configFinal c \<longleftrightarrow> list_all (\<lambda>q. cas_isVersion q \<or> cas_final q) (cc_reqs c)"

definition versionFinal :: "cas_cfg \<Rightarrow> bool" where
  "versionFinal c \<longleftrightarrow> list_all (\<lambda>q. cas_isVersion q \<longrightarrow> cas_final q) (cc_reqs c)"

definition verFinal :: "cas_cfg \<Rightarrow> bool" where
  "verFinal c \<longleftrightarrow> (case cc_verReq c of None \<Rightarrow> True | Some i \<Rightarrow> cas_final (cc_reqs c ! i))"

definition anyFailed :: "cas_cfg \<Rightarrow> bool" where "anyFailed c \<longleftrightarrow> list_ex (\<lambda>q. cq_state q = CasFailed) (cc_reqs c)"

definition basePort :: "cas_prt list \<Rightarrow> cas_prt option" where
  "basePort ports =
     (case ports of [] \<Rightarrow> None | p0 # _ \<Rightarrow> Some (foldl (\<lambda>base p. if pr_PortID p = 0 then p else base) p0 ports))"

definition generateSpeedReqs :: "cas_cfg \<Rightarrow> cas_cfg" where
  "generateSpeedReqs c =
     (let (baud, ok) = getBaudRate (ctg_Props (cc_target c))
      in if \<not> ok then c
         else case basePort (cr_ports (cc_read c)) of
                None \<Rightarrow> c
              | Some base \<Rightarrow>
                  (if pr_BaudRate base = baud then touchNoOp SectionPort c
                   else (let m = CfgPrtM \<lparr> pr_PortID = 0xFF, pr_ProtoMask = pr_ProtoMask base, pr_Mode = pr_Mode base, pr_BaudRate = baud \<rparr>;
                             c1 = (addMsg m (zero_req\<lparr> cq_speedAfter := uint baud \<rparr>) c)\<lparr> cc_speedReq := Some (length (cc_reqs c)) \<rparr>
                         in addPollReq CfgRateID DataConfirmSpeed c1)))"

definition saveMask :: "16 word \<Rightarrow> cas_cfg \<Rightarrow> 16 word" where
  "saveMask m c = (if cas_v6 c then SectionAll else m)"

abbreviation (input) saveNone :: "8 word" where "saveNone \<equiv> 0"
abbreviation (input) saveMinimal :: "8 word" where "saveMinimal \<equiv> 1"
abbreviation (input) saveAll :: "8 word" where "saveAll \<equiv> 2"
abbreviation (input) resetReload :: "8 word" where "resetReload \<equiv> 1"
abbreviation (input) resetCold :: "8 word" where "resetCold \<equiv> 2"
abbreviation (input) resetFactory :: "8 word" where "resetFactory \<equiv> 3"

definition addSaveReq :: "16 word \<Rightarrow> cas_cfg \<Rightarrow> cas_cfg" where
  "addSaveReq m c = (addMsg (CfgCfgM (saveMask m c) 1) zero_req c)\<lparr> cc_saveReq := Some (length (cc_reqs c)) \<rparr>"

definition req_succeeded :: "nat option \<Rightarrow> cas_cfg \<Rightarrow> bool" where
  "req_succeeded i c \<longleftrightarrow> (case i of None \<Rightarrow> False | Some i \<Rightarrow> cq_state (cc_reqs c ! i) = CasSucceeded)"

definition generateSaveReqs :: "cas_cfg \<Rightarrow> cas_cfg" where
  "generateSaveReqs c =
     (let save = co_Save (ctg_Opts (cc_target c));
          touched = cr_touched (cc_read c) OR (if req_succeeded (cc_speedReq c) c then SectionPort else 0)
      in if anyFailed c then c
         else if save = saveAll then addSaveReq SectionAll c
         else if save = saveMinimal then (if touched \<noteq> 0 then addSaveReq touched c else c)
         else c)"

text \<open>All sections but the clock drift (bit 5) and the parameters of the oscillator (bit 6).\<close>

definition bbrReset :: "16 word" where "bbrReset = 0b1110011111"

definition addRstReq :: "8 word \<Rightarrow> cas_cfg \<Rightarrow> cas_cfg" where
  "addRstReq startMode c =
     (let bbr = (if cas_v6 c then 0 else bbrReset)
      in addMsg (CfgRstM bbr 0 startMode) (zero_req\<lparr> cq_noAck := True \<rparr>) c)"

definition generateResetReqs :: "cas_cfg \<Rightarrow> cas_cfg" where
  "generateResetReqs c =
     (let opts = ctg_Opts (cc_target c)
      in if co_Save opts \<noteq> saveNone \<and> anyFailed c then c
         else if cc_saveReq c \<noteq> None \<and> \<not> req_succeeded (cc_saveReq c) c then c
         else if co_Reset opts = resetReload then
           (if cas_v6 c then c else addReq (CfgCfgM (saveMask SectionAll c) 2) c)
         else if co_Reset opts = resetCold then addRstReq 2 c
         else if co_Reset opts = resetFactory then addRstReq 3 c
         else c)"

section \<open>The phases\<close>

definition maxFamilyPolls :: int where "maxFamilyPolls = 3"

definition addFamilyPoll :: "cas_cfg \<Rightarrow> cas_cfg" where
  "addFamilyPoll c =
     cas_add (zero_req\<lparr> cq_mid := CfgRateID, cq_packet := poll_packet CfgRateID,
         cq_onData := Some (read_data (\<lambda>m r. case m of CfgRateM rate \<Rightarrow> Some (r\<lparr> cr_rate := Some rate, cr_family := familyOf rate \<rparr>) | _ \<Rightarrow> None)) \<rparr>)
       (c\<lparr> cc_read := (cc_read c)\<lparr> cr_familyPolls := cr_familyPolls (cc_read c) + 1 \<rparr> \<rparr>)"

definition generateFamilyReqs :: "cas_cfg \<Rightarrow> cas_cfg" where
  "generateFamilyReqs c = (if cr_rate (cc_read c) = None then addFamilyPoll c else c)"

definition pollPrt :: "cas_cfg \<Rightarrow> cas_cfg" where
  "pollPrt c =
     addPollReq CfgPrtID (read_data (\<lambda>m r. case m of CfgPrtM p \<Rightarrow> Some (r\<lparr> cr_ports := cr_ports r @ [p] \<rparr>) | _ \<Rightarrow> None)) c"

definition cas_generateQueryReqs :: "cas_cfg \<Rightarrow> cas_cfg" where
  "cas_generateQueryReqs c =
     (let c1 = generateMinElevQuery (generateSignalQuery (generateTModeQuery (generateTPQuery (generateVerQuery c))))
      in if usesAny [PropIDBaudRate] (cc_target c1) then pollPrt c1 else c1)"

definition generateSetReqs :: "cas_conv \<Rightarrow> cas_cfg \<Rightarrow> cas_cfg option" where
  "generateSetReqs cv c =
     map_option (\<lambda>c1. generateMinElevSet cv (generateSignalSet c1)) (generateTModeSet cv (generateTPSet cv c))"

text \<open>
  \<^verbatim>\<open>genPhases\<close>: the generator of a phase, and whether it waits for the version. A panic of \<^verbatim>\<open>serialize\<close> ends the generator.
\<close>

definition unwind :: "cas_cfg option \<Rightarrow> cas_cfg option" where
  "unwind oc = Option.bind oc (\<lambda>c. if cc_panic c then None else Some c)"

lemma unwind_Some: "unwind oc = Some c \<longleftrightarrow> oc = Some c \<and> \<not> cc_panic c"
  by (cases oc) (auto simp: unwind_def)

definition gen_phase :: "cas_conv \<Rightarrow> nat \<Rightarrow> cas_cfg \<Rightarrow> cas_cfg option" where
  "gen_phase cv ph c = unwind
     (if ph = 0 then Some (generateFamilyReqs c)
      else if ph = 1 then Some (cas_generateQueryReqs c)
      else if ph = 2 then generateSetReqs cv c
      else if ph = 3 then Some (generateMsgReqs c)
      else if ph = 4 then generateRateReqs c
      else if ph = 5 then Some (generateSpeedReqs c)
      else if ph = 6 then Some (generateSaveReqs c)
      else Some (generateResetReqs c))"

definition needsVer :: "nat \<Rightarrow> bool" where "needsVer ph \<longleftrightarrow> ph = 3"

definition needsVersion :: "nat \<Rightarrow> bool" where "needsVersion ph \<longleftrightarrow> ph = 7"

abbreviation (input) numPhases :: nat where "numPhases \<equiv> 8"

text \<open>The loop of \<^verbatim>\<open>GenerateRequests\<close>; every turn that goes on advances the phase, so eight are enough.\<close>

primrec generate_from :: "cas_conv \<Rightarrow> nat \<Rightarrow> cas_cfg \<Rightarrow> cas_cfg option" where
  "generate_from cv 0 c = Some c"
| "generate_from cv (Suc k) c =
     (if \<not> (cc_phase c < numPhases \<and> configFinal c) then Some c
      else if 0 < cc_phase c \<and> cr_rate (cc_read c) = None then
        (if \<not> anyFailed c \<and> cr_familyPolls (cc_read c) < maxFamilyPolls then Some (addFamilyPoll c)
         else (let c1 = (if \<not> anyFailed c then addFailedReq ''no CFG-RATE readback to determine the firmware family'' c else c)
               in Some (c1\<lparr> cc_phase := numPhases \<rparr>)))
      else if needsVer (cc_phase c) \<and> \<not> verFinal c then Some c
      else if needsVersion (cc_phase c) \<and> \<not> versionFinal c then Some c
      else case gen_phase cv (cc_phase c) c of
             None \<Rightarrow> None
           | Some c1 \<Rightarrow> generate_from cv k (c1\<lparr> cc_phase := cc_phase c1 + 1 \<rparr>))"

definition cas_isCfgReq :: "cas_req \<Rightarrow> bool" where
  "cas_isCfgReq q \<longleftrightarrow> cq_onText q = None \<and> cas_isCfg (cq_mid q)"

text \<open>Whether a request holds the slot of the CFG requests.\<close>

definition holds_slot :: "cas_req \<Rightarrow> bool" where
  "holds_slot q \<longleftrightarrow> cq_state q \<in> {CasNotReady, CasReady, CasMayResend} \<or> cq_state q = CasAwaitingAck \<and> cq_speedAfter q = 0"

fun promote_from :: "(16 word \<Rightarrow> bool) \<Rightarrow> bool \<Rightarrow> cas_req list \<Rightarrow> cas_req list" where
  "promote_from live cfgLive [] = []"
| "promote_from live cfgLive (q # qs) =
     (if cq_onText q \<noteq> None then
        (if cq_state q = CasNotReady then q\<lparr> cq_state := CasReady \<rparr> else q) # promote_from live cfgLive qs
      else
        (let isCfg = cas_isCfg (cq_mid q);
             q1 = (if cq_state q = CasNotReady \<and> \<not> live (cq_mid q) \<and> \<not> (isCfg \<and> cfgLive) then q\<lparr> cq_state := CasReady \<rparr> else q);
             live1 = (if cas_final q then live else live(cq_mid q := True));
             cfgLive1 = (cfgLive \<or> isCfg \<and> holds_slot q1)
         in q1 # promote_from live1 cfgLive1 qs))"

definition promote :: "cas_cfg \<Rightarrow> cas_cfg" where
  "promote c = c\<lparr> cc_reqs := promote_from (\<lambda>_. False) False (cc_reqs c) \<rparr>"

definition cas_generateRequests :: "cas_conv \<Rightarrow> cas_cfg \<Rightarrow> cas_cfg option" where
  "cas_generateRequests cv c = map_option promote (generate_from cv numPhases c)"

section \<open>What the receiver sends\<close>

definition upd_req :: "(cas_req \<Rightarrow> cas_req) \<Rightarrow> nat \<Rightarrow> cas_cfg \<Rightarrow> cas_cfg" where
  "upd_req f i c = (if i < length (cc_reqs c) then c\<lparr> cc_reqs := (cc_reqs c)[i := f (cc_reqs c ! i)] \<rparr> else c)"

definition cas_ack :: "16 word \<Rightarrow> bool \<Rightarrow> int \<Rightarrow> cas_cfg \<Rightarrow> cas_cfg" where
  "cas_ack mid ok tRead c =
     (let (qs, r) = cas_handleAck (cr_ver (cc_read c) \<noteq> None) mid ok tRead (cc_reqs c) (cc_read c)
      in c\<lparr> cc_reqs := qs, cc_read := r \<rparr>)"

definition succeed_if :: "casReqState \<Rightarrow> cas_req \<Rightarrow> cas_req" where
  "succeed_if s q = (if cq_state q = s then q\<lparr> cq_state := CasSucceeded \<rparr> else q)"

definition first_index :: "('a \<Rightarrow> bool) \<Rightarrow> 'a list \<Rightarrow> nat option" where
  "first_index P xs = (case filter (\<lambda>i. P (xs ! i)) [0..<length xs] of [] \<Rightarrow> None | i # _ \<Rightarrow> Some i)"

definition cas_nativeMsg :: "cas_msg \<Rightarrow> int \<Rightarrow> cas_cfg \<Rightarrow> cas_cfg" where
  "cas_nativeMsg m tRead c =
     (case m of
        AckM mid ok \<Rightarrow> cas_ack mid ok tRead c
      | MonVerM v \<Rightarrow>
          (let c1 = c\<lparr> cc_read := (cc_read c)\<lparr> cr_ver := Some v \<rparr> \<rparr>
           in case cc_verReq c1 of None \<Rightarrow> c1 | Some i \<Rightarrow> upd_req (succeed_if CasMaybeComplete) i c1)
      | _ \<Rightarrow>
          (case first_index (\<lambda>q. cq_mid q = cas_msgID m \<and> cq_state q = CasAwaitingAck \<and> cq_onData q \<noteq> None) (cc_reqs c) of
             None \<Rightarrow> c
           | Some i \<Rightarrow>
               (case cq_onData (cc_reqs c ! i) of
                  Some (DataRead f) \<Rightarrow> c\<lparr> cc_read := f m (cc_read c) \<rparr>
                | Some DataConfirmSpeed \<Rightarrow>
                    (case cc_speedReq c of None \<Rightarrow> c | Some k \<Rightarrow> upd_req (succeed_if CasAwaitingAck) k c)
                | None \<Rightarrow> c)))"

fun offer_text :: "string \<Rightarrow> cas_req list \<Rightarrow> cas_read \<Rightarrow> cas_req list \<times> cas_read" where
  "offer_text payload [] r = ([], r)"
| "offer_text payload (q # qs) r =
     (case (if cq_state q = CasAwaitingAck then cq_onText q else None) of
        None \<Rightarrow> (let (qs', r') = offer_text payload qs r in (q # qs', r'))
      | Some f \<Rightarrow>
          (case f payload r of
             (True, r') \<Rightarrow> (q\<lparr> cq_state := CasSucceeded \<rparr> # qs, r')
           | (False, r') \<Rightarrow> (let (qs', r'') = offer_text payload qs r' in (q # qs', r''))))"

definition cas_nativeText :: "string \<Rightarrow> cas_cfg \<Rightarrow> cas_cfg" where
  "cas_nativeText payload c =
     (let (qs, r) = offer_text payload (cc_reqs c) (cc_read c) in c\<lparr> cc_reqs := qs, cc_read := r \<rparr>)"

section \<open>What the configurator reports\<close>

definition cas_configProps :: "cas_conv \<Rightarrow> cas_cfg \<Rightarrow> ConfigProps" where
  "cas_configProps cv c =
     (let cp = minElevConfigProps cv c (signalConfigProps c (tmodeConfigProps cv c (tpConfigProps cv c newConfigProps)))
      in case cc_speedReq c of
           Some i \<Rightarrow> (if req_succeeded (Some i) c then setBaudRate (word_of_int (cq_speedAfter (cc_reqs c ! i))) cp else cp)
         | None \<Rightarrow>
             (if usesAny [PropIDBaudRate] (cc_target c)
              then case basePort (cr_ports (cc_read c)) of None \<Rightarrow> cp | Some base \<Rightarrow> setBaudRate (pr_BaudRate base) cp
              else cp))"

text \<open>The constellations as bits, by their numbers.\<close>

definition supportedGNSS :: "cas_cfg \<Rightarrow> 32 word" where
  "supportedGNSS c =
     (let set1 = push_bit 1 1 OR push_bit 3 1 OR push_bit 4 1
      in if cas_v6 c then set1 OR push_bit 2 1 OR push_bit 5 1 OR push_bit 7 1 OR push_bit 6 1 else set1)"

record ReceiverInfo =
  ri_Vendor :: string
  ri_SupportedGNSS :: "32 word"
  ri_Firmware :: string
  ri_Hardware :: string
  ri_VendorSpecific :: "cas_ver option"

definition trimPrefix :: "string \<Rightarrow> string \<Rightarrow> string" where
  "trimPrefix pre s = (if take (length pre) s = pre then drop (length pre) s else s)"

definition receiverInfo :: "cas_cfg \<Rightarrow> ReceiverInfo" where
  "receiverInfo c =
     (let r = cc_read c;
          info = \<lparr> ri_Vendor = ''Zhongke'', ri_SupportedGNSS = supportedGNSS c, ri_Firmware = [], ri_Hardware = [], ri_VendorSpecific = None \<rparr>
      in case cr_ver r of
           Some v \<Rightarrow> info\<lparr> ri_Firmware := trimPrefix ''SW='' (mv_SwVersion v), ri_Hardware := mv_HwVersion v, ri_VendorSpecific := Some v \<rparr>
         | None \<Rightarrow> info\<lparr> ri_Firmware := cr_pcasSW r, ri_Hardware := cr_pcasHW r \<rparr>)"

section \<open>The interface\<close>

definition cas_update :: "(cas_req \<Rightarrow> cas_req option) \<Rightarrow> nat \<Rightarrow> cas_cfg \<Rightarrow> cas_cfg" where
  "cas_update f = upd_req (\<lambda>q. case f q of None \<Rightarrow> q | Some q' \<Rightarrow> q')"

definition cas_requestCount :: "cas_cfg \<Rightarrow> nat \<times> bool" where
  "cas_requestCount c = (length (cc_reqs c), cc_phase c = numPhases \<and> allFinal c)"

text \<open>\<^verbatim>\<open>GenerateRequests\<close> returns no error; the panics of the generators stand in its place.\<close>

definition cas_configurator :: "cas_conv \<Rightarrow> cas_cfg configurator" where
  "cas_configurator cv =
     \<lparr> generateRequests = (\<lambda>c. case cas_generateRequests cv c of None \<Rightarrow> (Some ''panic'', c) | Some c' \<Rightarrow> (None, c')),
       getRequestCount = cas_requestCount,
       getState = (\<lambda>c i. cas_getState (cc_reqs c ! i)),
       getPacket = (\<lambda>c i. case cas_getPacket (cc_reqs c ! i) of None \<Rightarrow> [] | Some p \<Rightarrow> p),
       getSpeedChangeAfter = (\<lambda>c i. case cas_getSpeedChangeAfter (cc_reqs c ! i) of None \<Rightarrow> 0 | Some s \<Rightarrow> s),
       getDeadline = (\<lambda>c i. case cas_getDeadline (cc_reqs c ! i) of None \<Rightarrow> zeroTime | Some t \<Rightarrow> t),
       getError = (\<lambda>c i. case cas_getError (cc_reqs c ! i) of Some (Some e) \<Rightarrow> e | _ \<Rightarrow> []),
       setDeadlinePassed = cas_update cas_setDeadlinePassed,
       setWontResend = cas_update cas_setWontResend,
       maybeSpeedChangeSucceeded = (\<lambda>i t. cas_update (\<lambda>q. Some (cas_maybeSpeedChangeSucceeded t q)) i) \<rparr>"

section \<open>Probing\<close>

record cas_protocol =
  pp_rate :: "cas_rate option"
  pp_probed :: bool
  pp_tProbed :: int
  pp_pollsPending :: int
  pp_cfg :: "cas_cfg option"

definition newCasProtocol :: cas_protocol where
  "newCasProtocol = \<lparr> pp_rate = None, pp_probed = False, pp_tProbed = zeroTime, pp_pollsPending = 0, pp_cfg = None \<rparr>"

definition probeStragglerWindow :: int where "probeStragglerWindow = 6 * nsPerSecond"

definition cas_probe :: "int \<Rightarrow> cas_protocol \<Rightarrow> cas_protocol" where
  "cas_probe tRead p = (if \<not> pp_probed p then p\<lparr> pp_probed := True, pp_tProbed := tRead \<rparr> else p)"

definition probeMsg :: "cas_msg \<Rightarrow> int \<Rightarrow> cas_protocol \<Rightarrow> cas_protocol" where
  "probeMsg m tRead p =
     (let straggler = (0 < pp_pollsPending p \<and> (pp_tProbed p = zeroTime \<or> time_sub tRead (pp_tProbed p) \<le> probeStragglerWindow));
          rest = (case pp_cfg p of
                    Some c \<Rightarrow> p\<lparr> pp_cfg := Some (cas_nativeMsg m tRead c) \<rparr>
                  | None \<Rightarrow>
                      (case m of
                         CfgRateM r \<Rightarrow> if 0 < pp_pollsPending p then cas_probe tRead (p\<lparr> pp_rate := Some r \<rparr>) else p
                       | _ \<Rightarrow> p))
      in case m of
           AckM mid ok \<Rightarrow>
             (if straggler \<and> mid = CfgRateID then
                (let p1 = p\<lparr> pp_pollsPending := pp_pollsPending p - 1 \<rparr> in if ok then cas_probe tRead p1 else p1)
              else rest)
         | _ \<Rightarrow> rest)"

definition probeText :: "string \<Rightarrow> cas_protocol \<Rightarrow> cas_protocol" where
  "probeText payload p = p\<lparr> pp_cfg := map_option (cas_nativeText payload) (pp_cfg p) \<rparr>"

definition probePackets :: "cas_protocol \<Rightarrow> (bytes list \<times> int) \<times> cas_protocol" where
  "probePackets p = (([poll_packet CfgRateID], 0), p\<lparr> pp_pollsPending := pp_pollsPending p + 1 \<rparr>)"

definition cas_configure :: "ConfigTarget \<Rightarrow> cas_protocol \<Rightarrow> cas_protocol option" where
  "cas_configure tgt p =
     (if \<not> pp_probed p then None else Some (p\<lparr> pp_cfg := Some (newConfigurator tgt (pp_rate p)) \<rparr>))"

end
