(* ===== verification/CasSafety.thy ===== *)
theory CasSafety
  imports CasConfig
begin

text \<open>
  What holds of the CASIC configurator through any sequence of events: at most one CFG request awaits its answer, a
  restart is requested only when everything before it has ended well, and no generator panics. The invariants are
  proved event by event; the contract with the director follows.
\<close>

section \<open>Events\<close>

datatype cas_event = CasSent nat int | CasMsg cas_msg int | CasText string | CasLate nat | CasWont nat
  | CasSpeed nat int | CasGenerate

text \<open>The calls that may be made of the configurator; of one that panics nothing is left but the state before.\<close>

definition cas_step :: "cas_conv \<Rightarrow> cas_event \<Rightarrow> cas_cfg \<Rightarrow> cas_cfg" where
  "cas_step cv e c =
     (case e of
        CasSent i t \<Rightarrow> cas_update (cas_setSentTime t) i c
      | CasMsg m t \<Rightarrow> cas_nativeMsg m t c
      | CasText s \<Rightarrow> cas_nativeText s c
      | CasLate i \<Rightarrow> cas_update cas_setDeadlinePassed i c
      | CasWont i \<Rightarrow> cas_update cas_setWontResend i c
      | CasSpeed i t \<Rightarrow> cas_update (\<lambda>q. Some (cas_maybeSpeedChangeSucceeded t q)) i c
      | CasGenerate \<Rightarrow> (case cas_generateRequests cv c of None \<Rightarrow> c | Some c' \<Rightarrow> c'))"

definition cas_run :: "cas_conv \<Rightarrow> cas_event list \<Rightarrow> cas_cfg \<Rightarrow> cas_cfg" where
  "cas_run cv es c = fold (cas_step cv) es c"

lemma cas_run_inv:
  assumes "I c" "\<And>e c. I c \<Longrightarrow> I (cas_step cv e c)"
  shows "I (cas_run cv es c)"
  using assms(1) by (induction es arbitrary: c) (simp_all add: cas_run_def assms(2))

section \<open>What an event does to a request\<close>

text \<open>No event but a generation readies a request, and a request that has ended stays as it is.\<close>

definition req_step :: "cas_req \<Rightarrow> cas_req \<Rightarrow> bool" where
  "req_step q q' \<longleftrightarrow> (cq_mid q', cq_onText q', cq_speedAfter q', cq_noAck q') = (cq_mid q, cq_onText q, cq_speedAfter q, cq_noAck q)
     \<and> (cq_onAck q', cq_onData q', cq_verPoll q') = (cq_onAck q, cq_onData q, cq_verPoll q)
     \<and> (cq_state q' = CasNotReady \<longleftrightarrow> cq_state q = CasNotReady) \<and> (cas_final q \<longrightarrow> q' = q)
     \<and> (cq_state q = CasMaybeComplete \<longrightarrow> cq_state q' = CasMaybeComplete \<or> cas_final q')
     \<and> (cq_state q' = CasMaybeComplete \<longrightarrow> cq_state q = CasMaybeComplete \<or> cq_verPoll q)"

lemma req_step_refl [simp]: "req_step q q"
  by (simp add: req_step_def)

lemma steps_refl [simp]: "list_all2 req_step qs qs"
  by (simp add: list.rel_refl)

lemma step_update: "(\<And>q'. f (qs ! i) = Some q' \<Longrightarrow> req_step (qs ! i) q') \<Longrightarrow>
    list_all2 req_step qs (qs[i := case f (qs ! i) of None \<Rightarrow> qs ! i | Some q' \<Rightarrow> q'])"
  by (cases "i < length qs") (auto simp: list_all2_conv_all_nth nth_list_update split: option.split)

lemma step_sent: "cas_setSentTime t q = Some q' \<Longrightarrow> req_step q q'"
  by (auto simp: cas_setSentTime_def req_step_def cas_final_def split: if_splits)

lemma step_late: "cas_setDeadlinePassed q = Some q' \<Longrightarrow> req_step q q'"
  by (auto simp: cas_setDeadlinePassed_def req_step_def cas_final_def split: casReqState.splits)

lemma step_wont: "cas_setWontResend q = Some q' \<Longrightarrow> req_step q q'"
  by (auto simp: cas_setWontResend_def req_step_def cas_final_def split: if_splits)

lemma step_speed: "req_step q (cas_maybeSpeedChangeSucceeded t q)"
  by (auto simp: cas_maybeSpeedChangeSucceeded_def req_step_def cas_final_def)

lemma step_succeed: "s = CasMaybeComplete \<or> s = CasAwaitingAck \<Longrightarrow> req_step q (succeed_if s q)"
  by (auto simp: succeed_if_def req_step_def cas_final_def)

lemma step_await:
  assumes "cq_state q = CasAwaitingAck" "s \<noteq> CasNotReady" "s = CasMaybeComplete \<longrightarrow> cq_verPoll q"
  shows "req_step q (q\<lparr> cq_state := s \<rparr>)" "req_step q (q\<lparr> cq_state := s, cq_tBase := t \<rparr>)" "req_step q (q\<lparr> cq_state := s, cq_err := e \<rparr>)"
  using assms by (simp_all add: req_step_def cas_final_def)

lemma step_ack: "list_all2 req_step qs (fst (cas_handleAck known mid ack t qs r))"
  by (induction known mid ack t qs r rule: cas_handleAck.induct)
    (auto simp: step_await split: prod.split)

lemma step_text: "list_all2 req_step qs (fst (offer_text payload qs r))"
proof (induction payload qs r rule: offer_text.induct)
  case (2 payload q qs r)
  show ?case
  proof (cases "if cq_state q = CasAwaitingAck then cq_onText q else None")
    case None
    obtain qs' r' where "offer_text payload qs r = (qs', r')" by fastforce
    then show ?thesis using 2(1) [OF None] None by simp
  next
    case (Some f)
    then have "cq_state q = CasAwaitingAck" by (simp split: if_splits)
    moreover obtain b r' where f: "f payload r = (b, r')" by fastforce
    ultimately show ?thesis using 2(2) [OF Some f [symmetric]] Some f
      by (cases b) (auto simp: step_await split: prod.splits)
  qed
qed simp

text \<open>An event other than a generation, as a whole.\<close>

definition cas_frame :: "cas_cfg \<Rightarrow> cas_cfg \<Rightarrow> bool" where
  "cas_frame c c' \<longleftrightarrow> list_all2 req_step (cc_reqs c) (cc_reqs c') \<and> cc_target c' = cc_target c \<and> cc_phase c' = cc_phase c \<and>
     cc_saveReq c' = cc_saveReq c \<and> cc_speedReq c' = cc_speedReq c \<and> cc_verReq c' = cc_verReq c \<and> cc_panic c' = cc_panic c"

lemma frame_refl [simp]: "cas_frame c c"
  by (simp add: cas_frame_def)

lemma frame_read [simp]: "cas_frame c (c\<lparr> cc_read := r \<rparr>)"
  by (simp add: cas_frame_def)

lemma frame_update:
  assumes "\<And>q q'. f q = Some q' \<Longrightarrow> req_step q q'"
  shows "cas_frame c (cas_update f i c)"
  using step_update [of f "cc_reqs c" i] assms by (simp add: cas_frame_def cas_update_def upd_req_def)

lemma frame_upd_req: "(\<And>q. req_step q (f q)) \<Longrightarrow> cas_frame c (upd_req f i c)"
  using step_update [of "Some \<circ> f" "cc_reqs c" i] by (simp add: cas_frame_def upd_req_def)

lemma frame_cong: "cas_frame (c\<lparr> cc_read := r \<rparr>) c' = cas_frame c c'"
  by (simp add: cas_frame_def)

lemma frame_native: "cas_frame c (cas_nativeMsg m t c)"
proof -
  have ack: "cas_frame c (cas_ack mid ok t c)" for mid ok
    using step_ack [of "cc_reqs c" "cr_ver (cc_read c) \<noteq> None" mid ok t "cc_read c"]
    by (auto simp: cas_ack_def cas_frame_def split: prod.split)
  have upd: "cas_frame c (upd_req (succeed_if s) i (c\<lparr> cc_read := r \<rparr>))" if "s = CasMaybeComplete \<or> s = CasAwaitingAck" for s i r
    using frame_upd_req [OF step_succeed [OF that], of "c\<lparr> cc_read := r \<rparr>"] by (simp add: frame_cong)
  have upd': "cas_frame c (upd_req (succeed_if CasAwaitingAck) i c)" for i
    by (rule frame_upd_req, rule step_succeed) simp
  show ?thesis
    by (auto simp: cas_nativeMsg_def ack upd upd' Let_def split: cas_msg.split option.split cas_data.split)
qed

lemma frame_text: "cas_frame c (cas_nativeText payload c)"
  using step_text [of "cc_reqs c" payload "cc_read c"] by (auto simp: cas_nativeText_def cas_frame_def split: prod.split)

lemma frame_step: "e \<noteq> CasGenerate \<Longrightarrow> cas_frame c (cas_step cv e c)"
proof (cases e)
  case (CasSent i t)
  then show ?thesis by (simp add: cas_step_def frame_update [OF step_sent])
next
  case (CasLate i)
  then show ?thesis by (simp add: cas_step_def frame_update [OF step_late])
next
  case (CasWont i)
  then show ?thesis by (simp add: cas_step_def frame_update [OF step_wont])
next
  case (CasSpeed i t)
  have "cas_frame c (cas_update (\<lambda>q. Some (cas_maybeSpeedChangeSucceeded t q)) i c)"
    by (rule frame_update) (simp add: step_speed)
  then show ?thesis using CasSpeed by (simp add: cas_step_def)
qed (simp_all add: cas_step_def frame_native frame_text)

section \<open>What a generation does\<close>

text \<open>What is promoted, when the slot of the CFG requests is taken (\<open>live\<close>) and when it is not.\<close>

definition promoted :: "bool \<Rightarrow> cas_req \<Rightarrow> cas_req \<Rightarrow> bool" where
  "promoted live q q' \<longleftrightarrow> q' = q \<or> cq_state q = CasNotReady \<and> q' = q\<lparr> cq_state := CasReady \<rparr> \<and> \<not> (live \<and> cas_isCfgReq q)"

lemma promote_each: "list_all2 (promoted live) qs (promote_from used live qs)"
proof (induction qs arbitrary: used live)
  case (Cons q qs)
  have mono: "list_all2 (promoted live) qs (promote_from used' (live \<or> x) qs)" for used' x
    using Cons.IH [of "live \<or> x" used'] by (rule list_all2_mono) (auto simp: promoted_def)
  have none: "promoted live q q" by (simp add: promoted_def)
  have ready: "promoted live q (q\<lparr> cq_state := CasReady \<rparr>)" if "cq_state q = CasNotReady" "\<not> (live \<and> cas_isCfgReq q)"
    using that by (simp add: promoted_def)
  show ?case
    using Cons.IH mono none ready by (auto simp: cas_isCfgReq_def Let_def)
qed simp

lemma promote_length [simp]: "length (promote_from used live qs) = length qs"
  using promote_each [of live qs used] by (simp add: list_all2_lengthD)

text \<open>
  What the generators rely on after the family is known: the rate is known, and the time mode that was read is that of
  the family.
\<close>

definition known :: "fwFamily \<Rightarrow> cas_read \<Rightarrow> bool" where
  "known fam r \<longleftrightarrow> cr_family r = fam \<and> cr_rate r \<noteq> None \<and> (if fam = FamilyV6 then cr_tm5 r = None else cr_tm6 r = None)"

definition keeps :: "(cas_read \<Rightarrow> bool) \<Rightarrow> (cas_read \<Rightarrow> cas_read) \<Rightarrow> bool" where
  "keeps K f \<longleftrightarrow> (\<forall>r. K r \<longrightarrow> K (f r))"

definition safe_req :: "(cas_read \<Rightarrow> bool) \<Rightarrow> cas_req \<Rightarrow> bool" where
  "safe_req K q \<longleftrightarrow> (case cq_onAck q of None \<Rightarrow> True | Some f \<Rightarrow> keeps K f)
     \<and> (case cq_onData q of Some (DataRead f) \<Rightarrow> (\<forall>m. keeps K (f m)) | _ \<Rightarrow> True)
     \<and> (case cq_onText q of None \<Rightarrow> True | Some f \<Rightarrow> (\<forall>s. keeps K (\<lambda>r. snd (f s r))))"

definition read_core :: "cas_read \<Rightarrow> fwFamily \<times> cas_rate option \<times> cas_tmode option \<times> cas_tmode2 option" where
  "read_core r = (cr_family r, cr_rate r, cr_tm5 r, cr_tm6 r)"

lemma known_core: "read_core r' = read_core r \<Longrightarrow> known fam r' = known fam r"
  unfolding read_core_def known_def prod.inject by metis

lemma keeps_core: "(\<And>r. read_core (f r) = read_core r) \<Longrightarrow> keeps (known fam) f"
  unfolding keeps_def using known_core by blast

text \<open>The requests that are new: not ready yet, or failed from the start. Only a restart expects no answer.\<close>

definition fresh_req :: "bool \<Rightarrow> fwFamily \<Rightarrow> cas_req \<Rightarrow> bool" where
  "fresh_req rst fam q \<longleftrightarrow> (cq_state q = CasNotReady \<or> cq_state q = CasFailed) \<and> (cq_noAck q \<longrightarrow> rst) \<and> safe_req (known fam) q"

definition reqs_extend :: "bool \<Rightarrow> cas_cfg \<Rightarrow> cas_cfg \<Rightarrow> bool" where
  "reqs_extend rst c c' \<longleftrightarrow> (\<exists>qs. cc_reqs c' = cc_reqs c @ qs \<and> list_all (fresh_req rst (cr_family (cc_read c))) qs)
     \<and> cc_target c' = cc_target c \<and> cc_phase c' = cc_phase c \<and> cc_saveReq c' = cc_saveReq c \<and> read_core (cc_read c') = read_core (cc_read c)
     \<and> cc_panic c' = cc_panic c"

lemma extend_family: "reqs_extend rst c c' \<Longrightarrow> cr_family (cc_read c') = cr_family (cc_read c)"
  by (simp add: reqs_extend_def read_core_def)

lemma extend_v6: "reqs_extend rst c c' \<Longrightarrow> cas_v6 c' = cas_v6 c"
  by (simp add: cas_v6_def extend_family)

lemma extend_refl [simp]: "reqs_extend rst c c"
  by (simp add: reqs_extend_def)

lemma extend_trans [trans]: "reqs_extend rst c c1 \<Longrightarrow> reqs_extend rst c1 c2 \<Longrightarrow> reqs_extend rst c c2"
  using extend_family [of rst c c1] by (auto simp: reqs_extend_def)

lemma extend_more: "reqs_extend False c c' \<Longrightarrow> reqs_extend rst c c'"
  by (auto simp: reqs_extend_def fresh_req_def list_all_iff)

lemma extend_read: "read_core r = read_core (cc_read c) \<Longrightarrow> reqs_extend rst c (c\<lparr> cc_read := r \<rparr>)"
  by (simp add: reqs_extend_def)

lemma extend_touch [simp]: "reqs_extend rst c (touchNoOp sct c)"
  by (simp add: touchNoOp_def extend_read read_core_def)

lemma extend_failed [simp]: "reqs_extend rst c (addFailedReq err c)"
  by (simp add: addFailedReq_def reqs_extend_def fresh_req_def zero_req_def safe_req_def)

lemma extend_add:
  assumes "safe_req (known (cr_family (cc_read c))) q" "cq_noAck q \<longrightarrow> rst"
  shows "reqs_extend rst c (cas_add q c)"
  using assms by (simp add: cas_add_def reqs_extend_def fresh_req_def safe_req_def)

lemma keeps_record:
  assumes "case g of None \<Rightarrow> True | Some f \<Rightarrow> keeps (known fam) f"
  shows "keeps (known fam) (record_set sct b g)"
proof -
  have "known fam (r\<lparr> cr_touched := x, cr_msgEnabled := y \<rparr>) = known fam r" "known fam (r\<lparr> cr_touched := x \<rparr>) = known fam r" for r x y
    by (simp_all add: known_def)
  then show ?thesis using assms by (cases g) (simp_all add: keeps_def record_set_def Let_def)
qed

lemma extend_addMsg:
  assumes "safe_req (known (cr_family (cc_read c))) q" "cq_noAck q \<longrightarrow> rst"
  shows "reqs_extend rst c (addMsg m q c)"
proof -
  have "keeps (known (cr_family (cc_read c))) (record_set sct b (cq_onAck q))" for sct b
    by (rule keeps_record) (use assms(1) in \<open>simp add: safe_req_def\<close>)
  moreover obtain p q1 where "addMsg m q c = cas_add (q1\<lparr> cq_mid := cas_msgID m, cq_packet := p \<rparr>) c"
    "q1 = q \<or> q1 = q\<lparr> cq_onAck := Some (record_set (setSection m) (msgEnablesOutput m) (cq_onAck q)) \<rparr>" by (rule addMsg_adds)
  ultimately show ?thesis
    by (auto simp: safe_req_def assms(2) intro!: extend_add) (use assms in \<open>auto simp: safe_req_def\<close>)
qed

lemma safe_zero [simp]: "safe_req K zero_req" "\<not> cq_noAck zero_req"
  by (simp_all add: safe_req_def zero_req_def)

lemma safe_upd [simp]:
  "safe_req K (q\<lparr> cq_nakOK := a \<rparr>) = safe_req K q" "safe_req K (q\<lparr> cq_noAck := a \<rparr>) = safe_req K q"
  "safe_req K (q\<lparr> cq_optional := a \<rparr>) = safe_req K q" "safe_req K (q\<lparr> cq_verPoll := a \<rparr>) = safe_req K q"
  "safe_req K (q\<lparr> cq_speedAfter := s \<rparr>) = safe_req K q" "safe_req K (q\<lparr> cq_mid := mid \<rparr>) = safe_req K q"
  "safe_req K (q\<lparr> cq_packet := p \<rparr>) = safe_req K q"
  by (simp_all add: safe_req_def)

lemma extend_addReq [simp]: "reqs_extend rst c (addReq m c)" "reqs_extend rst c (addReqNakOK m c)"
  by (simp_all add: addReq_def addReqNakOK_def extend_addMsg)

lemma extend_addSet:
  assumes "keeps (known (cr_family (cc_read c))) f"
  shows "reqs_extend rst c (addSetReq m f c)"
  unfolding addSetReq_def by (rule extend_addMsg) (use assms in \<open>simp_all add: safe_req_def zero_req_def\<close>)

lemma extend_addPoll:
  assumes "\<And>m. keeps (known (cr_family (cc_read c))) (\<lambda>r. case g m r of None \<Rightarrow> r | Some r' \<Rightarrow> r')"
  shows "reqs_extend rst c (addPollReq mid (read_data g) c)"
  unfolding addPollReq_def by (rule extend_add) (use assms in \<open>simp_all add: safe_req_def zero_req_def read_data_def\<close>)

lemma extend_addRate [simp]: "reqs_extend rst c (addMsgRate mid on c)"
  by (simp add: addMsgRate_def)

lemma extend_fold:
  assumes "\<And>x c. reqs_extend rst c (f x c)"
  shows "reqs_extend rst c (fold f xs c)"
  by (induction xs arbitrary: c) (auto intro: extend_trans assms)

section \<open>The generators\<close>

lemma ext_fin:
  "reqs_extend rst c c1 \<Longrightarrow> cas_v6 c1 = cas_v6 c"
  "reqs_extend rst c c1 \<Longrightarrow> cc_target c1 = cc_target c"
  by (simp_all add: extend_v6) (simp add: reqs_extend_def)

lemma core_upd [simp]:
  "read_core (r\<lparr> cr_tp := a \<rparr>) = read_core r" "read_core (r\<lparr> cr_navBand := b \<rparr>) = read_core r"
  "read_core (r\<lparr> cr_navx := n \<rparr>) = read_core r" "read_core (r\<lparr> cr_navLimit := l \<rparr>) = read_core r"
  "read_core (r\<lparr> cr_ports := ps \<rparr>) = read_core r" "read_core (r\<lparr> cr_survey := s \<rparr>) = read_core r"
  "read_core (r\<lparr> cr_pcasSW := sw \<rparr>) = read_core r" "read_core (r\<lparr> cr_pcasHW := hw \<rparr>) = read_core r"
  by (simp_all add: read_core_def)

lemma extend_coreSet: "(\<And>r. read_core (f r) = read_core r) \<Longrightarrow> reqs_extend rst c (addSetReq m f c)"
  by (rule extend_addSet, rule keeps_core)

lemma extend_corePoll:
  "(\<And>m r. read_core (case g m r of None \<Rightarrow> r | Some r' \<Rightarrow> r') = read_core r) \<Longrightarrow> reqs_extend rst c (addPollReq mid (read_data g) c)"
  by (rule extend_addPoll, rule keeps_core)

lemma extend_TPQuery [simp]: "reqs_extend rst c (generateTPQuery c)"
  by (auto simp: generateTPQuery_def intro!: extend_corePoll split: cas_msg.split)

lemma extend_TModeQuery [simp]: "reqs_extend rst c (generateTModeQuery c)"
proof -
  have keep5: "keeps (known FamilyV5) (\<lambda>r. case (case m of CfgTModeM tm \<Rightarrow> Some (r\<lparr> cr_tm5 := Some tm \<rparr>) | _ \<Rightarrow> None) of None \<Rightarrow> r | Some r' \<Rightarrow> r')" for m
    by (cases m) (auto simp: keeps_def known_def)
  have keep6: "keeps (known FamilyV6) (\<lambda>r. case (case m of CfgTMode2M tm \<Rightarrow> Some (r\<lparr> cr_tm6 := Some tm \<rparr>) | _ \<Rightarrow> None) of None \<Rightarrow> r | Some r' \<Rightarrow> r')" for m
    by (cases m) (auto simp: keeps_def known_def)
  show ?thesis
    by (cases "cr_family (cc_read c)") (auto simp: generateTModeQuery_def cas_v6_def keep5 keep6 intro!: extend_addPoll)
qed

lemma extend_pollNav [simp]: "reqs_extend rst c (pollNavBand c)" "reqs_extend rst c (pollNavx c)"
  by (auto simp: pollNavBand_def pollNavx_def intro!: extend_corePoll split: cas_msg.split)

lemma extend_SignalQuery [simp]: "reqs_extend rst c (generateSignalQuery c)"
  by (simp add: generateSignalQuery_def)

lemma extend_MinElevQuery [simp]: "reqs_extend rst c (generateMinElevQuery c)"
  by (auto simp: generateMinElevQuery_def intro!: extend_corePoll split: cas_msg.split)

lemma extend_pollPrt [simp]: "reqs_extend rst c (pollPrt c)"
  by (auto simp: pollPrt_def intro!: extend_corePoll split: cas_msg.split)

lemma extend_addText:
  assumes "\<And>s r. read_core (snd (f s r)) = read_core r"
  shows "reqs_extend rst c (addTextReq p f c)"
  unfolding addTextReq_def
  by (rule extend_add) (use assms in \<open>simp_all add: safe_req_def zero_req_def keeps_core\<close>)

lemma extend_VerQuery [simp]: "reqs_extend rst c (generateVerQuery c)"
proof -
  have ver: "reqs_extend rst c ((addMsg m q c)\<lparr> cc_verReq := i \<rparr>)"
    if "reqs_extend rst c (addMsg m q c)" for m q i using that by (simp add: reqs_extend_def)
  have info: "reqs_extend rst c (addInfoQuery x key dst c)" if "\<And>v r. read_core (dst v r) = read_core r" for x key dst c
    unfolding addInfoQuery_def by (rule extend_addText) (auto simp: that split: option.split prod.split)
  have "reqs_extend rst c (addInfoQuery x key dst (addInfoQuery x' key' dst' c))"
    if "\<And>v r. read_core (dst v r) = read_core r" "\<And>v r. read_core (dst' v r) = read_core r" for x key dst x' key' dst'
    using info [OF that(2)] info [OF that(1)] by (rule extend_trans)
  then show ?thesis by (simp add: generateVerQuery_def ver extend_addMsg)
qed

lemma extend_QueryReqs: "reqs_extend rst c (cas_generateQueryReqs c)"
  by (auto simp: cas_generateQueryReqs_def Let_def intro!: extend_trans [OF _ extend_pollPrt] extend_trans [OF _ extend_MinElevQuery]
    extend_trans [OF _ extend_SignalQuery] extend_trans [OF _ extend_TModeQuery] extend_trans [OF _ extend_TPQuery])

lemma extend_TPSet [simp]: "reqs_extend rst c (generateTPSet cv c)"
  by (auto simp: generateTPSet_def Let_def intro!: extend_coreSet split: option.split)

lemma extend_SignalSet [simp]: "reqs_extend rst c (generateSignalSet c)"
  by (auto simp: generateSignalSet_def Let_def addNoSignals_def upd_navx_def intro!: extend_coreSet extend_trans [OF _ extend_pollNav(1)]
    split: option.split prod.split)

lemma extend_MinElevSet [simp]: "reqs_extend rst c (generateMinElevSet cv c)"
  by (auto simp: generateMinElevSet_def Let_def upd_navx_def intro!: extend_coreSet split: option.split prod.split)

lemma extend_addTModeSet:
  assumes "addTModeSet cv tt force c = Some c'"
  shows "reqs_extend rst c c'"
proof -
  have keep6: "keeps (known FamilyV6) (\<lambda>r. r\<lparr> cr_tm6 := Some m \<rparr>)" for m
    by (simp add: keeps_def known_def)
  have keep5: "keeps (known FamilyV5) (\<lambda>r. r\<lparr> cr_tm5 := Some m \<rparr>)" for m
    by (simp add: keeps_def known_def)
  show ?thesis using assms
    by (cases "cr_family (cc_read c)")
      (auto simp: addTModeSet_def cas_v6_def Let_def keep5 keep6 intro!: extend_addSet split: option.splits if_splits)
qed

lemma addTModeSet_some:
  assumes "known fam (cc_read c)" "snd (curTModeMode (cc_read c))"
  shows "addTModeSet cv tt force c \<noteq> None"
  using assms by (cases fam) (auto simp: addTModeSet_def known_def curTModeMode_def cas_v6_def Let_def split: option.splits)

lemma cur_core:
  assumes "read_core r' = read_core r"
  shows "curTModeMode r' = curTModeMode r"
proof -
  have "cr_tm5 r' = cr_tm5 r" "cr_tm6 r' = cr_tm6 r" using assms by (simp_all add: read_core_def)
  then show ?thesis by (simp add: curTModeMode_def split: option.split)
qed

lemma TModeSet_ok:
  assumes "known fam (cc_read c)"
  shows "\<exists>c'. generateTModeSet cv c = Some c' \<and> reqs_extend rst c c'"
proof -
  have add: "\<exists>c2. addTModeSet cv tt force c1 = Some c2 \<and> reqs_extend rst c c2"
    if "reqs_extend rst c c1" "snd (curTModeMode (cc_read c))" for tt force c1
  proof -
    have core: "read_core (cc_read c1) = read_core (cc_read c)" using that(1) by (simp add: reqs_extend_def)
    then have "known fam (cc_read c1)" "snd (curTModeMode (cc_read c1))"
      using known_core [OF core] cur_core [OF core] assms that(2) by simp_all
    then obtain c2 where "addTModeSet cv tt force c1 = Some c2" using addTModeSet_some by blast
    then show ?thesis using extend_addTModeSet extend_trans [OF that(1)] by blast
  qed
  have survey: "reqs_extend rst c (if b then c\<lparr> cc_read := (cc_read c)\<lparr> cr_survey := True \<rparr> \<rparr> else c)" for b
    by (simp add: extend_read)
  have twice: "\<exists>c2. Option.bind (addTModeSet cv tt0 force0 c1) (addTModeSet cv tt force) = Some c2 \<and> reqs_extend rst c c2"
    if "reqs_extend rst c c1" "snd (curTModeMode (cc_read c))" for tt0 force0 tt force c1
  proof -
    from add [OF that] obtain c2 where "addTModeSet cv tt0 force0 c1 = Some c2" "reqs_extend rst c c2" by blast
    then show ?thesis using add [OF _ that(2)] by simp
  qed
  obtain cur ok where cur: "curTModeMode (cc_read c) = (cur, ok)" by fastforce
  show ?thesis
  proof (cases "\<not> snd (getMode (ctg_Props (cc_target c))) \<and> \<not> co_SetStatic (ctg_Opts (cc_target c)) \<or> \<not> ok \<or>
      tmode_wanted (cc_target c) cur = None")
    case True
    then show ?thesis using cur by (auto simp: generateTModeSet_def Let_def)
  next
    case False
    then obtain md where md: "tmode_wanted (cc_target c) cur = Some md" and ok: "snd (curTModeMode (cc_read c))" using cur by auto
    define tt where "tt = newTModeTarget cv md (co_Survey (ctg_Opts (cc_target c)))"
    define c1 where "c1 = (if tt_mode tt = tmodeTargetSurvey then c\<lparr> cc_read := (cc_read c)\<lparr> cr_survey := True \<rparr> \<rparr> else c)"
    have c1: "reqs_extend rst c c1" unfolding c1_def by (rule survey)
    have "generateTModeSet cv c = addTModeSet cv tt False c1 \<or>
        generateTModeSet cv c = Option.bind (addTModeSet cv (zero_tmode\<lparr> tt_mode := tmodeTargetMobile \<rparr>) False c1) (addTModeSet cv tt True)"
      using False md cur by (auto simp: generateTModeSet_def Let_def c1_def tt_def)
    then show ?thesis using add [OF c1 ok] twice [OF c1 ok] by metis
  qed
qed

lemma SetReqs_ok:
  assumes "known fam (cc_read c)"
  shows "\<exists>c'. generateSetReqs cv c = Some c' \<and> reqs_extend rst c c'"
proof -
  have tp: "reqs_extend rst c (generateTPSet cv c)" by simp
  then have "known fam (cc_read (generateTPSet cv c))"
    using assms known_core [of "cc_read (generateTPSet cv c)" "cc_read c"] by (simp add: reqs_extend_def)
  then obtain c1 where c1: "generateTModeSet cv (generateTPSet cv c) = Some c1" "reqs_extend rst (generateTPSet cv c) c1"
    using TModeSet_ok by blast
  have "reqs_extend rst c (generateMinElevSet cv (generateSignalSet c1))"
    by (rule extend_trans [OF _ extend_MinElevSet], rule extend_trans [OF _ extend_SignalSet], rule extend_trans [OF tp c1(2)])
  then show ?thesis using c1 by (simp add: generateSetReqs_def)
qed

lemma extend_MsgReqs: "reqs_extend rst c (generateMsgReqs c)"
proof -
  have raw: "reqs_extend rst c (generateRawReqs f c)" for f c
    by (auto simp: generateRawReqs_def intro!: extend_trans [OF extend_addRate extend_addRate])
  have sats: "reqs_extend rst c (generateSatsReqs f c)" for f c
    by (simp add: generateSatsReqs_def extend_fold del: fold_Cons)
  have nmea1: "reqs_extend rst c (nmea_rate f x c)" for f x c
    by (cases x) (simp add: nmea_rate_def)
  have nmea: "reqs_extend rst c (generateNMEAReqs f c)" for f c
    by (auto simp: generateNMEAReqs_def Let_def extend_fold nmea1 simp del: fold_Cons intro!: extend_trans [OF extend_fold extend_fold])
  have set1: "reqs_extend rst c c1 \<Longrightarrow> reqs_extend rst c (pvt_set off mid want c1)" for c c1 off mid want
    using extend_trans [OF _ extend_addRate] by (simp add: pvt_set_def)
  have v6: "reqs_extend rst c c1 \<Longrightarrow> reqs_extend rst c (pvt_v6 f off c1)" for c c1 f off
    by (simp add: pvt_v6_def Let_def set1)
  have tim: "reqs_extend rst c c1 \<Longrightarrow> reqs_extend rst c (generateTimTPReqs tp off c1)" for c c1 tp off
    using extend_trans [OF _ extend_addRate] by (simp add: generateTimTPReqs_def Let_def)
  have pvt: "reqs_extend rst c (generatePVTReqs f c)" for f c
    by (simp add: generatePVTReqs_def Let_def tim v6 set1)
  show ?thesis
    unfolding generateMsgReqs_def Let_def
    by (auto split: option.split intro!: extend_trans [OF _ raw] extend_trans [OF _ sats] extend_trans [OF _ nmea] pvt)
qed

lemma RateReqs_ok:
  assumes "known fam (cc_read c)"
  shows "\<exists>c'. generateRateReqs c = Some c' \<and> reqs_extend rst c c'"
proof -
  have rate: "reqs_extend rst c (addSetReq m (\<lambda>r. r\<lparr> cr_rate := Some rate \<rparr>) c)" for m rate
    by (rule extend_addSet) (simp add: keeps_def known_def)
  show ?thesis using assms rate by (auto simp: generateRateReqs_def known_def Let_def)
qed

lemma extend_speed [simp]: "reqs_extend rst c (c1\<lparr> cc_speedReq := i \<rparr>) = reqs_extend rst c c1"
  by (simp add: reqs_extend_def)

lemma extend_SpeedReqs: "reqs_extend rst c (generateSpeedReqs c)"
proof -
  have poll: "reqs_extend rst c (addPollReq mid DataConfirmSpeed c)" for c mid
    unfolding addPollReq_def by (rule extend_add) (simp_all add: safe_req_def zero_req_def)
  have "reqs_extend rst c (addPollReq mid DataConfirmSpeed ((addMsg m (zero_req\<lparr> cq_speedAfter := s \<rparr>) c)\<lparr> cc_speedReq := i \<rparr>))" for mid m s i
    by (rule extend_trans [OF _ poll]) (simp add: extend_addMsg)
  then show ?thesis by (auto simp: generateSpeedReqs_def Let_def split: option.split prod.split)
qed

text \<open>The save request is new when there is one.\<close>

lemma SaveReqs_shape:
  "reqs_extend rst c ((generateSaveReqs c)\<lparr> cc_saveReq := cc_saveReq c \<rparr>) \<and>
   (cc_saveReq (generateSaveReqs c) = cc_saveReq c \<or>
    cc_saveReq (generateSaveReqs c) = Some (length (cc_reqs c)) \<and> length (cc_reqs c) < length (cc_reqs (generateSaveReqs c)))"
proof -
  have add: "reqs_extend rst c ((addSaveReq m c)\<lparr> cc_saveReq := cc_saveReq c \<rparr>)" for m
    using extend_addMsg [of c zero_req rst "CfgCfgM (saveMask m c) 1"] by (simp add: addSaveReq_def reqs_extend_def)
  have shape: "cc_saveReq (addSaveReq m c) = Some (length (cc_reqs c)) \<and> length (cc_reqs c) < length (cc_reqs (addSaveReq m c))" for m
    by (rule addMsg_adds [of "CfgCfgM (saveMask m c) 1" zero_req c]) (simp add: addSaveReq_def cas_add_def)
  show ?thesis by (simp add: generateSaveReqs_def Let_def add shape)
qed

lemma extend_ResetReqs: "reqs_extend True c (generateResetReqs c)"
  by (simp add: generateResetReqs_def addRstReq_def Let_def extend_addMsg)

section \<open>The invariants\<close>

text \<open>Of two CFG requests in order, the second is sent only when the first has given up the slot.\<close>

definition released :: "cas_req \<Rightarrow> bool" where
  "released q \<longleftrightarrow> cas_final q \<or> cq_state q = CasMaybeComplete \<or> cq_speedAfter q \<noteq> 0"

definition in_order :: "cas_req \<Rightarrow> cas_req \<Rightarrow> bool" where
  "in_order a b \<longleftrightarrow> (cas_isCfgReq a \<and> cas_isCfgReq b \<and> cq_state b \<noteq> CasNotReady \<and> \<not> cas_final b \<longrightarrow> released a)"

lemma in_order_step: "in_order a b \<Longrightarrow> req_step a a' \<Longrightarrow> req_step b b' \<Longrightarrow> in_order a' b'"
  by (auto simp: in_order_def req_step_def released_def cas_isCfgReq_def)

lemma slot_frame:
  "sorted_wrt in_order qs \<Longrightarrow> list_all2 req_step qs qs' \<Longrightarrow> sorted_wrt in_order qs'"
  unfolding sorted_wrt_iff_nth_less list_all2_conv_all_nth by (metis in_order_step less_trans)

lemma slot_append:
  "sorted_wrt in_order qs \<Longrightarrow> \<forall>q \<in> set new. cq_state q = CasNotReady \<or> cq_state q = CasFailed \<Longrightarrow> sorted_wrt in_order (qs @ new)"
proof -
  have new: "sorted_wrt in_order new" if "\<forall>q \<in> set new. cq_state q = CasNotReady \<or> cq_state q = CasFailed" for new
    using that by (induction new) (auto simp: in_order_def cas_final_def)
  show "sorted_wrt in_order qs \<Longrightarrow> \<forall>q \<in> set new. cq_state q = CasNotReady \<or> cq_state q = CasFailed \<Longrightarrow> sorted_wrt in_order (qs @ new)"
    using new by (auto simp: sorted_wrt_append in_order_def cas_final_def)
qed

lemma rel_set: "list_all2 P xs ys \<Longrightarrow> y \<in> set ys \<Longrightarrow> \<exists>x \<in> set xs. P x y"
  by (induction rule: list_all2_induct) auto

lemma slot_promote: "sorted_wrt in_order qs \<Longrightarrow> sorted_wrt in_order (promote_from used live qs)"
proof (induction qs arbitrary: used live)
  case (Cons q qs)
  show ?case
  proof (cases "cq_onText q = None")
    case False
    then have no: "in_order (q\<lparr> cq_state := s \<rparr>) b" "in_order q b" for s b by (auto simp: in_order_def cas_isCfgReq_def)
    then show ?thesis using Cons False by simp
  next
    case True
    define q1 where "q1 = (if cq_state q = CasNotReady \<and> \<not> used (cq_mid q) \<and> \<not> (cas_isCfg (cq_mid q) \<and> live) then q\<lparr> cq_state := CasReady \<rparr> else q)"
    define live1 where "live1 = (live \<or> cas_isCfg (cq_mid q) \<and> holds_slot q1)"
    define used1 where "used1 = (if cas_final q then used else used(cq_mid q := True))"
    have eq: "promote_from used live (q # qs) = q1 # promote_from used1 live1 qs"
      using True by (simp add: q1_def live1_def used1_def Let_def)
    have "in_order q1 b'" if "b' \<in> set (promote_from used1 live1 qs)" for b'
    proof -
      from rel_set [OF promote_each that] obtain b where b: "b \<in> set qs" "promoted live1 b b'" by blast
      have old: "in_order q b" using Cons.prems b(1) by simp
      show ?thesis using b(2) unfolding promoted_def
      proof
        assume "b' = b"
        then show ?thesis using old by (auto simp: in_order_def q1_def cas_isCfgReq_def released_def cas_final_def)
      next
        assume "cq_state b = CasNotReady \<and> b' = b\<lparr> cq_state := CasReady \<rparr> \<and> \<not> (live1 \<and> cas_isCfgReq b)"
        then show ?thesis using True
          by (cases "cq_state q1") (auto simp: in_order_def live1_def q1_def holds_slot_def cas_isCfgReq_def released_def cas_final_def split: if_splits)
      qed
    qed
    then show ?thesis using Cons eq by simp
  qed
qed simp

text \<open>A restart is the last request, made when all others have ended, after the save if there is one.\<close>

definition restart_ok :: "cas_cfg \<Rightarrow> nat \<Rightarrow> bool" where
  "restart_ok c i \<longleftrightarrow> Suc i = length (cc_reqs c) \<and> list_all cas_final (take i (cc_reqs c))
     \<and> (co_Save (ctg_Opts (cc_target c)) \<noteq> saveNone \<longrightarrow> list_all (\<lambda>q. cq_state q = CasSucceeded) (take i (cc_reqs c)))
     \<and> (case cc_saveReq c of None \<Rightarrow> True | Some s \<Rightarrow> s < i \<and> cq_state (cc_reqs c ! s) = CasSucceeded)"

definition restart_inv :: "cas_cfg \<Rightarrow> bool" where
  "restart_inv c \<longleftrightarrow> (cc_phase c < numPhases \<longrightarrow> list_all (\<lambda>q. \<not> cq_noAck q) (cc_reqs c) \<and>
       (case cc_saveReq c of None \<Rightarrow> True | Some s \<Rightarrow> s < length (cc_reqs c)))
     \<and> (\<forall>i < length (cc_reqs c). cq_noAck (cc_reqs c ! i) \<longrightarrow> restart_ok c i)"

text \<open>What the callbacks of the outstanding requests keep: before the family is known, and after.\<close>

definition unread :: "cas_read \<Rightarrow> bool" where "unread r \<longleftrightarrow> cr_tm5 r = None \<and> cr_tm6 r = None"

definition read_inv :: "cas_cfg \<Rightarrow> bool" where
  "read_inv c \<longleftrightarrow>
     (if cc_phase c \<le> 1 then unread (cc_read c) \<and> list_all (\<lambda>q. \<not> cas_isVersion q \<and> safe_req unread q) (cc_reqs c)
      else cc_phase c < numPhases \<longrightarrow>
        (\<exists>fam. known fam (cc_read c) \<and> list_all (\<lambda>q. cas_final q \<or> safe_req (known fam) q) (cc_reqs c)))"

definition cas_inv :: "cas_cfg \<Rightarrow> bool" where
  "cas_inv c \<longleftrightarrow> sorted_wrt in_order (cc_reqs c) \<and> restart_inv c \<and> read_inv c \<and> \<not> cc_panic c"

text \<open>Restarts care only for requests that have ended.\<close>

definition final_kept :: "cas_req \<Rightarrow> cas_req \<Rightarrow> bool" where
  "final_kept q q' \<longleftrightarrow> cq_noAck q' = cq_noAck q \<and> (cas_final q \<longrightarrow> q' = q)"

lemma req_step_final: "req_step q q' \<Longrightarrow> cas_final q \<Longrightarrow> q' = q"
  by (simp add: req_step_def)

lemma kept_take: "list_all2 final_kept qs qs' \<Longrightarrow> list_all cas_final (take i qs) \<Longrightarrow> take i qs' = take i qs"
proof (induction i arbitrary: qs qs')
  case (Suc i)
  then show ?case by (cases qs; cases qs') (auto simp: final_kept_def)
qed simp

lemma restart_kept:
  assumes "restart_inv c" "list_all2 final_kept (cc_reqs c) (cc_reqs c')" "cc_phase c' = cc_phase c" "cc_target c' = cc_target c"
    "cc_saveReq c' = cc_saveReq c"
  shows "restart_inv c'"
proof -
  have len: "length (cc_reqs c') = length (cc_reqs c)" by (rule list_all2_lengthD [OF assms(2), symmetric])
  have noAck: "cq_noAck (cc_reqs c' ! i) = cq_noAck (cc_reqs c ! i)" if "i < length (cc_reqs c)" for i
    using assms(2) that by (auto simp: list_all2_conv_all_nth final_kept_def)
  have ok: "restart_ok c' i" if "restart_ok c i" "i < length (cc_reqs c)" for i
  proof -
    have fin: "list_all cas_final (take i (cc_reqs c))" using that(1) by (simp add: restart_ok_def)
    have take: "take i (cc_reqs c') = take i (cc_reqs c)" by (rule kept_take [OF assms(2) fin])
    have nth: "cc_reqs c' ! s = cc_reqs c ! s" if "s < i" for s using take that by (metis nth_take)
    show ?thesis using that(1) assms take nth len by (auto simp: restart_ok_def split: option.splits)
  qed
  show ?thesis using assms noAck ok len by (auto simp: restart_inv_def list_all_length split: option.splits)
qed

lemma restart_frame: "restart_inv c \<Longrightarrow> cas_frame c c' \<Longrightarrow> restart_inv c'"
proof -
  assume c: "restart_inv c" "cas_frame c c'"
  then have "list_all2 req_step (cc_reqs c) (cc_reqs c')" by (simp add: cas_frame_def)
  then have "list_all2 final_kept (cc_reqs c) (cc_reqs c')"
    by (rule list_all2_mono) (simp add: req_step_def final_kept_def)
  then show ?thesis by (rule restart_kept [OF c(1)]) (use c(2) in \<open>simp_all add: cas_frame_def\<close>)
qed

lemma safe_step: "req_step q q' \<Longrightarrow> safe_req K q' = safe_req K q"
  by (simp add: req_step_def safe_req_def)

lemma version_step: "req_step q q' \<Longrightarrow> cas_isVersion q' = cas_isVersion q"
  by (simp add: req_step_def cas_isVersion_def)

text \<open>What an event makes of the readback, when the callbacks that it may run keep a property.\<close>

lemma ack_read:
  "list_all (\<lambda>q. cas_final q \<or> safe_req K q) qs \<Longrightarrow> K r \<Longrightarrow> K (snd (cas_handleAck b mid ack t qs r))"
proof (induction b mid ack t qs r rule: cas_handleAck.induct)
  case (2 b mid ack t q qs r)
  obtain qs' r' where tl: "cas_handleAck b mid ack t qs r = (qs', r')" by fastforce
  show ?case
  proof (cases "cq_mid q \<noteq> mid \<or> cq_state q \<noteq> CasAwaitingAck")
    case True
    then show ?thesis using 2 tl by simp
  next
    case False
    then have "safe_req K q" using 2(2) by (simp add: cas_final_def)
    then have "K (case cq_onAck q of None \<Rightarrow> r | Some f \<Rightarrow> f r)" using 2(3) by (simp add: safe_req_def keeps_def split: option.splits)
    then show ?thesis using False 2(3) by simp
  qed
qed simp

lemma text_read:
  "list_all (\<lambda>q. cas_final q \<or> safe_req K q) qs \<Longrightarrow> K r \<Longrightarrow> K (snd (offer_text payload qs r))"
proof (induction payload qs r rule: offer_text.induct)
  case (2 payload q qs r)
  show ?case
  proof (cases "if cq_state q = CasAwaitingAck then cq_onText q else None")
    case None
    obtain qs' r' where "offer_text payload qs r = (qs', r')" by fastforce
    then show ?thesis using 2(1) [OF None] 2(3,4) None by simp
  next
    case (Some f)
    then have q: "cq_onText q = Some f" "\<not> cas_final q" by (auto simp: cas_final_def split: if_splits)
    obtain b r' where f: "f payload r = (b, r')" by fastforce
    have "K (snd (f payload r))" using 2(3,4) q by (auto simp: safe_req_def keeps_def)
    moreover obtain qs2 r2 where "offer_text payload qs r' = (qs2, r2)" by fastforce
    ultimately show ?thesis using 2(2) [OF Some f [symmetric]] 2(3) Some f by (cases b) simp_all
  qed
qed simp

definition read_blind :: "(cas_read \<Rightarrow> bool) \<Rightarrow> bool" where
  "read_blind K \<longleftrightarrow> (\<forall>r v. K r \<longrightarrow> K (r\<lparr> cr_ver := v \<rparr>))"

lemma first_index_P: "first_index P xs = Some i \<Longrightarrow> i < length xs \<and> P (xs ! i)"
proof -
  assume "first_index P xs = Some i"
  then have "i \<in> set (filter (\<lambda>i. P (xs ! i)) [0..<length xs])"
    by (auto simp: first_index_def simp del: set_filter split: list.splits)
  then show ?thesis by simp
qed

lemma native_read:
  assumes "list_all (\<lambda>q. cas_final q \<or> safe_req K q) (cc_reqs c)" "K (cc_read c)" "read_blind K"
  shows "K (cc_read (cas_nativeMsg m t c))"
proof -
  have ack: "K (cc_read (cas_ack mid ok t c))" for mid ok
    using ack_read [OF assms(1,2)] by (auto simp: cas_ack_def split: prod.split) (metis snd_conv)
  have upd: "cc_read (upd_req f i c) = cc_read c" for f i c by (simp add: upd_req_def)
  have data: "K (f m r)" if "first_index (\<lambda>q. cq_mid q = mid \<and> cq_state q = CasAwaitingAck \<and> cq_onData q \<noteq> None) (cc_reqs c) = Some i"
    "cq_onData (cc_reqs c ! i) = Some (DataRead f)" "K r" for i f mid r
    using assms(1) first_index_P [OF that(1)] that(2,3)
    by (auto simp: list_all_length safe_req_def keeps_def cas_final_def)
  show ?thesis using assms(2,3) ack data
    by (auto simp: cas_nativeMsg_def upd Let_def read_blind_def split: cas_msg.split option.split cas_data.split)
qed

lemma step_read:
  assumes "list_all (\<lambda>q. cas_final q \<or> safe_req K q) (cc_reqs c)" "K (cc_read c)" "read_blind K" "e \<noteq> CasGenerate"
  shows "K (cc_read (cas_step cv e c))"
  using assms native_read [OF assms(1-3)] text_read [OF assms(1,2)]
  by (cases e) (auto simp: cas_step_def cas_update_def upd_req_def cas_nativeText_def split: prod.split, metis snd_conv)

lemma rel_all: "list_all2 R xs ys \<Longrightarrow> list_all P xs \<Longrightarrow> (\<And>x y. R x y \<Longrightarrow> P x \<Longrightarrow> Q y) \<Longrightarrow> list_all Q ys"
  by (induction rule: list_all2_induct) auto

lemma read_blind_known: "read_blind (known fam)" "read_blind unread"
  by (simp_all add: read_blind_def known_def unread_def)

lemma read_event:
  assumes "read_inv c" "e \<noteq> CasGenerate"
  shows "read_inv (cas_step cv e c)"
proof -
  have fr: "cas_frame c (cas_step cv e c)" by (rule frame_step [OF assms(2)])
  then have st: "list_all2 req_step (cc_reqs c) (cc_reqs (cas_step cv e c))" and ph: "cc_phase (cas_step cv e c) = cc_phase c"
    by (simp_all add: cas_frame_def)
  show ?thesis
  proof (cases "cc_phase c \<le> 1")
    case True
    then have all: "list_all (\<lambda>q. \<not> cas_isVersion q \<and> safe_req unread q) (cc_reqs c)" and un: "unread (cc_read c)"
      using assms(1) by (simp_all add: read_inv_def)
    have "list_all (\<lambda>q. cas_final q \<or> safe_req unread q) (cc_reqs c)"
      using all by (rule list.pred_mono_strong) simp
    then have "unread (cc_read (cas_step cv e c))" by (rule step_read [OF _ un read_blind_known(2) assms(2)])
    moreover have "list_all (\<lambda>q. \<not> cas_isVersion q \<and> safe_req unread q) (cc_reqs (cas_step cv e c))"
      by (rule rel_all [OF st all]) (simp add: safe_step version_step)
    ultimately show ?thesis using True ph by (simp add: read_inv_def)
  next
    case False
    show ?thesis
    proof (cases "cc_phase c < numPhases")
      case True
      then obtain fam where all: "list_all (\<lambda>q. cas_final q \<or> safe_req (known fam) q) (cc_reqs c)" and kn: "known fam (cc_read c)"
        using assms(1) False by (auto simp: read_inv_def)
      have "list_all (\<lambda>q. cas_final q \<or> safe_req (known fam) q) (cc_reqs (cas_step cv e c))"
        by (rule rel_all [OF st all]) (auto simp: safe_step dest: req_step_final)
      then show ?thesis using step_read [OF all kn read_blind_known(1) assms(2)] False True ph by (auto simp: read_inv_def)
    qed (use False ph in \<open>simp add: read_inv_def\<close>)
  qed
qed

lemma inv_event: "cas_inv c \<Longrightarrow> e \<noteq> CasGenerate \<Longrightarrow> cas_inv (cas_step cv e c)"
  using slot_frame restart_frame [OF _ frame_step] read_event frame_step [of e c cv]
  by (auto simp: cas_inv_def cas_frame_def)

section \<open>Generation keeps the invariants\<close>

lemma fresh_states: "list_all (fresh_req rst fam) qs \<Longrightarrow> \<forall>q \<in> set qs. cq_state q = CasNotReady \<or> cq_state q = CasFailed"
  by (auto simp: list_all_iff fresh_req_def)

lemma slot_extend: "sorted_wrt in_order (cc_reqs c) \<Longrightarrow> reqs_extend rst c c' \<Longrightarrow> sorted_wrt in_order (cc_reqs c')"
  by (auto simp: reqs_extend_def intro!: slot_append dest: fresh_states)

lemma read_extend:
  assumes "known fam (cc_read c)" "list_all (\<lambda>q. cas_final q \<or> safe_req (known fam) q) (cc_reqs c)" "reqs_extend rst c c'"
  shows "known fam (cc_read c') \<and> list_all (\<lambda>q. cas_final q \<or> safe_req (known fam) q) (cc_reqs c')"
proof -
  have "cr_family (cc_read c) = fam" using assms(1) by (simp add: known_def)
  then show ?thesis using assms known_core [of "cc_read c'" "cc_read c"]
    by (auto simp: reqs_extend_def list_all_iff fresh_req_def)
qed

definition no_restart :: "cas_cfg \<Rightarrow> bool" where
  "no_restart c \<longleftrightarrow> list_all (\<lambda>q. \<not> cq_noAck q) (cc_reqs c) \<and> (case cc_saveReq c of None \<Rightarrow> True | Some s \<Rightarrow> s < length (cc_reqs c))"

lemma no_restart_inv: "no_restart c \<Longrightarrow> restart_inv (c\<lparr> cc_phase := ph \<rparr>)"
  by (auto simp: no_restart_def restart_inv_def list_all_length split: option.splits)

lemma no_restart_extend: "no_restart c \<Longrightarrow> reqs_extend False c c' \<Longrightarrow> no_restart c'"
  by (auto simp: no_restart_def reqs_extend_def list_all_iff fresh_req_def split: option.splits)

lemma reset_restart:
  assumes "no_restart c" "allFinal c"
  shows "restart_inv ((generateResetReqs c)\<lparr> cc_phase := numPhases \<rparr>)"
proof -
  have same: "restart_inv (c'\<lparr> cc_phase := numPhases \<rparr>)" if "reqs_extend False c c'" for c'
    using no_restart_inv no_restart_extend [OF assms(1) that] by blast
  have rst: "restart_inv ((addRstReq m c)\<lparr> cc_phase := numPhases \<rparr>)"
    if "\<not> (co_Save (ctg_Opts (cc_target c)) \<noteq> saveNone \<and> anyFailed c)" "\<not> (cc_saveReq c \<noteq> None \<and> \<not> req_succeeded (cc_saveReq c) c)" for m
  proof -
    obtain q where q: "cc_reqs (addRstReq m c) = cc_reqs c @ [q]" "cc_saveReq (addRstReq m c) = cc_saveReq c"
      "cc_target (addRstReq m c) = cc_target c" by (rule addMsg_adds [of "CfgRstM (if cas_v6 c then 0 else bbrReset) 0 m" "zero_req\<lparr> cq_noAck := True \<rparr>" c])
        (simp add: addRstReq_def cas_add_def)
    have fin: "list_all cas_final (cc_reqs c)" using assms(2) by (simp add: allFinal_def)
    have ok: "list_all (\<lambda>q. cq_state q = CasSucceeded) (cc_reqs c)" if "\<not> anyFailed c"
      using fin that by (auto simp: anyFailed_def list_all_iff list_ex_iff cas_final_def)
    have "restart_ok (addRstReq m c) (length (cc_reqs c))"
      using that fin ok assms(1) q by (auto simp: restart_ok_def no_restart_def req_succeeded_def nth_append split: option.splits)
    moreover have "\<not> cq_noAck (cc_reqs (addRstReq m c) ! i)" if "i < length (cc_reqs c)" for i
      using assms(1) q that by (simp add: no_restart_def list_all_length nth_append)
    ultimately have "i < length (cc_reqs (addRstReq m c)) \<and> cq_noAck (cc_reqs (addRstReq m c) ! i) \<longrightarrow> restart_ok (addRstReq m c) i" for i
      using q(1) by (metis less_Suc_eq length_append_singleton)
    then show ?thesis by (auto simp: restart_inv_def restart_ok_def split: option.splits)
  qed
  show ?thesis using same [of c] same [of "addReq m c" for m] rst by (simp add: generateResetReqs_def Let_def)
qed

lemma slot_phase [simp]: "cc_reqs (c\<lparr> cc_phase := ph \<rparr>) = cc_reqs c"
  by simp

lemma inv_no_restart: "cas_inv c \<Longrightarrow> cc_phase c < numPhases \<Longrightarrow> no_restart c"
  by (simp add: cas_inv_def restart_inv_def no_restart_def)

lemma all_final: "configFinal c \<Longrightarrow> versionFinal c \<Longrightarrow> allFinal c"
  by (auto simp: configFinal_def versionFinal_def allFinal_def list_all_iff)

lemma extend_panic: "reqs_extend rst c c' \<Longrightarrow> cc_panic c' = cc_panic c"
  by (simp add: reqs_extend_def)

text \<open>A phase that adds requests as above keeps the invariants.\<close>

lemma inv_extend:
  assumes "cas_inv c" "cc_phase c < numPhases" "known fam (cc_read c)" "list_all (\<lambda>q. cas_final q \<or> safe_req (known fam) q) (cc_reqs c)"
    "reqs_extend False c c1" "1 \<le> cc_phase c"
  shows "cas_inv (c1\<lparr> cc_phase := cc_phase c1 + 1 \<rparr>)"
proof -
  have "sorted_wrt in_order (cc_reqs c1)" using assms(1) slot_extend [OF _ assms(5)] by (simp add: cas_inv_def)
  moreover have "no_restart c1" by (rule no_restart_extend [OF inv_no_restart [OF assms(1,2)] assms(5)])
  moreover have "cc_phase c1 = cc_phase c" using assms(5) by (simp add: reqs_extend_def)
  moreover have "\<not> cc_panic c1" using assms(1) extend_panic [OF assms(5)] by (simp add: cas_inv_def)
  ultimately show ?thesis using read_extend [OF assms(3-5)] no_restart_inv assms(6)
    by (auto simp: cas_inv_def read_inv_def)
qed

lemma family_shape:
  "\<exists>q. cc_reqs (addFamilyPoll c) = cc_reqs c @ [q] \<and> cq_state q = CasNotReady \<and> \<not> cq_noAck q \<and> \<not> cas_isVersion q \<and> safe_req unread q"
  "cc_phase (addFamilyPoll c) = cc_phase c" "cc_saveReq (addFamilyPoll c) = cc_saveReq c" "cc_target (addFamilyPoll c) = cc_target c"
  "unread (cc_read (addFamilyPoll c)) = unread (cc_read c)" "cc_panic (addFamilyPoll c) = cc_panic c"
proof -
  have "keeps unread (\<lambda>r. case (case m of CfgRateM rate \<Rightarrow> Some (r\<lparr> cr_rate := Some rate, cr_family := familyOf rate \<rparr>) | _ \<Rightarrow> None) of
      None \<Rightarrow> r | Some r' \<Rightarrow> r')" for m
    by (cases m) (simp_all add: keeps_def unread_def)
  then show "\<exists>q. cc_reqs (addFamilyPoll c) = cc_reqs c @ [q] \<and> cq_state q = CasNotReady \<and> \<not> cq_noAck q \<and> \<not> cas_isVersion q \<and> safe_req unread q"
    by (simp add: addFamilyPoll_def cas_add_def safe_req_def zero_req_def cas_isVersion_def read_data_def)
qed (simp_all add: addFamilyPoll_def cas_add_def unread_def)

lemma inv_family:
  assumes "cas_inv c" "cc_phase c \<le> 1" "ph \<le> 1"
  shows "cas_inv ((addFamilyPoll c)\<lparr> cc_phase := ph \<rparr>)"
proof -
  obtain q where q: "cc_reqs (addFamilyPoll c) = cc_reqs c @ [q]" "cq_state q = CasNotReady" "\<not> cq_noAck q"
    "\<not> cas_isVersion q" "safe_req unread q" using family_shape(1) by blast
  have "no_restart (addFamilyPoll c)"
    using inv_no_restart [OF assms(1)] assms(2) q family_shape(3) [of c] by (auto simp: no_restart_def split: option.splits)
  then have "restart_inv ((addFamilyPoll c)\<lparr> cc_phase := ph \<rparr>)" by (rule no_restart_inv)
  moreover have "sorted_wrt in_order (cc_reqs (addFamilyPoll c))"
    using assms(1) q by (auto simp: cas_inv_def intro: slot_append)
  moreover have "read_inv ((addFamilyPoll c)\<lparr> cc_phase := ph \<rparr>)"
    using assms q family_shape(5) [of c] by (auto simp: cas_inv_def read_inv_def)
  ultimately show ?thesis using assms(1) family_shape(6) [of c] by (simp add: cas_inv_def)
qed

lemma inv_known:
  assumes "cas_inv c" "1 \<le> cc_phase c" "cc_phase c < numPhases" "configFinal c" "cr_rate (cc_read c) \<noteq> None"
  shows "\<exists>fam. known fam (cc_read c) \<and> list_all (\<lambda>q. cas_final q \<or> safe_req (known fam) q) (cc_reqs c)"
proof (cases "cc_phase c = 1")
  case True
  then have un: "unread (cc_read c)" "list_all (\<lambda>q. \<not> cas_isVersion q \<and> safe_req unread q) (cc_reqs c)"
    using assms(1) by (simp_all add: cas_inv_def read_inv_def)
  then have "list_all cas_final (cc_reqs c)" using assms(4) by (auto simp: configFinal_def list_all_iff)
  moreover have "known (cr_family (cc_read c)) (cc_read c)" using un(1) assms(5) by (simp add: known_def unread_def)
  ultimately show ?thesis by (auto simp: list_all_iff)
next
  case False
  then show ?thesis using assms(1-3) by (auto simp: cas_inv_def read_inv_def)
qed

lemma inv_save:
  assumes "cas_inv c" "cc_phase c = 6" "configFinal c" "cr_rate (cc_read c) \<noteq> None"
  shows "cas_inv ((generateSaveReqs c)\<lparr> cc_phase := 7 \<rparr>)"
proof -
  obtain fam where kn: "known fam (cc_read c)" "list_all (\<lambda>q. cas_final q \<or> safe_req (known fam) q) (cc_reqs c)"
    using inv_known [OF assms(1) _ _ assms(3,4)] assms(2) by auto
  define c1 where "c1 = (generateSaveReqs c)\<lparr> cc_saveReq := cc_saveReq c \<rparr>"
  have ext: "reqs_extend False c c1" using SaveReqs_shape by (simp add: c1_def)
  have inv: "cas_inv (c1\<lparr> cc_phase := cc_phase c1 + 1 \<rparr>)"
    by (rule inv_extend [OF assms(1) _ kn ext]) (simp_all add: assms(2))
  have ph: "cc_phase c1 = 6" using ext assms(2) by (simp add: reqs_extend_def)
  have "list_all (\<lambda>q. \<not> cq_noAck q) (cc_reqs c1) \<and> (case cc_saveReq c1 of None \<Rightarrow> True | Some s \<Rightarrow> s < length (cc_reqs c1))"
    using no_restart_extend [OF inv_no_restart [OF assms(1)] ext] assms(2) by (simp add: no_restart_def)
  then have "no_restart (generateSaveReqs c)"
    using SaveReqs_shape [of False c] by (auto simp: no_restart_def c1_def split: option.splits)
  then have "restart_inv ((generateSaveReqs c)\<lparr> cc_phase := 7 \<rparr>)" by (rule no_restart_inv)
  then show ?thesis using inv ph by (simp add: cas_inv_def read_inv_def c1_def)
qed

lemma phase_ok:
  assumes "cas_inv (c1\<lparr> cc_phase := cc_phase c1 + 1 \<rparr>)" "gen_phase cv ph c = unwind (Some c1)"
  shows "\<exists>c1. gen_phase cv ph c = Some c1 \<and> cas_inv (c1\<lparr> cc_phase := cc_phase c1 + 1 \<rparr>)"
  using assms by (simp add: cas_inv_def unwind_def)

lemma inv_phase:
  assumes "cas_inv c" "cc_phase c < numPhases" "configFinal c" "\<not> (0 < cc_phase c \<and> cr_rate (cc_read c) = None)"
    "\<not> (needsVersion (cc_phase c) \<and> \<not> versionFinal c)"
  shows "\<exists>c1. gen_phase cv (cc_phase c) c = Some c1 \<and> cas_inv (c1\<lparr> cc_phase := cc_phase c1 + 1 \<rparr>)"
proof (cases "cc_phase c = 0")
  case True
  have "cas_inv (c\<lparr> cc_phase := 1 \<rparr>)"
    using assms(1) True no_restart_inv [OF inv_no_restart [OF assms(1)]] by (simp add: cas_inv_def read_inv_def)
  moreover have "cas_inv ((addFamilyPoll c)\<lparr> cc_phase := 1 \<rparr>)" by (rule inv_family [OF assms(1)]) (use True in simp_all)
  ultimately show ?thesis using True family_shape(2) [of c]
    by (intro phase_ok [of "generateFamilyReqs c"]) (auto simp: gen_phase_def generateFamilyReqs_def)
next
  case False
  then have rate: "cr_rate (cc_read c) \<noteq> None" using assms(4) by simp
  obtain fam where kn: "known fam (cc_read c)" "list_all (\<lambda>q. cas_final q \<or> safe_req (known fam) q) (cc_reqs c)"
    using inv_known [OF assms(1) _ assms(2,3) rate] False by auto
  have ext: "cas_inv (c1\<lparr> cc_phase := cc_phase c1 + 1 \<rparr>)" if "reqs_extend False c c1" for c1
    using inv_extend [OF assms(1,2) kn that] False by simp
  have save: "cc_phase (generateSaveReqs c) = cc_phase c" using SaveReqs_shape [of False c] by (simp add: reqs_extend_def)
  have reset: "cas_inv ((generateResetReqs c)\<lparr> cc_phase := Suc (cc_phase (generateResetReqs c)) \<rparr>)" if "cc_phase c = 7"
  proof -
    have ph: "cc_phase (generateResetReqs c) = 7" using extend_ResetReqs [of c] that by (simp add: reqs_extend_def)
    have "allFinal c" using all_final assms(3,5) that by (simp add: needsVersion_def)
    then show ?thesis using reset_restart [OF inv_no_restart [OF assms(1,2)]] ph slot_extend [OF _ extend_ResetReqs] assms(1)
        extend_panic [OF extend_ResetReqs, of c]
      by (simp add: cas_inv_def read_inv_def)
  qed
  consider "cc_phase c = 1" | "cc_phase c = 2" | "cc_phase c = 3" | "cc_phase c = 4" | "cc_phase c = 5" | "cc_phase c = 6" | "cc_phase c = 7"
    using False assms(2) by linarith
  then show ?thesis
  proof cases
    case 1
    then show ?thesis by (intro phase_ok [OF ext [OF extend_QueryReqs]]) (simp add: gen_phase_def)
  next
    case 2
    obtain c1 where "generateSetReqs cv c = Some c1" "reqs_extend False c c1" using SetReqs_ok [OF kn(1)] by blast
    then show ?thesis using 2 by (intro phase_ok [OF ext]) (simp_all add: gen_phase_def)
  next
    case 3
    then show ?thesis by (intro phase_ok [OF ext [OF extend_MsgReqs]]) (simp add: gen_phase_def)
  next
    case 4
    obtain c1 where "generateRateReqs c = Some c1" "reqs_extend False c c1" using RateReqs_ok [OF kn(1)] by blast
    then show ?thesis using 4 by (intro phase_ok [OF ext]) (simp_all add: gen_phase_def)
  next
    case 5
    then show ?thesis by (intro phase_ok [OF ext [OF extend_SpeedReqs]]) (simp add: gen_phase_def)
  next
    case 6
    then show ?thesis using inv_save [OF assms(1) _ assms(3) rate] save
      by (intro phase_ok [of "generateSaveReqs c"]) (simp_all add: gen_phase_def)
  next
    case 7
    then show ?thesis using reset by (intro phase_ok [of "generateResetReqs c"]) (simp_all add: gen_phase_def)
  qed
qed

lemma inv_abort:
  assumes "cas_inv c" "cc_phase c < numPhases"
  shows "cas_inv (c\<lparr> cc_phase := numPhases \<rparr>)" "cas_inv ((addFailedReq err c)\<lparr> cc_phase := numPhases \<rparr>)"
  using assms no_restart_inv [OF inv_no_restart [OF assms]]
    no_restart_inv [OF no_restart_extend [OF inv_no_restart [OF assms] extend_failed]] slot_extend [OF _ extend_failed]
    extend_panic [OF extend_failed, of err c]
  by (simp_all add: cas_inv_def read_inv_def)

lemma inv_generate:
  "cas_inv c \<Longrightarrow> \<exists>c'. generate_from cv k c = Some c' \<and> cas_inv c'"
proof (induction k arbitrary: c)
  case (Suc k)
  show ?case
  proof (cases "cc_phase c < numPhases \<and> configFinal c")
    case True
    note ph = True
    show ?thesis
    proof (cases "0 < cc_phase c \<and> cr_rate (cc_read c) = None")
      case True
      then have "cc_phase c = 1" using ph Suc.prems by (auto simp: cas_inv_def read_inv_def known_def split: if_splits)
      moreover have "(addFamilyPoll c)\<lparr> cc_phase := cc_phase c \<rparr> = addFamilyPoll c"
        by (rule cas_cfg.equality) (simp_all add: family_shape(2))
      ultimately have "cas_inv (addFamilyPoll c)" using inv_family [OF Suc.prems, of 1] by simp
      then show ?thesis using True ph inv_abort [OF Suc.prems] by (simp add: Let_def)
    next
      case False
      show ?thesis
      proof (cases "needsVer (cc_phase c) \<and> \<not> verFinal c \<or> needsVersion (cc_phase c) \<and> \<not> versionFinal c")
        case True
        have "generate_from cv (Suc k) c = Some c"
          unfolding generate_from.simps if_not_P [OF False] using ph True by presburger
        then show ?thesis using Suc.prems by simp
      next
        case no: False
        obtain c1 where c1: "gen_phase cv (cc_phase c) c = Some c1" "cas_inv (c1\<lparr> cc_phase := cc_phase c1 + 1 \<rparr>)"
          using inv_phase [OF Suc.prems _ _ False] ph no by blast
        have "generate_from cv (Suc k) c = generate_from cv k (c1\<lparr> cc_phase := cc_phase c1 + 1 \<rparr>)"
          unfolding generate_from.simps if_not_P [OF False] c1(1) using ph no by auto
        then show ?thesis using Suc.IH [OF c1(2)] by simp
      qed
    qed
  qed (use Suc.prems in simp)
qed simp

lemma inv_promote:
  assumes "cas_inv c"
  shows "cas_inv (promote c)"
proof -
  have each: "list_all2 (promoted False) (cc_reqs c) (cc_reqs (promote c))"
    using promote_each [of False "cc_reqs c"] by (simp add: promote_def)
  have "list_all2 final_kept (cc_reqs c) (cc_reqs (promote c))"
    using each by (rule list_all2_mono) (auto simp: promoted_def final_kept_def cas_final_def)
  then have "restart_inv (promote c)"
    by (rule restart_kept [rotated]) (use assms in \<open>simp_all add: cas_inv_def promote_def\<close>)
  moreover have same: "promoted False q q' \<Longrightarrow> safe_req K q' = safe_req K q \<and> cas_isVersion q' = cas_isVersion q \<and> (cas_final q \<longrightarrow> cas_final q')" for q q' K
    by (auto simp: promoted_def safe_req_def cas_isVersion_def cas_final_def)
  have un: "list_all (\<lambda>q. \<not> cas_isVersion q \<and> safe_req unread q) (cc_reqs (promote c))"
    if "list_all (\<lambda>q. \<not> cas_isVersion q \<and> safe_req unread q) (cc_reqs c)"
    by (rule rel_all [OF each that]) (use same in blast)
  have kn: "list_all (\<lambda>q. cas_final q \<or> safe_req (known fam) q) (cc_reqs (promote c))"
    if "list_all (\<lambda>q. cas_final q \<or> safe_req (known fam) q) (cc_reqs c)" for fam
    by (rule rel_all [OF each that]) (use same in blast)
  have "read_inv (promote c)"
  proof (cases "cc_phase c \<le> 1")
    case True
    then show ?thesis using assms un by (simp add: cas_inv_def read_inv_def) (simp add: promote_def)
  next
    case False
    then show ?thesis using assms kn by (simp add: cas_inv_def read_inv_def) (fastforce simp: promote_def)
  qed
  ultimately show ?thesis using assms slot_promote by (simp add: cas_inv_def promote_def)
qed

lemma inv_generates:
  assumes "cas_inv c"
  shows "\<exists>c'. cas_generateRequests cv c = Some c' \<and> cas_inv c'"
  using inv_generate [OF assms, of cv numPhases] inv_promote by (auto simp: cas_generateRequests_def)

lemma inv_step: "cas_inv c \<Longrightarrow> cas_inv (cas_step cv e c)"
  using inv_event [of c e cv] inv_generates [of c cv] by (cases "e = CasGenerate") (auto simp: cas_step_def)

lemma cas_inv_new: "cas_inv (newConfigurator tgt rate)"
  by (simp add: newConfigurator_def cas_inv_def restart_inv_def read_inv_def unread_def zero_read_def split: option.split)

lemma inv_run: "cas_inv (cas_run cv es (newConfigurator tgt rate))"
  by (rule cas_run_inv [OF cas_inv_new inv_step])

section \<open>What the configurator promises\<close>

text \<open>A CFG request that was, is or will be sent next, other than a change of speed.\<close>

definition cfg_live :: "cas_req \<Rightarrow> bool" where
  "cfg_live q \<longleftrightarrow> cas_isCfgReq q \<and> cq_speedAfter q = 0 \<and> cq_state q \<in> {CasReady, CasAwaitingAck, CasMayResend}"

lemma slot_one: "sorted_wrt in_order qs \<Longrightarrow> length (filter cfg_live qs) \<le> 1"
proof (induction qs)
  case (Cons q qs)
  have "filter cfg_live qs = []" if "cfg_live q"
  proof -
    have "\<not> cfg_live b" if "b \<in> set qs" for b
      using Cons.prems \<open>cfg_live q\<close> that by (auto simp: in_order_def cfg_live_def released_def cas_final_def)
    then show ?thesis by (simp add: filter_empty_conv)
  qed
  then show ?case using Cons by simp
qed simp

text \<open>C0: Whatever is sent and received, in whatever order, at most one CFG request is ready, on its way or awaiting its
  acknowledgement at a time, a change of speed aside: the rule of the protocol that the next CFG message waits for
  the reply to the last.\<close>

theorem cas_one_cfg: "length (filter cfg_live (cc_reqs (cas_run cv es (newConfigurator tgt rate)))) \<le> 1"
  by (rule slot_one) (use inv_run in \<open>simp add: cas_inv_def\<close>)

text \<open>C0: A restart of the receiver is always the last request, made when all others have ended and, if the configuration was to
  be saved, all of them with success, the save among them.\<close>

theorem cas_restart_last:
  "let c = cas_run cv es (newConfigurator tgt rate)
   in list_all (restart_ok c) (filter (\<lambda>i. cq_noAck (cc_reqs c ! i)) [0..<length (cc_reqs c)])"
  using inv_run [of cv es tgt rate] by (auto simp: Let_def cas_inv_def restart_inv_def list_all_iff)

text \<open>C0: No generator of the CASIC configurator panics: whenever the requests are generated, the rate of the receiver is known
  where it is written, the time mode that was read back is that of the firmware family, and every message that is built
  serializes.\<close>

theorem cas_no_panic: "cas_generateRequests cv (cas_run cv es (newConfigurator tgt rate)) \<noteq> None"
  using inv_generates [OF inv_run [of cv es tgt rate], of cv] by (metis option.distinct(1))

end
