(* ===== verification/CasDirector.thy ===== *)
theory CasDirector
  imports CasSafety
begin

text \<open>
  The CASIC configurator with the director, of which it keeps the contract: its requests only grow, and one that has
  ended stays as it is.
\<close>

section \<open>The contract\<close>

lemma settled_kept:
  assumes "list_all2 final_kept (cc_reqs c) (take (length (cc_reqs c)) (cc_reqs c'))"
  shows "settled (cas_configurator cv) c c'"
proof -
  have len: "length (cc_reqs c) \<le> length (cc_reqs c')" using list_all2_lengthD [OF assms] by simp
  have "cc_reqs c' ! i = cc_reqs c ! i" if "i < length (cc_reqs c)" "cas_final (cc_reqs c ! i)" for i
    using assms that by (auto simp: list_all2_conv_all_nth final_kept_def)
  moreover have "cas_final q" if "req_final (cas_getState q)" for q :: cas_req
    using that by (cases "cq_state q") (simp_all add: cas_getState_def req_final_def cas_final_def)
  ultimately show ?thesis using len by (simp add: settled_def cas_configurator_def cas_requestCount_def)
qed

lemma settled_frame: "cas_frame c c' \<Longrightarrow> settled (cas_configurator cv) c c'"
proof -
  assume "cas_frame c c'"
  then have st: "list_all2 req_step (cc_reqs c) (cc_reqs c')" by (simp add: cas_frame_def)
  then have "list_all2 final_kept (cc_reqs c) (cc_reqs c')" by (rule list_all2_mono) (simp add: req_step_def final_kept_def)
  then show ?thesis using list_all2_lengthD [OF st] by (intro settled_kept) simp
qed

definition grows :: "cas_cfg \<Rightarrow> cas_cfg \<Rightarrow> bool" where
  "grows c c' \<longleftrightarrow> (\<exists>new. cc_reqs c' = cc_reqs c @ new)"

lemma grows_trans: "grows a b \<Longrightarrow> grows b c \<Longrightarrow> grows a c"
  by (auto simp: grows_def)

lemma grows_extend: "reqs_extend rst c c' \<Longrightarrow> grows c c'"
  by (auto simp: reqs_extend_def grows_def)

lemma grows_upd [simp]: "grows c (c1\<lparr> cc_phase := ph \<rparr>) = grows c c1" "grows c (c1\<lparr> cc_read := r \<rparr>) = grows c c1"
  "grows (c\<lparr> cc_read := r \<rparr>) c1 = grows c c1" "grows c (c1\<lparr> cc_saveReq := s \<rparr>) = grows c c1" "grows c c"
  by (simp_all add: grows_def)

lemma grows_TModeSet:
  assumes "generateTModeSet cv c = Some c'"
  shows "grows c c'"
proof -
  have add: "grows c1 c2" if "addTModeSet cv tt force c1 = Some c2" for tt force c1 c2
    using extend_addTModeSet [OF that] by (rule grows_extend)
  have two: "grows c1 c2" if twice: "Option.bind (addTModeSet cv tt0 f0 c1) (addTModeSet cv tt f) = Some c2" for tt0 f0 tt f c1 c2
  proof -
    obtain c3 where "addTModeSet cv tt0 f0 c1 = Some c3" "addTModeSet cv tt f c3 = Some c2"
      using twice by (cases "addTModeSet cv tt0 f0 c1") auto
    then show ?thesis using add grows_trans by blast
  qed
  show ?thesis using assms
    by (auto simp: generateTModeSet_def Let_def split: prod.splits if_splits option.splits dest!: add two)
qed

lemma grows_phase:
  assumes "gen_phase cv ph c = Some c'"
  shows "grows c c'"
proof -
  have fam: "grows c (addFamilyPoll c)" using family_shape(1) [of c] by (auto simp: grows_def)
  have save: "grows c (generateSaveReqs c)" using SaveReqs_shape [of True c] by (auto simp: reqs_extend_def grows_def)
  have set: "grows c c'" if "generateSetReqs cv c = Some c'"
  proof -
    from that obtain c1 where c1: "generateTModeSet cv (generateTPSet cv c) = Some c1" "c' = generateMinElevSet cv (generateSignalSet c1)"
      by (cases "generateTModeSet cv (generateTPSet cv c)") (simp_all add: generateSetReqs_def)
    have "grows c (generateTPSet cv c)" by (rule grows_extend [OF extend_TPSet])
    moreover have "grows c1 c'" unfolding c1(2) by (rule grows_trans [OF grows_extend [OF extend_SignalSet] grows_extend [OF extend_MinElevSet]])
    ultimately show ?thesis using grows_TModeSet [OF c1(1)] grows_trans by blast
  qed
  have rate: "grows c c'" if "generateRateReqs c = Some c'"
    using that by (auto simp: generateRateReqs_def addSetReq_def addMsg_def cas_add_def touchNoOp_def Let_def grows_def
      split: if_splits option.splits)
  show ?thesis using assms fam save set rate grows_extend [OF extend_QueryReqs] grows_extend [OF extend_MsgReqs]
      grows_extend [OF extend_SpeedReqs] grows_extend [OF extend_ResetReqs]
    by (auto simp: gen_phase_def unwind_Some generateFamilyReqs_def split: if_splits)
qed

lemma grows_generate: "generate_from cv k c = Some c' \<Longrightarrow> grows c c'"
proof (induction k arbitrary: c)
  case (Suc k)
  have fam: "grows c (addFamilyPoll c)" using family_shape(1) [of c] by (auto simp: grows_def)
  have fail: "grows c (addFailedReq e c)" for e by (rule grows_extend [OF extend_failed])
  have rec: "grows c c'" if "gen_phase cv (cc_phase c) c = Some c1" "generate_from cv k (c1\<lparr> cc_phase := Suc (cc_phase c1) \<rparr>) = Some c'" for c1
  proof -
    have "grows (c1\<lparr> cc_phase := Suc (cc_phase c1) \<rparr>) c'" by (rule Suc.IH [OF that(2)])
    then have "grows c1 c'" by (simp add: grows_def)
    then show ?thesis using grows_phase [OF that(1)] grows_trans by blast
  qed
  show ?case using Suc.prems fam fail rec by (auto simp: Let_def split: if_splits option.splits)
qed simp

lemma cas_settled_generate: "settled (cas_configurator cv) c (snd (generateRequests (cas_configurator cv) c))"
proof (cases "generate_from cv numPhases c")
  case None
  then show ?thesis by (simp add: cas_configurator_def cas_generateRequests_def)
next
  case (Some c1)
  obtain new where new: "cc_reqs c1 = cc_reqs c @ new" using grows_generate [OF Some] by (auto simp: grows_def)
  have "list_all2 (promoted False) (cc_reqs c1) (cc_reqs (promote c1))"
    using promote_each [of False "cc_reqs c1"] by (simp add: promote_def)
  then have "list_all2 final_kept (cc_reqs c1) (cc_reqs (promote c1))"
    by (rule list_all2_mono) (auto simp: promoted_def final_kept_def cas_final_def)
  then have "list_all2 final_kept (cc_reqs c) (take (length (cc_reqs c)) (cc_reqs (promote c1)))"
    unfolding new list_all2_append1 by (auto dest: list_all2_lengthD)
  moreover have "snd (generateRequests (cas_configurator cv) c) = promote c1"
    using Some by (simp add: cas_configurator_def cas_generateRequests_def)
  ultimately show ?thesis using settled_kept by simp
qed

lemma cas_configurator_ok: "configurator_ok (cas_configurator cv)"
proof -
  have upd: "settled (cas_configurator cv) c (cas_update f i c)" if "\<And>q q'. f q = Some q' \<Longrightarrow> req_step q q'" for c f i
    by (rule settled_frame, rule frame_update, rule that)
  have "settled (cas_configurator cv) c (cas_update cas_setDeadlinePassed i c)" "settled (cas_configurator cv) c (cas_update cas_setWontResend i c)"
    "settled (cas_configurator cv) c (cas_update (\<lambda>q. Some (cas_maybeSpeedChangeSucceeded t q)) i c)" for c i t
    by (rule upd, erule step_late) (rule upd, erule step_wont, rule upd, use step_speed in auto)
  then show ?thesis using cas_settled_generate by (simp add: configurator_ok_def) (simp add: cas_configurator_def)
qed

section \<open>A client\<close>

text \<open>A client of the CASIC configurator: after each action these events, then perhaps the time it is.\<close>

definition cas_client :: "cas_conv \<Rightarrow> (config_action \<Rightarrow> cas_cfg run \<Rightarrow> cas_event list \<times> int list) \<Rightarrow> cas_cfg client" where
  "cas_client cv events act r =
     (True, map (\<lambda>e. DriveCall (cas_step cv e)) (fst (events act r)) @ map AdvanceTimeToCall (snd (events act r)))"

lemma settled_step: "settled (cas_configurator cv) c (cas_step cv e c)"
proof (cases "e = CasGenerate")
  case True
  have "cas_step cv CasGenerate c = snd (generateRequests (cas_configurator cv) c)"
    by (simp add: cas_step_def cas_configurator_def split: option.split)
  then show ?thesis using cas_settled_generate True by simp
qed (rule settled_frame, rule frame_step)

lemma cas_client_ok: "client_ok (cas_configurator cv) (cas_client cv events)"
  by (auto simp: client_ok_def cas_client_def call_ok_def settled_step)

text \<open>C0: The CASIC configurator and the client that drives it keep the contract of the director: whatever is sent and
  received, when the configuration ends all phases are done, every request has succeeded or failed, and the errors that
  the director reported are those of the failed ones, in order.\<close>

theorem cas_director:
  assumes "director_actions (cas_configurator cv) (cas_client cv events) fuel (newConfigDirector (newConfigurator tgt rate) m)
    = (Some Complete, r)"
  shows "cc_phase (cfgtor r) = numPhases \<and> allFinal (cfgtor r) \<and>
    reported_errors r = map (\<lambda>q. case cq_err q of None \<Rightarrow> [] | Some e \<Rightarrow> e)
      (filter (\<lambda>q. cq_state q = CasFailed) (cc_reqs (cfgtor r)))"
proof -
  let ?qs = "cc_reqs (cfgtor r)"
  note rep = director_ends [OF cas_configurator_ok cas_client_ok assms]
  have len: "startIndex r = length ?qs" and ends: "cc_phase (cfgtor r) = numPhases \<and> allFinal (cfgtor r)"
    using rep by (simp_all add: cas_configurator_def cas_requestCount_def)
  have failed: "(cas_getState q = ReqFailed) = (cq_state q = CasFailed)" for q :: cas_req
    by (cases "cq_state q") (simp_all add: cas_getState_def)
  have "filter (\<lambda>q. cq_state q = CasFailed) ?qs = map ((!) ?qs) (filter (\<lambda>i. cq_state (?qs ! i) = CasFailed) [0..<length ?qs])"
    using filter_map [of "\<lambda>q. cq_state q = CasFailed" "(!) ?qs" "[0..<length ?qs]"] by (simp add: map_nth comp_def)
  moreover have "reported_errors r = map (\<lambda>i. case cas_getError (?qs ! i) of Some (Some e) \<Rightarrow> e | _ \<Rightarrow> [])
      (filter (\<lambda>i. cq_state (?qs ! i) = CasFailed) [0..<length ?qs])"
    using rep len by (simp add: cas_configurator_def failed)
  moreover have "(case cas_getError q of Some (Some e) \<Rightarrow> e | _ \<Rightarrow> []) = (case cq_err q of None \<Rightarrow> [] | Some e \<Rightarrow> e)"
    if "cq_state q = CasFailed" for q :: cas_req using that by (simp add: cas_getError_def split: option.split)
  ultimately show ?thesis using ends by simp
qed

text \<open>A receiver that was probed by its acknowledgement alone and then is silent.\<close>

definition cas_silent :: "config_action \<Rightarrow> cas_cfg run \<Rightarrow> cas_event list \<times> int list" where
  "cas_silent act r =
     (case act of ActSendRequest i p s \<Rightarrow> ([CasSent i 0], []) | ActWaitUntil t \<Rightarrow> ([], [t]) | ActError e \<Rightarrow> ([], []))"

lemma cas_silent_run:
  "(case director_actions (cas_configurator cv) (cas_client cv cas_silent) 8
       (newConfigDirector (newConfigurator newConfigTarget None) 2) of
      (h, r) \<Rightarrow> (h, map cq_state (cc_reqs (cfgtor r)))) = (Some Complete, [CasFailed])"
  by code_simp

theorem cas_director_witness:
  "\<forall>cv. allFinal (cfgtor (snd (director_actions (cas_configurator cv) (cas_client cv cas_silent) 8
     (newConfigDirector (newConfigurator newConfigTarget None) 2))))"
proof
  fix cv
  obtain h r where run: "director_actions (cas_configurator cv) (cas_client cv cas_silent) 8
      (newConfigDirector (newConfigurator newConfigTarget None) 2) = (h, r)" by fastforce
  have "h = Some Complete" using cas_silent_run [of cv] unfolding run by simp
  then show "allFinal (cfgtor (snd (director_actions (cas_configurator cv) (cas_client cv cas_silent) 8
     (newConfigDirector (newConfigurator newConfigTarget None) 2))))"
    using cas_director [of cv cas_silent 8 newConfigTarget None 2 r] run by simp
qed

text \<open>A V6 receiver that is to be restarted cold, after it has told its version.\<close>

definition restart_target :: ConfigTarget where
  "restart_target = newConfigTarget\<lparr> ctg_Opts := zeroOptions\<lparr> co_Save := saveAll, co_Reset := resetCold \<rparr> \<rparr>"

lemma cas_restart_run:
  "(let c = cas_run cv [CasGenerate, CasSent 0 0, CasMsg (MonVerM \<lparr> mv_SwVersion = [], mv_HwVersion = ''AT372-AT6668-6P-34'' \<rparr>) 5,
        CasMsg (AckM CfgMsgID True) 6, CasGenerate, CasSent 1 7, CasMsg (AckM CfgCfgID True) 8, CasGenerate]
      (newConfigurator restart_target (Some \<lparr> rt_FixIntervalMs = 1000, rt_FixRateHz = 1, rt_Res = 0 \<rparr>))
    in map (\<lambda>q. (cq_state q, cq_noAck q)) (cc_reqs c)) =
   [(CasSucceeded, False), (CasSucceeded, False), (CasReady, True)]"
  by code_simp

end
