(* ===== verification/CasLive.thy ===== *)
theory CasLive
  imports DirectorLive CasDirector
begin

text \<open>
  The CASIC configurator keeps the contract of \<open>configuring\<close>: the one request that may hold up others without being
  awaited, the poll of the version, has ended before any message that it would hold up is requested. So the director
  never finds itself stuck with it.
\<close>

section \<open>The requests that a phase adds\<close>

text \<open>Other than the poll of the version; \<open>msg\<close> says whether they may set the rate of a message.\<close>

definition plain :: "bool \<Rightarrow> cas_req \<Rightarrow> bool" where
  "plain msg q \<longleftrightarrow> (cq_state q = CasNotReady \<or> cq_state q = CasFailed) \<and> \<not> cq_verPoll q \<and> (cq_mid q = CfgMsgID \<longrightarrow> msg)"

definition adds :: "bool \<Rightarrow> cas_cfg \<Rightarrow> cas_cfg \<Rightarrow> bool" where
  "adds msg c c' \<longleftrightarrow> (\<exists>qs. cc_reqs c' = cc_reqs c @ qs \<and> list_all (plain msg) qs) \<and> cc_verReq c' = cc_verReq c \<and> cc_phase c' = cc_phase c"

lemma adds_refl [simp]: "adds msg c c"
  by (simp add: adds_def)

lemma adds_trans: "adds msg a b \<Longrightarrow> adds msg b c \<Longrightarrow> adds msg a c"
  by (auto simp: adds_def)

lemma adds_upd [simp]: "adds msg c (c1\<lparr> cc_read := r \<rparr>) = adds msg c c1" "adds msg (c\<lparr> cc_read := r \<rparr>) c1 = adds msg c c1"
  "adds msg c (c1\<lparr> cc_speedReq := i \<rparr>) = adds msg c c1" "adds msg c (c1\<lparr> cc_saveReq := i \<rparr>) = adds msg c c1"
  "adds msg c (c1\<lparr> cc_panic := p \<rparr>) = adds msg c c1"
  by (simp_all add: adds_def)

lemma adds_cas_add: "\<not> cq_verPoll q \<Longrightarrow> (cq_mid q = CfgMsgID \<longrightarrow> msg) \<Longrightarrow> adds msg c1 c \<Longrightarrow> adds msg c1 (cas_add q c)"
  by (auto simp: cas_add_def adds_def plain_def)

lemma zero_plain [simp]: "\<not> cq_verPoll zero_req" "cq_mid zero_req = 0"
  by (simp_all add: zero_req_def)

lemma mids [simp]: "CfgPrtID \<noteq> CfgMsgID" "CfgRstID \<noteq> CfgMsgID" "CfgTPID \<noteq> CfgMsgID" "CfgRateID \<noteq> CfgMsgID" "CfgCfgID \<noteq> CfgMsgID"
  "CfgTModeID \<noteq> CfgMsgID" "CfgNavxID \<noteq> CfgMsgID" "CfgNavLimID \<noteq> CfgMsgID" "CfgNavBandID \<noteq> CfgMsgID" "CfgTMode2ID \<noteq> CfgMsgID"
  "0 \<noteq> CfgMsgID"
  by code_simp+

lemma adds_addMsg: "\<not> cq_verPoll q \<Longrightarrow> (cas_msgID m = CfgMsgID \<longrightarrow> msg) \<Longrightarrow> adds msg c1 c \<Longrightarrow> adds msg c1 (addMsg m q c)"
  by (auto simp: addMsg_def Let_def intro: adds_cas_add split: option.split)

lemma adds_addReq: "(cas_msgID m = CfgMsgID \<longrightarrow> msg) \<Longrightarrow> adds msg c1 c \<Longrightarrow> adds msg c1 (addReq m c)"
  "(cas_msgID m = CfgMsgID \<longrightarrow> msg) \<Longrightarrow> adds msg c1 c \<Longrightarrow> adds msg c1 (addReqNakOK m c)"
  "(cas_msgID m = CfgMsgID \<longrightarrow> msg) \<Longrightarrow> adds msg c1 c \<Longrightarrow> adds msg c1 (addSetReq m f c)"
  "(mid = CfgMsgID \<longrightarrow> msg) \<Longrightarrow> adds msg c1 c \<Longrightarrow> adds msg c1 (addPollReq mid d c)"
  by (auto simp: addReq_def addReqNakOK_def addSetReq_def addPollReq_def intro!: adds_addMsg adds_cas_add)

lemma adds_failed: "adds msg c1 c \<Longrightarrow> adds msg c1 (addFailedReq err c)"
  by (auto simp: addFailedReq_def adds_def plain_def)

lemma adds_touch: "adds msg c1 c \<Longrightarrow> adds msg c1 (touchNoOp sct c)"
  by (simp add: touchNoOp_def)

lemma adds_text: "adds msg c1 c \<Longrightarrow> adds msg c1 (addTextReq p f c)"
  by (auto simp: addTextReq_def intro!: adds_cas_add)

lemmas adds_one = adds_addReq adds_failed adds_touch adds_text

lemma adds_fold: "(\<And>x c. adds msg c1 c \<Longrightarrow> adds msg c1 (f x c)) \<Longrightarrow> adds msg c1 c \<Longrightarrow> adds msg c1 (fold f xs c)"
  by (induction xs arbitrary: c) simp_all

section \<open>The phases\<close>

lemma adds_family: "adds False c (addFamilyPoll c)"
  by (auto simp: addFamilyPoll_def intro!: adds_cas_add)

lemma adds_query:
  assumes "adds False c1 c"
  shows "adds False c1 (generateTPQuery c)" "adds False c1 (generateTModeQuery c)" "adds False c1 (generateSignalQuery c)"
    "adds False c1 (generateMinElevQuery c)" "adds False c1 (pollPrt c)"
  using assms by (auto simp: generateTPQuery_def generateTModeQuery_def generateSignalQuery_def generateMinElevQuery_def pollPrt_def
    pollNavBand_def pollNavx_def intro!: adds_one)

lemma adds_TPSet: "adds False c (generateTPSet cv c)"
  by (auto simp: generateTPSet_def Let_def cas_msgID_def intro!: adds_one split: option.split)

lemma adds_addTModeSet: "addTModeSet cv tt force c = Some c' \<Longrightarrow> adds False c1 c \<Longrightarrow> adds False c1 c'"
  by (auto simp: addTModeSet_def Let_def cas_msgID_def intro!: adds_one split: option.splits if_splits)

lemma adds_TModeSet:
  assumes "generateTModeSet cv c = Some c'"
  shows "adds False c c'"
proof -
  have add: "adds False c1 c2" if "addTModeSet cv tt force c1 = Some c2" for tt force c1 c2
    by (rule adds_addTModeSet [OF that]) simp
  have two: "adds False c1 c2" if twice: "Option.bind (addTModeSet cv tt0 f0 c1) (addTModeSet cv tt f) = Some c2" for tt0 f0 tt f c1 c2
  proof -
    obtain c3 where "addTModeSet cv tt0 f0 c1 = Some c3" "addTModeSet cv tt f c3 = Some c2"
      using twice by (cases "addTModeSet cv tt0 f0 c1") auto
    then show ?thesis using add adds_trans by blast
  qed
  show ?thesis using assms
    by (auto simp: generateTModeSet_def Let_def split: prod.splits if_splits option.splits dest!: add two)
qed

lemma adds_SignalSet: "adds False c1 c \<Longrightarrow> adds False c1 (generateSignalSet c)"
  by (auto simp: generateSignalSet_def Let_def cas_msgID_def addNoSignals_def pollNavBand_def intro!: adds_one
    split: option.split prod.split)

lemma adds_MinElevSet: "adds False c1 c \<Longrightarrow> adds False c1 (generateMinElevSet cv c)"
  by (auto simp: generateMinElevSet_def Let_def cas_msgID_def intro!: adds_one split: option.split prod.split)

lemma adds_SetReqs:
  assumes "generateSetReqs cv c = Some c'"
  shows "adds False c c'"
proof -
  from assms obtain c1 where c1: "generateTModeSet cv (generateTPSet cv c) = Some c1" "c' = generateMinElevSet cv (generateSignalSet c1)"
    by (cases "generateTModeSet cv (generateTPSet cv c)") (simp_all add: generateSetReqs_def)
  have "adds False c c1" by (rule adds_trans [OF adds_TPSet adds_TModeSet [OF c1(1)]])
  then show ?thesis unfolding c1(2) by (intro adds_MinElevSet adds_SignalSet)
qed

lemma adds_rate: "adds True c1 c \<Longrightarrow> adds True c1 (addMsgRate mid on c)"
  by (auto simp: addMsgRate_def intro: adds_one)

lemma adds_MsgReqs: "adds True c (generateMsgReqs c)"
proof -
  have raw: "adds True c1 (generateRawReqs f c)" if "adds True c1 c" for c1 f c
    using that by (simp add: generateRawReqs_def adds_rate)
  have sats: "adds True c1 (generateSatsReqs f c)" if "adds True c1 c" for c1 f c
    using that by (simp add: generateSatsReqs_def adds_rate)
  have nmea1: "adds True c1 (nmea_rate f x c)" if "adds True c1 c" for c1 f x c
    using that by (cases x) (simp add: nmea_rate_def adds_one)
  have nmea: "adds True c1 (generateNMEAReqs f c)" if "adds True c1 c" for c1 f c
    using that by (auto simp: generateNMEAReqs_def Let_def simp del: fold_Cons intro!: adds_fold adds_rate nmea1)
  have set1: "adds True c1 (pvt_set off mid want c)" if "adds True c1 c" for c1 c off mid want
    using that by (simp add: pvt_set_def adds_rate)
  have v6: "adds True c1 (pvt_v6 f off c)" if "adds True c1 c" for c1 c f off
    using that by (simp add: pvt_v6_def Let_def set1)
  have tim: "adds True c1 (generateTimTPReqs tp off c)" if "adds True c1 c" for c1 c tp off
    using that by (simp add: generateTimTPReqs_def Let_def adds_rate)
  have pvt: "adds True c1 (generatePVTReqs f c)" if "adds True c1 c" for c1 f c
    using that by (simp add: generatePVTReqs_def Let_def tim v6 set1)
  show ?thesis unfolding generateMsgReqs_def Let_def by (auto split: option.split intro!: raw sats nmea pvt)
qed

lemma adds_RateReqs: "generateRateReqs c = Some c' \<Longrightarrow> adds True c c'"
  by (auto simp: generateRateReqs_def Let_def split: if_splits option.splits intro!: adds_one)

lemma adds_SpeedReqs: "adds True c (generateSpeedReqs c)"
  by (auto simp: generateSpeedReqs_def Let_def split: option.split prod.split intro!: adds_one adds_addMsg)

lemma adds_SaveReqs: "adds True c (generateSaveReqs c)"
  by (auto simp: generateSaveReqs_def addSaveReq_def Let_def intro!: adds_addMsg)

lemma adds_ResetReqs: "adds True c (generateResetReqs c)"
  by (auto simp: generateResetReqs_def addRstReq_def Let_def intro!: adds_one adds_addMsg)

text \<open>The poll of the version comes first in its phase.\<close>

definition ver_poll :: "cas_req \<Rightarrow> bool" where
  "ver_poll q \<longleftrightarrow> cq_state q = CasNotReady \<and> cq_verPoll q \<and> cq_mid q = CfgMsgID"

lemma VerQuery_shape: "adds False c (generateVerQuery c) \<or>
    (\<exists>q. cc_reqs (generateVerQuery c) = cc_reqs c @ [q] \<and> ver_poll q) \<and> cc_verReq (generateVerQuery c) = Some (length (cc_reqs c))
      \<and> cc_phase (generateVerQuery c) = cc_phase c"
  by (rule addMsg_adds [of "CfgMsgM MonVerID CfgMsgRatePoll" "zero_req\<lparr> cq_nakOK := True, cq_optional := True, cq_verPoll := True \<rparr>" c])
    (auto simp: generateVerQuery_def addInfoQuery_def cas_add_def ver_poll_def cas_msgID_def intro!: adds_one)

lemma QueryReqs_shape: "adds False (generateVerQuery c) (cas_generateQueryReqs c)"
  unfolding cas_generateQueryReqs_def Let_def by (auto intro!: adds_query)

section \<open>The invariant\<close>

definition poll_only :: "cas_req \<Rightarrow> bool" where
  "poll_only q \<longleftrightarrow> (cq_state q = CasMaybeComplete \<longrightarrow> cq_verPoll q) \<and> (cq_verPoll q \<longrightarrow> cq_mid q = CfgMsgID)"

definition polled :: "cas_cfg \<Rightarrow> bool" where
  "polled c \<longleftrightarrow> list_all (\<lambda>q. cq_verPoll q \<longrightarrow> cas_final q) (cc_reqs c)"

definition no_msgs :: "cas_cfg \<Rightarrow> bool" where
  "no_msgs c \<longleftrightarrow> list_all (\<lambda>q. \<not> cq_verPoll q \<longrightarrow> cq_mid q \<noteq> CfgMsgID) (cc_reqs c)"

definition ver_inv :: "cas_cfg \<Rightarrow> bool" where
  "ver_inv c \<longleftrightarrow> list_all poll_only (cc_reqs c)
     \<and> (\<forall>i < length (cc_reqs c). cq_verPoll (cc_reqs c ! i) \<longrightarrow> cc_verReq c = Some i)
     \<and> (case cc_verReq c of None \<Rightarrow> True | Some i \<Rightarrow> i < length (cc_reqs c))
     \<and> (cc_phase c \<le> 1 \<longrightarrow> list_all (\<lambda>q. \<not> cq_verPoll q) (cc_reqs c))
     \<and> (if cc_phase c \<le> 3 then no_msgs c else if cc_phase c < numPhases then polled c else polled c \<or> no_msgs c)"

lemma ver_new: "ver_inv (newConfigurator tgt rate)"
  by (simp add: newConfigurator_def ver_inv_def no_msgs_def)

lemma ver_changes:
  assumes inv: "ver_inv c" and ch: "list_all2 P (cc_reqs c) (cc_reqs c')" and phase: "cc_phase c' = cc_phase c" and req: "cc_verReq c' = cc_verReq c"
    and P: "\<And>q q'. P q q' \<Longrightarrow> cq_verPoll q' = cq_verPoll q \<and> cq_mid q' = cq_mid q \<and> (cas_final q \<longrightarrow> cas_final q') \<and>
      (cq_state q' = CasMaybeComplete \<longrightarrow> cq_state q = CasMaybeComplete \<or> cq_verPoll q)"
  shows "ver_inv c'"
proof -
  note len = list_all2_lengthD [OF ch]
  have each: "cq_verPoll (cc_reqs c' ! i) = cq_verPoll (cc_reqs c ! i) \<and> cq_mid (cc_reqs c' ! i) = cq_mid (cc_reqs c ! i) \<and>
      (cas_final (cc_reqs c ! i) \<longrightarrow> cas_final (cc_reqs c' ! i)) \<and>
      (cq_state (cc_reqs c' ! i) = CasMaybeComplete \<longrightarrow> cq_state (cc_reqs c ! i) = CasMaybeComplete \<or> cq_verPoll (cc_reqs c ! i))"
    if "i < length (cc_reqs c)" for i
    by (rule P) (use ch that in \<open>simp add: list_all2_conv_all_nth\<close>)
  have "polled c \<Longrightarrow> polled c'" "no_msgs c \<Longrightarrow> no_msgs c'"
    using each len by (auto simp: polled_def no_msgs_def list_all_length)
  moreover have "list_all poll_only (cc_reqs c')"
    using inv each len by (fastforce simp: ver_inv_def list_all_length poll_only_def)
  moreover have "list_all (\<lambda>q. \<not> cq_verPoll q) (cc_reqs c) \<Longrightarrow> list_all (\<lambda>q. \<not> cq_verPoll q) (cc_reqs c')"
    using each len by (auto simp: list_all_length)
  ultimately show ?thesis using inv each len phase req by (auto simp: ver_inv_def split: option.splits)
qed

lemma ver_frame: "ver_inv c \<Longrightarrow> cas_frame c c' \<Longrightarrow> ver_inv c'"
  by (rule ver_changes [of c req_step]) (auto simp: cas_frame_def req_step_def cas_final_def)

lemma ver_promote: "ver_inv c \<Longrightarrow> ver_inv (promote c)"
  by (rule ver_changes [of c "promoted False"]) (auto simp: promote_def promote_each promoted_def cas_final_def)

section \<open>A generation\<close>

lemma polled_adds: "adds msg c c' \<Longrightarrow> polled c \<Longrightarrow> polled c'"
  by (auto simp: adds_def polled_def plain_def list_all_iff)

lemma no_msgs_adds: "adds False c c' \<Longrightarrow> no_msgs c \<Longrightarrow> no_msgs c'"
  by (auto simp: adds_def no_msgs_def plain_def list_all_iff)

text \<open>What every phase keeps, whatever its number.\<close>

definition ver_core :: "cas_cfg \<Rightarrow> bool" where
  "ver_core c \<longleftrightarrow> list_all poll_only (cc_reqs c)
     \<and> (\<forall>i < length (cc_reqs c). cq_verPoll (cc_reqs c ! i) \<longrightarrow> cc_verReq c = Some i)
     \<and> (case cc_verReq c of None \<Rightarrow> True | Some i \<Rightarrow> i < length (cc_reqs c))"

lemma core_adds:
  assumes "adds msg c c'" "ver_core c"
  shows "ver_core c'"
proof -
  obtain qs where qs: "cc_reqs c' = cc_reqs c @ qs" "list_all (plain msg) qs" "cc_verReq c' = cc_verReq c"
    using assms(1) by (auto simp: adds_def)
  have new: "cq_state q \<noteq> CasMaybeComplete \<and> \<not> cq_verPoll q" if "q \<in> set qs" for q
    using qs(2) that by (auto simp: plain_def list_all_iff)
  have "cc_verReq c' = Some i" if "i < length (cc_reqs c')" "cq_verPoll (cc_reqs c' ! i)" for i
  proof (cases "i < length (cc_reqs c)")
    case True
    then show ?thesis using that qs assms(2) by (simp add: ver_core_def nth_append)
  next
    case False
    then have "cc_reqs c' ! i \<in> set qs" using that qs by (simp add: nth_append)
    then show ?thesis using new that by blast
  qed
  then show ?thesis using qs new assms(2) by (auto simp: ver_core_def poll_only_def list_all_iff split: option.splits)
qed

lemma phase_plain:
  assumes "gen_phase cv ph c = Some c'" "ph \<noteq> 1"
  shows "adds (3 \<le> ph) c c'"
proof -
  have fam: "adds False c (generateFamilyReqs c)" using adds_family by (simp add: generateFamilyReqs_def)
  show ?thesis using assms fam adds_SetReqs adds_MsgReqs adds_RateReqs adds_SpeedReqs adds_SaveReqs adds_ResetReqs
    by (auto simp: gen_phase_def unwind_Some split: if_splits)
qed

lemma query_core:
  assumes core: "ver_core c" and none: "list_all (\<lambda>q. \<not> cq_verPoll q) (cc_reqs c)" and msgs: "no_msgs c"
  shows "ver_core (cas_generateQueryReqs c) \<and> no_msgs (cas_generateQueryReqs c) \<and> cc_phase (cas_generateQueryReqs c) = cc_phase c"
proof -
  let ?v = "generateVerQuery c"
  have v: "ver_core ?v \<and> no_msgs ?v \<and> cc_phase ?v = cc_phase c" using VerQuery_shape [of c]
  proof
    assume "adds False c ?v"
    then show ?thesis using core_adds [OF _ core] no_msgs_adds [OF _ msgs] unfolding adds_def by blast
  next
    assume "(\<exists>q. cc_reqs ?v = cc_reqs c @ [q] \<and> ver_poll q) \<and> cc_verReq ?v = Some (length (cc_reqs c)) \<and> cc_phase ?v = cc_phase c"
    then obtain q where q: "cc_reqs ?v = cc_reqs c @ [q]" "ver_poll q" "cc_verReq ?v = Some (length (cc_reqs c))" "cc_phase ?v = cc_phase c"
      by auto
    have "ver_core ?v" using q core none by (auto simp: ver_core_def ver_poll_def poll_only_def nth_append list_all_length less_Suc_eq)
    moreover have "no_msgs ?v" using q msgs by (simp add: no_msgs_def ver_poll_def)
    ultimately show ?thesis using q by simp
  qed
  have q: "adds False ?v (cas_generateQueryReqs c)" by (rule QueryReqs_shape)
  have "ver_core (cas_generateQueryReqs c)" by (rule core_adds [OF q]) (use v in blast)
  moreover have "no_msgs (cas_generateQueryReqs c)" by (rule no_msgs_adds [OF q]) (use v in blast)
  ultimately show ?thesis using v q by (simp add: adds_def)
qed

lemma inv_core: "ver_inv c \<longleftrightarrow> ver_core c \<and> (cc_phase c \<le> 1 \<longrightarrow> list_all (\<lambda>q. \<not> cq_verPoll q) (cc_reqs c))
    \<and> (if cc_phase c \<le> 3 then no_msgs c else if cc_phase c < numPhases then polled c else polled c \<or> no_msgs c)"
  by (auto simp: ver_inv_def ver_core_def)

lemma phase_upd [simp]: "ver_core (c\<lparr> cc_phase := n \<rparr>) = ver_core c" "polled (c\<lparr> cc_phase := n \<rparr>) = polled c"
    "no_msgs (c\<lparr> cc_phase := n \<rparr>) = no_msgs c"
  by (simp_all add: ver_core_def polled_def no_msgs_def split: option.split)

lemma polled_ver: "ver_core c \<Longrightarrow> verFinal c \<Longrightarrow> polled c"
  by (auto simp: ver_core_def verFinal_def polled_def list_all_length split: option.splits)

lemma ver_phase:
  assumes inv: "ver_inv c" and ph: "cc_phase c < numPhases" and final: "needsVer (cc_phase c) \<longrightarrow> verFinal c"
    and gen: "gen_phase cv (cc_phase c) c = Some c1"
  shows "ver_inv (c1\<lparr> cc_phase := cc_phase c1 + 1 \<rparr>)"
proof -
  have core: "ver_core c" using inv by (simp add: inv_core)
  show ?thesis
  proof (cases "cc_phase c = 1")
    case True
    then have "c1 = cas_generateQueryReqs c" using gen by (simp add: gen_phase_def unwind_Some)
    moreover have "list_all (\<lambda>q. \<not> cq_verPoll q) (cc_reqs c)" "no_msgs c" using inv True by (simp_all add: inv_core)
    ultimately have "ver_core c1 \<and> no_msgs c1 \<and> cc_phase c1 = 1" using query_core [OF core] True by simp
    then show ?thesis by (simp add: inv_core)
  next
    case False
    have add: "adds (3 \<le> cc_phase c) c c1" by (rule phase_plain [OF gen False])
    have c1: "ver_core c1" "cc_phase c1 = cc_phase c" using core_adds [OF add core] add by (simp_all add: adds_def)
    consider "cc_phase c = 0" | "cc_phase c = 2" | "3 \<le> cc_phase c" using False by linarith
    then show ?thesis
    proof cases
      case 1
      then have "list_all (\<lambda>q. \<not> cq_verPoll q) (cc_reqs c1)" "no_msgs c1" using inv add no_msgs_adds [of c c1]
        by (auto simp: inv_core adds_def plain_def list_all_iff)
      then show ?thesis using c1 1 by (simp add: inv_core)
    next
      case 2
      then have "no_msgs c1" using inv add no_msgs_adds [of c c1] by (simp add: inv_core)
      then show ?thesis using c1 2 by (simp add: inv_core)
    next
      case 3
      have "polled c"
      proof (cases "cc_phase c = 3")
        case True
        then show ?thesis using final polled_ver [OF core] by (simp add: needsVer_def)
      next
        case False
        then show ?thesis using inv ph 3 by (simp add: inv_core)
      qed
      then show ?thesis using c1 3 polled_adds [OF add] by (simp add: inv_core)
    qed
  qed
qed

lemma ver_generates: "ver_inv c \<Longrightarrow> generate_from cv k c = Some c' \<Longrightarrow> ver_inv c'"
proof (induction k arbitrary: c)
  case (Suc k)
  have keep: "ver_inv c1" if "adds False c c1" for c1
    using Suc.prems(1) core_adds [OF that] polled_adds [OF that] no_msgs_adds [OF that] that
    by (auto simp: inv_core adds_def plain_def list_all_iff)
  have give_up: "ver_inv (c1\<lparr> cc_phase := numPhases \<rparr>)" if "adds False c c1" for c1
    using keep [OF that] by (auto simp: inv_core split: if_splits)
  have fail: "ver_inv ((addFailedReq e c)\<lparr> cc_phase := numPhases \<rparr>)" "ver_inv (c\<lparr> cc_phase := numPhases \<rparr>)" for e
    by (rule give_up, simp add: adds_failed)+
  show ?case
  proof (cases "cc_phase c < numPhases \<and> configFinal c")
    case False
    then show ?thesis using Suc.prems by simp
  next
    case True
    show ?thesis
    proof (cases "0 < cc_phase c \<and> cr_rate (cc_read c) = None")
      case True
      then show ?thesis using Suc.prems(2) \<open>cc_phase c < numPhases \<and> configFinal c\<close> keep [OF adds_family] fail
        by (auto simp: Let_def split: if_splits)
    next
      case known: False
      show ?thesis
      proof (cases "needsVer (cc_phase c) \<and> \<not> verFinal c \<or> needsVersion (cc_phase c) \<and> \<not> versionFinal c")
        case wait: True
        then have "c' = c" using Suc.prems(2) True known by (auto split: if_splits)
        then show ?thesis using Suc.prems(1) by simp
      next
        case go: False
        then obtain c1 where c1: "gen_phase cv (cc_phase c) c = Some c1" "generate_from cv k (c1\<lparr> cc_phase := cc_phase c1 + 1 \<rparr>) = Some c'"
          using Suc.prems(2) True known by (auto split: option.splits if_splits)
        have "ver_inv (c1\<lparr> cc_phase := cc_phase c1 + 1 \<rparr>)" by (rule ver_phase [OF Suc.prems(1) _ _ c1(1)]) (use True go in auto)
        then show ?thesis using Suc.IH c1(2) by blast
      qed
    qed
  qed
qed simp

lemma ver_generate: "ver_inv c \<Longrightarrow> ver_inv (snd (generateRequests (cas_configurator cv) c))"
  using ver_generates [of c cv numPhases] ver_promote
  by (auto simp: cas_configurator_def cas_generateRequests_def simp del: generate_from.simps split: option.split)

section \<open>The first unfinished request\<close>

lemma promote_ready:
  assumes "i < length qs" "cq_state (promote_from live cfgLive qs ! i) = CasNotReady" "\<not> cfgLive"
    "\<forall>j < i. cas_final (promote_from live cfgLive qs ! j) \<or> cq_state (promote_from live cfgLive qs ! j) = CasMaybeComplete"
  shows "live (cq_mid (qs ! i)) \<or> (\<exists>j < i. cq_state (qs ! j) = CasMaybeComplete \<and> cq_mid (qs ! j) = cq_mid (qs ! i))"
  using assms
proof (induction qs arbitrary: live cfgLive i)
  case (Cons q qs)
  show ?case
  proof (cases i)
    case 0
    then show ?thesis using Cons.prems by (auto simp: Let_def split: if_splits)
  next
    case (Suc i')
    define q1 where "q1 = promote_from live cfgLive (q # qs) ! 0"
    have q1: "cas_final q1 \<or> cq_state q1 = CasMaybeComplete" using Cons.prems(4) Suc unfolding q1_def by blast
    obtain live1 where eq: "promote_from live cfgLive (q # qs) = q1 # promote_from live1 False qs"
      and live1: "\<forall>m. live1 m \<longrightarrow> live m \<or> cq_state q = CasMaybeComplete \<and> cq_mid q = m"
    proof (cases "cq_onText q = None")
      case False
      then have "promote_from live cfgLive (q # qs) = q1 # promote_from live False qs" using Cons.prems(3) by (simp add: q1_def)
      then show ?thesis by (rule that) simp
    next
      case True
      have "q1 = q" "cas_final q \<or> cq_state q = CasMaybeComplete" using q1 True
        by (auto simp: q1_def Let_def cas_final_def split: if_splits)
      then have "promote_from live cfgLive (q # qs) = q1 # promote_from (if cas_final q then live else live(cq_mid q := True)) False qs"
        using Cons.prems(3) True by (auto simp: q1_def Let_def holds_slot_def cas_final_def)
      then show ?thesis by (rule that) (use \<open>cas_final q \<or> cq_state q = CasMaybeComplete\<close> in auto)
    qed
    have "live1 (cq_mid (qs ! i')) \<or> (\<exists>j < i'. cq_state (qs ! j) = CasMaybeComplete \<and> cq_mid (qs ! j) = cq_mid (qs ! i'))"
    proof (rule Cons.IH)
      show "\<forall>j < i'. cas_final (promote_from live1 False qs ! j) \<or> cq_state (promote_from live1 False qs ! j) = CasMaybeComplete"
        using Cons.prems(4) Suc eq by auto
    qed (use Cons.prems Suc eq in auto)
    then show ?thesis using live1 Suc by fastforce
  qed
qed simp

lemma ver_ready:
  assumes "ver_inv c" "i < length (cc_reqs c)"
    "\<forall>j < i. cas_final (cc_reqs (promote c) ! j) \<or> cq_state (cc_reqs (promote c) ! j) = CasMaybeComplete"
  shows "cq_state (cc_reqs (promote c) ! i) \<noteq> CasNotReady"
proof
  let ?qs = "cc_reqs c"
  assume "cq_state (cc_reqs (promote c) ! i) = CasNotReady"
  then obtain j where j: "j < i" "cq_state (?qs ! j) = CasMaybeComplete" "cq_mid (?qs ! j) = cq_mid (?qs ! i)"
    using promote_ready [OF assms(2), of "\<lambda>_. False" False] assms(3) by (auto simp: promote_def)
  have poll: "cq_verPoll (?qs ! j)" "cc_verReq c = Some j" "cq_mid (?qs ! j) = CfgMsgID"
    using assms(1,2) j by (auto simp: ver_inv_def list_all_length poll_only_def)
  have "\<not> cas_final (?qs ! j)" "j < length ?qs" using j assms(2) by (simp_all add: cas_final_def)
  then have "\<not> polled c" using poll(1) by (auto simp: polled_def list_all_length)
  then have msgs: "no_msgs c" using assms(1) by (auto simp: ver_inv_def split: if_splits)
  have "\<not> cq_verPoll (?qs ! i)" using assms poll(2) j(1) by (auto simp: ver_inv_def)
  then have "cq_mid (?qs ! i) \<noteq> CfgMsgID" using msgs assms(2) by (simp add: no_msgs_def list_all_length)
  then show False using j(3) poll(3) by simp
qed

section \<open>The contract with the director\<close>

lemma cas_ended: "ended (cas_getState q) \<longleftrightarrow> cas_final q \<or> cq_state q = CasMaybeComplete" for q :: cas_req
  by (cases "cq_state q") (simp_all add: cas_getState_def ended_def req_final_def cas_final_def)

lemma cas_unready: "cas_getState q = ReqNotReady \<longleftrightarrow> cq_state q = CasNotReady" for q :: cas_req
  by (cases "cq_state q") (simp_all add: cas_getState_def)

lemma cas_first_ready:
  assumes "ver_inv c" "fst (generateRequests (cas_configurator cv) c) = None"
  shows "first_ready (cas_configurator cv) (snd (generateRequests (cas_configurator cv) c))"
proof -
  obtain c1 where c1: "generate_from cv numPhases c = Some c1" "snd (generateRequests (cas_configurator cv) c) = promote c1"
    using assms(2) by (auto simp: cas_configurator_def cas_generateRequests_def simp del: generate_from.simps split: option.splits)
  have inv: "ver_inv c1" by (rule ver_generates [OF assms(1) c1(1)])
  have "length (cc_reqs (promote c1)) = length (cc_reqs c1)" by (simp add: promote_def)
  then show ?thesis using ver_ready [OF inv] c1(2)
    by (simp add: first_ready_def cas_configurator_def cas_requestCount_def cas_ended cas_unready)
qed

lemma cas_timed:
  assumes "hasDeadline (getState (cas_configurator cv) c i)"
  shows "timed (cas_configurator cv) c (setDeadlinePassed (cas_configurator cv) i c)"
proof (cases "i < length (cc_reqs c)")
  case True
  let ?q = "cc_reqs c ! i"
  obtain q' where q': "cas_setDeadlinePassed ?q = Some q'" "cas_getState q' = ReqMayResend \<or> cas_getState ?q = ReqMaybeComplete"
      "cas_getState q' \<noteq> ReqNotReady" "\<not> req_final (cas_getState ?q)"
    using assms by (cases "cq_state ?q")
      (auto simp: cas_configurator_def cas_getState_def hasDeadline_def req_final_def cas_setDeadlinePassed_def)
  have "cc_reqs (setDeadlinePassed (cas_configurator cv) i c) = (cc_reqs c)[i := q']"
    using True q'(1) by (simp add: cas_configurator_def cas_update_def upd_req_def)
  then show ?thesis using q' True
    by (auto simp: timed_def cas_configurator_def cas_requestCount_def nth_list_update ended_def req_final_def)
qed (simp add: cas_configurator_def cas_update_def upd_req_def)

lemma ver_step: "ver_inv c \<Longrightarrow> ver_inv (cas_step cv e c)"
proof (cases "e = CasGenerate")
  case True
  assume "ver_inv c"
  moreover have "cas_step cv CasGenerate c = snd (generateRequests (cas_configurator cv) c)"
    by (simp add: cas_step_def cas_configurator_def split: option.split)
  ultimately show ?thesis using True ver_generate by simp
next
  case False
  assume "ver_inv c"
  then show ?thesis by (rule ver_frame) (rule frame_step [OF False])
qed

text \<open>The program that configures a CASIC receiver: what it reads reaches the configurator as events.\<close>

definition cas_program :: "cas_conv \<Rightarrow> (cas_cfg, cas_event) cfg_env \<Rightarrow> cas_cfg client" where
  "cas_program cv = gpscfg_client (\<lambda>i t. cas_step cv (CasSent i t)) (cas_step cv)"

interpretation cas_live: configuring "cas_configurator cv" "cas_program cv env" ver_inv for cv env
proof
  have late: "setDeadlinePassed (cas_configurator cv) i c = cas_step cv (CasLate i) c"
    "setWontResend (cas_configurator cv) i c = cas_step cv (CasWont i) c"
    "maybeSpeedChangeSucceeded (cas_configurator cv) i t c = cas_step cv (CasSpeed i t) c" for i t c
    by (simp_all add: cas_configurator_def cas_step_def)
  show "configurator_ok (cas_configurator cv)" by (rule cas_configurator_ok)
  show "client_ok (cas_configurator cv) (cas_program cv env)"
    unfolding cas_program_def by (rule gpscfg_ok) (rule settled_step)+
  show "\<exists>t rest. snd (cas_program cv env act r) = AdvanceTimeToCall t # rest \<and> currentTime r \<le> t \<and> list_all (drives ver_inv) rest \<and>
      (\<forall>e. act = ActError e \<longrightarrow> rest = [])" for act r
    unfolding cas_program_def by (rule gpscfg_calls) (rule ver_step, assumption)+
  show "ver_inv (setDeadlinePassed (cas_configurator cv) i c)" if "ver_inv c" for c i
    unfolding late by (rule ver_step [OF that])
  show "ver_inv (setWontResend (cas_configurator cv) i c)" if "ver_inv c" for c i
    unfolding late by (rule ver_step [OF that])
  show "ver_inv (maybeSpeedChangeSucceeded (cas_configurator cv) i t c)" if "ver_inv c" for c i t
    unfolding late by (rule ver_step [OF that])
qed (simp_all add: ver_generate cas_first_ready cas_timed)

text \<open>C0: The director never panics and never finds itself stuck when the program configures a CASIC receiver: whatever
  packets arrive, however much time passes between the actions, however long it runs. Stuck means that neither a request can be sent nor
  a deadline be awaited although some request has not ended; panicking, that the time did not advance.\<close>

theorem cas_never_stuck:
  "fst (director_actions (cas_configurator cv) (cas_program cv env) fuel (newConfigDirector (newConfigurator tgt rate) m))
    \<notin> {Some Panicked, Some Stuck}"
  by (rule cas_live.never_stuck [OF ver_new])

end
