(* ===== verification/Pmc.thy ===== *)
theory Pmc
  imports Wire
begin

text \<open>
  The PTP management messages with which the clock controller tells a PTP daemon about its time
  (\<^verbatim>\<open>time/lib/pmc\<close>): their structure (\<^verbatim>\<open>msg.go\<close>, \<^verbatim>\<open>mid.go\<close>, \<^verbatim>\<open>errorstatus.go\<close>), and the client that matches
  responses with requests by a 16-bit sequence number (\<^verbatim>\<open>client.go\<close>). An array of eight bytes is a word of 64 bits.
\<close>

section \<open>Numbers in network order\<close>

definition be_put :: "nat \<Rightarrow> 'a::len word \<Rightarrow> bytes" where
  "be_put n w = rev (le_put n (unat w))"

text \<open>\<^verbatim>\<open>binary.Read\<close> of a number of \<open>n\<close> bytes; \<open>None\<close> when there are fewer.\<close>

definition be_read :: "nat \<Rightarrow> bytes \<Rightarrow> ('a::len word \<times> bytes) option" where
  "be_read n bs = (if length bs < n then None else Some (word_of_nat (le_get (rev (take n bs))), drop n bs))"

lemma length_be_put [simp]: "length (be_put n w) = n"
  by (simp add: be_put_def)

lemma be_put_not_Nil [simp]: "be_put (Suc n) w \<noteq> []"
  using length_be_put [of "Suc n" w] by (metis list.size(3) nat.distinct(1))

lemma unat_less: "unat (w :: 'a::len word) < 2 ^ LENGTH('a)"
  by (rule unsigned_less)

lemma be_read_put:
  assumes "LENGTH('a::len) = 8 * n"
  shows "be_read n (be_put n (w :: 'a word) @ rest) = Some (w, rest)"
proof -
  have "unat w < 256 ^ n" using unat_less [of w] assms by (simp add: power_mult)
  then show ?thesis by (simp add: be_read_def be_put_def le_get_put)
qed

abbreviation "put8 \<equiv> (be_put (Suc 0) :: 8 word \<Rightarrow> bytes)"
abbreviation "put16 \<equiv> (be_put 2 :: 16 word \<Rightarrow> bytes)"
abbreviation "put32 \<equiv> (be_put 4 :: 32 word \<Rightarrow> bytes)"
abbreviation "put64 \<equiv> (be_put 8 :: 64 word \<Rightarrow> bytes)"
abbreviation "read8 \<equiv> (be_read (Suc 0) :: bytes \<Rightarrow> (8 word \<times> bytes) option)"
abbreviation "read16 \<equiv> (be_read 2 :: bytes \<Rightarrow> (16 word \<times> bytes) option)"
abbreviation "read32 \<equiv> (be_read 4 :: bytes \<Rightarrow> (32 word \<times> bytes) option)"
abbreviation "read64 \<equiv> (be_read 8 :: bytes \<Rightarrow> (64 word \<times> bytes) option)"

lemma reads [simp]: "read8 (put8 a @ r) = Some (a, r)" "read16 (put16 b @ r) = Some (b, r)" "read32 (put32 c @ r) = Some (c, r)"
  "read64 (put64 d @ r) = Some (d, r)"
  by (simp_all add: be_read_put)

section \<open>Structures\<close>

record PortIdentity =
  pi_ClockIdentity :: "64 word"
  pi_PortNumber :: "16 word"

definition AnyPortIdentity :: PortIdentity where
  "AnyPortIdentity = \<lparr> pi_ClockIdentity = 0xFFFFFFFFFFFFFFFF, pi_PortNumber = 0xFFFF \<rparr>"

record ClockQuality =
  kq_ClockClass :: "8 word"
  kq_ClockAccuracy :: "8 word"
  kq_OffsetScaledLogVariance :: "16 word"

record Header =
  hd_MajorSdoIDMessageType :: "8 word"
  hd_Version :: "8 word"
  hd_MessageLength :: "16 word"
  hd_DomainNumber :: "8 word"
  hd_MinorSdoID :: "8 word"
  hd_FlagField :: "16 word"
  hd_CorrectionField :: "64 word"
  hd_MessageTypeSpecific :: "32 word"
  hd_SourcePortIdentity :: PortIdentity
  hd_SequenceID :: "16 word"
  hd_ControlField :: "8 word"
  hd_LogMessageInterval :: "8 word"

record MgmtMsgPrefix =
  mp_Header :: Header
  mp_TargetPortIdentity :: PortIdentity
  mp_StartingBoundaryHops :: "8 word"
  mp_BoundaryHops :: "8 word"
  mp_ActionField :: "8 word"
  mp_TLVType :: "16 word"
  mp_TLVLength :: "16 word"

text \<open>The data of each management id, its fields in the order of the source without the blank ones.\<close>

datatype MgmtData =
    NullPTPMgmt
  | DefaultDS "8 word" "16 word" "8 word" ClockQuality "8 word" "64 word" "8 word"
  | CurrentDS "16 word" "64 word" "64 word"
  | ParentDS PortIdentity bool "16 word" "32 word" "8 word" ClockQuality "8 word" "64 word"
  | TimePropertiesDS "16 word" "8 word" "8 word"
  | GrandmasterSettings ClockQuality "16 word" "8 word" "8 word"
  | UTCProperties "16 word" "8 word"

definition MIDNullPTPManagement :: "16 word" where "MIDNullPTPManagement = 0x0000"
definition MIDDefaultDataSet :: "16 word" where "MIDDefaultDataSet = 0x2000"
definition MIDCurrentDataSet :: "16 word" where "MIDCurrentDataSet = 0x2001"
definition MIDParentDataSet :: "16 word" where "MIDParentDataSet = 0x2002"
definition MIDTimePropertiesDataSet :: "16 word" where "MIDTimePropertiesDataSet = 0x2003"
definition MIDUTCProperties :: "16 word" where "MIDUTCProperties = 0x2011"
definition MIDGrandmasterSettings :: "16 word" where "MIDGrandmasterSettings = 0xC001"

definition data_MgmtID :: "MgmtData \<Rightarrow> 16 word" where
  "data_MgmtID d =
     (case d of
        NullPTPMgmt \<Rightarrow> MIDNullPTPManagement | DefaultDS _ _ _ _ _ _ _ \<Rightarrow> MIDDefaultDataSet | CurrentDS _ _ _ \<Rightarrow> MIDCurrentDataSet
      | ParentDS _ _ _ _ _ _ _ _ \<Rightarrow> MIDParentDataSet | TimePropertiesDS _ _ _ \<Rightarrow> MIDTimePropertiesDataSet
      | GrandmasterSettings _ _ _ _ \<Rightarrow> MIDGrandmasterSettings | UTCProperties _ _ \<Rightarrow> MIDUTCProperties)"

text \<open>The value of a message: a data set with its id, an id alone to get one, or an error with an optional text.\<close>

datatype MgmtValue = SetValue "16 word" MgmtData | GetValue "16 word" | ErrorStatus "16 word" "16 word" "bytes option"

definition TLVTypeMgmt :: "16 word" where "TLVTypeMgmt = 0x0001"
definition TLVTypeMgmtErrorStatus :: "16 word" where "TLVTypeMgmtErrorStatus = 0x0002"

type_synonym MgmtMsg = "MgmtMsgPrefix \<times> MgmtValue"

datatype pmc_error = PmcRead | PmcUnsupportedTLV "16 word" | PmcUnsupportedID "16 word" | PmcTrailing
  | PmcTextTooLong nat | PmcTooLong

section \<open>Marshalling\<close>

definition put_port :: "PortIdentity \<Rightarrow> bytes" where
  "put_port p = put64 (pi_ClockIdentity p) @ put16 (pi_PortNumber p)"

definition put_quality :: "ClockQuality \<Rightarrow> bytes" where
  "put_quality q = put8 (kq_ClockClass q) @ put8 (kq_ClockAccuracy q) @ put16 (kq_OffsetScaledLogVariance q)"

definition put_prefix :: "MgmtMsgPrefix \<Rightarrow> bytes" where
  "put_prefix p =
     (let h = mp_Header p
      in put8 (hd_MajorSdoIDMessageType h) @ put8 (hd_Version h) @ put16 (hd_MessageLength h) @ put8 (hd_DomainNumber h) @
         put8 (hd_MinorSdoID h) @ put16 (hd_FlagField h) @ put64 (hd_CorrectionField h) @ put32 (hd_MessageTypeSpecific h) @
         put_port (hd_SourcePortIdentity h) @ put16 (hd_SequenceID h) @ put8 (hd_ControlField h) @ put8 (hd_LogMessageInterval h) @
         put_port (mp_TargetPortIdentity p) @ put8 (mp_StartingBoundaryHops p) @ put8 (mp_BoundaryHops p) @
         put8 (mp_ActionField p) @ put8 0 @ put16 (mp_TLVType p) @ put16 (mp_TLVLength p))"

definition put_data :: "MgmtData \<Rightarrow> bytes" where
  "put_data d =
     (case d of
        NullPTPMgmt \<Rightarrow> []
      | DefaultDS flags ports p1 q p2 ident domain \<Rightarrow>
          put8 flags @ put8 0 @ put16 ports @ put8 p1 @ put_quality q @ put8 p2 @ put64 ident @ put8 domain @ put8 0
      | CurrentDS steps offset delay \<Rightarrow> put16 steps @ put64 offset @ put64 delay
      | ParentDS port stats var phase p1 q p2 ident \<Rightarrow>
          put_port port @ put8 (if stats then 1 else 0) @ put8 0 @ put16 var @ put32 phase @ put8 p1 @ put_quality q @ put8 p2 @ put64 ident
      | TimePropertiesDS utc flags src \<Rightarrow> put16 utc @ put8 flags @ put8 src
      | GrandmasterSettings q utc flags src \<Rightarrow> put_quality q @ put16 utc @ put8 flags @ put8 src
      | UTCProperties utc flags \<Rightarrow> put16 utc @ put8 flags @ put8 0)"

definition writePTPText :: "bytes \<Rightarrow> pmc_error + bytes" where
  "writePTPText s = (if 255 < length s then Inl (PmcTextTooLong (length s)) else Inr (put8 (word_of_nat (length s)) @ s))"

definition put_errorStatus :: "16 word \<Rightarrow> 16 word \<Rightarrow> bytes option \<Rightarrow> pmc_error + bytes" where
  "put_errorStatus eid mid text =
     (let b = put16 eid @ put16 mid @ put32 0
      in case text of
           None \<Rightarrow> Inr b
         | Some s \<Rightarrow>
             (case writePTPText s of
                Inl e \<Rightarrow> Inl e
              | Inr t \<Rightarrow> Inr (b @ t @ (if length s mod 2 = 0 then put8 0 else []))))"

definition put_value :: "MgmtValue \<Rightarrow> pmc_error + bytes" where
  "put_value v =
     (case v of SetValue mid d \<Rightarrow> Inr (put16 mid @ put_data d) | GetValue mid \<Rightarrow> Inr (put16 mid)
      | ErrorStatus eid mid text \<Rightarrow> put_errorStatus eid mid text)"

definition fixupBinaryLength :: "bytes \<Rightarrow> pmc_error + bytes" where
  "fixupBinaryLength data =
     (let l = length data
      in if 0xFFFF < l then Inl PmcTooLong
         else Inr (take 2 data @ put16 (word_of_nat l) @ take 46 (drop 4 data) @ put16 (word_of_nat (l - 52)) @ drop 52 data))"

definition marshalBinary :: "MgmtMsg \<Rightarrow> pmc_error + bytes" where
  "marshalBinary = (\<lambda>(p, v). case put_value v of Inl e \<Rightarrow> Inl e | Inr b \<Rightarrow> fixupBinaryLength (put_prefix p @ b))"

section \<open>Unmarshalling\<close>

definition read_port :: "bytes \<Rightarrow> (PortIdentity \<times> bytes) option" where
  "read_port bs = do { (c, bs) \<leftarrow> read64 bs; (n, bs) \<leftarrow> read16 bs; Some (\<lparr> pi_ClockIdentity = c, pi_PortNumber = n \<rparr>, bs) }"

definition read_quality :: "bytes \<Rightarrow> (ClockQuality \<times> bytes) option" where
  "read_quality bs = do { (c, bs) \<leftarrow> read8 bs; (a, bs) \<leftarrow> read8 bs; (v, bs) \<leftarrow> read16 bs;
     Some (\<lparr> kq_ClockClass = c, kq_ClockAccuracy = a, kq_OffsetScaledLogVariance = v \<rparr>, bs) }"

definition read_header :: "bytes \<Rightarrow> (Header \<times> bytes) option" where
  "read_header bs = do {
     (ty, bs) \<leftarrow> read8 bs; (ver, bs) \<leftarrow> read8 bs; (len, bs) \<leftarrow> read16 bs; (dom, bs) \<leftarrow> read8 bs; (minor, bs) \<leftarrow> read8 bs;
     (flags, bs) \<leftarrow> read16 bs; (corr, bs) \<leftarrow> read64 bs; (spec, bs) \<leftarrow> read32 bs; (src, bs) \<leftarrow> read_port bs; (sqn, bs) \<leftarrow> read16 bs;
     (ctl, bs) \<leftarrow> read8 bs; (log, bs) \<leftarrow> read8 bs;
     Some (\<lparr> hd_MajorSdoIDMessageType = ty, hd_Version = ver, hd_MessageLength = len, hd_DomainNumber = dom, hd_MinorSdoID = minor,
       hd_FlagField = flags, hd_CorrectionField = corr, hd_MessageTypeSpecific = spec, hd_SourcePortIdentity = src,
       hd_SequenceID = sqn, hd_ControlField = ctl, hd_LogMessageInterval = log \<rparr>, bs) }"

definition read_prefix :: "bytes \<Rightarrow> (MgmtMsgPrefix \<times> bytes) option" where
  "read_prefix bs = do {
     (h, bs) \<leftarrow> read_header bs; (tgt, bs) \<leftarrow> read_port bs; (shops, bs) \<leftarrow> read8 bs; (hops, bs) \<leftarrow> read8 bs; (act, bs) \<leftarrow> read8 bs;
     (_, bs) \<leftarrow> read8 bs; (tlv, bs) \<leftarrow> read16 bs; (len, bs) \<leftarrow> read16 bs;
     Some (\<lparr> mp_Header = h, mp_TargetPortIdentity = tgt, mp_StartingBoundaryHops = shops, mp_BoundaryHops = hops,
       mp_ActionField = act, mp_TLVType = tlv, mp_TLVLength = len \<rparr>, bs) }"

definition read_default :: "bytes \<Rightarrow> (MgmtData \<times> bytes) option" where
  "read_default bs = do {
     (flags, bs) \<leftarrow> read8 bs; (_, bs) \<leftarrow> read8 bs; (ports, bs) \<leftarrow> read16 bs; (p1, bs) \<leftarrow> read8 bs; (q, bs) \<leftarrow> read_quality bs;
     (p2, bs) \<leftarrow> read8 bs; (ident, bs) \<leftarrow> read64 bs; (domain, bs) \<leftarrow> read8 bs; (_, bs) \<leftarrow> read8 bs;
     Some (DefaultDS flags ports p1 q p2 ident domain, bs) }"

definition read_current :: "bytes \<Rightarrow> (MgmtData \<times> bytes) option" where
  "read_current bs = do { (steps, bs) \<leftarrow> read16 bs; (offset, bs) \<leftarrow> read64 bs; (delay, bs) \<leftarrow> read64 bs; Some (CurrentDS steps offset delay, bs) }"

definition read_parent :: "bytes \<Rightarrow> (MgmtData \<times> bytes) option" where
  "read_parent bs = do {
     (port, bs) \<leftarrow> read_port bs; (stats, bs) \<leftarrow> read8 bs; (_, bs) \<leftarrow> read8 bs; (var, bs) \<leftarrow> read16 bs; (phase, bs) \<leftarrow> read32 bs;
     (p1, bs) \<leftarrow> read8 bs; (q, bs) \<leftarrow> read_quality bs; (p2, bs) \<leftarrow> read8 bs; (ident, bs) \<leftarrow> read64 bs;
     Some (ParentDS port (stats \<noteq> 0) var phase p1 q p2 ident, bs) }"

definition read_timeProps :: "bytes \<Rightarrow> (MgmtData \<times> bytes) option" where
  "read_timeProps bs = do { (utc, bs) \<leftarrow> read16 bs; (flags, bs) \<leftarrow> read8 bs; (src, bs) \<leftarrow> read8 bs; Some (TimePropertiesDS utc flags src, bs) }"

definition read_settings :: "bytes \<Rightarrow> (MgmtData \<times> bytes) option" where
  "read_settings bs = do { (q, bs) \<leftarrow> read_quality bs; (utc, bs) \<leftarrow> read16 bs; (flags, bs) \<leftarrow> read8 bs; (src, bs) \<leftarrow> read8 bs;
     Some (GrandmasterSettings q utc flags src, bs) }"

definition read_utcProps :: "bytes \<Rightarrow> (MgmtData \<times> bytes) option" where
  "read_utcProps bs = do { (utc, bs) \<leftarrow> read16 bs; (flags, bs) \<leftarrow> read8 bs; (_, bs) \<leftarrow> read8 bs; Some (UTCProperties utc flags, bs) }"

definition unmarshalMgmtValue :: "(bytes \<Rightarrow> (MgmtData \<times> bytes) option) \<Rightarrow> bytes \<Rightarrow> pmc_error + MgmtValue \<times> bytes" where
  "unmarshalMgmtValue rd bs = (case rd bs of None \<Rightarrow> Inl PmcRead | Some (d, bs) \<Rightarrow> Inr (SetValue (data_MgmtID d) d, bs))"

definition unmarshalMID :: "bytes \<Rightarrow> 16 word \<Rightarrow> pmc_error + MgmtValue \<times> bytes" where
  "unmarshalMID bs mid =
     (if mid = MIDNullPTPManagement then unmarshalMgmtValue (\<lambda>bs. Some (NullPTPMgmt, bs)) bs
      else if mid = MIDGrandmasterSettings then unmarshalMgmtValue read_settings bs
      else if mid = MIDDefaultDataSet then unmarshalMgmtValue read_default bs
      else if mid = MIDCurrentDataSet then unmarshalMgmtValue read_current bs
      else if mid = MIDParentDataSet then unmarshalMgmtValue read_parent bs
      else if mid = MIDTimePropertiesDataSet then unmarshalMgmtValue read_timeProps bs
      else if mid = MIDUTCProperties then unmarshalMgmtValue read_utcProps bs
      else Inl (PmcUnsupportedID mid))"

definition readPTPText :: "bytes \<Rightarrow> (bytes \<times> bytes) option" where
  "readPTPText bs = do { (n, bs) \<leftarrow> read8 bs; if length bs < unat n then None else Some (take (unat n) bs, drop (unat n) bs) }"

definition unmarshalMgmtErrorStatus :: "bytes \<Rightarrow> (MgmtValue \<times> bytes) option" where
  "unmarshalMgmtErrorStatus bs = do {
     (eid, bs) \<leftarrow> read16 bs; (mid, bs) \<leftarrow> read16 bs; (_, bs) \<leftarrow> read32 bs;
     if bs = [] then Some (ErrorStatus eid mid None, [])
     else do {
       (text, bs) \<leftarrow> readPTPText bs;
       if length text mod 2 = 0 then do { (_, bs) \<leftarrow> read8 bs; Some (ErrorStatus eid mid (Some text), bs) }
       else Some (ErrorStatus eid mid (Some text), bs) } }"

definition all_read :: "MgmtMsgPrefix \<Rightarrow> MgmtValue \<times> bytes \<Rightarrow> pmc_error + MgmtMsg" where
  "all_read p = (\<lambda>(v, bs). if bs = [] then Inr (p, v) else Inl PmcTrailing)"

definition unmarshalMgmtMsg :: "bytes \<Rightarrow> pmc_error + MgmtMsg" where
  "unmarshalMgmtMsg data =
     (case read_prefix data of
        None \<Rightarrow> Inl PmcRead
      | Some (p, bs) \<Rightarrow>
          (if mp_TLVType p = TLVTypeMgmt then
             (case read16 bs of
                None \<Rightarrow> Inl PmcRead
              | Some (mid, bs) \<Rightarrow> (case unmarshalMID bs mid of Inl e \<Rightarrow> Inl e | Inr x \<Rightarrow> all_read p x))
           else if mp_TLVType p = TLVTypeMgmtErrorStatus then
             (case unmarshalMgmtErrorStatus bs of None \<Rightarrow> Inl PmcRead | Some x \<Rightarrow> all_read p x)
           else Inl (PmcUnsupportedTLV (mp_TLVType p))))"

section \<open>Round trips\<close>

definition with_lengths :: "nat \<Rightarrow> MgmtMsgPrefix \<Rightarrow> MgmtMsgPrefix" where
  "with_lengths l p = p\<lparr> mp_Header := (mp_Header p)\<lparr> hd_MessageLength := word_of_nat l \<rparr>, mp_TLVLength := word_of_nat (l - 52) \<rparr>"

lemma length_prefix: "length (put_prefix p) = 52"
  by (simp add: put_prefix_def put_port_def Let_def)

lemma fixup_prefix:
  "fixupBinaryLength (put_prefix p @ b) =
     (if 0xFFFF < 52 + length b then Inl PmcTooLong else Inr (put_prefix (with_lengths (52 + length b) p) @ b))"
  by (simp add: fixupBinaryLength_def length_prefix Let_def) (simp add: put_prefix_def put_port_def with_lengths_def Let_def)

lemma read_port_put [simp]: "read_port (put_port p @ r) = Some (p, r)"
  by (simp add: read_port_def put_port_def)

lemma read_quality_put [simp]: "read_quality (put_quality q @ r) = Some (q, r)"
  by (simp add: read_quality_def put_quality_def)

lemma read_prefix_put: "read_prefix (put_prefix p @ r) = Some (p, r)"
  by (simp add: read_prefix_def read_header_def put_prefix_def Let_def)

lemma reads_end [simp]: "read8 (put8 a) = Some (a, [])" "read16 (put16 b) = Some (b, [])" "read32 (put32 c) = Some (c, [])"
  "read64 (put64 d) = Some (d, [])"
  using reads [where r = "[]"] by simp_all

lemma unmarshal_data: "unmarshalMID (put_data d) (data_MgmtID d) = Inr (SetValue (data_MgmtID d) d, [])"
  by (cases d) (simp_all add: put_data_def data_MgmtID_def unmarshalMID_def unmarshalMgmtValue_def read_settings_def read_default_def
    read_current_def read_parent_def read_timeProps_def read_utcProps_def MIDNullPTPManagement_def MIDDefaultDataSet_def
    MIDCurrentDataSet_def MIDParentDataSet_def MIDTimePropertiesDataSet_def MIDUTCProperties_def MIDGrandmasterSettings_def)

lemma text_unat: "length s \<le> 255 \<Longrightarrow> unat (word_of_nat (length s) :: 8 word) = length s"
  by (simp add: unat_of_nat)

lemma unmarshal_status:
  "put_errorStatus eid mid text = Inr b \<Longrightarrow> unmarshalMgmtErrorStatus b = Some (ErrorStatus eid mid text, [])"
  by (auto simp: put_errorStatus_def unmarshalMgmtErrorStatus_def writePTPText_def readPTPText_def text_unat Let_def
    split: option.splits if_splits)

text \<open>A message that a peer can answer: of the data set that its id names, or an error.\<close>

definition answerable :: "MgmtMsg \<Rightarrow> bool" where
  "answerable = (\<lambda>(p, v). case v of SetValue mid d \<Rightarrow> mid = data_MgmtID d \<and> mp_TLVType p = TLVTypeMgmt
     | GetValue mid \<Rightarrow> False | ErrorStatus eid mid text \<Rightarrow> mp_TLVType p = TLVTypeMgmtErrorStatus)"

lemma pmc_reads:
  assumes "answerable (p, v)" "put_value v = Inr b"
  shows "unmarshalMgmtMsg (put_prefix p @ b) = Inr (p, v)"
proof (cases v)
  case (SetValue mid d)
  then show ?thesis using assms
    by (auto simp: answerable_def unmarshalMgmtMsg_def read_prefix_put put_value_def unmarshal_data all_read_def)
next
  case (ErrorStatus eid mid tx)
  then show ?thesis using assms
    by (auto simp: answerable_def unmarshalMgmtMsg_def read_prefix_put put_value_def all_read_def TLVTypeMgmt_def
      TLVTypeMgmtErrorStatus_def dest!: unmarshal_status)
next
  case (GetValue mid)
  then show ?thesis using assms by (simp add: answerable_def)
qed

lemma data_length: "length (put_data d) \<le> 36"
  by (cases d) (simp_all add: put_data_def put_quality_def put_port_def)

lemma value_length: "put_value v = Inr b \<Longrightarrow> length b \<le> 1000"
  using order_trans [OF data_length, of 998] by (auto simp: put_value_def put_errorStatus_def writePTPText_def Let_def
    split: MgmtValue.splits option.splits if_splits)

definition text_fits :: "MgmtValue \<Rightarrow> bool" where
  "text_fits v \<longleftrightarrow> (case v of ErrorStatus eid mid (Some s) \<Rightarrow> length s \<le> 255 | _ \<Rightarrow> True)"

lemma value_some: "text_fits v \<Longrightarrow> \<exists>b. put_value v = Inr b"
  by (auto simp: text_fits_def put_value_def put_errorStatus_def writePTPText_def Let_def split: MgmtValue.splits option.splits)

section \<open>Making messages\<close>

definition SetMessageType :: "8 word \<Rightarrow> Header \<Rightarrow> Header" where
  "SetMessageType mt h = h\<lparr> hd_MajorSdoIDMessageType := hd_MajorSdoIDMessageType h AND NOT 0x0F OR mt AND 0x0F \<rparr>"

definition SetMajorSdoID :: "8 word \<Rightarrow> Header \<Rightarrow> Header" where
  "SetMajorSdoID i h = h\<lparr> hd_MajorSdoIDMessageType := hd_MajorSdoIDMessageType h AND NOT 0xF0 OR push_bit 4 i \<rparr>"

definition ActionGet :: "8 word" where "ActionGet = 0"
definition ActionSet :: "8 word" where "ActionSet = 1"
definition ActionResponse :: "8 word" where "ActionResponse = 2"

definition zero_header :: Header where
  "zero_header = \<lparr> hd_MajorSdoIDMessageType = 0, hd_Version = 0, hd_MessageLength = 0, hd_DomainNumber = 0, hd_MinorSdoID = 0,
     hd_FlagField = 0, hd_CorrectionField = 0, hd_MessageTypeSpecific = 0,
     hd_SourcePortIdentity = \<lparr> pi_ClockIdentity = 0, pi_PortNumber = 0 \<rparr>, hd_SequenceID = 0, hd_ControlField = 0, hd_LogMessageInterval = 0 \<rparr>"

definition initHeader :: "Header \<Rightarrow> Header" where
  "initHeader h = (SetMessageType 0xD h)\<lparr> hd_Version := 0x12, hd_ControlField := 0, hd_LogMessageInterval := 0x7F \<rparr>"

definition initPrefix :: "8 word \<Rightarrow> MgmtMsgPrefix" where
  "initPrefix action =
     \<lparr> mp_Header = initHeader zero_header, mp_TargetPortIdentity = AnyPortIdentity, mp_StartingBoundaryHops = 0, mp_BoundaryHops = 0,
       mp_ActionField = action, mp_TLVType = TLVTypeMgmt, mp_TLVLength = 0 \<rparr>"

definition newMgmtSetMsg :: "MgmtData \<Rightarrow> MgmtMsg" where "newMgmtSetMsg d = (initPrefix ActionSet, SetValue (data_MgmtID d) d)"

definition newMgmtGetMsg :: "16 word \<Rightarrow> MgmtMsg" where "newMgmtGetMsg mid = (initPrefix ActionGet, GetValue mid)"

definition newMgmtErrorStatusMsg :: "16 word \<Rightarrow> 16 word \<Rightarrow> bytes option \<Rightarrow> MgmtMsg" where
  "newMgmtErrorStatusMsg eid mid text =
     ((initPrefix ActionResponse)\<lparr> mp_TLVType := TLVTypeMgmtErrorStatus \<rparr>, ErrorStatus eid mid text)"

record MsgPreparer =
  mq_sequenceID :: "32 word"
  mq_PortNumber :: "16 word"
  mq_DomainNumber :: "8 word"
  mq_MajorSdoID :: "8 word"
  mq_MinorSdoID :: "8 word"

definition allocSequenceID :: "MsgPreparer \<Rightarrow> 16 word \<times> MsgPreparer" where
  "allocSequenceID c = (let n = mq_sequenceID c + 1 in (ucast (n - 1), c\<lparr> mq_sequenceID := n \<rparr>))"

definition prepareMsg :: "MgmtMsg \<Rightarrow> MsgPreparer \<Rightarrow> MgmtMsg \<times> MsgPreparer" where
  "prepareMsg = (\<lambda>(p, v) c.
     let h = SetMajorSdoID (mq_MajorSdoID c) (mp_Header p);
         (sqn, c1) = allocSequenceID c;
         h1 = h\<lparr> hd_DomainNumber := mq_DomainNumber c, hd_MinorSdoID := mq_MinorSdoID c, hd_SequenceID := sqn,
                 hd_SourcePortIdentity := (hd_SourcePortIdentity h)\<lparr> pi_PortNumber := mq_PortNumber c \<rparr> \<rparr>
     in ((p\<lparr> mp_Header := h1 \<rparr>, v), c1))"

definition mgmtSetBinaryMsg :: "MgmtData \<Rightarrow> MsgPreparer \<Rightarrow> (pmc_error + bytes) \<times> MsgPreparer" where
  "mgmtSetBinaryMsg d c = (let (msg, c1) = prepareMsg (newMgmtSetMsg d) c in (marshalBinary msg, c1))"

section \<open>The client\<close>

record Client =
  cl_prep :: MsgPreparer
  cl_missing :: "16 word option"

text \<open>What a read of the socket gives: an error, perhaps that of a deadline, or a datagram.\<close>

datatype pmc_read = PmcDatagram bytes | PmcReadError bool

datatype recv_error = RecvRead | RecvUnmarshal pmc_error | RecvPort "16 word" | RecvAction "8 word" | RecvSequence "16 word"

definition pmc_send :: "bool \<Rightarrow> MgmtMsg \<Rightarrow> Client \<Rightarrow> (16 word \<times> bytes option) \<times> Client" where
  "pmc_send writeOK msg c =
     (let (msg1, prep) = prepareMsg msg (cl_prep c); sqn = hd_SequenceID (mp_Header (fst msg1))
      in case marshalBinary msg1 of
           Inl e \<Rightarrow> ((sqn, None), c\<lparr> cl_prep := prep \<rparr>)
         | Inr data \<Rightarrow> ((sqn, if writeOK then Some data else None), c\<lparr> cl_prep := prep \<rparr>))"

definition isLateResponse :: "Client \<Rightarrow> 16 word \<Rightarrow> 16 word \<Rightarrow> bool" where
  "isLateResponse c received expected = (case cl_missing c of None \<Rightarrow> False | Some f \<Rightarrow> received - f < expected - f)"

text \<open>\<^verbatim>\<open>Recv\<close> over what the reads give; without more of them it waits, and \<open>None\<close> is returned. The buffer has 2048 bytes.\<close>

fun pmc_recv :: "16 word \<Rightarrow> pmc_read list \<Rightarrow> Client \<Rightarrow> (recv_error + MgmtMsg) option \<times> Client" where
  "pmc_recv seqid [] c = (None, c)"
| "pmc_recv seqid (PmcReadError deadline # rs) c =
     (Some (Inl RecvRead), if deadline \<and> cl_missing c = None then c\<lparr> cl_missing := Some seqid \<rparr> else c)"
| "pmc_recv seqid (PmcDatagram data # rs) c =
     (case unmarshalMgmtMsg (take 2048 data) of
        Inl e \<Rightarrow> (Some (Inl (RecvUnmarshal e)), c)
      | Inr (p, v) \<Rightarrow>
          (let sqn = hd_SequenceID (mp_Header p); port = pi_PortNumber (mp_TargetPortIdentity p)
           in if port \<noteq> mq_PortNumber (cl_prep c) then (Some (Inl (RecvPort port)), c)
              else if sqn = seqid then
                (if mp_ActionField p \<noteq> ActionResponse then (Some (Inl (RecvAction (mp_ActionField p))), c)
                 else (Some (Inr (p, v)), c\<lparr> cl_missing := None \<rparr>))
              else if isLateResponse c sqn seqid then
                (if mp_ActionField p \<noteq> ActionResponse then (Some (Inl (RecvAction (mp_ActionField p))), c)
                 else pmc_recv seqid rs (c\<lparr> cl_missing := (if sqn + 1 = seqid then None else Some (sqn + 1)) \<rparr>))
              else (Some (Inl (RecvSequence sqn)), c)))"

section \<open>Answers that are late\<close>

text \<open>The answers that are outstanding when request \<open>s\<close> has been sent, oldest first.\<close>

primrec ids_from :: "16 word \<Rightarrow> nat \<Rightarrow> 16 word list" where
  "ids_from f 0 = [f]"
| "ids_from f (Suc n) = f # ids_from (f + 1) n"

definition outstanding :: "Client \<Rightarrow> 16 word \<Rightarrow> 16 word list" where
  "outstanding c s = (case cl_missing c of None \<Rightarrow> [s] | Some f \<Rightarrow> ids_from f (unat (s - f)))"

definition answers :: "Client \<Rightarrow> 16 word \<Rightarrow> bytes \<Rightarrow> bool" where
  "answers c i data \<longleftrightarrow> (case unmarshalMgmtMsg (take 2048 data) of Inl e \<Rightarrow> False
     | Inr (p, v) \<Rightarrow> hd_SequenceID (mp_Header p) = i \<and> mp_ActionField p = ActionResponse \<and>
         pi_PortNumber (mp_TargetPortIdentity p) = mq_PortNumber (cl_prep c))"

lemma length_ids [simp]: "length (ids_from f n) = Suc n"
  by (induction n arbitrary: f) simp_all

lemma ids_snoc: "ids_from f (Suc n) = ids_from f n @ [f + word_of_nat (Suc n)]"
proof (induction n arbitrary: f)
  case (Suc n)
  have "ids_from f (Suc (Suc n)) = f # (ids_from (f + 1) n @ [f + 1 + word_of_nat (Suc n)])"
    by (simp only: ids_from.simps(2) [of f "Suc n"] Suc.IH)
  then show ?case by (simp add: algebra_simps)
qed simp

lemma of_unat: "word_of_nat (unat w) = (w :: 16 word)"
  by simp

lemma next_id:
  fixes f s :: "16 word"
  assumes "unat (s - f) = n" "Suc n < 2 ^ 16"
  shows "unat (s + 1 - f) = Suc n" "s + 1 = f + word_of_nat (Suc n)"
proof -
  have e: "s - f = word_of_nat n" using of_unat [of "s - f"] assms(1) by simp
  then show s: "s + 1 = f + word_of_nat (Suc n)" by (simp add: algebra_simps)
  have "unat (s + 1 - f) = unat (word_of_nat (Suc n) :: 16 word)" unfolding s by simp
  also have "\<dots> = Suc n" using assms(2) by (simp only: unat_of_nat) simp
  finally show "unat (s + 1 - f) = Suc n" .
qed

lemma prev_id:
  fixes f s :: "16 word"
  assumes "unat (s - f) = Suc n"
  shows "unat (s - (f + 1)) = n" "f \<noteq> s"
proof -
  have "s - f = 1 + word_of_nat n" using of_unat [of "s - f"] assms by simp
  then have e: "s - (f + 1) = word_of_nat n" by (simp add: algebra_simps)
  have "n < 2 ^ 16" using assms unat_less [of "s - f"] by simp
  then show "unat (s - (f + 1)) = n" unfolding e by (simp only: unat_of_nat) simp
  show "f \<noteq> s" using assms by auto
qed

lemma outstanding_next:
  assumes "length (outstanding c s) < 2 ^ 16"
  shows "outstanding (if cl_missing c = None then c\<lparr> cl_missing := Some s \<rparr> else c) (s + 1) = outstanding c s @ [s + 1]"
proof (cases "cl_missing c")
  case None
  then show ?thesis by (simp add: outstanding_def)
next
  case (Some f)
  then have "Suc (unat (s - f)) < 2 ^ 16" using assms by (simp add: outstanding_def)
  note n = next_id [of s f, OF refl this]
  have "ids_from f (unat (s + 1 - f)) = ids_from f (unat (s - f)) @ [s + 1]"
    unfolding n(1) ids_snoc n(2) [symmetric] by (rule refl)
  then show ?thesis using Some by (simp add: outstanding_def)
qed

lemma answers_cong: "answers (c\<lparr> cl_missing := m \<rparr>) = answers c"
  by (auto simp: answers_def fun_eq_iff split: sum.split)

definition round_ok :: "16 word \<Rightarrow> nat \<Rightarrow> Client \<Rightarrow> recv_error + MgmtMsg \<Rightarrow> Client \<Rightarrow> bool" where
  "round_ok s k c out c' \<longleftrightarrow> outstanding c' (s + 1) = drop k (outstanding c s) @ [s + 1] \<and>
     (case out of Inl e \<Rightarrow> e = RecvRead \<and> k < length (outstanding c s)
      | Inr (p, v) \<Rightarrow> k = length (outstanding c s) \<and> hd_SequenceID (mp_Header p) = s)"

lemma recv_round:
  "length (outstanding c s) < 2 ^ 16 \<Longrightarrow> list_all2 (answers c) (take k (outstanding c s)) datas \<Longrightarrow> k \<le> length (outstanding c s) \<Longrightarrow>
   \<exists>out c'. pmc_recv s (map PmcDatagram datas @ (if k = length (outstanding c s) then [] else [PmcReadError True])) c = (Some out, c')
     \<and> round_ok s k c out c'"
proof (induction datas arbitrary: c k)
  case Nil
  have "outstanding c s \<noteq> []" by (auto simp: outstanding_def split: option.split) (metis length_ids list.size(3) nat.distinct(1))
  then have "k = 0" using Nil.prems(2) by simp
  then show ?case using outstanding_next [OF Nil.prems(1)] \<open>outstanding c s \<noteq> []\<close> by (auto simp: round_ok_def)
next
  case (Cons d ds)
  then obtain k' a as where k: "k = Suc k'" "outstanding c s = a # as"
    by (cases k; cases "outstanding c s") auto
  then have d: "answers c a d" "list_all2 (answers c) (take k' as) ds" using Cons.prems(2) by simp_all
  obtain p v where u: "unmarshalMgmtMsg (take 2048 d) = Inr (p, v)" "hd_SequenceID (mp_Header p) = a" "mp_ActionField p = ActionResponse"
      "pi_PortNumber (mp_TargetPortIdentity p) = mq_PortNumber (cl_prep c)"
    using d(1) by (auto simp: answers_def split: sum.splits)
  show ?case
  proof (cases "a = s")
    case True
    have "as = []"
    proof (cases "cl_missing c")
      case (Some f)
      then show ?thesis using k(2) True prev_id(2) [of s f] by (cases "unat (s - f)") (auto simp: outstanding_def)
    qed (use k(2) in \<open>simp add: outstanding_def\<close>)
    then show ?thesis using k True u Cons.prems(2,3) by (simp add: round_ok_def) (simp add: outstanding_def)
  next
    case False
    then obtain f where f: "cl_missing c = Some f" using k(2) by (cases "cl_missing c") (auto simp: outstanding_def)
    have zero: "s = f" if "unat (s - f) = 0" using of_unat [of "s - f"] that by simp
    have "a = f" using k(2) f by (cases "unat (s - f)") (simp_all add: outstanding_def)
    then have "unat (s - f) \<noteq> 0" using zero False by blast
    then obtain n where "unat (s - f) = Suc n" using not0_implies_Suc by blast
    then have n: "unat (s - f) = Suc n" "a = f" "as = ids_from (f + 1) n" using k(2) f by (auto simp: outstanding_def)
    have late: "isLateResponse c f s" using f n(1) by (simp add: isLateResponse_def word_less_nat_alt)
    define c1 where "c1 = c\<lparr> cl_missing := (if f + 1 = s then None else Some (f + 1)) \<rparr>"
    have out: "outstanding c1 s = as" using prev_id [OF n(1)] n by (auto simp: c1_def outstanding_def)
    have IH: "\<exists>out c'. pmc_recv s (map PmcDatagram ds @ (if k' = length as then [] else [PmcReadError True])) c1 = (Some out, c')
       \<and> round_ok s k' c1 out c'"
      using Cons.IH [of c1 k'] out Cons.prems(1,3) k d(2) by (simp add: c1_def answers_cong)
    have "round_ok s k c = round_ok s k' c1" using k out by (auto simp: round_ok_def fun_eq_iff split: sum.split)
    moreover have "pmc_recv s (map PmcDatagram (d # ds) @ rs) c = pmc_recv s (map PmcDatagram ds @ rs) c1" for rs
      using u n(2) False f late by (simp add: c1_def Let_def)
    ultimately show ?thesis using IH k by simp
  qed
qed

section \<open>Times\<close>

text \<open>\<^verbatim>\<open>TimeInterval.Duration\<close>, nanoseconds of a number of 2 to the minus 16 nanoseconds.\<close>

definition interval_Duration :: "64 word \<Rightarrow> int" where
  "interval_Duration ti =
     (let scaledNanos = sint ti; nanos = scaledNanos div 65536; frac = scaledNanos mod 65536
      in if 0x8000 < frac then nanos + 1 else nanos)"

lemma interval_nearest: "\<bar>65536 * interval_Duration ti - sint ti\<bar> \<le> 32768"
proof -
  have "sint ti = 65536 * (sint ti div 65536) + sint ti mod 65536" by simp
  moreover have "0 \<le> sint ti mod 65536" "sint ti mod 65536 < 65536" by simp_all
  ultimately show ?thesis unfolding interval_Duration_def Let_def by (smt (verit))
qed

text \<open>The flags of a time properties data set are not powers of two, unlike those of the default data set.\<close>

definition TimePropertiesDSFlagLI61 :: "8 word" where "TimePropertiesDSFlagLI61 = 0"
definition TimePropertiesDSFlagLI59 :: "8 word" where "TimePropertiesDSFlagLI59 = 1"
definition TimePropertiesDSFlagUTCV :: "8 word" where "TimePropertiesDSFlagUTCV = 2"
definition TimePropertiesDSFlagPTP :: "8 word" where "TimePropertiesDSFlagPTP = 3"

lemma time_flags_overlap: "TimePropertiesDSFlagPTP = TimePropertiesDSFlagLI59 OR TimePropertiesDSFlagUTCV"
  by (simp add: TimePropertiesDSFlagPTP_def TimePropertiesDSFlagLI59_def TimePropertiesDSFlagUTCV_def)

section \<open>What holds of the messages and the client\<close>

lemma marshal_reads:
  assumes "answerable (p, v)" "text_fits v"
  shows "\<exists>bs. marshalBinary (p, v) = Inr bs \<and> length bs \<le> 2048 \<and> unmarshalMgmtMsg bs = Inr (with_lengths (length bs) p, v)"
proof -
  obtain b where b: "put_value v = Inr b" using value_some [OF assms(2)] by blast
  have len: "length b \<le> 1000" by (rule value_length [OF b])
  have "answerable (with_lengths (52 + length b) p, v)" using assms(1)
    by (simp add: answerable_def with_lengths_def split: MgmtValue.splits)
  from pmc_reads [OF this b] show ?thesis using b len
    by (simp add: marshalBinary_def fixup_prefix) (simp add: length_prefix)
qed

text \<open>C0: A message that is a data set under its own id or an error whose text has at most 255 bytes is marshalled, and
  what is marshalled is read back: the same message with the two lengths filled in.\<close>

theorem pmc_roundtrip:
  assumes "answerable (p, v)" "text_fits v"
  shows "\<exists>bs. marshalBinary (p, v) = Inr bs \<and> unmarshalMgmtMsg bs = Inr (with_lengths (length bs) p, v)"
  using marshal_reads [OF assms] by blast

theorem pmc_roundtrip_witness:
  "\<exists>bs. marshalBinary (newMgmtErrorStatusMsg 2 MIDUTCProperties (Some [0x6E, 0x6F])) = Inr bs \<and>
     unmarshalMgmtMsg bs = Inr (with_lengths (length bs) (fst (newMgmtErrorStatusMsg 2 MIDUTCProperties (Some [0x6E, 0x6F]))),
       snd (newMgmtErrorStatusMsg 2 MIDUTCProperties (Some [0x6E, 0x6F])))"
  using pmc_roundtrip [of "fst (newMgmtErrorStatusMsg 2 MIDUTCProperties (Some [0x6E, 0x6F]))" "snd (newMgmtErrorStatusMsg 2 MIDUTCProperties (Some [0x6E, 0x6F]))"]
  by (simp add: newMgmtErrorStatusMsg_def answerable_def text_fits_def)

text \<open>C0: A client whose requests are answered in order, each once, stays in step with the daemon however late the answers are:
  while fewer than 65536 are outstanding, a call of \<^verbatim>\<open>Recv\<close> that is given the next \<open>k\<close> of them and then runs into its deadline
  skips those of earlier requests, returns the answer to its own request when that has come, and reports the deadline otherwise;
  the answers outstanding when the next request has been sent are the remaining ones and its own.\<close>

theorem pmc_in_step:
  assumes "length (outstanding c s) < 2 ^ 16" "k \<le> length (outstanding c s)" "list_all2 (answers c) (take k (outstanding c s)) datas"
  shows "\<exists>out c'. pmc_recv s (map PmcDatagram datas @ (if k = length (outstanding c s) then [] else [PmcReadError True])) c = (Some out, c')
     \<and> round_ok s k c out c'"
  by (rule recv_round [OF assms(1,3,2)])

text \<open>The answer to request 65535, the last before the numbers wrap around, that comes while request 1 is awaited.\<close>

definition wrap_client :: Client where
  "wrap_client = \<lparr> cl_prep = \<lparr> mq_sequenceID = 1, mq_PortNumber = 7, mq_DomainNumber = 0, mq_MajorSdoID = 0, mq_MinorSdoID = 0 \<rparr>,
     cl_missing = Some 0xFFFF \<rparr>"

definition wrap_answer :: bytes where
  "wrap_answer = (case marshalBinary ((initPrefix ActionResponse)\<lparr> mp_Header := (initHeader zero_header)\<lparr> hd_SequenceID := 0xFFFF \<rparr>,
      mp_TargetPortIdentity := \<lparr> pi_ClockIdentity = 0, pi_PortNumber = 7 \<rparr> \<rparr>, SetValue MIDNullPTPManagement NullPTPMgmt) of Inr b \<Rightarrow> b | Inl _ \<Rightarrow> [])"

lemma wrap_answers: "answers wrap_client 0xFFFF wrap_answer"
proof -
  define p where "p = (initPrefix ActionResponse)\<lparr> mp_Header := (initHeader zero_header)\<lparr> hd_SequenceID := 0xFFFF \<rparr>,
      mp_TargetPortIdentity := \<lparr> pi_ClockIdentity = 0, pi_PortNumber = 7 \<rparr> \<rparr>"
  have "answerable (p, SetValue MIDNullPTPManagement NullPTPMgmt)" "text_fits (SetValue MIDNullPTPManagement NullPTPMgmt)"
    by (simp_all add: answerable_def text_fits_def p_def initPrefix_def data_MgmtID_def)
  from marshal_reads [OF this] obtain bs where bs: "marshalBinary (p, SetValue MIDNullPTPManagement NullPTPMgmt) = Inr bs" "length bs \<le> 2048"
    "unmarshalMgmtMsg bs = Inr (with_lengths (length bs) p, SetValue MIDNullPTPManagement NullPTPMgmt)" by blast
  have "wrap_answer = bs" using bs(1) by (simp add: wrap_answer_def p_def)
  then show ?thesis using bs by (simp add: answers_def with_lengths_def p_def initPrefix_def wrap_client_def)
qed

theorem pmc_in_step_witness:
  "\<exists>out c'. pmc_recv 1 [PmcDatagram wrap_answer, PmcReadError True] wrap_client = (Some out, c') \<and> round_ok 1 1 wrap_client out c'"
proof -
  have o: "outstanding wrap_client 1 = [0xFFFF, 0, 1]" by code_simp
  show ?thesis using pmc_in_step [of wrap_client 1 1 "[wrap_answer]"] wrap_answers by (simp add: o)
qed

end
