(* ===== verification/RinexDiff.thy ===== *)
theory RinexDiff
  imports Prelude "HOL-Library.List_Lexorder" "HOL-Library.Char_ord" "HOL-Library.Product_Lexorder" "HOL-Library.Multiset"
begin

text \<open>
  The comparison of two streams of satellite observations (\<^verbatim>\<open>gps/lib/rinex/diff.go\<close>). A map is the list of its
  entries in the order they were made, an optional value an option. Floating point numbers are their bits, and their
  difference is computed on these bits as the language does, rounded to nearest and ties to even. The comparison of
  metadata other than comments is left out.
\<close>

section \<open>Observations\<close>

record SignalValues =
  sv_Frq :: "8 word option"
  sv_PR :: "64 word option"
  sv_CP :: "64 word option"
  sv_Do :: "64 word option"
  sv_CN0 :: "32 word option"
  sv_Arc :: "32 word"
  sv_HC :: bool
  sv_BT :: bool

record SignalDiff = SignalValues +
  sd_LL :: bool

record SignalObservation =
  so_T :: int
  so_Sat :: string
  so_Sig :: string
  so_Values :: SignalValues

type_synonym obsKey = "string \<times> string"

record ObsTolerances =
  tol_PR :: "64 word"
  tol_CP :: "64 word"
  tol_Do :: "64 word"
  tol_CN0 :: "64 word"

section \<open>Floating point\<close>

text \<open>
  A number of \<open>n\<close> bits has a sign, an exponent and \<open>f\<close> bits of fraction. A finite one is an integer
  (\<open>fp_int\<close>) times the least positive number, \<open>2 ^ (- 1074)\<close> for 64 bits and \<open>2 ^ (- 149)\<close> for 32 bits.
\<close>

definition fp_exp :: "nat \<Rightarrow> nat \<Rightarrow> nat \<Rightarrow> nat" where "fp_exp n f w = (w mod 2 ^ (n - 1)) div 2 ^ f"
definition fp_frac :: "nat \<Rightarrow> nat \<Rightarrow> nat" where "fp_frac f w = w mod 2 ^ f"
definition fp_neg :: "nat \<Rightarrow> nat \<Rightarrow> bool" where "fp_neg n w \<longleftrightarrow> 2 ^ (n - 1) \<le> w"
definition fp_top :: "nat \<Rightarrow> nat \<Rightarrow> nat" where "fp_top n f = 2 ^ (n - 1 - f) - 1"
definition fp_finite :: "nat \<Rightarrow> nat \<Rightarrow> nat \<Rightarrow> bool" where "fp_finite n f w \<longleftrightarrow> fp_exp n f w \<noteq> fp_top n f"
definition fp_inf :: "nat \<Rightarrow> nat \<Rightarrow> nat \<Rightarrow> bool" where "fp_inf n f w \<longleftrightarrow> \<not> fp_finite n f w \<and> fp_frac f w = 0"
definition fp_nan :: "nat \<Rightarrow> nat \<Rightarrow> nat \<Rightarrow> bool" where "fp_nan n f w \<longleftrightarrow> \<not> fp_finite n f w \<and> fp_frac f w \<noteq> 0"

lemmas fp_simps = fp_exp_def fp_frac_def fp_neg_def fp_top_def fp_finite_def fp_inf_def fp_nan_def

definition fp_int :: "nat \<Rightarrow> nat \<Rightarrow> nat \<Rightarrow> int" where
  "fp_int n f w =
     (let m = (if fp_exp n f w = 0 then fp_frac f w else (2 ^ f + fp_frac f w) * 2 ^ (fp_exp n f w - 1))
      in if fp_neg n w then - int m else int m)"

text \<open>Rounding to \<open>f + 1\<close> significant bits, to nearest, ties to even; above the largest number it is infinite (\<open>None\<close>).\<close>

function fp_shift :: "nat \<Rightarrow> nat \<Rightarrow> nat" where
  "fp_shift f d = (if d < 2 ^ (f + 1) then 0 else fp_shift f (d div 2) + 1)"
  by auto
termination by (relation "measure snd") (auto simp: not_less intro!: div_less_dividend gr0I)

declare fp_shift.simps [simp del]

definition fp_round :: "nat \<Rightarrow> nat \<Rightarrow> nat \<Rightarrow> nat option" where
  "fp_round n f d =
     (let s = fp_shift f d; q = d div 2 ^ s; r = 2 * (d mod 2 ^ s);
          q1 = (if 2 ^ s < r \<or> r = 2 ^ s \<and> odd q then q + 1 else q)
      in if q1 * 2 ^ s < 2 ^ (f + fp_top n f - 1) then Some (q1 * 2 ^ s) else None)"

text \<open>
  The absolute difference of two numbers: \<open>None\<close> is not a number, \<open>Some None\<close> infinity. The comparison with
  a tolerance of 64 bits, in units of \<open>2 ^ (- 1074)\<close>, \<open>e\<close> being the exponent of the unit of the difference.
\<close>

definition fp_dist :: "nat \<Rightarrow> nat \<Rightarrow> nat \<Rightarrow> nat \<Rightarrow> nat option option" where
  "fp_dist n f a b =
     (if fp_nan n f a \<or> fp_nan n f b then None
      else if fp_inf n f a \<and> fp_inf n f b \<and> fp_neg n a = fp_neg n b then None
      else if fp_inf n f a \<or> fp_inf n f b then Some None
      else Some (fp_round n f (nat \<bar>fp_int n f a - fp_int n f b\<bar>)))"

definition tol_nan :: "64 word \<Rightarrow> bool" where "tol_nan t = fp_nan 64 52 (unat t)"

definition tol_negative :: "64 word \<Rightarrow> bool" where
  "tol_negative t \<longleftrightarrow> \<not> tol_nan t \<and> fp_neg 64 (unat t) \<and> unat t \<noteq> 2 ^ 63"

definition dist_le :: "nat \<Rightarrow> nat option option \<Rightarrow> 64 word \<Rightarrow> bool" where
  "dist_le e d t =
     (case d of
        None \<Rightarrow> False
      | Some v \<Rightarrow>
          if tol_nan t then False
          else if fp_inf 64 52 (unat t) then \<not> fp_neg 64 (unat t)
          else (case v of None \<Rightarrow> False | Some x \<Rightarrow> int x * 2 ^ e \<le> fp_int 64 52 (unat t)))"

definition near64 :: "64 word \<Rightarrow> 64 word \<Rightarrow> 64 word \<Rightarrow> bool" where
  "near64 tol a b = dist_le 0 (fp_dist 64 52 (unat a) (unat b)) tol"

definition near32 :: "64 word \<Rightarrow> 32 word \<Rightarrow> 32 word \<Rightarrow> bool" where
  "near32 tol a b = dist_le 925 (fp_dist 32 23 (unat a) (unat b)) tol"

definition finite64 :: "64 word \<Rightarrow> bool" where "finite64 w = fp_finite 64 52 (unat w)"
definition finite32 :: "32 word \<Rightarrow> bool" where "finite32 w = fp_finite 32 23 (unat w)"

section \<open>Two observations\<close>

text \<open>
  \<^verbatim>\<open>compareValue\<close>, \<^verbatim>\<open>compareFloat64\<close> and \<^verbatim>\<open>compareFloat32\<close>: what differs, on either side. Two values are the same
  by equality, \<open>near64\<close> or \<open>near32\<close>.
\<close>

definition compareValue :: "('v \<Rightarrow> 'v \<Rightarrow> bool) \<Rightarrow> 'v option \<Rightarrow> 'v option \<Rightarrow> 'v option \<times> 'v option" where
  "compareValue near a b =
     (if (a \<noteq> None) = (b \<noteq> None) \<and> (case (a, b) of (Some x, Some y) \<Rightarrow> near x y | _ \<Rightarrow> True) then (None, None) else (a, b))"

definition compareComparable :: "bool \<Rightarrow> bool \<Rightarrow> bool \<times> bool" where
  "compareComparable a b = (if a = b then (False, False) else (a, b))"

definition sv_IsZero :: "'a SignalValues_scheme \<Rightarrow> bool" where
  "sv_IsZero v \<longleftrightarrow> sv_Frq v = None \<and> sv_PR v = None \<and> sv_CP v = None \<and> sv_Do v = None \<and> sv_CN0 v = None \<and> sv_Arc v = 0 \<and>
     \<not> sv_HC v \<and> \<not> sv_BT v"

definition sd_IsZero :: "SignalDiff \<Rightarrow> bool" where
  "sd_IsZero d \<longleftrightarrow> sv_IsZero d \<and> \<not> sd_LL d"

definition valuesAsDiff :: "SignalValues \<Rightarrow> SignalDiff" where
  "valuesAsDiff v = SignalValues.extend (v\<lparr> sv_Arc := 0 \<rparr>) (SignalDiff.fields False)"

definition diffSignal :: "ObsTolerances \<Rightarrow> SignalValues option \<Rightarrow> SignalValues option \<Rightarrow> SignalDiff option \<times> SignalDiff option" where
  "diffSignal tol a b =
     (case (a, b) of
        (None, None) \<Rightarrow> (None, None)
      | (None, Some v) \<Rightarrow> (None, Some (valuesAsDiff v))
      | (Some v, None) \<Rightarrow> (Some (valuesAsDiff v), None)
      | (Some v, Some w) \<Rightarrow>
          (let (f, f') = compareValue (=) (sv_Frq v) (sv_Frq w);
               (p, p') = compareValue (near64 (tol_PR tol)) (sv_PR v) (sv_PR w);
               (c, c') = compareValue (near64 (tol_CP tol)) (sv_CP v) (sv_CP w);
               (d, d') = compareValue (near64 (tol_Do tol)) (sv_Do v) (sv_Do w);
               (n, n') = compareValue (near32 (tol_CN0 tol)) (sv_CN0 v) (sv_CN0 w);
               (h, h') = compareComparable (sv_HC v) (sv_HC w);
               (t, t') = compareComparable (sv_BT v) (sv_BT w)
           in (Some \<lparr> sv_Frq = f, sv_PR = p, sv_CP = c, sv_Do = d, sv_CN0 = n, sv_Arc = 0, sv_HC = h, sv_BT = t, sd_LL = False \<rparr>,
               Some \<lparr> sv_Frq = f', sv_PR = p', sv_CP = c', sv_Do = d', sv_CN0 = n', sv_Arc = 0, sv_HC = h', sv_BT = t', sd_LL = False \<rparr>)))"

section \<open>Streams of observations\<close>

record obsIndex =
  oi_epochs :: "(int \<times> (obsKey \<times> nat) list) list"
  oi_times :: "int list"
  oi_obs :: "SignalObservation list"

text \<open>What is reported of the input; the reporter may answer with an error, which ends the comparison.\<close>

datatype idx_event = Unordered nat nat | Duplicate nat nat nat

definition so_key :: "SignalObservation \<Rightarrow> obsKey" where "so_key q = (so_Sat q, so_Sig q)"

definition epoch_at :: "obsIndex \<Rightarrow> int \<Rightarrow> (obsKey \<times> nat) list" where
  "epoch_at x t = (case map_of (oi_epochs x) t of None \<Rightarrow> [] | Some m \<Rightarrow> m)"

definition obs_at :: "obsIndex \<Rightarrow> int \<Rightarrow> obsKey \<Rightarrow> nat option" where
  "obs_at x t k = map_of (epoch_at x t) k"

fun index_from :: "(idx_event \<Rightarrow> 'e option) \<Rightarrow> nat \<Rightarrow> nat \<Rightarrow> SignalObservation list \<Rightarrow> int option \<Rightarrow> obsIndex \<Rightarrow> 'e + obsIndex" where
  "index_from er side i [] lastT x = Inr x"
| "index_from er side i (q # qs) lastT x =
     (let t = so_T q; k = so_key q
      in case (if (case lastT of None \<Rightarrow> False | Some l \<Rightarrow> t < l) then er (Unordered side i) else None) of
           Some e \<Rightarrow> Inl e
         | None \<Rightarrow>
             (let x1 = (if map_of (oi_epochs x) t = None then x\<lparr> oi_epochs := oi_epochs x @ [(t, [])], oi_times := oi_times x @ [t] \<rparr> else x)
              in case obs_at x1 t k of
                   Some prev \<Rightarrow>
                     (case er (Duplicate side i prev) of Some e \<Rightarrow> Inl e | None \<Rightarrow> index_from er side (i + 1) qs (Some t) x1)
                 | None \<Rightarrow>
                     index_from er side (i + 1) qs (Some t)
                       (x1\<lparr> oi_epochs := map (\<lambda>(t', m). (t', if t' = t then m @ [(k, i)] else m)) (oi_epochs x1) \<rparr>)))"

definition indexObservations :: "(idx_event \<Rightarrow> 'e option) \<Rightarrow> nat \<Rightarrow> SignalObservation list \<Rightarrow> 'e + obsIndex" where
  "indexObservations er side obs = index_from er side 0 obs None \<lparr> oi_epochs = [], oi_times = [], oi_obs = obs \<rparr>"

text \<open>The times of both sides and the keys of both sides at a time, in order, each once: what the loops over a map
  of those seen collect, sorted.\<close>

definition union_sorted :: "'a::linorder list \<Rightarrow> 'a list \<Rightarrow> 'a list" where
  "union_sorted xs ys = sort (remdups (xs @ ys))"

definition diffTimes :: "obsIndex \<Rightarrow> obsIndex \<Rightarrow> int list" where
  "diffTimes a b = union_sorted (oi_times a) (oi_times b)"

definition diffKeys :: "(obsKey \<times> nat) list \<Rightarrow> (obsKey \<times> nat) list \<Rightarrow> obsKey list" where
  "diffKeys a b = union_sorted (map fst a) (map fst b)"

definition compareAt :: "ObsTolerances \<Rightarrow> obsIndex \<Rightarrow> obsIndex \<Rightarrow> int \<Rightarrow> obsKey \<Rightarrow> SignalDiff option \<times> SignalDiff option" where
  "compareAt tol a b t k =
     diffSignal tol (map_option (\<lambda>i. so_Values (oi_obs a ! i)) (obs_at a t k)) (map_option (\<lambda>i. so_Values (oi_obs b ! i)) (obs_at b t k))"

text \<open>The tracker of a side: the last arc of each signal that has been seen.\<close>

type_synonym arcTracker = "obsKey \<Rightarrow> 32 word option"

definition arc_transition :: "obsKey \<Rightarrow> obsIndex \<Rightarrow> int \<Rightarrow> arcTracker \<Rightarrow> bool \<times> arcTracker" where
  "arc_transition k x t tr =
     (case obs_at x t k of
        None \<Rightarrow> (False, tr)
      | Some i \<Rightarrow>
          (let arc = sv_Arc (so_Values (oi_obs x ! i))
           in ((case tr k of None \<Rightarrow> False | Some prev \<Rightarrow> arc \<noteq> prev), tr(k \<mapsto> arc))))"

record obs_diff =
  df_T :: int
  df_Key :: obsKey
  df_A :: "SignalDiff option"
  df_B :: "SignalDiff option"

definition diff_at :: "ObsTolerances \<Rightarrow> obsIndex \<Rightarrow> obsIndex \<Rightarrow> int \<Rightarrow> obsKey \<Rightarrow> arcTracker \<times> arcTracker
    \<Rightarrow> obs_diff option \<times> arcTracker \<times> arcTracker" where
  "diff_at tol a b t k = (\<lambda>(ta, tb).
     let (af, bf) = compareAt tol a b t k;
         (aLL, ta1) = arc_transition k a t ta;
         (bLL, tb1) = arc_transition k b t tb
     in case (af, bf) of
          (Some d, Some e) \<Rightarrow>
            (let (la, lb) = compareComparable aLL bLL; d1 = d\<lparr> sd_LL := la \<rparr>; e1 = e\<lparr> sd_LL := lb \<rparr>
             in (if sd_IsZero d1 \<and> sd_IsZero e1 then None else Some \<lparr> df_T = t, df_Key = k, df_A = Some d1, df_B = Some e1 \<rparr>, ta1, tb1))
        | _ \<Rightarrow> (Some \<lparr> df_T = t, df_Key = k, df_A = af, df_B = bf \<rparr>, ta1, tb1))"

text \<open>The loops of \<^verbatim>\<open>reportDiffs\<close> over the times and keys; an error of the reporter ends them, and what it refused is not counted.\<close>

fun report_from :: "(obs_diff \<Rightarrow> 'e option) \<Rightarrow> ObsTolerances \<Rightarrow> obsIndex \<Rightarrow> obsIndex \<Rightarrow> (int \<times> obsKey) list
    \<Rightarrow> arcTracker \<times> arcTracker \<Rightarrow> obs_diff list \<times> 'e option" where
  "report_from r tol a b [] tr = ([], None)"
| "report_from r tol a b ((t, k) # tks) tr =
     (case diff_at tol a b t k tr of
        (None, tr1) \<Rightarrow> report_from r tol a b tks tr1
      | (Some d, tr1) \<Rightarrow>
          (case r d of
             Some e \<Rightarrow> ([], Some e)
           | None \<Rightarrow> (let (ds, e) = report_from r tol a b tks tr1 in (d # ds, e))))"

definition reportDiffs :: "(obs_diff \<Rightarrow> 'e option) \<Rightarrow> ObsTolerances \<Rightarrow> obsIndex \<Rightarrow> obsIndex \<Rightarrow> obs_diff list \<times> 'e option" where
  "reportDiffs r tol a b =
     report_from r tol a b
       (concat (map (\<lambda>t. map (\<lambda>k. (t, k)) (diffKeys (epoch_at a t) (epoch_at b t))) (diffTimes a b))) (\<lambda>_. None, \<lambda>_. None)"

datatype 'e diff_error = NegativeTolerances | Reported 'e

definition validateObsTolerances :: "ObsTolerances \<Rightarrow> bool" where
  "validateObsTolerances tol \<longleftrightarrow>
     \<not> (tol_negative (tol_PR tol) \<or> tol_negative (tol_CP tol) \<or> tol_negative (tol_Do tol) \<or> tol_negative (tol_CN0 tol))"

definition diffObservations :: "(idx_event \<Rightarrow> 'e option) \<Rightarrow> (obs_diff \<Rightarrow> 'e option) \<Rightarrow> ObsTolerances
    \<Rightarrow> SignalObservation list \<Rightarrow> SignalObservation list \<Rightarrow> obs_diff list \<times> 'e diff_error option" where
  "diffObservations er r tol a b =
     (if \<not> validateObsTolerances tol then ([], Some NegativeTolerances)
      else case indexObservations er 0 a of
        Inl e \<Rightarrow> ([], Some (Reported e))
      | Inr ai \<Rightarrow>
          (case indexObservations er 1 b of
             Inl e \<Rightarrow> ([], Some (Reported e))
           | Inr bi \<Rightarrow> (let (ds, e) = reportDiffs r tol ai bi in (ds, map_option Reported e))))"

section \<open>Comments\<close>

definition firstUnusedLine :: "string list \<Rightarrow> bool list \<Rightarrow> string \<Rightarrow> nat option" where
  "firstUnusedLine lines used s = (case filter (\<lambda>i. \<not> used ! i \<and> lines ! i = s) [0..<length lines] of [] \<Rightarrow> None | i # _ \<Rightarrow> Some i)"

fun only_a :: "string list \<Rightarrow> string list \<Rightarrow> bool list \<Rightarrow> string list \<times> bool list" where
  "only_a [] b used = ([], used)"
| "only_a (s # a) b used =
     (case firstUnusedLine b used s of
        Some i \<Rightarrow> only_a a b (used[i := True])
      | None \<Rightarrow> (let (xs, used1) = only_a a b used in (s # xs, used1)))"

definition diffLines :: "string list \<Rightarrow> string list \<Rightarrow> string list \<times> string list" where
  "diffLines a b =
     (let (xs, used) = only_a a b (replicate (length b) False)
      in (xs, map fst (filter (\<lambda>(s, u). \<not> u) (zip b used))))"

section \<open>What holds of the comparison\<close>

lemma union_sorted_set [simp]: "set (union_sorted xs ys) = set xs \<union> set ys" "distinct (union_sorted xs ys)" "sorted (union_sorted xs ys)"
  by (simp_all add: union_sorted_def)

lemma union_sorted_comm: "union_sorted xs ys = union_sorted ys xs"
  by (rule sorted_distinct_set_unique) auto

text \<open>A value is within a tolerance of itself exactly when it is finite: the difference of an infinity with itself is not a number.\<close>

definition tolerance :: "64 word \<Rightarrow> bool" where "tolerance t \<longleftrightarrow> \<not> tol_nan t \<and> \<not> tol_negative t"

lemma fp_dist_self: "fp_dist n f w w = (if fp_finite n f w then Some (fp_round n f 0) else None)"
  by (auto simp: fp_dist_def fp_nan_def fp_inf_def)

lemma fp_round_0: "fp_round n f 0 = Some 0"
  by (simp add: fp_round_def fp_shift.simps)

lemma tolerance_nonneg:
  assumes "tolerance t"
  shows "\<not> tol_nan t" "fp_inf 64 52 (unat t) \<Longrightarrow> \<not> fp_neg 64 (unat t)" "0 \<le> fp_int 64 52 (unat t)"
proof -
  have t: "\<not> tol_nan t" "\<not> fp_neg 64 (unat t) \<or> unat t = 2 ^ 63" using assms by (auto simp: tolerance_def tol_negative_def)
  then show "\<not> tol_nan t" by simp
  have "fp_exp 64 52 (2 ^ 63) = 0" "fp_frac 52 (2 ^ 63) = 0" "fp_top 64 52 = 2047" by (simp_all add: fp_exp_def fp_frac_def fp_top_def)
  then show "fp_inf 64 52 (unat t) \<Longrightarrow> \<not> fp_neg 64 (unat t)" "0 \<le> fp_int 64 52 (unat t)"
    using t(2) by (auto simp: fp_inf_def fp_finite_def fp_int_def Let_def)
qed

lemma dist_le_self: "tolerance t \<Longrightarrow> dist_le e (fp_dist n f w w) t \<longleftrightarrow> fp_finite n f w"
  using tolerance_nonneg [of t] by (auto simp: dist_le_def fp_dist_self fp_round_0)

lemma near_self:
  "tolerance t \<Longrightarrow> near64 t x x \<longleftrightarrow> finite64 x" "tolerance t \<Longrightarrow> near32 t y y \<longleftrightarrow> finite32 y"
  by (simp_all add: near64_def near32_def finite64_def finite32_def dist_le_self)

definition tolerances_ok :: "ObsTolerances \<Rightarrow> bool" where
  "tolerances_ok tol \<longleftrightarrow> tolerance (tol_PR tol) \<and> tolerance (tol_CP tol) \<and> tolerance (tol_Do tol) \<and> tolerance (tol_CN0 tol)"

definition finite_values :: "SignalValues \<Rightarrow> bool" where
  "finite_values v \<longleftrightarrow> pred_option finite64 (sv_PR v) \<and> pred_option finite64 (sv_CP v) \<and> pred_option finite64 (sv_Do v)
     \<and> pred_option finite32 (sv_CN0 v)"

definition unless_all :: "('v \<Rightarrow> bool) \<Rightarrow> 'v option \<Rightarrow> 'v option" where
  "unless_all P a = (if pred_option P a then None else a)"

lemma unless_all_None: "unless_all P a = None \<longleftrightarrow> pred_option P a"
  by (cases a) (simp_all add: unless_all_def)

lemma compare_self: "compareValue near a a = (unless_all (\<lambda>x. near x x) a, unless_all (\<lambda>x. near x x) a)"
  by (cases a) (simp_all add: compareValue_def unless_all_def)

lemma diffSignal_self:
  assumes "tolerances_ok tol"
  shows "diffSignal tol (Some v) (Some v) = (d, e) \<Longrightarrow>
    \<exists>D. d = Some D \<and> e = Some D \<and> sd_LL D = False \<and> (sd_IsZero D \<longleftrightarrow> finite_values v)"
proof -
  have p: "near64 (tol_PR tol) x x = finite64 x" "near64 (tol_CP tol) x x = finite64 x"
    "near64 (tol_Do tol) x x = finite64 x" "near32 (tol_CN0 tol) y y = finite32 y" for x y
    using assms near_self by (simp_all add: tolerances_ok_def)
  have f: "unless_all (\<lambda>x. True) (sv_Frq v) = None" by (cases "sv_Frq v") (simp_all add: unless_all_def)
  assume de: "diffSignal tol (Some v) (Some v) = (d, e)"
  define D where "D = \<lparr> sv_Frq = None, sv_PR = unless_all finite64 (sv_PR v), sv_CP = unless_all finite64 (sv_CP v),
    sv_Do = unless_all finite64 (sv_Do v), sv_CN0 = unless_all finite32 (sv_CN0 v), sv_Arc = 0, sv_HC = False, sv_BT = False,
    sd_LL = False \<rparr>"
  have "diffSignal tol (Some v) (Some v) = (Some D, Some D)"
    by (simp add: diffSignal_def compare_self p compareComparable_def f D_def)
  moreover have "sd_LL D = False" "sd_IsZero D \<longleftrightarrow> finite_values v"
    by (simp_all add: D_def sd_IsZero_def sv_IsZero_def unless_all_None finite_values_def)
  ultimately show ?thesis using de by (intro exI [of _ D]) simp
qed

lemma diff_at_self:
  assumes "tolerances_ok tol" "obs_at x t k = Some i"
  shows "\<exists>od tr1. diff_at tol x x t k (tr, tr) = (od, tr1, tr1) \<and> (od = None \<longleftrightarrow> finite_values (so_Values (oi_obs x ! i)))"
proof -
  let ?v = "so_Values (oi_obs x ! i)"
  obtain d e where de: "diffSignal tol (Some ?v) (Some ?v) = (d, e)" by (cases "diffSignal tol (Some ?v) (Some ?v)")
  from diffSignal_self [OF assms(1) de] obtain D where
    D: "d = Some D" "e = Some D" "sd_LL D = False" "sd_IsZero D \<longleftrightarrow> finite_values ?v" by blast
  have LL: "D\<lparr> sd_LL := False \<rparr> = D" using D(3) by simp
  obtain l ta where arc: "arc_transition k x t tr = (l, ta)" by (cases "arc_transition k x t tr")
  have "compareAt tol x x t k = (Some D, Some D)" using de D(1,2) assms(2) by (simp add: compareAt_def)
  then show ?thesis using D(4) LL by (simp add: diff_at_def arc compareComparable_def)
qed

lemma report_self:
  assumes "tolerances_ok tol"
  shows "\<forall>(t, k) \<in> set tks. obs_at x t k \<noteq> None \<Longrightarrow>
    report_from r tol x x tks (tr, tr) = ([], None) \<longleftrightarrow>
      (\<forall>(t, k) \<in> set tks. finite_values (so_Values (oi_obs x ! the (obs_at x t k))))"
proof (induction tks arbitrary: tr)
  case (Cons tk tks)
  obtain t k where tk: "tk = (t, k)" by (cases tk)
  then obtain i where i: "obs_at x t k = Some i" using Cons.prems by auto
  obtain od tr1 where d: "diff_at tol x x t k (tr, tr) = (od, tr1, tr1)" "od = None \<longleftrightarrow> finite_values (so_Values (oi_obs x ! i))"
    using diff_at_self [OF assms i] by blast
  have "report_from r tol x x tks (tr1, tr1) = ([], None) \<longleftrightarrow>
      (\<forall>(t, k) \<in> set tks. finite_values (so_Values (oi_obs x ! the (obs_at x t k))))"
    using Cons by simp
  then show ?case using d i tk by (cases od) (auto simp: Let_def split: option.split prod.split)
qed simp

lemma index_side: "index_from (\<lambda>_. None) side i obs lastT x = index_from (\<lambda>_. None) side' i obs lastT x"
  by (induction obs arbitrary: i lastT x) (simp_all add: Let_def split: option.split)

text \<open>What the index holds: of each time and signal the first observation. The first \<open>n\<close> observations are in it.\<close>

definition first_obs :: "SignalObservation list \<Rightarrow> nat \<Rightarrow> bool" where
  "first_obs obs i \<longleftrightarrow> i < length obs \<and> (\<forall>j < i. so_T (obs ! j) = so_T (obs ! i) \<longrightarrow> so_key (obs ! j) \<noteq> so_key (obs ! i))"

definition indexed :: "SignalObservation list \<Rightarrow> nat \<Rightarrow> obsIndex \<Rightarrow> bool" where
  "indexed obs n x \<longleftrightarrow> oi_obs x = obs \<and> map fst (oi_epochs x) = oi_times x \<and>
     (\<forall>t k i. obs_at x t k = Some i \<longleftrightarrow> i < n \<and> first_obs obs i \<and> so_T (obs ! i) = t \<and> so_key (obs ! i) = k)"

lemma map_of_change: "map_of (map (\<lambda>(t, m). (t, if t = u then f m else m)) xs) t = map_option (\<lambda>m. if t = u then f m else m) (map_of xs t)"
  by (induction xs) auto

lemma epoch_new: "map_of es u = None \<Longrightarrow>
    (case map_of (es @ [(u, [])]) t of None \<Rightarrow> [] | Some m \<Rightarrow> m) = (case map_of es t of None \<Rightarrow> [] | Some m \<Rightarrow> m)"
  by (auto simp: map_add_def split: option.split)

lemma indexed_step:
  assumes "indexed obs n x" "n < length obs" "q = obs ! n" "t = so_T q" "k = so_key q"
    "x1 = (if map_of (oi_epochs x) t = None then x\<lparr> oi_epochs := oi_epochs x @ [(t, [])], oi_times := oi_times x @ [t] \<rparr> else x)"
  shows "obs_at x1 t k = Some p \<Longrightarrow> indexed obs (Suc n) x1"
    "obs_at x1 t k = None \<Longrightarrow> indexed obs (Suc n) (x1\<lparr> oi_epochs := map (\<lambda>(t', m). (t', if t' = t then m @ [(k, n)] else m)) (oi_epochs x1) \<rparr>)"
proof -
  have "epoch_at x1 t' = epoch_at x t'" for t'
    unfolding assms(6) epoch_at_def using epoch_new [of "oi_epochs x" t t'] by (cases "map_of (oi_epochs x) t") (simp_all del: map_of_append)
  then have at: "obs_at x1 = obs_at x" by (intro ext) (simp add: obs_at_def)
  have tm: "map fst (oi_epochs x1) = oi_times x1" "oi_obs x1 = obs" using assms(1) by (auto simp: indexed_def assms(6))
  have in1: "obs_at x1 t' k' = Some i \<longleftrightarrow> i < n \<and> first_obs obs i \<and> so_T (obs ! i) = t' \<and> so_key (obs ! i) = k'" for t' k' i
    using assms(1) unfolding at indexed_def by blast
  {
    assume "obs_at x1 t k = Some p"
    then have "p < n" "so_T (obs ! p) = t" "so_key (obs ! p) = k" by (simp_all add: in1)
    then have "\<not> first_obs obs n" using assms(3-5) by (auto simp: first_obs_def)
    then show "indexed obs (Suc n) x1" using tm in1 by (auto simp: indexed_def less_Suc_eq)
  next
    assume none: "obs_at x1 t k = None"
    let ?x2 = "x1\<lparr> oi_epochs := map (\<lambda>(t', m). (t', if t' = t then m @ [(k, n)] else m)) (oi_epochs x1) \<rparr>"
    have first: "first_obs obs n"
    proof (rule ccontr)
      assume "\<not> first_obs obs n"
      then obtain j where j: "j < n" "so_T (obs ! j) = t" "so_key (obs ! j) = k" using assms(2-5) by (auto simp: first_obs_def)
      define i where "i = (LEAST j. so_T (obs ! j) = t \<and> so_key (obs ! j) = k)"
      have i: "so_T (obs ! i) = t \<and> so_key (obs ! i) = k" unfolding i_def by (rule LeastI [of _ j]) (simp add: j)
      have "i \<le> j" unfolding i_def by (rule Least_le) (simp add: j)
      moreover have "so_T (obs ! l) = t \<Longrightarrow> so_key (obs ! l) \<noteq> k" if "l < i" for l
        using not_less_Least [OF that [unfolded i_def]] by blast
      ultimately have "obs_at x1 t k = Some i" using i j(1) assms(2) by (auto simp: in1 first_obs_def)
      with none show False by simp
    qed
    have known: "map_of (oi_epochs x1) t \<noteq> None"
      by (cases "map_of (oi_epochs x) t") (simp_all add: assms(6) map_add_def)
    have at2: "obs_at ?x2 t' k' = (if t' = t \<and> k' = k then Some n else obs_at x1 t' k')" for t' k'
    proof (cases "t' = t")
      case True
      from known obtain m where m: "map_of (oi_epochs x1) t = Some m" by blast
      then have "map_of m k = None" using none by (simp add: obs_at_def epoch_at_def)
      then show ?thesis using m True
        by (auto simp: obs_at_def epoch_at_def map_of_change [of t "\<lambda>m. m @ [(k, n)]"] map_add_def split: option.split)
    next
      case False
      then show ?thesis
        by (cases "map_of (oi_epochs x1) t'") (simp_all add: obs_at_def epoch_at_def map_of_change [of t "\<lambda>m. m @ [(k, n)]"])
    qed
    have "map fst (oi_epochs ?x2) = oi_times ?x2" using tm(1) by (auto simp: comp_def split_def cong: map_cong)
    moreover have "obs_at ?x2 t' k' = Some i \<longleftrightarrow> i < Suc n \<and> first_obs obs i \<and> so_T (obs ! i) = t' \<and> so_key (obs ! i) = k'" for t' k' i
    proof -
      have tk: "so_T (obs ! n) = t" "so_key (obs ! n) = k" using assms(3-5) by simp_all
      show ?thesis unfolding at2 by (metis in1 none tk first less_Suc_eq option.distinct(1) option.inject)
    qed
    ultimately show "indexed obs (Suc n) ?x2" using tm(2) by (simp add: indexed_def)
  }
qed

lemma index_indexed:
  "indexed obs n x \<Longrightarrow> qs = drop n obs \<Longrightarrow> \<exists>y. index_from (\<lambda>_. None) side n qs lastT x = Inr y \<and> indexed obs (length obs) y"
proof (induction qs arbitrary: n lastT x)
  case Nil
  then have "indexed obs (length obs) x" by (auto simp: indexed_def first_obs_def)
  then show ?case by simp
next
  case (Cons q qs)
  from Cons.prems(2) have n: "n < length obs" "q = obs ! n" "qs = drop (Suc n) obs"
    by (metis drop_eq_Nil not_le list.distinct(1), metis drop_eq_Nil not_le list.distinct(1) nth_via_drop, metis drop_Suc list.sel(3) tl_drop)
  let ?t = "so_T q" and ?k = "so_key q"
  define x1 where "x1 = (if map_of (oi_epochs x) ?t = None then x\<lparr> oi_epochs := oi_epochs x @ [(?t, [])], oi_times := oi_times x @ [?t] \<rparr> else x)"
  note step = indexed_step [OF Cons.prems(1) n(1,2) refl refl x1_def]
  show ?case
  proof (cases "obs_at x1 ?t ?k")
    case None
    then show ?thesis using Cons.IH [OF step(2) n(3)] by (simp add: Let_def x1_def [symmetric] split: option.split)
  next
    case (Some p)
    then show ?thesis using Cons.IH [OF step(1) n(3)] by (simp add: Let_def x1_def [symmetric] split: option.split)
  qed
qed

text \<open>C0: A stream compared with itself, in whatever order and with whatever repetitions, has no differences exactly when
  the values compared, those of the first observation of each signal at each time, are finite: an infinity or a
  not-a-number is reported as different from itself. The tolerances are any numbers that are not negative.\<close>

theorem diff_self:
  fixes r :: "obs_diff \<Rightarrow> 'e option"
  assumes "tolerances_ok tol"
  shows "diffObservations (\<lambda>_. None) r tol obs obs = ([], None) \<longleftrightarrow>
    (\<forall>i. first_obs obs i \<longrightarrow> finite_values (so_Values (obs ! i)))"
proof -
  have "indexed obs 0 \<lparr> oi_epochs = [], oi_times = [], oi_obs = obs \<rparr>" by (simp add: indexed_def obs_at_def epoch_at_def)
  from index_indexed [OF this, of obs] obtain x where
    x: "(indexObservations (\<lambda>_. None) 0 obs :: 'e + obsIndex) = Inr x" "indexed obs (length obs) x"
    unfolding indexObservations_def by auto
  have "(indexObservations (\<lambda>_. None) 1 obs :: 'e + obsIndex) = Inr x"
    using x(1) index_side unfolding indexObservations_def by metis
  moreover have "validateObsTolerances tol" using assms by (simp add: validateObsTolerances_def tolerances_ok_def tolerance_def)
  ultimately have d: "diffObservations (\<lambda>_. None) r tol obs obs = ([], None) \<longleftrightarrow> reportDiffs r tol x x = ([], None)"
    using x(1) by (auto simp: diffObservations_def split: prod.split)
  define tks where "tks = concat (map (\<lambda>t. map (\<lambda>k. (t, k)) (diffKeys (epoch_at x t) (epoch_at x t))) (diffTimes x x))"
  have tks: "(t, k) \<in> set tks \<longleftrightarrow> obs_at x t k \<noteq> None" for t k
  proof -
    have "t \<in> fst ` set (oi_epochs x)" if "obs_at x t k \<noteq> None"
      using that by (auto simp: obs_at_def epoch_at_def split: option.splits dest!: map_of_SomeD intro: rev_image_eqI)
    moreover have "set (oi_times x) = fst ` set (oi_epochs x)" using x(2) by (metis indexed_def list.set_map)
    ultimately show ?thesis by (auto simp: tks_def diffKeys_def diffTimes_def obs_at_def map_of_eq_None_iff)
  qed
  have "reportDiffs r tol x x = ([], None) \<longleftrightarrow> (\<forall>(t, k) \<in> set tks. finite_values (so_Values (oi_obs x ! the (obs_at x t k))))"
    unfolding reportDiffs_def tks_def [symmetric] by (rule report_self [OF assms]) (auto simp: tks)
  also have "\<dots> \<longleftrightarrow> (\<forall>t k i. obs_at x t k = Some i \<longrightarrow> finite_values (so_Values (obs ! i)))"
  proof -
    have "oi_obs x = obs" using x(2) by (simp add: indexed_def)
    moreover have "set tks = {(t, k). obs_at x t k \<noteq> None}" by (intro set_eqI) (simp add: tks split: prod.split)
    then have "(\<forall>z \<in> set tks. case z of (t, k) \<Rightarrow> P t k) \<longleftrightarrow> (\<forall>t k. obs_at x t k \<noteq> None \<longrightarrow> P t k)" for P
      by blast
    ultimately show ?thesis by force
  qed
  also have "\<dots> \<longleftrightarrow> (\<forall>i. first_obs obs i \<longrightarrow> finite_values (so_Values (obs ! i)))"
  proof -
    have "obs_at x t k = Some i \<longleftrightarrow> first_obs obs i \<and> so_T (obs ! i) = t \<and> so_key (obs ! i) = k" for t k i
      using x(2) unfolding indexed_def by (metis first_obs_def)
    then show ?thesis by blast
  qed
  finally show ?thesis unfolding d .
qed

text \<open>With tolerance 0: a stream with the number 1.5, twice, has no differences, one with an infinity has.\<close>

theorem diff_self_witness:
  "let obs = (\<lambda>pr. \<lparr> so_T = 5, so_Sat = ''G03'', so_Sig = ''1C'', so_Values = \<lparr> sv_Frq = None, sv_PR = Some pr, sv_CP = None,
       sv_Do = None, sv_CN0 = Some 0x42280000, sv_Arc = 2, sv_HC = True, sv_BT = False \<rparr> \<rparr>);
     tol = \<lparr> tol_PR = 0, tol_CP = 0, tol_Do = 0, tol_CN0 = 0 \<rparr>;
     o1 = obs 0x3FF8000000000000; o2 = obs 0x7FF0000000000000
   in diffObservations (\<lambda>_. None) (\<lambda>_. Some ()) tol [o1, o1] [o1, o1] = ([], None)
      \<and> diffObservations (\<lambda>_. None) (\<lambda>_. Some ()) tol [o2] [o2] \<noteq> ([], None)"
proof -
  have t: "tolerances_ok \<lparr> tol_PR = 0, tol_CP = 0, tol_Do = 0, tol_CN0 = 0 \<rparr>"
    by (simp add: tolerances_ok_def tolerance_def tol_nan_def tol_negative_def fp_simps)
  have "finite64 0x3FF8000000000000" by (simp add: finite64_def fp_simps)
  moreover have "finite32 0x42280000" by (simp add: finite32_def fp_simps)
  moreover have "\<not> finite64 0x7FF0000000000000" by (simp add: finite64_def fp_simps)
  moreover have "first_obs [a] i \<longleftrightarrow> i = 0" "first_obs [a, a] i \<longleftrightarrow> i = 0" for a i by (auto simp: first_obs_def less_Suc_eq)
  ultimately show ?thesis unfolding Let_def diff_self [OF t]
    by (simp add: finite_values_def)
qed

lemma sorted_pairs:
  fixes ts :: "int list" and f :: "int \<Rightarrow> obsKey list"
  assumes "sorted_wrt (<) ts" "\<And>t. sorted_wrt (<) (f t)"
  shows "sorted_wrt (<) (concat (map (\<lambda>t. map (\<lambda>k. (t, k)) (f t)) ts))"
  using assms(1)
proof (induction ts)
  case (Cons t ts)
  have "sorted_wrt (<) (map (\<lambda>k. (t, k)) (f t))"
    unfolding sorted_wrt_map by (rule sorted_wrt_mono_rel [OF _ assms(2)]) (simp add: less_prod_simp)
  then show ?case using Cons by (auto simp: sorted_wrt_append less_prod_simp)
qed simp

lemma union_strict: "sorted_wrt (<) (union_sorted xs ys)"
  by (simp add: strict_sorted_iff)

lemma diff_at_place: "diff_at tol a b t k tr = (Some d, tr1) \<Longrightarrow> df_T d = t \<and> df_Key d = k"
proof -
  obtain ta tb where "tr = (ta, tb)" by (cases tr)
  moreover obtain af bf where "compareAt tol a b t k = (af, bf)" by (cases "compareAt tol a b t k")
  moreover obtain l ta1 where "arc_transition k a t ta = (l, ta1)" by (cases "arc_transition k a t ta")
  moreover obtain m tb1 where "arc_transition k b t tb = (m, tb1)" by (cases "arc_transition k b t tb")
  moreover assume "diff_at tol a b t k tr = (Some d, tr1)"
  ultimately show ?thesis by (cases af; cases bf) (auto simp: diff_at_def Let_def split: prod.splits if_splits)
qed

lemma report_sorted:
  "sorted_wrt (<) tks \<Longrightarrow> sorted_wrt (<) (map (\<lambda>d. (df_T d, df_Key d)) (fst (report_from r tol a b tks tr))) \<and>
     set (map (\<lambda>d. (df_T d, df_Key d)) (fst (report_from r tol a b tks tr))) \<subseteq> set tks"
proof (induction tks arbitrary: tr)
  case (Cons tk tks)
  obtain t k where tk: "tk = (t, k)" by (cases tk)
  obtain od tr1 where d: "diff_at tol a b t k tr = (od, tr1)" by (cases "diff_at tol a b t k tr")
  note IH = Cons.IH [of tr1]
  show ?case
  proof (cases "od = None \<or> (\<exists>x e. od = Some x \<and> r x = Some e)")
    case True
    then have "fst (report_from r tol a b (tk # tks) tr) = fst (report_from r tol a b tks tr1) \<or> fst (report_from r tol a b (tk # tks) tr) = []"
      using d tk by auto
    then show ?thesis using IH Cons.prems by (elim disjE) (simp_all del: set_map report_from.simps add: subset_insertI2)
  next
    case False
    then obtain x where x: "od = Some x" "r x = None" by auto
    obtain ds e where ds: "report_from r tol a b tks tr1 = (ds, e)" by (cases "report_from r tol a b tks tr1")
    have "(df_T x, df_Key x) = tk" using diff_at_place [of tol a b t k tr x tr1] d x tk by simp
    moreover have "fst (report_from r tol a b (tk # tks) tr) = x # ds" using d x tk ds by simp
    moreover have "sorted_wrt (<) (map (\<lambda>d. (df_T d, df_Key d)) ds)" "set (map (\<lambda>d. (df_T d, df_Key d)) ds) \<subseteq> set tks"
      using IH Cons.prems ds by (simp_all del: set_map)
    moreover have "\<forall>y \<in> set tks. tk < y" using Cons.prems by simp
    ultimately show ?thesis by (simp del: set_map report_from.simps) blast
  qed
qed simp

text \<open>C0: The differences are reported in the order of their times and, at one time, of their signals, and no signal twice at a time,
  whatever the order of the streams and whether or not the reporter stops the comparison.\<close>

theorem diff_ordered:
  "sorted_wrt (<) (map (\<lambda>d. (df_T d, df_Key d)) (fst (diffObservations er r tol a b)))"
proof -
  have "sorted_wrt (<) (map (\<lambda>d. (df_T d, df_Key d)) (fst (reportDiffs r tol x y)))" for x y
    unfolding reportDiffs_def diffTimes_def diffKeys_def
    by (rule report_sorted [OF sorted_pairs [OF union_strict union_strict], THEN conjunct1])
  then show ?thesis by (auto simp: diffObservations_def split: sum.split prod.split) (metis fst_conv)
qed

end
