(* ===== verification/Bcast.thy ===== *)
theory Bcast
  imports Prelude
begin

text \<open>
  The broadcast of packets to subscribers (\<^verbatim>\<open>gps/app/bcast/bcast.go\<close>): the loop of \<^verbatim>\<open>Run\<close> as a function of what
  its select chooses. The queue is shared; a subscriber knows the index of the message it is to be sent next. Go's
  channels are numbers, and the indices, which only grow, naturals: a run would need \<open>2 ^ 63\<close> messages to overflow
  them. An index out of range is \<open>None\<close>.
\<close>

section \<open>The state\<close>

record subscriber =
  sb_c :: nat
  sb_nextSendIndex :: nat

record 'm Bcast =
  bc_q :: "'m list"
  bc_nextQIndex :: nat
  bc_subscribers :: "subscriber list"
  bc_subscribe :: bool
  bc_msg :: bool
  bc_done :: bool
  bc_closing :: bool

text \<open>Whether the channels for subscriptions, for messages and for cancellation are not nil is \<open>bc_subscribe\<close>, \<open>bc_msg\<close>, \<open>bc_done\<close>.\<close>

definition newBcast :: "'m Bcast" where
  "newBcast = \<lparr> bc_q = [], bc_nextQIndex = 0, bc_subscribers = [], bc_subscribe = True, bc_msg = True, bc_done = True, bc_closing = False \<rparr>"

datatype 'm chosen = SubscribeRecv nat | SubscribeClosed | UnsubscribeRecv nat | MsgRecv 'm | MsgClosed | DoneRecv | SendTo nat

text \<open>What the other goroutines see of a turn.\<close>

datatype 'm seen = SentTo nat 'm | ClosedChan nat

text \<open>A message is sent to a subscriber when it has not been sent all of them.\<close>

definition to_do :: "'m Bcast \<Rightarrow> subscriber \<Rightarrow> bool" where
  "to_do b s \<longleftrightarrow> \<not> bc_closing b \<and> sb_nextSendIndex s < bc_nextQIndex b"

text \<open>What the select can choose: a nil channel never; a subscription comes with a channel of its own.\<close>

definition can_choose :: "'m Bcast \<Rightarrow> 'm chosen \<Rightarrow> bool" where
  "can_choose b ch \<longleftrightarrow> (bc_subscribe b \<or> bc_msg b) \<and>
     (case ch of
        SubscribeRecv c \<Rightarrow> bc_subscribe b \<and> c \<notin> sb_c ` set (bc_subscribers b)
      | SubscribeClosed \<Rightarrow> bc_subscribe b
      | UnsubscribeRecv c \<Rightarrow> True
      | MsgRecv m \<Rightarrow> bc_msg b
      | MsgClosed \<Rightarrow> bc_msg b
      | DoneRecv \<Rightarrow> bc_done b
      | SendTo i \<Rightarrow> i < length (bc_subscribers b) \<and> to_do b (bc_subscribers b ! i))"

section \<open>A turn\<close>

definition trimQ :: "'m Bcast \<Rightarrow> 'm Bcast" where
  "trimQ b =
     (let needIndex = foldl (\<lambda>n s. min n (sb_nextSendIndex s)) (bc_nextQIndex b) (bc_subscribers b);
          nNeed = bc_nextQIndex b - needIndex
      in if nNeed = 0 then b\<lparr> bc_q := [] \<rparr>
         else if nNeed \<le> length (bc_q b) - nNeed then b\<lparr> bc_q := drop (length (bc_q b) - nNeed) (bc_q b) \<rparr>
         else b)"

text \<open>\<^verbatim>\<open>unsubscribe\<close> removes the first subscriber with the channel.\<close>

definition unsubscribed :: "nat \<Rightarrow> subscriber list \<Rightarrow> subscriber list" where
  "unsubscribed c ss = takeWhile (\<lambda>s. sb_c s \<noteq> c) ss @ tl (dropWhile (\<lambda>s. sb_c s \<noteq> c) ss)"

definition turn :: "'m chosen \<Rightarrow> 'm Bcast \<Rightarrow> ('m Bcast \<times> 'm seen list) option" where
  "turn ch b =
     (case ch of
        SubscribeRecv c \<Rightarrow>
          (if bc_closing b then Some (b, [ClosedChan c])
           else Some (b\<lparr> bc_subscribers := bc_subscribers b @ [\<lparr> sb_c = c, sb_nextSendIndex = bc_nextQIndex b \<rparr>] \<rparr>, []))
      | SubscribeClosed \<Rightarrow> Some (b\<lparr> bc_subscribe := False \<rparr>, [])
      | UnsubscribeRecv c \<Rightarrow> Some (b\<lparr> bc_subscribers := unsubscribed c (bc_subscribers b) \<rparr>, [])
      | MsgRecv m \<Rightarrow>
          Some (if bc_subscribers b \<noteq> [] then b\<lparr> bc_q := bc_q b @ [m], bc_nextQIndex := bc_nextQIndex b + 1 \<rparr> else b, [])
      | MsgClosed \<Rightarrow> Some (b\<lparr> bc_msg := False \<rparr>, [])
      | DoneRecv \<Rightarrow> Some (b\<lparr> bc_done := False \<rparr>, [])
      | SendTo i \<Rightarrow>
          (let s = bc_subscribers b ! i
           in if sb_nextSendIndex s + length (bc_q b) < bc_nextQIndex b then None
              else do {
                m \<leftarrow> idx (bc_q b) (sb_nextSendIndex s + length (bc_q b) - bc_nextQIndex b);
                Some (trimQ (b\<lparr> bc_subscribers := (bc_subscribers b)[i := s\<lparr> sb_nextSendIndex := sb_nextSendIndex s + 1 \<rparr>] \<rparr>), [SentTo (sb_c s) m]) }))"

definition close_down :: "'m Bcast \<Rightarrow> 'm Bcast \<times> 'm seen list" where
  "close_down b =
     (if \<not> bc_closing b \<and> (\<not> bc_msg b \<or> \<not> bc_subscribe b \<or> \<not> bc_done b)
      then (b\<lparr> bc_closing := True \<rparr>, map (\<lambda>s. ClosedChan (sb_c s)) (bc_subscribers b)) else (b, []))"

definition bcast_step :: "'m chosen \<Rightarrow> 'm Bcast \<Rightarrow> ('m Bcast \<times> 'm seen list) option" where
  "bcast_step ch b = do { (b1, o1) \<leftarrow> turn ch b; let (b2, o2) = close_down b1 in Some (b2, o1 @ o2) }"

text \<open>Some turns, each of them one that the select can choose.\<close>

inductive bcast_run :: "'m Bcast \<Rightarrow> 'm chosen list \<Rightarrow> 'm Bcast \<Rightarrow> 'm seen list \<Rightarrow> bool" where
  run_none: "bcast_run b [] b []"
| run_turn: "can_choose b ch \<Longrightarrow> bcast_step ch b = Some (b1, o1) \<Longrightarrow> bcast_run b1 chs b2 o2 \<Longrightarrow> bcast_run b (ch # chs) b2 (o1 @ o2)"

inductive_cases run_cases: "bcast_run b (ch # chs) b2 os"

section \<open>The invariant\<close>

definition in_queue :: "'m Bcast \<Rightarrow> subscriber \<Rightarrow> bool" where
  "in_queue b s \<longleftrightarrow> sb_nextSendIndex s \<le> bc_nextQIndex b \<and> bc_nextQIndex b \<le> sb_nextSendIndex s + length (bc_q b)"

definition bcast_inv :: "'m Bcast \<Rightarrow> bool" where
  "bcast_inv b \<longleftrightarrow> length (bc_q b) \<le> bc_nextQIndex b \<and> list_all (in_queue b) (bc_subscribers b) \<and>
     distinct (map sb_c (bc_subscribers b))"

text \<open>The messages that a subscriber has not been sent yet.\<close>

definition to_send :: "'m Bcast \<Rightarrow> subscriber \<Rightarrow> 'm list" where
  "to_send b s = drop (sb_nextSendIndex s + length (bc_q b) - bc_nextQIndex b) (bc_q b)"

definition delivered :: "nat \<Rightarrow> 'm seen list \<Rightarrow> 'm list" where
  "delivered c os = concat (map (\<lambda>x. case x of SentTo c' m \<Rightarrow> if c' = c then [m] else [] | ClosedChan _ \<Rightarrow> []) os)"

definition received :: "'m chosen list \<Rightarrow> 'm list" where
  "received chs = concat (map (\<lambda>ch. case ch of MsgRecv m \<Rightarrow> [m] | _ \<Rightarrow> []) chs)"

lemma delivered_append [simp]: "delivered c (xs @ ys) = delivered c xs @ delivered c ys" "delivered c [] = []"
  "delivered c (map (\<lambda>s. ClosedChan (f s)) ss) = []"
  by (simp_all add: delivered_def)

lemma foldl_min_le: "foldl (\<lambda>n s. min n (f s)) (k :: nat) ss \<le> k"
proof (induction ss arbitrary: k)
  case (Cons a ss)
  have "foldl (\<lambda>n s. min n (f s)) (min k (f a)) ss \<le> min k (f a)" by (rule Cons.IH)
  then show ?case by simp
qed simp

lemma foldl_min: "s \<in> set ss \<Longrightarrow> foldl (\<lambda>n s. min n (f s)) (k :: nat) ss \<le> f s"
proof (induction ss arbitrary: k)
  case (Cons a ss)
  show ?case
  proof (cases "s = a")
    case True
    then show ?thesis using foldl_min_le [of f "min k (f a)" ss] by simp
  next
    case False
    then show ?thesis using Cons by simp
  qed
qed simp

text \<open>Trimming the queue changes neither what is to be sent nor the invariant.\<close>

lemma trim_fields [simp]: "bc_subscribers (trimQ b) = bc_subscribers b" "bc_nextQIndex (trimQ b) = bc_nextQIndex b"
  "bc_closing (trimQ b) = bc_closing b" "bc_msg (trimQ b) = bc_msg b" "bc_subscribe (trimQ b) = bc_subscribe b" "bc_done (trimQ b) = bc_done b"
  by (simp_all add: trimQ_def Let_def)

lemma trim_in_queue:
  assumes "list_all (in_queue b) (bc_subscribers b)" "length (bc_q b) \<le> bc_nextQIndex b" "s \<in> set (bc_subscribers b)"
  shows "in_queue (trimQ b) s \<and> to_send (trimQ b) s = to_send b s"
proof -
  define need where "need = foldl (\<lambda>n s. min n (sb_nextSendIndex s)) (bc_nextQIndex b) (bc_subscribers b)"
  have n: "need \<le> bc_nextQIndex b" "need \<le> sb_nextSendIndex s" unfolding need_def using foldl_min_le foldl_min assms(3) by auto
  have s: "in_queue b s" using assms(1,3) by (simp add: list_all_iff)
  show ?thesis using n s assms(2)
    by (auto simp: trimQ_def need_def [symmetric] in_queue_def to_send_def Let_def)
qed

lemma trim_length: "length (bc_q b) \<le> bc_nextQIndex b \<Longrightarrow> length (bc_q (trimQ b)) \<le> bc_nextQIndex b"
  by (auto simp: trimQ_def Let_def)

section \<open>What a turn does\<close>

definition served :: "'m Bcast \<Rightarrow> 'm chosen \<Rightarrow> 'm Bcast \<Rightarrow> 'm seen list \<Rightarrow> bool" where
  "served b ch b1 o1 \<longleftrightarrow> (\<forall>s \<in> set (bc_subscribers b). ch \<noteq> UnsubscribeRecv (sb_c s) \<longrightarrow>
     (\<exists>s' \<in> set (bc_subscribers b1). sb_c s' = sb_c s \<and> delivered (sb_c s) o1 @ to_send b1 s' = to_send b s @ received [ch]))"

lemma unsubscribed_filter: "distinct (map sb_c ss) \<Longrightarrow> unsubscribed c ss = filter (\<lambda>s. sb_c s \<noteq> c) ss"
proof (induction ss)
  case (Cons a ss)
  have "filter (\<lambda>s. sb_c s \<noteq> sb_c a) ss = ss" using Cons.prems unfolding filter_id_conv by (metis distinct.simps(2) image_eqI list.set_map list.simps(9))
  then show ?case using Cons by (auto simp: unsubscribed_def)
qed (simp add: unsubscribed_def)

lemma turn_send:
  assumes inv: "bcast_inv b" and i: "i < length (bc_subscribers b)" "to_do b (bc_subscribers b ! i)"
  shows "\<exists>b1 o1. turn (SendTo i) b = Some (b1, o1) \<and> bcast_inv b1 \<and> served b (SendTo i) b1 o1"
proof -
  let ?ss = "bc_subscribers b"
  define s where "s = ?ss ! i"
  define s' where "s' = s\<lparr> sb_nextSendIndex := sb_nextSendIndex s + 1 \<rparr>"
  define k where "k = sb_nextSendIndex s + length (bc_q b) - bc_nextQIndex b"
  define b0 where "b0 = b\<lparr> bc_subscribers := ?ss[i := s'] \<rparr>"
  have s: "in_queue b s" "sb_nextSendIndex s < bc_nextQIndex b" "s \<in> set ?ss"
    using inv i by (auto simp: bcast_inv_def list_all_length s_def to_do_def)
  have k: "k < length (bc_q b)" "\<not> sb_nextSendIndex s + length (bc_q b) < bc_nextQIndex b" using s by (auto simp: k_def in_queue_def)
  have t: "turn (SendTo i) b = Some (trimQ b0, [SentTo (sb_c s) (bc_q b ! k)])"
    using k by (simp add: turn_def s_def [symmetric] b0_def s'_def k_def idx_def Let_def)
  have q: "in_queue b s'" using s by (auto simp: in_queue_def s'_def)
  have same: "in_queue b0 x = in_queue b x" "to_send b0 x = to_send b x" for x by (simp_all add: in_queue_def to_send_def b0_def)
  have all: "list_all (in_queue b0) (bc_subscribers b0)" using inv q same(1)
    by (auto simp: bcast_inv_def list_all_iff b0_def dest!: set_update_subset_insert [THEN subsetD])
  have len: "length (bc_q b0) \<le> bc_nextQIndex b0" using inv by (simp add: bcast_inv_def b0_def)
  have c: "sb_c s' = sb_c s" by (simp add: s'_def)
  have names: "map sb_c (bc_subscribers b0) = map sb_c ?ss" using i(1) c by (auto intro!: nth_equalityI simp: b0_def nth_list_update s_def)
  note trim = trim_in_queue [OF all len]
  have "bcast_inv (trimQ b0)" using trim trim_length [OF len] inv names by (simp add: bcast_inv_def list_all_iff)
  moreover have "served b (SendTo i) (trimQ b0) [SentTo (sb_c s) (bc_q b ! k)]" unfolding served_def
  proof (intro ballI impI)
    fix x
    assume x: "x \<in> set ?ss"
    then obtain j where j: "j < length ?ss" "x = ?ss ! j" by (auto simp: in_set_conv_nth)
    show "\<exists>y \<in> set (bc_subscribers (trimQ b0)). sb_c y = sb_c x \<and>
        delivered (sb_c x) [SentTo (sb_c s) (bc_q b ! k)] @ to_send (trimQ b0) y = to_send b x @ received [SendTo i :: 'a chosen]"
    proof (cases "j = i")
      case True
      have "s' \<in> set (bc_subscribers b0)" using i(1) by (simp add: b0_def set_update_memI)
      moreover have "bc_q b ! k # drop (Suc k) (bc_q b) = drop k (bc_q b)" by (rule Cons_nth_drop_Suc [OF k(1)])
      moreover have "to_send b s' = drop (Suc k) (bc_q b)" using k(2) by (simp add: to_send_def s'_def k_def Suc_diff_le)
      moreover have "to_send b s = drop k (bc_q b)" by (simp add: to_send_def k_def)
      ultimately show ?thesis using trim [of s'] same True j c by (auto simp: delivered_def received_def s_def [symmetric] intro!: bexI [of _ s'])
    next
      case False
      then have "x \<in> set (bc_subscribers b0)" using j by (auto simp: b0_def in_set_conv_nth nth_list_update)
      moreover have "sb_c x \<noteq> sb_c s" using inv j i(1) False nth_eq_iff_index_eq [of "map sb_c ?ss" j i]
        by (simp add: bcast_inv_def s_def)
      ultimately show ?thesis using trim [of x] same by (auto simp: delivered_def received_def intro!: bexI [of _ x])
    qed
  qed
  ultimately show ?thesis using t by blast
qed

lemma turn_keeps:
  assumes inv: "bcast_inv b" and can: "can_choose b ch"
  shows "\<exists>b1 o1. turn ch b = Some (b1, o1) \<and> bcast_inv b1 \<and> served b ch b1 o1"
proof (cases ch)
  case (SendTo i)
  then show ?thesis using turn_send [OF inv] can by (simp add: can_choose_def)
next
  case (SubscribeRecv c)
  then show ?thesis using inv can
    by (auto simp: turn_def can_choose_def bcast_inv_def served_def in_queue_def to_send_def delivered_def received_def list_all_iff)
next
  case (UnsubscribeRecv c)
  have "unsubscribed c (bc_subscribers b) = filter (\<lambda>s. sb_c s \<noteq> c) (bc_subscribers b)"
    by (rule unsubscribed_filter) (use inv in \<open>simp add: bcast_inv_def\<close>)
  then show ?thesis using inv UnsubscribeRecv
    by (auto simp: turn_def bcast_inv_def served_def in_queue_def to_send_def delivered_def received_def list_all_iff distinct_map_filter)
next
  case (MsgRecv m)
  have "drop (n + Suc l - Suc q) (xs @ [m]) = drop (n + l - q) xs @ [m]" if "n \<le> q" "l = length xs" for n l q and xs :: "'a list"
    using that by simp
  then show ?thesis using inv MsgRecv
    by (auto simp: turn_def bcast_inv_def served_def in_queue_def to_send_def delivered_def received_def list_all_iff)
qed (use inv in \<open>auto simp: turn_def bcast_inv_def served_def in_queue_def to_send_def delivered_def received_def list_all_iff\<close>)

section \<open>Runs\<close>

lemma close_fields [simp]: "bc_subscribers (fst (close_down b)) = bc_subscribers b" "bc_q (fst (close_down b)) = bc_q b"
  "bc_nextQIndex (fst (close_down b)) = bc_nextQIndex b" "delivered c (snd (close_down b)) = []"
  by (simp_all add: close_down_def)

lemma step_keeps:
  assumes "bcast_inv b" "can_choose b ch"
  shows "\<exists>b1 o1. bcast_step ch b = Some (b1, o1) \<and> bcast_inv b1 \<and> served b ch b1 o1"
proof -
  obtain b0 o0 where t: "turn ch b = Some (b0, o0)" "bcast_inv b0" "served b ch b0 o0" using turn_keeps [OF assms] by blast
  obtain b1 o1 where c: "close_down b0 = (b1, o1)" by fastforce
  have f: "bc_subscribers b1 = bc_subscribers b0" "bc_q b1 = bc_q b0" "bc_nextQIndex b1 = bc_nextQIndex b0" "delivered i o1 = []" for i
    using close_fields [where b = b0] c by simp_all
  have same: "in_queue b1 = in_queue b0" "to_send b1 = to_send b0" by (simp_all add: fun_eq_iff in_queue_def to_send_def f)
  have "bcast_step ch b = Some (b1, o0 @ o1)" using t c by (simp add: bcast_step_def)
  moreover have "bcast_inv b1" using t(2) f same by (simp add: bcast_inv_def)
  moreover have "served b ch b1 (o0 @ o1)" using t(3) f same by (simp add: served_def)
  ultimately show ?thesis by blast
qed

lemma bcast_inv_new: "bcast_inv newBcast"
  by (simp add: bcast_inv_def newBcast_def)

lemma run_inv: "bcast_run b chs b2 os \<Longrightarrow> bcast_inv b \<Longrightarrow> bcast_inv b2"
proof (induction rule: bcast_run.induct)
  case (run_turn b ch b1 o1 chs b2 o2)
  then show ?case using step_keeps [OF run_turn.prems run_turn.hyps(1)] by auto
qed

lemma run_served:
  "bcast_run b chs b2 os \<Longrightarrow> bcast_inv b \<Longrightarrow> s \<in> set (bc_subscribers b) \<Longrightarrow> UnsubscribeRecv (sb_c s) \<notin> set chs \<Longrightarrow>
   \<exists>s' \<in> set (bc_subscribers b2). sb_c s' = sb_c s \<and> delivered (sb_c s) os @ to_send b2 s' = to_send b s @ received chs"
proof (induction arbitrary: s rule: bcast_run.induct)
  case (run_none b)
  then show ?case by (auto simp: received_def intro!: bexI [of _ s])
next
  case (run_turn b ch b1 o1 chs b2 o2)
  have k: "bcast_inv b1 \<and> served b ch b1 o1" using step_keeps [OF run_turn.prems(1) run_turn.hyps(1)] run_turn.hyps(2) by auto
  then obtain s1 where s1: "s1 \<in> set (bc_subscribers b1)" "sb_c s1 = sb_c s"
      "delivered (sb_c s) o1 @ to_send b1 s1 = to_send b s @ received [ch]"
    using run_turn.prems unfolding served_def by (metis list.set_intros(1))
  obtain s2 where s2: "s2 \<in> set (bc_subscribers b2)" "sb_c s2 = sb_c s"
      "delivered (sb_c s) o2 @ to_send b2 s2 = to_send b1 s1 @ received chs"
    using run_turn.IH [of s1] k s1(1,2) run_turn.prems by auto
  have "delivered (sb_c s) (o1 @ o2) @ to_send b2 s2 = delivered (sb_c s) o1 @ to_send b1 s1 @ received chs" using s2(3) by simp
  also have "\<dots> = (delivered (sb_c s) o1 @ to_send b1 s1) @ received chs" by simp
  also have "\<dots> = to_send b s @ received [ch] @ received chs" unfolding s1(3) by simp
  also have "received [ch] @ received chs = received (ch # chs)" by (simp add: received_def)
  finally show ?case using s2(1,2) by blast
qed

text \<open>C0: From its subscription on, and as long as it does not unsubscribe, a subscriber is sent every message that is broadcast,
  once and in order: what it has been sent and what is still queued for it are together exactly the messages received.\<close>

theorem bcast_in_order:
  assumes "bcast_run newBcast chs b os" "\<not> bc_closing b"
    "bcast_run b (SubscribeRecv c # chs2) b2 os2" "UnsubscribeRecv c \<notin> set chs2"
  shows "\<exists>s \<in> set (bc_subscribers b2). sb_c s = c \<and> delivered c os2 @ to_send b2 s = received chs2"
proof -
  have inv: "bcast_inv b" by (rule run_inv [OF assms(1) bcast_inv_new])
  from assms(3) obtain b1 o1 o2 where r: "can_choose b (SubscribeRecv c)" "bcast_step (SubscribeRecv c) b = Some (b1, o1)"
    "bcast_run b1 chs2 b2 o2" "os2 = o1 @ o2" by (rule run_cases)
  have inv1: "bcast_inv b1" using step_keeps [OF inv r(1)] r(2) by auto
  let ?s = "\<lparr> sb_c = c, sb_nextSendIndex = bc_nextQIndex b \<rparr>"
  let ?b = "b\<lparr> bc_subscribers := bc_subscribers b @ [?s] \<rparr>"
  have b1: "b1 = fst (close_down ?b)" "o1 = snd (close_down ?b)"
    using r(2) assms(2) by (simp_all add: bcast_step_def turn_def split: prod.splits)
  have s: "?s \<in> set (bc_subscribers b1)" "to_send b1 ?s = []" "delivered c o1 = []" by (simp_all add: b1 to_send_def)
  from run_served [OF r(3) inv1 s(1)] assms(4) show ?thesis using r(4) s by simp
qed

text \<open>The broadcast never panics: the message that a subscriber is to be sent is in the queue, in any run.\<close>

lemma bcast_never_panics:
  assumes "bcast_run newBcast chs b os" "can_choose b ch"
  shows "bcast_step ch b \<noteq> None"
  using step_keeps [OF run_inv [OF assms(1) bcast_inv_new] assms(2)] by auto

text \<open>Two subscribers, one of which is sent both messages.\<close>

definition two_msgs :: "nat chosen list" where "two_msgs = [SubscribeRecv 2, MsgRecv 7, MsgRecv 8, SendTo 0, SendTo 0, SendTo 1]"

theorem bcast_in_order_witness:
  "\<exists>b2 os2. \<exists>s \<in> set (bc_subscribers b2). sb_c s = 1 \<and> delivered 1 os2 @ to_send b2 s = received two_msgs \<and> length (delivered 1 os2) = 2"
proof -
  have "\<exists>b2 os2. bcast_run newBcast (SubscribeRecv 1 # two_msgs) b2 os2 \<and> length (delivered 1 os2) = 2"
    unfolding two_msgs_def
    by (rule exI, rule exI, rule conjI, (rule run_turn, code_simp, code_simp)+, rule run_none) (simp add: delivered_def)
  then obtain b2 os2 where r: "bcast_run newBcast (SubscribeRecv 1 # two_msgs) b2 os2" "length (delivered 1 os2) = 2" by blast
  have "UnsubscribeRecv 1 \<notin> set two_msgs" by (simp add: two_msgs_def)
  from bcast_in_order [OF run_none _ r(1) this] r(2) show ?thesis by (auto simp: newBcast_def)
qed

end
