(* ===== verification/Spec2Isabelle.thy ===== *)
theory Spec2Isabelle
  imports NmeaSyntax ScannerCorrect Registry BitsEnc UbxMsgs CasMsgs AsMsgs SdbpMsgs Median LeapSearch TimeMsgs ControlSafety ConfigFlags UncConfig CasLive Pmc RinexDiff Bcast
begin

text \<open>
  \<^bold>\<open>SatPulse\<close>, a Go program that reads GNSS receivers and disciplines clocks: the path from the
  bytes of a receiver to messages, and the time scales and windows behind the clock.

  \<^bold>\<open>Parts.\<close> A reader delivers bytes to the scanner (\<^verbatim>\<open>src/gps/scan/scan.go\<close>), which cuts them into
  packets by driving one automaton per protocol, the packet formats (\<^verbatim>\<open>src/gps/gpsprot/packet.go\<close>
  and the packages under \<^verbatim>\<open>src/gps/internal\<close>) of the vendors that \<^verbatim>\<open>src/gps/gpsreg/reg.go\<close> selects,
  and checks their checksums. The message packages under \<^verbatim>\<open>src/gps/lib\<close> turn packets into messages
  and back. The controller of the clock (\<^verbatim>\<open>src/time/internal/phcsync\<close>) takes in timestamps of pulses and
  the times of messages, steps and steers the clock, and tells the PTP grandmaster
  (\<^verbatim>\<open>src/time/internal/ptpgm\<close>) whether it is in sync.

  \<^bold>\<open>Theories.\<close>
  \<^item> \<open>Prelude\<close>: bytes, indexing that panics (\<open>None\<close>), 64-bit integers, Go's division.
  \<^item> \<open>Ascii\<close>: \<^verbatim>\<open>gps/lib/ascii\<close>. \<open>Checksum\<close>: the checksums of the protocols, and what they detect.
  \<^item> \<open>PacketFormat\<close>: the interface \<^verbatim>\<open>PacketFormat\<close> as a record; \<open>frame\<close> is the relation of the
    automaton with the bytes it has seen, \<open>complete\<close> its language. The locale
    \<open>packet_format_laws\<close> is what the scanner relies on: a format looks only at its own packet and
    never indexes outside it.
  \<^item> \<open>Countdown\<close>: formats that read a length from a header and count down (a locale);
    \<open>BinFormats\<close>: the eight binary formats, each interpreted; \<open>TextFormats\<close>: the text formats.
  \<^item> \<open>NmeaSyntax\<close>: \<^verbatim>\<open>CheckSyntax\<close> of \<^verbatim>\<open>gps/lib/nmeamsg\<close>.
  \<^item> \<open>Scanner\<close>: the state and the loop of \<^verbatim>\<open>Scan\<close>, with its termination; \<open>ScannerCorrect\<close>: its
    invariant and correctness for any formats that obey the laws (the locale \<open>scanner_formats\<close>);
    \<open>Registry\<close>: the formats of the vendors, and the interpretation.
  \<^item> \<open>BitsEnc\<close>: \<^verbatim>\<open>gps/lib/bitsenc\<close>. \<open>Wire\<close>: the layouts of \<^verbatim>\<open>encoding/binary\<close>.
  \<^item> \<open>Framing\<close>: message ids, packing, parsing and serializing of UBX, CASIC, Allystar and SDBP
    (\<^verbatim>\<open>gps/lib/ubxbin\<close>, \<^verbatim>\<open>casbin\<close>, \<^verbatim>\<open>asbin\<close>, \<^verbatim>\<open>sdbpbin\<close>); \<open>MsgTable\<close>: tables of message types, as
    locales; \<open>UbxMsgs\<close>, \<open>CasMsgs\<close>, \<open>AsMsgs\<close>, \<open>SdbpMsgs\<close>: the layouts of all message structs and the
    registered types of the four protocols, interpreted.
  \<^item> \<open>GoInt\<close>, \<open>GoTime\<close>: signed integers, and what the sources use of package \<^verbatim>\<open>time\<close> with the civil
    calendar. \<open>PTime\<close>: TAI, UTC, system time and leap seconds of \<^verbatim>\<open>gps/ptime\<close>, where the date of a leap
    second is computed in the local zone of the process, an argument; \<open>LeapSearch\<close>: the search for the date of a broadcast leap second.
  \<^item> \<open>CircBuf\<close>: \<^verbatim>\<open>time/lib/circbuf\<close> and the locale \<open>sliding_window\<close>, the contract of a window over the
    last values added; \<open>Median\<close>: \<^verbatim>\<open>time/lib/median\<close>. Both interpret it.
  \<^item> \<open>SyncTypes\<close>: what the controller of the clock in \<^verbatim>\<open>time/internal/phcsync\<close> and its modes share: floating
    point as an argument of the model, samples, eras (\<^verbatim>\<open>time/phctime\<close>), the PI servo.
    \<open>ResetMode\<close> (\<^verbatim>\<open>reset.go\<close>), \<open>Converging\<close> (\<^verbatim>\<open>converging.go\<close>), \<open>Tracking\<close> (\<^verbatim>\<open>tracking.go\<close>): the
    generator and the processor of each mode; their states as inductive relations with the edges, the
    offsets and the bad samples they have seen.
  \<^item> \<open>Grandmaster\<close>: \<^verbatim>\<open>time/internal/ptpgm\<close>, both sides of the channel to the worker, as a step relation.
  \<^item> \<open>TimeMsgs\<close>: \<^verbatim>\<open>time/internal/timemsg\<close>, the buffer of time messages, and that it keeps the promise
    (\<open>env_ok\<close>) the theorems about the controller rest on.
  \<^item> \<open>Controller\<close>: \<^verbatim>\<open>controller.go\<close>, its events over the modes, the clock and the grandmaster;
    \<open>ControlSafety\<close>: the invariant of its reachable states, the rules its trace of calls obeys, and a
    run from the reset to the tracking mode.
  \<^item> \<open>ConfigProps\<close>, \<open>ConfigFlags\<close>: the configuration properties and options of a receiver and their flags
    by name (\<^verbatim>\<open>gps/gpsprot/configtarget.go\<close>), with properties as a map.
  \<^item> \<open>Director\<close>: the director of a configuration (\<^verbatim>\<open>gps/gpsprot/configprotocol.go\<close>), an iterator over a
    Configurator with its window, retries and timeouts; no request is repeated beyond the limit, and when it
    ends every failure has been reported once. \<open>ConfigReq\<close>: the state machines of the requests of three back
    ends (\<^verbatim>\<open>casic/cascfg.go\<close>, \<^verbatim>\<open>ubx/ubxcfg.go\<close>, \<^verbatim>\<open>unc/config.go\<close>), which keep one contract, a locale. \<open>UncConfig\<close>: the
    Unicore configurator, driven by the program below, keeps the contract that the director relies on.
  \<^item> \<open>CasGen\<close>, \<open>CasSet\<close>, \<open>CasConfig\<close>: the CASIC configurator (\<^verbatim>\<open>casic/cascfg*.go\<close>): its messages and requests,
    the generators that read back, set and rate, and the phases with promotion, answers and probing. \<open>CasSafety\<close>: its
    invariant over any events: one CFG message at a time, the restart last, no panic (that of \<^verbatim>\<open>serialize\<close> included). \<open>CasDirector\<close>: with the director.
  \<^item> \<open>DirectorLive\<close>: the program that drives a director (\<^verbatim>\<open>gps/app/gpscfg/gpscfg.go\<close>) and the contract under which
    the director neither panics nor gets stuck, a locale; \<open>CasLive\<close>: the CASIC configurator keeps it.
  \<^item> \<open>Pmc\<close>: the management messages sent to a PTP daemon and the client that matches its answers with the
    requests (\<^verbatim>\<open>time/lib/pmc\<close>): round trips, and that late answers never bring the client out of step.
  \<^item> \<open>RinexDiff\<close>: the comparison of two streams of observations (\<^verbatim>\<open>gps/lib/rinex/diff.go\<close>), with the
    differences of floating point numbers computed on their bits: what a stream differs from itself in.
  \<^item> \<open>Bcast\<close>: the goroutine that sends packets to its subscribers (\<^verbatim>\<open>gps/app/bcast/bcast.go\<close>), as a step relation over
    what its select chooses: every subscriber gets every message, once and in order.

  \<^bold>\<open>Bounds.\<close> No fuel but for the turns of the director's iterator, which waits for its client: its theorems
  hold for any number of turns, and that it never gets stuck is a theorem of its own. The loop of \<^verbatim>\<open>Scan\<close> is a function with a termination proof over the reader's
  script, the bytes not scanned and the formats not tried. \<^verbatim>\<open>Picoseconds\<close> and the search for a leap
  second are partial functions, and it is proved when they return. Checksums and bit fields are words of
  their width; positions are naturals, and a subtraction below zero is a panic.

  \<^bold>\<open>Not modelled.\<close> The CRC-24Q of RTCM comes from a package outside the repository and is a
  parameter. Floating point (corrections, modified Julian dates, medians of \<^verbatim>\<open>float64\<close>) and the text
  forms of times are left out. In the controller the operations on \<^verbatim>\<open>float64\<close> are an argument about which nothing is
  assumed, so its theorems hold for any rounding; logging, statistics, observers and the default
  configuration are left out. Reflection (\<^verbatim>\<open>Read\<close> and \<^verbatim>\<open>Write\<close> of structs in \<^verbatim>\<open>bitsenc\<close>) is a sequence of fields.
  Of the configuration of receivers, the requests that the u-blox, Septentrio, SDBP and Allystar back ends generate and the native
  properties of the Unicore one (an argument of its model) are left out. Sessions, observers and devices are I/O and goroutines.
\<close>

section \<open>Scanning\<close>

text \<open>C1: with the packet formats of any vendors, \<^verbatim>\<open>Scan\<close> always returns: no format indexes outside
  its packet or panics, whatever bytes and errors the reader delivers. What it returns is the
  front of the input: the packet's bytes followed by what is left for the next call are the bytes
  there were. A packet with a format is complete for that format and its checksum flag is what
  the format's two checksums say; in bytes without a format, no byte but the first could have
  started a packet (\<open>scanned\<close>).\<close>
theorem scan_safe:
  assumes "scanner_wf s" "pktFormats s = createPacketFormats crc24q vendors"
  shows "\<exists>p err s'. scan s = Some (p, err, s') \<and> scanned s p err s'"
  using registry.scan_ok [OF assms] .

theorem scan_safe_witness:
  "\<exists>p err s'. scan (newScanner [\<lparr> ri_time = 1, ri_bytes = [0x24, 0x47], ri_err = Some EOF \<rparr>] 64
        (createPacketFormats (\<lambda>_. 0) [VendorUblox])) = Some (p, err, s')
     \<and> scanned (newScanner [\<lparr> ri_time = 1, ri_bytes = [0x24, 0x47], ri_err = Some EOF \<rparr>] 64
        (createPacketFormats (\<lambda>_. 0) [VendorUblox])) p err s'"
  by (rule scan_safe [where crc24q = "\<lambda>_. 0" and vendors = "[VendorUblox]"])
    (simp_all add: scanner_wf_def newScanner_def)

text \<open>C2: a valid packet at the front of the input is found. When the reader has no errors, the
  bytes to come start with a complete packet of some format with a matching checksum, and the
  formats before it in the list give up within the packet, \<^verbatim>\<open>Scan\<close> returns exactly this packet,
  with this format and a valid checksum, however the bytes are cut into reads, and leaves the
  rest.\<close>
theorem scan_front:
  assumes "scanner_wf s" "quiet s" "pktFormats s = createPacketFormats crc24q vendors"
    and "k < length (createPacketFormats crc24q vendors)" "pf = createPacketFormats crc24q vendors ! k"
    and "complete pf pkt" "pf_extractChecksum pf pkt = pf_computeChecksum pf pkt"
    and "\<And>j. j < k \<Longrightarrow> rejects (createPacketFormats crc24q vendors ! j) pkt"
    and "pending s = pkt @ rest"
  shows "\<exists>p s'. scan s = Some (p, None, s') \<and> pk_format p = Some pf \<and> pk_data p = pkt
    \<and> pk_checksumValid p \<and> pending s' = rest"
  using registry.scan_finds [of crc24q vendors s k pkt rest] assms by (simp add: registry.target_def)

text \<open>The sentence \<^verbatim>\<open>$GP*17\<close>.\<close>

lemma sample_sentence:
  "complete nmeaFormat (nmea_sentence [0x47, 0x50] 0x31 0x37 [0x0A])"
  "nmea_extractChecksum (nmea_sentence [0x47, 0x50] 0x31 0x37 [0x0A])
    = nmea_computeChecksum (nmea_sentence [0x47, 0x50] 0x31 0x37 [0x0A])"
proof -
  have b: "nmea_body [0x47, 0x50]" by (simp add: nmea_body_two isAlnum_iff ascii_iffs)
  then show "complete nmeaFormat (nmea_sentence [0x47, 0x50] 0x31 0x37 [0x0A])"
    unfolding nmea_complete_iff
    by (intro exI [of _ "[0x47, 0x50]"] exI [of _ "0x31"] exI [of _ "0x37"] exI [of _ "[0x0A]"]) (simp add: ascii_iffs)
  show "nmea_extractChecksum (nmea_sentence [0x47, 0x50] 0x31 0x37 [0x0A])
      = nmea_computeChecksum (nmea_sentence [0x47, 0x50] 0x31 0x37 [0x0A])"
    using b by (simp add: nmea_checks upperHexVal_eq)
qed

theorem scan_front_witness:
  "\<exists>p s'. scan (newScanner [\<lparr> ri_time = 1, ri_bytes = [0x24, 0x47, 0x50, 0x2A], ri_err = None \<rparr>,
        \<lparr> ri_time = 2, ri_bytes = [0x31, 0x37, 0x0A, 0xB5], ri_err = None \<rparr>] 64 (createPacketFormats (\<lambda>_. 0) []))
      = Some (p, None, s')
     \<and> pk_format p = Some nmeaFormat \<and> pk_data p = nmea_sentence [0x47, 0x50] 0x31 0x37 [0x0A]
     \<and> pk_checksumValid p \<and> pending s' = [0xB5]"
  by (rule scan_front [where crc24q = "\<lambda>_. 0" and vendors = "[]" and k = 0])
    (use sample_sentence in \<open>simp_all add: scanner_wf_def quiet_def newScanner_def createPacketFormats_all pending_def
      script_bytes_def nmea_sentence_def nmeaFormat_def\<close>)

section \<open>Packet formats\<close>

text \<open>C7: the NMEA automaton accepts exactly the sentences with a printable body of at most 394
  characters that starts with two alphanumeric ones and has no dollar or asterisk after these, two
  upper-case hexadecimal digits, and LF or CR LF.\<close>
theorem nmea_packets: "complete nmeaFormat pkt \<longleftrightarrow> (\<exists>body h l term. pkt = nmea_sentence body h l term
    \<and> nmea_body body \<and> isUpperHexDigit h \<and> isUpperHexDigit l \<and> (term = [0x0A] \<or> term = [0x0D, 0x0A]))"
  by (rule nmea_complete_iff)

text \<open>C6: \<^verbatim>\<open>CheckSyntax\<close> never panics; it returns no flags unless the data is a sentence the NMEA
  packet format accepts, and otherwise each flag is set exactly when what it stands for holds
  (\<open>syntax_flags\<close>): the address formats, the talker by the two letters of its name, carets and their
  escapes, the characters of the data, the length and the line end; no other bit is set.\<close>
theorem checkSyntax_spec:
  "\<exists>f. checkSyntax data = Some f \<and> (if complete nmeaFormat data then syntax_flags data f else f = 0)"
  using checkSyntax_cases [of data] by (simp add: sentence_tests_iff)

section \<open>Encodings\<close>

text \<open>Fields of any widths up to 64 bits written with \<^verbatim>\<open>PutUint\<close> are read back by \<^verbatim>\<open>Uint\<close>, each
  cut to its width, whatever bytes follow the writer's.\<close>
lemma bits_roundtrip:
  assumes "widths_ok fs"
  shows "\<exists>w bytes r. write_fields (newWriter []) fs = Some w \<and> writer_bytes w = Some bytes
    \<and> read_fields (newReader (bytes @ rest)) (map snd fs) = Some (map (\<lambda>(v, n). take_bit n v) fs, r)"
proof -
  obtain w where w: "write_fields (newWriter []) fs = Some w" "writer_ok (bw_buf w) (bw_pos w)"
    "\<And>buf. \<forall>p < bw_pos w. bitat buf p = bitat (bw_buf w) p \<Longrightarrow> bw_pos w \<le> 8 * length buf \<Longrightarrow> reads_at buf 0 fs"
    using write_fields_reads [of "newWriter []" fs] assms writer_ok_new by (auto simp: newWriter_def)
  have len: "bw_pos w \<le> 8 * length (bw_buf w)" using w(2) by (simp add: writer_ok_def)
  then have "reads_at (bw_buf w @ rest) 0 fs" by (intro w(3)) (auto simp: bitat_append)
  with w(1) writer_bytes_ok [OF w(2)] show ?thesis by (auto simp: reads_at_def newReader_def)
qed

end
